(* ===== verification/Prelude.thy ===== *)
theory Prelude
  imports Main "HOL-Library.Word"
begin

text \<open>
  What the components share: the names of the C integer types, the alignment macros of
  \<open>src/types.h\<close>, and the generic lemmas on words, lists and maps that carry the component
  proofs. Nothing in this theory is specific to one component.
\<close>

unbundle bit_operations_syntax

section \<open>C integer types\<close>

type_synonym u8 = "8 word"
type_synonym u16 = "16 word"
type_synonym u32 = "32 word"
type_synonym u64 = "64 word"

text \<open>
  Rule collections: \<open>frame\<close> holds the "this operation leaves that part alone" equations of
  all components, \<open>list_upd\<close> the equations about lists updated by index.
\<close>

named_theorems frame
named_theorems list_upd

section \<open>Order\<close>

lemma less_not_le: "x < y \<Longrightarrow> \<not> y \<le> (x :: 'a::linorder)"
  by simp

text \<open>Conditional rewrites that decide the other direction of a known comparison.\<close>

lemmas order_decide = leD less_not_le

section \<open>Widths\<close>

lemma u32_bound: "unat (x :: u32) < 4294967296"
  using unsigned_less [of x, where 'a = nat] by simp

lemma u16_bound: "unat (x :: u16) < 65536"
  using unsigned_less [of x, where 'a = nat] by simp

lemma u8_bound: "unat (x :: u8) < 256"
  using unsigned_less [of x, where 'a = nat] by simp

lemma unat_of_nat_u32: "n < 4294967296 \<Longrightarrow> unat (of_nat n :: u32) = n"
  by (simp add: unat_of_nat take_bit_nat_eq_self)

lemma unat_sub_wrap32: "x < y \<Longrightarrow> unat (x - y :: u32) = 4294967296 + unat x - unat y"
  by (simp add: unat_sub_if_size word_size word_less_nat_alt)

section \<open>Alignment\<close>

text \<open>\<open>ALIGN_DOWN(x,a) = x & ~((typeof(x))(a)-1)\<close>\<close>

definition ALIGN_DOWN :: "'a::len word \<Rightarrow> 'a word \<Rightarrow> 'a word" where
  "ALIGN_DOWN x a = x AND NOT (a - 1)"

text \<open>\<open>ALIGN(x,a) = (x + (a-1)) & ~(a-1)\<close>\<close>

definition ALIGN :: "'a::len word \<Rightarrow> 'a word \<Rightarrow> 'a word" where
  "ALIGN x a = (x + (a - 1)) AND NOT (a - 1)"

lemma ALIGN_DOWN_le: "ALIGN_DOWN x a \<le> x"
  unfolding ALIGN_DOWN_def by (rule word_and_le2)

lemma word_and_split: "(x AND m) + (x AND NOT m) = (x :: 'a::len word)"
proof -
  have "(x AND m) AND (x AND NOT m) = 0" by (auto simp: bit_eq_iff bit_simps)
  moreover have "(x AND m) OR (x AND NOT m) = x" by (auto simp: bit_eq_iff bit_simps)
  ultimately show ?thesis using word_plus_and_or [of "x AND m" "x AND NOT m"] by simp
qed

lemma ALIGN_DOWN_ge: "x - ALIGN_DOWN x a \<le> a - 1"
proof -
  have "x - ALIGN_DOWN x a = x AND (a - 1)"
    using word_and_split [of x "a - 1"] by (metis ALIGN_DOWN_def add_diff_cancel_right')
  then show ?thesis by (simp add: word_and_le1)
qed

lemma ALIGN_DOWN_idem: "ALIGN_DOWN (ALIGN_DOWN x a) a = ALIGN_DOWN x a"
  by (simp add: ALIGN_DOWN_def and.assoc)

text \<open>An address aligned to \<open>a\<close>; for the powers of two the code uses, a multiple of \<open>a\<close>.\<close>

definition aligned :: "'a::len word \<Rightarrow> 'a word \<Rightarrow> bool" where
  "aligned x a \<longleftrightarrow> x AND (a - 1) = 0"

lemma aligned_ALIGN_DOWN [simp]: "aligned (ALIGN_DOWN x a) a"
  by (simp add: aligned_def ALIGN_DOWN_def bit_eq_iff bit_simps)

lemma ALIGN_DOWN_aligned: "aligned x a \<Longrightarrow> ALIGN_DOWN x a = x"
  by (auto simp: aligned_def ALIGN_DOWN_def bit_eq_iff bit_simps)

section \<open>Lists\<close>

lemma nth_append_eq [list_upd]: "length pre = i \<Longrightarrow> (pre @ x # xs) ! i = x"
  by auto

lemma update_append_eq [list_upd]: "length pre = i \<Longrightarrow> (pre @ x # xs)[i := y] = pre @ y # xs"
  by auto

lemma take_append_eq [list_upd]: "length pre = i \<Longrightarrow> take i (pre @ xs) = pre"
  by auto

lemma drop_append_eq [list_upd]: "length pre = i \<Longrightarrow> drop i (pre @ xs) = xs"
  by auto

lemma drop_Suc_append_eq [list_upd]: "length pre = i \<Longrightarrow> drop (Suc i) (pre @ x # xs) = xs"
  by auto

lemma find_append:
  "find P (xs @ ys) = (case find P xs of None \<Rightarrow> find P ys | Some x \<Rightarrow> Some x)"
  by (induction xs) auto

lemma all_less_Suc_shift: "(\<forall>i < Suc n. P i) \<longleftrightarrow> P 0 \<and> (\<forall>i < n. P (Suc i))"
  by (auto simp: less_Suc_eq_0_disj)

lemma unat_push_bit_1: "n < 32 \<Longrightarrow> unat (push_bit n 1 :: u32) = 2 ^ n"
  by (simp only: unsigned_push_bit_eq take_bit_push_bit unsigned_1) (simp add: push_bit_eq_mult)

lemma bit_le: "bit (x :: u32) n \<Longrightarrow> 2 ^ n \<le> unat x"
proof -
  assume "bit x n"
  then have "bit (unat x) n" by (simp add: bit_unsigned_iff)
  then have "odd (unat x div 2 ^ n)" by (simp add: bit_iff_odd)
  then have "unat x div 2 ^ n \<noteq> 0" by (metis even_zero)
  then show ?thesis by (metis div_less not_le)
qed

end
