(* ===== verification/E820.thy ===== *)
theory E820
  imports Prelude
begin

text \<open>
  The e820 memory map of \<open>src/memmap.c\<close> and \<open>src/memmap.h\<close>. The C array \<open>e820_list\<close> with its
  counter \<open>e820_count\<close> is the HOL list of its first \<open>e820_count\<close> entries; the array slots past
  the counter are never read. \<open>dprintf\<close> and \<open>warn_noalloc\<close> only print and are left out.
  The 64-bit addresses and sizes are words, so every sum and difference wraps as in C.

  The abstract view of the map is \<open>e820_at\<close>: the type of the entry that covers an address.
  \<open>e820_ok\<close> is the invariant the code keeps: entries are sorted, non-empty, disjoint, none is
  a hole, and two entries that touch have different types.
\<close>

section \<open>Data\<close>

definition E820_RAM :: u32 where "E820_RAM = 1"
definition E820_RESERVED :: u32 where "E820_RESERVED = 2"
definition E820_ACPI :: u32 where "E820_ACPI = 3"
definition E820_NVS :: u32 where "E820_NVS = 4"
definition E820_UNUSABLE :: u32 where "E820_UNUSABLE = 5"
definition E820_HOLE :: u32 where "E820_HOLE = - 1"

definition CONFIG_MAX_E820 :: nat where "CONFIG_MAX_E820 = 32"

lemmas e820_types = E820_RAM_def E820_RESERVED_def E820_ACPI_def E820_NVS_def
  E820_UNUSABLE_def E820_HOLE_def

record e820entry =
  e_start :: u64
  e_size :: u64
  e_type :: u32

type_synonym e820map = "e820entry list"

definition e_end :: "e820entry \<Rightarrow> u64" where
  "e_end e = e_start e + e_size e"

section \<open>Operations\<close>

definition remove_e820 :: "nat \<Rightarrow> e820map \<Rightarrow> e820map" where
  "remove_e820 i m = take i m @ drop (Suc i) m"

definition insert_e820 :: "nat \<Rightarrow> u64 \<Rightarrow> u64 \<Rightarrow> u32 \<Rightarrow> e820map \<Rightarrow> e820map" where
  "insert_e820 i start sz ty m =
     (if CONFIG_MAX_E820 \<le> length m then m
      else take i m @ \<lparr>e_start = start, e_size = sz, e_type = ty\<rparr> # drop i m)"

definition e820_type_name :: "u32 \<Rightarrow> string" where
  "e820_type_name ty =
     (if ty = E820_RAM then ''RAM''
      else if ty = E820_RESERVED then ''RESERVED''
      else if ty = E820_ACPI then ''ACPI''
      else if ty = E820_NVS then ''NVS''
      else if ty = E820_UNUSABLE then ''UNUSABLE''
      else if ty = E820_HOLE then ''HOLE''
      else ''UNKNOWN'')"

text \<open>
  The three phases of \<open>add_e820\<close>: the \<open>for\<close> loop that skips the entries ending before
  \<open>start\<close>, the merge or split of the entry it stops at, and the \<open>while\<close> loop over the
  entries the new range overlaps.
\<close>

function e820_find :: "u64 \<Rightarrow> e820map \<Rightarrow> nat \<Rightarrow> nat" where
  "e820_find start m i =
     (if i < length m \<and> start > e_end (m ! i) then e820_find start m (Suc i) else i)"
  by pat_completeness auto
termination
  by (relation "measure (\<lambda>(start, m, i). length m - i)") auto

declare e820_find.simps [simp del]

definition e820_split :: "u64 \<Rightarrow> u64 \<Rightarrow> u32 \<Rightarrow> nat \<Rightarrow> e820map \<Rightarrow> nat \<times> u64 \<times> u64 \<times> e820map" where
  "e820_split start sz ty i m =
     (if i < length m \<and> start > e_start (m ! i) then
        let e = m ! i; en = start + sz; e_en = e_end e in
        if ty = e_type e then (i, e_start e, sz + (start - e_start e), m)
        else
          let m1 = m[i := e\<lparr>e_size := start - e_start e\<rparr>] in
          (Suc i, start, sz,
           if e_en > en then insert_e820 (Suc i) en (e_en - en) (e_type e) m1 else m1)
      else (i, start, sz, m))"

function e820_overlap :: "u64 \<Rightarrow> u32 \<Rightarrow> u64 \<Rightarrow> nat \<Rightarrow> e820map \<Rightarrow> u64 \<times> e820map" where
  "e820_overlap en ty sz i m =
     (if i < length m then
        let e = m ! i; e_en = e_end e in
        if en < e_start e then (sz, m)
        else if en \<ge> e_en then e820_overlap en ty sz i (remove_e820 i m)
        else
          let m1 = m[i := e\<lparr>e_start := en, e_size := e_en - en\<rparr>] in
          if ty = e_type e then (sz + (e_en - en), remove_e820 i m1) else (sz, m1)
      else (sz, m))"
  by pat_completeness auto
termination
  by (relation "measure (\<lambda>(en, ty, sz, i, m). length m - i)") (auto simp: remove_e820_def)

declare e820_overlap.simps [simp del]

definition add_e820 :: "u64 \<Rightarrow> u64 \<Rightarrow> u32 \<Rightarrow> e820map \<Rightarrow> e820map" where
  "add_e820 start sz ty m =
     (if sz = 0 then m
      else
        let en = start + sz;
            i = e820_find start m 0;
            (i, start, sz, m) = e820_split start sz ty i m;
            (sz, m) = e820_overlap en ty sz i m
        in if ty \<noteq> E820_HOLE then insert_e820 i start sz ty m else m)"

section \<open>Abstract view and invariant\<close>

definition e820_covers :: "e820entry \<Rightarrow> u64 \<Rightarrow> bool" where
  "e820_covers e a \<longleftrightarrow> e_start e \<le> a \<and> a < e_end e"

fun e820_at :: "e820map \<Rightarrow> u64 \<Rightarrow> u32 option" where
  "e820_at [] a = None"
| "e820_at (e # m) a = (if e820_covers e a then Some (e_type e) else e820_at m a)"

definition e820_before :: "e820entry \<Rightarrow> e820entry \<Rightarrow> bool" where
  "e820_before x y \<longleftrightarrow> e_end x \<le> e_start y \<and> (e_end x = e_start y \<longrightarrow> e_type x \<noteq> e_type y)"

definition e820_entry_ok :: "e820entry \<Rightarrow> bool" where
  "e820_entry_ok e \<longleftrightarrow> e_start e < e_end e \<and> e_type e \<noteq> E820_HOLE"

definition e820_ok :: "e820map \<Rightarrow> bool" where
  "e820_ok m \<longleftrightarrow> sorted_wrt e820_before m \<and> (\<forall>e \<in> set m. e820_entry_ok e)"

section \<open>The loops on lists\<close>

text \<open>The \<open>for\<close> loop is \<open>takeWhile\<close>; the \<open>while\<close> loop trims the rest of the list.\<close>

lemma e820_find_takeWhile:
  "e820_find start (pre @ rest) (length pre) =
     length pre + length (takeWhile (\<lambda>e. start > e_end e) rest)"
proof (induction rest arbitrary: pre)
  case Nil
  then show ?case by (simp add: e820_find.simps)
next
  case (Cons e rest)
  show ?case
    using Cons [of "pre @ [e]"] by (auto simp: e820_find.simps [of start _ "length pre"] list_upd)
qed

fun e820_trim :: "u64 \<Rightarrow> u32 \<Rightarrow> u64 \<Rightarrow> e820map \<Rightarrow> u64 \<times> e820map" where
  "e820_trim en ty sz [] = (sz, [])"
| "e820_trim en ty sz (e # es) =
     (if en < e_start e then (sz, e # es)
      else if en \<ge> e_end e then e820_trim en ty sz es
      else if ty = e_type e then (sz + (e_end e - en), es)
      else (sz, e\<lparr>e_start := en, e_size := e_end e - en\<rparr> # es))"

lemma e820_overlap_trim:
  "e820_overlap en ty sz (length pre) (pre @ rest) =
     (fst (e820_trim en ty sz rest), pre @ snd (e820_trim en ty sz rest))"
proof (induction rest)
  case Nil
  then show ?case by (simp add: e820_overlap.simps)
next
  case (Cons e rest)
  then show ?case
    by (subst e820_overlap.simps) (auto simp: list_upd Let_def remove_e820_def)
qed

lemma insert_e820_append:
  "length (pre @ rest) < CONFIG_MAX_E820 \<Longrightarrow>
   insert_e820 (length pre) start sz ty (pre @ rest) =
     pre @ \<lparr>e_start = start, e_size = sz, e_type = ty\<rparr> # rest"
  by (simp add: insert_e820_def)

section \<open>Lemmas on the abstract view\<close>

lemma e820_at_append:
  "e820_at (m1 @ m2) a = (case e820_at m1 a of None \<Rightarrow> e820_at m2 a | Some t \<Rightarrow> Some t)"
  by (induction m1) auto

lemma e820_at_None: "(\<And>e. e \<in> set m \<Longrightarrow> \<not> e820_covers e a) \<Longrightarrow> e820_at m a = None"
  by (induction m) auto

lemma e820_at_below: "(\<And>e. e \<in> set m \<Longrightarrow> a < e_start e) \<Longrightarrow> e820_at m a = None"
  by (rule e820_at_None) (force simp: e820_covers_def)

lemma e820_at_above: "(\<And>e. e \<in> set m \<Longrightarrow> e_end e \<le> a) \<Longrightarrow> e820_at m a = None"
  by (rule e820_at_None) (force simp: e820_covers_def)

lemma e820_at_not_hole: "e820_ok m \<Longrightarrow> e820_at m a \<noteq> Some E820_HOLE"
  by (induction m) (auto simp: e820_ok_def e820_entry_ok_def)

lemma e820_ok_Nil [simp]: "e820_ok []"
  by (simp add: e820_ok_def)

lemma e820_ok_Cons:
  "e820_ok (e # m) \<longleftrightarrow> e820_entry_ok e \<and> (\<forall>y \<in> set m. e820_before e y) \<and> e820_ok m"
  by (auto simp: e820_ok_def)

lemma e820_ok_append:
  "e820_ok (m1 @ m2) \<longleftrightarrow>
     e820_ok m1 \<and> e820_ok m2 \<and> (\<forall>x \<in> set m1. \<forall>y \<in> set m2. e820_before x y)"
  by (auto simp: e820_ok_def sorted_wrt_append)

lemma e_end_simps [simp]:
  "e_end \<lparr>e_start = s, e_size = z, e_type = t\<rparr> = s + z"
  "e_end (e\<lparr>e_size := z\<rparr>) = e_start e + z"
  "e_end (e\<lparr>e_start := s, e_size := z\<rparr>) = s + z"
  by (simp_all add: e_end_def)

lemma e820_size_end: "s + (e_end e - s) = e_end e" "(e_end e - s) + s = e_end e"
  by simp_all

text \<open>
  What the \<open>while\<close> loop does above the end \<open>en\<close> of the new range: the surviving entries stay
  in order and start past the possibly extended end \<open>en'\<close>, and no address changes its type
  except those the extension merges.
\<close>

lemma e820_trim_props:
  assumes "e820_trim en ty sz rest = (sz', T)" and "e820_ok rest"
  defines "en' \<equiv> en + (sz' - sz)"
  shows "e820_ok T \<and> en \<le> en' \<and> length T \<le> length rest
    \<and> (\<forall>y \<in> set T. en' \<le> e_start y \<and> (en' = e_start y \<longrightarrow> ty \<noteq> e_type y))
    \<and> (\<forall>a \<ge> en. e820_at rest a = (if a < en' then Some ty else e820_at T a))"
  using assms(1,2) unfolding en'_def
proof (induction rest)
  case Nil
  then show ?case by auto
next
  case (Cons e es)
  have e: "e_start e < e_end e" "e_type e \<noteq> E820_HOLE" and es: "e820_ok es"
    and lt: "\<And>y. y \<in> set es \<Longrightarrow> e_end e \<le> e_start y"
    and ne: "\<And>y. y \<in> set es \<Longrightarrow> e_end e = e_start y \<Longrightarrow> e_type e \<noteq> e_type y"
    using Cons.prems(2) by (auto simp: e820_ok_Cons e820_entry_ok_def e820_before_def)
  consider (before) "en < e_start e" | (covered) "e_start e \<le> en" "e_end e \<le> en"
    | (cut) "e_start e \<le> en" "en < e_end e"
    by fastforce
  then show ?case
  proof cases
    case before
    have gt: "en < e_start y" if "y \<in> set (e # es)" for y
      using that before e(1) lt [of y] by auto
    have "\<forall>y \<in> set (e # es). en \<le> e_start y \<and> (en = e_start y \<longrightarrow> ty \<noteq> e_type y)"
    proof
      fix y assume "y \<in> set (e # es)"
      with gt [of y] show "en \<le> e_start y \<and> (en = e_start y \<longrightarrow> ty \<noteq> e_type y)"
        by auto
    qed
    then show ?thesis
      using Cons.prems before by auto
  next
    case covered
    then have tr: "e820_trim en ty sz es = (sz', T)" using Cons.prems(1) by (simp add: leD)
    have "e820_at (e # es) a = e820_at es a" if "en \<le> a" for a
      using that covered by (auto simp: e820_covers_def)
    with Cons.IH [OF tr es] show ?thesis by auto
  next
    case cut
    have low: "e820_at es a = None" if "a < e_end e" for a
      using that lt by (auto intro!: e820_at_below dest: order.strict_trans2)
    have gt: "en < e_start y" if "y \<in> set es" for y
      using lt [OF that] cut(2) by order
    show ?thesis
    proof (cases "ty = e_type e")
      case True
      then have "sz' = sz + (e_end e - en)" "T = es"
        using Cons.prems(1) cut by (auto simp: order_decide)
      moreover have "e820_at (e # es) a = (if a < e_end e then Some ty else e820_at es a)"
        if "en \<le> a" for a
        using that cut True by (auto simp: e820_covers_def)
      ultimately show ?thesis using es lt ne cut True by auto
    next
      case False
      let ?e = "e\<lparr>e_start := en, e_size := e_end e - en\<rparr>"
      have T: "sz' = sz" "T = ?e # es"
        using Cons.prems(1) cut False by (auto simp: order_decide)
      moreover have "e820_ok (?e # es)"
        using cut e es lt ne by (auto simp: e820_ok_Cons e820_entry_ok_def e820_before_def)
      moreover have "\<forall>y \<in> set (?e # es). en \<le> e_start y \<and> (en = e_start y \<longrightarrow> ty \<noteq> e_type y)"
        using gt False by force
      moreover have "e820_at (e # es) a = e820_at (?e # es) a" if "en \<le> a" for a
        using that cut by (auto simp: e820_covers_def)
      ultimately show ?thesis by auto
    qed
  qed
qed

text \<open>
  The tail of \<open>add_e820\<close> from the merge or split on, on a map \<open>pre @ rest\<close> whose entries
  \<open>pre\<close> all end at or before \<open>start\<close>: the \<open>while\<close> loop and the final insertion.
\<close>

definition e820_finish :: "u64 \<Rightarrow> u64 \<Rightarrow> u64 \<Rightarrow> u32 \<Rightarrow> nat \<Rightarrow> e820map \<Rightarrow> e820map" where
  "e820_finish en start sz ty i m =
     (let (sz, m) = e820_overlap en ty sz i m
      in if ty \<noteq> E820_HOLE then insert_e820 i start sz ty m else m)"

lemma add_e820_finish:
  "add_e820 start sz ty m =
     (if sz = 0 then m
      else case e820_split start sz ty (e820_find start m 0) m of
        (i, s, z, m1) \<Rightarrow> e820_finish (start + sz) s z ty i m1)"
  by (simp add: add_e820_def e820_finish_def Let_def split: prod.splits)

lemma e820_finish_props:
  assumes ok: "e820_ok pre" "e820_ok rest"
    and room: "length pre + length rest < CONFIG_MAX_E820"
    and pre: "\<And>x. x \<in> set pre \<Longrightarrow> e_end x \<le> s \<and> (e_end x = s \<longrightarrow> e_type x \<noteq> ty)"
    and sep: "\<And>x y. x \<in> set pre \<Longrightarrow> y \<in> set rest \<Longrightarrow> e820_before x y"
    and range: "s < en" "s + z = en"
  shows "e820_ok (e820_finish en s z ty (length pre) (pre @ rest))
    \<and> (\<forall>a. e820_at (e820_finish en s z ty (length pre) (pre @ rest)) a =
         (if a < s then e820_at pre a
          else if a < en then (if ty = E820_HOLE then None else Some ty)
          else e820_at rest a))
    \<and> length (e820_finish en s z ty (length pre) (pre @ rest)) \<le> length pre + length rest + 1"
proof -
  obtain z' T where tr: "e820_trim en ty z rest = (z', T)" by force
  define en' where "en' = en + (z' - z)"
  have T: "e820_ok T" "en \<le> en'" "length T \<le> length rest"
    "\<And>y. y \<in> set T \<Longrightarrow> en' \<le> e_start y"
    "\<And>y. y \<in> set T \<Longrightarrow> en' = e_start y \<Longrightarrow> ty \<noteq> e_type y"
    "\<And>a. a \<ge> en \<Longrightarrow> e820_at rest a = (if a < en' then Some ty else e820_at T a)"
    using e820_trim_props [OF tr ok(2)] unfolding en'_def by blast+
  have sz: "s + z' = en'" using range(2) by (simp add: en'_def algebra_simps)
  have below_T: "e820_at T a = None" if "a < en'" for a
    using that T(4) by (auto intro!: e820_at_below dest: order.strict_trans2)
  have above_pre: "e820_at pre a = None" if "s \<le> a" for a
    using that pre by (auto intro!: e820_at_above dest: order.trans)
  have lt: "s < en'" using range(1) T(2) by (rule order.strict_trans2)
  have pre_T: "e820_before x y" if "x \<in> set pre" "y \<in> set T" for x y
    using pre [OF that(1)] T(4) [OF that(2)] lt unfolding e820_before_def by auto
  show ?thesis
  proof (cases "ty = E820_HOLE")
    case True
    then have "e820_finish en s z ty (length pre) (pre @ rest) = pre @ T"
      using tr by (simp add: e820_finish_def e820_overlap_trim)
    moreover have "e820_at (pre @ T) a =
        (if a < s then e820_at pre a else if a < en then None else e820_at rest a)" for a
    proof -
      have "e820_at T a = e820_at rest a" if "a \<ge> en"
        using T(6) [OF that] e820_at_not_hole [OF ok(2), of a] True by (auto split: if_splits)
      moreover have "e820_at T a = None" if "a < en"
        using that T(2) below_T by auto
      ultimately show ?thesis
        using above_pre [of a] range(1) by (auto simp: e820_at_append split: option.splits)
    qed
    ultimately show ?thesis
      using ok(1) T(1,3) pre_T True by (simp add: e820_ok_append)
  next
    case False
    define new where "new = \<lparr>e_start = s, e_size = z', e_type = ty\<rparr>"
    have new [simp]: "e_start new = s" "e_end new = en'" "e_type new = ty"
      using sz by (simp_all add: new_def)
    have fin: "e820_finish en s z ty (length pre) (pre @ rest) = pre @ new # T"
      using tr False room T(3)
      by (simp add: e820_finish_def e820_overlap_trim insert_e820_append new_def)
    have "e820_ok (pre @ new # T)"
      using ok(1) T(1,4,5) pre_T pre lt False
      by (auto simp: e820_ok_append e820_ok_Cons e820_entry_ok_def e820_before_def)
    moreover have "e820_at (pre @ new # T) a =
        (if a < s then e820_at pre a else if a < en then Some ty else e820_at rest a)" for a
      using T(2,6) lt below_T above_pre
      by (auto simp: e820_at_append e820_covers_def split: option.splits)
    ultimately show ?thesis using fin False T(3) by simp
  qed
qed

text \<open>The same, relative to the map \<open>m\<close> the routine started from.\<close>

lemma e820_finish_combine:
  assumes fin: "e820_ok pre" "e820_ok rest" "length pre + length rest < CONFIG_MAX_E820"
    "\<And>x. x \<in> set pre \<Longrightarrow> e_end x \<le> s \<and> (e_end x = s \<longrightarrow> e_type x \<noteq> ty)"
    "\<And>x y. x \<in> set pre \<Longrightarrow> y \<in> set rest \<Longrightarrow> e820_before x y"
    "s < start + sz" "s + z = start + sz"
    and rng: "start < start + sz"
    and at: "s \<le> start" "\<And>a. a < s \<Longrightarrow> e820_at m a = e820_at pre a"
    "\<And>a. s \<le> a \<Longrightarrow> a < start \<Longrightarrow> ty \<noteq> E820_HOLE \<and> e820_at m a = Some ty"
    "\<And>a. start + sz \<le> a \<Longrightarrow> e820_at m a = e820_at rest a"
    and m1: "m1 = pre @ rest" "i = length pre"
  shows "e820_ok (e820_finish (start + sz) s z ty i m1)
    \<and> (\<forall>a. e820_at (e820_finish (start + sz) s z ty i m1) a =
         (if start \<le> a \<and> a < start + sz then (if ty = E820_HOLE then None else Some ty)
          else e820_at m a))
    \<and> length (e820_finish (start + sz) s z ty i m1) \<le> length m1 + 1"
proof -
  note F = e820_finish_props [OF fin, folded m1]
  have "e820_at (e820_finish (start + sz) s z ty i m1) a =
         (if start \<le> a \<and> a < start + sz then (if ty = E820_HOLE then None else Some ty)
          else e820_at m a)" for a
  proof -
    consider "a < s" | "s \<le> a" "a < start" | "start \<le> a" "a < start + sz"
      | "start \<le> a" "start + sz \<le> a"
      by fastforce
    then show ?thesis
    proof cases
      case 1
      moreover have "\<not> start \<le> a" using 1 at(1) by order
      ultimately show ?thesis using F at(2) by simp
    next
      case 2
      moreover have "\<not> a < s" "a < start + sz" "\<not> start \<le> a" using 2 rng by order+
      ultimately show ?thesis using F at(3) [of a] by simp
    next
      case 3
      moreover have "\<not> a < s" using 3 at(1) by order
      ultimately show ?thesis using F by simp
    next
      case 4
      moreover have "\<not> a < s" using 4 at(1) by order
      ultimately show ?thesis using F at(4) by (simp add: order_decide)
    qed
  qed
  then show ?thesis using F m1 by simp
qed

lemma e820_split_append:
  assumes "i = length pre"
  shows "e820_split start sz ty i (pre @ rest) =
    (case rest of [] \<Rightarrow> (i, start, sz, pre)
     | e # es \<Rightarrow>
       if start \<le> e_start e then (i, start, sz, pre @ rest)
       else if ty = e_type e then (i, e_start e, sz + (start - e_start e), pre @ rest)
       else (Suc i, start, sz,
         (if e_end e > start + sz
          then insert_e820 (Suc i) (start + sz) (e_end e - (start + sz)) (e_type e)
                 (pre @ e\<lparr>e_size := start - e_start e\<rparr> # es)
          else pre @ e\<lparr>e_size := start - e_start e\<rparr> # es)))"
  using assms by (cases rest) (auto simp: e820_split_def list_upd Let_def)

lemma insert_e820_Suc:
  "length pre + length rest + 1 < CONFIG_MAX_E820 \<Longrightarrow>
   insert_e820 (Suc (length pre)) start sz ty (pre @ x # rest) =
     (pre @ [x]) @ \<lparr>e_start = start, e_size = sz, e_type = ty\<rparr> # rest"
  using insert_e820_append [of "pre @ [x]" rest start sz ty] by simp

text \<open>The whole routine on the map split where the \<open>for\<close> loop stops.\<close>

lemma add_e820_split_props:
  assumes ok: "e820_ok (A @ B)" and room: "length (A @ B) + 2 \<le> CONFIG_MAX_E820"
    and A: "\<And>x. x \<in> set A \<Longrightarrow> e_end x < start"
    and B: "\<And>e es. B = e # es \<Longrightarrow> start \<le> e_end e"
    and range: "start < start + sz"
    and sp: "e820_split start sz ty (length A) (A @ B) = (i, s, z, m1)"
  shows "e820_ok (e820_finish (start + sz) s z ty i m1)
    \<and> (\<forall>a. e820_at (e820_finish (start + sz) s z ty i m1) a =
         (if start \<le> a \<and> a < start + sz then (if ty = E820_HOLE then None else Some ty)
          else e820_at (A @ B) a))
    \<and> length (e820_finish (start + sz) s z ty i m1) \<le> length (A @ B) + 2"
proof (cases B)
  case Nil
  then have "i = length A" "s = start" "z = sz" "m1 = A @ []"
    using sp e820_split_append [of "length A" A start sz ty "[]"] by auto
  moreover have "e820_at A a = None" if "start \<le> a" for a
    using that by (intro e820_at_above) (drule A, order)
  ultimately show ?thesis
    using e820_finish_combine [of A "[]" start ty start sz sz "A @ B" m1 i] ok room A range Nil
    by (fastforce simp: e820_at_append)
next
  case (Cons e es)
  have okA: "e820_ok A" and okB: "e820_ok (e # es)" and e: "e820_entry_ok e" and es: "e820_ok es"
    and sep: "\<And>x y. x \<in> set A \<Longrightarrow> y \<in> set (e # es) \<Longrightarrow> e820_before x y"
    and e_es: "\<And>y. y \<in> set es \<Longrightarrow> e820_before e y"
    using ok Cons by (auto simp: e820_ok_append e820_ok_Cons)
  have se: "start \<le> e_end e" using B Cons by auto
  have A_None: "e820_at A a = None" if "e_start e \<le> a" for a
    using that sep by (intro e820_at_above) (force simp: e820_before_def)
  have A_start: "e820_at A a = None" if "start \<le> a" for a
    using that by (intro e820_at_above) (drule A, order)
  have es_None: "e820_at es a = None" if "a < e_end e" for a
    using that e_es by (intro e820_at_below) (force simp: e820_before_def)
  have B_None: "e820_at (e # es) a = None" if "a < e_start e" for a
    using that e es_None [of a] by (auto simp: e820_covers_def e820_entry_ok_def)
  have es_start: "start \<le> e_start y" if "y \<in> set es" for y
    using e_es [OF that] se by (auto simp: e820_before_def)
  have A_ty: "e_end x \<le> start \<and> (e_end x = start \<longrightarrow> e_type x \<noteq> ty)" if "x \<in> set A" for x
    using A [OF that] by auto
  consider (skip) "start \<le> e_start e" | (merge) "e_start e < start" "ty = e_type e"
    | (split) "e_start e < start" "ty \<noteq> e_type e"
    by fastforce
  then show ?thesis
  proof cases
    case skip
    then have m1: "m1 = A @ e # es" "i = length A" and sz: "s = start" "z = sz"
      using sp Cons by (auto simp: e820_split_append)
    have low: "e820_at (A @ B) a = e820_at A a" if "a < start" for a
      using B_None [of a] that skip Cons by (auto simp: e820_at_append split: option.splits)
    have high: "e820_at (A @ B) a = e820_at (e # es) a" if "start + sz \<le> a" for a
      using A_start [of a] that range Cons by (auto simp: e820_at_append)
    have m1_len: "length m1 = length (A @ B)" by (simp add: m1 Cons)
    show ?thesis
      using e820_finish_combine [of A "e # es" start ty start sz sz "A @ B" m1 i, OF okA okB _ A_ty sep
          range _ range _ low _ high m1] room Cons sz m1_len by (auto simp: order_decide)
  next
    case merge
    then have m1: "m1 = A @ e # es" "i = length A"
      and sz: "s = e_start e" "z = sz + (start - e_start e)"
      using sp Cons by (auto simp: e820_split_append order_decide)
    have m1_len: "length m1 = length (A @ B)" by (simp add: m1 Cons)
    have bnd: "e_end x \<le> e_start e \<and> (e_end x = e_start e \<longrightarrow> e_type x \<noteq> ty)"
      if "x \<in> set A" for x
      using sep [OF that, of e] merge by (auto simp: e820_before_def)
    have lt: "e_start e < start + sz" using merge range by simp
    have mid: "ty \<noteq> E820_HOLE \<and> e820_at (A @ B) a = Some ty" if "e_start e \<le> a" "a < start" for a
      using that A_None se merge e Cons
      by (auto simp: e820_at_append e820_covers_def e820_entry_ok_def)
    have low: "e820_at (A @ B) a = e820_at A a" if "a < e_start e" for a
      using B_None [of a] that Cons by (auto simp: e820_at_append split: option.splits)
    have high: "e820_at (A @ B) a = e820_at (e # es) a" if "start + sz \<le> a" for a
      using A_start [of a] that range Cons by (auto simp: e820_at_append)
    have zz: "e_start e + (sz + (start - e_start e)) = start + sz" by simp
    show ?thesis
      using e820_finish_combine [of A "e # es" "e_start e" ty start sz "sz + (start - e_start e)"
          "A @ B" m1 i, OF okA okB _ bnd sep lt zz range less_imp_le [OF merge(1)] low mid high m1] room Cons sz merge m1_len
      by auto
  next
    case split
    define e1 where "e1 = e\<lparr>e_size := start - e_start e\<rparr>"
    have e1 [simp]: "e_start e1 = e_start e" "e_end e1 = start" "e_type e1 = e_type e"
      by (simp_all add: e1_def)
    define rest where "rest =
      (if e_end e > start + sz
       then \<lparr>e_start = start + sz, e_size = e_end e - (start + sz), e_type = e_type e\<rparr> # es else es)"
    have ins: "insert_e820 (Suc (length A)) (start + sz) (e_end e - (start + sz)) (e_type e)
        (A @ e1 # es) = (A @ [e1]) @
          \<lparr>e_start = start + sz, e_size = e_end e - (start + sz), e_type = e_type e\<rparr> # es"
      using room Cons by (intro insert_e820_Suc) simp
    have "e820_split start sz ty (length A) (A @ B) = (length (A @ [e1]), start, sz, (A @ [e1]) @ rest)"
      using split ins
      by (simp add: Cons e820_split_append rest_def order_decide flip: e1_def)
    then have m1: "m1 = (A @ [e1]) @ rest" "i = length (A @ [e1])" and sz: "s = start" "z = sz"
      using sp by simp_all
    have m1_len: "length m1 \<le> length (A @ B) + 1"
      using Cons by (simp add: m1 rest_def)
    have room': "length (A @ [e1]) + length rest < CONFIG_MAX_E820"
      using Cons room by (simp add: rest_def)
    have rest_ok: "e820_ok rest"
      using e e_es es by (auto simp: rest_def e820_ok_Cons e820_entry_ok_def e820_before_def)
    have pre_ok: "e820_ok (A @ [e1])"
      using okA sep e split
      by (simp add: e820_ok_append e820_ok_Cons e820_entry_ok_def e820_before_def)
    have bnd: "e_end x \<le> start \<and> (e_end x = start \<longrightarrow> e_type x \<noteq> ty)" if "x \<in> set (A @ [e1])" for x
    proof (cases "x = e1")
      case True
      then show ?thesis using split by simp
    next
      case False
      with that show ?thesis by (intro A_ty) simp
    qed
    have rest_sep: "e820_before x y" if "x \<in> set (A @ [e1])" "y \<in> set rest" for x y
    proof (cases "y \<in> set es")
      case True
      have "e820_before e1 y"
        using e_es [OF True] split e se unfolding e820_before_def by auto
      moreover have "e820_before x y" if "x \<in> set A"
        using sep [OF that, of y] True by simp
      ultimately show ?thesis using that(1) by auto
    next
      case False
      then have "e_start y = start + sz" using that(2) by (auto simp: rest_def split: if_splits)
      then show ?thesis using bnd [OF that(1)] range by (auto simp: e820_before_def)
    qed
    have low: "e820_at (A @ B) a = e820_at (A @ [e1]) a" if "a < start" for a
      using that se es_None [of a] Cons
      by (auto simp: e820_at_append e820_covers_def split: option.splits)
    have high: "e820_at (A @ B) a = e820_at rest a" if "start + sz \<le> a" for a
    proof -
      have "e820_at A a = None" and "e_start e \<le> a"
        using A_start [of a] that range split by auto
      then show ?thesis
        using that Cons range by (auto simp: e820_at_append rest_def e820_covers_def)
    qed
    show ?thesis
      using e820_finish_combine [of "A @ [e1]" rest start ty start sz sz "A @ B" m1 i,
          OF pre_ok rest_ok room' bnd rest_sep range _ range _ low _ high m1] sz m1_len
      by (simp add: order_decide)
  qed
qed

section \<open>Correctness of add_e820\<close>

lemma e820_scan_parts:
  fixes m :: e820map and start :: u64
  defines "A \<equiv> takeWhile (\<lambda>e. start > e_end e) m" and "B \<equiv> dropWhile (\<lambda>e. start > e_end e) m"
  shows "e820_find start m 0 = length A" "m = A @ B"
    "\<And>x. x \<in> set A \<Longrightarrow> e_end x < start" "\<And>e es. B = e # es \<Longrightarrow> start \<le> e_end e"
proof -
  show "e820_find start m 0 = length A"
    using e820_find_takeWhile [of start "[]" m] by (simp add: A_def)
  show "m = A @ B" by (simp add: A_def B_def)
  show "\<And>x. x \<in> set A \<Longrightarrow> e_end x < start" by (auto simp: A_def dest: set_takeWhileD)
  show "\<And>e es. B = e # es \<Longrightarrow> start \<le> e_end e"
    by (auto simp: B_def dest: dropWhile_eq_Cons_conv [THEN iffD1])
qed

lemma add_e820_spec:
  assumes ok: "e820_ok m" and room: "length m + 2 \<le> CONFIG_MAX_E820"
    and range: "start < start + sz"
  shows "e820_ok (add_e820 start sz ty m)
    \<and> (\<forall>a. e820_at (add_e820 start sz ty m) a =
         (if start \<le> a \<and> a < start + sz then (if ty = E820_HOLE then None else Some ty)
          else e820_at m a))
    \<and> length (add_e820 start sz ty m) \<le> length m + 2"
proof -
  define A where "A = takeWhile (\<lambda>e. start > e_end e) m"
  define B where "B = dropWhile (\<lambda>e. start > e_end e) m"
  note parts = e820_scan_parts [where start = start and m = m, folded A_def B_def]
  obtain i s z m1 where sp: "e820_split start sz ty (length A) (A @ B) = (i, s, z, m1)"
    by (metis prod_cases4)
  have "sz \<noteq> 0" using range by auto
  then have "add_e820 start sz ty m = e820_finish (start + sz) s z ty i m1"
    using sp parts(1,2) by (simp add: add_e820_finish)
  then show ?thesis
    using add_e820_split_props [OF _ _ parts(3,4) range sp] ok room parts(2) by simp
qed

lemma add_e820_zero: "add_e820 start 0 ty m = m"
  by (simp add: add_e820_def)

section \<open>The map as an interface\<close>

text \<open>
  What a client of the map relies on: after \<open>add\<close> of a range, a lookup inside the range
  returns the new type and a lookup outside is unchanged. \<open>inv n\<close> is the provider's invariant
  together with room for \<open>n\<close> more additions.
\<close>

locale range_map =
  fixes inv :: "nat \<Rightarrow> 'm \<Rightarrow> bool"
    and add :: "'a::linorder \<Rightarrow> 'a \<Rightarrow> 't \<Rightarrow> 'm \<Rightarrow> 'm"
    and look :: "'m \<Rightarrow> 'a \<Rightarrow> 'v option"
    and val :: "'t \<Rightarrow> 'v option"
  assumes add_inv: "inv (Suc n) m \<Longrightarrow> lo < hi \<Longrightarrow> inv n (add lo hi t m)"
    and look_add: "inv (Suc n) m \<Longrightarrow> lo < hi \<Longrightarrow>
      look (add lo hi t m) a = (if lo \<le> a \<and> a < hi then val t else look m a)"
begin

fun add_all :: "('a \<times> 'a \<times> 't) list \<Rightarrow> 'm \<Rightarrow> 'm" where
  "add_all [] m = m"
| "add_all ((lo, hi, t) # rs) m = add_all rs (add lo hi t m)"

fun last_covering :: "('a \<times> 'a \<times> 't) list \<Rightarrow> 'a \<Rightarrow> 't option" where
  "last_covering [] a = None"
| "last_covering ((lo, hi, t) # rs) a =
     (case last_covering rs a of
        Some t' \<Rightarrow> Some t'
      | None \<Rightarrow> if lo \<le> a \<and> a < hi then Some t else None)"

text \<open>A sequence of additions: the last range that covers an address decides its type.\<close>

lemma add_all_look:
  "inv (length rs + n) m \<Longrightarrow> (\<forall>r \<in> set rs. fst r < fst (snd r)) \<Longrightarrow>
   inv n (add_all rs m)
   \<and> look (add_all rs m) a = (case last_covering rs a of None \<Rightarrow> look m a | Some t \<Rightarrow> val t)"
proof (induction rs arbitrary: m)
  case Nil
  then show ?case by simp
next
  case (Cons r rs)
  obtain lo hi t where r: "r = (lo, hi, t)" by (cases r)
  have inv: "inv (length rs + n) (add lo hi t m)" and lt: "lo < hi"
    using Cons.prems r by (auto intro!: add_inv)
  have "look (add lo hi t m) a = (if lo \<le> a \<and> a < hi then val t else look m a)"
    using look_add [of "length rs + n" m lo hi t a] Cons.prems(1) lt by simp
  with Cons.IH [OF inv] Cons.prems(2) r show ?case by (auto split: option.splits)
qed

lemma add_disjoint_commute:
  assumes "inv (Suc (Suc n)) m" "lo < hi" "lo' < hi'" "hi \<le> lo' \<or> hi' \<le> lo"
  shows "look (add lo hi t (add lo' hi' t' m)) = look (add lo' hi' t' (add lo hi t m))"
proof
  fix a
  have "inv (Suc n) (add lo' hi' t' m)" "inv (Suc n) (add lo hi t m)"
    using assms by (auto intro: add_inv)
  then show "look (add lo hi t (add lo' hi' t' m)) a = look (add lo' hi' t' (add lo hi t m)) a"
    using assms by (auto simp: look_add [of n] look_add [of "Suc n"])
qed

end

definition e820_room :: "nat \<Rightarrow> e820map \<Rightarrow> bool" where
  "e820_room n m \<longleftrightarrow> e820_ok m \<and> length m + 2 * n \<le> CONFIG_MAX_E820"

definition e820_val :: "u32 \<Rightarrow> u32 option" where
  "e820_val ty = (if ty = E820_HOLE then None else Some ty)"

definition e820_add_range :: "u64 \<Rightarrow> u64 \<Rightarrow> u32 \<Rightarrow> e820map \<Rightarrow> e820map" where
  "e820_add_range lo hi ty m = add_e820 lo (hi - lo) ty m"

interpretation e820: range_map e820_room e820_add_range e820_at e820_val
proof unfold_locales
  fix n m ty and lo hi a :: u64
  assume room: "e820_room (Suc n) m" and lt: "lo < hi"
  then have spec: "e820_ok m" "length m + 2 \<le> CONFIG_MAX_E820" "lo < lo + (hi - lo)"
    by (simp_all add: e820_room_def)
  show "e820_room n (e820_add_range lo hi ty m)"
    using add_e820_spec [OF spec, of ty] room by (simp add: e820_room_def e820_add_range_def)
  show "e820_at (e820_add_range lo hi ty m) a =
      (if lo \<le> a \<and> a < hi then e820_val ty else e820_at m a)"
    using add_e820_spec [OF spec, of ty] by (simp add: e820_add_range_def e820_val_def)
qed

section \<open>Properties\<close>

text \<open>C2: on a well-formed map with two free slots, \<open>add_e820\<close> of a non-empty range gives every
  address of the range the new type (none for \<open>E820_HOLE\<close>), leaves every other address as it was,
  and the map is again sorted, disjoint, free of holes and merged.\<close>

theorem add_e820_correct:
  assumes "e820_ok m" and "length m + 2 \<le> CONFIG_MAX_E820" and "start < start + sz"
  shows "e820_ok (add_e820 start sz ty m)
    \<and> (\<forall>a. e820_at (add_e820 start sz ty m) a =
      (if start \<le> a \<and> a < start + sz then (if ty = E820_HOLE then None else Some ty)
       else e820_at m a))"
  using add_e820_spec [OF assms, of ty] by simp

definition e820_sample :: e820map where
  "e820_sample =
    [\<lparr>e_start = 0, e_size = 0xa0000, e_type = E820_RAM\<rparr>,
     \<lparr>e_start = 0x100000, e_size = 0x7f00000, e_type = E820_RAM\<rparr>]"

lemma e820_sample_ok: "e820_ok e820_sample"
  by (simp add: e820_sample_def e820_ok_def e820_entry_ok_def e820_before_def e820_types)

theorem add_e820_correct_witness:
  "e820_at (add_e820 0x7000000 0x1000 E820_RESERVED e820_sample) 0x7000800 = Some E820_RESERVED"
proof -
  have "length e820_sample + 2 \<le> CONFIG_MAX_E820"
    by (simp add: e820_sample_def CONFIG_MAX_E820_def)
  from add_e820_correct [OF e820_sample_ok this, of "0x7000000" "0x1000" E820_RESERVED]
  show ?thesis by (simp add: e820_types)
qed

text \<open>A sequence of additions, as the boot code makes, is a last-writer-wins overlay: with
  room for all of them the map stays well formed and an address has the type of the last range
  of the sequence that covers it, or its old type.\<close>

theorem add_e820_sequence:
  assumes "e820_room (length rs + n) m" and "\<forall>r \<in> set rs. fst r < fst (snd r)"
  shows "e820_room n (fold (\<lambda>(lo, hi, ty). add_e820 lo (hi - lo) ty) rs m)
    \<and> e820_at (fold (\<lambda>(lo, hi, ty). add_e820 lo (hi - lo) ty) rs m) a =
        (case find (\<lambda>(lo, hi, ty). lo \<le> a \<and> a < hi) (rev rs) of
           None \<Rightarrow> e820_at m a
         | Some (lo, hi, ty) \<Rightarrow> if ty = E820_HOLE then None else Some ty)"
proof -
  have fold: "e820.add_all rs m' = fold (\<lambda>(lo, hi, ty). add_e820 lo (hi - lo) ty) rs m'" for m'
    by (induction rs arbitrary: m') (auto simp: e820_add_range_def)
  have last: "e820.last_covering rs a =
      map_option (\<lambda>(lo, hi, ty). ty) (find (\<lambda>(lo, hi, ty). lo \<le> a \<and> a < hi) (rev rs))"
    by (induction rs) (auto simp: find_append split: option.splits)
  show ?thesis
    using e820.add_all_look [OF assms, of a] fold last
    by (auto simp: e820_val_def split: option.splits)
qed

theorem add_e820_sequence_witness:
  "e820_at (fold (\<lambda>(lo, hi, ty). add_e820 lo (hi - lo) ty)
     [(0xf0000, 0x100000, E820_RESERVED), (0xf8000, 0xfa000, E820_ACPI)] e820_sample) 0xf9000
   = Some E820_ACPI"
proof -
  have room: "e820_room (length [(0xf0000 :: u64, 0x100000 :: u64, E820_RESERVED),
      (0xf8000, 0xfa000, E820_ACPI)] + 0) e820_sample"
    using e820_sample_ok by (simp add: e820_room_def e820_sample_def CONFIG_MAX_E820_def)
  show ?thesis
    using add_e820_sequence [OF room, of "0xf9000"] by (simp add: e820_types)
qed

text \<open>When the table is full, carving a range of another type out of the middle of an entry
  loses both the new range and the part of the entry above it: only the part below survives, as
  \<open>insert_e820\<close> refuses silently (it only prints a warning).\<close>

theorem add_e820_full_loses:
  assumes "e820_ok (A @ e # B)" and "length (A @ e # B) = CONFIG_MAX_E820"
    and "e_start e < start" and "start < start + sz" and "start + sz < e_end e"
    and "ty \<noteq> e_type e"
  shows "add_e820 start sz ty (A @ e # B) = A @ e\<lparr>e_size := start - e_start e\<rparr> # B"
proof -
  let ?e = "e\<lparr>e_size := start - e_start e\<rparr>"
  have A: "e_end x < start" if "x \<in> set A" for x
  proof -
    have "e_end x \<le> e_start e"
      using assms(1) that by (auto simp: e820_ok_append e820_ok_Cons e820_before_def)
    then show ?thesis using assms(3) by order
  qed
  have se: "\<not> e_end e < start" using assms(4,5) by order
  have B: "start + sz < e_start y" if "y \<in> set B" for y
  proof -
    have "e_end e \<le> e_start y"
      using assms(1) that by (auto simp: e820_ok_append e820_ok_Cons e820_before_def)
    then show ?thesis using assms(5) by order
  qed
  have find: "e820_find start (A @ e # B) 0 = length A"
    using e820_find_takeWhile [of start "[]" "A @ e # B"] A se by (simp add: takeWhile_append2)
  have split: "e820_split start sz ty (length A) (A @ e # B) = (Suc (length A), start, sz, A @ ?e # B)"
    using assms(2,3,5,6) by (simp add: e820_split_append insert_e820_def order_decide)
  have "e820_trim (start + sz) ty sz B = (sz, B)"
    using B by (cases B) auto
  then have "e820_overlap (start + sz) ty sz (length (A @ [?e])) ((A @ [?e]) @ B)
      = (sz, (A @ [?e]) @ B)"
    by (subst e820_overlap_trim) simp
  moreover have "sz \<noteq> 0" using assms(4) by auto
  ultimately show ?thesis
    using find split assms(2) by (simp add: add_e820_finish e820_finish_def insert_e820_def)
qed

definition e820_slot :: "nat \<Rightarrow> e820entry" where
  "e820_slot i = \<lparr>e_start = word_of_nat (i * 0x2000), e_size = 0x1000, e_type = E820_RAM\<rparr>"

lemma e820_slots_ok:
  assumes "n \<le> 32"
  shows "e820_ok (map e820_slot [k..<n])"
proof -
  have e: "e_end (e820_slot i) = word_of_nat (i * 0x2000 + 0x1000)" for i
    by (simp add: e_end_def e820_slot_def)
  have un: "unat (word_of_nat m :: u64) = m" if "m < 0x100000" for m
    using that by (simp add: unat_of_nat take_bit_nat_eq_self)
  have "e820_before (e820_slot i) (e820_slot j)" if "i < j" "j < n" for i j
    using that assms e un
    by (auto simp: e820_before_def e820_slot_def word_le_nat_alt e word_unat_eq_iff
        simp del: of_nat_add of_nat_mult of_nat_numeral)
  moreover have "e820_entry_ok (e820_slot i)" if "i < n" for i
    using that assms e un
    by (auto simp: e820_entry_ok_def e820_slot_def word_less_nat_alt e e820_types
        simp del: of_nat_add of_nat_mult of_nat_numeral)
  ultimately show ?thesis
    by (auto simp: e820_ok_def sorted_wrt_map sorted_wrt_iff_nth_less)
qed

theorem add_e820_full_loses_witness:
  "e820_at (add_e820 0x400 0x400 E820_RESERVED (map e820_slot [0..<32])) 0xc00 = None"
proof -
  have eq: "map e820_slot [0..<32] = [] @ e820_slot 0 # map e820_slot [1..<32]"
    by (simp add: upt_conv_Cons)
  have ok: "e820_ok ([] @ e820_slot 0 # map e820_slot [1..<32])"
    and len: "length ([] @ e820_slot 0 # map e820_slot [1..<32]) = CONFIG_MAX_E820"
    unfolding eq [symmetric] by (simp_all add: e820_slots_ok CONFIG_MAX_E820_def)
  have slot0: "e820_slot 0 = \<lparr>e_start = 0, e_size = 0x1000, e_type = E820_RAM\<rparr>"
    by (simp add: e820_slot_def)
  have "e820_at (map e820_slot [1..<32]) 0xc00 = None"
  proof (rule e820_at_below)
    fix e assume "e \<in> set (map e820_slot [1..<32])"
    then obtain i where "e_start e = word_of_nat (i * 0x2000)" "1 \<le> i" "i < 32"
      by (auto simp: e820_slot_def)
    then show "0xc00 < e_start e"
      by (simp add: word_less_nat_alt unat_of_nat take_bit_nat_eq_self
          del: of_nat_mult of_nat_numeral)
  qed
  moreover have "add_e820 0x400 0x400 E820_RESERVED ([] @ e820_slot 0 # map e820_slot [1..<32])
      = [] @ (e820_slot 0)\<lparr>e_size := 0x400 - e_start (e820_slot 0)\<rparr> # map e820_slot [1..<32]"
    by (rule add_e820_full_loses [OF ok len]) (simp_all add: slot0 e820_types)
  ultimately show ?thesis
    unfolding eq by (simp add: slot0 e820_covers_def)
qed

end
