(* ===== verification/Machine.thy ===== *)
theory Machine
  imports Prelude
begin

text \<open>
  The machine the BIOS code runs on, as far as the components use it: physical memory as a
  function from 32-bit addresses to bytes, the real-mode pointer arithmetic of
  \<open>src/farptr.h\<close>, the BIOS data area of \<open>src/biosvar.h\<close> as offsets into memory, the register
  block \<open>struct bregs\<close> of \<open>src/bregs.h\<close>, and port input and output.

  Port I/O is a history of events. What a device answers to a read is an arbitrary function
  \<open>dev\<close> of the history before the read, so every theorem holds for every deterministic device.
\<close>

section \<open>Memory\<close>

type_synonym memory = "u32 \<Rightarrow> u8"

definition rd8 :: "memory \<Rightarrow> u32 \<Rightarrow> u8" where
  "rd8 m a = m a"

definition rd16 :: "memory \<Rightarrow> u32 \<Rightarrow> u16" where
  "rd16 m a = ucast (m a) OR push_bit 8 (ucast (m (a + 1)))"

definition rd32 :: "memory \<Rightarrow> u32 \<Rightarrow> u32" where
  "rd32 m a = ucast (rd16 m a) OR push_bit 16 (ucast (rd16 m (a + 2)))"

definition wr8 :: "u32 \<Rightarrow> u8 \<Rightarrow> memory \<Rightarrow> memory" where
  "wr8 a v m = m(a := v)"

definition wr16 :: "u32 \<Rightarrow> u16 \<Rightarrow> memory \<Rightarrow> memory" where
  "wr16 a v m = m(a := ucast v, a + 1 := ucast (drop_bit 8 v))"

definition wr32 :: "u32 \<Rightarrow> u32 \<Rightarrow> memory \<Rightarrow> memory" where
  "wr32 a v m = wr16 (a + 2) (ucast (drop_bit 16 v)) (wr16 a (ucast v) m)"

text \<open>Reading back what was written, and reading elsewhere.\<close>

lemma rd8_wr8 [simp]: "rd8 (wr8 a v m) b = (if b = a then v else rd8 m b)"
  by (simp add: rd8_def wr8_def)

lemma rd8_wr16: "rd8 (wr16 a v m) b =
    (if b = a + 1 then ucast (drop_bit 8 v) else if b = a then ucast v else rd8 m b)"
  by (simp add: rd8_def wr16_def)

lemma rd16_wr16_same [simp]: "rd16 (wr16 a v m) a = v"
  by (simp add: rd16_def wr16_def) (auto simp: bit_eq_iff bit_simps)

lemma rd16_wr16_other [frame]:
  "b \<noteq> a \<Longrightarrow> b \<noteq> a + 1 \<Longrightarrow> b + 1 \<noteq> a \<Longrightarrow> rd16 (wr16 a v m) b = rd16 m b"
  by (simp add: rd16_def wr16_def)

lemma rd16_wr8_other [frame]:
  "b \<noteq> a \<Longrightarrow> b + 1 \<noteq> a \<Longrightarrow> rd16 (wr8 a v m) b = rd16 m b"
  by (simp add: rd16_def wr8_def)

lemma rd8_wr16_other [frame]:
  "b \<noteq> a \<Longrightarrow> b \<noteq> a + 1 \<Longrightarrow> rd8 (wr16 a v m) b = rd8 m b"
  by (simp add: rd8_def wr16_def)

lemma rd32_wr32_same [simp]: "rd32 (wr32 a v m) a = v"
proof -
  have "rd16 (wr16 (a + 2) w (wr16 a u m)) a = u" for w u
    by (subst rd16_wr16_other) (simp_all add: add.assoc)
  then show ?thesis
    by (simp add: rd32_def wr32_def) (auto simp: bit_eq_iff bit_simps)
qed

lemma rd16_wr32_other [frame]:
  assumes "b \<noteq> a" "b \<noteq> a + 1" "b \<noteq> a + 2" "b \<noteq> a + 3" "b + 1 \<noteq> a"
  shows "rd16 (wr32 a v m) b = rd16 m b"
proof -
  have "b + 1 = a + 2 \<longleftrightarrow> b = a + 1"
    using add_right_cancel [of b 1 "a + 1"] by (simp add: add.assoc)
  then have "b + 1 \<noteq> a + 2" using assms(2) by simp
  then show ?thesis
    using assms by (simp add: wr32_def rd16_wr16_other add.assoc)
qed

lemma rd32_wr16_other [frame]:
  "b \<noteq> a \<Longrightarrow> b \<noteq> a + 1 \<Longrightarrow> b + 1 \<noteq> a \<Longrightarrow> b + 2 \<noteq> a \<Longrightarrow> b + 2 \<noteq> a + 1 \<Longrightarrow> b + 2 + 1 \<noteq> a \<Longrightarrow>
   rd32 (wr16 a v m) b = rd32 m b"
  by (simp add: rd32_def rd16_wr16_other)

lemma rd32_wr8_other [frame]:
  "b \<noteq> a \<Longrightarrow> b + 1 \<noteq> a \<Longrightarrow> b + 2 \<noteq> a \<Longrightarrow> b + 2 + 1 \<noteq> a \<Longrightarrow> rd32 (wr8 a v m) b = rd32 m b"
  by (simp add: rd32_def rd16_wr8_other)

lemma rd32_cong:
  "m' a = m a \<Longrightarrow> m' (a + 1) = m (a + 1) \<Longrightarrow> m' (a + 2) = m (a + 2) \<Longrightarrow> m' (a + 3) = m (a + 3) \<Longrightarrow>
   rd32 m' a = rd32 m a"
  by (simp add: rd32_def rd16_def add.assoc)

lemma wr32_other:
  "b \<noteq> a \<Longrightarrow> b \<noteq> a + 1 \<Longrightarrow> b \<noteq> a + 2 \<Longrightarrow> b \<noteq> a + 3 \<Longrightarrow> wr32 a v m b = m b"
  by (simp add: wr32_def wr16_def add.assoc)

section \<open>Real-mode pointers\<close>

definition MAKE_FLATPTR :: "u16 \<Rightarrow> u32 \<Rightarrow> u32" where
  "MAKE_FLATPTR sg off = push_bit 4 (ucast sg) + off"

definition FLATPTR_TO_SEG :: "u32 \<Rightarrow> u32" where
  "FLATPTR_TO_SEG p = drop_bit 4 p"

definition FLATPTR_TO_OFFSET :: "u32 \<Rightarrow> u32" where
  "FLATPTR_TO_OFFSET p = p AND 0xf"

lemma FLATPTR_split:
  assumes "p < 0x100000"
  shows "MAKE_FLATPTR (ucast (FLATPTR_TO_SEG p)) (FLATPTR_TO_OFFSET p) = p"
proof -
  have "unat p < 2 ^ 20" using assms by (simp add: word_less_nat_alt)
  then have "unat (take_bit 20 p) = unat p"
    by (simp only: unsigned_take_bit_eq take_bit_nat_eq_self)
  then have "take_bit 20 p = p" by (simp only: word_unat_eq_iff)
  then have bits: "bit p n \<longleftrightarrow> n < 20 \<and> bit p n" for n
    by (metis bit_take_bit_iff)
  have seg: "ucast (ucast (drop_bit 4 p :: u32) :: u16) = (drop_bit 4 p :: u32)"
    by (rule bit_eqI, simp add: bit_simps, subst (2) bits, auto)
  have "push_bit 4 (drop_bit 4 p) + (p AND 0xf) = p"
  proof -
    have "push_bit 4 (drop_bit 4 p) = p AND NOT (mask 4)"
      by (auto simp: bit_eq_iff bit_simps)
    moreover have "(0xf :: u32) = mask 4" by (simp add: mask_eq_exp_minus_1)
    ultimately show ?thesis
      using word_and_split [of p "mask 4"] by (simp add: add.commute)
  qed
  then show ?thesis
    by (simp add: MAKE_FLATPTR_def FLATPTR_TO_SEG_def FLATPTR_TO_OFFSET_def seg)
qed

definition SEGOFF :: "u16 \<Rightarrow> u16 \<Rightarrow> u32" where
  "SEGOFF sg off = push_bit 16 (ucast sg) OR ucast off"

definition SEG_BDA :: u16 where "SEG_BDA = 0x40"
definition SEG_BIOS :: u16 where "SEG_BIOS = 0xf000"
definition BUILD_BIOS_ADDR :: u32 where "BUILD_BIOS_ADDR = 0xf0000"

section \<open>The BIOS data area\<close>

text \<open>The address of the field at offset \<open>off\<close> of \<open>struct bios_data_area_s\<close>.\<close>

definition BDA :: "u32 \<Rightarrow> u32" where
  "BDA off = MAKE_FLATPTR SEG_BDA off"

lemma BDA_eq [simp]: "BDA off = 0x400 + off"
  by (simp add: BDA_def MAKE_FLATPTR_def SEG_BDA_def)

definition bda_ebda_seg :: u32 where "bda_ebda_seg = 0x0e"
definition bda_equipment_list_flags :: u32 where "bda_equipment_list_flags = 0x10"
definition bda_mem_size_kb :: u32 where "bda_mem_size_kb = 0x13"
definition bda_kbd_flag0 :: u32 where "bda_kbd_flag0 = 0x17"
definition bda_kbd_flag1 :: u32 where "bda_kbd_flag1 = 0x18"
definition bda_alt_keypad :: u32 where "bda_alt_keypad = 0x19"
definition bda_kbd_buf_head :: u32 where "bda_kbd_buf_head = 0x1a"
definition bda_kbd_buf_tail :: u32 where "bda_kbd_buf_tail = 0x1c"
definition bda_kbd_buf :: u32 where "bda_kbd_buf = 0x1e"
definition bda_timer_counter :: u32 where "bda_timer_counter = 0x6c"
definition bda_timer_rollover :: u32 where "bda_timer_rollover = 0x70"
definition bda_break_flag :: u32 where "bda_break_flag = 0x71"
definition bda_disk_last_status :: u32 where "bda_disk_last_status = 0x74"
definition bda_hdcount :: u32 where "bda_hdcount = 0x75"
definition bda_kbd_buf_start_offset :: u32 where "bda_kbd_buf_start_offset = 0x80"
definition bda_kbd_buf_end_offset :: u32 where "bda_kbd_buf_end_offset = 0x82"
definition bda_soft_reset_flag :: u32 where "bda_soft_reset_flag = 0x72"
definition bda_kbd_flag2 :: u32 where "bda_kbd_flag2 = 0x96"
definition bda_kbd_led :: u32 where "bda_kbd_led = 0x97"
definition bda_floppy_last_status :: u32 where "bda_floppy_last_status = 0x41"

lemmas bda_offsets = bda_ebda_seg_def bda_equipment_list_flags_def bda_mem_size_kb_def
  bda_kbd_flag0_def bda_kbd_flag1_def bda_alt_keypad_def bda_kbd_buf_head_def
  bda_kbd_buf_tail_def bda_kbd_buf_def bda_timer_counter_def bda_timer_rollover_def
  bda_break_flag_def bda_disk_last_status_def bda_hdcount_def bda_kbd_buf_start_offset_def
  bda_kbd_buf_end_offset_def bda_kbd_flag2_def bda_kbd_led_def bda_floppy_last_status_def bda_soft_reset_flag_def

section \<open>Registers\<close>

record bregs =
  r_ds :: u16
  r_es :: u16
  r_edi :: u32
  r_esi :: u32
  r_ebp :: u32
  r_ebx :: u32
  r_edx :: u32
  r_ecx :: u32
  r_eax :: u32
  r_code :: u32
  r_flags :: u16

text \<open>The lanes of the register unions \<open>UREG\<close>: low byte, high byte, low half.\<close>

definition lane_l :: "u32 \<Rightarrow> u8" where "lane_l e = ucast e"
definition lane_h :: "u32 \<Rightarrow> u8" where "lane_h e = ucast (drop_bit 8 e)"
definition lane_x :: "u32 \<Rightarrow> u16" where "lane_x e = ucast e"
definition put_l :: "u8 \<Rightarrow> u32 \<Rightarrow> u32" where "put_l v e = (e AND NOT 0xff) OR ucast v"
definition put_h :: "u8 \<Rightarrow> u32 \<Rightarrow> u32" where "put_h v e = (e AND NOT 0xff00) OR push_bit 8 (ucast v)"
definition put_x :: "u16 \<Rightarrow> u32 \<Rightarrow> u32" where "put_x v e = (e AND NOT 0xffff) OR ucast v"

lemma lane_masks: "(0xff :: u32) = mask 8" "(0xff00 :: u32) = push_bit 8 (mask 8)"
  "(0xffff :: u32) = mask 16"
  by (simp_all add: mask_eq_exp_minus_1 push_bit_eq_mult)

lemma lane_put [simp]:
  "lane_l (put_l v e) = v" "lane_h (put_l v e) = lane_h e"
  "lane_h (put_h v e) = v" "lane_l (put_h v e) = lane_l e" "lane_x (put_x w e) = w"
  unfolding lane_l_def lane_h_def lane_x_def put_l_def put_h_def put_x_def lane_masks
  by (auto simp: bit_eq_iff bit_simps dest: bit_imp_le_length)

definition AL :: "bregs \<Rightarrow> u8" where "AL r = lane_l (r_eax r)"
definition AH :: "bregs \<Rightarrow> u8" where "AH r = lane_h (r_eax r)"
definition AX :: "bregs \<Rightarrow> u16" where "AX r = lane_x (r_eax r)"
definition BL :: "bregs \<Rightarrow> u8" where "BL r = lane_l (r_ebx r)"
definition BH :: "bregs \<Rightarrow> u8" where "BH r = lane_h (r_ebx r)"
definition BX :: "bregs \<Rightarrow> u16" where "BX r = lane_x (r_ebx r)"
definition CL :: "bregs \<Rightarrow> u8" where "CL r = lane_l (r_ecx r)"
definition CH :: "bregs \<Rightarrow> u8" where "CH r = lane_h (r_ecx r)"
definition CX :: "bregs \<Rightarrow> u16" where "CX r = lane_x (r_ecx r)"
definition DL :: "bregs \<Rightarrow> u8" where "DL r = lane_l (r_edx r)"
definition DH :: "bregs \<Rightarrow> u8" where "DH r = lane_h (r_edx r)"
definition DX :: "bregs \<Rightarrow> u16" where "DX r = lane_x (r_edx r)"
definition SI :: "bregs \<Rightarrow> u16" where "SI r = lane_x (r_esi r)"
definition DI :: "bregs \<Rightarrow> u16" where "DI r = lane_x (r_edi r)"

definition set_al :: "u8 \<Rightarrow> bregs \<Rightarrow> bregs" where "set_al v r = r\<lparr>r_eax := put_l v (r_eax r)\<rparr>"
definition set_ah :: "u8 \<Rightarrow> bregs \<Rightarrow> bregs" where "set_ah v r = r\<lparr>r_eax := put_h v (r_eax r)\<rparr>"
definition set_ax :: "u16 \<Rightarrow> bregs \<Rightarrow> bregs" where "set_ax v r = r\<lparr>r_eax := put_x v (r_eax r)\<rparr>"
definition set_bl :: "u8 \<Rightarrow> bregs \<Rightarrow> bregs" where "set_bl v r = r\<lparr>r_ebx := put_l v (r_ebx r)\<rparr>"
definition set_bh :: "u8 \<Rightarrow> bregs \<Rightarrow> bregs" where "set_bh v r = r\<lparr>r_ebx := put_h v (r_ebx r)\<rparr>"
definition set_bx :: "u16 \<Rightarrow> bregs \<Rightarrow> bregs" where "set_bx v r = r\<lparr>r_ebx := put_x v (r_ebx r)\<rparr>"
definition set_cl :: "u8 \<Rightarrow> bregs \<Rightarrow> bregs" where "set_cl v r = r\<lparr>r_ecx := put_l v (r_ecx r)\<rparr>"
definition set_ch :: "u8 \<Rightarrow> bregs \<Rightarrow> bregs" where "set_ch v r = r\<lparr>r_ecx := put_h v (r_ecx r)\<rparr>"
definition set_cx :: "u16 \<Rightarrow> bregs \<Rightarrow> bregs" where "set_cx v r = r\<lparr>r_ecx := put_x v (r_ecx r)\<rparr>"
definition set_dl :: "u8 \<Rightarrow> bregs \<Rightarrow> bregs" where "set_dl v r = r\<lparr>r_edx := put_l v (r_edx r)\<rparr>"
definition set_dh :: "u8 \<Rightarrow> bregs \<Rightarrow> bregs" where "set_dh v r = r\<lparr>r_edx := put_h v (r_edx r)\<rparr>"
definition set_dx :: "u16 \<Rightarrow> bregs \<Rightarrow> bregs" where "set_dx v r = r\<lparr>r_edx := put_x v (r_edx r)\<rparr>"

definition set_di :: "u16 \<Rightarrow> bregs \<Rightarrow> bregs" where "set_di v r = r\<lparr>r_edi := put_x v (r_edi r)\<rparr>"

lemmas lane_defs = AL_def AH_def AX_def BL_def BH_def BX_def CL_def CH_def CX_def DL_def DH_def
  DX_def SI_def DI_def
lemmas set_lane_defs = set_al_def set_ah_def set_ax_def set_bl_def set_bh_def set_bx_def set_cl_def
  set_ch_def set_cx_def set_dl_def set_dh_def set_dx_def

definition F_CF :: u16 where "F_CF = 1"
definition F_ZF :: u16 where "F_ZF = 0x40"
definition F_IF :: u16 where "F_IF = 0x200"
definition RET_EUNSUPPORTED :: u8 where "RET_EUNSUPPORTED = 0x86"

definition set_cf :: "bool \<Rightarrow> bregs \<Rightarrow> bregs" where
  "set_cf cond r = r\<lparr>r_flags := (if cond then r_flags r OR F_CF else r_flags r AND NOT F_CF)\<rparr>"

definition carry :: "bregs \<Rightarrow> bool" where
  "carry r \<longleftrightarrow> r_flags r AND F_CF \<noteq> 0"

definition set_success :: "bregs \<Rightarrow> bregs" where
  "set_success r = set_cf False r"

definition set_code_success :: "bregs \<Rightarrow> bregs" where
  "set_code_success r = set_cf False (set_ah 0 r)"

definition set_invalid_silent :: "bregs \<Rightarrow> bregs" where
  "set_invalid_silent r = set_cf True r"

definition set_code_invalid_silent :: "u8 \<Rightarrow> bregs \<Rightarrow> bregs" where
  "set_code_invalid_silent code r = set_cf True (set_ah code r)"

lemma carry_set_cf [simp]: "carry (set_cf c r) = c"
proof -
  have "(x OR 1) AND 1 = (1 :: u16)" "(x AND NOT 1) AND 1 = (0 :: u16)" for x :: u16
    by (auto simp: bit_eq_iff bit_simps)
  then show ?thesis by (simp add: carry_def set_cf_def F_CF_def)
qed

lemma set_cf_sel [simp]:
  "r_ds (set_cf c r) = r_ds r" "r_es (set_cf c r) = r_es r" "r_edi (set_cf c r) = r_edi r"
  "r_esi (set_cf c r) = r_esi r" "r_ebp (set_cf c r) = r_ebp r" "r_ebx (set_cf c r) = r_ebx r"
  "r_edx (set_cf c r) = r_edx r" "r_ecx (set_cf c r) = r_ecx r" "r_eax (set_cf c r) = r_eax r"
  "r_code (set_cf c r) = r_code r"
  by (simp_all add: set_cf_def)

lemmas code_defs = set_success_def set_code_success_def set_invalid_silent_def
  set_code_invalid_silent_def

section \<open>PCI function numbers\<close>

definition pci_bdf_to_bus :: "u16 \<Rightarrow> u8" where "pci_bdf_to_bus bdf = ucast (drop_bit 8 bdf)"
definition pci_bdf_to_dev :: "u16 \<Rightarrow> u8" where "pci_bdf_to_dev bdf = ucast (drop_bit 3 bdf AND 0x1f)"
definition pci_bdf_to_fn :: "u16 \<Rightarrow> u8" where "pci_bdf_to_fn bdf = ucast (bdf AND 0x07)"

section \<open>Ports\<close>

datatype width = W8 | W16 | W32

datatype io_event =
    PortIn width u16 u32
  | PortOut width u16 u32

type_synonym device = "io_event list \<Rightarrow> width \<Rightarrow> u16 \<Rightarrow> u32"

record machine =
  mem :: memory
  io_log :: "io_event list"
  dev :: device

definition inb :: "u16 \<Rightarrow> 'a machine_scheme \<Rightarrow> u8 \<times> 'a machine_scheme" where
  "inb p s = (let v = ucast (dev s (io_log s) W8 p) in
     (v, s\<lparr>io_log := PortIn W8 p (ucast v) # io_log s\<rparr>))"

definition outb :: "u8 \<Rightarrow> u16 \<Rightarrow> 'a machine_scheme \<Rightarrow> 'a machine_scheme" where
  "outb v p s = s\<lparr>io_log := PortOut W8 p (ucast v) # io_log s\<rparr>"

lemma inb_sel [simp]:
  "mem (snd (inb p s)) = mem s" "dev (snd (inb p s)) = dev s"
  by (simp_all add: inb_def Let_def)

lemma outb_sel [simp]: "mem (outb v p s) = mem s" "dev (outb v p s) = dev s"
  by (simp_all add: outb_def)

section \<open>Accessors of the BIOS data area\<close>

text \<open>\<open>GET_BDA\<close> and \<open>SET_BDA\<close> at the width of the field.\<close>

definition bda8 :: "u32 \<Rightarrow> 'a machine_scheme \<Rightarrow> u8" where
  "bda8 off st = rd8 (mem st) (BDA off)"

definition bda16 :: "u32 \<Rightarrow> 'a machine_scheme \<Rightarrow> u16" where
  "bda16 off st = rd16 (mem st) (BDA off)"

definition set_bda8 :: "u32 \<Rightarrow> u8 \<Rightarrow> 'a machine_scheme \<Rightarrow> 'a machine_scheme" where
  "set_bda8 off v st = st\<lparr>mem := wr8 (BDA off) v (mem st)\<rparr>"

definition set_bda16 :: "u32 \<Rightarrow> u16 \<Rightarrow> 'a machine_scheme \<Rightarrow> 'a machine_scheme" where
  "set_bda16 off v st = st\<lparr>mem := wr16 (BDA off) v (mem st)\<rparr>"

lemma bda_mem [simp]:
  "mem (set_bda8 off v st) = wr8 (BDA off) v (mem st)" "mem (set_bda16 off w st) = wr16 (BDA off) w (mem st)"
  "io_log (set_bda8 off v st) = io_log st" "io_log (set_bda16 off w st) = io_log st"
  "dev (set_bda8 off v st) = dev st" "dev (set_bda16 off w st) = dev st"
  by (simp_all add: set_bda8_def set_bda16_def)

definition get_ebda_seg :: "'a machine_scheme \<Rightarrow> u16" where
  "get_ebda_seg st = rd16 (mem st) (BDA bda_ebda_seg)"

definition set_zf :: "bool \<Rightarrow> bregs \<Rightarrow> bregs" where
  "set_zf c r = r\<lparr>r_flags := (if c then r_flags r OR F_ZF else r_flags r AND NOT F_ZF)\<rparr>"

end
