(* ===== verification/Util.thy ===== *)
theory Util
  imports Machine
begin

text \<open>
  The string and memory routines of \<open>src/util.c\<close>, on byte memory. Loops that count are
  recursions on the count; loops that search for a terminator (\<open>strlen\<close>, \<open>strcmp\<close>,
  \<open>strchr\<close>) may never end on a memory without one, so they are partial functions whose
  \<open>None\<close> is non-termination. \<open>char\<close> is signed, as it is for the compiler the code is
  written for; \<open>yield\<close> (called by \<open>iomemcpy\<close>) lets other threads run and is left out.
\<close>

section \<open>Operations\<close>

fun checksum_loop :: "memory \<Rightarrow> u32 \<Rightarrow> nat \<Rightarrow> u8 \<Rightarrow> u8" where
  "checksum_loop m p 0 s = s"
| "checksum_loop m p (Suc n) s = checksum_loop m (p + 1) n (s + m p)"

definition checksum_far :: "memory \<Rightarrow> u16 \<Rightarrow> u32 \<Rightarrow> u32 \<Rightarrow> u8" where
  "checksum_far m buf_seg buf_far len = checksum_loop m (MAKE_FLATPTR buf_seg buf_far) (unat len) 0"

definition checksum :: "memory \<Rightarrow> u32 \<Rightarrow> u32 \<Rightarrow> u8" where
  "checksum m buf len = checksum_loop m buf (unat len) 0"

partial_function (option) strlen_from :: "memory \<Rightarrow> u32 \<Rightarrow> u32 \<Rightarrow> u32 option" where
  "strlen_from m s p = (if m p \<noteq> 0 then strlen_from m s (p + 1) else Some (p - s))"

declare strlen_from.simps [code]

definition strlen :: "memory \<Rightarrow> u32 \<Rightarrow> u32 option" where
  "strlen m s = strlen_from m s s"

fun memcmp :: "memory \<Rightarrow> u32 \<Rightarrow> u32 \<Rightarrow> nat \<Rightarrow> int" where
  "memcmp m s1 s2 0 = 0"
| "memcmp m s1 s2 (Suc n) =
     (if m s1 \<noteq> m s2 then (if m s1 < m s2 then -1 else 1)
      else memcmp m (s1 + 1) (s2 + 1) n)"

text \<open>A C \<open>char\<close> as a number.\<close>

definition char_val :: "u8 \<Rightarrow> int" where
  "char_val c = sint c"

partial_function (option) strcmp :: "memory \<Rightarrow> u32 \<Rightarrow> u32 \<Rightarrow> int option" where
  "strcmp m s1 s2 =
     (if m s1 \<noteq> m s2 then Some (if char_val (m s1) < char_val (m s2) then -1 else 1)
      else if m s1 = 0 then Some 0
      else strcmp m (s1 + 1) (s2 + 1))"

declare strcmp.simps [code]

fun memset :: "u32 \<Rightarrow> u8 \<Rightarrow> nat \<Rightarrow> memory \<Rightarrow> memory" where
  "memset s c 0 m = m"
| "memset s c (Suc n) m = memset s c n (m(s + of_nat n := c))"

text \<open>The string instructions: \<open>rep movsb\<close> and \<open>rep movsl\<close>.\<close>

fun rep_movsb :: "u32 \<Rightarrow> u32 \<Rightarrow> nat \<Rightarrow> memory \<Rightarrow> memory" where
  "rep_movsb d s 0 m = m"
| "rep_movsb d s (Suc n) m = rep_movsb (d + 1) (s + 1) n (m(d := m s))"

fun rep_movsl :: "u32 \<Rightarrow> u32 \<Rightarrow> nat \<Rightarrow> memory \<Rightarrow> memory" where
  "rep_movsl d s 0 m = m"
| "rep_movsl d s (Suc n) m = rep_movsl (d + 4) (s + 4) n (wr32 d (rd32 m s) m)"

definition memcpy :: "u32 \<Rightarrow> u32 \<Rightarrow> u32 \<Rightarrow> memory \<Rightarrow> memory" where
  "memcpy d1 s1 len m =
     (if (d1 OR s1 OR len) AND 3 \<noteq> 0 then rep_movsb d1 s1 (unat len) m
      else rep_movsl d1 s1 (unat (len div 4)) m)"

function iomemcpy_loop :: "u32 \<Rightarrow> u32 \<Rightarrow> u32 \<Rightarrow> memory \<Rightarrow> u32 \<times> u32 \<times> u32 \<times> memory" where
  "iomemcpy_loop d s len m =
     (if len > 3 then
        let copylen = (if len > 2048 then 2048 else len) div 4 in
        iomemcpy_loop (d + copylen * 4) (s + copylen * 4) (len - copylen * 4)
          (rep_movsl d s (unat copylen) m)
      else (d, s, len, m))"
  by pat_completeness auto
termination
proof (relation "measure (\<lambda>(d, s, len, m). unat len)", goal_cases)
  case 1
  show ?case by simp
next
  case (2 d s len m copylen)
  have lt: "unat len < 2 ^ 32" using u32_bound [of len] by simp
  have "3 < unat len" using 2(1) by (simp add: word_less_nat_alt)
  then have "unat copylen * 4 \<le> unat len" "0 < unat copylen" "unat copylen * 4 < 2 ^ 32"
    using 2(2) lt by (auto simp: unat_div word_less_nat_alt)
  then have "unat (copylen * 4) = unat copylen * 4"
    by (simp add: unat_word_ariths)
  then show ?case
    using \<open>unat copylen * 4 \<le> unat len\<close> \<open>0 < unat copylen\<close> by (simp add: unat_sub word_le_nat_alt)
qed

definition iomemcpy :: "u32 \<Rightarrow> u32 \<Rightarrow> u32 \<Rightarrow> memory \<Rightarrow> memory" where
  "iomemcpy d s len m =
     (case iomemcpy_loop d s len m of (d, s, len, m) \<Rightarrow> if len \<noteq> 0 then memcpy d s len m else m)"

fun memmove_down :: "u32 \<Rightarrow> u32 \<Rightarrow> nat \<Rightarrow> memory \<Rightarrow> u32 \<times> memory" where
  "memmove_down d s 0 m = (d, m)"
| "memmove_down d s (Suc n) m = memmove_down (d - 1) (s - 1) n (m(d := m s))"

text \<open>\<open>memmove\<close> returns a pointer and the memory.\<close>

definition memmove :: "u32 \<Rightarrow> u32 \<Rightarrow> u32 \<Rightarrow> memory \<Rightarrow> u32 \<times> memory" where
  "memmove d s len m =
     (if s \<ge> d then (d, memcpy d s len m)
      else memmove_down (d + (len - 1)) (s + (len - 1)) (unat len) m)"

text \<open>\<open>strtcpy\<close>: the count is tested after it is decremented, so a count of 0 wraps around.\<close>

function strtcpy_loop :: "u32 \<Rightarrow> u32 \<Rightarrow> u32 \<Rightarrow> memory \<Rightarrow> u32 \<times> memory" where
  "strtcpy_loop d src len m =
     (if len - 1 \<noteq> 0 \<and> m src \<noteq> 0 then strtcpy_loop (d + 1) (src + 1) (len - 1) (m(d := m src))
      else (d, m))"
  by pat_completeness auto
termination
proof (relation "measure (\<lambda>(d, src, len, m). unat (len - 1))", goal_cases)
  case 1
  show ?case by simp
next
  case (2 d src len m)
  then show ?case using measure_unat [of "len - 1"] by simp
qed

definition strtcpy :: "u32 \<Rightarrow> u32 \<Rightarrow> u32 \<Rightarrow> memory \<Rightarrow> memory" where
  "strtcpy dest src len m = (case strtcpy_loop dest src len m of (d, m) \<Rightarrow> m(d := 0))"

partial_function (option) strchr :: "memory \<Rightarrow> u32 \<Rightarrow> u8 \<Rightarrow> u32 option" where
  "strchr m s c = (if m s = 0 then Some 0 else if m s = c then Some s else strchr m (s + 1) c)"

declare strchr.simps [code]

text \<open>\<open>nullTrailingSpace\<close>: \<open>n\<close> is the number of characters left before \<open>end\<close>.\<close>

fun null_trailing_loop :: "u32 \<Rightarrow> nat \<Rightarrow> memory \<Rightarrow> memory" where
  "null_trailing_loop buf 0 m = m"
| "null_trailing_loop buf (Suc n) m =
     (if char_val (m (buf + of_nat n)) \<le> 32 then null_trailing_loop buf n (m(buf + of_nat n := 0))
      else m)"

definition nullTrailingSpace :: "u32 \<Rightarrow> memory \<Rightarrow> memory option" where
  "nullTrailingSpace buf m =
     (case strlen m buf of None \<Rightarrow> None
      | Some len \<Rightarrow> Some (null_trailing_loop buf (unat len) m))"

declare iomemcpy_loop.simps [simp del] strtcpy_loop.simps [simp del]

section \<open>Copies\<close>

text \<open>The specification of every copy routine: the target range holds what the source range
  held before the copy, everything else is unchanged.\<close>

definition copied :: "u32 \<Rightarrow> u32 \<Rightarrow> nat \<Rightarrow> memory \<Rightarrow> memory" where
  "copied d s n m = (\<lambda>a. if unat (a - d) < n then m (s + (a - d)) else m a)"

lemma unat_minus_1: "x \<noteq> 0 \<Longrightarrow> unat (x - 1 :: 'a::len word) = unat x - 1"
  using unat_gt_0 [of x] by (simp add: unat_sub word_le_nat_alt Suc_leI)

lemma copied_0 [simp]: "copied d s 0 m = m"
  by (simp add: copied_def)

lemma rep_movsb_copied:
  "n < 2 ^ 32 \<Longrightarrow> d = s \<or> n \<le> unat (d - s) \<Longrightarrow> rep_movsb d s n m = copied d s n m"
proof (induction n arbitrary: d s m)
  case 0
  then show ?case by simp
next
  case (Suc n)
  have IH: "rep_movsb (d + 1) (s + 1) n (m(d := m s)) = copied (d + 1) (s + 1) n (m(d := m s))"
    using Suc by (intro Suc.IH) auto
  have "copied (d + 1) (s + 1) n (m(d := m s)) a = copied d s (Suc n) m a" for a
  proof (cases "a = d")
    case True
    have "unat (- 1 :: u32) = 2 ^ 32 - 1" by (simp add: unsigned_minus_1_eq_mask mask_eq_exp_minus_1)
    then show ?thesis using True Suc.prems(1) by (simp add: copied_def)
  next
    case False
    have eq: "unat (a - (d + 1)) = unat (a - d) - 1" "0 < unat (a - d)"
      using unat_minus_1 [of "a - d"] False by (simp_all add: algebra_simps unat_gt_0)
    have src: "s + 1 + (a - (d + 1)) = s + (a - d)" by simp
    have "s + (a - d) \<noteq> d \<or> d = s" if "unat (a - d) < Suc n"
    proof (rule ccontr)
      assume "\<not> ?thesis"
      then have "a - d = d - s" "d \<noteq> s" by (auto simp: algebra_simps)
      then show False using that Suc.prems(2) by auto
    qed
    then show ?thesis using False eq src by (auto simp: copied_def)
  qed
  then show ?case using IH by auto
qed

lemma wr32_bytes:
  "wr32 d (rd32 m s) m = m(d := m s, d + 1 := m (s + 1), d + 2 := m (s + 2), d + 3 := m (s + 3))"
proof -
  have "ucast (drop_bit 16 (rd32 m s)) = rd16 m (s + 2)" "ucast (rd32 m s) = rd16 m s"
    by (auto simp: rd32_def bit_eq_iff bit_simps dest: bit_imp_le_length)
  moreover have "ucast (rd16 m a) = m a" "ucast (drop_bit 8 (rd16 m a)) = m (a + 1)" for a
    by (auto simp: rd16_def bit_eq_iff bit_simps dest: bit_imp_le_length)
  ultimately show ?thesis
    by (simp add: wr32_def wr16_def add.assoc)
qed

lemma rep_movsb_4:
  "rep_movsb d s (4 * Suc n) m = rep_movsb (d + 4) (s + 4) (4 * n)
     (m(d := m s, d + 1 := (m(d := m s)) (s + 1),
        d + 2 := (m(d := m s, d + 1 := (m(d := m s)) (s + 1))) (s + 2),
        d + 3 := (m(d := m s, d + 1 := (m(d := m s)) (s + 1),
                    d + 2 := (m(d := m s, d + 1 := (m(d := m s)) (s + 1))) (s + 2))) (s + 3)))"
proof -
  have four: "4 * Suc n = Suc (Suc (Suc (Suc (4 * n))))" by simp
  have ptr: "x + 1 + 1 = x + 2" "x + 2 + 1 = x + 3" "x + 3 + 1 = x + 4" for x :: u32
    by simp_all
  show ?thesis unfolding four rep_movsb.simps ptr ..
qed

lemma rep_movsl_movsb:
  assumes "4 * n < 2 ^ 32" "d = s \<or> 4 * n \<le> unat (d - s)"
  shows "rep_movsl d s n m = rep_movsb d s (4 * n) m"
  using assms
proof (induction n arbitrary: d s m)
  case 0
  then show ?case by simp
next
  case (Suc n)
  have ne: "s + k \<noteq> d + j" if "j < k" "k < 4" for k j :: u32
  proof
    assume h: "s + k = d + j"
    then have eq: "d - s = k - j"
      by (simp only: diff_eq_eq diff_add_eq eq_diff_eq) (simp add: add.commute)
    have "unat (k - j) < 4"
      using that by (simp add: unat_sub word_less_nat_alt word_le_nat_alt)
    then have "\<not> 4 * Suc n \<le> unat (d - s)" unfolding eq by simp
    then have "d = s" using Suc.prems(2) by blast
    then show False using h that(1) by simp
  qed
  have "rep_movsb d s (4 * Suc n) m = rep_movsb (d + 4) (s + 4) (4 * n) (wr32 d (rd32 m s) m)"
    unfolding rep_movsb_4 wr32_bytes
    using ne [of 0 1] ne [of 0 2] ne [of 1 2] ne [of 0 3] ne [of 1 3] ne [of 2 3] by simp
  moreover have "rep_movsl (d + 4) (s + 4) n m' = rep_movsb (d + 4) (s + 4) (4 * n) m'" for m'
    using Suc.prems by (intro Suc.IH) auto
  ultimately show ?case by simp
qed

lemma rep_movsb_add:
  "rep_movsb d s (n + k) m = rep_movsb (d + of_nat n) (s + of_nat n) k (rep_movsb d s n m)"
  by (induction n arbitrary: d s m) (simp_all add: add.assoc)

lemma low_bits_zero: "x AND 3 = 0 \<Longrightarrow> 4 * (unat (x div 4)) = unat (x :: u32)"
proof -
  assume "x AND 3 = 0"
  then have "take_bit 2 x = 0" by (simp add: take_bit_eq_mask mask_eq_exp_minus_1)
  then have "unat x mod 4 = 0"
    by (metis take_bit_eq_mod unsigned_take_bit_eq unsigned_0 numeral_power_eq_of_nat_cancel_iff
        power2_eq_square mult_2 numeral_Bit0)
  then show ?thesis by (simp add: unat_div) presburger
qed

lemma memcpy_movsb:
  assumes "d = s \<or> unat len \<le> unat (d - s)"
  shows "memcpy d s len m = rep_movsb d s (unat len) m"
proof (cases "(d OR s OR len) AND 3 = 0")
  case True
  then have "len AND 3 = 0"
    unfolding bit_eq_iff by (auto simp: bit_simps)
  then have "4 * unat (len div 4) = unat len" by (rule low_bits_zero)
  then show ?thesis
    using True assms rep_movsl_movsb [of "unat (len div 4)" d s m] u32_bound [of len]
    by (simp add: memcpy_def)
qed (simp add: memcpy_def)

lemma memcpy_copied:
  "d = s \<or> unat len \<le> unat (d - s) \<Longrightarrow> memcpy d s len m = copied d s (unat len) m"
  using u32_bound [of len] by (simp add: memcpy_movsb rep_movsb_copied)

lemma iomemcpy_chunk:
  assumes "3 < (len :: u32)"
  defines "c \<equiv> (if len > 2048 then 2048 else len) div 4"
  shows "4 * unat c \<le> unat len" "0 < unat c" "unat (len - c * 4) = unat len - 4 * unat c"
    "of_nat (4 * unat c) = c * 4"
proof -
  have lt: "unat len < 2 ^ 32" using u32_bound [of len] by simp
  have "3 < unat len" using assms(1) by (simp add: word_less_nat_alt)
  then show le: "4 * unat c \<le> unat len" "0 < unat c"
    using lt unfolding c_def by (auto simp: unat_div word_less_nat_alt)
  then have "unat (c * 4) = 4 * unat c"
    using lt by (simp add: unat_word_ariths)
  then show "unat (len - c * 4) = unat len - 4 * unat c"
    using le by (simp add: unat_sub word_le_nat_alt)
  show "of_nat (4 * unat c) = c * 4" by simp
qed

lemma iomemcpy_movsb:
  "d = s \<or> unat len \<le> unat (d - s) \<Longrightarrow> iomemcpy d s len m = rep_movsb d s (unat len) m"
proof (induction d s len m rule: iomemcpy_loop.induct)
  case (1 d s len m)
  show ?case
  proof (cases "3 < len")
    case False
    then show ?thesis
      using "1.prems" by (simp add: iomemcpy_def iomemcpy_loop.simps [of d s len m] memcpy_movsb)
  next
    case True
    define c where "c = (if len > 2048 then 2048 else len) div 4"
    note chunk = iomemcpy_chunk [OF True, folded c_def]
    have ov: "d + c * 4 = s + c * 4 \<or> unat (len - c * 4) \<le> unat (d + c * 4 - (s + c * 4))"
      using "1.prems" chunk by auto
    have "iomemcpy d s len m =
        iomemcpy (d + c * 4) (s + c * 4) (len - c * 4) (rep_movsl d s (unat c) m)"
      using True by (simp add: iomemcpy_def iomemcpy_loop.simps [of d s len m] c_def Let_def)
    also have "\<dots> = rep_movsb (d + c * 4) (s + c * 4) (unat (len - c * 4)) (rep_movsl d s (unat c) m)"
      by (rule "1.IH" [OF True c_def ov])
    also have "rep_movsl d s (unat c) m = rep_movsb d s (4 * unat c) m"
      using "1.prems" chunk u32_bound [of len] by (intro rep_movsl_movsb) auto
    also have "rep_movsb (d + c * 4) (s + c * 4) (unat (len - c * 4)) (rep_movsb d s (4 * unat c) m)
        = rep_movsb d s (unat len) m"
      using rep_movsb_add [of d s "4 * unat c" "unat len - 4 * unat c" m] chunk
      by (simp add: mult.commute)
    finally show ?thesis .
  qed
qed

lemma iomemcpy_copied:
  "d = s \<or> unat len \<le> unat (d - s) \<Longrightarrow> iomemcpy d s len m = copied d s (unat len) m"
  using u32_bound [of len] by (simp add: iomemcpy_movsb rep_movsb_copied)

text \<open>The backward loop of \<open>memmove\<close>, for a target above the source.\<close>

lemma memmove_down_copied:
  "n < 2 ^ 32 \<Longrightarrow> d = s \<or> n \<le> unat (s - d) \<Longrightarrow>
   memmove_down (d + of_nat n - 1) (s + of_nat n - 1) n m = (d - 1, copied d s n m)"
proof (induction n arbitrary: m)
  case 0
  then show ?case by simp
next
  case (Suc n)
  let ?m = "m(d + of_nat n := m (s + of_nat n))"
  have "memmove_down (d + of_nat (Suc n) - 1) (s + of_nat (Suc n) - 1) (Suc n) m
      = memmove_down (d + of_nat n - 1) (s + of_nat n - 1) n ?m"
    by simp
  also have "\<dots> = (d - 1, copied d s n ?m)"
    using Suc.prems by (intro Suc.IH) auto
  also have "copied d s n ?m = copied d s (Suc n) m"
  proof
    fix a
    have n: "unat (of_nat n :: u32) = n" using Suc.prems(1) by (simp add: unat_of_nat_u32)
    have top: "a = d + of_nat n \<longleftrightarrow> unat (a - d) = n"
    proof
      assume "unat (a - d) = n"
      then have "a - d = of_nat n" using n by (simp add: word_unat_eq_iff)
      then show "a = d + of_nat n" by (simp add: algebra_simps)
    qed (simp add: n)
    have "s + (a - d) \<noteq> d + of_nat n \<or> d = s \<and> unat (a - d) = n" if lt: "unat (a - d) < Suc n"
    proof (rule ccontr)
      assume h: "\<not> ?thesis"
      then have "s + (a - d) = d + of_nat n" and "d \<noteq> s \<or> unat (a - d) \<noteq> n" by auto
      then have "of_nat n - (a - d) = s - d" by (simp add: algebra_simps)
      moreover have "unat (of_nat n - (a - d)) = n - unat (a - d)"
        using lt n by (simp add: unat_sub word_le_nat_alt)
      ultimately have "unat (s - d) = n - unat (a - d)" by metis
      then have "d = s" using Suc.prems(2) by auto
      then have "n \<le> unat (a - d)" using \<open>unat (s - d) = n - unat (a - d)\<close> by simp
      then show False using h lt \<open>d = s\<close> \<open>s + (a - d) = d + of_nat n\<close> by auto
    qed
    then show "copied d s n ?m a = copied d s (Suc n) m a"
      using top by (auto simp: copied_def)
  qed
  finally show ?case .
qed

lemma memmove_copied:
  assumes "unat d + unat len \<le> 2 ^ 32" "unat s + unat len \<le> 2 ^ 32"
  shows "snd (memmove d s len m) = copied d s (unat len) m"
proof (cases "d \<le> s")
  case True
  have "unat len \<le> unat (d - s) \<or> d = s"
  proof (cases "d = s")
    case False
    then have "unat (d - s) = 4294967296 + unat d - unat s"
      using True by (intro unat_sub_wrap32) simp
    moreover have "unat s \<le> 4294967296 + unat d" using u32_bound [of s] by simp
    ultimately have "unat len \<le> unat (d - s)" using assms(2) by simp
    then show ?thesis by simp
  qed simp
  then show ?thesis using True by (auto simp: memmove_def memcpy_copied)
next
  case False
  then have "unat (s - d) = 4294967296 + unat s - unat d"
    by (intro unat_sub_wrap32) simp
  then have "unat len \<le> unat (s - d)" using assms(1) by simp
  then show ?thesis
    using False memmove_down_copied [of "unat len" d s m] u32_bound [of len]
    by (simp add: memmove_def algebra_simps)
qed

section \<open>Checksums\<close>

lemma checksum_loop_sum: "checksum_loop m p n s = s + (\<Sum>i<n. m (p + of_nat i))"
  by (induction n arbitrary: p s) (simp_all add: sum.lessThan_Suc_shift add.assoc del: sum.lessThan_Suc)

lemma sum_offsets_upd:
  assumes "n \<le> 2 ^ 32" "unat (c - p) < n"
  shows "(\<Sum>i<n. (m(c := v)) (p + of_nat i :: u32)) = (\<Sum>i<n. m (p + of_nat i)) - m c + (v :: u8)"
proof -
  let ?k = "unat (c - p)"
  have k: "p + of_nat ?k = c" by simp
  have other: "p + of_nat i \<noteq> c" if "i < n" "i \<noteq> ?k" for i
  proof
    assume "p + of_nat i = c"
    then have "of_nat i = c - p" by auto
    then have "unat (of_nat i :: u32) = ?k" by simp
    then show False using that assms(1) by (simp add: unat_of_nat_u32)
  qed
  have "(\<Sum>i<n. f (p + of_nat i)) = f c + (\<Sum>i \<in> {..<n} - {?k}. f (p + of_nat i))" for f :: "u32 \<Rightarrow> u8"
    using sum.remove [of "{..<n}" ?k "\<lambda>i. f (p + of_nat i)"] assms(2) k by simp
  note rm = this
  have "(\<Sum>i \<in> {..<n} - {?k}. (m(c := v)) (p + of_nat i)) = (\<Sum>i \<in> {..<n} - {?k}. m (p + of_nat i))"
    using other by (intro sum.cong) auto
  then show ?thesis using rm [of "m(c := v)"] rm [of m] by (simp add: algebra_simps)
qed

text \<open>The idiom \<open>t->checksum -= checksum(t, len)\<close> of every table the BIOS builds.\<close>

lemma checksum_fixed:
  assumes "unat (c - p) < unat len"
  shows "checksum (m(c := m c - checksum m p len)) p len = 0"
  using sum_offsets_upd [of "unat len" c p m "m c - checksum m p len"] u32_bound [of len] assms
  by (simp add: checksum_def checksum_loop_sum)

section \<open>Strings\<close>

text \<open>The bytes of a C string \<open>s\<close> at \<open>a\<close>, without and with the terminator.\<close>

definition cstr :: "memory \<Rightarrow> u32 \<Rightarrow> u8 list \<Rightarrow> bool" where
  "cstr m a s \<longleftrightarrow> (\<forall>i < length s. m (a + of_nat i) = s ! i \<and> s ! i \<noteq> 0)
     \<and> m (a + of_nat (length s)) = 0"

lemma cstr_Nil [simp]: "cstr m a [] \<longleftrightarrow> m a = 0"
  by (simp add: cstr_def)

lemma cstr_Cons [simp]: "cstr m a (c # s) \<longleftrightarrow> m a = c \<and> c \<noteq> 0 \<and> cstr m (a + 1) s"
  by (simp add: cstr_def all_less_Suc_shift add.assoc)

lemma strlen_from_cstr: "cstr m p s \<Longrightarrow> strlen_from m a p = Some (p + of_nat (length s) - a)"
  by (induction s arbitrary: p) (simp_all add: strlen_from.simps [of m a] add.assoc)

lemma strlen_cstr: "cstr m a s \<Longrightarrow> strlen m a = Some (of_nat (length s))"
  by (simp add: strlen_def strlen_from_cstr)

lemma strcmp_cstr:
  "cstr m a s \<Longrightarrow> cstr m b t \<Longrightarrow> \<exists>r. strcmp m a b = Some r \<and> (r = 0 \<longleftrightarrow> s = t)"
proof (induction s arbitrary: a b t)
  case Nil
  then show ?case by (cases t) (simp_all add: strcmp.simps [of m a b])
next
  case (Cons c s)
  show ?case
  proof (cases t)
    case Nil
    then show ?thesis using Cons.prems by (simp add: strcmp.simps [of m a b])
  next
    case (Cons d t')
    then show ?thesis
      using Cons.prems Cons.IH [of "a + 1" "b + 1" t'] by (auto simp: strcmp.simps [of m a b])
  qed
qed

lemma memcmp_eq: "memcmp m a b n = 0 \<longleftrightarrow> (\<forall>i<n. m (a + of_nat i) = m (b + of_nat i))"
  by (induction n arbitrary: a b) (simp_all add: all_less_Suc_shift add.assoc)

lemma strtcpy_loop_movsb:
  assumes "\<forall>i<n. m (src + of_nat i) \<noteq> 0" "n < unat len"
    and "n + 1 = unat len \<or> m (src + of_nat n) = 0" "d = src \<or> n < unat (d - src)"
  shows "strtcpy_loop d src len m = (d + of_nat n, rep_movsb d src n m)"
  using assms
proof (induction n arbitrary: d src len m)
  case 0
  have "len - 1 = 0 \<longleftrightarrow> len = 1" by auto
  moreover have "len = 1 \<longleftrightarrow> unat len = 1" by (simp add: word_unat_eq_iff)
  ultimately show ?case using 0 by (auto simp: strtcpy_loop.simps [of d src len])
next
  case (Suc n)
  let ?m = "m(d := m src)"
  have len: "unat (len - 1) = unat len - 1" "len - 1 \<noteq> 0"
    using Suc.prems(2) unat_minus_1 [of len] by (auto simp: unat_eq_0 [symmetric] unat_gt_0 [symmetric])
  have keep: "?m (src + 1 + of_nat i) = m (src + of_nat (Suc i))" if "i \<le> n" for i
  proof -
    have "src + of_nat (Suc i) \<noteq> d \<or> d = src"
    proof (rule ccontr)
      assume h: "\<not> ?thesis"
      then have "d - src = of_nat (Suc i)" "d \<noteq> src" by (auto simp: algebra_simps)
      moreover have "Suc i < 4294967296" using that Suc.prems(2) u32_bound [of len] by simp
      ultimately have "unat (d - src) = Suc i" by (simp only: unat_of_nat_u32)
      then show False using h Suc.prems(4) that by auto
    qed
    then show ?thesis by (auto simp: add.assoc)
  qed
  have "strtcpy_loop (d + 1) (src + 1) (len - 1) ?m =
      (d + 1 + of_nat n, rep_movsb (d + 1) (src + 1) n ?m)"
  proof (rule Suc.IH)
    show "\<forall>i<n. ?m (src + 1 + of_nat i) \<noteq> 0"
      using Suc.prems(1) keep by (metis Suc_less_eq less_imp_le_nat)
    show "n < unat (len - 1)" using Suc.prems(2) len by simp
    show "n + 1 = unat (len - 1) \<or> ?m (src + 1 + of_nat n) = 0"
      using Suc.prems(3) keep [of n] len Suc.prems(2) by auto
    show "d + 1 = src + 1 \<or> n < unat (d + 1 - (src + 1))" using Suc.prems(4) by auto
  qed
  moreover have "m src \<noteq> 0" using Suc.prems(1) by force
  ultimately show ?case
    using len by (simp add: strtcpy_loop.simps [of d src len] add.assoc)
qed

lemma strtcpy_cstr:
  assumes s: "cstr m src s" and len: "0 < len"
    and ov: "d = src \<or> min (length s) (unat len - 1) < unat (d - src)"
  shows "cstr (strtcpy d src len m) d (take (unat len - 1) s)"
    "unat (a - d) > min (length s) (unat len - 1) \<Longrightarrow> strtcpy d src len m a = m a"
proof -
  define n where "n = min (length s) (unat len - 1)"
  have l0: "0 < unat len" using len by (simp add: word_less_nat_alt)
  have n: "n < unat len" "n \<le> length s" "n < 4294967296"
    using l0 u32_bound [of len] by (auto simp: n_def)
  have "n + 1 = unat len \<or> m (src + of_nat n) = 0"
    using s l0 by (auto simp: n_def cstr_def min_def)
  then have loop: "strtcpy_loop d src len m = (d + of_nat n, rep_movsb d src n m)"
    using s n ov unfolding n_def [symmetric] by (intro strtcpy_loop_movsb) (auto simp: cstr_def)
  have mv: "rep_movsb d src n m = copied d src n m"
    using n ov by (intro rep_movsb_copied) (auto simp: n_def)
  have eq: "strtcpy d src len m = (copied d src n m)(d + of_nat n := 0)"
    using loop mv by (simp add: strtcpy_def)
  have un: "unat (of_nat i :: u32) = i" if "i \<le> n" for i
    using that n by (simp add: unat_of_nat_u32)
  have ne: "d + of_nat i \<noteq> d + of_nat n" if "i < n" for i
  proof
    assume "d + of_nat i = d + of_nat n"
    then have "(of_nat i :: u32) = of_nat n" by simp
    then have "unat (of_nat i :: u32) = unat (of_nat n :: u32)" by simp
    then show False using un [of i] un [of n] that by simp
  qed
  have "strtcpy d src len m (d + of_nat i) = s ! i \<and> s ! i \<noteq> 0" if "i < n" for i
    using that ne [OF that] un [of i] s n by (auto simp: eq copied_def cstr_def)
  moreover have "take (unat len - 1) s = take n s" by (auto simp: n_def min_def)
  ultimately show "cstr (strtcpy d src len m) d (take (unat len - 1) s)"
    using n by (simp add: cstr_def eq)
  assume "unat (a - d) > min (length s) (unat len - 1)"
  then have a: "n < unat (a - d)" by (simp add: n_def)
  then have "a \<noteq> d + of_nat n" using un [of n] by auto
  then show "strtcpy d src len m a = m a" using a by (simp add: eq copied_def)
qed

text \<open>What \<open>nullTrailingSpace\<close> strips: every trailing \<open>char\<close> that is at most 32 as a signed
  number, which includes the control characters and every byte from \<open>0x80\<close> on.\<close>

definition rstrip :: "u8 list \<Rightarrow> u8 list" where
  "rstrip s = rev (dropWhile (\<lambda>c. char_val c \<le> 32) (rev s))"

lemma rstrip_snoc: "rstrip (s @ [c]) = (if char_val c \<le> 32 then rstrip s else s @ [c])"
  by (simp add: rstrip_def)

lemma cstr_upd_last:
  assumes "cstr m a (s @ [c])" "length s < 4294967295"
  shows "cstr (m(a + of_nat (length s) := 0)) a s"
proof -
  have "a + of_nat i \<noteq> a + of_nat (length s)" if "i < length s" for i
  proof
    assume "a + of_nat i = a + of_nat (length s)"
    then have "(of_nat i :: u32) = of_nat (length s)" by simp
    then have "unat (of_nat i :: u32) = unat (of_nat (length s) :: u32)" by simp
    then show False using assms(2) that by (simp add: unat_of_nat_u32)
  qed
  moreover have "m (a + of_nat i) = s ! i \<and> s ! i \<noteq> 0" if "i < length s" for i
    using assms(1) that by (auto simp: cstr_def nth_append dest: spec [of _ i])
  ultimately show ?thesis by (simp add: cstr_def)
qed

lemma null_trailing_cstr:
  "cstr m a s \<Longrightarrow> length s < 4294967296 \<Longrightarrow>
   cstr (null_trailing_loop a (length s) m) a (rstrip s)"
proof (induction s arbitrary: m rule: rev_induct)
  case Nil
  then show ?case by (simp add: rstrip_def)
next
  case (snoc c s)
  have c: "m (a + of_nat (length s)) = c"
    using snoc.prems(1) by (auto simp: cstr_def nth_append dest: spec [of _ "length s"])
  have "cstr (null_trailing_loop a (length s) (m(a + of_nat (length s) := 0))) a (rstrip s)"
    using snoc.prems by (intro snoc.IH cstr_upd_last) auto
  then show ?case
    using snoc.prems c by (simp add: rstrip_snoc del: fun_upd_apply)
qed

lemma nullTrailingSpace_cstr:
  assumes "cstr m a s" "length s < 4294967296"
  shows "\<exists>m'. nullTrailingSpace a m = Some m' \<and> cstr m' a (rstrip s)"
  using null_trailing_cstr [OF assms] strlen_cstr [OF assms(1)] assms(2)
  by (simp add: nullTrailingSpace_def unat_of_nat_u32)

end
