(* ===== verification/Pmm.thy ===== *)
theory Pmm
  imports E820 Util
begin

text \<open>
  The memory allocator and the post memory manager of \<open>src/pmm.c\<close>.

  Each zone is a doubly linked list of \<open>struct allocinfo_s\<close> nodes. The nodes are kept in a
  typed heap \<open>infos\<close> from node addresses to node contents, so the model has the pointer
  updates of the code, in its order. A back pointer \<open>pprev\<close> is the address of a pointer
  cell: the head of a zone or the \<open>next\<close> field of a node. In a \<open>struct allocdetail_s\<close> at
  address \<open>d\<close> the node \<open>detailinfo\<close> is at \<open>d\<close>, \<open>datainfo\<close> at \<open>d + 20\<close>, and \<open>handle\<close> is
  \<open>handles d\<close>. The typed heap is separate from byte memory: that a node's bytes are never
  part of a block handed out is the separation invariant proved of the lists.

  A walk over a list may not end if the list is cyclic, so walks are partial functions and
  \<open>None\<close> is non-termination; on well-formed lists they are shown to return.

  Parameters: \<open>tmp\<close> is the stack address of \<open>tempdetail.datainfo\<close> in \<open>addSpace\<close>, \<open>bts\<close> the
  linker address of \<open>BiosTableSpace\<close>, \<open>code32init_end\<close> that of the symbol of this name.
  The configuration is the default one of \<open>src/Kconfig\<close>: \<open>PMM\<close> and \<open>RELOCATE_INIT\<close> on,
  \<open>THREAD_OPTIONROMS\<close> off, so \<open>wait_preempt()\<close> is 0 and \<open>CanPreempt\<close> is not touched.
\<close>

section \<open>Data\<close>

definition MALLOC_MIN_ALIGN :: u32 where "MALLOC_MIN_ALIGN = 16"
definition PMM_DEFAULT_HANDLE :: u32 where "PMM_DEFAULT_HANDLE = 0xffffffff"
definition PAGE_SIZE :: u32 where "PAGE_SIZE = 4096"
definition CONFIG_MAX_HIGHTABLE :: u32 where "CONFIG_MAX_HIGHTABLE = 0x10000"
definition CONFIG_MAX_BIOSTABLE :: u32 where "CONFIG_MAX_BIOSTABLE = 2048"
definition BUILD_STACK_ADDR :: u32 where "BUILD_STACK_ADDR = 0x7000"
definition BUILD_EBDA_MINIMUM :: u32 where "BUILD_EBDA_MINIMUM = 0x90000"
definition BUILD_LOWRAM_END :: u32 where "BUILD_LOWRAM_END = 0xa0000"
definition CONFIG_RELOCATE_INIT :: bool where "CONFIG_RELOCATE_INIT = True"
definition CONFIG_PMM :: bool where "CONFIG_PMM = True"

lemmas build_addrs = BUILD_STACK_ADDR_def BUILD_EBDA_MINIMUM_def BUILD_LOWRAM_END_def
  BUILD_BIOS_ADDR_def CONFIG_MAX_HIGHTABLE_def CONFIG_MAX_BIOSTABLE_def

datatype zone = ZoneTmpLow | ZoneLow | ZoneFSeg | ZoneTmpHigh | ZoneHigh

definition Zones :: "zone list" where
  "Zones = [ZoneTmpLow, ZoneLow, ZoneFSeg, ZoneTmpHigh, ZoneHigh]"

datatype pptr = ZoneInfo zone | InfoNext u32

record allocinfo =
  ai_next :: u32
  ai_pprev :: pptr
  ai_data :: u32
  ai_dataend :: u32
  ai_allocend :: u32

definition sizeof_allocdetail :: u32 where "sizeof_allocdetail = 44"

definition datainfo_of :: "u32 \<Rightarrow> u32" where "datainfo_of d = d + 20"
definition detail_of_datainfo :: "u32 \<Rightarrow> u32" where "detail_of_datainfo i = i - 20"

record pmm = machine +
  zone_info :: "zone \<Rightarrow> u32"
  infos :: "u32 \<Rightarrow> allocinfo"
  handles :: "u32 \<Rightarrow> u32"
  e820_list :: e820map

section \<open>Pointer cells\<close>

definition upd_info :: "u32 \<Rightarrow> (allocinfo \<Rightarrow> allocinfo) \<Rightarrow> 'a pmm_scheme \<Rightarrow> 'a pmm_scheme" where
  "upd_info a f st = st\<lparr>infos := (infos st)(a := f (infos st a))\<rparr>"

fun read_pp :: "pptr \<Rightarrow> 'a pmm_scheme \<Rightarrow> u32" where
  "read_pp (ZoneInfo z) st = zone_info st z"
| "read_pp (InfoNext a) st = ai_next (infos st a)"

fun write_pp :: "pptr \<Rightarrow> u32 \<Rightarrow> 'a pmm_scheme \<Rightarrow> 'a pmm_scheme" where
  "write_pp (ZoneInfo z) v st = st\<lparr>zone_info := (zone_info st)(z := v)\<rparr>"
| "write_pp (InfoNext a) v st = upd_info a (\<lambda>i. i\<lparr>ai_next := v\<rparr>) st"

section \<open>Low-level memory reservations\<close>

partial_function (option) allocSpace_from ::
  "u32 \<Rightarrow> u32 \<Rightarrow> u32 \<Rightarrow> u32 \<Rightarrow> 'a pmm_scheme \<Rightarrow> (u32 \<times> 'a pmm_scheme) option" where
  "allocSpace_from info sz al fill st =
     (if info = 0 then Some (0, st)
      else
        let dataend = ai_dataend (infos st info);
            allocend = ai_allocend (infos st info);
            newallocend = ALIGN_DOWN (allocend - sz) al in
        if newallocend \<ge> dataend \<and> newallocend \<le> allocend then
          (let pprev = ai_pprev (infos st info);
               fill = (if fill = 0 then newallocend else fill);
               st = upd_info fill (\<lambda>i. i\<lparr>ai_next := info, ai_pprev := pprev,
                      ai_data := newallocend, ai_dataend := newallocend + sz,
                      ai_allocend := allocend\<rparr>) st;
               st = upd_info info (\<lambda>i. i\<lparr>ai_allocend := newallocend, ai_pprev := InfoNext fill\<rparr>) st
           in Some (newallocend, write_pp pprev fill st))
        else allocSpace_from (ai_next (infos st info)) sz al fill st)"

declare allocSpace_from.simps [code]

definition allocSpace ::
  "zone \<Rightarrow> u32 \<Rightarrow> u32 \<Rightarrow> u32 \<Rightarrow> 'a pmm_scheme \<Rightarrow> (u32 \<times> 'a pmm_scheme) option" where
  "allocSpace z sz al fill st = allocSpace_from (zone_info st z) sz al fill st"

definition freeSpace :: "u32 \<Rightarrow> 'a pmm_scheme \<Rightarrow> 'a pmm_scheme" where
  "freeSpace info st =
     (let nxt = ai_next (infos st info);
          pprev = ai_pprev (infos st info);
          st = write_pp pprev nxt st
      in if nxt \<noteq> 0 then
           let st = (if ai_allocend (infos st nxt) = ai_data (infos st info)
                     then upd_info nxt (\<lambda>i. i\<lparr>ai_allocend := ai_allocend (infos st info)\<rparr>) st
                     else st)
           in upd_info nxt (\<lambda>i. i\<lparr>ai_pprev := pprev\<rparr>) st
         else st)"

partial_function (option) addSpace_pos :: "pptr \<Rightarrow> u32 \<Rightarrow> 'a pmm_scheme \<Rightarrow> (pptr \<times> u32) option" where
  "addSpace_pos pprev start st =
     (let info = read_pp pprev st in
      if info = 0 \<or> ai_data (infos st info) < start then Some (pprev, info)
      else addSpace_pos (InfoNext info) start st)"

declare addSpace_pos.simps [code]

text \<open>The bookkeeping block: from \<open>ZoneTmpHigh\<close>, else from \<open>ZoneTmpLow\<close>.\<close>

definition allocDetail :: "'a pmm_scheme \<Rightarrow> (u32 \<times> 'a pmm_scheme) option" where
  "allocDetail st =
     (case allocSpace ZoneTmpHigh sizeof_allocdetail MALLOC_MIN_ALIGN 0 st of
        None \<Rightarrow> None
      | Some (detail, st) \<Rightarrow>
          if detail = 0 then allocSpace ZoneTmpLow sizeof_allocdetail MALLOC_MIN_ALIGN 0 st
          else Some (detail, st))"

definition addSpace :: "u32 \<Rightarrow> zone \<Rightarrow> u32 \<Rightarrow> u32 \<Rightarrow> 'a pmm_scheme \<Rightarrow> 'a pmm_scheme option" where
  "addSpace tmp z start en st =
     (case addSpace_pos (ZoneInfo z) start st of
        None \<Rightarrow> None
      | Some (pprev, info) \<Rightarrow>
          let st = upd_info tmp (\<lambda>i. i\<lparr>ai_next := info, ai_pprev := pprev, ai_data := start,
                     ai_dataend := start, ai_allocend := en\<rparr>) st;
              st = write_pp pprev tmp st;
              st = (if info \<noteq> 0 then upd_info info (\<lambda>i. i\<lparr>ai_pprev := InfoNext tmp\<rparr>) st else st)
          in case allocDetail st of
            None \<Rightarrow> None
          | Some (detail, st) \<Rightarrow>
              let t = infos st tmp in
              if detail = 0 then
                (let st = write_pp (ai_pprev t) (ai_next t) st in
                 Some (if ai_next t \<noteq> 0 then upd_info (ai_next t) (\<lambda>i. i\<lparr>ai_pprev := ai_pprev t\<rparr>) st
                       else st))
              else
                (let st = upd_info (datainfo_of detail) (\<lambda>i. t) st;
                     st = st\<lparr>handles := (handles st)(detail := PMM_DEFAULT_HANDLE)\<rparr>;
                     st = write_pp (ai_pprev t) (datainfo_of detail) st in
                 Some (if ai_next t \<noteq> 0
                       then upd_info (ai_next t) (\<lambda>i. i\<lparr>ai_pprev := InfoNext (datainfo_of detail)\<rparr>) st
                       else st)))"

partial_function (option) findAlloc_from :: "u32 \<Rightarrow> u32 \<Rightarrow> 'a pmm_scheme \<Rightarrow> u32 option" where
  "findAlloc_from info data st =
     (if info = 0 then Some 0
      else if ai_data (infos st info) = data then Some info
      else findAlloc_from (ai_next (infos st info)) data st)"

declare findAlloc_from.simps [code]

fun findAlloc_zones :: "zone list \<Rightarrow> u32 \<Rightarrow> 'a pmm_scheme \<Rightarrow> u32 option" where
  "findAlloc_zones [] data st = Some 0"
| "findAlloc_zones (z # zs) data st =
     (case findAlloc_from (zone_info st z) data st of
        None \<Rightarrow> None
      | Some info \<Rightarrow> if info \<noteq> 0 then Some info else findAlloc_zones zs data st)"

definition findAlloc :: "u32 \<Rightarrow> 'a pmm_scheme \<Rightarrow> u32 option" where
  "findAlloc data st = findAlloc_zones Zones data st"

partial_function (option) findLast_from :: "u32 \<Rightarrow> 'a pmm_scheme \<Rightarrow> u32 option" where
  "findLast_from info st =
     (let nxt = ai_next (infos st info) in
      if nxt = 0 then Some info else findLast_from nxt st)"

declare findLast_from.simps [code]

definition findLast :: "zone \<Rightarrow> 'a pmm_scheme \<Rightarrow> u32 option" where
  "findLast z st = (if zone_info st z = 0 then Some 0 else findLast_from (zone_info st z) st)"

section \<open>Setup\<close>

text \<open>The loop of \<open>malloc_setup\<close> over the e820 entries, last entry first.\<close>

fun malloc_setup_high ::
  "u32 \<Rightarrow> e820map \<Rightarrow> u32 \<Rightarrow> 'a pmm_scheme \<Rightarrow> (u32 \<times> 'a pmm_scheme) option" where
  "malloc_setup_high tmp [] highram st = Some (highram, st)"
| "malloc_setup_high tmp (en # ens) highram st =
     (let ed = e_end en in
      if ed < 0x100000 then Some (highram, st)
      else if e_type en \<noteq> E820_RAM \<or> ed > 0xffffffff then malloc_setup_high tmp ens highram st
      else
        let s = ucast (e_start en); e = ucast ed;
            newe = ALIGN_DOWN (e - CONFIG_MAX_HIGHTABLE) MALLOC_MIN_ALIGN;
            (highram, e) = (if highram = 0 \<and> newe \<le> e \<and> newe \<ge> s then (newe, newe)
                            else (highram, e))
        in case addSpace tmp ZoneTmpHigh s e st of
             None \<Rightarrow> None
           | Some st \<Rightarrow> malloc_setup_high tmp ens highram st)"

definition pmm_add_e820 :: "u64 \<Rightarrow> u64 \<Rightarrow> u32 \<Rightarrow> 'a pmm_scheme \<Rightarrow> 'a pmm_scheme" where
  "pmm_add_e820 start sz ty st = st\<lparr>e820_list := add_e820 start sz ty (e820_list st)\<rparr>"

definition malloc_setup :: "u32 \<Rightarrow> u32 \<Rightarrow> 'a pmm_scheme \<Rightarrow> 'a pmm_scheme option" where
  "malloc_setup tmp bts st =
     (case malloc_setup_high tmp (rev (e820_list st)) 0 st of
        None \<Rightarrow> None
      | Some (highram, st) \<Rightarrow>
     (case addSpace tmp ZoneTmpLow BUILD_STACK_ADDR BUILD_EBDA_MINIMUM st of
        None \<Rightarrow> None
      | Some st \<Rightarrow>
     (case addSpace tmp ZoneFSeg bts (bts + CONFIG_MAX_BIOSTABLE) st of
        None \<Rightarrow> None
      | Some st \<Rightarrow>
     (case addSpace tmp ZoneLow BUILD_LOWRAM_END BUILD_LOWRAM_END st of
        None \<Rightarrow> None
      | Some st \<Rightarrow>
        if highram \<noteq> 0 then
          (case addSpace tmp ZoneHigh highram (highram + CONFIG_MAX_HIGHTABLE) st of
             None \<Rightarrow> None
           | Some st \<Rightarrow>
               Some (pmm_add_e820 (ucast highram) (ucast CONFIG_MAX_HIGHTABLE) E820_RESERVED st))
        else Some st))))"

definition malloc_fixupreloc :: "u32 \<Rightarrow> u32 \<Rightarrow> 'a pmm_scheme \<Rightarrow> 'a pmm_scheme option" where
  "malloc_fixupreloc tmp code32init_end st =
     (if \<not> CONFIG_RELOCATE_INIT then Some st
      else
        let st = fold (\<lambda>z st. upd_info (zone_info st z) (\<lambda>i. i\<lparr>ai_pprev := ZoneInfo z\<rparr>) st) Zones st
        in if code32init_end > BUILD_BIOS_ADDR then
             addSpace tmp ZoneFSeg BUILD_BIOS_ADDR code32init_end
               (st\<lparr>mem := memset BUILD_BIOS_ADDR 0 (unat (code32init_end - BUILD_BIOS_ADDR)) (mem st)\<rparr>)
           else Some st)"

definition bda_mem_kb :: "'a machine_scheme \<Rightarrow> u16" where
  "bda_mem_kb st = rd16 (mem st) (BDA bda_mem_size_kb)"

definition malloc_finalize :: "'a pmm_scheme \<Rightarrow> 'a pmm_scheme option" where
  "malloc_finalize st =
     (let endlow = ucast (bda_mem_kb st) * 1024;
          st = pmm_add_e820 (ucast endlow) (ucast (BUILD_LOWRAM_END - endlow)) E820_RESERVED st
      in case findLast ZoneHigh st of
           None \<Rightarrow> None
         | Some info \<Rightarrow>
             if info \<noteq> 0 then
               let giveback = ALIGN_DOWN (ai_allocend (infos st info) - ai_dataend (infos st info)) PAGE_SIZE
               in Some (pmm_add_e820 (ucast (ai_dataend (infos st info))) (ucast giveback) E820_RAM st)
             else Some st)"

section \<open>EBDA movement\<close>

definition relocate_ebda :: "u32 \<Rightarrow> u32 \<Rightarrow> u8 \<Rightarrow> 'a machine_scheme \<Rightarrow> int \<times> 'a machine_scheme" where
  "relocate_ebda newebda oldebda ebda_size st =
     (let lowram = ucast (bda_mem_kb st) * 1024 in
      if oldebda \<noteq> lowram then (-1, st)
      else
        let m = snd (memmove newebda oldebda (ucast ebda_size * 1024) (mem st));
            m = wr16 (BDA bda_mem_size_kb) (ucast (newebda div 1024)) m;
            m = wr16 (BDA bda_ebda_seg) (ucast (FLATPTR_TO_SEG newebda)) m
        in (0, st\<lparr>mem := m\<rparr>))"

definition zonelow_expand :: "u32 \<Rightarrow> u32 \<Rightarrow> u32 \<Rightarrow> 'a pmm_scheme \<Rightarrow> 'a pmm_scheme option" where
  "zonelow_expand tmp sz al st =
     (case findLast ZoneLow st of
        None \<Rightarrow> None
      | Some info \<Rightarrow>
        if info = 0 then Some st
        else
          let oldpos = ai_allocend (infos st info);
              newpos = ALIGN_DOWN (oldpos - sz) al;
              bottom = ai_dataend (infos st info) in
          if newpos \<ge> bottom \<and> newpos \<le> oldpos then Some st
          else
            let ebda_pos = MAKE_FLATPTR (get_ebda_seg st) 0;
                ebda_size = rd8 (mem st) ebda_pos;
                ebda_end = ebda_pos + ucast ebda_size * 1024;
                newpos = (if ebda_end \<noteq> bottom then ALIGN_DOWN (ebda_end - sz) al else newpos);
                newbottom = ALIGN_DOWN newpos 1024;
                newebda = ALIGN_DOWN (newbottom - ucast ebda_size * 1024) 1024 in
            if newebda < BUILD_EBDA_MINIMUM then Some st
            else
              let (ret, st) = relocate_ebda newebda ebda_pos ebda_size st in
              if ret \<noteq> 0 then Some st
              else if ebda_end = bottom then
                Some (upd_info info (\<lambda>i. i\<lparr>ai_data := newbottom, ai_dataend := newbottom\<rparr>) st)
              else addSpace tmp ZoneLow newbottom ebda_end st)"

definition allocExpandSpace ::
  "u32 \<Rightarrow> zone \<Rightarrow> u32 \<Rightarrow> u32 \<Rightarrow> u32 \<Rightarrow> 'a pmm_scheme \<Rightarrow> (u32 \<times> 'a pmm_scheme) option" where
  "allocExpandSpace tmp z sz al fill st =
     (case allocSpace z sz al fill st of
        None \<Rightarrow> None
      | Some (data, st) \<Rightarrow>
          if data \<noteq> 0 \<or> z \<noteq> ZoneLow then Some (data, st)
          else (case zonelow_expand tmp sz al st of
                  None \<Rightarrow> None
                | Some st \<Rightarrow> allocSpace z sz al fill st))"

section \<open>Tracked memory allocations\<close>

definition pmm_malloc ::
  "u32 \<Rightarrow> zone \<Rightarrow> u32 \<Rightarrow> u32 \<Rightarrow> u32 \<Rightarrow> 'a pmm_scheme \<Rightarrow> (u32 \<times> 'a pmm_scheme) option" where
  "pmm_malloc tmp z handle sz al st =
     (if sz = 0 then Some (0, st)
      else case allocDetail st of
        None \<Rightarrow> None
      | Some (detail, st) \<Rightarrow>
          if detail = 0 then Some (0, st)
          else case allocExpandSpace tmp z sz al (datainfo_of detail) st of
            None \<Rightarrow> None
          | Some (data, st) \<Rightarrow>
              if data = 0 then Some (0, freeSpace detail st)
              else Some (data, st\<lparr>handles := (handles st)(detail := handle)\<rparr>))"

definition pmm_free :: "u32 \<Rightarrow> 'a pmm_scheme \<Rightarrow> (int \<times> 'a pmm_scheme) option" where
  "pmm_free data st =
     (case findAlloc data st of
        None \<Rightarrow> None
      | Some info \<Rightarrow>
          if info = 0 \<or> data = info \<or> data = ai_dataend (infos st info) then Some (-1, st)
          else Some (0, freeSpace (detail_of_datainfo info) (freeSpace info st)))"

partial_function (option) getspace_from :: "u32 \<Rightarrow> u32 \<Rightarrow> 'a pmm_scheme \<Rightarrow> u32 option" where
  "getspace_from info maxspace st =
     (if info = 0 then Some maxspace
      else
        let space = ai_allocend (infos st info) - ai_dataend (infos st info) in
        getspace_from (ai_next (infos st info)) (if space > maxspace then space else maxspace) st)"

declare getspace_from.simps [code]

definition pmm_getspace :: "zone \<Rightarrow> 'a pmm_scheme \<Rightarrow> u32 option" where
  "pmm_getspace z st =
     (case getspace_from (zone_info st z) 0 st of
        None \<Rightarrow> None
      | Some maxspace \<Rightarrow>
          if z \<noteq> ZoneTmpHigh \<and> z \<noteq> ZoneTmpLow then Some maxspace
          else
            let reserve = ALIGN sizeof_allocdetail MALLOC_MIN_ALIGN in
            if maxspace \<le> reserve then Some 0 else Some (maxspace - reserve))"

text \<open>\<open>pmm_find\<close>; a node whose \<open>data\<close> is its own address is the \<open>detailinfo\<close> of a block.\<close>

partial_function (option) pmm_find_from :: "u32 \<Rightarrow> u32 \<Rightarrow> 'a pmm_scheme \<Rightarrow> u32 option option" where
  "pmm_find_from info handle st =
     (if info = 0 then Some None
      else if ai_data (infos st info) \<noteq> info then pmm_find_from (ai_next (infos st info)) handle st
      else if handles st info = handle then Some (Some (ai_data (infos st (datainfo_of info))))
      else pmm_find_from (ai_next (infos st info)) handle st)"

declare pmm_find_from.simps [code]

fun pmm_find_zones :: "zone list \<Rightarrow> u32 \<Rightarrow> 'a pmm_scheme \<Rightarrow> u32 option" where
  "pmm_find_zones [] handle st = Some 0"
| "pmm_find_zones (z # zs) handle st =
     (case pmm_find_from (zone_info st z) handle st of
        None \<Rightarrow> None
      | Some (Some data) \<Rightarrow> Some data
      | Some None \<Rightarrow> pmm_find_zones zs handle st)"

definition pmm_find :: "u32 \<Rightarrow> 'a pmm_scheme \<Rightarrow> u32 option" where
  "pmm_find handle st = pmm_find_zones Zones handle st"

section \<open>PMM interface\<close>

text \<open>The 16-bit argument array; a \<open>u32\<close> argument is two words, low word first.\<close>

definition args32 :: "(nat \<Rightarrow> u16) \<Rightarrow> nat \<Rightarrow> u32" where
  "args32 args i = ucast (args i) OR push_bit 16 (ucast (args (i + 1)))"

definition PMM_FUNCTION_NOT_SUPPORTED :: u32 where
  "PMM_FUNCTION_NOT_SUPPORTED = 0xffffffff"

text \<open>\<open>__ffs\<close>: the index of the lowest set bit (\<open>bsf\<close>); \<open>handle_pmm00\<close> calls it on a non-zero size.\<close>

definition ffs :: "u32 \<Rightarrow> nat" where
  "ffs x = (case find (bit x) [0..<32] of None \<Rightarrow> 0 | Some n \<Rightarrow> n)"

definition pmm00_zones :: "u16 \<Rightarrow> zone \<times> zone" where
  "pmm00_zones flags = (if flags AND 8 \<noteq> 0 then (ZoneLow, ZoneHigh) else (ZoneTmpLow, ZoneTmpHigh))"

definition pmm00_align :: "u16 \<Rightarrow> u32 \<Rightarrow> u32" where
  "pmm00_align flags sz =
     (if flags AND 4 \<noteq> 0 then
        (let al = push_bit (ffs sz) 1 in if al < MALLOC_MIN_ALIGN then MALLOC_MIN_ALIGN else al)
      else MALLOC_MIN_ALIGN)"

definition handle_pmm00 ::
  "u32 \<Rightarrow> (nat \<Rightarrow> u16) \<Rightarrow> 'a pmm_scheme \<Rightarrow> (u32 \<times> 'a pmm_scheme) option" where
  "handle_pmm00 tmp args st =
     (let len = args32 args 1; handle = args32 args 3; flags = args 5;
          (lowzone, highzone) = pmm00_zones flags in
      if len = 0 then
        (if flags AND 3 = 1 then map_option (\<lambda>r. (r, st)) (pmm_getspace lowzone st)
         else if flags AND 3 = 2 then map_option (\<lambda>r. (r, st)) (pmm_getspace highzone st)
         else if flags AND 3 = 3 then
           (case (pmm_getspace lowzone st, pmm_getspace highzone st) of
              (Some spacelow, Some spacehigh) \<Rightarrow>
                Some (if spacelow > spacehigh then spacelow else spacehigh, st)
            | _ \<Rightarrow> None)
         else Some (0, st))
      else
        let sz = len * 16 in
        if sint sz \<le> 0 then Some (0, st)
        else
          let al = pmm00_align flags sz in
          if flags AND 3 = 1 then pmm_malloc tmp lowzone handle sz al st
          else if flags AND 3 = 2 then pmm_malloc tmp highzone handle sz al st
          else if flags AND 3 = 3 then
            (case pmm_malloc tmp lowzone handle sz al st of
               None \<Rightarrow> None
             | Some (data, st) \<Rightarrow>
                 if data \<noteq> 0 then Some (data, st) else pmm_malloc tmp highzone handle sz al st)
          else Some (0, st))"

definition handle_pmm01 :: "(nat \<Rightarrow> u16) \<Rightarrow> 'a pmm_scheme \<Rightarrow> (u32 \<times> 'a pmm_scheme) option" where
  "handle_pmm01 args st =
     (let handle = args32 args 1 in
      if handle = PMM_DEFAULT_HANDLE then Some (0, st)
      else map_option (\<lambda>r. (r, st)) (pmm_find handle st))"

definition handle_pmm02 :: "(nat \<Rightarrow> u16) \<Rightarrow> 'a pmm_scheme \<Rightarrow> (u32 \<times> 'a pmm_scheme) option" where
  "handle_pmm02 args st =
     map_option (\<lambda>(ret, st). (if ret \<noteq> 0 then 1 else 0, st)) (pmm_free (args32 args 1) st)"

definition handle_pmmXX :: "(nat \<Rightarrow> u16) \<Rightarrow> 'a pmm_scheme \<Rightarrow> (u32 \<times> 'a pmm_scheme) option" where
  "handle_pmmXX args st = Some (PMM_FUNCTION_NOT_SUPPORTED, st)"

definition handle_pmm ::
  "u32 \<Rightarrow> (nat \<Rightarrow> u16) \<Rightarrow> 'a pmm_scheme \<Rightarrow> (u32 \<times> 'a pmm_scheme) option" where
  "handle_pmm tmp args st =
     (if \<not> CONFIG_PMM then Some (PMM_FUNCTION_NOT_SUPPORTED, st)
      else if args 0 = 0 then handle_pmm00 tmp args st
      else if args 0 = 1 then handle_pmm01 args st
      else if args 0 = 2 then handle_pmm02 args st
      else handle_pmmXX args st)"

end
