(* ===== verification/PmmRep.thy ===== *)
theory PmmRep
  imports Pmm
begin

text \<open>
  The abstract view of the allocator of \<^verbatim>\<open>Pmm.thy\<close>: a zone is the list of its blocks, and
  the pointer operations \<open>allocSpace\<close> and \<open>freeSpace\<close> refine list operations. \<open>pmm_rep st Z\<close>
  says that the doubly linked lists of the state \<open>st\<close> are the block lists \<open>Z\<close>, with every
  back pointer right and no node shared.
\<close>

section \<open>Blocks\<close>

record blk =
  b_node :: u32
  b_data :: u32
  b_dataend :: u32
  b_allocend :: u32

definition fit_pos :: "u32 \<Rightarrow> u32 \<Rightarrow> blk \<Rightarrow> u32" where
  "fit_pos sz al b = ALIGN_DOWN (b_allocend b - sz) al"

definition fits :: "u32 \<Rightarrow> u32 \<Rightarrow> blk \<Rightarrow> bool" where
  "fits sz al b \<longleftrightarrow> b_dataend b \<le> fit_pos sz al b \<and> fit_pos sz al b \<le> b_allocend b"

text \<open>Allocation takes the top of the free space of the first block that has enough.\<close>

fun l_alloc :: "u32 \<Rightarrow> u32 \<Rightarrow> u32 \<Rightarrow> blk list \<Rightarrow> u32 \<times> blk list" where
  "l_alloc sz al fill [] = (0, [])"
| "l_alloc sz al fill (b # bs) =
     (if fits sz al b then
        (fit_pos sz al b,
         \<lparr>b_node = (if fill = 0 then fit_pos sz al b else fill), b_data = fit_pos sz al b,
          b_dataend = fit_pos sz al b + sz, b_allocend = b_allocend b\<rparr>
         # b\<lparr>b_allocend := fit_pos sz al b\<rparr> # bs)
      else (fst (l_alloc sz al fill bs), b # snd (l_alloc sz al fill bs)))"

text \<open>The block below a freed block takes over its space when the two are adjacent.\<close>

fun l_absorb :: "blk \<Rightarrow> blk list \<Rightarrow> blk list" where
  "l_absorb b [] = []"
| "l_absorb b (c # cs) =
     (if b_allocend c = b_data b then c\<lparr>b_allocend := b_allocend b\<rparr> else c) # cs"

fun l_free :: "u32 \<Rightarrow> blk list \<Rightarrow> blk list" where
  "l_free node [] = []"
| "l_free node (b # bs) = (if b_node b = node then l_absorb b bs else b # l_free node bs)"

section \<open>List segments in the heap\<close>

fun seg :: "(u32 \<Rightarrow> allocinfo) \<Rightarrow> pptr \<Rightarrow> u32 \<Rightarrow> blk list \<Rightarrow> pptr \<Rightarrow> u32 \<Rightarrow> bool" where
  "seg I pp p [] pp' p' \<longleftrightarrow> pp' = pp \<and> p' = p"
| "seg I pp p (b # bs) pp' p' \<longleftrightarrow>
     p = b_node b \<and> p \<noteq> 0 \<and> ai_pprev (I p) = pp \<and> ai_data (I p) = b_data b
     \<and> ai_dataend (I p) = b_dataend b \<and> ai_allocend (I p) = b_allocend b
     \<and> seg I (InfoNext p) (ai_next (I p)) bs pp' p'"

abbreviation nodes :: "blk list \<Rightarrow> u32 set" where
  "nodes bs \<equiv> b_node ` set bs"

lemma seg_append:
  "seg I pp p (xs @ ys) pp' p' \<longleftrightarrow> (\<exists>q r. seg I pp p xs q r \<and> seg I q r ys pp' p')"
  by (induction xs arbitrary: pp p) auto

lemma seg_cong:
  "(\<And>a. a \<in> nodes bs \<Longrightarrow> I' a = I a) \<Longrightarrow> seg I' pp p bs pp' p' = seg I pp p bs pp' p'"
  by (induction bs arbitrary: pp p) auto

lemma seg_end: "seg I pp p xs pp' p' \<Longrightarrow>
   pp' = (if xs = [] then pp else InfoNext (b_node (last xs)))"
  by (induction xs arbitrary: pp p) auto

lemma seg_relink:
  assumes "seg I pp p (xs @ [b]) pp' p'" "b_node b \<notin> nodes xs"
  shows "seg (I(b_node b := I (b_node b)\<lparr>ai_next := v\<rparr>)) pp p (xs @ [b]) pp' v"
proof -
  obtain q r where "seg I pp p xs q r" "seg I q r [b] pp' p'"
    using assms(1) by (auto simp: seg_append)
  moreover have "seg (I(b_node b := J)) pp p xs q r \<longleftrightarrow> seg I pp p xs q r" for J
    using assms(2) by (intro seg_cong) (metis fun_upd_other)
  ultimately show ?thesis by (auto simp: seg_append)
qed

text \<open>A segment from the head of a zone; the pointer cell at its end can be written.\<close>

definition zseg :: "'a pmm_scheme \<Rightarrow> zone \<Rightarrow> blk list \<Rightarrow> pptr \<Rightarrow> u32 \<Rightarrow> bool" where
  "zseg st z xs pp p \<longleftrightarrow> seg (infos st) (ZoneInfo z) (zone_info st z) xs pp p"

lemma infos_upd_info [simp]: "infos (upd_info a f st) = (infos st)(a := f (infos st a))"
  and zone_info_upd_info [simp]: "zone_info (upd_info a f st) = zone_info st"
  by (simp_all add: upd_info_def)

lemma upd_info_upd_info: "upd_info a f (upd_info a g st) = upd_info a (\<lambda>i. f (g i)) st"
  by (simp add: upd_info_def)

lemma upd_info_cong: "f (infos st a) = g (infos st a) \<Longrightarrow> upd_info a f st = upd_info a g st"
  by (simp add: upd_info_def)

lemma zseg_upd_info: "a \<notin> nodes xs \<Longrightarrow> zseg (upd_info a f st) z xs pp p = zseg st z xs pp p"
  unfolding zseg_def zone_info_upd_info by (rule seg_cong) auto

lemma zseg_write_pp:
  assumes "zseg st z xs pp p" "distinct (map b_node xs)"
  shows "zseg (write_pp pp v st) z xs pp v"
proof (cases xs rule: rev_cases)
  case Nil
  then show ?thesis using assms by (auto simp: zseg_def)
next
  case (snoc ys b)
  then have "pp = InfoNext (b_node b)" using assms(1) by (auto simp: zseg_def dest: seg_end)
  moreover have "b_node b \<notin> nodes ys" using assms(2) snoc by auto
  ultimately show ?thesis
    using assms(1) snoc seg_relink [of "infos st" "ZoneInfo z" "zone_info st z" ys b pp p v]
    by (simp add: zseg_def del: fun_upd_apply)
qed

lemma infos_write_pp_other: "pp \<noteq> InfoNext a \<Longrightarrow> infos (write_pp pp v st) a = infos st a"
  by (cases pp) auto

lemma zone_info_write_pp_other: "pp \<noteq> ZoneInfo z \<Longrightarrow> zone_info (write_pp pp v st) z = zone_info st z"
  by (cases pp) auto

lemma zseg_end:
  "zseg st z xs pp p \<Longrightarrow> pp = (if xs = [] then ZoneInfo z else InfoNext (b_node (last xs)))"
  by (auto simp: zseg_def dest: seg_end)

text \<open>What an operation on zone \<open>z\<close> may touch.\<close>

definition touches :: "zone \<Rightarrow> u32 set \<Rightarrow> 'a pmm_scheme \<Rightarrow> 'a pmm_scheme \<Rightarrow> bool" where
  "touches z A st st' \<longleftrightarrow>
     (\<forall>z'. z' \<noteq> z \<longrightarrow> zone_info st' z' = zone_info st z') \<and> (\<forall>a. a \<notin> A \<longrightarrow> infos st' a = infos st a)
     \<and> st' = st\<lparr>zone_info := zone_info st', infos := infos st'\<rparr>"

lemma touches_refl [simp]: "touches z A st st"
  by (simp add: touches_def)

lemma touches_trans: "touches z A st st' \<Longrightarrow> touches z A st' st'' \<Longrightarrow> touches z A st st''"
  unfolding touches_def by (metis (no_types, lifting) pmm.surjective pmm.update_convs(1,2))

lemma touches_upd_info: "a \<in> A \<Longrightarrow> touches z A st (upd_info a f st)"
  by (auto simp: touches_def upd_info_def)

lemma touches_write_pp:
  "pp = ZoneInfo z \<or> (\<exists>a \<in> A. pp = InfoNext a) \<Longrightarrow> touches z A st (write_pp pp v st)"
  by (auto simp: touches_def upd_info_def)

section \<open>The representation\<close>

definition zone_rep :: "'a pmm_scheme \<Rightarrow> zone \<Rightarrow> blk list \<Rightarrow> bool" where
  "zone_rep st z bs \<longleftrightarrow> (\<exists>pp. zseg st z bs pp 0)"

definition nodes_ok :: "(zone \<Rightarrow> blk list) \<Rightarrow> bool" where
  "nodes_ok Z \<longleftrightarrow> (\<forall>z. distinct (map b_node (Z z)))
     \<and> (\<forall>z z'. z \<noteq> z' \<longrightarrow> nodes (Z z) \<inter> nodes (Z z') = {})"

definition pmm_rep :: "'a pmm_scheme \<Rightarrow> (zone \<Rightarrow> blk list) \<Rightarrow> bool" where
  "pmm_rep st Z \<longleftrightarrow> (\<forall>z. zone_rep st z (Z z)) \<and> nodes_ok Z"

lemma zone_rep_nonzero: "zone_rep st z bs \<Longrightarrow> 0 \<notin> nodes bs"
proof -
  have "seg I pp p bs pp' p' \<Longrightarrow> 0 \<notin> nodes bs" for I pp p pp' p'
    by (induction bs arbitrary: pp p) auto
  then show "zone_rep st z bs \<Longrightarrow> 0 \<notin> nodes bs" by (auto simp: zone_rep_def zseg_def)
qed

lemma zone_rep_touches:
  "touches z A st st' \<Longrightarrow> z' \<noteq> z \<Longrightarrow> A \<inter> nodes bs = {} \<Longrightarrow> zone_rep st' z' bs = zone_rep st z' bs"
proof -
  assume t: "touches z A st st'" "z' \<noteq> z" "A \<inter> nodes bs = {}"
  have zi: "zone_info st' z' = zone_info st z'" using t(1,2) by (simp add: touches_def)
  have "infos st' a = infos st a" if "a \<in> nodes bs" for a
    using t(1,3) that unfolding touches_def by blast
  then have "seg (infos st') (ZoneInfo z') p bs pp 0 = seg (infos st) (ZoneInfo z') p bs pp 0" for p pp
    by (rule seg_cong)
  then show ?thesis by (simp add: zone_rep_def zseg_def zi)
qed

lemma pmm_rep_update:
  assumes "pmm_rep st Z" "touches z (nodes (Z z) \<union> F) st st'" "zone_rep st' z bs"
    and "nodes_ok (Z(z := bs))" "\<And>z'. z' \<noteq> z \<Longrightarrow> F \<inter> nodes (Z z') = {}"
  shows "pmm_rep st' (Z(z := bs))"
proof -
  have "zone_rep st' z' (Z z')" if "z' \<noteq> z" for z'
  proof -
    have "nodes (Z z) \<inter> nodes (Z z') = {}"
      using assms(1) that unfolding pmm_rep_def nodes_ok_def by metis
    then have "(nodes (Z z) \<union> F) \<inter> nodes (Z z') = {}"
      using assms(5) [OF that] by (simp add: Int_Un_distrib2)
    then show ?thesis
      using assms(1) zone_rep_touches [OF assms(2) that] by (simp add: pmm_rep_def)
  qed
  then show ?thesis using assms(3,4) by (auto simp: pmm_rep_def)
qed

section \<open>allocSpace refines l_alloc\<close>

definition fill_of :: "u32 \<Rightarrow> u32 \<Rightarrow> u32 \<Rightarrow> blk \<Rightarrow> u32" where
  "fill_of sz al fill b = (if fill = 0 then fit_pos sz al b else fill)"

lemma touches_mono: "touches z A st st' \<Longrightarrow> A \<subseteq> B \<Longrightarrow> touches z B st st'"
  unfolding touches_def by blast

lemma zone_rep_splice:
  assumes "zseg st z xs pp p" "seg (infos st) pp p ys pp' 0"
  shows "zone_rep st z (xs @ ys)"
  using assms unfolding zone_rep_def zseg_def seg_append by blast

lemma zone_rep_split:
  assumes "zone_rep st z (xs @ ys)"
  obtains pp p pp' where "zseg st z xs pp p" "seg (infos st) pp p ys pp' 0"
  using assms unfolding zone_rep_def zseg_def seg_append by blast

text \<open>The pointer updates at the block \<open>b\<close> found, after the prefix \<open>xs\<close>.\<close>

lemma alloc_at_refines:
  fixes n e :: u32
  assumes xs: "zseg st z xs pp (b_node b)" and ys: "seg (infos st) pp (b_node b) (b # ys) pp' 0"
    and dist: "distinct (map b_node (xs @ b # ys))"
    and f: "f \<noteq> 0" "f \<notin> nodes (xs @ b # ys)"
  defines "st' \<equiv> write_pp pp f
      (upd_info (b_node b) (\<lambda>i. i\<lparr>ai_allocend := n, ai_pprev := InfoNext f\<rparr>)
        (upd_info f (\<lambda>i. i\<lparr>ai_next := b_node b, ai_pprev := pp, ai_data := n,
            ai_dataend := e, ai_allocend := b_allocend b\<rparr>) st))"
  shows "zone_rep st' z (xs @ \<lparr>b_node = f, b_data = n, b_dataend = e, b_allocend = b_allocend b\<rparr>
      # b\<lparr>b_allocend := n\<rparr> # ys)"
    "touches z (insert f (nodes (xs @ b # ys))) st st'"
proof -
  let ?b = "b_node b"
  let ?st2 = "upd_info ?b (\<lambda>i. i\<lparr>ai_allocend := n, ai_pprev := InfoNext f\<rparr>)
        (upd_info f (\<lambda>i. i\<lparr>ai_next := ?b, ai_pprev := pp, ai_data := n,
            ai_dataend := e, ai_allocend := b_allocend b\<rparr>) st)"
  have nb: "?b \<noteq> 0" "f \<noteq> ?b" "?b \<notin> nodes xs" "?b \<notin> nodes ys" "f \<notin> nodes xs" "f \<notin> nodes ys"
    and disj: "nodes xs \<inter> nodes ys = {}"
    using ys f dist by auto
  have pp: "pp = (if xs = [] then ZoneInfo z else InfoNext (b_node (last xs)))"
    by (rule zseg_end [OF xs])
  have last: "xs \<noteq> [] \<Longrightarrow> b_node (last xs) \<in> nodes xs" by simp
  have pp_ne: "pp \<noteq> InfoNext a" if "a \<notin> nodes xs" for a
    using that pp last by auto
  have xs2: "zseg ?st2 z xs pp ?b"
    using xs nb by (simp add: zseg_upd_info)
  have xs3: "zseg st' z xs pp f"
    unfolding st'_def using dist by (intro zseg_write_pp [OF xs2]) simp
  have at: "infos st' a = infos ?st2 a" if "a \<notin> nodes xs" for a
    unfolding st'_def by (rule infos_write_pp_other [OF pp_ne [OF that]])
  have "seg (infos st') (InfoNext ?b) (ai_next (infos st ?b)) ys pp' 0 =
      seg (infos st) (InfoNext ?b) (ai_next (infos st ?b)) ys pp' 0"
  proof (rule seg_cong)
    fix a assume a: "a \<in> nodes ys"
    then have "a \<notin> nodes xs" "a \<noteq> f" "a \<noteq> ?b" using disj nb by blast+
    then show "infos st' a = infos st a" using at [of a] by simp
  qed
  then have "seg (infos st') (InfoNext ?b) (ai_next (infos st ?b)) ys pp' 0" using ys by simp
  then have "seg (infos st') pp f (\<lparr>b_node = f, b_data = n, b_dataend = e, b_allocend = b_allocend b\<rparr>
      # b\<lparr>b_allocend := n\<rparr> # ys) pp' 0"
    using at [of f] at [of ?b] nb f ys by simp
  then show "zone_rep st' z (xs @ \<lparr>b_node = f, b_data = n, b_dataend = e, b_allocend = b_allocend b\<rparr>
      # b\<lparr>b_allocend := n\<rparr> # ys)"
    by (rule zone_rep_splice [OF xs3])
  have "touches z (insert f (nodes (xs @ b # ys))) ?st2 st'"
    unfolding st'_def using pp last by (intro touches_write_pp) auto
  moreover have "touches z (insert f (nodes (xs @ b # ys))) st ?st2"
    by (intro touches_trans [OF touches_upd_info touches_upd_info]) auto
  ultimately show "touches z (insert f (nodes (xs @ b # ys))) st st'" by (rule touches_trans [rotated])
qed

lemma allocSpace_from_refines:
  assumes "zseg st z xs pp info" "seg (infos st) pp info ys pp' 0"
    and "distinct (map b_node (xs @ ys))"
    and "\<And>b. b \<in> set ys \<Longrightarrow> fits sz al b \<Longrightarrow>
      fill_of sz al fill b \<noteq> 0 \<and> fill_of sz al fill b \<notin> nodes (xs @ ys)"
  shows "\<exists>st'. allocSpace_from info sz al fill st = Some (fst (l_alloc sz al fill ys), st')
    \<and> zone_rep st' z (xs @ snd (l_alloc sz al fill ys))
    \<and> touches z (nodes (xs @ ys) \<union> nodes (snd (l_alloc sz al fill ys))) st st'"
  using assms
proof (induction ys arbitrary: xs pp info)
  case Nil
  then have "zone_rep st z xs" "info = 0" by (auto simp: zone_rep_def)
  then show ?case by (simp add: allocSpace_from.simps)
next
  case (Cons b ys)
  let ?I = "infos st (b_node b)"
  have info: "info = b_node b" "info \<noteq> 0" and ai: "ai_pprev ?I = pp" "ai_dataend ?I = b_dataend b"
      "ai_allocend ?I = b_allocend b"
    using Cons.prems(2) by auto
  show ?case
  proof (cases "fits sz al b")
    case True
    have f: "fill_of sz al fill b \<noteq> 0" "fill_of sz al fill b \<notin> nodes (xs @ b # ys)"
      using Cons.prems(4) [of b] True by auto
    let ?f = "fill_of sz al fill b" and ?n = "fit_pos sz al b"
    let ?st' = "write_pp pp ?f
      (upd_info (b_node b) (\<lambda>i. i\<lparr>ai_allocend := ?n, ai_pprev := InfoNext ?f\<rparr>)
        (upd_info ?f (\<lambda>i. i\<lparr>ai_next := b_node b, ai_pprev := pp, ai_data := ?n,
            ai_dataend := ?n + sz, ai_allocend := b_allocend b\<rparr>) st))"
    note at = alloc_at_refines [OF Cons.prems(1)[unfolded info] Cons.prems(2)[unfolded info]
        Cons.prems(3) f, where n = ?n and e = "?n + sz"]
    have "allocSpace_from info sz al fill st = Some (?n, ?st')"
      using True info ai
      by (simp add: allocSpace_from.simps [of "b_node b"] fits_def fit_pos_def fill_of_def Let_def)
    moreover have "l_alloc sz al fill (b # ys) = (?n,
        \<lparr>b_node = ?f, b_data = ?n, b_dataend = ?n + sz, b_allocend = b_allocend b\<rparr>
        # b\<lparr>b_allocend := ?n\<rparr> # ys)"
      using True by (simp add: fill_of_def)
    moreover have "touches z (nodes (xs @ b # ys) \<union> nodes (\<lparr>b_node = ?f, b_data = ?n,
        b_dataend = ?n + sz, b_allocend = b_allocend b\<rparr> # b\<lparr>b_allocend := ?n\<rparr> # ys)) st ?st'"
      by (rule touches_mono [OF at(2)]) auto
    ultimately show ?thesis using at(1) by auto
  next
    case False
    have 1: "zseg st z (xs @ [b]) (InfoNext info) (ai_next (infos st info))"
      using Cons.prems(1,2) info by (auto simp: zseg_def seg_append)
    have 2: "seg (infos st) (InfoNext info) (ai_next (infos st info)) ys pp' 0"
      using Cons.prems(2) info by auto
    have 3: "distinct (map b_node ((xs @ [b]) @ ys))" using Cons.prems(3) by simp
    have "allocSpace_from info sz al fill st = allocSpace_from (ai_next (infos st info)) sz al fill st"
      using False info ai
      by (auto simp: allocSpace_from.simps [of "b_node b"] fits_def fit_pos_def Let_def)
    then show ?thesis
      using Cons.IH [OF 1 2 3] Cons.prems(4) False
      by (auto intro: touches_mono)
  qed
qed

lemma l_alloc_nodes:
  assumes "distinct (map b_node bs)"
    and "\<And>b. b \<in> set bs \<Longrightarrow> fits sz al b \<Longrightarrow> fill_of sz al fill b \<notin> N \<union> nodes bs"
    and "nodes bs \<inter> N = {}"
  shows "distinct (map b_node (snd (l_alloc sz al fill bs)))
    \<and> nodes bs \<subseteq> nodes (snd (l_alloc sz al fill bs))
    \<and> nodes (snd (l_alloc sz al fill bs)) \<inter> N = {}"
  using assms
proof (induction bs arbitrary: N)
  case (Cons b bs)
  show ?case
  proof (cases "fits sz al b")
    case True
    then have "fill_of sz al fill b \<notin> N \<union> nodes (b # bs)" using Cons.prems(2) [of b] by simp
    then show ?thesis using Cons.prems(1,3) True by (auto simp: fill_of_def)
  next
    case False
    have "distinct (map b_node (snd (l_alloc sz al fill bs)))
      \<and> nodes bs \<subseteq> nodes (snd (l_alloc sz al fill bs))
      \<and> nodes (snd (l_alloc sz al fill bs)) \<inter> insert (b_node b) N = {}"
      using Cons.prems by (intro Cons.IH) auto
    then show ?thesis using False Cons.prems(3) by auto
  qed
qed simp

definition all_nodes :: "(zone \<Rightarrow> blk list) \<Rightarrow> u32 set" where
  "all_nodes Z = (\<Union>z. nodes (Z z))"

text \<open>The operations of this section change the links and nothing else.\<close>

definition links_only :: "'a pmm_scheme \<Rightarrow> 'a pmm_scheme \<Rightarrow> bool" where
  "links_only st st' \<longleftrightarrow> st' = st\<lparr>zone_info := zone_info st', infos := infos st'\<rparr>"

lemma touches_links: "touches z A st st' \<Longrightarrow> links_only st st'"
  by (simp add: touches_def links_only_def)

lemma links_only_sel [simp]:
  assumes "links_only st st'"
  shows "handles st' = handles st" "mem st' = mem st" "e820_list st' = e820_list st"
  by (subst assms [unfolded links_only_def], simp)+

lemma links_only_refl [simp]: "links_only st st"
  by (simp add: links_only_def)

lemma links_only_trans: "links_only st st' \<Longrightarrow> links_only st' st'' \<Longrightarrow> links_only st st''"
  unfolding links_only_def by (metis (no_types, lifting) pmm.surjective pmm.update_convs(1,2))

lemma allocSpace_refines:
  assumes rep: "pmm_rep st Z"
    and fresh: "\<And>b. b \<in> set (Z z) \<Longrightarrow> fits sz al b \<Longrightarrow>
      fill_of sz al fill b \<noteq> 0 \<and> fill_of sz al fill b \<notin> all_nodes Z"
  shows "\<exists>st'. allocSpace z sz al fill st = Some (fst (l_alloc sz al fill (Z z)), st')
    \<and> pmm_rep st' (Z(z := snd (l_alloc sz al fill (Z z)))) \<and> links_only st st'"
proof -
  let ?bs = "snd (l_alloc sz al fill (Z z))"
  define N where "N = (\<Union>z' \<in> - {z}. nodes (Z z'))"
  have dist: "distinct (map b_node (Z z))"
    using rep unfolding pmm_rep_def nodes_ok_def by blast
  have "nodes (Z z) \<inter> nodes (Z z') = {}" if "z' \<noteq> z" for z'
    using rep that unfolding pmm_rep_def nodes_ok_def by metis
  then have disj: "nodes (Z z) \<inter> N = {}" unfolding N_def by blast
  have all: "all_nodes Z = N \<union> nodes (Z z)"
    unfolding all_nodes_def N_def by blast
  have fr: "fill_of sz al fill b \<notin> N \<union> nodes (Z z)" if "b \<in> set (Z z)" "fits sz al b" for b
    using fresh [OF that] unfolding all by simp
  have N: "distinct (map b_node ?bs)" "nodes (Z z) \<subseteq> nodes ?bs" "nodes ?bs \<inter> N = {}"
    using l_alloc_nodes [OF dist fr disj] by simp_all
  obtain pp p pp' where "zseg st z [] pp p" "seg (infos st) pp p (Z z) pp' 0"
    using rep zone_rep_split [of st z "[]" "Z z"] by (auto simp: pmm_rep_def)
  moreover from this have "p = zone_info st z" by (simp add: zseg_def)
  ultimately obtain st' where st': "allocSpace z sz al fill st = Some (fst (l_alloc sz al fill (Z z)), st')"
    "zone_rep st' z ?bs" "touches z (nodes (Z z) \<union> nodes ?bs) st st'"
    using allocSpace_from_refines [of st z "[]" pp p "Z z" pp' sz al fill] dist fresh all
    by (auto simp: allocSpace_def)
  have "nodes ?bs \<inter> nodes (Z z') = {}" if "z' \<noteq> z" for z'
    using N(3) that unfolding N_def by blast
  moreover from this have "nodes_ok (Z(z := ?bs))"
    using rep N(1) unfolding pmm_rep_def nodes_ok_def by (simp add: Int_commute)
  ultimately have "pmm_rep st' (Z(z := ?bs))"
    by (intro pmm_rep_update [OF rep st'(3) st'(2)]) auto
  then show ?thesis using st'(1,3) touches_links by blast
qed

section \<open>freeSpace refines l_free\<close>

lemma l_free_append: "b_node b \<notin> nodes xs \<Longrightarrow> l_free (b_node b) (xs @ b # ys) = xs @ l_absorb b ys"
  by (induction xs) auto

lemma nodes_l_absorb [simp]: "nodes (l_absorb b ys) = nodes ys"
  "map b_node (l_absorb b ys) = map b_node ys"
  by (cases ys; simp)+

lemma freeSpace_refines_zone:
  assumes rep: "zone_rep st z (xs @ b # ys)" and dist: "distinct (map b_node (xs @ b # ys))"
  shows "zone_rep (freeSpace (b_node b) st) z (xs @ l_absorb b ys)
    \<and> touches z (nodes (xs @ b # ys)) st (freeSpace (b_node b) st)"
proof -
  let ?b = "b_node b" let ?nxt = "ai_next (infos st ?b)"
  obtain pp p pp' where xs: "zseg st z xs pp p" and s: "seg (infos st) pp p (b # ys) pp' 0"
    using rep by (rule zone_rep_split)
  have p: "p = ?b" "ai_pprev (infos st ?b) = pp" "ai_data (infos st ?b) = b_data b"
    "ai_allocend (infos st ?b) = b_allocend b" and sys: "seg (infos st) (InfoNext ?b) ?nxt ys pp' 0"
    using s by auto
  have pp: "pp = (if xs = [] then ZoneInfo z else InfoNext (b_node (last xs)))"
    by (rule zseg_end [OF xs])
  have pp_ne: "pp \<noteq> InfoNext a" if "a \<notin> nodes xs" for a
    using that pp by auto
  have xs1: "zseg (write_pp pp ?nxt st) z xs pp ?nxt"
    using xs dist by (intro zseg_write_pp) auto
  have t1: "touches z (nodes (xs @ b # ys)) st (write_pp pp ?nxt st)"
    using pp by (intro touches_write_pp) (auto simp: image_iff intro: last_in_set)
  have at: "infos (write_pp pp ?nxt st) a = infos st a" if "a \<notin> nodes xs" for a
    by (rule infos_write_pp_other [OF pp_ne [OF that]])
  have b_xs: "?b \<notin> nodes xs" using dist by auto
  show ?thesis
  proof (cases ys)
    case Nil
    then have "?nxt = 0" using sys by simp
    then have eq: "freeSpace ?b st = write_pp pp ?nxt st"
      using p by (simp add: freeSpace_def Let_def)
    then show ?thesis
      using xs1 t1 Nil \<open>?nxt = 0\<close> by (auto simp: zone_rep_def)
  next
    case (Cons c cs)
    have c: "?nxt = b_node c" "b_node c \<noteq> 0" "ai_allocend (infos st (b_node c)) = b_allocend c"
      and scs: "seg (infos st) (InfoNext (b_node c)) (ai_next (infos st (b_node c))) cs pp' 0"
      using sys Cons by auto
    have nc: "b_node c \<notin> nodes xs" "b_node c \<noteq> ?b" "b_node c \<notin> nodes cs" "?b \<notin> nodes cs"
      "nodes cs \<inter> nodes xs = {}"
      using dist Cons by auto
    let ?c = "hd (l_absorb b (c # cs))"
    define st' where "st' = freeSpace ?b st"
    have st': "st' = upd_info (b_node c) (\<lambda>i. i\<lparr>ai_allocend := b_allocend ?c, ai_pprev := pp\<rparr>)
        (write_pp pp ?nxt st)"
    proof (cases "b_allocend c = b_data b")
      case True
      then show ?thesis
        using p c at [OF nc(1)] at [OF b_xs] by (simp add: st'_def freeSpace_def Let_def upd_info_upd_info)
    next
      case False
      have "i\<lparr>ai_pprev := pp\<rparr> = i\<lparr>ai_allocend := x, ai_pprev := pp\<rparr>" if "ai_allocend i = x"
        for x and i :: allocinfo
        using that by (cases i) simp
      with False show ?thesis
        using p c at [OF nc(1)] at [OF b_xs]
        by (simp add: st'_def freeSpace_def Let_def) (rule upd_info_cong, simp)
    qed
    have "zseg st' z xs pp (b_node c)"
      using xs1 nc(1) c(1) by (simp add: st' zseg_upd_info)
    moreover have "seg (infos st') pp (b_node c) (?c # cs) pp' 0"
    proof -
      have "seg (infos st') (InfoNext (b_node c)) (ai_next (infos st (b_node c))) cs pp' 0
          = seg (infos st) (InfoNext (b_node c)) (ai_next (infos st (b_node c))) cs pp' 0"
      proof (rule seg_cong)
        fix a assume "a \<in> nodes cs"
        then have "a \<notin> nodes xs" "a \<noteq> b_node c" using nc(3,5) by blast+
        then show "infos st' a = infos st a" using at [of a] by (simp add: st')
      qed
      then show ?thesis
        using scs c at [OF nc(1)] sys Cons by (simp add: st')
    qed
    ultimately have "zone_rep st' z (xs @ ?c # cs)" by (rule zone_rep_splice)
    then have "zone_rep st' z (xs @ l_absorb b ys)" by (simp add: Cons)
    moreover have "touches z (nodes (xs @ b # ys)) st st'"
      unfolding st' using Cons by (intro touches_trans [OF t1 touches_upd_info]) simp
    ultimately show ?thesis by (simp add: st'_def)
  qed
qed

lemma l_free_split:
  assumes "node \<in> nodes bs" "distinct (map b_node bs)"
  obtains xs b ys where "bs = xs @ b # ys" "b_node b = node" "l_free node bs = xs @ l_absorb b ys"
proof -
  obtain b where "b \<in> set bs" "b_node b = node" using assms(1) by auto
  then obtain xs ys where bs: "bs = xs @ b # ys" by (auto simp: in_set_conv_decomp)
  moreover from this have "b_node b \<notin> nodes xs" using assms(2) by auto
  ultimately show thesis using that l_free_append \<open>b_node b = node\<close> by metis
qed

lemma freeSpace_refines:
  assumes rep: "pmm_rep st Z" and node: "node \<in> nodes (Z z)"
  shows "pmm_rep (freeSpace node st) (Z(z := l_free node (Z z))) \<and> links_only st (freeSpace node st)"
proof -
  have zr: "zone_rep st z (Z z)" and dist: "distinct (map b_node (Z z))"
    and disj: "nodes (Z z) \<inter> nodes (Z z') = {}" if "z' \<noteq> z" for z'
    using rep that unfolding pmm_rep_def nodes_ok_def by metis+
  obtain z0 where "z0 \<noteq> z" by (cases z) auto
  note zr = zr [OF this] and dist = dist [OF this]
  obtain xs b ys where s: "Z z = xs @ b # ys" "b_node b = node" "l_free node (Z z) = xs @ l_absorb b ys"
    using node dist by (rule l_free_split)
  have f: "zone_rep (freeSpace node st) z (l_free node (Z z))"
    "touches z (nodes (Z z)) st (freeSpace node st)"
    using freeSpace_refines_zone [of st z xs b ys] zr dist s by simp_all
  have sub: "nodes (l_free node (Z z)) \<subseteq> nodes (Z z)" "distinct (map b_node (l_free node (Z z)))"
    using s dist by (simp_all add: image_Un) blast
  have "nodes (l_free node (Z z)) \<inter> nodes (Z z') = {}" if "z' \<noteq> z" for z'
    using sub(1) disj [OF that] by blast
  then have ok: "nodes_ok (Z(z := l_free node (Z z)))"
    using rep sub(2) unfolding pmm_rep_def nodes_ok_def by (simp add: Int_commute)
  have "pmm_rep (freeSpace node st) (Z(z := l_free node (Z z)))"
    by (rule pmm_rep_update [OF rep, where F = "{}"]) (use f ok in auto)
  then show ?thesis using f(2) touches_links by blast
qed

text \<open>\<open>allocSpace\<close> followed by \<open>freeSpace\<close> of the new node is the identity on the blocks.\<close>

lemma l_free_l_alloc:
  assumes "fst (l_alloc sz al fill bs) \<noteq> 0"
    and "\<And>b. b \<in> set bs \<Longrightarrow> fits sz al b \<Longrightarrow> fill_of sz al fill b \<notin> nodes bs"
    and "fill \<noteq> 0 \<Longrightarrow> node = fill" "fill = 0 \<Longrightarrow> node = fst (l_alloc sz al fill bs)"
  shows "l_free node (snd (l_alloc sz al fill bs)) = bs"
  using assms
proof (induction bs)
  case (Cons b bs)
  show ?case
  proof (cases "fits sz al b")
    case True
    then have "node = fill_of sz al fill b"
      using Cons.prems(3,4) by (auto simp: fill_of_def)
    with True show ?thesis by (simp add: fill_of_def)
  next
    case False
    have nd: "node \<noteq> b_node b"
    proof -
      have "\<exists>c \<in> set bs. fits sz al c \<and> node = fill_of sz al fill c"
        using Cons.prems(1,3,4) False
      proof (induction bs)
        case (Cons c bs)
        then show ?case by (cases "fits sz al c") (auto simp: fill_of_def)
      qed simp
      then show ?thesis using Cons.prems(2) by fastforce
    qed
    have "l_free node (snd (l_alloc sz al fill bs)) = bs"
      using Cons.prems False by (intro Cons.IH) auto
    then show ?thesis using False nd by simp
  qed
qed simp

end
