(* ===== verification/PmmInv.thy ===== *)
theory PmmInv
  imports PmmRep
begin

text \<open>
  The invariant of the allocator over the block lists of \<^verbatim>\<open>PmmRep.thy\<close>, and what
  \<open>pmm_malloc\<close>, \<open>pmm_free\<close>, \<open>pmm_getspace\<close> and \<open>pmm_find\<close> guarantee: blocks are sorted and
  disjoint, an allocation is aligned and comes from free space, the bookkeeping never overlaps a
  block, and freeing undoes an allocation.
\<close>

section \<open>Walks over a zone\<close>

lemma findAlloc_from_seg:
  "seg (infos st) pp p ys pp' 0 \<Longrightarrow>
   findAlloc_from p data st = Some (case find (\<lambda>b. b_data b = data) ys of None \<Rightarrow> 0 | Some b \<Rightarrow> b_node b)"
proof (induction ys arbitrary: pp p)
  case Nil
  then show ?case by (simp add: findAlloc_from.simps [of 0])
next
  case (Cons b ys)
  then show ?case by (auto simp: findAlloc_from.simps [of "b_node b"])
qed

lemma getspace_from_seg:
  "seg (infos st) pp p ys pp' 0 \<Longrightarrow>
   getspace_from p m st = Some (fold max (map (\<lambda>b. b_allocend b - b_dataend b) ys) m)"
proof (induction ys arbitrary: pp p m)
  case Nil
  then show ?case by (simp add: getspace_from.simps)
next
  case (Cons b ys)
  then show ?case
    by (auto simp: getspace_from.simps [of "b_node b"] Let_def max_def intro!: arg_cong2 [of _ _ _ _ "fold max"])
qed

lemma findLast_from_seg:
  "seg (infos st) pp p (b # ys) pp' 0 \<Longrightarrow> findLast_from p st = Some (b_node (last (b # ys)))"
proof (induction ys arbitrary: pp p b)
  case Nil
  then show ?case by (auto simp: findLast_from.simps [of "b_node b"] Let_def)
next
  case (Cons c ys)
  then show ?case by (auto simp: findLast_from.simps [of "b_node b"] Let_def)
qed

lemma zone_rep_seg:
  assumes "zone_rep st z bs"
  obtains pp' where "seg (infos st) (ZoneInfo z) (zone_info st z) bs pp' 0"
  using assms unfolding zone_rep_def zseg_def by blast

lemma findLast_rep:
  assumes "zone_rep st z bs"
  shows "findLast z st = Some (if bs = [] then 0 else b_node (last bs))"
proof -
  obtain pp' where sg: "seg (infos st) (ZoneInfo z) (zone_info st z) bs pp' 0"
    using assms by (rule zone_rep_seg)
  show ?thesis
  proof (cases bs)
    case Nil
    then show ?thesis using sg by (simp add: findLast_def)
  next
    case (Cons b ys)
    then have "zone_info st z = b_node b" "b_node b \<noteq> 0" using sg by auto
    then show ?thesis
      using findLast_from_seg [of st "ZoneInfo z" "zone_info st z" b ys pp'] sg Cons
      by (simp add: findLast_def del: seg.simps)
  qed
qed

definition free_max :: "blk list \<Rightarrow> u32" where
  "free_max bs = fold max (map (\<lambda>b. b_allocend b - b_dataend b) bs) 0"

lemma getspace_rep: "zone_rep st z bs \<Longrightarrow> getspace_from (zone_info st z) 0 st = Some (free_max bs)"
  by (erule zone_rep_seg) (simp add: getspace_from_seg free_max_def)

lemma fold_max_ge_init: "m \<le> fold max xs (m :: 'a::linorder)"
  by (induction xs arbitrary: m) (auto intro: order.trans [OF max.cobounded2])

lemma fold_max_ge: "x \<in> set xs \<Longrightarrow> x \<le> fold max xs (m :: 'a::linorder)"
  by (induction xs arbitrary: m) (auto intro: order.trans [OF max.cobounded1 fold_max_ge_init])

lemma fold_max_in: "fold max xs (m :: 'a::linorder) \<in> insert m (set xs)"
proof (induction xs arbitrary: m)
  case (Cons x xs)
  then show ?case using Cons [of "max x m"] by (auto simp: max_def split: if_splits)
qed simp

text \<open>The free space reported for a zone is that of one of its blocks, and of no block more.\<close>

lemma free_max_spec:
  "b \<in> set bs \<Longrightarrow> b_allocend b - b_dataend b \<le> free_max bs"
  "free_max bs \<noteq> 0 \<Longrightarrow> \<exists>b \<in> set bs. b_allocend b - b_dataend b = free_max bs"
  unfolding free_max_def
  using fold_max_ge [of "b_allocend b - b_dataend b" "map (\<lambda>b. b_allocend b - b_dataend b) bs" 0]
    fold_max_in [of "map (\<lambda>b. b_allocend b - b_dataend b) bs" 0]
  by force+

section \<open>The invariant of a zone\<close>

definition blk_wf :: "blk \<Rightarrow> bool" where
  "blk_wf b \<longleftrightarrow> b_data b \<le> b_dataend b \<and> b_dataend b \<le> b_allocend b"

definition zone_wf :: "blk list \<Rightarrow> bool" where
  "zone_wf bs \<longleftrightarrow> (\<forall>b \<in> set bs. blk_wf b) \<and> sorted_wrt (\<lambda>x y. b_allocend y \<le> b_data x) bs"

definition used :: "blk list \<Rightarrow> u32 \<Rightarrow> bool" where
  "used bs a \<longleftrightarrow> (\<exists>b \<in> set bs. b_data b \<le> a \<and> a < b_dataend b)"

definition spans :: "blk list \<Rightarrow> u32 \<Rightarrow> bool" where
  "spans bs a \<longleftrightarrow> (\<exists>b \<in> set bs. b_data b \<le> a \<and> a < b_allocend b)"

text \<open>The sizes and alignments for which the subtraction in \<open>allocSpace\<close> cannot wrap around
  unnoticed; \<open>handle_pmm00\<close> and the \<open>malloc_*\<close> wrappers stay within them.\<close>

definition size_ok :: "u32 \<Rightarrow> u32 \<Rightarrow> bool" where
  "size_ok sz al \<longleftrightarrow> sz \<noteq> 0 \<and> al \<noteq> 0 \<and> unat sz + unat al \<le> 2 ^ 32"

lemma fit_pos_end:
  assumes "size_ok sz al" "fits sz al b"
  shows "unat (fit_pos sz al b) + unat sz \<le> unat (b_allocend b)"
proof -
  let ?e = "b_allocend b" let ?w = "?e - sz" let ?n = "fit_pos sz al b"
  have nw: "?n \<le> ?w" and diff: "?w - ?n \<le> al - 1"
    unfolding fit_pos_def by (rule ALIGN_DOWN_le, rule ALIGN_DOWN_ge)
  have al: "unat (al - 1) = unat al - 1" "0 < unat al"
    using assms(1) unat_minus_1 [of al] by (auto simp: size_ok_def unat_gt_0)
  have d: "unat ?w - unat ?n \<le> unat al - 1"
    using nw diff al(1) by (simp add: word_le_nat_alt unat_sub)
  have ne: "unat ?n \<le> unat ?e" "unat ?n \<le> unat ?w"
    using assms(2) nw by (auto simp: fits_def word_le_nat_alt)
  show ?thesis
  proof (cases "sz \<le> ?e")
    case True
    then have "unat ?w = unat ?e - unat sz" "unat sz \<le> unat ?e"
      by (auto simp: unat_sub word_le_nat_alt)
    then show ?thesis using ne by simp
  next
    case False
    then have "unat ?w = 4294967296 + unat ?e - unat sz" by (intro unat_sub_wrap32) simp
    moreover have "unat sz < 4294967296" by (rule u32_bound)
    moreover have "unat sz + unat al \<le> 4294967296" using assms(1) by (simp add: size_ok_def)
    ultimately show ?thesis using d ne al(2) by linarith
  qed
qed

lemma fits_bounds:
  assumes "size_ok sz al" "fits sz al b"
  shows "fit_pos sz al b < fit_pos sz al b + sz" "fit_pos sz al b + sz \<le> b_allocend b"
    "b_dataend b \<le> fit_pos sz al b" "aligned (fit_pos sz al b) al"
proof -
  have le: "unat (fit_pos sz al b) + unat sz \<le> unat (b_allocend b)"
    by (rule fit_pos_end [OF assms])
  then have "unat (fit_pos sz al b + sz) = unat (fit_pos sz al b) + unat sz"
    using u32_bound [of "b_allocend b"] by (simp add: unat_word_ariths)
  moreover have "0 < unat sz" using assms(1) by (simp add: size_ok_def unat_gt_0)
  ultimately show "fit_pos sz al b < fit_pos sz al b + sz" "fit_pos sz al b + sz \<le> b_allocend b"
    using le by (simp_all add: word_less_nat_alt word_le_nat_alt)
  show "b_dataend b \<le> fit_pos sz al b" using assms(2) by (simp add: fits_def)
  show "aligned (fit_pos sz al b) al" by (simp add: fit_pos_def)
qed

section \<open>Allocation and release in a zone\<close>

definition in_range :: "u32 \<Rightarrow> u32 \<Rightarrow> u32 \<Rightarrow> bool" where
  "in_range r sz a \<longleftrightarrow> r \<le> a \<and> a < r + sz"

lemma zone_wf_Cons:
  "zone_wf (b # bs) \<longleftrightarrow> blk_wf b \<and> (\<forall>y \<in> set bs. b_allocend y \<le> b_data b) \<and> zone_wf bs"
  by (auto simp: zone_wf_def)

lemma zone_wf_append: "zone_wf (xs @ ys) \<longleftrightarrow>
   zone_wf xs \<and> zone_wf ys \<and> (\<forall>x \<in> set xs. \<forall>y \<in> set ys. b_allocend y \<le> b_data x)"
  by (auto simp: zone_wf_def sorted_wrt_append)

lemma used_append [simp]: "used (xs @ ys) a \<longleftrightarrow> used xs a \<or> used ys a"
  and used_Nil [simp]: "\<not> used [] a"
  and used_Cons [simp]: "used (b # ys) a \<longleftrightarrow> b_data b \<le> a \<and> a < b_dataend b \<or> used ys a"
  and spans_append [simp]: "spans (xs @ ys) a \<longleftrightarrow> spans xs a \<or> spans ys a"
  and spans_Nil [simp]: "\<not> spans [] a"
  and spans_Cons [simp]: "spans (b # ys) a \<longleftrightarrow> b_data b \<le> a \<and> a < b_allocend b \<or> spans ys a"
  by (auto simp: used_def spans_def)

lemma used_spans: "zone_wf bs \<Longrightarrow> used bs a \<Longrightarrow> spans bs a"
  unfolding used_def spans_def zone_wf_def blk_wf_def by (meson order.strict_trans2)

text \<open>What \<open>l_alloc\<close> does to the list, when it succeeds: it splits one block.\<close>

lemma l_alloc_split:
  "(\<forall>b \<in> set bs. \<not> fits sz al b) \<and> l_alloc sz al fill bs = (0, bs)
   \<or> (\<exists>xs b ys. bs = xs @ b # ys \<and> fits sz al b \<and> (\<forall>x \<in> set xs. \<not> fits sz al x)
      \<and> l_alloc sz al fill bs = (fit_pos sz al b, xs @
          \<lparr>b_node = fill_of sz al fill b, b_data = fit_pos sz al b,
           b_dataend = fit_pos sz al b + sz, b_allocend = b_allocend b\<rparr>
          # b\<lparr>b_allocend := fit_pos sz al b\<rparr> # ys))"
proof (induction bs)
  case (Cons b bs)
  show ?case
  proof (cases "fits sz al b")
    case True
    then show ?thesis by (intro disjI2 exI [of _ "[]"] exI [of _ b] exI [of _ bs]) (simp add: fill_of_def)
  next
    case False
    from Cons show ?thesis
    proof
      assume "(\<forall>b \<in> set bs. \<not> fits sz al b) \<and> l_alloc sz al fill bs = (0, bs)"
      then show ?thesis using False by simp
    next
      assume "\<exists>xs b ys. bs = xs @ b # ys \<and> fits sz al b \<and> (\<forall>x \<in> set xs. \<not> fits sz al x)
        \<and> l_alloc sz al fill bs = (fit_pos sz al b, xs @
          \<lparr>b_node = fill_of sz al fill b, b_data = fit_pos sz al b,
           b_dataend = fit_pos sz al b + sz, b_allocend = b_allocend b\<rparr>
          # b\<lparr>b_allocend := fit_pos sz al b\<rparr> # ys)"
      then obtain xs c ys where "bs = xs @ c # ys" "fits sz al c" "\<forall>x \<in> set xs. \<not> fits sz al x"
        "l_alloc sz al fill bs = (fit_pos sz al c, xs @
          \<lparr>b_node = fill_of sz al fill c, b_data = fit_pos sz al c,
           b_dataend = fit_pos sz al c + sz, b_allocend = b_allocend c\<rparr>
          # c\<lparr>b_allocend := fit_pos sz al c\<rparr> # ys)" by blast
      then show ?thesis
        using False by (intro disjI2 exI [of _ "b # xs"] exI [of _ c] exI [of _ ys]) simp
    qed
  qed
qed simp

lemma alloc_split_wf:
  fixes b :: blk and f a :: u32
  assumes wf: "zone_wf (xs @ b # ys)" and sz: "size_ok sz al" and fit: "fits sz al b"
  defines "n \<equiv> fit_pos sz al b"
  defines "new \<equiv> \<lparr>b_node = f, b_data = n, b_dataend = n + sz, b_allocend = b_allocend b\<rparr>"
  shows "zone_wf (xs @ new # b\<lparr>b_allocend := n\<rparr> # ys)"
    "used (xs @ new # b\<lparr>b_allocend := n\<rparr> # ys) a \<longleftrightarrow> used (xs @ b # ys) a \<or> in_range n sz a"
    "spans (xs @ new # b\<lparr>b_allocend := n\<rparr> # ys) a \<longleftrightarrow> spans (xs @ b # ys) a"
    "in_range n sz a \<Longrightarrow> spans (xs @ b # ys) a \<and> \<not> used (xs @ b # ys) a"
proof -
  note bd = fits_bounds [OF sz fit, folded n_def]
  have b: "b_data b \<le> b_dataend b" "b_dataend b \<le> b_allocend b"
    and xs: "\<And>x. x \<in> set xs \<Longrightarrow> b_allocend b \<le> b_data x"
    and ys: "\<And>y. y \<in> set ys \<Longrightarrow> b_allocend y \<le> b_data b"
    and wfy: "\<And>y. y \<in> set ys \<Longrightarrow> b_dataend y \<le> b_allocend y"
    using wf by (simp_all add: zone_wf_def blk_wf_def sorted_wrt_append)
  have n: "n \<le> b_allocend b" "b_data b \<le> n" using bd b by order+
  have ysn: "b_allocend y \<le> n" if "y \<in> set ys" for y using ys [OF that] n by order
  have xsn: "n \<le> b_data x" if "x \<in> set xs" for x using xs [OF that] n by order
  show "zone_wf (xs @ new # b\<lparr>b_allocend := n\<rparr> # ys)"
    using wf bd n b xs xsn ysn
    by (auto simp: zone_wf_append zone_wf_Cons blk_wf_def new_def order.strict_implies_order)
  show "used (xs @ new # b\<lparr>b_allocend := n\<rparr> # ys) a \<longleftrightarrow> used (xs @ b # ys) a \<or> in_range n sz a"
    by (auto simp: new_def in_range_def)
  show "spans (xs @ new # b\<lparr>b_allocend := n\<rparr> # ys) a \<longleftrightarrow> spans (xs @ b # ys) a"
    using n by (auto simp: new_def)
  assume r: "in_range n sz a"
  have a: "b_data b \<le> a" "a < b_allocend b" "b_dataend b \<le> a"
    using r n(2) bd(2,3) unfolding in_range_def by (auto intro: order.trans order.strict_trans2)
  have "\<not> used xs a"
    unfolding used_def using xs a(2) by (meson leD order.trans)
  moreover have "\<not> used ys a"
  proof
    assume "used ys a"
    then obtain y where y: "y \<in> set ys" "a < b_dataend y" by (auto simp: used_def)
    then have "b_dataend y \<le> b_data b" using ys [OF y(1)] wfy [OF y(1)] by order
    then show False using y(2) a(1) by order
  qed
  ultimately show "spans (xs @ b # ys) a \<and> \<not> used (xs @ b # ys) a"
    using a by (simp add: order_decide)
qed

text \<open>Release: the block's bytes become free, nothing else changes.\<close>

lemma blk_disjoint:
  assumes "zone_wf (xs @ b # ys)" "b_data b \<le> a" "a < b_allocend b"
  shows "\<not> used xs a" "\<not> used ys a" "\<not> spans xs a" "\<not> spans ys a"
proof -
  have xs: "\<And>x. x \<in> set xs \<Longrightarrow> b_allocend b \<le> b_data x"
    and ys: "\<And>y. y \<in> set ys \<Longrightarrow> b_allocend y \<le> b_data b"
    using assms(1) by (auto simp: zone_wf_append zone_wf_Cons)
  show sx: "\<not> spans xs a" unfolding spans_def using xs assms(3) by (meson leD order.trans)
  show sy: "\<not> spans ys a" unfolding spans_def using ys assms(2) by (meson leD order.trans)
  show "\<not> used xs a" "\<not> used ys a"
    using sx sy used_spans [of xs a] used_spans [of ys a] assms(1)
    by (auto simp: zone_wf_append zone_wf_Cons)
qed

lemma free_split_wf:
  assumes wf: "zone_wf (xs @ b # ys)"
  shows "zone_wf (xs @ l_absorb b ys)"
    "used (xs @ l_absorb b ys) a \<longleftrightarrow> used (xs @ b # ys) a \<and> \<not> (b_data b \<le> a \<and> a < b_dataend b)"
    "spans (xs @ l_absorb b ys) a \<Longrightarrow> spans (xs @ b # ys) a"
proof -
  have b: "b_data b \<le> b_dataend b" "b_dataend b \<le> b_allocend b"
    using wf by (auto simp: zone_wf_append zone_wf_Cons blk_wf_def)
  show "zone_wf (xs @ l_absorb b ys)"
  proof (cases ys)
    case (Cons c cs)
    then show ?thesis
      using wf b by (auto simp: zone_wf_append zone_wf_Cons blk_wf_def)
  qed (use wf in \<open>auto simp: zone_wf_append\<close>)
  have "used (l_absorb b ys) a = used ys a"
    by (cases ys) (auto simp: used_def)
  moreover have "\<not> (used xs a \<or> used ys a)" if "b_data b \<le> a" "a < b_dataend b"
    using blk_disjoint [OF wf that(1)] that(2) b(2) by (meson order.strict_trans2)
  ultimately show "used (xs @ l_absorb b ys) a \<longleftrightarrow>
      used (xs @ b # ys) a \<and> \<not> (b_data b \<le> a \<and> a < b_dataend b)"
    by auto
  assume "spans (xs @ l_absorb b ys) a"
  then show "spans (xs @ b # ys) a"
    by (cases ys) (auto split: if_splits)
qed

section \<open>The invariant of the allocator\<close>

text \<open>A bookkeeping block starts with its own node; the node of the block it describes follows.\<close>

definition detail_blk :: "blk \<Rightarrow> bool" where
  "detail_blk b \<longleftrightarrow> b_node b = b_data b \<and> b_dataend b = b_data b + sizeof_allocdetail"

definition hosts :: "blk \<Rightarrow> u32 \<Rightarrow> bool" where
  "hosts b a \<longleftrightarrow> detail_blk b \<and> (a = b_node b \<or> a = datainfo_of (b_node b))"

definition hosted :: "(zone \<Rightarrow> blk list) \<Rightarrow> u32 \<Rightarrow> bool" where
  "hosted Z a \<longleftrightarrow> (\<exists>b \<in> set (Z ZoneTmpHigh) \<union> set (Z ZoneTmpLow). hosts b a)"

definition zones_sep :: "(zone \<Rightarrow> blk list) \<Rightarrow> bool" where
  "zones_sep Z \<longleftrightarrow> (\<forall>z z'. z \<noteq> z' \<longrightarrow>
     (\<forall>a. spans (Z z) a \<longrightarrow> \<not> spans (Z z') a) \<and> (\<forall>b \<in> set (Z z). \<not> spans (Z z') (b_data b)))"

definition blocks_ok :: "(zone \<Rightarrow> blk list) \<Rightarrow> bool" where
  "blocks_ok Z \<longleftrightarrow> (\<forall>z. zone_wf (Z z) \<and> \<not> spans (Z z) 0) \<and> zones_sep Z"

definition pmm_ok :: "'a pmm_scheme \<Rightarrow> (zone \<Rightarrow> blk list) \<Rightarrow> bool" where
  "pmm_ok st Z \<longleftrightarrow> pmm_rep st Z \<and> blocks_ok Z \<and> (\<forall>a \<in> all_nodes Z. hosted Z a)"

lemma detail_room:
  fixes d :: u32
  assumes "d \<le> d + 44"
  shows "d < d + 44" "d \<le> d + 20" "d + 20 < d + 44" "d + 20 \<noteq> d"
proof -
  have "unat d + 44 < 4294967296"
  proof (rule ccontr)
    assume big: "\<not> ?thesis"
    then have "(unat d + 44) mod 4294967296 = unat d + 44 - 4294967296"
      using u32_bound [of d] by (subst le_mod_geq) simp_all
    then have "unat (d + 44) = unat d + 44 - 4294967296" by (simp add: unat_word_ariths)
    moreover have "unat d \<le> unat (d + 44)" using assms by (simp add: word_le_nat_alt)
    ultimately show False using big u32_bound [of d] by linarith
  qed
  then have "unat (d + 44) = unat d + 44" "unat (d + 20) = unat d + 20"
    by (simp_all add: unat_word_ariths)
  then show "d < d + 44" "d \<le> d + 20" "d + 20 < d + 44" "d + 20 \<noteq> d"
    by (simp_all add: word_le_nat_alt word_less_nat_alt word_unat_eq_iff)
qed

lemma blocks_okD:
  assumes "blocks_ok Z"
  shows "zone_wf (Z z)" "\<not> spans (Z z) 0"
    "z \<noteq> z' \<Longrightarrow> spans (Z z) a \<Longrightarrow> \<not> spans (Z z') a"
    "z \<noteq> z' \<Longrightarrow> b \<in> set (Z z) \<Longrightarrow> \<not> spans (Z z') (b_data b)"
  using assms unfolding blocks_ok_def zones_sep_def by blast+

lemma hosts_used:
  assumes "zone_wf bs" "b \<in> set bs" "hosts b a"
  shows "b_data b \<le> a" "a < b_dataend b" "used bs a"
proof -
  have "b_data b \<le> b_data b + 44"
    using assms by (auto simp: zone_wf_def blk_wf_def hosts_def detail_blk_def sizeof_allocdetail_def)
  note detail_room [OF this]
  then show *: "b_data b \<le> a" "a < b_dataend b"
    using assms(3) by (auto simp: hosts_def detail_blk_def sizeof_allocdetail_def datainfo_of_def)
  then show "used bs a" using assms(2) by (auto simp: used_def)
qed

lemma hosted_used:
  assumes "blocks_ok Z" "hosted Z a"
  shows "used (Z ZoneTmpHigh) a \<or> used (Z ZoneTmpLow) a"
  using assms hosts_used(3) blocks_okD(1) unfolding hosted_def by blast

subsection \<open>Allocation of a block\<close>

text \<open>The facts about \<open>bs' = snd (l_alloc ...)\<close> when a block was found.\<close>

lemma l_alloc_facts:
  assumes wf: "zone_wf bs" and sz: "size_ok sz al" and z: "\<not> spans bs 0"
    and la: "l_alloc sz al fill bs = (d, bs')" "d \<noteq> 0"
  shows "zone_wf bs'" "\<And>a. used bs' a \<longleftrightarrow> used bs a \<or> in_range d sz a"
    "\<And>a. spans bs' a \<longleftrightarrow> spans bs a" "\<And>a. in_range d sz a \<Longrightarrow> spans bs a \<and> \<not> used bs a"
    "aligned d al" "d < d + sz"
    "nodes bs' = insert (if fill = 0 then d else fill) (nodes bs)"
    "\<exists>e. \<lparr>b_node = (if fill = 0 then d else fill), b_data = d, b_dataend = d + sz, b_allocend = e\<rparr> \<in> set bs'"
    "\<And>b. hosts b a \<Longrightarrow> b \<in> set bs \<Longrightarrow> \<exists>b' \<in> set bs'. hosts b' a"
    "\<And>b. b \<in> set bs' \<Longrightarrow> b_data b = d \<or> (\<exists>c \<in> set bs. b_data b = b_data c)"
proof -
  obtain xs b ys where s: "bs = xs @ b # ys" "fits sz al b" "d = fit_pos sz al b"
    "bs' = xs @ \<lparr>b_node = fill_of sz al fill b, b_data = d, b_dataend = d + sz,
       b_allocend = b_allocend b\<rparr> # b\<lparr>b_allocend := d\<rparr> # ys"
    using l_alloc_split [of bs sz al fill] la by auto
  note w = alloc_split_wf(1-3) [OF wf[unfolded s(1)] sz s(2), where f = "fill_of sz al fill b",
      folded s(3), folded s(1), folded s(4)]
    alloc_split_wf(4) [OF wf[unfolded s(1)] sz s(2), folded s(3), folded s(1)]
  show "zone_wf bs'" "\<And>a. used bs' a \<longleftrightarrow> used bs a \<or> in_range d sz a"
    "\<And>a. spans bs' a \<longleftrightarrow> spans bs a" "\<And>a. in_range d sz a \<Longrightarrow> spans bs a \<and> \<not> used bs a"
    by (rule w(1), rule w(2), rule w(3), rule w(4))
  note bd = fits_bounds [OF sz s(2), folded s(3)]
  show "aligned d al" "d < d + sz" by (rule bd(4), rule bd(1))
  show "nodes bs' = insert (if fill = 0 then d else fill) (nodes bs)"
    unfolding s(1,4) by (auto simp: fill_of_def s(3))
  show "\<exists>e. \<lparr>b_node = (if fill = 0 then d else fill), b_data = d, b_dataend = d + sz,
      b_allocend = e\<rparr> \<in> set bs'"
    unfolding s(4) by (auto simp: fill_of_def s(3))
  show "\<exists>b' \<in> set bs'. hosts b' a" if "hosts c a" "c \<in> set bs" for c
    using that unfolding s(1,4) by (auto simp: hosts_def detail_blk_def)
  show "b_data c = d \<or> (\<exists>e \<in> set bs. b_data c = b_data e)" if "c \<in> set bs'" for c
    using that unfolding s(1,4) by auto
qed

lemma blocks_ok_upd:
  assumes ok: "blocks_ok Z" and wf: "zone_wf bs'" and sp: "\<And>a. spans bs' a \<Longrightarrow> spans (Z z) a"
    and dat: "\<And>b. b \<in> set bs' \<Longrightarrow> spans (Z z) (b_data b) \<or> (\<exists>c \<in> set (Z z). b_data b = b_data c)"
  shows "blocks_ok (Z(z := bs'))"
proof -
  have sep: "(\<forall>a. spans ((Z(z := bs')) y) a \<longrightarrow> \<not> spans ((Z(z := bs')) y') a) \<and>
      (\<forall>b \<in> set ((Z(z := bs')) y). \<not> spans ((Z(z := bs')) y') (b_data b))" if "y \<noteq> y'" for y y'
  proof (intro conjI allI ballI impI)
    fix a assume "spans ((Z(z := bs')) y) a"
    then show "\<not> spans ((Z(z := bs')) y') a"
      using blocks_okD(3) [OF ok that] sp by (auto split: if_splits)
  next
    fix b assume b: "b \<in> set ((Z(z := bs')) y)"
    show "\<not> spans ((Z(z := bs')) y') (b_data b)"
    proof (cases "y = z")
      case True
      then have "spans (Z z) (b_data b) \<or> (\<exists>c \<in> set (Z z). b_data b = b_data c)"
        using dat b by simp
      then show ?thesis
        using blocks_okD(3,4) [OF ok that] True that by auto
    next
      case False
      then show ?thesis
        using blocks_okD(4) [OF ok that, of b] b sp by (auto split: if_splits)
    qed
  qed
  moreover have "zone_wf ((Z(z := bs')) y) \<and> \<not> spans ((Z(z := bs')) y) 0" for y
    using blocks_okD(1,2) [OF ok, of y] blocks_okD(2) [OF ok, of z] wf sp by auto
  ultimately show ?thesis unfolding blocks_ok_def zones_sep_def by blast
qed

lemma alloc_blocks_ok:
  assumes ok: "blocks_ok Z" and sz: "size_ok sz al"
    and la: "l_alloc sz al fill (Z z) = (d, bs')" "d \<noteq> 0"
  shows "blocks_ok (Z(z := bs'))"
proof -
  note f = l_alloc_facts [OF blocks_okD(1) [OF ok] sz blocks_okD(2) [OF ok] la]
  have "spans (Z z) d" using f(4) [of d] f(6) by (simp add: in_range_def)
  then show ?thesis using f(1,3,10) by (intro blocks_ok_upd [OF ok]) auto
qed

lemma fit_unused:
  assumes ok: "blocks_ok Z" and b: "b \<in> set (Z z)" "fits sz al b" and sz: "size_ok sz al"
    and a: "in_range (fit_pos sz al b) sz a"
  shows "spans (Z z) a" "\<not> used (Z y) a"
proof -
  obtain xs ys where s: "Z z = xs @ b # ys" using b(1) by (auto simp: in_set_conv_decomp)
  have *: "spans (Z z) a \<and> \<not> used (Z z) a"
    using alloc_split_wf(4) [of xs b ys, OF _ sz b(2) a] blocks_okD(1) [OF ok, of z] s by simp
  then show "spans (Z z) a" by simp
  show "\<not> used (Z y) a"
    using * blocks_okD(3) [OF ok, of z y a] used_spans [OF blocks_okD(1) [OF ok], of y a]
    by (cases "z = y") auto
qed

lemma unused_not_node:
  assumes "pmm_ok st Z" "\<And>y. \<not> used (Z y) a"
  shows "a \<notin> all_nodes Z"
  using assms hosted_used unfolding pmm_ok_def by blast

lemma alloc_step:
  assumes ok: "pmm_ok st Z" and sz: "size_ok sz al"
    and fill: "fill \<noteq> 0 \<Longrightarrow> fill \<notin> all_nodes Z"
  shows "\<exists>d st' bs'. allocSpace z sz al fill st = Some (d, st') \<and> l_alloc sz al fill (Z z) = (d, bs')
    \<and> pmm_rep st' (Z(z := bs')) \<and> links_only st st'
    \<and> (d = 0 \<longrightarrow> bs' = Z z \<and> (\<forall>b \<in> set (Z z). \<not> fits sz al b))"
proof -
  have bo: "blocks_ok Z" and rep: "pmm_rep st Z" using ok by (auto simp: pmm_ok_def)
  have fr: "fill_of sz al fill b \<noteq> 0 \<and> fill_of sz al fill b \<notin> all_nodes Z"
    if "b \<in> set (Z z)" "fits sz al b" for b
  proof (cases "fill = 0")
    case True
    have r: "in_range (fit_pos sz al b) sz (fit_pos sz al b)"
      using fits_bounds(1) [OF sz that(2)] by (simp add: in_range_def)
    note u = fit_unused [OF bo that sz r]
    show ?thesis
      using u(1) blocks_okD(2) [OF bo, of z] unused_not_node [OF ok u(2)] True
      by (auto simp: fill_of_def)
  qed (use fill in \<open>simp add: fill_of_def\<close>)
  obtain st' where st': "allocSpace z sz al fill st = Some (fst (l_alloc sz al fill (Z z)), st')"
    "pmm_rep st' (Z(z := snd (l_alloc sz al fill (Z z))))" "links_only st st'"
    using allocSpace_refines [OF rep fr] by blast
  have "(\<forall>b \<in> set (Z z). \<not> fits sz al b) \<and> snd (l_alloc sz al fill (Z z)) = Z z"
    if z0: "fst (l_alloc sz al fill (Z z)) = 0"
  proof -
    consider "(\<forall>b \<in> set (Z z). \<not> fits sz al b) \<and> l_alloc sz al fill (Z z) = (0, Z z)"
      | b where "b \<in> set (Z z)" "fits sz al b" "fst (l_alloc sz al fill (Z z)) = fit_pos sz al b"
      using l_alloc_split [of "Z z" sz al fill] by fastforce
    then show ?thesis
    proof cases
      case 2
      have "in_range (fit_pos sz al b) sz (fit_pos sz al b)"
        using fits_bounds(1) [OF sz 2(2)] by (simp add: in_range_def)
      then have "spans (Z z) (fit_pos sz al b)" by (rule fit_unused(1) [OF bo 2(1,2) sz])
      then show ?thesis using blocks_okD(2) [OF bo, of z] z0 2(3) by simp
    qed simp
  qed
  with st' show ?thesis by (cases "l_alloc sz al fill (Z z)") fastforce
qed

lemma detail_size_ok: "size_ok sizeof_allocdetail MALLOC_MIN_ALIGN"
  by (simp add: size_ok_def sizeof_allocdetail_def MALLOC_MIN_ALIGN_def)

text \<open>The state after a block \<open>d\<close> was taken from zone \<open>z\<close> for the node \<open>fill\<close>.\<close>

definition allocated :: "zone \<Rightarrow> u32 \<Rightarrow> u32 \<Rightarrow> u32 \<Rightarrow> u32 \<Rightarrow> (zone \<Rightarrow> blk list) \<Rightarrow> (zone \<Rightarrow> blk list) \<Rightarrow> bool" where
  "allocated z sz al fill d Z Z' \<longleftrightarrow> d \<noteq> 0 \<and> size_ok sz al \<and> l_alloc sz al fill (Z z) = (d, Z' z) \<and> Z' = Z(z := Z' z)"

lemma allocated_facts:
  assumes ok: "blocks_ok Z" and al: "allocated z sz al fill d Z Z'"
  shows "blocks_ok Z'" "used (Z' y) a \<longleftrightarrow> used (Z y) a \<or> y = z \<and> in_range d sz a"
    "spans (Z' y) a \<longleftrightarrow> spans (Z y) a" "in_range d sz a \<Longrightarrow> spans (Z z) a"
    "in_range d sz a \<Longrightarrow> \<not> used (Z y) a" "aligned d al" "d < d + sz"
    "all_nodes Z' = insert (if fill = 0 then d else fill) (all_nodes Z)"
    "hosted Z a \<Longrightarrow> hosted Z' a"
    "\<exists>e. \<lparr>b_node = (if fill = 0 then d else fill), b_data = d, b_dataend = d + sz, b_allocend = e\<rparr> \<in> set (Z' z)"
proof -
  have la: "l_alloc sz al fill (Z z) = (d, Z' z)" "d \<noteq> 0" "size_ok sz al" and eq: "Z' = Z(z := Z' z)"
    using al by (auto simp: allocated_def)
  have oth: "Z' y = Z y" if "y \<noteq> z" for y using that by (subst eq) simp
  note f = l_alloc_facts [OF blocks_okD(1) [OF ok] la(3) blocks_okD(2) [OF ok] la(1,2)]
  show "blocks_ok Z'" by (subst eq, rule alloc_blocks_ok [OF ok la(3) la(1,2)])
  show "used (Z' y) a \<longleftrightarrow> used (Z y) a \<or> y = z \<and> in_range d sz a"
    using f(2) [of a] oth [of y] by (cases "y = z") auto
  show "spans (Z' y) a \<longleftrightarrow> spans (Z y) a"
    using f(3) [of a] oth [of y] by (cases "y = z") auto
  show "aligned d al" "d < d + sz" by (rule f(5), rule f(6))
  show "all_nodes Z' = insert (if fill = 0 then d else fill) (all_nodes Z)" (is "_ = ?r")
  proof -
    let ?f = "if fill = 0 then d else fill"
    have "nodes (Z' y) = nodes (Z y) \<union> (if y = z then {?f} else {})" for y
      using f(7) oth [of y] by (cases "y = z") simp_all
    then have "all_nodes Z' = (\<Union>y. nodes (Z y)) \<union> (\<Union>y. if y = z then {?f} else {})"
      unfolding all_nodes_def by (simp only: UN_Un_distrib)
    also have "(\<Union>y. if y = z then {?f} else {}) = {?f}" by auto
    finally show ?thesis unfolding all_nodes_def by simp
  qed
  show "hosted Z a \<Longrightarrow> hosted Z' a"
    unfolding hosted_def using f(9) oth by (metis Un_iff)
  show "\<exists>e. \<lparr>b_node = (if fill = 0 then d else fill), b_data = d, b_dataend = d + sz, b_allocend = e\<rparr> \<in> set (Z' z)"
    by (rule f(8))
  assume r: "in_range d sz a"
  then show s: "spans (Z z) a" using f(4) by blast
  show "\<not> used (Z y) a"
    using f(4) [OF r] blocks_okD(3) [OF ok, of z y a] used_spans [OF blocks_okD(1) [OF ok], of y a]
    by (cases "y = z") auto
qed

section \<open>pmm_malloc\<close>

definition tmp_zone :: "zone \<Rightarrow> bool" where
  "tmp_zone t \<longleftrightarrow> t = ZoneTmpHigh \<or> t = ZoneTmpLow"

definition no_detail_room :: "(zone \<Rightarrow> blk list) \<Rightarrow> bool" where
  "no_detail_room Z \<longleftrightarrow> (\<forall>b \<in> set (Z ZoneTmpHigh) \<union> set (Z ZoneTmpLow).
     \<not> fits sizeof_allocdetail MALLOC_MIN_ALIGN b)"

definition detail_allocated :: "zone \<Rightarrow> u32 \<Rightarrow> (zone \<Rightarrow> blk list) \<Rightarrow> (zone \<Rightarrow> blk list) \<Rightarrow> bool" where
  "detail_allocated t d Z Z' \<longleftrightarrow> tmp_zone t \<and> allocated t sizeof_allocdetail MALLOC_MIN_ALIGN 0 d Z Z'"

lemma allocDetail_spec:
  assumes ok: "pmm_ok st Z"
  shows "\<exists>d st' Z'. allocDetail st = Some (d, st') \<and> pmm_rep st' Z' \<and> links_only st st'
    \<and> (d = 0 \<longrightarrow> Z' = Z \<and> no_detail_room Z) \<and> (d \<noteq> 0 \<longrightarrow> (\<exists>t. detail_allocated t d Z Z'))"
proof -
  note step = alloc_step [OF _ detail_size_ok, where fill = 0, simplified]
  obtain d st1 bs where 1: "allocSpace ZoneTmpHigh sizeof_allocdetail MALLOC_MIN_ALIGN 0 st = Some (d, st1)"
    "l_alloc sizeof_allocdetail MALLOC_MIN_ALIGN 0 (Z ZoneTmpHigh) = (d, bs)"
    "pmm_rep st1 (Z(ZoneTmpHigh := bs))" "links_only st st1"
    "d = 0 \<Longrightarrow> bs = Z ZoneTmpHigh"
    "\<And>b. d = 0 \<Longrightarrow> b \<in> set (Z ZoneTmpHigh) \<Longrightarrow> \<not> fits sizeof_allocdetail MALLOC_MIN_ALIGN b"
    using step [OF ok, of ZoneTmpHigh] by blast
  show ?thesis
  proof (cases "d = 0")
    case False
    then have "detail_allocated ZoneTmpHigh d Z (Z(ZoneTmpHigh := bs))"
      using 1(2) detail_size_ok by (simp add: detail_allocated_def allocated_def tmp_zone_def)
    then show ?thesis using 1(1,3,4) False by (auto simp: allocDetail_def)
  next
    case True
    then have "pmm_rep st1 Z" using 1(3,5) by simp
    then have ok1: "pmm_ok st1 Z" using ok by (simp add: pmm_ok_def)
    obtain d' st2 bs' where 2: "allocSpace ZoneTmpLow sizeof_allocdetail MALLOC_MIN_ALIGN 0 st1 = Some (d', st2)"
      "l_alloc sizeof_allocdetail MALLOC_MIN_ALIGN 0 (Z ZoneTmpLow) = (d', bs')"
      "pmm_rep st2 (Z(ZoneTmpLow := bs'))" "links_only st1 st2"
      "d' = 0 \<Longrightarrow> bs' = Z ZoneTmpLow"
      "\<And>b. d' = 0 \<Longrightarrow> b \<in> set (Z ZoneTmpLow) \<Longrightarrow> \<not> fits sizeof_allocdetail MALLOC_MIN_ALIGN b"
      using step [OF ok1, of ZoneTmpLow] by blast
    have e: "allocDetail st = Some (d', st2)" using 1(1) 2(1) True by (simp add: allocDetail_def)
    have l: "links_only st st2" by (rule links_only_trans [OF 1(4) 2(4)])
    have "detail_allocated ZoneTmpLow d' Z (Z(ZoneTmpLow := bs'))" if "d' \<noteq> 0"
      using 2(2) detail_size_ok that by (simp add: detail_allocated_def allocated_def tmp_zone_def)
    moreover have "no_detail_room Z \<and> Z(ZoneTmpLow := bs') = Z" if "d' = 0"
      using 1(6) 2(5,6) True that by (auto simp: no_detail_room_def)
    ultimately show ?thesis
      using e l 2(3) by (intro exI [of _ d'] exI [of _ st2] exI [of _ "Z(ZoneTmpLow := bs')"]) blast
  qed
qed

lemma detail_allocated_ok:
  assumes ok: "pmm_ok st Z" and da: "detail_allocated t d Z Z'" and rep: "pmm_rep st' Z'"
  shows "pmm_ok st' Z'" "hosted Z' (datainfo_of d)" "datainfo_of d \<noteq> 0" "datainfo_of d \<notin> all_nodes Z'"
proof -
  have bo: "blocks_ok Z" and h: "\<And>a. a \<in> all_nodes Z \<Longrightarrow> hosted Z a" using ok by (auto simp: pmm_ok_def)
  have t: "tmp_zone t" and al: "allocated t sizeof_allocdetail MALLOC_MIN_ALIGN 0 d Z Z'"
    using da by (auto simp: detail_allocated_def)
  note f = allocated_facts [OF bo al]
  obtain e where e: "\<lparr>b_node = d, b_data = d, b_dataend = d + sizeof_allocdetail, b_allocend = e\<rparr> \<in> set (Z' t)"
    using f(10) by auto
  then have hd: "hosted Z' d" and hi: "hosted Z' (datainfo_of d)"
    using t by (force simp: hosted_def hosts_def detail_blk_def tmp_zone_def)+
  then show "hosted Z' (datainfo_of d)" by simp
  have nodes: "all_nodes Z' = insert d (all_nodes Z)" using f(8) by simp
  show "pmm_ok st' Z'"
    using rep f(1,9) h hd nodes by (auto simp: pmm_ok_def)
  have "d \<le> d + 44" using f(7) by (simp add: sizeof_allocdetail_def)
  note dr = detail_room [OF this]
  have r: "in_range d sizeof_allocdetail (datainfo_of d)"
    using dr by (simp add: in_range_def sizeof_allocdetail_def datainfo_of_def)
  show "datainfo_of d \<noteq> 0"
    using f(4) [OF r] blocks_okD(2) [OF bo, of t] by auto
  show "datainfo_of d \<notin> all_nodes Z'"
    using unused_not_node [OF ok f(5) [OF r]] dr(4) nodes by (auto simp: datainfo_of_def)
qed

lemma pmm_rep_handles [simp]: "pmm_rep (st\<lparr>handles := h\<rparr>) Z = pmm_rep st Z"
  by (simp add: pmm_rep_def zone_rep_def zseg_def)

lemma pmm_ok_handles [simp]: "pmm_ok (st\<lparr>handles := h\<rparr>) Z = pmm_ok st Z"
  by (simp add: pmm_ok_def)

lemma freeSpace_undo:
  assumes rep: "pmm_rep st' Z'" and bo: "blocks_ok Z" and al: "allocated z sz al fill d Z Z'"
    and fill: "fill \<noteq> 0 \<Longrightarrow> fill \<notin> all_nodes Z" "\<And>y a. fill = 0 \<Longrightarrow> in_range d sz a \<Longrightarrow> a \<notin> all_nodes Z"
    and node: "node = (if fill = 0 then d else fill)"
  shows "pmm_rep (freeSpace node st') Z \<and> links_only st' (freeSpace node st')"
proof -
  have la: "l_alloc sz al fill (Z z) = (d, Z' z)" "d \<noteq> 0" "size_ok sz al" and eq: "Z' = Z(z := Z' z)"
    using al by (auto simp: allocated_def)
  note f = l_alloc_facts [OF blocks_okD(1) [OF bo] la(3) blocks_okD(2) [OF bo] la(1,2)]
  have sub: "nodes (Z z) \<subseteq> all_nodes Z" by (auto simp: all_nodes_def)
  have fr: "fill_of sz al fill b \<notin> nodes (Z z)" if b: "b \<in> set (Z z)" "fits sz al b" "fst (l_alloc sz al fill (Z z)) = fit_pos sz al b \<or> fill \<noteq> 0" for b
    using fill sub b(3) f(6) la(1) by (auto simp: fill_of_def in_range_def)
  have undo: "l_free node (Z' z) = Z z"
  proof -
    obtain xs b ys where s: "Z z = xs @ b # ys" "fits sz al b" "d = fit_pos sz al b"
      "Z' z = xs @ \<lparr>b_node = fill_of sz al fill b, b_data = d, b_dataend = d + sz,
       b_allocend = b_allocend b\<rparr> # b\<lparr>b_allocend := d\<rparr> # ys"
      using l_alloc_split [of "Z z" sz al fill] la by auto
    have nd: "node = fill_of sz al fill b" using node s(3) by (simp add: fill_of_def)
    have "node \<notin> nodes xs" using fr [of b] s la(1) nd by auto
    then show ?thesis
      unfolding s(4) s(1) nd
      using l_free_append [of "\<lparr>b_node = fill_of sz al fill b, b_data = d, b_dataend = d + sz,
       b_allocend = b_allocend b\<rparr>" xs "b\<lparr>b_allocend := d\<rparr> # ys"] by simp
  qed
  have "node \<in> nodes (Z' z)" using f(7) node by simp
  then have "pmm_rep (freeSpace node st') (Z'(z := l_free node (Z' z))) \<and> links_only st' (freeSpace node st')"
    by (rule freeSpace_refines [OF rep])
  moreover have "Z'(z := l_free node (Z' z)) = Z"
    unfolding undo by (subst eq) simp
  ultimately show ?thesis by simp
qed

text \<open>The two ways \<open>pmm_malloc\<close> can end, over the block lists.\<close>

definition malloc_failed :: "zone \<Rightarrow> u32 \<Rightarrow> u32 \<Rightarrow> (zone \<Rightarrow> blk list) \<Rightarrow> bool" where
  "malloc_failed z sz al Z \<longleftrightarrow> no_detail_room Z
     \<or> (\<exists>t d Z1. detail_allocated t d Z Z1 \<and> (\<forall>b \<in> set (Z1 z). \<not> fits sz al b))"

definition malloc_done ::
  "zone \<Rightarrow> u32 \<Rightarrow> u32 \<Rightarrow> zone \<Rightarrow> u32 \<Rightarrow> u32 \<Rightarrow> (zone \<Rightarrow> blk list) \<Rightarrow> (zone \<Rightarrow> blk list) \<Rightarrow> bool" where
  "malloc_done z sz al t d data Z Z' \<longleftrightarrow> (\<exists>Z1. detail_allocated t d Z Z1
     \<and> allocated z sz al (datainfo_of d) data Z1 Z')"

lemma detail_keeps_low: "detail_allocated t d Z Z1 \<Longrightarrow> z \<noteq> t \<Longrightarrow> Z1 z = Z z"
  unfolding detail_allocated_def allocated_def by (metis fun_upd_other)

lemma allocExpandSpace_step:
  assumes ok: "pmm_ok st Z" and sz: "size_ok sz al" and fill: "fill \<noteq> 0" "fill \<notin> all_nodes Z"
    and low: "z \<noteq> ZoneLow \<or> (\<exists>b \<in> set (Z ZoneLow). fits sz al b)"
  shows "\<exists>d st' Z'. allocExpandSpace tmp z sz al fill st = Some (d, st') \<and> pmm_rep st' Z'
    \<and> links_only st st' \<and> (d = 0 \<longrightarrow> Z' = Z \<and> (\<forall>b \<in> set (Z z). \<not> fits sz al b))
    \<and> (d \<noteq> 0 \<longrightarrow> allocated z sz al fill d Z Z')"
proof -
  obtain d st' bs' where a: "allocSpace z sz al fill st = Some (d, st')"
    "l_alloc sz al fill (Z z) = (d, bs')" "pmm_rep st' (Z(z := bs'))" "links_only st st'"
    "d = 0 \<longrightarrow> bs' = Z z \<and> (\<forall>b \<in> set (Z z). \<not> fits sz al b)"
    using alloc_step [OF ok sz, of fill z] fill by blast
  have "d \<noteq> 0 \<or> z \<noteq> ZoneLow" using a(5) low by blast
  then have "allocExpandSpace tmp z sz al fill st = Some (d, st')"
    using a(1) by (simp add: allocExpandSpace_def)
  moreover have "d \<noteq> 0 \<longrightarrow> allocated z sz al fill d Z (Z(z := bs'))"
    using a(2) sz by (simp add: allocated_def)
  moreover have "d = 0 \<longrightarrow> Z(z := bs') = Z \<and> (\<forall>b \<in> set (Z z). \<not> fits sz al b)"
    using a(5) by auto
  ultimately show ?thesis using a(3,4) by blast
qed

lemma pmm_malloc_cases:
  assumes ok: "pmm_ok st Z" and sz: "size_ok sz al"
    and low: "z \<noteq> ZoneLow \<or> (\<exists>b \<in> set (Z ZoneLow). fits sz al b)"
  shows "\<exists>data st' Z'. pmm_malloc tmp z h sz al st = Some (data, st')
    \<and> mem st' = mem st \<and> e820_list st' = e820_list st \<and> pmm_ok st' Z'
    \<and> (data = 0 \<longrightarrow> Z' = Z \<and> handles st' = handles st \<and> malloc_failed z sz al Z)
    \<and> (data \<noteq> 0 \<longrightarrow> (\<exists>t d. malloc_done z sz al t d data Z Z' \<and> handles st' = (handles st)(d := h)))"
proof -
  have sz0: "sz \<noteq> 0" using sz by (simp add: size_ok_def)
  have bo: "blocks_ok Z" using ok by (simp add: pmm_ok_def)
  obtain d st1 Z1 where d: "allocDetail st = Some (d, st1)" "pmm_rep st1 Z1" "links_only st st1"
    "d = 0 \<longrightarrow> Z1 = Z \<and> no_detail_room Z" "d \<noteq> 0 \<longrightarrow> (\<exists>t. detail_allocated t d Z Z1)"
    using allocDetail_spec [OF ok] by blast
  show ?thesis
  proof (cases "d = 0")
    case True
    then have "pmm_malloc tmp z h sz al st = Some (0, st1)"
      using d(1) sz0 by (simp add: pmm_malloc_def)
    then show ?thesis
      using d True ok by (auto simp: malloc_failed_def pmm_ok_def)
  next
    case False
    then obtain t where t: "detail_allocated t d Z Z1" using d(5) by blast
    note dt = detail_allocated_ok [OF ok t d(2)]
    have "z \<noteq> ZoneLow \<or> (\<exists>b \<in> set (Z1 ZoneLow). fits sz al b)"
      using low t detail_keeps_low [OF t, of ZoneLow] by (auto simp: detail_allocated_def tmp_zone_def)
    then obtain data st2 Z2 where a: "allocExpandSpace tmp z sz al (datainfo_of d) st1 = Some (data, st2)"
      "pmm_rep st2 Z2" "links_only st1 st2"
      "data = 0 \<longrightarrow> Z2 = Z1 \<and> (\<forall>b \<in> set (Z1 z). \<not> fits sz al b)"
      "data \<noteq> 0 \<longrightarrow> allocated z sz al (datainfo_of d) data Z1 Z2"
      using allocExpandSpace_step [OF dt(1) sz dt(3,4)] by blast
    show ?thesis
    proof (cases "data = 0")
      case True
      have m: "pmm_malloc tmp z h sz al st = Some (0, freeSpace d st2)"
        using d(1) a(1) sz0 False True by (simp add: pmm_malloc_def)
      have "pmm_rep (freeSpace d st2) Z \<and> links_only st2 (freeSpace d st2)"
      proof (rule freeSpace_undo)
        show "pmm_rep st2 Z1" "blocks_ok Z" using a(2,4) True bo by auto
        show "allocated t sizeof_allocdetail MALLOC_MIN_ALIGN 0 d Z Z1"
          using t by (simp add: detail_allocated_def)
        then show "a \<notin> all_nodes Z" if "in_range d sizeof_allocdetail a" for a
          using allocated_facts(5) [OF bo _ that] unused_not_node [OF ok] by blast
      qed simp_all
      then have "pmm_ok (freeSpace d st2) Z" "links_only st (freeSpace d st2)"
        using ok links_only_trans d(3) a(3) unfolding pmm_ok_def by blast+
      moreover have "malloc_failed z sz al Z" using t a(4) True by (auto simp: malloc_failed_def)
      ultimately show ?thesis using m by auto
    next
      case nz: False
      have m: "pmm_malloc tmp z h sz al st = Some (data, st2\<lparr>handles := (handles st2)(d := h)\<rparr>)"
        using d(1) a(1) sz0 False nz by (simp add: pmm_malloc_def)
      have al: "allocated z sz al (datainfo_of d) data Z1 Z2" using a(5) nz by blast
      have b1: "blocks_ok Z1" and h1: "\<And>a. a \<in> all_nodes Z1 \<Longrightarrow> hosted Z1 a"
        using dt(1) by (auto simp: pmm_ok_def)
      note f = allocated_facts [OF b1 al]
      have "all_nodes Z2 = insert (datainfo_of d) (all_nodes Z1)" using f(8) dt(3) by simp
      then have "pmm_ok st2 Z2"
        using a(2) f(1,9) h1 dt(2) by (auto simp: pmm_ok_def)
      moreover have "malloc_done z sz al t d data Z Z2" using t al by (auto simp: malloc_done_def)
      moreover have "mem st2 = mem st" "e820_list st2 = e820_list st" "handles st2 = handles st"
        using a(3) d(3) by simp_all
      ultimately show ?thesis using m nz by auto
    qed
  qed
qed

lemma malloc_done_facts:
  assumes bo: "blocks_ok Z" and md: "malloc_done z sz al t d data Z Z'"
  shows "tmp_zone t" "aligned data al" "data < data + sz" "blocks_ok Z'"
    "in_range data sz a \<Longrightarrow> spans (Z z) a" "in_range data sz a \<Longrightarrow> \<not> used (Z y) a"
    "in_range data sz a \<Longrightarrow> \<not> in_range d sizeof_allocdetail a"
    "used (Z' y) a \<longleftrightarrow> used (Z y) a \<or> y = t \<and> in_range d sizeof_allocdetail a \<or> y = z \<and> in_range data sz a"
    "spans (Z' y) a \<longleftrightarrow> spans (Z y) a"
proof -
  obtain Z1 where t: "tmp_zone t" and a1: "allocated t sizeof_allocdetail MALLOC_MIN_ALIGN 0 d Z Z1"
    and a2: "allocated z sz al (datainfo_of d) data Z1 Z'"
    using md by (auto simp: malloc_done_def detail_allocated_def)
  note f1 = allocated_facts [OF bo a1]
  note f2 = allocated_facts [OF f1(1) a2]
  show "tmp_zone t" "aligned data al" "data < data + sz" "blocks_ok Z'"
    by (rule t, rule f2(6), rule f2(7), rule f2(1))
  show "in_range data sz a \<Longrightarrow> spans (Z z) a" using f2(4) f1(3) by blast
  show "in_range data sz a \<Longrightarrow> \<not> used (Z y) a" using f2(5) [of a y] f1(2) [of y a] by blast
  show "in_range data sz a \<Longrightarrow> \<not> in_range d sizeof_allocdetail a"
    using f2(5) [of a t] f1(2) [of t a] by blast
  show "used (Z' y) a \<longleftrightarrow> used (Z y) a \<or> y = t \<and> in_range d sizeof_allocdetail a \<or> y = z \<and> in_range data sz a"
    using f2(2) [of y a] f1(2) [of y a] by blast
  show "spans (Z' y) a \<longleftrightarrow> spans (Z y) a" using f2(3) [of y a] f1(3) [of y a] by blast
qed

section \<open>pmm_free\<close>

lemma seg_infos:
  "seg I pp p bs pp' p' \<Longrightarrow> b \<in> set bs \<Longrightarrow> b_node b \<noteq> 0 \<and> ai_data (I (b_node b)) = b_data b
   \<and> ai_dataend (I (b_node b)) = b_dataend b \<and> ai_allocend (I (b_node b)) = b_allocend b"
  by (induction bs arbitrary: pp p) auto

lemma rep_infos:
  assumes "pmm_rep st Z" "b \<in> set (Z z)"
  shows "b_node b \<noteq> 0" "ai_data (infos st (b_node b)) = b_data b"
    "ai_dataend (infos st (b_node b)) = b_dataend b" "ai_allocend (infos st (b_node b)) = b_allocend b"
  using assms seg_infos unfolding pmm_rep_def zone_rep_def zseg_def by blast+

lemma findAlloc_zone:
  "pmm_rep st Z \<Longrightarrow> findAlloc_from (zone_info st z) data st =
     Some (case find (\<lambda>b. b_data b = data) (Z z) of None \<Rightarrow> 0 | Some b \<Rightarrow> b_node b)"
  unfolding pmm_rep_def using findAlloc_from_seg zone_rep_seg by metis

lemma findAlloc_zones_rep:
  assumes "pmm_rep st Z"
  shows "findAlloc_zones zs data st =
     Some (case find (\<lambda>b. b_data b = data) (concat (map Z zs)) of None \<Rightarrow> 0 | Some b \<Rightarrow> b_node b)"
proof (induction zs)
  case (Cons z zs)
  show ?case
  proof (cases "find (\<lambda>b. b_data b = data) (Z z)")
    case None
    then show ?thesis
      using Cons findAlloc_zone [OF assms, of z data] by (simp add: find_append)
  next
    case (Some b)
    then have "b \<in> set (Z z)" by (auto simp: find_Some_iff)
    then have "b_node b \<noteq> 0" by (rule rep_infos(1) [OF assms])
    then show ?thesis
      using Some findAlloc_zone [OF assms, of z data] by (simp add: find_append)
  qed
qed simp

lemma findAlloc_rep:
  assumes "pmm_rep st Z"
  shows "findAlloc data st = Some (case find (\<lambda>b. b_data b = data) (concat (map Z Zones)) of
     None \<Rightarrow> 0 | Some b \<Rightarrow> b_node b)"
  unfolding findAlloc_def by (rule findAlloc_zones_rep [OF assms])

lemma set_Zones: "z \<in> set Zones"
  by (cases z) (simp_all add: Zones_def)

lemma find_unique: "b \<in> set xs \<Longrightarrow> P b \<Longrightarrow> (\<And>c. c \<in> set xs \<Longrightarrow> P c \<Longrightarrow> c \<noteq> b \<Longrightarrow> False) \<Longrightarrow> find P xs = Some b"
  by (induction xs) auto

text \<open>A block that \<open>pmm_malloc\<close> handed out, with its bookkeeping block \<open>d\<close> in zone \<open>t\<close>.\<close>

definition tracked :: "(zone \<Rightarrow> blk list) \<Rightarrow> zone \<Rightarrow> blk \<Rightarrow> zone \<Rightarrow> blk \<Rightarrow> bool" where
  "tracked Z z b t d \<longleftrightarrow> b \<in> set (Z z) \<and> b_data b < b_dataend b \<and> tmp_zone t \<and> d \<in> set (Z t)
     \<and> detail_blk d \<and> b_node b = datainfo_of (b_node d)"

lemma blk_separate:
  assumes wf: "zone_wf bs" and bc: "b \<in> set bs" "c \<in> set bs" "b \<noteq> c"
    and a: "b_data b \<le> a" "a < b_allocend b" "b_data c \<le> a" "a < b_allocend c"
  shows False
proof -
  obtain xs ys where s: "bs = xs @ b # ys" using bc(1) by (auto simp: in_set_conv_decomp)
  have "\<not> spans xs a" "\<not> spans ys a"
    using blk_disjoint(3,4) [OF wf[unfolded s] a(1,2)] by simp_all
  moreover have "c \<in> set xs \<or> c \<in> set ys" using bc(2,3) s by auto
  ultimately show False using a(3,4) by (auto simp: spans_def)
qed

lemma blk_in_zone:
  assumes "zone_wf bs" "b \<in> set bs"
  shows "b_data b \<le> b_dataend b" "b_dataend b \<le> b_allocend b"
  using assms by (auto simp: zone_wf_def blk_wf_def)

text \<open>A used block is the only one with its data address.\<close>

lemma used_block_unique:
  assumes bo: "blocks_ok Z" and b: "b \<in> set (Z z)" "b_data b < b_dataend b"
    and c: "c \<in> set (Z z')" "b_data c = b_data b" "b_data c < b_dataend c \<or> z \<noteq> z'"
  shows "c = b \<and> z = z'"
proof (rule ccontr)
  assume n: "\<not> (c = b \<and> z = z')"
  have wf: "zone_wf (Z z)" by (rule blocks_okD(1) [OF bo])
  have ab: "b_data b < b_allocend b" using b(2) blk_in_zone(2) [OF wf b(1)] by order
  then have sp: "spans (Z z) (b_data b)" using b(1) by (auto simp: spans_def)
  show False
  proof (cases "z = z'")
    case True
    then have "c \<noteq> b" "b_data c < b_allocend c"
      using n c blk_in_zone(2) [OF wf, of c] by (auto intro: order.strict_trans2)
    then show False using blk_separate [OF wf b(1), of c "b_data b"] c ab True by auto
  next
    case False
    then show False using blocks_okD(4) [OF bo, of z' z c] c sp by auto
  qed
qed

lemma findAlloc_used:
  assumes rep: "pmm_rep st Z" and bo: "blocks_ok Z" and b: "b \<in> set (Z z)" "b_data b < b_dataend b"
  shows "findAlloc (b_data b) st = Some (b_node b)"
proof -
  have wf: "zone_wf (Z z)" by (rule blocks_okD(1) [OF bo])
  obtain xs ys where s: "Z z = xs @ b # ys" using b(1) by (auto simp: in_set_conv_decomp)
  have up: "b_data x \<noteq> b_data b" if "x \<in> set xs" for x
  proof -
    have "b_allocend b \<le> b_data x" "b_dataend b \<le> b_allocend b"
      using wf that unfolding s by (auto simp: zone_wf_append zone_wf_Cons blk_wf_def)
    then show ?thesis using b(2) by order
  qed
  have oth: "b_data c \<noteq> b_data b" if "c \<in> set (Z y)" "y \<noteq> z" for c y
    using used_block_unique [OF bo b that(1)] that(2) by auto
  obtain zs zs' where z: "Zones = zs @ z # zs'" "z \<notin> set zs"
    using set_Zones [of z] by (auto dest!: split_list_first)
  have zs: "\<forall>y \<in> set zs. y \<noteq> z" using z(2) by blast
  have "find (\<lambda>c. b_data c = b_data b) (concat (map Z zs)) = None"
    using oth zs by (auto simp: find_None_iff)
  moreover have "find (\<lambda>c. b_data c = b_data b) xs = None"
    using up by (auto simp: find_None_iff)
  ultimately have "find (\<lambda>c. b_data c = b_data b) (concat (map Z Zones)) = Some b"
    by (simp add: z(1) s find_append)
  then show ?thesis by (simp add: findAlloc_rep [OF rep])
qed

text \<open>Release of one block.\<close>

lemma release_facts:
  assumes rep: "pmm_rep st Z" and bo: "blocks_ok Z" and b: "b \<in> set (Z z)"
  defines "Z' \<equiv> Z(z := l_free (b_node b) (Z z))"
  shows "pmm_rep (freeSpace (b_node b) st) Z'" "links_only st (freeSpace (b_node b) st)" "blocks_ok Z'"
    "used (Z' y) a \<longleftrightarrow> used (Z y) a \<and> \<not> (y = z \<and> b_data b \<le> a \<and> a < b_dataend b)"
    "all_nodes Z' = all_nodes Z - {b_node b}"
    "c \<in> set (Z y) \<Longrightarrow> b_node c \<noteq> b_node b \<Longrightarrow>
      \<exists>c' \<in> set (Z' y). b_node c' = b_node c \<and> b_data c' = b_data c \<and> b_dataend c' = b_dataend c"
proof -
  have node: "b_node b \<in> nodes (Z z)" using b by simp
  have no: "nodes_ok Z" using rep by (simp add: pmm_rep_def)
  have dist: "distinct (map b_node (Z z))" using no unfolding nodes_ok_def by blast
  obtain xs b' ys where s0: "Z z = xs @ b' # ys" "b_node b' = b_node b"
    "l_free (b_node b) (Z z) = xs @ l_absorb b' ys"
    using l_free_split [OF node dist] by blast
  have "b' = b"
    using s0(1,2) b dist by (metis distinct_map in_set_conv_decomp inj_on_def)
  note s = s0(1,3) [unfolded this]
  have Z': "Z' z = xs @ l_absorb b ys" "\<And>y. y \<noteq> z \<Longrightarrow> Z' y = Z y"
    using s(2) by (simp_all add: Z'_def)
  have wf: "zone_wf (xs @ b # ys)" using blocks_okD(1) [OF bo, of z] s(1) by simp
  note w = free_split_wf [OF wf, folded s(1)]
  show "pmm_rep (freeSpace (b_node b) st) Z'" "links_only st (freeSpace (b_node b) st)"
    unfolding Z'_def using freeSpace_refines [OF rep node] by blast+
  have dat: "\<exists>e \<in> set (Z z). b_data c = b_data e" if "c \<in> set (xs @ l_absorb b ys)" for c
    using that s(1) by (cases ys) (auto split: if_splits)
  show "blocks_ok Z'"
    unfolding Z'_def s(2)
    by (rule blocks_ok_upd [OF bo w(1)]) (use w(3) dat in auto)
  show "used (Z' y) a \<longleftrightarrow> used (Z y) a \<and> \<not> (y = z \<and> b_data b \<le> a \<and> a < b_dataend b)"
    using w(2) [of a] Z' by (cases "y = z") auto
  show "all_nodes Z' = all_nodes Z - {b_node b}"
  proof -
    have n: "nodes (Z' y) = nodes (Z y) - {b_node b}" for y
    proof (cases "y = z")
      case True
      have "b_node b \<notin> nodes xs" "b_node b \<notin> nodes ys" using dist s(1) by auto
      then show ?thesis using True Z'(1) s(1) by (simp add: image_Un)
    next
      case False
      then have "nodes (Z z) \<inter> nodes (Z y) = {}" using no unfolding nodes_ok_def by metis
      then have "b_node b \<notin> nodes (Z y)" using node by blast
      then show ?thesis using Z'(2) [OF False] by simp
    qed
    show ?thesis unfolding all_nodes_def n by blast
  qed
  show "\<exists>c' \<in> set (Z' y). b_node c' = b_node c \<and> b_data c' = b_data c \<and> b_dataend c' = b_dataend c"
    if c: "c \<in> set (Z y)" "b_node c \<noteq> b_node b"
  proof (cases "y = z")
    case True
    then have "c \<in> set xs \<or> c \<in> set ys" using c s(1) by auto
    then show ?thesis using True Z'(1) by (cases ys) auto
  next
    case False
    then show ?thesis using c(1) Z'(2) by auto
  qed
qed

end
