(* ===== verification/PmmSpec.thy ===== *)
theory PmmSpec
  imports PmmInv
begin

text \<open>
  What the allocator of \<open>src/pmm.c\<close> promises its callers: the properties of \<open>pmm_malloc\<close>,
  \<open>pmm_free\<close>, \<open>pmm_getspace\<close> and \<open>pmm_find\<close> on every state whose lists satisfy the invariant
  \<open>pmm_ok\<close> of \<^verbatim>\<open>PmmInv.thy\<close>, and a concrete state that satisfies it.
\<close>

section \<open>Walks that look for a handle\<close>

definition is_detail :: "blk \<Rightarrow> bool" where
  "is_detail b \<longleftrightarrow> b_node b = b_data b"

lemma pmm_find_from_seg:
  "seg (infos st) pp p ys pp' 0 \<Longrightarrow>
   pmm_find_from p h st = Some (case find (\<lambda>b. is_detail b \<and> handles st (b_node b) = h) ys of
      None \<Rightarrow> None | Some b \<Rightarrow> Some (ai_data (infos st (datainfo_of (b_node b)))))"
proof (induction ys arbitrary: pp p)
  case Nil
  then show ?case by (simp add: pmm_find_from.simps [of 0])
next
  case (Cons b ys)
  let ?I = "infos st (b_node b)"
  have p: "p = b_node b" "b_node b \<noteq> 0" "ai_data ?I = b_data b"
    and s: "seg (infos st) (InfoNext (b_node b)) (ai_next ?I) ys pp' 0"
    using Cons.prems by auto
  have "pmm_find_from (b_node b) h st =
      (if b_data b \<noteq> b_node b then pmm_find_from (ai_next ?I) h st
       else if handles st (b_node b) = h then Some (Some (ai_data (infos st (datainfo_of (b_node b)))))
       else pmm_find_from (ai_next ?I) h st)"
    using p by (subst pmm_find_from.simps) simp
  moreover have "is_detail b \<longleftrightarrow> b_data b = b_node b" by (auto simp: is_detail_def)
  ultimately show ?case unfolding p(1) Cons.IH [OF s] by simp
qed

lemma pmm_find_zones_rep:
  assumes "pmm_rep st Z"
  shows "pmm_find_zones zs h st = Some (case find (\<lambda>b. is_detail b \<and> handles st (b_node b) = h)
     (concat (map Z zs)) of None \<Rightarrow> 0 | Some b \<Rightarrow> ai_data (infos st (datainfo_of (b_node b))))"
proof (induction zs)
  case (Cons z zs)
  obtain pp' where "seg (infos st) (ZoneInfo z) (zone_info st z) (Z z) pp' 0"
    using assms zone_rep_seg unfolding pmm_rep_def by metis
  from pmm_find_from_seg [OF this, of h] Cons show ?case
    by (cases "find (\<lambda>b. is_detail b \<and> handles st (b_node b) = h) (Z z)") (simp_all add: find_append)
qed simp

lemma pmm_find_none:
  assumes "pmm_rep st Z" "\<And>z b. b \<in> set (Z z) \<Longrightarrow> is_detail b \<Longrightarrow> handles st (b_node b) \<noteq> h"
  shows "pmm_find h st = Some 0"
proof -
  have "find (\<lambda>b. is_detail b \<and> handles st (b_node b) = h) (concat (map Z Zones)) = None"
    using assms(2) by (auto simp: find_None_iff)
  then show ?thesis by (simp add: pmm_find_def pmm_find_zones_rep [OF assms(1)])
qed

lemma pmm_find_unique:
  assumes rep: "pmm_rep st Z" and tr: "tracked Z z b t d" and h: "handles st (b_node d) = h"
    and u: "\<And>y c. c \<in> set (Z y) \<Longrightarrow> is_detail c \<Longrightarrow> handles st (b_node c) = h \<Longrightarrow> b_node c = b_node d"
  shows "pmm_find h st = Some (b_data b)"
proof -
  let ?P = "\<lambda>b. is_detail b \<and> handles st (b_node b) = h"
  have d: "d \<in> set (Z t)" "is_detail d" "b_node b = datainfo_of (b_node d)" "b \<in> set (Z z)"
    using tr by (auto simp: tracked_def detail_blk_def is_detail_def)
  have "d \<in> set (concat (map Z Zones))" using d(1) set_Zones by auto
  then have "find ?P (concat (map Z Zones)) \<noteq> None" using d(2) h by (auto simp: find_None_iff)
  then obtain c where c: "find ?P (concat (map Z Zones)) = Some c" by blast
  then have "c \<in> set (concat (map Z Zones))" "?P c"
    unfolding find_Some_iff by (metis nth_mem)+
  then have "b_node c = b_node d" using u by auto
  then show ?thesis
    using c d(3) rep_infos(2) [OF rep d(4)] by (simp add: pmm_find_def pmm_find_zones_rep [OF rep])
qed

section \<open>A concrete state\<close>

text \<open>A temporary zone with three bookkeeping blocks, and the high zone with one block handed out.\<close>

definition demo_zones :: "zone \<Rightarrow> blk list" where
  "demo_zones z = (case z of
     ZoneTmpHigh \<Rightarrow>
       [\<lparr>b_node = 0x1fd0, b_data = 0x1fd0, b_dataend = 0x1ffc, b_allocend = 0x2000\<rparr>,
        \<lparr>b_node = 0x1fa0, b_data = 0x1fa0, b_dataend = 0x1fcc, b_allocend = 0x1fd0\<rparr>,
        \<lparr>b_node = 0x1f70, b_data = 0x1f70, b_dataend = 0x1f9c, b_allocend = 0x1fa0\<rparr>,
        \<lparr>b_node = 0x1fe4, b_data = 0x1000, b_dataend = 0x1000, b_allocend = 0x1f70\<rparr>]
   | ZoneHigh \<Rightarrow>
       [\<lparr>b_node = 0x1f84, b_data = 0x3ff0, b_dataend = 0x4000, b_allocend = 0x4000\<rparr>,
        \<lparr>b_node = 0x1fb4, b_data = 0x3000, b_dataend = 0x3000, b_allocend = 0x3ff0\<rparr>]
   | _ \<Rightarrow> [])"

definition demo_info :: "u32 \<Rightarrow> pptr \<Rightarrow> u32 \<Rightarrow> u32 \<Rightarrow> u32 \<Rightarrow> allocinfo" where
  "demo_info nxt pp d e a = \<lparr>ai_next = nxt, ai_pprev = pp, ai_data = d, ai_dataend = e, ai_allocend = a\<rparr>"

definition demo_pmm :: pmm where
  "demo_pmm = \<lparr>mem = (\<lambda>_. 0), io_log = [], dev = (\<lambda>_ _ _. 0),
     zone_info = (\<lambda>z. case z of ZoneTmpHigh \<Rightarrow> 0x1fd0 | ZoneHigh \<Rightarrow> 0x1f84 | _ \<Rightarrow> 0),
     infos = (\<lambda>_. demo_info 0 (ZoneInfo ZoneHigh) 0 0 0)
       (0x1fd0 := demo_info 0x1fa0 (ZoneInfo ZoneTmpHigh) 0x1fd0 0x1ffc 0x2000,
        0x1fa0 := demo_info 0x1f70 (InfoNext 0x1fd0) 0x1fa0 0x1fcc 0x1fd0,
        0x1f70 := demo_info 0x1fe4 (InfoNext 0x1fa0) 0x1f70 0x1f9c 0x1fa0,
        0x1fe4 := demo_info 0 (InfoNext 0x1f70) 0x1000 0x1000 0x1f70,
        0x1f84 := demo_info 0x1fb4 (ZoneInfo ZoneHigh) 0x3ff0 0x4000 0x4000,
        0x1fb4 := demo_info 0 (InfoNext 0x1f84) 0x3000 0x3000 0x3ff0),
     handles = (\<lambda>_. PMM_DEFAULT_HANDLE)(0x1f70 := 0x1234),
     e820_list = []\<rparr>"

lemma all_zones: "(\<forall>z. P z) \<longleftrightarrow> P ZoneTmpLow \<and> P ZoneLow \<and> P ZoneFSeg \<and> P ZoneTmpHigh \<and> P ZoneHigh"
  using zone.exhaust by metis

lemma demo_rep: "pmm_rep demo_pmm demo_zones"
  unfolding pmm_rep_def nodes_ok_def zone_rep_def zseg_def all_zones
  by (simp add: demo_zones_def demo_pmm_def demo_info_def)

lemma demo_spans:
  "spans (demo_zones z) a \<longleftrightarrow> z = ZoneTmpHigh \<and> 0x1000 \<le> a \<and> a < 0x2000
     \<or> z = ZoneHigh \<and> 0x3000 \<le> a \<and> a < 0x4000"
  by (cases z) (auto simp: demo_zones_def, (uint_arith)+)

lemma demo_blocks: "blocks_ok demo_zones"
proof -
  have "zone_wf (demo_zones z)" for z
    by (cases z) (simp_all add: demo_zones_def zone_wf_def blk_wf_def)
  moreover have "zones_sep demo_zones"
  proof -
    have "\<not> (0x3000 \<le> a \<and> a < 0x2000)" for a :: u32 by uint_arith
    moreover have "0x1000 \<le> b_data b \<and> b_data b < 0x2000" if "b \<in> set (demo_zones ZoneTmpHigh)" for b
      using that by (auto simp: demo_zones_def)
    moreover have "0x3000 \<le> b_data b \<and> b_data b < 0x4000" if "b \<in> set (demo_zones ZoneHigh)" for b
      using that by (auto simp: demo_zones_def)
    moreover have "demo_zones z = []" if "z \<noteq> ZoneTmpHigh" "z \<noteq> ZoneHigh" for z
      using that by (cases z) (simp_all add: demo_zones_def)
    ultimately show ?thesis
      unfolding zones_sep_def all_zones by (simp add: demo_spans) (meson leD le_less_trans order.trans)
  qed
  ultimately show ?thesis by (simp add: blocks_ok_def demo_spans)
qed

lemma demo_ok: "pmm_ok demo_pmm demo_zones"
proof -
  have "hosted demo_zones a" if "a \<in> all_nodes demo_zones" for a
  proof -
    from that obtain z where "a \<in> nodes (demo_zones z)" by (auto simp: all_nodes_def)
    then have "a \<in> {0x1fd0, 0x1fa0, 0x1f70, 0x1fe4, 0x1f84, 0x1fb4}"
      by (cases z) (auto simp: demo_zones_def)
    then show ?thesis
      by (auto simp: hosted_def demo_zones_def hosts_def detail_blk_def sizeof_allocdetail_def
          datainfo_of_def)
  qed
  then show ?thesis using demo_rep demo_blocks by (simp add: pmm_ok_def)
qed

section \<open>Helpers of the properties\<close>

lemma detail_node_fresh:
  assumes ok: "pmm_ok st Z" and a1: "allocated t sizeof_allocdetail MALLOC_MIN_ALIGN 0 d Z Z1"
  shows "datainfo_of d \<noteq> 0" "datainfo_of d \<notin> all_nodes Z1"
proof -
  have bo: "blocks_ok Z" using ok by (simp add: pmm_ok_def)
  note f1 = allocated_facts [OF bo a1]
  have "d \<le> d + 44" using f1(7) by (simp add: sizeof_allocdetail_def)
  note dr = detail_room [OF this]
  have r: "in_range d sizeof_allocdetail (datainfo_of d)"
    using dr by (simp add: in_range_def sizeof_allocdetail_def datainfo_of_def)
  show "datainfo_of d \<noteq> 0" using f1(4) [OF r] blocks_okD(2) [OF bo, of t] by auto
  show "datainfo_of d \<notin> all_nodes Z1"
    using unused_not_node [OF ok f1(5) [OF r]] dr(4) f1(8) by (auto simp: datainfo_of_def)
qed

lemma malloc_done_block:
  assumes ok: "pmm_ok st Z" and md: "malloc_done z sz al t d data Z Z'"
  shows "\<exists>b db. tracked Z' z b t db \<and> b_data b = data \<and> b_dataend b = data + sz \<and> b_node db = d"
proof -
  have bo: "blocks_ok Z" using ok by (simp add: pmm_ok_def)
  obtain Z1 where da: "detail_allocated t d Z Z1" and t: "tmp_zone t"
    and a1: "allocated t sizeof_allocdetail MALLOC_MIN_ALIGN 0 d Z Z1"
    and a2: "allocated z sz al (datainfo_of d) data Z1 Z'"
    using md by (auto simp: malloc_done_def detail_allocated_def)
  note f1 = allocated_facts [OF bo a1]
  note f2 = allocated_facts [OF f1(1) a2]
  note nz = detail_node_fresh(1) [OF ok a1]
  obtain e1 where e1: "\<lparr>b_node = d, b_data = d, b_dataend = d + sizeof_allocdetail, b_allocend = e1\<rparr> \<in> set (Z1 t)"
    using f1(10) by auto
  obtain e2 where e2: "\<lparr>b_node = datainfo_of d, b_data = data, b_dataend = data + sz, b_allocend = e2\<rparr> \<in> set (Z' z)"
    using f2(10) nz by auto
  have la: "l_alloc sz al (datainfo_of d) (Z1 z) = (data, Z' z)" "data \<noteq> 0" and eq: "Z' = Z1(z := Z' z)"
    using a2 by (auto simp: allocated_def)
  have "\<exists>db \<in> set (Z' t). b_node db = d \<and> detail_blk db"
  proof (cases "t = z")
    case False
    then have "Z' t = Z1 t" by (subst eq) simp
    then show ?thesis using e1 by (force simp: detail_blk_def)
  next
    case True
    obtain xs b ys where s: "Z1 z = xs @ b # ys" "Z' z = xs @ \<lparr>b_node = fill_of sz al (datainfo_of d) b,
        b_data = fit_pos sz al b, b_dataend = fit_pos sz al b + sz, b_allocend = b_allocend b\<rparr>
        # b\<lparr>b_allocend := fit_pos sz al b\<rparr> # ys"
      using l_alloc_split [of "Z1 z" sz al "datainfo_of d"] la by auto
    then show ?thesis using e1 True by (force simp: detail_blk_def)
  qed
  then obtain db where "db \<in> set (Z' t)" "b_node db = d" "detail_blk db" by blast
  then show ?thesis
    using e2 t f2(7)
    by (intro exI [of _ "\<lparr>b_node = datainfo_of d, b_data = data, b_dataend = data + sz, b_allocend = e2\<rparr>"]
        exI [of _ db]) (simp add: tracked_def)
qed

lemma tracked_data_not_node:
  assumes bo: "blocks_ok Z" and tr: "tracked Z z b t d"
  shows "b_data b \<noteq> b_node b"
proof
  assume e: "b_data b = b_node b"
  have d: "d \<in> set (Z t)" "detail_blk d" "b_node b = datainfo_of (b_node d)" "b \<in> set (Z z)" "b_data b < b_dataend b"
    using tr by (auto simp: tracked_def)
  have h: "hosts d (b_node b)" using d(2,3) by (simp add: hosts_def)
  note u = hosts_used [OF blocks_okD(1) [OF bo] d(1) h]
  have sb2: "b_node b < b_allocend b"
    using d(5) blk_in_zone(2) [OF blocks_okD(1) [OF bo] d(4)] e by order
  have sb: "spans (Z z) (b_node b)"
    unfolding spans_def by (rule bexI [OF _ d(4)]) (simp add: e sb2)
  have sd: "spans (Z t) (b_node b)" using used_spans [OF blocks_okD(1) [OF bo] u(3)] .
  have "z = t" using blocks_okD(3) [OF bo, of z t "b_node b"] sb sd by blast
  moreover have "b \<noteq> d"
  proof
    assume "b = d"
    then have "b_node b = datainfo_of (b_node b)" using d(3) by simp
    then show False by (simp add: datainfo_of_def)
  qed
  moreover have "b_node b < b_allocend d"
    using u(2) blk_in_zone(2) [OF blocks_okD(1) [OF bo] d(1)] by order
  ultimately show False
    using blk_separate [OF blocks_okD(1) [OF bo], of b z d "b_node b"] d(1,4) e sb2 u(1) by simp
qed

lemma pmm_free_steps:
  assumes ok: "pmm_ok st Z" and tr: "tracked Z z b t d"
  shows "pmm_free (b_data b) st = Some (0, freeSpace (b_node d) (freeSpace (b_node b) st))"
proof -
  have rep: "pmm_rep st Z" and bo: "blocks_ok Z" using ok by (auto simp: pmm_ok_def)
  have b: "b \<in> set (Z z)" "b_data b < b_dataend b" "b_node b = datainfo_of (b_node d)"
    using tr by (auto simp: tracked_def)
  have f: "findAlloc (b_data b) st = Some (b_node b)" by (rule findAlloc_used [OF rep bo b(1,2)])
  have "detail_of_datainfo (b_node b) = b_node d"
    by (simp add: b(3) detail_of_datainfo_def datainfo_of_def)
  moreover have "b_data b \<noteq> b_dataend b" using b(2) by simp
  moreover note rep_infos(1,3) [OF rep b(1)] tracked_data_not_node [OF bo tr]
  ultimately show ?thesis by (simp add: pmm_free_def f)
qed

text \<open>In a permanent zone an allocation fails only for want of room.\<close>

lemma malloc_failed_perm:
  "\<not> tmp_zone z \<Longrightarrow> malloc_failed z sz al Z \<Longrightarrow> no_detail_room Z \<or> (\<forall>b \<in> set (Z z). \<not> fits sz al b)"
  unfolding malloc_failed_def using detail_keeps_low
  by (metis detail_allocated_def)

lemma demo_malloc: "\<not> malloc_failed ZoneHigh 0x20 0x10 demo_zones"
proof
  assume "malloc_failed ZoneHigh 0x20 0x10 demo_zones"
  then have "no_detail_room demo_zones \<or> (\<forall>b \<in> set (demo_zones ZoneHigh). \<not> fits 0x20 0x10 b)"
    by (rule malloc_failed_perm [rotated]) (simp add: tmp_zone_def)
  then show False
    by (simp add: no_detail_room_def demo_zones_def fits_def fit_pos_def ALIGN_DOWN_def
        sizeof_allocdetail_def MALLOC_MIN_ALIGN_def)
qed

section \<open>Properties\<close>

text \<open>C3: \<open>pmm_malloc\<close> on a state that satisfies the allocator invariant returns, for a request of any zone
  but the low one, or of the low zone when a block there fits, so that the zone need not
  grow; the size and the alignment are not 0 and their sum is at most 4 GB. When it
  succeeds, the block is aligned, lies in the free space of the zone asked for, overlaps no
  block in use in any zone nor its own bookkeeping block, is recorded with the caller's handle,
  and exactly the two new blocks become used; when it fails, the blocks are as before and
  either no bookkeeping block could be had or none of the zone's blocks fits. The invariant is
  kept in both cases and byte memory is not written. A request that makes the low zone grow, which moves
  the EBDA and its cells in the BIOS data area, is outside this statement.\<close>

theorem pmm_malloc_correct:
  assumes "pmm_ok st Z" "size_ok sz al" "z \<noteq> ZoneLow \<or> (\<exists>b \<in> set (Z ZoneLow). fits sz al b)"
  shows "\<exists>data st' Z'. pmm_malloc tmp z h sz al st = Some (data, st') \<and> pmm_ok st' Z' \<and> mem st' = mem st
    \<and> (if data = 0 then Z' = Z \<and> handles st' = handles st \<and> malloc_failed z sz al Z
       else aligned data al
         \<and> (\<forall>a. in_range data sz a \<longrightarrow> spans (Z z) a \<and> (\<forall>y. \<not> used (Z y) a))
         \<and> (\<exists>t d. tmp_zone t \<and> handles st' = (handles st)(d := h)
              \<and> (\<forall>a. in_range data sz a \<longrightarrow> \<not> in_range d sizeof_allocdetail a)
              \<and> (\<forall>y a. used (Z' y) a \<longleftrightarrow> used (Z y) a \<or> y = t \<and> in_range d sizeof_allocdetail a
                   \<or> y = z \<and> in_range data sz a)))"
proof -
  have bo: "blocks_ok Z" using assms(1) by (simp add: pmm_ok_def)
  from pmm_malloc_cases [OF assms] obtain data st' Z' where m: "pmm_malloc tmp z h sz al st = Some (data, st')"
    "pmm_ok st' Z'" "mem st' = mem st"
    and f: "data = 0 \<longrightarrow> Z' = Z \<and> handles st' = handles st \<and> malloc_failed z sz al Z"
    and g: "data \<noteq> 0 \<longrightarrow> (\<exists>t d. malloc_done z sz al t d data Z Z' \<and> handles st' = (handles st)(d := h))"
    by blast
  show ?thesis
  proof (cases "data = 0")
    case True
    then show ?thesis using m f by auto
  next
    case False
    then obtain t d where md: "malloc_done z sz al t d data Z Z'" "handles st' = (handles st)(d := h)"
      using g by blast
    note x = malloc_done_facts [OF bo md(1)]
    show ?thesis
      using m False md(2) x(1,2,5-8)
      by (intro exI [of _ data] exI [of _ st'] exI [of _ Z'], simp add: False) blast
  qed
qed

lemma pmm_malloc_correct_witness:
  "\<exists>data st' Z'. pmm_malloc 0x6000 ZoneHigh 7 0x20 0x10 demo_pmm = Some (data, st') \<and> pmm_ok st' Z'
    \<and> mem st' = mem demo_pmm
    \<and> (if data = 0 then Z' = demo_zones \<and> handles st' = handles demo_pmm \<and> malloc_failed ZoneHigh 0x20 0x10 demo_zones
       else aligned data 0x10
         \<and> (\<forall>a. in_range data 0x20 a \<longrightarrow> spans (demo_zones ZoneHigh) a \<and> (\<forall>y. \<not> used (demo_zones y) a))
         \<and> (\<exists>t d. tmp_zone t \<and> handles st' = (handles demo_pmm)(d := 7)
              \<and> (\<forall>a. in_range data 0x20 a \<longrightarrow> \<not> in_range d sizeof_allocdetail a)
              \<and> (\<forall>y a. used (Z' y) a \<longleftrightarrow> used (demo_zones y) a \<or> y = t \<and> in_range d sizeof_allocdetail a
                   \<or> y = ZoneHigh \<and> in_range data 0x20 a)))"
  by (rule pmm_malloc_correct [OF demo_ok]) (simp_all add: size_ok_def)

text \<open>C9: For the same requests (of a zone other than the low one, or of the low one with a block there that
  fits, with size and alignment not 0 and at most 4 GB together), freeing what \<open>pmm_malloc\<close> returned
  succeeds and restores the block lists of every zone to what they were before the allocation, free
  space merged again. When the low zone had to grow, its bounds stay changed, and nothing is claimed.\<close>

theorem pmm_malloc_free:
  assumes "pmm_ok st Z" "size_ok sz al" "z \<noteq> ZoneLow \<or> (\<exists>b \<in> set (Z ZoneLow). fits sz al b)"
    and "pmm_malloc tmp z h sz al st = Some (data, st1)" "data \<noteq> 0"
  shows "\<exists>st2. pmm_free data st1 = Some (0, st2) \<and> pmm_ok st2 Z"
proof -
  have bo: "blocks_ok Z" using assms(1) by (simp add: pmm_ok_def)
  from pmm_malloc_cases [OF assms(1-3)] obtain Z' t d where ok1: "pmm_ok st1 Z'"
    and md: "malloc_done z sz al t d data Z Z'"
    using assms(4,5) by (metis (no_types, lifting) option.inject prod.inject)
  obtain b db where tr: "tracked Z' z b t db" "b_data b = data" "b_node db = d"
    using malloc_done_block [OF assms(1) md] by blast
  have fr: "pmm_free data st1 = Some (0, freeSpace d (freeSpace (datainfo_of d) st1))"
    using pmm_free_steps [OF ok1 tr(1)] tr by (simp add: tracked_def)
  obtain Z1 where da: "detail_allocated t d Z Z1"
    and a1: "allocated t sizeof_allocdetail MALLOC_MIN_ALIGN 0 d Z Z1"
    and a2: "allocated z sz al (datainfo_of d) data Z1 Z'"
    using md by (auto simp: malloc_done_def detail_allocated_def)
  note d = detail_node_fresh [OF assms(1) a1]
  have "pmm_rep (freeSpace (datainfo_of d) st1) Z1 \<and> links_only st1 (freeSpace (datainfo_of d) st1)"
    using d ok1 by (intro freeSpace_undo [OF _ allocated_facts(1) [OF bo a1] a2]) (auto simp: pmm_ok_def)
  moreover have "pmm_rep (freeSpace d st2) Z" if "pmm_rep st2 Z1" for st2 :: "'a pmm_scheme"
    by (rule freeSpace_undo [OF that bo a1, THEN conjunct1])
      (use allocated_facts(5) [OF bo a1] unused_not_node [OF assms(1)] in auto)
  ultimately show ?thesis using fr assms(1) by (auto simp: pmm_ok_def)
qed

lemma pmm_malloc_free_witness:
  "\<exists>data st1 st2. pmm_malloc 0x6000 ZoneHigh 7 0x20 0x10 demo_pmm = Some (data, st1)
     \<and> pmm_free data st1 = Some (0, st2) \<and> pmm_ok st2 demo_zones"
proof -
  have s: "size_ok 0x20 0x10" "ZoneHigh \<noteq> ZoneLow \<or> (\<exists>b \<in> set (demo_zones ZoneLow). fits 0x20 0x10 b)"
    by (simp_all add: size_ok_def)
  obtain data st1 where m: "pmm_malloc 0x6000 ZoneHigh 7 0x20 0x10 demo_pmm = Some (data, st1)" "data \<noteq> 0"
    using pmm_malloc_cases [OF demo_ok s, of "0x6000" 7] demo_malloc by blast
  with pmm_malloc_free [OF demo_ok s m] show ?thesis by auto
qed

text \<open>The state after both blocks of an allocation are released.\<close>

lemma free_both_ok:
  assumes ok: "pmm_ok st Z" and tr: "tracked Z z b t d"
  shows "\<exists>Z'. pmm_ok (freeSpace (b_node d) (freeSpace (b_node b) st)) Z'
    \<and> links_only st (freeSpace (b_node d) (freeSpace (b_node b) st))
    \<and> (\<forall>y a. used (Z' y) a \<longleftrightarrow> used (Z y) a \<and> \<not> (y = z \<and> b_data b \<le> a \<and> a < b_dataend b)
         \<and> \<not> (y = t \<and> in_range (b_node d) sizeof_allocdetail a))"
proof -
  have rep: "pmm_rep st Z" and bo: "blocks_ok Z" and h: "\<And>a. a \<in> all_nodes Z \<Longrightarrow> hosted Z a"
    using ok by (auto simp: pmm_ok_def)
  have b: "b \<in> set (Z z)" and d: "d \<in> set (Z t)" "detail_blk d" and n: "b_node b = datainfo_of (b_node d)"
    using tr by (auto simp: tracked_def)
  have ne: "b_node d \<noteq> b_node b" by (simp add: n datainfo_of_def)
  define Z1 where "Z1 = Z(z := l_free (b_node b) (Z z))"
  note r1 = release_facts [OF rep bo b, folded Z1_def]
  obtain d' where d': "d' \<in> set (Z1 t)" "b_node d' = b_node d" "b_data d' = b_data d" "b_dataend d' = b_dataend d"
    using r1(6) [OF d(1) ne] by auto
  define Z2 where "Z2 = Z1(t := l_free (b_node d') (Z1 t))"
  note r2 = release_facts [OF r1(1) r1(3) d'(1), folded Z2_def, unfolded d'(2)]
  have dd: "b_data d = b_node d" "b_dataend d = b_node d + sizeof_allocdetail"
    using d(2) by (auto simp: detail_blk_def)
  have hosted2: "hosted Z2 a" if "a \<in> all_nodes Z2" for a
  proof -
    have a: "a \<in> all_nodes Z" "a \<noteq> b_node b" "a \<noteq> b_node d"
      using that r2(5) r1(5) by auto
    obtain y c where c: "tmp_zone y" "c \<in> set (Z y)" "hosts c a"
      using h [OF a(1)] by (auto simp: hosted_def tmp_zone_def)
    have "b_node c \<noteq> b_node d" using c(3) a(2,3) n by (auto simp: hosts_def)
    moreover have "b_node c \<noteq> b_node b"
    proof
      assume e: "b_node c = b_node b"
      have "c = b"
      proof (cases "y = z")
        case True
        have "distinct (map b_node (Z z))" using rep unfolding pmm_rep_def nodes_ok_def by blast
        then show ?thesis using e b c(2) True by (metis distinct_map inj_onD)
      next
        case False
        then have "nodes (Z y) \<inter> nodes (Z z) = {}" using rep unfolding pmm_rep_def nodes_ok_def by metis
        then show ?thesis using e b c(2) by (metis IntI empty_iff imageI)
      qed
      then show False
        using tracked_data_not_node [OF bo tr] c(3) by (auto simp: hosts_def detail_blk_def)
    qed
    ultimately obtain c2 where "c2 \<in> set (Z2 y)" "b_node c2 = b_node c" "b_data c2 = b_data c" "b_dataend c2 = b_dataend c"
      using r1(6) [OF c(2)] r2(6) by metis
    then have "hosts c2 a" using c(3) by (auto simp: hosts_def detail_blk_def)
    moreover have "c2 \<in> set (Z2 ZoneTmpHigh) \<union> set (Z2 ZoneTmpLow)"
      using \<open>c2 \<in> set (Z2 y)\<close> c(1) by (auto simp: tmp_zone_def)
    ultimately show ?thesis unfolding hosted_def by blast
  qed
  have "pmm_ok (freeSpace (b_node d) (freeSpace (b_node b) st)) Z2"
    using r2(1,3) hosted2 by (simp add: pmm_ok_def)
  moreover have "links_only st (freeSpace (b_node d) (freeSpace (b_node b) st))"
    using links_only_trans [OF r1(2)] r2(2) by simp
  moreover have "used (Z2 y) a \<longleftrightarrow> used (Z y) a \<and> \<not> (y = z \<and> b_data b \<le> a \<and> a < b_dataend b)
         \<and> \<not> (y = t \<and> in_range (b_node d) sizeof_allocdetail a)" for y a
    using r2(4) [of y a] r1(4) [of y a] d'(3,4) dd by (auto simp: in_range_def)
  ultimately show ?thesis by blast
qed

text \<open>\<open>pmm_free\<close> of an allocated block returns 0, releases the block and its bookkeeping
  block and nothing else, writes no byte memory, and keeps the allocator invariant.\<close>

theorem pmm_free_correct:
  assumes "pmm_ok st Z" "tracked Z z b t d"
  shows "\<exists>st' Z'. pmm_free (b_data b) st = Some (0, st') \<and> pmm_ok st' Z' \<and> mem st' = mem st
    \<and> (\<forall>y a. used (Z' y) a \<longleftrightarrow> used (Z y) a \<and> \<not> (y = z \<and> b_data b \<le> a \<and> a < b_dataend b)
         \<and> \<not> (y = t \<and> in_range (b_node d) sizeof_allocdetail a))"
  using pmm_free_steps [OF assms] free_both_ok [OF assms] by auto

definition demo_block :: blk where
  "demo_block = \<lparr>b_node = 0x1f84, b_data = 0x3ff0, b_dataend = 0x4000, b_allocend = 0x4000\<rparr>"

definition demo_detail :: blk where
  "demo_detail = \<lparr>b_node = 0x1f70, b_data = 0x1f70, b_dataend = 0x1f9c, b_allocend = 0x1fa0\<rparr>"

lemma demo_tracked: "tracked demo_zones ZoneHigh demo_block ZoneTmpHigh demo_detail"
  by (simp add: tracked_def demo_block_def demo_detail_def demo_zones_def tmp_zone_def detail_blk_def
      sizeof_allocdetail_def datainfo_of_def)

lemma pmm_free_correct_witness:
  "\<exists>st' Z'. pmm_free 0x3ff0 demo_pmm = Some (0, st') \<and> pmm_ok st' Z' \<and> mem st' = mem demo_pmm
    \<and> (\<forall>y a. used (Z' y) a \<longleftrightarrow> used (demo_zones y) a \<and> \<not> (y = ZoneHigh \<and> 0x3ff0 \<le> a \<and> a < 0x4000)
         \<and> \<not> (y = ZoneTmpHigh \<and> in_range 0x1f70 sizeof_allocdetail a))"
  using pmm_free_correct [OF demo_ok demo_tracked] by (simp add: demo_block_def demo_detail_def)

lemma pmm_free_bad:
  assumes "pmm_ok st Z"
    and "\<And>z b. b \<in> set (Z z) \<Longrightarrow> b_data b = data \<Longrightarrow> b_node b = data \<or> b_dataend b = data"
  shows "pmm_free data st = Some (-1, st)"
proof -
  have rep: "pmm_rep st Z" using assms(1) by (simp add: pmm_ok_def)
  let ?f = "find (\<lambda>b. b_data b = data) (concat (map Z Zones))"
  show ?thesis
  proof (cases ?f)
    case None
    then show ?thesis by (simp add: pmm_free_def findAlloc_rep [OF rep])
  next
    case (Some b)
    then have "b \<in> set (concat (map Z Zones))" "b_data b = data"
      unfolding find_Some_iff by (metis nth_mem)+
    then obtain z where "b \<in> set (Z z)" "b_data b = data" by auto
    then have "data = b_node b \<or> data = ai_dataend (infos st (b_node b))"
      using assms(2) [of b z] rep_infos(3) [OF rep, of b z] by auto
    then show ?thesis using Some by (auto simp: pmm_free_def findAlloc_rep [OF rep])
  qed
qed

text \<open>\<open>pmm_free\<close> refuses an address that is not the start of an allocated block: an unknown
  address, the empty block at the bottom of a region, and a bookkeeping block give -1 and leave
  the state as it is.\<close>

theorem pmm_free_rejects:
  assumes "pmm_ok st Z"
    and "\<And>z b. b \<in> set (Z z) \<Longrightarrow> b_data b = data \<Longrightarrow> b_node b = data \<or> b_dataend b = data"
  shows "pmm_free data st = Some (-1, st)"
  by (rule pmm_free_bad [OF assms])

lemma pmm_free_rejects_witness: "pmm_free 0x3000 demo_pmm = Some (-1, demo_pmm)"
proof (rule pmm_free_rejects [OF demo_ok])
  fix z b assume "b \<in> set (demo_zones z)" "b_data b = 0x3000"
  then show "b_node b = 0x3000 \<or> b_dataend b = 0x3000" by (cases z) (auto simp: demo_zones_def)
qed

lemma fits_align1: "sz \<noteq> 0 \<Longrightarrow> b_dataend b \<le> b_allocend b \<Longrightarrow> fits sz 1 b \<longleftrightarrow> sz \<le> b_allocend b - b_dataend b"
proof -
  assume a: "sz \<noteq> 0" "b_dataend b \<le> b_allocend b"
  have "ALIGN_DOWN x 1 = x" for x :: u32 by (simp add: ALIGN_DOWN_def)
  then have "fits sz 1 b \<longleftrightarrow> b_dataend b \<le> b_allocend b - sz \<and> b_allocend b - sz \<le> b_allocend b"
    by (simp add: fits_def fit_pos_def)
  also have "\<dots> \<longleftrightarrow> sz \<le> b_allocend b - b_dataend b" using a by uint_arith
  finally show ?thesis .
qed

text \<open>\<open>pmm_getspace\<close> of a permanent zone is exact: a block of a given size can be had at
  byte alignment if and only if it is no larger than the space reported; of a temporary zone it
  reports 48 bytes less, the room of the bookkeeping block, and never wraps below zero.\<close>

theorem pmm_getspace_correct:
  assumes "pmm_ok st Z"
  shows "\<exists>m. pmm_getspace z st = Some (if tmp_zone z then (if m \<le> 48 then 0 else m - 48) else m)
    \<and> (\<forall>sz. sz \<noteq> 0 \<longrightarrow> sz \<le> m \<longleftrightarrow> (\<exists>b \<in> set (Z z). fits sz 1 b))"
proof -
  have zr: "zone_rep st z (Z z)" and wf: "zone_wf (Z z)"
    using assms blocks_okD(1) by (auto simp: pmm_ok_def pmm_rep_def)
  let ?m = "free_max (Z z)"
  have "ALIGN sizeof_allocdetail MALLOC_MIN_ALIGN = 48"
    by (simp add: ALIGN_def sizeof_allocdetail_def MALLOC_MIN_ALIGN_def)
  then have g: "pmm_getspace z st = Some (if tmp_zone z then (if ?m \<le> 48 then 0 else ?m - 48) else ?m)"
    by (simp add: pmm_getspace_def getspace_rep [OF zr] tmp_zone_def)
  have "sz \<le> ?m \<longleftrightarrow> (\<exists>b \<in> set (Z z). fits sz 1 b)" if "sz \<noteq> 0" for sz
  proof
    assume le: "sz \<le> ?m"
    then have "?m \<noteq> 0" using that by auto
    then obtain b where "b \<in> set (Z z)" "b_allocend b - b_dataend b = ?m"
      using free_max_spec(2) by blast
    then show "\<exists>b \<in> set (Z z). fits sz 1 b"
      using le fits_align1 [OF that] blk_in_zone(2) [OF wf] by metis
  next
    assume "\<exists>b \<in> set (Z z). fits sz 1 b"
    then show "sz \<le> ?m"
      using fits_align1 [OF that] blk_in_zone(2) [OF wf] free_max_spec(1) by (metis order.trans)
  qed
  with g show ?thesis by blast
qed

lemma pmm_getspace_correct_witness:
  "\<exists>m. pmm_getspace ZoneTmpHigh demo_pmm = Some (if tmp_zone ZoneTmpHigh then (if m \<le> 48 then 0 else m - 48) else m)
    \<and> (\<forall>sz. sz \<noteq> 0 \<longrightarrow> sz \<le> m \<longleftrightarrow> (\<exists>b \<in> set (demo_zones ZoneTmpHigh). fits sz 1 b))"
  by (rule pmm_getspace_correct [OF demo_ok])

text \<open>After an allocation under a handle that no bookkeeping block carries, \<open>pmm_find\<close>
  returns the address of the new block for that handle, and before it returns 0.\<close>

theorem pmm_find_after_malloc:
  assumes "pmm_ok st Z" "size_ok sz al" "z \<noteq> ZoneLow \<or> (\<exists>b \<in> set (Z ZoneLow). fits sz al b)"
    and "pmm_malloc tmp z h sz al st = Some (data, st1)" "data \<noteq> 0"
    and "\<And>y b. b \<in> set (Z y) \<Longrightarrow> handles st (b_node b) \<noteq> h"
  shows "pmm_find h st = Some 0 \<and> pmm_find h st1 = Some data"
proof -
  have bo: "blocks_ok Z" and rep: "pmm_rep st Z" using assms(1) by (auto simp: pmm_ok_def)
  from pmm_malloc_cases [OF assms(1-3)] obtain Z' t d where ok1: "pmm_ok st1 Z'"
    and md: "malloc_done z sz al t d data Z Z'" and hd: "handles st1 = (handles st)(d := h)"
    using assms(4,5) by (metis (no_types, lifting) option.inject prod.inject)
  have rep1: "pmm_rep st1 Z'" using ok1 by (simp add: pmm_ok_def)
  obtain b db where tr: "tracked Z' z b t db" "b_data b = data" "b_node db = d"
    using malloc_done_block [OF assms(1) md] by blast
  obtain Z1 where a1: "allocated t sizeof_allocdetail MALLOC_MIN_ALIGN 0 d Z Z1"
    and a2: "allocated z sz al (datainfo_of d) data Z1 Z'"
    using md by (auto simp: malloc_done_def detail_allocated_def)
  note f1 = allocated_facts [OF bo a1] and f2 = allocated_facts [OF allocated_facts(1) [OF bo a1] a2]
  have nodes: "all_nodes Z' \<subseteq> insert (datainfo_of d) (insert d (all_nodes Z))"
    using f1(8) f2(8) detail_node_fresh(1) [OF assms(1) a1] by auto
  have "pmm_find h st1 = Some (b_data b)"
  proof (rule pmm_find_unique [OF rep1 tr(1)])
    show "handles st1 (b_node db) = h" using hd tr(3) by simp
    fix y c assume c: "c \<in> set (Z' y)" "is_detail c" "handles st1 (b_node c) = h"
    show "b_node c = b_node db"
    proof (rule ccontr)
      assume n: "b_node c \<noteq> b_node db"
      have "b_node c \<in> all_nodes Z'" using c(1) by (auto simp: all_nodes_def)
      then consider "b_node c = datainfo_of d" | "b_node c \<in> all_nodes Z" using nodes n tr(3) by auto
      then show False
      proof cases
        case 1
        then have "b_node c = b_node b" using tr(1,3) by (simp add: tracked_def)
        moreover have "b \<in> set (Z' z)" using tr(1) by (simp add: tracked_def)
        ultimately have "c = b"
          using c(1) rep1 unfolding pmm_rep_def nodes_ok_def
          by (metis (no_types, lifting) IntI distinct_map empty_iff imageI inj_onD)
        then show False
          using c(2) tracked_data_not_node [OF _ tr(1)] ok1 by (simp add: is_detail_def pmm_ok_def)
      next
        case 2
        then obtain y e where "e \<in> set (Z y)" "b_node c = b_node e" by (auto simp: all_nodes_def)
        then have "handles st (b_node c) \<noteq> h" using assms(6) by simp
        then show False using c(3) hd n tr(3) by simp
      qed
    qed
  qed
  then show ?thesis using tr(2) pmm_find_none [OF rep] assms(6) by auto
qed

lemma pmm_find_after_malloc_witness:
  "\<exists>data st1. pmm_malloc 0x6000 ZoneHigh 7 0x20 0x10 demo_pmm = Some (data, st1)
     \<and> pmm_find 7 demo_pmm = Some 0 \<and> pmm_find 7 st1 = Some data"
proof -
  have s: "size_ok 0x20 0x10" "ZoneHigh \<noteq> ZoneLow \<or> (\<exists>b \<in> set (demo_zones ZoneLow). fits 0x20 0x10 b)"
    by (simp_all add: size_ok_def)
  obtain data st1 where m: "pmm_malloc 0x6000 ZoneHigh 7 0x20 0x10 demo_pmm = Some (data, st1)" "data \<noteq> 0"
    using pmm_malloc_cases [OF demo_ok s, of "0x6000" 7] demo_malloc by blast
  have h: "handles demo_pmm a \<noteq> 7" for a
    by (simp add: demo_pmm_def PMM_DEFAULT_HANDLE_def)
  show ?thesis using pmm_find_after_malloc [where h = 7, OF demo_ok s m, simplified h] m(1) by blast
qed

section \<open>Sequences of allocations\<close>

text \<open>A client of an allocator: requests served one after the other.\<close>

fun alloc_all :: "('r \<Rightarrow> 's \<Rightarrow> (u32 \<times> 's) option) \<Rightarrow> 'r list \<Rightarrow> 's \<Rightarrow> (u32 list \<times> 's) option" where
  "alloc_all alloc [] s = Some ([], s)"
| "alloc_all alloc (r # rs) s =
     (case alloc r s of
        None \<Rightarrow> None
      | Some (d, s) \<Rightarrow> map_option (\<lambda>(ds, s). (d # ds, s)) (alloc_all alloc rs s))"

text \<open>The contract of an allocator: it returns, keeps its invariant, takes only addresses that
  are not in use, and gives nothing back.\<close>

locale allocator =
  fixes inv :: "'s \<Rightarrow> 'z \<Rightarrow> bool"
    and inuse :: "'z \<Rightarrow> u32 \<Rightarrow> bool"
    and alloc :: "'r \<Rightarrow> 's \<Rightarrow> (u32 \<times> 's) option"
    and req_size :: "'r \<Rightarrow> u32"
    and req_ok :: "'r \<Rightarrow> bool"
  assumes alloc_law: "inv s Z \<Longrightarrow> req_ok r \<Longrightarrow> \<exists>d s' Z'. alloc r s = Some (d, s') \<and> inv s' Z'
    \<and> (\<forall>a. inuse Z a \<longrightarrow> inuse Z' a)
    \<and> (d \<noteq> 0 \<longrightarrow> (\<forall>a. in_range d (req_size r) a \<longrightarrow> \<not> inuse Z a \<and> inuse Z' a))"
begin

lemma alloc_all_disjoint:
  "inv s Z \<Longrightarrow> \<forall>r \<in> set rs. req_ok r \<Longrightarrow>
   \<exists>ds s' Z'. alloc_all alloc rs s = Some (ds, s') \<and> inv s' Z' \<and> length ds = length rs
     \<and> (\<forall>i < length ds. ds ! i \<noteq> 0 \<longrightarrow> (\<forall>a. in_range (ds ! i) (req_size (rs ! i)) a \<longrightarrow>
           \<not> inuse Z a \<and> inuse Z' a))
     \<and> (\<forall>a. inuse Z a \<longrightarrow> inuse Z' a)
     \<and> (\<forall>j < length ds. \<forall>i < j. ds ! i \<noteq> 0 \<longrightarrow> ds ! j \<noteq> 0 \<longrightarrow>
          (\<forall>a. in_range (ds ! i) (req_size (rs ! i)) a \<longrightarrow> \<not> in_range (ds ! j) (req_size (rs ! j)) a))"
proof (induction rs arbitrary: s Z)
  case Nil
  then show ?case by auto
next
  case (Cons r rs)
  obtain d s1 Z1 where 1: "alloc r s = Some (d, s1)" "inv s1 Z1" "\<forall>a. inuse Z a \<longrightarrow> inuse Z1 a"
    "d \<noteq> 0 \<longrightarrow> (\<forall>a. in_range d (req_size r) a \<longrightarrow> \<not> inuse Z a \<and> inuse Z1 a)"
    using alloc_law [OF Cons.prems(1), of r] Cons.prems(2) by auto
  obtain ds s2 Z2 where 2: "alloc_all alloc rs s1 = Some (ds, s2)" "inv s2 Z2" "length ds = length rs"
    "\<forall>i < length ds. ds ! i \<noteq> 0 \<longrightarrow> (\<forall>a. in_range (ds ! i) (req_size (rs ! i)) a \<longrightarrow>
        \<not> inuse Z1 a \<and> inuse Z2 a)" "\<forall>a. inuse Z1 a \<longrightarrow> inuse Z2 a"
    "\<forall>j < length ds. \<forall>i < j. ds ! i \<noteq> 0 \<longrightarrow> ds ! j \<noteq> 0 \<longrightarrow>
        (\<forall>a. in_range (ds ! i) (req_size (rs ! i)) a \<longrightarrow> \<not> in_range (ds ! j) (req_size (rs ! j)) a)"
    using Cons.IH [OF 1(2)] Cons.prems(2) by auto
  have fresh: "\<not> inuse Z a \<and> inuse Z2 a"
    if "i < length (d # ds)" "(d # ds) ! i \<noteq> 0" "in_range ((d # ds) ! i) (req_size ((r # rs) ! i)) a" for i a
    using that 1(3,4) 2(4,5) by (cases i) auto
  have disj: "\<not> in_range ((d # ds) ! j) (req_size ((r # rs) ! j)) a"
    if h: "j < length (d # ds)" "i < j" "(d # ds) ! i \<noteq> 0" "(d # ds) ! j \<noteq> 0"
      "in_range ((d # ds) ! i) (req_size ((r # rs) ! i)) a" for i j a
  proof (cases i)
    case 0
    obtain j' where "j = Suc j'" using h(2) by (cases j) auto
    then show ?thesis using h 0 1(4) 2(4) by auto
  next
    case (Suc i')
    obtain j' where "j = Suc j'" using h(2) by (cases j) auto
    then show ?thesis using h Suc 2(6) by auto
  qed
  have "alloc_all alloc (r # rs) s = Some (d # ds, s2)" using 1(1) 2(1) by simp
  moreover have "\<forall>a. inuse Z a \<longrightarrow> inuse Z2 a" using 1(3) 2(5) by blast
  moreover have "length (d # ds) = length (r # rs)" using 2(3) by simp
  ultimately show ?case using 2(2) fresh disj by blast
qed

end

record malloc_req =
  rq_zone :: zone
  rq_handle :: u32
  rq_size :: u32
  rq_align :: u32

definition malloc_one :: "u32 \<Rightarrow> malloc_req \<Rightarrow> 'a pmm_scheme \<Rightarrow> (u32 \<times> 'a pmm_scheme) option" where
  "malloc_one tmp r st = pmm_malloc tmp (rq_zone r) (rq_handle r) (rq_size r) (rq_align r) st"

definition malloc_req_ok :: "malloc_req \<Rightarrow> bool" where
  "malloc_req_ok r \<longleftrightarrow> rq_zone r \<noteq> ZoneLow \<and> size_ok (rq_size r) (rq_align r)"

definition in_use :: "(zone \<Rightarrow> blk list) \<Rightarrow> u32 \<Rightarrow> bool" where
  "in_use Z a \<longleftrightarrow> (\<exists>z. used (Z z) a)"

interpretation pmm_alloc: allocator pmm_ok in_use "malloc_one tmp" rq_size malloc_req_ok for tmp
proof
  fix s :: "'a pmm_scheme" and Z r
  assume ok: "pmm_ok s Z" and r: "malloc_req_ok r"
  have bo: "blocks_ok Z" using ok by (simp add: pmm_ok_def)
  have "size_ok (rq_size r) (rq_align r)" "rq_zone r \<noteq> ZoneLow \<or> (\<exists>b \<in> set (Z ZoneLow). fits (rq_size r) (rq_align r) b)"
    using r by (auto simp: malloc_req_ok_def)
  from pmm_malloc_cases [OF ok this, of tmp "rq_handle r"] obtain d s' Z' where
    m: "malloc_one tmp r s = Some (d, s')" "pmm_ok s' Z'"
    and f: "d = 0 \<longrightarrow> Z' = Z"
    and g: "d \<noteq> 0 \<longrightarrow> (\<exists>t e. malloc_done (rq_zone r) (rq_size r) (rq_align r) t e d Z Z')"
    unfolding malloc_one_def by blast
  have "(\<forall>a. in_use Z a \<longrightarrow> in_use Z' a)
    \<and> (d \<noteq> 0 \<longrightarrow> (\<forall>a. in_range d (rq_size r) a \<longrightarrow> \<not> in_use Z a \<and> in_use Z' a))"
  proof (cases "d = 0")
    case False
    then obtain t e where "malloc_done (rq_zone r) (rq_size r) (rq_align r) t e d Z Z'" using g by blast
    note x = malloc_done_facts [OF bo this]
    show ?thesis unfolding in_use_def using x(6,8) by blast
  qed (use f in auto)
  with m show "\<exists>d s' Z'. malloc_one tmp r s = Some (d, s') \<and> pmm_ok s' Z'
    \<and> (\<forall>a. in_use Z a \<longrightarrow> in_use Z' a)
    \<and> (d \<noteq> 0 \<longrightarrow> (\<forall>a. in_range d (rq_size r) a \<longrightarrow> \<not> in_use Z a \<and> in_use Z' a))"
    by blast
qed

text \<open>Any sequence of \<open>pmm_malloc\<close> requests, over any mix of zones other than the low one,
  sizes and alignments, runs to its end, and the blocks it hands out are pairwise disjoint and
  disjoint from everything in use before.\<close>

theorem pmm_malloc_sequence:
  assumes "pmm_ok st Z" "\<forall>r \<in> set rs. malloc_req_ok r"
  shows "\<exists>ds st' Z'. alloc_all (malloc_one tmp) rs st = Some (ds, st') \<and> pmm_ok st' Z'
    \<and> length ds = length rs
    \<and> (\<forall>i < length ds. ds ! i \<noteq> 0 \<longrightarrow> (\<forall>a. in_range (ds ! i) (rq_size (rs ! i)) a \<longrightarrow> \<not> in_use Z a))
    \<and> (\<forall>j < length ds. \<forall>i < j. ds ! i \<noteq> 0 \<longrightarrow> ds ! j \<noteq> 0 \<longrightarrow>
          (\<forall>a. in_range (ds ! i) (rq_size (rs ! i)) a \<longrightarrow> \<not> in_range (ds ! j) (rq_size (rs ! j)) a))"
proof -
  obtain ds st' Z' where "alloc_all (malloc_one tmp) rs st = Some (ds, st')" "pmm_ok st' Z'"
    "length ds = length rs"
    and f: "\<forall>i < length ds. ds ! i \<noteq> 0 \<longrightarrow> (\<forall>a. in_range (ds ! i) (rq_size (rs ! i)) a \<longrightarrow>
        \<not> in_use Z a \<and> in_use Z' a)"
    and d: "\<forall>j < length ds. \<forall>i < j. ds ! i \<noteq> 0 \<longrightarrow> ds ! j \<noteq> 0 \<longrightarrow>
          (\<forall>a. in_range (ds ! i) (rq_size (rs ! i)) a \<longrightarrow> \<not> in_range (ds ! j) (rq_size (rs ! j)) a)"
    using pmm_alloc.alloc_all_disjoint [OF assms, of tmp] by (elim exE conjE) rule
  moreover have "\<forall>i < length ds. ds ! i \<noteq> 0 \<longrightarrow> (\<forall>a. in_range (ds ! i) (rq_size (rs ! i)) a \<longrightarrow> \<not> in_use Z a)"
    using f by simp
  ultimately show ?thesis
    by (intro exI [of _ ds] exI [of _ st'] exI [of _ Z'] conjI)
qed

lemma pmm_malloc_sequence_witness:
  "\<exists>ds st' Z'. alloc_all (malloc_one 0x6000) [\<lparr>rq_zone = ZoneHigh, rq_handle = 1, rq_size = 0x20, rq_align = 0x10\<rparr>,
      \<lparr>rq_zone = ZoneTmpHigh, rq_handle = 2, rq_size = 100, rq_align = 0x100\<rparr>] demo_pmm = Some (ds, st')
    \<and> pmm_ok st' Z' \<and> length ds = 2"
  using pmm_malloc_sequence [OF demo_ok, of "[\<lparr>rq_zone = ZoneHigh, rq_handle = 1, rq_size = 0x20, rq_align = 0x10\<rparr>,
      \<lparr>rq_zone = ZoneTmpHigh, rq_handle = 2, rq_size = 100, rq_align = 0x100\<rparr>]" "0x6000"]
  by (force simp: malloc_req_ok_def size_ok_def)

section \<open>The PMM interface\<close>

lemma ffs_bit:
  assumes "x \<noteq> 0"
  shows "bit x (ffs x)" "ffs x < 32" "m < ffs x \<Longrightarrow> \<not> bit x m"
proof -
  have "\<exists>n < 32. bit x n"
  proof (rule ccontr)
    assume n: "\<not> ?thesis"
    have "x = 0"
    proof (rule bit_word_eqI)
      fix n assume "n < LENGTH(32)"
      then show "bit x n = bit 0 n" using n by simp
    qed
    then show False using assms by simp
  qed
  then have "find (bit x) [0..<32] \<noteq> None" by (auto simp: find_None_iff)
  then obtain n where f: "find (bit x) [0..<32] = Some n" by blast
  then have n: "n < 32" "bit x n" "\<And>m. m < n \<Longrightarrow> \<not> bit x m"
    by (auto simp: find_Some_iff)
  moreover have "ffs x = n" using f by (simp add: ffs_def)
  ultimately show "bit x (ffs x)" "ffs x < 32" "m < ffs x \<Longrightarrow> \<not> bit x m" by auto
qed

lemma sint_pos_bound: "0 < sint (x :: u32) \<Longrightarrow> unat x < 2147483648 \<and> x \<noteq> 0"
proof -
  assume p: "0 < sint x"
  then have nz: "x \<noteq> 0" by auto
  have "sint x = uint x - 4294967296 * of_bool (bit (uint x) 31)"
    using uint_bounded [of x]
    by (simp add: sint_uint signed_take_bit_eq_take_bit_minus take_bit_eq_mod mod_pos_pos_trivial)
  moreover have "uint x < 4294967296" using uint_bounded [of x] by simp
  ultimately have "sint x = int (unat x)" using p by (cases "bit (uint x) 31") simp_all
  moreover have "sint x < 2147483648" using sint_lt [of x] by simp
  ultimately have "int (unat x) < int 2147483648" by simp
  then have "unat x < 2147483648" by (simp only: of_nat_less_iff)
  then show ?thesis using nz by simp
qed

lemma pmm00_align_spec:
  assumes "0 < sint sz" "al = pmm00_align flags sz"
  shows "size_ok sz al \<and> (\<exists>n < 32. unat al = 2 ^ n) \<and> 16 \<le> al
    \<and> (flags AND 4 \<noteq> 0 \<longrightarrow> al = (if ffs sz < 4 then 16 else push_bit (ffs sz) 1) \<and> bit sz (ffs sz)
         \<and> (\<forall>m < ffs sz. \<not> bit sz m))"
proof -
  note b = sint_pos_bound [OF assms(1)]
  have nz: "sz \<noteq> 0" using b by simp
  note f = ffs_bit [OF nz]
  let ?p = "push_bit (ffs sz) 1 :: u32"
  have p: "unat ?p = 2 ^ ffs sz" using f(2) by (rule unat_push_bit_1)
  have lt: "?p < 16 \<longleftrightarrow> ffs sz < 4"
  proof -
    have "?p < 16 \<longleftrightarrow> (2 :: nat) ^ ffs sz < 2 ^ 4" using p by (simp add: word_less_nat_alt)
    then show ?thesis using power_strict_increasing_iff [of "2 :: nat" "ffs sz" 4] by simp
  qed
  have al: "al = (if flags AND 4 \<noteq> 0 then if ffs sz < 4 then 16 else ?p else 16)"
    using lt assms(2) by (simp add: pmm00_align_def MALLOC_MIN_ALIGN_def Let_def)
  have "unat ?p < 2147483648" using bit_le [of sz "ffs sz"] f(1) b p by simp
  then have "unat al < 2147483648" using al by auto
  moreover have "al \<noteq> 0 \<and> (\<exists>n < 32. unat al = 2 ^ n) \<and> 16 \<le> al"
  proof (cases "flags AND 4 \<noteq> 0 \<and> \<not> ffs sz < 4")
    case True
    then have "al = ?p" "16 \<le> ?p" using al lt by auto
    moreover have "?p \<noteq> 0" using p by (metis power_not_zero unsigned_0 zero_neq_numeral)
    moreover have "unat al = 2 ^ ffs sz" using p \<open>al = ?p\<close> by simp
    ultimately show ?thesis using f(2) by auto
  next
    case False
    then have "al = 16" using al by auto
    then show ?thesis by (auto intro: exI [of _ 4])
  qed
  ultimately show ?thesis using b al f by (auto simp: size_ok_def)
qed

lemma pmm00_size_ok: "0 < sint sz \<Longrightarrow> size_ok sz (pmm00_align flags sz)"
  using pmm00_align_spec by blast

text \<open>The alignment \<open>handle_pmm00\<close> picks is a power of two from 16 bytes to the size asked
  for (or 16); for an aligned request it is the largest power of two that divides the size,
  unless that is below 16; and with every size the handler lets through the position
  arithmetic of \<open>allocSpace\<close> cannot wrap around unnoticed.\<close>

theorem pmm00_align_correct:
  assumes "0 < sint sz" "al = pmm00_align flags sz"
  shows "size_ok sz al \<and> (\<exists>n < 32. unat al = 2 ^ n) \<and> 16 \<le> al
    \<and> (flags AND 4 \<noteq> 0 \<longrightarrow> al = (if ffs sz < 4 then 16 else push_bit (ffs sz) 1) \<and> bit sz (ffs sz)
         \<and> (\<forall>m < ffs sz. \<not> bit sz m))"
  by (rule pmm00_align_spec [OF assms])

lemma pmm00_align_correct_witness:
  "size_ok 0x60 0x20 \<and> (\<exists>n < 32. unat (0x20 :: u32) = 2 ^ n) \<and> (16 :: u32) \<le> 0x20"
proof -
  have f: "ffs 0x60 = 5" by (simp add: ffs_def upt_rec)
  have "(0x20 :: u32) = pmm00_align 5 0x60"
    unfolding pmm00_align_def f by (simp add: MALLOC_MIN_ALIGN_def)
  then show ?thesis using pmm00_align_correct [of "0x60" "0x20" 5] by simp
qed

text \<open>\<open>pmm_free\<close> of any address whatever keeps the invariant: a block in use that is not a
  bookkeeping block is always one that \<open>pmm_malloc\<close> handed out or a region added with its own
  bookkeeping block.\<close>

lemma used_block_tracked:
  assumes ok: "pmm_ok st Z" and b: "b \<in> set (Z z)" "b_data b < b_dataend b" "b_node b \<noteq> b_data b"
  shows "\<exists>t d. tracked Z z b t d"
proof -
  have rep: "pmm_rep st Z" and "b_node b \<in> all_nodes Z" using ok b by (auto simp: pmm_ok_def all_nodes_def)
  then have "hosted Z (b_node b)" using ok by (auto simp: pmm_ok_def)
  then obtain t d where d: "tmp_zone t" "d \<in> set (Z t)" "hosts d (b_node b)"
    by (auto simp: hosted_def tmp_zone_def)
  have "b_node b \<noteq> b_node d"
  proof
    assume e: "b_node b = b_node d"
    then have "b = d" using rep b(1) d(2) unfolding pmm_rep_def nodes_ok_def
      by (metis (no_types, lifting) IntI distinct_map empty_iff imageI inj_onD)
    then show False using d(3) b(3) by (simp add: hosts_def detail_blk_def)
  qed
  then show ?thesis using b d by (auto simp: tracked_def hosts_def)
qed

lemma pmm_free_safe:
  assumes ok: "pmm_ok st Z"
  shows "\<exists>r st' Z'. pmm_free data st = Some (r, st') \<and> pmm_ok st' Z' \<and> mem st' = mem st"
proof (cases "\<exists>z b. b \<in> set (Z z) \<and> b_data b = data \<and> b_data b < b_dataend b \<and> b_node b \<noteq> b_data b")
  case True
  then obtain z b where b: "b \<in> set (Z z)" "b_data b = data" "b_data b < b_dataend b" "b_node b \<noteq> b_data b"
    by blast
  then obtain t d where "tracked Z z b t d" using used_block_tracked [OF ok] by blast
  then show ?thesis using pmm_free_steps [OF ok, of z b t d] free_both_ok [OF ok, of z b t d] b(2) by auto
next
  case False
  have bo: "blocks_ok Z" using ok by (simp add: pmm_ok_def)
  have all: "b_node b = data \<or> b_dataend b = data" if "b \<in> set (Z z)" "b_data b = data" for z b
    using False that blk_in_zone(1) [OF blocks_okD(1) [OF bo] that(1)] by force
  have "pmm_free data st = Some (-1, st)" by (rule pmm_free_bad [OF ok all])
  then show ?thesis using ok by blast
qed

lemma u16_small_cases:
  fixes x :: u16
  obtains "x = 0" | "x = 1" | "x = 2" | "2 < x"
proof -
  have "\<not> 2 < x \<Longrightarrow> x = 0 \<or> x = 1 \<or> x = 2"
    by (simp add: word_less_nat_alt word_unat_eq_iff) linarith
  then show thesis using that by blast
qed

text \<open>C39: every call of the PMM entry point on a state that satisfies the allocator invariant
  returns and keeps it, whatever function number, length, handle, flags and address the option
  ROM passes (requests for the permanent low zone apart, which may move the EBDA); function
  numbers above 2 are refused with 0xffffffff and change nothing.\<close>

theorem handle_pmm_safe:
  assumes "pmm_ok st Z" "args 5 AND 8 = 0 \<or> args 5 AND 3 \<in> {0, 2} \<or> args 0 \<noteq> 0"
  shows "\<exists>r st' Z'. handle_pmm tmp args st = Some (r, st') \<and> pmm_ok st' Z'
    \<and> (2 < args 0 \<longrightarrow> r = 0xffffffff \<and> st' = st)"
proof -
  have safe: "\<exists>d st' Z'. pmm_malloc tmp z h sz (pmm00_align f sz) st0 = Some (d, st') \<and> pmm_ok st' Z'"
    if "pmm_ok st0 Z0" "z \<noteq> ZoneLow" "0 < sint sz" for st0 :: "'a pmm_scheme" and Z0 z h sz f
  proof -
    have "size_ok sz (pmm00_align f sz)" using pmm00_size_ok [OF that(3)] .
    then show ?thesis using pmm_malloc_cases [OF that(1), of sz "pmm00_align f sz" z tmp h] that(2) by blast
  qed
  have space: "\<exists>r. pmm_getspace z st = Some r" for z
  proof -
    have "zone_rep st z (Z z)" using assms(1) by (simp add: pmm_ok_def pmm_rep_def)
    then show ?thesis by (simp add: pmm_getspace_def getspace_rep Let_def)
  qed
  have find: "\<exists>r. pmm_find h st = Some r" for h
    using assms(1) pmm_find_zones_rep [of st Z] by (auto simp: pmm_find_def pmm_ok_def)
  consider "args 0 = 0" | "args 0 = 1" | "args 0 = 2" | "2 < args 0" by (rule u16_small_cases)
  then show ?thesis
  proof cases
    case 1
    have low: "fst (pmm00_zones (args 5)) \<noteq> ZoneLow \<or> args 5 AND 3 \<in> {0, 2}"
      and high: "snd (pmm00_zones (args 5)) \<noteq> ZoneLow"
      using assms(2) 1 by (auto simp: pmm00_zones_def)
    obtain lz hz where lh: "pmm00_zones (args 5) = (lz, hz)" by force
    let ?sz = "args32 args 1 * 16"
    have "\<exists>r st' Z'. handle_pmm00 tmp args st = Some (r, st') \<and> pmm_ok st' Z'"
    proof (cases "args32 args 1 = 0 \<or> sint ?sz \<le> 0")
      case True
      obtain r1 r2 where "pmm_getspace lz st = Some r1" "pmm_getspace hz st = Some r2"
        using space by blast
      then show ?thesis using True assms(1) lh by (auto simp: handle_pmm00_def Let_def)
    next
      case False
      then have pos: "0 < sint ?sz" by simp
      note s = safe [OF _ _ pos, of _ _ _ "args32 args 3" "args 5"]
      have h: "\<exists>d st' Z'. pmm_malloc tmp hz (args32 args 3) ?sz (pmm00_align (args 5) ?sz) st0 = Some (d, st') \<and> pmm_ok st' Z'"
        if "pmm_ok st0 Z0" for st0 :: "'a pmm_scheme" and Z0
        using s [OF that, of hz] high lh by simp
      have l: "\<exists>d st' Z'. pmm_malloc tmp lz (args32 args 3) ?sz (pmm00_align (args 5) ?sz) st = Some (d, st') \<and> pmm_ok st' Z'"
        if "args 5 AND 3 \<notin> {0, 2}"
        using s [OF assms(1), of lz] low lh that by simp
      consider "args 5 AND 3 = 1" | "args 5 AND 3 = 2" | "args 5 AND 3 = 3" | "args 5 AND 3 \<notin> {1, 2, 3}" by blast
      then show ?thesis
      proof cases
        case 1
        then show ?thesis using l False lh by (simp add: handle_pmm00_def Let_def)
      next
        case 2
        then show ?thesis using h [OF assms(1)] False lh by (simp add: handle_pmm00_def Let_def)
      next
        case 3
        then obtain d st1 Z1 where 1: "pmm_malloc tmp lz (args32 args 3) ?sz (pmm00_align (args 5) ?sz) st = Some (d, st1)"
          "pmm_ok st1 Z1" using l by auto
        then show ?thesis
          using h [OF 1(2)] False lh 3 by (cases "d = 0") (auto simp: handle_pmm00_def Let_def)
      next
        case 4
        then show ?thesis using assms(1) False lh by (auto simp: handle_pmm00_def Let_def)
      qed
    qed
    then show ?thesis using 1 by (simp add: handle_pmm_def CONFIG_PMM_def)
  next
    case 2
    obtain r where "pmm_find (args32 args 1) st = Some r" using find by blast
    then show ?thesis using 2 assms(1) by (auto simp: handle_pmm_def handle_pmm01_def CONFIG_PMM_def Let_def)
  next
    case 3
    obtain r st' Z' where "pmm_free (args32 args 1) st = Some (r, st')" "pmm_ok st' Z'"
      using pmm_free_safe [OF assms(1)] by blast
    then show ?thesis using 3 by (auto simp: handle_pmm_def handle_pmm02_def CONFIG_PMM_def)
  next
    case 4
    then have "args 0 \<noteq> 0" "args 0 \<noteq> 1" "args 0 \<noteq> 2" by auto
    then show ?thesis
      using assms(1) by (auto simp: handle_pmm_def handle_pmmXX_def CONFIG_PMM_def PMM_FUNCTION_NOT_SUPPORTED_def)
  qed
qed

lemma handle_pmm_safe_witness:
  "\<exists>r st' Z'. handle_pmm 0x6000 (\<lambda>i. if i = 1 then 4 else if i = 5 then 3 else 0) demo_pmm = Some (r, st')
     \<and> pmm_ok st' Z'"
  using handle_pmm_safe [OF demo_ok, of "\<lambda>i. if i = 1 then 4 else if i = 5 then 3 else 0" "0x6000"] by auto

end
