(* ===== verification/UtilSpec.thy ===== *)
theory UtilSpec
  imports Util
begin

text \<open>The properties of the string and memory routines of \<open>src/util.c\<close>.\<close>

text \<open>\<open>memmove\<close> copies correctly also when the ranges overlap, in both directions and
  through both copy paths (bytes, and words when everything is 4-byte aligned): afterwards the
  target range holds the old contents of the source range and no other byte is changed.\<close>

theorem memmove_correct:
  assumes "unat d + unat len \<le> 2 ^ 32" "unat s + unat len \<le> 2 ^ 32"
  shows "snd (memmove d s len m) a = (if unat (a - d) < unat len then m (s + (a - d)) else m a)"
  by (simp only: memmove_copied [OF assms] copied_def)

lemma memmove_correct_witness:
  "snd (memmove 0x1002 0x1000 8 ucast) 0x1004 = 2 \<and> snd (memmove 0x1000 0x1004 8 ucast) 0x1001 = 5"
  using memmove_correct [of "0x1002" 8 "0x1000" ucast "0x1004"]
    memmove_correct [of "0x1000" 8 "0x1004" ucast "0x1001"] by simp

text \<open>\<open>memcpy\<close> and \<open>iomemcpy\<close> agree and copy correctly whenever the target does not start
  inside the source range: the word loop, the 2048-byte chunks and the byte tail together move
  every byte once.\<close>

theorem memcpy_iomemcpy_correct:
  assumes "d = s \<or> unat len \<le> unat (d - s)"
  shows "memcpy d s len m = copied d s (unat len) m \<and> iomemcpy d s len m = copied d s (unat len) m"
  using assms by (simp add: memcpy_copied iomemcpy_copied)

lemma memcpy_iomemcpy_correct_witness:
  "memcpy 0x3000 0x1000 4099 ucast = copied 0x3000 0x1000 4099 ucast
   \<and> iomemcpy 0x3000 0x1000 4099 ucast = copied 0x3000 0x1000 4099 ucast"
  using memcpy_iomemcpy_correct [of "0x3000" "0x1000" 4099 ucast] by simp

text \<open>The checksum idiom of the firmware tables: adding the complement of a range's
  checksum into any byte of the range makes the checksum of the range 0.\<close>

theorem checksum_makes_zero:
  assumes "unat (c - p) < unat len"
  shows "checksum (m(c := m c - checksum m p len)) p len = 0"
  by (rule checksum_fixed [OF assms])

lemma checksum_makes_zero_witness:
  "checksum ((ucast :: memory)(0x1008 := ucast (0x1008 :: u32) - checksum ucast 0x1000 36)) 0x1000 36 = 0"
  by (rule checksum_makes_zero) simp

text \<open>\<open>strtcpy\<close> of a string leaves in the target the longest prefix that fits with its
  terminator, and writes no byte past it; a length of 0 is excluded, for which the count wraps
  around.\<close>

theorem strtcpy_correct:
  assumes "cstr m src s" "0 < len" "d = src \<or> min (length s) (unat len - 1) < unat (d - src)"
  shows "cstr (strtcpy d src len m) d (take (unat len - 1) s)
    \<and> (\<forall>a. unat (a - d) > min (length s) (unat len - 1) \<longrightarrow> strtcpy d src len m a = m a)"
  using strtcpy_cstr [OF assms] by blast

definition hello :: memory where
  "hello = (\<lambda>_. 0)(0x1000 := 72, 0x1001 := 101, 0x1002 := 108, 0x1003 := 108, 0x1004 := 111, 0x1005 := 32)"

lemma strtcpy_correct_witness:
  "cstr (strtcpy 0x2000 0x1000 4 hello) 0x2000 [72, 101, 108]
   \<and> strtcpy 0x2000 0x1000 4 hello 0x2004 = 0"
  using strtcpy_correct [of hello "0x1000" "[72, 101, 108, 108, 111, 32]" 4 "0x2000"]
  by (simp add: hello_def)

text \<open>\<open>nullTrailingSpace\<close> returns on every terminated string and leaves it without its
  trailing blanks: the longest prefix whose last character has a \<open>char\<close> value above 32. As
  \<open>char\<close> is signed this strips control characters and bytes from 0x80 up as well, not only
  spaces and line ends.\<close>

theorem nullTrailingSpace_correct:
  assumes "cstr m a s" "length s < 4294967296"
  shows "\<exists>m'. nullTrailingSpace a m = Some m' \<and> cstr m' a (rstrip s)"
  by (rule nullTrailingSpace_cstr [OF assms])

lemma nullTrailingSpace_correct_witness:
  "(\<exists>m'. nullTrailingSpace 0x1000 hello = Some m' \<and> cstr m' 0x1000 (rstrip [72, 101, 108, 108, 111, 32]))
   \<and> rstrip [72, 101, 108, 108, 111, 32] = [72, 101, 108, 108, 111]"
  using nullTrailingSpace_correct [of hello "0x1000" "[72, 101, 108, 108, 111, 32]"]
  by (simp add: hello_def rstrip_def char_val_def)

text \<open>On terminated strings \<open>strcmp\<close> returns, with 0 exactly when they are equal, and
  \<open>strlen\<close> returns the length.\<close>

theorem strcmp_strlen_correct:
  assumes "cstr m a s" "cstr m b t"
  shows "(\<exists>r. strcmp m a b = Some r \<and> (r = 0 \<longleftrightarrow> s = t)) \<and> strlen m a = Some (of_nat (length s))"
  using strcmp_cstr [OF assms] strlen_cstr [OF assms(1)] by blast

lemma strcmp_strlen_correct_witness:
  "(\<exists>r. strcmp hello 0x1000 0x1003 = Some r \<and> r \<noteq> 0) \<and> strlen hello 0x1000 = Some 6"
  using strcmp_strlen_correct [of hello "0x1000" "[72, 101, 108, 108, 111, 32]" "0x1003" "[108, 111, 32]"]
  by (simp add: hello_def)

end
