(* ===== verification/Kbd.thy ===== *)
theory Kbd
  imports Machine
begin

text \<open>
  The keyboard services of \<open>src/kbd.c\<close>: the ring buffer of the BIOS data area, the INT 16h
  handlers, and the translation of scancodes to keystrokes. All state is in the BIOS data area,
  so an operation maps a machine to a machine.

  \<open>dequeue_key\<close> with \<open>incr\<close> waits for an interrupt while the buffer is empty; the result
  \<open>None\<close> stands for this wait. \<open>reset_vector()\<close> does not return; \<open>process_key\<close> reports it
  by the flag of its result. The keyboard command (USB or PS/2) is the parameter \<open>kbd_command\<close>:
  it takes the command and the parameter bytes, and returns the code, the bytes and the machine.
  \<open>yield\<close> and \<open>dprintf\<close> are left out; \<open>KEYBOARD\<close> and \<open>KBD_CALL_INT15_4F\<close> are on, and the
  call of the INT 15h intercept is the parameter \<open>int15_4f\<close>, which takes the key and
  returns the carry flag and the key.
\<close>

section \<open>Flags\<close>

definition KF0_RSHIFT :: u8 where "KF0_RSHIFT = 1"
definition KF0_LSHIFT :: u8 where "KF0_LSHIFT = 2"
definition KF0_CTRLACTIVE :: u8 where "KF0_CTRLACTIVE = 4"
definition KF0_ALTACTIVE :: u8 where "KF0_ALTACTIVE = 8"
definition KF0_SCROLLACTIVE :: u8 where "KF0_SCROLLACTIVE = 16"
definition KF0_NUMACTIVE :: u8 where "KF0_NUMACTIVE = 32"
definition KF0_CAPSACTIVE :: u8 where "KF0_CAPSACTIVE = 64"

definition KF1_LCTRL :: u8 where "KF1_LCTRL = 1"
definition KF1_LALT :: u8 where "KF1_LALT = 2"
definition KF1_SCROLL :: u8 where "KF1_SCROLL = 16"
definition KF1_NUM :: u8 where "KF1_NUM = 32"
definition KF1_CAPS :: u8 where "KF1_CAPS = 64"

definition KF2_LAST_E1 :: u8 where "KF2_LAST_E1 = 1"
definition KF2_LAST_E0 :: u8 where "KF2_LAST_E0 = 2"
definition KF2_RCTRL :: u8 where "KF2_RCTRL = 4"
definition KF2_RALT :: u8 where "KF2_RALT = 8"
definition KF2_101KBD :: u8 where "KF2_101KBD = 16"

lemmas kbd_flags = KF0_RSHIFT_def KF0_LSHIFT_def KF0_CTRLACTIVE_def KF0_ALTACTIVE_def
  KF0_SCROLLACTIVE_def KF0_NUMACTIVE_def KF0_CAPSACTIVE_def KF1_LCTRL_def KF1_LALT_def
  KF1_SCROLL_def KF1_NUM_def KF1_CAPS_def KF2_LAST_E1_def KF2_LAST_E0_def KF2_RCTRL_def
  KF2_RALT_def KF2_101KBD_def

section \<open>The key buffer\<close>

definition kbd_setup :: "'a machine_scheme \<Rightarrow> 'a machine_scheme" where
  "kbd_setup st =
     (let x = ucast bda_kbd_buf;
          st = set_bda8 bda_kbd_flag2 KF2_101KBD st;
          st = set_bda16 bda_kbd_buf_head x st;
          st = set_bda16 bda_kbd_buf_tail x st;
          st = set_bda16 bda_kbd_buf_start_offset x st
      in set_bda16 bda_kbd_buf_end_offset (x + 32) st)"

definition enqueue_key :: "u8 \<Rightarrow> u8 \<Rightarrow> 'a machine_scheme \<Rightarrow> u8 \<times> 'a machine_scheme" where
  "enqueue_key scan_code ascii_code st =
     (let buffer_start = bda16 bda_kbd_buf_start_offset st;
          buffer_end = bda16 bda_kbd_buf_end_offset st;
          buffer_head = bda16 bda_kbd_buf_head st;
          temp_tail = bda16 bda_kbd_buf_tail st;
          buffer_tail = temp_tail + 2;
          buffer_tail = (if buffer_tail \<ge> buffer_end then buffer_start else buffer_tail)
      in if buffer_tail = buffer_head then (0, st)
         else
           let st = set_bda8 (ucast temp_tail) ascii_code st;
               st = set_bda8 (ucast temp_tail + 1) scan_code st
           in (1, set_bda16 bda_kbd_buf_tail buffer_tail st))"

definition dequeue_key ::
  "bool \<Rightarrow> bool \<Rightarrow> bregs \<Rightarrow> 'a machine_scheme \<Rightarrow> (bregs \<times> 'a machine_scheme) option" where
  "dequeue_key incr extended regs st =
     (let buffer_head = bda16 bda_kbd_buf_head st;
          buffer_tail = bda16 bda_kbd_buf_tail st in
      if buffer_head = buffer_tail then
        (if \<not> incr then Some (set_zf True regs, st) else None)
      else
        let ascii_code = bda8 (ucast buffer_head) st;
            scan_code = bda8 (ucast buffer_head + 1) st;
            ascii_code = (if ascii_code = 0xF0 \<and> scan_code \<noteq> 0 \<or> ascii_code = 0xE0 \<and> \<not> extended
                          then 0 else ascii_code);
            regs = set_ax (push_bit 8 (ucast scan_code) OR ucast ascii_code) regs in
        if \<not> incr then Some (set_zf False regs, st)
        else
          let buffer_start = bda16 bda_kbd_buf_start_offset st;
              buffer_end = bda16 bda_kbd_buf_end_offset st;
              buffer_head = buffer_head + 2;
              buffer_head = (if buffer_head \<ge> buffer_end then buffer_start else buffer_head)
          in Some (regs, set_bda16 bda_kbd_buf_head buffer_head st))"

section \<open>INT 16h\<close>

type_synonym 'a kbd_cmd = "u16 \<Rightarrow> u8 list \<Rightarrow> 'a machine_scheme \<Rightarrow> int \<times> u8 list \<times> 'a machine_scheme"

definition ATKBD_CMD_SETLEDS :: u16 where "ATKBD_CMD_SETLEDS = 0x10ed"
definition ATKBD_CMD_GETID :: u16 where "ATKBD_CMD_GETID = 0x02f2"

definition handle_1600 :: "bregs \<Rightarrow> 'a machine_scheme \<Rightarrow> (bregs \<times> 'a machine_scheme) option" where
  "handle_1600 regs st = dequeue_key True False regs st"

definition handle_1601 :: "bregs \<Rightarrow> 'a machine_scheme \<Rightarrow> (bregs \<times> 'a machine_scheme) option" where
  "handle_1601 regs st = dequeue_key False False regs st"

definition handle_1602 :: "bregs \<Rightarrow> 'a machine_scheme \<Rightarrow> bregs" where
  "handle_1602 regs st = set_al (bda8 bda_kbd_flag0 st) regs"

definition handle_1605 :: "bregs \<Rightarrow> 'a machine_scheme \<Rightarrow> bregs \<times> 'a machine_scheme" where
  "handle_1605 regs st =
     (case enqueue_key (CH regs) (CL regs) st of
        (ok, st) \<Rightarrow> (set_al (if ok = 0 then 1 else 0) regs, st))"

definition handle_1609 :: "bregs \<Rightarrow> bregs" where
  "handle_1609 regs = set_al 0x30 regs"

definition handle_160a :: "'a kbd_cmd \<Rightarrow> bregs \<Rightarrow> 'a machine_scheme \<Rightarrow> bregs \<times> 'a machine_scheme" where
  "handle_160a kbd_command regs st =
     (case kbd_command ATKBD_CMD_GETID [0, 0] st of
        (ret, param, st) \<Rightarrow>
          (if ret \<noteq> 0 then set_bx 0 regs
           else set_bx (push_bit 8 (ucast (param ! 1)) OR ucast (param ! 0)) regs, st))"

definition handle_1610 :: "bregs \<Rightarrow> 'a machine_scheme \<Rightarrow> (bregs \<times> 'a machine_scheme) option" where
  "handle_1610 regs st = dequeue_key True True regs st"

definition handle_1611 :: "bregs \<Rightarrow> 'a machine_scheme \<Rightarrow> (bregs \<times> 'a machine_scheme) option" where
  "handle_1611 regs st = dequeue_key False True regs st"

definition handle_1612 :: "bregs \<Rightarrow> 'a machine_scheme \<Rightarrow> bregs" where
  "handle_1612 regs st =
     set_ah ((bda8 bda_kbd_flag1 st AND NOT (KF2_RCTRL OR KF2_RALT))
             OR (bda8 bda_kbd_flag2 st AND (KF2_RCTRL OR KF2_RALT)))
       (set_al (bda8 bda_kbd_flag0 st) regs)"

definition handle_166f :: "bregs \<Rightarrow> bregs" where
  "handle_166f regs = (if AL regs = 8 then set_ah 2 regs else regs)"

definition handle_1692 :: "bregs \<Rightarrow> bregs" where
  "handle_1692 regs = set_ah 0x80 regs"

definition handle_16a2 :: "bregs \<Rightarrow> bregs" where
  "handle_16a2 regs = regs"

text \<open>\<open>warn_unimplemented\<close> only prints.\<close>

definition handle_16XX :: "bregs \<Rightarrow> bregs" where
  "handle_16XX regs = regs"

definition set_leds :: "'a kbd_cmd \<Rightarrow> 'a machine_scheme \<Rightarrow> 'a machine_scheme" where
  "set_leds kbd_command st =
     (let shift_flags = drop_bit 4 (bda8 bda_kbd_flag0 st) AND 7;
          kbd_led = bda8 bda_kbd_led st;
          led_flags = kbd_led AND 7 in
      if shift_flags = led_flags then st
      else case kbd_command ATKBD_CMD_SETLEDS [shift_flags] st of
        (ret, param, st) \<Rightarrow>
          if ret \<noteq> 0 then st
          else set_bda8 bda_kbd_led ((kbd_led AND NOT 7) OR param ! 0) st)"

definition handle_16 :: "'a kbd_cmd \<Rightarrow> bregs \<Rightarrow> 'a machine_scheme \<Rightarrow> (bregs \<times> 'a machine_scheme) option" where
  "handle_16 kbd_command regs st =
     (let st = set_leds kbd_command st; ah = AH regs in
      if ah = 0x00 then handle_1600 regs st
      else if ah = 0x01 then handle_1601 regs st
      else if ah = 0x02 then Some (handle_1602 regs st, st)
      else if ah = 0x05 then Some (handle_1605 regs st)
      else if ah = 0x09 then Some (handle_1609 regs, st)
      else if ah = 0x0a then Some (handle_160a kbd_command regs st)
      else if ah = 0x10 then handle_1610 regs st
      else if ah = 0x11 then handle_1611 regs st
      else if ah = 0x12 then Some (handle_1612 regs st, st)
      else if ah = 0x92 then Some (handle_1692 regs, st)
      else if ah = 0xa2 then Some (handle_16a2 regs, st)
      else if ah = 0x6f then Some (handle_166f regs, st)
      else Some (handle_16XX regs, st))"

section \<open>Scancodes\<close>

record scaninfo =
  si_normal :: u16
  si_shift :: u16
  si_control :: u16
  si_alt :: u16
  si_lock_flags :: u8

definition scan :: "u16 \<Rightarrow> u16 \<Rightarrow> u16 \<Rightarrow> u16 \<Rightarrow> u8 \<Rightarrow> scaninfo" where
  "scan n s c a l = \<lparr>si_normal = n, si_shift = s, si_control = c, si_alt = a, si_lock_flags = l\<rparr>"

definition scan_to_scanascii :: "scaninfo list" where
  "scan_to_scanascii = [
    scan 0 0 0 0 0,
    scan 0x011b 0x011b 0x011b 0x0100 0,
    scan 0x0231 0x0221 0 0x7800 0,
    scan 0x0332 0x0340 0x0300 0x7900 0,
    scan 0x0433 0x0423 0 0x7a00 0,
    scan 0x0534 0x0524 0 0x7b00 0,
    scan 0x0635 0x0625 0 0x7c00 0,
    scan 0x0736 0x075e 0x071e 0x7d00 0,
    scan 0x0837 0x0826 0 0x7e00 0,
    scan 0x0938 0x092a 0 0x7f00 0,
    scan 0x0a39 0x0a28 0 0x8000 0,
    scan 0x0b30 0x0b29 0 0x8100 0,
    scan 0x0c2d 0x0c5f 0x0c1f 0x8200 0,
    scan 0x0d3d 0x0d2b 0 0x8300 0,
    scan 0x0e08 0x0e08 0x0e7f 0 0,
    scan 0x0f09 0x0f00 0 0 0,
    scan 0x1071 0x1051 0x1011 0x1000 KF0_CAPSACTIVE,
    scan 0x1177 0x1157 0x1117 0x1100 KF0_CAPSACTIVE,
    scan 0x1265 0x1245 0x1205 0x1200 KF0_CAPSACTIVE,
    scan 0x1372 0x1352 0x1312 0x1300 KF0_CAPSACTIVE,
    scan 0x1474 0x1454 0x1414 0x1400 KF0_CAPSACTIVE,
    scan 0x1579 0x1559 0x1519 0x1500 KF0_CAPSACTIVE,
    scan 0x1675 0x1655 0x1615 0x1600 KF0_CAPSACTIVE,
    scan 0x1769 0x1749 0x1709 0x1700 KF0_CAPSACTIVE,
    scan 0x186f 0x184f 0x180f 0x1800 KF0_CAPSACTIVE,
    scan 0x1970 0x1950 0x1910 0x1900 KF0_CAPSACTIVE,
    scan 0x1a5b 0x1a7b 0x1a1b 0 0,
    scan 0x1b5d 0x1b7d 0x1b1d 0 0,
    scan 0x1c0d 0x1c0d 0x1c0a 0 0,
    scan 0 0 0 0 0,
    scan 0x1e61 0x1e41 0x1e01 0x1e00 KF0_CAPSACTIVE,
    scan 0x1f73 0x1f53 0x1f13 0x1f00 KF0_CAPSACTIVE,
    scan 0x2064 0x2044 0x2004 0x2000 KF0_CAPSACTIVE,
    scan 0x2166 0x2146 0x2106 0x2100 KF0_CAPSACTIVE,
    scan 0x2267 0x2247 0x2207 0x2200 KF0_CAPSACTIVE,
    scan 0x2368 0x2348 0x2308 0x2300 KF0_CAPSACTIVE,
    scan 0x246a 0x244a 0x240a 0x2400 KF0_CAPSACTIVE,
    scan 0x256b 0x254b 0x250b 0x2500 KF0_CAPSACTIVE,
    scan 0x266c 0x264c 0x260c 0x2600 KF0_CAPSACTIVE,
    scan 0x273b 0x273a 0 0 0,
    scan 0x2827 0x2822 0 0 0,
    scan 0x2960 0x297e 0 0 0,
    scan 0 0 0 0 0,
    scan 0x2b5c 0x2b7c 0x2b1c 0 0,
    scan 0x2c7a 0x2c5a 0x2c1a 0x2c00 KF0_CAPSACTIVE,
    scan 0x2d78 0x2d58 0x2d18 0x2d00 KF0_CAPSACTIVE,
    scan 0x2e63 0x2e43 0x2e03 0x2e00 KF0_CAPSACTIVE,
    scan 0x2f76 0x2f56 0x2f16 0x2f00 KF0_CAPSACTIVE,
    scan 0x3062 0x3042 0x3002 0x3000 KF0_CAPSACTIVE,
    scan 0x316e 0x314e 0x310e 0x3100 KF0_CAPSACTIVE,
    scan 0x326d 0x324d 0x320d 0x3200 KF0_CAPSACTIVE,
    scan 0x332c 0x333c 0 0 0,
    scan 0x342e 0x343e 0 0 0,
    scan 0x352f 0x353f 0 0 0,
    scan 0 0 0 0 0,
    scan 0x372a 0x372a 0 0 0,
    scan 0 0 0 0 0,
    scan 0x3920 0x3920 0x3920 0x3920 0,
    scan 0 0 0 0 0,
    scan 0x3b00 0x5400 0x5e00 0x6800 0,
    scan 0x3c00 0x5500 0x5f00 0x6900 0,
    scan 0x3d00 0x5600 0x6000 0x6a00 0,
    scan 0x3e00 0x5700 0x6100 0x6b00 0,
    scan 0x3f00 0x5800 0x6200 0x6c00 0,
    scan 0x4000 0x5900 0x6300 0x6d00 0,
    scan 0x4100 0x5a00 0x6400 0x6e00 0,
    scan 0x4200 0x5b00 0x6500 0x6f00 0,
    scan 0x4300 0x5c00 0x6600 0x7000 0,
    scan 0x4400 0x5d00 0x6700 0x7100 0,
    scan 0 0 0 0 0,
    scan 0 0 0 0 0,
    scan 0x4700 0x4737 0x7700 0 KF0_NUMACTIVE,
    scan 0x4800 0x4838 0 0 KF0_NUMACTIVE,
    scan 0x4900 0x4939 0x8400 0 KF0_NUMACTIVE,
    scan 0x4a2d 0x4a2d 0 0 0,
    scan 0x4b00 0x4b34 0x7300 0 KF0_NUMACTIVE,
    scan 0x4c00 0x4c35 0 0 KF0_NUMACTIVE,
    scan 0x4d00 0x4d36 0x7400 0 KF0_NUMACTIVE,
    scan 0x4e2b 0x4e2b 0 0 0,
    scan 0x4f00 0x4f31 0x7500 0 KF0_NUMACTIVE,
    scan 0x5000 0x5032 0 0 KF0_NUMACTIVE,
    scan 0x5100 0x5133 0x7600 0 KF0_NUMACTIVE,
    scan 0x5200 0x5230 0 0 KF0_NUMACTIVE,
    scan 0x5300 0x532e 0 0 KF0_NUMACTIVE,
    scan 0 0 0 0 0,
    scan 0 0 0 0 0,
    scan 0x565c 0x567c 0 0 0,
    scan 0x8500 0x8700 0x8900 0x8b00 0,
    scan 0x8600 0x8800 0x8a00 0x8c00 0
  ]"

text \<open>The body of the \<open>switch\<close> for a key press that is not a modifier.\<close>

definition key_ascii :: "u8 \<Rightarrow> u8 \<Rightarrow> u8 \<Rightarrow> scaninfo \<Rightarrow> u8 \<times> u8" where
  "key_ascii flags0 flags2 scancode info =
     (let pair = (\<lambda>w :: u16. (ucast (drop_bit 8 w), ucast w)) in
      if flags0 AND KF0_ALTACTIVE \<noteq> 0 then pair (si_alt info)
      else if flags0 AND KF0_CTRLACTIVE \<noteq> 0 then pair (si_control info)
      else if flags2 AND KF2_LAST_E0 \<noteq> 0 \<and> scancode \<ge> 0x47 \<and> scancode \<le> 0x53 then
        (ucast (drop_bit 8 (si_normal info)), 0xe0)
      else if flags0 AND (KF0_RSHIFT OR KF0_LSHIFT) \<noteq> 0 then
        (if flags0 AND si_lock_flags info \<noteq> 0 then pair (si_normal info) else pair (si_shift info))
      else
        (if flags0 AND si_lock_flags info \<noteq> 0 then pair (si_shift info) else pair (si_normal info)))"

text \<open>A scancode either ends the handler early (\<open>Inl\<close>; the flag is \<open>reset_vector()\<close>), or goes on
  to store the three flag bytes (\<open>Inr\<close>).\<close>

definition key_press ::
  "u8 \<Rightarrow> u8 \<Rightarrow> u8 \<Rightarrow> u8 \<Rightarrow> 'a machine_scheme
   \<Rightarrow> (bool \<times> 'a machine_scheme) + ((u8 \<times> u8 \<times> u8) \<times> 'a machine_scheme)" where
  "key_press scancode flags0 flags1 flags2 st =
     (if scancode AND 0x80 \<noteq> 0 then Inr ((flags0, flags1, flags2), st)
      else if scancode = 0x53
              \<and> flags0 AND (KF0_CTRLACTIVE OR KF0_ALTACTIVE) = KF0_CTRLACTIVE OR KF0_ALTACTIVE then
        Inl (True, set_bda16 bda_soft_reset_flag 0x1234 st)
      else if unat scancode \<ge> length scan_to_scanascii then Inl (False, st)
      else
        case key_ascii flags0 flags2 scancode (scan_to_scanascii ! unat scancode) of
          (scancode, asciicode) \<Rightarrow>
            Inr ((flags0, flags1, flags2), snd (enqueue_key scancode asciicode st)))"

definition key_switch ::
  "u8 \<Rightarrow> u8 \<Rightarrow> u8 \<Rightarrow> u8 \<Rightarrow> 'a machine_scheme
   \<Rightarrow> (bool \<times> 'a machine_scheme) + ((u8 \<times> u8 \<times> u8) \<times> 'a machine_scheme)" where
  "key_switch scancode f0 f1 f2 st =
     (let e0 = f2 AND KF2_LAST_E0 \<noteq> 0 in
      if scancode = 0x00 then Inl (False, st)
      else if scancode = 0x3a then Inr ((f0 XOR KF0_CAPSACTIVE, f1 OR KF1_CAPS, f2), st)
      else if scancode = 0xba then Inr ((f0, f1 AND NOT KF1_CAPS, f2), st)
      else if scancode = 0x2a then Inr ((f0 OR KF0_LSHIFT, f1, f2), st)
      else if scancode = 0xaa then Inr ((f0 AND NOT KF0_LSHIFT, f1, f2), st)
      else if scancode = 0x36 then Inr ((f0 OR KF0_RSHIFT, f1, f2), st)
      else if scancode = 0xb6 then Inr ((f0 AND NOT KF0_RSHIFT, f1, f2), st)
      else if scancode = 0x1d then
        Inr ((f0 OR KF0_CTRLACTIVE, if e0 then f1 else f1 OR KF1_LCTRL,
              if e0 then f2 OR KF2_RCTRL else f2), st)
      else if scancode = 0x9d then
        Inr ((f0 AND NOT KF0_CTRLACTIVE, if e0 then f1 else f1 AND NOT KF1_LCTRL,
              if e0 then f2 AND NOT KF2_RCTRL else f2), st)
      else if scancode = 0x38 then
        Inr ((f0 OR KF0_ALTACTIVE, if e0 then f1 else f1 OR KF1_LALT,
              if e0 then f2 OR KF2_RALT else f2), st)
      else if scancode = 0xb8 then
        Inr ((f0 AND NOT KF0_ALTACTIVE, if e0 then f1 else f1 AND NOT KF1_LALT,
              if e0 then f2 AND NOT KF2_RALT else f2), st)
      else if scancode = 0x45 then Inr ((f0 XOR KF0_NUMACTIVE, f1 OR KF1_NUM, f2), st)
      else if scancode = 0xc5 then Inr ((f0, f1 AND NOT KF1_NUM, f2), st)
      else if scancode = 0x46 then Inr ((f0 XOR KF0_SCROLLACTIVE, f1 OR KF1_SCROLL, f2), st)
      else if scancode = 0xc6 then Inr ((f0, f1 AND NOT KF1_SCROLL, f2), st)
      else if scancode = 0xe0 then Inl (False, set_bda8 bda_kbd_flag2 (f2 OR KF2_LAST_E0) st)
      else if scancode = 0xe1 then Inr ((f0, f1, f2 OR KF2_LAST_E1), st)
      else key_press scancode f0 f1 f2 st)"

text \<open>\<open>__process_key\<close>.\<close>

definition process_key_inner :: "u8 \<Rightarrow> 'a machine_scheme \<Rightarrow> bool \<times> 'a machine_scheme" where
  "process_key_inner scancode st =
     (let flags0 = bda8 bda_kbd_flag0 st;
          flags1 = bda8 bda_kbd_flag1 st;
          flags2 = bda8 bda_kbd_flag2 st in
      if flags2 AND KF2_LAST_E1 \<noteq> 0 then
        (if scancode AND NOT 0x80 = 0x1d then (False, st)
         else (False, set_bda8 bda_kbd_flag2 (flags2 AND NOT KF2_LAST_E1) st))
      else
        case key_switch scancode flags0 flags1 flags2 st of
          Inl r \<Rightarrow> r
        | Inr ((flags0, flags1, flags2), st) \<Rightarrow>
            let flags2 = flags2 AND NOT KF2_LAST_E0;
                st = set_bda8 bda_kbd_flag0 flags0 st;
                st = set_bda8 bda_kbd_flag1 flags1 st
            in (False, set_bda8 bda_kbd_flag2 flags2 st))"

definition process_key ::
  "(u8 \<Rightarrow> 'a machine_scheme \<Rightarrow> bool \<times> u8 \<times> 'a machine_scheme) \<Rightarrow> u8 \<Rightarrow> 'a machine_scheme
   \<Rightarrow> bool \<times> 'a machine_scheme" where
  "process_key int15_4f key st =
     (case int15_4f key st of
        (cf, key, st) \<Rightarrow> if \<not> cf then (False, st) else process_key_inner key st)"

end
