(* ===== verification/KbdSpec.thy ===== *)
theory KbdSpec
  imports Kbd
begin

text \<open>
  The key buffer of \<open>src/kbd.c\<close> as a bounded first-in first-out queue, and what the scancode
  handler keeps and tracks. The queue contract is the locale \<open>bounded_queue\<close>; the ring buffer
  of the BIOS data area is its interpretation.
\<close>

section \<open>Bounded queues\<close>

locale bounded_queue =
  fixes holds :: "'s \<Rightarrow> 'a list \<Rightarrow> bool"
    and enq :: "'a \<Rightarrow> 's \<Rightarrow> bool \<times> 's"
    and deq :: "'s \<Rightarrow> ('b \<times> 's) option"
    and out :: "'a \<Rightarrow> 'b"
    and cap :: nat
  assumes enq_room: "holds s q \<Longrightarrow> length q < cap \<Longrightarrow> fst (enq x s) \<and> holds (snd (enq x s)) (q @ [x])"
    and enq_full: "holds s q \<Longrightarrow> \<not> length q < cap \<Longrightarrow> enq x s = (False, s)"
    and deq_empty: "holds s [] \<Longrightarrow> deq s = None"
    and deq_head: "holds s (x # q) \<Longrightarrow> \<exists>s'. deq s = Some (out x, s') \<and> holds s' q"
begin

lemma enq_all:
  "holds s q \<Longrightarrow> holds (fold (\<lambda>x s. snd (enq x s)) xs s) (take (max (length q) cap) (q @ xs))"
proof (induction xs arbitrary: s q)
  case Nil
  then show ?case by simp
next
  case (Cons x xs)
  show ?case
  proof (cases "length q < cap")
    case True
    then have "holds (snd (enq x s)) (q @ [x])" using enq_room [OF Cons.prems] by blast
    from Cons.IH [OF this] show ?thesis using True by (simp add: max_def split: if_splits)
  next
    case False
    then have "snd (enq x s) = s" using enq_full [OF Cons.prems] by simp
    then show ?thesis using Cons.IH [OF Cons.prems] False by (simp add: max_def)
  qed
qed

end

text \<open>Taking keys out until there is none left.\<close>

fun deq_all :: "('s \<Rightarrow> ('a \<times> 's) option) \<Rightarrow> nat \<Rightarrow> 's \<Rightarrow> 'a list" where
  "deq_all deq 0 s = []"
| "deq_all deq (Suc n) s = (case deq s of None \<Rightarrow> [] | Some (x, s) \<Rightarrow> x # deq_all deq n s)"

context bounded_queue begin

lemma deq_all_holds: "holds s q \<Longrightarrow> length q \<le> n \<Longrightarrow> deq_all deq n s = map out q"
proof (induction n arbitrary: s q)
  case (Suc n)
  show ?case
  proof (cases q)
    case Nil
    then show ?thesis using Suc.prems deq_empty by simp
  next
    case (Cons x xs)
    then obtain s' where "deq s = Some (out x, s')" "holds s' xs" using deq_head Suc.prems by blast
    then show ?thesis using Suc.IH [of s' xs] Suc.prems Cons by simp
  qed
qed simp

lemma fifo: "holds s q \<Longrightarrow> length (q @ xs) \<le> n \<Longrightarrow> length q \<le> cap \<Longrightarrow>
   deq_all deq n (fold (\<lambda>x s. snd (enq x s)) xs s) = map out (take cap (q @ xs))"
  by (drule enq_all [of s q xs], drule deq_all_holds [of _ _ n]) (auto simp: max_def)

end

section \<open>The ring buffer\<close>

definition kbd_slot :: "nat \<Rightarrow> u16" where
  "kbd_slot i = of_nat (0x1e + 2 * (i mod 16))"

lemma mod16_bound: "i mod 16 < (16 :: nat)" by simp

lemma unat_kbd_slot: "unat (kbd_slot i) = 0x1e + 2 * (i mod 16)"
  unfolding kbd_slot_def using mod16_bound [of i]
  by (simp only: unsigned_of_nat) (simp add: take_bit_nat_eq_self)

lemma kbd_slot_eq [simp]: "kbd_slot i = kbd_slot j \<longleftrightarrow> i mod 16 = j mod 16"
  by (simp add: word_unat_eq_iff unat_kbd_slot)

lemma kbd_slot_next: "(if kbd_slot i + 2 \<ge> 0x3e then 0x1e else kbd_slot i + 2) = kbd_slot (Suc i)"
proof -
  have b: "i mod 16 < 16" by simp
  have u: "unat (kbd_slot i + 2) = 0x20 + 2 * (i mod 16)"
    using b by (simp add: unat_word_ariths unat_kbd_slot)
  show ?thesis
  proof (cases "i mod 16 = 15")
    case True
    then have "Suc i mod 16 = 0" by (simp add: mod_Suc)
    then show ?thesis using True u by (simp add: word_le_nat_alt word_unat_eq_iff unat_kbd_slot)
  next
    case False
    then have "Suc i mod 16 = Suc (i mod 16)" by (simp add: mod_Suc)
    then show ?thesis using False b u by (simp add: word_le_nat_alt word_unat_eq_iff unat_kbd_slot)
  qed
qed

definition kaddr :: "nat \<Rightarrow> u32" where
  "kaddr i = BDA (ucast (kbd_slot i))"

lemma unat_kaddr: "unat (kaddr i) = 0x41e + 2 * (i mod 16)" "unat (kaddr i + 1) = 0x41f + 2 * (i mod 16)"
proof -
  have "unat (ucast (kbd_slot i) :: u32) = 0x1e + 2 * (i mod 16)"
    by (simp add: unsigned_ucast_eq unat_kbd_slot take_bit_eq_mod)
  then show "unat (kaddr i) = 0x41e + 2 * (i mod 16)" "unat (kaddr i + 1) = 0x41f + 2 * (i mod 16)"
    using mod16_bound [of i] by (simp_all add: kaddr_def unat_word_ariths)
qed

lemma kaddr_eq [simp]:
  "kaddr i = kaddr j \<longleftrightarrow> i mod 16 = j mod 16" "kaddr i \<noteq> kaddr j + 1" "kaddr j + 1 \<noteq> kaddr i"
proof -
  have "2 * x \<noteq> Suc (2 * y)" for x y :: nat by presburger
  then show "kaddr i = kaddr j \<longleftrightarrow> i mod 16 = j mod 16" "kaddr i \<noteq> kaddr j + 1" "kaddr j + 1 \<noteq> kaddr i"
    by (simp_all add: word_unat_eq_iff unat_kaddr) metis
qed

lemma kaddr_const:
  assumes "unat c < 0x41e \<or> 0x43e \<le> unat c"
  shows "kaddr i \<noteq> c" "kaddr i + 1 \<noteq> c"
proof -
  have "unat (kaddr i) \<noteq> unat c" "unat (kaddr i + 1) \<noteq> unat c"
    unfolding unat_kaddr using assms mod16_bound [of i] by linarith+
  then show "kaddr i \<noteq> c" "kaddr i + 1 \<noteq> c" by auto
qed

definition kbd_ring :: "'a machine_scheme \<Rightarrow> nat \<Rightarrow> nat \<Rightarrow> bool" where
  "kbd_ring st h n \<longleftrightarrow> n < 16
     \<and> bda16 bda_kbd_buf_start_offset st = 0x1e \<and> bda16 bda_kbd_buf_end_offset st = 0x3e
     \<and> bda16 bda_kbd_buf_head st = kbd_slot h \<and> bda16 bda_kbd_buf_tail st = kbd_slot (h + n)"

definition kbd_key :: "'a machine_scheme \<Rightarrow> nat \<Rightarrow> u8 \<times> u8" where
  "kbd_key st i = (mem st (kaddr i + 1), mem st (kaddr i))"

text \<open>The buffer of \<open>st\<close> holds the keys \<open>q\<close>, scan code and character, oldest first.\<close>

definition kbd_holds :: "'a machine_scheme \<Rightarrow> (u8 \<times> u8) list \<Rightarrow> bool" where
  "kbd_holds st q \<longleftrightarrow> (\<exists>h. kbd_ring st h (length q) \<and> (\<forall>i < length q. kbd_key st (h + i) = q ! i))"

lemma kbd_addrs:
  "BDA (ucast (kbd_slot i)) = kaddr i" "BDA (ucast (kbd_slot i) + 1) = kaddr i + 1"
  by (simp_all add: kaddr_def add.assoc)

lemma kbd_fields:
  "BDA bda_kbd_buf_start_offset = 0x480" "BDA bda_kbd_buf_end_offset = 0x482"
  "BDA bda_kbd_buf_head = 0x41a" "BDA bda_kbd_buf_tail = 0x41c"
  "BDA bda_kbd_flag0 = 0x417" "BDA bda_kbd_flag1 = 0x418" "BDA bda_kbd_flag2 = 0x496"
  "BDA bda_kbd_led = 0x497" "BDA bda_soft_reset_flag = 0x472"
  by (simp_all add: bda_offsets)

lemma kaddr_fields:
  assumes "c \<in> {0x480, 0x481, 0x482, 0x483, 0x41a, 0x41b, 0x41c, 0x41d, 0x417, 0x418, 0x496, 0x497, 0x472, 0x473}"
  shows "kaddr i \<noteq> c" "kaddr i + 1 \<noteq> c" "c \<noteq> kaddr i" "c \<noteq> kaddr i + 1"
  using assms kaddr_const [of c i] by auto

lemma kaddr_fields_simps [simp]:
  "(0x480 = kaddr i) = False" "(0x481 = kaddr i) = False" "(0x482 = kaddr i) = False"
  "(0x483 = kaddr i) = False" "(0x41a = kaddr i) = False" "(0x41b = kaddr i) = False"
  "(0x41c = kaddr i) = False" "(0x41d = kaddr i) = False"
  "(0x480 = kaddr i + 1) = False" "(0x481 = kaddr i + 1) = False" "(0x482 = kaddr i + 1) = False"
  "(0x483 = kaddr i + 1) = False" "(0x41a = kaddr i + 1) = False" "(0x41b = kaddr i + 1) = False"
  "(0x41c = kaddr i + 1) = False" "(0x41d = kaddr i + 1) = False"
  "(kaddr i = 0x41a) = False" "(kaddr i = 0x41b) = False" "(kaddr i = 0x41c) = False" "(kaddr i = 0x41d) = False"
  "(kaddr i + 1 = 0x41a) = False" "(kaddr i + 1 = 0x41b) = False" "(kaddr i + 1 = 0x41c) = False"
  "(kaddr i + 1 = 0x41d) = False"
  using kaddr_fields by auto

lemma rd16_upd_other: "b \<noteq> a \<Longrightarrow> b + 1 \<noteq> a \<Longrightarrow> rd16 (m(a := v)) b = rd16 m b"
  by (simp add: rd16_def)

lemma enqueue_room:
  assumes "kbd_ring st h n" "n < 15"
  shows "fst (enqueue_key sc asc st) = 1"
    "mem (snd (enqueue_key sc asc st)) =
       wr16 0x41c (kbd_slot (Suc (h + n))) ((mem st)(kaddr (h + n) := asc, kaddr (h + n) + 1 := sc))"
    "kbd_ring (snd (enqueue_key sc asc st)) h (Suc n)"
    "i mod 16 \<noteq> (h + n) mod 16 \<Longrightarrow> kbd_key (snd (enqueue_key sc asc st)) i = kbd_key st i"
    "kbd_key (snd (enqueue_key sc asc st)) (h + n) = (sc, asc)"
proof -
  have r: "bda16 bda_kbd_buf_start_offset st = 0x1e" "bda16 bda_kbd_buf_end_offset st = 0x3e"
     "bda16 bda_kbd_buf_head st = kbd_slot h" "bda16 bda_kbd_buf_tail st = kbd_slot (h + n)"
    using assms(1) by (auto simp: kbd_ring_def)
  have ne: "Suc (h + n) mod 16 \<noteq> h mod 16"
  proof
    assume "Suc (h + n) mod 16 = h mod 16"
    then have "16 dvd Suc n" by (metis add_Suc_right mod_eq_dvd_iff_nat add_diff_cancel_left' le_add1)
    then show False using assms(2) by (auto dest: dvd_imp_le)
  qed
  have e: "enqueue_key sc asc st = (1, set_bda16 bda_kbd_buf_tail (kbd_slot (Suc (h + n)))
      (set_bda8 (ucast (kbd_slot (h + n)) + 1) sc (set_bda8 (ucast (kbd_slot (h + n))) asc st)))"
    using ne by (simp add: enqueue_key_def r Let_def kbd_slot_next)
  then show "fst (enqueue_key sc asc st) = 1" by simp
  show m: "mem (snd (enqueue_key sc asc st)) =
       wr16 0x41c (kbd_slot (Suc (h + n))) ((mem st)(kaddr (h + n) := asc, kaddr (h + n) + 1 := sc))"
    by (simp add: e kbd_addrs kbd_fields wr8_def del: BDA_eq)
  show "kbd_ring (snd (enqueue_key sc asc st)) h (Suc n)"
    using r assms
    by (simp add: kbd_ring_def bda16_def m kbd_fields rd16_wr16_other rd16_upd_other del: BDA_eq)
  show "kbd_key (snd (enqueue_key sc asc st)) i = kbd_key st i" if "i mod 16 \<noteq> (h + n) mod 16"
    using that by (simp add: kbd_key_def m wr16_def)
  show "kbd_key (snd (enqueue_key sc asc st)) (h + n) = (sc, asc)"
    by (simp add: kbd_key_def m wr16_def)
qed

lemma enqueue_full:
  assumes "kbd_ring st h 15"
  shows "enqueue_key sc asc st = (0, st)"
proof -
  have r: "bda16 bda_kbd_buf_start_offset st = 0x1e" "bda16 bda_kbd_buf_end_offset st = 0x3e"
     "bda16 bda_kbd_buf_head st = kbd_slot h" "bda16 bda_kbd_buf_tail st = kbd_slot (h + 15)"
    using assms by (auto simp: kbd_ring_def)
  have "Suc (h + 15) = h + 16" by simp
  then have "kbd_slot (Suc (h + 15)) = kbd_slot h" unfolding kbd_slot_eq by (simp only: mod_add_self2)
  then show ?thesis
    unfolding enqueue_key_def r Let_def kbd_slot_next by simp
qed

text \<open>What a read of a key returns in AH and AL: the extended prefixes are replaced by 0.\<close>

definition kbd_deliver :: "bool \<Rightarrow> u8 \<times> u8 \<Rightarrow> u8 \<times> u8" where
  "kbd_deliver extended k =
     (fst k, if snd k = 0xF0 \<and> fst k \<noteq> 0 \<or> snd k = 0xE0 \<and> \<not> extended then 0 else snd k)"

lemma lane_put_x [simp]: "lane_l (put_x w e) = ucast w" "lane_h (put_x w e) = ucast (drop_bit 8 w)"
  unfolding lane_l_def lane_h_def put_x_def lane_masks
  by (auto simp: bit_eq_iff bit_simps dest: bit_imp_le_length)

lemma pack_ax [simp]:
  "ucast (push_bit 8 (ucast (h :: u8)) OR ucast (l :: u8) :: u16) = l"
  "ucast (drop_bit 8 (push_bit 8 (ucast (h :: u8)) OR ucast (l :: u8) :: u16)) = h"
  by (auto simp: bit_eq_iff bit_simps dest: bit_imp_le_length)

lemma AX_pack:
  "AH (set_ax (push_bit 8 (ucast h) OR ucast l) r) = h" "AL (set_ax (push_bit 8 (ucast h) OR ucast l) r) = l"
proof -
  have "r_eax (set_ax w r) = put_x w (r_eax r)" for w by (simp add: set_ax_def)
  then show "AH (set_ax (push_bit 8 (ucast h) OR ucast l) r) = h"
    "AL (set_ax (push_bit 8 (ucast h) OR ucast l) r) = l"
    by (simp_all only: AH_def AL_def lane_put_x pack_ax)
qed

lemma set_zf_ax [simp]: "AH (set_zf c r) = AH r" "AL (set_zf c r) = AL r"
  by (simp_all add: set_zf_def AH_def AL_def)

lemma dequeue_empty:
  "kbd_ring st h 0 \<Longrightarrow> dequeue_key True extended regs st = None
   \<and> dequeue_key False extended regs st = Some (set_zf True regs, st)"
  by (simp add: kbd_ring_def dequeue_key_def)

lemma dequeue_some:
  assumes "kbd_ring st h (Suc n)"
  shows "\<exists>r'. dequeue_key True extended regs st = Some (r', set_bda16 bda_kbd_buf_head (kbd_slot (Suc h)) st)
      \<and> (AH r', AL r') = kbd_deliver extended (kbd_key st h)"
    "\<exists>r'. dequeue_key False extended regs st = Some (r', st)
      \<and> (AH r', AL r') = kbd_deliver extended (kbd_key st h) \<and> r_flags r' AND F_ZF = 0"
proof -
  have r: "bda16 bda_kbd_buf_start_offset st = 0x1e" "bda16 bda_kbd_buf_end_offset st = 0x3e"
     "bda16 bda_kbd_buf_head st = kbd_slot h" "bda16 bda_kbd_buf_tail st = kbd_slot (h + Suc n)"
    using assms by (auto simp: kbd_ring_def)
  have n: "Suc n < 16" using assms by (simp add: kbd_ring_def)
  have ne: "kbd_slot h \<noteq> kbd_slot (h + Suc n)"
  proof -
    have "(h + Suc n) mod 16 \<noteq> h mod 16"
    proof
      assume "(h + Suc n) mod 16 = h mod 16"
      then have "16 dvd Suc n" by (metis mod_eq_dvd_iff_nat add_diff_cancel_left' le_add1)
      then show False using n by (auto dest: dvd_imp_le)
    qed
    then show ?thesis unfolding kbd_slot_eq by simp
  qed
  have k: "bda8 (ucast (kbd_slot h)) st = snd (kbd_key st h)"
    "bda8 (ucast (kbd_slot h) + 1) st = fst (kbd_key st h)"
    by (simp_all only: bda8_def kbd_addrs) (simp_all add: rd8_def kbd_key_def)
  have zf: "(x AND NOT F_ZF) AND F_ZF = 0" for x
    by (simp add: F_ZF_def and.assoc bit_eq_iff bit_simps)
  show "\<exists>r'. dequeue_key True extended regs st = Some (r', set_bda16 bda_kbd_buf_head (kbd_slot (Suc h)) st)
      \<and> (AH r', AL r') = kbd_deliver extended (kbd_key st h)"
    unfolding dequeue_key_def r Let_def k kbd_slot_next
    using ne by (simp only: if_False simp_thms kbd_deliver_def option.inject prod.inject AX_pack ex_simps)
  show "\<exists>r'. dequeue_key False extended regs st = Some (r', st)
      \<and> (AH r', AL r') = kbd_deliver extended (kbd_key st h) \<and> r_flags r' AND F_ZF = 0"
    unfolding dequeue_key_def r Let_def k
    using ne by (simp only: if_False if_True simp_thms kbd_deliver_def option.inject prod.inject set_zf_ax AX_pack)
      (simp add: set_zf_def zf)
qed

definition kbd_put :: "u8 \<times> u8 \<Rightarrow> 'a machine_scheme \<Rightarrow> bool \<times> 'a machine_scheme" where
  "kbd_put k st = (case enqueue_key (fst k) (snd k) st of (ok, st) \<Rightarrow> (ok \<noteq> 0, st))"

definition kbd_get :: "bool \<Rightarrow> bregs \<Rightarrow> 'a machine_scheme \<Rightarrow> ((u8 \<times> u8) \<times> 'a machine_scheme) option" where
  "kbd_get extended regs st =
     map_option (\<lambda>(r, st). ((AH r, AL r), st)) (dequeue_key True extended regs st)"

interpretation kbd: bounded_queue kbd_holds kbd_put "kbd_get extended regs" "kbd_deliver extended" 15
  for extended regs
proof
  fix s :: "'a machine_scheme" and q x
  assume h: "kbd_holds s q"
  then obtain h where r: "kbd_ring s h (length q)" "\<forall>i < length q. kbd_key s (h + i) = q ! i"
    by (auto simp: kbd_holds_def)
  show "fst (kbd_put x s) \<and> kbd_holds (snd (kbd_put x s)) (q @ [x])" if "length q < 15"
  proof -
    note e = enqueue_room [OF r(1) that, where sc = "fst x" and asc = "snd x"]
    have "kbd_key (snd (enqueue_key (fst x) (snd x) s)) (h + i) = (q @ [x]) ! i" if i: "i < Suc (length q)" for i
    proof (cases "i = length q")
      case True
      then show ?thesis using e(5) by simp
    next
      case False
      then have lt: "i < length q" using i by simp
      have "(h + i) mod 16 \<noteq> (h + length q) mod 16"
      proof
        assume "(h + i) mod 16 = (h + length q) mod 16"
        then have "16 dvd length q - i"
          using lt mod_eq_dvd_iff_nat [of "h + i" "h + length q" 16] by (simp add: eq_commute)
        then show False using lt \<open>length q < 15\<close> by (auto dest: dvd_imp_le)
      qed
      then show ?thesis using e(4) r(2) lt by (simp add: nth_append)
    qed
    then have "kbd_holds (snd (enqueue_key (fst x) (snd x) s)) (q @ [x])"
      using e(3) by (auto simp: kbd_holds_def intro!: exI [of _ h])
    then show ?thesis using e(1) by (simp add: kbd_put_def split_beta)
  qed
  show "kbd_put x s = (False, s)" if "\<not> length q < 15"
  proof -
    have "length q = 15" using r(1) that by (simp add: kbd_ring_def)
    then show ?thesis using enqueue_full [of s h "fst x" "snd x"] r(1) by (simp add: kbd_put_def)
  qed
next
  fix s :: "'a machine_scheme"
  assume "kbd_holds s []"
  then show "kbd_get extended regs s = None"
    using dequeue_empty [of s _ extended regs] by (auto simp: kbd_holds_def kbd_get_def)
next
  fix s :: "'a machine_scheme" and x q
  assume "kbd_holds s (x # q)"
  then obtain h where r: "kbd_ring s h (Suc (length q))" "\<forall>i < Suc (length q). kbd_key s (h + i) = (x # q) ! i"
    by (auto simp: kbd_holds_def)
  let ?s = "set_bda16 bda_kbd_buf_head (kbd_slot (Suc h)) s"
  obtain r' where g: "dequeue_key True extended regs s = Some (r', ?s)"
    "(AH r', AL r') = kbd_deliver extended (kbd_key s h)"
    using dequeue_some(1) [OF r(1)] by blast
  have x: "kbd_key s h = x" using r(2) by (metis add_0_right nth_Cons_0 zero_less_Suc)
  have "kbd_ring ?s (Suc h) (length q)"
    using r(1) by (simp add: kbd_ring_def bda16_def kbd_fields rd16_wr16_other del: BDA_eq)
  moreover have "kbd_key ?s (Suc h + i) = q ! i" if "i < length q" for i
  proof -
    have "kbd_key ?s (Suc h + i) = kbd_key s (h + Suc i)"
      by (simp add: kbd_key_def kbd_fields wr16_def del: BDA_eq)
    then show ?thesis using r(2) that by (metis Suc_less_eq nth_Cons_Suc)
  qed
  ultimately have "kbd_holds ?s q" by (auto simp: kbd_holds_def)
  then show "\<exists>s'. kbd_get extended regs s = Some (kbd_deliver extended x, s') \<and> kbd_holds s' q"
    using g x by (auto simp: kbd_get_def)
qed

section \<open>Properties of the buffer\<close>

lemma kbd_setup_ring: "kbd_holds (kbd_setup st) []"
proof -
  have e: "(0x1e :: u16) = kbd_slot 0" by (simp add: kbd_slot_def)
  have "bda16 bda_kbd_buf_start_offset (kbd_setup st) = 0x1e" "bda16 bda_kbd_buf_end_offset (kbd_setup st) = 0x3e"
    "bda16 bda_kbd_buf_head (kbd_setup st) = 0x1e" "bda16 bda_kbd_buf_tail (kbd_setup st) = 0x1e"
    by (simp_all add: kbd_setup_def bda16_def kbd_fields rd16_wr16_other Let_def bda_kbd_buf_def del: BDA_eq)
  then have "kbd_ring (kbd_setup st) 0 0" by (simp add: kbd_ring_def flip: e)
  then show ?thesis by (auto simp: kbd_holds_def)
qed

lemma kbd_holds_length: "kbd_holds st q \<Longrightarrow> length q \<le> 15"
  by (auto simp: kbd_holds_def kbd_ring_def)

text \<open>The key buffer is a first-in first-out queue of 15 keys: after \<open>kbd_setup\<close>, storing
  any sequence of keys with \<open>enqueue_key\<close> and reading until the buffer is empty returns the
  first 15 keys in order, whatever the number of keys and however often the ring has wrapped;
  later keys are refused, and an extended prefix is delivered as \<open>kbd_deliver\<close> says.\<close>

theorem kbd_fifo:
  assumes "kbd_holds st q" "length q + length xs \<le> n"
  shows "deq_all (kbd_get extended regs) n (fold (\<lambda>k s. snd (kbd_put k s)) xs st)
      = map (kbd_deliver extended) (take 15 (q @ xs))
    \<and> kbd_holds (kbd_setup st) []"
  using kbd.fifo [OF assms(1)] assms(2) kbd_holds_length [OF assms(1)] kbd_setup_ring by simp

definition kbd_demo :: machine where
  "kbd_demo = kbd_setup \<lparr>mem = (\<lambda>_. 0), io_log = [], dev = (\<lambda>_ _ _. 0)\<rparr>"

lemma kbd_demo_holds: "kbd_holds kbd_demo []"
  unfolding kbd_demo_def by (rule kbd_setup_ring)

definition no_regs :: bregs where
  "no_regs = \<lparr>r_ds = 0, r_es = 0, r_edi = 0, r_esi = 0, r_ebp = 0, r_ebx = 0, r_edx = 0, r_ecx = 0,
     r_eax = 0, r_code = 0, r_flags = 0\<rparr>"

lemma kbd_fifo_witness:
  "deq_all (kbd_get False no_regs) 20 (fold (\<lambda>k s. snd (kbd_put k s)) [(0x1e, 0x61), (0x48, 0xe0)] kbd_demo)
     = [(0x1e, 0x61), (0x48, 0)]"
  using kbd_fifo [OF kbd_demo_holds, of "[(0x1e, 0x61), (0x48, 0xe0)]" 20 False no_regs]
  by (simp add: kbd_deliver_def)

text \<open>The status calls report the oldest key without taking it: on a non-empty buffer
  INT 16h function 11h clears ZF, changes no memory, and returns the AX that function 10h
  returns next; on an empty buffer it sets ZF, and function 10h waits.\<close>

theorem kbd_peek_read:
  assumes "kbd_holds st q"
  shows "(q = [] \<longrightarrow> handle_1611 regs st = Some (set_zf True regs, st) \<and> handle_1610 regs st = None)
    \<and> (q \<noteq> [] \<longrightarrow> (\<exists>r r' st'. handle_1611 regs st = Some (r, st) \<and> handle_1610 regs st = Some (r', st')
         \<and> AH r = AH r' \<and> AL r = AL r' \<and> r_flags r AND F_ZF = 0 \<and> kbd_holds st' (tl q)))"
proof (cases q)
  case Nil
  then obtain h where "kbd_ring st h 0" using assms by (auto simp: kbd_holds_def)
  then show ?thesis
    using dequeue_empty [of st h True regs] Nil by (simp add: handle_1610_def handle_1611_def)
next
  case (Cons x xs)
  then obtain h where r: "kbd_ring st h (Suc (length xs))"
    using assms by (auto simp: kbd_holds_def)
  obtain r1 where p: "dequeue_key False True regs st = Some (r1, st)" "(AH r1, AL r1) = kbd_deliver True (kbd_key st h)"
    "r_flags r1 AND F_ZF = 0" using dequeue_some(2) [OF r] by blast
  obtain r2 st2 where g: "dequeue_key True True regs st = Some (r2, st2)" "(AH r2, AL r2) = kbd_deliver True (kbd_key st h)"
    using dequeue_some(1) [OF r] by blast
  obtain s' where "kbd_get True regs st = Some (kbd_deliver True x, s')" "kbd_holds s' xs"
    using kbd.deq_head [of st x xs True regs] assms Cons by blast
  then have "kbd_holds st2 xs" using g(1) by (auto simp: kbd_get_def)
  moreover have "AH r1 = AH r2" "AL r1 = AL r2" using p(2) g(2) by (metis prod.inject)+
  ultimately show ?thesis using p g Cons by (simp add: handle_1610_def handle_1611_def)
qed

lemma kbd_peek_read_witness:
  "handle_1611 no_regs kbd_demo = Some (set_zf True no_regs, kbd_demo) \<and> handle_1610 no_regs kbd_demo = None"
  using kbd_peek_read [OF kbd_demo_holds, of no_regs] by simp

section \<open>The scancode handler\<close>

text \<open>The keyboard fields; nothing else is written.\<close>

definition kbd_cell :: "u32 \<Rightarrow> bool" where
  "kbd_cell a \<longleftrightarrow> a \<in> {0x417, 0x418, 0x41c, 0x41d, 0x496, 0x472, 0x473} \<or> 0x41e \<le> a \<and> a < 0x43e"

lemma kaddr_cell: "kbd_cell (kaddr i)" "kbd_cell (kaddr i + 1)"
proof -
  have "2 * (i mod 16) \<le> 30" using mod16_bound [of i] by linarith
  then show "kbd_cell (kaddr i)" "kbd_cell (kaddr i + 1)"
    by (simp_all add: kbd_cell_def word_le_nat_alt word_less_nat_alt unat_kaddr)
qed

text \<open>Writes to the flag bytes leave the queue as it is.\<close>

lemma kbd_holds_flag:
  assumes "c \<in> {0x417, 0x418, 0x496, 0x497}"
  shows "kbd_holds (st\<lparr>mem := wr8 c v (mem st)\<rparr>) q \<longleftrightarrow> kbd_holds st q"
proof -
  have ne: "kaddr i \<noteq> c" "kaddr i + 1 \<noteq> c" for i using assms kaddr_const [of c i] by auto
  have "kbd_ring (st\<lparr>mem := wr8 c v (mem st)\<rparr>) h n \<longleftrightarrow> kbd_ring st h n" for h n
    using assms by (auto simp: kbd_ring_def bda16_def kbd_fields rd16_upd_other wr8_def simp del: BDA_eq)
  moreover have "kbd_key (st\<lparr>mem := wr8 c v (mem st)\<rparr>) i = kbd_key st i" for i
    using ne [of i] by (simp add: kbd_key_def wr8_def)
  ultimately show ?thesis by (simp add: kbd_holds_def)
qed

lemma kbd_holds_set_flag [simp]:
  "kbd_holds (set_bda8 bda_kbd_flag0 v st) q = kbd_holds st q"
  "kbd_holds (set_bda8 bda_kbd_flag1 v st) q = kbd_holds st q"
  "kbd_holds (set_bda8 bda_kbd_flag2 v st) q = kbd_holds st q"
  "kbd_holds (set_bda16 bda_soft_reset_flag w st) q = kbd_holds st q"
proof -
  show "kbd_holds (set_bda8 bda_kbd_flag0 v st) q = kbd_holds st q"
    "kbd_holds (set_bda8 bda_kbd_flag1 v st) q = kbd_holds st q"
    "kbd_holds (set_bda8 bda_kbd_flag2 v st) q = kbd_holds st q"
    using kbd_holds_flag [of "0x417" v st q] kbd_holds_flag [of "0x418" v st q] kbd_holds_flag [of "0x496" v st q]
    by (simp_all add: set_bda8_def kbd_fields del: BDA_eq)
  have "kbd_ring (set_bda16 bda_soft_reset_flag w st) h n \<longleftrightarrow> kbd_ring st h n" for h n
    by (simp add: kbd_ring_def bda16_def kbd_fields rd16_wr16_other del: BDA_eq)
  moreover have "kbd_key (set_bda16 bda_soft_reset_flag w st) i = kbd_key st i" for i
    using kaddr_const [of "0x472" i] kaddr_const [of "0x473" i]
    by (simp add: kbd_key_def kbd_fields wr16_def del: BDA_eq)
  ultimately show "kbd_holds (set_bda16 bda_soft_reset_flag w st) q = kbd_holds st q"
    by (simp add: kbd_holds_def)
qed

definition kbd_frame :: "'a machine_scheme \<Rightarrow> 'a machine_scheme \<Rightarrow> bool" where
  "kbd_frame st st' \<longleftrightarrow> (\<forall>a. \<not> kbd_cell a \<longrightarrow> mem st' a = mem st a) \<and> io_log st' = io_log st"

lemma kbd_frame_refl [simp]: "kbd_frame st st"
  by (simp add: kbd_frame_def)

lemma kbd_frame_trans: "kbd_frame st st' \<Longrightarrow> kbd_frame st' st'' \<Longrightarrow> kbd_frame st st''"
  by (simp add: kbd_frame_def)

lemma kbd_frame_set [simp]:
  "kbd_frame st (set_bda8 bda_kbd_flag0 v st)" "kbd_frame st (set_bda8 bda_kbd_flag1 v st)"
  "kbd_frame st (set_bda8 bda_kbd_flag2 v st)" "kbd_frame st (set_bda16 bda_soft_reset_flag w st)"
  by (auto simp: kbd_frame_def kbd_cell_def kbd_fields wr8_def wr16_def simp del: BDA_eq)

lemma kbd_frame_set_trans [simp]:
  "kbd_frame st st' \<Longrightarrow> kbd_frame st (set_bda8 bda_kbd_flag0 v st')"
  "kbd_frame st st' \<Longrightarrow> kbd_frame st (set_bda8 bda_kbd_flag1 v st')"
  "kbd_frame st st' \<Longrightarrow> kbd_frame st (set_bda8 bda_kbd_flag2 v st')"
  by (blast intro: kbd_frame_trans kbd_frame_set)+

definition queue_step :: "(u8 \<times> u8) list \<Rightarrow> (u8 \<times> u8) list \<Rightarrow> bool" where
  "queue_step q q' \<longleftrightarrow> q' = q \<or> (\<exists>k. q' = q @ [k] \<and> length q < 15)"

lemma enqueue_key_step:
  assumes "kbd_holds st q"
  shows "\<exists>q'. kbd_holds (snd (enqueue_key sc asc st)) q' \<and> queue_step q q' \<and> kbd_frame st (snd (enqueue_key sc asc st))"
proof -
  obtain h where r: "kbd_ring st h (length q)" using assms by (auto simp: kbd_holds_def)
  show ?thesis
  proof (cases "length q < 15")
    case True
    have "kbd_holds (snd (kbd_put (sc, asc) st)) (q @ [(sc, asc)])"
      using kbd.enq_room [OF assms True] by blast
    then have "kbd_holds (snd (enqueue_key sc asc st)) (q @ [(sc, asc)])"
      by (simp add: kbd_put_def split_beta)
    moreover have "kbd_frame st (snd (enqueue_key sc asc st))"
    proof -
      have "io_log (snd (enqueue_key sc asc st)) = io_log st" by (simp add: enqueue_key_def Let_def)
      then show ?thesis
        using kaddr_cell by (auto simp: kbd_frame_def enqueue_room(2) [OF r True] wr16_def kbd_cell_def)
    qed
    ultimately show ?thesis using True by (auto simp: queue_step_def)
  next
    case False
    then have "length q = 15" using r by (simp add: kbd_ring_def)
    then have "enqueue_key sc asc st = (0, st)" using enqueue_full [of st h] r by simp
    then show ?thesis using assms by (auto simp: queue_step_def)
  qed
qed

lemma process_key_keeps:
  assumes "kbd_holds st q"
  shows "\<exists>q'. kbd_holds (snd (process_key_inner sc st)) q' \<and> queue_step q q'
    \<and> kbd_frame st (snd (process_key_inner sc st))"
proof -
  have q: "queue_step q q" by (simp add: queue_step_def)
  have press: "\<exists>q'. (case key_press sc f0 f1 f2 st of
        Inl r \<Rightarrow> kbd_holds (snd r) q' \<and> queue_step q q' \<and> kbd_frame st (snd r)
      | Inr r \<Rightarrow> kbd_holds (snd r) q' \<and> queue_step q q' \<and> kbd_frame st (snd r))" for f0 f1 f2
    using assms q enqueue_key_step [OF assms] by (auto simp: key_press_def split: prod.split)
  have switch: "\<exists>q'. (case key_switch sc f0 f1 f2 st of
        Inl r \<Rightarrow> kbd_holds (snd r) q' \<and> queue_step q q' \<and> kbd_frame st (snd r)
      | Inr r \<Rightarrow> kbd_holds (snd r) q' \<and> queue_step q q' \<and> kbd_frame st (snd r))" for f0 f1 f2
    using assms q press [of f0 f1 f2] by (simp add: key_switch_def Let_def split del: if_split) (auto split: if_split)
  show ?thesis
  proof (cases "bda8 bda_kbd_flag2 st AND KF2_LAST_E1 \<noteq> 0")
    case True
    then show ?thesis using assms q by (auto simp: process_key_inner_def Let_def)
  next
    case False
    then show ?thesis
      using switch [of "bda8 bda_kbd_flag0 st" "bda8 bda_kbd_flag1 st" "bda8 bda_kbd_flag2 st"]
      by (auto simp: process_key_inner_def Let_def split: sum.splits prod.splits)
  qed
qed

text \<open>C35: every scancode, in every keyboard state, keeps the key buffer well formed and adds at
  most one key to it; memory outside the keyboard fields of the BIOS data area and the soft reset flag at
  40:72, which Ctrl+Alt+Del sets, is not written.\<close>

theorem process_key_safe:
  assumes "kbd_holds st q"
  shows "\<exists>q'. kbd_holds (snd (process_key_inner sc st)) q' \<and> queue_step q q'
    \<and> kbd_frame st (snd (process_key_inner sc st))"
  by (rule process_key_keeps [OF assms])

lemma process_key_safe_witness:
  "\<exists>q'. kbd_holds (snd (process_key_inner 0x1e kbd_demo)) q' \<and> queue_step [] q'
    \<and> kbd_frame kbd_demo (snd (process_key_inner 0x1e kbd_demo))"
  by (rule process_key_safe [OF kbd_demo_holds])

end
