(* ===== verification/KbdTrack.thy ===== *)
theory KbdTrack
  imports KbdSpec
begin

text \<open>
  What the shift flags of \<open>src/kbd.c\<close> mean after any sequence of scancodes, the pause sequence,
  and the characters of the letter keys.
\<close>

section \<open>Runs of scancodes\<close>

text \<open>The scancodes of a run, until the machine is reset.\<close>

fun kbd_run :: "u8 list \<Rightarrow> 'a machine_scheme \<Rightarrow> bool \<times> 'a machine_scheme" where
  "kbd_run [] st = (False, st)"
| "kbd_run (k # ks) st =
     (case process_key_inner k st of (reset, st) \<Rightarrow> if reset then (True, st) else kbd_run ks st)"

definition flag0_next :: "u8 \<Rightarrow> u8 \<Rightarrow> u8" where
  "flag0_next k f =
     (if k = 0x3a then f XOR KF0_CAPSACTIVE
      else if k = 0x2a then f OR KF0_LSHIFT
      else if k = 0xaa then f AND NOT KF0_LSHIFT
      else if k = 0x36 then f OR KF0_RSHIFT
      else if k = 0xb6 then f AND NOT KF0_RSHIFT
      else if k = 0x1d then f OR KF0_CTRLACTIVE
      else if k = 0x9d then f AND NOT KF0_CTRLACTIVE
      else if k = 0x38 then f OR KF0_ALTACTIVE
      else if k = 0xb8 then f AND NOT KF0_ALTACTIVE
      else if k = 0x45 then f XOR KF0_NUMACTIVE
      else if k = 0x46 then f XOR KF0_SCROLLACTIVE
      else f)"

lemma bda8_flags [simp]:
  "bda8 bda_kbd_flag0 (set_bda8 bda_kbd_flag0 v st) = v"
  "bda8 bda_kbd_flag0 (set_bda8 bda_kbd_flag1 v st) = bda8 bda_kbd_flag0 st"
  "bda8 bda_kbd_flag0 (set_bda8 bda_kbd_flag2 v st) = bda8 bda_kbd_flag0 st"
  "bda8 bda_kbd_flag1 (set_bda8 bda_kbd_flag0 v st) = bda8 bda_kbd_flag1 st"
  "bda8 bda_kbd_flag1 (set_bda8 bda_kbd_flag1 v st) = v"
  "bda8 bda_kbd_flag1 (set_bda8 bda_kbd_flag2 v st) = bda8 bda_kbd_flag1 st"
  "bda8 bda_kbd_flag2 (set_bda8 bda_kbd_flag0 v st) = bda8 bda_kbd_flag2 st"
  "bda8 bda_kbd_flag2 (set_bda8 bda_kbd_flag1 v st) = bda8 bda_kbd_flag2 st"
  "bda8 bda_kbd_flag2 (set_bda8 bda_kbd_flag2 v st) = v"
  by (simp_all add: bda8_def kbd_fields del: BDA_eq)

lemma e1_bit: "f AND KF2_LAST_E1 = 0 \<longleftrightarrow> \<not> bit f 0"
  by (simp add: KF2_LAST_E1_def and_exp_eq_0_iff_not_bit [of f 0, simplified])

lemma keep_e1 [simp]:
  "bit (f AND NOT KF2_LAST_E0) 0 = bit f 0" "bit (f OR KF2_RCTRL) 0 = bit f 0" "bit (f AND NOT KF2_RCTRL) 0 = bit f 0"
  "bit (f OR KF2_RALT) 0 = bit f 0" "bit (f AND NOT KF2_RALT) 0 = bit f 0" "bit (f OR KF2_LAST_E0) 0 = bit f 0"
  by (simp_all add: kbd_flags bit_simps)

lemma process_flag0:
  assumes h: "kbd_holds st q" and e1: "\<not> bit (bda8 bda_kbd_flag2 st) 0" and k: "k \<noteq> 0xe1"
    and p: "process_key_inner k st = (False, st')"
  shows "bda8 bda_kbd_flag0 st' = flag0_next k (bda8 bda_kbd_flag0 st)" "\<not> bit (bda8 bda_kbd_flag2 st') 0"
proof -
  let ?f0 = "bda8 bda_kbd_flag0 st" and ?f1 = "bda8 bda_kbd_flag1 st" and ?f2 = "bda8 bda_kbd_flag2 st"
  have "case key_switch k ?f0 ?f1 ?f2 st of
      Inl (reset, s) \<Rightarrow> \<not> reset \<longrightarrow> bda8 bda_kbd_flag0 s = flag0_next k ?f0 \<and> \<not> bit (bda8 bda_kbd_flag2 s) 0
    | Inr ((a, b, c), s) \<Rightarrow> a = flag0_next k ?f0 \<and> \<not> bit c 0"
    using e1 k
    by (simp add: key_switch_def flag0_next_def key_press_def Let_def split: prod.split)
  then show "bda8 bda_kbd_flag0 st' = flag0_next k (bda8 bda_kbd_flag0 st)" "\<not> bit (bda8 bda_kbd_flag2 st') 0"
    using p e1 by (auto simp: process_key_inner_def Let_def e1_bit split: sum.splits prod.splits)
qed

text \<open>Whether a key with the make code \<open>p\<close> and the break code \<open>r\<close> is held down after a run.\<close>

fun held :: "u8 \<Rightarrow> u8 \<Rightarrow> u8 list \<Rightarrow> bool \<Rightarrow> bool" where
  "held p r [] h = h"
| "held p r (k # ks) h = held p r ks (if k = p then True else if k = r then False else h)"

text \<open>Whether a lock that each press of \<open>p\<close> toggles is on after a run.\<close>

definition toggled :: "u8 \<Rightarrow> u8 list \<Rightarrow> bool \<Rightarrow> bool" where
  "toggled p ks h = (odd (count_list ks p) \<noteq> h)"

lemma flag0_bits:
  "bit (flag0_next k f) 0 = (if k = 0x36 then True else if k = 0xb6 then False else bit f 0)"
  "bit (flag0_next k f) 1 = (if k = 0x2a then True else if k = 0xaa then False else bit f 1)"
  "bit (flag0_next k f) 2 = (if k = 0x1d then True else if k = 0x9d then False else bit f 2)"
  "bit (flag0_next k f) 3 = (if k = 0x38 then True else if k = 0xb8 then False else bit f 3)"
  "bit (flag0_next k f) 4 = ((k = 0x46) \<noteq> bit f 4)"
  "bit (flag0_next k f) 5 = ((k = 0x45) \<noteq> bit f 5)"
  "bit (flag0_next k f) 6 = ((k = 0x3a) \<noteq> bit f 6)"
  by (simp_all add: flag0_next_def kbd_flags bit_simps)

lemma run_flag0:
  assumes "kbd_holds st q" "\<not> bit (bda8 bda_kbd_flag2 st) 0" "0xe1 \<notin> set ks" "kbd_run ks st = (False, st')"
  shows "bda8 bda_kbd_flag0 st' = fold flag0_next ks (bda8 bda_kbd_flag0 st)"
  using assms
proof (induction ks arbitrary: st q)
  case (Cons k ks)
  obtain st1 where p: "process_key_inner k st = (False, st1)" and r: "kbd_run ks st1 = (False, st')"
    using Cons.prems(4) by (auto split: prod.splits if_splits)
  have k: "k \<noteq> 0xe1" "0xe1 \<notin> set ks" using Cons.prems(3) by auto
  obtain q1 where "kbd_holds st1 q1"
  proof -
    have "\<exists>q'. kbd_holds (snd (process_key_inner k st)) q'" using process_key_keeps [OF Cons.prems(1)] by blast
    then show thesis using p that by auto
  qed
  with Cons.IH [OF _ process_flag0(2) [OF Cons.prems(1,2) k(1) p] k(2) r]
  show ?case using process_flag0(1) [OF Cons.prems(1,2) k(1) p] by simp
qed simp

lemma fold_bits:
  "bit (fold flag0_next ks f) 0 = held 0x36 0xb6 ks (bit f 0)"
  "bit (fold flag0_next ks f) 1 = held 0x2a 0xaa ks (bit f 1)"
  "bit (fold flag0_next ks f) 2 = held 0x1d 0x9d ks (bit f 2)"
  "bit (fold flag0_next ks f) 3 = held 0x38 0xb8 ks (bit f 3)"
  "bit (fold flag0_next ks f) 4 = toggled 0x46 ks (bit f 4)"
  "bit (fold flag0_next ks f) 5 = toggled 0x45 ks (bit f 5)"
  "bit (fold flag0_next ks f) 6 = toggled 0x3a ks (bit f 6)"
  by (induction ks arbitrary: f) (auto simp: flag0_bits flag0_bits(2) [unfolded One_nat_def] toggled_def)

text \<open>C34: the shift flags of INT 16h function 2 tell the truth about any run of scancodes without
  a pause sequence: each of the bits for right Shift, left Shift, Ctrl and Alt is set exactly
  when the last scancode of that key was a press, and each of the bits for Scroll, Num and Caps
  Lock has changed once per press of its key, whatever other keys were typed in between. Bytes count as they
  are, so a code after the prefix E0h counts as that of the key without it.\<close>

theorem shift_flags_track:
  assumes "kbd_holds st q" "\<not> bit (bda8 bda_kbd_flag2 st) 0" "0xe1 \<notin> set ks" "kbd_run ks st = (False, st')"
  shows "let f = bda8 bda_kbd_flag0 st; f' = AL (handle_1602 regs st') in
    bit f' 0 = held 0x36 0xb6 ks (bit f 0) \<and> bit f' 1 = held 0x2a 0xaa ks (bit f 1)
    \<and> bit f' 2 = held 0x1d 0x9d ks (bit f 2) \<and> bit f' 3 = held 0x38 0xb8 ks (bit f 3)
    \<and> bit f' 4 = toggled 0x46 ks (bit f 4) \<and> bit f' 5 = toggled 0x45 ks (bit f 5)
    \<and> bit f' 6 = toggled 0x3a ks (bit f 6)"
proof -
  have "AL (handle_1602 regs st') = fold flag0_next ks (bda8 bda_kbd_flag0 st)"
    using run_flag0 [OF assms] by (simp add: handle_1602_def AL_def set_al_def)
  then show ?thesis by (simp add: Let_def fold_bits fold_bits(2) [unfolded One_nat_def])
qed

lemma kbd_demo_flags: "bda8 bda_kbd_flag0 kbd_demo = 0" "bda8 bda_kbd_flag2 kbd_demo = KF2_101KBD"
  by (simp_all add: kbd_demo_def kbd_setup_def bda8_def kbd_fields Let_def wr16_def rd8_def wr8_def del: BDA_eq)

lemma kbd_run_cons:
  "process_key_inner k st = (False, st1) \<Longrightarrow> kbd_run ks st1 = r \<Longrightarrow> kbd_run (k # ks) st = r"
  by simp

lemma shift_flags_track_witness:
  "\<exists>st'. kbd_run [0x2a, 0x3a, 0xba, 0x1d] kbd_demo = (False, st')
    \<and> bit (AL (handle_1602 no_regs st')) 1 \<and> bit (AL (handle_1602 no_regs st')) 6
    \<and> \<not> bit (AL (handle_1602 no_regs st')) 0"
proof -
  obtain st' where r: "kbd_run [0x2a, 0x3a, 0xba, 0x1d] kbd_demo = (False, st')"
    by (simp add: process_key_inner_def key_switch_def Let_def kbd_demo_flags kbd_flags)
  have "\<not> bit (bda8 bda_kbd_flag2 kbd_demo) 0" by (simp add: kbd_demo_flags KF2_101KBD_def)
  from shift_flags_track [OF kbd_demo_holds this _ r, of no_regs]
  show ?thesis using r by (simp add: Let_def toggled_def kbd_demo_flags)
qed

section \<open>The pause sequence\<close>

lemma u8_eqI:
  fixes a b :: u8
  assumes "bit a 0 = bit b 0" "bit a 1 = bit b 1" "bit a 2 = bit b 2" "bit a 3 = bit b 3"
    "bit a 4 = bit b 4" "bit a 5 = bit b 5" "bit a 6 = bit b 6" "bit a 7 = bit b 7"
  shows "a = b"
proof (rule bit_word_eqI)
  fix n assume "n < LENGTH(8)"
  then have "n \<in> {0, 1, 2, 3, 4, 5, 6, 7}" by auto
  then show "bit a n = bit b n" using assms by auto
qed

text \<open>The six scancodes of the Pause key change nothing at all, although two of them are the
  codes of Ctrl and Num Lock: no key is stored, no flag is left set, and the handler is ready
  for the next key.\<close>

theorem pause_ignored:
  assumes "\<not> bit (bda8 bda_kbd_flag2 st) 0" "\<not> bit (bda8 bda_kbd_flag2 st) 1"
  shows "kbd_run [0xe1, 0x1d, 0x45, 0xe1, 0x9d, 0xc5] st = (False, st)"
proof -
  let ?f0 = "bda8 bda_kbd_flag0 st" and ?f1 = "bda8 bda_kbd_flag1 st" and ?f2 = "bda8 bda_kbd_flag2 st"
  let ?P = "set_bda8 bda_kbd_flag2 (?f2 OR KF2_LAST_E1) st"
  have same: "set_bda8 bda_kbd_flag0 ?f0 s = s" "set_bda8 bda_kbd_flag1 ?f1 s = s"
    if "bda8 bda_kbd_flag0 s = ?f0" "bda8 bda_kbd_flag1 s = ?f1" for s :: "'a machine_scheme"
    using that by (auto simp: set_bda8_def bda8_def rd8_def wr8_def fun_upd_idem)
  have f2: "(?f2 OR KF2_LAST_E1) AND NOT KF2_LAST_E0 = ?f2 OR KF2_LAST_E1"
    "(?f2 OR KF2_LAST_E1) AND NOT KF2_LAST_E1 = ?f2"
    "(?f2 OR KF2_LAST_E1) AND KF2_LAST_E1 \<noteq> 0"
    using assms by (auto intro!: u8_eqI simp: kbd_flags bit_simps)
  have s1: "process_key_inner 0xe1 s = (False, set_bda8 bda_kbd_flag2 (?f2 OR KF2_LAST_E1) s)" 
    if "bda8 bda_kbd_flag0 s = ?f0" "bda8 bda_kbd_flag1 s = ?f1" "bda8 bda_kbd_flag2 s = ?f2" for s :: "'a machine_scheme"
    using that assms same [of s] f2 by (simp add: process_key_inner_def key_switch_def Let_def e1_bit)
  have s2: "process_key_inner k ?P = (False, ?P)" if "k \<in> {0x1d, 0x9d}" for k
    using that f2 by (auto simp: process_key_inner_def Let_def)
  have s3: "process_key_inner k ?P = (False, st)" if "k \<in> {0x45, 0xc5}" for k
    using that f2 by (auto simp: process_key_inner_def Let_def set_bda8_def bda8_def rd8_def wr8_def fun_upd_idem)
  show ?thesis using s1 [of st] s2 s3 by simp
qed

lemma pause_ignored_witness: "kbd_run [0xe1, 0x1d, 0x45, 0xe1, 0x9d, 0xc5] kbd_demo = (False, kbd_demo)"
  by (rule pause_ignored) (simp_all add: kbd_demo_flags KF2_101KBD_def)

section \<open>Letters\<close>

text \<open>A letter key gives the capital exactly when one of Shift and Caps Lock is on, not both,
  for all 26 letters of the table, with no Ctrl, Alt or extended prefix in force; the scan code
  delivered is that of the key.\<close>

theorem letter_case:
  assumes "info \<in> set scan_to_scanascii" "si_lock_flags info = KF0_CAPSACTIVE"
    and "f0 AND KF0_ALTACTIVE = 0" "f0 AND KF0_CTRLACTIVE = 0" "f2 AND KF2_LAST_E0 = 0"
  shows "let c = snd (key_ascii f0 f2 sc info) in
    (if (f0 AND (KF0_RSHIFT OR KF0_LSHIFT) \<noteq> 0) \<noteq> (f0 AND KF0_CAPSACTIVE \<noteq> 0)
     then c \<in> {0x41..0x5a} else c \<in> {0x61..0x7a})
    \<and> fst (key_ascii f0 f2 sc info) = ucast (drop_bit 8 (si_normal info))"
proof -
  have "list_all (\<lambda>i. si_lock_flags i = KF0_CAPSACTIVE \<longrightarrow>
      (ucast (si_normal i) :: u8) \<in> {0x61..0x7a} \<and> (ucast (si_shift i) :: u8) \<in> {0x41..0x5a}
      \<and> drop_bit 8 (si_shift i) = drop_bit 8 (si_normal i)) scan_to_scanascii"
    by (simp add: scan_to_scanascii_def scan_def kbd_flags)
  then have "(ucast (si_normal info) :: u8) \<in> {0x61..0x7a} \<and> (ucast (si_shift info) :: u8) \<in> {0x41..0x5a}
      \<and> drop_bit 8 (si_shift info) = drop_bit 8 (si_normal info)"
    using assms(1,2) by (auto simp: list_all_iff)
  then show ?thesis using assms(2-) by (simp add: key_ascii_def Let_def)
qed

lemma letter_case_witness:
  "snd (key_ascii KF0_LSHIFT 0 0x1e (scan 0x1e61 0x1e41 0x1e01 0x1e00 KF0_CAPSACTIVE)) \<in> {0x41..0x5a}"
  using letter_case [of "scan 0x1e61 0x1e41 0x1e01 0x1e00 KF0_CAPSACTIVE" KF0_LSHIFT 0 "0x1e"]
  by (simp add: scan_to_scanascii_def scan_def kbd_flags Let_def)

end
