(* ===== verification/Output.thy ===== *)
theory Output
  imports Util
begin

text \<open>
  The formatted output of \<open>src/output.c\<close>. Every sink takes its characters one by one from
  \<open>bvprintf\<close>, so \<open>bvprintf\<close> is the list of characters it passes to \<open>putc\<close>; the sinks
  \<open>putc_str\<close> (\<open>snprintf\<close>) and \<open>putc_screen\<close> are functions on that list. Arguments of the
  variable list are tagged values; taking an argument that is missing or of the other kind is
  undefined in C and \<open>None\<close> here.
\<close>

section \<open>Numbers\<close>

function putuint_loop :: "u32 \<Rightarrow> u8 list \<Rightarrow> u8 list" where
  "putuint_loop val d =
     (let d = (ucast (val mod 10) + 0x30) # d; val = val div 10 in
      if val = 0 then d else putuint_loop val d)"
  by pat_completeness auto
termination
proof (relation "measure (\<lambda>(val, d). unat val)", goal_cases)
  case 1
  show ?case by simp
next
  case (2 val d x xa)
  then have "val \<noteq> 0" by auto
  then have "0 < unat val" by (simp add: unat_gt_0)
  then have "unat val div 10 < unat val" by simp
  then show ?case using 2(2) by (simp add: unat_div)
qed

declare putuint_loop.simps [simp del]

definition putuint :: "u32 \<Rightarrow> u8 list" where
  "putuint val = putuint_loop val []"

definition putsinglehex :: "u32 \<Rightarrow> u8" where
  "putsinglehex val = (if val \<le> 9 then ucast (0x30 + val) else ucast (0x61 + val - 10))"

text \<open>The number of hex digits: \<open>while (tmp >>= 4) width++\<close>.\<close>

function hex_digits :: "u32 \<Rightarrow> nat" where
  "hex_digits tmp = (let tmp = drop_bit 4 tmp in if tmp \<noteq> 0 then Suc (hex_digits tmp) else 1)"
  by pat_completeness auto
termination
proof (relation "measure unat", goal_cases)
  case 1
  show ?case by simp
next
  case (2 tmp x)
  then have "tmp \<noteq> 0" by auto
  then have "0 < unat tmp" by (simp add: unat_gt_0)
  then have "unat tmp div 16 < unat tmp" by simp
  then show ?case using 2(1) by (simp add: drop_bit_eq_div unat_div)
qed

declare hex_digits.simps [simp del]

definition hex_digit :: "u32 \<Rightarrow> nat \<Rightarrow> u8" where
  "hex_digit val i = putsinglehex (drop_bit (4 * i) val AND 0xf)"

text \<open>The \<open>switch\<close> on the width falls through: eight digits at most.\<close>

definition puthex_digits :: "u32 \<Rightarrow> int \<Rightarrow> u8 list" where
  "puthex_digits val width =
     map (hex_digit val) (rev [0..<(if width < 1 \<or> width > 7 then 8 else nat width)])"

definition puthex :: "u32 \<Rightarrow> int \<Rightarrow> bool \<Rightarrow> u8 list" where
  "puthex val width spacepad =
     (if width = 0 then puthex_digits val (int (hex_digits val))
      else if spacepad then
        (let count = int (hex_digits val) in
         if width > count then replicate (nat (width - count)) 0x20 @ puthex_digits val count
         else puthex_digits val width)
      else puthex_digits val width)"

section \<open>Format strings\<close>

datatype va_arg = ArgInt u32 | ArgStr "u8 list" | ArgNull

text \<open>\<open>isdigit\<close>, a macro-like function of this name.\<close>

definition is_digit :: "u8 \<Rightarrow> bool" where
  "is_digit c \<longleftrightarrow> c - 0x30 < 10"

fun field_scan :: "int \<Rightarrow> bool \<Rightarrow> u8 list \<Rightarrow> int \<times> bool \<times> u8 list" where
  "field_scan w sp [] = (w, sp, [])"
| "field_scan w sp (c # n) =
     (if \<not> is_digit c then (w, sp, c # n)
      else if w = 0 \<and> c = 0x30 then field_scan w False n
      else field_scan (w * 10 + uint c - 0x30) sp n)"

lemma field_scan_length: "field_scan w sp n = (w', sp', n') \<Longrightarrow> length n' \<le> length n"
  by (induction w sp n rule: field_scan.induct) (auto split: if_splits)

text \<open>The character at a position of a string; the terminator past its end.\<close>

definition char_at :: "u8 list \<Rightarrow> u8" where
  "char_at n = (case n of [] \<Rightarrow> 0 | c # _ \<Rightarrow> c)"

text \<open>The format specification after a percent sign: field width, padding, the conversion
  character and what follows it.\<close>

definition spec_scan :: "u8 list \<Rightarrow> int \<times> bool \<times> u8 \<times> u8 list" where
  "spec_scan s =
     (case field_scan 0 True s of
        (w, sp, n) \<Rightarrow> let n = (if char_at n = 0x6c then tl n else n) in (w, sp, char_at n, tl n))"

lemma spec_scan_length: "spec_scan s = (w, sp, c, n) \<Longrightarrow> length n \<le> length s"
  using field_scan_length [of 0 True s] by (auto simp: spec_scan_def Let_def split: prod.splits)

definition put_signed :: "u32 \<Rightarrow> u8 list" where
  "put_signed val = (if sint val < 0 then 0x2d # putuint (- val) else putuint val)"

text \<open>One conversion: what it prints, the arguments left, and the rest of the format. The last
  case is the one of an unknown conversion, which prints the percent sign and goes on after it.\<close>

definition convert :: "u8 list \<Rightarrow> va_arg list \<Rightarrow> (u8 list \<times> va_arg list \<times> u8 list) option" where
  "convert s args =
     (case spec_scan s of
        (field_width, spacepad, c, n) \<Rightarrow>
          if c = 0x25 then Some ([0x25], args, n)
          else if c = 0x64 then
            (case args of ArgInt v # args \<Rightarrow> Some (put_signed v, args, n) | _ \<Rightarrow> None)
          else if c = 0x75 then
            (case args of ArgInt v # args \<Rightarrow> Some (putuint v, args, n) | _ \<Rightarrow> None)
          else if c = 0x70 then
            (case args of ArgInt v # args \<Rightarrow> Some (0x30 # 0x78 # puthex v 8 False, args, n) | _ \<Rightarrow> None)
          else if c = 0x78 then
            (case args of ArgInt v # args \<Rightarrow> Some (puthex v field_width spacepad, args, n) | _ \<Rightarrow> None)
          else if c = 0x63 then
            (case args of ArgInt v # args \<Rightarrow> Some ([ucast v], args, n) | _ \<Rightarrow> None)
          else if c = 0x2e then
            (if char_at n \<noteq> 0x73 then Some ([], args, n)
             else case args of
                 ArgStr t # args \<Rightarrow> Some (t, args, tl n)
               | ArgNull # args \<Rightarrow> Some (map of_char ''(NULL)'', args, tl n)
               | _ \<Rightarrow> None)
          else if c = 0x73 then
            (case args of ArgStr t # args \<Rightarrow> Some (t, args, n) | _ \<Rightarrow> None)
          else Some ([0x25], args, s))"

lemma convert_length: "convert s args = Some (out, args', s') \<Longrightarrow> length s' \<le> length s"
  using spec_scan_length [of s]
  by (auto simp: convert_def split: prod.splits if_splits list.splits va_arg.splits)

function bvprintf :: "u8 list \<Rightarrow> va_arg list \<Rightarrow> u8 list option" where
  "bvprintf [] args = Some []"
| "bvprintf (c # s) args =
     (if c \<noteq> 0x25 then map_option ((#) c) (bvprintf s args)
      else case convert s args of
        None \<Rightarrow> None
      | Some (out, args, s) \<Rightarrow> map_option ((@) out) (bvprintf s args))"
  by pat_completeness auto
termination
  by (relation "measure (\<lambda>(s, args). length s)") (auto dest!: convert_length)

section \<open>Sinks\<close>

definition putc_str :: "u32 \<Rightarrow> u8 \<Rightarrow> u32 \<times> memory \<Rightarrow> u32 \<times> memory" where
  "putc_str en c s = (if fst s \<ge> en then s else (fst s + 1, (snd s)(fst s := c)))"

definition snprintf :: "u32 \<Rightarrow> u32 \<Rightarrow> u8 list \<Rightarrow> va_arg list \<Rightarrow> memory \<Rightarrow> (u32 \<times> memory) option" where
  "snprintf str sz fmt args m =
     (if sz = 0 then Some (0, m)
      else case bvprintf fmt args of
        None \<Rightarrow> None
      | Some out \<Rightarrow>
          let (pos, m) = fold (putc_str (str + sz)) out (str, m);
              en = (if pos \<ge> str + sz then str + sz - 1 else pos)
          in Some (en - str, m(en := 0)))"

text \<open>\<open>putc_screen\<close> puts a carriage return before a line feed.\<close>

definition putc_screen :: "u8 \<Rightarrow> u8 list" where
  "putc_screen c = (if c = 0x0a then [0x0d, c] else [c])"

definition printf_screen :: "u8 list \<Rightarrow> va_arg list \<Rightarrow> u8 list option" where
  "printf_screen fmt args = map_option (\<lambda>out. concat (map putc_screen out)) (bvprintf fmt args)"

section \<open>Decimal numbers\<close>

definition dec_digit :: "u8 \<Rightarrow> bool" where
  "dec_digit c \<longleftrightarrow> 0x30 \<le> c \<and> c \<le> 0x39"

definition dec_value :: "u8 list \<Rightarrow> nat" where
  "dec_value ds = foldl (\<lambda>v c. v * 10 + unat (c - 0x30)) 0 ds"

lemma dec_value_append: "dec_value (ds @ es) = foldl (\<lambda>v c. v * 10 + unat (c - 0x30)) (dec_value ds) es"
  by (simp add: dec_value_def)

lemma digit_char:
  fixes v :: u32
  shows "dec_digit (ucast (v mod 10) + 0x30)" "unat ((ucast (v mod 10) + 0x30 :: u8) - 0x30) = unat v mod 10"
    "ucast (v mod 10) + 0x30 = (0x30 :: u8) \<longleftrightarrow> unat v mod 10 = 0"
proof -
  have m: "unat v mod 10 < 10" by simp
  then have u: "unat (ucast (v mod 10) :: u8) = unat v mod 10"
    by (simp add: unsigned_ucast_eq unat_mod take_bit_eq_mod)
  then have u2: "unat (ucast (v mod 10) + 0x30 :: u8) = unat v mod 10 + 0x30"
    using m by (simp add: unat_word_ariths)
  show "dec_digit (ucast (v mod 10) + 0x30)" using u2 m by (simp add: dec_digit_def word_le_nat_alt)
  show "unat ((ucast (v mod 10) + 0x30 :: u8) - 0x30) = unat v mod 10" using u by simp
  show "ucast (v mod 10) + 0x30 = (0x30 :: u8) \<longleftrightarrow> unat v mod 10 = 0"
    using u2 by (simp add: word_unat_eq_iff)
qed

lemma unat_div_10_less: "v div 10 \<noteq> 0 \<Longrightarrow> unat (v div 10) < unat (v :: u32)"
proof -
  assume "v div 10 \<noteq> 0"
  then have "0 < unat v" by (auto simp: unat_gt_0)
  then have "unat v div 10 < unat v" by simp
  then show ?thesis by (simp add: unat_div)
qed

lemma putuint_loop_append: "putuint_loop v d = putuint_loop v [] @ d"
proof (induction "unat v" arbitrary: v d rule: less_induct)
  case less
  show ?case
  proof (cases "v div 10 = 0")
    case True
    then show ?thesis by (simp add: putuint_loop.simps [of v] Let_def)
  next
    case False
    note IH = less [OF unat_div_10_less [OF False]]
    show ?thesis
      using False IH [of "(ucast (v mod 10) + 0x30) # d"] IH [of "[ucast (v mod 10) + 0x30]"]
      by (simp add: putuint_loop.simps [of v] Let_def)
  qed
qed

lemma putuint_rec:
  "putuint v = (if v div 10 = 0 then [] else putuint (v div 10)) @ [ucast (v mod 10) + 0x30]"
  using putuint_loop_append [of "v div 10" "[ucast (v mod 10) + 0x30]"]
  by (simp add: putuint_def putuint_loop.simps [of v] Let_def)

lemma putuint_decimal:
  "list_all dec_digit (putuint v) \<and> dec_value (putuint v) = unat v
   \<and> (putuint v = [0x30] \<or> hd (putuint v) \<noteq> 0x30) \<and> putuint v \<noteq> []"
proof (induction "unat v" arbitrary: v rule: less_induct)
  case less
  show ?case
  proof (cases "v div 10 = 0")
    case True
    then have "unat (v div 10) = 0" by simp
    then have "unat v < 10" by (simp add: unat_div)
    then show ?thesis
      using True digit_char [of v] by (auto simp: putuint_rec [of v] dec_value_def)
  next
    case False
    note IH = less [OF unat_div_10_less [OF False]]
    have ne: "putuint (v div 10) \<noteq> [0x30]"
    proof
      assume "putuint (v div 10) = [0x30]"
      then have "unat (v div 10) = unat (0 :: u32)" using IH by (simp add: dec_value_def)
      then have "v div 10 = 0" by (simp only: word_unat_eq_iff)
      then show False using False by blast
    qed
    have "dec_value (putuint v) = unat (v div 10) * 10 + unat v mod 10"
      using False IH digit_char(2) [of v] by (simp add: putuint_rec [of v] dec_value_append)
    also have "\<dots> = unat v" by (simp add: unat_div)
    finally show ?thesis
      using False IH ne digit_char(1) [of v] by (simp add: putuint_rec [of v])
  qed
qed

section \<open>Hexadecimal numbers\<close>

definition hex_char :: "u8 \<Rightarrow> bool" where
  "hex_char c \<longleftrightarrow> 0x30 \<le> c \<and> c \<le> 0x39 \<or> 0x61 \<le> c \<and> c \<le> 0x66"

definition hex_val :: "u8 \<Rightarrow> nat" where
  "hex_val c = (if c \<le> 0x39 then unat c - 48 else unat c - 87)"

definition hex_value :: "u8 list \<Rightarrow> nat" where
  "hex_value ds = foldl (\<lambda>v c. v * 16 + hex_val c) 0 ds"

lemma less_16: "(n :: nat) < 16 \<Longrightarrow> n \<in> {0, 1, 2, 3, 4, 5, 6, 7, 8, 9, 10, 11, 12, 13, 14, 15}"
  unfolding insert_iff empty_iff by presburger

lemma take_bit_unat_u32: "take_bit 32 (unat (v :: u32)) = unat v"
  using u32_bound [of v] by (simp add: take_bit_nat_eq_self)

lemma nibble_cases:
  fixes x :: u32
  shows "x AND 0xf \<in> {0, 1, 2, 3, 4, 5, 6, 7, 8, 9, 10, 11, 12, 13, 14, 15}"
proof -
  have "x AND 0xf = take_bit 4 x" by (simp add: take_bit_eq_mask mask_eq_exp_minus_1)
  then have "unat (x AND 0xf) = take_bit 4 (unat x)" by (simp only: unsigned_take_bit_eq)
  then have "unat (x AND 0xf) = unat x mod 16" by (simp add: take_bit_eq_mod)
  then have "unat (x AND 0xf) < 16" by simp
  then have "unat (x AND 0xf) \<in> {0, 1, 2, 3, 4, 5, 6, 7, 8, 9, 10, 11, 12, 13, 14, 15}" by (rule less_16)
  then show ?thesis by (auto simp: word_unat_eq_iff)
qed

lemma hex_digit_char: "hex_char (hex_digit v i) \<and> hex_val (hex_digit v i) = unat v div 16 ^ i mod 16"
proof -
  let ?n = "drop_bit (4 * i) v AND 0xf"
  have "?n = take_bit 4 (drop_bit (4 * i) v)" by (simp add: take_bit_eq_mask mask_eq_exp_minus_1)
  then have "unat ?n = take_bit 4 (drop_bit (4 * i) (unat v))"
    by (simp only: unsigned_take_bit_eq unsigned_drop_bit_eq) (simp add: take_bit_unat_u32)
  then have u: "unat ?n = unat v div 16 ^ i mod 16"
    by (simp add: take_bit_eq_mod drop_bit_eq_div power_mult)
  have "hex_char (putsinglehex ?n) \<and> hex_val (putsinglehex ?n) = unat ?n"
    using nibble_cases [of "drop_bit (4 * i) v"] by (auto simp: putsinglehex_def hex_char_def hex_val_def)
  then show ?thesis using u by (simp add: hex_digit_def)
qed

lemma hex_value_digits:
  "foldl (\<lambda>a c. a * 16 + hex_val c) a (map (hex_digit v) (rev [0..<n])) = a * 16 ^ n + unat v mod 16 ^ n"
proof (induction n arbitrary: a)
  case (Suc n)
  have "unat v mod 16 ^ Suc n = 16 ^ n * (unat v div 16 ^ n mod 16) + unat v mod 16 ^ n"
    using mod_mult2_eq [of "unat v" "16 ^ n" 16] by (simp add: mult.commute)
  then show ?case using Suc hex_digit_char [of v n] by (simp add: algebra_simps)
qed simp

lemma hex_digits_bounds: "unat v < 16 ^ hex_digits v \<and> 1 \<le> hex_digits v \<and> hex_digits v \<le> 8
   \<and> (v \<noteq> 0 \<longrightarrow> 16 ^ (hex_digits v - 1) \<le> unat v)"
proof (induction "unat v" arbitrary: v rule: less_induct)
  case less
  let ?t = "drop_bit 4 v"
  have "unat ?t = drop_bit 4 (take_bit 32 (unat v))" by (simp only: unsigned_drop_bit_eq) simp
  then have t: "unat ?t = unat v div 16" by (simp add: drop_bit_eq_div take_bit_unat_u32)
  show ?case
  proof (cases "?t = 0")
    case True
    then have "unat v div 16 = 0" using t by simp
    then have "unat v < 16" by simp
    then show ?thesis using True by (simp add: hex_digits.simps [of v] Let_def Suc_le_eq unat_gt_0)
  next
    case False
    have nz: "0 < unat ?t" using False by (simp add: unat_gt_0)
    then have lt: "unat ?t < unat v" using t by auto
    note IH = less [OF lt]
    have h: "hex_digits v = Suc (hex_digits ?t)" using False by (subst hex_digits.simps) (simp add: Let_def)
    have lo: "16 ^ (hex_digits ?t - 1) \<le> unat v div 16" using IH False t by simp
    have hi: "unat v div 16 < 16 ^ hex_digits ?t" using IH t by simp
    have p: "16 ^ hex_digits ?t = 16 * (16 :: nat) ^ (hex_digits ?t - 1)"
      using IH by (metis Suc_diff_1 less_eq_Suc_le One_nat_def power_Suc)
    have "16 ^ hex_digits ?t \<le> unat v" using lo p by linarith
    moreover have "unat v < 16 * 16 ^ hex_digits ?t" using hi by linarith
    moreover have "hex_digits ?t < 8"
    proof (rule ccontr)
      assume "\<not> ?thesis"
      then have "(16 :: nat) ^ 8 \<le> 16 ^ hex_digits ?t" by (intro power_increasing) auto
      then show False using \<open>16 ^ hex_digits ?t \<le> unat v\<close> u32_bound [of v] by simp
    qed
    ultimately show ?thesis using h by simp
  qed
qed

lemma puthex_digits_spec:
  assumes "1 \<le> w" "w \<le> 8"
  shows "length (puthex_digits v (int w)) = w \<and> list_all hex_char (puthex_digits v (int w))
    \<and> hex_value (puthex_digits v (int w)) = unat v mod 16 ^ w"
proof -
  have e: "puthex_digits v (int w) = map (hex_digit v) (rev [0..<w])"
    using assms by (cases "w = 8") (auto simp: puthex_digits_def)
  show ?thesis
    using hex_digit_char [of v] hex_value_digits [of 0 v w] by (simp add: e list_all_iff hex_value_def)
qed

section \<open>Bounded strings\<close>

lemma putc_str_fold:
  assumes "unat p + n = unat en" "length (take n out) = k"
  shows "fold (putc_str en) out (p, m) =
    (p + of_nat k, \<lambda>a. if unat (a - p) < k then out ! unat (a - p) else m a)"
  using assms
proof (induction out arbitrary: p n m k)
  case Nil
  then show ?case by simp
next
  case (Cons c out)
  show ?case
  proof (cases n)
    case 0
    then have "k = 0" and "en \<le> p" using Cons.prems by (auto simp: word_le_nat_alt)
    have "fold (putc_str en) xs (p, m) = (p, m)" for xs
      using \<open>en \<le> p\<close> by (induction xs) (auto simp: putc_str_def)
    from this [of "c # out"] show ?thesis using \<open>k = 0\<close> by simp
  next
    case (Suc n')
    then obtain k' where k: "k = Suc k'" "length (take n' out) = k'" using Cons.prems(2) by auto
    have lt: "\<not> en \<le> p" using Cons.prems(1) Suc by (simp add: word_le_nat_alt)
    have b: "unat p + 1 < 4294967296" using Cons.prems(1) Suc u32_bound [of en] by simp
    have p1: "unat (p + 1) + n' = unat en"
      using Cons.prems(1) Suc b by (simp add: unat_word_ariths)
    have f: "fold (putc_str en) (c # out) (p, m) = fold (putc_str en) out (p + 1, m(p := c))"
      using lt by (simp add: putc_str_def)
    have "(if unat (a - (p + 1)) < k' then out ! unat (a - (p + 1)) else (m(p := c)) a)
      = (if unat (a - p) < k then (c # out) ! unat (a - p) else m a)" for a
    proof (cases "a = p")
      case True
      have "k' \<le> n'" using k(2) by auto
      then have "k' < 4294967295" using Cons.prems(1) Suc u32_bound [of en] by simp
      then show ?thesis using True k(1) by (simp add: unsigned_minus_1_eq_mask mask_eq_exp_minus_1)
    next
      case False
      then have "unat (a - (p + 1)) = unat (a - p) - 1" "0 < unat (a - p)"
        using unat_minus_1 [of "a - p"] by (simp_all add: algebra_simps unat_gt_0)
      then show ?thesis using False k(1) by (cases "unat (a - p)") auto
    qed
    then show ?thesis
      unfolding f Cons.IH [OF p1 k(2)] by (simp add: k(1) fun_eq_iff add.assoc)
  qed
qed

section \<open>Properties\<close>

text \<open>The conversion \<open>%d\<close> prints every 32-bit value as its signed decimal numeral, without
  leading zeros, and the smallest value without overflow although its negation is not
  representable; \<open>%u\<close> prints the unsigned numeral. A field width is accepted and ignored.\<close>

theorem decimal_correct:
  "\<exists>ds. list_all dec_digit ds \<and> ds \<noteq> [] \<and> (ds = [0x30] \<or> hd ds \<noteq> 0x30)
     \<and> int (dec_value ds) = \<bar>sint v\<bar>
     \<and> bvprintf [0x25, 0x64] [ArgInt v] = Some ((if sint v < 0 then [0x2d] else []) @ ds)
     \<and> bvprintf [0x25, 0x75] [ArgInt v] = Some (putuint v) \<and> dec_value (putuint v) = unat v"
proof -
  let ?w = "if sint v < 0 then - v else v"
  have neg: "int (unat ?w) = \<bar>sint v\<bar>"
  proof -
    have s: "sint v = uint v - 4294967296 * of_bool (bit (uint v) 31)"
      using uint_bounded [of v]
      by (simp add: sint_uint signed_take_bit_eq_take_bit_minus take_bit_eq_mod mod_pos_pos_trivial)
    have b: "uint v < 4294967296" "0 \<le> uint v" using uint_bounded [of v] by simp_all
    show ?thesis
    proof (cases "sint v < 0")
      case True
      then have e: "sint v = uint v - 4294967296" using s b by (cases "bit (uint v) 31") simp_all
      then have "uint v \<noteq> 0" using sint_ge [of v] by auto
      then have "uint (- v) = 4294967296 - uint v"
        using b by (simp add: uint_word_ariths zmod_zminus1_eq_if)
      then show ?thesis using True e b by simp
    next
      case False
      then have "sint v = uint v" using s b by (cases "bit (uint v) 31") simp_all
      then show ?thesis using False b by simp
    qed
  qed
  have d: "bvprintf [0x25, 0x64] [ArgInt v] = Some (put_signed v)"
    "bvprintf [0x25, 0x75] [ArgInt v] = Some (putuint v)"
    by (simp_all add: convert_def spec_scan_def char_at_def is_digit_def)
  have p: "put_signed v = (if sint v < 0 then [0x2d] else []) @ putuint ?w"
    by (simp add: put_signed_def)
  show ?thesis
    using putuint_decimal [of ?w] putuint_decimal [of v] neg
    by (intro exI [of _ "putuint ?w"]) (simp only: d p simp_thms)
qed

lemma decimal_correct_witness:
  "\<exists>ds. int (dec_value ds) = 2147483648 \<and> bvprintf [0x25, 0x64] [ArgInt 0x80000000] = Some (0x2d # ds)"
  using decimal_correct [of "0x80000000"] by auto

text \<open>Hexadecimal output: without a width the numeral is exact and minimal; with a zero-padded
  width from 1 to 8 it has that many digits and is the value modulo the power of 16; a width
  above 8 still prints 8 digits; a blank-padded width no smaller than the numeral pads it on the
  left.\<close>

theorem puthex_correct:
  "hex_value (puthex v 0 sp) = unat v \<and> length (puthex v 0 sp) = hex_digits v
   \<and> (v \<noteq> 0 \<longrightarrow> 16 ^ (hex_digits v - 1) \<le> unat v)
   \<and> (\<forall>w. 1 \<le> w \<and> w \<le> 8 \<longrightarrow> length (puthex v (int w) False) = w
        \<and> hex_value (puthex v (int w) False) = unat v mod 16 ^ w)
   \<and> (\<forall>w. 8 < w \<longrightarrow> puthex v (int w) False = puthex v 8 False)
   \<and> (\<forall>w. hex_digits v \<le> w \<longrightarrow> puthex v (int w) True = replicate (w - hex_digits v) 0x20 @ puthex v 0 sp)"
proof -
  note b = hex_digits_bounds [of v]
  have n: "hex_value (puthex v 0 sp) = unat v" "length (puthex v 0 sp) = hex_digits v"
    using puthex_digits_spec [of "hex_digits v" v] b by (simp_all add: puthex_def)
  have w: "length (puthex v (int w) False) = w \<and> hex_value (puthex v (int w) False) = unat v mod 16 ^ w"
    if "1 \<le> w" "w \<le> 8" for w
    using puthex_digits_spec [OF that] that by (simp add: puthex_def)
  have big: "puthex v (int w) False = puthex v 8 False" if "8 < w" for w
    using that by (simp add: puthex_def puthex_digits_def)
  have pad: "puthex v (int w) True = replicate (w - hex_digits v) 0x20 @ puthex v 0 sp"
    if "hex_digits v \<le> w" for w
  proof -
    have "nat (int w - int (hex_digits v)) = w - hex_digits v" by simp
    then show ?thesis using that b by (auto simp: puthex_def Let_def)
  qed
  show ?thesis using n w big pad b by blast
qed

lemma puthex_correct_witness: "puthex 0xbeef 0 True = [0x62, 0x65, 0x65, 0x66] \<or> hex_value (puthex 0xbeef 0 True) = 0xbeef"
  using puthex_correct [of "0xbeef" True] by simp

text \<open>C36: \<open>snprintf\<close> never writes outside the \<open>size\<close> bytes it was given, always leaves a
  terminated string there, holding as much of the output as fits, and returns the length of
  what it stored, also when the output was cut off.\<close>

theorem snprintf_bounded:
  assumes "bvprintf fmt args = Some out" "0 \<notin> set out" "0 < sz" "unat str + unat sz < 2 ^ 32"
  shows "\<exists>m'. snprintf str sz fmt args m = Some (of_nat (min (length out) (unat sz - 1)), m')
    \<and> cstr m' str (take (unat sz - 1) out)
    \<and> (\<forall>a. unat sz \<le> unat (a - str) \<longrightarrow> m' a = m a)"
proof -
  define k where "k = length (take (unat sz) out)"
  define m1 where "m1 = (\<lambda>a. if unat (a - str) < k then out ! unat (a - str) else m a)"
  define n where "n = min (length out) (unat sz - 1)"
  have sz: "0 < unat sz" using assms(3) by (simp add: word_less_nat_alt)
  have en: "unat str + unat sz = unat (str + sz)" using assms(4) by (simp add: unat_word_ariths)
  have f: "fold (putc_str (str + sz)) out (str, m) = (str + of_nat k, m1)"
    using putc_str_fold [OF en, of out k] by (simp add: k_def m1_def)
  have kb: "k \<le> unat sz" by (simp add: k_def)
  then have uk: "unat (str + of_nat k) = unat str + k"
    using assms(4) by (simp add: unat_word_ariths unat_of_nat_u32)
  have e: "(if str + of_nat k \<ge> str + sz then str + sz - 1 else str + of_nat k) = str + of_nat n"
  proof (cases "unat sz \<le> k")
    case True
    then have "str + sz \<le> str + of_nat k" using en uk by (simp add: word_le_nat_alt)
    moreover have "n = unat sz - 1" using True by (auto simp: n_def k_def)
    moreover have "(of_nat (unat sz - 1) :: u32) = sz - 1" using sz by (simp add: of_nat_diff)
    ultimately show ?thesis by simp
  next
    case False
    then have "\<not> str + sz \<le> str + of_nat k" using en uk by (simp add: word_le_nat_alt)
    moreover have "n = k" using False by (auto simp: n_def k_def)
    ultimately show ?thesis by simp
  qed
  have r: "snprintf str sz fmt args m = Some (of_nat n, m1(str + of_nat n := 0))"
    using assms(1) sz f e by (auto simp: snprintf_def Let_def)
  have nk: "n \<le> k" "n < unat sz" "n < 4294967296" using sz u32_bound [of sz] by (auto simp: n_def k_def)
  have ui: "unat (of_nat i :: u32) = i" if "i \<le> n" for i
    using that nk(3) by (intro unat_of_nat_u32) simp
  have "cstr (m1(str + of_nat n := 0)) str (take (unat sz - 1) out)"
  proof -
    have "length (take (unat sz - 1) out) = n" by (simp add: n_def)
    moreover have "(m1(str + of_nat n := 0)) (str + of_nat i) = out ! i \<and> out ! i \<noteq> 0" if "i < n" for i
    proof -
      have "(of_nat i :: u32) \<noteq> of_nat n" using ui [of i] ui [of n] that by auto
      moreover have "out ! i \<in> set out" using that by (simp add: n_def)
      ultimately show ?thesis using ui [of i] that nk(1) assms(2) by (auto simp: m1_def)
    qed
    ultimately show ?thesis by (simp add: cstr_def n_def)
  qed
  moreover have "(m1(str + of_nat n := 0)) a = m a" if "unat sz \<le> unat (a - str)" for a
  proof -
    have "a \<noteq> str + of_nat n" using that ui [of n] nk(2) by auto
    then show ?thesis using that kb by (simp add: m1_def)
  qed
  ultimately show ?thesis using r by (auto simp: n_def)
qed

lemma snprintf_bounded_witness:
  "\<exists>m'. snprintf 0x1000 4 [0x78, 0x25, 0x78] [ArgInt 0xbeef] (\<lambda>_. 1) = Some (3, m') \<and> cstr m' 0x1000 [0x78, 0x62, 0x65]"
proof -
  have "puthex 0xbeef 0 True = [0x62, 0x65, 0x65, 0x66]"
    by (simp add: puthex_def puthex_digits_def hex_digits.simps Let_def hex_digit_def putsinglehex_def upt_rec)
  then have o: "bvprintf [0x78, 0x25, 0x78] [ArgInt 0xbeef] = Some [0x78, 0x62, 0x65, 0x65, 0x66]"
    by (simp add: convert_def spec_scan_def char_at_def is_digit_def)
  show ?thesis using snprintf_bounded [OF o, of 4 "0x1000" "\<lambda>_. 1"] by auto
qed

end
