(* ===== verification/Boot.thy ===== *)
theory Boot
  imports Output
begin

text \<open>
  Boot order and boot sequence of \<open>src/boot.c\<close>. Strings are lists of bytes without the
  terminator. The boot list holds its entries in list order; \<open>drives\<close> gives the type and the
  controller id of a drive descriptor from its address. Parameters: the result of the memory
  allocations that can fail, keystrokes, and the effect of the calls into other parts of the
  system (option ROM vectors, drive mapping, disk reads), as named at each operation.
  The configuration has \<open>BOOT\<close>, \<open>BOOTORDER\<close> and \<open>BOOTMENU\<close> on and \<open>COREBOOT\<close> off.
\<close>

type_synonym str = "u8 list"

definition chars :: "string \<Rightarrow> str" where
  "chars s = map of_char s"

section \<open>Boot priority ordering\<close>

fun split_lines :: "str \<Rightarrow> str list" where
  "split_lines [] = [[]]"
| "split_lines (c # s) =
     (if c = 0x0a then [] # split_lines s
      else case split_lines s of l # ls \<Rightarrow> (c # l) # ls | [] \<Rightarrow> [[c]])"

text \<open>\<open>loadBootOrder\<close>: the file, if there is one, is cut at the line feeds and every line loses
  its trailing blanks; without memory for the table the order is empty.\<close>

definition loadBootOrder :: "str option \<Rightarrow> bool \<Rightarrow> str list" where
  "loadBootOrder file alloc_ok =
     (case file of
        None \<Rightarrow> []
      | Some f \<Rightarrow> if \<not> alloc_ok then [] else map rstrip (split_lines f))"

function glob_prefix :: "str \<Rightarrow> str \<Rightarrow> str option" where
  "glob_prefix glob s =
     (if glob = [] \<and> (s = [] \<or> char_at s = 0x2f) then Some s
      else if char_at glob = 0x2a then
        (if s = [] \<or> char_at s = 0x2f \<or> char_at s = char_at (tl glob) then glob_prefix (tl glob) s
         else glob_prefix glob (tl s))
      else if char_at glob \<noteq> char_at s \<or> glob = [] then None
      else glob_prefix (tl glob) (tl s))"
  by pat_completeness auto
termination
proof (relation "measure (\<lambda>(g, s). length g + length s)", goal_cases)
  case 1
  show ?case by simp
next
  case (2 g s)
  then show ?case by (cases g) (auto simp: char_at_def)
next
  case (3 g s)
  then show ?case by (cases s) (auto simp: char_at_def)
next
  case (4 g s)
  then show ?case by (cases g) (auto simp: char_at_def)
qed

declare glob_prefix.simps [simp del]

definition find_prio :: "str list \<Rightarrow> str \<Rightarrow> int" where
  "find_prio bootorder glob =
     (case find (\<lambda>i. glob_prefix glob (bootorder ! i) \<noteq> None) [0..<length bootorder] of
        None \<Rightarrow> -1
      | Some i \<Rightarrow> int i + 1)"

text \<open>A PCI device: the bridge above it, the root bus, device and function number.\<close>

datatype pci_path = PciPath (pp_parent: "pci_path option") (pp_rootbus: u32) (pp_dev: u32) (pp_fn: u32)

text \<open>The formatted pieces; the 256-byte buffers are taken to be large enough.\<close>

definition fmt_hex :: "u32 \<Rightarrow> str" where
  "fmt_hex v = puthex v 0 True"

fun build_pci_path :: "str \<Rightarrow> pci_path \<Rightarrow> str" where
  "build_pci_path devname (PciPath parent rootbus dv fn) =
     (case parent of
        Some p \<Rightarrow> build_pci_path (chars ''pci-bridge'') p
      | None \<Rightarrow> (if rootbus \<noteq> 0 then chars ''/pci-root@'' @ fmt_hex rootbus else []) @ chars ''/pci@i0cf8'')
     @ chars ''/'' @ devname @ chars ''@'' @ fmt_hex dv
     @ (if fn \<noteq> 0 then chars '','' @ fmt_hex fn else [])"

definition bootprio_find_pci_device :: "str list \<Rightarrow> pci_path \<Rightarrow> int" where
  "bootprio_find_pci_device bo pci = find_prio bo (build_pci_path (chars ''*'') pci)"

definition bootprio_find_ata_device :: "str list \<Rightarrow> pci_path option \<Rightarrow> u32 \<Rightarrow> u32 \<Rightarrow> int" where
  "bootprio_find_ata_device bo pci chanid slave =
     (case pci of
        None \<Rightarrow> -1
      | Some p \<Rightarrow> find_prio bo (build_pci_path (chars ''*'') p
          @ chars ''/drive@'' @ fmt_hex chanid @ chars ''/disk@'' @ fmt_hex slave))"

definition bootprio_find_fdc_device :: "str list \<Rightarrow> pci_path option \<Rightarrow> u32 \<Rightarrow> u32 \<Rightarrow> int" where
  "bootprio_find_fdc_device bo pci port fdid =
     (case pci of
        None \<Rightarrow> -1
      | Some p \<Rightarrow> find_prio bo (build_pci_path (chars ''isa'') p
          @ chars ''/fdc@'' @ puthex port 4 False @ chars ''/floppy@'' @ fmt_hex fdid))"

definition rom_suffix :: "u32 \<Rightarrow> str" where
  "rom_suffix inst = (if inst \<noteq> 0 then chars '':rom'' @ put_signed inst else [])"

definition bootprio_find_pci_rom :: "str list \<Rightarrow> pci_path \<Rightarrow> u32 \<Rightarrow> int" where
  "bootprio_find_pci_rom bo pci inst =
     find_prio bo (build_pci_path (chars ''*'') pci @ rom_suffix inst)"

definition bootprio_find_named_rom :: "str list \<Rightarrow> str \<Rightarrow> u32 \<Rightarrow> int" where
  "bootprio_find_named_rom bo name inst = find_prio bo (chars ''/rom@'' @ name @ rom_suffix inst)"

definition usb_hubs :: "u64 \<Rightarrow> str" where
  "usb_hubs path =
     concat (map (\<lambda>i. let port = ucast (drop_bit i path) AND 0xff :: u32 in
                      if port \<noteq> 0xff then chars ''/hub@'' @ fmt_hex port else [])
       [56, 48, 40, 32, 24, 16, 8])"

definition bootprio_find_usb :: "str list \<Rightarrow> pci_path \<Rightarrow> u64 \<Rightarrow> int" where
  "bootprio_find_usb bo pci path =
     find_prio bo (build_pci_path (chars ''usb'') pci @ usb_hubs path
       @ chars ''/*@'' @ fmt_hex (ucast (path AND 0xff)))"

section \<open>Boot setup\<close>

definition DEFAULT_PRIO :: int where "DEFAULT_PRIO = 9999"

record boot_prio =
  CheckFloppySig :: bool
  DefaultFloppyPrio :: int
  DefaultCDPrio :: int
  DefaultHDPrio :: int
  DefaultBEVPrio :: int

definition boot_prio_init :: boot_prio where
  "boot_prio_init = \<lparr>CheckFloppySig = True, DefaultFloppyPrio = 101, DefaultCDPrio = 102,
     DefaultHDPrio = 103, DefaultBEVPrio = 104\<rparr>"

definition boot_prio_nibble :: "u32 \<Rightarrow> int \<Rightarrow> boot_prio \<Rightarrow> boot_prio" where
  "boot_prio_nibble val i p =
     (if val = 1 then p\<lparr>DefaultFloppyPrio := i\<rparr>
      else if val = 2 then p\<lparr>DefaultHDPrio := i\<rparr>
      else if val = 3 then p\<lparr>DefaultCDPrio := i\<rparr>
      else if val = 4 then p\<lparr>DefaultBEVPrio := i\<rparr>
      else p)"

text \<open>\<open>flag1\<close> and \<open>flag2\<close> are the CMOS bytes \<open>CMOS_BIOS_BOOTFLAG1\<close> and \<open>CMOS_BIOS_BOOTFLAG2\<close>.\<close>

definition boot_setup :: "u8 \<Rightarrow> u8 \<Rightarrow> boot_prio \<Rightarrow> boot_prio" where
  "boot_setup flag1 flag2 p =
     (let p = (if flag1 AND 1 \<noteq> 0 then p\<lparr>CheckFloppySig := False\<rparr> else p);
          bootorder = ucast flag2 OR push_bit 4 (ucast (flag1 AND 0xf0));
          p = p\<lparr>DefaultFloppyPrio := DEFAULT_PRIO, DefaultCDPrio := DEFAULT_PRIO,
                DefaultHDPrio := DEFAULT_PRIO, DefaultBEVPrio := DEFAULT_PRIO\<rparr>;
          p = boot_prio_nibble (bootorder AND 0xf) 101 p;
          p = boot_prio_nibble (drop_bit 4 bootorder AND 0xf) 102 p
      in boot_prio_nibble (drop_bit 8 bootorder AND 0xf) 103 p)"

section \<open>Boot list\<close>

definition IPL_TYPE_FLOPPY :: int where "IPL_TYPE_FLOPPY = 0x01"
definition IPL_TYPE_HARDDISK :: int where "IPL_TYPE_HARDDISK = 0x02"
definition IPL_TYPE_CDROM :: int where "IPL_TYPE_CDROM = 0x03"
definition IPL_TYPE_CBFS :: int where "IPL_TYPE_CBFS = 0x20"
definition IPL_TYPE_BEV :: int where "IPL_TYPE_BEV = 0x80"
definition IPL_TYPE_BCV :: int where "IPL_TYPE_BCV = 0x81"

lemmas ipl_types = IPL_TYPE_FLOPPY_def IPL_TYPE_HARDDISK_def IPL_TYPE_CDROM_def IPL_TYPE_CBFS_def
  IPL_TYPE_BEV_def IPL_TYPE_BCV_def

record bootentry =
  be_type :: int
  be_data :: u32
  be_priority :: int
  be_description :: str

text \<open>Type and controller id of the drive at an address.\<close>

type_synonym drive_ids = "u32 \<Rightarrow> u8 \<times> u32"

text \<open>The loop of \<open>bootentry_add\<close> stops before \<open>pos\<close>.\<close>

definition be_stops :: "drive_ids \<Rightarrow> bootentry \<Rightarrow> bootentry \<Rightarrow> bool" where
  "be_stops drives be pos \<longleftrightarrow>
     (if be_priority be < be_priority pos then True
      else if be_priority be > be_priority pos then False
      else if be_type be < be_type pos then True
      else if be_type be > be_type pos then False
      else be_type be \<le> IPL_TYPE_CDROM
        \<and> (fst (drives (be_data be)) < fst (drives (be_data pos))
           \<or> fst (drives (be_data be)) = fst (drives (be_data pos))
             \<and> snd (drives (be_data be)) < snd (drives (be_data pos))))"

fun be_insert :: "drive_ids \<Rightarrow> bootentry \<Rightarrow> bootentry list \<Rightarrow> bootentry list" where
  "be_insert drives be [] = [be]"
| "be_insert drives be (pos # bl) =
     (if be_stops drives be pos then be # pos # bl else pos # be_insert drives be bl)"

definition bootentry_add ::
  "drive_ids \<Rightarrow> bool \<Rightarrow> int \<Rightarrow> int \<Rightarrow> u32 \<Rightarrow> str option \<Rightarrow> bootentry list \<Rightarrow> bootentry list" where
  "bootentry_add drives alloc_ok ty prio data desc bl =
     (if \<not> alloc_ok then bl
      else be_insert drives
        \<lparr>be_type = ty, be_data = data, be_priority = prio,
         be_description = (case desc of None \<Rightarrow> chars ''?'' | Some d \<Rightarrow> d)\<rparr> bl)"

definition defPrio :: "int \<Rightarrow> int \<Rightarrow> int" where
  "defPrio priority defaultprio = (if priority < 0 then defaultprio else priority)"

record boot_state =
  bs_prio :: boot_prio
  BootList :: "bootentry list"

text \<open>\<open>desc\<close> is the string at the description offset of the option ROM, if it has one.\<close>

definition boot_add_bev ::
  "drive_ids \<Rightarrow> bool \<Rightarrow> u16 \<Rightarrow> u16 \<Rightarrow> str option \<Rightarrow> int \<Rightarrow> boot_state \<Rightarrow> boot_state" where
  "boot_add_bev drives ok sg bev desc prio s =
     s\<lparr>BootList := bootentry_add drives ok IPL_TYPE_BEV (defPrio prio (DefaultBEVPrio (bs_prio s)))
         (SEGOFF sg bev) (Some (case desc of None \<Rightarrow> chars ''Unknown'' | Some d \<Rightarrow> d)) (BootList s),
       bs_prio := (bs_prio s)\<lparr>DefaultBEVPrio := DEFAULT_PRIO\<rparr>\<rparr>"

definition boot_add_bcv ::
  "drive_ids \<Rightarrow> bool \<Rightarrow> u16 \<Rightarrow> u16 \<Rightarrow> str option \<Rightarrow> int \<Rightarrow> boot_state \<Rightarrow> boot_state" where
  "boot_add_bcv drives ok sg ip desc prio s =
     s\<lparr>BootList := bootentry_add drives ok IPL_TYPE_BCV (defPrio prio DEFAULT_PRIO)
         (SEGOFF sg ip) (Some (case desc of None \<Rightarrow> chars ''Legacy option rom'' | Some d \<Rightarrow> d)) (BootList s)\<rparr>"

definition boot_add_floppy :: "drive_ids \<Rightarrow> bool \<Rightarrow> u32 \<Rightarrow> str option \<Rightarrow> int \<Rightarrow> boot_state \<Rightarrow> boot_state" where
  "boot_add_floppy drives ok drive_g desc prio s =
     s\<lparr>BootList := bootentry_add drives ok IPL_TYPE_FLOPPY (defPrio prio (DefaultFloppyPrio (bs_prio s)))
         drive_g desc (BootList s)\<rparr>"

definition boot_add_hd :: "drive_ids \<Rightarrow> bool \<Rightarrow> u32 \<Rightarrow> str option \<Rightarrow> int \<Rightarrow> boot_state \<Rightarrow> boot_state" where
  "boot_add_hd drives ok drive_g desc prio s =
     s\<lparr>BootList := bootentry_add drives ok IPL_TYPE_HARDDISK (defPrio prio (DefaultHDPrio (bs_prio s)))
         drive_g desc (BootList s)\<rparr>"

definition boot_add_cd :: "drive_ids \<Rightarrow> bool \<Rightarrow> u32 \<Rightarrow> str option \<Rightarrow> int \<Rightarrow> boot_state \<Rightarrow> boot_state" where
  "boot_add_cd drives ok drive_g desc prio s =
     s\<lparr>BootList := bootentry_add drives ok IPL_TYPE_CDROM (defPrio prio (DefaultCDPrio (bs_prio s)))
         drive_g desc (BootList s)\<rparr>"

definition boot_add_cbfs :: "drive_ids \<Rightarrow> bool \<Rightarrow> u32 \<Rightarrow> str option \<Rightarrow> int \<Rightarrow> boot_state \<Rightarrow> boot_state" where
  "boot_add_cbfs drives ok data desc prio s =
     s\<lparr>BootList := bootentry_add drives ok IPL_TYPE_CBFS (defPrio prio DEFAULT_PRIO) data desc (BootList s)\<rparr>"

section \<open>Boot menu\<close>

text \<open>The keystrokes of the menu: the scan code read during the wait (negative for none), and the
  codes read afterwards; \<open>None\<close> means that none of them ends the loop.\<close>

definition menu_choice :: "int list \<Rightarrow> nat \<Rightarrow> int option" where
  "menu_choice codes maxmenu = find (\<lambda>c. 1 \<le> c \<and> c \<le> int maxmenu + 1) codes"

definition menu_promote :: "nat \<Rightarrow> bootentry list \<Rightarrow> bootentry list" where
  "menu_promote choice bl =
     (bl ! (choice - 1))\<lparr>be_priority := 0\<rparr> # take (choice - 1) bl @ drop choice bl"

definition interactive_bootmenu ::
  "bool \<Rightarrow> int \<Rightarrow> int list \<Rightarrow> bootentry list \<Rightarrow> bootentry list option" where
  "interactive_bootmenu show_menu key codes bl =
     (if \<not> show_menu then Some bl
      else if key \<noteq> 0x86 then Some bl
      else case menu_choice codes (length bl) of
        None \<Rightarrow> None
      | Some scan_code \<Rightarrow>
          if scan_code = 0x01 then Some bl else Some (menu_promote (nat (scan_code - 1)) bl))"

section \<open>Boot execution vectors\<close>

definition BEV_MAX :: nat where "BEV_MAX = 20"

record bev_state =
  BEV :: "(int \<times> u32) list"
  HaveHDBoot :: nat
  HaveFDBoot :: nat

definition add_bev :: "int \<Rightarrow> u32 \<Rightarrow> bev_state \<Rightarrow> bev_state" where
  "add_bev ty vector s =
     (let hd_before = HaveHDBoot s; fd_before = HaveFDBoot s;
          s = (if ty = IPL_TYPE_HARDDISK then s\<lparr>HaveHDBoot := hd_before + 1\<rparr> else s) in
      if ty = IPL_TYPE_HARDDISK \<and> hd_before \<noteq> 0 then s
      else
        let s = (if ty = IPL_TYPE_FLOPPY then s\<lparr>HaveFDBoot := fd_before + 1\<rparr> else s) in
        if ty = IPL_TYPE_FLOPPY \<and> fd_before \<noteq> 0 then s
        else if length (BEV s) \<ge> BEV_MAX then s
        else s\<lparr>BEV := BEV s @ [(ty, vector)]\<rparr>)"

text \<open>What \<open>boot_prep\<close> does outside this file for an entry: run the vector of an option ROM, or
  map the drive.\<close>

datatype boot_call = CallBcv u32 | MapFloppy u32 | MapHd u32 | MapCd u32

definition prep_entry :: "bootentry \<Rightarrow> boot_call list \<times> bev_state \<Rightarrow> boot_call list \<times> bev_state" where
  "prep_entry pos s =
     (if be_type pos = IPL_TYPE_BCV then
        (fst s @ [CallBcv (be_data pos)], add_bev IPL_TYPE_HARDDISK 0 (snd s))
      else if be_type pos = IPL_TYPE_FLOPPY then
        (fst s @ [MapFloppy (be_data pos)], add_bev IPL_TYPE_FLOPPY 0 (snd s))
      else if be_type pos = IPL_TYPE_HARDDISK then
        (fst s @ [MapHd (be_data pos)], add_bev IPL_TYPE_HARDDISK 0 (snd s))
      else if be_type pos = IPL_TYPE_CDROM then
        (fst s @ [MapCd (be_data pos)], add_bev (be_type pos) (be_data pos) (snd s))
      else (fst s, add_bev (be_type pos) (be_data pos) (snd s)))"

definition bev_init :: bev_state where
  "bev_init = \<lparr>BEV = [], HaveHDBoot = 0, HaveFDBoot = 0\<rparr>"

definition boot_prep ::
  "bool \<Rightarrow> int \<Rightarrow> int list \<Rightarrow> bootentry list \<Rightarrow> (boot_call list \<times> bev_state) option" where
  "boot_prep show_menu key codes bl =
     (case interactive_bootmenu show_menu key codes bl of
        None \<Rightarrow> None
      | Some bl \<Rightarrow>
          (case fold prep_entry bl ([], bev_init) of
             (calls, s) \<Rightarrow> Some (calls, add_bev IPL_TYPE_HARDDISK 0 (add_bev IPL_TYPE_FLOPPY 0 s))))"

section \<open>Boot code (INT 18h and INT 19h)\<close>

text \<open>The registers of the call that enters boot code, or \<open>None\<close> when the attempt failed. The
  INT 13h handler is the parameter \<open>int13\<close>, the El Torito boot of a drive the parameter
  \<open>cdrom_boot\<close>, which gives the status, the boot drive and the load segment.\<close>

definition MBR_SIGNATURE :: u16 where "MBR_SIGNATURE = 0xaa55"

definition zero_regs :: bregs where
  "zero_regs = \<lparr>r_ds = 0, r_es = 0, r_edi = 0, r_esi = 0, r_ebp = 0, r_ebx = 0, r_edx = 0, r_ecx = 0,
     r_eax = 0, r_code = 0, r_flags = 0\<rparr>"

definition call_boot_entry :: "u32 \<Rightarrow> u8 \<Rightarrow> bregs" where
  "call_boot_entry bootsegip bootdrv =
     set_ax 0xaa55 (set_dl bootdrv (zero_regs\<lparr>r_flags := F_IF, r_code := bootsegip\<rparr>))"

definition boot_entry_point :: "u16 \<Rightarrow> u8 \<Rightarrow> bregs" where
  "boot_entry_point bootseg bootdrv =
     call_boot_entry (SEGOFF (bootseg AND 0xf000) (push_bit 4 (bootseg AND 0x0fff))) bootdrv"

type_synonym 'a int13 = "bregs \<Rightarrow> 'a machine_scheme \<Rightarrow> bregs \<times> 'a machine_scheme"

definition boot_disk :: "'a int13 \<Rightarrow> u8 \<Rightarrow> bool \<Rightarrow> 'a machine_scheme \<Rightarrow> bregs option \<times> 'a machine_scheme" where
  "boot_disk int13 bootdrv checksig st =
     (let bootseg = 0x07c0;
          br = set_cl 1 (set_al 1 (set_ah 2 (set_dl bootdrv (zero_regs\<lparr>r_flags := F_IF, r_es := bootseg\<rparr>))))
      in case int13 br st of
        (br, st) \<Rightarrow>
          if carry br then (None, st)
          else if checksig \<and> rd16 (mem st) (MAKE_FLATPTR bootseg 510) \<noteq> MBR_SIGNATURE then (None, st)
          else (Some (boot_entry_point bootseg bootdrv), st))"

definition boot_cdrom ::
  "(u32 \<Rightarrow> 'a machine_scheme \<Rightarrow> int \<times> u8 \<times> u16 \<times> 'a machine_scheme) \<Rightarrow> u32 \<Rightarrow> 'a machine_scheme
   \<Rightarrow> bregs option \<times> 'a machine_scheme" where
  "boot_cdrom cdrom_boot drive_g st =
     (case cdrom_boot drive_g st of
        (status, bootdrv, bootseg, st) \<Rightarrow>
          if status \<noteq> 0 then (None, st) else (Some (boot_entry_point bootseg bootdrv), st))"

definition boot_rom :: "u32 \<Rightarrow> bregs" where
  "boot_rom vector = call_boot_entry vector 0"

datatype boot_result = NoBootable | BootCall bregs | BootFailed

definition do_boot ::
  "'a int13 \<Rightarrow> (u32 \<Rightarrow> 'a machine_scheme \<Rightarrow> int \<times> u8 \<times> u16 \<times> 'a machine_scheme) \<Rightarrow> bool
   \<Rightarrow> (int \<times> u32) list \<Rightarrow> u16 \<Rightarrow> 'a machine_scheme \<Rightarrow> boot_result \<times> 'a machine_scheme" where
  "do_boot int13 cdrom_boot floppy_sig bev seq_nr st =
     (if unat seq_nr \<ge> length bev then (NoBootable, st)
      else
        let ie = bev ! unat seq_nr;
            (res, st) =
              (if fst ie = IPL_TYPE_FLOPPY then boot_disk int13 0x00 floppy_sig st
               else if fst ie = IPL_TYPE_HARDDISK then boot_disk int13 0x80 True st
               else if fst ie = IPL_TYPE_CDROM then boot_cdrom cdrom_boot (snd ie) st
               else if fst ie = IPL_TYPE_BEV then (Some (boot_rom (snd ie)), st)
               else (None, st))
        in (case res of None \<Rightarrow> BootFailed | Some br \<Rightarrow> BootCall br, st))"

text \<open>\<open>handle_19\<close> and \<open>handle_18\<close>: the number of the attempt is kept in the EBDA.\<close>

definition handle_19 ::
  "'a int13 \<Rightarrow> (u32 \<Rightarrow> 'a machine_scheme \<Rightarrow> int \<times> u8 \<times> u16 \<times> 'a machine_scheme) \<Rightarrow> bool
   \<Rightarrow> (int \<times> u32) list \<Rightarrow> u16 \<times> 'a machine_scheme \<Rightarrow> boot_result \<times> u16 \<times> 'a machine_scheme" where
  "handle_19 int13 cdrom_boot floppy_sig bev s =
     (case do_boot int13 cdrom_boot floppy_sig bev 0 (snd s) of (r, st) \<Rightarrow> (r, 0, st))"

definition handle_18 ::
  "'a int13 \<Rightarrow> (u32 \<Rightarrow> 'a machine_scheme \<Rightarrow> int \<times> u8 \<times> u16 \<times> 'a machine_scheme) \<Rightarrow> bool
   \<Rightarrow> (int \<times> u32) list \<Rightarrow> u16 \<times> 'a machine_scheme \<Rightarrow> boot_result \<times> u16 \<times> 'a machine_scheme" where
  "handle_18 int13 cdrom_boot floppy_sig bev s =
     (let seq_nr = fst s + 1 in
      case do_boot int13 cdrom_boot floppy_sig bev seq_nr (snd s) of (r, st) \<Rightarrow> (r, seq_nr, st))"

end
