(* ===== verification/BootSpec.thy ===== *)
theory BootSpec
  imports Boot "HOL-Library.Product_Lexorder" "HOL-Library.Multiset"
begin

text \<open>
  The properties of the boot order of \<open>src/boot.c\<close>: what a glob matches, that the boot list is
  the stable sort of what was registered, and what \<open>boot_prep\<close> and the boot handlers do with it.
  Insertion after the equal entries, which the boot list and the PCI resource lists share, is
  the locale \<open>stable_insertion\<close>.
\<close>

section \<open>Stable insertion\<close>

locale stable_insertion =
  fixes key :: "'a \<Rightarrow> 'k::linorder"
    and ins :: "'a \<Rightarrow> 'a list \<Rightarrow> 'a list"
  assumes ins_Nil: "ins x [] = [x]"
    and ins_Cons: "ins x (y # ys) = (if key x < key y then x # y # ys else y # ins x ys)"
begin

lemma ins_mset: "mset (ins x ys) = add_mset x (mset ys)"
  by (induction ys) (auto simp: ins_Nil ins_Cons)

lemma ins_set: "set (ins x ys) = insert x (set ys)"
  by (induction ys) (auto simp: ins_Nil ins_Cons)

lemma ins_sorted: "sorted (map key ys) \<Longrightarrow> sorted (map key (ins x ys))"
  by (induction ys) (auto simp: ins_Nil ins_Cons ins_set)

lemma ins_filter: "sorted (map key ys) \<Longrightarrow>
   filter (\<lambda>y. k = key y) (ins x ys) = filter (\<lambda>y. k = key y) ys @ (if k = key x then [x] else [])"
proof (induction ys)
  case (Cons y ys)
  show ?case
  proof (cases "key x < key y")
    case True
    have "\<forall>z \<in> set (y # ys). key x < key z" using Cons.prems True by (auto intro: order.strict_trans2)
    then have "filter (\<lambda>z. key x = key z) (y # ys) = []" by (fastforce simp: filter_empty_conv)
    then show ?thesis using True by (cases "k = key x") (simp_all add: ins_Cons)
  next
    case False
    then show ?thesis using Cons by (auto simp: ins_Cons)
  qed
qed (simp add: ins_Nil)

theorem fold_ins: "fold ins xs [] = sort_key key xs"
proof -
  have *: "sorted (map key ys) \<Longrightarrow> sorted (map key (fold ins xs ys))
    \<and> mset (fold ins xs ys) = mset xs + mset ys
    \<and> filter (\<lambda>y. k = key y) (fold ins xs ys) = filter (\<lambda>y. k = key y) ys @ filter (\<lambda>y. k = key y) xs" for ys k
    by (induction xs arbitrary: ys) (auto simp: ins_sorted ins_mset ins_filter)
  show ?thesis
    using * [of "[]"] by (intro properties_for_sort_key [symmetric]) auto
qed

end

section \<open>Globs\<close>

text \<open>What a glob matches, declaratively: a prefix of the string that ends at its end or before a
  slash, where an asterisk stands for the characters up to the next slash, the next glob
  character or the end.\<close>

definition glob_stop :: "str \<Rightarrow> str \<Rightarrow> bool" where
  "glob_stop g s \<longleftrightarrow> s = [] \<or> hd s = 0x2f \<or> (g \<noteq> [] \<and> hd s = hd g)"

inductive glob_match :: "str \<Rightarrow> str \<Rightarrow> str \<Rightarrow> bool" where
  glob_end: "r = [] \<or> hd r = 0x2f \<Longrightarrow> glob_match [] r r"
| glob_char: "c \<noteq> 0x2a \<Longrightarrow> glob_match g s r \<Longrightarrow> glob_match (c # g) (c # s) r"
| glob_star: "\<forall>x \<in> set u. x \<noteq> 0x2f \<and> (g \<noteq> [] \<longrightarrow> x \<noteq> hd g) \<Longrightarrow> glob_stop g v \<Longrightarrow> glob_match g v r
    \<Longrightarrow> glob_match (0x2a # g) (u @ v) r"

inductive_cases glob_match_NilE: "glob_match [] s r"
inductive_cases glob_match_ConsE: "glob_match (c # g) s r"

lemma glob_prefix_Nil: "glob_prefix [] s = (if s = [] \<or> hd s = 0x2f then Some s else None)"
  by (subst glob_prefix.simps) (cases s; auto simp: char_at_def)

lemma glob_prefix_star:
  assumes "0 \<notin> set s"
  shows "glob_prefix (0x2a # g) s = (if glob_stop g s then glob_prefix g s else glob_prefix (0x2a # g) (tl s))"
  using assms
  by (subst glob_prefix.simps) (cases s; cases g; auto simp: char_at_def glob_stop_def)

lemma glob_prefix_char:
  assumes "c \<noteq> 0x2a" "c \<noteq> 0"
  shows "glob_prefix (c # g) s = (if s = [] \<or> hd s \<noteq> c then None else glob_prefix g (tl s))"
  using assms by (subst glob_prefix.simps) (cases s; auto simp: char_at_def)

lemma glob_prefix_match:
  "0 \<notin> set g \<Longrightarrow> 0 \<notin> set s \<Longrightarrow> glob_prefix g s = Some r \<Longrightarrow> glob_match g s r"
proof (induction "length g + length s" arbitrary: g s rule: less_induct)
  case less
  show ?case
  proof (cases g)
    case Nil
    then show ?thesis using less.prems by (auto simp: glob_prefix_Nil intro: glob_end split: if_splits)
  next
    case (Cons c g')
    show ?thesis
    proof (cases "c = 0x2a")
      case True
      show ?thesis
      proof (cases "glob_stop g' s")
        case True
        then have "glob_match g' s r" using less Cons \<open>c = 0x2a\<close> by (simp add: glob_prefix_star)
        then have "glob_match (0x2a # g') ([] @ s) r" using True by (intro glob_star) auto
        then show ?thesis using Cons \<open>c = 0x2a\<close> by simp
      next
        case False
        then obtain x s' where s: "s = x # s'" by (cases s) (auto simp: glob_stop_def)
        have "glob_prefix g s' = Some r" using less.prems Cons \<open>c = 0x2a\<close> False s by (simp add: glob_prefix_star)
        then have "glob_match g s' r" using less s by simp
        then obtain u v where uv: "s' = u @ v" "\<forall>x \<in> set u. x \<noteq> 0x2f \<and> (g' \<noteq> [] \<longrightarrow> x \<noteq> hd g')"
          "glob_stop g' v" "glob_match g' v r"
          using Cons \<open>c = 0x2a\<close> by (auto elim: glob_match_ConsE)
        have "x \<noteq> 0x2f \<and> (g' \<noteq> [] \<longrightarrow> x \<noteq> hd g')" using False s by (auto simp: glob_stop_def)
        then have "glob_match (0x2a # g') ((x # u) @ v) r" using uv by (intro glob_star) auto
        then show ?thesis using Cons \<open>c = 0x2a\<close> s uv(1) by simp
      qed
    next
      case False
      then have "s \<noteq> []" "hd s = c" "glob_prefix g' (tl s) = Some r"
        using less.prems Cons by (auto simp: glob_prefix_char split: if_splits)
      moreover from this have "glob_match g' (tl s) r" using less Cons by (cases s) auto
      ultimately show ?thesis using Cons False glob_char [of c g' "tl s" r] by (cases s) auto
    qed
  qed
qed

lemma glob_match_prefix:
  "glob_match g s r \<Longrightarrow> 0 \<notin> set g \<Longrightarrow> 0 \<notin> set s \<Longrightarrow> glob_prefix g s = Some r"
proof (induction rule: glob_match.induct)
  case (glob_star u g v r)
  show ?case
    using glob_star.hyps(1) glob_star.prems
  proof (induction u)
    case Nil
    then show ?case using glob_star by (simp add: glob_prefix_star)
  next
    case (Cons x u)
    then have "\<not> glob_stop g (x # u @ v)" by (auto simp: glob_stop_def)
    then show ?case using Cons by (simp add: glob_prefix_star)
  qed
qed (auto simp: glob_prefix_Nil glob_prefix_char)

text \<open>C33: the matcher of boot order entries computes exactly the declarative relation: it returns
  on every input, and returns a rest if and only if the glob matches up to that rest, which
  begins at a component boundary.\<close>

theorem glob_prefix_correct:
  assumes "0 \<notin> set g" "0 \<notin> set s"
  shows "glob_prefix g s = Some r \<longleftrightarrow> glob_match g s r"
  using glob_prefix_match [OF assms] glob_match_prefix assms by blast

lemma glob_prefix_correct_witness:
  "glob_match [0x2a, 0x40, 0x35] [0x61, 0x62, 0x40, 0x35, 0x2f, 0x78] [0x2f, 0x78]"
  using glob_prefix_correct [of "[0x2a, 0x40, 0x35]" "[0x61, 0x62, 0x40, 0x35, 0x2f, 0x78]" "[0x2f, 0x78]"]
  by (simp add: glob_prefix_star glob_prefix_char glob_prefix_Nil glob_stop_def)

section \<open>The boot list\<close>

definition be_key :: "drive_ids \<Rightarrow> bootentry \<Rightarrow> int \<times> int \<times> u8 \<times> u32" where
  "be_key drives be = (be_priority be, be_type be,
     if be_type be \<le> IPL_TYPE_CDROM then drives (be_data be) else (0, 0))"

lemma be_stops_key: "be_stops drives be pos \<longleftrightarrow> be_key drives be < be_key drives pos"
proof -
  have lex: "(a, p) < (a', p') \<longleftrightarrow> a < a' \<or> a = a' \<and> p < p'"
    for a a' :: "'x::linorder" and p p' :: "'y::linorder"
    by (auto simp: less_prod_def)
  have "p < q \<longleftrightarrow> fst p < fst q \<or> fst p = fst q \<and> snd p < snd q"
    for p q :: "'x::linorder \<times> 'y::linorder"
    using lex [of "fst p" "snd p" "fst q" "snd q"] by simp
  note lexp = this [of "drives (be_data be)" "drives (be_data pos)"]
  consider "be_priority be < be_priority pos" | "be_priority be > be_priority pos"
    | "be_priority be = be_priority pos" "be_type be < be_type pos"
    | "be_priority be = be_priority pos" "be_type be > be_type pos"
    | "be_priority be = be_priority pos" "be_type be = be_type pos" by linarith
  then show ?thesis
    by cases (auto simp: be_stops_def be_key_def lex lexp)
qed

interpretation boot: stable_insertion "be_key drives" "be_insert drives" for drives
  by unfold_locales (simp_all add: be_stops_key)

definition be_of :: "int \<times> int \<times> u32 \<times> str option \<Rightarrow> bootentry" where
  "be_of r = (case r of (ty, prio, data, desc) \<Rightarrow>
     \<lparr>be_type = ty, be_data = data, be_priority = prio,
      be_description = (case desc of None \<Rightarrow> chars ''?'' | Some d \<Rightarrow> d)\<rparr>)"

lemma bootentry_add_of:
  "(case r of (ty, prio, data, desc) \<Rightarrow> bootentry_add drives True ty prio data desc bl)
     = be_insert drives (be_of r) bl"
  by (cases r) (simp add: bootentry_add_def be_of_def)

text \<open>C31: the boot list is the stable sort of everything registered, in any number and order, by
  priority, then device type, then, for floppies, hard disks and CD-ROMs, driver type and
  controller id; equal entries keep the order of their registration and none is lost, as long as the
  allocation of each entry succeeds.\<close>

theorem boot_list_sorted:
  "fold (\<lambda>r bl. case r of (ty, prio, data, desc) \<Rightarrow> bootentry_add drives True ty prio data desc bl) rs []
     = sort_key (be_key drives) (map be_of rs)"
proof -
  have "fold (\<lambda>r bl. case r of (ty, prio, data, desc) \<Rightarrow> bootentry_add drives True ty prio data desc bl) rs []
      = fold (\<lambda>r. be_insert drives (be_of r)) rs []"
    by (simp only: bootentry_add_of)
  also have "\<dots> = fold (be_insert drives) (map be_of rs) []"
    by (simp add: fold_map comp_def)
  finally show ?thesis by (simp only: boot.fold_ins)
qed

section \<open>The boot menu\<close>

text \<open>A choice in the boot menu moves the chosen entry to the front with priority 0 and keeps
  all others, in their order; Escape, another key at the prompt, or no key leave the list as it
  is; a key that is not a menu entry is ignored and the menu goes on waiting.\<close>

theorem bootmenu_choice:
  "interactive_bootmenu True key codes bl =
     (if key \<noteq> 0x86 then Some bl
      else case find (\<lambda>c. 1 \<le> c \<and> c \<le> int (length bl) + 1) codes of
        None \<Rightarrow> None
      | Some c \<Rightarrow> Some (if c = 1 then bl
          else (bl ! nat (c - 2))\<lparr>be_priority := 0\<rparr> # take (nat (c - 2)) bl @ drop (Suc (nat (c - 2))) bl))"
proof -
  have e: "nat (c - 1) - 1 = nat (c - 2)" "nat (c - 1) = Suc (nat (c - 2))" if "2 \<le> c" for c :: int
    using that by auto
  show ?thesis
  proof (cases "find (\<lambda>c. 1 \<le> c \<and> c \<le> int (length bl) + 1) codes")
    case (Some c)
    then have "1 \<le> c" by (auto simp: find_Some_iff)
    then show ?thesis
      using Some e [of c] by (auto simp: interactive_bootmenu_def menu_choice_def menu_promote_def)
  qed (simp add: interactive_bootmenu_def menu_choice_def)
qed

section \<open>Boot execution vectors\<close>

text \<open>What an entry asks for, and the list with only the first hard disk and floppy boot kept.\<close>

definition bev_of :: "bootentry \<Rightarrow> int \<times> u32" where
  "bev_of be = (if be_type be = IPL_TYPE_BCV \<or> be_type be = IPL_TYPE_HARDDISK then (IPL_TYPE_HARDDISK, 0)
     else if be_type be = IPL_TYPE_FLOPPY then (IPL_TYPE_FLOPPY, 0)
     else (be_type be, be_data be))"

definition call_of :: "bootentry \<Rightarrow> boot_call list" where
  "call_of be = (if be_type be = IPL_TYPE_BCV then [CallBcv (be_data be)]
     else if be_type be = IPL_TYPE_FLOPPY then [MapFloppy (be_data be)]
     else if be_type be = IPL_TYPE_HARDDISK then [MapHd (be_data be)]
     else if be_type be = IPL_TYPE_CDROM then [MapCd (be_data be)] else [])"

fun bev_dedup :: "bool \<Rightarrow> bool \<Rightarrow> (int \<times> u32) list \<Rightarrow> (int \<times> u32) list" where
  "bev_dedup h f [] = []"
| "bev_dedup h f (b # bs) =
     (if fst b = IPL_TYPE_HARDDISK then (if h then [] else [b]) @ bev_dedup True f bs
      else if fst b = IPL_TYPE_FLOPPY then (if f then [] else [b]) @ bev_dedup h True bs
      else b # bev_dedup h f bs)"

definition bev_rep :: "bev_state \<Rightarrow> (int \<times> u32) list \<Rightarrow> bool" where
  "bev_rep s bs \<longleftrightarrow> BEV s = take BEV_MAX (bev_dedup False False bs)
     \<and> (HaveHDBoot s \<noteq> 0 \<longleftrightarrow> IPL_TYPE_HARDDISK \<in> fst ` set bs)
     \<and> (HaveFDBoot s \<noteq> 0 \<longleftrightarrow> IPL_TYPE_FLOPPY \<in> fst ` set bs)"

lemma bev_dedup_snoc:
  "bev_dedup h f (bs @ [b]) = bev_dedup h f bs @
     (if fst b = IPL_TYPE_HARDDISK \<and> (h \<or> IPL_TYPE_HARDDISK \<in> fst ` set bs)
         \<or> fst b = IPL_TYPE_FLOPPY \<and> (f \<or> IPL_TYPE_FLOPPY \<in> fst ` set bs) then [] else [b])"
  by (induction h f bs rule: bev_dedup.induct) (auto simp: ipl_types)

lemma add_bev_rep: "bev_rep s bs \<Longrightarrow> bev_rep (add_bev ty v s) (bs @ [(ty, v)])"
  unfolding bev_rep_def bev_dedup_snoc
  by (auto simp: add_bev_def Let_def ipl_types)

lemma prep_entry_rep:
  "bev_rep (snd s) bs \<Longrightarrow> bev_rep (snd (prep_entry be s)) (bs @ [bev_of be])
   \<and> fst (prep_entry be s) = fst s @ call_of be"
  using add_bev_rep [of "snd s" bs] by (auto simp: prep_entry_def bev_of_def call_of_def ipl_types)

lemma prep_all_rep:
  "bev_rep (snd s) bs \<Longrightarrow> bev_rep (snd (fold prep_entry bl s)) (bs @ map bev_of bl)
   \<and> fst (fold prep_entry bl s) = fst s @ concat (map call_of bl)"
proof (induction bl arbitrary: s bs)
  case (Cons be bl)
  note p = prep_entry_rep [OF Cons.prems, of be]
  show ?case using Cons.IH [OF p [THEN conjunct1]] p by simp
qed simp

text \<open>\<open>boot_prep\<close> maps the drives and runs the vectors of the boot list once each, in order, and
  leaves as boot attempts the entries of the list in order, with one hard disk boot and one
  floppy boot at most, each at the place of its first entry, or after all others when there is
  no such entry, cut off at 20.\<close>

theorem boot_prep_attempts:
  "\<exists>s. boot_prep False key codes bl = Some (concat (map call_of bl), s)
     \<and> BEV s = take 20 (bev_dedup False False (map bev_of bl @ [(IPL_TYPE_FLOPPY, 0), (IPL_TYPE_HARDDISK, 0)]))"
proof -
  obtain calls s where f: "fold prep_entry bl ([], bev_init) = (calls, s)" by force
  have "bev_rep bev_init []" by (simp add: bev_rep_def bev_init_def)
  then have "bev_rep s (map bev_of bl)" "calls = concat (map call_of bl)"
    using prep_all_rep [of "([], bev_init)" "[]" bl] f by auto
  moreover from this(1) have "bev_rep (add_bev IPL_TYPE_HARDDISK 0 (add_bev IPL_TYPE_FLOPPY 0 s))
      (map bev_of bl @ [(IPL_TYPE_FLOPPY, 0), (IPL_TYPE_HARDDISK, 0)])"
    using add_bev_rep [OF add_bev_rep] by fastforce
  ultimately show ?thesis
    using f by (simp add: boot_prep_def interactive_bootmenu_def bev_rep_def BEV_MAX_def)
qed

section \<open>Boot attempts\<close>

text \<open>INT 19h followed by \<open>k\<close> calls of INT 18h.\<close>

fun boot_chain ::
  "'a int13 \<Rightarrow> (u32 \<Rightarrow> 'a machine_scheme \<Rightarrow> int \<times> u8 \<times> u16 \<times> 'a machine_scheme) \<Rightarrow> bool
   \<Rightarrow> (int \<times> u32) list \<Rightarrow> nat \<Rightarrow> u16 \<times> 'a machine_scheme \<Rightarrow> boot_result \<times> u16 \<times> 'a machine_scheme" where
  "boot_chain i13 cd sig bev 0 s = handle_19 i13 cd sig bev s"
| "boot_chain i13 cd sig bev (Suc k) s = handle_18 i13 cd sig bev (snd (boot_chain i13 cd sig bev k s))"

lemma boot_chain_seq: "fst (snd (boot_chain i13 cd sig bev k s)) = of_nat k"
  by (induction k) (simp_all add: handle_19_def handle_18_def Let_def split_beta)

text \<open>C32: a failing boot goes through every entry: INT 19h tries the first boot vector, and after
  \<open>k\<close> failures reported by INT 18h the vector tried is number \<open>k\<close>; when all have failed, and not
  before, the machine stops with no bootable device.\<close>

theorem boot_tries_all:
  assumes "length bev \<le> 20" "k \<le> length bev"
  shows "\<exists>st. fst (boot_chain i13 cd sig bev k s) = fst (do_boot i13 cd sig bev (of_nat k) st)
    \<and> (fst (boot_chain i13 cd sig bev k s) = NoBootable \<longleftrightarrow> k = length bev)"
proof -
  have n: "fst (do_boot i13 cd sig bev (of_nat k) st) = NoBootable \<longleftrightarrow> k = length bev"
    for st :: "'a machine_scheme"
  proof -
    have "unat (of_nat k :: u16) = k"
      using assms by (simp add: unsigned_of_nat take_bit_nat_eq_self)
    then show ?thesis
      using assms(2) by (auto simp: do_boot_def Let_def split: option.splits prod.splits)
  qed
  have "\<exists>st. fst (boot_chain i13 cd sig bev k s) = fst (do_boot i13 cd sig bev (of_nat k) st)"
  proof (cases k)
    case 0
    then show ?thesis by (auto simp: handle_19_def split_beta)
  next
    case (Suc j)
    have "fst (boot_chain i13 cd sig bev k s) = fst (do_boot i13 cd sig bev (of_nat j + 1)
        (snd (snd (boot_chain i13 cd sig bev j s))))"
      using Suc boot_chain_seq [of i13 cd sig bev j s] by (simp add: handle_18_def Let_def split_beta)
    then show ?thesis using Suc by (metis of_nat_Suc add.commute)
  qed
  then obtain st where "fst (boot_chain i13 cd sig bev k s) = fst (do_boot i13 cd sig bev (of_nat k) st)" ..
  then show ?thesis using n [of st] by (intro exI [of _ st]) simp
qed

definition idle_machine :: machine where
  "idle_machine = \<lparr>mem = (\<lambda>_. 0), io_log = [], dev = (\<lambda>_ _ _. 0)\<rparr>"

lemma boot_tries_all_witness:
  "fst (boot_chain (\<lambda>r s. (set_cf True r, s)) (\<lambda>d s. (1, 0, 0, s)) True [(2, 0), (0x20, 0)] 2 (0, idle_machine))
     = NoBootable"
  using boot_tries_all [of "[(2, 0), (0x20, 0)]" 2 "\<lambda>r s. (set_cf True r, s)" "\<lambda>d s. (1, 0, 0, s)" True "(0, idle_machine)"]
  by simp

end
