(* ===== verification/Far.thy ===== *)
theory Far
  imports Util
begin

text \<open>
  The segmented memory routines of \<open>src/util.c\<close> as the 16-bit code runs them: string
  instructions with 16-bit index and count registers on two segments, and the flat wrappers
  that split a flat pointer into a segment and an offset below 16. On pointers below 1 MB and
  lengths that fit a segment they are the flat copy and fill, which the lemmas show.
\<close>

section \<open>String instructions on segments\<close>

fun movsb_far :: "u16 \<Rightarrow> u16 \<Rightarrow> u16 \<Rightarrow> u16 \<Rightarrow> nat \<Rightarrow> memory \<Rightarrow> memory" where
  "movsb_far es di ds si 0 m = m"
| "movsb_far es di ds si (Suc n) m =
     movsb_far es (di + 1) ds (si + 1) n
       (m(MAKE_FLATPTR es (ucast di) := m (MAKE_FLATPTR ds (ucast si))))"

fun stosb_far :: "u16 \<Rightarrow> u16 \<Rightarrow> u8 \<Rightarrow> nat \<Rightarrow> memory \<Rightarrow> memory" where
  "stosb_far es di v 0 m = m"
| "stosb_far es di v (Suc n) m = stosb_far es (di + 1) v n (m(MAKE_FLATPTR es (ucast di) := v))"

fun stosw_far :: "u16 \<Rightarrow> u16 \<Rightarrow> u16 \<Rightarrow> nat \<Rightarrow> memory \<Rightarrow> memory" where
  "stosw_far es di v 0 m = m"
| "stosw_far es di v (Suc n) m =
     stosw_far es (di + 2) v n (wr16 (MAKE_FLATPTR es (ucast di)) v m)"

text \<open>The count register is \<open>CX\<close>, the low half of the length.\<close>

definition memcpy_far :: "u16 \<Rightarrow> u32 \<Rightarrow> u16 \<Rightarrow> u32 \<Rightarrow> u32 \<Rightarrow> memory \<Rightarrow> memory" where
  "memcpy_far d_seg d_far s_seg s_far len m =
     movsb_far d_seg (ucast d_far) s_seg (ucast s_far) (unat (ucast len :: u16)) m"

definition memset_far :: "u16 \<Rightarrow> u32 \<Rightarrow> u8 \<Rightarrow> u32 \<Rightarrow> memory \<Rightarrow> memory" where
  "memset_far d_seg d_far c len m = stosb_far d_seg (ucast d_far) c (unat (ucast len :: u16)) m"

definition memset16_far :: "u16 \<Rightarrow> u32 \<Rightarrow> u16 \<Rightarrow> u32 \<Rightarrow> memory \<Rightarrow> memory" where
  "memset16_far d_seg d_far c len m =
     stosw_far d_seg (ucast d_far) c (unat (ucast (len div 2) :: u16)) m"

text \<open>The flat wrappers as the 16-bit code compiles them.\<close>

definition memcpy_fl :: "u32 \<Rightarrow> u32 \<Rightarrow> u32 \<Rightarrow> memory \<Rightarrow> memory" where
  "memcpy_fl d_fl s_fl len m =
     memcpy_far (ucast (FLATPTR_TO_SEG d_fl)) (FLATPTR_TO_OFFSET d_fl)
                (ucast (FLATPTR_TO_SEG s_fl)) (FLATPTR_TO_OFFSET s_fl) len m"

definition memset_fl :: "u32 \<Rightarrow> u8 \<Rightarrow> u32 \<Rightarrow> memory \<Rightarrow> memory" where
  "memset_fl p val len m =
     memset_far (ucast (FLATPTR_TO_SEG p)) (FLATPTR_TO_OFFSET p) val len m"

section \<open>The flat meaning\<close>

lemma unat_ucast_fit:
  "unat (x :: 'a::len word) < 2 ^ LENGTH('b) \<Longrightarrow> unat (ucast x :: 'b::len word) = unat x"
  by (simp add: unsigned_ucast_eq take_bit_nat_eq_self)

lemma ucast_add_fit:
  assumes "unat (x :: u16) + n < 65536"
  shows "(ucast (x + of_nat n) :: u32) = ucast x + of_nat n"
proof -
  have "unat (x + of_nat n) = unat x + n"
    using assms by (simp add: unat_word_ariths unat_of_nat take_bit_nat_eq_self)
  then have "unat (ucast (x + of_nat n) :: u32) = unat (ucast x + of_nat n :: u32)"
    using assms by (simp add: unat_word_ariths unat_of_nat take_bit_nat_eq_self unat_ucast_fit)
  then show ?thesis by (simp only: word_unat_eq_iff)
qed

lemma movsb_far_flat:
  "unat di + n \<le> 65536 \<Longrightarrow> unat si + n \<le> 65536 \<Longrightarrow>
   movsb_far es di ds si n m = rep_movsb (MAKE_FLATPTR es (ucast di)) (MAKE_FLATPTR ds (ucast si)) n m"
proof (induction n arbitrary: di si m)
  case (Suc n)
  show ?case
  proof (cases n)
    case (Suc k)
    have step: "MAKE_FLATPTR s (ucast (x + 1)) = MAKE_FLATPTR s (ucast x) + 1" "unat (x + 1) = unat x + 1"
      if "unat x + Suc n \<le> 65536" for s and x :: u16
      using that Suc ucast_add_fit [of x 1]
      by (simp_all add: MAKE_FLATPTR_def unat_word_ariths)
    show ?thesis
      using Suc.prems Suc.IH [of "di + 1" "si + 1"] step [of di] step [of si] by simp
  qed simp
qed simp

lemma stosb_far_spec:
  "unat di + n \<le> 65536 \<Longrightarrow>
   stosb_far es di v n m a = (if unat (a - MAKE_FLATPTR es (ucast di)) < n then v else m a)"
proof (induction n arbitrary: di m)
  case (Suc n)
  let ?p = "MAKE_FLATPTR es (ucast di)"
  show ?case
  proof (cases "n = 0")
    case True
    then show ?thesis by (auto simp: unat_eq_zero)
  next
    case False
    have step: "MAKE_FLATPTR es (ucast (di + 1)) = ?p + 1" "unat (di + 1) = unat di + 1"
      using Suc.prems False ucast_add_fit [of di 1] by (simp_all add: MAKE_FLATPTR_def unat_word_ariths)
    have IH: "stosb_far es di v (Suc n) m a = (if unat (a - (?p + 1)) < n then v else (m(?p := v)) a)"
      unfolding stosb_far.simps step(1) [symmetric]
      by (rule Suc.IH) (use Suc.prems step(2) in linarith)
    show ?thesis
    proof (cases "a = ?p")
      case True
      have "a - (?p + 1) = - 1" unfolding True by simp
      moreover have "unat (- 1 :: u32) = 4294967295" by (simp add: unsigned_minus_1_eq_mask mask_eq_exp_minus_1)
      moreover have "n \<le> 4294967295" using Suc.prems by simp
      ultimately have "\<not> unat (a - (?p + 1)) < n" by (simp only: not_less)
      then show ?thesis using IH True by (simp only: fun_upd_apply if_False if_True) simp
    next
      case False
      then have "unat (a - (?p + 1)) = unat (a - ?p) - 1" "0 < unat (a - ?p)"
        using unat_minus_1 [of "a - ?p"] by (simp_all add: diff_diff_eq unat_gt_0)
      then have "unat (a - (?p + 1)) < n \<longleftrightarrow> unat (a - ?p) < Suc n" by arith
      then show ?thesis using IH False by (simp only: fun_upd_apply if_False)
    qed
  qed
qed simp

lemma FLATPTR_low:
  assumes "p < 0x100000"
  shows "MAKE_FLATPTR (ucast (FLATPTR_TO_SEG p)) (ucast (ucast (FLATPTR_TO_OFFSET p) :: u16)) = p"
    "unat (ucast (FLATPTR_TO_OFFSET p) :: u16) < 16"
proof -
  have "FLATPTR_TO_OFFSET p = take_bit 4 p"
    by (simp add: FLATPTR_TO_OFFSET_def take_bit_eq_mask mask_eq_exp_minus_1)
  then have small: "unat (FLATPTR_TO_OFFSET p) < 16"
    by (simp add: unsigned_take_bit_eq) (simp add: take_bit_eq_mod)
  then have "(ucast (ucast (FLATPTR_TO_OFFSET p) :: u16) :: u32) = FLATPTR_TO_OFFSET p"
    by (simp add: word_unat_eq_iff unat_ucast_fit)
  then show "MAKE_FLATPTR (ucast (FLATPTR_TO_SEG p)) (ucast (ucast (FLATPTR_TO_OFFSET p) :: u16)) = p"
    using FLATPTR_split [OF assms] by simp
  show "unat (ucast (FLATPTR_TO_OFFSET p) :: u16) < 16"
    using small by (simp add: unat_ucast_fit)
qed

lemma memcpy_fl_copied:
  assumes "d < 0x100000" "s < 0x100000" "unat len \<le> 65520" "d = s \<or> unat len \<le> unat (d - s)"
  shows "memcpy_fl d s len m = copied d s (unat len) m"
proof -
  have len: "unat (ucast len :: u16) = unat len" using assms(3) by (simp add: unat_ucast_fit)
  show ?thesis
    using assms FLATPTR_low [of d] FLATPTR_low [of s] rep_movsb_copied [of "unat len" d s m]
    by (simp add: memcpy_fl_def memcpy_far_def len movsb_far_flat)
qed

lemma memset_fl_spec:
  assumes "p < 0x100000" "unat len \<le> 65520"
  shows "memset_fl p v len m a = (if unat (a - p) < unat len then v else m a)"
proof -
  have len: "unat (ucast len :: u16) = unat len" using assms by (simp add: unat_ucast_fit)
  show ?thesis
    using assms FLATPTR_low [of p] by (simp add: memset_fl_def memset_far_def len stosb_far_spec)
qed

end
