(* ===== verification/Block.thy ===== *)
theory Block
  imports Far
begin

text \<open>
  Drives and the block layer of \<open>src/block.c\<close>: the drive descriptors, the tables that give the
  external drive numbers, the geometry translation, the fixed disk parameter tables and the
  dispatch of a request to a driver. A drive pointer is a flat address with 0 for \<open>NULL\<close>, and
  \<open>drives\<close> is the descriptor behind a pointer, so two numbers can name the same descriptor.
  The hardware drivers are the parameter \<open>drivers\<close>. The configuration is the
  default of \<open>src/Kconfig\<close>: \<open>DRIVES\<close>, \<open>CDROM_BOOT\<close> and \<open>CDROM_EMU\<close> on, \<open>COREBOOT\<close> off.
\<close>

section \<open>Descriptors\<close>

record chs_s =
  heads :: u16
  cylinders :: u16
  spt :: u16

record drive_s =
  dtype :: u8
  floppy_type :: u8
  lchs :: chs_s
  sectors :: u64
  cntl_id :: u32
  removable :: u8
  translation :: u8
  blksize :: u16
  pchs :: chs_s

record disk_op_s =
  op_lba :: u64
  op_buf_fl :: u32
  op_drive_g :: u32
  op_count :: u16
  op_command :: u8

text \<open>The \<open>struct atadrive_s\<close> around an ATA drive and its channel.\<close>

record ata_channel_s =
  iobase1 :: u16
  iobase2 :: u16
  iomaster :: u16
  irq :: u8
  chanid :: u8
  pci_bdf :: u32

record atadrive_s =
  chan_gf :: ata_channel_s
  slave :: u8

text \<open>The globals of \<open>block.c\<close> and \<open>cdrom.c\<close> beside the memory and the ports.\<close>

record disk_state = machine +
  FloppyCount :: u8
  CDCount :: u8
  IDMap :: "u8 \<Rightarrow> u32 list"
  bounce_buf_fl :: u32
  cdemu_drive_gf :: u32
  drives :: "u32 \<Rightarrow> drive_s"
  atadrives :: "u32 \<Rightarrow> atadrive_s"

definition DISK_RET_SUCCESS :: u32 where "DISK_RET_SUCCESS = 0x00"
definition DISK_RET_EPARAM :: u32 where "DISK_RET_EPARAM = 0x01"
definition DISK_RET_EWRITEPROTECT :: u32 where "DISK_RET_EWRITEPROTECT = 0x03"
definition DISK_RET_ECHANGED :: u32 where "DISK_RET_ECHANGED = 0x06"
definition DISK_RET_ENOTLOCKED :: u32 where "DISK_RET_ENOTLOCKED = 0xb0"
definition DISK_RET_ELOCKED :: u32 where "DISK_RET_ELOCKED = 0xb1"
definition DISK_RET_ENOTREMOVABLE :: u32 where "DISK_RET_ENOTREMOVABLE = 0xb2"
definition DISK_RET_ETOOMANYLOCKS :: u32 where "DISK_RET_ETOOMANYLOCKS = 0xb4"

lemmas disk_ret_codes = DISK_RET_SUCCESS_def DISK_RET_EPARAM_def DISK_RET_EWRITEPROTECT_def
  DISK_RET_ECHANGED_def DISK_RET_ENOTLOCKED_def DISK_RET_ELOCKED_def DISK_RET_ENOTREMOVABLE_def
  DISK_RET_ETOOMANYLOCKS_def

definition CMD_RESET :: u8 where "CMD_RESET = 0x00"
definition CMD_READ :: u8 where "CMD_READ = 0x02"
definition CMD_WRITE :: u8 where "CMD_WRITE = 0x03"
definition CMD_VERIFY :: u8 where "CMD_VERIFY = 0x04"
definition CMD_FORMAT :: u8 where "CMD_FORMAT = 0x05"
definition CMD_SEEK :: u8 where "CMD_SEEK = 0x07"
definition CMD_ISREADY :: u8 where "CMD_ISREADY = 0x10"

lemmas cmd_codes = CMD_RESET_def CMD_READ_def CMD_WRITE_def CMD_VERIFY_def CMD_FORMAT_def
  CMD_SEEK_def CMD_ISREADY_def

definition DTYPE_FLOPPY :: u8 where "DTYPE_FLOPPY = 0x01"
definition DTYPE_ATA :: u8 where "DTYPE_ATA = 0x02"
definition DTYPE_ATAPI :: u8 where "DTYPE_ATAPI = 0x03"
definition DTYPE_RAMDISK :: u8 where "DTYPE_RAMDISK = 0x04"
definition DTYPE_CDEMU :: u8 where "DTYPE_CDEMU = 0x05"
definition DTYPE_USB :: u8 where "DTYPE_USB = 0x06"
definition DTYPE_VIRTIO :: u8 where "DTYPE_VIRTIO = 0x07"
definition DTYPE_AHCI :: u8 where "DTYPE_AHCI = 0x08"
definition DTYPE_XEN :: u8 where "DTYPE_XEN = 0x09"

lemmas dtype_codes = DTYPE_FLOPPY_def DTYPE_ATA_def DTYPE_ATAPI_def DTYPE_RAMDISK_def
  DTYPE_CDEMU_def DTYPE_USB_def DTYPE_VIRTIO_def DTYPE_AHCI_def DTYPE_XEN_def

definition TRANSLATION_NONE :: u8 where "TRANSLATION_NONE = 0"
definition TRANSLATION_LBA :: u8 where "TRANSLATION_LBA = 1"
definition TRANSLATION_LARGE :: u8 where "TRANSLATION_LARGE = 2"
definition TRANSLATION_RECHS :: u8 where "TRANSLATION_RECHS = 3"

lemmas translation_codes = TRANSLATION_NONE_def TRANSLATION_LBA_def TRANSLATION_LARGE_def
  TRANSLATION_RECHS_def

definition EXTTYPE_FLOPPY :: u8 where "EXTTYPE_FLOPPY = 0"
definition EXTTYPE_HD :: u8 where "EXTTYPE_HD = 1"
definition EXTTYPE_CD :: u8 where "EXTTYPE_CD = 2"

lemmas exttypes = EXTTYPE_FLOPPY_def EXTTYPE_HD_def EXTTYPE_CD_def

definition EXTSTART_HD :: u8 where "EXTSTART_HD = 0x80"
definition EXTSTART_CD :: u8 where "EXTSTART_CD = 0xE0"

lemmas extstarts = EXTSTART_HD_def EXTSTART_CD_def

definition CONFIG_MAX_EXTDRIVE :: nat where "CONFIG_MAX_EXTDRIVE = 16"

section \<open>Wider accesses, the EBDA and the interrupt vectors\<close>

definition rd64 :: "memory \<Rightarrow> u32 \<Rightarrow> u64" where
  "rd64 m a = ucast (rd32 m a) OR push_bit 32 (ucast (rd32 m (a + 4)))"

definition wr64 :: "u32 \<Rightarrow> u64 \<Rightarrow> memory \<Rightarrow> memory" where
  "wr64 a v m = wr32 (a + 4) (ucast (drop_bit 32 v)) (wr32 a (ucast v) m)"

text \<open>Offsets of the fields of \<open>struct extended_bios_data_area_s\<close>.\<close>

definition ebda_fdpt :: "nat \<Rightarrow> u32" where "ebda_fdpt i = 0x3d + 16 * of_nat i"
definition ebda_cdemu :: u32 where "ebda_cdemu = 0x12e"
definition ebda_cdemu_drive :: u32 where "ebda_cdemu_drive = ebda_cdemu + 0"
definition ebda_cdemu_ilba :: u32 where "ebda_cdemu_ilba = ebda_cdemu + 4"
definition ebda_cdemu_buffer_segment :: u32 where "ebda_cdemu_buffer_segment = ebda_cdemu + 8"
definition ebda_cdemu_load_segment :: u32 where "ebda_cdemu_load_segment = ebda_cdemu + 10"
definition ebda_cdemu_sector_count :: u32 where "ebda_cdemu_sector_count = ebda_cdemu + 12"
definition ebda_cdemu_active :: u32 where "ebda_cdemu_active = ebda_cdemu + 14"
definition ebda_cdemu_media :: u32 where "ebda_cdemu_media = ebda_cdemu + 15"
definition ebda_cdemu_extdrive :: u32 where "ebda_cdemu_extdrive = ebda_cdemu + 16"
definition ebda_cdemu_heads :: u32 where "ebda_cdemu_heads = ebda_cdemu + 18"
definition ebda_cdemu_cylinders :: u32 where "ebda_cdemu_cylinders = ebda_cdemu + 20"
definition ebda_cdemu_spt :: u32 where "ebda_cdemu_spt = ebda_cdemu + 22"
definition ebda_dpte :: u32 where "ebda_dpte = 0x146"
definition ebda_cdrom_locks :: u32 where "ebda_cdrom_locks = 0x156"

lemmas ebda_offsets = ebda_cdemu_def ebda_cdemu_drive_def ebda_cdemu_ilba_def
  ebda_cdemu_buffer_segment_def ebda_cdemu_load_segment_def ebda_cdemu_sector_count_def
  ebda_cdemu_active_def ebda_cdemu_media_def ebda_cdemu_extdrive_def ebda_cdemu_heads_def
  ebda_cdemu_cylinders_def ebda_cdemu_spt_def ebda_dpte_def ebda_cdrom_locks_def

text \<open>\<open>GET_EBDA2\<close> and \<open>SET_EBDA2\<close> at the width of the field.\<close>

definition ebda8 :: "u16 \<Rightarrow> u32 \<Rightarrow> 'a machine_scheme \<Rightarrow> u8" where
  "ebda8 sg off st = rd8 (mem st) (MAKE_FLATPTR sg off)"

definition ebda16 :: "u16 \<Rightarrow> u32 \<Rightarrow> 'a machine_scheme \<Rightarrow> u16" where
  "ebda16 sg off st = rd16 (mem st) (MAKE_FLATPTR sg off)"

definition ebda32 :: "u16 \<Rightarrow> u32 \<Rightarrow> 'a machine_scheme \<Rightarrow> u32" where
  "ebda32 sg off st = rd32 (mem st) (MAKE_FLATPTR sg off)"

definition set_ebda8 :: "u16 \<Rightarrow> u32 \<Rightarrow> u8 \<Rightarrow> 'a machine_scheme \<Rightarrow> 'a machine_scheme" where
  "set_ebda8 sg off v st = st\<lparr>mem := wr8 (MAKE_FLATPTR sg off) v (mem st)\<rparr>"

definition set_ebda16 :: "u16 \<Rightarrow> u32 \<Rightarrow> u16 \<Rightarrow> 'a machine_scheme \<Rightarrow> 'a machine_scheme" where
  "set_ebda16 sg off v st = st\<lparr>mem := wr16 (MAKE_FLATPTR sg off) v (mem st)\<rparr>"

definition set_ebda32 :: "u16 \<Rightarrow> u32 \<Rightarrow> u32 \<Rightarrow> 'a machine_scheme \<Rightarrow> 'a machine_scheme" where
  "set_ebda32 sg off v st = st\<lparr>mem := wr32 (MAKE_FLATPTR sg off) v (mem st)\<rparr>"

lemmas ebda_acc = ebda8_def ebda16_def ebda32_def set_ebda8_def set_ebda16_def set_ebda32_def

definition SET_IVT :: "u8 \<Rightarrow> u32 \<Rightarrow> 'a machine_scheme \<Rightarrow> 'a machine_scheme" where
  "SET_IVT vector so st = st\<lparr>mem := wr32 (MAKE_FLATPTR 0 (4 * ucast vector)) so (mem st)\<rparr>"

definition PORT_CMOS_INDEX :: u16 where "PORT_CMOS_INDEX = 0x70"
definition PORT_CMOS_DATA :: u16 where "PORT_CMOS_DATA = 0x71"
definition NMI_DISABLE_BIT :: u8 where "NMI_DISABLE_BIT = 0x80"
definition CMOS_BIOS_DISKTRANSFLAG :: u8 where "CMOS_BIOS_DISKTRANSFLAG = 0x39"

definition inb_cmos :: "u8 \<Rightarrow> 'a machine_scheme \<Rightarrow> u8 \<times> 'a machine_scheme" where
  "inb_cmos reg st = inb PORT_CMOS_DATA (outb (reg OR NMI_DISABLE_BIT) PORT_CMOS_INDEX st)"

definition outb_cmos :: "u8 \<Rightarrow> u8 \<Rightarrow> 'a machine_scheme \<Rightarrow> 'a machine_scheme" where
  "outb_cmos val reg st = outb val PORT_CMOS_DATA (outb (reg OR NMI_DISABLE_BIT) PORT_CMOS_INDEX st)"

section \<open>Drive numbers\<close>

definition getDrive :: "u8 \<Rightarrow> u8 \<Rightarrow> disk_state \<Rightarrow> u32" where
  "getDrive exttype extdriveoffset st =
     (if unat extdriveoffset \<ge> CONFIG_MAX_EXTDRIVE then 0
      else IDMap st exttype ! unat extdriveoffset)"

function getDriveId_from :: "nat \<Rightarrow> u8 \<Rightarrow> u32 \<Rightarrow> disk_state \<Rightarrow> int" where
  "getDriveId_from i exttype drive_g st =
     (if i \<ge> CONFIG_MAX_EXTDRIVE then - 1
      else if getDrive exttype (of_nat i) st = drive_g then int i
      else getDriveId_from (i + 1) exttype drive_g st)"
  by pat_completeness auto
termination by (relation "measure (\<lambda>(i, _). CONFIG_MAX_EXTDRIVE - i)") auto

declare getDriveId_from.simps [simp del]

definition getDriveId :: "u8 \<Rightarrow> u32 \<Rightarrow> disk_state \<Rightarrow> int" where
  "getDriveId exttype drive_g st = getDriveId_from 0 exttype drive_g st"

text \<open>The allocator is a parameter; address 0 is its failure.\<close>

definition CDROM_SECTOR_SIZE :: u32 where "CDROM_SECTOR_SIZE = 2048"

definition bounce_buf_init ::
  "(u32 \<Rightarrow> disk_state \<Rightarrow> u32 \<times> disk_state) \<Rightarrow> disk_state \<Rightarrow> int \<times> disk_state" where
  "bounce_buf_init malloc_low st =
     (if bounce_buf_fl st \<noteq> 0 then (0, st)
      else case malloc_low CDROM_SECTOR_SIZE st of
        (buf, st) \<Rightarrow> if buf = 0 then (- 1, st) else (0, st\<lparr>bounce_buf_fl := buf\<rparr>))"

section \<open>Geometry translation\<close>

text \<open>The product of heads and cylinders is an \<open>int\<close>, read as signed.\<close>

definition heuristic_translation :: "drive_s \<Rightarrow> u8" where
  "heuristic_translation d =
     (let h = heads (pchs d); c = cylinders (pchs d); s = spt (pchs d);
          psectors = ucast h * ucast c * ucast s :: u64 in
      if h = 0 \<or> c = 0 \<or> s = 0 \<or> sectors d < psectors then TRANSLATION_LBA
      else if c \<le> 1024 \<and> h \<le> 16 \<and> s \<le> 63 then TRANSLATION_NONE
      else if sint (ucast c * ucast h :: u32) \<le> 131072 then TRANSLATION_LARGE
      else TRANSLATION_LBA)"

definition get_translation :: "u32 \<Rightarrow> disk_state \<Rightarrow> u8 \<times> disk_state" where
  "get_translation drive_g st =
     (let d = drives st drive_g in
      if dtype d = DTYPE_ATA then
        (let ataid = ucast (cntl_id d) :: u8; channel = ataid div 2 in
         case inb_cmos (CMOS_BIOS_DISKTRANSFLAG + channel div 2) st of
           (t, st) \<Rightarrow> (drop_bit (2 * unat (ataid mod 4)) t AND 0x03, st))
      else (heuristic_translation d, st))"

definition lba_heads :: "u32 \<Rightarrow> u16" where
  "lba_heads sect =
     (let h = ucast (sect div 1024) :: u16 in
      if h > 128 then 255 else if h > 64 then 128 else if h > 32 then 64
      else if h > 16 then 32 else 16)"

lemma unat_half: "unat (drop_bit 1 c :: u16) = unat c div 2"
  using u16_bound [of c]
  by (simp only: unsigned_drop_bit_eq) (simp add: drop_bit_eq_div take_bit_nat_eq_self)

text \<open>The shift loop of the \<open>LARGE\<close> translation. The number of cylinders halves, so it ends.\<close>

function large_shift :: "u16 \<Rightarrow> u16 \<Rightarrow> u16 \<times> u16" where
  "large_shift c h =
     (if c > 1024 then
        (let c = drop_bit 1 c; h = push_bit 1 h in
         if h > 127 then (c, h) else large_shift c h)
      else (c, h))"
  by pat_completeness auto

termination
  by (relation "measure (\<lambda>(c, _). unat c)") (auto simp: unat_half [unfolded One_nat_def] word_less_nat_alt)

declare large_shift.simps [simp del]

text \<open>The logical geometry a translation gives, as the switch of \<open>setup_translation\<close> and the
  clip after it compute it: cylinders, heads and sectors per track.\<close>

definition translate :: "u8 \<Rightarrow> u64 \<Rightarrow> chs_s \<Rightarrow> u16 \<times> u16 \<times> u16" where
  "translate t sects p =
     (let h = heads p; c = cylinders p; s = spt p;
          (c, h, s) =
            (if t = TRANSLATION_LBA then
               (if sects > 63 * 255 * 1024 then (1024, 255, 63)
                else (let sect = ucast sects div 63; h = lba_heads sect in
                      (ucast (sect div ucast h), h, 63)))
             else if t = TRANSLATION_RECHS then
               (if h = 16 then
                  (let c = (if c > 61439 then 61439 else c);
                       c = ucast ((ucast c :: u32) * 16 div 15);
                       (c, h) = large_shift c 15 in (c, h, s))
                else (let (c, h) = large_shift c h in (c, h, s)))
             else if t = TRANSLATION_LARGE then (let (c, h) = large_shift c h in (c, h, s))
             else (c, h, s))
      in (if c > 1024 then 1024 else c, h, s))"

definition setup_translation :: "u32 \<Rightarrow> disk_state \<Rightarrow> disk_state" where
  "setup_translation drive_g st =
     (case get_translation drive_g st of
        (t, st) \<Rightarrow>
          (let d = drives st drive_g in
           case translate t (sectors d) (pchs d) of
             (c, h, s) \<Rightarrow>
               st\<lparr>drives := (drives st)(drive_g :=
                  d\<lparr>translation := t, lchs := \<lparr>heads = h, cylinders = c, spt = s\<rparr>\<rparr>)\<rparr>))"

section \<open>Mapping drives\<close>

text \<open>Offsets of the fields of \<open>struct fdpt_s\<close>, 16 bytes.\<close>

definition fdpt_cylinders :: u32 where "fdpt_cylinders = 0"
definition fdpt_heads :: u32 where "fdpt_heads = 2"
definition fdpt_a0h_signature :: u32 where "fdpt_a0h_signature = 3"
definition fdpt_phys_sectors :: u32 where "fdpt_phys_sectors = 4"
definition fdpt_precompensation :: u32 where "fdpt_precompensation = 5"
definition fdpt_drive_control_byte :: u32 where "fdpt_drive_control_byte = 8"
definition fdpt_phys_cylinders :: u32 where "fdpt_phys_cylinders = 9"
definition fdpt_phys_heads :: u32 where "fdpt_phys_heads = 11"
definition fdpt_landing_zone :: u32 where "fdpt_landing_zone = 12"
definition fdpt_sectors :: u32 where "fdpt_sectors = 14"
definition fdpt_checksum :: u32 where "fdpt_checksum = 15"

lemmas fdpt_offsets = fdpt_cylinders_def fdpt_heads_def fdpt_a0h_signature_def
  fdpt_phys_sectors_def fdpt_precompensation_def fdpt_drive_control_byte_def
  fdpt_phys_cylinders_def fdpt_phys_heads_def fdpt_landing_zone_def fdpt_sectors_def
  fdpt_checksum_def

definition write_fdpt :: "chs_s \<Rightarrow> chs_s \<Rightarrow> u32 \<Rightarrow> memory \<Rightarrow> memory" where
  "write_fdpt l p fdpt m =
     (let m = wr16 (fdpt + fdpt_precompensation) 0xffff m;
          m = wr8 (fdpt + fdpt_drive_control_byte) (0xc0 OR (if heads p > 8 then 8 else 0)) m;
          m = wr16 (fdpt + fdpt_landing_zone) (cylinders p) m;
          m = wr16 (fdpt + fdpt_cylinders) (cylinders l) m;
          m = wr8 (fdpt + fdpt_heads) (ucast (heads l)) m;
          m = wr8 (fdpt + fdpt_sectors) (ucast (spt l)) m in
      if cylinders l \<noteq> cylinders p \<or> heads l \<noteq> heads p \<or> spt l \<noteq> spt p then
        (let m = wr16 (fdpt + fdpt_phys_cylinders) (cylinders p) m;
             m = wr8 (fdpt + fdpt_phys_heads) (ucast (heads p)) m;
             m = wr8 (fdpt + fdpt_phys_sectors) (ucast (spt p)) m;
             m = wr8 (fdpt + fdpt_a0h_signature) 0xa0 m in
         wr8 (fdpt + fdpt_checksum) (rd8 m (fdpt + fdpt_checksum) - checksum m fdpt 16) m)
      else m)"

definition fill_fdpt :: "u32 \<Rightarrow> nat \<Rightarrow> disk_state \<Rightarrow> disk_state" where
  "fill_fdpt drive_g hdid st =
     (if hdid > 1 then st
      else
        (let d = drives st drive_g; sg = get_ebda_seg st;
             st = st\<lparr>mem := write_fdpt (lchs d) (pchs d) (MAKE_FLATPTR sg (ebda_fdpt hdid)) (mem st)\<rparr> in
         if hdid = 0 then SET_IVT 0x41 (SEGOFF (get_ebda_seg st) (ucast (ebda_fdpt 0))) st
         else SET_IVT 0x46 (SEGOFF (get_ebda_seg st) (ucast (ebda_fdpt 1))) st))"

text \<open>\<open>add_drive\<close> on a table and its counter; a full table leaves both alone.\<close>

definition add_drive :: "u32 list \<Rightarrow> u8 \<Rightarrow> u32 \<Rightarrow> u32 list \<times> u8" where
  "add_drive idmap count drive_g =
     (if unat count \<ge> CONFIG_MAX_EXTDRIVE then (idmap, count)
      else (idmap[unat count := drive_g], count + 1))"

definition map_hd_drive :: "u32 \<Rightarrow> disk_state \<Rightarrow> disk_state" where
  "map_hd_drive drive_g st =
     (let hdid = unat (bda8 bda_hdcount st) in
      case add_drive (IDMap st EXTTYPE_HD) (bda8 bda_hdcount st) drive_g of
        (idm, n) \<Rightarrow>
          (let st = set_bda8 bda_hdcount n (st\<lparr>IDMap := (IDMap st)(EXTTYPE_HD := idm)\<rparr>);
               st = setup_translation drive_g st in
           fill_fdpt drive_g hdid st))"

definition map_cd_drive :: "u32 \<Rightarrow> disk_state \<Rightarrow> disk_state" where
  "map_cd_drive drive_g st =
     (case add_drive (IDMap st EXTTYPE_CD) (CDCount st) drive_g of
        (idm, n) \<Rightarrow> st\<lparr>IDMap := (IDMap st)(EXTTYPE_CD := idm), CDCount := n\<rparr>)"

definition bda_floppy_harddisk_info :: u32 where "bda_floppy_harddisk_info = 0x8f"
definition bda_disk_interrupt_flag :: u32 where "bda_disk_interrupt_flag = 0x8e"

definition map_floppy_drive :: "u32 \<Rightarrow> disk_state \<Rightarrow> disk_state" where
  "map_floppy_drive drive_g st =
     (case add_drive (IDMap st EXTTYPE_FLOPPY) (FloppyCount st) drive_g of
        (idm, n) \<Rightarrow>
          (let st = st\<lparr>IDMap := (IDMap st)(EXTTYPE_FLOPPY := idm), FloppyCount := n\<rparr> in
           if FloppyCount st = 1 then
             set_bda8 bda_floppy_harddisk_info 0x07
               (set_bda16 bda_equipment_list_flags (bda16 bda_equipment_list_flags st OR 0x01) st)
           else if FloppyCount st \<ge> 2 then
             set_bda8 bda_floppy_harddisk_info 0x77
               (set_bda16 bda_equipment_list_flags (bda16 bda_equipment_list_flags st OR 0x41) st)
           else st))"

section \<open>Executing a request\<close>

text \<open>A driver gives a status, the request it leaves (with the count of blocks it moved) and the
  new state.\<close>

type_synonym driver = "disk_op_s \<Rightarrow> disk_state \<Rightarrow> u32 \<times> disk_op_s \<times> disk_state"

record drivers =
  process_floppy_op :: driver
  process_ata_op :: driver
  process_atapi_op :: driver
  process_ramdisk_op :: driver
  process_cdemu_op :: driver
  process_usb_op :: driver
  process_virtio_op :: driver
  process_ahci_op :: driver
  process_xen_op :: driver

definition process_op :: "drivers \<Rightarrow> driver" where
  "process_op drv dop st =
     (let type = dtype (drives st (op_drive_g dop)) in
      if type = DTYPE_FLOPPY then process_floppy_op drv dop st
      else if type = DTYPE_ATA then process_ata_op drv dop st
      else if type = DTYPE_ATAPI then process_atapi_op drv dop st
      else if type = DTYPE_RAMDISK then process_ramdisk_op drv dop st
      else if type = DTYPE_CDEMU then process_cdemu_op drv dop st
      else if type = DTYPE_USB then process_usb_op drv dop st
      else if type = DTYPE_VIRTIO then process_virtio_op drv dop st
      else if type = DTYPE_AHCI then process_ahci_op drv dop st
      else if type = DTYPE_XEN then process_xen_op drv dop st
      else (DISK_RET_EPARAM, dop\<lparr>op_count := 0\<rparr>, st))"

text \<open>The request is copied to the stack the driver runs on; only its count is copied back.\<close>

definition send_disk_op :: "drivers \<Rightarrow> driver" where
  "send_disk_op drv dop st =
     (case process_op drv dop st of
        (status, done, st) \<Rightarrow> (status, dop\<lparr>op_count := op_count done\<rparr>, st))"

section \<open>Return codes\<close>

text \<open>\<open>__disk_ret\<close> of \<open>src/disk.c\<close>: the low byte of the status goes to the status cell of the
  drive's class and to \<open>AH\<close>, and carry tells whether it is an error.\<close>

definition last_status_cell :: "u8 \<Rightarrow> u32" where
  "last_status_cell dl = (if dl < EXTSTART_HD then bda_floppy_last_status else bda_disk_last_status)"

definition disk_ret :: "bregs \<Rightarrow> u32 \<Rightarrow> disk_state \<Rightarrow> bregs \<times> disk_state" where
  "disk_ret r status st =
     (let code = ucast status :: u8;
          st = set_bda8 (last_status_cell (DL r)) code st in
      (if code \<noteq> 0 then set_code_invalid_silent code r else set_code_success r, st))"

definition disk_ret_unimplemented :: "bregs \<Rightarrow> u32 \<Rightarrow> disk_state \<Rightarrow> bregs \<times> disk_state" where
  "disk_ret_unimplemented r status st =
     (let code = ucast status :: u8;
          st = set_bda8 (last_status_cell (DL r)) code st in
      (set_code_invalid_silent code r, st))"

definition disk_stub :: "bregs \<Rightarrow> disk_state \<Rightarrow> bregs \<times> disk_state" where
  "disk_stub r st = disk_ret r DISK_RET_SUCCESS st"

end
