(* ===== verification/Cdrom.thy ===== *)
theory Cdrom
  imports Block Boot
begin

text \<open>
  CD drives of \<open>src/cdrom.c\<close>: a floppy or hard disk of 512-byte sectors emulated from an image
  on a CD with 2048-byte blocks, and booting from a CD (El Torito). The flat copy is that of
  \<open>src/util.c\<close>. Reading a block of the CD for the boot (\<open>cdb_read\<close>) and waiting for the drive
  (\<open>atapi_is_ready\<close>, whose result the code ignores) are parameters.
\<close>

section \<open>The emulated drive\<close>

definition copy_fl :: "u32 \<Rightarrow> u32 \<Rightarrow> u32 \<Rightarrow> disk_state \<Rightarrow> disk_state" where
  "copy_fl d_fl s_fl len st = st\<lparr>mem := memcpy_fl d_fl s_fl len (mem st)\<rparr>"

text \<open>The three stages of \<open>cdemu_read\<close>. The request of the caller is \<open>dop0\<close>, the request to the
  CD is \<open>dop\<close>, \<open>count\<close> is what is left to read. A stage gives either the final status or the
  state to go on with.\<close>

type_synonym cdemu_stage = "disk_op_s \<times> disk_op_s \<times> int \<times> disk_state"

definition cdemu_first :: "driver \<Rightarrow> cdemu_stage \<Rightarrow> (u32 \<times> disk_op_s \<times> disk_state) + cdemu_stage" where
  "cdemu_first cd s = (case s of (dop0, dop, count, st) \<Rightarrow>
     if op_lba dop0 AND 3 = 0 then Inr s
     else
       (case cd (dop\<lparr>op_count := 1, op_buf_fl := bounce_buf_fl st\<rparr>) st of (ret, dop, st') \<Rightarrow>
          if ret \<noteq> 0 then Inl (ret, dop0, st')
          else
            (let part = ucast (op_lba dop0 AND 3) :: u32;
                 n = 4 - ucast part :: u8;
                 n = (if int (unat n) > count then word_of_int count else n);
                 count = count - int (unat n);
                 st' = copy_fl (op_buf_fl dop0) (bounce_buf_fl st + part * 512) (ucast n * 512) st' in
             Inr (dop0\<lparr>op_buf_fl := op_buf_fl dop0 + ucast n * 512, op_count := op_count dop0 + ucast n\<rparr>,
                  dop\<lparr>op_lba := op_lba dop + 1\<rparr>, count, st'))))"

definition cdemu_middle :: "driver \<Rightarrow> cdemu_stage \<Rightarrow> (u32 \<times> disk_op_s \<times> disk_state) + cdemu_stage" where
  "cdemu_middle cd s = (case s of (dop0, dop, count, st) \<Rightarrow>
     if \<not> count > 3 then Inr s
     else
       (case cd (dop\<lparr>op_count := word_of_int (count div 4), op_buf_fl := op_buf_fl dop0\<rparr>) st of
          (ret, dop, st') \<Rightarrow>
            let dop0 = dop0\<lparr>op_count := op_count dop0 + op_count dop * 4\<rparr> in
            if ret \<noteq> 0 then Inl (ret, dop0, st')
            else
              (let n = word_of_int count AND NOT 3 :: u8;
                   count = count mod 4 in
               Inr (dop0\<lparr>op_buf_fl := op_buf_fl dop0 + ucast n * 512\<rparr>,
                    dop\<lparr>op_lba := op_lba dop + ucast (n div 4)\<rparr>, count, st'))))"

definition cdemu_last :: "driver \<Rightarrow> cdemu_stage \<Rightarrow> u32 \<times> disk_op_s \<times> disk_state" where
  "cdemu_last cd s = (case s of (dop0, dop, count, st) \<Rightarrow>
     if count = 0 then (DISK_RET_SUCCESS, dop0, st)
     else
       (case cd (dop\<lparr>op_count := 1, op_buf_fl := bounce_buf_fl st\<rparr>) st of (ret, dop, st') \<Rightarrow>
          if ret \<noteq> 0 then (ret, dop0, st')
          else
            (let n = word_of_int count :: u8;
                 st' = copy_fl (op_buf_fl dop0) (bounce_buf_fl st) (ucast n * 512) st' in
             (DISK_RET_SUCCESS, dop0\<lparr>op_count := op_count dop0 + ucast n\<rparr>, st'))))"

definition cdemu_read :: "driver \<Rightarrow> driver" where
  "cdemu_read cd dop0 st =
     (let sg = get_ebda_seg st;
          dop = \<lparr>op_lba = ucast (ebda32 sg ebda_cdemu_ilba st) + op_lba dop0 div 4, op_buf_fl = 0,
                 op_drive_g = ebda32 sg ebda_cdemu_drive st, op_count = 0,
                 op_command = op_command dop0\<rparr>;
          count = int (unat (op_count dop0)) in
      case cdemu_first cd (dop0\<lparr>op_count := 0\<rparr>, dop, count, st) of
        Inl r \<Rightarrow> r
      | Inr s \<Rightarrow>
          (case cdemu_middle cd s of
             Inl r \<Rightarrow> r
           | Inr s \<Rightarrow> cdemu_last cd s))"

definition cdemu_op :: "driver \<Rightarrow> driver" where
  "cdemu_op cd dop st =
     (if op_command dop = CMD_READ then cdemu_read cd dop st
      else if op_command dop = CMD_WRITE \<or> op_command dop = CMD_FORMAT then (DISK_RET_EWRITEPROTECT, dop, st)
      else if op_command dop \<in> {CMD_VERIFY, CMD_RESET, CMD_SEEK, CMD_ISREADY} then (DISK_RET_SUCCESS, dop, st)
      else (DISK_RET_EPARAM, dop\<lparr>op_count := 0\<rparr>, st))"

text \<open>The drivers with the emulation among them: its requests go to the drive of the CD, by the
  same dispatch. (An emulated drive on top of itself does not exist: \<open>cdrom_boot\<close> stores the
  drive of a CD.)\<close>

definition with_cdemu :: "drivers \<Rightarrow> drivers" where
  "with_cdemu drv = drv\<lparr>process_cdemu_op := cdemu_op (process_op drv)\<rparr>"

definition zero_chs :: chs_s where "zero_chs = \<lparr>heads = 0, cylinders = 0, spt = 0\<rparr>"

definition cdemu_setup ::
  "(u32 \<Rightarrow> disk_state \<Rightarrow> u32 \<times> disk_state) \<Rightarrow> (disk_state \<Rightarrow> u32 \<times> disk_state) \<Rightarrow> disk_state \<Rightarrow> disk_state" where
  "cdemu_setup malloc_low malloc_drive st =
     (if CDCount st = 0 then st
      else case bounce_buf_init malloc_low st of
        (ret, st) \<Rightarrow>
          if ret < 0 then st
          else case malloc_drive st of
            (drive_g, st) \<Rightarrow>
              if drive_g = 0 then st
              else st\<lparr>cdemu_drive_gf := drive_g,
                     drives := (drives st)(drive_g :=
                       \<lparr>dtype = DTYPE_CDEMU, floppy_type = 0, lchs = zero_chs, sectors = - 1,
                        cntl_id = 0, removable = 0, translation = 0, blksize = 512, pchs = zero_chs\<rparr>)\<rparr>)"

section \<open>INT 13h, AH = 4Bh\<close>

text \<open>Offsets of the fields of \<open>struct eltorito_s\<close>, at \<open>DS:SI\<close>.\<close>

definition int13_ptr :: "bregs \<Rightarrow> u32 \<Rightarrow> u32" where
  "int13_ptr r off = MAKE_FLATPTR (r_ds r) (ucast (SI r) + off)"

definition write_eltorito :: "bregs \<Rightarrow> disk_state \<Rightarrow> disk_state" where
  "write_eltorito r st =
     (let sg = get_ebda_seg st;
          put8 = (\<lambda>off v st. st\<lparr>mem := wr8 (int13_ptr r off) v (mem st)\<rparr>);
          put16 = (\<lambda>off v st. st\<lparr>mem := wr16 (int13_ptr r off) v (mem st)\<rparr>);
          put32 = (\<lambda>off v st. st\<lparr>mem := wr32 (int13_ptr r off) v (mem st)\<rparr>);
          st = put8 0 0x13 st;
          st = put8 1 (ebda8 sg ebda_cdemu_media st) st;
          st = put8 2 (ebda8 sg ebda_cdemu_extdrive st) st;
          drive_gf = ebda32 sg ebda_cdemu_drive st;
          id = (if drive_gf \<noteq> 0 then ucast (cntl_id (drives st drive_gf)) else 0) :: u8;
          st = put8 3 (id div 2) st;
          st = put16 8 (ucast (id mod 2)) st;
          st = put32 4 (ebda32 sg ebda_cdemu_ilba st) st;
          st = put16 10 (ebda16 sg ebda_cdemu_buffer_segment st) st;
          st = put16 12 (ebda16 sg ebda_cdemu_load_segment st) st;
          st = put16 14 (ebda16 sg ebda_cdemu_sector_count st) st;
          st = put8 16 (ucast (ebda16 sg ebda_cdemu_cylinders st)) st;
          st = put8 17 (ucast (ebda16 sg ebda_cdemu_spt st)) st
      in put8 18 (ucast (ebda16 sg ebda_cdemu_heads st)) st)"

definition cdemu_134b :: "bregs \<Rightarrow> disk_state \<Rightarrow> bregs \<times> disk_state" where
  "cdemu_134b r st =
     (let sg = get_ebda_seg st;
          st = write_eltorito r st;
          st = (if AL r = 0 then set_ebda8 sg ebda_cdemu_active 0 st else st)
      in disk_ret r DISK_RET_SUCCESS st)"

section \<open>Booting from a CD\<close>

text \<open>\<open>strcmp\<close> of the string at an address with a literal gives 0 exactly when the bytes of the
  literal and its terminator are there.\<close>

definition str_at :: "memory \<Rightarrow> u32 \<Rightarrow> str \<Rightarrow> bool" where
  "str_at m p s \<longleftrightarrow> map (\<lambda>i. m (p + of_nat i)) [0..<length s] = s \<and> m (p + of_nat (length s)) = 0"

definition eltorito_id :: str where
  "eltorito_id = chars ''CD001'' @ [1] @ chars ''EL TORITO SPECIFICATION''"

text \<open>The checks of the validation entry and of the default entry of the boot catalog in the
  buffer: the code of the first failure, or 0.\<close>

definition catalog_check :: "memory \<Rightarrow> u32 \<Rightarrow> int" where
  "catalog_check m buffer =
     (if rd8 m buffer \<noteq> 0x01 then 8
      else if rd8 m (buffer + 0x01) \<noteq> 0x00 then 9
      else if rd8 m (buffer + 0x1e) \<noteq> 0x55 then 10
      else if rd8 m (buffer + 0x1f) \<noteq> 0xaa then 10
      else if rd8 m (buffer + 0x20) \<noteq> 0x88 then 11
      else 0)"

definition set_cdemu_lchs :: "u16 \<Rightarrow> u16 \<Rightarrow> u16 \<Rightarrow> u16 \<Rightarrow> disk_state \<Rightarrow> disk_state" where
  "set_cdemu_lchs sg s c h st =
     set_ebda16 sg ebda_cdemu_heads h (set_ebda16 sg ebda_cdemu_cylinders c (set_ebda16 sg ebda_cdemu_spt s st))"

text \<open>The last part: the emulated drive is entered with its geometry, that of a diskette of the
  given size or, for a hard disk, that of the end of the first partition.\<close>

definition cdemu_activate :: "u16 \<Rightarrow> u8 \<Rightarrow> u16 \<Rightarrow> disk_state \<Rightarrow> disk_state" where
  "cdemu_activate sg media boot_segment st =
     (let st =
        (if media < 4 then
           (let st = set_ebda8 sg ebda_cdemu_extdrive 0x00 st;
                st = set_bda16 bda_equipment_list_flags (bda16 bda_equipment_list_flags st OR 0x41) st in
            if media = 1 then set_cdemu_lchs sg 15 80 2 st
            else if media = 2 then set_cdemu_lchs sg 18 80 2 st
            else if media = 3 then set_cdemu_lchs sg 36 80 2 st
            else st)
         else
           (let st = set_ebda8 sg ebda_cdemu_extdrive 0x80 st;
                st = set_bda8 bda_hdcount (bda8 bda_hdcount st + 1) st;
                sptcyl = rd8 (mem st) (MAKE_FLATPTR boot_segment 0x1c4);
                cyllow = rd8 (mem st) (MAKE_FLATPTR boot_segment 0x1c5);
                hd = rd8 (mem st) (MAKE_FLATPTR boot_segment 0x1c3) in
            set_cdemu_lchs sg (ucast (sptcyl AND 0x3f))
              ((push_bit 2 (ucast sptcyl) AND 0x300) + ucast cyllow + 1) (ucast hd + 1) st))
      in set_ebda8 sg ebda_cdemu_active 0x01 st)"

text \<open>What the default entry of the catalog asks for is stored in the EBDA: the medium, the segment
  to load to, the number of sectors and the address of the image are given back.\<close>

definition store_catalog :: "u16 \<Rightarrow> u32 \<Rightarrow> u32 \<Rightarrow> disk_state \<Rightarrow> u8 \<times> u16 \<times> u16 \<times> u32 \<times> disk_state" where
  "store_catalog sg buffer drive_g st =
     (let media = rd8 (mem st) (buffer + 0x21);
          st = set_ebda8 sg ebda_cdemu_media media st;
          st = set_ebda32 sg ebda_cdemu_drive drive_g st;
          seg0 = rd16 (mem st) (buffer + 0x22);
          boot_segment = (if seg0 = 0 then 0x07c0 else seg0);
          st = set_ebda16 sg ebda_cdemu_load_segment boot_segment st;
          st = set_ebda16 sg ebda_cdemu_buffer_segment 0 st;
          nbsectors = rd16 (mem st) (buffer + 0x26);
          st = set_ebda16 sg ebda_cdemu_sector_count nbsectors st;
          lba = rd32 (mem st) (buffer + 0x28)
      in (media, boot_segment, nbsectors, lba, set_ebda32 sg ebda_cdemu_ilba lba st))"

definition cdrom_boot :: "driver \<Rightarrow> (disk_op_s \<Rightarrow> disk_state \<Rightarrow> disk_op_s \<times> disk_state) \<Rightarrow> u32
    \<Rightarrow> u32 \<Rightarrow> disk_state \<Rightarrow> int \<times> disk_state" where
  "cdrom_boot cdb_read atapi_is_ready buffer drive_g st =
     (let cdid = getDriveId EXTTYPE_CD drive_g st;
          dop = \<lparr>op_lba = 0, op_buf_fl = 0, op_drive_g = drive_g, op_count = 0, op_command = 0\<rparr> in
      if drive_g = 0 \<or> cdid < 0 then (1, st)
      else case atapi_is_ready dop st of (dop, st) \<Rightarrow>
      case cdb_read (dop\<lparr>op_lba := 0x11, op_count := 1, op_buf_fl := buffer\<rparr>) st of (ret, dop, st) \<Rightarrow>
      if ret \<noteq> 0 then (3, st)
      else if rd8 (mem st) buffer \<noteq> 0 then (4, st)
      else if \<not> str_at (mem st) (buffer + 1) eltorito_id then (5, st)
      else case cdb_read (dop\<lparr>op_lba := ucast (rd32 (mem st) (buffer + 0x47)), op_count := 1\<rparr>) st of
        (ret, dop, st) \<Rightarrow>
      if ret \<noteq> 0 then (7, st)
      else if catalog_check (mem st) buffer \<noteq> 0 then (catalog_check (mem st) buffer, st)
      else
        (let sg = get_ebda_seg st in
         case store_catalog sg buffer (op_drive_g dop) st of (media, boot_segment, nbsectors, lba, st) \<Rightarrow>
         case cdb_read (dop\<lparr>op_lba := ucast lba,
                            op_count := of_nat ((unat nbsectors + 3) div 4),
                            op_buf_fl := MAKE_FLATPTR boot_segment 0\<rparr>) st of (ret, dop, st) \<Rightarrow>
         if ret \<noteq> 0 then (12, st)
         else if media = 0 then (0, set_ebda8 sg ebda_cdemu_extdrive (EXTSTART_CD + word_of_int cdid) st)
         else if cdemu_drive_gf st = 0 then (13, st)
         else (0, cdemu_activate sg media boot_segment st)))"

end
