(* ===== verification/Disk.thy ===== *)
theory Disk
  imports Cdrom
begin

text \<open>
  The INT 13h disk services of \<open>src/disk.c\<close>: one definition per function, with the registers and
  the state before it as arguments and those after it as the result. Parameters, in the record
  \<open>disk_env\<close>: the drivers, the software interrupt the eject service calls, the address of the
  diskette parameter table, and the uninitialised stack slot of the requests that leave some
  fields unset.
\<close>

record disk_env =
  drv :: drivers
  int15 :: "bregs \<Rightarrow> disk_state \<Rightarrow> bregs \<times> disk_state"
  diskette_param_table2 :: u16
  stack_slot :: disk_op_s

type_synonym handler = "bregs \<Rightarrow> disk_state \<Rightarrow> bregs \<times> disk_state"

section \<open>Accesses\<close>

text \<open>\<open>fillLCHS\<close>: cylinders, heads and sectors per track.\<close>

definition fillLCHS :: "u32 \<Rightarrow> disk_state \<Rightarrow> u16 \<times> u16 \<times> u16" where
  "fillLCHS drive_g st =
     (if drive_g = cdemu_drive_gf st then
        (let sg = get_ebda_seg st in
         (ebda16 sg ebda_cdemu_cylinders st, ebda16 sg ebda_cdemu_heads st, ebda16 sg ebda_cdemu_spt st))
      else
        (let l = lchs (drives st drive_g) in (cylinders l, heads l, spt l)))"

definition chs_cylinder :: "bregs \<Rightarrow> u16" where
  "chs_cylinder r = ucast (CH r) OR (push_bit 2 (ucast (CL r)) AND 0x300)"

definition chs_sector :: "bregs \<Rightarrow> u16" where
  "chs_sector r = ucast (CL r AND 0x3f)"

definition chs_lba :: "u16 \<Rightarrow> u16 \<Rightarrow> u16 \<Rightarrow> u16 \<Rightarrow> u16 \<Rightarrow> u32" where
  "chs_lba nlh nlspt cylinder head sector =
     ((ucast cylinder * ucast nlh) + ucast head) * ucast nlspt + ucast sector - 1"

definition basic_access :: "disk_env \<Rightarrow> u32 \<Rightarrow> u8 \<Rightarrow> handler" where
  "basic_access e drive_g command r st =
     (let count = AL r; cylinder = chs_cylinder r; sector = chs_sector r; head = ucast (DH r) :: u16 in
      if count > 128 \<or> count = 0 \<or> sector = 0 then disk_ret r DISK_RET_EPARAM st
      else case fillLCHS drive_g st of (nlc, nlh, nlspt) \<Rightarrow>
        if cylinder \<ge> nlc \<or> head \<ge> nlh \<or> sector > nlspt then disk_ret r DISK_RET_EPARAM st
        else
          (let dop = \<lparr>op_lba = ucast (chs_lba nlh nlspt cylinder head sector),
                      op_buf_fl = MAKE_FLATPTR (r_es r) (ucast (BX r)),
                      op_drive_g = drive_g, op_count = ucast count, op_command = command\<rparr> in
           case send_disk_op (drv e) dop st of
             (status, dop, st) \<Rightarrow> disk_ret (set_al (ucast (op_count dop)) r) status st))"

text \<open>\<open>struct int13ext_s\<close> at \<open>DS:SI\<close>: count at 2, buffer at 4 (offset, segment), LBA at 8.\<close>

definition extended_access :: "disk_env \<Rightarrow> u32 \<Rightarrow> u8 \<Rightarrow> handler" where
  "extended_access e drive_g command r st =
     (let lba = rd64 (mem st) (int13_ptr r 8) in
      if lba \<ge> sectors (drives st drive_g) then disk_ret r DISK_RET_EPARAM st
      else
        (let data = MAKE_FLATPTR (rd16 (mem st) (int13_ptr r 6)) (ucast (rd16 (mem st) (int13_ptr r 4)));
             dop = \<lparr>op_lba = lba, op_buf_fl = data, op_drive_g = drive_g,
                    op_count = rd16 (mem st) (int13_ptr r 2), op_command = command\<rparr> in
         case send_disk_op (drv e) dop st of
           (status, dop, st) \<Rightarrow>
             disk_ret r status (st\<lparr>mem := wr16 (int13_ptr r 2) (op_count dop) (mem st)\<rparr>)))"

section \<open>Functions 00h to 16h\<close>

text \<open>A request of which only the drive and the command are set.\<close>

definition simple_op :: "disk_env \<Rightarrow> u32 \<Rightarrow> u8 \<Rightarrow> handler" where
  "simple_op e drive_g command r st =
     (case send_disk_op (drv e) ((stack_slot e)\<lparr>op_drive_g := drive_g, op_command := command\<rparr>) st of
        (status, _, st) \<Rightarrow> disk_ret r status st)"

definition disk_1300 :: "disk_env \<Rightarrow> u32 \<Rightarrow> handler" where
  "disk_1300 e drive_g = simple_op e drive_g CMD_RESET"

definition disk_1301 :: handler where
  "disk_1301 r st =
     (let v = bda8 (last_status_cell (DL r)) st in (set_cf (v \<noteq> 0) (set_ah v r), st))"

definition disk_1302 :: "disk_env \<Rightarrow> u32 \<Rightarrow> handler" where
  "disk_1302 e drive_g = basic_access e drive_g CMD_READ"

definition disk_1303 :: "disk_env \<Rightarrow> u32 \<Rightarrow> handler" where
  "disk_1303 e drive_g = basic_access e drive_g CMD_WRITE"

definition disk_1304 :: "disk_env \<Rightarrow> u32 \<Rightarrow> handler" where
  "disk_1304 e drive_g = basic_access e drive_g CMD_VERIFY"

definition disk_1305 :: "disk_env \<Rightarrow> u32 \<Rightarrow> handler" where
  "disk_1305 e drive_g r st =
     (case fillLCHS drive_g st of (nlc, nlh, nlspt) \<Rightarrow>
       let num_sectors = AL r; head = DH r in
       if ucast head \<ge> nlh \<or> num_sectors = 0 \<or> ucast num_sectors > nlspt then
         disk_ret r DISK_RET_EPARAM st
       else
         (case send_disk_op (drv e)
            \<lparr>op_lba = ucast head, op_buf_fl = MAKE_FLATPTR (r_es r) (ucast (BX r)),
             op_drive_g = drive_g, op_count = ucast num_sectors, op_command = CMD_FORMAT\<rparr> st of
            (status, _, st) \<Rightarrow> disk_ret r status st))"

text \<open>The number of drives of the class, with the emulated one.\<close>

definition adjust_count :: "u8 \<Rightarrow> u8 \<Rightarrow> disk_state \<Rightarrow> u8" where
  "adjust_count dl count st =
     (let sg = get_ebda_seg st in
      if ebda8 sg ebda_cdemu_active st \<noteq> 0 then
        (let emudrive = ebda8 sg ebda_cdemu_extdrive st;
             count = (if (emudrive XOR dl) AND 0x80 = 0 then count + 1 else count) in
         if dl < EXTSTART_HD \<and> count > 2 then 2 else count)
      else count)"

text \<open>The geometry in the registers, from the last cylinder and the last head.\<close>

definition pack_geometry :: "u16 \<Rightarrow> u16 \<Rightarrow> u16 \<Rightarrow> bregs \<Rightarrow> bregs" where
  "pack_geometry nlc nlh nlspt r =
     (let r = set_al 0 r;
          r = set_ch (ucast (nlc AND 0xff)) r;
          r = set_cl (ucast ((drop_bit 2 nlc AND 0xc0) OR (nlspt AND 0x3f))) r
      in set_dh (ucast nlh) r)"

definition disk_1308 :: "disk_env \<Rightarrow> u32 \<Rightarrow> handler" where
  "disk_1308 e drive_g r st =
     (case fillLCHS drive_g st of (nlc, nlh, nlspt) \<Rightarrow>
       let nlc = nlc - 1; nlh = nlh - 1; dl = DL r;
           finish = (\<lambda>count nlc r.
             case disk_ret (pack_geometry nlc nlh nlspt r) DISK_RET_SUCCESS st of
               (r, st') \<Rightarrow> (set_dl (adjust_count dl count st) r, st')) in
       if dl < EXTSTART_HD then
         (let r = set_bx (if drive_g = cdemu_drive_gf st
                          then ucast (ebda8 (get_ebda_seg st) ebda_cdemu_media st) * 2
                          else ucast (floppy_type (drives st drive_g))) r;
              r = set_di (diskette_param_table2 e) (r\<lparr>r_es := SEG_BIOS\<rparr>) in
          finish (FloppyCount st) nlc r)
       else if dl < EXTSTART_CD then finish (bda8 bda_hdcount st) (nlc - 1) r
       else disk_ret r DISK_RET_EPARAM st)"

definition disk_1309 :: handler where "disk_1309 r st = disk_stub r st"
definition disk_130c :: handler where "disk_130c r st = disk_stub r st"
definition disk_130d :: handler where "disk_130d r st = disk_stub r st"

definition disk_1310 :: "disk_env \<Rightarrow> u32 \<Rightarrow> handler" where
  "disk_1310 e drive_g = simple_op e drive_g CMD_ISREADY"

definition disk_1311 :: handler where "disk_1311 r st = disk_stub r st"
definition disk_1314 :: handler where "disk_1314 r st = disk_stub r st"

definition disk_1315 :: "u32 \<Rightarrow> handler" where
  "disk_1315 drive_g r st =
     (case disk_ret r DISK_RET_SUCCESS st of (r, st) \<Rightarrow>
        if DL r < EXTSTART_HD \<or> DL r \<ge> EXTSTART_CD then (set_ah 1 r, st)
        else case fillLCHS drive_g st of (nlc, nlh, nlspt) \<Rightarrow>
          let lba = (ucast nlc - 1) * ucast nlh * ucast nlspt :: u32;
              r = set_cx (ucast (drop_bit 16 lba)) r;
              r = set_dx (ucast (lba AND 0xffff)) r in
          (set_ah 3 r, st))"

definition disk_1316 :: handler where
  "disk_1316 r st =
     (if DL r \<ge> EXTSTART_HD then disk_ret r DISK_RET_EPARAM st else disk_ret r DISK_RET_ECHANGED st)"

section \<open>Extensions, functions 41h to 4Eh\<close>

definition disk_1341 :: handler where
  "disk_1341 r st =
     (case disk_ret (set_cx 0x0007 (set_bx 0xaa55 r)) DISK_RET_SUCCESS st of
        (r, st) \<Rightarrow> (set_ah 0x30 r, st))"

definition disk_1342 :: "disk_env \<Rightarrow> u32 \<Rightarrow> handler" where
  "disk_1342 e drive_g = extended_access e drive_g CMD_READ"

definition disk_1343 :: "disk_env \<Rightarrow> u32 \<Rightarrow> handler" where
  "disk_1343 e drive_g = extended_access e drive_g CMD_WRITE"

definition disk_1344 :: "disk_env \<Rightarrow> u32 \<Rightarrow> handler" where
  "disk_1344 e drive_g = extended_access e drive_g CMD_VERIFY"

text \<open>The lock counter of a CD drive in the EBDA.\<close>

definition locks_cell :: "u8 \<Rightarrow> u32" where
  "locks_cell dl = ebda_cdrom_locks + (ucast dl - ucast EXTSTART_CD)"

definition disk_134500 :: handler where
  "disk_134500 r st =
     (let sg = get_ebda_seg st; locks = ebda8 sg (locks_cell (DL r)) st in
      if locks = 0xff then disk_ret (set_al 1 r) DISK_RET_ETOOMANYLOCKS st
      else disk_ret (set_al 1 r) DISK_RET_SUCCESS (set_ebda8 sg (locks_cell (DL r)) (locks + 1) st))"

definition disk_134501 :: handler where
  "disk_134501 r st =
     (let sg = get_ebda_seg st; locks = ebda8 sg (locks_cell (DL r)) st in
      if locks = 0 then disk_ret (set_al 0 r) DISK_RET_ENOTLOCKED st
      else
        (let locks = locks - 1; st = set_ebda8 sg (locks_cell (DL r)) locks st in
         disk_ret (set_al (if locks \<noteq> 0 then 1 else 0) r) DISK_RET_SUCCESS st))"

definition disk_134502 :: handler where
  "disk_134502 r st =
     (let locks = ebda8 (get_ebda_seg st) (locks_cell (DL r)) st in
      disk_ret (set_al (if locks \<noteq> 0 then 1 else 0) r) DISK_RET_SUCCESS st)"

definition disk_1345XX :: handler where
  "disk_1345XX r st = disk_ret_unimplemented r DISK_RET_EPARAM st"

definition disk_1345 :: handler where
  "disk_1345 r st =
     (if DL r < EXTSTART_CD then disk_ret r DISK_RET_SUCCESS st
      else if AL r = 0x00 then disk_134500 r st
      else if AL r = 0x01 then disk_134501 r st
      else if AL r = 0x02 then disk_134502 r st
      else disk_1345XX r st)"

definition disk_1346 :: "disk_env \<Rightarrow> handler" where
  "disk_1346 e r st =
     (if DL r < EXTSTART_CD then disk_ret r DISK_RET_ENOTREMOVABLE st
      else if ebda8 (get_ebda_seg st) (locks_cell (DL r)) st \<noteq> 0 then disk_ret r DISK_RET_ELOCKED st
      else
        (case int15 e (set_dl (DL r) (set_ah 0x52 zero_regs)) st of
           (br, st) \<Rightarrow>
             if AH br \<noteq> 0 \<or> carry br then disk_ret r DISK_RET_ELOCKED st
             else disk_ret r DISK_RET_SUCCESS st))"

definition disk_1347 :: "disk_env \<Rightarrow> u32 \<Rightarrow> handler" where
  "disk_1347 e drive_g = extended_access e drive_g CMD_SEEK"

section \<open>EDD parameters, function 48h\<close>

text \<open>Writes to the caller's table \<open>struct int13dpt_s\<close> at \<open>DS:SI\<close>.\<close>

definition dpt8 :: "bregs \<Rightarrow> u32 \<Rightarrow> u8 \<Rightarrow> disk_state \<Rightarrow> disk_state" where
  "dpt8 r off v st = st\<lparr>mem := wr8 (int13_ptr r off) v (mem st)\<rparr>"

definition dpt16 :: "bregs \<Rightarrow> u32 \<Rightarrow> u16 \<Rightarrow> disk_state \<Rightarrow> disk_state" where
  "dpt16 r off v st = st\<lparr>mem := wr16 (int13_ptr r off) v (mem st)\<rparr>"

definition dpt32 :: "bregs \<Rightarrow> u32 \<Rightarrow> u32 \<Rightarrow> disk_state \<Rightarrow> disk_state" where
  "dpt32 r off v st = st\<lparr>mem := wr32 (int13_ptr r off) v (mem st)\<rparr>"

definition dpt64 :: "bregs \<Rightarrow> u32 \<Rightarrow> u64 \<Rightarrow> disk_state \<Rightarrow> disk_state" where
  "dpt64 r off v st = st\<lparr>mem := wr64 (int13_ptr r off) v (mem st)\<rparr>"

lemmas dpt_writes = dpt8_def dpt16_def dpt32_def dpt64_def

definition dpt_size :: u32 where "dpt_size = 0"
definition dpt_infos :: u32 where "dpt_infos = 2"
definition dpt_cylinders :: u32 where "dpt_cylinders = 4"
definition dpt_heads :: u32 where "dpt_heads = 8"
definition dpt_spt :: u32 where "dpt_spt = 12"
definition dpt_sector_count :: u32 where "dpt_sector_count = 16"
definition dpt_blksize :: u32 where "dpt_blksize = 24"
definition dpt_dpte_offset :: u32 where "dpt_dpte_offset = 26"
definition dpt_dpte_segment :: u32 where "dpt_dpte_segment = 28"
definition dpt_key :: u32 where "dpt_key = 30"
definition dpt_dpi_length :: u32 where "dpt_dpi_length = 32"
definition dpt_reserved1 :: u32 where "dpt_reserved1 = 33"
definition dpt_reserved2 :: u32 where "dpt_reserved2 = 34"
definition dpt_host_bus :: "u32 \<Rightarrow> u32" where "dpt_host_bus i = 36 + i"
definition dpt_iface_type :: "u32 \<Rightarrow> u32" where "dpt_iface_type i = 40 + i"
definition dpt_iface_path :: u32 where "dpt_iface_path = 48"
definition dpt_device_path :: u32 where "dpt_device_path = 56"
definition dpt_phoenix_checksum :: u32 where "dpt_phoenix_checksum = 65"
definition dpt_t13_checksum :: u32 where "dpt_t13_checksum = 73"

lemmas dpt_offsets = dpt_size_def dpt_infos_def dpt_cylinders_def dpt_heads_def dpt_spt_def
  dpt_sector_count_def dpt_blksize_def dpt_dpte_offset_def dpt_dpte_segment_def dpt_key_def
  dpt_dpi_length_def dpt_reserved1_def dpt_reserved2_def dpt_host_bus_def dpt_iface_type_def
  dpt_iface_path_def dpt_device_path_def dpt_phoenix_checksum_def dpt_t13_checksum_def

text \<open>EDD 1.x: the first 26 bytes.\<close>

definition edd1 :: "drive_s \<Rightarrow> bregs \<Rightarrow> disk_state \<Rightarrow> disk_state" where
  "edd1 d r st =
     (let npc = cylinders (pchs d); nph = heads (pchs d); npspt = spt (pchs d); lba = sectors d;
          st = dpt16 r dpt_size 26 st;
          st =
            (if dtype d = DTYPE_ATAPI then
               dpt64 r dpt_sector_count (- 1) (dpt32 r dpt_spt 0xffffffff (dpt32 r dpt_heads 0xffffffff
                 (dpt32 r dpt_cylinders 0xffffffff (dpt16 r dpt_infos 0x74 st))))
             else
               (let st =
                  (if lba > ucast npspt * ucast nph * 0x3fff then
                     dpt32 r dpt_cylinders 0x3fff (dpt16 r dpt_infos 0x00 st)
                   else dpt32 r dpt_cylinders (ucast npc) (dpt16 r dpt_infos 0x02 st)) in
                dpt64 r dpt_sector_count lba (dpt32 r dpt_spt (ucast npspt) (dpt32 r dpt_heads (ucast nph) st))))
      in dpt16 r dpt_blksize (blksize d) st)"

text \<open>The device parameter table extension in the EBDA, 16 bytes with a checksum.\<close>

definition ATA_CB_DC :: u16 where "ATA_CB_DC = 2"
definition ATA_CB_DH_DEV0 :: u8 where "ATA_CB_DH_DEV0 = 0xa0"
definition ATA_CB_DH_DEV1 :: u8 where "ATA_CB_DH_DEV1 = 0xb0"
definition ATA_CB_DH_LBA :: u8 where "ATA_CB_DH_LBA = 0x40"

definition dpte_options :: "drive_s \<Rightarrow> u16" where
  "dpte_options d =
     (if dtype d = DTYPE_ATA then
        (if translation d \<noteq> TRANSLATION_NONE then
           push_bit 3 1 OR (if translation d = TRANSLATION_LBA then push_bit 9 1 else 0)
             OR (if translation d = TRANSLATION_RECHS then push_bit 9 3 else 0)
         else 0)
      else push_bit 5 1 OR push_bit 6 1) OR push_bit 4 1"

definition write_dpte :: "drive_s \<Rightarrow> atadrive_s \<Rightarrow> u16 \<Rightarrow> disk_state \<Rightarrow> disk_state" where
  "write_dpte d a sg st =
     (let st = set_ebda16 sg (ebda_dpte + 0) (iobase1 (chan_gf a)) st;
          st = set_ebda16 sg (ebda_dpte + 2) (iobase2 (chan_gf a) + ATA_CB_DC) st;
          st = set_ebda8 sg (ebda_dpte + 4)
                 ((if slave a \<noteq> 0 then ATA_CB_DH_DEV1 else ATA_CB_DH_DEV0) OR ATA_CB_DH_LBA) st;
          st = set_ebda8 sg (ebda_dpte + 5) 0xcb st;
          st = set_ebda8 sg (ebda_dpte + 6) (irq (chan_gf a)) st;
          st = set_ebda8 sg (ebda_dpte + 7) 1 st;
          st = set_ebda8 sg (ebda_dpte + 8) 0 st;
          st = set_ebda8 sg (ebda_dpte + 9) 0 st;
          st = set_ebda16 sg (ebda_dpte + 10) (dpte_options d) st;
          st = set_ebda16 sg (ebda_dpte + 12) 0 st;
          st = set_ebda8 sg (ebda_dpte + 14) 0x11 st;
          sum = checksum_far (mem st) sg ebda_dpte 15
      in set_ebda8 sg (ebda_dpte + 15) (- sum) st)"

text \<open>EDD 2.x: the pointer to that extension. The result adds the PCI address of the device (-1
  for none), its I/O base, its device path and its channel.\<close>

definition edd2 :: "drive_s \<Rightarrow> atadrive_s \<Rightarrow> bregs \<Rightarrow> disk_state \<Rightarrow> u32 \<times> u16 \<times> u64 \<times> u8 \<times> disk_state" where
  "edd2 d a r st =
     (let st = dpt16 r dpt_size 30 st in
      if dtype d = DTYPE_ATA \<or> dtype d = DTYPE_ATAPI then
        (let sg = get_ebda_seg st;
             st = dpt16 r dpt_dpte_segment sg st;
             st = dpt16 r dpt_dpte_offset (ucast ebda_dpte) st in
         (pci_bdf (chan_gf a), iobase1 (chan_gf a), ucast (slave a), chanid (chan_gf a),
          write_dpte d a sg st))
      else
        (let st = dpt16 r dpt_dpte_segment 0 st;
             st = dpt16 r dpt_dpte_offset 0 st in
         (cntl_id d, 0, 0, 0, st)))"

text \<open>EDD 3.x: the device path information, with its own checksum.\<close>

definition dpt_chars :: "bregs \<Rightarrow> (u32 \<Rightarrow> u32) \<Rightarrow> u8 \<Rightarrow> u8 \<Rightarrow> u8 \<Rightarrow> u8 \<Rightarrow> disk_state \<Rightarrow> disk_state" where
  "dpt_chars r f a b c d st =
     dpt8 r (f 3) d (dpt8 r (f 2) c (dpt8 r (f 1) b (dpt8 r (f 0) a st)))"

definition edd3_path :: "u32 \<Rightarrow> u8 \<Rightarrow> bool \<Rightarrow> u32" where
  "edd3_path bdf channel t13 =
     (let b = ucast bdf :: u16;
          path = ucast (pci_bdf_to_bus b) OR push_bit 8 (ucast (pci_bdf_to_dev b))
                 OR push_bit 16 (ucast (pci_bdf_to_fn b)) in
      if t13 then path OR push_bit 24 (ucast channel) else path)"

definition edd3 :: "u8 \<Rightarrow> bool \<Rightarrow> u32 \<times> u16 \<times> u64 \<times> u8 \<Rightarrow> bregs \<Rightarrow> disk_state \<Rightarrow> disk_state" where
  "edd3 type t13 dev_info r st =
     (case dev_info of (bdf, iobase, device_path, channel) \<Rightarrow>
      let st = dpt16 r dpt_key 0xbedd st;
          st = dpt8 r dpt_dpi_length (if t13 then 44 else 36) st;
          st = dpt8 r dpt_reserved1 0 st;
          st = dpt16 r dpt_reserved2 0 st;
          st = (if bdf \<noteq> - 1 then
                  dpt64 r dpt_iface_path (ucast (edd3_path bdf channel t13))
                    (dpt_chars r dpt_host_bus 0x50 0x43 0x49 0x20 st)
                else
                  dpt64 r dpt_iface_path (ucast iobase)
                    (dpt_chars r dpt_host_bus 0x49 0x53 0x41 0x20 st));
          st = (if type \<noteq> DTYPE_VIRTIO then dpt_chars r dpt_iface_type 0x41 0x54 0x41 0x20 st
                else dpt_chars r dpt_iface_type 0x53 0x43 0x53 0x49 st);
          st = dpt_chars r (\<lambda>i. dpt_iface_type (4 + i)) 0x20 0x20 0x20 0x20 st in
      if t13 then
        (let st = dpt64 r dpt_device_path device_path st;
             st = dpt64 r (dpt_device_path + 8) 0 st in
         dpt8 r dpt_t13_checksum (- checksum_far (mem st) (r_ds r) (ucast (SI r) + 30) 43) st)
      else
        (let st = dpt64 r dpt_device_path device_path st in
         dpt8 r dpt_phoenix_checksum (- checksum_far (mem st) (r_ds r) (ucast (SI r) + 30) 35) st))"

definition edd_table :: "u32 \<Rightarrow> bregs \<Rightarrow> disk_state \<Rightarrow> disk_state" where
  "edd_table drive_g r st =
     (let size = rd16 (mem st) (int13_ptr r dpt_size); d = drives st drive_g; type = dtype d;
          st = edd1 d r st in
      if size < 30 \<or> (type \<noteq> DTYPE_ATA \<and> type \<noteq> DTYPE_ATAPI \<and> type \<noteq> DTYPE_VIRTIO) then st
      else case edd2 d (atadrives st drive_g) r st of
        (bdf, iobase, device_path, channel, st) \<Rightarrow>
          if size < 66 then st
          else edd3 type (size = 74) (bdf, iobase, device_path, channel) r st)"

definition disk_1348 :: "u32 \<Rightarrow> handler" where
  "disk_1348 drive_g r st =
     (if rd16 (mem st) (int13_ptr r dpt_size) < 26 then disk_ret r DISK_RET_EPARAM st
      else disk_ret r DISK_RET_SUCCESS (edd_table drive_g r st))"

section \<open>Functions 49h and 4Eh, and the dispatch\<close>

definition disk_1349 :: handler where
  "disk_1349 r st =
     (if DL r < EXTSTART_CD then disk_ret r DISK_RET_SUCCESS st
      else (set_ah (ucast DISK_RET_ECHANGED) (set_invalid_silent r), st))"

definition disk_134e :: handler where
  "disk_134e r st =
     (if AL r = 0x01 \<or> AL r = 0x03 \<or> AL r = 0x04 \<or> AL r = 0x06 then disk_ret r DISK_RET_SUCCESS st
      else disk_ret r DISK_RET_EPARAM st)"

definition disk_13XX :: handler where
  "disk_13XX r st = disk_ret_unimplemented r DISK_RET_EPARAM st"

definition disk_13 :: "disk_env \<Rightarrow> u32 \<Rightarrow> handler" where
  "disk_13 e d r st0 =
     (let st = set_bda8 bda_disk_interrupt_flag 0 st0; ah = AH r in
      if ah = 0x00 then disk_1300 e d r st
      else if ah = 0x01 then disk_1301 r st
      else if ah = 0x02 then disk_1302 e d r st
      else if ah = 0x03 then disk_1303 e d r st
      else if ah = 0x04 then disk_1304 e d r st
      else if ah = 0x05 then disk_1305 e d r st
      else if ah = 0x08 then disk_1308 e d r st
      else if ah = 0x09 then disk_1309 r st
      else if ah = 0x0c then disk_130c r st
      else if ah = 0x0d then disk_130d r st
      else if ah = 0x10 then disk_1310 e d r st
      else if ah = 0x11 then disk_1311 r st
      else if ah = 0x14 then disk_1314 r st
      else if ah = 0x15 then disk_1315 d r st
      else if ah = 0x16 then disk_1316 r st
      else if ah = 0x41 then disk_1341 r st
      else if ah = 0x42 then disk_1342 e d r st
      else if ah = 0x43 then disk_1343 e d r st
      else if ah = 0x44 then disk_1344 e d r st
      else if ah = 0x45 then disk_1345 r st
      else if ah = 0x46 then disk_1346 e r st
      else if ah = 0x47 then disk_1347 e d r st
      else if ah = 0x48 then disk_1348 d r st
      else if ah = 0x49 then disk_1349 r st
      else if ah = 0x4e then disk_134e r st
      else disk_13XX r st)"

definition floppy_13 :: "disk_env \<Rightarrow> u32 \<Rightarrow> handler" where
  "floppy_13 e d r st =
     (if AH r \<in> {0x00, 0x01, 0x02, 0x03, 0x04, 0x05, 0x08, 0x15, 0x16} then disk_13 e d r st
      else disk_13XX r st)"

definition handle_legacy_disk :: "disk_env \<Rightarrow> u8 \<Rightarrow> handler" where
  "handle_legacy_disk e extdrive r st =
     (if extdrive < EXTSTART_HD then
        (let d = getDrive EXTTYPE_FLOPPY extdrive st in
         if d = 0 then disk_ret r DISK_RET_EPARAM st else floppy_13 e d r st)
      else
        (let d = (if extdrive \<ge> EXTSTART_CD then getDrive EXTTYPE_CD (extdrive - EXTSTART_CD) st
                  else getDrive EXTTYPE_HD (extdrive - EXTSTART_HD) st) in
         if d = 0 then disk_ret r DISK_RET_EPARAM st else disk_13 e d r st))"

definition handle_40 :: "disk_env \<Rightarrow> handler" where
  "handle_40 e r st = handle_legacy_disk e (DL r) r st"

definition handle_13 :: "disk_env \<Rightarrow> handler" where
  "handle_13 e r st =
     (let extdrive = DL r in
      if AH r = 0x4b then cdemu_134b r st
      else
        (let sg = get_ebda_seg st in
         if ebda8 sg ebda_cdemu_active st \<noteq> 0 then
           (let emudrive = ebda8 sg ebda_cdemu_extdrive st in
            if extdrive = emudrive then
              (let cdemu_g = cdemu_drive_gf st in
               if AH r > 0x16 then disk_13XX r st else disk_13 e cdemu_g r st)
            else if extdrive < EXTSTART_CD \<and> (emudrive XOR extdrive) AND 0x80 = 0 then
              handle_legacy_disk e (extdrive - 1) r st
            else handle_legacy_disk e extdrive r st)
         else handle_legacy_disk e extdrive r st))"

definition handle_76 :: "disk_state \<Rightarrow> disk_state" where
  "handle_76 st = outb 0x20 0x20 (outb 0x20 0xa0 (set_bda8 bda_disk_interrupt_flag 0xff st))"

end
