(* ===== verification/BlockSpec.thy ===== *)
theory BlockSpec
  imports Block
begin

text \<open>
  Properties of the block layer: the logical geometry of every translation stays within the
  limits of INT 13h and within the disk, the drive numbers are handed out in the order of
  mapping, and the fixed disk parameter table is complete and checksummed.
\<close>

section \<open>The logical geometry\<close>

text \<open>What a client of INT 13h relies on: at most 1024 cylinders and 255 heads, and no address
  of the geometry lies behind the last sector.\<close>

definition geometry_ok :: "u16 \<Rightarrow> u16 \<Rightarrow> u16 \<Rightarrow> u64 \<Rightarrow> bool" where
  "geometry_ok c h s sz \<longleftrightarrow>
     unat c \<le> 1024 \<and> unat h \<le> 255 \<and> unat c * unat h * unat s \<le> unat sz"

definition psectors :: "chs_s \<Rightarrow> nat" where
  "psectors p = unat (cylinders p) * unat (heads p) * unat (spt p)"

lemma u16_le_nat: "(x :: u16) \<le> y \<longleftrightarrow> unat x \<le> unat y" by (simp add: word_le_nat_alt)

lemma unat_double: "unat (h :: u16) \<le> 127 \<Longrightarrow> unat (push_bit 1 h) = 2 * unat h"
  by (simp add: push_bit_eq_mult unat_word_ariths)

lemma large_shift_bounds:
  "unat h \<le> 127 \<Longrightarrow> large_shift c h = (c', h') \<Longrightarrow>
   unat c' \<le> unat c \<and> unat h' \<le> 254 \<and> unat c' * unat h' \<le> unat c * unat h"
proof (induction c h rule: large_shift.induct)
  case (1 c h)
  let ?c = "drop_bit 1 c :: u16" and ?h = "push_bit 1 h :: u16"
  have half: "unat ?c = unat c div 2" "unat ?h = 2 * unat h"
    by (rule unat_half, rule unat_double [OF 1(2)])
  have area: "unat ?c * unat ?h \<le> unat c * unat h" unfolding half by (simp add: algebra_simps)
  have le: "unat ?c \<le> unat c" unfolding half by simp
  show ?case
  proof (cases "1024 < c")
    case big: True
    show ?thesis
    proof (cases "127 < ?h")
      case True
      then have "c' = ?c" "h' = ?h" using 1(3) big by (simp_all add: large_shift.simps [of c h] Let_def)
      then show ?thesis using area le half(2) 1(2) by simp
    next
      case False
      then have "large_shift ?c ?h = (c', h')"
        using 1(3) big by (simp add: large_shift.simps [of c h] Let_def)
      moreover have "unat ?h \<le> 127" using False by (simp add: word_less_nat_alt)
      ultimately show ?thesis using 1(1) [OF big refl refl False] area le by (blast intro: order_trans)
    qed
  next
    case False
    then show ?thesis using 1(2,3) by (simp add: large_shift.simps [of c h])
  qed
qed

lemma clip_ok:
  assumes "unat c * unat h * unat s \<le> unat sz" "unat h \<le> 255"
  shows "geometry_ok (if c > 1024 then 1024 else c) h s sz"
proof -
  have "unat (if c > 1024 then 1024 else c :: u16) \<le> unat c"
    by (simp add: word_less_nat_alt)
  moreover have "unat (if c > 1024 then 1024 else c :: u16) \<le> 1024"
    by (simp add: word_less_nat_alt)
  ultimately show ?thesis
    using assms unfolding geometry_ok_def by (blast intro: order_trans mult_right_mono le0)
qed

lemma lba_heads_bounds: "16 \<le> unat (lba_heads sect)" "unat (lba_heads sect) \<le> 255"
  by (simp_all add: lba_heads_def Let_def)

lemma translate_lba_ok:
  assumes "translate TRANSLATION_LBA sz p = (c, h, s)"
  shows "geometry_ok c h s sz"
proof (cases "sz > 63 * 255 * 1024")
  case True
  then have "16450560 \<le> unat sz" by (simp add: word_less_nat_alt)
  then show ?thesis
    using assms True by (simp add: translate_def Let_def translation_codes geometry_ok_def)
next
  case False
  define sect where "sect = (ucast sz :: u32) div 63"
  define hh where "hh = lba_heads sect"
  have hh: "16 \<le> unat hh" "unat hh \<le> 255" unfolding hh_def by (rule lba_heads_bounds)+
  have sz: "unat sz \<le> 16450560" using False by (simp add: word_less_nat_alt)
  then have "unat (ucast sz :: u32) = unat sz" by (simp add: unat_ucast_fit)
  then have sect: "unat sect = unat sz div 63" unfolding sect_def by (simp add: unat_div)
  have hc: "unat (ucast hh :: u32) = unat hh" using hh by (simp add: unat_ucast_fit)
  have q: "unat (sect div ucast hh) = unat sect div unat hh" by (simp add: unat_div hc)
  have "unat sect div unat hh \<le> unat sect div 16" using hh(1) by (intro div_le_mono2) simp_all
  also have "\<dots> \<le> 16320" using sect sz by simp
  finally have c: "unat (ucast (sect div ucast hh) :: u16) = unat sect div unat hh"
    using q by (simp add: unat_ucast_fit)
  have t: "c = (if ucast (sect div ucast hh) > (1024 :: u16) then 1024 else ucast (sect div ucast hh))"
    "h = hh" "s = 63"
    using assms False by (auto simp: translate_def Let_def translation_codes sect_def hh_def)
  have "unat sect div unat hh * unat hh * 63 \<le> unat sect * 63" by (intro mult_right_mono) simp_all
  also have "\<dots> \<le> unat sz" using sect by simp
  finally show ?thesis unfolding t using hh(2) c by (intro clip_ok) simp_all
qed

lemma translate_ok:
  assumes h: "unat (heads p) \<le> 127" and cap: "psectors p \<le> unat sz"
    and t: "translate t sz p = (c, h, s)"
  shows "geometry_ok c h s sz"
proof -
  have shift: "geometry_ok (if c' > 1024 then 1024 else c') h' (spt p) sz"
    if "large_shift c0 h0 = (c', h')" "unat h0 \<le> 127" "unat c0 * unat h0 \<le> unat (cylinders p) * unat (heads p)"
    for c0 h0 c' h'
  proof (rule clip_ok)
    have "unat c' * unat h' \<le> unat (cylinders p) * unat (heads p)"
      using large_shift_bounds [OF that(2,1)] that(3) by linarith
    then have "unat c' * unat h' * unat (spt p) \<le> psectors p"
      unfolding psectors_def by (rule mult_right_mono) simp
    then show "unat c' * unat h' * unat (spt p) \<le> unat sz" using cap by linarith
    show "unat h' \<le> 255" using large_shift_bounds [OF that(2,1)] by simp
  qed
  consider (lba) "t = TRANSLATION_LBA"
    | (rechs) "t = TRANSLATION_RECHS" "heads p = 16"
    | (large) "t = TRANSLATION_LARGE \<or> t = TRANSLATION_RECHS \<and> heads p \<noteq> 16"
    | (none) "t \<noteq> TRANSLATION_LBA" "t \<noteq> TRANSLATION_RECHS" "t \<noteq> TRANSLATION_LARGE"
    by blast
  then show ?thesis
  proof cases
    case lba
    then show ?thesis using translate_lba_ok t by simp
  next
    case rechs
    define c0 where "c0 = (if cylinders p > 61439 then 61439 else cylinders p)"
    define c1 where "c1 = (ucast ((ucast c0 :: u32) * 16 div 15) :: u16)"
    have c0: "unat c0 \<le> 61439" "unat c0 \<le> unat (cylinders p)"
      unfolding c0_def by (auto simp: word_less_nat_alt)
    have "unat ((ucast c0 :: u32) * 16 div 15) = unat c0 * 16 div 15"
      using c0 by (simp add: unat_div unat_word_ariths unat_ucast_fit)
    then have c1: "unat c1 = unat c0 * 16 div 15"
      using c0 unfolding c1_def by (simp add: unat_ucast_fit)
    obtain c' h' where ls: "large_shift c1 15 = (c', h')" by (cases "large_shift c1 15")
    have "unat c1 * 15 \<le> unat c0 * 16" unfolding c1 by simp
    also have "\<dots> \<le> unat (cylinders p) * unat (heads p)" using c0(2) rechs(2) by simp
    finally have "unat c1 * unat (15 :: u16) \<le> unat (cylinders p) * unat (heads p)" by simp
    then have "geometry_ok (if c' > 1024 then 1024 else c') h' (spt p) sz"
      by (rule shift [OF ls, rotated]) simp
    then show ?thesis
      using t ls rechs by (simp add: translate_def Let_def translation_codes c0_def [symmetric] c1_def)
  next
    case large
    obtain c' h' where ls: "large_shift (cylinders p) (heads p) = (c', h')"
      by (cases "large_shift (cylinders p) (heads p)")
    then have "geometry_ok (if c' > 1024 then 1024 else c') h' (spt p) sz"
      using h by (rule shift [OF _ _ order_refl])
    then show ?thesis
      using t ls large by (auto simp: translate_def Let_def translation_codes)
  next
    case none
    then have "c = (if cylinders p > 1024 then 1024 else cylinders p)" "h = heads p" "s = spt p"
      using t by (simp_all add: translate_def Let_def)
    then show ?thesis using clip_ok [of "cylinders p" "heads p" "spt p" sz] h cap
      by (simp add: psectors_def)
  qed
qed

text \<open>The heuristic never picks a translation that would leave the limits.\<close>

lemma psectors_u64:
  "unat (ucast (heads p) * ucast (cylinders p) * ucast (spt p) :: u64) = psectors p"
proof -
  have u: "unat (ucast x :: u64) = unat x" for x :: u16 using u16_bound [of x] by (simp add: unat_ucast_fit)
  have "unat (heads p) * unat (cylinders p) \<le> 65535 * 65535"
    using u16_bound [of "heads p"] u16_bound [of "cylinders p"] by (intro mult_mono) simp_all
  moreover from this have "unat (heads p) * unat (cylinders p) * unat (spt p) \<le> 65535 * 65535 * 65535"
    by (rule mult_mono) (use u16_bound [of "spt p"] in simp_all)
  ultimately show ?thesis
    by (simp add: unat_word_ariths u psectors_def mult.commute)
qed

lemma sint_area:
  assumes "unat h \<le> 255"
  shows "sint (ucast c * ucast h :: u32) = int (unat (c :: u16) * unat (h :: u16))"
proof -
  have u: "unat (ucast x :: u32) = unat x" for x :: u16 using u16_bound [of x] by (simp add: unat_ucast_fit)
  have "unat c \<le> 65535" using u16_bound [of c] by simp
  then have b: "unat c * unat h \<le> 65535 * 255" using assms by (rule mult_mono) simp_all
  then have "unat c * unat h < 4294967296" by simp
  then have "unat (ucast c * ucast h :: u32) = unat c * unat h"
    by (simp only: unat_word_ariths u) simp
  then have e: "uint (ucast c * ucast h :: u32) = int (unat c * unat h)"
    by (simp only: uint_nat)
  have "signed_take_bit (LENGTH(32) - Suc 0) (int n) = int n" if "n \<le> 65535 * 255" for n
    using that by (intro signed_take_bit_int_eq_self) simp_all
  note this [OF b]
  then show ?thesis by (simp only: sint_uint e)
qed

lemma heuristic_ok:
  assumes h: "unat (heads (pchs d)) \<le> 255"
    and t: "translate (heuristic_translation d) (sectors d) (pchs d) = (c, ch, s)"
  shows "geometry_ok c ch s (sectors d)"
proof -
  let ?p = "pchs d"
  have ps: "sectors d < ucast (heads ?p) * ucast (cylinders ?p) * ucast (spt ?p) \<longleftrightarrow> unat (sectors d) < psectors ?p"
    by (simp only: word_less_nat_alt psectors_u64)
  have i: "int n \<le> 131072 \<longleftrightarrow> n \<le> 131072" for n by linarith
  have def: "heuristic_translation d =
      (if heads ?p = 0 \<or> cylinders ?p = 0 \<or> spt ?p = 0 \<or> unat (sectors d) < psectors ?p then TRANSLATION_LBA
       else if cylinders ?p \<le> 1024 \<and> heads ?p \<le> 16 \<and> spt ?p \<le> 63 then TRANSLATION_NONE
       else if unat (cylinders ?p) * unat (heads ?p) \<le> 131072 then TRANSLATION_LARGE
       else TRANSLATION_LBA)"
    unfolding heuristic_translation_def Let_def ps sint_area [OF h] i by (rule refl)
  consider (lba) "heuristic_translation d = TRANSLATION_LBA"
    | (none) "heuristic_translation d = TRANSLATION_NONE" "heads ?p \<le> 16" "psectors ?p \<le> unat (sectors d)"
    | (large) "heuristic_translation d = TRANSLATION_LARGE" "psectors ?p \<le> unat (sectors d)"
        "unat (cylinders ?p) * unat (heads ?p) \<le> 131072"
  proof (cases "unat (sectors d) < psectors ?p")
    case True
    then show ?thesis using lba def by simp
  next
    case False
    then show ?thesis using that def by (simp split: if_splits)
  qed
  then show ?thesis
  proof cases
    case lba
    then show ?thesis using t by (simp add: translate_lba_ok)
  next
    case none
    then show ?thesis using t by (intro translate_ok [of ?p]) (simp_all add: word_le_nat_alt)
  next
    case large
    show ?thesis
    proof (cases "unat (heads ?p) \<le> 127")
      case True
      then show ?thesis using t large by (intro translate_ok [of ?p]) simp_all
    next
      case False
      then have "unat (cylinders ?p) * 128 \<le> unat (cylinders ?p) * unat (heads ?p)" by simp
      then have "unat (cylinders ?p) \<le> 1024" using large(3) by linarith
      then have "\<not> 1024 < cylinders ?p" by (simp add: word_less_nat_alt)
      then have "c = cylinders ?p" "ch = heads ?p" "s = spt ?p"
        using t large(1)
        by (auto simp: translate_def Let_def translation_codes large_shift.simps [of "cylinders ?p"])
      then show ?thesis
        using \<open>unat (cylinders ?p) \<le> 1024\<close> h large(2) by (simp add: geometry_ok_def psectors_def)
    qed
  qed
qed

lemma get_translation_frame:
  "drives (snd (get_translation g st)) = drives st" "mem (snd (get_translation g st)) = mem st"
  by (simp_all add: get_translation_def inb_cmos_def inb_def outb_def Let_def)

lemma translate_spt: "translate t sz p = (c, h, s) \<Longrightarrow> s = 63 \<or> s = spt p"
  by (auto simp: translate_def Let_def split: if_splits prod.splits)

lemma setup_translation_made:
  assumes "unat (heads (pchs (drives st g))) \<le> (if dtype (drives st g) = DTYPE_ATA then 127 else 255)"
    and "dtype (drives st g) \<noteq> DTYPE_ATA \<or> psectors (pchs (drives st g)) \<le> unat (sectors (drives st g))"
  shows "\<exists>t c h s. geometry_ok c h s (sectors (drives st g)) \<and> (s = 63 \<or> s = spt (pchs (drives st g))) \<and>
    drives (setup_translation g st) = (drives st)(g := (drives st g)\<lparr>translation := t,
      lchs := \<lparr>heads = h, cylinders = c, spt = s\<rparr>\<rparr>)"
proof -
  let ?d = "drives st g"
  obtain t st' where gt: "get_translation g st = (t, st')" by fastforce
  have st': "drives st' = drives st" using get_translation_frame(1) [of g st] gt by simp
  obtain c h s where tr: "translate t (sectors ?d) (pchs ?d) = (c, h, s)" by (metis prod_cases3)
  have "geometry_ok c h s (sectors ?d)"
  proof (cases "dtype ?d = DTYPE_ATA")
    case True
    then show ?thesis using assms tr by (intro translate_ok [OF _ _ tr]) simp_all
  next
    case False
    then have "t = heuristic_translation ?d"
      using arg_cong [OF gt, of fst] by (simp add: get_translation_def)
    then show ?thesis using assms(1) False tr by (intro heuristic_ok) simp_all
  qed
  moreover have "s = 63 \<or> s = spt (pchs ?d)" by (rule translate_spt [OF tr])
  moreover have "drives (setup_translation g st) =
      (drives st)(g := ?d\<lparr>translation := t, lchs := \<lparr>heads = h, cylinders = c, spt = s\<rparr>\<rparr>)"
    using gt st' tr by (simp add: setup_translation_def)
  ultimately show ?thesis by blast
qed

text \<open>Whatever the drive reports and whatever translation the nonvolatile memory asks for, the
  logical geometry \<open>setup_translation\<close> gives a drive keeps the limits of INT 13h (1024
  cylinders, 255 heads) and holds no address behind the last sector, provided the drive reports
  a physical geometry that fits the disk with at most 127 heads (any drive with at most 255
  heads when the heuristic chooses). Nothing else of the drives changes but the translation.\<close>

theorem setup_translation_geometry:
  assumes "unat (heads (pchs (drives st g))) \<le> (if dtype (drives st g) = DTYPE_ATA then 127 else 255)"
    and "dtype (drives st g) \<noteq> DTYPE_ATA \<or> psectors (pchs (drives st g)) \<le> unat (sectors (drives st g))"
  shows "\<exists>t c h s. geometry_ok c h s (sectors (drives st g)) \<and>
    drives (setup_translation g st) = (drives st)(g := (drives st g)\<lparr>translation := t,
      lchs := \<lparr>heads = h, cylinders = c, spt = s\<rparr>\<rparr>)"
  using setup_translation_made [OF assms] by blast

section \<open>Drive numbers\<close>

text \<open>Adding drives one after the other to a table.\<close>

lemma fold_add_drive:
  assumes "length idm = 16" "unat n \<le> 16"
  shows "fold (\<lambda>d (idm, n). add_drive idm n d) ds (idm, n) =
    (take 16 (take (unat n) idm @ ds @ drop (unat n + length ds) idm),
     of_nat (min 16 (unat n + length ds)))"
  using assms
proof (induction ds arbitrary: idm n)
  case (Cons d ds)
  show ?case
  proof (cases "unat n = 16")
    case True
    then have "n = 16" by (simp add: word_unat_eq_iff)
    have "fold (\<lambda>d (idm, n). add_drive idm n d) ds (idm, n) =
        (take 16 (take (unat n) idm @ ds @ drop (unat n + length ds) idm), of_nat (min 16 (unat n + length ds)))"
      using Cons.IH [OF Cons.prems] .
    then show ?thesis using True \<open>n = 16\<close> Cons.prems(1)
      by (simp add: add_drive_def CONFIG_MAX_EXTDRIVE_def)
  next
    case False
    then have lt: "unat n < 16" using Cons.prems(2) by simp
    have n1: "unat (n + 1) = unat n + 1" using lt by (simp add: unat_word_ariths)
    have "add_drive idm n d = (idm[unat n := d], n + 1)"
      using lt by (simp add: add_drive_def CONFIG_MAX_EXTDRIVE_def)
    moreover have "take (unat n + 1) (idm[unat n := d]) = take (unat n) idm @ [d]"
      using lt Cons.prems(1) by (simp add: take_Suc_conv_app_nth)
    moreover have "drop (unat n + 1 + length ds) (idm[unat n := d]) = drop (unat n + length (d # ds)) idm"
      by (simp add: drop_update_cancel)
    ultimately show ?thesis
      using Cons.IH [of "idm[unat n := d]" "n + 1"] Cons.prems(1) lt n1 by simp
  qed
qed simp

text \<open>A write through the table at \<open>f\<close> leaves every address outside its 16 bytes alone.\<close>

lemma off_neq: "16 \<le> unat (a - f) \<Longrightarrow> unat k < 16 \<Longrightarrow> a \<noteq> f + (k :: u32)"
  by auto

lemma write_fdpt_frame:
  assumes "16 \<le> unat (a - f)"
  shows "write_fdpt l p f m a = m a"
proof -
  note ne = off_neq [OF assms]
  have "a \<noteq> f + 0" "a \<noteq> f + 1" "a \<noteq> f + 2" "a \<noteq> f + 3" "a \<noteq> f + 4" "a \<noteq> f + 5" "a \<noteq> f + 6"
    "a \<noteq> f + 8" "a \<noteq> f + 9" "a \<noteq> f + 10" "a \<noteq> f + 11" "a \<noteq> f + 12" "a \<noteq> f + 13" "a \<noteq> f + 14" "a \<noteq> f + 15"
    by (rule ne, simp)+
  then show ?thesis
    by (simp add: write_fdpt_def Let_def fdpt_offsets wr8_def wr16_def add.assoc)
qed

lemma low_before_ebda:
  assumes "0x50 \<le> sg" "unat a < 0x500" "i \<le> 1"
  shows "16 \<le> unat (a - MAKE_FLATPTR sg (ebda_fdpt i))"
proof -
  let ?f = "MAKE_FLATPTR sg (ebda_fdpt i)"
  have sg: "unat sg < 65536" "80 \<le> unat sg"
    using assms(1) u16_bound [of sg] by (simp_all add: word_le_nat_alt)
  have "unat (push_bit 4 (ucast sg) :: u32) = 16 * unat sg"
    using sg by (simp add: push_bit_eq_mult unat_word_ariths unat_ucast_fit)
  moreover have "unat (ebda_fdpt i) = 61 + 16 * i"
    using assms(3) by (cases i) (simp_all add: ebda_fdpt_def)
  ultimately have f: "unat ?f = 16 * unat sg + 61 + 16 * i"
    using sg assms(3) by (simp add: MAKE_FLATPTR_def unat_word_ariths)
  then have "a < ?f" using sg assms(2) by (simp add: word_less_nat_alt)
  then have "unat (a - ?f) = 4294967296 + unat a - unat ?f" by (rule unat_sub_wrap32)
  then show ?thesis using f sg assms(3) by simp
qed

lemma fill_fdpt_low:
  assumes "0x50 \<le> get_ebda_seg st" "unat a < 0x500" "0x400 \<le> unat a"
  shows "mem (fill_fdpt g hdid st) a = mem st a"
proof -
  have ivt: "wr32 (MAKE_FLATPTR 0 v) so m a = m a" if "v = 260 \<or> v = 280" for v so m
    using that assms(3) by (auto simp: wr32_def wr16_def MAKE_FLATPTR_def)
  show ?thesis
    using assms(1,2) low_before_ebda [OF assms(1,2)]
    by (auto simp: fill_fdpt_def Let_def SET_IVT_def ivt write_fdpt_frame)
qed

lemma setup_translation_frame [simp]:
  "mem (setup_translation g st) = mem st" "IDMap (setup_translation g st) = IDMap st"
  "cdemu_drive_gf (setup_translation g st) = cdemu_drive_gf st"
  by (simp_all add: setup_translation_def get_translation_def inb_cmos_def inb_def outb_def Let_def
      split: prod.splits)

lemma fill_fdpt_IDMap [simp]: "IDMap (fill_fdpt g n st) = IDMap st"
  by (simp add: fill_fdpt_def SET_IVT_def Let_def)

lemma map_hd_step:
  assumes "0x50 \<le> get_ebda_seg st"
  shows "IDMap (map_hd_drive g st) = (IDMap st)(EXTTYPE_HD := fst (add_drive (IDMap st EXTTYPE_HD) (bda8 bda_hdcount st) g))"
    "bda8 bda_hdcount (map_hd_drive g st) = snd (add_drive (IDMap st EXTTYPE_HD) (bda8 bda_hdcount st) g)"
    "get_ebda_seg (map_hd_drive g st) = get_ebda_seg st"
proof -
  obtain idm n where ad: "add_drive (IDMap st EXTTYPE_HD) (bda8 bda_hdcount st) g = (idm, n)" by fastforce
  define st1 where "st1 = setup_translation g
    (set_bda8 bda_hdcount n (st\<lparr>IDMap := (IDMap st)(EXTTYPE_HD := idm)\<rparr>))"
  have st': "map_hd_drive g st = fill_fdpt g (unat (bda8 bda_hdcount st)) st1"
    by (simp add: map_hd_drive_def Let_def ad st1_def)
  have m1: "mem st1 = wr8 0x475 n (mem st)" by (simp add: st1_def bda_offsets)
  have seg: "get_ebda_seg st1 = get_ebda_seg st"
    by (simp add: get_ebda_seg_def bda16_def m1 bda_offsets rd16_def wr8_def)
  note low = fill_fdpt_low [of st1, unfolded seg, OF assms]
  show "IDMap (map_hd_drive g st) = (IDMap st)(EXTTYPE_HD := fst (add_drive (IDMap st EXTTYPE_HD) (bda8 bda_hdcount st) g))"
    unfolding st' by (simp add: ad) (simp add: st1_def set_bda8_def)
  show "bda8 bda_hdcount (map_hd_drive g st) = snd (add_drive (IDMap st EXTTYPE_HD) (bda8 bda_hdcount st) g)"
    unfolding st' ad snd_conv by (simp add: bda8_def rd8_def bda_offsets low m1) (simp add: wr8_def)
  show "get_ebda_seg (map_hd_drive g st) = get_ebda_seg st"
    unfolding st' seg [symmetric] by (simp add: get_ebda_seg_def bda16_def rd16_def bda_offsets low)
qed

lemma fold_map_hd:
  assumes "0x50 \<le> get_ebda_seg st"
  shows "(IDMap (fold map_hd_drive ds st) EXTTYPE_HD, bda8 bda_hdcount (fold map_hd_drive ds st)) =
      fold (\<lambda>d (idm, n). add_drive idm n d) ds (IDMap st EXTTYPE_HD, bda8 bda_hdcount st)"
  using assms
proof (induction ds arbitrary: st)
  case (Cons d ds)
  then show ?case using Cons.IH [of "map_hd_drive d st"] map_hd_step [OF Cons.prems, of d] by simp
qed simp

text \<open>The search of a drive in its table finds the first number it has.\<close>

lemma getDriveId_from_spec:
  "i \<le> 16 \<Longrightarrow> getDriveId_from i t g st =
    (if \<exists>j. i \<le> j \<and> j < 16 \<and> getDrive t (of_nat j) st = g
     then int (LEAST j. i \<le> j \<and> j < 16 \<and> getDrive t (of_nat j) st = g) else - 1)"
proof (induction i t g st rule: getDriveId_from.induct)
  case (1 i t g st)
  let ?P = "\<lambda>i j. i \<le> j \<and> j < 16 \<and> getDrive t (of_nat j) st = g"
  consider "i = 16" | "i < 16" "getDrive t (of_nat i) st = g" | "i < 16" "getDrive t (of_nat i) st \<noteq> g"
    using 1(2) by fastforce
  then show ?case
  proof cases
    case 1
    then show ?thesis by (simp add: getDriveId_from.simps [of 16] CONFIG_MAX_EXTDRIVE_def)
  next
    case 2
    then have "(LEAST j. ?P i j) = i" by (intro Least_equality) auto
    then show ?thesis using 2 by (auto simp: getDriveId_from.simps [of i] CONFIG_MAX_EXTDRIVE_def)
  next
    case 3
    have P: "?P i = ?P (i + 1)" using 3 by (intro ext) (auto simp: Suc_le_eq le_less)
    have step: "getDriveId_from i t g st = getDriveId_from (i + 1) t g st"
      using 3 by (simp add: getDriveId_from.simps [of i] CONFIG_MAX_EXTDRIVE_def)
    have IH: "getDriveId_from (i + 1) t g st =
        (if Ex (?P (i + 1)) then int (Least (?P (i + 1))) else - 1)"
      using 3 by (intro 1(1)) (simp_all add: CONFIG_MAX_EXTDRIVE_def)
    show ?thesis unfolding step IH P ..
  qed
qed

text \<open>The table after mapping the drives \<open>ds\<close> into an empty one.\<close>

lemma hd_table:
  assumes "0x50 \<le> get_ebda_seg st" "IDMap st EXTTYPE_HD = replicate 16 0" "bda8 bda_hdcount st = 0"
  shows "IDMap (fold map_hd_drive ds st) EXTTYPE_HD = take 16 (ds @ replicate (16 - length ds) 0)"
    "bda8 bda_hdcount (fold map_hd_drive ds st) = of_nat (min 16 (length ds))"
  using fold_map_hd [OF assms(1), of ds] fold_add_drive [of "replicate 16 0" 0 ds] assms(2,3) by simp_all

lemma hd_getDrive:
  assumes "0x50 \<le> get_ebda_seg st" "IDMap st EXTTYPE_HD = replicate 16 0" "bda8 bda_hdcount st = 0"
    and "i < 16"
  shows "getDrive EXTTYPE_HD (of_nat i) (fold map_hd_drive ds st) = (if i < length ds then ds ! i else 0)"
proof -
  have "unat (of_nat i :: u8) = i" using assms(4) by (simp add: unat_of_nat take_bit_nat_eq_self)
  then show ?thesis
    using assms(4) by (simp add: getDrive_def CONFIG_MAX_EXTDRIVE_def hd_table [OF assms(1-3)] nth_append)
qed

text \<open>Hard drives get the numbers 0, 1, 2, ... in the order they are mapped, at most 16; the
  count in the BIOS data area is their number, all other numbers name no drive, and
  \<open>getDriveId\<close> inverts \<open>getDrive\<close>: -1 for a drive that has no number.\<close>

theorem hd_numbers:
  assumes "0x50 \<le> get_ebda_seg st" "IDMap st EXTTYPE_HD = replicate 16 0" "bda8 bda_hdcount st = 0"
    and "distinct ds" "0 \<notin> set ds" "i < 16"
  shows "getDrive EXTTYPE_HD (of_nat i) (fold map_hd_drive ds st) = (if i < length ds then ds ! i else 0)
    \<and> bda8 bda_hdcount (fold map_hd_drive ds st) = of_nat (min 16 (length ds))
    \<and> (i < length ds \<longrightarrow> getDriveId EXTTYPE_HD (ds ! i) (fold map_hd_drive ds st) = int i)
    \<and> (g \<noteq> 0 \<longrightarrow> g \<notin> set (take 16 ds) \<longrightarrow> getDriveId EXTTYPE_HD g (fold map_hd_drive ds st) = - 1)"
proof (intro conjI impI)
  note get = hd_getDrive [OF assms(1-3)]
  show "getDrive EXTTYPE_HD (of_nat i) (fold map_hd_drive ds st) = (if i < length ds then ds ! i else 0)"
    by (rule get [OF assms(6)])
  show "bda8 bda_hdcount (fold map_hd_drive ds st) = of_nat (min 16 (length ds))"
    by (rule hd_table [OF assms(1-3)])
  let ?P = "\<lambda>g j. 0 \<le> j \<and> j < 16 \<and> getDrive EXTTYPE_HD (of_nat j) (fold map_hd_drive ds st) = g"
  have P: "?P g j \<longleftrightarrow> j < 16 \<and> (if j < length ds then ds ! j else 0) = g" for g j
    using get [of j] by auto
  show "getDriveId EXTTYPE_HD (ds ! i) (fold map_hd_drive ds st) = int i" if "i < length ds"
  proof -
    have nz: "ds ! i \<noteq> 0" using that assms(5) by (metis nth_mem)
    have "?P (ds ! i) j \<longleftrightarrow> j = i" for j
      unfolding P using that assms(4,6) nz by (auto simp: nth_eq_iff_index_eq)
    then have "?P (ds ! i) = (\<lambda>j. j = i)" by blast
    moreover have "(LEAST j. j = i) = i" by (rule Least_equality) simp_all
    ultimately show ?thesis by (simp add: getDriveId_def getDriveId_from_spec)
  qed
  show "getDriveId EXTTYPE_HD g (fold map_hd_drive ds st) = - 1" if "g \<noteq> 0" "g \<notin> set (take 16 ds)"
  proof -
    have "\<not> ?P g j" for j
      unfolding P using that by (auto simp: in_set_conv_nth)
    then show ?thesis unfolding getDriveId_def by (subst getDriveId_from_spec) auto
  qed
qed

text \<open>A machine after reset, for the witnesses.\<close>

definition no_chs :: chs_s where "no_chs = \<lparr>heads = 0, cylinders = 0, spt = 0\<rparr>"

definition demo_drive :: drive_s where
  "demo_drive = \<lparr>dtype = 8, floppy_type = 0, lchs = no_chs, sectors = 4194304, cntl_id = 0, removable = 0,
     translation = 0, blksize = 512, pchs = \<lparr>heads = 16, cylinders = 4161, spt = 63\<rparr>\<rparr>"

definition demo_disks :: disk_state where
  "demo_disks = \<lparr>mem = (\<lambda>_. 0)(0x40e := 0xc0, 0x40f := 0x9f), io_log = [], dev = (\<lambda>_ _ _. 0),
     FloppyCount = 0, CDCount = 0, IDMap = (\<lambda>_. replicate 16 0), bounce_buf_fl = 0x8000,
     cdemu_drive_gf = 0, drives = (\<lambda>_. demo_drive),
     atadrives = (\<lambda>_. \<lparr>chan_gf = \<lparr>iobase1 = 0x1f0, iobase2 = 0x3f4, iomaster = 0, irq = 14, chanid = 0, pci_bdf = 9\<rparr>, slave = 0\<rparr>)\<rparr>"

lemma demo_disks_seg: "get_ebda_seg demo_disks = 0x9fc0"
  by (simp add: get_ebda_seg_def bda16_def demo_disks_def rd16_def bda_offsets push_bit_eq_mult)

lemma demo_disks_fields:
  "0x50 \<le> get_ebda_seg demo_disks" "IDMap demo_disks EXTTYPE_HD = replicate 16 0" "bda8 bda_hdcount demo_disks = 0"
  unfolding demo_disks_seg by (simp_all add: demo_disks_def bda8_def rd8_def bda_offsets)

lemma setup_translation_geometry_witness:
  "\<exists>t c h s. geometry_ok c h s 4194304 \<and>
    drives (setup_translation 0x1000 demo_disks) = (drives demo_disks)(0x1000 := demo_drive\<lparr>translation := t,
      lchs := \<lparr>heads = h, cylinders = c, spt = s\<rparr>\<rparr>)"
  using setup_translation_geometry [of demo_disks "0x1000"]
  by (simp add: demo_disks_def demo_drive_def dtype_codes)

lemma hd_numbers_witness:
  "getDrive EXTTYPE_HD 1 (fold map_hd_drive [0x1000, 0x2000] demo_disks) = 0x2000
   \<and> getDriveId EXTTYPE_HD 0x2000 (fold map_hd_drive [0x1000, 0x2000] demo_disks) = 1
   \<and> getDriveId EXTTYPE_HD 0x3000 (fold map_hd_drive [0x1000, 0x2000] demo_disks) = - 1"
  using hd_numbers [OF demo_disks_fields, of "[0x1000, 0x2000]" 1 "0x3000"] by simp

section \<open>The fixed disk parameter table\<close>

text \<open>The fixed disk parameter table of a drive holds its logical geometry; when that differs
  from the physical one, it is the extended table: the signature \<open>A0h\<close>, the physical geometry
  and 16 bytes whose checksum is 0. No byte outside the table is written.\<close>

theorem fdpt_complete:
  "rd16 (write_fdpt l p f m) f = cylinders l
   \<and> rd8 (write_fdpt l p f m) (f + 2) = ucast (heads l)
   \<and> rd8 (write_fdpt l p f m) (f + 14) = ucast (spt l)
   \<and> ((cylinders l, heads l, spt l) = (cylinders p, heads p, spt p)
      \<or> rd8 (write_fdpt l p f m) (f + 3) = 0xa0
        \<and> rd16 (write_fdpt l p f m) (f + 9) = cylinders p
        \<and> rd8 (write_fdpt l p f m) (f + 11) = ucast (heads p)
        \<and> rd8 (write_fdpt l p f m) (f + 4) = ucast (spt p)
        \<and> checksum (write_fdpt l p f m) f 16 = 0)
   \<and> (unat (a - f) < 16 \<or> write_fdpt l p f m a = m a)"
proof (intro conjI)
  note w = write_fdpt_def Let_def fdpt_offsets
  have rr: "rd16 (m'(k := v)) a = rd16 m' a" if "a \<noteq> k" "a + 1 \<noteq> k" for m' k v and a :: u32
    using that by (simp add: rd16_def)
  show "rd16 (write_fdpt l p f m) f = cylinders l"
    by (simp add: w rd16_wr16_other rd16_wr8_other add.assoc)
  show "rd8 (write_fdpt l p f m) (f + 2) = ucast (heads l)"
    by (simp add: w rd8_wr16)
  show "rd8 (write_fdpt l p f m) (f + 14) = ucast (spt l)"
    by (simp add: w rd8_wr16)
  show "unat (a - f) < 16 \<or> write_fdpt l p f m a = m a"
    using write_fdpt_frame [of a f l p m] by (simp add: not_less [symmetric]) blast
  show "(cylinders l, heads l, spt l) = (cylinders p, heads p, spt p)
      \<or> rd8 (write_fdpt l p f m) (f + 3) = 0xa0
        \<and> rd16 (write_fdpt l p f m) (f + 9) = cylinders p
        \<and> rd8 (write_fdpt l p f m) (f + 11) = ucast (heads p)
        \<and> rd8 (write_fdpt l p f m) (f + 4) = ucast (spt p)
        \<and> checksum (write_fdpt l p f m) f 16 = 0"
  proof (cases "(cylinders l, heads l, spt l) = (cylinders p, heads p, spt p)")
    case False
    then have ext: "cylinders l \<noteq> cylinders p \<or> heads l \<noteq> heads p \<or> spt l \<noteq> spt p" by auto
    define M where "M = wr8 (f + 3) 0xa0 (wr8 (f + 4) (ucast (spt p)) (wr8 (f + 11) (ucast (heads p))
      (wr16 (f + 9) (cylinders p) (wr8 (f + 14) (ucast (spt l)) (wr8 (f + 2) (ucast (heads l))
      (wr16 f (cylinders l) (wr16 (f + 12) (cylinders p)
      (wr8 (f + 8) (0xc0 OR (if heads p > 8 then 8 else 0)) (wr16 (f + 5) 0xffff m)))))))))"
    have M: "write_fdpt l p f m = wr8 (f + 15) (rd8 M (f + 15) - checksum M f 16) M"
      unfolding w M_def if_P [OF ext] by (simp only: add_0_right)
    have fields: "rd8 M (f + 3) = 0xa0" "rd16 M (f + 9) = cylinders p" "rd8 M (f + 11) = ucast (heads p)"
      "rd8 M (f + 4) = ucast (spt p)"
      by (simp_all add: M_def rd8_wr16 rd16_wr16_other rd16_wr8_other add.assoc)
    have "checksum (write_fdpt l p f m) f 16 = 0"
      using checksum_fixed [of "f + 15" f 16 M] unfolding M by (simp add: wr8_def rd8_def)
    then show ?thesis using fields by (simp add: M rd16_wr8_other add.assoc)
  qed simp
qed

end
