(* ===== verification/DiskSpec.thy ===== *)
theory DiskSpec
  imports Disk BlockSpec
begin

text \<open>
  Properties of the INT 13h services: the arithmetic of cylinder, head and sector addresses, the
  agreement of the reported geometry with the accepted requests, the protocol of status and
  carry, the lock counters of removable drives, the EDD tables and the choice of the drive when a
  CD emulates one.
\<close>

section \<open>Registers\<close>

lemma put_h_sel [simp]: "lane_l (put_h v e) = lane_l e" by simp

lemma lane_x_halves: "lane_x e = ucast (lane_l e) OR push_bit 8 (ucast (lane_h e))"
  by (auto simp: lane_x_def lane_l_def lane_h_def bit_eq_iff bit_simps)

lemma reg_set [simp]:
  "DL (set_al v r) = DL r" "DL (set_ah v r) = DL r" "DL (set_cl v r) = DL r" "DL (set_ch v r) = DL r"
  "DL (set_bx w r) = DL r" "DL (set_cx w r) = DL r" "DL (set_dh v r) = DL r" "DL (set_dl v r) = v"
  "DL (set_di w r) = DL r" "DL (set_cf c r) = DL r" "DL (r\<lparr>r_es := w\<rparr>) = DL r"
  "AH (set_al v r) = AH r" "AH (set_ah v r) = v" "AH (set_cf c r) = AH r" "AH (set_dl v r) = AH r"
  "AH (set_dh v r) = AH r" "AH (set_cl v r) = AH r" "AH (set_ch v r) = AH r" "AH (set_cx w r) = AH r"
  "AH (set_dx w r) = AH r" "AH (set_bx w r) = AH r" "AH (set_di w r) = AH r" "AH (r\<lparr>r_es := w\<rparr>) = AH r"
  "AL (set_al v r) = v" "AL (set_ah v r) = AL r" "AL (set_cf c r) = AL r" "AL (set_dl v r) = AL r"
  "CL (set_cl v r) = v" "CL (set_ch v r) = CL r" "CH (set_ch v r) = v" "CH (set_cl v r) = CH r"
  "CL (set_ah v r) = CL r" "CH (set_ah v r) = CH r" "CL (set_cf c r) = CL r" "CH (set_cf c r) = CH r"
  "CL (set_dl v r) = CL r" "CH (set_dl v r) = CH r" "CL (set_dh v r) = CL r" "CH (set_dh v r) = CH r"
  "DH (set_dh v r) = v" "DH (set_dl v r) = DH r" "DH (set_ah v r) = DH r" "DH (set_cf c r) = DH r"
  "CX (set_cx w r) = w" "CX (set_dx w r) = CX r" "CX (set_ah v r) = CX r"
  "DX (set_dx w r) = w" "DX (set_ah v r) = DX r" "DX (set_cx w r) = DX r"
  by (simp_all add: lane_defs set_lane_defs set_di_def)

lemma carry_sets [simp]:
  "carry (set_al v r) = carry r" "carry (set_ah v r) = carry r" "carry (set_dl v r) = carry r"
  "carry (set_cx w r) = carry r" "carry (set_dx w r) = carry r"
  by (simp_all add: carry_def set_lane_defs)

lemma disk_ret_regs:
  "AH (fst (disk_ret r code st)) = ucast code" "carry (fst (disk_ret r code st)) \<longleftrightarrow> (ucast code :: u8) \<noteq> 0"
  "DL (fst (disk_ret r code st)) = DL r" "AL (fst (disk_ret r code st)) = AL r"
  "CL (fst (disk_ret r code st)) = CL r" "CH (fst (disk_ret r code st)) = CH r" "DH (fst (disk_ret r code st)) = DH r"
  "snd (disk_ret r code st) = set_bda8 (last_status_cell (DL r)) (ucast code) st"
  by (simp_all add: disk_ret_def Let_def code_defs)

lemma disk_ret_unimplemented_regs:
  "AH (fst (disk_ret_unimplemented r code st)) = ucast code" "carry (fst (disk_ret_unimplemented r code st))"
  "snd (disk_ret_unimplemented r code st) = set_bda8 (last_status_cell (DL r)) (ucast code) st"
  by (simp_all add: disk_ret_unimplemented_def Let_def code_defs)

section \<open>Cylinders, heads and sectors\<close>

text \<open>A geometry of INT 13h, and an address within it.\<close>

definition int13_geometry :: "u16 \<Rightarrow> u16 \<Rightarrow> u16 \<Rightarrow> bool" where
  "int13_geometry nlc nlh nlspt \<longleftrightarrow> unat nlc \<le> 1024 \<and> unat nlh \<le> 256 \<and> unat nlspt \<le> 63"

definition chs_in :: "u16 \<Rightarrow> u16 \<Rightarrow> u16 \<Rightarrow> u16 \<Rightarrow> u16 \<Rightarrow> u16 \<Rightarrow> bool" where
  "chs_in nlc nlh nlspt c h s \<longleftrightarrow> c < nlc \<and> h < nlh \<and> s \<noteq> 0 \<and> s \<le> nlspt"

lemma chs_index_less:
  fixes C H S c h s :: nat
  assumes "c < C" "h < H" "1 \<le> s" "s \<le> S"
  shows "(c * H + h) * S + s - 1 < C * H * S"
proof -
  have "c * H + h < Suc c * H" using assms(2) by simp
  also have "\<dots> \<le> C * H" using assms(1) by (intro mult_right_mono) simp_all
  finally have "Suc (c * H + h) * S \<le> C * H * S" by (intro mult_right_mono) simp_all
  then show ?thesis using assms(3,4) by simp
qed

lemma chs_lba_index:
  assumes "int13_geometry nlc nlh nlspt" "chs_in nlc nlh nlspt c h s"
  shows "unat (chs_lba nlh nlspt c h s) = (unat c * unat nlh + unat h) * unat nlspt + unat s - 1"
    "unat (chs_lba nlh nlspt c h s) < unat nlc * unat nlh * unat nlspt"
proof -
  have u: "unat (ucast x :: u32) = unat x" for x :: u16 using u16_bound [of x] by (simp add: unat_ucast_fit)
  have in_nat: "unat c < unat nlc" "unat h < unat nlh" "1 \<le> unat s" "unat s \<le> unat nlspt"
    using assms(2) unfolding chs_in_def
    by (simp_all add: word_less_nat_alt word_le_nat_alt Suc_le_eq unat_gt_0)
  have less: "(unat c * unat nlh + unat h) * unat nlspt + unat s - 1 < unat nlc * unat nlh * unat nlspt"
    by (rule chs_index_less [OF in_nat])
  have "unat nlc * unat nlh \<le> 1024 * 256"
    by (rule mult_mono) (use assms(1) in \<open>simp_all add: int13_geometry_def\<close>)
  then have "unat nlc * unat nlh * unat nlspt \<le> 1024 * 256 * 63"
    by (rule mult_mono) (use assms(1) in \<open>simp_all add: int13_geometry_def\<close>)
  then have cap: "(unat c * unat nlh + unat h) * unat nlspt + unat s \<le> 16515072"
    using less by linarith
  have a: "unat c * unat nlh + unat h \<le> (unat c * unat nlh + unat h) * unat nlspt"
    using in_nat(3,4) by simp
  then have "unat c * unat nlh + unat h < 4294967296" using cap by linarith
  then have "unat (ucast c * ucast nlh + ucast h :: u32) = unat c * unat nlh + unat h"
    by (simp add: unat_word_ariths u)
  then have "unat ((ucast c * ucast nlh + ucast h) * ucast nlspt + ucast s :: u32)
      = (unat c * unat nlh + unat h) * unat nlspt + unat s"
    using cap by (simp add: unat_word_ariths u)
  moreover from this have "(ucast c * ucast nlh + ucast h) * ucast nlspt + ucast s \<noteq> (0 :: u32)"
    using in_nat(3) by (metis add_is_0 not_one_le_zero unsigned_0)
  ultimately show "unat (chs_lba nlh nlspt c h s) = (unat c * unat nlh + unat h) * unat nlspt + unat s - 1"
    by (simp add: chs_lba_def unat_minus_1)
  then show "unat (chs_lba nlh nlspt c h s) < unat nlc * unat nlh * unat nlspt"
    using less by simp
qed

text \<open>Distinct addresses have distinct sectors, and every sector below the capacity has one.\<close>

definition chs_inverse :: "u16 \<Rightarrow> u16 \<Rightarrow> nat \<Rightarrow> u16 \<times> u16 \<times> u16" where
  "chs_inverse nlh nlspt n =
     (of_nat (n div unat nlspt div unat nlh), of_nat (n div unat nlspt mod unat nlh),
      of_nat (n mod unat nlspt + 1))"

lemma chs_inverse_index:
  fixes C H S c h s :: nat
  assumes "h < H" "1 \<le> s" "s \<le> S"
  shows "((c * H + h) * S + s - 1) div S div H = c" "((c * H + h) * S + s - 1) div S mod H = h"
    "((c * H + h) * S + s - 1) mod S + 1 = s"
proof -
  have e: "(c * H + h) * S + s - 1 = (c * H + h) * S + (s - 1)" using assms(2) by simp
  have "s - 1 < S" using assms by simp
  then have d: "((c * H + h) * S + s - 1) div S = c * H + h" "((c * H + h) * S + s - 1) mod S = s - 1"
    unfolding e by simp_all
  show "((c * H + h) * S + s - 1) div S div H = c" "((c * H + h) * S + s - 1) div S mod H = h"
    unfolding d using assms(1) by simp_all
  show "((c * H + h) * S + s - 1) mod S + 1 = s" unfolding d using assms(2) by simp
qed

text \<open>Under a geometry of INT 13h the translation of cylinder, head and sector to a sector
  number is a bijection from the addresses of the geometry onto the numbers below its capacity:
  no two addresses share a sector, none lies outside, and every sector can be addressed.\<close>

theorem chs_lba_bijective:
  assumes "int13_geometry nlc nlh nlspt"
  shows "bij_betw (\<lambda>(c, h, s). unat (chs_lba nlh nlspt c h s))
    {(c, h, s). chs_in nlc nlh nlspt c h s} {..<unat nlc * unat nlh * unat nlspt}"
proof (rule bij_betw_byWitness [where f' = "chs_inverse nlh nlspt"])
  note index = chs_lba_index [OF assms]
  have in_nat: "unat c < unat nlc" "unat h < unat nlh" "1 \<le> unat s" "unat s \<le> unat nlspt"
    if "chs_in nlc nlh nlspt c h s" for c h s
    using that unfolding chs_in_def
    by (simp_all add: word_less_nat_alt word_le_nat_alt Suc_le_eq unat_gt_0)
  have "chs_inverse nlh nlspt (unat (chs_lba nlh nlspt c h s)) = (c, h, s)"
    if "chs_in nlc nlh nlspt c h s" for c h s
    using chs_inverse_index [OF in_nat(2-4) [OF that], of "unat c"]
    by (simp only: chs_inverse_def index(1) [OF that]) simp
  then show "\<forall>a \<in> {(c, h, s). chs_in nlc nlh nlspt c h s}.
      chs_inverse nlh nlspt ((\<lambda>(c, h, s). unat (chs_lba nlh nlspt c h s)) a) = a"
    by auto
  show "(\<lambda>(c, h, s). unat (chs_lba nlh nlspt c h s)) ` {(c, h, s). chs_in nlc nlh nlspt c h s}
      \<subseteq> {..<unat nlc * unat nlh * unat nlspt}"
    using index(2) by auto
  have inv: "chs_in nlc nlh nlspt (fst (chs_inverse nlh nlspt n)) (fst (snd (chs_inverse nlh nlspt n)))
      (snd (snd (chs_inverse nlh nlspt n)))
      \<and> (unat (fst (chs_inverse nlh nlspt n)) * unat nlh + unat (fst (snd (chs_inverse nlh nlspt n)))) * unat nlspt
        + unat (snd (snd (chs_inverse nlh nlspt n))) - 1 = n"
    if n: "n < unat nlc * unat nlh * unat nlspt" for n
  proof -
    have pos: "0 < unat nlspt" "0 < unat nlh" using n by (cases "unat nlspt"; cases "unat nlh"; simp)+
    have c: "n div unat nlspt div unat nlh < unat nlc"
      using n by (simp add: less_mult_imp_div_less mult.commute mult.left_commute)
    have h: "n div unat nlspt mod unat nlh < unat nlh" using pos by simp
    have s: "n mod unat nlspt + 1 \<le> unat nlspt" using pos by (simp add: Suc_le_eq)
    have u: "unat (of_nat k :: u16) = k" if "k \<le> 1024" for k
      using that by (simp only: unsigned_of_nat) (simp add: take_bit_nat_eq_self)
    have b: "n div unat nlspt div unat nlh \<le> 1024" "n div unat nlspt mod unat nlh \<le> 1024"
      "n mod unat nlspt + 1 \<le> 1024"
      using c h s assms unfolding int13_geometry_def by linarith+
    show ?thesis
      using c h s u [OF b(1)] u [OF b(2)] u [OF b(3)]
      unfolding chs_inverse_def fst_conv snd_conv chs_in_def word_less_nat_alt word_le_nat_alt word_unat_eq_iff
      by (simp add: div_mult_mod_eq)
  qed
  show "chs_inverse nlh nlspt ` {..<unat nlc * unat nlh * unat nlspt} \<subseteq> {(c, h, s). chs_in nlc nlh nlspt c h s}"
    using inv by (auto simp: chs_inverse_def)
  show "\<forall>n \<in> {..<unat nlc * unat nlh * unat nlspt}.
      (\<lambda>(c, h, s). unat (chs_lba nlh nlspt c h s)) (chs_inverse nlh nlspt n) = n"
    using inv index(1) by (auto simp: case_prod_beta)
qed

lemma chs_lba_bijective_witness:
  "bij_betw (\<lambda>(c, h, s). unat (chs_lba 2 18 c h s)) {(c, h, s). chs_in 80 2 18 c h s} {..<2880}"
  using chs_lba_bijective [of 80 2 18] by (simp add: int13_geometry_def)

lemma chs_sector_bound: "unat (chs_sector r) \<le> 63"
proof -
  have "CL r AND 0x3f \<le> (0x3f :: u8)" by (rule word_and_le1)
  then have "unat (CL r AND 0x3f) \<le> 63" by (simp add: word_le_nat_alt)
  then show ?thesis by (simp add: chs_sector_def unat_ucast_fit)
qed

section \<open>Requests by cylinder, head and sector\<close>

definition chs_request_ok :: "u32 \<Rightarrow> bregs \<Rightarrow> disk_state \<Rightarrow> bool" where
  "chs_request_ok g r st \<longleftrightarrow> 1 \<le> AL r \<and> AL r \<le> 128 \<and>
     (case fillLCHS g st of (nlc, nlh, nlspt) \<Rightarrow>
        chs_in nlc nlh nlspt (chs_cylinder r) (ucast (DH r)) (chs_sector r))"

definition chs_op :: "u32 \<Rightarrow> u8 \<Rightarrow> bregs \<Rightarrow> disk_state \<Rightarrow> disk_op_s" where
  "chs_op g command r st = (case fillLCHS g st of (nlc, nlh, nlspt) \<Rightarrow>
     \<lparr>op_lba = ucast (chs_lba nlh nlspt (chs_cylinder r) (ucast (DH r)) (chs_sector r)),
      op_buf_fl = MAKE_FLATPTR (r_es r) (ucast (BX r)), op_drive_g = g,
      op_count = ucast (AL r), op_command = command\<rparr>)"

lemma u8_ge_1: "1 \<le> (x :: u8) \<longleftrightarrow> x \<noteq> 0"
  by (simp add: word_le_nat_alt Suc_le_eq unat_gt_0)

lemma basic_access_cases:
  "basic_access e g command r st =
     (if chs_request_ok g r st
      then (case send_disk_op (drv e) (chs_op g command r st) st of
              (status, dop, st) \<Rightarrow> disk_ret (set_al (ucast (op_count dop)) r) status st)
      else disk_ret r DISK_RET_EPARAM st)"
  by (auto simp: basic_access_def chs_request_ok_def chs_op_def chs_in_def Let_def u8_ge_1 not_less not_le
      split: prod.splits)

lemma fillLCHS_drive:
  "g \<noteq> cdemu_drive_gf st \<Longrightarrow>
   fillLCHS g st = (cylinders (lchs (drives st g)), heads (lchs (drives st g)), spt (lchs (drives st g)))"
  by (simp add: fillLCHS_def Let_def)

lemma chs_op_in_disk:
  assumes "chs_request_ok g r st" "fillLCHS g st = (nlc, nlh, nlspt)"
    and "geometry_ok nlc nlh nlspt sz" "unat nlspt \<le> 63"
  shows "unat (op_lba (chs_op g command r st)) < unat nlc * unat nlh * unat nlspt"
    "op_lba (chs_op g command r st) < sz"
proof -
  have g: "int13_geometry nlc nlh nlspt"
    using assms(3,4) by (simp add: int13_geometry_def geometry_ok_def)
  have i: "chs_in nlc nlh nlspt (chs_cylinder r) (ucast (DH r)) (chs_sector r)"
    using assms(1,2) by (simp add: chs_request_ok_def)
  have lba: "unat (op_lba (chs_op g command r st)) =
      unat (chs_lba nlh nlspt (chs_cylinder r) (ucast (DH r)) (chs_sector r))"
    using assms(2) u32_bound [of "chs_lba nlh nlspt (chs_cylinder r) (ucast (DH r)) (chs_sector r)"]
    by (simp add: chs_op_def unat_ucast_fit)
  show "unat (op_lba (chs_op g command r st)) < unat nlc * unat nlh * unat nlspt"
    unfolding lba by (rule chs_lba_index [OF g i])
  then have "unat (op_lba (chs_op g command r st)) < unat sz"
    using assms(3) by (simp add: geometry_ok_def)
  then show "op_lba (chs_op g command r st) < sz" by (simp only: word_less_nat_alt)
qed

text \<open>C7: on a drive whose logical geometry \<open>setup_translation\<close> made, a cylinder, head and sector
  request is either refused with error 1 before any driver runs, or it goes to the driver of that drive
  once, for 1 to 128 sectors starting at a sector that exists on the disk; the count the driver reports is
  returned in \<open>AL\<close>. The drive is not the one a CD emulates. The code checks nothing about the physical geometry that the drive reports, and this
  holds for those with at most 63 sectors per track and at most 255 heads, or, for ATA drives, at most 127
  heads and no more sectors in cylinders times heads times sectors than the drive says it has.\<close>

theorem basic_access_in_disk:
  assumes "unat (heads (pchs (drives st g))) \<le> (if dtype (drives st g) = DTYPE_ATA then 127 else 255)"
    and "dtype (drives st g) \<noteq> DTYPE_ATA \<or> psectors (pchs (drives st g)) \<le> unat (sectors (drives st g))"
    and "unat (spt (pchs (drives st g))) \<le> 63"
    and "st' = setup_translation g st" "g \<noteq> cdemu_drive_gf st'"
  shows "basic_access e g command r st' = disk_ret r DISK_RET_EPARAM st' \<or>
    (\<exists>dop. op_lba dop < sectors (drives st g) \<and> 1 \<le> op_count dop \<and> op_count dop \<le> 128 \<and>
       op_drive_g dop = g \<and> op_command dop = command \<and>
       basic_access e g command r st' =
         (case send_disk_op (drv e) dop st' of
            (status, dop, st) \<Rightarrow> disk_ret (set_al (ucast (op_count dop)) r) status st))"
proof -
  obtain t c h s where made: "geometry_ok c h s (sectors (drives st g))" "s = 63 \<or> s = spt (pchs (drives st g))"
    "drives st' = (drives st)(g := (drives st g)\<lparr>translation := t, lchs := \<lparr>heads = h, cylinders = c, spt = s\<rparr>\<rparr>)"
    using setup_translation_made [OF assms(1,2)] unfolding assms(4) by blast
  have l: "fillLCHS g st' = (c, h, s)" using assms(5) made(3) by (simp add: fillLCHS_drive)
  have s63: "unat s \<le> 63" using made(2) assms(3) by auto
  show ?thesis
  proof (cases "chs_request_ok g r st'")
    case True
    have "op_lba (chs_op g command r st') < sectors (drives st g)"
      by (rule chs_op_in_disk(2) [OF True l made(1) s63])
    moreover have "1 \<le> op_count (chs_op g command r st')" "op_count (chs_op g command r st') \<le> 128"
      "op_drive_g (chs_op g command r st') = g" "op_command (chs_op g command r st') = command"
      using True by (simp_all add: chs_op_def l chs_request_ok_def word_le_nat_alt unat_ucast_fit Suc_le_eq)
    ultimately show ?thesis using True by (simp only: basic_access_cases if_True) blast
  next
    case False
    then show ?thesis by (simp add: basic_access_cases)
  qed
qed

lemma basic_access_in_disk_witness:
  "\<forall>e r. basic_access e 0x1000 CMD_READ r (setup_translation 0x1000 demo_disks)
     = disk_ret r DISK_RET_EPARAM (setup_translation 0x1000 demo_disks) \<or>
   (\<exists>dop. op_lba dop < 4194304 \<and> 1 \<le> op_count dop \<and> op_count dop \<le> 128 \<and>
      op_drive_g dop = 0x1000 \<and> op_command dop = CMD_READ \<and>
      basic_access e 0x1000 CMD_READ r (setup_translation 0x1000 demo_disks) =
        (case send_disk_op (drv e) dop (setup_translation 0x1000 demo_disks) of
           (status, dop, st) \<Rightarrow> disk_ret (set_al (ucast (op_count dop)) r) status st))"
proof (intro allI)
  fix e r
  have "cdemu_drive_gf (setup_translation 0x1000 demo_disks) = 0"
    by (simp add: demo_disks_def)
  then show "basic_access e 0x1000 CMD_READ r (setup_translation 0x1000 demo_disks)
     = disk_ret r DISK_RET_EPARAM (setup_translation 0x1000 demo_disks) \<or>
   (\<exists>dop. op_lba dop < 4194304 \<and> 1 \<le> op_count dop \<and> op_count dop \<le> 128 \<and>
      op_drive_g dop = 0x1000 \<and> op_command dop = CMD_READ \<and>
      basic_access e 0x1000 CMD_READ r (setup_translation 0x1000 demo_disks) =
        (case send_disk_op (drv e) dop (setup_translation 0x1000 demo_disks) of
           (status, dop, st) \<Rightarrow> disk_ret (set_al (ucast (op_count dop)) r) status st))"
    using basic_access_in_disk [of demo_disks "0x1000" _ e CMD_READ r, OF _ _ _ refl]
    by (simp add: demo_disks_def demo_drive_def dtype_codes)
qed

section \<open>The reported geometry\<close>

lemma low_bits:
  assumes "unat (x :: u16) < 2 ^ k" "k \<le> n"
  shows "\<not> bit x n"
proof -
  have "unat (take_bit k x) = unat x" using assms(1) by (simp only: unsigned_take_bit_eq take_bit_nat_eq_self)
  then have "take_bit k x = x" by (simp only: word_unat_eq_iff)
  then show ?thesis using assms(2) by (metis bit_take_bit_iff leD)
qed

text \<open>The two bytes of the cylinder and sector registers, packed and read back.\<close>

lemma pack_geometry_read:
  assumes "unat c < 1024" "unat s \<le> 63" "unat h < 256"
  shows "chs_cylinder (pack_geometry c h s r) = c" "chs_sector (pack_geometry c h s r) = s"
    "unat (DH (pack_geometry c h s r)) = unat h"
proof -
  have c: "\<not> bit c n" if "10 \<le> n" for n using assms(1) that by (intro low_bits [of c 10]) simp_all
  have s: "\<not> bit s n" if "6 \<le> n" for n using assms(2) that by (intro low_bits [of s 6]) simp_all
  have m: "(0xff :: u16) = mask 8" "(0x300 :: u16) = push_bit 8 (mask 2)" "(0xc0 :: u16) = push_bit 6 (mask 2)"
    "(0x3f :: u16) = mask 6" "(0x3f :: u8) = mask 6"
    by (simp_all add: mask_eq_exp_minus_1 push_bit_eq_mult)
  have regs: "CH (pack_geometry c h s r) = ucast (c AND mask 8)"
    "CL (pack_geometry c h s r) = ucast ((drop_bit 2 c AND push_bit 6 (mask 2)) OR (s AND mask 6))"
    by (simp_all add: pack_geometry_def Let_def m)
  show "chs_cylinder (pack_geometry c h s r) = c"
    unfolding chs_cylinder_def regs m
  proof (rule bit_word_eqI)
    fix n assume "n < LENGTH(16)"
    consider "n < 8" | "n = 8" | "n = 9" | "10 \<le> n" by linarith
    then show "bit (ucast (ucast (c AND mask 8) :: u8) OR (push_bit 2 (ucast (ucast ((drop_bit 2 c AND push_bit 6 (mask 2))
        OR (s AND mask 6)) :: u8)) AND push_bit 8 (mask 2)) :: u16) n = bit c n"
      by cases (auto simp: bit_simps c)
  qed
  show "chs_sector (pack_geometry c h s r) = s"
    unfolding chs_sector_def regs m
  proof (rule bit_word_eqI)
    fix n assume "n < LENGTH(16)"
    consider "n < 6" | "6 \<le> n" by linarith
    then show "bit (ucast (ucast ((drop_bit 2 c AND push_bit 6 (mask 2)) OR (s AND mask 6)) AND mask 6 :: u8) :: u16) n = bit s n"
      by cases (auto simp: bit_simps s)
  qed
  show "unat (DH (pack_geometry c h s r)) = unat h"
    using assms(3) by (simp add: pack_geometry_def Let_def unat_ucast_fit)
qed

lemma chs_regs [simp]:
  "chs_cylinder (set_dl v r) = chs_cylinder r" "chs_sector (set_dl v r) = chs_sector r"
  "chs_cylinder (fst (disk_ret r code st)) = chs_cylinder r" "chs_sector (fst (disk_ret r code st)) = chs_sector r"
  by (simp_all add: chs_cylinder_def chs_sector_def disk_ret_regs)

lemma disk_1308_hd:
  assumes "fillLCHS g st = (nlc, nlh, nlspt)" "EXTSTART_HD \<le> DL r" "DL r < EXTSTART_CD"
  shows "disk_1308 e g r st =
    (set_dl (adjust_count (DL r) (bda8 bda_hdcount st) st)
       (fst (disk_ret (pack_geometry (nlc - 1 - 1) (nlh - 1) nlspt r) DISK_RET_SUCCESS st)),
     set_bda8 bda_disk_last_status 0 st)"
proof -
  have "\<not> DL r < EXTSTART_HD" using assms(2) by (simp only: not_less)
  then show ?thesis
    using assms(1,3)
    by (simp add: disk_1308_def Let_def disk_ret_regs pack_geometry_def last_status_cell_def disk_ret_codes
        split: prod.splits) (simp add: prod_eq_iff disk_ret_regs last_status_cell_def)
qed

lemma disk_1315_hd:
  assumes "fillLCHS g (set_bda8 bda_disk_last_status 0 st) = (nlc, nlh, nlspt)" "EXTSTART_HD \<le> DL r" "DL r < EXTSTART_CD"
    and "int13_geometry nlc nlh nlspt" "nlc \<noteq> 0"
  shows "unat (CX (fst (disk_1315 g r st))) * 65536 + unat (DX (fst (disk_1315 g r st)))
    = (unat nlc - 1) * unat nlh * unat nlspt"
proof -
  have u: "unat (ucast x :: u32) = unat x" for x :: u16 using u16_bound [of x] by (simp add: unat_ucast_fit)
  have dl: "\<not> DL r < EXTSTART_HD" using assms(2) by (simp only: not_less)
  define lba where "lba = (ucast nlc - 1) * ucast nlh * (ucast nlspt :: u32)"
  have c: "unat (ucast nlc - 1 :: u32) = unat nlc - 1"
    using assms(5) by (subst unat_minus_1) (simp_all add: u word_unat_eq_iff)
  have b: "unat nlc - 1 \<le> 1024" "unat nlh \<le> 256" "unat nlspt \<le> 63"
    using assms(4) unfolding int13_geometry_def by linarith+
  have a: "(unat nlc - 1) * unat nlh \<le> 1024 * 256" by (rule mult_mono [OF b(1,2)]) simp_all
  have "(unat nlc - 1) * unat nlh * unat nlspt \<le> 1024 * 256 * 63" by (rule mult_mono [OF a b(3)]) simp_all
  moreover have "(unat nlc - 1) * unat nlh < 4294967296" using a by simp
  ultimately have lba: "unat lba = (unat nlc - 1) * unat nlh * unat nlspt"
    unfolding lba_def by (simp add: unat_word_ariths c u)
  obtain r1 where r1: "disk_ret r DISK_RET_SUCCESS st = (r1, set_bda8 bda_disk_last_status 0 st)" "DL r1 = DL r"
    using disk_ret_regs(3,8) [of r DISK_RET_SUCCESS st] dl
    by (cases "disk_ret r DISK_RET_SUCCESS st") (simp add: last_status_cell_def disk_ret_codes)
  have "CX (fst (disk_1315 g r st)) = ucast (drop_bit 16 lba)" "DX (fst (disk_1315 g r st)) = ucast (lba AND 0xffff)"
    using assms(1) dl by (simp_all add: disk_1315_def r1 lba_def Let_def less_not_le [OF assms(3)])
  moreover have "unat (ucast (drop_bit 16 lba) :: u16) = unat lba div 65536"
    using u32_bound [of lba]
    by (simp only: unsigned_ucast_eq unsigned_drop_bit_eq) (simp add: drop_bit_eq_div take_bit_nat_eq_self)
  moreover have "lba AND 0xffff = take_bit 16 lba" by (simp add: take_bit_eq_mask mask_eq_exp_minus_1)
  then have "unat (ucast (lba AND 0xffff) :: u16) = unat lba mod 65536"
    by (simp add: unsigned_ucast_eq take_bit_eq_mod unat_mod)
  ultimately show ?thesis using lba by (simp add: div_mult_mod_eq)
qed

text \<open>C6: what INT 13h reports of a hard drive agrees with what its read, write and verify functions
  accept. The drive's logical geometry is taken to be one that INT 13h can express (2 to 1024 cylinders,
  1 to 256 heads, at most 63 sectors per track), and the drive not the one a CD emulates. A request for 1
  to 128 sectors with the head and the sector within the limits of function 08h and the cylinder at most
  one above its limit (the last cylinder is reserved) goes to the driver of that drive with its own
  command, buffer and count, at the sector number that the reported limits give; up to the reported
  cylinder it is below the size that function 15h reports. Every other request is refused with error 1
  and no driver runs.\<close>

theorem reported_geometry_accepted:
  assumes "fillLCHS g st = (nlc, nlh, nlspt)" "g \<noteq> cdemu_drive_gf st"
    and "int13_geometry nlc nlh nlspt" "2 \<le> nlc" "1 \<le> nlh"
    and "EXTSTART_HD \<le> DL r" "DL r < EXTSTART_CD"
    and "disk_1308 e g r st = (limits, st')"
    and "(service, command) \<in> {(disk_1302, CMD_READ), (disk_1303, CMD_WRITE), (disk_1304, CMD_VERIFY)}"
  shows "\<not> carry limits \<and>
    (if chs_cylinder q \<le> chs_cylinder limits + 1 \<and> DH q \<le> DH limits \<and> chs_sector q \<le> chs_sector limits
        \<and> chs_sector q \<noteq> 0 \<and> 1 \<le> AL q \<and> AL q \<le> 128
     then (\<exists>dop. service e g q st' =
             (case send_disk_op (drv e) dop st' of
                (status, dop, st) \<Rightarrow> disk_ret (set_al (ucast (op_count dop)) q) status st)
           \<and> op_drive_g dop = g \<and> op_command dop = command \<and> op_count dop = ucast (AL q)
           \<and> op_buf_fl dop = MAKE_FLATPTR (r_es q) (ucast (BX q))
           \<and> unat (op_lba dop) = (unat (chs_cylinder q) * (unat (DH limits) + 1) + unat (DH q))
               * unat (chs_sector limits) + unat (chs_sector q) - 1
           \<and> (chs_cylinder q \<le> chs_cylinder limits \<longrightarrow> unat (op_lba dop) <
               unat (CX (fst (disk_1315 g r st'))) * 65536 + unat (DX (fst (disk_1315 g r st')))))
     else service e g q st' = disk_ret q DISK_RET_EPARAM st')"
proof -
  have lim: "limits = set_dl (adjust_count (DL r) (bda8 bda_hdcount st) st)
       (fst (disk_ret (pack_geometry (nlc - 1 - 1) (nlh - 1) nlspt r) DISK_RET_SUCCESS st))"
    and st': "st' = set_bda8 bda_disk_last_status 0 st"
    using assms(8) unfolding disk_1308_hd [OF assms(1,6,7)] by simp_all
  have bounds: "unat nlc \<le> 1024" "unat nlh \<le> 256" "unat nlspt \<le> 63" "2 \<le> unat nlc" "1 \<le> unat nlh"
    using assms(3-5) by (simp_all add: int13_geometry_def word_le_nat_alt)
  have c: "unat (nlc - 1 - 1) = unat nlc - 2" "unat (nlc - 1) = unat nlc - 1" and h: "unat (nlh - 1) = unat nlh - 1"
    using bounds(4,5) by (simp_all add: unat_sub word_le_nat_alt)
  have "unat (nlc - 1 - 1) < 1024" "unat (nlh - 1) < 256" unfolding c h using bounds by linarith+
  note p = pack_geometry_read [OF this(1) bounds(3) this(2)]
  have packed: "chs_cylinder limits = nlc - 1 - 1" "chs_sector limits = nlspt" "unat (DH limits) = unat nlh - 1"
    unfolding lim h [symmetric] by (simp_all only: chs_regs reg_set disk_ret_regs p)
  have l': "fillLCHS g st' = (nlc, nlh, nlspt)"
    using assms(1,2) by (simp add: st' fillLCHS_def set_bda8_def)
  have dh: "unat (ucast (DH q) :: u16) = unat (DH q)" using u8_bound [of "DH q"] by (simp add: unat_ucast_fit)
  have inn: "chs_in nlc nlh nlspt (chs_cylinder q) (ucast (DH q)) (chs_sector q) \<longleftrightarrow>
      chs_cylinder q \<le> chs_cylinder limits + 1 \<and> DH q \<le> DH limits \<and> chs_sector q \<le> chs_sector limits \<and> chs_sector q \<noteq> 0"
    unfolding chs_in_def word_less_nat_alt word_le_nat_alt packed dh
    using bounds(4,5) c(2) by auto
  have serv: "service e g q st' = basic_access e g command q st'"
    using assms(9) by (auto simp: disk_1302_def disk_1303_def disk_1304_def)
  have nc: "\<not> carry limits" by (simp add: lim disk_ret_regs disk_ret_codes)
  show ?thesis
  proof (cases "chs_request_ok g q st'")
    case False
    then have "\<not> (chs_cylinder q \<le> chs_cylinder limits + 1 \<and> DH q \<le> DH limits \<and> chs_sector q \<le> chs_sector limits
        \<and> chs_sector q \<noteq> 0 \<and> 1 \<le> AL q \<and> AL q \<le> 128)"
      using inn by (auto simp: chs_request_ok_def l')
    then show ?thesis using False nc by (simp only: serv basic_access_cases if_False not_False_eq_True simp_thms)
  next
    case True
    then have i: "chs_in nlc nlh nlspt (chs_cylinder q) (ucast (DH q)) (chs_sector q)" "1 \<le> AL q" "AL q \<le> 128"
      by (simp_all add: chs_request_ok_def l')
    let ?dop = "chs_op g command q st'"
    have lba: "unat (op_lba ?dop) = (unat (chs_cylinder q) * unat nlh + unat (DH q)) * unat nlspt + unat (chs_sector q) - 1"
      using chs_lba_index(1) [OF assms(3) i(1)] u32_bound [of "chs_lba nlh nlspt (chs_cylinder q) (ucast (DH q)) (chs_sector q)"]
      by (simp add: chs_op_def l' unat_ucast_fit dh)
    have nz: "nlc \<noteq> 0" using bounds(4) by auto
    have l2: "fillLCHS g (set_bda8 bda_disk_last_status 0 st') = (nlc, nlh, nlspt)"
      using l' assms(2) by (simp add: st' fillLCHS_def set_bda8_def)
    have sz: "unat (CX (fst (disk_1315 g r st'))) * 65536 + unat (DX (fst (disk_1315 g r st')))
        = (unat nlc - 1) * unat nlh * unat nlspt"
      by (rule disk_1315_hd [OF l2 assms(6,7,3) nz])
    have below: "unat (op_lba ?dop) < (unat nlc - 1) * unat nlh * unat nlspt" if "chs_cylinder q \<le> chs_cylinder limits"
      unfolding lba
    proof (rule chs_index_less)
      show "unat (chs_cylinder q) < unat nlc - 1"
        using that bounds(4) unfolding packed word_le_nat_alt c by linarith
      show "unat (DH q) < unat nlh" using i(1) by (simp add: chs_in_def word_less_nat_alt dh)
      show "1 \<le> unat (chs_sector q)" "unat (chs_sector q) \<le> unat nlspt"
        using i(1) by (simp_all add: chs_in_def Suc_le_eq unat_gt_0 word_le_nat_alt)
    qed
    have heads: "unat (DH limits) + 1 = unat nlh" using packed(3) bounds(5) by linarith
    have "service e g q st' = (case send_disk_op (drv e) ?dop st' of
        (status, dop, st) \<Rightarrow> disk_ret (set_al (ucast (op_count dop)) q) status st)"
      by (simp only: serv basic_access_cases True if_True)
    moreover have "op_drive_g ?dop = g \<and> op_command ?dop = command \<and> op_count ?dop = ucast (AL q)
        \<and> op_buf_fl ?dop = MAKE_FLATPTR (r_es q) (ucast (BX q))"
      by (simp add: chs_op_def l')
    ultimately have "\<exists>dop. service e g q st' = (case send_disk_op (drv e) dop st' of
          (status, dop, st) \<Rightarrow> disk_ret (set_al (ucast (op_count dop)) q) status st)
        \<and> op_drive_g dop = g \<and> op_command dop = command \<and> op_count dop = ucast (AL q)
        \<and> op_buf_fl dop = MAKE_FLATPTR (r_es q) (ucast (BX q))
        \<and> unat (op_lba dop) = (unat (chs_cylinder q) * (unat (DH limits) + 1) + unat (DH q))
            * unat (chs_sector limits) + unat (chs_sector q) - 1
        \<and> (chs_cylinder q \<le> chs_cylinder limits \<longrightarrow> unat (op_lba dop) <
            unat (CX (fst (disk_1315 g r st'))) * 65536 + unat (DX (fst (disk_1315 g r st'))))"
      using lba below unfolding heads packed(2) sz by blast
    then show ?thesis using nc i inn by simp
  qed
qed

text \<open>For the witness: the mapped demo drive, and a read of its last reported sector.\<close>

definition demo_hd :: disk_state where
  "demo_hd = demo_disks\<lparr>drives := (\<lambda>_. demo_drive\<lparr>lchs := \<lparr>heads = 64, cylinders = 1023, spt = 63\<rparr>\<rparr>)\<rparr>"

definition demo_regs :: bregs where
  "demo_regs = set_dl 0x80 zero_regs"

lemma demo_hd_geometry: "fillLCHS 0x1000 demo_hd = (1023, 64, 63)" "cdemu_drive_gf demo_hd = 0"
  by (simp_all add: fillLCHS_def demo_hd_def demo_disks_def Let_def)

lemma demo_regs_dl: "EXTSTART_HD \<le> DL demo_regs" "DL demo_regs < EXTSTART_CD"
  by (simp_all add: demo_regs_def extstarts)

lemma reported_geometry_accepted_witness:
  "\<forall>e. \<exists>dop. disk_1302 e 0x1000 (set_al 1 (fst (disk_1308 e 0x1000 demo_regs demo_hd))) (snd (disk_1308 e 0x1000 demo_regs demo_hd))
     = (case send_disk_op (drv e) dop (snd (disk_1308 e 0x1000 demo_regs demo_hd)) of
          (status, dop, st) \<Rightarrow> disk_ret (set_al (ucast (op_count dop)) (set_al 1 (fst (disk_1308 e 0x1000 demo_regs demo_hd)))) status st)
   \<and> op_drive_g dop = 0x1000 \<and> op_command dop = CMD_READ \<and> op_count dop = 1"
proof (rule allI)
  fix e
  let ?lim = "fst (disk_1308 e 0x1000 demo_regs demo_hd)"
  have g: "int13_geometry 1023 64 63" by (simp add: int13_geometry_def)
  have regs: "chs_cylinder (set_al 1 r) = chs_cylinder r" "DH (set_al 1 r) = DH r"
    "chs_sector (set_al 1 r) = chs_sector r" for r
    by (simp_all add: chs_cylinder_def chs_sector_def lane_defs set_lane_defs)
  have "chs_sector ?lim = 63" "chs_cylinder ?lim = 1021"
    using pack_geometry_read(1,2) [of 1021 63 63 demo_regs]
    by (simp_all add: disk_1308_hd [OF demo_hd_geometry(1) demo_regs_dl])
  then show "\<exists>dop. disk_1302 e 0x1000 (set_al 1 ?lim) (snd (disk_1308 e 0x1000 demo_regs demo_hd))
     = (case send_disk_op (drv e) dop (snd (disk_1308 e 0x1000 demo_regs demo_hd)) of
          (status, dop, st) \<Rightarrow> disk_ret (set_al (ucast (op_count dop)) (set_al 1 ?lim)) status st)
   \<and> op_drive_g dop = 0x1000 \<and> op_command dop = CMD_READ \<and> op_count dop = 1"
    using reported_geometry_accepted [OF demo_hd_geometry(1) _ g _ _ demo_regs_dl prod.collapse [symmetric],
        where service = disk_1302 and command = CMD_READ and q = "set_al 1 ?lim" and e = e] demo_hd_geometry(2)
    by (auto simp: regs)
qed

section \<open>Status and carry\<close>

text \<open>The protocol of INT 13h: \<open>AH\<close> is the status in the cell of the drive's class, and carry
  tells whether it is an error.\<close>

definition reports :: "bregs \<Rightarrow> bregs \<times> disk_state \<Rightarrow> bool" where
  "reports r res \<longleftrightarrow> AH (fst res) = bda8 (last_status_cell (DL r)) (snd res) \<and>
     (carry (fst res) \<longleftrightarrow> AH (fst res) \<noteq> 0)"

lemma bda8_set [simp]: "bda8 off (set_bda8 off v st) = v"
  by (simp add: bda8_def)

lemma disk_ret_reports: "DL r1 = DL r \<Longrightarrow> reports r (disk_ret r1 code st)"
  by (simp add: reports_def disk_ret_regs)

lemma disk_ret_unimplemented_reports: "reports r (disk_ret_unimplemented r DISK_RET_EPARAM st)"
  by (simp add: reports_def disk_ret_unimplemented_regs disk_ret_codes)

lemma disk_1308_reports: "reports r (disk_1308 e g r st)"
proof -
  have fin: "reports r (case disk_ret r1 code st of (r, st') \<Rightarrow> (set_dl v r, st'))" if "DL r1 = DL r" for r1 code v
    using disk_ret_reports [OF that, of code st] by (cases "disk_ret r1 code st") (simp add: reports_def)
  have dl: "DL (pack_geometry a b c r1) = DL r1" for a b c r1 by (simp add: pack_geometry_def Let_def)
  show ?thesis
    by (cases "fillLCHS g st") (auto simp: disk_1308_def Let_def intro!: fin disk_ret_reports simp: dl)
qed

lemma access_reports:
  "reports r (basic_access e g command r st)" "reports r (extended_access e g command r st)"
  "reports r (simple_op e g command r st)" "reports r (disk_1305 e g r st)"
  by (auto simp: basic_access_def extended_access_def simple_op_def disk_1305_def Let_def
      intro!: disk_ret_reports split: prod.splits)

lemma disk_1346_reports: "reports r (disk_1346 e r st)"
  by (auto simp: disk_1346_def Let_def intro!: disk_ret_reports split: prod.splits)

lemma disk_1345_reports: "reports r (disk_1345 r st)"
  by (auto simp: disk_1345_def disk_134500_def disk_134501_def disk_134502_def disk_1345XX_def Let_def
      intro!: disk_ret_reports disk_ret_unimplemented_reports)

lemma disk_1301_reports: "reports r (disk_1301 r st)"
  by (simp add: disk_1301_def reports_def Let_def)

lemmas handlers_report = disk_1308_reports access_reports disk_1346_reports disk_1345_reports
  disk_1301_reports disk_ret_unimplemented_reports disk_ret_reports [OF refl]

lemma disk_13_reports:
  assumes "AH r \<noteq> 0x15" "AH r \<noteq> 0x41" "AH r \<noteq> 0x49"
  shows "reports r (disk_13 e g r st)"
  using assms
  by (simp add: disk_13_def Let_def disk_1300_def disk_1302_def disk_1303_def disk_1304_def disk_1309_def
      disk_130c_def disk_130d_def disk_1310_def disk_1311_def disk_1314_def disk_1316_def disk_1342_def
      disk_1343_def disk_1344_def disk_1347_def disk_1348_def disk_134e_def disk_13XX_def disk_stub_def
      handlers_report)

text \<open>C5: INT 13h always tells the same story three times: for every function but those that
  return information in \<open>AH\<close> (15h, 41h, and 49h), any drive number and whatever the drivers do,
  \<open>AH\<close> is the status kept for function 01h in the BIOS data area, in the cell of the class of the
  drive number, and carry is set exactly when it is an error.\<close>

theorem int13_status_protocol:
  assumes "AH r \<noteq> 0x15" "AH r \<noteq> 0x41" "AH r \<noteq> 0x49"
  shows "AH (fst (handle_13 e r st)) = bda8 (last_status_cell (DL r)) (snd (handle_13 e r st))
    \<and> (carry (fst (handle_13 e r st)) \<longleftrightarrow> AH (fst (handle_13 e r st)) \<noteq> 0)"
proof -
  have "reports r (handle_legacy_disk e n r st)" for n
    using disk_13_reports [OF assms]
    by (simp add: handle_legacy_disk_def floppy_13_def disk_13XX_def Let_def handlers_report)
  then have "reports r (handle_13 e r st)"
    using disk_13_reports [OF assms]
    by (simp add: handle_13_def cdemu_134b_def disk_13XX_def Let_def handlers_report)
  then show ?thesis by (simp add: reports_def)
qed

lemma int13_status_protocol_witness:
  "\<forall>e. AH (fst (handle_13 e (set_ah 0x10 demo_regs) demo_disks))
     = bda8 bda_disk_last_status (snd (handle_13 e (set_ah 0x10 demo_regs) demo_disks))"
  using int13_status_protocol [of "set_ah 0x10 demo_regs" _ demo_disks]
  by (simp add: demo_regs_def last_status_cell_def extstarts)

section \<open>The locks of removable drives\<close>

text \<open>The abstract lock of a drive: a counter up to 255, and the status of an operation (0 lock,
  1 unlock, 2 status) on it.\<close>

definition lock_spec :: "u8 \<Rightarrow> nat \<Rightarrow> nat \<times> u8" where
  "lock_spec cmd l =
     (if cmd = 0 then (if l = 255 then (l, 0xb4) else (l + 1, 0))
      else if cmd = 1 then (if l = 0 then (l, 0xb0) else (l - 1, 0))
      else (l, 0))"

definition locks :: "u8 \<Rightarrow> disk_state \<Rightarrow> nat" where
  "locks dl st = unat (ebda8 (get_ebda_seg st) (locks_cell dl) st)"

text \<open>The counters lie in the EBDA behind the BIOS data area, each drive has its own.\<close>

lemma locks_cell_offset:
  assumes "EXTSTART_CD \<le> dl"
  shows "unat (locks_cell dl) = 0x156 + (unat dl - 224)"
proof -
  have d: "224 \<le> unat dl" using assms by (simp add: extstarts word_le_nat_alt)
  have u: "unat (ucast dl :: u32) = unat dl" using u8_bound [of dl] by (simp add: unat_ucast_fit)
  show ?thesis using u8_bound [of dl] d u
    by (simp add: locks_cell_def extstarts ebda_offsets unat_word_ariths)
qed

lemma locks_cell_address:
  assumes "EXTSTART_CD \<le> dl" "0x50 \<le> sg"
  shows "unat (MAKE_FLATPTR sg (locks_cell dl)) = 16 * unat sg + 0x156 + (unat dl - 224)"
proof -
  have "unat (push_bit 4 (ucast sg) :: u32) = 16 * unat sg"
    using u16_bound [of sg] by (simp add: push_bit_eq_mult unat_word_ariths unat_ucast_fit)
  then show ?thesis
    using locks_cell_offset [OF assms(1)] u16_bound [of sg] u8_bound [of dl]
    by (simp add: MAKE_FLATPTR_def unat_word_ariths)
qed

lemma set_bda_ebda:
  assumes "0x50 \<le> get_ebda_seg st" "off = bda_disk_last_status"
  shows "get_ebda_seg (set_bda8 off v st) = get_ebda_seg st"
    "EXTSTART_CD \<le> dl \<Longrightarrow> locks dl (set_bda8 off v st) = locks dl st"
proof -
  show seg: "get_ebda_seg (set_bda8 off v st) = get_ebda_seg st"
    by (simp add: get_ebda_seg_def bda16_def assms(2) bda_offsets rd16_wr8_other)
  show "locks dl (set_bda8 off v st) = locks dl st" if "EXTSTART_CD \<le> dl"
  proof -
    have "unat (MAKE_FLATPTR (get_ebda_seg st) (locks_cell dl)) \<noteq> 0x474"
      using locks_cell_address [OF that assms(1)] assms(1) by (simp add: word_le_nat_alt)
    then have "MAKE_FLATPTR (get_ebda_seg st) (locks_cell dl) \<noteq> 0x474" by auto
    then show ?thesis unfolding locks_def ebda8_def seg by (simp add: assms(2) bda_offsets)
  qed
qed

lemma set_locks:
  assumes "0x50 \<le> get_ebda_seg st" "EXTSTART_CD \<le> dl"
  shows "get_ebda_seg (set_ebda8 (get_ebda_seg st) (locks_cell dl) v st) = get_ebda_seg st"
    "EXTSTART_CD \<le> dl' \<Longrightarrow> locks dl' (set_ebda8 (get_ebda_seg st) (locks_cell dl) v st)
      = (if dl' = dl then unat v else locks dl' st)"
proof -
  let ?a = "MAKE_FLATPTR (get_ebda_seg st) (locks_cell dl)"
  note a = locks_cell_address [OF assms(2,1)]
  have "unat ?a \<noteq> 0x40e" "unat ?a \<noteq> 0x40f" using a assms(1) by (simp_all add: word_le_nat_alt)
  then have "?a \<noteq> 0x40e" "?a \<noteq> 0x40f" by auto
  then show seg: "get_ebda_seg (set_ebda8 (get_ebda_seg st) (locks_cell dl) v st) = get_ebda_seg st"
    by (auto simp: get_ebda_seg_def bda16_def set_ebda8_def bda_offsets rd16_def wr8_def)
  show "locks dl' (set_ebda8 (get_ebda_seg st) (locks_cell dl) v st) = (if dl' = dl then unat v else locks dl' st)"
    if dl': "EXTSTART_CD \<le> dl'"
  proof -
    have d: "224 \<le> unat dl" "224 \<le> unat dl'" using assms(2) dl' by (simp_all add: extstarts word_le_nat_alt)
    have "?a = MAKE_FLATPTR (get_ebda_seg st) (locks_cell dl') \<longleftrightarrow> dl' = dl"
      using a locks_cell_address [OF dl' assms(1)] d by (auto simp: word_unat_eq_iff)
    then show ?thesis unfolding locks_def ebda8_def seg by (auto simp: set_ebda8_def)
  qed
qed

lemma disk_1345_step:
  assumes "0x50 \<le> get_ebda_seg st" "EXTSTART_CD \<le> DL r" "AL r \<le> 2"
  shows "get_ebda_seg (snd (disk_1345 r st)) = get_ebda_seg st"
    "EXTSTART_CD \<le> dl \<Longrightarrow> locks dl (snd (disk_1345 r st))
      = (if dl = DL r then fst (lock_spec (AL r) (locks dl st)) else locks dl st)"
    "AH (fst (disk_1345 r st)) = snd (lock_spec (AL r) (locks (DL r) st))"
proof -
  let ?b = "ebda8 (get_ebda_seg st) (locks_cell (DL r)) st"
  have cd: "\<not> DL r < EXTSTART_CD" "\<not> DL r < EXTSTART_HD"
    using assms(2) by (auto simp: extstarts word_le_nat_alt word_less_nat_alt)
  have cell: "last_status_cell (DL r) = bda_disk_last_status" using cd by (simp add: last_status_cell_def)
  have cmds: "AL r = 0 \<or> AL r = 1 \<or> AL r = 2"
    using assms(3) by (auto simp: word_le_nat_alt word_unat_eq_iff)
  have bnd: "unat ?b < 256" by (rule u8_bound)
  have inc: "unat (?b + 1) = unat ?b + 1" if "?b \<noteq> 0xff"
    using that bnd by (simp add: unat_word_ariths word_unat_eq_iff)
  have dec: "unat (?b - 1) = unat ?b - 1" if "?b \<noteq> 0" using that by (rule unat_minus_1)
  have full: "?b = 0xff \<longleftrightarrow> unat ?b = 255" "?b = 0 \<longleftrightarrow> unat ?b = 0" by (auto simp: word_unat_eq_iff)
  note ops = disk_1345_def disk_134500_def disk_134501_def disk_134502_def Let_def disk_ret_regs cell
  show "get_ebda_seg (snd (disk_1345 r st)) = get_ebda_seg st"
    using cmds cd assms by (auto simp: ops set_bda_ebda set_locks)
  show "locks dl (snd (disk_1345 r st))
      = (if dl = DL r then fst (lock_spec (AL r) (locks dl st)) else locks dl st)" if "EXTSTART_CD \<le> dl"
    using cmds cd assms that inc dec full
    by (auto simp: ops set_bda_ebda set_locks lock_spec_def locks_def [of "DL r" st])
  show "AH (fst (disk_1345 r st)) = snd (lock_spec (AL r) (locks (DL r) st))"
    using cmds cd full by (auto simp: ops lock_spec_def locks_def disk_ret_codes)
qed

lemma lock_sequence:
  assumes "0x50 \<le> get_ebda_seg st" "EXTSTART_CD \<le> dl"
    and "list_all (\<lambda>r. EXTSTART_CD \<le> DL r \<and> AL r \<le> 2) rs"
  shows "locks dl (fold (\<lambda>r st. snd (disk_1345 r st)) rs st) =
    fold (\<lambda>r l. if DL r = dl then fst (lock_spec (AL r) l) else l) rs (locks dl st)"
  using assms
proof (induction rs arbitrary: st)
  case (Cons r rs)
  then show ?case using disk_1345_step [of st r] by auto
qed simp

text \<open>C40: the lock services on the bytes of the EBDA implement one independent counter per
  removable drive: after any sequence of lock, unlock and status calls on any drives, the counter
  of a drive is what the abstract lock gives for the calls on that drive alone (256 locks are
  refused at 255, an unlock at 0), and each call returns the status of the abstract lock.\<close>

theorem locks_refine:
  assumes "0x50 \<le> get_ebda_seg st" "EXTSTART_CD \<le> dl"
    and "list_all (\<lambda>r. EXTSTART_CD \<le> DL r \<and> AL r \<le> 2) rs"
    and "st' = fold (\<lambda>r st. snd (disk_1345 r st)) rs st"
    and "EXTSTART_CD \<le> DL q" "AL q \<le> 2"
  shows "locks dl st' = fold (\<lambda>r l. if DL r = dl then fst (lock_spec (AL r) l) else l) rs (locks dl st)
    \<and> AH (fst (disk_1345 q st')) = snd (lock_spec (AL q) (locks (DL q) st'))"
proof -
  have "get_ebda_seg (fold (\<lambda>r st. snd (disk_1345 r st)) rs st) = get_ebda_seg st"
    using assms(1,3) by (induction rs arbitrary: st) (auto simp: disk_1345_step(1))
  then have "0x50 \<le> get_ebda_seg st'" using assms(1,4) by simp
  then show ?thesis
    using lock_sequence [OF assms(1-3)] disk_1345_step(3) [OF _ assms(5,6)] assms(4) by simp
qed

definition lock_call :: "u8 \<Rightarrow> u8 \<Rightarrow> bregs" where
  "lock_call cmd dl = set_dl dl (set_al cmd zero_regs)"

lemma lock_call_regs [simp]: "DL (lock_call cmd dl) = dl" "AL (lock_call cmd dl) = cmd"
  by (simp_all add: lock_call_def)

lemma demo_locks: "locks dl demo_disks = 0" if "EXTSTART_CD \<le> dl"
proof -
  have "unat (MAKE_FLATPTR 0x9fc0 (locks_cell dl)) = 0x9fd56 + (unat dl - 224)"
    using locks_cell_address [OF that, of "0x9fc0"] by simp
  then have "MAKE_FLATPTR 0x9fc0 (locks_cell dl) \<noteq> 0x40e" "MAKE_FLATPTR 0x9fc0 (locks_cell dl) \<noteq> 0x40f" by auto
  then show ?thesis
    by (simp add: locks_def demo_disks_seg ebda8_def) (simp add: demo_disks_def rd8_def)
qed

lemma locks_refine_witness:
  "locks 0xe1 (fold (\<lambda>r st. snd (disk_1345 r st))
     [lock_call 0 0xe1, lock_call 0 0xe0, lock_call 0 0xe1, lock_call 1 0xe1] demo_disks) = 1
   \<and> AH (fst (disk_1345 (lock_call 1 0xe2) (fold (\<lambda>r st. snd (disk_1345 r st))
       [lock_call 0 0xe1, lock_call 0 0xe0, lock_call 0 0xe1, lock_call 1 0xe1] demo_disks))) = 0xb0"
  using locks_refine [of demo_disks "0xe1" "[lock_call 0 0xe1, lock_call 0 0xe0, lock_call 0 0xe1, lock_call 1 0xe1]"
      _ "lock_call 1 0xe2", OF _ _ _ refl]
    lock_sequence [of demo_disks "0xe2" "[lock_call 0 0xe1, lock_call 0 0xe0, lock_call 0 0xe1, lock_call 1 0xe1]"]
  by (simp add: demo_disks_seg demo_locks extstarts lock_spec_def)

section \<open>The EDD tables\<close>

text \<open>A write keeps every byte but the \<open>n\<close> from \<open>p\<close>.\<close>

definition keeps :: "u32 \<Rightarrow> nat \<Rightarrow> memory \<Rightarrow> memory \<Rightarrow> bool" where
  "keeps p n m m' \<longleftrightarrow> (\<forall>a. n \<le> unat (a - p) \<longrightarrow> m' a = m a)"

lemma keeps_refl [intro]: "keeps p n m m" by (simp add: keeps_def)

lemma keeps_trans: "keeps p n m m' \<Longrightarrow> keeps p n m' m'' \<Longrightarrow> keeps p n m m''"
  by (simp add: keeps_def)

lemma keeps_mono: "keeps p k m m' \<Longrightarrow> k \<le> n \<Longrightarrow> keeps p n m m'"
  by (simp add: keeps_def)

lemma keeps_wr8: "unat k < n \<Longrightarrow> keeps p n m (wr8 (p + k) v m)"
  by (auto simp: keeps_def wr8_def)

lemma keeps_wr16: "unat k + 1 < n \<Longrightarrow> n \<le> 256 \<Longrightarrow> keeps p n m (wr16 (p + k) v m)"
proof -
  assume k: "unat k + 1 < n" "n \<le> 256"
  then have "unat (k + 1) < n" by (simp add: unat_word_ariths)
  then show ?thesis using k by (auto simp: keeps_def wr16_def add.assoc)
qed

lemma keeps_wr32: "unat k + 3 < n \<Longrightarrow> n \<le> 256 \<Longrightarrow> keeps p n m (wr32 (p + k) v m)"
proof -
  assume k: "unat k + 3 < n" "n \<le> 256"
  then have "unat (k + 2) + 1 < n" by (simp add: unat_word_ariths)
  then show ?thesis
    using k unfolding wr32_def add.assoc by (intro keeps_trans [OF keeps_wr16 keeps_wr16]) simp_all
qed

lemma keeps_wr64: "unat k + 7 < n \<Longrightarrow> n \<le> 256 \<Longrightarrow> keeps p n m (wr64 (p + k) v m)"
proof -
  assume k: "unat k + 7 < n" "n \<le> 256"
  then have "unat (k + 4) + 3 < n" by (simp add: unat_word_ariths)
  then show ?thesis
    using k unfolding wr64_def add.assoc by (intro keeps_trans [OF keeps_wr32 keeps_wr32]) simp_all
qed

lemma int13_ptr_base: "int13_ptr r off = int13_ptr r 0 + off"
  by (simp add: int13_ptr_def MAKE_FLATPTR_def)

lemma keeps_dpt:
  "unat off < n \<Longrightarrow> keeps (int13_ptr r 0) n (mem st) (mem (dpt8 r off a st))"
  "unat off + 1 < n \<Longrightarrow> n \<le> 256 \<Longrightarrow> keeps (int13_ptr r 0) n (mem st) (mem (dpt16 r off b st))"
  "unat off + 3 < n \<Longrightarrow> n \<le> 256 \<Longrightarrow> keeps (int13_ptr r 0) n (mem st) (mem (dpt32 r off c st))"
  "unat off + 7 < n \<Longrightarrow> n \<le> 256 \<Longrightarrow> keeps (int13_ptr r 0) n (mem st) (mem (dpt64 r off d st))"
  unfolding dpt_writes int13_ptr_base [of r off]
  by (simp_all add: keeps_wr8 keeps_wr16 keeps_wr32 keeps_wr64)

lemma keeps_after:
  "keeps p n m (mem st) \<Longrightarrow> keeps p n (mem st) m' \<Longrightarrow> keeps p n m m'"
  by (rule keeps_trans)

lemmas keeps_dpt_after = keeps_dpt [THEN keeps_after [rotated]]

lemma edd1_keeps: "26 \<le> n \<Longrightarrow> n \<le> 256 \<Longrightarrow> keeps (int13_ptr r 0) n (mem st) (mem (edd1 d r st))"
  by (simp add: edd1_def Let_def dpt_offsets keeps_dpt_after keeps_refl)

lemma edd3_keeps:
  assumes "(if t13 then 74 else 66) \<le> n" "n \<le> 256"
  shows "keeps (int13_ptr r 0) n (mem st) (mem (edd3 type t13 i r st))"
  using assms
  by (cases i) (simp add: edd3_def Let_def dpt_offsets dpt_chars_def keeps_dpt_after keeps_refl split: if_splits)

text \<open>The table extension in the EBDA, and both regions together.\<close>

definition dpte_addr :: "disk_state \<Rightarrow> u32" where
  "dpte_addr st = MAKE_FLATPTR (get_ebda_seg st) ebda_dpte"

lemma ebda_dpte_base: "MAKE_FLATPTR sg (ebda_dpte + k) = MAKE_FLATPTR sg ebda_dpte + k"
  by (simp add: MAKE_FLATPTR_def)

lemma keeps_ebda:
  "unat k < n \<Longrightarrow> keeps (MAKE_FLATPTR sg ebda_dpte) n (mem st) (mem (set_ebda8 sg (ebda_dpte + k) v st))"
  "unat k + 1 < n \<Longrightarrow> n \<le> 256 \<Longrightarrow>
    keeps (MAKE_FLATPTR sg ebda_dpte) n (mem st) (mem (set_ebda16 sg (ebda_dpte + k) w st))"
  by (simp_all add: set_ebda8_def set_ebda16_def ebda_dpte_base keeps_wr8 keeps_wr16)

lemmas keeps_ebda_after = keeps_ebda [THEN keeps_after [rotated]]

lemma write_dpte_keeps: "keeps (MAKE_FLATPTR sg ebda_dpte) 16 (mem st) (mem (write_dpte d a sg st))"
  by (simp only: write_dpte_def Let_def) (intro keeps_ebda_after keeps_refl; simp)

lemma checksum_loop_wr8_above:
  assumes "n \<le> unat k" "unat k < 2 ^ 32"
  shows "checksum_loop (wr8 (p + k) v m) p n s = checksum_loop m p n s"
proof -
  have "(wr8 (p + k) v m) (p + of_nat i) = m (p + of_nat i)" if "i < n" for i
  proof -
    have "p + of_nat i \<noteq> p + k"
      using that assms u32_bound [of k] unat_of_nat_u32 [of i] by auto
    then show ?thesis by (simp add: wr8_def)
  qed
  then show ?thesis by (simp add: checksum_loop_sum)
qed

text \<open>The idiom of both EDD checksums: the byte behind the summed range takes its complement.\<close>

lemma checksum_closed:
  assumes "unat n + 1 < 2 ^ 32"
  shows "checksum_far (wr8 (MAKE_FLATPTR sg off + n) (- checksum_far m sg off n) m) sg off (n + 1) = 0"
proof -
  let ?p = "MAKE_FLATPTR sg off" let ?v = "- checksum_far m sg off n"
  have n: "unat (n + 1) = Suc (unat n)" using assms by (simp add: unat_word_ariths)
  have "checksum_far (wr8 (?p + n) ?v m) sg off (n + 1) = checksum_loop (wr8 (?p + n) ?v m) ?p (unat n) 0 + ?v"
    unfolding checksum_far_def n checksum_loop_sum by (simp add: wr8_def)
  also have "\<dots> = 0"
    using assms by (subst checksum_loop_wr8_above) (simp_all add: checksum_far_def)
  finally show ?thesis .
qed

lemma dpte_checksum: "checksum_far (mem (write_dpte d a sg st)) sg ebda_dpte 16 = 0"
  using checksum_closed [of 15 sg ebda_dpte] by (simp add: write_dpte_def Let_def set_ebda8_def ebda_dpte_base)

lemma int13_ptr_flat: "MAKE_FLATPTR (r_ds r) (ucast (SI r) + off) = int13_ptr r off"
  by (simp add: int13_ptr_def)

lemma edd3_checksum:
  "checksum_far (mem (edd3 type t13 i r st)) (r_ds r) (ucast (SI r) + 30) (if t13 then 44 else 36) = 0"
proof -
  have e: "int13_ptr r 73 = MAKE_FLATPTR (r_ds r) (ucast (SI r) + 30) + 43"
    "int13_ptr r 65 = MAKE_FLATPTR (r_ds r) (ucast (SI r) + 30) + 35"
    by (simp_all add: int13_ptr_def MAKE_FLATPTR_def)
  show ?thesis
    using checksum_closed [of 43 "r_ds r" "ucast (SI r) + 30"] checksum_closed [of 35 "r_ds r" "ucast (SI r) + 30"]
    by (cases i; cases t13) (simp_all add: edd3_def Let_def dpt8_def dpt_offsets e)
qed

text \<open>The buffer of a caller: real-mode memory behind the BIOS data area.\<close>

lemma int13_ptr_bound: "unat (int13_ptr r 0) \<le> 0x10ffef"
proof -
  have "unat (push_bit 4 (ucast (r_ds r)) :: u32) = 16 * unat (r_ds r)"
    using u16_bound [of "r_ds r"] by (simp add: push_bit_eq_mult unat_word_ariths unat_ucast_fit)
  moreover have "unat (ucast (SI r) :: u32) = unat (SI r)" using u16_bound [of "SI r"] by (simp add: unat_ucast_fit)
  ultimately show ?thesis
    using u16_bound [of "r_ds r"] u16_bound [of "SI r"] by (simp add: int13_ptr_def MAKE_FLATPTR_def unat_word_ariths)
qed

lemma low_outside:
  assumes "0x500 \<le> unat (int13_ptr r 0)" "unat a < 0x500"
  shows "256 \<le> unat (a - int13_ptr r 0)"
proof -
  have "unat (a - int13_ptr r 0) = 4294967296 + unat a - unat (int13_ptr r 0)"
    using assms by (intro unat_sub_wrap32) (simp add: word_less_nat_alt)
  then show ?thesis using int13_ptr_bound [of r] by simp
qed

lemma keeps_seg:
  assumes "0x500 \<le> unat (int13_ptr r 0)" "keeps (int13_ptr r 0) n (mem st) (mem st')" "n \<le> 256"
  shows "get_ebda_seg st' = get_ebda_seg st"
proof -
  have "mem st' a = mem st a" if "unat a < 0x500" for a
    using low_outside [OF assms(1) that] assms(2,3) by (auto simp: keeps_def)
  then show ?thesis by (simp add: get_ebda_seg_def bda16_def rd16_def bda_offsets)
qed

lemma edd2_keeps:
  assumes "0x500 \<le> unat (int13_ptr r 0)" "30 \<le> n" "n \<le> 256"
    and "edd2 d a r st = (b, i, path, ch, st')"
    and "n \<le> unat (x - int13_ptr r 0)" "16 \<le> unat (x - dpte_addr st)"
  shows "mem st' x = mem st x"
proof -
  define st1 where "st1 = dpt16 r dpt_size 30 st"
  define st2 where "st2 = dpt16 r dpt_dpte_offset (ucast ebda_dpte) (dpt16 r dpt_dpte_segment (get_ebda_seg st1) st1)"
  define st3 where "st3 = dpt16 r dpt_dpte_offset 0 (dpt16 r dpt_dpte_segment 0 st1)"
  have k: "keeps (int13_ptr r 0) n (mem st) (mem st1)" "keeps (int13_ptr r 0) n (mem st) (mem st2)"
    "keeps (int13_ptr r 0) n (mem st) (mem st3)"
    using assms(2,3) by (simp_all add: st1_def st2_def st3_def dpt_offsets keeps_dpt_after keeps_refl)
  have seg: "get_ebda_seg st1 = get_ebda_seg st" by (rule keeps_seg [OF assms(1) k(1) assms(3)])
  have "st' = write_dpte d a (get_ebda_seg st) st2 \<or> st' = st3"
    using assms(4) by (auto simp: edd2_def Let_def st1_def [symmetric] st2_def st3_def seg split: if_splits)
  then show ?thesis
    using k(2,3) write_dpte_keeps [of "get_ebda_seg st" st2 d a] assms(5,6)
    by (auto simp: keeps_def dpte_addr_def)
qed

lemma edd1_frame [simp]: "atadrives (edd1 d r st) = atadrives st" "drives (edd1 d r st) = drives st"
  by (simp_all add: edd1_def dpt_writes Let_def)

lemma edd_table_keeps:
  assumes "0x500 \<le> unat (int13_ptr r 0)" "26 \<le> rd16 (mem st) (int13_ptr r dpt_size)"
    and "unat (rd16 (mem st) (int13_ptr r dpt_size)) \<le> unat (x - int13_ptr r 0)"
    and "16 \<le> unat (x - dpte_addr st)"
  shows "mem (edd_table g r st) x = mem st x"
proof -
  define size where "size = rd16 (mem st) (int13_ptr r dpt_size)"
  define n where "n = min (unat size) 256"
  have n: "26 \<le> n" "n \<le> 256" "n \<le> unat (x - int13_ptr r 0)"
    using assms(2,3) by (simp_all add: n_def size_def word_le_nat_alt)
  have big: "\<not> size < 30 \<Longrightarrow> 30 \<le> n" "\<not> size < 66 \<Longrightarrow> 66 \<le> n" "size = 74 \<Longrightarrow> 74 \<le> n"
    by (simp_all add: n_def word_less_nat_alt)
  let ?d = "drives st g"
  define st1 where "st1 = edd1 ?d r st"
  have k1: "keeps (int13_ptr r 0) n (mem st) (mem st1)" unfolding st1_def by (rule edd1_keeps [OF n(1,2)])
  have addr: "dpte_addr st1 = dpte_addr st"
    using keeps_seg [OF assms(1) k1 n(2)] by (simp add: dpte_addr_def)
  have m1: "mem st1 x = mem st x" using k1 n(3) by (simp add: keeps_def)
  obtain b i path ch st2 where e2: "edd2 ?d (atadrives st g) r st1 = (b, i, path, ch, st2)" by (metis prod_cases5)
  have m2: "mem st2 x = mem st x" if "\<not> size < 30"
    using edd2_keeps [OF assms(1) big(1) [OF that] n(2) e2 n(3)] assms(4) m1 addr by simp
  have m3: "mem (edd3 t (size = 74) (b, i, path, ch) r st2) x = mem st x" if "\<not> size < 30" "\<not> size < 66" for t
    using edd3_keeps [of "size = 74" n r st2 t "(b, i, path, ch)"] big that n m2 by (auto simp: keeps_def)
  show ?thesis
  proof -
    have "atadrives st1 = atadrives st" by (simp add: st1_def)
    then show ?thesis
      using m1 m2 m3 by (simp add: edd_table_def Let_def e2 st1_def [symmetric] size_def [symmetric])
  qed
qed

text \<open>The EDD parameter service never writes outside the buffer it was given: with a buffer of
  \<open>size\<close> bytes behind the BIOS data area, apart from its status byte and the 16 bytes of the
  table extension in the EBDA only bytes of the buffer can change, and a buffer below 26 bytes is
  refused with error 1 and left alone.\<close>

theorem edd_within_buffer:
  assumes "0x500 \<le> unat (int13_ptr r 0)" "bufsize = rd16 (mem st) (int13_ptr r dpt_size)"
    and "unat bufsize \<le> unat (a - int13_ptr r 0)" "16 \<le> unat (a - dpte_addr st)"
    and "a \<noteq> BDA (last_status_cell (DL r))"
  shows "mem (snd (disk_1348 g r st)) a = mem st a
    \<and> (bufsize < 26 \<longrightarrow> disk_1348 g r st = disk_ret r DISK_RET_EPARAM st)"
proof (cases "bufsize < 26")
  case True
  then show ?thesis using assms(2,5) by (simp add: disk_1348_def disk_ret_regs wr8_def)
next
  case False
  then have "26 \<le> rd16 (mem st) (int13_ptr r dpt_size)" using assms(2) by (simp only: not_less)
  then have "mem (edd_table g r st) a = mem st a"
    using assms by (intro edd_table_keeps) simp_all
  then show ?thesis using False assms(2,5) by (simp add: disk_1348_def disk_ret_regs wr8_def)
qed

text \<open>For the witnesses: a buffer of 66 bytes at 1000h:0, and an ATA drive.\<close>

definition demo_edd :: disk_state where
  "demo_edd = demo_disks\<lparr>mem := wr16 0x10000 66 (mem demo_disks),
     drives := (\<lambda>_. demo_drive\<lparr>dtype := DTYPE_ATA\<rparr>)\<rparr>"

definition demo_edd_regs :: bregs where
  "demo_edd_regs = demo_regs\<lparr>r_ds := 0x1000\<rparr>"

lemma demo_edd_ptr: "int13_ptr demo_edd_regs off = 0x10000 + off"
  by (simp add: int13_ptr_def demo_edd_regs_def demo_regs_def zero_regs_def MAKE_FLATPTR_def
      lane_defs set_lane_defs lane_x_def push_bit_eq_mult)

lemma demo_edd_size: "rd16 (mem demo_edd) (0x10000 + dpt_size) = 66"
  by (simp add: demo_edd_def demo_edd_ptr dpt_offsets)

lemma demo_edd_dpte: "get_ebda_seg demo_edd = 0x9fc0" "dpte_addr demo_edd = 0x9fd46"
proof -
  have "rd16 (mem demo_disks) 0x40e = 0x9fc0" using demo_disks_seg by (simp add: get_ebda_seg_def bda16_def bda_offsets)
  then show "get_ebda_seg demo_edd = 0x9fc0"
    by (simp add: get_ebda_seg_def bda16_def bda_offsets demo_edd_def rd16_wr16_other)
  then show "dpte_addr demo_edd = 0x9fd46"
    by (simp add: dpte_addr_def MAKE_FLATPTR_def ebda_offsets push_bit_eq_mult)
qed

lemma edd_within_buffer_witness:
  "mem (snd (disk_1348 0x1000 demo_edd_regs demo_edd)) 0x10042 = mem demo_edd 0x10042"
proof -
  have "0x10042 \<noteq> BDA (last_status_cell (DL demo_edd_regs))"
    by (simp add: last_status_cell_def bda_offsets)
  then show ?thesis
    using edd_within_buffer [of demo_edd_regs 66 demo_edd "0x10042" "0x1000"]
    by (simp add: demo_edd_ptr demo_edd_size demo_edd_dpte)
qed

text \<open>The checksums survive the status byte, which is in neither table.\<close>

lemma checksum_far_keep:
  assumes "\<And>a. unat (a - MAKE_FLATPTR sg off) < unat len \<Longrightarrow> m' a = m a"
  shows "checksum_far m' sg off len = checksum_far m sg off len"
proof -
  have "m' (MAKE_FLATPTR sg off + of_nat i) = m (MAKE_FLATPTR sg off + of_nat i)" if "i < unat len" for i
    using that u32_bound [of len] by (intro assms) (simp add: unat_of_nat_u32)
  then show ?thesis by (simp add: checksum_far_def checksum_loop_sum)
qed

lemma status_cell_low: "unat (BDA (last_status_cell dl)) < 0x500"
  by (simp add: last_status_cell_def bda_offsets)

lemma dpte_addr_bound: "unat (dpte_addr st) \<le> 0x110000"
proof -
  let ?sg = "get_ebda_seg st"
  have "unat (push_bit 4 (ucast ?sg) :: u32) = 16 * unat ?sg"
    using u16_bound [of ?sg] by (simp add: push_bit_eq_mult unat_word_ariths unat_ucast_fit)
  then show ?thesis
    using u16_bound [of ?sg] by (simp add: dpte_addr_def MAKE_FLATPTR_def ebda_offsets unat_word_ariths)
qed

lemma in_buffer:
  assumes "unat (a - (p + 30) :: u32) < n" "n \<le> 200"
  shows "unat (a - p) < n + 30"
proof -
  have "a - p = (a - (p + 30)) + 30" by simp
  moreover have "unat (x + 30) = unat x + 30" if "unat x < n" for x :: u32
    using that assms(2) by (simp add: unat_word_ariths)
  from this [OF assms(1)] have "unat ((a - (p + 30)) + 30) = unat (a - (p + 30)) + 30" .
  ultimately have "unat (a - p) = unat (a - (p + 30)) + 30" by (simp only:)
  then show ?thesis using assms(1) by linarith
qed

text \<open>Both checksums of the EDD tables are right. With a buffer of at least 66 bytes on an ATA,
  ATAPI or virtio drive the device path information (36 bytes, 44 in the T13 form) sums to 0, and
  on ATA and ATAPI so do the 16 bytes of the table extension in the EBDA, if the buffer and the
  extension do not overlap.\<close>

theorem edd_checksums:
  assumes "0x500 \<le> unat (int13_ptr r 0)" "0x500 \<le> unat (dpte_addr st)"
    and "bufsize = rd16 (mem st) (int13_ptr r dpt_size)" "66 \<le> bufsize"
    and "type = dtype (drives st g)" "type = DTYPE_ATA \<or> type = DTYPE_ATAPI \<or> type = DTYPE_VIRTIO"
    and "\<And>a. unat (a - dpte_addr st) < 16 \<Longrightarrow> 74 \<le> unat (a - int13_ptr r 0)"
  shows "checksum_far (mem (snd (disk_1348 g r st))) (r_ds r) (ucast (SI r) + 30) (if bufsize = 74 then 44 else 36) = 0
    \<and> (type = DTYPE_VIRTIO \<or>
       checksum_far (mem (snd (disk_1348 g r st))) (get_ebda_seg st) ebda_dpte 16 = 0)"
proof -
  let ?d = "drives st g" and ?c = "BDA (last_status_cell (DL r))"
  have b: "\<not> bufsize < 26" "\<not> bufsize < 30" "\<not> bufsize < 66" "66 \<le> unat bufsize"
    using assms(4) by (auto simp: word_less_nat_alt word_le_nat_alt)
  define st1 where "st1 = edd1 ?d r st"
  obtain bdf i path ch st2 where e2: "edd2 ?d (atadrives st g) r st1 = (bdf, i, path, ch, st2)" by (metis prod_cases5)
  define st3 where "st3 = edd3 type (bufsize = 74) (bdf, i, path, ch) r st2"
  have fin: "mem (snd (disk_1348 g r st)) = wr8 ?c 0 (mem st3)"
    using b(1-3) assms(3,5,6) e2
    by (auto simp: disk_1348_def edd_table_def Let_def disk_ret_regs disk_ret_codes st1_def st3_def)
  have c_out: "256 \<le> unat (?c - int13_ptr r 0)" by (rule low_outside [OF assms(1) status_cell_low])
  have base: "MAKE_FLATPTR (r_ds r) (ucast (SI r) + 30) = int13_ptr r 0 + 30"
    by (simp add: int13_ptr_def MAKE_FLATPTR_def)
  have "checksum_far (wr8 ?c 0 (mem st3)) (r_ds r) (ucast (SI r) + 30) (if bufsize = 74 then 44 else 36)
      = checksum_far (mem st3) (r_ds r) (ucast (SI r) + 30) (if bufsize = 74 then 44 else 36)"
  proof (rule checksum_far_keep)
    fix a assume "unat (a - MAKE_FLATPTR (r_ds r) (ucast (SI r) + 30)) < unat (if bufsize = 74 then 44 else 36 :: u32)"
    then have "unat (a - (int13_ptr r 0 + 30)) < 44" unfolding base by (simp split: if_splits)
    then have "unat (a - int13_ptr r 0) < 74" using in_buffer [of a "int13_ptr r 0" 44] by simp
    then have "a \<noteq> ?c" using c_out by auto
    then show "wr8 ?c 0 (mem st3) a = mem st3 a" by (simp add: wr8_def)
  qed
  then have dpi: "checksum_far (mem (snd (disk_1348 g r st))) (r_ds r) (ucast (SI r) + 30)
      (if bufsize = 74 then 44 else 36) = 0"
    unfolding fin st3_def using edd3_checksum by metis
  have k1: "keeps (int13_ptr r 0) 256 (mem st) (mem st1)" unfolding st1_def by (rule edd1_keeps) simp_all
  have "checksum_far (wr8 ?c 0 (mem st3)) (get_ebda_seg st) ebda_dpte 16 = 0" if ata: "type \<noteq> DTYPE_VIRTIO"
  proof -
    define st1' where "st1' = dpt16 r dpt_size 30 st1"
    have "keeps (int13_ptr r 0) 256 (mem st1) (mem st1')"
      by (simp add: st1'_def dpt_offsets keeps_dpt_after keeps_refl)
    then have "keeps (int13_ptr r 0) 256 (mem st) (mem st1')" using k1 by (rule keeps_trans [rotated])
    then have seg: "get_ebda_seg st1' = get_ebda_seg st" using keeps_seg [OF assms(1)] by blast
    have "checksum_far (mem st2) (get_ebda_seg st) ebda_dpte 16 = 0"
      using e2 ata assms(5,6) dpte_checksum
      by (auto simp: edd2_def Let_def st1'_def [symmetric] seg split: if_splits)
    moreover have "checksum_far (wr8 ?c 0 (mem st3)) (get_ebda_seg st) ebda_dpte 16
        = checksum_far (mem st2) (get_ebda_seg st) ebda_dpte 16"
    proof (rule checksum_far_keep)
      fix a assume "unat (a - MAKE_FLATPTR (get_ebda_seg st) ebda_dpte) < unat (16 :: u32)"
      then have a: "unat (a - dpte_addr st) < 16" by (simp add: dpte_addr_def)
      have "mem st3 a = mem st2 a"
        using edd3_keeps [of "bufsize = 74" 74 r st2 type "(bdf, i, path, ch)"] assms(7) [OF a]
        by (simp add: keeps_def st3_def split: if_splits)
      moreover have "?c \<noteq> a"
      proof
        assume "?c = a"
        then have "unat a < 0x500" using status_cell_low [of "DL r"] by simp
        then have "unat (a - dpte_addr st) = 4294967296 + unat a - unat (dpte_addr st)"
          using assms(2) by (intro unat_sub_wrap32) (simp add: word_less_nat_alt)
        then show False using a dpte_addr_bound [of st] by simp
      qed
      ultimately show "wr8 ?c 0 (mem st3) a = mem st2 a" by (simp add: wr8_def)
    qed
    ultimately show ?thesis by simp
  qed
  then show ?thesis using dpi fin by auto
qed

lemma edd_checksums_witness:
  "checksum_far (mem (snd (disk_1348 0x1000 demo_edd_regs demo_edd))) 0x1000 30 36 = 0
   \<and> checksum_far (mem (snd (disk_1348 0x1000 demo_edd_regs demo_edd))) 0x9fc0 ebda_dpte 16 = 0"
proof -
  have apart: "74 \<le> unat (a - int13_ptr demo_edd_regs 0)" if "unat (a - dpte_addr demo_edd) < 16" for a
  proof -
    have "unat (x + 0x8fd46) = unat x + 0x8fd46" if "unat x < 16" for x :: u32
      using that by (simp add: unat_word_ariths)
    from this [OF that] have "unat (a - dpte_addr demo_edd + 0x8fd46) = unat (a - dpte_addr demo_edd) + 0x8fd46" .
    moreover have "a - int13_ptr demo_edd_regs 0 = a - dpte_addr demo_edd + 0x8fd46"
      by (simp add: demo_edd_ptr demo_edd_dpte)
    ultimately show ?thesis by (simp only:)
  qed
  have regs: "r_ds demo_edd_regs = 0x1000" "SI demo_edd_regs = 0"
    by (simp_all add: demo_edd_regs_def demo_regs_def zero_regs_def lane_defs set_lane_defs lane_x_def)
  have ata: "dtype (drives demo_edd 0x1000) = DTYPE_ATA" by (simp add: demo_edd_def)
  show ?thesis
    using edd_checksums [of demo_edd_regs demo_edd 66 DTYPE_ATA "0x1000", OF _ _ _ _ _ _ apart]
    by (simp add: demo_edd_ptr demo_edd_size demo_edd_dpte regs ata dtype_codes)
qed

end
