(* ===== verification/CdromSpec.thy ===== *)
theory CdromSpec
  imports Cdrom DiskSpec
begin

text \<open>
  Properties of the CD drives: a read from the emulated disk delivers exactly the requested
  512-byte sectors of the image, whatever the alignment of the request to the 2048-byte blocks of
  the CD, and the boot of a CD activates the emulation only for a valid boot catalog.
\<close>

section \<open>Reading from the emulated drive\<close>

text \<open>\<open>n\<close> bytes of a source at an address.\<close>

definition put_bytes :: "u32 \<Rightarrow> nat \<Rightarrow> (nat \<Rightarrow> u8) \<Rightarrow> memory \<Rightarrow> memory" where
  "put_bytes b n f m = (\<lambda>a. if unat (a - b) < n then f (unat (a - b)) else m a)"

text \<open>What a driver of a CD does on a read that it reports as successful: the blocks are in the
  buffer, nothing else of the memory has changed and the request is as it was.\<close>

definition reads_cd :: "driver \<Rightarrow> (nat \<Rightarrow> u8) \<Rightarrow> bool" where
  "reads_cd cd disk \<longleftrightarrow>
     (\<forall>dop st dop' st'. op_command dop = CMD_READ \<longrightarrow> cd dop st = (0, dop', st') \<longrightarrow>
        dop' = dop \<and> bounce_buf_fl st' = bounce_buf_fl st \<and>
        mem st' = put_bytes (op_buf_fl dop) (unat (op_count dop) * 2048)
                    (\<lambda>i. disk (unat (op_lba dop) * 2048 + i)) (mem st))"

lemma reads_cdD:
  assumes "reads_cd cd disk" "op_command dop = CMD_READ" "cd dop st = (0, dop', st')"
  shows "dop' = dop" "bounce_buf_fl st' = bounce_buf_fl st"
    "mem st' = put_bytes (op_buf_fl dop) (unat (op_count dop) * 2048)
                    (\<lambda>i. disk (unat (op_lba dop) * 2048 + i)) (mem st)"
  using assms unfolding reads_cd_def by blast+

text \<open>The buffer of the caller and the bounce buffer: apart, and below 1 MB.\<close>

definition buffers_ok :: "u32 \<Rightarrow> u32 \<Rightarrow> nat \<Rightarrow> bool" where
  "buffers_ok buf b n \<longleftrightarrow>
     n \<le> 255 \<and> unat buf + n * 512 \<le> 0x100000 \<and> unat b + 2048 \<le> 0x100000 \<and>
     (unat buf + n * 512 \<le> unat b \<or> unat b + 2048 \<le> unat buf)"

text \<open>Between the stages: \<open>k\<close> of the \<open>n\<close> sectors from sector \<open>s0\<close> are in the buffer and the next
  one, if any, starts a block.\<close>

definition delivered :: "nat \<Rightarrow> u32 \<Rightarrow> u32 \<Rightarrow> (nat \<Rightarrow> u8) \<Rightarrow> nat \<Rightarrow> memory \<Rightarrow> memory \<Rightarrow> bool" where
  "delivered k buf b disk s0 m0 m \<longleftrightarrow>
     (\<forall>a. 2048 \<le> unat (a - b) \<longrightarrow> m a = put_bytes buf (k * 512) (\<lambda>i. disk (s0 * 512 + i)) m0 a)"

definition stage_ok :: "nat \<Rightarrow> nat \<Rightarrow> u32 \<Rightarrow> u32 \<Rightarrow> (nat \<Rightarrow> u8) \<Rightarrow> nat \<Rightarrow> memory \<Rightarrow> cdemu_stage \<Rightarrow> bool" where
  "stage_ok k n buf b disk s0 m0 s \<longleftrightarrow> (case s of (dop0, dop, count, st) \<Rightarrow>
     k \<le> n \<and> count = int (n - k) \<and> op_buf_fl dop0 = buf + of_nat (k * 512) \<and>
     op_count dop0 = of_nat k \<and> op_command dop = CMD_READ \<and> bounce_buf_fl st = b \<and>
     (k = n \<or> 4 dvd s0 + k \<and> unat (op_lba dop) = (s0 + k) div 4) \<and>
     delivered k buf b disk s0 m0 (mem st))"

lemma delivered_append:
  assumes d: "delivered k buf b disk s0 m0 m" and fit: "unat buf + (k + j) * 512 \<le> 0x100000"
    and m': "\<And>a. 2048 \<le> unat (a - b) \<Longrightarrow>
      m' a = (if unat (a - (buf + of_nat (k * 512))) < j * 512
              then disk ((s0 + k) * 512 + unat (a - (buf + of_nat (k * 512)))) else m a)"
  shows "delivered (k + j) buf b disk s0 m0 m'"
  unfolding delivered_def
proof (intro allI impI)
  fix a assume a: "2048 \<le> unat (a - b)"
  let ?o = "unat (a - buf)" and ?k = "of_nat (k * 512) :: u32"
  have k: "unat ?k = k * 512" using fit by (intro unat_of_nat_u32) simp
  have split: "a - (buf + ?k) = (a - buf) - ?k" by simp
  have off: "unat (a - (buf + ?k)) = (if k * 512 \<le> ?o then ?o - k * 512 else 4294967296 + ?o - k * 512)"
  proof (cases "k * 512 \<le> ?o")
    case True
    then show ?thesis unfolding split using k by (simp add: unat_sub word_le_nat_alt)
  next
    case False
    then have "a - buf < ?k" by (simp only: word_less_nat_alt k not_le)
    then show ?thesis unfolding split using False k unat_sub_wrap32 [of "a - buf" ?k] by simp
  qed
  have "m' a = (if k * 512 \<le> ?o \<and> ?o - k * 512 < j * 512 then disk (s0 * 512 + ?o) else m a)"
    unfolding m' [OF a] off using fit by (auto simp: algebra_simps)
  also have "\<dots> = put_bytes buf ((k + j) * 512) (\<lambda>i. disk (s0 * 512 + i)) m0 a"
    using d a unfolding delivered_def put_bytes_def by (auto simp: algebra_simps)
  finally show "m' a = put_bytes buf ((k + j) * 512) (\<lambda>i. disk (s0 * 512 + i)) m0 a" .
qed

text \<open>A partial block goes through the bounce buffer: \<open>j\<close> sectors from sector \<open>p\<close> of block \<open>blk\<close>.\<close>

lemma bounce_copy:
  assumes ok: "buffers_ok buf b n" "k + j \<le> n" "p + j \<le> 4" "s0 + k = blk * 4 + p"
    and m: "delivered k buf b disk s0 m0 m"
    and rd: "m1 = put_bytes b 2048 (\<lambda>i. disk (blk * 2048 + i)) m"
  shows "delivered (k + j) buf b disk s0 m0
    (memcpy_fl (buf + of_nat (k * 512)) (b + of_nat (p * 512)) (of_nat (j * 512)) m1)"
proof -
  let ?d = "buf + of_nat (k * 512) :: u32" and ?s = "b + of_nat (p * 512) :: u32"
  have "(k + j) * 512 \<le> n * 512" using ok(2) by simp
  then have fit: "unat buf + (k + j) * 512 \<le> 0x100000" using ok(1) unfolding buffers_ok_def by linarith
  have d: "unat ?d = unat buf + k * 512"
    using fit by (simp add: unat_word_ariths unat_of_nat take_bit_nat_eq_self)
  have s: "unat ?s = unat b + p * 512"
    using ok(1,3) unfolding buffers_ok_def by (simp add: unat_word_ariths unat_of_nat take_bit_nat_eq_self)
  have len: "unat (of_nat (j * 512) :: u32) = j * 512" using ok(3) by (intro unat_of_nat_u32) simp
  have apart: "j * 512 \<le> unat (?d - ?s)" if "j \<noteq> 0"
  proof (cases "?s \<le> ?d")
    case True
    then show ?thesis using ok d s that unfolding buffers_ok_def
      by (simp add: unat_sub word_le_nat_alt) linarith
  next
    case False
    then have "unat (?d - ?s) = 4294967296 + unat ?d - unat ?s"
      by (intro unat_sub_wrap32) (simp only: not_le)
    moreover have "unat ?s \<le> 0x100000" using ok(1,3) s unfolding buffers_ok_def by linarith
    ultimately show ?thesis using ok(3) by linarith
  qed
  have "memcpy_fl ?d ?s (of_nat (j * 512)) m1 = copied ?d ?s (j * 512) m1"
  proof (cases "j = 0")
    case True
    then show ?thesis by (simp add: memcpy_fl_def memcpy_far_def)
  next
    case False
    have "?d < 0x100000" "?s < 0x100000"
      using ok fit False s d unfolding buffers_ok_def by (simp_all add: word_less_nat_alt)
    then show ?thesis using memcpy_fl_copied [of ?d ?s "of_nat (j * 512)"] apart [OF False] len ok(3) by simp
  qed
  moreover have "copied ?d ?s (j * 512) m1 a =
      (if unat (a - ?d) < j * 512 then disk ((s0 + k) * 512 + unat (a - ?d)) else m a)"
    if a: "2048 \<le> unat (a - b)" for a
  proof (cases "unat (a - ?d) < j * 512")
    case True
    have "?s + (a - ?d) - b = of_nat (p * 512 + unat (a - ?d))" by simp
    then have "unat (?s + (a - ?d) - b) = p * 512 + unat (a - ?d)"
      using True ok(3) by (simp only:) (rule unat_of_nat_u32, simp)
    then show ?thesis using True ok(3,4) unfolding rd copied_def put_bytes_def
      by (simp add: algebra_simps)
  next
    case False
    then show ?thesis using a unfolding rd copied_def put_bytes_def by simp
  qed
  ultimately show ?thesis by (intro delivered_append [OF m fit]) simp
qed

text \<open>The three stages.\<close>

lemma ucast_of_nat8: "j \<le> 255 \<Longrightarrow> (ucast (of_nat j :: u8) :: 'a::len word) = of_nat j"
  by (simp only: unsigned_of_nat) (simp add: take_bit_nat_eq_self)

lemma ucast_of_nat32: "j \<le> 255 \<Longrightarrow> (ucast (of_nat j :: u32) :: 'a::len word) = of_nat j"
  by (simp only: unsigned_of_nat) (simp add: take_bit_nat_eq_self)

lemma unat_of_nat8: "j \<le> 255 \<Longrightarrow> unat (of_nat j :: u8) = j"
  by (simp only: unsigned_of_nat) (simp add: take_bit_nat_eq_self)

lemma delivered_0: "delivered 0 buf b disk s0 m m"
  by (simp add: delivered_def put_bytes_def)

lemma cdemu_first_ok:
  assumes rd: "reads_cd cd disk" and ok: "buffers_ok buf b n"
    and s: "op_buf_fl dop0 = buf" "op_count dop0 = 0" "op_command dop = CMD_READ" "bounce_buf_fl st = b"
    and lba: "unat (op_lba dop0 AND 3) = s0 mod 4" "unat (op_lba dop) = s0 div 4" "s0 div 4 + 1 < 2 ^ 64"
  shows "case cdemu_first cd (dop0, dop, int n, st) of
      Inl (ret, _) \<Rightarrow> ret \<noteq> 0 | Inr s \<Rightarrow> \<exists>k. stage_ok k n buf b disk s0 (mem st) s"
proof (cases "op_lba dop0 AND 3 = 0")
  case True
  have "s0 mod 4 = 0" using lba(1) True by simp
  then have "stage_ok 0 n buf b disk s0 (mem st) (dop0, dop, int n, st)"
    using s lba unfolding stage_ok_def delivered_def put_bytes_def by (auto simp: mod_eq_0_iff_dvd)
  then show ?thesis using True by (auto simp: cdemu_first_def)
next
  case False
  let ?p = "s0 mod 4" and ?dop = "dop\<lparr>op_count := 1, op_buf_fl := b\<rparr>"
  obtain ret dop' st' where call: "cd ?dop st = (ret, dop', st')" by (metis prod_cases3)
  show ?thesis
  proof (cases "ret = 0")
    case err: False
    then show ?thesis using False call s by (simp add: cdemu_first_def)
  next
    case True
    note res = reads_cdD [OF rd _ call [unfolded True]]
    have p: "?p < 4" by simp
    define j where "j = min (4 - ?p) n"
    have j: "j \<le> 255" "j \<le> n" "?p + j \<le> 4" using p unfolding j_def by linarith+
    have part: "(ucast (op_lba dop0 AND 3) :: u32) = of_nat ?p"
      using arg_cong [OF lba(1), of "of_nat :: nat \<Rightarrow> u32"] by (simp add: of_nat_unat)
    have "4 - ucast (of_nat ?p :: u32) = (of_nat (4 - ?p) :: u8)"
      using p ucast_of_nat32 [of ?p, where 'a = 8] by (simp add: of_nat_diff)
    note four = this
    have n8: "(if int (unat (4 - ucast (of_nat ?p :: u32) :: u8)) > int n then word_of_int (int n)
        else 4 - ucast (of_nat ?p :: u32)) = (of_nat j :: u8)"
    proof -
      have u: "unat (of_nat (4 - ?p) :: u8) = 4 - ?p" by (rule unat_of_nat8) simp
      have "j = (if n < 4 - ?p then n else 4 - ?p)" by (simp add: j_def min_absorb1 min_absorb2 not_less)
      then show ?thesis unfolding four u of_nat_less_iff by (simp only: of_int_of_nat_eq split: if_split) simp
    qed
    have mem: "delivered (0 + j) buf b disk s0 (mem st)
        (memcpy_fl (buf + of_nat (0 * 512)) (b + of_nat (?p * 512)) (of_nat (j * 512)) (mem st'))"
      by (rule bounce_copy [OF ok, where blk = "s0 div 4" and m = "mem st"])
        (use j lba s(3) res(3) delivered_0 in \<open>simp_all add: mult.commute\<close>)
    have next_blk: "j = n \<or> 4 dvd s0 + j \<and> unat (op_lba ?dop + 1) = (s0 + j) div 4"
    proof (cases "j = n")
      case False
      then have "j = 4 - ?p" by (simp add: j_def min_def split: if_splits)
      then have "s0 + j = 4 * (s0 div 4 + 1)" using mult_div_mod_eq [of 4 s0] p by presburger
      moreover have "unat (op_lba dop + 1) = s0 div 4 + 1" using lba by (simp add: unat_word_ariths)
      ultimately show ?thesis by simp
    qed simp
    have "cdemu_first cd (dop0, dop, int n, st) =
        Inr (dop0\<lparr>op_buf_fl := buf + of_nat (j * 512), op_count := of_nat j\<rparr>,
             ?dop\<lparr>op_lba := op_lba ?dop + 1\<rparr>, int (n - j),
             copy_fl buf (b + of_nat (?p * 512)) (of_nat (j * 512)) st')"
      unfolding cdemu_first_def prod.case if_not_P [OF False] s(4) call part Let_def n8
      using True s res(1) j by (simp add: ucast_of_nat8 unat_of_nat8 of_nat_diff)
    moreover have "stage_ok j n buf b disk s0 (mem st)
        (dop0\<lparr>op_buf_fl := buf + of_nat (j * 512), op_count := of_nat j\<rparr>,
         ?dop\<lparr>op_lba := op_lba ?dop + 1\<rparr>, int (n - j),
         copy_fl buf (b + of_nat (?p * 512)) (of_nat (j * 512)) st')"
      using j mem next_blk s res(2) by (simp add: stage_ok_def copy_fl_def)
    ultimately show ?thesis by auto
  qed
qed

lemma and_not_3: "(x AND NOT 3 :: u8) = of_nat (4 * (unat x div 4))"
proof -
  have "x AND NOT 3 = push_bit 2 (drop_bit 2 x)"
    unfolding mask_eq_exp_minus_1 [of 2, where 'a = "8 word", simplified, symmetric]
    by (rule bit_eqI) (auto simp: bit_simps simp flip: Suc_diff_le)
  moreover have "unat (drop_bit 2 x) = unat x div 4"
    using u8_bound [of x]
    by (simp only: unsigned_drop_bit_eq) (simp add: drop_bit_eq_div take_bit_nat_eq_self)
  then have "unat (push_bit 2 (drop_bit 2 x)) = 4 * (unat x div 4)"
    using u8_bound [of x] by (simp add: push_bit_eq_mult unat_word_ariths)
  ultimately show ?thesis by (metis of_nat_unat ucast_id)
qed

lemma cdemu_middle_ok:
  assumes rd: "reads_cd cd disk" and ok: "buffers_ok buf b n" and big: "(s0 + n) div 4 < 2 ^ 64"
    and s: "stage_ok k n buf b disk s0 m0 s"
  shows "case cdemu_middle cd s of
      Inl (ret, _) \<Rightarrow> ret \<noteq> 0 | Inr s \<Rightarrow> \<exists>k. stage_ok k n buf b disk s0 m0 s \<and> n - k \<le> 3"
proof -
  obtain dop0 dop count st where se: "s = (dop0, dop, count, st)" by (metis prod_cases4)
  note s = s [unfolded se stage_ok_def, simplified]
  have count: "count = int (n - k)" and kn: "k \<le> n" using s by auto
  show ?thesis
  proof (cases "n - k \<le> 3")
    case True
    then have "\<not> 3 < count" unfolding count by linarith
    then show ?thesis using True s by (auto simp: se cdemu_middle_def stage_ok_def)
  next
    case False
    define q where "q = (n - k) div 4"
    have q: "q \<le> 63" "4 * q \<le> n - k" "n - k - 4 * q \<le> 3" "(n - k) mod 4 = n - k - 4 * q" "k + 4 * q \<le> n"
      using ok kn unfolding q_def buffers_ok_def by (simp_all add: minus_mult_div_eq_mod) linarith+
    let ?dop = "dop\<lparr>op_count := of_nat q, op_buf_fl := op_buf_fl dop0\<rparr>"
    have big3: "3 < count" "count div 4 = int q" "count mod 4 = int (n - k - 4 * q)"
    proof -
      show "3 < count" using False unfolding count by linarith
      show "count div 4 = int q" unfolding count q_def by (simp only: zdiv_int of_nat_numeral)
      show "count mod 4 = int (n - k - 4 * q)" unfolding count q(4) [symmetric] by (simp only: zmod_int of_nat_numeral)
    qed
    obtain ret dop' st' where call: "cd ?dop st = (ret, dop', st')" by (metis prod_cases3)
    show ?thesis
    proof (cases "ret = 0")
      case err: False
      then show ?thesis using call big3 by (simp add: se cdemu_middle_def Let_def)
    next
      case True
      note res = reads_cdD [OF rd _ call [unfolded True]]
      have al: "4 dvd s0 + k" "unat (op_lba dop) = (s0 + k) div 4" "op_command dop = CMD_READ"
        using s False by auto
      have "n - k \<le> 255" using ok unfolding buffers_ok_def by linarith
      then have n8: "(word_of_int count AND NOT 3 :: u8) = of_nat (4 * q)"
        unfolding and_not_3 count q_def by (simp add: unat_of_nat8)
      have q8: "(of_nat (4 * q) :: u8) div 4 = of_nat q"
      proof -
        have "unat (of_nat (4 * q) :: u8) = 4 * q" "unat (of_nat q :: u8) = q"
          using q(1) by (simp_all only: unat_of_nat8)
        then show ?thesis by (simp only: word_unat_eq_iff unat_div) simp
      qed
      have fit: "unat buf + (k + 4 * q) * 512 \<le> 0x100000"
        using ok q(5) mult_right_mono [of "k + 4 * q" n 512] unfolding buffers_ok_def by simp
      have cnt: "unat (of_nat q :: u16) = q" using q(1) by (simp only: unsigned_of_nat) (simp add: take_bit_nat_eq_self)
      have mem: "delivered (k + 4 * q) buf b disk s0 m0 (mem st')"
      proof (rule delivered_append [OF _ fit])
        show "delivered k buf b disk s0 m0 (mem st)" using s by simp
        have "(s0 + k) div 4 * 2048 = (s0 + k) * 512" using al(1) by auto
        then show "mem st' a = (if unat (a - (buf + of_nat (k * 512))) < 4 * q * 512
              then disk ((s0 + k) * 512 + unat (a - (buf + of_nat (k * 512)))) else mem st a)" for a
          using res(3) al s by (simp add: put_bytes_def cnt mult.commute)
      qed
      have step: "cdemu_middle cd s =
          Inr (dop0\<lparr>op_count := of_nat (k + 4 * q), op_buf_fl := op_buf_fl dop0 + of_nat (4 * q) * 512\<rparr>,
               ?dop\<lparr>op_lba := op_lba dop + of_nat q\<rparr>, int (n - k - 4 * q), st')"
      proof -
        have u: "(ucast (of_nat (4 * q) :: u8) :: u32) = of_nat (4 * q)" "(ucast (of_nat q :: u8) :: u64) = of_nat q"
          using q(1) by (simp_all only: ucast_of_nat8)
        have "\<not> \<not> 3 < count" using big3(1) by simp
        then show ?thesis
          unfolding se cdemu_middle_def prod.case if_not_P big3(2,3) of_int_of_nat_eq call Let_def n8 q8 u
          using True res(1) s by (simp add: mult.commute)
      qed
      have q64: "unat (of_nat q :: u64) = q" using q(1) by (simp only: unsigned_of_nat) (simp add: take_bit_nat_eq_self)
      have "(s0 + k) div 4 + q = (s0 + k + 4 * q) div 4" by simp
      also have "\<dots> \<le> (s0 + n) div 4" using q(5) by (intro div_le_mono) simp
      finally have "(s0 + k) div 4 + q < 2 ^ 64" using big by linarith
      then have "unat (op_lba dop + of_nat q) = (s0 + (k + 4 * q)) div 4"
        using al(2) by (simp add: unat_word_ariths q64)
      then have "stage_ok (k + 4 * q) n buf b disk s0 m0
          (dop0\<lparr>op_count := of_nat (k + 4 * q), op_buf_fl := op_buf_fl dop0 + of_nat (4 * q) * 512\<rparr>,
               ?dop\<lparr>op_lba := op_lba dop + of_nat q\<rparr>, int (n - k - 4 * q), st')"
        using s mem q al res(2) dvd_add [OF al(1) dvd_triv_left [of 4 q]]
        by (simp add: stage_ok_def algebra_simps)
      then show ?thesis using step q(3) by auto
    qed
  qed
qed

lemma cdemu_last_ok:
  assumes rd: "reads_cd cd disk" and ok: "buffers_ok buf b n"
    and s: "stage_ok k n buf b disk s0 m0 s" "n - k \<le> 3"
    and res: "cdemu_last cd s = (0, dop', st')"
  shows "op_count dop' = of_nat n \<and> delivered n buf b disk s0 m0 (mem st')"
proof -
  obtain dop0 dop count st where se: "s = (dop0, dop, count, st)" by (metis prod_cases4)
  note st = s(1) [unfolded se stage_ok_def, simplified]
  show ?thesis
  proof (cases "k = n")
    case True
    then show ?thesis using st res by (simp add: se cdemu_last_def)
  next
    case False
    let ?dop = "dop\<lparr>op_count := 1, op_buf_fl := b\<rparr>"
    obtain j where n: "n = k + j" using st le_Suc_ex by blast
    have j: "0 < j" "j \<le> 3" using False s(2) n by simp_all
    have st': "count = int j" "bounce_buf_fl st = b" "op_command ?dop = CMD_READ" "4 dvd s0 + k"
      "unat (op_lba dop) = (s0 + k) div 4" "delivered k buf b disk s0 m0 (mem st)"
      "op_buf_fl dop0 = buf + of_nat (k * 512)" "op_count dop0 = of_nat k"
      using st False by (auto simp: n)
    have cnt: "count \<noteq> 0" "(word_of_int count :: u8) = of_nat j" using j st'(1) by simp_all
    obtain ret dop1 st1 where call: "cd ?dop st = (ret, dop1, st1)" by (metis prod_cases3)
    have ret: "ret = 0" using res call cnt st'(2) by (auto simp: se cdemu_last_def Let_def split: if_splits)
    note rd1 = reads_cdD [OF rd st'(3) call [unfolded ret]]
    have "ucast (of_nat j :: u8) = (of_nat j :: u32)" "ucast (of_nat j :: u8) = (of_nat j :: u16)"
      using j by (simp_all only: ucast_of_nat8)
    then have fin: "op_count dop' = of_nat k + of_nat j"
      "st' = copy_fl (buf + of_nat (k * 512)) b (of_nat j * 512) st1"
      using res cnt(1) call unfolding se cdemu_last_def prod.case cnt(2) st'(2,7,8)
      by (auto simp: ret Let_def st'(8))
    have "delivered (k + j) buf b disk s0 m0
        (memcpy_fl (buf + of_nat (k * 512)) (b + of_nat (0 * 512)) (of_nat (j * 512)) (mem st1))"
      using st' j n rd1(3) by (intro bounce_copy [OF ok, where blk = "(s0 + k) div 4" and m = "mem st"]) simp_all
    then show ?thesis using fin by (simp add: n copy_fl_def)
  qed
qed

lemma and_3: "unat (x AND 3 :: u64) = unat x mod 4"
proof -
  have "x AND 3 = take_bit 2 x" by (simp add: take_bit_eq_mask mask_eq_exp_minus_1)
  then show ?thesis by (simp only: unsigned_take_bit_eq) (simp add: take_bit_eq_mod)
qed

text \<open>C4: a read of at most 255 sectors from the emulated disk, whatever its alignment to the blocks of
  the CD, delivers exactly what was asked for when it succeeds: the caller's buffer holds the \<open>n\<close>
  consecutive 512-byte sectors of the image (which starts at block \<open>ilba\<close> of the CD), the count is \<open>n\<close>,
  and apart from the bounce buffer no other byte changes. It succeeds whenever the reads of the CD do.
  The driver of the CD, when it reports success, is taken to have stored the blocks asked for and nothing else.
  The caller's buffer and the bounce buffer are taken to lie below 1 MB and to be disjoint, as for real-mode
  callers outside the high memory area: above that the code cuts the segment of the copy to 16 bits, and
  above 255 sectors it cuts the number of sectors of the aligned part to 8 bits.\<close>

theorem cdemu_read_correct:
  assumes "reads_cd cd disk" "op_command dop = CMD_READ"
    and "buffers_ok (op_buf_fl dop) (bounce_buf_fl st) (unat (op_count dop))"
    and "cdemu_read cd dop st = (ret, dop', st')"
  shows "(ret = 0 \<longrightarrow> op_count dop' = op_count dop \<and>
      (\<forall>a. 2048 \<le> unat (a - bounce_buf_fl st) \<longrightarrow>
         mem st' a = put_bytes (op_buf_fl dop) (unat (op_count dop) * 512)
           (\<lambda>i. disk ((unat (ebda32 (get_ebda_seg st) ebda_cdemu_ilba st) * 4 + unat (op_lba dop)) * 512 + i))
           (mem st) a))
    \<and> ((\<forall>d s. fst (cd d s) = 0) \<longrightarrow> ret = 0)"
proof -
  define n buf b where "n = unat (op_count dop)" and "buf = op_buf_fl dop" and "b = bounce_buf_fl st"
  define ilba where "ilba = ebda32 (get_ebda_seg st) ebda_cdemu_ilba st"
  define s0 where "s0 = unat ilba * 4 + unat (op_lba dop)"
  define dop1 where "dop1 = \<lparr>op_lba = ucast ilba + op_lba dop div 4, op_buf_fl = 0,
    op_drive_g = ebda32 (get_ebda_seg st) ebda_cdemu_drive st, op_count = 0, op_command = op_command dop\<rparr>"
  note rd = assms(1)
  note ok = assms(3) [folded n_def buf_def b_def]
  have l: "unat (op_lba dop) < 2 ^ 64" using unsigned_less [of "op_lba dop", where 'a = nat] by simp
  have i: "unat ilba < 4294967296" by (rule u32_bound)
  have "n \<le> 255" using ok by (simp add: buffers_ok_def)
  then have "s0 + n < 2 ^ 63 * 4" using l i unfolding s0_def by simp
  then have "(s0 + n) div 4 < 2 ^ 63" by (rule less_mult_imp_div_less)
  moreover have "s0 div 4 \<le> (s0 + n) div 4" by (rule div_le_mono) simp
  ultimately have big: "(s0 + n) div 4 < 2 ^ 64" "s0 div 4 + 1 < 2 ^ 64" by simp_all
  have "unat (op_lba dop1) = s0 div 4"
    using l i by (simp add: dop1_def s0_def unat_word_ariths unat_div unat_ucast_fit)
  moreover have "unat (op_lba (dop\<lparr>op_count := 0\<rparr>) AND 3) = s0 mod 4" by (simp add: and_3 s0_def)
  ultimately have first: "case cdemu_first cd (dop\<lparr>op_count := 0\<rparr>, dop1, int n, st) of
      Inl (ret, _) \<Rightarrow> ret \<noteq> 0 | Inr s \<Rightarrow> \<exists>k. stage_ok k n buf b disk s0 (mem st) s"
    using assms(2) big by (intro cdemu_first_ok [OF rd ok]) (simp_all add: buf_def b_def dop1_def)
  have run: "cdemu_read cd dop st =
      (case cdemu_first cd (dop\<lparr>op_count := 0\<rparr>, dop1, int n, st) of Inl r \<Rightarrow> r
       | Inr s \<Rightarrow> case cdemu_middle cd s of Inl r \<Rightarrow> r | Inr s \<Rightarrow> cdemu_last cd s)"
    by (simp add: cdemu_read_def Let_def dop1_def ilba_def n_def)
  have good: "op_count dop' = of_nat n \<and> delivered n buf b disk s0 (mem st) (mem st')" if r0: "ret = 0"
  proof -
    obtain s k where s: "cdemu_first cd (dop\<lparr>op_count := 0\<rparr>, dop1, int n, st) = Inr s"
      "stage_ok k n buf b disk s0 (mem st) s"
      using first assms(4) r0 unfolding run by (auto split: sum.splits)
    obtain s' k' where s': "cdemu_middle cd s = Inr s'" "stage_ok k' n buf b disk s0 (mem st) s'" "n - k' \<le> 3"
      using cdemu_middle_ok [OF rd ok big(1) s(2)] assms(4) r0 unfolding run s by (auto split: sum.splits)
    show ?thesis
      using assms(4) r0 unfolding run s by (intro cdemu_last_ok [OF rd ok s'(2,3)]) (simp add: s')
  qed
  have live: "ret = 0" if z: "\<forall>d s. fst (cd d s) = 0"
  proof -
    have f: "fst (cd d s) = 0" for d s using z by blast
    have z1: "cd d s = (r, d', s') \<Longrightarrow> r = 0" for d s r d' s' using f [of d s] by simp
    obtain s where s: "cdemu_first cd (dop\<lparr>op_count := 0\<rparr>, dop1, int n, st) = Inr s"
      using first by (auto simp: cdemu_first_def Let_def split: if_splits prod.splits dest: z1)
    have "cdemu_middle cd s \<noteq> Inl r" for r
      by (cases s) (auto simp: cdemu_middle_def Let_def split: prod.splits dest: z1)
    then obtain s' where s': "cdemu_middle cd s = Inr s'" by (cases "cdemu_middle cd s") auto
    have "fst (cdemu_last cd s') = 0"
      by (cases s') (auto simp: cdemu_last_def Let_def DISK_RET_SUCCESS_def split: prod.splits dest: z1)
    then show ?thesis using assms(4) unfolding run s by (simp add: s')
  qed
  show ?thesis
    using good live by (auto simp: delivered_def n_def buf_def b_def s0_def ilba_def)
qed

text \<open>For the witness: a CD whose bytes are the number of their 512-byte sector, and a request for
  the sectors 5 to 10, which touches three blocks.\<close>

definition demo_cd :: driver where
  "demo_cd dop st = (0, dop, st\<lparr>mem := put_bytes (op_buf_fl dop) (unat (op_count dop) * 2048)
     (\<lambda>i. of_nat ((unat (op_lba dop) * 2048 + i) div 512)) (mem st)\<rparr>)"

definition demo_read :: disk_op_s where
  "demo_read = \<lparr>op_lba = 5, op_buf_fl = 0x10000, op_drive_g = 0x1000, op_count = 6, op_command = CMD_READ\<rparr>"

lemma demo_cd_reads: "reads_cd demo_cd (\<lambda>i. of_nat (i div 512))"
  by (simp add: reads_cd_def demo_cd_def)

lemma cdemu_read_correct_witness:
  "fst (cdemu_read demo_cd demo_read demo_disks) = 0
   \<and> op_count (fst (snd (cdemu_read demo_cd demo_read demo_disks))) = 6
   \<and> mem (snd (snd (cdemu_read demo_cd demo_read demo_disks))) 0x10a00 = 10"
proof -
  obtain ret dop' st' where r: "cdemu_read demo_cd demo_read demo_disks = (ret, dop', st')"
    by (metis prod_cases3)
  have ok: "buffers_ok (op_buf_fl demo_read) (bounce_buf_fl demo_disks) (unat (op_count demo_read))"
    by (simp add: buffers_ok_def demo_read_def demo_disks_def)
  have cmd: "op_command demo_read = CMD_READ" by (simp add: demo_read_def)
  have ilba: "ebda32 (get_ebda_seg demo_disks) ebda_cdemu_ilba demo_disks = 0"
    unfolding demo_disks_seg
    by (simp add: ebda32_def demo_disks_def rd32_def rd16_def ebda_offsets MAKE_FLATPTR_def push_bit_eq_mult)
  have "fst (demo_cd d s) = 0" for d s by (simp add: demo_cd_def)
  then show ?thesis
    using cdemu_read_correct [OF demo_cd_reads cmd ok r] unfolding r ilba
    by (simp add: demo_read_def demo_disks_def put_bytes_def)
qed

section \<open>The geometry of the emulated drive\<close>

text \<open>Addresses of the emulation data: an offset from their start, behind the BIOS data area.\<close>

lemma cdemu_base: "MAKE_FLATPTR sg (ebda_cdemu + k) = MAKE_FLATPTR sg ebda_cdemu + k"
  by (simp add: MAKE_FLATPTR_def)

lemma cdemu_apart:
  assumes "0x50 \<le> sg" "unat a < 0x500" "unat k < 32"
  shows "MAKE_FLATPTR sg ebda_cdemu + k \<noteq> a"
proof -
  have "unat (push_bit 4 (ucast sg) :: u32) = 16 * unat sg"
    using u16_bound [of sg] by (simp add: push_bit_eq_mult unat_word_ariths unat_ucast_fit)
  then have b: "unat (MAKE_FLATPTR sg ebda_cdemu) = 16 * unat sg + 0x12e"
    using u16_bound [of sg] by (simp add: MAKE_FLATPTR_def ebda_offsets unat_word_ariths)
  then have "unat (MAKE_FLATPTR sg ebda_cdemu + k) = 16 * unat sg + 0x12e + unat k"
    using u16_bound [of sg] assms(3) by (simp add: unat_word_ariths)
  then show ?thesis using assms by (auto simp: word_le_nat_alt)
qed

lemma set_cdemu_lchs_read:
  "ebda16 sg ebda_cdemu_heads (set_cdemu_lchs sg s c h st) = h"
  "ebda16 sg ebda_cdemu_cylinders (set_cdemu_lchs sg s c h st) = c"
  "ebda16 sg ebda_cdemu_spt (set_cdemu_lchs sg s c h st) = s"
  by (simp_all add: set_cdemu_lchs_def ebda_acc ebda_cdemu_heads_def ebda_cdemu_cylinders_def ebda_cdemu_spt_def
      cdemu_base rd16_wr16_other add.assoc)

lemma set_cdemu_lchs_frame:
  assumes "0x50 \<le> sg"
  shows "get_ebda_seg (set_cdemu_lchs sg s c h st) = get_ebda_seg st"
    "ebda8 sg ebda_cdemu_extdrive (set_cdemu_lchs sg s c h st) = ebda8 sg ebda_cdemu_extdrive st"
    "cdemu_drive_gf (set_cdemu_lchs sg s c h st) = cdemu_drive_gf st"
proof -
  note ne = cdemu_apart [OF assms, symmetric]
  show "get_ebda_seg (set_cdemu_lchs sg s c h st) = get_ebda_seg st"
    using ne [of "0x40e"] ne [of "0x40f"]
    by (simp add: set_cdemu_lchs_def ebda_acc ebda_cdemu_heads_def ebda_cdemu_cylinders_def ebda_cdemu_spt_def
        cdemu_base get_ebda_seg_def bda16_def bda_offsets rd16_def wr16_def add.assoc)
  show "ebda8 sg ebda_cdemu_extdrive (set_cdemu_lchs sg s c h st) = ebda8 sg ebda_cdemu_extdrive st"
    by (simp add: set_cdemu_lchs_def ebda_acc ebda_cdemu_heads_def ebda_cdemu_cylinders_def ebda_cdemu_spt_def
        ebda_cdemu_extdrive_def cdemu_base rd8_wr16 add.assoc)
  show "cdemu_drive_gf (set_cdemu_lchs sg s c h st) = cdemu_drive_gf st"
    by (simp add: set_cdemu_lchs_def ebda_acc)
qed

lemma set_extdrive:
  assumes "0x50 \<le> sg"
  shows "get_ebda_seg (set_ebda8 sg ebda_cdemu_extdrive v st) = get_ebda_seg st"
    "ebda8 sg ebda_cdemu_extdrive (set_ebda8 sg ebda_cdemu_extdrive v st) = v"
  using cdemu_apart [OF assms, of "0x40e" 16] cdemu_apart [OF assms, of "0x40f" 16]
  by (simp_all add: ebda_acc ebda_cdemu_extdrive_def cdemu_base get_ebda_seg_def bda16_def bda_offsets rd16_def
      wr8_def rd8_def)

lemma set_active:
  assumes "0x50 \<le> sg"
  shows "get_ebda_seg (set_ebda8 sg ebda_cdemu_active v st) = get_ebda_seg st"
    "ebda8 sg ebda_cdemu_active (set_ebda8 sg ebda_cdemu_active v st) = v"
    "ebda8 sg ebda_cdemu_extdrive (set_ebda8 sg ebda_cdemu_active v st) = ebda8 sg ebda_cdemu_extdrive st"
    "ebda16 sg ebda_cdemu_heads (set_ebda8 sg ebda_cdemu_active v st) = ebda16 sg ebda_cdemu_heads st"
    "ebda16 sg ebda_cdemu_cylinders (set_ebda8 sg ebda_cdemu_active v st) = ebda16 sg ebda_cdemu_cylinders st"
    "ebda16 sg ebda_cdemu_spt (set_ebda8 sg ebda_cdemu_active v st) = ebda16 sg ebda_cdemu_spt st"
    "cdemu_drive_gf (set_ebda8 sg ebda_cdemu_active v st) = cdemu_drive_gf st"
  using cdemu_apart [OF assms, of "0x40e" 14] cdemu_apart [OF assms, of "0x40f" 14]
  by (simp_all add: ebda_acc ebda_cdemu_extdrive_def ebda_cdemu_active_def ebda_cdemu_heads_def
      ebda_cdemu_cylinders_def ebda_cdemu_spt_def cdemu_base get_ebda_seg_def bda16_def bda_offsets rd16_def
      wr8_def rd8_def add.assoc)

lemma set_bda_extdrive:
  assumes "0x50 \<le> sg"
  shows "ebda8 sg ebda_cdemu_extdrive (set_bda16 bda_equipment_list_flags w st) = ebda8 sg ebda_cdemu_extdrive st"
    "ebda8 sg ebda_cdemu_extdrive (set_bda8 bda_hdcount v st) = ebda8 sg ebda_cdemu_extdrive st"
    "get_ebda_seg (set_bda16 bda_equipment_list_flags w st) = get_ebda_seg st"
    "get_ebda_seg (set_bda8 bda_hdcount v st) = get_ebda_seg st"
  using cdemu_apart [OF assms, of "0x410" 16] cdemu_apart [OF assms, of "0x411" 16] cdemu_apart [OF assms, of "0x475" 16]
  by (simp_all add: ebda_acc ebda_cdemu_extdrive_def cdemu_base get_ebda_seg_def bda16_def bda_offsets rd16_def
      wr8_def wr16_def rd8_def)

lemmas cdemu_fields = set_active set_cdemu_lchs_frame set_cdemu_lchs_read set_extdrive set_bda_extdrive

text \<open>A partition entry gives a geometry of INT 13h whatever its bytes are.\<close>

lemma partition_geometry:
  "int13_geometry ((push_bit 2 (ucast (x :: u8)) AND 0x300) + ucast (y :: u8) + 1) (ucast (z :: u8) + 1)
     (ucast (x AND 0x3f))"
proof -
  have u: "unat (ucast v :: u16) = unat v" for v :: u8 using u8_bound [of v] by (simp add: unat_ucast_fit)
  have "push_bit 2 (ucast x) AND 0x300 \<le> (0x300 :: u16)" by (rule word_and_le1)
  then have "unat (push_bit 2 (ucast x) AND 0x300 :: u16) \<le> 0x300" by (simp add: word_le_nat_alt)
  moreover have "x AND 0x3f \<le> (0x3f :: u8)" by (rule word_and_le1)
  then have "unat (x AND 0x3f) \<le> 0x3f" by (simp add: word_le_nat_alt)
  ultimately show ?thesis
    using u8_bound [of y] u8_bound [of z] u [of "x AND 0x3f"]
    by (simp add: int13_geometry_def unat_word_ariths u)
qed

lemma cdemu_activate_fields:
  assumes sg: "0x50 \<le> sg" "get_ebda_seg st = sg"
  shows "ebda8 sg ebda_cdemu_active (cdemu_activate sg media b st) = 1"
    "get_ebda_seg (cdemu_activate sg media b st) = sg"
    "ebda8 sg ebda_cdemu_extdrive (cdemu_activate sg media b st) = (if media < 4 then 0 else 0x80)"
    "media = 1 \<Longrightarrow> fillLCHS (cdemu_drive_gf (cdemu_activate sg media b st)) (cdemu_activate sg media b st) = (80, 2, 15)"
    "media = 2 \<Longrightarrow> fillLCHS (cdemu_drive_gf (cdemu_activate sg media b st)) (cdemu_activate sg media b st) = (80, 2, 18)"
    "media = 3 \<Longrightarrow> fillLCHS (cdemu_drive_gf (cdemu_activate sg media b st)) (cdemu_activate sg media b st) = (80, 2, 36)"
    "\<not> media < 4 \<Longrightarrow> case fillLCHS (cdemu_drive_gf (cdemu_activate sg media b st)) (cdemu_activate sg media b st) of
       (c, h, s) \<Rightarrow> int13_geometry c h s"
  using sg partition_geometry
  by (simp_all add: cdemu_activate_def Let_def cdemu_fields fillLCHS_def)

text \<open>The drive a CD emulates has a geometry of INT 13h for every medium: that of a 1.2, 1.44 or
  2.88 MB diskette as drive 00h, or, for a hard disk as drive 80h, that of the end of the first
  partition, whatever the bytes of the partition table are.\<close>

theorem emulated_geometry:
  assumes "0x50 \<le> sg" "get_ebda_seg st = sg" "media \<noteq> 0"
    and "st' = cdemu_activate sg media boot_segment st"
    and "fillLCHS (cdemu_drive_gf st') st' = (c, h, s)"
  shows "int13_geometry c h s
    \<and> ebda8 sg ebda_cdemu_active st' = 1
    \<and> (if media < 4
       then ebda8 sg ebda_cdemu_extdrive st' = 0x00 \<and> c = 80 \<and> h = 2 \<and> (s = 15 \<or> s = 18 \<or> s = 36)
       else ebda8 sg ebda_cdemu_extdrive st' = 0x80)"
proof (cases "media < 4")
  case True
  then have "media = 1 \<or> media = 2 \<or> media = 3"
    using assms(3) by (auto simp: word_less_nat_alt word_unat_eq_iff)
  then show ?thesis
    using assms(5) True cdemu_activate_fields [OF assms(1,2), of media boot_segment] unfolding assms(4)
    by (auto simp: int13_geometry_def)
next
  case False
  then show ?thesis
    using assms(5) cdemu_activate_fields [OF assms(1,2), of media boot_segment] unfolding assms(4) by simp
qed

lemma emulated_geometry_witness:
  "int13_geometry 80 2 18 \<and> ebda8 0x9fc0 ebda_cdemu_active (cdemu_activate 0x9fc0 2 0x7c0 demo_disks) = 1"
  using emulated_geometry [of "0x9fc0" demo_disks 2 _ "0x7c0", OF _ _ _ refl]
    cdemu_activate_fields(5) [of "0x9fc0" demo_disks 2 "0x7c0"] demo_disks_seg
  by simp

section \<open>Booting from a CD\<close>

text \<open>The calls into the driver of the CD leave the emulation data alone.\<close>

definition keeps_emulation :: "disk_state \<Rightarrow> disk_state \<Rightarrow> bool" where
  "keeps_emulation st st' \<longleftrightarrow> get_ebda_seg st' = get_ebda_seg st \<and>
     (\<forall>k < 32. mem st' (MAKE_FLATPTR (get_ebda_seg st) ebda_cdemu + of_nat k)
       = mem st (MAKE_FLATPTR (get_ebda_seg st) ebda_cdemu + of_nat k))"

definition cd_driver_ok :: "driver \<Rightarrow> bool" where
  "cd_driver_ok f \<longleftrightarrow> (\<forall>dop st. keeps_emulation st (snd (snd (f dop st))))"

text \<open>Writes to other fields keep the flag that says whether the emulation is active.\<close>

lemma other_fields_active:
  assumes "0x50 \<le> sg"
  shows "ebda8 sg ebda_cdemu_active (set_ebda8 sg ebda_cdemu_media v st) = ebda8 sg ebda_cdemu_active st"
    "ebda8 sg ebda_cdemu_active (set_ebda8 sg ebda_cdemu_extdrive v st) = ebda8 sg ebda_cdemu_active st"
    "ebda8 sg ebda_cdemu_active (set_ebda16 sg ebda_cdemu_load_segment w st) = ebda8 sg ebda_cdemu_active st"
    "ebda8 sg ebda_cdemu_active (set_ebda16 sg ebda_cdemu_buffer_segment w st) = ebda8 sg ebda_cdemu_active st"
    "ebda8 sg ebda_cdemu_active (set_ebda16 sg ebda_cdemu_sector_count w st) = ebda8 sg ebda_cdemu_active st"
    "ebda8 sg ebda_cdemu_active (set_ebda32 sg ebda_cdemu_ilba d st) = ebda8 sg ebda_cdemu_active st"
    "ebda8 sg ebda_cdemu_active (set_ebda32 sg ebda_cdemu_drive d st) = ebda8 sg ebda_cdemu_active st"
    "get_ebda_seg (set_ebda8 sg ebda_cdemu_media v st) = get_ebda_seg st"
    "get_ebda_seg (set_ebda8 sg ebda_cdemu_extdrive v st) = get_ebda_seg st"
    "get_ebda_seg (set_ebda16 sg ebda_cdemu_load_segment w st) = get_ebda_seg st"
    "get_ebda_seg (set_ebda16 sg ebda_cdemu_buffer_segment w st) = get_ebda_seg st"
    "get_ebda_seg (set_ebda16 sg ebda_cdemu_sector_count w st) = get_ebda_seg st"
    "get_ebda_seg (set_ebda32 sg ebda_cdemu_ilba d st) = get_ebda_seg st"
    "get_ebda_seg (set_ebda32 sg ebda_cdemu_drive d st) = get_ebda_seg st"
  using cdemu_apart [OF assms, of "0x40e"] cdemu_apart [OF assms, of "0x40f"]
    cdemu_apart [OF assms, of "0x40e" 0] cdemu_apart [OF assms, of "0x40f" 0]
  by (simp_all add: ebda_acc ebda_cdemu_media_def ebda_cdemu_extdrive_def ebda_cdemu_load_segment_def
      ebda_cdemu_buffer_segment_def ebda_cdemu_sector_count_def ebda_cdemu_ilba_def ebda_cdemu_drive_def
      ebda_cdemu_active_def cdemu_base get_ebda_seg_def bda16_def bda_offsets rd16_def wr8_def wr16_def wr32_def rd8_def
      add.assoc)

lemma keeps_emulation_active:
  "keeps_emulation st st' \<Longrightarrow> get_ebda_seg st = sg \<Longrightarrow>
   get_ebda_seg st' = sg \<and> ebda8 sg ebda_cdemu_active st' = ebda8 sg ebda_cdemu_active st"
  unfolding keeps_emulation_def ebda8_def rd8_def ebda_cdemu_active_def cdemu_base
  by (elim conjE allE [of _ 14]) simp

lemma store_catalog_active:
  assumes "0x50 \<le> sg" "store_catalog sg buffer g st = (media, bs, nb, lba, st')"
  shows "get_ebda_seg st' = get_ebda_seg st" "ebda8 sg ebda_cdemu_active st' = ebda8 sg ebda_cdemu_active st"
  using assms(2) by (auto simp: store_catalog_def Let_def other_fields_active [OF assms(1)])

text \<open>Booting from a CD activates the emulation only when it succeeds: whatever the CD holds
  and however its driver behaves, every failure (with one of the codes of El Torito) leaves the
  flag of the emulation as it was, and code 1 is given exactly when the drive has no CD number.\<close>

theorem cdrom_boot_activates_last:
  assumes "cd_driver_ok cdb_read" "\<And>dop st. keeps_emulation st (snd (ready dop st))"
    and "0x50 \<le> sg" "get_ebda_seg st = sg"
    and "cdrom_boot cdb_read ready buffer g st = (code, st')"
  shows "code \<in> {0, 1, 3, 4, 5, 7, 8, 9, 10, 11, 12, 13}
    \<and> (code = 1 \<longleftrightarrow> g = 0 \<or> getDriveId EXTTYPE_CD g st < 0)
    \<and> (ebda8 sg ebda_cdemu_active st' = ebda8 sg ebda_cdemu_active st
       \<or> code = 0 \<and> ebda8 sg ebda_cdemu_active st' = 1)"
proof -
  let ?same = "\<lambda>s. get_ebda_seg s = sg \<and> ebda8 sg ebda_cdemu_active s = ebda8 sg ebda_cdemu_active st"
  have rd: "?same s'" if "cdb_read dop s = (ret, dop', s')" "?same s" for dop s ret dop' s'
  proof -
    have "keeps_emulation s (snd (snd (cdb_read dop s)))" using assms(1) by (simp add: cd_driver_ok_def)
    then show ?thesis using keeps_emulation_active [of s s' sg] that by simp
  qed
  have ready: "?same s'" if "ready dop s = (dop', s')" "?same s" for dop s dop' s'
    using assms(2) [of s dop] keeps_emulation_active [of s s' sg] that by simp
  have check: "catalog_check m b \<in> {0, 8, 9, 10, 11}" for m b by (simp add: catalog_check_def)
  obtain dop1 st1 where r1: "ready \<lparr>op_lba = 0, op_buf_fl = 0, op_drive_g = g, op_count = 0, op_command = 0\<rparr> st = (dop1, st1)"
    by fastforce
  have s1: "?same st1" using ready [OF r1] assms(4) by simp
  obtain ret2 dop2 st2 where r2: "cdb_read (dop1\<lparr>op_lba := 0x11, op_count := 1, op_buf_fl := buffer\<rparr>) st1 = (ret2, dop2, st2)"
    by (metis prod_cases3)
  have s2: "?same st2" by (rule rd [OF r2 s1])
  obtain ret3 dop3 st3 where r3: "cdb_read (dop2\<lparr>op_lba := ucast (rd32 (mem st2) (buffer + 0x47)), op_count := 1\<rparr>) st2 = (ret3, dop3, st3)"
    by (metis prod_cases3)
  have s3: "?same st3" by (rule rd [OF r3 s2])
  obtain media bs nb lba st4 where f: "store_catalog sg buffer (op_drive_g dop3) st3 = (media, bs, nb, lba, st4)"
    by (metis prod_cases5)
  have s4: "?same st4" using store_catalog_active [OF assms(3) f] s3 by simp
  obtain ret5 dop5 st5 where r5: "cdb_read (dop3\<lparr>op_lba := ucast lba, op_count := of_nat ((unat nb + 3) div 4),
      op_buf_fl := MAKE_FLATPTR bs 0\<rparr>) st4 = (ret5, dop5, st5)"
    by (metis prod_cases3)
  have s5: "?same st5" by (rule rd [OF r5 s4])
  have result: "cdrom_boot cdb_read ready buffer g st =
    (if g = 0 \<or> getDriveId EXTTYPE_CD g st < 0 then (1, st)
     else if ret2 \<noteq> 0 then (3, st2) else if rd8 (mem st2) buffer \<noteq> 0 then (4, st2)
     else if \<not> str_at (mem st2) (buffer + 1) eltorito_id then (5, st2)
     else if ret3 \<noteq> 0 then (7, st3)
     else if catalog_check (mem st3) buffer \<noteq> 0 then (catalog_check (mem st3) buffer, st3)
     else if ret5 \<noteq> 0 then (12, st5)
     else if media = 0 then (0, set_ebda8 sg ebda_cdemu_extdrive (EXTSTART_CD + word_of_int (getDriveId EXTTYPE_CD g st)) st5)
     else if cdemu_drive_gf st5 = 0 then (13, st5)
     else (0, cdemu_activate sg media bs st5))"
    using f s3 r5 by (simp add: cdrom_boot_def Let_def r1 r2 r3)
  show ?thesis
    using assms(5) check [of "mem st3" buffer] s2 s3 s5 assms(4)
      other_fields_active(2) [OF assms(3), of "EXTSTART_CD + word_of_int (getDriveId EXTTYPE_CD g st)" st5]
      cdemu_activate_fields(1) [OF assms(3), of st5 media bs]
    unfolding result by (auto split: if_splits)
qed

text \<open>For the witness: a driver that never reads anything, on the machine without a CD.\<close>

lemma cdrom_boot_activates_last_witness:
  "fst (cdrom_boot (\<lambda>dop st. (0x20, dop, st)) (\<lambda>dop st. (dop, st)) 0x7000 0x1000 demo_disks) = 1
   \<and> ebda8 0x9fc0 ebda_cdemu_active (snd (cdrom_boot (\<lambda>dop st. (0x20, dop, st)) (\<lambda>dop st. (dop, st)) 0x7000 0x1000 demo_disks))
     = ebda8 0x9fc0 ebda_cdemu_active demo_disks"
proof -
  have k: "keeps_emulation st st" for st by (simp add: keeps_emulation_def)
  have none: "getDriveId EXTTYPE_CD 0x1000 demo_disks < 0"
    unfolding getDriveId_def
    by (subst getDriveId_from_spec) (auto simp: getDrive_def demo_disks_def CONFIG_MAX_EXTDRIVE_def split: if_splits)
  obtain code st' where r: "cdrom_boot (\<lambda>dop st. (0x20, dop, st)) (\<lambda>dop st. (dop, st)) 0x7000 0x1000 demo_disks = (code, st')"
    by fastforce
  show ?thesis
    using cdrom_boot_activates_last [OF _ _ _ demo_disks_seg r] k none unfolding r
    by (auto simp: cd_driver_ok_def)
qed

end
