(* ===== verification/Clock.thy ===== *)
theory Clock
  imports Block
begin

text \<open>
  The clocks of \<open>src/clock.c\<close>: the CPU time stamp counter, the timer tick of INT 08h, the real
  time clock in the CMOS, the services of INT 1Ah and the user timers of INT 15h. The state adds
  the calibrated CPU speed and the number of reads of the time stamp counter; what the counter
  shows at its \<open>n\<close>-th read is the parameter \<open>tsc\<close>. A loop that waits for the hardware gives \<open>None\<close>
  when it never ends. Parameters, in the record \<open>clock_env\<close>: the other threads (\<open>yield\<close>,
  \<open>check_preempt\<close>), waiting for an interrupt, the calls into the floppy and USB drivers and to the
  software interrupts 1Ch and 4Ah, the PCI services and the addresses of the interrupt entries.
\<close>

record clock_state = machine +
  cpu_khz :: u32
  tsc_reads :: nat

record clock_env =
  tsc :: "nat \<Rightarrow> u64"
  yield :: "clock_state \<Rightarrow> clock_state"
  check_preempt :: "clock_state \<Rightarrow> clock_state"
  wait_irq :: "clock_state \<Rightarrow> clock_state"
  floppy_tick :: "clock_state \<Rightarrow> clock_state"
  usb_check_event :: "clock_state \<Rightarrow> clock_state"
  call16_simpint :: "u8 \<Rightarrow> clock_state \<Rightarrow> clock_state"
  handle_1ab1 :: "bregs \<Rightarrow> clock_state \<Rightarrow> bregs \<times> clock_state"
  entry_08 :: u16
  entry_70 :: u16
  stack_seg :: u16
  statusflag_ofs :: u16

section \<open>Constants\<close>

definition CONFIG_COREBOOT :: bool where "CONFIG_COREBOOT = False"

definition RTC_A_UIP :: u8 where "RTC_A_UIP = 0x80"
definition RTC_B_SET :: u8 where "RTC_B_SET = 0x80"
definition RTC_B_PIE :: u8 where "RTC_B_PIE = 0x40"
definition RTC_B_AIE :: u8 where "RTC_B_AIE = 0x20"
definition RTC_B_24HR :: u8 where "RTC_B_24HR = 0x02"
definition RTC_B_DSE :: u8 where "RTC_B_DSE = 0x01"

lemmas rtc_bits = RTC_A_UIP_def RTC_B_SET_def RTC_B_PIE_def RTC_B_AIE_def RTC_B_24HR_def RTC_B_DSE_def

definition PPCB_T2GATE :: u8 where "PPCB_T2GATE = 1"
definition PPCB_SPKR :: u8 where "PPCB_SPKR = 2"
definition PPCB_T2OUT :: u8 where "PPCB_T2OUT = 0x20"

definition PM_SEL_TIMER0 :: u8 where "PM_SEL_TIMER0 = 0"
definition PM_SEL_TIMER2 :: u8 where "PM_SEL_TIMER2 = 0x80"
definition PM_ACCESS_WORD :: u8 where "PM_ACCESS_WORD = 0x30"
definition PM_MODE0 :: u8 where "PM_MODE0 = 0"
definition PM_MODE2 :: u8 where "PM_MODE2 = 4"
definition PM_CNT_BINARY :: u8 where "PM_CNT_BINARY = 0"

definition PORT_PIT_COUNTER0 :: u16 where "PORT_PIT_COUNTER0 = 0x40"
definition PORT_PIT_COUNTER2 :: u16 where "PORT_PIT_COUNTER2 = 0x42"
definition PORT_PIT_MODE :: u16 where "PORT_PIT_MODE = 0x43"
definition PORT_PS2_CTRLB :: u16 where "PORT_PS2_CTRLB = 0x61"
definition PORT_PIC1_CMD :: u16 where "PORT_PIC1_CMD = 0x20"
definition PORT_PIC1_DATA :: u16 where "PORT_PIC1_DATA = 0x21"
definition PORT_PIC2_CMD :: u16 where "PORT_PIC2_CMD = 0xa0"
definition PORT_PIC2_DATA :: u16 where "PORT_PIC2_DATA = 0xa1"

definition CMOS_RTC_SECONDS :: u8 where "CMOS_RTC_SECONDS = 0x00"
definition CMOS_RTC_SECONDS_ALARM :: u8 where "CMOS_RTC_SECONDS_ALARM = 0x01"
definition CMOS_RTC_MINUTES :: u8 where "CMOS_RTC_MINUTES = 0x02"
definition CMOS_RTC_MINUTES_ALARM :: u8 where "CMOS_RTC_MINUTES_ALARM = 0x03"
definition CMOS_RTC_HOURS :: u8 where "CMOS_RTC_HOURS = 0x04"
definition CMOS_RTC_HOURS_ALARM :: u8 where "CMOS_RTC_HOURS_ALARM = 0x05"
definition CMOS_RTC_DAY_MONTH :: u8 where "CMOS_RTC_DAY_MONTH = 0x07"
definition CMOS_RTC_MONTH :: u8 where "CMOS_RTC_MONTH = 0x08"
definition CMOS_RTC_YEAR :: u8 where "CMOS_RTC_YEAR = 0x09"
definition CMOS_STATUS_A :: u8 where "CMOS_STATUS_A = 0x0a"
definition CMOS_STATUS_B :: u8 where "CMOS_STATUS_B = 0x0b"
definition CMOS_STATUS_C :: u8 where "CMOS_STATUS_C = 0x0c"
definition CMOS_STATUS_D :: u8 where "CMOS_STATUS_D = 0x0d"
definition CMOS_CENTURY :: u8 where "CMOS_CENTURY = 0x32"

lemmas cmos_regs = CMOS_RTC_SECONDS_def CMOS_RTC_SECONDS_ALARM_def CMOS_RTC_MINUTES_def
  CMOS_RTC_MINUTES_ALARM_def CMOS_RTC_HOURS_def CMOS_RTC_HOURS_ALARM_def CMOS_RTC_DAY_MONTH_def
  CMOS_RTC_MONTH_def CMOS_RTC_YEAR_def CMOS_STATUS_A_def CMOS_STATUS_B_def CMOS_STATUS_C_def
  CMOS_STATUS_D_def CMOS_CENTURY_def

definition PIT_TICK_RATE :: u64 where "PIT_TICK_RATE = 1193180"
definition PIT_TICK_INTERVAL :: u64 where "PIT_TICK_INTERVAL = 65536"
definition CALIBRATE_COUNT :: u64 where "CALIBRATE_COUNT = 0x800"
definition TICKS_PER_DAY :: u32 where
  "TICKS_PER_DAY = ucast (60 * 60 * 24 * PIT_TICK_RATE div PIT_TICK_INTERVAL)"
definition USEC_PER_RTC :: u32 where "USEC_PER_RTC = (1000000 + 1024 div 2) div 1024"

lemma TICKS_PER_DAY_eq: "TICKS_PER_DAY = 1573040"
  by (simp add: TICKS_PER_DAY_def PIT_TICK_RATE_def PIT_TICK_INTERVAL_def)

lemma USEC_PER_RTC_eq: "USEC_PER_RTC = 977"
  by (simp add: USEC_PER_RTC_def)

definition bda_user_wait_complete_flag :: u32 where "bda_user_wait_complete_flag = 0x98"
definition bda_user_wait_timeout :: u32 where "bda_user_wait_timeout = 0x9c"
definition bda_rtc_wait_flag :: u32 where "bda_rtc_wait_flag = 0xa0"
definition RWS_WAIT_PENDING :: u8 where "RWS_WAIT_PENDING = 1"
definition ebda_RTCusers :: u32 where "ebda_RTCusers = 0x12a"
definition RET_ECLOCKINUSE :: u8 where "RET_ECLOCKINUSE = 0x83"

lemmas clock_cells = bda_user_wait_complete_flag_def bda_user_wait_timeout_def bda_rtc_wait_flag_def
  bda_timer_counter_def bda_timer_rollover_def

definition bda32 :: "u32 \<Rightarrow> 'a machine_scheme \<Rightarrow> u32" where
  "bda32 off st = rd32 (mem st) (BDA off)"

definition set_bda32 :: "u32 \<Rightarrow> u32 \<Rightarrow> 'a machine_scheme \<Rightarrow> 'a machine_scheme" where
  "set_bda32 off v st = st\<lparr>mem := wr32 (BDA off) v (mem st)\<rparr>"

section \<open>The interrupt controller\<close>

definition PIC1_IRQ2 :: u8 where "PIC1_IRQ2 = 4"

definition eoi_pic1 :: "'a machine_scheme \<Rightarrow> 'a machine_scheme" where
  "eoi_pic1 st = outb 0x20 PORT_PIC1_CMD st"

definition eoi_pic2 :: "'a machine_scheme \<Rightarrow> 'a machine_scheme" where
  "eoi_pic2 st = eoi_pic1 (outb 0x20 PORT_PIC2_CMD st)"

definition unmask_pic1 :: "u8 \<Rightarrow> 'a machine_scheme \<Rightarrow> 'a machine_scheme" where
  "unmask_pic1 i st = (case inb PORT_PIC1_DATA st of (v, st) \<Rightarrow> outb (v AND NOT i) PORT_PIC1_DATA st)"

definition unmask_pic2 :: "u8 \<Rightarrow> 'a machine_scheme \<Rightarrow> 'a machine_scheme" where
  "unmask_pic2 i st = (case inb PORT_PIC2_DATA st of (v, st) \<Rightarrow> outb (v AND NOT i) PORT_PIC2_DATA st)"

definition mask_pic1 :: "u8 \<Rightarrow> 'a machine_scheme \<Rightarrow> 'a machine_scheme" where
  "mask_pic1 i st = (case inb PORT_PIC1_DATA st of (v, st) \<Rightarrow> outb (v OR i) PORT_PIC1_DATA st)"

definition mask_pic2 :: "u8 \<Rightarrow> 'a machine_scheme \<Rightarrow> 'a machine_scheme" where
  "mask_pic2 i st = (case inb PORT_PIC2_DATA st of (v, st) \<Rightarrow> outb (v OR i) PORT_PIC2_DATA st)"

definition get_pic1_isr :: "'a machine_scheme \<Rightarrow> u8 \<times> 'a machine_scheme" where
  "get_pic1_isr st = inb PORT_PIC1_CMD (outb 0x0b PORT_PIC1_CMD st)"

definition get_pic2_isr :: "'a machine_scheme \<Rightarrow> u8 \<times> 'a machine_scheme" where
  "get_pic2_isr st = inb PORT_PIC2_CMD (outb 0x0b PORT_PIC2_CMD st)"

definition set_pics :: "u8 \<Rightarrow> u8 \<Rightarrow> 'a machine_scheme \<Rightarrow> 'a machine_scheme" where
  "set_pics irq0 irq8 st =
     (let st = outb 0x11 PORT_PIC1_CMD st;
          st = outb 0x11 PORT_PIC2_CMD st;
          st = outb irq0 PORT_PIC1_DATA st;
          st = outb irq8 PORT_PIC2_DATA st;
          st = outb 0x04 PORT_PIC1_DATA st;
          st = outb 0x02 PORT_PIC2_DATA st;
          st = outb 0x01 PORT_PIC1_DATA st;
          st = outb 0x01 PORT_PIC2_DATA st;
          st = outb (NOT PIC1_IRQ2) PORT_PIC1_DATA st in
      outb (NOT 0) PORT_PIC2_DATA st)"

definition pic_setup :: "'a machine_scheme \<Rightarrow> 'a machine_scheme" where
  "pic_setup st = set_pics 0x08 0x70 st"

definition enable_hwirq :: "nat \<Rightarrow> u32 \<Rightarrow> 'a machine_scheme \<Rightarrow> 'a machine_scheme" where
  "enable_hwirq hwirq func st =
     (if hwirq < 8 then SET_IVT (of_nat (0x08 + hwirq)) func (unmask_pic1 (push_bit hwirq 1) st)
      else SET_IVT (of_nat (0x70 + hwirq - 8)) func (unmask_pic2 (push_bit (hwirq - 8) 1) st))"

section \<open>The time stamp counter\<close>

definition rdtscll :: "clock_env \<Rightarrow> clock_state \<Rightarrow> u64 \<times> clock_state" where
  "rdtscll e st = (tsc e (tsc_reads st), st\<lparr>tsc_reads := tsc_reads st + 1\<rparr>)"

definition check_tsc :: "clock_env \<Rightarrow> u64 \<Rightarrow> clock_state \<Rightarrow> bool \<times> clock_state" where
  "check_tsc e endt st = (case rdtscll e st of (t, st) \<Rightarrow> (0 < sint (t - endt), st))"

partial_function (option) wait_t2out :: "clock_state \<Rightarrow> clock_state option" where
  "wait_t2out st = (case inb PORT_PS2_CTRLB st of (v, st) \<Rightarrow>
     if v AND PPCB_T2OUT = 0 then wait_t2out st else Some st)"

declare wait_t2out.simps [code]

definition calibrate_tsc :: "clock_env \<Rightarrow> clock_state \<Rightarrow> clock_state option" where
  "calibrate_tsc e st =
     (case inb PORT_PS2_CTRLB st of (orig, st) \<Rightarrow>
       let st = outb ((orig AND NOT PPCB_SPKR) OR PPCB_T2GATE) PORT_PS2_CTRLB st;
           st = outb (PM_SEL_TIMER2 OR PM_ACCESS_WORD OR PM_MODE0 OR PM_CNT_BINARY) PORT_PIT_MODE st;
           st = outb (ucast (CALIBRATE_COUNT AND 0xff)) PORT_PIT_COUNTER2 st;
           st = outb (ucast (drop_bit 8 CALIBRATE_COUNT)) PORT_PIT_COUNTER2 st in
       case rdtscll e st of (start, st) \<Rightarrow>
       case wait_t2out st of None \<Rightarrow> None | Some st \<Rightarrow>
       case rdtscll e st of (endt, st) \<Rightarrow>
       let st = outb orig PORT_PS2_CTRLB st;
           hz = ucast ((endt - start) * PIT_TICK_RATE div CALIBRATE_COUNT) :: u32 in
       Some (st\<lparr>cpu_khz := hz div 1000\<rparr>))"

partial_function (option) tsc_loop ::
  "clock_env \<Rightarrow> (clock_state \<Rightarrow> clock_state) \<Rightarrow> u64 \<Rightarrow> clock_state \<Rightarrow> clock_state option" where
  "tsc_loop e idle endt st = (case check_tsc e endt st of (passed, st) \<Rightarrow>
     if passed then Some st else tsc_loop e idle endt (idle st))"

declare tsc_loop.simps [code]

definition tscdelay :: "clock_env \<Rightarrow> u64 \<Rightarrow> clock_state \<Rightarrow> clock_state option" where
  "tscdelay e diff st = (case rdtscll e st of (start, st) \<Rightarrow> tsc_loop e (\<lambda>st. st) (start + diff) st)"

definition tscsleep :: "clock_env \<Rightarrow> u64 \<Rightarrow> clock_state \<Rightarrow> clock_state option" where
  "tscsleep e diff st = (case rdtscll e st of (start, st) \<Rightarrow> tsc_loop e (yield e) (start + diff) st)"

text \<open>The products are of type \<open>u32\<close>.\<close>

definition ndelay :: "clock_env \<Rightarrow> u32 \<Rightarrow> clock_state \<Rightarrow> clock_state option" where
  "ndelay e count st = tscdelay e (ucast (count * cpu_khz st div 1000000)) st"

definition udelay :: "clock_env \<Rightarrow> u32 \<Rightarrow> clock_state \<Rightarrow> clock_state option" where
  "udelay e count st = tscdelay e (ucast (count * cpu_khz st div 1000)) st"

definition mdelay :: "clock_env \<Rightarrow> u32 \<Rightarrow> clock_state \<Rightarrow> clock_state option" where
  "mdelay e count st = tscdelay e (ucast (count * cpu_khz st)) st"

definition nsleep :: "clock_env \<Rightarrow> u32 \<Rightarrow> clock_state \<Rightarrow> clock_state option" where
  "nsleep e count st = tscsleep e (ucast (count * cpu_khz st div 1000000)) st"

definition usleep :: "clock_env \<Rightarrow> u32 \<Rightarrow> clock_state \<Rightarrow> clock_state option" where
  "usleep e count st = tscsleep e (ucast (count * cpu_khz st div 1000)) st"

definition msleep :: "clock_env \<Rightarrow> u32 \<Rightarrow> clock_state \<Rightarrow> clock_state option" where
  "msleep e count st = tscsleep e (ucast (count * cpu_khz st)) st"

definition calc_future_tsc :: "clock_env \<Rightarrow> u32 \<Rightarrow> clock_state \<Rightarrow> u64 \<times> clock_state" where
  "calc_future_tsc e msecs st =
     (case rdtscll e st of (t, st) \<Rightarrow> (t + ucast (cpu_khz st) * ucast msecs, st))"

definition calc_future_tsc_usec :: "clock_env \<Rightarrow> u32 \<Rightarrow> clock_state \<Rightarrow> u64 \<times> clock_state" where
  "calc_future_tsc_usec e usecs st =
     (case rdtscll e st of (t, st) \<Rightarrow> (t + ucast (cpu_khz st div 1000) * ucast usecs, st))"

section \<open>Setting up the clocks\<close>

text \<open>The flag of \<open>rtc_updating\<close> is its result: \<open>True\<close> is -1, the update did not end in time.\<close>

partial_function (option) rtc_wait ::
  "clock_env \<Rightarrow> u64 \<Rightarrow> clock_state \<Rightarrow> (bool \<times> clock_state) option" where
  "rtc_wait e endt st = (case inb_cmos CMOS_STATUS_A st of (a, st) \<Rightarrow>
     if a AND RTC_A_UIP = 0 then Some (False, st)
     else case check_tsc e endt st of (passed, st) \<Rightarrow>
       if passed then Some (True, st) else rtc_wait e endt (yield e st))"

declare rtc_wait.simps [code]

definition rtc_updating :: "clock_env \<Rightarrow> clock_state \<Rightarrow> (bool \<times> clock_state) option" where
  "rtc_updating e st = (case inb_cmos CMOS_STATUS_A st of (a, st) \<Rightarrow>
     if a AND RTC_A_UIP = 0 then Some (False, st)
     else case calc_future_tsc e 15 st of (endt, st) \<Rightarrow> rtc_wait e endt st)"

definition pit_setup :: "clock_state \<Rightarrow> clock_state" where
  "pit_setup st =
     (let st = outb (PM_SEL_TIMER0 OR PM_ACCESS_WORD OR PM_MODE2 OR PM_CNT_BINARY) PORT_PIT_MODE st;
          st = outb 0 PORT_PIT_COUNTER0 st in
      outb 0 PORT_PIT_COUNTER0 st)"

definition init_rtc :: "clock_state \<Rightarrow> clock_state" where
  "init_rtc st =
     (case inb_cmos CMOS_STATUS_B (outb_cmos 0x26 CMOS_STATUS_A st) of (regB, st) \<Rightarrow>
      let st = outb_cmos ((regB AND RTC_B_DSE) OR RTC_B_24HR) CMOS_STATUS_B st;
          st = snd (inb_cmos CMOS_STATUS_C st) in
      snd (inb_cmos CMOS_STATUS_D st))"

definition bcd2bin :: "u8 \<Rightarrow> u32" where
  "bcd2bin val = ucast (val AND 0xf) + ucast (drop_bit 4 val) * 10"

definition timer_setup :: "clock_env \<Rightarrow> clock_state \<Rightarrow> clock_state option" where
  "timer_setup e st =
     (case calibrate_tsc e st of None \<Rightarrow> None | Some st \<Rightarrow>
      case rtc_updating e (init_rtc (pit_setup st)) of None \<Rightarrow> None | Some (_, st) \<Rightarrow>
      case inb_cmos CMOS_RTC_SECONDS st of (s, st) \<Rightarrow>
      case inb_cmos CMOS_RTC_MINUTES st of (m, st) \<Rightarrow>
      case inb_cmos CMOS_RTC_HOURS st of (h, st) \<Rightarrow>
      let ticks = (bcd2bin h * 60 + bcd2bin m) * 60 + bcd2bin s;
          ticks = ucast (ucast ticks * PIT_TICK_RATE div PIT_TICK_INTERVAL);
          st = set_bda32 bda_timer_counter ticks st;
          st = enable_hwirq 0 (SEGOFF SEG_BIOS (entry_08 e)) st in
      Some (enable_hwirq 8 (SEGOFF SEG_BIOS (entry_70 e)) st))"

section \<open>The tick counter\<close>

definition DIV_ROUND_UP :: "'a::len word \<Rightarrow> 'a word \<Rightarrow> 'a word" where
  "DIV_ROUND_UP n d = (n + d - 1) div d"

definition calc_future_timer_ticks :: "u32 \<Rightarrow> clock_state \<Rightarrow> u32" where
  "calc_future_timer_ticks count st = (bda32 bda_timer_counter st + count + 1) mod TICKS_PER_DAY"

definition calc_future_timer :: "u32 \<Rightarrow> clock_state \<Rightarrow> u32" where
  "calc_future_timer msecs st =
     (if msecs = 0 then bda32 bda_timer_counter st
      else let kticks = ucast (DIV_ROUND_UP (ucast msecs * PIT_TICK_RATE) PIT_TICK_INTERVAL) :: u32;
               ticks = DIV_ROUND_UP kticks 1000 in
           calc_future_timer_ticks ticks st)"

definition check_timer :: "u32 \<Rightarrow> clock_state \<Rightarrow> bool" where
  "check_timer endt st \<longleftrightarrow>
     (bda32 bda_timer_counter st + TICKS_PER_DAY - endt) mod TICKS_PER_DAY < TICKS_PER_DAY div 2"

definition handle_08 :: "clock_env \<Rightarrow> clock_state \<Rightarrow> clock_state" where
  "handle_08 e st =
     (let st = floppy_tick e st;
          counter = bda32 bda_timer_counter st + 1;
          (counter, st) = (if counter \<ge> TICKS_PER_DAY
            then (0, set_bda8 bda_timer_rollover (bda8 bda_timer_rollover st + 1) st)
            else (counter, st));
          st = set_bda32 bda_timer_counter counter st;
          st = usb_check_event e st;
          st = call16_simpint e 0x1c st in
      eoi_pic1 st)"

section \<open>The services of INT 1Ah\<close>

definition CXDX :: "bregs \<Rightarrow> u32" where
  "CXDX r = push_bit 16 (ucast (CX r)) OR ucast (DX r)"

type_synonym clock_result = "(bregs \<times> clock_state) option"

definition handle_1a00 :: "clock_env \<Rightarrow> bregs \<Rightarrow> clock_state \<Rightarrow> bregs \<times> clock_state" where
  "handle_1a00 e r st =
     (let st = yield e st;
          ticks = bda32 bda_timer_counter st;
          r = set_cx (ucast (drop_bit 16 ticks)) r;
          r = set_dx (ucast ticks) r;
          r = set_al (bda8 bda_timer_rollover st) r;
          st = set_bda8 bda_timer_rollover 0 st in
      (set_success r, st))"

definition handle_1a01 :: "bregs \<Rightarrow> clock_state \<Rightarrow> bregs \<times> clock_state" where
  "handle_1a01 r st =
     (let st = set_bda32 bda_timer_counter (CXDX r) st;
          st = set_bda8 bda_timer_rollover 0 st in
      (set_success (set_ah 0 r), st))"

definition handle_1a02 :: "clock_env \<Rightarrow> bregs \<Rightarrow> clock_state \<Rightarrow> clock_result" where
  "handle_1a02 e r st = (case rtc_updating e st of None \<Rightarrow> None | Some (busy, st) \<Rightarrow>
     if busy then Some (set_invalid_silent r, st)
     else
       case inb_cmos CMOS_RTC_SECONDS st of (s, st) \<Rightarrow>
       case inb_cmos CMOS_RTC_MINUTES st of (m, st) \<Rightarrow>
       case inb_cmos CMOS_RTC_HOURS st of (h, st) \<Rightarrow>
       case inb_cmos CMOS_STATUS_B st of (b, st) \<Rightarrow>
       let r = set_dl (b AND RTC_B_DSE) (set_ch h (set_cl m (set_dh s r)));
           r = set_al (CH r) (set_ah 0 r) in
       Some (set_success r, st))"

definition handle_1a03 :: "clock_env \<Rightarrow> bregs \<Rightarrow> clock_state \<Rightarrow> clock_result" where
  "handle_1a03 e r st = (case rtc_updating e st of None \<Rightarrow> None | Some (busy, st) \<Rightarrow>
     let st = (if busy then init_rtc st else st);
         st = outb_cmos (DH r) CMOS_RTC_SECONDS st;
         st = outb_cmos (CL r) CMOS_RTC_MINUTES st;
         st = outb_cmos (CH r) CMOS_RTC_HOURS st in
     case inb_cmos CMOS_STATUS_B st of (b, st) \<Rightarrow>
     let val8 = (b AND (RTC_B_PIE OR RTC_B_AIE)) OR (RTC_B_24HR OR (DL r AND RTC_B_DSE));
         st = outb_cmos val8 CMOS_STATUS_B st;
         r = set_al val8 (set_ah 0 r) in
     Some (set_success r, st))"

definition handle_1a04 :: "clock_env \<Rightarrow> bregs \<Rightarrow> clock_state \<Rightarrow> clock_result" where
  "handle_1a04 e r st = (let r = set_ah 0 r in
     case rtc_updating e st of None \<Rightarrow> None | Some (busy, st) \<Rightarrow>
     if busy then Some (set_invalid_silent r, st)
     else
       case inb_cmos CMOS_RTC_YEAR st of (y, st) \<Rightarrow>
       case inb_cmos CMOS_RTC_MONTH st of (m, st) \<Rightarrow>
       case inb_cmos CMOS_RTC_DAY_MONTH st of (d, st) \<Rightarrow>
       case (if CONFIG_COREBOOT then (if y > 0x80 then 0x19 else 0x20, st)
             else inb_cmos CMOS_CENTURY st) of (c, st) \<Rightarrow>
       let r = set_ch c (set_dl d (set_dh m (set_cl y r)));
           r = set_al (CH r) r in
       Some (set_success r, st))"

definition handle_1a05 :: "clock_env \<Rightarrow> bregs \<Rightarrow> clock_state \<Rightarrow> clock_result" where
  "handle_1a05 e r st = (case rtc_updating e st of None \<Rightarrow> None | Some (busy, st) \<Rightarrow>
     if busy then Some (set_invalid_silent r, init_rtc st)
     else
       let st = outb_cmos (CL r) CMOS_RTC_YEAR st;
           st = outb_cmos (DH r) CMOS_RTC_MONTH st;
           st = outb_cmos (DL r) CMOS_RTC_DAY_MONTH st;
           st = (if \<not> CONFIG_COREBOOT then outb_cmos (CH r) CMOS_CENTURY st else st) in
       case inb_cmos CMOS_STATUS_B st of (b, st) \<Rightarrow>
       let val8 = b AND NOT RTC_B_SET;
           st = outb_cmos val8 CMOS_STATUS_B st;
           r = set_al val8 (set_ah 0 r) in
       Some (set_success r, st))"

definition handle_1a06 :: "clock_env \<Rightarrow> bregs \<Rightarrow> clock_state \<Rightarrow> clock_result" where
  "handle_1a06 e r st = (case inb_cmos CMOS_STATUS_B st of (val8, st) \<Rightarrow>
     let r = set_ax 0 r in
     if val8 AND RTC_B_AIE \<noteq> 0 then Some (set_invalid_silent r, st)
     else case rtc_updating e st of None \<Rightarrow> None | Some (busy, st) \<Rightarrow>
       let st = (if busy then init_rtc st else st);
           st = outb_cmos (DH r) CMOS_RTC_SECONDS_ALARM st;
           st = outb_cmos (CL r) CMOS_RTC_MINUTES_ALARM st;
           st = outb_cmos (CH r) CMOS_RTC_HOURS_ALARM st;
           st = outb_cmos ((val8 AND NOT RTC_B_SET) OR RTC_B_AIE) CMOS_STATUS_B st in
       Some (set_success r, st))"

definition handle_1a07 :: "bregs \<Rightarrow> clock_state \<Rightarrow> bregs \<times> clock_state" where
  "handle_1a07 r st = (case inb_cmos CMOS_STATUS_B st of (val8, st) \<Rightarrow>
     let st = outb_cmos (val8 AND NOT (RTC_B_SET OR RTC_B_AIE)) CMOS_STATUS_B st;
         r = set_al val8 (set_ah 0 r) in
     (set_success r, st))"

definition handle_1aXX :: "bregs \<Rightarrow> clock_state \<Rightarrow> bregs \<times> clock_state" where
  "handle_1aXX r st = (set_invalid_silent r, st)"

definition handle_1a :: "clock_env \<Rightarrow> bregs \<Rightarrow> clock_state \<Rightarrow> clock_result" where
  "handle_1a e r st =
     (if AH r = 0x00 then Some (handle_1a00 e r st)
      else if AH r = 0x01 then Some (handle_1a01 r st)
      else if AH r = 0x02 then handle_1a02 e r st
      else if AH r = 0x03 then handle_1a03 e r st
      else if AH r = 0x04 then handle_1a04 e r st
      else if AH r = 0x05 then handle_1a05 e r st
      else if AH r = 0x06 then handle_1a06 e r st
      else if AH r = 0x07 then Some (handle_1a07 r st)
      else if AH r = 0xb1 then Some (handle_1ab1 e r st)
      else Some (handle_1aXX r st))"

section \<open>The periodic interrupt and user timers\<close>

definition useRTC :: "clock_state \<Rightarrow> clock_state" where
  "useRTC st =
     (let ebda_seg = get_ebda_seg st;
          count = ebda32 ebda_seg ebda_RTCusers st;
          st = set_ebda32 ebda_seg ebda_RTCusers (count + 1) st in
      if count \<noteq> 0 then st
      else case inb_cmos CMOS_STATUS_B st of (b, st) \<Rightarrow> outb_cmos (b OR RTC_B_PIE) CMOS_STATUS_B st)"

definition releaseRTC :: "clock_state \<Rightarrow> clock_state" where
  "releaseRTC st =
     (let ebda_seg = get_ebda_seg st;
          count = ebda32 ebda_seg ebda_RTCusers st;
          st = set_ebda32 ebda_seg ebda_RTCusers (count - 1) st in
      if count \<noteq> 1 then st
      else case inb_cmos CMOS_STATUS_B st of (b, st) \<Rightarrow> outb_cmos (b AND NOT RTC_B_PIE) CMOS_STATUS_B st)"

text \<open>The flag of \<open>set_usertimer\<close> is its result: \<open>False\<close> is -1, a timer is already pending.\<close>

definition set_usertimer :: "u32 \<Rightarrow> u16 \<Rightarrow> u16 \<Rightarrow> clock_state \<Rightarrow> bool \<times> clock_state" where
  "set_usertimer usecs sg offset st =
     (if bda8 bda_rtc_wait_flag st AND RWS_WAIT_PENDING \<noteq> 0 then (False, st)
      else let st = set_bda8 bda_rtc_wait_flag RWS_WAIT_PENDING st;
               st = set_bda32 bda_user_wait_complete_flag (SEGOFF sg offset) st;
               st = set_bda32 bda_user_wait_timeout usecs st in
           (True, useRTC st))"

definition clear_usertimer :: "clock_state \<Rightarrow> clock_state" where
  "clear_usertimer st =
     (if bda8 bda_rtc_wait_flag st AND RWS_WAIT_PENDING = 0 then st
      else releaseRTC (set_bda8 bda_rtc_wait_flag 0 st))"

definition statusflag_ptr :: "clock_env \<Rightarrow> u32" where
  "statusflag_ptr e = MAKE_FLATPTR (stack_seg e) (ucast (statusflag_ofs e))"

partial_function (option) wait_flag :: "clock_env \<Rightarrow> clock_state \<Rightarrow> clock_state option" where
  "wait_flag e st =
     (if rd8 (mem st) (statusflag_ptr e) \<noteq> 0 then Some st else wait_flag e (wait_irq e st))"

declare wait_flag.simps [code]

definition handle_1586 :: "clock_env \<Rightarrow> bregs \<Rightarrow> clock_state \<Rightarrow> clock_result" where
  "handle_1586 e r st =
     (let st = st\<lparr>mem := wr8 (statusflag_ptr e) 0 (mem st)\<rparr> in
      case set_usertimer (CXDX r) (stack_seg e) (statusflag_ofs e) st of (ok, st) \<Rightarrow>
      if \<not> ok then Some (set_code_invalid_silent RET_ECLOCKINUSE r, st)
      else case wait_flag e st of None \<Rightarrow> None | Some st \<Rightarrow> Some (set_success r, st))"

definition handle_158300 :: "bregs \<Rightarrow> clock_state \<Rightarrow> bregs \<times> clock_state" where
  "handle_158300 r st = (case set_usertimer (CXDX r) (r_es r) (BX r) st of (ok, st) \<Rightarrow>
     (if \<not> ok then set_code_invalid_silent RET_EUNSUPPORTED r else set_success r, st))"

definition handle_158301 :: "bregs \<Rightarrow> clock_state \<Rightarrow> bregs \<times> clock_state" where
  "handle_158301 r st = (set_success r, clear_usertimer st)"

definition handle_1583XX :: "bregs \<Rightarrow> clock_state \<Rightarrow> bregs \<times> clock_state" where
  "handle_1583XX r st =
     (let r = set_code_invalid_silent RET_EUNSUPPORTED r in (set_al (AL r - 1) r, st))"

definition handle_1583 :: "bregs \<Rightarrow> clock_state \<Rightarrow> bregs \<times> clock_state" where
  "handle_1583 r st =
     (if AL r = 0x00 then handle_158300 r st
      else if AL r = 0x01 then handle_158301 r st
      else handle_1583XX r st)"

text \<open>
  The part of \<open>handle_70\<close> for the periodic interrupt: nothing without a pending wait; otherwise the
  time left goes down, and when less than one period is left the flag byte is set.
\<close>

definition usertimer_tick :: "clock_state \<Rightarrow> clock_state" where
  "usertimer_tick st =
     (if bda8 bda_rtc_wait_flag st = 0 then st
      else let time = bda32 bda_user_wait_timeout st in
        if time < USEC_PER_RTC then
          let so = bda32 bda_user_wait_complete_flag st;
              p = MAKE_FLATPTR (ucast (drop_bit 16 so)) (ucast (ucast so :: u16)) in
          clear_usertimer (st\<lparr>mem := wr8 p (rd8 (mem st) p OR 0x80) (mem st)\<rparr>)
        else set_bda32 bda_user_wait_timeout (time - USEC_PER_RTC) st)"

definition handle_70 :: "clock_env \<Rightarrow> clock_state \<Rightarrow> clock_state" where
  "handle_70 e st =
     (case inb_cmos CMOS_STATUS_B st of (registerB, st) \<Rightarrow>
      case inb_cmos CMOS_STATUS_C st of (registerC, st) \<Rightarrow>
      if registerB AND (RTC_B_PIE OR RTC_B_AIE) = 0 then eoi_pic2 st
      else let st = (if registerC AND RTC_B_AIE \<noteq> 0 then call16_simpint e 0x4a st else st) in
        if registerC AND RTC_B_PIE = 0 then eoi_pic2 st
        else eoi_pic2 (usertimer_tick (check_preempt e st)))"

end
