(* ===== verification/ClockSpec.thy ===== *)
theory ClockSpec
  imports Clock
begin

text \<open>
  Properties of the clocks: the tick counter counts modulo a day and a timeout computed from it
  passes at the right tick, also across midnight; the delays by the time stamp counter end and are
  long enough; the services of INT 1Ah read back what they set; the periodic interrupt runs while
  it has users; a user timer signals its flag byte at the right interrupt.
\<close>

section \<open>Memory of the clock cells\<close>

lemma port_frame [simp]:
  "mem (outb_cmos v r st) = mem st" "mem (snd (inb_cmos r st)) = mem st"
  "dev (outb_cmos v r st) = dev st" "dev (snd (inb_cmos r st)) = dev st"
  "mem (eoi_pic1 st) = mem st" "mem (eoi_pic2 st) = mem st"
  "dev (eoi_pic1 st) = dev st" "dev (eoi_pic2 st) = dev st"
  by (simp_all add: outb_cmos_def inb_cmos_def eoi_pic1_def eoi_pic2_def)

lemma set_bda32_frame [simp]:
  "mem (set_bda32 off v st) = wr32 (BDA off) v (mem st)" "io_log (set_bda32 off v st) = io_log st"
  "dev (set_bda32 off v st) = dev st"
  by (simp_all add: set_bda32_def)

lemma bda_cong:
  "mem st' = mem st \<Longrightarrow> bda32 off st' = bda32 off st" "mem st' = mem st \<Longrightarrow> bda8 off st' = bda8 off st"
  by (simp_all add: bda32_def bda8_def)

lemma rd8_wr32_other [frame]:
  "b \<noteq> a \<Longrightarrow> b \<noteq> a + 1 \<Longrightarrow> b \<noteq> a + 2 \<Longrightarrow> b \<noteq> a + 3 \<Longrightarrow> rd8 (wr32 a v m) b = rd8 m b"
  by (simp add: wr32_def rd8_wr16_other add.assoc)

section \<open>The tick counter\<close>

abbreviation counter :: "clock_state \<Rightarrow> u32" where "counter \<equiv> bda32 bda_timer_counter"
abbreviation rollover :: "clock_state \<Rightarrow> u8" where "rollover \<equiv> bda8 bda_timer_rollover"

text \<open>The floppy and USB drivers and the user's INT 1Ch leave the cells of the clock alone.\<close>

definition timer_quiet :: "clock_env \<Rightarrow> bool" where
  "timer_quiet e \<longleftrightarrow> (\<forall>f \<in> {floppy_tick e, usb_check_event e, call16_simpint e 0x1c}. \<forall>st.
     counter (f st) = counter st \<and> rollover (f st) = rollover st)"

lemma timer_quietD:
  assumes "timer_quiet e"
  shows "counter (floppy_tick e st) = counter st" "rollover (floppy_tick e st) = rollover st"
    "counter (usb_check_event e st) = counter st" "rollover (usb_check_event e st) = rollover st"
    "counter (call16_simpint e 0x1c st) = counter st" "rollover (call16_simpint e 0x1c st) = rollover st"
  using assms by (simp_all add: timer_quiet_def)

lemma cells_update [simp]:
  "counter (set_bda32 bda_timer_counter v st) = v" "rollover (set_bda8 bda_timer_rollover w st) = w"
  "counter (set_bda8 bda_timer_rollover w st) = counter st"
  "rollover (set_bda32 bda_timer_counter v st) = rollover st"
  "counter (eoi_pic1 st) = counter st" "rollover (eoi_pic1 st) = rollover st"
  by (simp_all add: bda32_def bda8_def clock_cells frame)

lemma handle_08_step:
  assumes "timer_quiet e"
  shows "counter (handle_08 e st) = (if counter st + 1 \<ge> TICKS_PER_DAY then 0 else counter st + 1)"
    "rollover (handle_08 e st) = (if counter st + 1 \<ge> TICKS_PER_DAY then rollover st + 1 else rollover st)"
  by (simp_all add: handle_08_def Let_def timer_quietD [OF assms])

lemma day_step:
  fixes t n :: nat
  assumes "0 < d"
  shows "(t + Suc n) mod d = (if (t + n) mod d + 1 \<ge> d then 0 else (t + n) mod d + 1)"
    "(t + Suc n) div d = (if (t + n) mod d + 1 \<ge> d then (t + n) div d + 1 else (t + n) div d)"
proof -
  have "(t + n) mod d + 1 \<ge> d \<longleftrightarrow> Suc ((t + n) mod d) = d"
    using mod_less_divisor [OF assms, of "t + n"] by linarith
  then show "(t + Suc n) mod d = (if (t + n) mod d + 1 \<ge> d then 0 else (t + n) mod d + 1)"
    "(t + Suc n) div d = (if (t + n) mod d + 1 \<ge> d then (t + n) div d + 1 else (t + n) div d)"
    by (simp_all add: mod_Suc div_Suc)
qed

lemma ticks_run:
  assumes "timer_quiet e" "unat (counter st) < 1573040"
  shows "unat (counter ((handle_08 e ^^ n) st)) = (unat (counter st) + n) mod 1573040 \<and>
    rollover ((handle_08 e ^^ n) st) = rollover st + of_nat ((unat (counter st) + n) div 1573040)"
proof (induction n)
  case 0 then show ?case using assms(2) by simp
next
  case (Suc n)
  let ?s = "(handle_08 e ^^ n) st" and ?t = "unat (counter st)"
  have lt: "unat (counter ?s) < 1573040" using Suc by simp
  have succ: "unat (counter ?s + 1) = unat (counter ?s) + 1"
    using lt by (simp add: unat_word_ariths)
  have le: "counter ?s + 1 \<ge> TICKS_PER_DAY \<longleftrightarrow> (?t + n) mod 1573040 + 1 \<ge> 1573040"
    using Suc by (simp add: TICKS_PER_DAY_eq word_le_nat_alt succ)
  show ?case
    using Suc succ le by (simp add: handle_08_step [OF assms(1)] day_step del: add_Suc_right)
qed

text \<open>After \<open>n\<close> timer interrupts the tick counter stands at the start value plus \<open>n\<close>, modulo the
  1573040 ticks of a day, and the rollover flag has been incremented once for every midnight passed,
  for every start value within a day and every number of interrupts.\<close>

theorem timer_ticks:
  assumes "timer_quiet e" "unat (counter st) < 1573040"
  shows "unat (counter ((handle_08 e ^^ n) st)) = (unat (counter st) + n) mod 1573040 \<and>
    rollover ((handle_08 e ^^ n) st) = rollover st + of_nat ((unat (counter st) + n) div 1573040)"
  by (rule ticks_run [OF assms])

definition demo_clock :: clock_state where
  "demo_clock = \<lparr>mem = (\<lambda>_. 0), io_log = [], dev = (\<lambda>_ _ _. 0), cpu_khz = 2000000, tsc_reads = 0\<rparr>"

definition demo_env :: clock_env where
  "demo_env = \<lparr>tsc = (\<lambda>n. of_nat n * 100), yield = (\<lambda>st. st), check_preempt = (\<lambda>st. st),
     wait_irq = (\<lambda>st. st), floppy_tick = (\<lambda>st. st), usb_check_event = (\<lambda>st. st),
     call16_simpint = (\<lambda>_ st. st), handle_1ab1 = (\<lambda>r st. (r, st)),
     entry_08 = 0xfea5, entry_70 = 0xe76e, stack_seg = 0x9000, statusflag_ofs = 0x100\<rparr>"

lemma demo_quiet: "timer_quiet demo_env"
  by (simp add: timer_quiet_def demo_env_def)

lemma demo_counter: "counter demo_clock = 0"
  by (simp add: bda32_def demo_clock_def rd32_def rd16_def)

theorem timer_ticks_witness:
  "unat (counter ((handle_08 demo_env ^^ 1573045) demo_clock)) = 5"
  using timer_ticks [OF demo_quiet, of demo_clock 1573045] by (simp add: demo_counter)

text \<open>The number of ticks in a timeout.\<close>

definition timeout_ticks :: "nat \<Rightarrow> nat" where
  "timeout_ticks msecs = (msecs * 1193180 + 65535999) div 65536000"

lemma ceil_ceil: "((m + 65535) div 65536 + 999) div 1000 = (m + 65535999) div (65536000::nat)"
proof -
  have "(m + 65535999) div (65536 * 1000) = (m + 65535999) div 65536 div 1000"
    by (rule div_mult2_eq)
  moreover have "(m + 65535999) div 65536 = (m + 65535) div 65536 + 999"
    by simp
  ultimately show ?thesis by simp
qed

lemma calc_future_timer_eq:
  assumes "msecs \<noteq> 0" "unat msecs \<le> 43000000"
  shows "calc_future_timer msecs st = calc_future_timer_ticks (of_nat (timeout_ticks (unat msecs))) st"
proof -
  let ?n = "(unat msecs * 1193180 + 65535) div 65536"
  have le: "?n \<le> 800000000" using assms(2) by simp
  have mul: "unat (ucast msecs * PIT_TICK_RATE :: u64) = unat msecs * 1193180"
    using assms(2) by (simp add: PIT_TICK_RATE_def unat_word_ariths unat_ucast_fit)
  have "unat (DIV_ROUND_UP (ucast msecs * PIT_TICK_RATE) PIT_TICK_INTERVAL) = ?n"
  proof -
    have "unat (ucast msecs * PIT_TICK_RATE + 65535 :: u64) = unat msecs * 1193180 + 65535"
      using assms(2) mul by (subst unat_word_ariths) simp
    then show ?thesis
      by (simp add: DIV_ROUND_UP_def PIT_TICK_INTERVAL_def unat_div flip: add_diff_eq)
  qed
  then have k: "unat (ucast (DIV_ROUND_UP (ucast msecs * PIT_TICK_RATE) PIT_TICK_INTERVAL) :: u32) = ?n"
    using le by (simp add: unat_ucast_fit)
  have "unat (DIV_ROUND_UP (ucast (DIV_ROUND_UP (ucast msecs * PIT_TICK_RATE) PIT_TICK_INTERVAL)) 1000 :: u32)
    = timeout_ticks (unat msecs)" (is "unat (DIV_ROUND_UP ?k 1000) = _")
  proof -
    have "unat (?k + 999) = ?n + 999"
      using le k by (subst unat_word_ariths) simp
    then show ?thesis
      by (simp add: DIV_ROUND_UP_def unat_div timeout_ticks_def ceil_ceil [symmetric] flip: add_diff_eq)
  qed
  then have "of_nat (unat (DIV_ROUND_UP ?k 1000)) = (of_nat (timeout_ticks (unat msecs)) :: u32)"
    by (rule arg_cong)
  then have "DIV_ROUND_UP (ucast (DIV_ROUND_UP (ucast msecs * PIT_TICK_RATE) PIT_TICK_INTERVAL)) 1000
    = (of_nat (timeout_ticks (unat msecs)) :: u32)"
    by (simp only: of_nat_unat ucast_id)
  then show ?thesis using assms(1) by (simp add: calc_future_timer_def Let_def)
qed

lemma half_day:
  fixes t n k :: nat
  assumes "k < 786520" "n < k + 1 + 786520" "t < 1573040"
  shows "((t + n) mod 1573040 + 1573040 - (t + k + 1) mod 1573040) mod 1573040 < 786520 \<longleftrightarrow> k < n"
proof -
  have "((t + n) mod 1573040 + 1573040 - (t + k + 1) mod 1573040) mod 1573040
      = ((t + n) + (1573040 - (t + k + 1) mod 1573040)) mod 1573040"
    using mod_less_divisor [of 1573040 "t + k + 1"]
    by (subst mod_add_left_eq [symmetric]) (simp add: Nat.add_diff_assoc less_imp_le)
  also have "\<dots> = nat ((int n - int k - 1) mod 1573040)"
  proof -
    let ?r = "(t + k + 1) mod 1573040"
    have "int ((t + n + (1573040 - ?r)) mod 1573040) = (int t + int n + (1573040 - int ?r)) mod 1573040"
      using mod_less_divisor [of 1573040 "t + k + 1"] by (simp only: zmod_int of_nat_add of_nat_diff less_imp_le) simp
    also have "\<dots> = (int t + int n + 1573040 - int (t + k + 1) mod 1573040) mod 1573040"
      by (simp only: zmod_int) (simp add: algebra_simps)
    also have "\<dots> = (int t + int n + 1573040 - int (t + k + 1)) mod 1573040"
      by (rule mod_diff_right_eq)
    also have "\<dots> = (int n - int k - 1) mod 1573040"
    proof -
      have e: "int t + int n + 1573040 - int (t + k + 1) = (int n - int k - 1) + 1573040" by simp
      show ?thesis unfolding e by (rule mod_add_self2)
    qed
    finally show ?thesis by (metis nat_int)
  qed
  finally have e: "((t + n) mod 1573040 + 1573040 - (t + k + 1) mod 1573040) mod 1573040
      = nat ((int n - int k - 1) mod 1573040)" .
  show ?thesis
  proof (cases "k < n")
    case True
    then have "(int n - int k - 1) mod 1573040 = int n - int k - 1"
      using assms by (intro mod_pos_pos_trivial) auto
    then show ?thesis using True assms e by simp
  next
    case False
    have "(int n - int k - 1) mod 1573040 = (int n - int k - 1 + 1573040) mod 1573040"
      by (rule mod_add_self2 [symmetric])
    also have "\<dots> = int n - int k - 1 + 1573040"
      using False assms by (intro mod_pos_pos_trivial) auto
    finally show ?thesis using False assms e by simp
  qed
qed

lemma check_timer_nat:
  assumes "unat (counter st) < 1573040" "unat endt < 1573040"
  shows "check_timer endt st \<longleftrightarrow> (unat (counter st) + 1573040 - unat endt) mod 1573040 < 786520"
proof -
  have "unat (counter st + TICKS_PER_DAY) = unat (counter st) + 1573040"
    using assms(1) by (simp add: TICKS_PER_DAY_eq unat_word_ariths)
  then have "unat (counter st + TICKS_PER_DAY - endt) = unat (counter st) + 1573040 - unat endt"
    using assms(2) by (subst unat_sub) (simp_all add: word_le_nat_alt)
  then show ?thesis
    by (simp add: check_timer_def word_less_nat_alt unat_mod unat_div TICKS_PER_DAY_eq)
qed

text \<open>A timeout of up to 43 million milliseconds computed by \<open>calc_future_timer\<close> is reported as
  passed by \<open>check_timer\<close> after exactly those numbers \<open>n\<close> of further timer interrupts that exceed the
  number of ticks in the timeout: at least the requested time has passed, it is not reported more
  than two ticks late, and this also holds when midnight falls into the timeout.\<close>

theorem timeout_correct:
  assumes "timer_quiet e" "unat (counter st) < 1573040" "msecs \<noteq> 0" "unat msecs \<le> 43000000"
    and "n \<le> 786520"
  shows "\<exists>k. unat msecs * 1193180 \<le> k * 65536000 \<and> (k - 1) * 65536000 < unat msecs * 1193180 \<and>
    (check_timer (calc_future_timer msecs st) ((handle_08 e ^^ n) st) \<longleftrightarrow> k < n)"
proof (intro exI conjI)
  let ?k = "timeout_ticks (unat msecs)"
  have pos: "0 < unat msecs" using assms(3) by (simp add: unat_gt_0)
  show "unat msecs * 1193180 \<le> ?k * 65536000" by (simp add: timeout_ticks_def)
  show "(?k - 1) * 65536000 < unat msecs * 1193180"
    using pos by (simp add: timeout_ticks_def)
  have k: "?k < 786520" using assms(4) by (simp add: timeout_ticks_def)
  have endt: "unat (calc_future_timer msecs st) = (unat (counter st) + ?k + 1) mod 1573040"
    using assms(2) k
    by (simp add: calc_future_timer_eq [OF assms(3,4)] calc_future_timer_ticks_def TICKS_PER_DAY_eq
        unat_mod unat_word_ariths unat_of_nat)
  show "check_timer (calc_future_timer msecs st) ((handle_08 e ^^ n) st) \<longleftrightarrow> ?k < n"
    using half_day [of ?k n "unat (counter st)"] k assms(2,5) ticks_run [OF assms(1,2), of n]
    by (subst check_timer_nat) (simp_all add: endt)
qed

theorem timeout_correct_witness:
  "\<exists>k. 1000 * 1193180 \<le> k * (65536000::nat) \<and> (k - 1) * 65536000 < 1000 * 1193180 \<and>
    (check_timer (calc_future_timer 1000 demo_clock) ((handle_08 demo_env ^^ 20) demo_clock) \<longleftrightarrow> k < 20)"
  using timeout_correct [OF demo_quiet, of demo_clock 1000 20] by (simp add: demo_counter)

section \<open>Delays by the time stamp counter\<close>

text \<open>
  The counter shows \<open>f n\<close> (modulo \<open>2 ^ 64\<close>) at its \<open>n\<close>-th read: it advances between reads, by at
  most \<open>g\<close>. What runs while a loop waits takes at most \<open>g\<close>, too.
\<close>

definition tsc_runs :: "clock_env \<Rightarrow> (nat \<Rightarrow> nat) \<Rightarrow> nat \<Rightarrow> bool" where
  "tsc_runs e f g \<longleftrightarrow> g < 2 ^ 60 \<and>
     (\<forall>n. tsc e n = of_nat (f n) \<and> f n < f (Suc n) \<and> f (Suc n) \<le> f n + g)"

definition idle_short :: "(nat \<Rightarrow> nat) \<Rightarrow> nat \<Rightarrow> (clock_state \<Rightarrow> clock_state) \<Rightarrow> bool" where
  "idle_short f g idle \<longleftrightarrow> (\<forall>s. tsc_reads s \<le> tsc_reads (idle s) \<and>
     f (tsc_reads (idle s)) \<le> f (tsc_reads s) + g)"

lemma sint_diff_nat:
  assumes "a \<le> b + 2 ^ 62" "b \<le> a + 2 ^ 62"
  shows "0 < sint (of_nat a - of_nat b :: u64) \<longleftrightarrow> b < a"
proof -
  have "(of_nat a - of_nat b :: u64) = word_of_int (int a - int b)" by simp
  then have "sint (of_nat a - of_nat b :: u64) = signed_take_bit 63 (int a - int b)"
    by (simp only: signed_of_int) simp
  also have "\<dots> = int a - int b"
    using assms by (simp add: signed_take_bit_int_eq_self)
  finally show ?thesis by simp
qed

lemma check_tsc_nat:
  assumes "tsc_runs e f g" "f (tsc_reads st) \<le> b + 2 ^ 62" "b \<le> f (tsc_reads st) + 2 ^ 62"
  shows "check_tsc e (of_nat b) st = (b < f (tsc_reads st), st\<lparr>tsc_reads := Suc (tsc_reads st)\<rparr>)"
  using assms(1) sint_diff_nat [OF assms(2,3)] by (simp add: check_tsc_def rdtscll_def tsc_runs_def)

lemma tsc_loop_ends:
  assumes "tsc_runs e f g" "idle_short f g idle"
    and "f (tsc_reads st) \<le> b + 2 * g" "b \<le> f (tsc_reads st) + 2 ^ 62"
  shows "\<exists>st'. tsc_loop e idle (of_nat b) st = Some st' \<and>
    b < f (tsc_reads st' - 1) \<and> f (tsc_reads st' - 1) \<le> b + 2 * g"
  using assms(3,4)
proof (induction "b - f (tsc_reads st)" arbitrary: st rule: less_induct)
  case less
  let ?s = "st\<lparr>tsc_reads := Suc (tsc_reads st)\<rparr>"
  have g: "g < 2 ^ 60" "f (tsc_reads st) < f (Suc (tsc_reads st))"
    "f (Suc (tsc_reads st)) \<le> f (tsc_reads st) + g"
    using assms(1) by (simp_all add: tsc_runs_def)
  have inc: "strict_mono f" using assms(1) by (simp add: tsc_runs_def strict_mono_Suc_iff)
  have idle: "Suc (tsc_reads st) \<le> tsc_reads (idle ?s)"
    "f (tsc_reads (idle ?s)) \<le> f (Suc (tsc_reads st)) + g"
    using assms(2) unfolding idle_short_def by (metis clock_state.select_convs(2) clock_state.surjective clock_state.update_convs(2))+
  have check: "check_tsc e (of_nat b) st = (b < f (tsc_reads st), ?s)"
    using less.prems g by (intro check_tsc_nat [OF assms(1)]) simp_all
  show ?case
  proof (cases "b < f (tsc_reads st)")
    case True
    then show ?thesis using check less.prems by (simp add: tsc_loop.simps [of e idle _ st])
  next
    case False
    have up: "f (Suc (tsc_reads st)) \<le> f (tsc_reads (idle ?s))"
      using idle(1) inc by (simp add: strict_mono_less_eq)
    have "\<exists>st'. tsc_loop e idle (of_nat b) (idle ?s) = Some st' \<and>
        b < f (tsc_reads st' - 1) \<and> f (tsc_reads st' - 1) \<le> b + 2 * g"
    proof (cases "b < f (tsc_reads (idle ?s))")
      case True
      then have "check_tsc e (of_nat b) (idle ?s) = (True, (idle ?s)\<lparr>tsc_reads := Suc (tsc_reads (idle ?s))\<rparr>)"
        using False g idle up less.prems by (subst check_tsc_nat [OF assms(1)]) simp_all
      then show ?thesis using True False g idle by (simp add: tsc_loop.simps [of e idle _ "idle ?s"])
    next
      case out: False
      show ?thesis by (rule less.hyps) (use False out g idle up less.prems in linarith)+
    qed
    then show ?thesis using check False by (simp add: tsc_loop.simps [of e idle _ st])
  qed
qed

lemma delay_ends:
  assumes "tsc_runs e f g" "idle_short f g (yield e)" "delay \<in> {tscdelay e d, tscsleep e d}" "unat d < 2 ^ 32"
  shows "\<exists>st'. delay st = Some st' \<and> f (tsc_reads st) + unat d < f (tsc_reads st' - 1) \<and>
    f (tsc_reads st' - 1) \<le> f (tsc_reads st) + unat d + 2 * g"
proof -
  let ?s = "st\<lparr>tsc_reads := Suc (tsc_reads st)\<rparr>"
  have read: "rdtscll e st = (of_nat (f (tsc_reads st)), ?s)"
    and g: "f (tsc_reads ?s) \<le> f (tsc_reads st) + g" "f (tsc_reads st) < f (tsc_reads ?s)"
    using assms(1) by (simp_all add: tsc_runs_def rdtscll_def)
  have sum: "of_nat (f (tsc_reads st)) + d = of_nat (f (tsc_reads st) + unat d)" by simp
  have d: "unat d \<le> 2 ^ 62" by (rule order_trans [OF less_imp_le [OF assms(4)]]) simp
  have self: "idle_short f g (\<lambda>s. s)" by (simp add: idle_short_def)
  have "\<exists>st'. tsc_loop e idle (of_nat (f (tsc_reads st) + unat d)) ?s = Some st' \<and>
    f (tsc_reads st) + unat d < f (tsc_reads st' - 1) \<and>
    f (tsc_reads st' - 1) \<le> f (tsc_reads st) + unat d + 2 * g" if "idle_short f g idle" for idle
    by (rule tsc_loop_ends [OF assms(1) that]) (use g d in linarith)+
  then show ?thesis
    using assms(2,3) self by (auto simp only: tscdelay_def tscsleep_def read sum prod.case insert_iff empty_iff)
qed

lemma usecs_cycles:
  "unat (ucast (count * khz div 1000 :: u32) :: u64) = unat count * unat khz mod 2 ^ 32 div 1000"
proof -
  have "unat (count * khz div 1000 :: u32) < 2 ^ 64"
    by (rule less_trans [OF unsigned_less]) simp
  then show ?thesis by (simp add: unat_ucast_fit unat_div unat_word_ariths)
qed

lemma usecs_end:
  assumes "tsc_runs e f g" "idle_short f g (yield e)" "delay \<in> {udelay e count, usleep e count}"
  shows "\<exists>st'. delay st = Some st' \<and>
    f (tsc_reads st) + unat count * unat (cpu_khz st) mod 2 ^ 32 div 1000 < f (tsc_reads st' - 1) \<and>
    f (tsc_reads st' - 1) \<le> f (tsc_reads st) + unat count * unat (cpu_khz st) mod 2 ^ 32 div 1000 + 2 * g"
proof -
  let ?d = "ucast (count * cpu_khz st div 1000) :: u64"
  have "unat ?d < 2 ^ 32"
    unfolding usecs_cycles by (rule le_less_trans [OF div_le_dividend]) simp
  then show ?thesis
    using assms(3) delay_ends [OF assms(1,2), of "tscdelay e ?d" ?d st] delay_ends [OF assms(1,2), of "tscsleep e ?d" ?d st]
    unfolding usecs_cycles by (auto simp: udelay_def usleep_def)
qed

text \<open>\<open>udelay\<close> and \<open>usleep\<close> always return when the time stamp counter runs, and when the number of
  cycles asked for, the microseconds times the CPU speed in kHz, fits in 32 bits, they return not
  before that many thousandths have passed and at most two gaps between reads later.\<close>

theorem delays_end:
  assumes "tsc_runs e f g" "idle_short f g (yield e)" "delay \<in> {udelay e count, usleep e count}"
    and "unat count * unat (cpu_khz st) < 2 ^ 32"
  shows "\<exists>st'. delay st = Some st' \<and>
    f (tsc_reads st) + unat count * unat (cpu_khz st) div 1000 < f (tsc_reads st' - 1) \<and>
    f (tsc_reads st' - 1) \<le> f (tsc_reads st) + unat count * unat (cpu_khz st) div 1000 + 2 * g"
  using usecs_end [OF assms(1-3), of st] assms(4) by simp

lemma demo_tsc: "tsc_runs demo_env (\<lambda>n. n * 100) 100" "idle_short (\<lambda>n. n * 100) 100 (yield demo_env)"
  by (simp_all add: tsc_runs_def idle_short_def demo_env_def)

theorem delays_end_witness:
  "\<exists>st'. usleep demo_env 1000 demo_clock = Some st' \<and> 2000000 < (tsc_reads st' - 1) * 100"
  using delays_end [OF demo_tsc, of "usleep demo_env 1000" 1000 demo_clock] by (auto simp: demo_clock_def)

text \<open>The product is computed in 32 bits: 1.5 seconds at 3 GHz end after a little more than 1 ms.\<close>

lemma usleep_overflows:
  assumes "tsc_runs e f g" "idle_short f g (yield e)" "cpu_khz st = 3000000"
  shows "\<exists>st'. usleep e 1500000 st = Some st' \<and>
    f (tsc_reads st' - 1) \<le> f (tsc_reads st) + 3169241 + 2 * g"
  using usecs_end [OF assms(1,2), of "usleep e 1500000" 1500000 st] by (auto simp: assms(3))

section \<open>The CMOS between two updates of the clock\<close>

text \<open>
  The index last written to port 70h, and what a register holds after the writes to port 71h, from
  the contents \<open>c\<close> at the start. Between two updates of the time, the chip answers a read of the
  time, date, alarm and status B registers with what they hold, and its update flag is clear.
\<close>

fun cmos_sel :: "io_event list \<Rightarrow> u8" where
  "cmos_sel [] = 0"
| "cmos_sel (PortOut W8 p v # l) = (if p = 0x70 then ucast v AND 0x7f else cmos_sel l)"
| "cmos_sel (_ # l) = cmos_sel l"

fun cmos_reg :: "(u8 \<Rightarrow> u8) \<Rightarrow> io_event list \<Rightarrow> u8 \<Rightarrow> u8" where
  "cmos_reg c [] r = c r"
| "cmos_reg c (PortOut W8 p v # l) r = (if p = 0x71 \<and> cmos_sel l = r then ucast v else cmos_reg c l r)"
| "cmos_reg c (_ # l) r = cmos_reg c l r"

definition cmos_plain :: "u8 \<Rightarrow> bool" where
  "cmos_plain r \<longleftrightarrow> r AND 0x7f = r \<and> r \<noteq> CMOS_STATUS_A \<and> r \<noteq> CMOS_STATUS_C \<and> r \<noteq> CMOS_STATUS_D"

definition rtc_dev :: "(u8 \<Rightarrow> u8) \<Rightarrow> device \<Rightarrow> bool" where
  "rtc_dev c d \<longleftrightarrow> (\<forall>l. (cmos_plain (cmos_sel l) \<longrightarrow> d l W8 0x71 = ucast (cmos_reg c l (cmos_sel l))) \<and>
     (cmos_sel l = CMOS_STATUS_A \<longrightarrow> d l W8 0x71 AND 0x80 = 0))"

definition rtc :: "(u8 \<Rightarrow> u8) \<Rightarrow> clock_state \<Rightarrow> u8 \<Rightarrow> u8" where
  "rtc c st r = cmos_reg c (io_log st) r"

lemma ucast_u8_u32 [simp]: "ucast (ucast (x :: u8) :: u32) = x"
  by (auto simp: bit_eq_iff bit_simps)

lemma cmos_index [simp]: "(r OR 0x80) AND 0x7f = r AND (0x7f :: u8)"
  by (simp add: bit.conj_disj_distrib2)

lemma cmos_plain_regs [simp]:
  "cmos_plain CMOS_RTC_SECONDS" "cmos_plain CMOS_RTC_MINUTES" "cmos_plain CMOS_RTC_HOURS"
  "cmos_plain CMOS_RTC_DAY_MONTH" "cmos_plain CMOS_RTC_MONTH" "cmos_plain CMOS_RTC_YEAR"
  "cmos_plain CMOS_RTC_SECONDS_ALARM" "cmos_plain CMOS_RTC_MINUTES_ALARM" "cmos_plain CMOS_RTC_HOURS_ALARM"
  "cmos_plain CMOS_CENTURY" "cmos_plain CMOS_STATUS_B"
  by (simp_all add: cmos_plain_def cmos_regs)

lemma inb_cmos_plain:
  assumes "rtc_dev c (dev st)" "cmos_plain r"
  shows "fst (inb_cmos r st) = rtc c st r"
proof -
  have "cmos_sel (PortOut W8 0x70 (ucast (r OR 0x80)) # io_log st) = r"
    using assms(2) by (simp add: cmos_plain_def)
  then have "dev st (PortOut W8 0x70 (ucast (r OR 0x80)) # io_log st) W8 0x71
      = ucast (cmos_reg c (PortOut W8 0x70 (ucast (r OR 0x80)) # io_log st) r)"
    using assms unfolding rtc_dev_def by metis
  then show ?thesis
    by (simp add: inb_cmos_def inb_def outb_def Let_def PORT_CMOS_DATA_def PORT_CMOS_INDEX_def
        NMI_DISABLE_BIT_def rtc_def)
qed

lemma rtc_inb [simp]: "rtc c (snd (inb_cmos r st)) = rtc c st"
  by (rule ext) (simp add: inb_cmos_def inb_def outb_def Let_def PORT_CMOS_DATA_def PORT_CMOS_INDEX_def
      NMI_DISABLE_BIT_def rtc_def)

lemma rtc_outb:
  assumes "r AND 0x7f = r"
  shows "rtc c (outb_cmos v r st) = (rtc c st)(r := v)"
  by (rule ext) (simp add: outb_cmos_def outb_def PORT_CMOS_DATA_def PORT_CMOS_INDEX_def
      NMI_DISABLE_BIT_def rtc_def assms)

text \<open>Reads and the poll of the update flag as rewrite rules.\<close>

definition cmos_touch :: "u8 \<Rightarrow> clock_state \<Rightarrow> clock_state" where
  "cmos_touch r st = snd (inb_cmos r st)"

lemma cmos_touch_sel [simp]:
  "rtc c (cmos_touch r st) = rtc c st" "dev (cmos_touch r st) = dev st" "mem (cmos_touch r st) = mem st"
  by (simp_all add: cmos_touch_def)

lemma inb_cmos_eq:
  assumes "rtc_dev c (dev st)" "cmos_plain r"
  shows "inb_cmos r st = (rtc c st r, cmos_touch r st)"
  using inb_cmos_plain [OF assms] by (simp add: cmos_touch_def prod_eq_iff)

lemma rtc_updating_idle:
  assumes "rtc_dev c (dev st)"
  shows "rtc_updating e st = Some (False, cmos_touch CMOS_STATUS_A st)"
proof -
  have "cmos_sel (PortOut W8 0x70 (ucast (CMOS_STATUS_A OR 0x80)) # io_log st) = CMOS_STATUS_A"
    by (simp add: CMOS_STATUS_A_def)
  then have z: "dev st (PortOut W8 0x70 (ucast (CMOS_STATUS_A OR 0x80)) # io_log st) W8 0x71 AND 0x80 = 0"
    using assms unfolding rtc_dev_def by metis
  have "ucast (v AND 0x80 :: u32) = ucast v AND (0x80 :: u8)" for v
    by (auto simp: bit_eq_iff bit_simps)
  then have "fst (inb_cmos CMOS_STATUS_A st) AND RTC_A_UIP = 0"
    using z by (simp add: inb_cmos_def inb_def outb_def Let_def PORT_CMOS_DATA_def PORT_CMOS_INDEX_def
        NMI_DISABLE_BIT_def RTC_A_UIP_def) (metis ucast_0)
  then show ?thesis
    by (cases "inb_cmos CMOS_STATUS_A st") (simp add: rtc_updating_def cmos_touch_def)
qed

text \<open>Two settings of the time and date and what is read after them.\<close>

lemma set_time_regs:
  assumes "rtc_dev c (dev st)"
  shows "\<exists>r' st'. handle_1a03 e r st = Some (r', st') \<and> \<not> carry r' \<and> dev st' = dev st \<and> mem st' = mem st \<and>
    rtc c st' = (rtc c st)(CMOS_RTC_SECONDS := DH r, CMOS_RTC_MINUTES := CL r, CMOS_RTC_HOURS := CH r,
       CMOS_STATUS_B := (rtc c st CMOS_STATUS_B AND (RTC_B_PIE OR RTC_B_AIE)) OR (RTC_B_24HR OR (DL r AND RTC_B_DSE)))"
  using assms
  by (simp add: handle_1a03_def rtc_updating_idle [of c] inb_cmos_eq [of c] Let_def set_success_def rtc_outb)
    (simp add: rtc_outb cmos_regs)

lemma get_time_regs:
  assumes "rtc_dev c (dev st)"
  shows "\<exists>r' st'. handle_1a02 e r st = Some (r', st') \<and> \<not> carry r' \<and> dev st' = dev st \<and> mem st' = mem st \<and>
    rtc c st' = rtc c st \<and> DH r' = rtc c st CMOS_RTC_SECONDS \<and> CL r' = rtc c st CMOS_RTC_MINUTES \<and>
    CH r' = rtc c st CMOS_RTC_HOURS \<and> DL r' = rtc c st CMOS_STATUS_B AND RTC_B_DSE \<and> AH r' = 0 \<and> AL r' = CH r'"
  using assms
  by (simp add: handle_1a02_def rtc_updating_idle [of c] inb_cmos_eq [of c] Let_def set_success_def
      lane_defs set_lane_defs)

lemma set_date_regs:
  assumes "rtc_dev c (dev st)"
  shows "\<exists>r' st'. handle_1a05 e r st = Some (r', st') \<and> \<not> carry r' \<and> dev st' = dev st \<and> mem st' = mem st \<and>
    rtc c st' = (rtc c st)(CMOS_RTC_YEAR := CL r, CMOS_RTC_MONTH := DH r, CMOS_RTC_DAY_MONTH := DL r,
       CMOS_CENTURY := CH r, CMOS_STATUS_B := rtc c st CMOS_STATUS_B AND NOT RTC_B_SET)"
  using assms
  by (simp add: handle_1a05_def rtc_updating_idle [of c] inb_cmos_eq [of c] Let_def set_success_def CONFIG_COREBOOT_def)
    (simp add: rtc_outb cmos_regs)

lemma get_date_regs:
  assumes "rtc_dev c (dev st)"
  shows "\<exists>r' st'. handle_1a04 e r st = Some (r', st') \<and> \<not> carry r' \<and> dev st' = dev st \<and> mem st' = mem st \<and>
    rtc c st' = rtc c st \<and> CL r' = rtc c st CMOS_RTC_YEAR \<and> DH r' = rtc c st CMOS_RTC_MONTH \<and>
    DL r' = rtc c st CMOS_RTC_DAY_MONTH \<and> CH r' = rtc c st CMOS_CENTURY \<and> AH r' = 0 \<and> AL r' = CH r'"
  using assms
  by (simp add: handle_1a04_def rtc_updating_idle [of c] inb_cmos_eq [of c] Let_def set_success_def
      lane_defs set_lane_defs CONFIG_COREBOOT_def)

text \<open>C30: Between two updates of the clock, INT 1Ah function 02h reads back the hours, minutes, seconds
  and daylight saving flag that function 03h set, function 04h the century, year, month and day that
  function 05h set, also with the time set in between; every one of the calls succeeds.\<close>

theorem rtc_set_get:
  assumes "rtc_dev c (dev st)" "AH rd = 5" "AH rt = 3" "AH qt = 2" "AH qd = 4"
  shows "\<exists>r1 s1 r2 s2 r3 s3 r4 s4.
    handle_1a e rd st = Some (r1, s1) \<and> handle_1a e rt s1 = Some (r2, s2) \<and>
    handle_1a e qt s2 = Some (r3, s3) \<and> handle_1a e qd s3 = Some (r4, s4) \<and>
    \<not> carry r1 \<and> \<not> carry r2 \<and> \<not> carry r3 \<and> \<not> carry r4 \<and>
    CH r3 = CH rt \<and> CL r3 = CL rt \<and> DH r3 = DH rt \<and> DL r3 = DL rt AND 1 \<and>
    CH r4 = CH rd \<and> CL r4 = CL rd \<and> DH r4 = DH rd \<and> DL r4 = DL rd"
proof -
  obtain r1 s1 where 1: "handle_1a05 e rd st = Some (r1, s1)" "\<not> carry r1" "dev s1 = dev st"
    "rtc c s1 = (rtc c st)(CMOS_RTC_YEAR := CL rd, CMOS_RTC_MONTH := DH rd, CMOS_RTC_DAY_MONTH := DL rd,
       CMOS_CENTURY := CH rd, CMOS_STATUS_B := rtc c st CMOS_STATUS_B AND NOT RTC_B_SET)"
    using set_date_regs [OF assms(1)] by metis
  obtain r2 s2 where 2: "handle_1a03 e rt s1 = Some (r2, s2)" "\<not> carry r2" "dev s2 = dev st"
    "rtc c s2 = (rtc c s1)(CMOS_RTC_SECONDS := DH rt, CMOS_RTC_MINUTES := CL rt, CMOS_RTC_HOURS := CH rt,
       CMOS_STATUS_B := (rtc c s1 CMOS_STATUS_B AND (RTC_B_PIE OR RTC_B_AIE)) OR (RTC_B_24HR OR (DL rt AND RTC_B_DSE)))"
    using set_time_regs [of c s1] assms(1) 1(3) by metis
  obtain r3 s3 where 3: "handle_1a02 e qt s2 = Some (r3, s3)" "\<not> carry r3" "dev s3 = dev st"
    "rtc c s3 = rtc c s2" "DH r3 = rtc c s2 CMOS_RTC_SECONDS" "CL r3 = rtc c s2 CMOS_RTC_MINUTES"
    "CH r3 = rtc c s2 CMOS_RTC_HOURS" "DL r3 = rtc c s2 CMOS_STATUS_B AND RTC_B_DSE"
    using get_time_regs [of c s2] assms(1) 2(3) by metis
  obtain r4 s4 where 4: "handle_1a04 e qd s3 = Some (r4, s4)" "\<not> carry r4"
    "CL r4 = rtc c s3 CMOS_RTC_YEAR" "DH r4 = rtc c s3 CMOS_RTC_MONTH"
    "DL r4 = rtc c s3 CMOS_RTC_DAY_MONTH" "CH r4 = rtc c s3 CMOS_CENTURY"
    using get_date_regs [of c s3] assms(1) 3(3) by metis
  have dse: "((b AND (RTC_B_PIE OR RTC_B_AIE)) OR (RTC_B_24HR OR (d AND RTC_B_DSE))) AND RTC_B_DSE = d AND 1" for b d :: u8
    unfolding rtc_bits by (simp add: bit.conj_disj_distrib2 and.assoc)
  have "DL r3 = DL rt AND 1" using 3(8) 2(4) dse by simp
  then show ?thesis
    using 1 2 3 4 assms(2-5) by (simp add: handle_1a_def cmos_regs)
qed

text \<open>A chip whose register C always reports a periodic interrupt.\<close>

definition rtc_chip :: "(u8 \<Rightarrow> u8) \<Rightarrow> device" where
  "rtc_chip c l w p = (if cmos_plain (cmos_sel l) then ucast (cmos_reg c l (cmos_sel l))
     else if cmos_sel l = CMOS_STATUS_C then 0x40 else 0)"

lemma rtc_chip_dev: "rtc_dev c (rtc_chip c)"
  by (auto simp: rtc_dev_def rtc_chip_def cmos_plain_def CMOS_STATUS_C_def CMOS_STATUS_A_def)

definition demo_rtc :: clock_state where
  "demo_rtc = demo_clock\<lparr>mem := wr16 0x40e 0x9fc0 (\<lambda>_. 0), dev := rtc_chip (\<lambda>_. 0)\<rparr>"

definition demo_regs :: "u32 \<Rightarrow> u32 \<Rightarrow> u32 \<Rightarrow> bregs" where
  "demo_regs ax cx dx = \<lparr>r_ds = 0, r_es = 0x2000, r_edi = 0, r_esi = 0, r_ebp = 0, r_ebx = 0,
     r_edx = dx, r_ecx = cx, r_eax = ax, r_code = 0, r_flags = 0\<rparr>"

theorem rtc_set_get_witness:
  "\<exists>r1 s1 r2 s2 r3 s3 r4 s4.
    handle_1a demo_env (demo_regs 0x500 0x2012 0x1225) demo_rtc = Some (r1, s1) \<and>
    handle_1a demo_env (demo_regs 0x300 0x2359 0x5901) s1 = Some (r2, s2) \<and>
    handle_1a demo_env (demo_regs 0x200 0 0) s2 = Some (r3, s3) \<and>
    handle_1a demo_env (demo_regs 0x400 0 0) s3 = Some (r4, s4) \<and>
    CH r3 = 0x23 \<and> CL r3 = 0x59 \<and> DH r3 = 0x59 \<and> DL r3 = 1 \<and>
    CH r4 = 0x20 \<and> CL r4 = 0x12 \<and> DH r4 = 0x12 \<and> DL r4 = 0x25"
proof -
  have d: "rtc_dev (\<lambda>_. 0) (dev demo_rtc)" using rtc_chip_dev by (simp add: demo_rtc_def)
  have r: "AH (demo_regs a c d) = lane_h a" "CH (demo_regs a c d) = lane_h c" "CL (demo_regs a c d) = lane_l c"
    "DH (demo_regs a c d) = lane_h d" "DL (demo_regs a c d) = lane_l d" for a c d
    by (simp_all add: lane_defs demo_regs_def)
  have l: "lane_h 0x500 = 5" "lane_h 0x300 = 3" "lane_h 0x200 = 2" "lane_h 0x400 = 4"
    "lane_h 0x2012 = 0x20" "lane_l 0x2012 = 0x12" "lane_h 0x1225 = 0x12" "lane_l 0x1225 = 0x25"
    "lane_h 0x2359 = 0x23" "lane_l 0x2359 = 0x59" "lane_h 0x5901 = 0x59" "lane_l 0x5901 AND 1 = 1"
    by code_simp+
  show ?thesis
    using rtc_set_get [OF d, of "demo_regs 0x500 0x2012 0x1225" "demo_regs 0x300 0x2359 0x5901"
        "demo_regs 0x200 0 0" "demo_regs 0x400 0 0" demo_env]
    by (simp only: r l simp_thms) blast
qed

section \<open>Users of the periodic interrupt\<close>

abbreviation rtc_users :: "clock_state \<Rightarrow> u32" where
  "rtc_users st \<equiv> ebda32 (get_ebda_seg st) ebda_RTCusers st"

abbreviation pending :: "clock_state \<Rightarrow> bool" where
  "pending st \<equiv> bda8 bda_rtc_wait_flag st AND RWS_WAIT_PENDING \<noteq> 0"

text \<open>The EBDA lies above the BIOS data area.\<close>

definition ebda_above :: "clock_state \<Rightarrow> bool" where
  "ebda_above st \<longleftrightarrow> 0x50 \<le> get_ebda_seg st"

definition users_ptr :: "clock_state \<Rightarrow> u32" where
  "users_ptr st = MAKE_FLATPTR (get_ebda_seg st) ebda_RTCusers"

lemma users_ptr_bounds:
  assumes "ebda_above st"
  shows "0x62a \<le> unat (users_ptr st)" "unat (users_ptr st) < 0x100200"
proof -
  have lt: "unat (get_ebda_seg st) < 0x10000"
    by (rule less_le_trans [OF unsigned_less]) simp
  moreover have "0x50 \<le> unat (get_ebda_seg st)"
    using assms by (simp add: ebda_above_def word_le_nat_alt)
  moreover have "unat (users_ptr st) = 16 * unat (get_ebda_seg st) + 0x12a"
    using lt by (simp add: users_ptr_def MAKE_FLATPTR_def ebda_RTCusers_def push_bit_eq_mult unat_word_ariths unat_ucast_fit)
  ultimately show "0x62a \<le> unat (users_ptr st)" "unat (users_ptr st) < 0x100200" by simp_all
qed

text \<open>Bytes the user counter does not occupy.\<close>

definition off_users :: "u32 \<Rightarrow> clock_state \<Rightarrow> bool" where
  "off_users b st \<longleftrightarrow> b \<notin> {users_ptr st, users_ptr st + 1, users_ptr st + 2, users_ptr st + 3}"

lemma low_off_users:
  assumes "ebda_above st" "unat b < 0x62a"
  shows "off_users b st"
proof -
  have "unat (users_ptr st + of_nat k) = unat (users_ptr st) + k" if "k < 4" for k
    using users_ptr_bounds [OF assms(1)] that by (simp add: unat_word_ariths unat_of_nat)
  from this [of 0] this [of 1] this [of 2] this [of 3] show ?thesis
    using users_ptr_bounds(1) [OF assms(1)] assms(2) by (auto simp: off_users_def)
qed

text \<open>The clock cells below the EBDA, and the user counter above the BIOS data area.\<close>

lemma low_cells:
  assumes "\<And>b. unat b < 0x62a \<Longrightarrow> mem st' b = mem st b"
  shows "get_ebda_seg st' = get_ebda_seg st" "bda8 bda_rtc_wait_flag st' = bda8 bda_rtc_wait_flag st"
    "bda32 bda_user_wait_timeout st' = bda32 bda_user_wait_timeout st"
    "bda32 bda_user_wait_complete_flag st' = bda32 bda_user_wait_complete_flag st"
    "counter st' = counter st"
  by (simp_all add: get_ebda_seg_def rd16_def bda8_def bda32_def rd8_def rd32_def clock_cells bda_ebda_seg_def assms)

lemma users_cong:
  assumes "ebda_above st" "get_ebda_seg st' = get_ebda_seg st"
    and "\<And>b. \<not> off_users b st \<Longrightarrow> mem st' b = mem st b"
  shows "rtc_users st' = rtc_users st"
  unfolding ebda32_def assms(2)
  by (rule rd32_cong; rule assms(3); simp add: off_users_def users_ptr_def)

lemma low_users_cong:
  assumes "ebda_above st" "get_ebda_seg st' = get_ebda_seg st"
    and "\<And>b. \<not> (0x410 \<le> unat b \<and> unat b < 0x500) \<Longrightarrow> mem st' b = mem st b"
  shows "rtc_users st' = rtc_users st"
  using low_off_users [OF assms(1)] by (intro users_cong [OF assms(1,2)] assms(3)) force

lemma wr32_users_other:
  "off_users b st \<Longrightarrow> wr32 (users_ptr st) v (mem st) b = mem st b"
  by (rule wr32_other) (simp_all add: off_users_def)

lemma rtc_mem [simp]: "rtc c (st\<lparr>mem := m\<rparr>) = rtc c st" "CMOS_STATUS_B AND 0x7f = CMOS_STATUS_B"
  by (simp_all add: rtc_def fun_eq_iff CMOS_STATUS_B_def)

text \<open>What taking and releasing the periodic interrupt does.\<close>

lemma users_write:
  assumes "ebda_above st" "mem st' = wr32 (users_ptr st) v (mem st)"
  shows "rtc_users st' = v" "get_ebda_seg st' = get_ebda_seg st"
proof -
  show seg: "get_ebda_seg st' = get_ebda_seg st"
    by (rule low_cells) (simp add: assms(2) wr32_users_other low_off_users [OF assms(1)])
  show "rtc_users st' = v"
    unfolding ebda32_def seg assms(2) by (simp add: users_ptr_def)
qed

lemma useRTC_mem:
  assumes "rtc_dev c (dev st)"
  shows "mem (useRTC st) = wr32 (users_ptr st) (rtc_users st + 1) (mem st)" "dev (useRTC st) = dev st"
    "rtc c (useRTC st) CMOS_STATUS_B =
      (if rtc_users st = 0 then rtc c st CMOS_STATUS_B OR RTC_B_PIE else rtc c st CMOS_STATUS_B)"
  using assms
  by (simp_all add: useRTC_def Let_def set_ebda32_def users_ptr_def inb_cmos_eq [of c] rtc_outb)

lemma releaseRTC_mem:
  assumes "rtc_dev c (dev st)"
  shows "mem (releaseRTC st) = wr32 (users_ptr st) (rtc_users st - 1) (mem st)" "dev (releaseRTC st) = dev st"
    "rtc c (releaseRTC st) CMOS_STATUS_B =
      (if rtc_users st = 1 then rtc c st CMOS_STATUS_B AND NOT RTC_B_PIE else rtc c st CMOS_STATUS_B)"
  using assms
  by (simp_all add: releaseRTC_def Let_def set_ebda32_def users_ptr_def inb_cmos_eq [of c] rtc_outb)

text \<open>
  The periodic interrupt is enabled in register B if and only if it has users, and a pending wait is
  a user.
\<close>

definition rtc_inv :: "(u8 \<Rightarrow> u8) \<Rightarrow> clock_state \<Rightarrow> bool" where
  "rtc_inv c st \<longleftrightarrow> ebda_above st \<and> rtc_dev c (dev st) \<and>
     (rtc c st CMOS_STATUS_B AND RTC_B_PIE \<noteq> 0 \<longleftrightarrow> rtc_users st \<noteq> 0) \<and> (pending st \<longrightarrow> rtc_users st \<noteq> 0)"

lemma pie_bits [simp]: "RTC_B_PIE \<noteq> 0" "(x AND NOT RTC_B_PIE) AND RTC_B_PIE = 0"
proof -
  show "RTC_B_PIE \<noteq> 0" by (simp add: RTC_B_PIE_def)
  show "(x AND NOT RTC_B_PIE) AND RTC_B_PIE = 0" by (auto simp: bit_eq_iff bit_simps)
qed

lemma users_low:
  assumes "ebda_above st" "mem st' = wr32 (users_ptr st) v (mem st)"
  shows "bda8 bda_rtc_wait_flag st' = bda8 bda_rtc_wait_flag st"
    "bda32 bda_user_wait_timeout st' = bda32 bda_user_wait_timeout st"
    "bda32 bda_user_wait_complete_flag st' = bda32 bda_user_wait_complete_flag st"
    "ebda_above st' = ebda_above st"
  using low_cells [of st' st] users_write(2) [OF assms] assms(2) wr32_users_other low_off_users [OF assms(1)]
  by (simp_all add: ebda_above_def)

lemma useRTC_inv:
  assumes "rtc_inv c st" "rtc_users st \<noteq> - 1"
  shows "rtc_inv c (useRTC st)" "rtc_users (useRTC st) = rtc_users st + 1"
proof -
  have i: "ebda_above st" "rtc_dev c (dev st)" using assms(1) by (simp_all add: rtc_inv_def)
  note m = useRTC_mem [OF i(2)]
  show u: "rtc_users (useRTC st) = rtc_users st + 1" by (rule users_write(1) [OF i(1) m(1)])
  have "rtc_users st + 1 \<noteq> 0" using assms(2) by (metis eq_neg_iff_add_eq_0)
  then show "rtc_inv c (useRTC st)"
    using assms(1) users_low [OF i(1) m(1)] by (simp add: rtc_inv_def u m(2,3))
qed

lemma releaseRTC_inv:
  assumes "rtc_inv c st" "rtc_users st \<noteq> 0" "pending st \<longrightarrow> rtc_users st \<noteq> 1"
  shows "rtc_inv c (releaseRTC st)" "rtc_users (releaseRTC st) = rtc_users st - 1"
proof -
  have i: "ebda_above st" "rtc_dev c (dev st)" using assms(1) by (simp_all add: rtc_inv_def)
  note m = releaseRTC_mem [OF i(2)]
  show u: "rtc_users (releaseRTC st) = rtc_users st - 1" by (rule users_write(1) [OF i(1) m(1)])
  show "rtc_inv c (releaseRTC st)"
    using assms users_low [OF i(1) m(1)] by (auto simp: rtc_inv_def u m(2,3))
qed

text \<open>The cells of a wait, written before the interrupt is taken.\<close>

definition wait_cells :: "u32 \<Rightarrow> u16 \<Rightarrow> u16 \<Rightarrow> clock_state \<Rightarrow> clock_state" where
  "wait_cells usecs sg off st = set_bda32 bda_user_wait_timeout usecs
     (set_bda32 bda_user_wait_complete_flag (SEGOFF sg off) (set_bda8 bda_rtc_wait_flag RWS_WAIT_PENDING st))"

lemma set_usertimer_eq:
  "set_usertimer usecs sg off st = (if pending st then (False, st) else (True, useRTC (wait_cells usecs sg off st)))"
  by (simp add: set_usertimer_def wait_cells_def Let_def)

lemma low_store:
  assumes "\<not> (0x410 \<le> unat b \<and> unat b < 0x500)" "0x410 \<le> unat a" "unat a + 4 \<le> 0x500"
  shows "wr8 a v m b = m b" "wr32 a w m b = m b"
proof -
  have "unat (a + of_nat k) = unat a + k" if "k < 4" for k
    using assms(3) that by (simp add: unat_word_ariths unat_of_nat)
  from this [of 0] this [of 1] this [of 2] this [of 3] have "b \<notin> {a, a + 1, a + 2, a + 3}"
    using assms by auto
  then show "wr8 a v m b = m b" "wr32 a w m b = m b" by (auto simp: wr8_def intro: wr32_other)
qed

lemma low_store_cells:
  assumes "ebda_above st" "\<And>b. \<not> (0x410 \<le> unat b \<and> unat b < 0x500) \<Longrightarrow> mem st' b = mem st b"
  shows "get_ebda_seg st' = get_ebda_seg st" "rtc_users st' = rtc_users st" "ebda_above st'"
    "users_ptr st' = users_ptr st"
proof -
  show seg: "get_ebda_seg st' = get_ebda_seg st"
    by (simp add: get_ebda_seg_def rd16_def bda_ebda_seg_def assms(2))
  show "rtc_users st' = rtc_users st" by (rule low_users_cong [OF assms(1) seg assms(2)])
  show "ebda_above st'" "users_ptr st' = users_ptr st"
    using assms(1) by (simp_all add: ebda_above_def users_ptr_def seg)
qed

lemma wait_cells_sel:
  "rtc c (wait_cells usecs sg off st) = rtc c st" "dev (wait_cells usecs sg off st) = dev st"
  "bda8 bda_rtc_wait_flag (wait_cells usecs sg off st) = RWS_WAIT_PENDING"
  "bda32 bda_user_wait_timeout (wait_cells usecs sg off st) = usecs"
  "bda32 bda_user_wait_complete_flag (wait_cells usecs sg off st) = SEGOFF sg off"
proof -
  show "rtc c (wait_cells usecs sg off st) = rtc c st" by (simp add: wait_cells_def rtc_def fun_eq_iff)
  show "dev (wait_cells usecs sg off st) = dev st" by (simp add: wait_cells_def)
  show "bda8 bda_rtc_wait_flag (wait_cells usecs sg off st) = RWS_WAIT_PENDING"
    by (simp add: wait_cells_def bda8_def clock_cells rd8_wr32_other)
  show "bda32 bda_user_wait_timeout (wait_cells usecs sg off st) = usecs"
    by (simp add: wait_cells_def bda32_def)
  have "rd32 (wr32 0x49c usecs m) 0x498 = rd32 m 0x498" for m
    by (rule rd32_cong; rule wr32_other; simp)
  then show "bda32 bda_user_wait_complete_flag (wait_cells usecs sg off st) = SEGOFF sg off"
    by (simp add: wait_cells_def bda32_def clock_cells)
qed

lemma wait_cells_low:
  assumes "\<not> (0x410 \<le> unat b \<and> unat b < 0x500)"
  shows "mem (wait_cells usecs sg off st) b = mem st b"
  by (simp add: wait_cells_def clock_cells low_store [OF assms])

lemma set_usertimer_inv:
  assumes "rtc_inv c st" "rtc_users st \<noteq> - 1" "\<not> pending st" "st' = useRTC (wait_cells usecs sg off st)"
  shows "rtc_inv c st'" "rtc_users st' = rtc_users st + 1" "dev st' = dev st"
    "bda8 bda_rtc_wait_flag st' = RWS_WAIT_PENDING" "bda32 bda_user_wait_timeout st' = usecs"
    "bda32 bda_user_wait_complete_flag st' = SEGOFF sg off" "users_ptr st' = users_ptr st"
    "\<And>b. \<not> (0x410 \<le> unat b \<and> unat b < 0x500) \<Longrightarrow> off_users b st \<Longrightarrow> mem st' b = mem st b"
proof -
  let ?w = "wait_cells usecs sg off st"
  have i: "ebda_above st" "rtc_dev c (dev st)" using assms(1) by (simp_all add: rtc_inv_def)
  note w = low_store_cells [OF i(1) wait_cells_low [of _ usecs sg off st]] and s = wait_cells_sel
  have d: "rtc_dev c (dev ?w)" using i(2) s(2) by simp
  note m = useRTC_mem [OF d, folded assms(4)] and lo = users_low [OF w(3) useRTC_mem(1) [OF d], folded assms(4)]
  show u: "rtc_users st' = rtc_users st + 1" using users_write(1) [OF w(3) m(1)] w(2) by simp
  show "dev st' = dev st" using m(2) s(2) by simp
  show lo': "bda8 bda_rtc_wait_flag st' = RWS_WAIT_PENDING" "bda32 bda_user_wait_timeout st' = usecs"
    "bda32 bda_user_wait_complete_flag st' = SEGOFF sg off"
    using lo s by simp_all
  have nz: "rtc_users st + 1 \<noteq> 0" using assms(2) by (metis eq_neg_iff_add_eq_0)
  show "rtc_inv c st'"
    using assms(1) lo(4) w s m(2,3) u nz i(2) by (auto simp: rtc_inv_def)
  show "users_ptr st' = users_ptr st" using users_write(2) [OF w(3) m(1)] w(1) by (simp add: users_ptr_def)
  show "mem st' b = mem st b" if "\<not> (0x410 \<le> unat b \<and> unat b < 0x500)" "off_users b st" for b
  proof -
    have "off_users b ?w" using that(2) by (simp add: off_users_def w(4))
    then show ?thesis using wait_cells_low [OF that(1)] by (simp only: m(1) wr32_users_other)
  qed
qed

text \<open>The invariant only depends on the BIOS cells, the device and register B.\<close>

lemma rtc_inv_cong:
  assumes "rtc_inv c st" "dev st' = dev st" "rtc c st' CMOS_STATUS_B AND RTC_B_PIE = rtc c st CMOS_STATUS_B AND RTC_B_PIE"
    and "get_ebda_seg st' = get_ebda_seg st" "rtc_users st' = rtc_users st"
    "bda8 bda_rtc_wait_flag st' = bda8 bda_rtc_wait_flag st"
  shows "rtc_inv c st'"
  using assms by (simp add: rtc_inv_def ebda_above_def)

lemma cells_same_mem:
  assumes "mem st' = mem st"
  shows "get_ebda_seg st' = get_ebda_seg st" "rtc_users st' = rtc_users st"
    "bda8 bda_rtc_wait_flag st' = bda8 bda_rtc_wait_flag st"
  using assms by (simp_all add: get_ebda_seg_def ebda32_def bda8_def)

lemma clear_usertimer_inv:
  assumes "rtc_inv c st" "pending st" "st' = clear_usertimer st"
  shows "rtc_inv c st'" "rtc_users st' = rtc_users st - 1" "dev st' = dev st" "bda8 bda_rtc_wait_flag st' = 0"
    "\<And>b. \<not> (0x410 \<le> unat b \<and> unat b < 0x500) \<Longrightarrow> off_users b st \<Longrightarrow> mem st' b = mem st b"
proof -
  let ?w = "set_bda8 bda_rtc_wait_flag 0 st"
  have i: "ebda_above st" "rtc_dev c (dev st)" using assms(1) by (simp_all add: rtc_inv_def)
  have st': "st' = releaseRTC ?w" using assms(2,3) by (simp add: clear_usertimer_def)
  have low: "mem ?w b = mem st b" if "\<not> (0x410 \<le> unat b \<and> unat b < 0x500)" for b
    by (simp add: clock_cells low_store [OF that])
  note w = low_store_cells [OF i(1) low]
  have z: "bda8 bda_rtc_wait_flag ?w = 0" by (simp add: bda8_def)
  have rw: "rtc c ?w = rtc c st" by (simp add: rtc_def fun_eq_iff)
  have nz: "rtc_users ?w \<noteq> 0" using assms(1,2) w(2) by (simp add: rtc_inv_def)
  have inv: "rtc_inv c ?w" using assms(1) w z nz rw by (auto simp: rtc_inv_def)
  note r = releaseRTC_inv [OF inv nz, folded st'] and m = releaseRTC_mem [of c ?w, folded st']
  show "rtc_inv c st'" "rtc_users st' = rtc_users st - 1" using r z w(2) by simp_all
  show "dev st' = dev st" using m(2) i(2) by simp
  show "bda8 bda_rtc_wait_flag st' = 0" using users_low(1) [OF w(3) m(1)] i(2) z by simp
  show "mem st' b = mem st b" if "\<not> (0x410 \<le> unat b \<and> unat b < 0x500)" "off_users b st" for b
  proof -
    have "off_users b ?w" using that(2) by (simp add: off_users_def w(4))
    moreover have "mem st' = wr32 (users_ptr ?w) (rtc_users ?w - 1) (mem ?w)" using m(1) i(2) by simp
    ultimately show ?thesis using low [OF that(1)] by (simp only: wr32_users_other)
  qed
qed

lemma pie_only:
  "((b AND (RTC_B_PIE OR RTC_B_AIE)) OR (RTC_B_24HR OR (d AND RTC_B_DSE))) AND RTC_B_PIE = b AND RTC_B_PIE"
  "(b AND NOT RTC_B_SET) AND RTC_B_PIE = b AND RTC_B_PIE"
  "((b AND NOT RTC_B_SET) OR RTC_B_AIE) AND RTC_B_PIE = b AND RTC_B_PIE"
  "(b AND NOT (RTC_B_SET OR RTC_B_AIE)) AND RTC_B_PIE = b AND RTC_B_PIE"
  "b AND NOT RTC_B_SET AND NOT RTC_B_AIE AND RTC_B_PIE = b AND RTC_B_PIE"
  unfolding rtc_bits by (simp_all add: bit.conj_disj_distrib2 and.assoc)

section \<open>The life of the periodic interrupt\<close>

definition seg_ptr :: "u32 \<Rightarrow> u32" where
  "seg_ptr so = MAKE_FLATPTR (ucast (drop_bit 16 so)) (ucast (ucast so :: u16))"

text \<open>A byte outside the BIOS data area and the user counter.\<close>

definition free_byte :: "u32 \<Rightarrow> clock_state \<Rightarrow> bool" where
  "free_byte b st \<longleftrightarrow> \<not> (0x400 \<le> unat b \<and> unat b < 0x500) \<and> off_users b st"

abbreviation flag_ptr :: "clock_state \<Rightarrow> u32" where
  "flag_ptr st \<equiv> seg_ptr (bda32 bda_user_wait_complete_flag st)"

definition rtc_ok :: "(u8 \<Rightarrow> u8) \<Rightarrow> clock_state \<Rightarrow> bool" where
  "rtc_ok c st \<longleftrightarrow> rtc_inv c st \<and> (bda8 bda_rtc_wait_flag st \<noteq> 0 \<longrightarrow> free_byte (flag_ptr st) st)"

lemma seg_ptr_SEGOFF [simp]: "seg_ptr (SEGOFF sg off) = MAKE_FLATPTR sg (ucast off)"
proof -
  have "ucast (drop_bit 16 (SEGOFF sg off)) = sg" "ucast (SEGOFF sg off) = off"
    by (auto simp: SEGOFF_def bit_eq_iff bit_simps dest: bit_imp_le_length)
  then show ?thesis by (simp add: seg_ptr_def)
qed

lemma rtc_ok_same_mem:
  assumes "rtc_ok c st" "mem st' = mem st" "dev st' = dev st"
    and "rtc c st' CMOS_STATUS_B AND RTC_B_PIE = rtc c st CMOS_STATUS_B AND RTC_B_PIE"
  shows "rtc_ok c st'"
proof -
  note same = cells_same_mem [OF assms(2)]
  have "rtc_inv c st'" using assms(1) by (intro rtc_inv_cong [OF _ assms(3,4) same]) (simp add: rtc_ok_def)
  moreover have "bda32 bda_user_wait_complete_flag st' = bda32 bda_user_wait_complete_flag st"
    using assms(2) by (simp add: bda32_def)
  ultimately show ?thesis
    using assms(1) same by (simp add: rtc_ok_def free_byte_def off_users_def users_ptr_def)
qed

text \<open>Stores into the clock cells of the BIOS data area.\<close>

lemma rtc_ok_low:
  assumes "rtc_ok c st" "dev st' = dev st" "rtc c st' = rtc c st"
    and "\<And>b. \<not> (0x410 \<le> unat b \<and> unat b < 0x500) \<Longrightarrow> mem st' b = mem st b"
    and "bda8 bda_rtc_wait_flag st' = bda8 bda_rtc_wait_flag st"
    "bda32 bda_user_wait_complete_flag st' = bda32 bda_user_wait_complete_flag st"
  shows "rtc_ok c st'"
proof -
  have i: "rtc_inv c st" "ebda_above st" using assms(1) by (simp_all add: rtc_ok_def rtc_inv_def)
  note w = low_store_cells [OF i(2) assms(4)]
  have "rtc_inv c st'" using assms(3,5) w by (intro rtc_inv_cong [OF i(1) assms(2)]) simp_all
  then show ?thesis using assms(1,5,6) w by (simp add: rtc_ok_def free_byte_def off_users_def)
qed

lemma other_cells [simp]:
  "bda8 bda_rtc_wait_flag (set_bda32 bda_timer_counter v st) = bda8 bda_rtc_wait_flag st"
  "bda8 bda_rtc_wait_flag (set_bda8 bda_timer_rollover w st) = bda8 bda_rtc_wait_flag st"
  "bda8 bda_rtc_wait_flag (set_bda32 bda_user_wait_timeout v st) = bda8 bda_rtc_wait_flag st"
  "bda32 bda_user_wait_complete_flag (set_bda32 bda_timer_counter v st) = bda32 bda_user_wait_complete_flag st"
  "bda32 bda_user_wait_complete_flag (set_bda8 bda_timer_rollover w st) = bda32 bda_user_wait_complete_flag st"
  "bda32 bda_user_wait_complete_flag (set_bda32 bda_user_wait_timeout v st) = bda32 bda_user_wait_complete_flag st"
  by (simp_all add: bda8_def bda32_def clock_cells rd8_wr32_other)
    (rule rd32_cong; simp add: wr32_other wr8_def)+

lemma clock_store_ok:
  assumes "rtc_ok c st"
  shows "rtc_ok c (set_bda32 bda_timer_counter v st)" "rtc_ok c (set_bda8 bda_timer_rollover w st)"
    "rtc_ok c (set_bda32 bda_user_wait_timeout v st)"
proof -
  have "rtc_ok c st'" if "st' \<in> {set_bda32 bda_timer_counter v st, set_bda8 bda_timer_rollover w st,
      set_bda32 bda_user_wait_timeout v st}" for st'
  proof (rule rtc_ok_low [OF assms])
    show "mem st' b = mem st b" if "\<not> (0x410 \<le> unat b \<and> unat b < 0x500)" for b
      using \<open>st' \<in> _\<close> low_store [OF that] by (auto simp: clock_cells)
  qed (use that in \<open>auto simp: rtc_def fun_eq_iff\<close>)
  then show "rtc_ok c (set_bda32 bda_timer_counter v st)" "rtc_ok c (set_bda8 bda_timer_rollover w st)"
    "rtc_ok c (set_bda32 bda_user_wait_timeout v st)" by simp_all
qed

lemma int1a_ok:
  assumes "rtc_ok c st" "\<And>s. rtc_ok c s \<Longrightarrow> rtc_ok c (yield e s)"
    "\<And>s. rtc_ok c s \<Longrightarrow> rtc_ok c (snd (handle_1ab1 e r s))"
  shows "\<exists>r' st'. handle_1a e r st = Some (r', st') \<and> rtc_ok c st'"
proof -
  have d: "rtc_dev c (dev st)" using assms(1) by (simp add: rtc_ok_def rtc_inv_def)
  have keep: "\<exists>r' st'. h = Some (r', st') \<and> rtc_ok c st'"
    if "\<exists>r' st'. h = Some (r', st') \<and> \<not> carry r' \<and> dev st' = dev st \<and> mem st' = mem st \<and>
      rtc c st' CMOS_STATUS_B AND RTC_B_PIE = rtc c st CMOS_STATUS_B AND RTC_B_PIE" for h
    using that rtc_ok_same_mem [OF assms(1)] by metis
  have 0: "rtc_ok c (snd (handle_1a00 e r st))" "rtc_ok c (snd (handle_1a01 r st))"
    using assms(1,2) by (simp_all add: handle_1a00_def handle_1a01_def Let_def clock_store_ok)
  have 3: "\<exists>r' st'. handle_1a03 e r st = Some (r', st') \<and> rtc_ok c st'"
    by (rule keep) (use set_time_regs [OF d, of e r] in \<open>auto simp: pie_only\<close>)
  have 2: "\<exists>r' st'. handle_1a02 e r st = Some (r', st') \<and> rtc_ok c st'"
    by (rule keep) (use get_time_regs [OF d, of e r] in auto)
  have 4: "\<exists>r' st'. handle_1a04 e r st = Some (r', st') \<and> rtc_ok c st'"
    by (rule keep) (use get_date_regs [OF d, of e r] in auto)
  have 5: "\<exists>r' st'. handle_1a05 e r st = Some (r', st') \<and> rtc_ok c st'"
    by (rule keep) (use set_date_regs [OF d, of e r] in \<open>auto simp: pie_only\<close>)
  have 6: "\<exists>r' st'. handle_1a06 e r st = Some (r', st') \<and> rtc_ok c st'"
    using d rtc_ok_same_mem [OF assms(1)]
    by (simp add: handle_1a06_def inb_cmos_eq [of c] rtc_updating_idle [of c] Let_def rtc_outb pie_only)
  have 7: "rtc_ok c (snd (handle_1a07 r st))"
    using d rtc_ok_same_mem [OF assms(1)]
    by (simp add: handle_1a07_def inb_cmos_eq [of c] Let_def rtc_outb pie_only and.assoc)
  show ?thesis
    using 0 2 3 4 5 6 7 assms(1,3) by (auto simp: handle_1a_def handle_1aXX_def prod_eq_iff)
qed

text \<open>Setting the flag byte of a wait.\<close>

definition set_flag :: "clock_state \<Rightarrow> clock_state" where
  "set_flag st = st\<lparr>mem := wr8 (flag_ptr st) (rd8 (mem st) (flag_ptr st) OR 0x80) (mem st)\<rparr>"

lemma usertimer_tick_eq:
  "usertimer_tick st =
    (if bda8 bda_rtc_wait_flag st = 0 then st
     else if bda32 bda_user_wait_timeout st < USEC_PER_RTC then clear_usertimer (set_flag st)
     else set_bda32 bda_user_wait_timeout (bda32 bda_user_wait_timeout st - USEC_PER_RTC) st)"
  by (simp add: usertimer_tick_def set_flag_def seg_ptr_def Let_def)

lemma free_store_cells:
  assumes "ebda_above st" "free_byte p st" "st' = st\<lparr>mem := wr8 p v (mem st)\<rparr>"
  shows "get_ebda_seg st' = get_ebda_seg st" "rtc_users st' = rtc_users st" "users_ptr st' = users_ptr st"
    "bda8 bda_rtc_wait_flag st' = bda8 bda_rtc_wait_flag st"
    "bda32 bda_user_wait_complete_flag st' = bda32 bda_user_wait_complete_flag st"
    "bda32 bda_user_wait_timeout st' = bda32 bda_user_wait_timeout st"
proof -
  have out: "mem st' b = mem st b" if "0x400 \<le> unat b \<and> unat b < 0x500 \<or> \<not> off_users b st" for b
    using that assms(2,3) by (auto simp: wr8_def free_byte_def)
  show seg: "get_ebda_seg st' = get_ebda_seg st"
    by (simp add: get_ebda_seg_def rd16_def bda_ebda_seg_def out)
  show "rtc_users st' = rtc_users st" by (rule users_cong [OF assms(1) seg]) (simp add: out)
  show "users_ptr st' = users_ptr st" by (simp add: users_ptr_def seg)
  show "bda8 bda_rtc_wait_flag st' = bda8 bda_rtc_wait_flag st"
    "bda32 bda_user_wait_complete_flag st' = bda32 bda_user_wait_complete_flag st"
    "bda32 bda_user_wait_timeout st' = bda32 bda_user_wait_timeout st"
    by (simp_all add: bda8_def bda32_def rd8_def rd32_def rd16_def clock_cells out)
qed

lemma set_flag_ok:
  assumes "rtc_ok c st" "bda8 bda_rtc_wait_flag st \<noteq> 0"
  shows "rtc_inv c (set_flag st)" "rtc_users (set_flag st) = rtc_users st"
    "bda8 bda_rtc_wait_flag (set_flag st) = bda8 bda_rtc_wait_flag st"
    "users_ptr (set_flag st) = users_ptr st" "rtc_ok c (set_flag st)"
proof -
  have i: "rtc_inv c st" "ebda_above st" "free_byte (flag_ptr st) st"
    using assms by (simp_all add: rtc_ok_def rtc_inv_def)
  note w = free_store_cells [OF i(2,3), of "set_flag st", OF set_flag_def]
  show "rtc_users (set_flag st) = rtc_users st" "users_ptr (set_flag st) = users_ptr st"
    "bda8 bda_rtc_wait_flag (set_flag st) = bda8 bda_rtc_wait_flag st"
    using w by simp_all
  show inv: "rtc_inv c (set_flag st)"
    by (rule rtc_inv_cong [OF i(1) _ _ w(1,2,4)]) (simp_all add: set_flag_def)
  show "rtc_ok c (set_flag st)"
    using inv i(3) w by (simp add: rtc_ok_def free_byte_def off_users_def)
qed

lemma clear_usertimer_ok:
  assumes "rtc_ok c st"
  shows "rtc_ok c (clear_usertimer st)"
proof (cases "pending st")
  case True
  then show ?thesis
    using clear_usertimer_inv(1,4) [OF _ True refl, of c] assms by (simp add: rtc_ok_def)
next
  case False
  then show ?thesis using assms by (simp add: clear_usertimer_def)
qed

lemma usertimer_tick_ok: "rtc_ok c st \<Longrightarrow> rtc_ok c (usertimer_tick st)"
  using clear_usertimer_ok [OF set_flag_ok(5)] clock_store_ok(3) by (simp add: usertimer_tick_eq)

lemma eoi_ok: "rtc_ok c st \<Longrightarrow> rtc_ok c (eoi_pic2 st)"
  by (erule rtc_ok_same_mem)
    (simp_all add: eoi_pic2_def eoi_pic1_def rtc_def outb_def PORT_PIC2_CMD_def PORT_PIC1_CMD_def)

lemma handle_70_ok:
  assumes "rtc_ok c st" "\<And>s. rtc_ok c s \<Longrightarrow> rtc_ok c (check_preempt e s)"
    "\<And>s. rtc_ok c s \<Longrightarrow> rtc_ok c (call16_simpint e 0x4a s)"
  shows "rtc_ok c (handle_70 e st)"
proof -
  obtain b s1 k s2 where io: "inb_cmos CMOS_STATUS_B st = (b, s1)" "inb_cmos CMOS_STATUS_C s1 = (k, s2)"
    by (meson surj_pair)
  have touch: "rtc_ok c (snd (inb_cmos r s))" if "rtc_ok c s" for r s
    by (rule rtc_ok_same_mem [OF that]) simp_all
  have "rtc_ok c s2" using touch [OF touch [OF assms(1)], of CMOS_STATUS_C CMOS_STATUS_B] io by simp
  then show ?thesis
    using assms(2,3) by (simp add: handle_70_def io eoi_ok usertimer_tick_ok)
qed

lemma set_usertimer_ok:
  assumes "rtc_ok c st" "rtc_users st \<noteq> - 1" "free_byte (MAKE_FLATPTR sg (ucast off)) st"
  shows "rtc_ok c (snd (set_usertimer usecs sg off st))"
proof (cases "pending st")
  case True
  then show ?thesis using assms(1) by (simp add: set_usertimer_eq)
next
  case False
  have inv: "rtc_inv c st" using assms(1) by (simp add: rtc_ok_def)
  note w = set_usertimer_inv [where usecs = usecs and sg = sg and off = off, OF inv assms(2) False refl]
  show ?thesis
    using False w assms(3) by (simp add: set_usertimer_eq rtc_ok_def free_byte_def off_users_def)
qed

text \<open>
  The operations of the clock, in any order: the services of INT 1Ah, INT 15h/83h and INT 15h/86h (which returns
  when the interrupts it waits for have set its flag),
  a thread switch that takes the periodic interrupt or gives it back, and the interrupts of the timer and of the chip. The counter of
  the users does not reach \<open>2 ^ 32\<close>, only a user other than a pending wait gives it back, and the
  flag byte of a wait lies outside the cells of the BIOS.
\<close>

inductive rtc_step :: "clock_env \<Rightarrow> clock_state \<Rightarrow> clock_state \<Rightarrow> bool" for e where
  int1a: "handle_1a e r st = Some (r', st') \<Longrightarrow> rtc_step e st st'"
| int1583: "handle_1583 r st = (r', st') \<Longrightarrow> rtc_users st \<noteq> - 1 \<Longrightarrow>
    free_byte (MAKE_FLATPTR (r_es r) (ucast (BX r))) st \<Longrightarrow> rtc_step e st st'"
| use_rtc: "rtc_users st \<noteq> - 1 \<Longrightarrow> rtc_step e st (useRTC st)"
| release: "rtc_users st \<noteq> 0 \<Longrightarrow> (pending st \<longrightarrow> rtc_users st \<noteq> 1) \<Longrightarrow> rtc_step e st (releaseRTC st)"
| int1586: "handle_1586 e r st = Some (r', st') \<Longrightarrow> rtc_users st \<noteq> - 1 \<Longrightarrow>
    free_byte (statusflag_ptr e) st \<Longrightarrow> rtc_step e st st'"
| irq0: "rtc_step e st (handle_08 e st)"
| irq8: "rtc_step e st (handle_70 e st)"

inductive_simps rtc_step_iff: "rtc_step e st st'"

text \<open>The threads, the interrupt handlers of the user and the PCI services keep to the same rules.\<close>

definition clock_env_ok :: "(u8 \<Rightarrow> u8) \<Rightarrow> clock_env \<Rightarrow> bool" where
  "clock_env_ok c e \<longleftrightarrow> (\<forall>s. rtc_ok c s \<longrightarrow> rtc_ok c (yield e s) \<and> rtc_ok c (check_preempt e s) \<and>
     rtc_ok c (call16_simpint e 0x4a s) \<and> rtc_ok c (call16_simpint e 0x1c s) \<and> rtc_ok c (wait_irq e s) \<and>
     rtc_ok c (floppy_tick e s) \<and> rtc_ok c (usb_check_event e s) \<and> (\<forall>r. rtc_ok c (snd (handle_1ab1 e r s))))"

lemma wait_flag_ok:
  assumes "wait_flag e st = Some st'" "clock_env_ok c e" "rtc_ok c st"
  shows "rtc_ok c st'"
  using assms
proof (induction e st st' rule: wait_flag.raw_induct [rotated, consumes 1, case_names step])
  case (step wf e st st')
  show ?case
  proof (cases "rd8 (mem st) (statusflag_ptr e) \<noteq> 0")
    case False
    have "rtc_ok c (wait_irq e st)" using step.prems by (simp add: clock_env_ok_def)
    then show ?thesis using step False by simp
  qed (use step in simp)
qed

lemma flag_store_ok:
  assumes "rtc_ok c st" "free_byte p st"
  shows "rtc_ok c (st\<lparr>mem := wr8 p v (mem st)\<rparr>)" "free_byte q st \<Longrightarrow> free_byte q (st\<lparr>mem := wr8 p v (mem st)\<rparr>)"
    "rtc_users (st\<lparr>mem := wr8 p v (mem st)\<rparr>) = rtc_users st"
proof -
  have i: "rtc_inv c st" "ebda_above st" using assms(1) by (simp_all add: rtc_ok_def rtc_inv_def)
  note w = free_store_cells [OF i(2) assms(2), of "st\<lparr>mem := wr8 p v (mem st)\<rparr>", OF refl]
  show "free_byte q st \<Longrightarrow> free_byte q (st\<lparr>mem := wr8 p v (mem st)\<rparr>)"
    using w by (simp add: free_byte_def off_users_def)
  show "rtc_users (st\<lparr>mem := wr8 p v (mem st)\<rparr>) = rtc_users st" by (rule w)
  have "rtc_inv c (st\<lparr>mem := wr8 p v (mem st)\<rparr>)"
    by (rule rtc_inv_cong [OF i(1) _ _ w(1,2,4)]) simp_all
  then show "rtc_ok c (st\<lparr>mem := wr8 p v (mem st)\<rparr>)"
    using assms(1) w by (simp add: rtc_ok_def free_byte_def off_users_def)
qed

lemma eoi1_ok: "rtc_ok c st \<Longrightarrow> rtc_ok c (eoi_pic1 st)"
  by (erule rtc_ok_same_mem) (simp_all add: eoi_pic1_def rtc_def outb_def PORT_PIC1_CMD_def)

lemma handle_08_ok:
  assumes "rtc_ok c st" "clock_env_ok c e"
  shows "rtc_ok c (handle_08 e st)"
  using assms by (simp add: handle_08_def Let_def clock_env_ok_def eoi1_ok clock_store_ok)

lemma users_ok:
  assumes "rtc_ok c st" "rtc_inv c st'" "mem st' = wr32 (users_ptr st) v (mem st)"
  shows "rtc_ok c st'"
proof -
  have a: "ebda_above st" using assms(1) by (simp add: rtc_ok_def rtc_inv_def)
  show ?thesis
    using assms(1,2) users_low [OF a assms(3)] users_write(2) [OF a assms(3)]
    by (simp add: rtc_ok_def free_byte_def off_users_def users_ptr_def)
qed

lemma rtc_step_ok:
  assumes "rtc_step e st st'" "clock_env_ok c e" "rtc_ok c st"
  shows "rtc_ok c st'"
  using assms(1)
proof cases
  case (int1a r r')
  then show ?thesis
    using int1a_ok [OF assms(3), of e r] assms(2) by (fastforce simp: clock_env_ok_def)
next
  case (int1583 r r')
  then show ?thesis
    using set_usertimer_ok [OF assms(3), of "r_es r" "BX r" "CXDX r"] clear_usertimer_ok [OF assms(3)] assms(3)
    by (auto simp: handle_1583_def handle_158300_def handle_158301_def handle_1583XX_def Let_def split: if_splits prod.splits)
next
  case use_rtc
  then show ?thesis
    using users_ok [OF assms(3)] useRTC_inv(1) [of c st] useRTC_mem(1) [of c st] assms(3)
    by (simp add: rtc_ok_def rtc_inv_def)
next
  case release
  then show ?thesis
    using users_ok [OF assms(3)] releaseRTC_inv(1) [of c st] releaseRTC_mem(1) [of c st] assms(3)
    by (simp add: rtc_ok_def rtc_inv_def)
next
  case (int1586 r r')
  let ?s = "st\<lparr>mem := wr8 (statusflag_ptr e) 0 (mem st)\<rparr>"
  note s = flag_store_ok [OF assms(3) int1586(3), where v = 0]
  have "rtc_users ?s \<noteq> - 1" "free_byte (MAKE_FLATPTR (stack_seg e) (ucast (statusflag_ofs e))) ?s"
    using s(2) [OF int1586(3)] s(3) int1586(2) by (simp_all add: statusflag_ptr_def)
  from set_usertimer_ok [OF s(1) this, of "CXDX r"] show ?thesis
    using int1586(1) wait_flag_ok [OF _ assms(2)] by (auto simp: handle_1586_def Let_def split: prod.splits if_splits option.splits)
next
  case irq0
  then show ?thesis using handle_08_ok [OF assms(3,2)] by simp
next
  case irq8
  then show ?thesis
    using handle_70_ok [OF assms(3), of e] assms(2) by (simp add: clock_env_ok_def)
qed

text \<open>C29: The chip's periodic interrupt is enabled if and only if the user counter of the EBDA is not 0, and a
  pending wait is counted as a user, in every state reached by a sequence of these steps: the services of
  INT 1Ah, INT 15h/83h and INT 15h/86h, the timer interrupts IRQ 0 and IRQ 8, and a thread that takes the
  interrupt or, if it is a user, gives it back. The chip is taken to answer every access and never to report
  an update in progress, so the time-outs after which the code initialises the chip again are not among the
  steps; the flag byte of a wait lies outside the BIOS data area and the counter, the counter does not
  overflow, and threads, hooks and the other interrupt handlers keep the invariant.\<close>

theorem periodic_interrupt_has_users:
  assumes "(rtc_step e)\<^sup>*\<^sup>* st st'" "clock_env_ok c e" "rtc_ok c st"
  shows "(rtc c st' CMOS_STATUS_B AND RTC_B_PIE \<noteq> 0 \<longleftrightarrow> rtc_users st' \<noteq> 0) \<and> (pending st' \<longrightarrow> rtc_users st' \<noteq> 0)"
proof -
  have "rtc_ok c st'"
    using assms(1,3) by (induction rule: rtranclp_induct) (auto intro: rtc_step_ok assms(2))
  then show ?thesis by (simp add: rtc_ok_def rtc_inv_def)
qed

lemma demo_rtc_cells:
  "get_ebda_seg demo_rtc = 0x9fc0" "ebda_above demo_rtc" "bda8 bda_rtc_wait_flag demo_rtc = 0"
  "ebda32 0x9fc0 ebda_RTCusers demo_rtc = 0" "rtc c demo_rtc r = c r" "dev demo_rtc = rtc_chip (\<lambda>_. 0)"
proof -
  show seg: "get_ebda_seg demo_rtc = 0x9fc0"
    by (simp add: get_ebda_seg_def demo_rtc_def bda_ebda_seg_def)
  show "ebda32 0x9fc0 ebda_RTCusers demo_rtc = 0"
    by (simp add: ebda32_def demo_rtc_def demo_clock_def ebda_RTCusers_def MAKE_FLATPTR_def
        push_bit_eq_mult rd32_def rd16_def wr16_def)
qed (simp_all add: ebda_above_def get_ebda_seg_def demo_rtc_def demo_clock_def bda8_def clock_cells bda_ebda_seg_def
    rd8_def wr16_def rtc_def rd16_def)

lemma demo_rtc_ok: "rtc_ok (\<lambda>_. 0) demo_rtc" "clock_env_ok c demo_env"
  using rtc_chip_dev by (simp_all add: rtc_ok_def rtc_inv_def demo_rtc_cells clock_env_ok_def demo_env_def)

theorem periodic_interrupt_has_users_witness:
  "rtc (\<lambda>_. 0) (useRTC demo_rtc) CMOS_STATUS_B AND RTC_B_PIE \<noteq> 0"
proof -
  have i: "rtc_inv (\<lambda>_. 0) demo_rtc" using demo_rtc_ok(1) by (simp add: rtc_ok_def)
  have "rtc_users (useRTC demo_rtc) = 1" using useRTC_inv(2) [OF i] by (simp add: demo_rtc_cells)
  moreover have "(rtc_step demo_env)\<^sup>*\<^sup>* demo_rtc (useRTC demo_rtc)"
    by (rule r_into_rtranclp, rule use_rtc) (simp add: demo_rtc_cells)
  ultimately show ?thesis
    using periodic_interrupt_has_users [OF _ demo_rtc_ok(2) demo_rtc_ok(1), of "useRTC demo_rtc"] by simp
qed

section \<open>User timers\<close>

text \<open>
  The environment of a wait: register C reports periodic interrupts only, and the thread switch in
  the interrupt leaves the memory and the chip's registers alone.
\<close>

definition periodic_only :: "(u8 \<Rightarrow> u8) \<Rightarrow> clock_env \<Rightarrow> device \<Rightarrow> bool" where
  "periodic_only c e d \<longleftrightarrow> (\<forall>l. cmos_sel l = CMOS_STATUS_C \<longrightarrow> d l W8 0x71 AND 0x60 = 0x40) \<and>
     (\<forall>s. mem (check_preempt e s) = mem s \<and> dev (check_preempt e s) = dev s \<and> rtc c (check_preempt e s) = rtc c s)"

text \<open>A wait with \<open>time\<close> microseconds left, and its end with the value \<open>v\<close> in the flag byte.\<close>

definition waits :: "(u8 \<Rightarrow> u8) \<Rightarrow> device \<Rightarrow> u32 \<Rightarrow> u32 \<Rightarrow> u8 \<Rightarrow> u32 \<Rightarrow> clock_state \<Rightarrow> bool" where
  "waits c d u p v time st \<longleftrightarrow> rtc_ok c st \<and> dev st = d \<and> rtc_users st = u \<and>
     bda8 bda_rtc_wait_flag st = RWS_WAIT_PENDING \<and> bda32 bda_user_wait_timeout st = time \<and>
     flag_ptr st = p \<and> rd8 (mem st) p = v"

definition waited :: "(u8 \<Rightarrow> u8) \<Rightarrow> device \<Rightarrow> u32 \<Rightarrow> u32 \<Rightarrow> u8 \<Rightarrow> clock_state \<Rightarrow> bool" where
  "waited c d u p v st \<longleftrightarrow> rtc_ok c st \<and> dev st = d \<and> rtc_users st = u \<and>
     bda8 bda_rtc_wait_flag st = 0 \<and> rd8 (mem st) p = v"

lemma wait_cong:
  assumes "mem st' = mem st" "dev st' = dev st" "rtc c st' CMOS_STATUS_B AND RTC_B_PIE = rtc c st CMOS_STATUS_B AND RTC_B_PIE"
  shows "waits c d u p v time st \<Longrightarrow> waits c d u p v time st'" "waited c d u p v st \<Longrightarrow> waited c d u p v st'"
  using rtc_ok_same_mem [OF _ assms] cells_same_mem [OF assms(1)] assms(1,2)
  by (simp_all add: waits_def waited_def bda32_def)

lemma waits_continue:
  assumes "waits c d u p v time st" "USEC_PER_RTC \<le> time"
  shows "waits c d u p v (time - USEC_PER_RTC) (usertimer_tick st)"
proof -
  let ?s = "set_bda32 bda_user_wait_timeout (time - USEC_PER_RTC) st"
  have w: "rtc_ok c st" "bda8 bda_rtc_wait_flag st = RWS_WAIT_PENDING" "free_byte p st" "ebda_above st"
    using assms(1) by (auto simp: waits_def rtc_ok_def rtc_inv_def RWS_WAIT_PENDING_def)
  have low: "mem ?s b = mem st b" if "\<not> (0x410 \<le> unat b \<and> unat b < 0x500)" for b
    by (simp add: clock_cells low_store [OF that])
  note l = low_store_cells [OF w(4) low]
  have "mem ?s p = mem st p" by (rule low) (use w(3) in \<open>simp add: free_byte_def\<close>)
  moreover have "bda32 bda_user_wait_timeout ?s = time - USEC_PER_RTC" by (simp add: bda32_def)
  moreover have "usertimer_tick st = ?s"
    using assms w(2) by (simp add: usertimer_tick_eq waits_def RWS_WAIT_PENDING_def not_less)
  ultimately show ?thesis
    using assms(1) clock_store_ok(3) [OF w(1), of "time - USEC_PER_RTC"] l by (simp add: waits_def rd8_def)
qed

lemma waits_finish:
  assumes "waits c d u p v time st" "time < USEC_PER_RTC"
  shows "waited c d (u - 1) p (v OR 0x80) (usertimer_tick st)"
proof -
  have w: "rtc_ok c st" "bda8 bda_rtc_wait_flag st \<noteq> 0" "free_byte p st" "flag_ptr st = p" "pending st"
    using assms(1) by (auto simp: waits_def rtc_ok_def rtc_inv_def RWS_WAIT_PENDING_def)
  note f = set_flag_ok [OF w(1,2)]
  have p: "pending (set_flag st)" using w(5) f(3) by simp
  note k = clear_usertimer_inv [OF f(1) p refl]
  have "free_byte p (set_flag st)" using w(3) f(4) by (simp add: free_byte_def off_users_def)
  then have "mem (clear_usertimer (set_flag st)) p = mem (set_flag st) p"
    by (intro k(5)) (simp_all add: free_byte_def)
  also have "\<dots> = v OR 0x80" using assms(1) w(4) by (simp add: set_flag_def waits_def wr8_def)
  finally have "rd8 (mem (clear_usertimer (set_flag st))) p = v OR 0x80" by (simp add: rd8_def)
  moreover have "usertimer_tick st = clear_usertimer (set_flag st)"
    using assms w(2) by (simp add: usertimer_tick_eq waits_def)
  ultimately show ?thesis
    using assms(1) k f(2) clear_usertimer_ok [OF f(5)] by (simp add: waited_def waits_def set_flag_def)
qed

text \<open>One interrupt of a wait, and one after its end.\<close>

lemma c_bits: "v AND 0x60 = 0x40 \<Longrightarrow> ucast (v :: u32) AND (0x60 :: u8) = 0x40"
proof -
  have "ucast (v AND 0x60) = ucast v AND (0x60 :: u8)" by (auto simp: bit_eq_iff bit_simps)
  then show "v AND 0x60 = 0x40 \<Longrightarrow> ucast v AND (0x60 :: u8) = 0x40" by simp
qed

lemma k_bits:
  assumes "(k :: u8) AND 0x60 = 0x40"
  shows "k AND 0x20 = 0" "k AND 0x40 \<noteq> 0"
proof -
  have "k AND 0x20 = (k AND 0x60) AND 0x20" "k AND 0x40 = (k AND 0x60) AND 0x40"
    by (simp_all add: and.assoc)
  then show "k AND 0x20 = 0" "k AND 0x40 \<noteq> 0" by (simp_all add: assms)
qed

lemma handle_70_periodic:
  assumes "rtc_ok c st" "periodic_only c e (dev st)"
  obtains s where "mem s = mem st" "dev s = dev st" "rtc c s = rtc c st"
    "handle_70 e st = eoi_pic2 (if rtc c st CMOS_STATUS_B AND (RTC_B_PIE OR RTC_B_AIE) = 0 then s else usertimer_tick s)"
proof -
  have d: "rtc_dev c (dev st)" using assms(1) by (simp add: rtc_ok_def rtc_inv_def)
  let ?s1 = "cmos_touch CMOS_STATUS_B st"
  let ?s2 = "cmos_touch CMOS_STATUS_C ?s1"
  have B: "inb_cmos CMOS_STATUS_B st = (rtc c st CMOS_STATUS_B, ?s1)" by (rule inb_cmos_eq) (simp_all add: d)
  obtain k where C: "inb_cmos CMOS_STATUS_C ?s1 = (k, ?s2)" by (metis cmos_touch_def prod.collapse)
  have "cmos_sel (PortOut W8 0x70 (ucast (CMOS_STATUS_C OR 0x80)) # io_log ?s1) = CMOS_STATUS_C"
    by (simp add: CMOS_STATUS_C_def)
  then have "dev ?s1 (PortOut W8 0x70 (ucast (CMOS_STATUS_C OR 0x80)) # io_log ?s1) W8 0x71 AND 0x60 = 0x40"
    using assms(2) unfolding periodic_only_def cmos_touch_sel by blast
  moreover have "k = ucast (dev ?s1 (PortOut W8 0x70 (ucast (CMOS_STATUS_C OR 0x80)) # io_log ?s1) W8 0x71)"
    using C by (simp add: inb_cmos_def inb_def outb_def Let_def PORT_CMOS_DATA_def PORT_CMOS_INDEX_def NMI_DISABLE_BIT_def)
  ultimately have "k AND 0x60 = 0x40"
    using c_bits by metis
  then have k: "k AND RTC_B_AIE = 0" "k AND RTC_B_PIE \<noteq> 0"
    using k_bits by (simp_all add: rtc_bits)
  show thesis
  proof (rule that)
    let ?s = "if rtc c st CMOS_STATUS_B AND (RTC_B_PIE OR RTC_B_AIE) = 0 then ?s2 else check_preempt e ?s2"
    show "mem ?s = mem st" "dev ?s = dev st" "rtc c ?s = rtc c st"
      using assms(2) by (simp_all add: periodic_only_def)
    show "handle_70 e st = eoi_pic2 (if rtc c st CMOS_STATUS_B AND (RTC_B_PIE OR RTC_B_AIE) = 0 then ?s else usertimer_tick ?s)"
      using k by (simp add: handle_70_def B C)
  qed
qed

lemma rtc_eoi [simp]: "rtc c (eoi_pic2 st) = rtc c st"
  by (simp add: eoi_pic2_def eoi_pic1_def rtc_def fun_eq_iff outb_def PORT_PIC2_CMD_def PORT_PIC1_CMD_def)

lemma handle_70_waits:
  assumes "waits c d u p v time st" "periodic_only c e d"
  shows "if time < USEC_PER_RTC then waited c d (u - 1) p (v OR 0x80) (handle_70 e st)
    else waits c d u p v (time - USEC_PER_RTC) (handle_70 e st)"
proof -
  have w: "rtc_ok c st" "dev st = d" "pending st" using assms(1) by (simp_all add: waits_def RWS_WAIT_PENDING_def)
  obtain s where s: "mem s = mem st" "dev s = dev st" "rtc c s = rtc c st"
    "handle_70 e st = eoi_pic2 (if rtc c st CMOS_STATUS_B AND (RTC_B_PIE OR RTC_B_AIE) = 0 then s else usertimer_tick s)"
    using handle_70_periodic [OF w(1)] assms(2) w(2) by metis
  have "rtc c st CMOS_STATUS_B AND RTC_B_PIE \<noteq> 0" using w(1,3) by (simp add: rtc_ok_def rtc_inv_def)
  then have "rtc c st CMOS_STATUS_B AND (RTC_B_PIE OR RTC_B_AIE) \<noteq> 0"
    by (metis bit.conj_disj_distrib or_eq_0_iff)
  then have h: "handle_70 e st = eoi_pic2 (usertimer_tick s)" using s(4) by simp
  have ws: "waits c d u p v time s" by (rule wait_cong(1) [OF s(1,2) _ assms(1)]) (simp add: s(3))
  show ?thesis
  proof (cases "time < USEC_PER_RTC")
    case True
    then show ?thesis unfolding h by (simp add: wait_cong(2) [OF _ _ _ waits_finish [OF ws True]])
  next
    case False
    then have "USEC_PER_RTC \<le> time" by simp
    from wait_cong(1) [OF _ _ _ waits_continue [OF ws this], of "eoi_pic2 (usertimer_tick s)"] False
    show ?thesis unfolding h by simp
  qed
qed

lemma handle_70_waited:
  assumes "waited c d u p v st" "periodic_only c e d"
  shows "waited c d u p v (handle_70 e st)"
proof -
  have w: "rtc_ok c st" "dev st = d" "bda8 bda_rtc_wait_flag st = 0" using assms(1) by (simp_all add: waited_def)
  obtain s where s: "mem s = mem st" "dev s = dev st" "rtc c s = rtc c st"
    "handle_70 e st = eoi_pic2 (if rtc c st CMOS_STATUS_B AND (RTC_B_PIE OR RTC_B_AIE) = 0 then s else usertimer_tick s)"
    using handle_70_periodic [OF w(1)] assms(2) w(2) by metis
  have "usertimer_tick s = s" using w(3) cells_same_mem(3) [OF s(1)] by (simp add: usertimer_tick_eq)
  then show ?thesis using s by (intro wait_cong(2) [OF _ _ _ assms(1)]) simp_all
qed

lemma waits_run:
  assumes "waits c d u p v time st" "periodic_only c e d"
  shows "if n \<le> unat time div 977 then waits c d u p v (time - of_nat (977 * n)) ((handle_70 e ^^ n) st)
    else waited c d (u - 1) p (v OR 0x80) ((handle_70 e ^^ n) st)"
proof (induction n)
  case 0 then show ?case using assms(1) by simp
next
  case (Suc n)
  let ?s = "(handle_70 e ^^ n) st"
  show ?case
  proof (cases "n \<le> unat time div 977")
    case True
    have le: "977 * n \<le> unat time" using True by linarith
    then have left: "unat (time - of_nat (977 * n)) = unat time - 977 * n"
    proof -
      have "unat time < 2 ^ 32" by (rule less_le_trans [OF unsigned_less]) simp
      then have "unat (of_nat (977 * n) :: u32) = 977 * n"
        using le by (simp only: unsigned_of_nat) (simp add: take_bit_nat_eq_self)
      then show ?thesis using le by (subst unat_sub) (simp_all only: word_le_nat_alt)
    qed
    have w: "waits c d u p v (time - of_nat (977 * n)) ?s" using Suc True by simp
    have iff: "time - of_nat (977 * n) < USEC_PER_RTC \<longleftrightarrow> \<not> Suc n \<le> unat time div 977"
      using le by (simp only: word_less_nat_alt left USEC_PER_RTC_eq) (simp, linarith)
    show ?thesis
      using handle_70_waits [OF w assms(2)] iff
      by (simp add: USEC_PER_RTC_eq algebra_simps split: if_splits)
  next
    case False
    then show ?thesis using Suc handle_70_waited [OF _ assms(2), of u] by (simp add: handle_70_waited [OF _ assms(2)])
  qed
qed

lemma set_usertimer_waits:
  assumes "rtc_ok c st" "rtc_users st \<noteq> - 1" "\<not> pending st" "free_byte (MAKE_FLATPTR sg (ucast off)) st"
  shows "\<exists>st'. set_usertimer usecs sg off st = (True, st') \<and>
    waits c (dev st) (rtc_users st + 1) (MAKE_FLATPTR sg (ucast off)) (rd8 (mem st) (MAKE_FLATPTR sg (ucast off))) usecs st'"
proof -
  have inv: "rtc_inv c st" using assms(1) by (simp add: rtc_ok_def)
  note w = set_usertimer_inv [where usecs = usecs and sg = sg and off = off, OF inv assms(2,3) refl]
  have ok: "rtc_ok c (useRTC (wait_cells usecs sg off st))"
    using set_usertimer_ok [OF assms(1,2,4), of usecs] assms(3) by (simp add: set_usertimer_eq)
  show ?thesis
    using w ok assms(3,4) by (simp add: set_usertimer_eq waits_def rd8_def free_byte_def)
qed

text \<open>C28: After INT 15h function 8300h has accepted a wait of \<open>CX:DX\<close> microseconds, the flag byte is
  unchanged, the wait is pending and holds the periodic interrupt for the first
  \<open>CX:DX div 977\<close> periodic interrupts; the next one sets bit 7 of the byte, ends the wait and gives
  the interrupt back, and later interrupts change nothing.\<close>

theorem user_timer_fires:
  assumes "rtc_ok c st" "rtc_users st \<noteq> - 1" "\<not> pending st" "periodic_only c e (dev st)" "AL r = 0"
    and "free_byte (MAKE_FLATPTR (r_es r) (ucast (BX r))) st"
  shows "\<exists>r' st'. handle_1583 r st = (r', st') \<and> \<not> carry r' \<and>
    (\<forall>n. rd8 (mem ((handle_70 e ^^ n) st')) (MAKE_FLATPTR (r_es r) (ucast (BX r))) =
        (if n \<le> unat (CXDX r) div 977 then rd8 (mem st) (MAKE_FLATPTR (r_es r) (ucast (BX r)))
         else rd8 (mem st) (MAKE_FLATPTR (r_es r) (ucast (BX r))) OR 0x80) \<and>
      (pending ((handle_70 e ^^ n) st') \<longleftrightarrow> n \<le> unat (CXDX r) div 977) \<and>
      rtc_users ((handle_70 e ^^ n) st') = (if n \<le> unat (CXDX r) div 977 then rtc_users st + 1 else rtc_users st))"
proof -
  let ?p = "MAKE_FLATPTR (r_es r) (ucast (BX r))"
  obtain st' where s: "set_usertimer (CXDX r) (r_es r) (BX r) st = (True, st')"
      "waits c (dev st) (rtc_users st + 1) ?p (rd8 (mem st) ?p) (CXDX r) st'"
    using set_usertimer_waits [OF assms(1-3,6)] by metis
  have h: "handle_1583 r st = (set_success r, st')" "\<not> carry (set_success r)"
    using assms(5) s(1) by (simp_all add: handle_1583_def handle_158300_def set_success_def)
  show ?thesis
  proof (rule exI, rule exI, rule conjI, rule h(1), rule conjI, rule h(2), rule allI)
    fix n
    let ?s = "(handle_70 e ^^ n) st'"
    show "rd8 (mem ?s) ?p = (if n \<le> unat (CXDX r) div 977 then rd8 (mem st) ?p else rd8 (mem st) ?p OR 0x80) \<and>
      (pending ?s \<longleftrightarrow> n \<le> unat (CXDX r) div 977) \<and>
      rtc_users ?s = (if n \<le> unat (CXDX r) div 977 then rtc_users st + 1 else rtc_users st)"
      using waits_run [OF s(2) assms(4), of n]
      by (auto simp: waits_def waited_def RWS_WAIT_PENDING_def split: if_splits)
  qed
qed

lemma demo_periodic:
  "periodic_only c (demo_env\<lparr>wait_irq := w\<rparr>) (dev demo_rtc)" "periodic_only c demo_env (dev demo_rtc)"
  by (simp_all add: periodic_only_def demo_env_def demo_rtc_cells rtc_chip_def cmos_plain_def)

lemma demo_users_ptr: "users_ptr demo_rtc = 0x9fd2a"
  by (simp add: users_ptr_def demo_rtc_cells MAKE_FLATPTR_def ebda_RTCusers_def push_bit_eq_mult)

theorem user_timer_fires_witness:
  "\<exists>st'. snd (handle_1583 (demo_regs 0x8300 0xf 0x4240) demo_rtc) = st' \<and>
    rd8 (mem ((handle_70 demo_env ^^ 1023) st')) 0x20000 = 0 \<and>
    rd8 (mem ((handle_70 demo_env ^^ 1024) st')) 0x20000 = 0x80"
proof -
  let ?r = "demo_regs 0x8300 0xf 0x4240"
  have p: "MAKE_FLATPTR (r_es ?r) (ucast (BX ?r)) = 0x20000" by code_simp
  have r: "AL ?r = 0" "CXDX ?r = 1000000" by code_simp+
  have f: "free_byte 0x20000 demo_rtc" by (simp add: free_byte_def off_users_def demo_users_ptr)
  have m: "rd8 (mem demo_rtc) 0x20000 = 0" by (simp add: rd8_def demo_rtc_def wr16_def)
  show ?thesis
    using user_timer_fires [OF demo_rtc_ok(1) _ _ demo_periodic(2) r(1), unfolded p] f m r(2)
    by (auto simp: demo_rtc_cells simp del: funpow.simps)
qed

lemma wait_flag_run:
  assumes "wait_irq e = handle_70 e" "\<And>n. n < k \<Longrightarrow> rd8 (mem ((handle_70 e ^^ n) st)) (statusflag_ptr e) = 0"
    "rd8 (mem ((handle_70 e ^^ k) st)) (statusflag_ptr e) \<noteq> 0"
  shows "wait_flag e st = Some ((handle_70 e ^^ k) st)"
  using assms(2,3)
proof (induction k arbitrary: st)
  case 0 then show ?case by (simp add: wait_flag.simps [of e st])
next
  case (Suc k)
  have "rd8 (mem st) (statusflag_ptr e) = 0" using Suc.prems(1) [of 0] by simp
  moreover have "wait_flag e (handle_70 e st) = Some ((handle_70 e ^^ k) (handle_70 e st))"
    using Suc.prems(1) [of "Suc _"] Suc.prems(2)
    by (intro Suc.IH) (simp_all add: funpow_Suc_right del: funpow.simps)
  ultimately show ?case
    by (simp add: wait_flag.simps [of e st] assms(1) funpow_Suc_right del: funpow.simps)
qed

text \<open>INT 15h function 86h returns: with no wait pending it waits for exactly
  \<open>CX:DX div 977 + 1\<close> periodic interrupts, reports success and leaves no wait and no additional user
  of the interrupt behind; with a wait pending it reports the clock in use at once.\<close>

theorem wait_returns:
  assumes "rtc_ok c st" "rtc_users st \<noteq> - 1" "periodic_only c e (dev st)" "wait_irq e = handle_70 e"
    and "free_byte (statusflag_ptr e) st"
  shows "\<exists>st1 r' st2. handle_1586 e r st = Some (r', st2) \<and>
    (if pending st then carry r' \<and> AH r' = 0x83 \<and> st2 = st1
     else \<not> carry r' \<and> st2 = (handle_70 e ^^ Suc (unat (CXDX r) div 977)) st1 \<and> \<not> pending st2) \<and>
    rtc_users st2 = rtc_users st"
proof -
  let ?p = "statusflag_ptr e"
  let ?s = "st\<lparr>mem := wr8 ?p 0 (mem st)\<rparr>"
  have a: "rtc_inv c st" "ebda_above st" using assms(1) by (simp_all add: rtc_ok_def rtc_inv_def)
  note w = free_store_cells [OF a(2) assms(5) refl, of 0]
  have inv: "rtc_inv c ?s" by (rule rtc_inv_cong [OF a(1) _ _ w(1,2,4)]) simp_all
  have free: "free_byte ?p ?s" using assms(5) w(3) by (simp add: free_byte_def off_users_def)
  have ok: "rtc_ok c ?s"
    using assms(1) inv w by (simp add: rtc_ok_def free_byte_def off_users_def)
  show ?thesis
  proof (cases "pending st")
    case True
    then have "handle_1586 e r st = Some (set_code_invalid_silent RET_ECLOCKINUSE r, ?s)"
      using w(4) by (simp add: handle_1586_def set_usertimer_eq)
    then show ?thesis
      using True w(2) by (simp add: set_code_invalid_silent_def lane_defs set_lane_defs RET_ECLOCKINUSE_def)
  next
    case False
    have users: "rtc_users ?s \<noteq> - 1" "\<not> pending ?s" using assms(2) False w(2,4) by simp_all
    obtain st1 where s: "set_usertimer (CXDX r) (stack_seg e) (statusflag_ofs e) ?s = (True, st1)"
        "waits c (dev st) (rtc_users st + 1) ?p 0 (CXDX r) st1"
      using set_usertimer_waits [OF ok users, of "stack_seg e" "statusflag_ofs e" "CXDX r", folded statusflag_ptr_def]
        free w(2) by auto
    let ?k = "Suc (unat (CXDX r) div 977)"
    note run = waits_run [OF s(2) assms(3)]
    have "wait_flag e st1 = Some ((handle_70 e ^^ ?k) st1)"
    proof (rule wait_flag_run [OF assms(4)])
      show "rd8 (mem ((handle_70 e ^^ n) st1)) ?p = 0" if "n < ?k" for n
        using run [of n] that by (simp add: waits_def)
      show "rd8 (mem ((handle_70 e ^^ ?k) st1)) ?p \<noteq> 0"
        using run [of ?k] by (simp add: waited_def)
    qed
    then have "handle_1586 e r st = Some (set_success r, (handle_70 e ^^ ?k) st1)"
      using s(1) by (simp add: handle_1586_def Let_def del: funpow.simps)
    then show ?thesis
      using False run [of ?k] by (auto simp: waited_def set_success_def simp del: funpow.simps)
  qed
qed

theorem wait_returns_witness:
  "\<exists>e r' st2. handle_1586 e (demo_regs 0x8600 0 1000) demo_rtc = Some (r', st2) \<and> \<not> carry r' \<and> \<not> pending st2"
proof -
  let ?e = "demo_env\<lparr>wait_irq := handle_70 demo_env\<rparr>"
  have e: "wait_irq ?e = handle_70 ?e" by (rule ext) (simp add: handle_70_def split: prod.split)
  have "statusflag_ptr ?e = 0x90100"
    by (simp add: statusflag_ptr_def demo_env_def MAKE_FLATPTR_def push_bit_eq_mult)
  then have f: "free_byte (statusflag_ptr ?e) demo_rtc" by (simp add: free_byte_def off_users_def demo_users_ptr)
  show ?thesis
    using wait_returns [OF demo_rtc_ok(1) _ demo_periodic(1) e f, of "demo_regs 0x8600 0 1000"]
    by (simp add: demo_rtc_cells del: funpow.simps) blast
qed

end
