(* ===== verification/Pci.thy ===== *)
theory Pci
  imports Block
begin

text \<open>
  PCI configuration space and the list of devices: \<open>src/pci.c\<close> and \<open>src/pci.h\<close>. A read of the
  configuration space is a write of the address to port CF8h and a read of port CFCh, answered by the
  device function of the machine. The list \<open>PCIDevices\<close> is a HOL list; a \<open>parent\<close> pointer is an
  index into it. Parameters of \<open>pci_probe\<close>: the number of additional root buses of the configuration
  file and whether the \<open>n\<close>-th allocation succeeds.
\<close>

section \<open>Wide port access\<close>

definition inw :: "u16 \<Rightarrow> 'a machine_scheme \<Rightarrow> u16 \<times> 'a machine_scheme" where
  "inw p s = (let v = ucast (dev s (io_log s) W16 p) in
     (v, s\<lparr>io_log := PortIn W16 p (ucast v) # io_log s\<rparr>))"

definition inl :: "u16 \<Rightarrow> 'a machine_scheme \<Rightarrow> u32 \<times> 'a machine_scheme" where
  "inl p s = (let v = dev s (io_log s) W32 p in (v, s\<lparr>io_log := PortIn W32 p v # io_log s\<rparr>))"

definition outw :: "u16 \<Rightarrow> u16 \<Rightarrow> 'a machine_scheme \<Rightarrow> 'a machine_scheme" where
  "outw v p s = s\<lparr>io_log := PortOut W16 p (ucast v) # io_log s\<rparr>"

definition outl :: "u32 \<Rightarrow> u16 \<Rightarrow> 'a machine_scheme \<Rightarrow> 'a machine_scheme" where
  "outl v p s = s\<lparr>io_log := PortOut W32 p v # io_log s\<rparr>"

section \<open>Bus, device and function numbers\<close>

definition pci_bdf_to_devfn :: "u16 \<Rightarrow> u8" where "pci_bdf_to_devfn bdf = ucast (bdf AND 0xff)"
definition pci_bdf_to_busdev :: "u16 \<Rightarrow> u16" where "pci_bdf_to_busdev bdf = bdf AND NOT 0x07"
definition pci_bus_devfn_to_bdf :: "int \<Rightarrow> u16 \<Rightarrow> u16" where
  "pci_bus_devfn_to_bdf bus devfn = push_bit 8 (word_of_int bus) OR devfn"

definition PORT_PCI_CMD :: u16 where "PORT_PCI_CMD = 0x0cf8"
definition PORT_PCI_DATA :: u16 where "PORT_PCI_DATA = 0x0cfc"
definition PORT_PCI_REBOOT :: u16 where "PORT_PCI_REBOOT = 0x0cf9"
definition PCI_ROM_SLOT :: nat where "PCI_ROM_SLOT = 6"
definition PCI_NUM_REGIONS :: nat where "PCI_NUM_REGIONS = 7"
definition PCI_VENDOR_ID :: u32 where "PCI_VENDOR_ID = 0x00"
definition PCI_CLASS_REVISION :: u32 where "PCI_CLASS_REVISION = 0x08"
definition PCI_HEADER_TYPE :: u32 where "PCI_HEADER_TYPE = 0x0e"
definition PCI_SECONDARY_BUS :: u32 where "PCI_SECONDARY_BUS = 0x19"
definition PCI_HEADER_TYPE_BRIDGE :: u8 where "PCI_HEADER_TYPE_BRIDGE = 1"
definition PCI_HEADER_TYPE_CARDBUS :: u8 where "PCI_HEADER_TYPE_CARDBUS = 2"
definition PCI_ANY_ID :: u32 where "PCI_ANY_ID = NOT 0"

section \<open>Configuration space\<close>

definition pci_select :: "u16 \<Rightarrow> u32 \<Rightarrow> 'a machine_scheme \<Rightarrow> 'a machine_scheme" where
  "pci_select bdf ad st = outl (0x80000000 OR push_bit 8 (ucast bdf) OR (ad AND 0xfc)) PORT_PCI_CMD st"

definition pci_config_writel :: "u16 \<Rightarrow> u32 \<Rightarrow> u32 \<Rightarrow> 'a machine_scheme \<Rightarrow> 'a machine_scheme" where
  "pci_config_writel bdf ad v st = outl v PORT_PCI_DATA (pci_select bdf ad st)"

definition pci_config_writew :: "u16 \<Rightarrow> u32 \<Rightarrow> u16 \<Rightarrow> 'a machine_scheme \<Rightarrow> 'a machine_scheme" where
  "pci_config_writew bdf ad v st = outw v (PORT_PCI_DATA + ucast (ad AND 2)) (pci_select bdf ad st)"

definition pci_config_writeb :: "u16 \<Rightarrow> u32 \<Rightarrow> u8 \<Rightarrow> 'a machine_scheme \<Rightarrow> 'a machine_scheme" where
  "pci_config_writeb bdf ad v st = outb v (PORT_PCI_DATA + ucast (ad AND 3)) (pci_select bdf ad st)"

definition pci_config_readl :: "u16 \<Rightarrow> u32 \<Rightarrow> 'a machine_scheme \<Rightarrow> u32 \<times> 'a machine_scheme" where
  "pci_config_readl bdf ad st = inl PORT_PCI_DATA (pci_select bdf ad st)"

definition pci_config_readw :: "u16 \<Rightarrow> u32 \<Rightarrow> 'a machine_scheme \<Rightarrow> u16 \<times> 'a machine_scheme" where
  "pci_config_readw bdf ad st = inw (PORT_PCI_DATA + ucast (ad AND 2)) (pci_select bdf ad st)"

definition pci_config_readb :: "u16 \<Rightarrow> u32 \<Rightarrow> 'a machine_scheme \<Rightarrow> u8 \<times> 'a machine_scheme" where
  "pci_config_readb bdf ad st = inb (PORT_PCI_DATA + ucast (ad AND 3)) (pci_select bdf ad st)"

definition pci_config_maskw :: "u16 \<Rightarrow> u32 \<Rightarrow> u16 \<Rightarrow> u16 \<Rightarrow> 'a machine_scheme \<Rightarrow> 'a machine_scheme" where
  "pci_config_maskw bdf ad off on st = (case pci_config_readw bdf ad st of (v, st) \<Rightarrow>
     pci_config_writew bdf ad ((v AND NOT off) OR on) st)"

text \<open>
  The walk over the devices present on a bus. The number is an \<open>int\<close> in the code and is cut to 16 bits
  by the helpers; \<open>None\<close> is the result -1.
\<close>

abbreviation bdf16 :: "int \<Rightarrow> u16" where "bdf16 \<equiv> word_of_int"

definition bus_of :: "int \<Rightarrow> int" where "bus_of bdf = uint (pci_bdf_to_bus (bdf16 bdf))"
definition fn_of :: "int \<Rightarrow> u8" where "fn_of bdf = pci_bdf_to_fn (bdf16 bdf)"

lemma bus_of_div: "bus_of bdf = bdf div 256 mod 256"
proof -
  have "uint (drop_bit 8 (bdf16 bdf)) = (bdf mod 65536) div 256"
    by (simp add: unsigned_drop_bit_eq uint_word_of_int drop_bit_eq_div take_bit_eq_mod uint_div)
  then have "bus_of bdf = (bdf mod 65536) div 256 mod 256"
    by (simp add: bus_of_def pci_bdf_to_bus_def unsigned_ucast_eq take_bit_eq_mod)
  also have "\<dots> = bdf div 256 mod 256"
  proof -
    have "bdf mod (256 * 256) = 256 * (bdf div 256 mod 256) + bdf mod 256" by (rule zmod_zmult2_eq) simp
    then show ?thesis by simp
  qed
  finally show ?thesis .
qed

lemma bdf_advance:
  fixes b k :: int
  assumes "0 < k" "k \<le> 8"
  shows "b mod 256 < (b + k) mod 256 \<or> (b + k) div 256 mod 256 \<noteq> b div 256 mod 256"
proof (cases "b mod 256 + k < 256")
  case True
  then have "(b + k) mod 256 = b mod 256 + k"
    using assms mod_pos_pos_trivial [of "b mod 256 + k" 256] by (simp add: mod_add_left_eq)
  then show ?thesis using assms by simp
next
  case False
  have "(b + k) div 256 = b div 256 + 1"
    using False assms by (intro int_div_pos_eq [of _ _ _ "b mod 256 + k - 256"]) (simp_all add: algebra_simps)
  moreover have "(x + 1) mod 256 \<noteq> x mod (256 :: int)" for x
    by (simp add: mod_eq_dvd_iff)
  ultimately show ?thesis by simp
qed

function pci_next_from :: "int \<Rightarrow> int \<Rightarrow> 'a machine_scheme \<Rightarrow> int option \<times> 'a machine_scheme" where
  "pci_next_from bdf bus st =
     (if bus_of bdf \<noteq> bus then (None, st)
      else case pci_config_readw (bdf16 bdf) PCI_VENDOR_ID st of (v, st) \<Rightarrow>
        if v \<noteq> 0x0000 \<and> v \<noteq> 0xffff then (Some bdf, st)
        else pci_next_from (if fn_of bdf = 0 then bdf + 8 else bdf + 1) bus st)"
  by pat_completeness auto

termination
proof (relation "measure (\<lambda>(bdf, bus, _). if bus_of bdf = bus then nat (256 - bdf mod 256) else 0)", simp)
  fix bdf bus :: int and st st' :: "'a machine_scheme" and x v
  assume "\<not> bus_of bdf \<noteq> bus"
  let ?b = "if fn_of bdf = 0 then bdf + 8 else bdf + 1"
  have "bdf mod 256 < ?b mod 256 \<or> bus_of ?b \<noteq> bus_of bdf"
    using bdf_advance [of 8 bdf] bdf_advance [of 1 bdf] by (simp add: bus_of_div)
  then show "((?b, bus, st'), (bdf, bus, st))
      \<in> measure (\<lambda>(bdf, bus, _). if bus_of bdf = bus then nat (256 - bdf mod 256) else 0)"
    using \<open>\<not> bus_of bdf \<noteq> bus\<close> by auto
qed

definition pci_next :: "int \<Rightarrow> int \<Rightarrow> 'a machine_scheme \<Rightarrow> int option \<times> 'a machine_scheme" where
  "pci_next bdf bus st =
     (if fn_of bdf = 0 then
        case pci_config_readb (bdf16 bdf) PCI_HEADER_TYPE st of (v, st) \<Rightarrow>
          pci_next_from (if v AND 0x80 = 0 then bdf + 8 else bdf + 1) bus st
      else pci_next_from (bdf + 1) bus st)"

text \<open>The first device of \<open>foreachbdf\<close>.\<close>

definition pci_first :: "int \<Rightarrow> 'a machine_scheme \<Rightarrow> int option \<times> 'a machine_scheme" where
  "pci_first bus st = pci_next (uint (pci_bus_devfn_to_bdf bus 0) - 1) bus st"

section \<open>The list of devices\<close>

record pci_bar_s =
  bar_addr :: u32
  bar_size :: u32
  is64 :: bool

record pci_device =
  bdf :: u16
  rootbus :: u8
  parent :: "nat option"
  vendor :: u16
  device_id :: u16
  pclass :: u16
  prog_if :: u8
  revision :: u8
  header_type :: u8
  secondary_bus :: u8
  bars :: "pci_bar_s list"

record pci_region =
  rg_count :: "u32 list"
  rg_sum :: u32
  rg_max :: u32
  rg_size :: u32
  rg_bases :: "u32 list"
  rg_base :: u32

datatype pci_region_type = PCI_REGION_TYPE_IO | PCI_REGION_TYPE_MEM | PCI_REGION_TYPE_PREFMEM

type_synonym pci_bus = "pci_region_type \<Rightarrow> pci_region"

record pci_state = machine +
  PCIDevices :: "pci_device list"
  MaxPCIBus :: int
  busses :: "pci_bus list"
  busses_count :: int

definition no_bars :: "pci_bar_s list" where
  "no_bars = replicate PCI_NUM_REGIONS \<lparr>bar_addr = 0, bar_size = 0, is64 = False\<rparr>"

definition pci_classprog :: "pci_device \<Rightarrow> u32" where
  "pci_classprog pci = push_bit 8 (ucast (pclass pci)) OR ucast (prog_if pci)"

text \<open>The local variables of \<open>pci_probe\<close>.\<close>

record probe_vars =
  busdevs :: "int \<Rightarrow> nat option"
  lastbus :: int
  rootbuses :: int

text \<open>One device found: its root bus, its identification and the bus behind a bridge.\<close>

definition probe_rootbus :: "int \<Rightarrow> probe_vars \<Rightarrow> pci_state \<Rightarrow> int \<times> probe_vars \<times> pci_state" where
  "probe_rootbus bus pv st = (case busdevs pv bus of
     None \<Rightarrow>
       let pv = (if bus \<noteq> lastbus pv then pv\<lparr>rootbuses := rootbuses pv + 1\<rparr> else pv);
           pv = pv\<lparr>lastbus := bus\<rparr>;
           st = (if bus > MaxPCIBus st then st\<lparr>MaxPCIBus := bus\<rparr> else st) in
       (rootbuses pv, pv, st)
   | Some p \<Rightarrow> (uint (rootbus (PCIDevices st ! p)), pv, st))"

definition probe_secondary :: "int \<Rightarrow> u8 \<Rightarrow> nat \<Rightarrow> probe_vars \<Rightarrow> pci_state \<Rightarrow> probe_vars \<times> pci_state" where
  "probe_secondary bus secbus n pv st =
     (let pv = (if uint secbus > bus \<and> busdevs pv (uint secbus) = None
                then pv\<lparr>busdevs := (busdevs pv)(uint secbus := Some n)\<rparr> else pv);
          st = (if uint secbus > MaxPCIBus st then st\<lparr>MaxPCIBus := uint secbus\<rparr> else st) in
      (pv, st))"

definition probe_device :: "int \<Rightarrow> int \<Rightarrow> probe_vars \<Rightarrow> pci_state \<Rightarrow> probe_vars \<times> pci_state" where
  "probe_device bus b pv st =
     (let n = length (PCIDevices st); par = busdevs pv bus in
      case probe_rootbus bus pv st of (root, pv, st) \<Rightarrow>
      case pci_config_readl (bdf16 b) PCI_VENDOR_ID st of (vendev, st) \<Rightarrow>
      case pci_config_readl (bdf16 b) PCI_CLASS_REVISION st of (classrev, st) \<Rightarrow>
      case pci_config_readb (bdf16 b) PCI_HEADER_TYPE st of (ht, st) \<Rightarrow>
      let v = ht AND 0x7f;
          bridge = (v = PCI_HEADER_TYPE_BRIDGE \<or> v = PCI_HEADER_TYPE_CARDBUS) in
      case (if bridge then pci_config_readb (bdf16 b) PCI_SECONDARY_BUS st else (0, st)) of (secbus, st) \<Rightarrow>
      let d = \<lparr>bdf = bdf16 b, rootbus = word_of_int root, parent = par,
               vendor = ucast (vendev AND 0xffff), device_id = ucast (drop_bit 16 vendev),
               pclass = ucast (drop_bit 16 classrev), prog_if = ucast (drop_bit 8 classrev),
               revision = ucast (classrev AND 0xff), header_type = ht, secondary_bus = secbus, bars = no_bars\<rparr>;
          st = st\<lparr>PCIDevices := PCIDevices st @ [d]\<rparr> in
      if bridge then probe_secondary bus secbus n pv st else (pv, st))"

text \<open>
  The loops of \<open>pci_probe\<close>; \<open>alloc_ok n\<close> is whether the allocation for the \<open>n\<close>-th device succeeds. The
  flag of the result of the inner loop says that an allocation failed and the probe returned.
\<close>

partial_function (option) probe_bus ::
  "(nat \<Rightarrow> bool) \<Rightarrow> int \<Rightarrow> int option \<Rightarrow> probe_vars \<Rightarrow> pci_state \<Rightarrow> (bool \<times> probe_vars \<times> pci_state) option" where
  "probe_bus alloc_ok bus b pv st = (case b of None \<Rightarrow> Some (False, pv, st)
     | Some b \<Rightarrow>
       if \<not> alloc_ok (length (PCIDevices st)) then Some (True, pv, st)
       else case probe_device bus b pv st of (pv, st) \<Rightarrow>
         case pci_next b bus st of (b', st) \<Rightarrow> probe_bus alloc_ok bus b' pv st)"

declare probe_bus.simps [code]

partial_function (option) probe_buses ::
  "(nat \<Rightarrow> bool) \<Rightarrow> int \<Rightarrow> int \<Rightarrow> probe_vars \<Rightarrow> pci_state \<Rightarrow> pci_state option" where
  "probe_buses alloc_ok extraroots bus pv st =
     (if bus < 0xff \<and> (bus < MaxPCIBus st \<or> rootbuses pv < extraroots) then
        case pci_first (bus + 1) st of (b, st) \<Rightarrow>
        case probe_bus alloc_ok (bus + 1) b pv st of None \<Rightarrow> None | Some (stop, pv, st) \<Rightarrow>
          if stop then Some st else probe_buses alloc_ok extraroots (bus + 1) pv st
      else Some st)"

declare probe_buses.simps [code]

text \<open>\<open>PCIDevices\<close> is empty before the probe, which runs once.\<close>

definition pci_probe :: "(nat \<Rightarrow> bool) \<Rightarrow> int \<Rightarrow> pci_state \<Rightarrow> pci_state option" where
  "pci_probe alloc_ok extraroots st =
     probe_buses alloc_ok extraroots (- 1) \<lparr>busdevs = (\<lambda>_. None), lastbus = 0, rootbuses = 0\<rparr> st"

text \<open>Searches.\<close>

definition pci_find_device :: "u16 \<Rightarrow> u16 \<Rightarrow> pci_state \<Rightarrow> pci_device option" where
  "pci_find_device vendid devid st = find (\<lambda>pci. vendor pci = vendid \<and> device_id pci = devid) (PCIDevices st)"

definition pci_find_class :: "u16 \<Rightarrow> pci_state \<Rightarrow> pci_device option" where
  "pci_find_class classid st = find (\<lambda>pci. pclass pci = classid) (PCIDevices st)"

text \<open>Tables of initialisation functions; the result is whether an entry matched.\<close>

record 'a pci_device_id =
  vendid :: u32
  devid :: u32
  id_class :: u32
  class_mask :: u32
  init_func :: "(pci_device \<Rightarrow> 'a \<Rightarrow> 'a) option"

definition PCI_DEVICE :: "u32 \<Rightarrow> u32 \<Rightarrow> (pci_device \<Rightarrow> 'a \<Rightarrow> 'a) \<Rightarrow> 'a pci_device_id" where
  "PCI_DEVICE v d f = \<lparr>vendid = v, devid = d, id_class = PCI_ANY_ID, class_mask = 0, init_func = Some f\<rparr>"

definition PCI_DEVICE_CLASS :: "u32 \<Rightarrow> u32 \<Rightarrow> u32 \<Rightarrow> (pci_device \<Rightarrow> 'a \<Rightarrow> 'a) \<Rightarrow> 'a pci_device_id" where
  "PCI_DEVICE_CLASS v d c f = \<lparr>vendid = v, devid = d, id_class = c, class_mask = NOT 0, init_func = Some f\<rparr>"

definition id_matches :: "'a pci_device_id \<Rightarrow> pci_device \<Rightarrow> bool" where
  "id_matches ids pci \<longleftrightarrow>
     (vendid ids = PCI_ANY_ID \<or> vendid ids = ucast (vendor pci)) \<and>
     (devid ids = PCI_ANY_ID \<or> devid ids = ucast (device_id pci)) \<and>
     (id_class ids XOR ucast (pclass pci)) AND class_mask ids = 0"

fun pci_init_device :: "'a pci_device_id list \<Rightarrow> pci_device \<Rightarrow> 'a \<Rightarrow> bool \<times> 'a" where
  "pci_init_device [] pci st = (False, st)"
| "pci_init_device (ids # rest) pci st =
     (if id_matches ids pci then (True, case init_func ids of None \<Rightarrow> st | Some f \<Rightarrow> f pci st)
      else pci_init_device rest pci st)"

fun find_init_from :: "'a pci_device_id list \<Rightarrow> pci_device list \<Rightarrow> 'a \<Rightarrow> pci_device option \<times> 'a" where
  "find_init_from ids [] st = (None, st)"
| "find_init_from ids (pci # rest) st = (case pci_init_device ids pci st of (found, st) \<Rightarrow>
     if found then (Some pci, st) else find_init_from ids rest st)"

definition pci_find_init_device :: "pci_state pci_device_id list \<Rightarrow> pci_state \<Rightarrow> pci_device option \<times> pci_state" where
  "pci_find_init_device ids st = find_init_from ids (PCIDevices st) st"

end
