(* ===== verification/Pciinit.thy ===== *)
theory Pciinit
  imports Pci
begin

text \<open>
  Initialisation of the PCI devices: \<open>src/pciinit.c\<close>. Bus numbers, the sizes of the regions of every
  bus, their placement, the addresses given to the base address registers, and the device specific
  set-up. \<open>None\<close> is the result where the code has none: an index outside the arrays of a bus, a bit
  scan of 0, a shift by 32, or a recursion over bridges that does not end. Configuration: \<open>COREBOOT\<close>
  off; whether the machine is Xen is a parameter.
\<close>

section \<open>Constants\<close>

definition PCI_IO_INDEX_SHIFT :: nat where "PCI_IO_INDEX_SHIFT = 2"
definition PCI_MEM_INDEX_SHIFT :: nat where "PCI_MEM_INDEX_SHIFT = 12"
definition PCI_REGION_SLOTS :: nat where "PCI_REGION_SLOTS = 32 - PCI_MEM_INDEX_SHIFT"
definition PCI_BRIDGE_IO_MIN :: u32 where "PCI_BRIDGE_IO_MIN = 0x1000"
definition PCI_BRIDGE_MEM_MIN :: u32 where "PCI_BRIDGE_MEM_MIN = 0x100000"
definition PCI_IO_SHIFT :: nat where "PCI_IO_SHIFT = 8"
definition PCI_MEMORY_SHIFT :: nat where "PCI_MEMORY_SHIFT = 16"
definition PCI_PREF_MEMORY_SHIFT :: nat where "PCI_PREF_MEMORY_SHIFT = 16"
definition PCI_COMMAND :: u32 where "PCI_COMMAND = 0x04"
definition PCI_COMMAND_IO :: u16 where "PCI_COMMAND_IO = 1"
definition PCI_COMMAND_MEMORY :: u16 where "PCI_COMMAND_MEMORY = 2"
definition PCI_CLASS_DEVICE :: u32 where "PCI_CLASS_DEVICE = 0x0a"
definition PCI_CLASS_BRIDGE_PCI :: u16 where "PCI_CLASS_BRIDGE_PCI = 0x0604"
definition PCI_BASE_ADDRESS_0 :: u32 where "PCI_BASE_ADDRESS_0 = 0x10"
definition PCI_BASE_ADDRESS_SPACE_IO :: u32 where "PCI_BASE_ADDRESS_SPACE_IO = 0x01"
definition PCI_BASE_ADDRESS_MEM_TYPE_MASK :: u32 where "PCI_BASE_ADDRESS_MEM_TYPE_MASK = 0x06"
definition PCI_BASE_ADDRESS_MEM_TYPE_64 :: u32 where "PCI_BASE_ADDRESS_MEM_TYPE_64 = 0x04"
definition PCI_BASE_ADDRESS_MEM_PREFETCH :: u32 where "PCI_BASE_ADDRESS_MEM_PREFETCH = 0x08"
definition PCI_BASE_ADDRESS_MEM_MASK :: u32 where "PCI_BASE_ADDRESS_MEM_MASK = NOT 0x0f"
definition PCI_BASE_ADDRESS_IO_MASK :: u32 where "PCI_BASE_ADDRESS_IO_MASK = NOT 0x03"
definition PCI_ROM_ADDRESS :: u32 where "PCI_ROM_ADDRESS = 0x30"
definition PCI_ROM_ADDRESS1 :: u32 where "PCI_ROM_ADDRESS1 = 0x38"
definition PCI_ROM_ADDRESS_MASK :: u32 where "PCI_ROM_ADDRESS_MASK = NOT 0x7ff"
definition PCI_HEADER_TYPE_MULTI_FUNCTION :: u8 where "PCI_HEADER_TYPE_MULTI_FUNCTION = 0x80"
definition PCI_INTERRUPT_LINE :: u32 where "PCI_INTERRUPT_LINE = 0x3c"
definition PCI_INTERRUPT_PIN :: u32 where "PCI_INTERRUPT_PIN = 0x3d"
definition PCI_PRIMARY_BUS :: u32 where "PCI_PRIMARY_BUS = 0x18"
definition PCI_SUBORDINATE_BUS :: u32 where "PCI_SUBORDINATE_BUS = 0x1a"
definition PCI_IO_BASE :: u32 where "PCI_IO_BASE = 0x1c"
definition PCI_IO_LIMIT :: u32 where "PCI_IO_LIMIT = 0x1d"
definition PCI_MEMORY_BASE :: u32 where "PCI_MEMORY_BASE = 0x20"
definition PCI_MEMORY_LIMIT :: u32 where "PCI_MEMORY_LIMIT = 0x22"
definition PCI_PREF_MEMORY_BASE :: u32 where "PCI_PREF_MEMORY_BASE = 0x24"
definition PCI_PREF_MEMORY_LIMIT :: u32 where "PCI_PREF_MEMORY_LIMIT = 0x26"
definition PCI_PREF_BASE_UPPER32 :: u32 where "PCI_PREF_BASE_UPPER32 = 0x28"
definition PCI_PREF_LIMIT_UPPER32 :: u32 where "PCI_PREF_LIMIT_UPPER32 = 0x2c"
definition PCI_IO_BASE_UPPER16 :: u32 where "PCI_IO_BASE_UPPER16 = 0x30"
definition PCI_IO_LIMIT_UPPER16 :: u32 where "PCI_IO_LIMIT_UPPER16 = 0x32"
definition BUILD_PCIMEM_START :: u32 where "BUILD_PCIMEM_START = 0xe0000000"
definition BUILD_PCIMEM_END :: u32 where "BUILD_PCIMEM_END = 0xfec00000"

lemmas pci_shifts = PCI_IO_INDEX_SHIFT_def PCI_MEM_INDEX_SHIFT_def PCI_REGION_SLOTS_def

section \<open>Sizes and indices\<close>

text \<open>The index of the highest bit set, 0 for the word 0.\<close>

fun fls_from :: "nat \<Rightarrow> u32 \<Rightarrow> nat" where
  "fls_from 0 w = 0"
| "fls_from (Suc n) w = (if bit w (Suc n) then Suc n else fls_from n w)"

text \<open>The processor leaves the result of a bit scan of 0 undefined.\<close>

definition fls :: "u32 \<Rightarrow> nat option" where
  "fls w = (if w = 0 then None else Some (fls_from 31 w))"

definition pci_index_shift :: "pci_region_type \<Rightarrow> nat" where
  "pci_index_shift t = (if t = PCI_REGION_TYPE_IO then PCI_IO_INDEX_SHIFT else PCI_MEM_INDEX_SHIFT)"

definition pci_size_to_index :: "u32 \<Rightarrow> pci_region_type \<Rightarrow> nat option" where
  "pci_size_to_index sz t = (case fls sz of None \<Rightarrow> None | Some index \<Rightarrow>
     let shift = pci_index_shift t in
     Some ((if index < shift then shift else index) - shift))"

definition pci_index_to_size :: "nat \<Rightarrow> pci_region_type \<Rightarrow> u32" where
  "pci_index_to_size index t = push_bit (index + pci_index_shift t) 1"

definition pci_addr_to_type :: "u32 \<Rightarrow> pci_region_type" where
  "pci_addr_to_type ad =
     (if ad AND PCI_BASE_ADDRESS_SPACE_IO \<noteq> 0 then PCI_REGION_TYPE_IO
      else if ad AND PCI_BASE_ADDRESS_MEM_PREFETCH \<noteq> 0 then PCI_REGION_TYPE_PREFMEM
      else PCI_REGION_TYPE_MEM)"

definition pci_size_roundup :: "u32 \<Rightarrow> u32 option" where
  "pci_size_roundup sz = (case fls (sz - 1) of None \<Rightarrow> None | Some index \<Rightarrow>
     if index + 1 < 32 then Some (push_bit (index + 1) 1) else None)"

definition pci_irqs :: "u8 list" where "pci_irqs = [10, 10, 11, 11]"

section \<open>Base address registers\<close>

definition pci_bar :: "u16 \<Rightarrow> nat \<Rightarrow> 'a machine_scheme \<Rightarrow> u32 \<times> 'a machine_scheme" where
  "pci_bar b region_num st =
     (if region_num \<noteq> PCI_ROM_SLOT then (PCI_BASE_ADDRESS_0 + of_nat region_num * 4, st)
      else case pci_config_readb b PCI_HEADER_TYPE st of (ty, st) \<Rightarrow>
        let ty = ty AND NOT PCI_HEADER_TYPE_MULTI_FUNCTION in
        (if ty = PCI_HEADER_TYPE_BRIDGE then PCI_ROM_ADDRESS1 else PCI_ROM_ADDRESS, st))"

definition pci_set_io_region_addr :: "u16 \<Rightarrow> nat \<Rightarrow> u32 \<Rightarrow> 'a machine_scheme \<Rightarrow> 'a machine_scheme" where
  "pci_set_io_region_addr b region_num ad st =
     (case pci_bar b region_num st of (ofs, st) \<Rightarrow> pci_config_writel b ofs ad st)"

definition pci_slot_get_pirq :: "u16 \<Rightarrow> nat \<Rightarrow> nat" where
  "pci_slot_get_pirq b irq_num = nat ((int irq_num + (uint (pci_bdf_to_dev b) - 1)) mod 4)"

text \<open>The value read back after writing ones, and the size it stands for.\<close>

definition pci_bios_bus_get_bar :: "u16 \<Rightarrow> nat \<Rightarrow> 'a machine_scheme \<Rightarrow> (u32 \<times> u32) \<times> 'a machine_scheme" where
  "pci_bios_bus_get_bar b bar st =
     (case pci_bar b bar st of (ofs, st) \<Rightarrow>
      case pci_config_readl b ofs st of (old, st) \<Rightarrow>
      let msk = (if bar = PCI_ROM_SLOT then PCI_ROM_ADDRESS_MASK
                 else if old AND PCI_BASE_ADDRESS_SPACE_IO \<noteq> 0 then PCI_BASE_ADDRESS_IO_MASK
                 else PCI_BASE_ADDRESS_MEM_MASK);
          st = pci_config_writel b ofs (if bar = PCI_ROM_SLOT then msk else NOT 0) st in
      case pci_config_readl b ofs st of (val, st) \<Rightarrow>
      let st = pci_config_writel b ofs old st in
      ((val, NOT (val AND msk) + 1), st))"

section \<open>Regions of a bus\<close>

definition no_region :: pci_region where
  "no_region = \<lparr>rg_count = replicate PCI_REGION_SLOTS 0, rg_sum = 0, rg_max = 0, rg_size = 0,
     rg_bases = replicate PCI_REGION_SLOTS 0, rg_base = 0\<rparr>"

definition region :: "nat \<Rightarrow> pci_region_type \<Rightarrow> pci_state \<Rightarrow> pci_region" where
  "region b t st = (busses st ! b) t"

definition upd_region :: "nat \<Rightarrow> pci_region_type \<Rightarrow> (pci_region \<Rightarrow> pci_region) \<Rightarrow> pci_state \<Rightarrow> pci_state" where
  "upd_region b t f st =
     st\<lparr>busses := (busses st)[b := (busses st ! b)(t := f ((busses st ! b) t))]\<rparr>"

definition region_reserve :: "pci_region_type \<Rightarrow> u32 \<Rightarrow> pci_region \<Rightarrow> pci_region option" where
  "region_reserve t sz rg =
     (case pci_size_to_index sz t of None \<Rightarrow> None | Some index \<Rightarrow>
      if index \<ge> PCI_REGION_SLOTS then None
      else let sz = pci_index_to_size index t in
        Some (rg\<lparr>rg_count := (rg_count rg)[index := rg_count rg ! index + 1],
                 rg_sum := rg_sum rg + sz,
                 rg_max := (if rg_max rg < sz then sz else rg_max rg)\<rparr>))"

definition pci_bios_bus_reserve :: "nat \<Rightarrow> pci_region_type \<Rightarrow> u32 \<Rightarrow> pci_state \<Rightarrow> pci_state option" where
  "pci_bios_bus_reserve b t sz st =
     (case region_reserve t sz (region b t st) of None \<Rightarrow> None
      | Some rg \<Rightarrow> Some (upd_region b t (\<lambda>_. rg) st))"

definition region_get_addr :: "pci_region_type \<Rightarrow> u32 \<Rightarrow> pci_region \<Rightarrow> (u32 \<times> pci_region) option" where
  "region_get_addr t sz rg =
     (case pci_size_to_index sz t of None \<Rightarrow> None | Some index \<Rightarrow>
      if index \<ge> PCI_REGION_SLOTS then None
      else Some (rg_bases rg ! index,
        rg\<lparr>rg_bases := (rg_bases rg)[index := rg_bases rg ! index + pci_index_to_size index t]\<rparr>))"

definition pci_bios_bus_get_addr :: "nat \<Rightarrow> pci_region_type \<Rightarrow> u32 \<Rightarrow> pci_state \<Rightarrow> (u32 \<times> pci_state) option" where
  "pci_bios_bus_get_addr b t sz st =
     (case region_get_addr t sz (region b t st) of None \<Rightarrow> None
      | Some (ad, rg) \<Rightarrow> Some (ad, upd_region b t (\<lambda>_. rg) st))"

text \<open>The loop of \<open>pci_bios_init_bus_bases\<close> for one type, from the largest size down.\<close>

fun set_bases :: "nat \<Rightarrow> pci_region_type \<Rightarrow> u32 \<Rightarrow> u32 list \<Rightarrow> u32 list \<Rightarrow> u32 list" where
  "set_bases 0 t base counts bases = bases"
| "set_bases (Suc i) t base counts bases =
     (if counts ! i = 0 then set_bases i t base counts bases
      else set_bases i t (base + pci_index_to_size i t * counts ! i) counts (bases[i := base]))"

definition region_init_bases :: "pci_region_type \<Rightarrow> pci_region \<Rightarrow> pci_region" where
  "region_init_bases t rg =
     rg\<lparr>rg_bases := set_bases PCI_REGION_SLOTS t (rg_base rg) (rg_count rg) (rg_bases rg)\<rparr>"

definition pci_bios_init_bus_bases :: "nat \<Rightarrow> pci_state \<Rightarrow> pci_state" where
  "pci_bios_init_bus_bases b st =
     (let st = upd_region b PCI_REGION_TYPE_IO (region_init_bases PCI_REGION_TYPE_IO) st;
          st = upd_region b PCI_REGION_TYPE_MEM (region_init_bases PCI_REGION_TYPE_MEM) st in
      upd_region b PCI_REGION_TYPE_PREFMEM (region_init_bases PCI_REGION_TYPE_PREFMEM) st)"

section \<open>Pass 1: the sizes\<close>

definition set_bar :: "nat \<Rightarrow> nat \<Rightarrow> pci_bar_s \<Rightarrow> pci_state \<Rightarrow> pci_state" where
  "set_bar i j bar st =
     (let d = PCIDevices st ! i in
      st\<lparr>PCIDevices := (PCIDevices st)[i := d\<lparr>bars := (bars d)[j := bar]\<rparr>]\<rparr>)"

definition bar_is64 :: "u32 \<Rightarrow> bool" where
  "bar_is64 val \<longleftrightarrow> val AND PCI_BASE_ADDRESS_SPACE_IO = 0 \<and>
     val AND PCI_BASE_ADDRESS_MEM_TYPE_MASK = PCI_BASE_ADDRESS_MEM_TYPE_64"

text \<open>The loop over the registers of device \<open>i\<close> on bus \<open>b\<close>, from register \<open>j\<close>.\<close>

function check_bars :: "nat \<Rightarrow> nat \<Rightarrow> nat \<Rightarrow> pci_state \<Rightarrow> pci_state option" where
  "check_bars b i j st =
     (if j \<ge> PCI_NUM_REGIONS then Some st
      else case pci_bios_bus_get_bar (bdf (PCIDevices st ! i)) j st of ((val, sz), st) \<Rightarrow>
        if val = 0 then check_bars b i (j + 1) st
        else case pci_bios_bus_reserve b (pci_addr_to_type val) sz st of None \<Rightarrow> None | Some st \<Rightarrow>
          let st = set_bar i j \<lparr>bar_addr = val, bar_size = sz, is64 = bar_is64 val\<rparr> st in
          check_bars b i (if bar_is64 val then j + 2 else j + 1) st)"
  by pat_completeness auto
termination by (relation "measure (\<lambda>(b, i, j, st). PCI_NUM_REGIONS - j)") auto

definition bridge_limit :: "pci_region_type \<Rightarrow> u32" where
  "bridge_limit t = (if t = PCI_REGION_TYPE_IO then PCI_BRIDGE_IO_MIN else PCI_BRIDGE_MEM_MIN)"

text \<open>The size of the window of bus \<open>s\<close>, reserved on bus \<open>b\<close>.\<close>

definition bridge_reserve :: "nat \<Rightarrow> nat \<Rightarrow> pci_region_type \<Rightarrow> pci_state \<Rightarrow> pci_state option" where
  "bridge_reserve b s t st =
     (let sz = rg_sum (region s t st);
          sz = (if sz < bridge_limit t then bridge_limit t else sz) in
      case pci_size_roundup sz of None \<Rightarrow> None | Some sz \<Rightarrow>
        pci_bios_bus_reserve b t sz (upd_region s t (\<lambda>rg. rg\<lparr>rg_size := sz\<rparr>) st))"

definition bridge_reserve_all :: "nat \<Rightarrow> nat \<Rightarrow> pci_state \<Rightarrow> pci_state option" where
  "bridge_reserve_all b s st =
     (case bridge_reserve b s PCI_REGION_TYPE_IO st of None \<Rightarrow> None | Some st \<Rightarrow>
      case bridge_reserve b s PCI_REGION_TYPE_MEM st of None \<Rightarrow> None | Some st \<Rightarrow>
      bridge_reserve b s PCI_REGION_TYPE_PREFMEM st)"

definition on_bus :: "pci_device \<Rightarrow> nat \<Rightarrow> bool" where
  "on_bus d b \<longleftrightarrow> unat (pci_bdf_to_bus (bdf d)) = b"

text \<open>
  \<open>pci_bios_check_device_in_bus\<close> and \<open>pci_bios_check_device\<close>, for the devices of the list from index
  \<open>i\<close>.
\<close>

partial_function (option) check_devices :: "nat \<Rightarrow> nat \<Rightarrow> pci_state \<Rightarrow> pci_state option" where
  "check_devices b i st =
     (if i \<ge> length (PCIDevices st) then Some st
      else let d = PCIDevices st ! i in
        if \<not> on_bus d b then check_devices b (i + 1) st
        else if pclass d = PCI_CLASS_BRIDGE_PCI then
          if uint (secondary_bus d) \<ge> busses_count st then check_devices b (i + 1) st
          else Option.bind (check_devices (unat (secondary_bus d)) 0 st) (\<lambda>st.
            Option.bind (bridge_reserve_all b (unat (secondary_bus d)) st) (\<lambda>st. check_devices b (i + 1) st))
        else Option.bind (check_bars b i 0 st) (\<lambda>st. check_devices b (i + 1) st))"

declare check_devices.simps [code]

definition pci_bios_check_device_in_bus :: "nat \<Rightarrow> pci_state \<Rightarrow> pci_state option" where
  "pci_bios_check_device_in_bus b st = check_devices b 0 st"

section \<open>Placing the regions of the root bus\<close>

definition ROOT_BASE :: "u32 \<Rightarrow> u32 \<Rightarrow> u32 \<Rightarrow> u32" where
  "ROOT_BASE tp sm al = ALIGN_DOWN (tp - sm) al"

abbreviation set_base :: "pci_region_type \<Rightarrow> u32 \<Rightarrow> pci_state \<Rightarrow> pci_state" where
  "set_base t v \<equiv> upd_region 0 t (\<lambda>rg. rg\<lparr>rg_base := v\<rparr>)"

definition root_place :: "pci_region_type \<Rightarrow> pci_region_type \<Rightarrow> u32 \<Rightarrow> u32 \<Rightarrow> pci_state \<Rightarrow> bool \<times> pci_state" where
  "root_place t1 t2 start endp st =
     (let st = set_base t1 (ROOT_BASE endp (rg_sum (region 0 t1 st)) (rg_max (region 0 t1 st))) st;
          st = set_base t2 (ROOT_BASE (rg_base (region 0 t1 st)) (rg_sum (region 0 t2 st)) (rg_max (region 0 t2 st))) st in
      (rg_base (region 0 t2 st) \<ge> start, st))"

text \<open>The flag of the result is \<open>True\<close> for 0, that is success.\<close>

definition pci_bios_init_root_regions :: "u32 \<Rightarrow> u32 \<Rightarrow> pci_state \<Rightarrow> bool \<times> pci_state" where
  "pci_bios_init_root_regions start endp st =
     (let st = set_base PCI_REGION_TYPE_IO 0xc000 st in
      if rg_sum (region 0 PCI_REGION_TYPE_MEM st) < rg_sum (region 0 PCI_REGION_TYPE_PREFMEM st)
      then root_place PCI_REGION_TYPE_MEM PCI_REGION_TYPE_PREFMEM start endp st
      else root_place PCI_REGION_TYPE_PREFMEM PCI_REGION_TYPE_MEM start endp st)"

section \<open>Pass 2: the addresses\<close>

function map_bars :: "nat \<Rightarrow> nat \<Rightarrow> nat \<Rightarrow> pci_state \<Rightarrow> pci_state option" where
  "map_bars b i j st =
     (if j \<ge> PCI_NUM_REGIONS then Some st
      else let d = PCIDevices st ! i; bar = bars d ! j in
        if bar_addr bar = 0 then map_bars b i (j + 1) st
        else case pci_bios_bus_get_addr b (pci_addr_to_type (bar_addr bar)) (bar_size bar) st of
            None \<Rightarrow> None | Some (ad, st) \<Rightarrow>
          let st = pci_set_io_region_addr (bdf d) j ad st in
          map_bars b i (if is64 bar then j + 2 else j + 1) st)"
  by pat_completeness auto
termination by (relation "measure (\<lambda>(b, i, j, st). PCI_NUM_REGIONS - j)") auto

definition bridge_get_base :: "nat \<Rightarrow> nat \<Rightarrow> pci_region_type \<Rightarrow> pci_state \<Rightarrow> pci_state option" where
  "bridge_get_base b s t st =
     (case pci_bios_bus_get_addr b t (rg_size (region s t st)) st of None \<Rightarrow> None
      | Some (ad, st) \<Rightarrow> Some (upd_region s t (\<lambda>rg. rg\<lparr>rg_base := ad\<rparr>) st))"

definition bridge_get_bases :: "nat \<Rightarrow> nat \<Rightarrow> pci_state \<Rightarrow> pci_state option" where
  "bridge_get_bases b s st =
     (case bridge_get_base b s PCI_REGION_TYPE_IO st of None \<Rightarrow> None | Some st \<Rightarrow>
      case bridge_get_base b s PCI_REGION_TYPE_MEM st of None \<Rightarrow> None | Some st \<Rightarrow>
      bridge_get_base b s PCI_REGION_TYPE_PREFMEM st)"

text \<open>The windows written to the bridge \<open>d\<close> of bus \<open>s\<close>.\<close>

definition region_limit :: "pci_region \<Rightarrow> u32" where
  "region_limit rg = rg_base rg + rg_size rg - 1"

definition bridge_windows :: "u16 \<Rightarrow> nat \<Rightarrow> pci_state \<Rightarrow> pci_state" where
  "bridge_windows b s st =
     (let io = region s PCI_REGION_TYPE_IO st;
          st = pci_config_writeb b PCI_IO_BASE (ucast (drop_bit PCI_IO_SHIFT (rg_base io))) st;
          st = pci_config_writew b PCI_IO_BASE_UPPER16 0 st;
          st = pci_config_writeb b PCI_IO_LIMIT (ucast (drop_bit PCI_IO_SHIFT (region_limit io))) st;
          st = pci_config_writew b PCI_IO_LIMIT_UPPER16 0 st;
          m = region s PCI_REGION_TYPE_MEM st;
          st = pci_config_writew b PCI_MEMORY_BASE (ucast (drop_bit PCI_MEMORY_SHIFT (rg_base m))) st;
          st = pci_config_writew b PCI_MEMORY_LIMIT (ucast (drop_bit PCI_MEMORY_SHIFT (region_limit m))) st;
          p = region s PCI_REGION_TYPE_PREFMEM st;
          st = pci_config_writew b PCI_PREF_MEMORY_BASE (ucast (drop_bit PCI_PREF_MEMORY_SHIFT (rg_base p))) st;
          st = pci_config_writew b PCI_PREF_MEMORY_LIMIT (ucast (drop_bit PCI_PREF_MEMORY_SHIFT (region_limit p))) st;
          st = pci_config_writel b PCI_PREF_BASE_UPPER32 0 st in
      pci_config_writel b PCI_PREF_LIMIT_UPPER32 0 st)"

text \<open>\<open>pci_bios_map_device_in_bus\<close> and \<open>pci_bios_map_device\<close>, from index \<open>i\<close>.\<close>

partial_function (option) map_devices :: "nat \<Rightarrow> nat \<Rightarrow> pci_state \<Rightarrow> pci_state option" where
  "map_devices b i st =
     (if i \<ge> length (PCIDevices st) then Some st
      else let d = PCIDevices st ! i in
        if \<not> on_bus d b then map_devices b (i + 1) st
        else if pclass d = PCI_CLASS_BRIDGE_PCI then
          if uint (secondary_bus d) \<ge> busses_count st then map_devices b (i + 1) st
          else let s = unat (secondary_bus d) in
            Option.bind (bridge_get_bases b s st) (\<lambda>st.
            Option.bind (map_devices s 0 (bridge_windows (bdf d) s (pci_bios_init_bus_bases s st))) (\<lambda>st.
            map_devices b (i + 1) st))
        else Option.bind (map_bars b i 0 st) (\<lambda>st. map_devices b (i + 1) st))"

declare map_devices.simps [code]

definition pci_bios_map_device_in_bus :: "nat \<Rightarrow> pci_state \<Rightarrow> pci_state option" where
  "pci_bios_map_device_in_bus b st = map_devices b 0 st"

section \<open>Numbering the buses\<close>

text \<open>The first loop of \<open>pci_bios_init_bus_rec\<close>, which closes all bridges of a bus.\<close>

partial_function (option) close_bridges :: "int \<Rightarrow> int option \<Rightarrow> pci_state \<Rightarrow> pci_state option" where
  "close_bridges bus b st = (case b of None \<Rightarrow> Some st | Some b \<Rightarrow>
     case pci_config_readw (bdf16 b) PCI_CLASS_DEVICE st of (cls, st) \<Rightarrow>
     let st = (if cls = PCI_CLASS_BRIDGE_PCI then
                 pci_config_writeb (bdf16 b) PCI_SUBORDINATE_BUS 0
                   (pci_config_writeb (bdf16 b) PCI_SECONDARY_BUS 255 st)
               else st) in
     case pci_next b bus st of (b', st) \<Rightarrow> close_bridges bus b' st)"

declare close_bridges.simps [code]

text \<open>The bus numbers written to a bridge before the buses behind it are numbered.\<close>

definition open_bridge :: "int \<Rightarrow> u16 \<Rightarrow> u8 \<Rightarrow> pci_state \<Rightarrow> u8 \<times> u8 \<times> pci_state" where
  "open_bridge bus b pci_bus st =
     (case pci_config_readb b PCI_PRIMARY_BUS st of (pribus, st) \<Rightarrow>
      let st = (if uint pribus \<noteq> bus then pci_config_writeb b PCI_PRIMARY_BUS (word_of_int bus) st else st) in
      case pci_config_readb b PCI_SECONDARY_BUS st of (secbus, st) \<Rightarrow>
      let pci_bus = pci_bus + 1;
          st = (if pci_bus \<noteq> secbus then pci_config_writeb b PCI_SECONDARY_BUS pci_bus st else st) in
      case pci_config_readb b PCI_SUBORDINATE_BUS st of (subbus, st) \<Rightarrow>
      (pci_bus, subbus, pci_config_writeb b PCI_SUBORDINATE_BUS 255 st))"

partial_function (option) init_bus_rec :: "int \<Rightarrow> int option \<Rightarrow> u8 \<Rightarrow> pci_state \<Rightarrow> (u8 \<times> pci_state) option" where
  "init_bus_rec bus b pci_bus st = (case b of None \<Rightarrow> Some (pci_bus, st) | Some b \<Rightarrow>
     case pci_config_readw (bdf16 b) PCI_CLASS_DEVICE st of (cls, st) \<Rightarrow>
     if cls \<noteq> PCI_CLASS_BRIDGE_PCI then
       case pci_next b bus st of (b', st) \<Rightarrow> init_bus_rec bus b' pci_bus st
     else case open_bridge bus (bdf16 b) pci_bus st of (pci_bus, subbus, st) \<Rightarrow>
       case pci_first (uint pci_bus) st of (c, st) \<Rightarrow>
       Option.bind (close_bridges (uint pci_bus) c st) (\<lambda>st.
       case pci_first (uint pci_bus) st of (c, st) \<Rightarrow>
       Option.bind (init_bus_rec (uint pci_bus) c pci_bus st) (\<lambda>(pci_bus, st).
       case pci_next b bus (pci_config_writeb (bdf16 b) PCI_SUBORDINATE_BUS pci_bus st) of (b', st) \<Rightarrow>
       init_bus_rec bus b' pci_bus st)))"

declare init_bus_rec.simps [code]

definition pci_bios_init_bus_rec :: "int \<Rightarrow> u8 \<Rightarrow> pci_state \<Rightarrow> (u8 \<times> pci_state) option" where
  "pci_bios_init_bus_rec bus pci_bus st =
     (case pci_first bus st of (b, st) \<Rightarrow>
      case close_bridges bus b st of None \<Rightarrow> None | Some st \<Rightarrow>
      case pci_first bus st of (b, st) \<Rightarrow> init_bus_rec bus b pci_bus st)"

definition pci_bios_init_bus :: "pci_state \<Rightarrow> pci_state option" where
  "pci_bios_init_bus st = (case pci_bios_init_bus_rec 0 0 st of None \<Rightarrow> None
     | Some (pci_bus, st) \<Rightarrow> Some (st\<lparr>busses_count := uint pci_bus + 1\<rparr>))"

section \<open>Set-up of single devices\<close>

definition PCI_VENDOR_ID_INTEL :: u32 where "PCI_VENDOR_ID_INTEL = 0x8086"
definition PCI_VENDOR_ID_IBM :: u32 where "PCI_VENDOR_ID_IBM = 0x1014"
definition PCI_VENDOR_ID_APPLE :: u32 where "PCI_VENDOR_ID_APPLE = 0x106b"
definition PCI_DEVICE_ID_INTEL_82371SB_0 :: u32 where "PCI_DEVICE_ID_INTEL_82371SB_0 = 0x7000"
definition PCI_DEVICE_ID_INTEL_82371SB_1 :: u32 where "PCI_DEVICE_ID_INTEL_82371SB_1 = 0x7010"
definition PCI_DEVICE_ID_INTEL_82371AB_0 :: u32 where "PCI_DEVICE_ID_INTEL_82371AB_0 = 0x7110"
definition PCI_DEVICE_ID_INTEL_82371AB :: u32 where "PCI_DEVICE_ID_INTEL_82371AB = 0x7111"
definition PCI_DEVICE_ID_INTEL_82371AB_3 :: u32 where "PCI_DEVICE_ID_INTEL_82371AB_3 = 0x7113"
definition PCI_CLASS_STORAGE_IDE :: u32 where "PCI_CLASS_STORAGE_IDE = 0x0101"
definition PCI_CLASS_SYSTEM_PIC :: u32 where "PCI_CLASS_SYSTEM_PIC = 0x0800"
definition PORT_ATA1_CMD_BASE :: u32 where "PORT_ATA1_CMD_BASE = 0x01f0"
definition PORT_ATA2_CMD_BASE :: u32 where "PORT_ATA2_CMD_BASE = 0x0170"
definition PORT_ATA1_CTRL_BASE :: u32 where "PORT_ATA1_CTRL_BASE = 0x03f4"
definition PORT_ATA2_CTRL_BASE :: u32 where "PORT_ATA2_CTRL_BASE = 0x0374"
definition PORT_ACPI_PM_BASE :: u32 where "PORT_ACPI_PM_BASE = 0xb000"
definition PORT_SMB_BASE :: u32 where "PORT_SMB_BASE = 0xb100"

text \<open>The level-trigger mask of \<open>piix_isa_bridge_init\<close>: the byte \<open>k\<close> of \<open>elcr\<close>.\<close>

definition elcr :: "nat \<Rightarrow> u8" where
  "elcr k = foldl (\<lambda>m irq. if unat irq div 8 = k then m OR push_bit (unat irq mod 8) 1 else m) 0 pci_irqs"

definition piix_isa_bridge_init :: "pci_device \<Rightarrow> pci_state \<Rightarrow> pci_state" where
  "piix_isa_bridge_init pci st =
     (let st = fold (\<lambda>i st. pci_config_writeb (bdf pci) (0x60 + of_nat i) (pci_irqs ! i) st) [0..<4] st;
          st = outb (elcr 0) 0x4d0 st in
      outb (elcr 1) 0x4d1 st)"

definition pci_isa_bridge_tbl :: "pci_state pci_device_id list" where
  "pci_isa_bridge_tbl =
     [PCI_DEVICE PCI_VENDOR_ID_INTEL PCI_DEVICE_ID_INTEL_82371SB_0 piix_isa_bridge_init,
      PCI_DEVICE PCI_VENDOR_ID_INTEL PCI_DEVICE_ID_INTEL_82371AB_0 piix_isa_bridge_init]"

definition storage_ide_init :: "pci_device \<Rightarrow> pci_state \<Rightarrow> pci_state" where
  "storage_ide_init pci st =
     (let st = pci_set_io_region_addr (bdf pci) 0 PORT_ATA1_CMD_BASE st;
          st = pci_set_io_region_addr (bdf pci) 1 PORT_ATA1_CTRL_BASE st;
          st = pci_set_io_region_addr (bdf pci) 2 PORT_ATA2_CMD_BASE st in
      pci_set_io_region_addr (bdf pci) 3 PORT_ATA2_CTRL_BASE st)"

definition piix_ide_init :: "pci_device \<Rightarrow> pci_state \<Rightarrow> pci_state" where
  "piix_ide_init pci st = pci_config_writew (bdf pci) 0x42 0x8000 (pci_config_writew (bdf pci) 0x40 0x8000 st)"

definition pic_ibm_init :: "pci_device \<Rightarrow> pci_state \<Rightarrow> pci_state" where
  "pic_ibm_init pci st = pci_set_io_region_addr (bdf pci) 0 (0x80800000 + 0x00040000) st"

definition apple_macio_init :: "pci_device \<Rightarrow> pci_state \<Rightarrow> pci_state" where
  "apple_macio_init pci st = pci_set_io_region_addr (bdf pci) 0 0x80800000 st"

definition pci_class_tbl :: "pci_state pci_device_id list" where
  "pci_class_tbl =
     [PCI_DEVICE_CLASS PCI_VENDOR_ID_INTEL PCI_DEVICE_ID_INTEL_82371SB_1 PCI_CLASS_STORAGE_IDE piix_ide_init,
      PCI_DEVICE_CLASS PCI_VENDOR_ID_INTEL PCI_DEVICE_ID_INTEL_82371AB PCI_CLASS_STORAGE_IDE piix_ide_init,
      PCI_DEVICE_CLASS PCI_ANY_ID PCI_ANY_ID PCI_CLASS_STORAGE_IDE storage_ide_init,
      PCI_DEVICE_CLASS PCI_VENDOR_ID_IBM 0x0046 PCI_CLASS_SYSTEM_PIC pic_ibm_init,
      PCI_DEVICE_CLASS PCI_VENDOR_ID_IBM 0xFFFF PCI_CLASS_SYSTEM_PIC pic_ibm_init,
      PCI_DEVICE_CLASS PCI_VENDOR_ID_APPLE 0x0017 0xff00 apple_macio_init,
      PCI_DEVICE_CLASS PCI_VENDOR_ID_APPLE 0x0022 0xff00 apple_macio_init]"

definition piix4_pm_init :: "pci_device \<Rightarrow> pci_state \<Rightarrow> pci_state" where
  "piix4_pm_init pci st =
     (let st = pci_config_writeb (bdf pci) PCI_INTERRUPT_LINE 9 st;
          st = pci_config_writel (bdf pci) 0x40 (PORT_ACPI_PM_BASE OR 1) st;
          st = pci_config_writeb (bdf pci) 0x80 0x01 st;
          st = pci_config_writel (bdf pci) 0x90 (PORT_SMB_BASE OR 1) st in
      pci_config_writeb (bdf pci) 0xd2 0x09 st)"

definition pci_device_tbl :: "pci_state pci_device_id list" where
  "pci_device_tbl = [PCI_DEVICE PCI_VENDOR_ID_INTEL PCI_DEVICE_ID_INTEL_82371AB_3 piix4_pm_init]"

definition pci_bios_init_device :: "pci_device \<Rightarrow> pci_state \<Rightarrow> pci_state" where
  "pci_bios_init_device pci st =
     (let st = snd (pci_init_device pci_class_tbl pci st);
          st = pci_config_maskw (bdf pci) PCI_COMMAND 0 (PCI_COMMAND_IO OR PCI_COMMAND_MEMORY) st in
      case pci_config_readb (bdf pci) PCI_INTERRUPT_PIN st of (pin, st) \<Rightarrow>
      let st = (if pin \<noteq> 0 then
                  pci_config_writeb (bdf pci) PCI_INTERRUPT_LINE (pci_irqs ! pci_slot_get_pirq (bdf pci) (unat pin - 1)) st
                else st) in
      snd (pci_init_device pci_device_tbl pci st))"

text \<open>The walk stops at the first device of a higher bus.\<close>

fun init_devices_in :: "nat \<Rightarrow> pci_device list \<Rightarrow> pci_state \<Rightarrow> pci_state" where
  "init_devices_in b [] st = st"
| "init_devices_in b (pci # rest) st =
     (if unat (pci_bdf_to_bus (bdf pci)) < b then init_devices_in b rest st
      else if unat (pci_bdf_to_bus (bdf pci)) > b then st
      else init_devices_in b rest (pci_bios_init_device pci st))"

definition pci_bios_init_device_in_bus :: "nat \<Rightarrow> pci_state \<Rightarrow> pci_state" where
  "pci_bios_init_device_in_bus b st = init_devices_in b (PCIDevices st) st"

section \<open>The whole set-up\<close>

text \<open>
  Both passes over a list of devices; \<open>None\<close> also stands for the panic when the address space is too
  small. The allocation of the array of buses is taken to succeed.
\<close>

definition pci_allocate :: "pci_state \<Rightarrow> pci_state option" where
  "pci_allocate st =
     (let st = st\<lparr>busses := replicate (nat (busses_count st)) (\<lambda>_. no_region)\<rparr> in
      case pci_bios_check_device_in_bus 0 st of None \<Rightarrow> None | Some st \<Rightarrow>
      case pci_bios_init_root_regions BUILD_PCIMEM_START BUILD_PCIMEM_END st of (ok, st) \<Rightarrow>
      if \<not> ok then None
      else pci_bios_map_device_in_bus 0 (pci_bios_init_bus_bases 0 st))"

definition pci_setup :: "(nat \<Rightarrow> bool) \<Rightarrow> int \<Rightarrow> bool \<Rightarrow> pci_state \<Rightarrow> pci_state option" where
  "pci_setup alloc_ok extraroots usingXen st =
     (if usingXen then pci_probe alloc_ok extraroots st
      else case pci_bios_init_bus st of None \<Rightarrow> None | Some st \<Rightarrow>
        case pci_probe alloc_ok extraroots st of None \<Rightarrow> None | Some st \<Rightarrow>
        case pci_allocate st of None \<Rightarrow> None | Some st \<Rightarrow>
        let st = pci_bios_init_device_in_bus 0 st;
            st = fold (\<lambda>pci st. snd (pci_init_device pci_isa_bridge_tbl pci st)) (PCIDevices st) st in
        Some (st\<lparr>busses := [], busses_count := 0\<rparr>))"

end
