(* ===== verification/PciLayout.thy ===== *)
theory PciLayout
  imports Pciinit
begin

text \<open>
  The layout of the requests made of a PCI region: indices and sizes, the places the arithmetic of
  \<open>pci_bios_init_bus_bases\<close> gives to the requests, that these are aligned and disjoint, and how the
  records of a region (statistics, bases) stand for them.
\<close>

section \<open>Sizes\<close>

lemma nat_bit_less:
  assumes "(n :: nat) < 2 ^ Suc k" "\<not> bit n k"
  shows "n < 2 ^ k"
proof -
  have "n div 2 ^ k < 2" using assms(1) by (simp add: less_mult_imp_div_less)
  moreover have "n div 2 ^ k \<noteq> 1" using assms(2) by (auto simp: bit_iff_odd)
  ultimately have "n div 2 ^ k = 0" by linarith
  then show ?thesis by (simp add: div_eq_0_iff)
qed

lemma fls_from_spec:
  assumes "unat w < 2 ^ Suc m" "w \<noteq> 0"
  shows "2 ^ fls_from m w \<le> unat w \<and> unat w < 2 ^ Suc (fls_from m w) \<and> fls_from m w \<le> m"
  using assms(1)
proof (induction m)
  case 0
  then show ?case using assms(2) by (simp add: unat_gt_0 Suc_le_eq)
next
  case (Suc m)
  have b: "bit (unat w) (Suc m) = bit w (Suc m)" by (simp add: bit_unsigned_iff)
  show ?case
  proof (cases "bit w (Suc m)")
    case True
    then show ?thesis using Suc.prems bit_le [of w "Suc m"] by simp
  next
    case False
    then have "unat w < 2 ^ Suc m" using nat_bit_less [OF Suc.prems] b by simp
    then show ?thesis using Suc.IH False by simp
  qed
qed

lemma fls_spec:
  assumes "fls w = Some k"
  shows "2 ^ k \<le> unat w" "unat w < 2 ^ Suc k" "k \<le> 31"
proof -
  have "unat w < 2 ^ Suc 31" by (rule less_le_trans [OF unsigned_less]) simp
  then show "2 ^ k \<le> unat w" "unat w < 2 ^ Suc k" "k \<le> 31"
    using assms fls_from_spec [of w 31] by (auto simp: fls_def split: if_splits)
qed

text \<open>The size of the regions with index \<open>i\<close>.\<close>

definition isz :: "pci_region_type \<Rightarrow> nat \<Rightarrow> nat" where
  "isz t i = 2 ^ (i + pci_index_shift t)"

lemma isz_pos [simp]: "0 < isz t i" by (simp add: isz_def)

lemma isz_dvd: "i \<le> j \<Longrightarrow> isz t i dvd isz t j"
  by (simp add: isz_def le_imp_power_dvd)

text \<open>The indices that are in the arrays, and the size a request is rounded to.\<close>

lemma unat_index_to_size:
  assumes "i < PCI_REGION_SLOTS"
  shows "unat (pci_index_to_size i t) = isz t i"
proof -
  have "i + pci_index_shift t < 32" using assms by (simp add: pci_index_shift_def pci_shifts)
  then show ?thesis unfolding pci_index_to_size_def isz_def by (rule unat_push_bit_1)
qed

lemma index_to_size_of_nat: "i < PCI_REGION_SLOTS \<Longrightarrow> pci_index_to_size i t = of_nat (isz t i)"
  using unat_index_to_size [of i t] by (metis of_nat_unat ucast_id)

lemma size_to_index_covers:
  assumes "pci_size_to_index sz t = Some i" "unat sz = 2 ^ k"
  shows "unat sz \<le> isz t i"
proof -
  obtain f where f: "fls sz = Some f" "i = (if f < pci_index_shift t then 0 else f - pci_index_shift t)"
    using assms(1) by (auto simp: pci_size_to_index_def Let_def split: option.splits if_splits)
  have "2 ^ k < (2 :: nat) ^ Suc f" using fls_spec(2) [OF f(1)] assms(2) by simp
  then have "k \<le> f" by (simp only: power_strict_increasing_iff less_Suc_eq_le)
  then show ?thesis using f(2) assms(2) by (simp add: isz_def)
qed

lemma roundup_spec:
  assumes "pci_size_roundup sz = Some r" "sz \<noteq> 0"
  shows "\<exists>k. unat r = 2 ^ k \<and> k < 32 \<and> unat sz \<le> unat r"
proof -
  obtain f where f: "fls (sz - 1) = Some f" "f + 1 < 32" "r = push_bit (f + 1) 1"
    using assms(1) by (auto simp: pci_size_roundup_def split: option.splits if_splits)
  have "unat (sz - 1) = unat sz - 1" by (rule unat_minus_1 [OF assms(2)])
  moreover have "unat (sz - 1) < 2 ^ (f + 1)" using fls_spec(2) [OF f(1)] by simp
  moreover have "unat r = 2 ^ (f + 1)" unfolding f(3) by (rule unat_push_bit_1 [OF f(2)])
  ultimately have "unat r = 2 ^ (f + 1) \<and> f + 1 < 32 \<and> unat sz \<le> unat r" using f(2) by linarith
  then show ?thesis by blast
qed

section \<open>The layout of a region\<close>

text \<open>
  A list \<open>ks\<close> of indices stands for the requests made of a region, in order. They are placed by size,
  the largest first: where the requests of index \<open>i\<close> start, and where request \<open>k\<close> comes to lie.
\<close>

abbreviation slots :: nat where "slots \<equiv> PCI_REGION_SLOTS"

definition above :: "pci_region_type \<Rightarrow> nat list \<Rightarrow> nat \<Rightarrow> nat" where
  "above t ks i = (\<Sum>j\<in>{Suc i..<slots}. count_list ks j * isz t j)"

definition total :: "pci_region_type \<Rightarrow> nat list \<Rightarrow> nat" where
  "total t ks = sum_list (map (isz t) ks)"

definition place :: "pci_region_type \<Rightarrow> nat \<Rightarrow> nat list \<Rightarrow> nat \<Rightarrow> nat" where
  "place t base ks k = base + above t ks (ks ! k) + count_list (take k ks) (ks ! k) * isz t (ks ! k)"

definition indices :: "nat list \<Rightarrow> bool" where
  "indices ks \<longleftrightarrow> (\<forall>i\<in>set ks. i < slots)"

lemma total_eq:
  assumes "indices ks"
  shows "total t ks = (\<Sum>j\<in>{0..<slots}. count_list ks j * isz t j)"
proof -
  have "total t ks = (\<Sum>j\<in>set ks. count_list ks j * isz t j)"
    by (simp add: total_def sum_list_map_eq_sum_count)
  also have "\<dots> = (\<Sum>j\<in>{0..<slots}. count_list ks j * isz t j)"
    using assms by (intro sum.mono_neutral_left) (auto simp: indices_def count_list_0_iff)
  finally show ?thesis .
qed

lemma above_le:
  assumes "i < j" "j < slots"
  shows "above t ks j + count_list ks j * isz t j \<le> above t ks i"
proof -
  have "{Suc i..<slots} = {Suc i..<j} \<union> {j} \<union> {Suc j..<slots}" using assms by auto
  then have "above t ks i = (\<Sum>j\<in>{Suc i..<j}. count_list ks j * isz t j) + count_list ks j * isz t j + above t ks j"
    unfolding above_def by (simp add: sum.union_disjoint)
  then show ?thesis by simp
qed

lemma above_total:
  assumes "indices ks" "i < slots"
  shows "above t ks i + count_list ks i * isz t i \<le> total t ks"
proof -
  have "{0..<slots} = {0..<i} \<union> {i} \<union> {Suc i..<slots}" using assms(2) by auto
  then have "total t ks = (\<Sum>j\<in>{0..<i}. count_list ks j * isz t j) + count_list ks i * isz t i + above t ks i"
    unfolding total_eq [OF assms(1)] above_def by (simp add: sum.union_disjoint)
  then show ?thesis by simp
qed

lemma count_take:
  assumes "k < length ks"
  shows "Suc (count_list (take k ks) (ks ! k)) \<le> count_list ks (ks ! k)"
proof -
  have "ks = take k ks @ ks ! k # drop (Suc k) ks" by (rule id_take_nth_drop [OF assms])
  then have "count_list ks (ks ! k) = count_list (take k ks @ ks ! k # drop (Suc k) ks) (ks ! k)" by simp
  then show ?thesis by simp
qed

lemma count_take_less:
  assumes "k < l" "l < length ks" "ks ! k = ks ! l"
  shows "Suc (count_list (take k ks) (ks ! k)) \<le> count_list (take l ks) (ks ! l)"
  using count_take [of k "take l ks"] assms by (simp add: min_def)

lemma place_bounds:
  assumes "indices ks" "k < length ks"
  shows "base \<le> place t base ks k" "place t base ks k + isz t (ks ! k) \<le> base + total t ks"
proof -
  have i: "ks ! k < slots" using assms by (simp add: indices_def)
  have "(count_list (take k ks) (ks ! k) + 1) * isz t (ks ! k) \<le> count_list ks (ks ! k) * isz t (ks ! k)"
    using count_take [OF assms(2)] by (intro mult_right_mono) simp_all
  then show "place t base ks k + isz t (ks ! k) \<le> base + total t ks"
    using above_total [OF assms(1) i, of t] by (simp add: place_def algebra_simps)
qed (simp add: place_def)

lemma place_class:
  assumes "indices ks" "k < length ks" "l < length ks" "ks ! k < ks ! l"
  shows "place t base ks l + isz t (ks ! l) \<le> place t base ks k"
proof -
  have j: "ks ! l < slots" using assms by (simp add: indices_def)
  have "(count_list (take l ks) (ks ! l) + 1) * isz t (ks ! l) \<le> count_list ks (ks ! l) * isz t (ks ! l)"
    using count_take [OF assms(3)] by (intro mult_right_mono) simp_all
  then show ?thesis
    using above_le [OF assms(4) j, of t ks] by (simp add: place_def algebra_simps)
qed

lemma place_disjoint:
  assumes "indices ks" "k < length ks" "l < length ks" "k \<noteq> l"
  shows "place t base ks k + isz t (ks ! k) \<le> place t base ks l \<or> place t base ks l + isz t (ks ! l) \<le> place t base ks k"
proof -
  have same: "place t base ks k + isz t (ks ! k) \<le> place t base ks l" if "k < l" "l < length ks" "ks ! k = ks ! l" for k l
  proof -
    have "(count_list (take k ks) (ks ! k) + 1) * isz t (ks ! k) \<le> count_list (take l ks) (ks ! l) * isz t (ks ! k)"
      using count_take_less [OF that] by (intro mult_right_mono) simp_all
    then show ?thesis using that(3) by (simp add: place_def algebra_simps)
  qed
  consider "ks ! k < ks ! l" | "ks ! l < ks ! k" | "ks ! k = ks ! l" "k < l" | "ks ! k = ks ! l" "l < k"
    using assms(4) by linarith
  then show ?thesis
    using place_class [OF assms(1-3)] place_class [OF assms(1,3,2)] same [of k l] same [of l k] assms(2,3)
    by cases auto
qed

lemma place_aligned:
  assumes "indices ks" "k < length ks" "\<And>i. i \<in> set ks \<Longrightarrow> isz t i dvd base"
  shows "isz t (ks ! k) dvd place t base ks k"
proof -
  have "isz t (ks ! k) dvd above t ks (ks ! k)"
    unfolding above_def by (intro dvd_sum dvd_mult isz_dvd) simp
  then show ?thesis
    using assms(3) [of "ks ! k"] assms(2) by (simp add: place_def)
qed

section \<open>The records of a region\<close>

definition peak :: "pci_region_type \<Rightarrow> nat list \<Rightarrow> nat" where
  "peak t ks = Max (insert 0 (isz t ` set ks))"

text \<open>The statistics after the requests \<open>ks\<close>.\<close>

definition reserved :: "pci_region_type \<Rightarrow> nat list \<Rightarrow> pci_region \<Rightarrow> bool" where
  "reserved t ks rg \<longleftrightarrow> indices ks \<and> length (rg_count rg) = slots \<and> length (rg_bases rg) = slots \<and>
     (\<forall>i < slots. rg_count rg ! i = of_nat (count_list ks i)) \<and>
     rg_sum rg = of_nat (total t ks) \<and> rg_max rg = of_nat (peak t ks)"

lemma peak_snoc: "peak t (ks @ [i]) = max (peak t ks) (isz t i)"
proof -
  have "insert 0 (isz t ` set (ks @ [i])) = insert (isz t i) (insert 0 (isz t ` set ks))" by auto
  then show ?thesis unfolding peak_def by (simp add: max.commute)
qed

lemma isz_le:
  assumes "i < slots"
  shows "isz t i \<le> 2 ^ 31"
proof -
  have "i + pci_index_shift t \<le> 31" using assms by (simp add: pci_index_shift_def pci_shifts)
  then show ?thesis unfolding isz_def by (rule power_increasing) simp
qed

lemma peak_le: "indices ks \<Longrightarrow> peak t ks \<le> 2 ^ 31"
  unfolding peak_def using isz_le by (auto simp: indices_def)

lemma unat_peak: "indices ks \<Longrightarrow> unat (of_nat (peak t ks) :: u32) = peak t ks"
  using peak_le [of ks t] by (simp add: take_bit_nat_eq_self unsigned_of_nat)

lemma reserved_empty: "reserved t [] no_region"
  by (simp add: reserved_def no_region_def indices_def total_def peak_def)

lemma region_reserve_some:
  assumes "region_reserve t sz rg = Some rg'"
  obtains i where "pci_size_to_index sz t = Some i" "i < slots"
    "rg' = rg\<lparr>rg_count := (rg_count rg)[i := rg_count rg ! i + 1], rg_sum := rg_sum rg + pci_index_to_size i t,
       rg_max := (if rg_max rg < pci_index_to_size i t then pci_index_to_size i t else rg_max rg)\<rparr>"
  using assms that by (auto simp: region_reserve_def Let_def split: option.splits if_splits)

lemma region_reserve_reserved:
  assumes "reserved t ks rg" "region_reserve t sz rg = Some rg'"
  obtains i where "pci_size_to_index sz t = Some i" "i < slots" "reserved t (ks @ [i]) rg'"
    "rg_size rg' = rg_size rg" "rg_base rg' = rg_base rg"
proof -
  from assms(2) obtain i where i: "pci_size_to_index sz t = Some i" "i < slots"
    "rg' = rg\<lparr>rg_count := (rg_count rg)[i := rg_count rg ! i + 1], rg_sum := rg_sum rg + pci_index_to_size i t,
       rg_max := (if rg_max rg < pci_index_to_size i t then pci_index_to_size i t else rg_max rg)\<rparr>"
    by (rule region_reserve_some)
  have ix: "indices ks" using assms(1) by (simp add: reserved_def)
  have less: "(of_nat (peak t ks) :: u32) < of_nat (isz t i) \<longleftrightarrow> peak t ks < isz t i"
    unfolding index_to_size_of_nat [OF i(2), symmetric]
    by (simp only: word_less_nat_alt unat_index_to_size [OF i(2)] unat_peak [OF ix])
  have "reserved t (ks @ [i]) rg'"
    using assms(1) i(2) unfolding i(3) reserved_def
    by (auto simp: less peak_snoc max_def total_def indices_def nth_list_update index_to_size_of_nat [OF i(2)])
  then show thesis using that i by simp
qed

text \<open>The bases computed from the statistics.\<close>

lemma set_bases_nth:
  assumes "n \<le> length bases" "n \<le> slots"
  shows "i < n \<Longrightarrow> counts ! i \<noteq> 0 \<Longrightarrow>
      set_bases n t base counts bases ! i = base + (\<Sum>j\<in>{Suc i..<n}. pci_index_to_size j t * counts ! j)"
    "n \<le> i \<Longrightarrow> set_bases n t base counts bases ! i = bases ! i"
    "length (set_bases n t base counts bases) = length bases"
  using assms
proof (induction n arbitrary: base bases)
  case (Suc n)
  { case 1
    show ?case
    proof (cases "i = n")
      case True
      then show ?thesis using 1 Suc.IH(2) by simp
    next
      case False
      then have i: "i < n" using 1 by simp
      have "{Suc i..<Suc n} = insert n {Suc i..<n}" using i by auto
      then show ?thesis
        using Suc.IH(1) [where bases = bases and base = base]
          Suc.IH(1) [where bases = "bases[n := base]" and base = "base + pci_index_to_size n t * counts ! n"] 1 i
        by (simp add: algebra_simps)
    qed
  next
    case 2 then show ?case using Suc.IH(2) by simp
  next
    case 3 then show ?case using Suc.IH(3) by simp
  }
qed simp_all

text \<open>Where the next request of every index goes after \<open>k\<close> requests.\<close>

definition cursor :: "pci_region_type \<Rightarrow> nat \<Rightarrow> nat list \<Rightarrow> nat \<Rightarrow> pci_region \<Rightarrow> bool" where
  "cursor t base ks k rg \<longleftrightarrow> indices ks \<and> length (rg_bases rg) = slots \<and>
     (\<forall>i\<in>set ks. rg_bases rg ! i = of_nat (base + above t ks i + count_list (take k ks) i * isz t i))"

lemma init_bases_cursor:
  assumes "reserved t ks rg" "total t ks < 2 ^ 32"
  shows "cursor t (unat (rg_base rg)) ks 0 (region_init_bases t rg)"
proof -
  have r: "indices ks" "length (rg_bases rg) = slots" "\<And>i. i < slots \<Longrightarrow> rg_count rg ! i = of_nat (count_list ks i)"
    using assms(1) by (simp_all add: reserved_def)
  have "set_bases slots t (rg_base rg) (rg_count rg) (rg_bases rg) ! i = of_nat (unat (rg_base rg) + above t ks i)"
    if "i \<in> set ks" for i
  proof -
    have i: "i < slots" using that r(1) by (simp add: indices_def)
    have pos: "0 < count_list ks i" using that by (simp add: count_list_0_iff neq0_conv [symmetric])
    have "count_list ks i * 1 \<le> count_list ks i * isz t i" by (rule mult_le_mono2) (simp add: Suc_le_eq)
    then have "count_list ks i \<le> total t ks" using above_total [OF r(1) i, of t] by linarith
    then have lt: "count_list ks i < 2 ^ 32" using assms(2) by simp
    then have "unat (of_nat (count_list ks i) :: u32) = count_list ks i"
      by (simp add: unsigned_of_nat take_bit_nat_eq_self)
    then have "(of_nat (count_list ks i) :: u32) \<noteq> 0" using pos by (metis unat_0 less_irrefl)
    then have "set_bases slots t (rg_base rg) (rg_count rg) (rg_bases rg) ! i
        = rg_base rg + (\<Sum>j\<in>{Suc i..<slots}. pci_index_to_size j t * rg_count rg ! j)"
      using i r by (intro set_bases_nth(1)) simp_all
    also have "(\<Sum>j\<in>{Suc i..<slots}. pci_index_to_size j t * rg_count rg ! j) = of_nat (above t ks i)"
      unfolding above_def of_nat_sum using r(3) by (intro sum.cong) (simp_all add: index_to_size_of_nat)
    finally show ?thesis by simp
  qed
  then show ?thesis
    using r by (simp add: cursor_def region_init_bases_def set_bases_nth(3))
qed

lemma get_addr_cursor:
  assumes "cursor t base ks k rg" "k < length ks" "pci_size_to_index sz t = Some (ks ! k)"
  obtains rg' where "region_get_addr t sz rg = Some (of_nat (place t base ks k), rg')" "cursor t base ks (Suc k) rg'"
    "rg_size rg' = rg_size rg" "rg_base rg' = rg_base rg" "rg_sum rg' = rg_sum rg" "rg_max rg' = rg_max rg" "rg_count rg' = rg_count rg"
proof -
  let ?i = "ks ! k"
  let ?rg = "rg\<lparr>rg_bases := (rg_bases rg)[?i := rg_bases rg ! ?i + pci_index_to_size ?i t]\<rparr>"
  have c: "?i \<in> set ks" "?i < slots" using assms(1,2) by (simp_all add: cursor_def indices_def)
  have b: "rg_bases rg ! ?i = of_nat (place t base ks k)" using assms(1) c(1) by (simp add: cursor_def place_def)
  have "take (Suc k) ks = take k ks @ [?i]" by (rule take_Suc_conv_app_nth [OF assms(2)])
  then have "cursor t base ks (Suc k) ?rg"
    using assms(1) c(2) by (auto simp: cursor_def nth_list_update index_to_size_of_nat algebra_simps)
  moreover have "region_get_addr t sz rg = Some (of_nat (place t base ks k), ?rg)"
    using assms(3) c(2) by (simp add: region_get_addr_def b)
  ultimately show thesis using that by simp
qed

end
