(* ===== verification/PciPass1.thy ===== *)
theory PciPass1
  imports PciLayout
begin

text \<open>
  The first pass of the allocation, \<open>pci_bios_check_device_in_bus\<close>: on a tree of buses it records the
  requests of all devices, and gives every bridge a window that covers the requests of the bus behind it.
\<close>

section \<open>The requests of a device\<close>

text \<open>The registers the loops visit, and the indices of the requests they make.\<close>

function bar_walk :: "nat \<Rightarrow> pci_bar_s list \<Rightarrow> (nat \<times> pci_bar_s) list" where
  "bar_walk j bs =
     (if j \<ge> PCI_NUM_REGIONS then []
      else if bar_addr (bs ! j) = 0 then bar_walk (j + 1) bs
      else (j, bs ! j) # bar_walk (if is64 (bs ! j) then j + 2 else j + 1) bs)"
  by pat_completeness auto
termination by (relation "measure (\<lambda>(j, _). PCI_NUM_REGIONS - j)") auto

declare bar_walk.simps [simp del] check_bars.simps [simp del] map_bars.simps [simp del]

abbreviation bar_type :: "pci_bar_s \<Rightarrow> pci_region_type" where
  "bar_type bar \<equiv> pci_addr_to_type (bar_addr bar)"

definition req_index :: "u32 \<Rightarrow> pci_region_type \<Rightarrow> nat" where
  "req_index sz t = the (pci_size_to_index sz t)"

definition fits :: "u32 \<Rightarrow> pci_region_type \<Rightarrow> bool" where
  "fits sz t \<longleftrightarrow> (\<exists>i < slots. pci_size_to_index sz t = Some i)"

definition bar_reqs :: "pci_region_type \<Rightarrow> nat \<Rightarrow> pci_bar_s list \<Rightarrow> nat list" where
  "bar_reqs t j bs = map (\<lambda>(_, bar). req_index (bar_size bar) t) (filter (\<lambda>(_, bar). bar_type bar = t) (bar_walk j bs))"

definition bars_fit :: "nat \<Rightarrow> pci_bar_s list \<Rightarrow> bool" where
  "bars_fit j bs \<longleftrightarrow> (\<forall>(_, bar)\<in>set (bar_walk j bs). fits (bar_size bar) (bar_type bar))"

text \<open>Configuration accesses leave the lists of devices and buses alone.\<close>

lemmas cfg_access = pci_config_readb_def pci_config_readw_def pci_config_readl_def pci_config_writeb_def
  pci_config_writew_def pci_config_writel_def pci_select_def outb_def outw_def outl_def inb_def inw_def inl_def Let_def

lemma cfg_frame [simp]:
  fixes st :: pci_state
  shows "PCIDevices (snd (pci_config_readb b a st)) = PCIDevices st" "busses (snd (pci_config_readb b a st)) = busses st"
    "busses_count (snd (pci_config_readb b a st)) = busses_count st"
    "PCIDevices (snd (pci_config_readl b a st)) = PCIDevices st" "busses (snd (pci_config_readl b a st)) = busses st"
    "busses_count (snd (pci_config_readl b a st)) = busses_count st"
    "PCIDevices (pci_config_writeb b a v8 st) = PCIDevices st" "busses (pci_config_writeb b a v8 st) = busses st"
    "busses_count (pci_config_writeb b a v8 st) = busses_count st"
    "PCIDevices (pci_config_writew b a v16 st) = PCIDevices st" "busses (pci_config_writew b a v16 st) = busses st"
    "busses_count (pci_config_writew b a v16 st) = busses_count st"
    "PCIDevices (pci_config_writel b a v st) = PCIDevices st" "busses (pci_config_writel b a v st) = busses st"
    "busses_count (pci_config_writel b a v st) = busses_count st"
  by (simp_all add: cfg_access)

lemma pci_bar_frame [simp]:
  fixes st :: pci_state
  shows "PCIDevices (snd (pci_bar b j st)) = PCIDevices st" "busses (snd (pci_bar b j st)) = busses st"
    "busses_count (snd (pci_bar b j st)) = busses_count st"
  by (simp_all add: pci_bar_def Let_def split: prod.split) (metis cfg_frame(1-3) snd_conv)+

lemma get_bar_frame:
  fixes st :: pci_state
  assumes "pci_bios_bus_get_bar b j st = (vs, st')"
  shows "PCIDevices st' = PCIDevices st" "busses st' = busses st" "busses_count st' = busses_count st"
proof -
  obtain ofs s1 old s2 where 1: "pci_bar b j st = (ofs, s1)" "pci_config_readl b ofs s1 = (old, s2)"
    by (meson surj_pair)
  let ?m = "if j = PCI_ROM_SLOT then PCI_ROM_ADDRESS_MASK
     else if old AND PCI_BASE_ADDRESS_SPACE_IO \<noteq> 0 then PCI_BASE_ADDRESS_IO_MASK else PCI_BASE_ADDRESS_MEM_MASK"
  obtain v s3 where 2: "pci_config_readl b ofs (pci_config_writel b ofs (if j = PCI_ROM_SLOT then ?m else NOT 0) s2) = (v, s3)"
    by (meson surj_pair)
  have st': "st' = pci_config_writel b ofs old s3"
    using assms 1 2 by (simp add: pci_bios_bus_get_bar_def Let_def)
  show "PCIDevices st' = PCIDevices st" "busses st' = busses st" "busses_count st' = busses_count st"
    using pci_bar_frame [of b j st] cfg_frame(4-6) [of b ofs s1]
      cfg_frame(4-6) [of b ofs "pci_config_writel b ofs (if j = PCI_ROM_SLOT then ?m else NOT 0) s2"]
    by (simp_all only: st' 1 2 snd_conv cfg_frame)
qed

text \<open>Updates of one region.\<close>

lemma upd_region_sel [simp]:
  "PCIDevices (upd_region b t f st) = PCIDevices st" "busses_count (upd_region b t f st) = busses_count st"
  "length (busses (upd_region b t f st)) = length (busses st)"
  by (simp_all add: upd_region_def)

lemma upd_region_other: "x \<noteq> b \<Longrightarrow> busses (upd_region b t f st) ! x = busses st ! x"
  by (simp add: upd_region_def)

lemma region_upd:
  "b < length (busses st) \<Longrightarrow>
   region x u (upd_region b t f st) = (if x = b \<and> u = t then f (region b t st) else region x u st)"
  by (simp add: upd_region_def region_def nth_list_update)

text \<open>A request of \<open>sz\<close> on bus \<open>b\<close>.\<close>

lemma bus_reserve_ok:
  assumes "pci_bios_bus_reserve b t sz st = Some st'" "b < length (busses st)" "\<And>u. reserved u (ks u) (region b u st)"
  shows "fits sz t" "\<And>u. reserved u (ks u @ (if u = t then [req_index sz t] else [])) (region b u st')"
    "\<And>u. rg_size (region b u st') = rg_size (region b u st)" "\<And>u. rg_base (region b u st') = rg_base (region b u st)"
    "\<And>x. x \<noteq> b \<Longrightarrow> busses st' ! x = busses st ! x" "PCIDevices st' = PCIDevices st"
    "busses_count st' = busses_count st" "length (busses st') = length (busses st)"
proof -
  obtain rg where rg: "region_reserve t sz (region b t st) = Some rg" "st' = upd_region b t (\<lambda>_. rg) st"
    using assms(1) by (auto simp: pci_bios_bus_reserve_def split: option.splits)
  obtain i where i: "pci_size_to_index sz t = Some i" "i < slots" "reserved t (ks t @ [i]) rg"
      "rg_size rg = rg_size (region b t st)" "rg_base rg = rg_base (region b t st)"
    by (rule region_reserve_reserved [OF assms(3) rg(1)])
  show "fits sz t" using i by (auto simp: fits_def)
  show "reserved u (ks u @ (if u = t then [req_index sz t] else [])) (region b u st')" for u
    using assms(3) [of u] i by (simp add: rg(2) region_upd [OF assms(2)] req_index_def)
  show "rg_size (region b u st') = rg_size (region b u st)" "rg_base (region b u st') = rg_base (region b u st)" for u
    using i by (simp_all add: rg(2) region_upd [OF assms(2)])
qed (use assms(1) in \<open>auto simp: pci_bios_bus_reserve_def upd_region_other split: option.splits\<close>)

section \<open>Pass 1 of a device\<close>

lemma set_bar_sel [simp]:
  "busses (set_bar i j bar st) = busses st" "busses_count (set_bar i j bar st) = busses_count st"
  "region b t (set_bar i j bar st) = region b t st"
  by (simp_all add: set_bar_def Let_def region_def)

lemma check_bars_ok:
  assumes "check_bars b i j st = Some st'" "i < length (PCIDevices st)" "b < length (busses st)"
    "length (bars (PCIDevices st ! i)) = PCI_NUM_REGIONS"
    "\<And>k. j \<le> k \<Longrightarrow> k < PCI_NUM_REGIONS \<Longrightarrow> bar_addr (bars (PCIDevices st ! i) ! k) = 0"
    "\<And>t. reserved t (ks t) (region b t st)"
  shows "\<exists>bs. PCIDevices st' = (PCIDevices st)[i := (PCIDevices st ! i)\<lparr>bars := bs\<rparr>] \<and> length bs = PCI_NUM_REGIONS \<and>
    (\<forall>k<j. k < PCI_NUM_REGIONS \<longrightarrow> bs ! k = bars (PCIDevices st ! i) ! k) \<and> bars_fit j bs \<and>
    (\<forall>t. reserved t (ks t @ bar_reqs t j bs) (region b t st') \<and>
       rg_size (region b t st') = rg_size (region b t st) \<and> rg_base (region b t st') = rg_base (region b t st)) \<and>
    (\<forall>x. x \<noteq> b \<longrightarrow> busses st' ! x = busses st ! x) \<and>
    busses_count st' = busses_count st \<and> length (busses st') = length (busses st)"
  using assms
proof (induction b i j st arbitrary: ks rule: check_bars.induct)
  case (1 b i j st)
  let ?d = "PCIDevices st ! i"
  show ?case
  proof (cases "j \<ge> PCI_NUM_REGIONS")
    case True
    then have "st' = st" using 1(3) by (simp add: check_bars.simps [of b i j])
    then show ?thesis
      using True 1(4-8) by (intro exI [of _ "bars ?d"])
        (simp add: bars_fit_def bar_reqs_def bar_walk.simps [of j])
  next
    case False
    obtain val sz s1 where g: "pci_bios_bus_get_bar (bdf ?d) j st = ((val, sz), s1)" by (metis surj_pair)
    note f = get_bar_frame [OF g]
    have r1: "region x t s1 = region x t st" for x t by (simp add: region_def f)
    show ?thesis
    proof (cases "val = 0")
      case True
      have "check_bars b i (j + 1) s1 = Some st'"
        using 1(3) False True g by (simp add: check_bars.simps [of b i j])
      from 1(1) [OF False g [symmetric] refl True this, of ks] 1(4-8)
      obtain bs where bs: "PCIDevices st' = (PCIDevices st)[i := ?d\<lparr>bars := bs\<rparr>]" "length bs = PCI_NUM_REGIONS"
        "\<forall>k<j + 1. k < PCI_NUM_REGIONS \<longrightarrow> bs ! k = bars ?d ! k" "bars_fit (j + 1) bs"
        "\<forall>t. reserved t (ks t @ bar_reqs t (j + 1) bs) (region b t st') \<and>
           rg_size (region b t st') = rg_size (region b t st) \<and> rg_base (region b t st') = rg_base (region b t st)"
        "\<forall>x. x \<noteq> b \<longrightarrow> busses st' ! x = busses st ! x" "busses_count st' = busses_count st"
        "length (busses st') = length (busses st)"
        by (auto simp: f r1)
      have "bar_addr (bs ! j) = 0" using bs(3) 1(7) [of j] False by simp
      then have "bar_walk j bs = bar_walk (j + 1) bs" using False by (simp add: bar_walk.simps [of j])
      then show ?thesis
        using bs by (intro exI [of _ bs]) (simp add: bars_fit_def bar_reqs_def)
    next
      case nz: False
      let ?t = "pci_addr_to_type val"
      let ?bar = "\<lparr>bar_addr = val, bar_size = sz, is64 = bar_is64 val\<rparr>"
      let ?j = "if bar_is64 val then j + 2 else j + 1"
      obtain s2 where s2: "pci_bios_bus_reserve b ?t sz s1 = Some s2"
        using 1(3) False nz g by (auto simp: check_bars.simps [of b i j] split: option.splits)
      have b1: "b < length (busses s1)" using 1(5) by (simp add: f)
      have r: "reserved u (ks u) (region b u s1)" for u using 1(8) by (simp add: r1)
      note m = bus_reserve_ok [OF s2 b1 r]
      let ?s3 = "set_bar i j ?bar s2"
      have rec: "check_bars b i ?j ?s3 = Some st'"
        using 1(3) False nz g s2 by (simp add: check_bars.simps [of b i j] Let_def)
      have d3: "PCIDevices ?s3 = (PCIDevices st)[i := ?d\<lparr>bars := (bars ?d)[j := ?bar]\<rparr>]"
        using 1(4) by (simp add: set_bar_def Let_def m f)
      have j: "j < PCI_NUM_REGIONS" using False by simp
      let ?ks = "\<lambda>u. ks u @ (if u = ?t then [req_index sz ?t] else [])"
      have "\<exists>bs. PCIDevices st' = (PCIDevices ?s3)[i := (PCIDevices ?s3 ! i)\<lparr>bars := bs\<rparr>] \<and> length bs = PCI_NUM_REGIONS \<and>
        (\<forall>k<?j. k < PCI_NUM_REGIONS \<longrightarrow> bs ! k = bars (PCIDevices ?s3 ! i) ! k) \<and> bars_fit ?j bs \<and>
        (\<forall>t. reserved t (?ks t @ bar_reqs t ?j bs) (region b t st') \<and>
           rg_size (region b t st') = rg_size (region b t ?s3) \<and> rg_base (region b t st') = rg_base (region b t ?s3)) \<and>
        (\<forall>x. x \<noteq> b \<longrightarrow> busses st' ! x = busses ?s3 ! x) \<and>
        busses_count st' = busses_count ?s3 \<and> length (busses st') = length (busses ?s3)"
      proof (rule 1(2) [OF False g [symmetric] refl nz s2 refl rec])
        show "i < length (PCIDevices ?s3)" using 1(4) by (simp add: d3)
        show "b < length (busses ?s3)" using 1(5) by (simp add: m f)
        show "length (bars (PCIDevices ?s3 ! i)) = PCI_NUM_REGIONS" using 1(4,6) by (simp add: d3)
        show "bar_addr (bars (PCIDevices ?s3 ! i) ! k) = 0" if "?j \<le> k" "k < PCI_NUM_REGIONS" for k
          using that 1(4) 1(7) [of k] by (simp add: d3 split: if_splits)
        show "reserved t (?ks t) (region b t ?s3)" for t using m(2) by simp
      qed
      then obtain bs where bs: "PCIDevices st' = (PCIDevices ?s3)[i := (PCIDevices ?s3 ! i)\<lparr>bars := bs\<rparr>]"
        "length bs = PCI_NUM_REGIONS" "\<forall>k<?j. k < PCI_NUM_REGIONS \<longrightarrow> bs ! k = bars (PCIDevices ?s3 ! i) ! k" "bars_fit ?j bs"
        "\<And>t. reserved t (?ks t @ bar_reqs t ?j bs) (region b t st')"
        "\<And>t. rg_size (region b t st') = rg_size (region b t st) \<and> rg_base (region b t st') = rg_base (region b t st)"
        "\<And>x. x \<noteq> b \<Longrightarrow> busses st' ! x = busses st ! x"
        "busses_count st' = busses_count st" "length (busses st') = length (busses st)"
        using m(3,4,5,7,8) by (auto simp: f r1)
      have bj: "bs ! j = ?bar" using bs(3) j 1(4,6) by (simp add: d3)
      then have walk: "bar_walk j bs = (j, ?bar) # bar_walk ?j bs"
        using False nz by (simp add: bar_walk.simps [of j])
      have "bars_fit j bs" using bs(4) m(1) by (simp add: bars_fit_def walk)
      moreover have "?ks t @ bar_reqs t ?j bs = ks t @ bar_reqs t j bs" for t
        by (simp add: bar_reqs_def walk)
      moreover have "PCIDevices st' = (PCIDevices st)[i := ?d\<lparr>bars := bs\<rparr>]"
        using bs(1) 1(4) by (simp add: d3)
      moreover have "\<forall>k<j. k < PCI_NUM_REGIONS \<longrightarrow> bs ! k = bars ?d ! k"
        using bs(3) 1(4) by (auto simp: d3)
      ultimately show ?thesis
        using bs by (intro exI [of _ bs]) (simp split: if_splits)
    qed
  qed
qed

section \<open>Trees of buses\<close>

text \<open>
  The topology as the code sees it: for every device its bus and, for a bridge to an existing bus, the
  bus behind it. The buses are a tree with increasing numbers: the bus behind a bridge has a higher
  number than the bus of the bridge, and no two bridges lead to the same bus.
\<close>

type_synonym topology = "(nat \<times> nat option) list"

definition tree :: "topology \<Rightarrow> nat \<Rightarrow> bool" where
  "tree N n \<longleftrightarrow> (\<forall>b s. (b, Some s) \<in> set N \<longrightarrow> b < s \<and> s < n) \<and>
     (\<forall>k l s. k < length N \<longrightarrow> l < length N \<longrightarrow> snd (N ! k) = Some s \<longrightarrow> snd (N ! l) = Some s \<longrightarrow> k = l)"

definition edge :: "topology \<Rightarrow> nat \<Rightarrow> nat \<Rightarrow> bool" where
  "edge N b s \<longleftrightarrow> (b, Some s) \<in> set N"

abbreviation reach :: "topology \<Rightarrow> nat \<Rightarrow> nat \<Rightarrow> bool" where
  "reach N \<equiv> (edge N)\<^sup>*\<^sup>*"

text \<open>The buses behind the bridges of bus \<open>b\<close> from index \<open>i\<close> on.\<close>

definition sub :: "topology \<Rightarrow> nat \<Rightarrow> nat \<Rightarrow> nat set" where
  "sub N b i = {x. \<exists>k s. i \<le> k \<and> k < length N \<and> N ! k = (b, Some s) \<and> reach N s x}"

lemma edge_nth: "k < length N \<Longrightarrow> N ! k = (b, Some s) \<Longrightarrow> edge N b s"
  unfolding edge_def by (metis nth_mem)

lemma edge_less: "tree N n \<Longrightarrow> edge N b s \<Longrightarrow> b < s \<and> s < n"
  by (simp add: tree_def edge_def)

lemma reach_le: "reach N a x \<Longrightarrow> tree N n \<Longrightarrow> a \<le> x"
  by (induction rule: rtranclp_induct) (auto dest: edge_less)

lemma reach_less: "reach N a x \<Longrightarrow> tree N n \<Longrightarrow> a < n \<Longrightarrow> x < n"
  by (induction rule: rtranclp_induct) (auto dest: edge_less)

lemma edge_unique:
  assumes "tree N n" "edge N p x" "edge N q x"
  shows "p = q"
  using assms unfolding tree_def edge_def by (metis fst_conv in_set_conv_nth snd_conv)

lemma reach_linear:
  assumes "tree N n" "reach N a x" "reach N b x"
  shows "reach N a b \<or> reach N b a"
  using assms(2,3)
proof (induction rule: rtranclp_induct)
  case (step y z)
  show ?case
  proof (cases "b = z")
    case True
    then show ?thesis using step(1,2) by (metis rtranclp.rtrancl_into_rtrancl)
  next
    case False
    then obtain p where p: "reach N b p" "edge N p z" using step(4) by (metis rtranclp.cases)
    then show ?thesis using step edge_unique [OF assms(1)] by metis
  qed
qed simp

lemma reach_child:
  assumes "tree N n" "edge N b s" "edge N b s'" "reach N s s'"
  shows "s = s'"
proof (rule ccontr)
  assume "s \<noteq> s'"
  then obtain p where p: "reach N s p" "edge N p s'" using assms(4) by (metis rtranclp.cases)
  then have "p = b" using edge_unique [OF assms(1)] assms(3) by metis
  then have "s \<le> b" using reach_le [OF p(1) assms(1)] by simp
  then show False using edge_less [OF assms(1,2)] by simp
qed

lemma sub_member: "x \<in> sub N b i \<longleftrightarrow> (\<exists>k s. i \<le> k \<and> k < length N \<and> N ! k = (b, Some s) \<and> reach N s x)"
  by (simp add: sub_def)

lemma sub_end: "length N \<le> i \<Longrightarrow> sub N b i = {}"
  by (auto simp: sub_def)

lemma sub_mono: "x \<in> sub N b (Suc i) \<Longrightarrow> x \<in> sub N b i"
  unfolding sub_member using Suc_leD by blast

lemma sub_child:
  assumes "i < length N" "N ! i = (b, Some s)"
  shows "x \<in> sub N b i \<longleftrightarrow> reach N s x \<or> x \<in> sub N b (Suc i)"
proof
  assume "x \<in> sub N b i"
  then obtain k s' where k: "i \<le> k" "k < length N" "N ! k = (b, Some s')" "reach N s' x"
    by (auto simp: sub_member)
  show "reach N s x \<or> x \<in> sub N b (Suc i)"
  proof (cases "k = i")
    case True
    then show ?thesis using k assms by simp
  next
    case False
    then have "Suc i \<le> k" using k(1) by simp
    then show ?thesis using k unfolding sub_member by blast
  qed
next
  assume "reach N s x \<or> x \<in> sub N b (Suc i)"
  then show "x \<in> sub N b i"
  proof
    assume "reach N s x"
    then show "x \<in> sub N b i" using assms unfolding sub_member by (intro exI [of _ i] exI [of _ s]) simp
  qed (rule sub_mono)
qed

lemma sub_skip:
  assumes "i < length N" "\<And>s. N ! i \<noteq> (b, Some s)"
  shows "x \<in> sub N b i \<longleftrightarrow> x \<in> sub N b (Suc i)"
proof
  assume "x \<in> sub N b i"
  then obtain k s' where k: "i \<le> k" "k < length N" "N ! k = (b, Some s')" "reach N s' x"
    by (auto simp: sub_member)
  then have "Suc i \<le> k" using assms(2) by (metis Suc_leI le_neq_implies_less)
  then show "x \<in> sub N b (Suc i)" using k unfolding sub_member by blast
qed (rule sub_mono)

lemma sub_out:
  assumes "tree N n" "i < length N" "N ! i = (b, Some s)" "reach N s x"
  shows "x \<noteq> b" "x \<notin> sub N b (Suc i)"
proof -
  have e: "edge N b s" by (rule edge_nth [OF assms(2,3)])
  have "b < s" "s \<le> x" using edge_less [OF assms(1) e] reach_le [OF assms(4,1)] by simp_all
  then show "x \<noteq> b" by simp
  show "x \<notin> sub N b (Suc i)"
  proof
    assume "x \<in> sub N b (Suc i)"
    then obtain k s' where k: "Suc i \<le> k" "k < length N" "N ! k = (b, Some s')" "reach N s' x"
      by (auto simp: sub_def)
    have "reach N s s' \<or> reach N s' s" by (rule reach_linear [OF assms(1,4) k(4)])
    then have "s = s'" using reach_child [OF assms(1)] e edge_nth [OF k(2,3)] by metis
    then have "i = k" using assms(1-3) k(2,3) unfolding tree_def by (metis snd_conv)
    then show False using k(1) by simp
  qed
qed

lemma sub_above: "tree N n \<Longrightarrow> x \<in> sub N b i \<Longrightarrow> b < x \<and> x < n"
  unfolding sub_def using edge_nth edge_less reach_le reach_less
  by (smt (verit, best) le_less_trans mem_Collect_eq not_le)

lemma reach_sub: "reach N s x \<longleftrightarrow> x = s \<or> x \<in> sub N s 0"
proof
  assume "reach N s x"
  then show "x = s \<or> x \<in> sub N s 0"
  proof (cases rule: converse_rtranclpE)
    case (step y)
    then obtain k where "k < length N" "N ! k = (s, Some y)" unfolding edge_def by (metis in_set_conv_nth)
    then show ?thesis using step(2) unfolding sub_def by auto
  qed simp
next
  assume "x = s \<or> x \<in> sub N s 0"
  then show "reach N s x"
    unfolding sub_member by (metis edge_nth converse_rtranclp_into_rtranclp rtranclp.rtrancl_refl)
qed

section \<open>Pass 1 of a tree of buses\<close>

definition topo :: "pci_state \<Rightarrow> topology" where
  "topo st = map (\<lambda>d. (unat (pci_bdf_to_bus (bdf d)),
     if pclass d = PCI_CLASS_BRIDGE_PCI \<and> uint (secondary_bus d) < busses_count st
     then Some (unat (secondary_bus d)) else None)) (PCIDevices st)"

text \<open>What the passes do not change of the devices.\<close>

definition skel :: "pci_state \<Rightarrow> pci_device list" where
  "skel st = map (\<lambda>d. d\<lparr>bars := []\<rparr>) (PCIDevices st)"

text \<open>The requests of device \<open>k\<close>, and those of the devices of bus \<open>b\<close> from index \<open>i\<close>, of one type.\<close>

definition dev_reqs :: "pci_region_type \<Rightarrow> pci_state \<Rightarrow> nat \<Rightarrow> nat list" where
  "dev_reqs t st k = (let d = PCIDevices st ! k in
     if pclass d = PCI_CLASS_BRIDGE_PCI then
       (case snd (topo st ! k) of None \<Rightarrow> [] | Some s \<Rightarrow> [req_index (rg_size (region s t st)) t])
     else bar_reqs t 0 (bars d))"

definition bus_reqs :: "pci_region_type \<Rightarrow> pci_state \<Rightarrow> nat \<Rightarrow> nat \<Rightarrow> nat list" where
  "bus_reqs t st b i =
     concat (map (\<lambda>k. if fst (topo st ! k) = b then dev_reqs t st k else []) [i..<length (PCIDevices st)])"

text \<open>The window of bus \<open>s\<close> has a size that is a power of 2 and covers the requests made of it.\<close>

definition window_ok :: "pci_region_type \<Rightarrow> nat \<Rightarrow> pci_state \<Rightarrow> bool" where
  "window_ok t s st \<longleftrightarrow> fits (rg_size (region s t st)) t \<and> (\<exists>j. unat (rg_size (region s t st)) = 2 ^ j) \<and>
     unat (rg_sum (region s t st)) \<le> unat (rg_size (region s t st))"

definition dev_ok :: "pci_state \<Rightarrow> nat \<Rightarrow> bool" where
  "dev_ok st k \<longleftrightarrow> (let d = PCIDevices st ! k in
     if pclass d = PCI_CLASS_BRIDGE_PCI then
       (case snd (topo st ! k) of None \<Rightarrow> True | Some s \<Rightarrow> \<forall>t. window_ok t s st)
     else bars_fit 0 (bars d))"

definition settled :: "pci_state \<Rightarrow> nat \<Rightarrow> bool" where
  "settled st x \<longleftrightarrow> (\<forall>t. reserved t (bus_reqs t st x 0) (region x t st)) \<and>
     (\<forall>k < length (PCIDevices st). fst (topo st ! k) = x \<longrightarrow> dev_ok st k)"

lemma topo_length [simp]: "length (topo st) = length (PCIDevices st)"
  by (simp add: topo_def)

lemma skel_fields:
  assumes "skel st' = skel st"
  shows "length (PCIDevices st') = length (PCIDevices st)"
    "k < length (PCIDevices st) \<Longrightarrow> bdf (PCIDevices st' ! k) = bdf (PCIDevices st ! k) \<and>
       pclass (PCIDevices st' ! k) = pclass (PCIDevices st ! k) \<and>
       secondary_bus (PCIDevices st' ! k) = secondary_bus (PCIDevices st ! k)"
proof -
  show l: "length (PCIDevices st') = length (PCIDevices st)"
    using assms unfolding skel_def by (metis length_map)
  assume k: "k < length (PCIDevices st)"
  have "(PCIDevices st' ! k)\<lparr>bars := []\<rparr> = (PCIDevices st ! k)\<lparr>bars := []\<rparr>"
    using assms k l unfolding skel_def by (metis nth_map)
  then show "bdf (PCIDevices st' ! k) = bdf (PCIDevices st ! k) \<and>
       pclass (PCIDevices st' ! k) = pclass (PCIDevices st ! k) \<and>
       secondary_bus (PCIDevices st' ! k) = secondary_bus (PCIDevices st ! k)"
    by (metis pci_device.select_convs(1,6,10) pci_device.surjective pci_device.update_convs(11))
qed

lemma topo_skel:
  assumes "skel st' = skel st" "busses_count st' = busses_count st"
  shows "topo st' = topo st"
  using skel_fields [OF assms(1)] assms(2) by (intro nth_equalityI) (simp_all add: topo_def)

text \<open>Statistics that agree.\<close>

definition same_stats :: "pci_region \<Rightarrow> pci_region \<Rightarrow> bool" where
  "same_stats rg rg' \<longleftrightarrow> rg_count rg' = rg_count rg \<and> rg_sum rg' = rg_sum rg \<and> rg_max rg' = rg_max rg \<and>
     length (rg_bases rg') = length (rg_bases rg)"

lemma reserved_same: "same_stats rg rg' \<Longrightarrow> reserved t ks rg \<Longrightarrow> reserved t ks rg'"
  by (simp add: same_stats_def reserved_def)

lemma bus_reqs_cong:
  assumes "skel st' = skel st" "busses_count st' = busses_count st"
    and "\<And>k. i \<le> k \<Longrightarrow> k < length (PCIDevices st) \<Longrightarrow> fst (topo st ! k) = x \<Longrightarrow> PCIDevices st' ! k = PCIDevices st ! k"
    and "\<And>k s t. i \<le> k \<Longrightarrow> k < length (PCIDevices st) \<Longrightarrow> topo st ! k = (x, Some s) \<Longrightarrow>
      rg_size (region s t st') = rg_size (region s t st)"
  shows "bus_reqs t st' x i = bus_reqs t st x i"
proof -
  have tp: "topo st' = topo st" by (rule topo_skel [OF assms(1,2)])
  have "dev_reqs t st' k = dev_reqs t st k" if "i \<le> k" "k < length (PCIDevices st)" "fst (topo st ! k) = x" for k
    using assms(3) [OF that] assms(4) [OF that(1,2)] that(3)
    by (auto simp: dev_reqs_def Let_def tp prod_eq_iff split: option.split)
  then show ?thesis
    unfolding bus_reqs_def tp skel_fields(1) [OF assms(1)] by (intro arg_cong [where f = concat] map_cong) auto
qed

lemma settled_cong:
  assumes "settled st x" "skel st' = skel st" "busses_count st' = busses_count st"
    and "\<And>k. k < length (PCIDevices st) \<Longrightarrow> fst (topo st ! k) = x \<Longrightarrow> PCIDevices st' ! k = PCIDevices st ! k"
    and "\<And>t. same_stats (region x t st) (region x t st')"
    and "\<And>s t. edge (topo st) x s \<Longrightarrow> rg_size (region s t st') = rg_size (region s t st) \<and>
      rg_sum (region s t st') = rg_sum (region s t st)"
  shows "settled st' x"
proof -
  have tp: "topo st' = topo st" by (rule topo_skel [OF assms(2,3)])
  note len = skel_fields(1) [OF assms(2)]
  have child: "rg_size (region s t st') = rg_size (region s t st)" "rg_sum (region s t st') = rg_sum (region s t st)"
    if "k < length (PCIDevices st)" "topo st ! k = (x, Some s)" for k s t
    using assms(6) [of s t] edge_nth [of k "topo st" x s] that by simp_all
  have reqs: "bus_reqs t st' x 0 = bus_reqs t st x 0" for t
    by (rule bus_reqs_cong [OF assms(2,3)]) (simp_all add: assms(4) child)
  have "dev_ok st' k" if "k < length (PCIDevices st)" "fst (topo st ! k) = x" for k
    using assms(1) assms(4) [OF that] child [of k] that
    by (auto simp: settled_def dev_ok_def window_ok_def Let_def tp prod_eq_iff split: option.splits)
  then show ?thesis
    using assms(1) reserved_same [OF assms(5)] by (simp add: settled_def tp len reqs)
qed

text \<open>The windows of bus \<open>s\<close> requested from bus \<open>b\<close>.\<close>

lemma bridge_reserve_ok:
  assumes "bridge_reserve b s t st = Some st'" "b \<noteq> s" "b < length (busses st)" "s < length (busses st)"
    "\<And>u. reserved u (ks u) (region b u st)"
  shows "window_ok t s st'"
    "\<And>u. reserved u (ks u @ (if u = t then [req_index (rg_size (region s t st')) t] else [])) (region b u st')"
    "\<And>u. rg_size (region b u st') = rg_size (region b u st)" "\<And>u. rg_base (region b u st') = rg_base (region b u st)"
    "\<And>u. same_stats (region s u st) (region s u st')" "\<And>u. u \<noteq> t \<Longrightarrow> region s u st' = region s u st"
    "\<And>x. x \<noteq> b \<Longrightarrow> x \<noteq> s \<Longrightarrow> busses st' ! x = busses st ! x" "PCIDevices st' = PCIDevices st"
    "busses_count st' = busses_count st" "length (busses st') = length (busses st)"
proof -
  let ?sz = "if rg_sum (region s t st) < bridge_limit t then bridge_limit t else rg_sum (region s t st)"
  obtain sz where sz: "pci_size_roundup ?sz = Some sz"
      "pci_bios_bus_reserve b t sz (upd_region s t (\<lambda>rg. rg\<lparr>rg_size := sz\<rparr>) st) = Some st'"
    using assms(1) by (auto simp: bridge_reserve_def Let_def split: option.splits)
  let ?s1 = "upd_region s t (\<lambda>rg. rg\<lparr>rg_size := sz\<rparr>) st"
  have r1: "region x u ?s1 = (if x = s \<and> u = t then (region s t st)\<lparr>rg_size := sz\<rparr> else region x u st)" for x u
    by (rule region_upd [OF assms(4)])
  have b1: "b < length (busses ?s1)" using assms(3) by simp
  have k1: "reserved u (ks u) (region b u ?s1)" for u using assms(2,5) by (simp add: r1)
  note m = bus_reserve_ok [OF sz(2) b1 k1]
  have rs: "region s u st' = region s u ?s1" for u using m(5) [of s] assms(2) by (simp add: region_def)
  have size: "rg_size (region s t st') = sz" by (simp add: rs r1)
  have lim: "bridge_limit t \<noteq> 0" by (simp add: bridge_limit_def PCI_BRIDGE_IO_MIN_def PCI_BRIDGE_MEM_MIN_def)
  have "?sz \<noteq> 0" using lim by (auto simp: word_gt_0)
  then obtain j where j: "unat sz = 2 ^ j" "unat ?sz \<le> unat sz" using roundup_spec [OF sz(1)] by blast
  have "unat (rg_sum (region s t st)) \<le> unat ?sz"
    by (simp add: word_less_nat_alt)
  then show "window_ok t s st'"
    using m(1) j size by (auto simp: window_ok_def rs r1)
  show "reserved u (ks u @ (if u = t then [req_index (rg_size (region s t st')) t] else [])) (region b u st')" for u
    using m(2) [of u] by (simp only: size)
  show "rg_size (region b u st') = rg_size (region b u st)" "rg_base (region b u st') = rg_base (region b u st)" for u
    using m(3,4) assms(2) by (simp_all add: r1)
  show "same_stats (region s u st) (region s u st')" "u \<noteq> t \<Longrightarrow> region s u st' = region s u st" for u
    by (simp_all add: same_stats_def rs r1)
  show "busses st' ! x = busses st ! x" if "x \<noteq> b" "x \<noteq> s" for x
    using m(5) [OF that(1)] upd_region_other [OF that(2)] by simp
  show "PCIDevices st' = PCIDevices st" "busses_count st' = busses_count st" "length (busses st') = length (busses st)"
    using m(6-8) by simp_all
qed

lemma same_stats_trans: "same_stats a b \<Longrightarrow> same_stats b c \<Longrightarrow> same_stats a c"
  by (simp add: same_stats_def)

lemma bridge_reserve_all_ok:
  assumes "bridge_reserve_all b s st = Some st'" "b \<noteq> s" "b < length (busses st)" "s < length (busses st)"
    "\<And>u. reserved u (ks u) (region b u st)"
  shows "\<And>u. window_ok u s st'"
    "\<And>u. reserved u (ks u @ [req_index (rg_size (region s u st')) u]) (region b u st')"
    "\<And>u. rg_size (region b u st') = rg_size (region b u st) \<and> rg_base (region b u st') = rg_base (region b u st)"
    "\<And>u. same_stats (region s u st) (region s u st')"
    "\<And>x. x \<noteq> b \<Longrightarrow> x \<noteq> s \<Longrightarrow> busses st' ! x = busses st ! x"
    "PCIDevices st' = PCIDevices st" "busses_count st' = busses_count st" "length (busses st') = length (busses st)"
proof -
  let ?IO = PCI_REGION_TYPE_IO and ?MEM = PCI_REGION_TYPE_MEM and ?PRE = PCI_REGION_TYPE_PREFMEM
  obtain s1 s2 where s12: "bridge_reserve b s ?IO st = Some s1" "bridge_reserve b s ?MEM s1 = Some s2"
      "bridge_reserve b s ?PRE s2 = Some st'"
    using assms(1) by (auto simp: bridge_reserve_all_def split: option.splits)
  note m1 = bridge_reserve_ok [OF s12(1) assms(2-5)]
  have l1: "b < length (busses s1)" "s < length (busses s1)" using assms(3,4) m1(10) by simp_all
  note m2 = bridge_reserve_ok [OF s12(2) assms(2) l1 m1(2)]
  have l2: "b < length (busses s2)" "s < length (busses s2)" using l1 m2(10) by simp_all
  note m3 = bridge_reserve_ok [OF s12(3) assms(2) l2 m2(2)]
  have io: "region s ?IO st' = region s ?IO s1" using m2(6) [of ?IO] m3(6) [of ?IO] by simp
  have me: "region s ?MEM st' = region s ?MEM s2" using m3(6) [of ?MEM] by simp
  show "window_ok u s st'" for u
    using m1(1) m2(1) m3(1) by (cases u) (simp_all add: window_ok_def io me)
  show "reserved u (ks u @ [req_index (rg_size (region s u st')) u]) (region b u st')" for u
    using m3(2) [of u] by (cases u) (simp_all add: io me)
  show "rg_size (region b u st') = rg_size (region b u st) \<and> rg_base (region b u st') = rg_base (region b u st)" for u
    using m1(3,4) m2(3,4) m3(3,4) by simp
  show "same_stats (region s u st) (region s u st')" for u
    using same_stats_trans [OF same_stats_trans [OF m1(5) m2(5)] m3(5)] .
  show "busses st' ! x = busses st ! x" if "x \<noteq> b" "x \<noteq> s" for x
    using m1(7) [OF that] m2(7) [OF that] m3(7) [OF that] by simp
  show "PCIDevices st' = PCIDevices st" "busses_count st' = busses_count st" "length (busses st') = length (busses st)"
    using m1(8-10) m2(8-10) m3(8-10) by simp_all
qed

text \<open>The outcome of pass 1 for the devices of bus \<open>b\<close> from index \<open>i\<close> and all buses behind them.\<close>

definition checked :: "nat \<Rightarrow> nat \<Rightarrow> (pci_region_type \<Rightarrow> nat list) \<Rightarrow> pci_state \<Rightarrow> pci_state \<Rightarrow> bool" where
  "checked b i ks st st' \<longleftrightarrow>
     skel st' = skel st \<and> busses_count st' = busses_count st \<and> length (busses st') = length (busses st) \<and>
     (\<forall>x. x \<noteq> b \<longrightarrow> x \<notin> sub (topo st) b i \<longrightarrow> busses st' ! x = busses st ! x) \<and>
     (\<forall>k < length (PCIDevices st). \<not> (i \<le> k \<and> fst (topo st ! k) = b) \<longrightarrow> fst (topo st ! k) \<notin> sub (topo st) b i \<longrightarrow>
        PCIDevices st' ! k = PCIDevices st ! k) \<and>
     (\<forall>t. reserved t (ks t @ bus_reqs t st' b i) (region b t st') \<and>
        rg_size (region b t st') = rg_size (region b t st) \<and> rg_base (region b t st') = rg_base (region b t st)) \<and>
     (\<forall>x\<in>sub (topo st) b i. settled st' x) \<and>
     (\<forall>k < length (PCIDevices st). i \<le> k \<longrightarrow> fst (topo st ! k) = b \<longrightarrow> dev_ok st' k)"

text \<open>Before it: no register and no region used.\<close>

definition fresh :: "nat \<Rightarrow> nat \<Rightarrow> pci_state \<Rightarrow> bool" where
  "fresh b i st \<longleftrightarrow>
     (\<forall>k < length (PCIDevices st). (i \<le> k \<and> fst (topo st ! k) = b \<or> fst (topo st ! k) \<in> sub (topo st) b i) \<longrightarrow>
        bars (PCIDevices st ! k) = no_bars) \<and>
     (\<forall>x\<in>sub (topo st) b i. \<forall>t. region x t st = no_region)"

lemma bus_reqs_step:
  assumes "i < length (PCIDevices st)"
  shows "bus_reqs t st b i = (if fst (topo st ! i) = b then dev_reqs t st i else []) @ bus_reqs t st b (Suc i)"
  using assms by (simp add: bus_reqs_def upt_conv_Cons)

lemma on_bus_topo: "k < length (PCIDevices st) \<Longrightarrow> on_bus (PCIDevices st ! k) b \<longleftrightarrow> fst (topo st ! k) = b"
  by (simp add: on_bus_def topo_def)

lemma dev_ok_cong:
  assumes "skel st' = skel st" "busses_count st' = busses_count st" "k < length (PCIDevices st)"
    "PCIDevices st' ! k = PCIDevices st ! k" "\<And>s t. snd (topo st ! k) = Some s \<Longrightarrow> region s t st' = region s t st"
  shows "dev_ok st' k \<longleftrightarrow> dev_ok st k"
  using assms(4,5) by (auto simp: dev_ok_def window_ok_def Let_def topo_skel [OF assms(1,2)] split: option.splits)

text \<open>A device that makes no request.\<close>

lemma checked_skip:
  assumes "checked b (Suc i) ks st st'" "i < length (PCIDevices st)" "\<And>s. topo st ! i \<noteq> (b, Some s)"
    "fst (topo st ! i) = b \<Longrightarrow> pclass (PCIDevices st ! i) = PCI_CLASS_BRIDGE_PCI"
  shows "checked b i ks st st'"
proof -
  have c: "skel st' = skel st" "busses_count st' = busses_count st" using assms(1) by (simp_all add: checked_def)
  have tp: "topo st' = topo st" by (rule topo_skel [OF c])
  have l: "i < length (topo st)" using assms(2) by simp
  have sub: "sub (topo st) b i = sub (topo st) b (Suc i)" by (rule set_eqI, rule sub_skip [OF l assms(3)])
  have none: "snd (topo st ! i) = None" if "fst (topo st ! i) = b"
    using assms(3) that by (cases "snd (topo st ! i)") (auto simp: prod_eq_iff)
  have "bus_reqs t st' b i = bus_reqs t st' b (Suc i)" for t
    using bus_reqs_step [of i st' t b] assms(2,4) none skel_fields [OF c(1)]
    by (auto simp: dev_reqs_def Let_def tp)
  moreover have "dev_ok st' i" if "fst (topo st ! i) = b"
    using none [OF that] assms(2,4) that skel_fields(2) [OF c(1) assms(2)] by (simp add: dev_ok_def Let_def tp)
  ultimately show ?thesis
    unfolding checked_def sub
  proof (intro conjI allI impI ballI)
    fix k assume k: "k < length (PCIDevices st)"
    show "PCIDevices st' ! k = PCIDevices st ! k"
      if "\<not> (i \<le> k \<and> fst (topo st ! k) = b)" "fst (topo st ! k) \<notin> sub (topo st) b (Suc i)"
      using assms(1) k that by (auto simp: checked_def)
    show "dev_ok st' k" if "\<And>t. bus_reqs t st' b i = bus_reqs t st' b (Suc i)" "fst (topo st ! i) = b \<Longrightarrow> dev_ok st' i"
      "i \<le> k" "fst (topo st ! k) = b"
      using assms(1) k that by (cases "k = i") (simp_all add: checked_def)
  qed (use assms(1) in \<open>simp_all add: checked_def\<close>)
qed

text \<open>A device that is not a bridge.\<close>

lemma checked_bars:
  assumes "checked b (Suc i) ks' st1 st'" "i < length (PCIDevices st)" "topo st ! i = (b, None)"
    "pclass (PCIDevices st ! i) \<noteq> PCI_CLASS_BRIDGE_PCI" "tree (topo st) n"
    and st1: "PCIDevices st1 = (PCIDevices st)[i := (PCIDevices st ! i)\<lparr>bars := bs\<rparr>]" "bars_fit 0 bs"
    "busses_count st1 = busses_count st" "length (busses st1) = length (busses st)"
    "\<And>x. x \<noteq> b \<Longrightarrow> busses st1 ! x = busses st ! x" "\<And>t. ks' t = ks t @ bar_reqs t 0 bs"
    "\<And>t. rg_size (region b t st1) = rg_size (region b t st) \<and> rg_base (region b t st1) = rg_base (region b t st)"
  shows "checked b i ks st st'"
proof -
  have c: "skel st' = skel st1" "busses_count st' = busses_count st1" using assms(1) by (simp_all add: checked_def)
  have sk1: "skel st1 = skel st"
    using assms(2) by (simp add: skel_def st1 map_update list_update_same_conv)
  have tp1: "topo st1 = topo st" by (rule topo_skel [OF sk1 st1(3)])
  have tp: "topo st' = topo st" using topo_skel [OF c] tp1 by simp
  have l: "i < length (topo st)" using assms(2) by simp
  have sub: "sub (topo st) b i = sub (topo st) b (Suc i)"
    by (rule set_eqI, rule sub_skip [OF l]) (simp add: assms(3))
  have nb: "b \<notin> sub (topo st) b (Suc i)" using sub_above [OF assms(5)] by blast
  have other: "PCIDevices st1 ! k = PCIDevices st ! k" if "fst (topo st ! k) \<noteq> b \<or> \<not> i \<le> k" for k
    using that assms(3) by (cases "k = i") (auto simp: st1)
  have di: "PCIDevices st' ! i = (PCIDevices st ! i)\<lparr>bars := bs\<rparr>"
    using assms(1,2,3) nb by (simp add: checked_def tp1 st1)
  have "bus_reqs t st' b i = bar_reqs t 0 bs @ bus_reqs t st' b (Suc i)" for t
    using bus_reqs_step [of i st' t b] assms(2,3,4) skel_fields(1) [OF c(1)]
    by (simp add: dev_reqs_def Let_def tp di st1)
  moreover have "dev_ok st' i" using assms(4) st1(2) by (simp add: dev_ok_def Let_def di)
  ultimately show ?thesis
    unfolding checked_def sub
  proof (intro conjI allI impI ballI)
    fix k assume k: "k < length (PCIDevices st)"
    then have k1: "k < length (PCIDevices st1)" by (simp add: st1(1))
    show "PCIDevices st' ! k = PCIDevices st ! k"
      if "\<not> (i \<le> k \<and> fst (topo st ! k) = b)" "fst (topo st ! k) \<notin> sub (topo st) b (Suc i)"
    proof -
      have "PCIDevices st' ! k = PCIDevices st1 ! k"
        using assms(1) k1 that by (auto simp: checked_def tp1)
      then show ?thesis using other [of k] that(1) by auto
    qed
    show "dev_ok st' k" if "dev_ok st' i" "i \<le> k" "fst (topo st ! k) = b"
      using assms(1) k1 that by (cases "k = i") (simp_all add: checked_def tp1)
  qed (use assms(1) st1(3-7) sk1 in \<open>simp_all add: checked_def tp1\<close>)
qed

lemma topo_bridge:
  assumes "k < length (PCIDevices st)" "topo st ! k = (b, Some s)"
  shows "pclass (PCIDevices st ! k) = PCI_CLASS_BRIDGE_PCI" "uint (secondary_bus (PCIDevices st ! k)) < busses_count st"
    "unat (secondary_bus (PCIDevices st ! k)) = s"
  using assms by (simp_all add: topo_def split: if_splits)

text \<open>A bridge with bus \<open>s\<close> behind it.\<close>

lemma checked_bridge:
  assumes "checked s 0 (\<lambda>_. []) st s1" "bridge_reserve_all b s s1 = Some s2" "checked b (Suc i) ks' s2 st'"
    "i < length (PCIDevices st)" "topo st ! i = (b, Some s)" "tree (topo st) n" "n = length (busses st)" "b < n"
    "\<And>t. reserved t (ks t) (region b t st)" "\<And>t. ks' t = ks t @ [req_index (rg_size (region s t s2)) t]"
  shows "checked b i ks st st'"
proof -
  let ?T = "topo st"
  have l: "i < length ?T" using assms(4) by simp
  have e: "edge ?T b s" by (rule edge_nth [OF l assms(5)])
  have bs: "b < s" "s < n" using edge_less [OF assms(6) e] by simp_all
  have c1: "skel s1 = skel st" "busses_count s1 = busses_count st" "length (busses s1) = n"
    using assms(1,7) by (simp_all add: checked_def)
  have T1: "topo s1 = ?T" by (rule topo_skel [OF c1(1,2)])
  have nb0: "b \<notin> sub ?T s 0" using sub_above [OF assms(6)] bs(1) by force
  have bus1: "busses s1 ! x = busses st ! x" if "x \<noteq> s" "x \<notin> sub ?T s 0" for x
    using assms(1) that by (simp add: checked_def)
  have rb1: "region b t s1 = region b t st" for t using bus1 [of b] bs(1) nb0 by (simp add: region_def)
  have l1: "b < length (busses s1)" "s < length (busses s1)" "b \<noteq> s" using assms(8) bs c1(3) by simp_all
  have r1: "reserved u (ks u) (region b u s1)" for u by (simp add: rb1 assms(9))
  note m = bridge_reserve_all_ok [OF assms(2) l1(3,1,2) r1]
  have c2: "skel s2 = skel st" "busses_count s2 = busses_count st" using m(6,7) c1 by (simp_all add: skel_def)
  have T2: "topo s2 = ?T" by (rule topo_skel [OF c2])
  have c3: "skel st' = skel st" "busses_count st' = busses_count st" "length (busses st') = length (busses st)"
    using assms(3) c2 c1(3) assms(7) m(8) by (simp_all add: checked_def)
  have T3: "topo st' = ?T" by (rule topo_skel [OF c3(1,2)])
  note len = skel_fields(1) [OF c1(1)] skel_fields(1) [OF c2(1)] skel_fields(1) [OF c3(1)]
  have sub: "x \<in> sub ?T b i \<longleftrightarrow> reach ?T s x \<or> x \<in> sub ?T b (Suc i)" for x by (rule sub_child [OF l assms(5)])
  note out = sub_out [OF assms(6) l assms(5)]
  have reach: "reach ?T s x \<longleftrightarrow> x = s \<or> x \<in> sub ?T s 0" for x by (rule reach_sub)
  have bus3: "busses st' ! x = busses s2 ! x" if "x \<noteq> b" "x \<notin> sub ?T b (Suc i)" for x
    using assms(3) that by (simp add: checked_def T2)
  have rs3: "region s t st' = region s t s2" for t
    using bus3 [OF out [OF rtranclp.rtrancl_refl]] by (simp add: region_def)
  have reqs: "bus_reqs t st' b i = req_index (rg_size (region s t s2)) t # bus_reqs t st' b (Suc i)" for t
    using bus_reqs_step [of i st' t b] assms(4,5) len(3) c3 skel_fields(2) [OF c3(1) assms(4)]
    by (simp add: dev_reqs_def Let_def T3 rs3 topo_bridge [OF assms(4,5)])
  have settled1: "settled s1 x" if "reach ?T s x" for x
    using assms(1) that T1 len(1) unfolding reach by (auto simp: checked_def settled_def)
  have child: "c \<noteq> b" "c \<noteq> s" "reach ?T s c" "c \<notin> sub ?T b (Suc i)" if "reach ?T s x" "edge ?T x c" for x c
  proof -
    show "reach ?T s c" using that by (rule rtranclp.rtrancl_into_rtrancl)
    then show "c \<noteq> b" "c \<notin> sub ?T b (Suc i)" by (rule out)+
    show "c \<noteq> s" using reach_le [OF that(1) assms(6)] edge_less [OF assms(6) that(2)] by simp
  qed
  have settled2: "settled s2 x" if "reach ?T s x" for x
  proof (rule settled_cong [OF settled1 [OF that]])
    show "skel s2 = skel s1" "busses_count s2 = busses_count s1" using c1 c2 by simp_all
    show "PCIDevices s2 ! k = PCIDevices s1 ! k" for k by (simp add: m(6))
    show "same_stats (region x t s1) (region x t s2)" for t
      using m(4) m(5) [of x] out(1) [OF that] by (cases "x = s") (simp_all add: region_def same_stats_def)
    show "rg_size (region c t s2) = rg_size (region c t s1) \<and> rg_sum (region c t s2) = rg_sum (region c t s1)"
      if e: "edge (topo s1) x c" for c t
      using m(5) [of c] child [OF \<open>reach ?T s x\<close> e [unfolded T1]] by (simp add: region_def)
  qed
  have settled3: "settled st' x" if "reach ?T s x" for x
  proof (rule settled_cong [OF settled2 [OF that]])
    show "skel st' = skel s2" "busses_count st' = busses_count s2" using c2 c3 by simp_all
    show "PCIDevices st' ! k = PCIDevices s2 ! k" if "k < length (PCIDevices s2)" "fst (topo s2 ! k) = x" for k
      using assms(3) that out [OF \<open>reach ?T s x\<close>] by (simp add: checked_def T2)
    show "same_stats (region x t s2) (region x t st')" for t
      using bus3 [OF out [OF that]] by (simp add: region_def same_stats_def)
    show "rg_size (region c t st') = rg_size (region c t s2) \<and> rg_sum (region c t st') = rg_sum (region c t s2)"
      if e: "edge (topo s2) x c" for c t
      using bus3 [of c] child [OF \<open>reach ?T s x\<close> e [unfolded T2]] by (simp add: region_def)
  qed
  show ?thesis
    unfolding checked_def
  proof (intro conjI allI impI ballI)
    show "busses st' ! x = busses st ! x" if "x \<noteq> b" "x \<notin> sub ?T b i" for x
      using that bus1 [of x] m(5) [of x] bus3 [of x] unfolding sub reach by simp
    show "PCIDevices st' ! k = PCIDevices st ! k"
      if "k < length (PCIDevices st)" "\<not> (i \<le> k \<and> fst (?T ! k) = b)" "fst (?T ! k) \<notin> sub ?T b i" for k
    proof -
      have "PCIDevices s1 ! k = PCIDevices st ! k"
        using assms(1) that unfolding sub reach by (auto simp: checked_def)
      moreover have "PCIDevices st' ! k = PCIDevices s2 ! k"
        using assms(3) that len unfolding sub by (auto simp: checked_def T2)
      ultimately show ?thesis by (simp add: m(6))
    qed
    show "reserved t (ks t @ bus_reqs t st' b i) (region b t st')" for t
      using assms(3) by (simp add: checked_def reqs assms(10))
    show "rg_size (region b t st') = rg_size (region b t st)" "rg_base (region b t st') = rg_base (region b t st)" for t
      using assms(3) m(3) [of t] rb1 [of t] by (simp_all add: checked_def)
    show "settled st' x" if "x \<in> sub ?T b i" for x
      using that settled3 assms(3) unfolding sub by (auto simp: checked_def T2)
    show "dev_ok st' k" if "k < length (PCIDevices st)" "i \<le> k" "fst (?T ! k) = b" for k
    proof (cases "k = i")
      case True
      have "window_ok t s st'" for t using m(1) [of t] by (simp add: window_ok_def rs3)
      then show ?thesis
        using True assms(5) topo_bridge(1) [OF assms(4,5)] skel_fields(2) [OF c3(1) assms(4)]
        by (simp add: dev_ok_def Let_def T3)
    next
      case False
      then show ?thesis using assms(3) that len by (simp add: checked_def T2)
    qed
  qed (use c3 in simp_all)
qed

text \<open>Pass 1 on a tree: by induction on the height of the bus and the position in the list.\<close>

lemma fresh_Suc:
  assumes "fresh b i st" "i < length (PCIDevices st)"
  shows "fresh b (Suc i) st"
  using assms(1) unfolding fresh_def by (auto dest: Suc_leD sub_mono)

lemma fresh_child:
  assumes "fresh b i st" "i < length (PCIDevices st)" "topo st ! i = (b, Some s)"
  shows "fresh s 0 st" "\<And>t. region s t st = no_region"
proof -
  have l: "i < length (topo st)" using assms(2) by simp
  have sub: "reach (topo st) s x \<Longrightarrow> x \<in> sub (topo st) b i" for x using sub_child [OF l assms(3)] by simp
  show "region s t st = no_region" for t using assms(1) sub [of s] by (simp add: fresh_def)
  show "fresh s 0 st"
    using assms(1) sub reach_sub unfolding fresh_def by metis
qed

lemma fresh_after:
  assumes "fresh b i st" "skel st' = skel st" "busses_count st' = busses_count st" "i < length (PCIDevices st)"
    "\<And>k. k < length (PCIDevices st) \<Longrightarrow> Suc i \<le> k \<and> fst (topo st ! k) = b \<or> fst (topo st ! k) \<in> sub (topo st) b (Suc i) \<Longrightarrow>
       PCIDevices st' ! k = PCIDevices st ! k"
    "\<And>x. x \<in> sub (topo st) b (Suc i) \<Longrightarrow> busses st' ! x = busses st ! x"
  shows "fresh b (Suc i) st'"
  using fresh_Suc [OF assms(1,4)] assms(5,6) skel_fields(1) [OF assms(2)]
  unfolding fresh_def topo_skel [OF assms(2,3)] region_def by metis

lemma check_devices_ok:
  assumes "check_devices b i st = Some st'" "tree (topo st) n" "n = length (busses st)" "b < n" "fresh b i st"
    "\<And>t. reserved t (ks t) (region b t st)"
  shows "checked b i ks st st'"
  using assms
proof (induction "(n - b) * Suc (length (PCIDevices st)) + (length (PCIDevices st) - i)" arbitrary: b i st st' ks rule: less_induct)
  case less
  let ?L = "length (PCIDevices st)" and ?T = "topo st"
  show ?case
  proof (cases "i < ?L")
    case False
    then have "st' = st" using less.prems(1) by (simp add: check_devices.simps [of b i st])
    then show ?thesis
      using False less.prems(6) by (auto simp: checked_def sub_end bus_reqs_def)
  next
    case i: True
    let ?d = "PCIDevices st ! i"
    have rec: "checked b (Suc i) ks' s2 st'"
      if "check_devices b (i + 1) s2 = Some st'" "topo s2 = ?T" "length (PCIDevices s2) = ?L"
        "length (busses s2) = n" "fresh b (Suc i) s2" "\<And>t. reserved t (ks' t) (region b t s2)" for s2 ks'
      by (rule less.hyps) (use less.prems(2,4) that i in simp_all)
    show ?thesis
    proof (cases "fst (?T ! i) = b")
      case False
      then have "check_devices b (i + 1) st = Some st'"
        using less.prems(1) i on_bus_topo [OF i, of b] by (simp add: check_devices.simps [of b i st] Let_def)
      then have "checked b (Suc i) ks st st'"
        using rec fresh_Suc [OF less.prems(5) i] less.prems(3,6) by simp
      then show ?thesis using checked_skip i False by fastforce
    next
      case on: True
      then have onb: "on_bus ?d b" using on_bus_topo [OF i] by simp
      show ?thesis
      proof (cases "snd (?T ! i)")
        case None
        then have ti: "?T ! i = (b, None)" using on by (simp add: prod_eq_iff)
        show ?thesis
        proof (cases "pclass ?d = PCI_CLASS_BRIDGE_PCI")
          case True
          then have "\<not> uint (secondary_bus ?d) < busses_count st" using ti i by (auto simp: topo_def)
          then have "check_devices b (i + 1) st = Some st'"
            using less.prems(1) i onb True by (simp add: check_devices.simps [of b i st] Let_def)
          then have "checked b (Suc i) ks st st'"
            using rec fresh_Suc [OF less.prems(5) i] less.prems(3,6) by simp
          then show ?thesis using checked_skip i True ti by fastforce
        next
          case False
          obtain s1 where s1: "check_bars b i 0 st = Some s1" "check_devices b (i + 1) s1 = Some st'"
            using less.prems(1) i onb False
            by (auto simp: check_devices.simps [of b i st] Let_def bind_eq_Some_conv)
          have nb: "bars ?d = no_bars" using less.prems(5) i on by (simp add: fresh_def)
          obtain bs where bs: "PCIDevices s1 = (PCIDevices st)[i := ?d\<lparr>bars := bs\<rparr>]" "bars_fit 0 bs"
            "\<And>t. reserved t (ks t @ bar_reqs t 0 bs) (region b t s1)"
            "\<And>t. rg_size (region b t s1) = rg_size (region b t st) \<and> rg_base (region b t s1) = rg_base (region b t st)"
            "\<And>x. x \<noteq> b \<Longrightarrow> busses s1 ! x = busses st ! x"
            "busses_count s1 = busses_count st" "length (busses s1) = length (busses st)"
            using check_bars_ok [OF s1(1) i, of ks] less.prems(3,4,6) nb by (auto simp: no_bars_def)
          have sk: "skel s1 = skel st" using i by (simp add: skel_def bs(1) map_update list_update_same_conv)
          have other: "PCIDevices s1 ! k = PCIDevices st ! k" if "k \<noteq> i" for k using that by (simp add: bs(1))
          have "i \<noteq> k" if "Suc i \<le> k \<and> fst (?T ! k) = b \<or> fst (?T ! k) \<in> sub ?T b (Suc i)" for k
            using that ti sub_above [OF less.prems(2)] by force
          then have "fresh b (Suc i) s1"
            using other bs(5) sub_above [OF less.prems(2)]
            by (intro fresh_after [OF less.prems(5) sk bs(6) i]) fastforce+
          then have "checked b (Suc i) (\<lambda>t. ks t @ bar_reqs t 0 bs) s1 st'"
            using rec [OF s1(2) topo_skel [OF sk bs(6)] skel_fields(1) [OF sk]] bs(3,7) less.prems(3) by simp
          then show ?thesis
            by (rule checked_bars [OF _ i ti False less.prems(2) bs(1,2,6,7,5) refl bs(4)])
        qed
      next
        case (Some s)
        then have ti: "?T ! i = (b, Some s)" using on by (simp add: prod_eq_iff)
        note br = topo_bridge [OF i ti]
        obtain s1 s2 where s12: "check_devices s 0 st = Some s1" "bridge_reserve_all b s s1 = Some s2"
            "check_devices b (i + 1) s2 = Some st'"
          using less.prems(1) i onb br by (auto simp: check_devices.simps [of b i st] Let_def bind_eq_Some_conv)
        have bs: "b < s" "s < n"
          using edge_less [OF less.prems(2) edge_nth [of i ?T b s]] i ti by simp_all
        have nb0: "b \<notin> sub ?T s 0" using sub_above [OF less.prems(2)] bs(1) by force
        have "(n - s) * Suc ?L + (?L - 0) < Suc (n - s) * Suc ?L" by simp
        also have "Suc (n - s) * Suc ?L \<le> (n - b) * Suc ?L" using bs by (intro mult_right_mono) simp_all
        finally have small: "(n - s) * Suc ?L + (?L - 0) < (n - b) * Suc ?L + (?L - i)" by simp
        have "checked s 0 (\<lambda>_. []) st s1"
          by (rule less.hyps [OF small s12(1) less.prems(2,3) bs(2)])
            (use fresh_child [OF less.prems(5) i ti] in \<open>simp_all add: reserved_empty\<close>)
        note c1 = this
        have sk1: "skel s1 = skel st" "busses_count s1 = busses_count st" "length (busses s1) = n"
          using c1 less.prems(3) by (simp_all add: checked_def)
        have rb1: "region b t s1 = region b t st" for t using c1 bs(1) nb0 by (simp add: checked_def region_def)
        have l1: "b \<noteq> s" "b < length (busses s1)" "s < length (busses s1)" using less.prems(4) bs sk1(3) by simp_all
        have "reserved u (ks u) (region b u s1)" for u using less.prems(6) by (simp add: rb1)
        note m = bridge_reserve_all_ok [OF s12(2) l1 this]
        have sk2: "skel s2 = skel st" "busses_count s2 = busses_count st" using m(6,7) sk1 by (simp_all add: skel_def)
        have li: "i < length ?T" using i by simp
        have out: "x \<noteq> b \<and> x \<noteq> s \<and> x \<notin> sub ?T s 0" if "x \<in> sub ?T b (Suc i)" for x
          using that sub_out [OF less.prems(2) li ti, of x] reach_sub [of ?T s x] sub_above [OF less.prems(2) that] by auto
        have "fresh b (Suc i) s2"
        proof (rule fresh_after [OF less.prems(5) sk2 i])
          show "PCIDevices s2 ! k = PCIDevices st ! k"
            if "k < ?L" "Suc i \<le> k \<and> fst (?T ! k) = b \<or> fst (?T ! k) \<in> sub ?T b (Suc i)" for k
            using that c1 out [of "fst (?T ! k)"] bs(1) nb0 m(6) by (auto simp: checked_def)
          show "busses s2 ! x = busses st ! x" if "x \<in> sub ?T b (Suc i)" for x
            using that c1 out [OF that] m(5) [of x] by (simp add: checked_def)
        qed
        then have "checked b (Suc i) (\<lambda>t. ks t @ [req_index (rg_size (region s t s2)) t]) s2 st'"
          using rec [OF s12(3) topo_skel [OF sk2] skel_fields(1) [OF sk2(1)]] m(2,8) sk1(3) by simp
        then show ?thesis
          by (rule checked_bridge [OF c1 s12(2) _ i ti less.prems(2,3,4,6) refl])
      qed
    qed
  qed
qed

end
