(* ===== verification/PciPass2.thy ===== *)
theory PciPass2
  imports PciPass1
begin

text \<open>
  The second pass of the allocation, \<open>pci_bios_map_device_in_bus\<close>: on a tree of buses the addresses it
  writes are those of the layout of every bus, inside the windows of the bridges above it.
\<close>

section \<open>Pass 2 of a device\<close>

text \<open>The 32-bit writes to the configuration space, the last one first: register and value.\<close>

fun cfg_sel :: "io_event list \<Rightarrow> u32" where
  "cfg_sel [] = 0"
| "cfg_sel (PortOut W32 p v # l) = (if p = PORT_PCI_CMD then v else cfg_sel l)"
| "cfg_sel (_ # l) = cfg_sel l"

fun cfg_writes :: "io_event list \<Rightarrow> (u32 \<times> u32) list" where
  "cfg_writes [] = []"
| "cfg_writes (PortOut W32 p v # l) = (if p = PORT_PCI_DATA then [(cfg_sel l, v)] else []) @ cfg_writes l"
| "cfg_writes (_ # l) = cfg_writes l"

definition cfg_key :: "u16 \<Rightarrow> u32 \<Rightarrow> u32" where
  "cfg_key b ad = 0x80000000 OR push_bit 8 (ucast b) OR (ad AND 0xfc)"

lemma ports_distinct [simp]: "PORT_PCI_CMD \<noteq> PORT_PCI_DATA" "PORT_PCI_DATA \<noteq> PORT_PCI_CMD"
  by (simp_all add: PORT_PCI_CMD_def PORT_PCI_DATA_def)

lemma cfg_writes_access [simp]:
  "cfg_writes (io_log (pci_config_writel b a v st)) = (cfg_key b a, v) # cfg_writes (io_log st)"
  "cfg_writes (io_log (pci_config_writew b a w st)) = cfg_writes (io_log st)"
  "cfg_writes (io_log (pci_config_writeb b a x st)) = cfg_writes (io_log st)"
  "cfg_writes (io_log (snd (pci_config_readb b a st))) = cfg_writes (io_log st)"
  by (simp_all add: cfg_access cfg_key_def)

text \<open>The writes of 8 and 16 bits, the last one first: the register selected, the port and the value.\<close>

fun narrow_writes :: "io_event list \<Rightarrow> ((u32 \<times> u16) \<times> u32) list" where
  "narrow_writes [] = []"
| "narrow_writes (PortOut w p v # l) = (if w = W32 then [] else [((cfg_sel l, p), v)]) @ narrow_writes l"
| "narrow_writes (PortIn w p v # l) = narrow_writes l"

definition reg_key :: "u16 \<Rightarrow> u32 \<Rightarrow> u32 \<times> u16" where
  "reg_key b ad = (cfg_key b ad, PORT_PCI_DATA + ucast (ad AND 3))"

lemma narrow_writes_access [simp]:
  "narrow_writes (io_log (pci_config_writel b a v st)) = narrow_writes (io_log st)"
  "narrow_writes (io_log (pci_config_writew b a w st)) =
     ((cfg_key b a, PORT_PCI_DATA + ucast (a AND 2)), ucast w) # narrow_writes (io_log st)"
  "narrow_writes (io_log (pci_config_writeb b a x st)) = (reg_key b a, ucast x) # narrow_writes (io_log st)"
  "narrow_writes (io_log (snd (pci_config_readb b a st))) = narrow_writes (io_log st)"
  by (simp_all add: cfg_access cfg_key_def reg_key_def)

text \<open>The registers that may hold the address of region \<open>j\<close> of a device.\<close>

definition bar_key :: "pci_device \<Rightarrow> nat \<Rightarrow> u32 \<Rightarrow> bool" where
  "bar_key d j key \<longleftrightarrow>
     (if j \<noteq> PCI_ROM_SLOT then key = cfg_key (bdf d) (PCI_BASE_ADDRESS_0 + of_nat j * 4)
      else key \<in> {cfg_key (bdf d) PCI_ROM_ADDRESS, cfg_key (bdf d) PCI_ROM_ADDRESS1})"

lemma set_addr_writes:
  "\<exists>key. bar_key d j key \<and>
     cfg_writes (io_log (pci_set_io_region_addr (bdf d) j ad st)) = (key, ad) # cfg_writes (io_log st)"
proof (cases "j = PCI_ROM_SLOT")
  case True
  obtain ty s1 where r: "pci_config_readb (bdf d) PCI_HEADER_TYPE st = (ty, s1)" by (metis surj_pair)
  then have "cfg_writes (io_log s1) = cfg_writes (io_log st)" by (metis cfg_writes_access(4) snd_conv)
  then show ?thesis using True by (simp add: pci_set_io_region_addr_def pci_bar_def r Let_def bar_key_def)
next
  case False
  then show ?thesis by (simp add: pci_set_io_region_addr_def pci_bar_def bar_key_def)
qed

lemma set_addr_narrow [simp]:
  "narrow_writes (io_log (pci_set_io_region_addr b j ad st)) = narrow_writes (io_log st)"
  using narrow_writes_access(4) [of b PCI_HEADER_TYPE st]
  by (cases "pci_config_readb b PCI_HEADER_TYPE st") (simp add: pci_set_io_region_addr_def pci_bar_def Let_def)

lemma set_addr_frame [simp]:
  fixes st :: pci_state
  shows "PCIDevices (pci_set_io_region_addr b j ad st) = PCIDevices st" "busses (pci_set_io_region_addr b j ad st) = busses st"
    "busses_count (pci_set_io_region_addr b j ad st) = busses_count st"
  using pci_bar_frame [of b j st] by (cases "pci_bar b j st"; simp add: pci_set_io_region_addr_def)+

text \<open>The passes after the first one only change addresses.\<close>

definition same_sizes :: "pci_state \<Rightarrow> pci_state \<Rightarrow> bool" where
  "same_sizes st st' \<longleftrightarrow> PCIDevices st' = PCIDevices st \<and> busses_count st' = busses_count st \<and>
     length (busses st') = length (busses st) \<and>
     (\<forall>x t. same_stats (region x t st) (region x t st') \<and> rg_size (region x t st') = rg_size (region x t st))"

lemma same_sizes_refl [simp]: "same_sizes st st"
  by (simp add: same_sizes_def same_stats_def)

lemma same_sizes_trans: "same_sizes a b \<Longrightarrow> same_sizes b c \<Longrightarrow> same_sizes a c"
  unfolding same_sizes_def using same_stats_trans by metis

lemma same_sizes_reqs:
  assumes "same_sizes st st'"
  shows "topo st' = topo st" "dev_reqs t st' k = dev_reqs t st k" "bus_reqs t st' b i = bus_reqs t st b i"
    "dev_ok st' k = dev_ok st k" "settled st' x = settled st x"
proof -
  have a: "PCIDevices st' = PCIDevices st" "busses_count st' = busses_count st"
    "\<And>x t. rg_size (region x t st') = rg_size (region x t st)" "\<And>x t. rg_sum (region x t st') = rg_sum (region x t st)"
    using assms by (simp_all add: same_sizes_def same_stats_def)
  show tp: "topo st' = topo st" by (simp add: topo_def a)
  show dr: "dev_reqs t st' k = dev_reqs t st k" for t k by (simp add: dev_reqs_def Let_def tp a split: option.split)
  show br: "bus_reqs t st' b i = bus_reqs t st b i" for t b i by (simp add: bus_reqs_def tp dr a cong: if_cong)
  show dk: "dev_ok st' k = dev_ok st k" for k by (simp add: dev_ok_def window_ok_def Let_def tp a split: option.split)
  have "reserved t ks (region x t st') = reserved t ks (region x t st)" for t ks
    using assms by (simp add: same_sizes_def same_stats_def reserved_def)
  then show "settled st' x = settled st x" by (simp add: settled_def br tp dk a)
qed

text \<open>A request served on bus \<open>b\<close>.\<close>

lemma bus_get_addr_ok:
  assumes "cursor t base ks k (region b t st)" "k < length ks" "pci_size_to_index sz t = Some (ks ! k)" "b < length (busses st)"
  obtains st' where "pci_bios_bus_get_addr b t sz st = Some (of_nat (place t base ks k), st')"
    "cursor t base ks (Suc k) (region b t st')" "\<And>u. u \<noteq> t \<Longrightarrow> region b u st' = region b u st"
    "\<And>x. x \<noteq> b \<Longrightarrow> busses st' ! x = busses st ! x" "same_sizes st st'" "io_log st' = io_log st"
    "\<And>u. rg_base (region b u st') = rg_base (region b u st)"
proof -
  obtain rg where rg: "region_get_addr t sz (region b t st) = Some (of_nat (place t base ks k), rg)" "cursor t base ks (Suc k) rg"
    "rg_size rg = rg_size (region b t st)" "rg_base rg = rg_base (region b t st)" "rg_sum rg = rg_sum (region b t st)"
    "rg_max rg = rg_max (region b t st)" "rg_count rg = rg_count (region b t st)"
    by (rule get_addr_cursor [OF assms(1-3)])
  let ?s = "upd_region b t (\<lambda>_. rg) st"
  have r: "region x u ?s = (if x = b \<and> u = t then rg else region x u st)" for x u by (rule region_upd [OF assms(4)])
  have len: "length (rg_bases rg) = length (rg_bases (region b t st))" using rg(2) assms(1) by (simp add: cursor_def)
  show thesis
  proof (rule that)
    show "pci_bios_bus_get_addr b t sz st = Some (of_nat (place t base ks k), ?s)"
      by (simp add: pci_bios_bus_get_addr_def rg(1))
    show "same_sizes st ?s" using rg len by (simp add: same_sizes_def same_stats_def r)
    show "busses ?s ! x = busses st ! x" if "x \<noteq> b" for x by (rule upd_region_other [OF that])
    show "io_log ?s = io_log st" by (simp add: upd_region_def)
  qed (use rg in \<open>simp_all add: r\<close>)
qed

text \<open>An address given to region \<open>al_bar\<close> of device \<open>al_dev\<close>, and those given to the regions of a walk.\<close>

record alloc =
  al_dev :: nat
  al_bar :: nat
  al_type :: pci_region_type
  al_addr :: nat
  al_size :: nat

fun walk_allocs ::
  "nat \<Rightarrow> (pci_region_type \<Rightarrow> nat) \<Rightarrow> (pci_region_type \<Rightarrow> nat list) \<Rightarrow> (pci_region_type \<Rightarrow> nat) \<Rightarrow>
   (nat \<times> pci_bar_s) list \<Rightarrow> alloc list" where
  "walk_allocs i base K pos [] = []"
| "walk_allocs i base K pos ((j, bar) # w) = (let t = bar_type bar in
     \<lparr>al_dev = i, al_bar = j, al_type = t, al_addr = place t (base t) (K t) (pos t), al_size = isz t (K t ! pos t)\<rparr>
     # walk_allocs i base K (pos(t := Suc (pos t))) w)"

text \<open>The writes \<open>W\<close> of a state with the devices \<open>ds\<close> set the registers of the allocations \<open>as\<close>, and no
  others but the upper halves of the bridges' windows, which are cleared.\<close>

definition served :: "pci_device list \<Rightarrow> alloc list \<Rightarrow> (u32 \<times> u32) list \<Rightarrow> bool" where
  "served ds as W \<longleftrightarrow>
     (\<forall>e\<in>set as. \<exists>key. bar_key (ds ! al_dev e) (al_bar e) key \<and> (key, of_nat (al_addr e)) \<in> set W) \<and>
     (\<forall>(key, v)\<in>set W. (\<exists>e\<in>set as. bar_key (ds ! al_dev e) (al_bar e) key \<and> v = of_nat (al_addr e)) \<or>
        (\<exists>d\<in>set ds. pclass d = PCI_CLASS_BRIDGE_PCI \<and> v = 0 \<and>
           key \<in> {cfg_key (bdf d) PCI_PREF_BASE_UPPER32, cfg_key (bdf d) PCI_PREF_LIMIT_UPPER32}))"

lemma served_Nil: "served ds [] []"
  by (simp add: served_def)

lemma served_append: "served ds as W \<Longrightarrow> served ds as' W' \<Longrightarrow> served ds (as @ as') (W' @ W)"
  unfolding served_def by (simp add: ball_Un bex_Un) blast

lemma map_bars_ok:
  assumes "i < length (PCIDevices st)" "b < length (busses st)" "bs = bars (PCIDevices st ! i)" "bars_fit j bs"
    "\<And>t. cursor t (base t) (K t) (length (P t)) (region b t st)" "\<And>t. K t = P t @ bar_reqs t j bs @ R t"
  shows "\<exists>st' W. map_bars b i j st = Some st' \<and> same_sizes st st' \<and>
    (\<forall>x. x \<noteq> b \<longrightarrow> busses st' ! x = busses st ! x) \<and> (\<forall>t. rg_base (region b t st') = rg_base (region b t st)) \<and>
    (\<forall>t. cursor t (base t) (K t) (length (P t) + length (bar_reqs t j bs)) (region b t st')) \<and>
    cfg_writes (io_log st') = W @ cfg_writes (io_log st) \<and> narrow_writes (io_log st') = narrow_writes (io_log st) \<and>
    served (PCIDevices st) (walk_allocs i base K (\<lambda>t. length (P t)) (bar_walk j bs)) W"
  using assms
proof (induction j bs arbitrary: st P rule: bar_walk.induct)
  case (1 j bs)
  let ?d = "PCIDevices st ! i"
  show ?case
  proof (cases "j \<ge> PCI_NUM_REGIONS")
    case True
    then show ?thesis
      using 1(7) by (simp add: map_bars.simps [of b i j] bar_walk.simps [of j] bar_reqs_def served_Nil)
  next
    case False
    show ?thesis
    proof (cases "bar_addr (bs ! j) = 0")
      case True
      have w: "bar_walk j bs = bar_walk (j + 1) bs" using False True by (simp add: bar_walk.simps [of j])
      have "map_bars b i j st = map_bars b i (j + 1) st"
        using False True 1(5) by (simp add: map_bars.simps [of b i j] Let_def)
      then show ?thesis
        using 1(1) [OF False True 1(3-5), of P] 1(6-8) by (simp add: w bars_fit_def bar_reqs_def)
    next
      case nz: False
      let ?bar = "bs ! j" and ?j = "if is64 (bs ! j) then j + 2 else j + 1"
      let ?t = "bar_type ?bar"
      have w: "bar_walk j bs = (j, ?bar) # bar_walk ?j bs" using False nz by (simp add: bar_walk.simps [of j])
      have reqs: "bar_reqs t j bs = (if t = ?t then [req_index (bar_size ?bar) ?t] else []) @ bar_reqs t ?j bs" for t
        by (simp add: bar_reqs_def w)
      have "fits (bar_size ?bar) ?t" and fit: "bars_fit ?j bs" using 1(6) by (simp_all add: bars_fit_def w)
      then have ix: "pci_size_to_index (bar_size ?bar) ?t = Some (req_index (bar_size ?bar) ?t)"
        by (auto simp: fits_def req_index_def)
      have kt: "length (P ?t) < length (K ?t)" "K ?t ! length (P ?t) = req_index (bar_size ?bar) ?t"
        using 1(8) [of ?t] by (simp_all add: reqs)
      obtain s1 where s1: "pci_bios_bus_get_addr b ?t (bar_size ?bar) st = Some (of_nat (place ?t (base ?t) (K ?t) (length (P ?t))), s1)"
        "cursor ?t (base ?t) (K ?t) (Suc (length (P ?t))) (region b ?t s1)" "\<And>u. u \<noteq> ?t \<Longrightarrow> region b u s1 = region b u st"
        "\<And>x. x \<noteq> b \<Longrightarrow> busses s1 ! x = busses st ! x" "same_sizes st s1" "io_log s1 = io_log st"
        "\<And>u. rg_base (region b u s1) = rg_base (region b u st)"
        using bus_get_addr_ok [OF 1(7) kt(1) _ 1(4)] ix kt(2) by metis
      let ?ad = "of_nat (place ?t (base ?t) (K ?t) (length (P ?t))) :: u32"
      let ?s2 = "pci_set_io_region_addr (bdf ?d) j ?ad s1"
      obtain key where key: "bar_key ?d j key" "cfg_writes (io_log ?s2) = (key, ?ad) # cfg_writes (io_log st)"
        using set_addr_writes [of ?d j ?ad s1] s1(6) by auto
      have d1: "PCIDevices s1 = PCIDevices st" "length (busses s1) = length (busses st)" using s1(5) by (simp_all add: same_sizes_def)
      have r2: "region x u ?s2 = region x u s1" for x u by (simp add: region_def)
      have ss2: "same_sizes st ?s2" using s1(5) by (simp add: same_sizes_def r2)
      let ?P = "\<lambda>t. P t @ (if t = ?t then [req_index (bar_size ?bar) ?t] else [])"
      have "\<exists>st' W. map_bars b i ?j ?s2 = Some st' \<and> same_sizes ?s2 st' \<and>
        (\<forall>x. x \<noteq> b \<longrightarrow> busses st' ! x = busses ?s2 ! x) \<and> (\<forall>t. rg_base (region b t st') = rg_base (region b t ?s2)) \<and>
        (\<forall>t. cursor t (base t) (K t) (length (?P t) + length (bar_reqs t ?j bs)) (region b t st')) \<and>
        cfg_writes (io_log st') = W @ cfg_writes (io_log ?s2) \<and> narrow_writes (io_log st') = narrow_writes (io_log ?s2) \<and>
        served (PCIDevices ?s2) (walk_allocs i base K (\<lambda>t. length (?P t)) (bar_walk ?j bs)) W"
      proof (rule 1(2) [OF False nz])
        show "cursor t (base t) (K t) (length (?P t)) (region b t ?s2)" for t
          using s1(2,3) 1(7) by (cases "t = ?t") (simp_all add: r2)
        show "K t = ?P t @ bar_reqs t ?j bs @ R t" for t using 1(8) [of t] by (simp add: reqs)
      qed (use 1(3-5) d1 fit in simp_all)
      then obtain st' W where st': "map_bars b i ?j ?s2 = Some st'" "same_sizes ?s2 st'"
        "\<And>x. x \<noteq> b \<Longrightarrow> busses st' ! x = busses ?s2 ! x" "\<And>t. rg_base (region b t st') = rg_base (region b t ?s2)"
        "\<And>t. cursor t (base t) (K t) (length (?P t) + length (bar_reqs t ?j bs)) (region b t st')"
        "cfg_writes (io_log st') = W @ cfg_writes (io_log ?s2)"
        "served (PCIDevices st) (walk_allocs i base K (\<lambda>t. length (?P t)) (bar_walk ?j bs)) W"
        "narrow_writes (io_log st') = narrow_writes (io_log ?s2)"
        by (auto simp: d1)
      let ?e = "\<lparr>al_dev = i, al_bar = j, al_type = ?t, al_addr = place ?t (base ?t) (K ?t) (length (P ?t)),
        al_size = isz ?t (K ?t ! length (P ?t))\<rparr>"
      have "(\<lambda>t. length (?P t)) = (\<lambda>t. length (P t))(?t := Suc (length (P ?t)))" by auto
      then have as: "walk_allocs i base K (\<lambda>t. length (P t)) (bar_walk j bs)
          = [?e] @ walk_allocs i base K (\<lambda>t. length (?P t)) (bar_walk ?j bs)"
        by (simp add: w Let_def)
      have one: "served (PCIDevices st) [?e] [(key, ?ad)]" using key(1) by (auto simp: served_def)
      have "map_bars b i j st = Some st'"
        using False nz 1(5) s1(1) st'(1) by (simp add: map_bars.simps [of b i j] Let_def)
      moreover have len: "length (?P t) + length (bar_reqs t ?j bs) = length (P t) + length (bar_reqs t j bs)" for t
        by (simp add: reqs)
      moreover have "cursor t (base t) (K t) (length (P t) + length (bar_reqs t j bs)) (region b t st')" for t
        using st'(5) [of t] by (simp only: len)
      ultimately show ?thesis
        using st'(3,4,6,8) s1(4,6,7) key(2) same_sizes_trans [OF ss2 st'(2)] served_append [OF one st'(7)]
        by (intro exI [of _ st'] exI [of _ "W @ [(key, ?ad)]"]) (simp add: as r2)
    qed
  qed
qed

section \<open>The layout of the allocations\<close>

text \<open>Two allocations of one type do not overlap.\<close>

definition apart :: "alloc \<Rightarrow> alloc \<Rightarrow> bool" where
  "apart e e' \<longleftrightarrow> (al_type e = al_type e' \<longrightarrow>
     al_addr e + al_size e \<le> al_addr e' \<or> al_addr e' + al_size e' \<le> al_addr e)"

definition alloc_id :: "alloc \<Rightarrow> nat \<times> nat" where
  "alloc_id e = (al_dev e, al_bar e)"

definition laid_out :: "alloc list \<Rightarrow> bool" where
  "laid_out as \<longleftrightarrow> sorted_wrt apart as \<and> distinct (map alloc_id as) \<and>
     (\<forall>e\<in>set as. 0 < al_size e \<and> al_size e dvd al_addr e)"

text \<open>An allocation inside the place of a request from \<open>lo\<close> up to \<open>hi\<close>.\<close>

definition within :: "(pci_region_type \<Rightarrow> nat) \<Rightarrow> (pci_region_type \<Rightarrow> nat list) \<Rightarrow>
    (pci_region_type \<Rightarrow> nat) \<Rightarrow> (pci_region_type \<Rightarrow> nat) \<Rightarrow> alloc \<Rightarrow> bool" where
  "within base K lo hi e \<longleftrightarrow> (let t = al_type e in \<exists>q. lo t \<le> q \<and> q < hi t \<and>
     place t (base t) (K t) q \<le> al_addr e \<and>
     al_addr e + al_size e \<le> place t (base t) (K t) q + isz t (K t ! q))"

lemma within_mono:
  "within base K lo hi e \<Longrightarrow> (\<And>t. lo' t \<le> lo t) \<Longrightarrow> (\<And>t. hi t \<le> hi' t) \<Longrightarrow> within base K lo' hi' e"
  unfolding within_def Let_def by (meson le_trans less_le_trans)

lemma within_apart:
  assumes "within base K lo hi e" "within base K lo' hi' e'" "\<And>t. hi t \<le> lo' t" "\<And>t. hi' t \<le> length (K t)"
    "\<And>t. indices (K t)"
  shows "apart e e'"
proof (unfold apart_def, intro impI)
  assume t: "al_type e = al_type e'"
  let ?t = "al_type e"
  obtain q where q: "lo ?t \<le> q" "q < hi ?t" "place ?t (base ?t) (K ?t) q \<le> al_addr e"
      "al_addr e + al_size e \<le> place ?t (base ?t) (K ?t) q + isz ?t (K ?t ! q)"
    using assms(1) by (auto simp: within_def Let_def)
  obtain p where p: "lo' ?t \<le> p" "p < hi' ?t" "place ?t (base ?t) (K ?t) p \<le> al_addr e'"
      "al_addr e' + al_size e' \<le> place ?t (base ?t) (K ?t) p + isz ?t (K ?t ! p)"
    using assms(2) by (auto simp: within_def Let_def t)
  have "q < p" using q(2) p(1) assms(3) [of ?t] by simp
  moreover have "p < length (K ?t)" using p(2) assms(4) [of ?t] by simp
  ultimately show "al_addr e + al_size e \<le> al_addr e' \<or> al_addr e' + al_size e' \<le> al_addr e"
    using place_disjoint [OF assms(5) [of ?t], of q p ?t "base ?t"] q(3,4) p(3,4) by auto
qed

lemma laid_out_append:
  assumes "laid_out as" "laid_out as'" "\<And>e e'. e \<in> set as \<Longrightarrow> e' \<in> set as' \<Longrightarrow> apart e e' \<and> alloc_id e \<noteq> alloc_id e'"
  shows "laid_out (as @ as')"
proof -
  have "alloc_id ` set as \<inter> alloc_id ` set as' = {}" using assms(3) by blast
  then show ?thesis using assms by (simp add: laid_out_def sorted_wrt_append ball_Un)
qed

text \<open>The allocations of the regions of one device.\<close>

lemma bar_walk_index: "(k, bar) \<in> set (bar_walk j bs) \<Longrightarrow> j \<le> k \<and> k < PCI_NUM_REGIONS"
proof (induction j bs rule: bar_walk.induct)
  case (1 j bs)
  show ?case
    using 1(1,2) 1(3) by (subst (asm) bar_walk.simps [of j]) (auto split: if_splits)
qed

lemma bar_walk_distinct: "distinct (map fst (bar_walk j bs))"
proof (induction j bs rule: bar_walk.induct)
  case (1 j bs)
  have "j \<notin> fst ` set (bar_walk (j + k) bs)" if "0 < k" for k
    using bar_walk_index [of _ _ "j + k" bs] that by force
  from this [of 1] this [of 2] show ?case
    using 1 by (subst bar_walk.simps [of j]) (auto simp: image_iff)
qed

abbreviation type_count :: "pci_region_type \<Rightarrow> (nat \<times> pci_bar_s) list \<Rightarrow> nat" where
  "type_count t w \<equiv> length (filter (\<lambda>(_, bar). bar_type bar = t) w)"

lemma walk_allocs_within:
  "e \<in> set (walk_allocs i base K pos w) \<Longrightarrow> within base K pos (\<lambda>t. pos t + type_count t w) e"
proof (induction i base K pos w rule: walk_allocs.induct)
  case (2 i base K pos j bar w)
  let ?t = "bar_type bar"
  from 2(2) consider "e = \<lparr>al_dev = i, al_bar = j, al_type = ?t, al_addr = place ?t (base ?t) (K ?t) (pos ?t),
      al_size = isz ?t (K ?t ! pos ?t)\<rparr>" | "e \<in> set (walk_allocs i base K (pos(?t := Suc (pos ?t))) w)"
    by (auto simp: Let_def)
  then show ?case
  proof cases
    case 1
    then show ?thesis by (auto simp: within_def Let_def)
  next
    case 2
    show ?thesis by (rule within_mono [OF "2.IH" [OF refl 2]]) simp_all
  qed
qed simp

lemma walk_allocs_laid_out:
  assumes "\<And>t. indices (K t)" "\<And>t. pos t + type_count t w \<le> length (K t)"
    "\<And>t x. x \<in> set (K t) \<Longrightarrow> isz t x dvd base t" "distinct (map fst w)"
  shows "laid_out (walk_allocs i base K pos w) \<and> map alloc_id (walk_allocs i base K pos w) = map (\<lambda>(j, _). (i, j)) w"
  using assms
proof (induction i base K pos w rule: walk_allocs.induct)
  case (2 i base K pos j bar w)
  let ?t = "bar_type bar" and ?p = "pos(bar_type bar := Suc (pos (bar_type bar)))"
  let ?e = "\<lparr>al_dev = i, al_bar = j, al_type = ?t, al_addr = place ?t (base ?t) (K ?t) (pos ?t),
      al_size = isz ?t (K ?t ! pos ?t)\<rparr>"
  have room: "?p t + type_count t w \<le> length (K t)" for t using 2(3) [of t] by (auto split: if_splits)
  have "distinct (map fst w)" using 2(5) by simp
  note 2(1) [OF refl 2(2) room 2(4) this]
  then have IH: "laid_out (walk_allocs i base K ?p w)"
      "map alloc_id (walk_allocs i base K ?p w) = map (\<lambda>(j, _). (i, j)) w" by blast+
  have lt: "pos ?t < length (K ?t)" using room [of ?t] by simp
  have "laid_out [?e]"
    using place_aligned [OF 2(2) lt 2(4)] by (simp add: laid_out_def)
  moreover have "apart ?e e' \<and> alloc_id ?e \<noteq> alloc_id e'" if e': "e' \<in> set (walk_allocs i base K ?p w)" for e'
  proof
    have "within base K pos ?p ?e" by (auto simp: within_def Let_def)
    then show "apart ?e e'"
      by (rule within_apart [OF _ walk_allocs_within [OF e'] _ room 2(2)]) simp
    have "alloc_id e' \<in> set (map (\<lambda>(j, _). (i, j)) w)" using e' IH(2) by (metis imageI list.set_map)
    then show "alloc_id ?e \<noteq> alloc_id e'" using 2(5) by (force simp: alloc_id_def)
  qed
  ultimately have "laid_out ([?e] @ walk_allocs i base K ?p w)"
    using IH(1) by (intro laid_out_append) auto
  moreover have "alloc_id ?e = (i, j)" by (simp add: alloc_id_def)
  ultimately show ?case using IH(2) by (simp add: Let_def)
qed (simp add: laid_out_def)

lemma walk_allocs_dev: "e \<in> set (walk_allocs i base K pos w) \<Longrightarrow> al_dev e = i"
  by (induction i base K pos w rule: walk_allocs.induct) (auto simp: Let_def)

lemma walk_allocs_complete:
  assumes "\<And>t. drop (pos t) (K t) = map (\<lambda>(_, bar). req_index (bar_size bar) t) (filter (\<lambda>(_, bar). bar_type bar = t) w) @ R t"
    "(j, bar) \<in> set w"
  shows "\<exists>e\<in>set (walk_allocs i base K pos w). al_dev e = i \<and> al_bar e = j \<and> al_type e = bar_type bar \<and>
      al_size e = isz (bar_type bar) (req_index (bar_size bar) (bar_type bar))"
  using assms
proof (induction i base K pos w rule: walk_allocs.induct)
  case (2 i base K pos j' bar' w)
  let ?t = "bar_type bar'" and ?p = "pos(bar_type bar' := Suc (pos (bar_type bar')))"
  have dt: "drop (pos ?t) (K ?t) = req_index (bar_size bar') ?t # (map (\<lambda>(_, bar). req_index (bar_size bar) ?t)
      (filter (\<lambda>(_, bar). bar_type bar = ?t) w) @ R ?t)" using 2(2) [of ?t] by simp
  then have hd: "K ?t ! pos ?t = req_index (bar_size bar') ?t"
    by (metis drop_eq_Nil hd_drop_conv_nth list.distinct(1) list.sel(1) not_le)
  have dt2: "drop (Suc (pos ?t)) (K ?t) = map (\<lambda>(_, bar). req_index (bar_size bar) ?t)
      (filter (\<lambda>(_, bar). bar_type bar = ?t) w) @ R ?t"
    using arg_cong [OF dt, of tl] by (simp only: drop_Suc tl_drop list.sel(3))
  have tl: "drop (?p t) (K t) = map (\<lambda>(_, bar). req_index (bar_size bar) t) (filter (\<lambda>(_, bar). bar_type bar = t) w) @ R t" for t
    using 2(2) [of t] dt2 by (cases "t = ?t") simp_all
  show ?case
  proof (cases "(j, bar) = (j', bar')")
    case True
    then show ?thesis using hd by (simp add: Let_def)
  next
    case False
    then have m: "(j, bar) \<in> set w" using 2(3) by auto
    have "\<exists>e\<in>set (walk_allocs i base K ?p w). al_dev e = i \<and> al_bar e = j \<and> al_type e = bar_type bar \<and>
        al_size e = isz (bar_type bar) (req_index (bar_size bar) (bar_type bar))"
      by (rule 2(1) [OF refl _ m]) (rule tl)
    then show ?thesis by (simp add: Let_def)
  qed
qed simp

section \<open>Pass 2 of a bridge\<close>

lemma fits_index:
  assumes "fits sz t"
  shows "pci_size_to_index sz t = Some (req_index sz t)" "req_index sz t < slots"
  using assms by (auto simp: fits_def req_index_def)

lemma bridge_get_base_ok:
  assumes "\<And>u. cursor u (base u) (K u) (p u) (region b u st)" "p t < length (K t)"
    "K t ! p t = req_index (rg_size (region s t st)) t" "fits (rg_size (region s t st)) t"
    "b \<noteq> s" "b < length (busses st)" "s < length (busses st)"
  shows "\<exists>st'. bridge_get_base b s t st = Some st' \<and> same_sizes st st' \<and> io_log st' = io_log st \<and>
    (\<forall>u. cursor u (base u) (K u) ((p(t := Suc (p t))) u) (region b u st')) \<and>
    (\<forall>u. rg_base (region b u st') = rg_base (region b u st)) \<and>
    (\<forall>u. rg_base (region s u st') = (if u = t then of_nat (place t (base t) (K t) (p t)) else rg_base (region s u st))) \<and>
    (\<forall>x. x \<noteq> b \<longrightarrow> x \<noteq> s \<longrightarrow> busses st' ! x = busses st ! x)"
proof -
  let ?ad = "of_nat (place t (base t) (K t) (p t)) :: u32"
  have ix: "pci_size_to_index (rg_size (region s t st)) t = Some (K t ! p t)" using fits_index(1) [OF assms(4)] assms(3) by simp
  obtain s1 where s1: "pci_bios_bus_get_addr b t (rg_size (region s t st)) st = Some (?ad, s1)"
    "cursor t (base t) (K t) (Suc (p t)) (region b t s1)" "\<And>u. u \<noteq> t \<Longrightarrow> region b u s1 = region b u st"
    "\<And>x. x \<noteq> b \<Longrightarrow> busses s1 ! x = busses st ! x" "same_sizes st s1" "io_log s1 = io_log st"
    "\<And>u. rg_base (region b u s1) = rg_base (region b u st)"
    using bus_get_addr_ok [OF assms(1) [of t] assms(2) ix assms(6)] by metis
  let ?s2 = "upd_region s t (\<lambda>rg. rg\<lparr>rg_base := ?ad\<rparr>) s1"
  have ls: "s < length (busses s1)" using s1(5) assms(7) by (simp add: same_sizes_def)
  have r: "region x u ?s2 = (if x = s \<and> u = t then (region s t s1)\<lparr>rg_base := ?ad\<rparr> else region x u s1)" for x u
    by (rule region_upd [OF ls])
  have rs: "region s u s1 = region s u st" for u using s1(4) [of s] assms(5) by (simp add: region_def)
  have ss: "same_sizes s1 ?s2" by (simp add: same_sizes_def same_stats_def r)
  have "bridge_get_base b s t st = Some ?s2" using s1(1) by (simp add: bridge_get_base_def)
  moreover have "cursor u (base u) (K u) ((p(t := Suc (p t))) u) (region b u ?s2)" for u
    using s1(2,3) assms(1,5) by (auto simp: r)
  moreover have "rg_base (region b u ?s2) = rg_base (region b u st)" for u using s1(7) assms(5) by (simp add: r)
  moreover have "rg_base (region s u ?s2) = (if u = t then ?ad else rg_base (region s u st))" for u
    by (simp add: r rs)
  moreover have "busses ?s2 ! x = busses st ! x" if "x \<noteq> b" "x \<noteq> s" for x
    using upd_region_other [OF that(2)] s1(4) [OF that(1)] by simp
  moreover have "io_log ?s2 = io_log st" using s1(6) by (simp add: upd_region_def)
  ultimately show ?thesis using same_sizes_trans [OF s1(5) ss] by blast
qed

lemma bridge_get_bases_ok:
  assumes "\<And>u. cursor u (base u) (K u) (length (P u)) (region b u st)"
    "\<And>u. K u = P u @ req_index (rg_size (region s u st)) u # R u" "\<And>u. fits (rg_size (region s u st)) u"
    "b \<noteq> s" "b < length (busses st)" "s < length (busses st)"
  shows "\<exists>st'. bridge_get_bases b s st = Some st' \<and> same_sizes st st' \<and> io_log st' = io_log st \<and>
    (\<forall>u. cursor u (base u) (K u) (Suc (length (P u))) (region b u st')) \<and>
    (\<forall>u. rg_base (region b u st') = rg_base (region b u st)) \<and>
    (\<forall>u. rg_base (region s u st') = of_nat (place u (base u) (K u) (length (P u)))) \<and>
    (\<forall>x. x \<noteq> b \<longrightarrow> x \<noteq> s \<longrightarrow> busses st' ! x = busses st ! x)"
proof -
  let ?IO = PCI_REGION_TYPE_IO and ?MEM = PCI_REGION_TYPE_MEM and ?PRE = PCI_REGION_TYPE_PREFMEM
  let ?p0 = "\<lambda>u. length (P u)" let ?p1 = "?p0(?IO := Suc (?p0 ?IO))"
  let ?p2 = "?p1(?MEM := Suc (?p1 ?MEM))" let ?p3 = "?p2(?PRE := Suc (?p2 ?PRE))"
  have lt: "?p0 u < length (K u)" and nth: "K u ! ?p0 u = req_index (rg_size (region s u st)) u" for u
    by (simp_all add: assms(2))
  have sz: "rg_size (region x u st') = rg_size (region x u st)" "length (busses st') = length (busses st)"
    if "same_sizes st st'" for x u and st st' :: pci_state using that by (simp_all add: same_sizes_def)
  obtain s1 where s1: "bridge_get_base b s ?IO st = Some s1" "same_sizes st s1" "io_log s1 = io_log st"
    "\<And>u. cursor u (base u) (K u) (?p1 u) (region b u s1)" "\<And>u. rg_base (region b u s1) = rg_base (region b u st)"
    "\<And>u. rg_base (region s u s1) = (if u = ?IO then of_nat (place ?IO (base ?IO) (K ?IO) (?p0 ?IO)) else rg_base (region s u st))"
    "\<And>x. x \<noteq> b \<Longrightarrow> x \<noteq> s \<Longrightarrow> busses s1 ! x = busses st ! x"
    using bridge_get_base_ok [OF assms(1) lt nth assms(3-6)] by blast
  have "?p1 ?MEM < length (K ?MEM)" "K ?MEM ! ?p1 ?MEM = req_index (rg_size (region s ?MEM s1)) ?MEM"
    "fits (rg_size (region s ?MEM s1)) ?MEM" "b < length (busses s1)" "s < length (busses s1)"
    using lt nth assms(3,5,6) sz [OF s1(2)] by simp_all
  from bridge_get_base_ok [OF s1(4) this(1-3) assms(4) this(4,5)]
  obtain s2 where s2: "bridge_get_base b s ?MEM s1 = Some s2" "same_sizes s1 s2" "io_log s2 = io_log s1"
    "\<And>u. cursor u (base u) (K u) (?p2 u) (region b u s2)" "\<And>u. rg_base (region b u s2) = rg_base (region b u s1)"
    "\<And>u. rg_base (region s u s2) = (if u = ?MEM then of_nat (place ?MEM (base ?MEM) (K ?MEM) (?p1 ?MEM)) else rg_base (region s u s1))"
    "\<And>x. x \<noteq> b \<Longrightarrow> x \<noteq> s \<Longrightarrow> busses s2 ! x = busses s1 ! x"
    by blast
  note ss2 = same_sizes_trans [OF s1(2) s2(2)]
  have "?p2 ?PRE < length (K ?PRE)" "K ?PRE ! ?p2 ?PRE = req_index (rg_size (region s ?PRE s2)) ?PRE"
    "fits (rg_size (region s ?PRE s2)) ?PRE" "b < length (busses s2)" "s < length (busses s2)"
    using lt nth assms(3,5,6) sz [OF ss2] by simp_all
  from bridge_get_base_ok [OF s2(4) this(1-3) assms(4) this(4,5)]
  obtain s3 where s3: "bridge_get_base b s ?PRE s2 = Some s3" "same_sizes s2 s3" "io_log s3 = io_log s2"
    "\<And>u. cursor u (base u) (K u) (?p3 u) (region b u s3)" "\<And>u. rg_base (region b u s3) = rg_base (region b u s2)"
    "\<And>u. rg_base (region s u s3) = (if u = ?PRE then of_nat (place ?PRE (base ?PRE) (K ?PRE) (?p2 ?PRE)) else rg_base (region s u s2))"
    "\<And>x. x \<noteq> b \<Longrightarrow> x \<noteq> s \<Longrightarrow> busses s3 ! x = busses s2 ! x"
    by blast
  have p3: "?p3 u = Suc (length (P u))" for u by (cases u) simp_all
  have "bridge_get_bases b s st = Some s3" by (simp add: bridge_get_bases_def s1(1) s2(1) s3(1))
  moreover have "cursor u (base u) (K u) (Suc (length (P u))) (region b u s3)" for u using s3(4) [of u] by (simp only: p3)
  moreover have "rg_base (region s u s3) = of_nat (place u (base u) (K u) (length (P u)))" for u
    by (cases u) (simp_all add: s1(6) s2(6) s3(6))
  ultimately show ?thesis
    using same_sizes_trans [OF ss2 s3(2)] s1(3,5,7) s2(3,5,7) s3(3,5,7) by (intro exI [of _ s3]) simp
qed

lemma init_bases_region:
  assumes "s < length (busses st)"
  shows "region x u (pci_bios_init_bus_bases s st) = (if x = s then region_init_bases u (region s u st) else region x u st)"
  using assms by (cases u) (simp_all add: pci_bios_init_bus_bases_def Let_def region_upd)

lemma init_bases_ok:
  assumes "s < length (busses st)" "\<And>u. reserved u (ks u) (region s u st)" "\<And>u. total u (ks u) < 2 ^ 32"
  shows "same_sizes st (pci_bios_init_bus_bases s st)" "io_log (pci_bios_init_bus_bases s st) = io_log st"
    "\<And>u. cursor u (unat (rg_base (region s u st))) (ks u) 0 (region s u (pci_bios_init_bus_bases s st))"
    "\<And>x u. rg_base (region x u (pci_bios_init_bus_bases s st)) = rg_base (region x u st)"
    "\<And>x. x \<noteq> s \<Longrightarrow> busses (pci_bios_init_bus_bases s st) ! x = busses st ! x"
proof -
  note r = init_bases_region [OF assms(1)]
  show c: "cursor u (unat (rg_base (region s u st))) (ks u) 0 (region s u (pci_bios_init_bus_bases s st))" for u
    using init_bases_cursor [OF assms(2,3)] by (simp add: r)
  show "same_sizes st (pci_bios_init_bus_bases s st)"
    using assms(2) c unfolding same_sizes_def same_stats_def r
    by (auto simp: pci_bios_init_bus_bases_def Let_def region_init_bases_def cursor_def reserved_def r)
  show "io_log (pci_bios_init_bus_bases s st) = io_log st"
    by (simp add: pci_bios_init_bus_bases_def Let_def upd_region_def)
  show "rg_base (region x u (pci_bios_init_bus_bases s st)) = rg_base (region x u st)" for x u
    by (simp add: r region_init_bases_def)
  show "busses (pci_bios_init_bus_bases s st) ! x = busses st ! x" if "x \<noteq> s" for x
    using that by (simp add: pci_bios_init_bus_bases_def Let_def upd_region_other)
qed

lemma bridge_windows_frame [simp]:
  "PCIDevices (bridge_windows b s st) = PCIDevices st" "busses (bridge_windows b s st) = busses st"
  "busses_count (bridge_windows b s st) = busses_count st" "region x t (bridge_windows b s st) = region x t st"
  "cfg_writes (io_log (bridge_windows b s st)) =
     (cfg_key b PCI_PREF_LIMIT_UPPER32, 0) # (cfg_key b PCI_PREF_BASE_UPPER32, 0) # cfg_writes (io_log st)"
  by (simp_all add: bridge_windows_def Let_def region_def)

text \<open>The 8-bit and 16-bit registers written for the bridge \<open>b\<close> of bus \<open>s\<close>.\<close>

definition window_writes :: "u16 \<Rightarrow> nat \<Rightarrow> pci_state \<Rightarrow> ((u32 \<times> u16) \<times> u32) list" where
  "window_writes b s st =
     (let io = region s PCI_REGION_TYPE_IO st; m = region s PCI_REGION_TYPE_MEM st; p = region s PCI_REGION_TYPE_PREFMEM st in
      [(reg_key b PCI_PREF_MEMORY_LIMIT, ucast (ucast (drop_bit 16 (region_limit p)) :: u16)),
       (reg_key b PCI_PREF_MEMORY_BASE, ucast (ucast (drop_bit 16 (rg_base p)) :: u16)),
       (reg_key b PCI_MEMORY_LIMIT, ucast (ucast (drop_bit 16 (region_limit m)) :: u16)),
       (reg_key b PCI_MEMORY_BASE, ucast (ucast (drop_bit 16 (rg_base m)) :: u16)),
       (reg_key b PCI_IO_LIMIT_UPPER16, 0),
       (reg_key b PCI_IO_LIMIT, ucast (ucast (drop_bit 8 (region_limit io)) :: u8)),
       (reg_key b PCI_IO_BASE_UPPER16, 0),
       (reg_key b PCI_IO_BASE, ucast (ucast (drop_bit 8 (rg_base io)) :: u8))])"

lemmas bridge_regs = PCI_IO_BASE_def PCI_IO_LIMIT_def PCI_IO_BASE_UPPER16_def PCI_IO_LIMIT_UPPER16_def PCI_MEMORY_BASE_def
  PCI_MEMORY_LIMIT_def PCI_PREF_MEMORY_BASE_def PCI_PREF_MEMORY_LIMIT_def

lemma bridge_windows_narrow:
  "narrow_writes (io_log (bridge_windows b s st)) = window_writes b s st @ narrow_writes (io_log st)"
  by (simp add: bridge_windows_def window_writes_def Let_def region_def reg_key_def bridge_regs PCI_IO_SHIFT_def
    PCI_MEMORY_SHIFT_def PCI_PREF_MEMORY_SHIFT_def)

lemma window_writes_cong:
  "(\<And>t. rg_base (region s t st') = rg_base (region s t st)) \<Longrightarrow> (\<And>t. rg_size (region s t st') = rg_size (region s t st)) \<Longrightarrow>
   window_writes b s st' = window_writes b s st"
  by (simp add: window_writes_def region_limit_def Let_def)

text \<open>The window of the bus behind a bridge lies in the place of the request for it, and is aligned.\<close>

lemma window_room:
  assumes "window_ok t s st" "reserved t ks (region s t st)" "total t ks < 2 ^ 32" "indices K" "q < length K"
    "K ! q = req_index (rg_size (region s t st)) t" "\<And>x. x \<in> set K \<Longrightarrow> isz t x dvd base" "base + total t K \<le> 2 ^ 32"
  shows "total t ks \<le> unat (rg_size (region s t st))" "unat (rg_size (region s t st)) \<le> isz t (K ! q)"
    "place t base K q < 2 ^ 32" "place t base K q + total t ks \<le> 2 ^ 32"
    "\<And>x. x \<in> set ks \<Longrightarrow> isz t x dvd place t base K q"
proof -
  let ?sz = "rg_size (region s t st)"
  have w: "fits ?sz t" "unat (rg_sum (region s t st)) \<le> unat ?sz" using assms(1) by (simp_all add: window_ok_def)
  obtain j where j: "unat ?sz = 2 ^ j" using assms(1) by (auto simp: window_ok_def)
  have "rg_sum (region s t st) = of_nat (total t ks)" using assms(2) by (simp add: reserved_def)
  then have "unat (rg_sum (region s t st)) = total t ks" using assms(3) by (simp add: unsigned_of_nat take_bit_nat_eq_self)
  then show tot: "total t ks \<le> unat ?sz" using w(2) by simp
  show le: "unat ?sz \<le> isz t (K ! q)"
    using size_to_index_covers [OF fits_index(1) [OF w(1)] j] assms(6) by simp
  have pb: "place t base K q + isz t (K ! q) \<le> 2 ^ 32" using place_bounds(2) [OF assms(4,5), of t base] assms(8) by simp
  moreover have "0 < isz t (K ! q)" by simp
  ultimately show "place t base K q < 2 ^ 32" by linarith
  show "place t base K q + total t ks \<le> 2 ^ 32" using pb tot le by linarith
  have al: "isz t (K ! q) dvd place t base K q" by (rule place_aligned [OF assms(4,5,7)])
  have "(2 :: nat) ^ j dvd isz t (K ! q)"
    using le j unfolding isz_def by (simp add: le_imp_power_dvd)
  show "isz t x dvd place t base K q" if "x \<in> set ks" for x
  proof -
    have "isz t x \<le> total t ks" unfolding total_def using that by (intro member_le_sum_list) simp_all
    then have "isz t x \<le> isz t (K ! q)" using tot le by linarith
    then have "isz t x dvd isz t (K ! q)" unfolding isz_def by (simp add: le_imp_power_dvd)
    then show ?thesis using al by (rule dvd_trans)
  qed
qed

section \<open>Pass 2 of a tree of buses\<close>

text \<open>The devices the pass visits from index \<open>i\<close> of bus \<open>b\<close> on.\<close>

definition visited :: "topology \<Rightarrow> nat \<Rightarrow> nat \<Rightarrow> nat \<Rightarrow> bool" where
  "visited N b i k \<longleftrightarrow> k < length N \<and> (i \<le> k \<and> fst (N ! k) = b \<or> fst (N ! k) \<in> sub N b i)"

text \<open>The allocation is inside the window of bus \<open>x\<close>.\<close>

definition in_window :: "pci_state \<Rightarrow> nat \<Rightarrow> alloc \<Rightarrow> bool" where
  "in_window st x e \<longleftrightarrow> (let rg = region x (al_type e) st in
     unat (rg_base rg) \<le> al_addr e \<and> al_addr e + al_size e \<le> unat (rg_base rg) + unat (rg_size rg))"

text \<open>Every register the loop visits at device \<open>k\<close> is given an address, and one with a size for which
  there is an index.\<close>

definition given :: "pci_state \<Rightarrow> alloc list \<Rightarrow> nat \<Rightarrow> bool" where
  "given st as k \<longleftrightarrow> (\<forall>(j, bar)\<in>set (bar_walk 0 (bars (PCIDevices st ! k))). \<exists>e\<in>set as. al_dev e = k \<and> al_bar e = j \<and>
     al_type e = bar_type bar \<and> al_size e = isz (bar_type bar) (req_index (bar_size bar) (bar_type bar)))"

text \<open>Device \<open>k\<close> is a bridge to bus \<open>s\<close> that the pass visits; the registers written for these bridges.\<close>

definition bridge_at :: "topology \<Rightarrow> nat \<Rightarrow> nat \<Rightarrow> nat \<Rightarrow> nat \<Rightarrow> bool" where
  "bridge_at N b i k s \<longleftrightarrow> visited N b i k \<and> snd (N ! k) = Some s"

definition window_set :: "nat \<Rightarrow> nat \<Rightarrow> pci_state \<Rightarrow> ((u32 \<times> u16) \<times> u32) set" where
  "window_set b i st = {w. \<exists>k s. bridge_at (topo st) b i k s \<and> w \<in> set (window_writes (bdf (PCIDevices st ! k)) s st)}"

definition uppers :: "u16 \<Rightarrow> (u32 \<times> u32) list" where
  "uppers b = [(cfg_key b PCI_PREF_LIMIT_UPPER32, 0), (cfg_key b PCI_PREF_BASE_UPPER32, 0)]"

definition mapped :: "nat \<Rightarrow> nat \<Rightarrow> (pci_region_type \<Rightarrow> nat) \<Rightarrow> (pci_region_type \<Rightarrow> nat list) \<Rightarrow> (pci_region_type \<Rightarrow> nat) \<Rightarrow>
    pci_state \<Rightarrow> pci_state \<Rightarrow> alloc list \<Rightarrow> (u32 \<times> u32) list \<Rightarrow> bool" where
  "mapped b i base K pos st st' as W \<longleftrightarrow>
     same_sizes st st' \<and> (\<forall>x. x \<noteq> b \<longrightarrow> x \<notin> sub (topo st) b i \<longrightarrow> busses st' ! x = busses st ! x) \<and>
     (\<forall>t. rg_base (region b t st') = rg_base (region b t st)) \<and>
     cfg_writes (io_log st') = W @ cfg_writes (io_log st) \<and> served (PCIDevices st) as W \<and> laid_out as \<and>
     (\<forall>e\<in>set as. within base K pos (\<lambda>t. length (K t)) e \<and> visited (topo st) b i (al_dev e)) \<and>
     (\<forall>k. visited (topo st) b i k \<longrightarrow> pclass (PCIDevices st ! k) \<noteq> PCI_CLASS_BRIDGE_PCI \<longrightarrow> given st as k) \<and>
     (\<forall>x\<in>sub (topo st) b i. \<forall>e\<in>set as. reach (topo st) x (fst (topo st ! al_dev e)) \<longrightarrow> in_window st' x e) \<and>
     (\<exists>N. narrow_writes (io_log st') = N @ narrow_writes (io_log st) \<and> set N = window_set b i st') \<and>
     (\<forall>k s. bridge_at (topo st) b i k s \<longrightarrow> set (uppers (bdf (PCIDevices st ! k))) \<subseteq> set W) \<and>
     (\<forall>x\<in>sub (topo st) b i. \<forall>t. unat (rg_base (region x t st')) + unat (rg_size (region x t st')) \<le> base t + total t (K t))"

lemma mapped_windows:
  assumes "mapped b i base K pos st st' as W"
  obtains N where "narrow_writes (io_log st') = N @ narrow_writes (io_log st)" "set N = window_set b i st'"
    "\<And>k s. bridge_at (topo st) b i k s \<Longrightarrow> set (uppers (bdf (PCIDevices st ! k))) \<subseteq> set W"
    "\<And>x t. x \<in> sub (topo st) b i \<Longrightarrow> unat (rg_base (region x t st')) + unat (rg_size (region x t st')) \<le> base t + total t (K t)"
proof -
  obtain N where "narrow_writes (io_log st') = N @ narrow_writes (io_log st)" "set N = window_set b i st'"
    using assms unfolding mapped_def by blast
  then show thesis using assms that unfolding mapped_def by blast
qed

lemma laid_out_Nil [simp]: "laid_out []"
  by (simp add: laid_out_def)

lemma mapped_end: "length (PCIDevices st) \<le> i \<Longrightarrow> mapped b i base K pos st st [] []"
  by (auto simp: mapped_def served_Nil visited_def sub_end window_set_def bridge_at_def)

lemma visited_skip:
  assumes "i < length N" "\<And>s. N ! i \<noteq> (b, Some s)"
  shows "visited N b i k \<longleftrightarrow> k = i \<and> fst (N ! i) = b \<or> visited N b (Suc i) k"
  using assms(1) sub_skip [OF assms, of "fst (N ! k)"] unfolding visited_def
  by (metis Suc_leD Suc_leI le_neq_implies_less order_refl)

lemma visited_child:
  assumes "i < length N" "N ! i = (b, Some s)" "tree N n"
  shows "visited N b i k \<longleftrightarrow> k = i \<or> visited N s 0 k \<or> visited N b (Suc i) k"
proof (cases "k = i")
  case False
  then have "i \<le> k \<longleftrightarrow> Suc i \<le> k" by linarith
  then show ?thesis
    using False unfolding visited_def sub_child [OF assms(1,2)] reach_sub by blast
next
  case True
  then show ?thesis unfolding visited_def using assms(1,2) by simp
qed

lemma bridge_skip:
  assumes "i < length N" "\<And>s. N ! i \<noteq> (b, Some s)"
  shows "bridge_at N b i k s \<longleftrightarrow> bridge_at N b (Suc i) k s"
  using visited_skip [OF assms, of k] assms(2) unfolding bridge_at_def by (metis prod.collapse)

lemma bridge_child:
  assumes "i < length N" "N ! i = (b, Some s)" "tree N n"
  shows "bridge_at N b i k x \<longleftrightarrow> k = i \<and> x = s \<or> bridge_at N s 0 k x \<or> bridge_at N b (Suc i) k x"
  using visited_child [OF assms, of k] assms(2) unfolding bridge_at_def by auto

lemma bridge_at_sub: "bridge_at N b i k s \<Longrightarrow> s \<in> sub N b i"
  unfolding bridge_at_def visited_def
proof (elim conjE disjE)
  assume k: "k < length N" "snd (N ! k) = Some s" "fst (N ! k) \<in> sub N b i"
  then obtain j c where j: "i \<le> j" "j < length N" "N ! j = (b, Some c)" "reach N c (fst (N ! k))" by (auto simp: sub_member)
  have "N ! k = (fst (N ! k), Some s)" using k(2) by (simp add: prod_eq_iff)
  then have "reach N c s" using rtranclp.rtrancl_into_rtrancl [OF j(4)] edge_nth [OF k(1)] by blast
  then show ?thesis using j(1-3) unfolding sub_member by blast
next
  assume "k < length N" "snd (N ! k) = Some s" "i \<le> k" "fst (N ! k) = b"
  then show ?thesis unfolding sub_member by (intro exI [of _ k] exI [of _ s]) (simp add: prod_eq_iff)
qed

lemma window_set_cong:
  assumes "topo st' = topo st" "PCIDevices st' = PCIDevices st"
    "\<And>k s t. bridge_at (topo st) b i k s \<Longrightarrow> rg_base (region s t st') = rg_base (region s t st) \<and> rg_size (region s t st') = rg_size (region s t st)"
  shows "window_set b i st' = window_set b i st"
proof -
  have "window_writes d s st' = window_writes d s st" if "bridge_at (topo st) b i k s" for d k s
    by (rule window_writes_cong) (use assms(3) [OF that] in simp_all)
  then show ?thesis unfolding window_set_def assms(1,2) by (intro Collect_cong) metis
qed

lemma mapped_skip:
  assumes "mapped b (Suc i) base K pos st st' as W" "i < length (PCIDevices st)" "\<And>s. topo st ! i \<noteq> (b, Some s)"
    "fst (topo st ! i) = b \<Longrightarrow> pclass (PCIDevices st ! i) = PCI_CLASS_BRIDGE_PCI"
  shows "mapped b i base K pos st st' as W"
proof -
  have l: "i < length (topo st)" using assms(2) by simp
  have sub: "sub (topo st) b i = sub (topo st) b (Suc i)" using sub_skip [OF l assms(3)] by blast
  have "visited (topo st) b (Suc i) k" if "visited (topo st) b i k" "pclass (PCIDevices st ! k) \<noteq> PCI_CLASS_BRIDGE_PCI" for k
    using that assms(4) visited_skip [OF l assms(3), of k] by auto
  moreover have "visited (topo st) b (Suc i) k \<Longrightarrow> visited (topo st) b i k" for k
    using visited_skip [OF l assms(3), of k] by simp
  moreover have "topo st' = topo st" using assms(1) same_sizes_reqs(1) unfolding mapped_def by blast
  then have "window_set b i st' = window_set b (Suc i) st'" using bridge_skip [OF l assms(3)] by (simp add: window_set_def)
  ultimately show ?thesis using assms(1) bridge_skip [OF l assms(3)] unfolding mapped_def sub by simp
qed

lemma given_mono: "given st as k \<Longrightarrow> set as \<subseteq> set as' \<Longrightarrow> given st as' k"
  unfolding given_def by fast

text \<open>A device that is not a bridge.\<close>

lemma mapped_bars:
  assumes "same_sizes st s1" "\<And>x. x \<noteq> b \<Longrightarrow> busses s1 ! x = busses st ! x" "\<And>t. rg_base (region b t s1) = rg_base (region b t st)"
    "cfg_writes (io_log s1) = W1 @ cfg_writes (io_log st)" "served (PCIDevices st) as1 W1"
    "as1 = walk_allocs i base K pos (bar_walk 0 (bars (PCIDevices st ! i)))"
    "narrow_writes (io_log s1) = narrow_writes (io_log st)"
    and m: "mapped b (Suc i) base K (\<lambda>t. pos t + length (bar_reqs t 0 (bars (PCIDevices st ! i)))) s1 st' as2 W2"
    and i: "i < length (PCIDevices st)" "topo st ! i = (b, None)" "tree (topo st) n"
    and K: "\<And>t. indices (K t)" "\<And>t x. x \<in> set (K t) \<Longrightarrow> isz t x dvd base t"
      "\<And>t. drop (pos t) (K t) = bar_reqs t 0 (bars (PCIDevices st ! i)) @ R t" "\<And>t. pos t \<le> length (K t)"
  shows "mapped b i base K pos st st' (as1 @ as2) (W2 @ W1)"
proof -
  let ?bs = "bars (PCIDevices st ! i)" let ?w = "bar_walk 0 ?bs" let ?N = "topo st"
  have l: "i < length ?N" using i(1) by simp
  have nb: "?N ! i \<noteq> (b, Some s)" for s using i(2) by simp
  have N: "topo s1 = ?N" "PCIDevices s1 = PCIDevices st"
    using same_sizes_reqs(1) [OF assms(1)] assms(1) by (simp_all add: same_sizes_def)
  have cnt: "type_count t ?w = length (bar_reqs t 0 ?bs)" for t by (simp add: bar_reqs_def)
  have room: "pos t + type_count t ?w \<le> length (K t)" for t
    using arg_cong [OF K(3) [of t], of length] K(4) [of t] unfolding cnt by simp
  have sub: "sub ?N b i = sub ?N b (Suc i)" using sub_skip [OF l nb] by blast
  have vis: "visited ?N b i k \<longleftrightarrow> k = i \<or> visited ?N b (Suc i) k" for k
    using visited_skip [OF l nb, of k] i(2) by simp
  have new: "\<not> visited ?N b (Suc i) i" using i(2) sub_above [OF i(3)] by (auto simp: visited_def)
  have lay1: "laid_out as1"
    unfolding assms(6) using walk_allocs_laid_out [OF K(1) room K(2) bar_walk_distinct] by blast
  have in1: "within base K pos (\<lambda>t. pos t + length (bar_reqs t 0 ?bs)) e \<and> al_dev e = i" if "e \<in> set as1" for e
    using walk_allocs_within [OF that [unfolded assms(6)]] walk_allocs_dev [OF that [unfolded assms(6)]] unfolding cnt by simp
  have in2: "within base K (\<lambda>t. pos t + length (bar_reqs t 0 ?bs)) (\<lambda>t. length (K t)) e \<and> visited ?N b (Suc i) (al_dev e)"
    if "e \<in> set as2" for e using m that by (simp add: mapped_def N)
  have hi: "pos t + length (bar_reqs t 0 ?bs) \<le> length (K t)" for t using room [of t] unfolding cnt .
  have all: "within base K pos (\<lambda>t. length (K t)) e \<and> visited ?N b i (al_dev e)" if "e \<in> set (as1 @ as2)" for e
  proof (cases "e \<in> set as1")
    case True
    have "within base K pos (\<lambda>t. length (K t)) e" by (rule within_mono [OF conjunct1 [OF in1 [OF True]] _ hi]) simp
    then show ?thesis using in1 [OF True] vis by simp
  next
    case False
    then have "e \<in> set as2" using that by simp
    note in2 [OF this]
    moreover from this have "within base K pos (\<lambda>t. length (K t)) e" by (elim conjE within_mono) simp_all
    ultimately show ?thesis using vis by simp
  qed
  have lay: "laid_out (as1 @ as2)"
  proof (rule laid_out_append [OF lay1])
    show "laid_out as2" using m by (simp add: mapped_def)
    show "apart e e' \<and> alloc_id e \<noteq> alloc_id e'" if "e \<in> set as1" "e' \<in> set as2" for e e'
    proof
      show "apart e e'" by (rule within_apart [OF conjunct1 [OF in1 [OF that(1)]] conjunct1 [OF in2 [OF that(2)]] _ _ K(1)]) simp_all
      have "al_dev e \<noteq> al_dev e'" using in1 [OF that(1)] in2 [OF that(2)] new by auto
      then show "alloc_id e \<noteq> alloc_id e'" by (simp add: alloc_id_def)
    qed
  qed
  have here: "given st (as1 @ as2) i"
  proof (rule given_mono [of _ as1])
    have "drop (pos t) (K t) = map (\<lambda>(_, bar). req_index (bar_size bar) t) (filter (\<lambda>(_, bar). bar_type bar = t) ?w) @ R t" for t
      using K(3) [of t] unfolding bar_reqs_def .
    from walk_allocs_complete [OF this] show "given st as1 i" unfolding given_def assms(6) by blast
  qed simp
  show ?thesis
    unfolding mapped_def
  proof (intro conjI allI impI ballI)
    show "same_sizes st st'" using m same_sizes_trans [OF assms(1)] by (simp add: mapped_def)
    show "busses st' ! x = busses st ! x" if "x \<noteq> b" "x \<notin> sub ?N b i" for x
      using m that assms(2) by (simp add: mapped_def N sub)
    show "rg_base (region b t st') = rg_base (region b t st)" for t using m assms(3) by (simp add: mapped_def)
    show "cfg_writes (io_log st') = (W2 @ W1) @ cfg_writes (io_log st)" using m assms(4) by (simp add: mapped_def)
    show "served (PCIDevices st) (as1 @ as2) (W2 @ W1)"
      using m served_append [OF assms(5)] by (simp add: mapped_def N)
      have "same_sizes s1 st'" using m by (simp add: mapped_def)
      then have "topo st' = ?N" using same_sizes_reqs(1) N(1) by metis
      then have ws: "window_set b i st' = window_set b (Suc i) st'" using bridge_skip [OF l nb] by (simp add: window_set_def)
      show "\<exists>Nw. narrow_writes (io_log st') = Nw @ narrow_writes (io_log st) \<and> set Nw = window_set b i st'"
        using mapped_windows [OF m] assms(7) ws by metis
      show "set (uppers (bdf (PCIDevices st ! k))) \<subseteq> set (W2 @ W1)" if "bridge_at ?N b i k s" for k s
        using mapped_windows [OF m] that bridge_skip [OF l nb] unfolding N by (metis le_supI1 set_append)
      show "unat (rg_base (region x t st')) + unat (rg_size (region x t st')) \<le> base t + total t (K t)"
        if "x \<in> sub ?N b i" for x t
        using mapped_windows [OF m] that unfolding N sub by metis
    show "laid_out (as1 @ as2)" by (rule lay)
    show "within base K pos (\<lambda>t. length (K t)) e" "visited ?N b i (al_dev e)" if "e \<in> set (as1 @ as2)" for e
      using all [OF that] by simp_all
    show "given st (as1 @ as2) k" if "visited ?N b i k" "pclass (PCIDevices st ! k) \<noteq> PCI_CLASS_BRIDGE_PCI" for k
    proof (cases "k = i")
      case False
      then have "given s1 as2 k" using m that vis by (simp add: mapped_def N)
      then have "given st as2 k" by (simp add: given_def N)
      then show ?thesis by (rule given_mono) simp
    qed (use here in simp)
    show "in_window st' x e" if "x \<in> sub ?N b i" "e \<in> set (as1 @ as2)" "reach ?N x (fst (?N ! al_dev e))" for x e
    proof (cases "e \<in> set as1")
      case True
      then have "reach ?N x b" using that(3) in1 i(2) by simp
      then show ?thesis using reach_le [OF _ i(3)] sub_above [OF i(3) that(1)] by fastforce
    next
      case False
      then show ?thesis using m that by (simp add: mapped_def N sub)
    qed
  qed
qed

text \<open>A bridge: first the devices of the bus behind it, inside its window.\<close>

lemma mapped_bridge:
  assumes "same_sizes st s2" "\<And>x. x \<noteq> b \<Longrightarrow> x \<noteq> s \<Longrightarrow> busses s2 ! x = busses st ! x"
    "\<And>t. rg_base (region b t s2) = rg_base (region b t st)" "\<And>t. rg_base (region s t s2) = of_nat (c t)"
    "cfg_writes (io_log s2) = W0 @ cfg_writes (io_log st)" "served (PCIDevices st) [] W0"
    "narrow_writes (io_log s2) = window_writes (bdf (PCIDevices st ! i)) s s2 @ narrow_writes (io_log st)"
    "W0 = uppers (bdf (PCIDevices st ! i))"
    and mc: "mapped s 0 c Ks (\<lambda>_. 0) s2 s3 as1 W1" and m: "mapped b (Suc i) base K (\<lambda>t. Suc (pos t)) s3 st' as2 W2"
    and i: "i < length (PCIDevices st)" "topo st ! i = (b, Some s)" "tree (topo st) n"
    and K: "\<And>t. indices (K t)" "\<And>t. pos t < length (K t)" "\<And>t. indices (Ks t)"
    and c: "\<And>t. c t = place t (base t) (K t) (pos t)" "\<And>t. c t < 2 ^ 32"
    and sz: "\<And>t. total t (Ks t) \<le> unat (rg_size (region s t st))" "\<And>t. unat (rg_size (region s t st)) \<le> isz t (K t ! pos t)"
  shows "mapped b i base K pos st st' (as1 @ as2) (W2 @ W1 @ W0)"
proof -
  let ?N = "topo st"
  have l: "i < length ?N" using i(1) by simp
  have e: "edge ?N b s" by (rule edge_nth [OF l i(2)])
  have bs: "b < s" "s < n" using edge_less [OF i(3) e] by simp_all
  have N2: "topo s2 = ?N" "PCIDevices s2 = PCIDevices st"
    using same_sizes_reqs(1) [OF assms(1)] assms(1) by (simp_all add: same_sizes_def)
  have ss3: "same_sizes st s3" using mc same_sizes_trans [OF assms(1)] by (simp add: mapped_def)
  then have N3: "topo s3 = ?N" "PCIDevices s3 = PCIDevices st"
    using same_sizes_reqs(1) [OF ss3] by (simp_all add: same_sizes_def)
  have sst: "same_sizes st st'" using m same_sizes_trans [OF ss3] by (simp add: mapped_def)
  note sub = sub_child [OF l i(2)] note vis = visited_child [OF l i(2,3)] note out = sub_out [OF i(3) l i(2)]
  have reach: "reach ?N s x \<longleftrightarrow> x = s \<or> x \<in> sub ?N s 0" for x by (rule reach_sub)
  have in1: "within c Ks (\<lambda>_. 0) (\<lambda>t. length (Ks t)) e" "visited ?N s 0 (al_dev e)" "reach ?N s (fst (?N ! al_dev e))"
    if "e \<in> set as1" for e
    using mc that by (auto simp: mapped_def N2 visited_def reach)
  have in2: "within base K (\<lambda>t. Suc (pos t)) (\<lambda>t. length (K t)) e" "visited ?N b (Suc i) (al_dev e)" if "e \<in> set as2" for e
    using m that by (simp_all add: mapped_def N3)
  have out2: "\<not> reach ?N s (fst (?N ! al_dev e))" if "e \<in> set as2" for e
    using in2(2) [OF that] out [of "fst (?N ! al_dev e)"] by (auto simp: visited_def)
  have bounds: "c t \<le> al_addr e" "al_addr e + al_size e \<le> c t + unat (rg_size (region s t st))"
    if te: "e \<in> set as1" "t = al_type e" for e t
  proof -
    obtain q where q: "q < length (Ks t)" "place t (c t) (Ks t) q \<le> al_addr e"
        "al_addr e + al_size e \<le> place t (c t) (Ks t) q + isz t (Ks t ! q)"
      using in1(1) [OF te(1)] te(2) by (auto simp: within_def Let_def)
    show "c t \<le> al_addr e" "al_addr e + al_size e \<le> c t + unat (rg_size (region s t st))"
      using place_bounds [OF K(3) q(1), where base = "c t" and t = t] q(2,3) sz(1) [of t] by - linarith+
  qed
  have up: "within base K pos (\<lambda>t. Suc (pos t)) e" if "e \<in> set as1" for e
    unfolding within_def Let_def
    using bounds [OF that refl] sz(2) [of "al_type e"] c(1) [of "al_type e"] by (intro exI [of _ "pos (al_type e)"]) simp
  have hi: "Suc (pos t) \<le> length (K t)" for t using K(2) [of t] by simp
  have all: "within base K pos (\<lambda>t. length (K t)) e \<and> visited ?N b i (al_dev e)" if e: "e \<in> set (as1 @ as2)" for e
  proof (cases "e \<in> set as1")
    case True
    have "within base K pos (\<lambda>t. length (K t)) e" by (rule within_mono [OF up [OF True] _ hi]) simp
    then show ?thesis using in1 [OF True] vis by simp
  next
    case False
    then have e2: "e \<in> set as2" using e by simp
    have "within base K pos (\<lambda>t. length (K t)) e" by (rule within_mono [OF in2(1) [OF e2]]) simp_all
    then show ?thesis using in2(2) [OF e2] vis by simp
  qed
  have lay: "laid_out (as1 @ as2)"
  proof (rule laid_out_append)
    show "laid_out as1" "laid_out as2" using mc m by (simp_all add: mapped_def)
    show "apart e e' \<and> alloc_id e \<noteq> alloc_id e'" if "e \<in> set as1" "e' \<in> set as2" for e e'
    proof
      show "apart e e'" by (rule within_apart [OF up [OF that(1)] in2(1) [OF that(2)] _ _ K(1)]) simp_all
      have "al_dev e \<noteq> al_dev e'" using in1(3) [OF that(1)] out2 [OF that(2)] by auto
      then show "alloc_id e \<noteq> alloc_id e'" by (simp add: alloc_id_def)
    qed
  qed
  have rs: "region x t st' = region x t s3" if "x \<noteq> b" "x \<notin> sub ?N b (Suc i)" for x t
    using m that by (simp add: mapped_def N3 region_def)
  have ns: "topo st' = ?N" "PCIDevices st' = PCIDevices st" using same_sizes_reqs(1) [OF sst] sst by (simp_all add: same_sizes_def)
  have rx: "region x t st' = region x t s3" if "x \<in> sub ?N s 0" for x t using rs [OF out] reach that by blast
  have bs3: "rg_base (region s t st') = of_nat (c t)" "rg_size (region s t st') = rg_size (region s t st)" for t
    using rs [OF out [of s]] mc assms(4) ss3 by (simp_all add: mapped_def same_sizes_def)
  have place: "c t + unat (rg_size (region s t st)) \<le> base t + total t (K t)" for t
    using place_bounds(2) [OF K(1) [of t] K(2) [of t], of t "base t"] sz(2) [of t] c(1) [of t] by - linarith
  obtain N1 where n1: "narrow_writes (io_log s3) = N1 @ narrow_writes (io_log s2)" "set N1 = window_set s 0 s3"
    "\<And>k x. bridge_at ?N s 0 k x \<Longrightarrow> set (uppers (bdf (PCIDevices st ! k))) \<subseteq> set W1"
    "\<And>x t. x \<in> sub ?N s 0 \<Longrightarrow> unat (rg_base (region x t s3)) + unat (rg_size (region x t s3)) \<le> c t + total t (Ks t)"
    using mapped_windows [OF mc, unfolded N2] by metis
  obtain Nw2 where n2: "narrow_writes (io_log st') = Nw2 @ narrow_writes (io_log s3)" "set Nw2 = window_set b (Suc i) st'"
    "\<And>k x. bridge_at ?N b (Suc i) k x \<Longrightarrow> set (uppers (bdf (PCIDevices st ! k))) \<subseteq> set W2"
    "\<And>x t. x \<in> sub ?N b (Suc i) \<Longrightarrow> unat (rg_base (region x t st')) + unat (rg_size (region x t st')) \<le> base t + total t (K t)"
    using mapped_windows [OF m, unfolded N3] by metis
  have w1: "window_set s 0 st' = window_set s 0 s3"
    by (rule window_set_cong) (use rx bridge_at_sub in \<open>auto simp: ns N3\<close>)
  have w2: "window_writes d s st' = window_writes d s s2" for d
    by (rule window_writes_cong) (use bs3 assms(1,4) in \<open>simp_all add: same_sizes_def\<close>)
  have w3: "window_set b i st' = set (window_writes (bdf (PCIDevices st ! i)) s st') \<union> window_set s 0 st' \<union> window_set b (Suc i) st'"
    unfolding window_set_def ns using bridge_child [OF l i(2,3)] by auto
  show ?thesis
    unfolding mapped_def
  proof (intro conjI allI impI ballI)
    show "same_sizes st st'" by (rule sst)
    show "busses st' ! x = busses st ! x" if x: "x \<noteq> b" "x \<notin> sub ?N b i" for x
    proof -
      have "x \<notin> sub ?N b (Suc i)" "x \<noteq> s" "x \<notin> sub ?N s 0" using x(2) sub reach by auto
      then show ?thesis using m mc assms(2) x(1) by (simp add: mapped_def N2 N3)
    qed
    have "b \<notin> sub ?N s 0" using sub_above [OF i(3)] bs(1) by force
    then have "region b t s3 = region b t s2" for t using mc bs(1) by (simp add: mapped_def N2 region_def)
    then show "rg_base (region b t st') = rg_base (region b t st)" for t using m assms(3) by (simp add: mapped_def)
    show "cfg_writes (io_log st') = (W2 @ W1 @ W0) @ cfg_writes (io_log st)"
      using m mc assms(5) by (simp add: mapped_def)
    have "served (PCIDevices st) as1 W1" "served (PCIDevices st) as2 W2" using m mc by (simp_all add: mapped_def N2 N3)
    then show "served (PCIDevices st) (as1 @ as2) (W2 @ W1 @ W0)"
      using served_append [OF served_append [OF assms(6)]] by fastforce
    have "narrow_writes (io_log st') = (Nw2 @ N1 @ window_writes (bdf (PCIDevices st ! i)) s s2) @ narrow_writes (io_log st)"
      using n1(1) n2(1) assms(7) by simp
    moreover have "set (Nw2 @ N1 @ window_writes (bdf (PCIDevices st ! i)) s s2) = window_set b i st'"
      unfolding w3 w1 w2 using n1(2) n2(2) by auto
    ultimately show "\<exists>Nw. narrow_writes (io_log st') = Nw @ narrow_writes (io_log st) \<and> set Nw = window_set b i st'" by blast
    show "set (uppers (bdf (PCIDevices st ! k))) \<subseteq> set (W2 @ W1 @ W0)" if "bridge_at ?N b i k x" for k x
    proof -
      consider "k = i" | "bridge_at ?N s 0 k x" | "bridge_at ?N b (Suc i) k x" using \<open>bridge_at ?N b i k x\<close> bridge_child [OF l i(2,3)] by blast
      then show ?thesis
      proof cases
        case 1
        then show ?thesis using assms(8) by auto
      next
        case 2
        then show ?thesis using n1(3) [of k x] by (simp add: le_supI1 le_supI2)
      next
        case 3
        then show ?thesis using n2(3) [of k x] by (simp add: le_supI1)
      qed
    qed
    show "unat (rg_base (region x t st')) + unat (rg_size (region x t st')) \<le> base t + total t (K t)" if x: "x \<in> sub ?N b i" for x t
    proof -
      consider "x = s" | "x \<in> sub ?N s 0" | "x \<in> sub ?N b (Suc i)" using x sub reach by blast
      then show ?thesis
      proof cases
        case 1
        then show ?thesis using bs3 place c(2) by (simp add: unsigned_of_nat take_bit_nat_eq_self)
      next
        case 2
        then show ?thesis using n1(4) [of x t] rx [of x t] place [of t] sz(1) [of t] by simp
      qed (rule n2(4))
    qed
    show "laid_out (as1 @ as2)" by (rule lay)
    show "within base K pos (\<lambda>t. length (K t)) e" "visited ?N b i (al_dev e)" if "e \<in> set (as1 @ as2)" for e
      using all [OF that] by simp_all
    show "given st (as1 @ as2) k" if k: "visited ?N b i k" "pclass (PCIDevices st ! k) \<noteq> PCI_CLASS_BRIDGE_PCI" for k
    proof -
      have "k \<noteq> i" using k(2) topo_bridge(1) [OF i(1,2)] by auto
      then consider "visited ?N s 0 k" | "visited ?N b (Suc i) k" using k(1) vis by blast
      then show ?thesis
      proof cases
        case 1
        then have "given s2 as1 k" using mc k(2) by (simp add: mapped_def N2)
        then have "given st as1 k" by (simp add: given_def N2)
        then show ?thesis by (rule given_mono) simp
      next
        case 2
        then have "given s3 as2 k" using m k(2) by (simp add: mapped_def N3)
        then have "given st as2 k" by (simp add: given_def N3)
        then show ?thesis by (rule given_mono) simp
      qed
    qed
    show "in_window st' x e" if x: "x \<in> sub ?N b i" and e: "e \<in> set (as1 @ as2)" and r: "reach ?N x (fst (?N ! al_dev e))" for x e
    proof (cases "reach ?N s x")
      case True
      then have "e \<notin> set as2" using r out2 rtranclp_trans [OF True r] by blast
      then have e1: "e \<in> set as1" using e by simp
      have "in_window s3 x e"
      proof (cases "x = s")
        case True
        have b3: "rg_base (region s t s3) = of_nat (c t)" for t using mc assms(4) by (simp add: mapped_def)
        have "rg_size (region s t s3) = rg_size (region s t st)" for t using ss3 by (simp add: same_sizes_def)
        then show ?thesis
          using bounds [OF e1 refl] c(2) by (simp add: in_window_def Let_def True b3 unsigned_of_nat take_bit_nat_eq_self)
      next
        case False
        then have "x \<in> sub ?N s 0" using True reach by simp
        then show ?thesis using mc e1 r by (simp add: mapped_def N2)
      qed
      then show ?thesis using rs [OF out [OF True]] by (simp add: in_window_def)
    next
      case False
      then have x2: "x \<in> sub ?N b (Suc i)" using x sub by simp
      have "e \<notin> set as1"
      proof
        assume "e \<in> set as1"
        then have "reach ?N s x \<or> reach ?N x s" using reach_linear [OF i(3) in1(3) r] by simp
        then have "reach ?N x s" using False by simp
        obtain k s' where k: "Suc i \<le> k" "k < length ?N" "?N ! k = (b, Some s')" "reach ?N s' x"
          using x2 by (auto simp: sub_member)
        have "reach ?N s' s" using k(4) \<open>reach ?N x s\<close> by (rule rtranclp_trans)
        then have "s \<in> sub ?N b (Suc i)" using k(1-3) unfolding sub_member by blast
        then show False using out(2) [of s] by simp
      qed
      then show ?thesis using m e r x2 by (simp add: mapped_def N3)
    qed
  qed
qed

text \<open>The outcome of pass 1, as pass 2 needs it.\<close>

definition ready :: "nat \<Rightarrow> nat \<Rightarrow> pci_state \<Rightarrow> bool" where
  "ready b i st \<longleftrightarrow> (\<forall>x\<in>sub (topo st) b i. settled st x \<and> (\<forall>t. total t (bus_reqs t st x 0) < 2 ^ 32)) \<and>
     (\<forall>k < length (PCIDevices st). i \<le> k \<longrightarrow> fst (topo st ! k) = b \<longrightarrow> dev_ok st k)"

lemma ready_same:
  assumes "same_sizes st st'"
  shows "ready b i st' = ready b i st"
  using same_sizes_reqs [OF assms] assms by (simp add: ready_def same_sizes_def)

lemma ready_Suc: "ready b i st \<Longrightarrow> ready b (Suc i) st"
  unfolding ready_def using sub_mono Suc_leD by blast

lemma ready_child:
  assumes "ready b i st" "i < length (PCIDevices st)" "topo st ! i = (b, Some s)"
  shows "ready s 0 st" "settled st s" "total t (bus_reqs t st s 0) < 2 ^ 32" "window_ok t s st"
proof -
  have l: "i < length (topo st)" using assms(2) by simp
  have r: "reach (topo st) s x \<Longrightarrow> x \<in> sub (topo st) b i" for x using sub_child [OF l assms(3)] by simp
  then have s: "s \<in> sub (topo st) b i" by simp
  then show st: "settled st s" "total t (bus_reqs t st s 0) < 2 ^ 32" using assms(1) by (simp_all add: ready_def)
  have "x \<in> sub (topo st) s 0 \<Longrightarrow> x \<in> sub (topo st) b i" for x using r reach_sub [of "topo st" s x] by simp
  moreover have "dev_ok st k" if "k < length (PCIDevices st)" "fst (topo st ! k) = s" for k
    using st(1) that by (simp add: settled_def)
  ultimately show "ready s 0 st" using assms(1) by (simp add: ready_def)
  have "dev_ok st i" using assms by (simp add: ready_def)
  then show "window_ok t s st" using topo_bridge(1) [OF assms(2,3)] assms(3) by (simp add: dev_ok_def Let_def)
qed

lemma map_devices_ok:
  assumes "tree (topo st) n" "n = length (busses st)" "b < n" "ready b i st"
    "\<And>t. cursor t (base t) (K t) (length (P t)) (region b t st)" "\<And>t. K t = P t @ bus_reqs t st b i"
    "\<And>t x. x \<in> set (K t) \<Longrightarrow> isz t x dvd base t" "\<And>t. base t + total t (K t) \<le> 2 ^ 32"
  shows "\<exists>st' as W. map_devices b i st = Some st' \<and> mapped b i base K (\<lambda>t. length (P t)) st st' as W"
  using assms
proof (induction "(n - b) * Suc (length (PCIDevices st)) + (length (PCIDevices st) - i)" arbitrary: b i st base K P rule: less_induct)
  case less
  let ?L = "length (PCIDevices st)" and ?T = "topo st"
  show ?case
  proof (cases "i < ?L")
    case False
    then have "map_devices b i st = Some st" by (simp add: map_devices.simps [of b i st])
    then show ?thesis using mapped_end [of st i b base K] False by (metis not_less)
  next
    case i: True
    let ?d = "PCIDevices st ! i"
    have l: "i < length ?T" using i by simp
    have ind: "indices (K t)" for t using less.prems(5) [of t] by (simp add: cursor_def)
    have rec: "\<exists>st' as W. map_devices b (i + 1) s2 = Some st' \<and> mapped b (Suc i) base K (\<lambda>t. length (P' t)) s2 st' as W"
      if "same_sizes st s2" "\<And>t. cursor t (base t) (K t) (length (P' t)) (region b t s2)"
        "\<And>t. K t = P' t @ bus_reqs t st b (Suc i)" for s2 P'
    proof -
      note r = same_sizes_reqs [OF that(1)] ready_same [OF that(1)]
      have len: "length (PCIDevices s2) = ?L" "length (busses s2) = length (busses st)"
        using that(1) by (simp_all add: same_sizes_def)
      have "\<exists>st' as W. map_devices b (Suc i) s2 = Some st' \<and> mapped b (Suc i) base K (\<lambda>t. length (P' t)) s2 st' as W"
      proof (rule less.hyps)
        show "ready b (Suc i) s2" using ready_Suc [OF less.prems(4)] r by simp
        show "K t = P' t @ bus_reqs t s2 b (Suc i)" for t using that(3) r by simp
      qed (use less.prems(1-3,7,8) that(2) i r len in simp_all)
      then show ?thesis by simp
    qed
    have skip: ?thesis if none: "\<And>s. ?T ! i \<noteq> (b, Some s)" "map_devices b i st = map_devices b (i + 1) st"
      "fst (?T ! i) = b \<Longrightarrow> pclass ?d = PCI_CLASS_BRIDGE_PCI"
    proof -
      have "(if fst (?T ! i) = b then dev_reqs t st i else []) = []" for t
        using none(1,3) by (cases "?T ! i"; cases "snd (?T ! i)") (auto simp: dev_reqs_def Let_def)
      then have "K t = P t @ bus_reqs t st b (Suc i)" for t
        using less.prems(6) [of t] by (simp only: bus_reqs_step [OF i] append_Nil)
      from rec [OF same_sizes_refl less.prems(5) this]
      show ?thesis using mapped_skip [OF _ i none(1,3)] none(2) by metis
    qed
    show ?thesis
    proof (cases "fst (?T ! i) = b")
      case False
      show ?thesis
        by (rule skip) (use False i on_bus_topo [OF i, of b] in \<open>auto simp: map_devices.simps [of b i st] Let_def\<close>)
    next
      case on: True
      then have onb: "on_bus ?d b" using on_bus_topo [OF i] by simp
      show ?thesis
      proof (cases "snd (?T ! i)")
        case None
        then have ti: "?T ! i = (b, None)" using on by (simp add: prod_eq_iff)
        show ?thesis
        proof (cases "pclass ?d = PCI_CLASS_BRIDGE_PCI")
          case True
          then have "\<not> uint (secondary_bus ?d) < busses_count st" using ti i by (auto simp: topo_def)
          then have "map_devices b i st = map_devices b (i + 1) st"
            using i onb True by (simp add: map_devices.simps [of b i st] Let_def)
          then show ?thesis by (intro skip) (simp_all add: ti True)
        next
          case nbr: False
          have dr: "dev_reqs t st i = bar_reqs t 0 (bars ?d)" for t using nbr by (simp add: dev_reqs_def Let_def)
          have Kt: "K t = P t @ bar_reqs t 0 (bars ?d) @ bus_reqs t st b (Suc i)" for t
            using less.prems(6) [of t] bus_reqs_step [OF i, of t b] by (simp add: on dr)
          have "dev_ok st i" using less.prems(4) i on by (simp add: ready_def)
          then have fit: "bars_fit 0 (bars ?d)" using nbr by (simp add: dev_ok_def Let_def)
          have bl: "b < length (busses st)" using less.prems(2,3) by simp
          obtain s1 W1 where s1: "map_bars b i 0 st = Some s1" "same_sizes st s1"
            "\<And>x. x \<noteq> b \<Longrightarrow> busses s1 ! x = busses st ! x" "\<And>t. rg_base (region b t s1) = rg_base (region b t st)"
            "\<And>t. cursor t (base t) (K t) (length (P t) + length (bar_reqs t 0 (bars ?d))) (region b t s1)"
            "cfg_writes (io_log s1) = W1 @ cfg_writes (io_log st)"
            "served (PCIDevices st) (walk_allocs i base K (\<lambda>t. length (P t)) (bar_walk 0 (bars ?d))) W1"
            "narrow_writes (io_log s1) = narrow_writes (io_log st)"
            using map_bars_ok [OF i bl refl fit less.prems(5) Kt] by metis
          let ?P = "\<lambda>t. P t @ bar_reqs t 0 (bars ?d)"
          have "cursor t (base t) (K t) (length (?P t)) (region b t s1)" "K t = ?P t @ bus_reqs t st b (Suc i)" for t
            using s1(5) [of t] Kt [of t] by simp_all
          from rec [OF s1(2) this] obtain st' as W where r: "map_devices b (i + 1) s1 = Some st'"
            "mapped b (Suc i) base K (\<lambda>t. length (P t) + length (bar_reqs t 0 (bars ?d))) s1 st' as W" by auto
          have dp: "drop (length (P t)) (K t) = bar_reqs t 0 (bars ?d) @ bus_reqs t st b (Suc i)"
            "length (P t) \<le> length (K t)" for t using Kt [of t] by simp_all
          have "map_devices b i st = Some st'"
            using i onb nbr s1(1) r(1) by (simp add: map_devices.simps [of b i st] Let_def)
          then show ?thesis
            using mapped_bars [OF s1(2-4,6,7) refl s1(8) r(2) i ti less.prems(1) ind less.prems(7) dp] by blast
        qed
      next
        case (Some s)
        then have ti: "?T ! i = (b, Some s)" using on by (simp add: prod_eq_iff)
        note br = topo_bridge [OF i ti] note rc = ready_child [OF less.prems(4) i ti]
        have bs: "b < s" "s < n" using edge_less [OF less.prems(1) edge_nth [of i ?T b s]] i ti by simp_all
        have bl: "b \<noteq> s" "b < length (busses st)" "s < length (busses st)" using less.prems(2,3) bs by simp_all
        let ?Ks = "\<lambda>t. bus_reqs t st s 0" let ?ix = "\<lambda>t. req_index (rg_size (region s t st)) t"
        let ?c = "\<lambda>t. place t (base t) (K t) (length (P t))"
        have Kt: "K t = P t @ ?ix t # bus_reqs t st b (Suc i)" for t
          using less.prems(6) [of t] bus_reqs_step [OF i, of t b] ti br by (simp add: dev_reqs_def Let_def)
        have q: "length (P t) < length (K t)" "K t ! length (P t) = ?ix t" for t by (simp_all add: Kt)
        have fit: "fits (rg_size (region s t st)) t" for t using rc(4) by (simp add: window_ok_def)
        have rv: "reserved t (?Ks t) (region s t st)" for t using rc(2) by (simp add: settled_def)
        note room = window_room [OF rc(4) rv rc(3) ind q less.prems(7,8)]
        obtain s1 where s1: "bridge_get_bases b s st = Some s1" "same_sizes st s1" "io_log s1 = io_log st"
          "\<And>u. cursor u (base u) (K u) (Suc (length (P u))) (region b u s1)" "\<And>u. rg_base (region b u s1) = rg_base (region b u st)"
          "\<And>u. rg_base (region s u s1) = of_nat (?c u)" "\<And>x. x \<noteq> b \<Longrightarrow> x \<noteq> s \<Longrightarrow> busses s1 ! x = busses st ! x"
          using bridge_get_bases_ok [OF less.prems(5) Kt fit bl] by metis
        note r1 = same_sizes_reqs [OF s1(2)]
        have ls: "s < length (busses s1)" using s1(2) bl(3) by (simp add: same_sizes_def)
        have rv1: "reserved u (?Ks u) (region s u s1)" for u using rc(2) r1(5) [of s] r1(3) by (simp add: settled_def)
        note ib = init_bases_ok [OF ls rv1 rc(3)]
        let ?s2 = "pci_bios_init_bus_bases s s1" let ?s3 = "bridge_windows (bdf ?d) s ?s2"
        have "same_sizes ?s2 ?s3" by (simp add: same_sizes_def same_stats_def)
        then have ss3: "same_sizes st ?s3" using same_sizes_trans [OF s1(2) same_sizes_trans [OF ib(1)]] by simp
        note r3 = same_sizes_reqs [OF ss3] ready_same [OF ss3]
        have len3: "length (PCIDevices ?s3) = ?L" "length (busses ?s3) = length (busses st)"
          using ss3 by (simp_all only: same_sizes_def)
        have cu: "cursor t (?c t) (?Ks t) 0 (region s t ?s3)" for t
          using ib(3) [of t] room(3) by (simp add: s1(6) unsigned_of_nat take_bit_nat_eq_self)
        have "(n - s) * Suc ?L + (?L - 0) < Suc (n - s) * Suc ?L" by simp
        also have "Suc (n - s) * Suc ?L \<le> (n - b) * Suc ?L" using bs by (intro mult_right_mono) simp_all
        finally have small: "(n - s) * Suc ?L + (?L - 0) < (n - b) * Suc ?L + (?L - i)" by simp
        have "\<exists>st' as W. map_devices s 0 ?s3 = Some st' \<and> mapped s 0 ?c ?Ks (\<lambda>t. length ([] :: nat list)) ?s3 st' as W"
        proof (rule less.hyps)
          show "cursor t (?c t) (?Ks t) (length []) (region s t ?s3)" for t using cu by simp
          show "bus_reqs t st s 0 = [] @ bus_reqs t ?s3 s 0" for t using r3 by simp
          show "isz t x dvd ?c t" if "x \<in> set (?Ks t)" for t x using room(5) [OF _ that] by simp
          show "?c t + total t (?Ks t) \<le> 2 ^ 32" for t by (rule room(4))
        qed (use less.prems(1-3) bs rc(1) small r3 len3 in simp_all)
        then obtain s4 as1 W1 where s4: "map_devices s 0 ?s3 = Some s4" "mapped s 0 ?c ?Ks (\<lambda>_. 0) ?s3 s4 as1 W1" by auto
        have ss4: "same_sizes st s4" using s4(2) same_sizes_trans [OF ss3] by (simp add: mapped_def)
        have "b \<notin> sub ?T s 0" using sub_above [OF less.prems(1)] bs(1) by force
        then have rb: "region b t s4 = region b t s1" for t
          using s4(2) bs(1) ib(5) [of b] by (simp add: mapped_def r3 region_def)
        let ?P = "\<lambda>t. P t @ [?ix t]"
        have "cursor t (base t) (K t) (length (?P t)) (region b t s4)" "K t = ?P t @ bus_reqs t st b (Suc i)" for t
          using s1(4) [of t] Kt [of t] rb by simp_all
        from rec [OF ss4 this] obtain st' as W where r: "map_devices b (i + 1) s4 = Some st'"
          "mapped b (Suc i) base K (\<lambda>t. Suc (length (P t))) s4 st' as W" by auto
        have done1: "map_devices b i st = Some st'"
          using i onb br s1(1) s4(1) r(1) by (simp add: map_devices.simps [of b i st] Let_def)
        let ?W0 = "uppers (bdf ?d)"
        have "mapped b i base K (\<lambda>t. length (P t)) st st' (as1 @ as) (W @ W1 @ ?W0)"
        proof (rule mapped_bridge [OF ss3 _ _ _ _ _ _ refl s4(2) r(2) i ti less.prems(1) ind q(1)])
          show "busses ?s3 ! x = busses st ! x" if "x \<noteq> b" "x \<noteq> s" for x using s1(7) [OF that] ib(5) that by simp
          show "rg_base (region b t ?s3) = rg_base (region b t st)" for t using s1(5) ib(4) by simp
          show "rg_base (region s t ?s3) = of_nat (?c t)" for t using s1(6) ib(4) by simp
          show "cfg_writes (io_log ?s3) = ?W0 @ cfg_writes (io_log st)" using ib(2) s1(3) by (simp add: uppers_def)
          show "narrow_writes (io_log ?s3) = window_writes (bdf ?d) s ?s3 @ narrow_writes (io_log st)"
            using ib(2) s1(3) window_writes_cong [of s ?s3 ?s2] by (simp add: bridge_windows_narrow)
          have "?d \<in> set (PCIDevices st)" using i by simp
          then show "served (PCIDevices st) [] ?W0" using br(1) unfolding served_def uppers_def by auto
          show "indices (?Ks t)" for t using rv [of t] by (simp add: reserved_def)
        qed (use room in simp_all)
        then show ?thesis using done1 by blast
      qed
    qed
  qed
qed

end
