(* ===== verification/PciProbe.thy ===== *)
theory PciProbe
  imports PciPass1
begin

text \<open>
  The search for PCI devices: the walk of \<open>pci_next\<close> over a bus and the loops of \<open>pci_probe\<close>.
\<close>

section \<open>The walk over a bus\<close>

lemma bus_of_in:
  assumes "bus * 256 \<le> b" "b < bus * 256 + 256" "0 \<le> bus" "bus < 256"
  shows "bus_of b = bus"
proof -
  have "b div 256 = bus" by (rule int_div_pos_eq [of _ _ _ "b - bus * 256"]) (use assms in simp_all)
  then show ?thesis using assms(3,4) by (simp add: bus_of_div)
qed

lemma bus_of_next:
  assumes "bus * 256 + 256 \<le> b" "b < bus * 256 + 512" "0 \<le> bus" "bus < 256"
  shows "bus_of b \<noteq> bus"
proof -
  have "b div 256 = bus + 1" by (rule int_div_pos_eq [of _ _ _ "b - (bus + 1) * 256"]) (use assms in simp_all)
  moreover have "(bus + 1) mod 256 \<noteq> bus" using assms(3,4) by (cases "bus = 255") simp_all
  ultimately show ?thesis by (simp add: bus_of_div)
qed

text \<open>The next device found is on the bus, and not before the number the walk goes on from.\<close>

lemma pci_next_from_range:
  fixes st :: pci_state
  assumes "pci_next_from b bus st = (r, st')" "bus * 256 \<le> b" "b < bus * 256 + 264" "0 \<le> bus" "bus < 256"
  shows "PCIDevices st' = PCIDevices st \<and> (\<forall>b'. r = Some b' \<longrightarrow> b \<le> b' \<and> b' < bus * 256 + 256)"
  using assms
proof (induction b bus st arbitrary: r st' rule: pci_next_from.induct)
  case (1 b bus st)
  show ?case
  proof (cases "bus_of b = bus")
    case False
    then show ?thesis using 1(2) by (simp add: pci_next_from.simps [of b])
  next
    case True
    have lt: "b < bus * 256 + 256" using bus_of_next [of bus b] True 1(3-6) by linarith
    obtain v s1 where v: "pci_config_readw (bdf16 b) PCI_VENDOR_ID st = (v, s1)" by (meson surj_pair)
    have s1: "PCIDevices s1 = PCIDevices st" using v by (auto simp: cfg_access)
    show ?thesis
    proof (cases "v \<noteq> 0x0000 \<and> v \<noteq> 0xffff")
      case present: True
      then show ?thesis using 1(2) True v s1 lt by (auto simp: pci_next_from.simps [of b])
    next
      case False
      let ?b = "if fn_of b = 0 then b + 8 else b + 1"
      have r: "pci_next_from ?b bus s1 = (r, st')" using 1(2) True v False by (auto simp: pci_next_from.simps [of b])
      have "PCIDevices st' = PCIDevices s1 \<and> (\<forall>b'. r = Some b' \<longrightarrow> ?b \<le> b' \<and> b' < bus * 256 + 256)"
        by (rule 1(1)) (use True v False r 1(3-6) lt in auto)
      then show ?thesis using s1 by (auto split: if_splits)
    qed
  qed
qed

lemma pci_next_range:
  fixes st :: pci_state
  assumes "pci_next b bus st = (r, st')" "bus * 256 - 1 \<le> b" "b < bus * 256 + 256" "0 \<le> bus" "bus < 256"
    "b = bus * 256 - 1 \<Longrightarrow> fn_of b \<noteq> 0"
  shows "PCIDevices st' = PCIDevices st" "\<And>b'. r = Some b' \<Longrightarrow> b < b' \<and> b' < bus * 256 + 256"
proof -
  obtain v s1 where v: "pci_config_readb (bdf16 b) PCI_HEADER_TYPE st = (v, s1)" by (meson surj_pair)
  have s1: "PCIDevices s1 = PCIDevices st" using v cfg_frame(1) [of "bdf16 b" PCI_HEADER_TYPE st] by simp
  have next1: "PCIDevices st' = PCIDevices s2 \<and> (\<forall>b'. r = Some b' \<longrightarrow> b + k \<le> b' \<and> b' < bus * 256 + 256)"
    if "pci_next_from (b + k) bus s2 = (r, st')" "bus * 256 \<le> b + k" "k \<le> 8" for k s2
    by (rule pci_next_from_range [OF that(1,2)]) (use assms(3-5) that(3) in simp_all)
  have "PCIDevices st' = PCIDevices st \<and> (\<forall>b'. r = Some b' \<longrightarrow> b < b' \<and> b' < bus * 256 + 256)"
  proof (cases "fn_of b = 0")
    case False
    then have "pci_next_from (b + 1) bus st = (r, st')" using assms(1) by (simp add: pci_next_def)
    from next1 [OF this] assms(2) show ?thesis by auto
  next
    case True
    then have "b \<noteq> bus * 256 - 1" using assms(6) by blast
    then have ge: "bus * 256 \<le> b" using assms(2) by linarith
    show ?thesis
    proof (cases "v AND 0x80 = 0")
      case True
      then have "pci_next_from (b + 8) bus s1 = (r, st')" using assms(1) v \<open>fn_of b = 0\<close> by (simp add: pci_next_def)
      from next1 [OF this] ge s1 show ?thesis by auto
    next
      case False
      then have "pci_next_from (b + 1) bus s1 = (r, st')" using assms(1) v \<open>fn_of b = 0\<close> by (simp add: pci_next_def)
      from next1 [OF this] ge s1 show ?thesis by auto
    qed
  qed
  then show "PCIDevices st' = PCIDevices st" "\<And>b'. r = Some b' \<Longrightarrow> b < b' \<and> b' < bus * 256 + 256" by blast+
qed

lemma fn_of_mod: "uint (fn_of b) = b mod 8"
proof -
  have "bdf16 b AND 7 = take_bit 3 (bdf16 b)" by (simp add: take_bit_eq_mask mask_eq_exp_minus_1)
  then have "uint (bdf16 b AND 7) = take_bit 3 (take_bit 16 b)"
    by (simp only: unsigned_take_bit_eq uint_word_of_int_eq) simp
  also have "\<dots> = b mod 8" by (simp add: take_bit_eq_mod mod_mod_cancel)
  finally have "uint (bdf16 b AND 7) = b mod 8" .
  then show ?thesis
    by (simp add: fn_of_def pci_bdf_to_fn_def unsigned_ucast_eq take_bit_eq_mod mod_mod_cancel)
qed

lemma pci_first_range:
  fixes st :: pci_state
  assumes "pci_first bus st = (r, st')" "0 \<le> bus" "bus < 256"
  shows "PCIDevices st' = PCIDevices st" "\<And>b'. r = Some b' \<Longrightarrow> bus * 256 \<le> b' \<and> b' < bus * 256 + 256"
proof -
  have "uint (word_of_int bus :: u16) = bus" using assms(2,3) by (simp add: uint_word_of_int_eq take_bit_eq_mod)
  then have "uint (push_bit 8 (word_of_int bus) :: u16) = bus * 256"
    using assms(2,3) by (simp only: unsigned_push_bit_eq) (simp add: push_bit_eq_mult take_bit_eq_mod)
  then have u: "uint (pci_bus_devfn_to_bdf bus 0) = bus * 256" by (simp add: pci_bus_devfn_to_bdf_def)
  have "bus * 256 - 1 = 7 + (bus * 32 - 1) * 8" by simp
  then have "(bus * 256 - 1) mod 8 = 7" by (simp only: mod_mult_self1) simp
  then have "uint (fn_of (bus * 256 - 1)) = 7" by (simp only: fn_of_mod)
  then have fn: "fn_of (bus * 256 - 1) \<noteq> 0" by (metis uint_0_eq zero_neq_numeral)
  have "pci_next (bus * 256 - 1) bus st = (r, st')" using assms(1) by (simp add: pci_first_def u)
  note p = pci_next_range [OF this _ _ assms(2,3) fn]
  show "PCIDevices st' = PCIDevices st" by (rule p(1)) simp_all
  show "bus * 256 \<le> b' \<and> b' < bus * 256 + 256" if "r = Some b'" for b'
  proof -
    have "bus * 256 - 1 < b' \<and> b' < bus * 256 + 256" by (rule p(2) [OF _ _ that]) simp_all
    then show ?thesis by simp
  qed
qed

section \<open>The probe\<close>

text \<open>The list of devices so far: in increasing order, below the number \<open>n\<close>, with no region seen.\<close>

definition found_upto :: "int \<Rightarrow> pci_state \<Rightarrow> bool" where
  "found_upto n st \<longleftrightarrow> sorted_wrt (<) (map (\<lambda>d. uint (bdf d)) (PCIDevices st)) \<and>
     (\<forall>d\<in>set (PCIDevices st). uint (bdf d) < n \<and> bars d = no_bars)"

lemma found_mono: "found_upto n st \<Longrightarrow> n \<le> m \<Longrightarrow> found_upto m st"
  unfolding found_upto_def by fastforce

lemma probe_device_found:
  assumes "found_upto b st" "0 \<le> b" "b < 65536" "probe_device bus b pv st = (pv', st')"
  shows "found_upto (b + 1) st'"
proof -
  obtain root pv1 s1 where 1: "probe_rootbus bus pv st = (root, pv1, s1)" by (metis prod_cases3)
  have d1: "PCIDevices s1 = PCIDevices st" using 1 by (auto simp: probe_rootbus_def Let_def split: option.splits if_splits)
  obtain ven s2 where 2: "pci_config_readl (bdf16 b) PCI_VENDOR_ID s1 = (ven, s2)" by (meson surj_pair)
  obtain cls s3 where 3: "pci_config_readl (bdf16 b) PCI_CLASS_REVISION s2 = (cls, s3)" by (meson surj_pair)
  obtain ht s4 where 4: "pci_config_readb (bdf16 b) PCI_HEADER_TYPE s3 = (ht, s4)" by (meson surj_pair)
  obtain sec s5 where 5: "pci_config_readb (bdf16 b) PCI_SECONDARY_BUS s4 = (sec, s5)" by (meson surj_pair)
  have d: "PCIDevices s4 = PCIDevices st" "PCIDevices s5 = PCIDevices st"
    using d1 cfg_frame(4) [of "bdf16 b" PCI_VENDOR_ID s1] cfg_frame(4) [of "bdf16 b" PCI_CLASS_REVISION s2]
      cfg_frame(1) [of "bdf16 b" PCI_HEADER_TYPE s3] cfg_frame(1) [of "bdf16 b" PCI_SECONDARY_BUS s4]
    by (simp_all add: 2 3 4 5)
  have "\<exists>d. PCIDevices st' = PCIDevices st @ [d] \<and> bdf d = bdf16 b \<and> bars d = no_bars"
    using assms(4) by (auto simp: probe_device_def 1 2 3 4 5 d Let_def probe_secondary_def split: if_splits)
  then obtain d where d: "PCIDevices st' = PCIDevices st @ [d]" "bdf d = bdf16 b" "bars d = no_bars" by blast
  have "uint (bdf16 b) = b" using assms(2,3) by (simp add: uint_word_of_int_eq take_bit_eq_mod)
  then show ?thesis using assms(1) d by (fastforce simp: found_upto_def sorted_wrt_append)
qed

lemma probe_bus_found:
  assumes "\<And>x. b = Some x \<Longrightarrow> bus * 256 \<le> x \<and> x < bus * 256 + 256" "0 \<le> bus" "bus < 256"
    "found_upto (case b of None \<Rightarrow> bus * 256 + 256 | Some x \<Rightarrow> x) st"
  shows "\<exists>stop pv' st'. probe_bus alloc_ok bus b pv st = Some (stop, pv', st') \<and> found_upto (bus * 256 + 256) st'"
  using assms(1,4)
proof (induction "case b of None \<Rightarrow> 0 | Some x \<Rightarrow> nat (bus * 256 + 256 - x)" arbitrary: b pv st rule: less_induct)
  case less
  show ?case
  proof (cases b)
    case None
    then show ?thesis using less.prems(2) by (intro exI [of _ False]) (simp add: probe_bus.simps [of _ _ None])
  next
    case (Some x)
    note r = less.prems(1) [OF Some]
    show ?thesis
    proof (cases "alloc_ok (length (PCIDevices st))")
      case False
      then show ?thesis using Some less.prems(2) r found_mono [of x st] by (intro exI [of _ True]) (simp add: probe_bus.simps [of _ _ "Some x"])
    next
      case True
      obtain pv1 s1 where 1: "probe_device bus x pv st = (pv1, s1)" by (meson surj_pair)
      have f1: "found_upto (x + 1) s1"
        by (rule probe_device_found [OF _ _ _ 1]) (use less.prems(2) Some r assms(2,3) in simp_all)
      obtain b' s2 where 2: "pci_next x bus s1 = (b', s2)" by (meson surj_pair)
      note n = pci_next_range [OF 2 _ _ assms(2,3)]
      have d2: "PCIDevices s2 = PCIDevices s1" by (rule n(1)) (use r in simp_all)
      have n2: "x < y \<and> y < bus * 256 + 256" if "b' = Some y" for y by (rule n(2) [OF _ _ _ that]) (use r in simp_all)
      have "found_upto (case b' of None \<Rightarrow> bus * 256 + 256 | Some y \<Rightarrow> y) s2"
      proof (rule found_mono)
        show "found_upto (x + 1) s2" using f1 by (simp add: found_upto_def d2)
        show "x + 1 \<le> (case b' of None \<Rightarrow> bus * 256 + 256 | Some y \<Rightarrow> y)"
          using n2 r by (cases b') force+
      qed
      then have "\<exists>stop pv' st'. probe_bus alloc_ok bus b' pv1 s2 = Some (stop, pv', st') \<and> found_upto (bus * 256 + 256) st'"
      proof (rule less.hyps [rotated 2])
        show "(case b' of None \<Rightarrow> 0 | Some x \<Rightarrow> nat (bus * 256 + 256 - x)) < (case b of None \<Rightarrow> 0 | Some x \<Rightarrow> nat (bus * 256 + 256 - x))"
          using n2 r Some by (cases b') force+
        show "bus * 256 \<le> y \<and> y < bus * 256 + 256" if "b' = Some y" for y using n2 [OF that] r by simp
      qed
      then show ?thesis using Some True 1 2 by (simp add: probe_bus.simps [of _ _ "Some x"])
    qed
  qed
qed

lemma probe_buses_found:
  assumes "- 1 \<le> bus" "bus \<le> 255" "found_upto (bus * 256 + 256) st"
  shows "\<exists>st'. probe_buses alloc_ok extraroots bus pv st = Some st' \<and> found_upto 65536 st'"
  using assms
proof (induction "nat (255 - bus)" arbitrary: bus pv st rule: less_induct)
  case less
  show ?case
  proof (cases "bus < 0xff \<and> (bus < MaxPCIBus st \<or> rootbuses pv < extraroots)")
    case False
    then show ?thesis
      using less.prems found_mono [of "bus * 256 + 256" st 65536] by (auto simp: probe_buses.simps [of _ _ bus])
  next
    case True
    obtain b s1 where 1: "pci_first (bus + 1) st = (b, s1)" by (meson surj_pair)
    have r: "0 \<le> bus + 1" "bus + 1 < 256" using True less.prems(1) by simp_all
    note p = pci_first_range [OF 1 r]
    have "found_upto (case b of None \<Rightarrow> (bus + 1) * 256 + 256 | Some x \<Rightarrow> x) s1"
    proof (rule found_mono)
      show "found_upto (bus * 256 + 256) s1" using less.prems(3) by (simp add: found_upto_def p(1))
      show "bus * 256 + 256 \<le> (case b of None \<Rightarrow> (bus + 1) * 256 + 256 | Some x \<Rightarrow> x)"
        using p(2) by (cases b) force+
    qed
    from probe_bus_found [OF p(2) r this]
    obtain stop pv' s2 where 2: "probe_bus alloc_ok (bus + 1) b pv s1 = Some (stop, pv', s2)" "found_upto ((bus + 1) * 256 + 256) s2"
      by blast
    show ?thesis
    proof (cases stop)
      case True
      then show ?thesis
        using 1 2 \<open>bus < 0xff \<and> _\<close> found_mono [OF 2(2), of 65536] by (auto simp: probe_buses.simps [of _ _ bus])
    next
      case False
      have "\<exists>st'. probe_buses alloc_ok extraroots (bus + 1) pv' s2 = Some st' \<and> found_upto 65536 st'"
        by (rule less.hyps) (use True less.prems(1) 2(2) in simp_all)
      then show ?thesis using 1 2 True False by (simp add: probe_buses.simps [of _ _ bus])
    qed
  qed
qed

text \<open>The probe returns, whatever the configuration reads answer, whichever allocations fail and however many
  extra root buses are announced; and the devices it lists are in increasing order of bus, device
  and function, so that none is listed twice, with no region recorded yet.\<close>

theorem pci_probe_returns:
  assumes "PCIDevices st = []"
  shows "\<exists>st'. pci_probe alloc_ok extraroots st = Some st' \<and> sorted_wrt (<) (map (\<lambda>d. uint (bdf d)) (PCIDevices st')) \<and>
    (\<forall>d\<in>set (PCIDevices st'). bars d = no_bars)"
proof -
  have "found_upto (- 1 * 256 + 256) st" using assms by (simp add: found_upto_def)
  from probe_buses_found [OF _ _ this] show ?thesis unfolding pci_probe_def by (fastforce simp: found_upto_def)
qed

theorem pci_probe_returns_witness:
  "\<exists>st'. pci_probe (\<lambda>n. n < 3) 1 \<lparr>mem = (\<lambda>_. 0), io_log = [], dev = (\<lambda>_ _ _. 0x12345678), PCIDevices = [], MaxPCIBus = 7,
      busses = [], busses_count = 0\<rparr> = Some st' \<and> sorted_wrt (<) (map (\<lambda>d. uint (bdf d)) (PCIDevices st')) \<and>
    (\<forall>d\<in>set (PCIDevices st'). bars d = no_bars)"
  by (rule pci_probe_returns) simp

end
