(* ===== verification/PciSpec.thy ===== *)
theory PciSpec
  imports PciPass2 PciProbe
begin

text \<open>
  Correctness of the allocation of PCI address space: the regions given to the base address registers
  of all devices, behind any tree of bridges, are aligned to their size, lie in the windows of the
  bridges above them and do not overlap.
\<close>

section \<open>The regions of the root bus\<close>

lemma align_down_unat:
  assumes "al = 2 ^ k" "k < 32"
  shows "unat (ALIGN_DOWN (x :: u32) al) = unat x div 2 ^ k * 2 ^ k"
proof -
  have "al - 1 = mask k" using assms by (simp add: mask_eq_exp_minus_1)
  then have "take_bit k x + ALIGN_DOWN x al = x"
    using word_and_split [of x "mask k"] by (simp add: ALIGN_DOWN_def take_bit_eq_mask)
  then have e: "ALIGN_DOWN x al = x - take_bit k x" by (metis add_diff_cancel_left')
  have t: "unat (take_bit k x) = unat x mod 2 ^ k" by (simp only: unsigned_take_bit_eq take_bit_nat_def)
  then have "take_bit k x \<le> x" by (simp add: word_le_nat_alt)
  then show ?thesis by (simp add: e unat_sub t minus_mod_eq_div_mult)
qed

lemma root_base:
  assumes "unat al = 2 ^ k" "unat sm \<le> unat tp"
  shows "unat (ROOT_BASE tp sm al) + unat sm \<le> unat tp" "2 ^ k dvd unat (ROOT_BASE tp sm al)"
    "unat tp < unat (ROOT_BASE tp sm al) + unat sm + 2 ^ k"
proof -
  have al: "al = 2 ^ k" 
  proof -
    have "al = of_nat (unat al)" by simp
    then show ?thesis by (simp only: assms(1) of_nat_power of_nat_numeral)
  qed
  have "2 ^ k < (2 :: nat) ^ 32" using unsigned_less [of al, where 'a = nat] assms(1) by simp
  then have k: "k < 32" by (simp only: power_strict_increasing_iff)
  have d: "unat (tp - sm) = unat tp - unat sm" by (rule unat_sub) (simp add: word_le_nat_alt assms(2))
  have r: "unat (ROOT_BASE tp sm al) = (unat tp - unat sm) div 2 ^ k * 2 ^ k"
    unfolding ROOT_BASE_def align_down_unat [OF al k] d ..
  show "2 ^ k dvd unat (ROOT_BASE tp sm al)" by (simp add: r)
  have "(unat tp - unat sm) div 2 ^ k * 2 ^ k \<le> unat tp - unat sm" by simp
  then show "unat (ROOT_BASE tp sm al) + unat sm \<le> unat tp" using assms(2) r by linarith
  have "unat tp - unat sm < (unat tp - unat sm) div 2 ^ k * 2 ^ k + 2 ^ k"
    using dividend_less_div_times [of "2 ^ k" "unat tp - unat sm"] by simp
  then show "unat tp < unat (ROOT_BASE tp sm al) + unat sm + 2 ^ k" using r by linarith
qed

lemma peak_member:
  assumes "ks \<noteq> []"
  obtains i where "i \<in> set ks" "peak t ks = isz t i"
proof -
  have "peak t ks \<in> insert 0 (isz t ` set ks)" unfolding peak_def by (intro Max_in) simp_all
  moreover have "isz t (ks ! 0) \<le> peak t ks" using assms unfolding peak_def by (intro Max_ge) simp_all
  then have "peak t ks \<noteq> 0" using isz_pos [of t "ks ! 0"] by linarith
  ultimately show thesis using that by auto
qed

lemma isz_dvd_peak: "x \<in> set ks \<Longrightarrow> isz t x dvd peak t ks"
proof -
  assume x: "x \<in> set ks"
  then have "ks \<noteq> []" by auto
  then obtain i where i: "i \<in> set ks" "peak t ks = isz t i" by (rule peak_member)
  have "isz t x \<le> peak t ks" using x unfolding peak_def by (intro Max_ge) simp_all
  then show ?thesis using i(2) unfolding isz_def by (simp add: le_imp_power_dvd)
qed

lemma peak_total: "peak t ks \<le> total t ks"
proof (cases "ks = []")
  case False
  then obtain i where "i \<in> set ks" "peak t ks = isz t i" by (rule peak_member)
  then show ?thesis unfolding total_def by (metis elem_le_sum_list image_eqI in_set_conv_nth length_map nth_map set_map)
qed (simp add: peak_def)

text \<open>One of the two memory regions placed below \<open>tp\<close>.\<close>

lemma root_place_ok:
  assumes "reserved t ks (region 0 t st)" "ks \<noteq> []" "total t ks \<le> unat tp"
  shows "unat (ROOT_BASE tp (rg_sum (region 0 t st)) (rg_max (region 0 t st))) + total t ks \<le> unat tp"
    "unat tp < unat (ROOT_BASE tp (rg_sum (region 0 t st)) (rg_max (region 0 t st))) + 2 * total t ks"
    "x \<in> set ks \<Longrightarrow> isz t x dvd unat (ROOT_BASE tp (rg_sum (region 0 t st)) (rg_max (region 0 t st)))"
proof -
  let ?rg = "region 0 t st"
  have r: "indices ks" "rg_sum ?rg = of_nat (total t ks)" "rg_max ?rg = of_nat (peak t ks)"
    using assms(1) by (simp_all add: reserved_def)
  have "total t ks < 2 ^ 32" using assms(3) unsigned_less [of tp, where 'a = nat] by simp
  then have sm: "unat (rg_sum ?rg) = total t ks" by (simp add: r unsigned_of_nat take_bit_nat_eq_self)
  obtain i where "i \<in> set ks" "peak t ks = isz t i" by (rule peak_member [OF assms(2)])
  then have mx: "unat (rg_max ?rg) = 2 ^ (i + pci_index_shift t)" using unat_peak [OF r(1), of t] by (simp add: r isz_def)
  have pk: "unat (rg_max ?rg) = peak t ks" using unat_peak [OF r(1), of t] by (simp add: r)
  note b = root_base [OF mx, of "rg_sum ?rg" tp]
  show "unat (ROOT_BASE tp (rg_sum ?rg) (rg_max ?rg)) + total t ks \<le> unat tp" using b(1) assms(3) sm by simp
  show "unat tp < unat (ROOT_BASE tp (rg_sum ?rg) (rg_max ?rg)) + 2 * total t ks"
    using b(3) assms(3) sm mx pk peak_total [of t ks] by simp
  show "isz t x dvd unat (ROOT_BASE tp (rg_sum ?rg) (rg_max ?rg))" if "x \<in> set ks"
    using b(2) assms(3) sm mx pk isz_dvd_peak [OF that, of t] by (metis dvd_trans)
qed

lemma set_base_same:
  assumes "0 < length (busses st)"
  shows "same_sizes st (set_base t v st)" "io_log (set_base t v st) = io_log st"
    "region x u (set_base t v st) = (if x = 0 \<and> u = t then (region 0 t st)\<lparr>rg_base := v\<rparr> else region x u st)"
proof -
  show r: "region x u (set_base t v st) = (if x = 0 \<and> u = t then (region 0 t st)\<lparr>rg_base := v\<rparr> else region x u st)" for x u
    by (rule region_upd [OF assms])
  show "same_sizes st (set_base t v st)" by (simp add: same_sizes_def same_stats_def r)
  show "io_log (set_base t v st) = io_log st" by (simp add: upd_region_def)
qed

text \<open>The two memory regions fit between \<open>BUILD_PCIMEM_START\<close> and \<open>BUILD_PCIMEM_END\<close>, the second below the first.\<close>

lemma root_place_regions:
  assumes "root_place t1 t2 BUILD_PCIMEM_START BUILD_PCIMEM_END st = (True, st')" "t1 \<noteq> t2" "0 < length (busses st)"
    "\<And>t. reserved t (ks t) (region 0 t st)" "ks t1 \<noteq> []" "ks t2 \<noteq> []"
    "total t1 (ks t1) + total t2 (ks t2) \<le> unat BUILD_PCIMEM_END - unat BUILD_PCIMEM_START"
  shows "same_sizes st st'" "io_log st' = io_log st" "\<And>u. u \<noteq> t1 \<Longrightarrow> u \<noteq> t2 \<Longrightarrow> region 0 u st' = region 0 u st"
    "unat BUILD_PCIMEM_START \<le> unat (rg_base (region 0 t2 st'))"
    "unat (rg_base (region 0 t2 st')) + total t2 (ks t2) \<le> unat (rg_base (region 0 t1 st'))"
    "unat (rg_base (region 0 t1 st')) + total t1 (ks t1) \<le> unat BUILD_PCIMEM_END"
    "\<And>u x. u \<in> {t1, t2} \<Longrightarrow> x \<in> set (ks u) \<Longrightarrow> isz u x dvd unat (rg_base (region 0 u st'))"
proof -
  let ?v1 = "ROOT_BASE BUILD_PCIMEM_END (rg_sum (region 0 t1 st)) (rg_max (region 0 t1 st))"
  let ?s1 = "set_base t1 ?v1 st"
  let ?v2 = "ROOT_BASE ?v1 (rg_sum (region 0 t2 st)) (rg_max (region 0 t2 st))"
  let ?s2 = "set_base t2 ?v2 ?s1"
  note r1 = set_base_same [OF assms(3), where t = t1 and v = ?v1]
  have "0 < length (busses ?s1)" using assms(3) by simp
  note r2 = set_base_same [OF this, where t = t2 and v = ?v2]
  have st': "st' = ?s2" "BUILD_PCIMEM_START \<le> ?v2" using assms(1,2) by (auto simp: root_place_def Let_def r1(3) r2(3))
  have space: "unat BUILD_PCIMEM_END = 4273995776" "unat BUILD_PCIMEM_START = 3758096384"
    by (simp_all add: BUILD_PCIMEM_END_def BUILD_PCIMEM_START_def)
  have t1: "total t1 (ks t1) \<le> unat BUILD_PCIMEM_END" using assms(7) by linarith
  note p1 = root_place_ok [OF assms(4) assms(5) t1]
  have t2: "total t2 (ks t2) \<le> unat ?v1" using p1(2) assms(7) space by linarith
  note p2 = root_place_ok [OF assms(4) assms(6) t2]
  have b: "rg_base (region 0 t1 st') = ?v1" "rg_base (region 0 t2 st') = ?v2" using assms(2) by (simp_all add: st' r1(3) r2(3))
  show "same_sizes st st'" using same_sizes_trans [OF r1(1) r2(1)] by (simp add: st')
  show "io_log st' = io_log st" by (simp add: st' r1(2) r2(2))
  show "region 0 u st' = region 0 u st" if "u \<noteq> t1" "u \<noteq> t2" for u using that by (simp add: st' r1(3) r2(3))
  show "unat BUILD_PCIMEM_START \<le> unat (rg_base (region 0 t2 st'))" using st'(2) by (simp only: b word_le_nat_alt)
  show "unat (rg_base (region 0 t2 st')) + total t2 (ks t2) \<le> unat (rg_base (region 0 t1 st'))"
    "unat (rg_base (region 0 t1 st')) + total t1 (ks t1) \<le> unat BUILD_PCIMEM_END"
    using p2(1) p1(1) by (simp_all only: b)
  show "isz u x dvd unat (rg_base (region 0 u st'))" if "u \<in> {t1, t2}" "x \<in> set (ks u)" for u x
    using that p1(3) p2(3) by (auto simp only: b)
qed

lemma root_regions_ok:
  assumes "pci_bios_init_root_regions BUILD_PCIMEM_START BUILD_PCIMEM_END st = (True, st')" "0 < length (busses st)"
    "\<And>t. reserved t (ks t) (region 0 t st)" "ks PCI_REGION_TYPE_MEM \<noteq> []" "ks PCI_REGION_TYPE_PREFMEM \<noteq> []"
    "total PCI_REGION_TYPE_MEM (ks PCI_REGION_TYPE_MEM) + total PCI_REGION_TYPE_PREFMEM (ks PCI_REGION_TYPE_PREFMEM) \<le>
       unat BUILD_PCIMEM_END - unat BUILD_PCIMEM_START"
    "total PCI_REGION_TYPE_IO (ks PCI_REGION_TYPE_IO) \<le> 0x4000"
  defines "base \<equiv> \<lambda>t. unat (rg_base (region 0 t st'))"
  shows "same_sizes st st'" "io_log st' = io_log st" "base PCI_REGION_TYPE_IO = 0xc000"
    "\<And>t. t \<noteq> PCI_REGION_TYPE_IO \<Longrightarrow> unat BUILD_PCIMEM_START \<le> base t \<and> base t + total t (ks t) \<le> unat BUILD_PCIMEM_END"
    "base PCI_REGION_TYPE_MEM + total PCI_REGION_TYPE_MEM (ks PCI_REGION_TYPE_MEM) \<le> base PCI_REGION_TYPE_PREFMEM \<or>
     base PCI_REGION_TYPE_PREFMEM + total PCI_REGION_TYPE_PREFMEM (ks PCI_REGION_TYPE_PREFMEM) \<le> base PCI_REGION_TYPE_MEM"
    "\<And>t x. x \<in> set (ks t) \<Longrightarrow> isz t x dvd base t"
proof -
  let ?IO = PCI_REGION_TYPE_IO and ?MEM = PCI_REGION_TYPE_MEM and ?PRE = PCI_REGION_TYPE_PREFMEM
  let ?s = "set_base ?IO 0xc000 st"
  note r = set_base_same [OF assms(2), where t = ?IO and v = "0xc000"]
  have l: "0 < length (busses ?s)" using assms(2) by simp
  have res: "reserved t (ks t) (region 0 t ?s)" for t
    using assms(3) [of t] by (auto simp: r(3) reserved_def)
  have ab: "root_place ?MEM ?PRE BUILD_PCIMEM_START BUILD_PCIMEM_END ?s = (True, st') \<or>
      root_place ?PRE ?MEM BUILD_PCIMEM_START BUILD_PCIMEM_END ?s = (True, st')"
    using assms(1) by (simp add: pci_bios_init_root_regions_def Let_def split: if_splits)
  have pm: "total ?PRE (ks ?PRE) + total ?MEM (ks ?MEM) \<le> unat BUILD_PCIMEM_END - unat BUILD_PCIMEM_START"
    using assms(6) by simp
  have all: "same_sizes ?s st' \<and> io_log st' = io_log ?s \<and> region 0 ?IO st' = region 0 ?IO ?s \<and>
    (\<forall>t. t \<noteq> ?IO \<longrightarrow> unat BUILD_PCIMEM_START \<le> base t \<and> base t + total t (ks t) \<le> unat BUILD_PCIMEM_END) \<and>
    (base ?MEM + total ?MEM (ks ?MEM) \<le> base ?PRE \<or> base ?PRE + total ?PRE (ks ?PRE) \<le> base ?MEM) \<and>
    (\<forall>t x. t \<noteq> ?IO \<longrightarrow> x \<in> set (ks t) \<longrightarrow> isz t x dvd base t)"
    using ab
  proof
    assume a: "root_place ?MEM ?PRE BUILD_PCIMEM_START BUILD_PCIMEM_END ?s = (True, st')"
    note p = root_place_regions [OF a _ l res assms(4,5,6), simplified, folded base_def]
    show ?thesis
    proof (intro conjI allI impI)
      show "unat BUILD_PCIMEM_START \<le> base t" "base t + total t (ks t) \<le> unat BUILD_PCIMEM_END"
        "\<And>x. x \<in> set (ks t) \<Longrightarrow> isz t x dvd base t" if "t \<noteq> ?IO" for t
        using that p(4-7) unfolding base_def by (cases t; simp)+
    qed (use p in \<open>simp_all add: base_def\<close>)
  next
    assume a: "root_place ?PRE ?MEM BUILD_PCIMEM_START BUILD_PCIMEM_END ?s = (True, st')"
    note p = root_place_regions [OF a _ l res assms(5,4) pm, simplified]
    show ?thesis
    proof (intro conjI allI impI)
      show "unat BUILD_PCIMEM_START \<le> base t" "base t + total t (ks t) \<le> unat BUILD_PCIMEM_END"
        "\<And>x. x \<in> set (ks t) \<Longrightarrow> isz t x dvd base t" if "t \<noteq> ?IO" for t
        using that p(4-7) unfolding base_def by (cases t; simp)+
    qed (use p in \<open>simp_all add: base_def\<close>)
  qed
  show "same_sizes st st'" using same_sizes_trans [OF r(1)] all by blast
  show "io_log st' = io_log st" using r(2) all by simp
  show io: "base ?IO = 0xc000" using all by (simp add: base_def r(3))
  show "unat BUILD_PCIMEM_START \<le> base t \<and> base t + total t (ks t) \<le> unat BUILD_PCIMEM_END" if "t \<noteq> ?IO" for t
    using all that by blast
  show "base ?MEM + total ?MEM (ks ?MEM) \<le> base ?PRE \<or> base ?PRE + total ?PRE (ks ?PRE) \<le> base ?MEM" using all by blast
  show "isz t x dvd base t" if x: "x \<in> set (ks t)" for t x
  proof (cases "t = ?IO")
    case True
    have "isz t x \<le> total t (ks t)" unfolding total_def using x by (intro member_le_sum_list) simp_all
    then have "isz t x \<le> 2 ^ 14" using assms(7) True by simp
    then have "x + pci_index_shift t \<le> 14" unfolding isz_def by (rule power_le_imp_le_exp [rotated]) simp
    then have "isz t x dvd 2 ^ 14" unfolding isz_def by (rule le_imp_power_dvd)
    moreover have "(2 :: nat) ^ 14 dvd 0xc000" by simp
    ultimately have "isz t x dvd 0xc000" by (rule dvd_trans)
    then show ?thesis using io True by simp
  qed (use all x in blast)
qed

section \<open>The allocation\<close>

text \<open>The sizes requested of bus \<open>x\<close>, after pass 1.\<close>

definition demand :: "pci_region_type \<Rightarrow> pci_state \<Rightarrow> nat \<Rightarrow> nat" where
  "demand t st x = total t (bus_reqs t st x 0)"

text \<open>The state in which pass 1 starts, with all statistics cleared.\<close>

definition clear_busses :: "pci_state \<Rightarrow> pci_state" where
  "clear_busses st = st\<lparr>busses := replicate (nat (busses_count st)) (\<lambda>_. no_region)\<rparr>"

text \<open>The requests of the root bus fit the address space, and both memory regions are used.\<close>

definition root_fits :: "pci_state \<Rightarrow> bool" where
  "root_fits st \<longleftrightarrow> demand PCI_REGION_TYPE_IO st 0 \<le> 0x4000 \<and>
     0 < demand PCI_REGION_TYPE_MEM st 0 \<and> 0 < demand PCI_REGION_TYPE_PREFMEM st 0 \<and>
     demand PCI_REGION_TYPE_MEM st 0 + demand PCI_REGION_TYPE_PREFMEM st 0
       \<le> unat BUILD_PCIMEM_END - unat BUILD_PCIMEM_START"

text \<open>The address spaces: two allocations in the same space do not overlap.\<close>

definition disjoint :: "alloc \<Rightarrow> alloc \<Rightarrow> bool" where
  "disjoint e e' \<longleftrightarrow> ((al_type e = PCI_REGION_TYPE_IO) = (al_type e' = PCI_REGION_TYPE_IO) \<longrightarrow>
     al_addr e + al_size e \<le> al_addr e' \<or> al_addr e' + al_size e' \<le> al_addr e)"

definition in_space :: "alloc \<Rightarrow> bool" where
  "in_space e \<longleftrightarrow> (if al_type e = PCI_REGION_TYPE_IO then 0xc000 \<le> al_addr e \<and> al_addr e + al_size e \<le> 0x10000
     else unat BUILD_PCIMEM_START \<le> al_addr e \<and> al_addr e + al_size e \<le> unat BUILD_PCIMEM_END)"

lemma checked_ready:
  assumes "checked 0 0 (\<lambda>_. []) st st'" "\<And>x t. x < n \<Longrightarrow> demand t st' x < 2 ^ 32" "tree (topo st) n"
  shows "ready 0 0 st'" "\<And>t. reserved t (bus_reqs t st' 0 0) (region 0 t st')" "topo st' = topo st"
    "length (busses st') = length (busses st)" "length (PCIDevices st') = length (PCIDevices st)"
proof -
  have sk: "skel st' = skel st" "busses_count st' = busses_count st" using assms(1) by (simp_all add: checked_def)
  show tp: "topo st' = topo st" by (rule topo_skel [OF sk])
  show len: "length (PCIDevices st') = length (PCIDevices st)" by (rule skel_fields(1) [OF sk(1)])
  show "reserved t (bus_reqs t st' 0 0) (region 0 t st')" "length (busses st') = length (busses st)" for t
    using assms(1) by (simp_all add: checked_def)
  show "ready 0 0 st'"
    unfolding ready_def tp len
  proof (intro conjI ballI allI impI)
    show "settled st' x" if "x \<in> sub (topo st) 0 0" for x using assms(1) that by (simp add: checked_def)
    show "total t (bus_reqs t st' x 0) < 2 ^ 32" if "x \<in> sub (topo st) 0 0" for x t
      using assms(2) sub_above [OF assms(3) that] unfolding demand_def by blast
    show "dev_ok st' k" if "k < length (PCIDevices st)" "fst (topo st ! k) = 0" for k
      using assms(1) that by (simp add: checked_def)
  qed
qed

text \<open>The whole allocation, from the devices found by the probe to the last register written.\<close>

lemma pci_allocate_ok:
  assumes "tree (topo st) (nat (busses_count st))" "0 < busses_count st" "\<forall>d\<in>set (PCIDevices st). bars d = no_bars"
    "pci_bios_check_device_in_bus 0 (clear_busses st) = Some st1" "root_fits st1"
    "\<forall>x < nat (busses_count st). \<forall>t. demand t st1 x < 2 ^ 32"
    "fst (pci_bios_init_root_regions BUILD_PCIMEM_START BUILD_PCIMEM_END st1)"
  shows "\<exists>st' as W. pci_allocate st = Some st' \<and> PCIDevices st' = PCIDevices st1 \<and> topo st1 = topo st \<and> topo st' = topo st \<and>
    map bdf (PCIDevices st1) = map bdf (PCIDevices st) \<and>
    cfg_writes (io_log st') = W @ cfg_writes (io_log st1) \<and> served (PCIDevices st1) as W \<and> laid_out as \<and>
    (\<forall>e\<in>set as. in_space e \<and> visited (topo st) 0 0 (al_dev e)) \<and>
    (\<forall>e\<in>set as. \<forall>e'\<in>set as. al_type e = PCI_REGION_TYPE_MEM \<longrightarrow> al_type e' = PCI_REGION_TYPE_PREFMEM \<longrightarrow> disjoint e e') \<and>
    (\<forall>k. visited (topo st) 0 0 k \<longrightarrow> pclass (PCIDevices st1 ! k) \<noteq> PCI_CLASS_BRIDGE_PCI \<longrightarrow> given st1 as k) \<and>
    (\<forall>x\<in>sub (topo st) 0 0. \<forall>e\<in>set as. reach (topo st) x (fst (topo st ! al_dev e)) \<longrightarrow> in_window st' x e) \<and>
    (\<exists>N. narrow_writes (io_log st') = N @ narrow_writes (io_log st1) \<and> set N = window_set 0 0 st') \<and>
    (\<forall>k s. bridge_at (topo st) 0 0 k s \<longrightarrow> set (uppers (bdf (PCIDevices st1 ! k))) \<subseteq> set W) \<and>
    (\<forall>x\<in>sub (topo st) 0 0. \<forall>t. unat (rg_base (region x t st')) + unat (rg_size (region x t st')) \<le>
       (if t = PCI_REGION_TYPE_IO then 2 ^ 16 else 2 ^ 32))"
proof -
  let ?IO = PCI_REGION_TYPE_IO and ?MEM = PCI_REGION_TYPE_MEM and ?PRE = PCI_REGION_TYPE_PREFMEM
  let ?n = "nat (busses_count st)" let ?st = "clear_busses st" let ?K = "\<lambda>t. bus_reqs t st1 0 0"
  have n: "0 < ?n" using assms(2) by simp
  have cl: "PCIDevices ?st = PCIDevices st" "busses_count ?st = busses_count st" "length (busses ?st) = ?n"
    by (simp_all add: clear_busses_def)
  have tp: "topo ?st = topo st" by (simp add: topo_def cl)
  have none: "x < ?n \<Longrightarrow> region x t ?st = no_region" for x t by (simp add: clear_busses_def region_def)
  have fr: "fresh 0 0 ?st"
    unfolding fresh_def tp cl
  proof (intro conjI allI impI ballI)
    show "bars (PCIDevices st ! k) = no_bars" if "k < length (PCIDevices st)" for k using assms(3) that by simp
    show "region x t ?st = no_region" if "x \<in> sub (topo st) 0 0" for x t using none sub_above [OF assms(1) that] by simp
  qed
  have "checked 0 0 (\<lambda>_. []) ?st st1"
    by (rule check_devices_ok [where n = ?n])
      (use assms(1,4) fr n none in \<open>simp_all add: pci_bios_check_device_in_bus_def tp cl reserved_empty\<close>)
  then have checked: "checked 0 0 (\<lambda>_. []) ?st st1" .
  then have sk: "skel st1 = skel ?st" by (simp add: checked_def)
  have dm6: "x < nat (busses_count st) \<Longrightarrow> demand t st1 x < 2 ^ 32" for x t using assms(6) by blast
  note ck = checked_ready [OF checked dm6, unfolded tp, OF _ assms(1), simplified]
  obtain s2 where s2: "pci_bios_init_root_regions BUILD_PCIMEM_START BUILD_PCIMEM_END st1 = (True, s2)"
    using assms(7) by (cases "pci_bios_init_root_regions BUILD_PCIMEM_START BUILD_PCIMEM_END st1") simp
  have fits: "?K ?MEM \<noteq> []" "?K ?PRE \<noteq> []" "total ?IO (?K ?IO) \<le> 0x4000"
    "total ?MEM (?K ?MEM) + total ?PRE (?K ?PRE) \<le> unat BUILD_PCIMEM_END - unat BUILD_PCIMEM_START"
    using assms(5) by (auto simp: root_fits_def demand_def total_def)
  have l1: "0 < length (busses st1)" using ck(4) cl(3) n by simp
  note rt = root_regions_ok [OF s2 l1 ck(2) fits(1,2,4,3)]
  let ?base = "\<lambda>t. unat (rg_base (region 0 t s2))"
  have l2: "0 < length (busses s2)" using rt(1) l1 by (simp add: same_sizes_def)
  note q2 = same_sizes_reqs [OF rt(1)]
  have dm: "total u (?K u) < 2 ^ 32" for u using dm6 [OF n] by (simp add: demand_def)
  have rv2: "reserved u (?K u) (region 0 u s2)" for u
    by (rule reserved_same [OF _ ck(2)]) (use rt(1) in \<open>simp add: same_sizes_def\<close>)
  note ib = init_bases_ok [OF l2 rv2 dm]
  let ?s3 = "pci_bios_init_bus_bases 0 s2"
  have ss3: "same_sizes st1 ?s3" by (rule same_sizes_trans [OF rt(1) ib(1)])
  note q3 = same_sizes_reqs [OF ss3] ready_same [OF ss3]
  have space: "unat BUILD_PCIMEM_END = 4273995776" "unat BUILD_PCIMEM_START = 3758096384"
    by (simp_all add: BUILD_PCIMEM_END_def BUILD_PCIMEM_START_def)
  have room: "?base t + total t (?K t) \<le> 2 ^ 32" for t
    using rt(3) rt(4) [of t] fits(3) space by (cases "t = ?IO") auto
  have "\<exists>st' as W. map_devices 0 0 ?s3 = Some st' \<and> mapped 0 0 ?base ?K (\<lambda>t. length ([] :: nat list)) ?s3 st' as W"
  proof (rule map_devices_ok [where n = ?n])
    show "cursor t (?base t) (?K t) (length []) (region 0 t ?s3)" for t using ib(3) by simp
    show "?K t = [] @ bus_reqs t ?s3 0 0" for t using q3 by simp
    show "?n = length (busses ?s3)" using ss3 ck(4) cl(3) by (simp add: same_sizes_def)
    show "isz t x dvd ?base t" if "x \<in> set (?K t)" for t x by (rule rt(6) [OF that])
    show "?base t + total t (?K t) \<le> 2 ^ 32" for t by (rule room)
  qed (use assms(1) n q3 ck(1,3) in simp_all)
  then obtain st' as W where m: "map_devices 0 0 ?s3 = Some st'" "mapped 0 0 ?base ?K (\<lambda>_. 0) ?s3 st' as W" by auto
  have tp3: "topo ?s3 = topo st" "PCIDevices ?s3 = PCIDevices st1" using q3 ck(3) ss3 by (simp_all add: same_sizes_def)
  have win: "?base (al_type e) \<le> al_addr e \<and> al_addr e + al_size e \<le> ?base (al_type e) + total (al_type e) (?K (al_type e))"
    if e: "e \<in> set as" for e
  proof -
    let ?t = "al_type e"
    have "within ?base ?K (\<lambda>_. 0) (\<lambda>t. length (?K t)) e" using m(2) e by (simp add: mapped_def)
    then obtain q where q: "q < length (?K ?t)" "place ?t (?base ?t) (?K ?t) q \<le> al_addr e"
        "al_addr e + al_size e \<le> place ?t (?base ?t) (?K ?t) q + isz ?t (?K ?t ! q)"
      by (auto simp: within_def Let_def)
    have "indices (?K ?t)" using ck(2) [of ?t] by (simp add: reserved_def)
    from place_bounds [OF this q(1), where base = "?base ?t" and t = ?t] q(2,3) show ?thesis by linarith
  qed
  have al: "pci_allocate st = Some st'"
    using assms(4) s2 m(1) by (simp add: pci_allocate_def Let_def clear_busses_def pci_bios_map_device_in_bus_def)
  have io3: "io_log ?s3 = io_log st1" using ib(2) rt(2) by simp
  obtain N where N: "narrow_writes (io_log st') = N @ narrow_writes (io_log st1)" "set N = window_set 0 0 st'"
    and up: "\<And>k s. bridge_at (topo st) 0 0 k s \<Longrightarrow> set (uppers (bdf (PCIDevices st1 ! k))) \<subseteq> set W"
    and wb: "\<And>x t. x \<in> sub (topo st) 0 0 \<Longrightarrow> unat (rg_base (region x t st')) + unat (rg_size (region x t st')) \<le> ?base t + total t (?K t)"
    by (rule mapped_windows [OF m(2), unfolded io3 tp3]) (rule that; blast)
  show ?thesis
  proof (intro exI conjI ballI allI impI)
    show "pci_allocate st = Some st'" by (rule al)
    show "PCIDevices st' = PCIDevices st1" using m(2) tp3 by (simp add: mapped_def same_sizes_def)
    show "topo st1 = topo st" by (rule ck(3))
    have "same_sizes ?s3 st'" using m(2) by (simp add: mapped_def)
    then show "topo st' = topo st" using same_sizes_reqs(1) tp3(1) by metis
    show "map bdf (PCIDevices st1) = map bdf (PCIDevices st)"
      by (rule nth_equalityI) (use skel_fields [OF sk] cl in simp_all)
    show "cfg_writes (io_log st') = W @ cfg_writes (io_log st1)" using m(2) ib(2) rt(2) by (simp add: mapped_def)
    show "served (PCIDevices st1) as W" "laid_out as" using m(2) by (simp_all add: mapped_def tp3)
    show "in_space e" if "e \<in> set as" for e
      using win [OF that] rt(3) rt(4) [of "al_type e"] fits(3) by (cases "al_type e = ?IO") (auto simp: in_space_def)
    show "visited (topo st) 0 0 (al_dev e)" if "e \<in> set as" for e using m(2) that by (simp add: mapped_def tp3)
    show "disjoint e e'" if "e \<in> set as" "e' \<in> set as" "al_type e = ?MEM" "al_type e' = ?PRE" for e e'
      using win [OF that(1)] win [OF that(2)] rt(5) that(3,4) by (auto simp: disjoint_def)
    show "given st1 as k" if "visited (topo st) 0 0 k" "pclass (PCIDevices st1 ! k) \<noteq> PCI_CLASS_BRIDGE_PCI" for k
      using m(2) that by (simp add: mapped_def tp3 given_def)
    show "in_window st' x e" if "x \<in> sub (topo st) 0 0" "e \<in> set as" "reach (topo st) x (fst (topo st ! al_dev e))" for x e
      using m(2) that by (simp add: mapped_def tp3)
    show "narrow_writes (io_log st') = N @ narrow_writes (io_log st1)" "set N = window_set 0 0 st'" by (rule N)+
    show "set (uppers (bdf (PCIDevices st1 ! k))) \<subseteq> set W" if "bridge_at (topo st) 0 0 k s" for k s
      by (rule up [OF that])
    have "?base t + total t (?K t) \<le> (if t = ?IO then 2 ^ 16 else 2 ^ 32)" for t using room [of t] rt(3) fits(3) by simp
    then show "unat (rg_base (region x t st')) + unat (rg_size (region x t st')) \<le> (if t = ?IO then 2 ^ 16 else 2 ^ 32)"
      if "x \<in> sub (topo st) 0 0" for x t
      using le_trans [OF wb [OF that]] by blast
  qed
qed


text \<open>What a bridge decodes: the addresses from the base up to the limit, read from the registers last written.\<close>

definition bridge_range :: "((u32 \<times> u16) \<times> u32) list \<Rightarrow> u16 \<Rightarrow> pci_region_type \<Rightarrow> (u32 \<times> u32) option" where
  "bridge_range N b t = (let reg = (\<lambda>r. map_of N (reg_key b r)) in
     case t of
       PCI_REGION_TYPE_IO \<Rightarrow>
         (case (reg PCI_IO_BASE, reg PCI_IO_BASE_UPPER16, reg PCI_IO_LIMIT, reg PCI_IO_LIMIT_UPPER16) of
            (Some l, Some lu, Some h, Some hu) \<Rightarrow>
              Some (push_bit 16 lu OR push_bit 8 (l AND 0xf0), push_bit 16 hu OR push_bit 8 (h AND 0xf0) OR 0xfff)
          | _ \<Rightarrow> None)
     | PCI_REGION_TYPE_MEM \<Rightarrow>
         (case (reg PCI_MEMORY_BASE, reg PCI_MEMORY_LIMIT) of
            (Some l, Some h) \<Rightarrow> Some (push_bit 16 (l AND 0xfff0), push_bit 16 (h AND 0xfff0) OR 0xfffff)
          | _ \<Rightarrow> None)
     | PCI_REGION_TYPE_PREFMEM \<Rightarrow>
         (case (reg PCI_PREF_MEMORY_BASE, reg PCI_PREF_MEMORY_LIMIT) of
            (Some l, Some h) \<Rightarrow> Some (push_bit 16 (l AND 0xfff0), push_bit 16 (h AND 0xfff0) OR 0xfffff)
          | _ \<Rightarrow> None))"

definition forwards :: "((u32 \<times> u16) \<times> u32) list \<Rightarrow> u16 \<Rightarrow> alloc \<Rightarrow> bool" where
  "forwards N b e \<longleftrightarrow> (case bridge_range N b (al_type e) of None \<Rightarrow> False
     | Some (lo, hi) \<Rightarrow> unat lo \<le> al_addr e \<and> al_addr e + al_size e \<le> unat hi + 1)"

lemma cfg_key_bdf: "ucast (drop_bit 8 (cfg_key b ad)) = b"
proof (rule bit_word_eqI)
  fix n assume "n < LENGTH(16)"
  then have n: "n < 16" by simp
  have m: "bit (8388608 :: u32) n = False" "bit (0xfc :: u32) (8 + n) = False"
    using n by (simp_all add: less_Suc_eq numeral_eq_Suc, auto)
  show "bit (ucast (drop_bit 8 (cfg_key b ad)) :: u16) n = bit b n"
    using n m by (simp add: cfg_key_def bit_simps)
qed
lemma cfg_key_reg: "take_bit 8 (cfg_key b ad) = ad AND 0xfc"
proof (rule bit_word_eqI)
  fix n assume "n < LENGTH(32)"
  then have n: "n < 32" by simp
  have m: "n < 8 \<Longrightarrow> bit (0x80000000 :: u32) n = False" "bit (0xfc :: u32) n \<Longrightarrow> n < 8"
    using n by (simp_all add: less_Suc_eq numeral_eq_Suc, auto)
  show "bit (take_bit 8 (cfg_key b ad)) n = bit (ad AND 0xfc) n"
    using n m by (cases "n < 8") (simp_all add: cfg_key_def bit_simps, auto)
qed
lemma reg_key_bdf: "reg_key b r = reg_key b' r' \<Longrightarrow> b = b'"
  using cfg_key_bdf [of b r] cfg_key_bdf [of b' r'] by (simp add: reg_key_def)

lemma reg_key_eq: "reg_key b r = reg_key b r' \<longleftrightarrow> r AND 0xfc = r' AND 0xfc \<and> (ucast (r AND 3) :: u16) = ucast (r' AND 3)"
  unfolding reg_key_def using cfg_key_reg [of b r] cfg_key_reg [of b r'] by (metis add_left_cancel cfg_key_def prod.inject)

lemma nibbles:
  "bit (0xf0 :: u32) n \<longleftrightarrow> 4 \<le> n \<and> n < 8" "bit (0xf000 :: u32) n \<longleftrightarrow> 12 \<le> n \<and> n < 16"
  "bit (0xfff0 :: u32) n \<longleftrightarrow> 4 \<le> n \<and> n < 16" "bit (0xfff00000 :: u32) n \<longleftrightarrow> 20 \<le> n \<and> n < 32"
proof -
  have e: "(0xf0 :: u32) = push_bit 4 (mask 4)" "(0xf000 :: u32) = push_bit 12 (mask 4)"
    "(0xfff0 :: u32) = push_bit 4 (mask 12)" "(0xfff00000 :: u32) = push_bit 20 (mask 12)"
    by (simp_all add: mask_eq_exp_minus_1)
  show "bit (0xf0 :: u32) n \<longleftrightarrow> 4 \<le> n \<and> n < 8" "bit (0xf000 :: u32) n \<longleftrightarrow> 12 \<le> n \<and> n < 16"
    "bit (0xfff0 :: u32) n \<longleftrightarrow> 4 \<le> n \<and> n < 16" "bit (0xfff00000 :: u32) n \<longleftrightarrow> 20 \<le> n \<and> n < 32"
    unfolding e by (auto simp: bit_push_bit_iff bit_mask_iff)
qed

lemma window_keys:
  "distinct (map fst (window_writes b s st))" "w \<in> set (window_writes b s st) \<Longrightarrow> \<exists>r. fst w = reg_key b r"
proof -
  show "distinct (map fst (window_writes b s st))" by (simp add: window_writes_def Let_def reg_key_eq bridge_regs)
  show "w \<in> set (window_writes b s st) \<Longrightarrow> \<exists>r. fst w = reg_key b r" by (auto simp: window_writes_def Let_def)
qed

text \<open>The window of a bridge is what was written last, as no two bridges have the same address.\<close>

lemma window_last:
  assumes "set N = window_set 0 0 st" "distinct (map bdf (PCIDevices st))" "bridge_at (topo st) 0 0 k s"
    "(r, v) \<in> set (window_writes (bdf (PCIDevices st ! k)) s st)"
  shows "map_of N r = Some v"
proof -
  have "(r, v) \<in> set N" using assms(1,3,4) unfolding window_set_def by blast
  then obtain v' where v': "map_of N r = Some v'" by (metis domIff dom_map_of_conv_image_fst fst_conv imageI option.exhaust)
  then have "(r, v') \<in> set N" by (rule map_of_SomeD)
  then obtain k' s' where k': "bridge_at (topo st) 0 0 k' s'" "(r, v') \<in> set (window_writes (bdf (PCIDevices st ! k')) s' st)"
    using assms(1) unfolding window_set_def by blast
  have "bdf (PCIDevices st ! k') = bdf (PCIDevices st ! k)"
    using window_keys(2) [OF k'(2)] window_keys(2) [OF assms(4)] reg_key_bdf by (metis fst_conv)
  moreover have "k < length (PCIDevices st)" "k' < length (PCIDevices st)"
    using assms(3) k'(1) by (simp_all add: bridge_at_def visited_def)
  ultimately have "k' = k" using assms(2) by (simp add: distinct_conv_nth) (metis nth_map length_map)
  moreover from this have "s' = s" using assms(3) k'(1) by (simp add: bridge_at_def)
  ultimately have "v' = v" using k'(2) assms(4) window_keys(1) by (metis eq_key_imp_eq_value)
  then show ?thesis using v' by simp
qed

text \<open>Decoding the registers written: the range covers the region.\<close>

lemma io_register:
  assumes "unat (x :: u32) < 2 ^ 16"
  shows "push_bit 8 (ucast (ucast (drop_bit 8 x) :: u8) AND 0xf0) = x AND 0xf000"
proof (rule bit_word_eqI)
  fix n assume "n < LENGTH(32)"
  then have n: "n < 32" by simp
  have "x = take_bit 16 x" using assms by (simp add: word_unat_eq_iff unsigned_take_bit_eq take_bit_nat_eq_self)
  then have b: "bit x n \<Longrightarrow> n < 16" by (metis bit_take_bit_iff)
  have m: "(8 \<le> n \<and> n - 8 < 8 \<and> bit (0xf0 :: u32) (n - 8)) \<longleftrightarrow> bit (0xf000 :: u32) n"
    using n unfolding nibbles by auto
  have "bit (push_bit 8 (ucast (ucast (drop_bit 8 x) :: u8) AND 0xf0) :: u32) n \<longleftrightarrow>
      8 \<le> n \<and> n - 8 < 8 \<and> bit (0xf0 :: u32) (n - 8) \<and> bit x (8 + (n - 8))"
    using n by (simp only: bit_push_bit_iff bit_and_iff bit_ucast_iff bit_drop_bit_eq possible_bit_word o_def) auto
  then show "bit (push_bit 8 (ucast (ucast (drop_bit 8 x) :: u8) AND 0xf0) :: u32) n = bit (x AND 0xf000) n"
    using m b by (simp only: bit_and_iff) auto
qed
lemma mem_register:
  "push_bit 16 (ucast (ucast (drop_bit 16 x) :: u16) AND 0xfff0) = (x :: u32) AND 0xfff00000"
proof (rule bit_word_eqI)
  fix n assume "n < LENGTH(32)"
  then have n: "n < 32" by simp
  have m: "(16 \<le> n \<and> n - 16 < 16 \<and> bit (0xfff0 :: u32) (n - 16)) \<longleftrightarrow> bit (0xfff00000 :: u32) n"
    using n unfolding nibbles by auto
  have "bit (push_bit 16 (ucast (ucast (drop_bit 16 x) :: u16) AND 0xfff0) :: u32) n \<longleftrightarrow>
      16 \<le> n \<and> n - 16 < 16 \<and> bit (0xfff0 :: u32) (n - 16) \<and> bit x (16 + (n - 16))"
    using n by (simp only: bit_push_bit_iff bit_and_iff bit_ucast_iff bit_drop_bit_eq possible_bit_word o_def) auto
  then show "bit (push_bit 16 (ucast (ucast (drop_bit 16 x) :: u16) AND 0xfff0) :: u32) n = bit (x AND 0xfff00000) n"
    using m by (simp only: bit_and_iff) auto
qed
lemma mask_bits: "x AND (NOT (mask k)) OR mask k = (x :: u32) OR mask k"
  by (rule bit_word_eqI) (auto simp: bit_simps)


lemma registers_cover:
  fixes x y :: u32
  shows "unat (x AND m) \<le> unat x" "unat y < 2 ^ 16 \<Longrightarrow> unat y \<le> unat (y AND 0xf000 OR 0xfff)"
    "unat y \<le> unat (y AND 0xfff00000 OR 0xfffff)"
proof -
  have m: "mask 12 = (0xfff :: u32)" "mask 20 = (0xfffff :: u32)" "(0xfff00000 :: u32) = NOT (mask 20)"
    "(0xf000 :: u32) = mask 16 AND NOT (mask 12)" by (simp_all add: mask_eq_exp_minus_1)
  have le: "unat y \<le> unat (y AND NOT (mask k) OR mask k)" for k
    unfolding mask_bits word_le_nat_alt [symmetric] by (rule le_word_or2)
  show "unat (x AND m) \<le> unat x" unfolding word_le_nat_alt [symmetric] by (rule word_and_le2)
  show "unat y \<le> unat (y AND 0xfff00000 OR 0xfffff)" using le [of 20] unfolding m .
  assume "unat y < 2 ^ 16"
  then have "y AND mask 16 = y" by (simp add: word_unat_eq_iff unsigned_take_bit_eq take_bit_nat_eq_self flip: take_bit_eq_mask)
  then have "y AND 0xf000 = y AND NOT (mask 12)" unfolding m(4) by (metis and.assoc)
  then show "unat y \<le> unat (y AND 0xf000 OR 0xfff)" using le [of 12] unfolding m(1) by simp
qed

lemma limit_unat:
  assumes "al_addr e < unat (rg_base rg) + unat (rg_size rg)" "unat (rg_base rg) + unat (rg_size rg) \<le> 2 ^ 32"
  shows "unat (region_limit rg) + 1 = unat (rg_base rg) + unat (rg_size rg)"
proof -
  let ?n = "unat (rg_base rg) + unat (rg_size rg)"
  have "region_limit rg = of_nat (?n - 1)" using assms(1) by (simp add: region_limit_def of_nat_diff)
  then have "unat (region_limit rg) = ?n - 1" using assms(2) by (simp add: unsigned_of_nat take_bit_nat_eq_self)
  then show ?thesis using assms(1) by simp
qed

lemma bridge_forwards:
  assumes "set N = window_set 0 0 st" "distinct (map bdf (PCIDevices st))" "bridge_at (topo st) 0 0 k s"
    "in_window st s e" "0 < al_size e"
    "unat (rg_base (region s (al_type e) st)) + unat (rg_size (region s (al_type e) st)) \<le>
       (if al_type e = PCI_REGION_TYPE_IO then 2 ^ 16 else 2 ^ 32)"
  shows "forwards N (bdf (PCIDevices st ! k)) e"
proof -
  let ?rg = "region s (al_type e) st" and ?b = "bdf (PCIDevices st ! k)"
  note last = window_last [OF assms(1-3)]
  have w: "unat (rg_base ?rg) \<le> al_addr e" "al_addr e + al_size e \<le> unat (rg_base ?rg) + unat (rg_size ?rg)"
    using assms(4) by (simp_all add: in_window_def Let_def)
  have "unat (rg_base ?rg) + unat (rg_size ?rg) \<le> 2 ^ 32" using assms(6) by (auto split: if_splits)
  then have l: "unat (region_limit ?rg) + 1 = unat (rg_base ?rg) + unat (rg_size ?rg)"
    using limit_unat [of e ?rg] w assms(5) by simp
  show ?thesis
  proof (cases "al_type e")
    case PCI_REGION_TYPE_IO
    have lt: "unat (rg_base ?rg) < 2 ^ 16" "unat (region_limit ?rg) < 2 ^ 16" using assms(5,6) w l PCI_REGION_TYPE_IO by simp_all
    note in_writes = window_writes_def Let_def PCI_REGION_TYPE_IO
    have io: "map_of N (reg_key ?b PCI_IO_BASE) = Some (ucast (ucast (drop_bit 8 (rg_base ?rg)) :: u8))"
      "map_of N (reg_key ?b PCI_IO_LIMIT) = Some (ucast (ucast (drop_bit 8 (region_limit ?rg)) :: u8))"
      "map_of N (reg_key ?b PCI_IO_BASE_UPPER16) = Some 0" "map_of N (reg_key ?b PCI_IO_LIMIT_UPPER16) = Some 0"
      by (rule last, simp add: in_writes)+
    have "bridge_range N (bdf (PCIDevices st ! k)) PCI_REGION_TYPE_IO =
        Some (rg_base ?rg AND 0xf000, region_limit ?rg AND 0xf000 OR 0xfff)"
      using io_register [OF lt(1)] io_register [OF lt(2)] io by (simp add: bridge_range_def Let_def PCI_REGION_TYPE_IO)
    then show ?thesis
      using registers_cover(1) [of "rg_base ?rg" "0xf000"] registers_cover(2) [OF lt(2)] w l
      by (simp add: forwards_def PCI_REGION_TYPE_IO)
  next
    case PCI_REGION_TYPE_MEM
    note in_writes = window_writes_def Let_def PCI_REGION_TYPE_MEM
    have mem: "map_of N (reg_key ?b PCI_MEMORY_BASE) = Some (ucast (ucast (drop_bit 16 (rg_base ?rg)) :: u16))"
      "map_of N (reg_key ?b PCI_MEMORY_LIMIT) = Some (ucast (ucast (drop_bit 16 (region_limit ?rg)) :: u16))"
      by (rule last, simp add: in_writes)+
    have "bridge_range N (bdf (PCIDevices st ! k)) PCI_REGION_TYPE_MEM =
        Some (rg_base ?rg AND 0xfff00000, region_limit ?rg AND 0xfff00000 OR 0xfffff)"
      using mem_register [of "rg_base ?rg"] mem_register [of "region_limit ?rg"] mem by (simp add: bridge_range_def Let_def PCI_REGION_TYPE_MEM)
    then show ?thesis
      using registers_cover(1) [of "rg_base ?rg" "0xfff00000"] registers_cover(3) [of "region_limit ?rg"] w l
      by (simp add: forwards_def PCI_REGION_TYPE_MEM)
  next
    case PCI_REGION_TYPE_PREFMEM
    note in_writes = window_writes_def Let_def PCI_REGION_TYPE_PREFMEM
    have mem: "map_of N (reg_key ?b PCI_PREF_MEMORY_BASE) = Some (ucast (ucast (drop_bit 16 (rg_base ?rg)) :: u16))"
      "map_of N (reg_key ?b PCI_PREF_MEMORY_LIMIT) = Some (ucast (ucast (drop_bit 16 (region_limit ?rg)) :: u16))"
      by (rule last, simp add: in_writes)+
    have "bridge_range N (bdf (PCIDevices st ! k)) PCI_REGION_TYPE_PREFMEM =
        Some (rg_base ?rg AND 0xfff00000, region_limit ?rg AND 0xfff00000 OR 0xfffff)"
      using mem_register [of "rg_base ?rg"] mem_register [of "region_limit ?rg"] mem by (simp add: bridge_range_def Let_def PCI_REGION_TYPE_PREFMEM)
    then show ?thesis
      using registers_cover(1) [of "rg_base ?rg" "0xfff00000"] registers_cover(3) [of "region_limit ?rg"] w l
      by (simp add: forwards_def PCI_REGION_TYPE_PREFMEM)
  qed
qed

text \<open>C8: The window registers of the bridges pass what is behind them. Under the conditions of the theorem
  above, that is a tree of buses, a pass 1 that finds sizes it knows, non-zero requests of the root bus for both memory
  types, which fit the PCI address space together as the I/O requests fit 16 KB, less than 4 GB requested of
  every bus, and room found for the root regions, and when no two devices have the same address: the
  allocation returns, every device reached that is no bridge has been given its addresses, and for each bridge reached,
  what was written last to its base and limit registers, decoded as a bridge does (the high nibble of an I/O
  register for address bits 12 to 15 with the upper 16 bits, the high 12 bits of a memory register for bits 20
  to 31), is a range that contains every address given to a register of that type of a device on the bus
  behind it or on a bus further down. The upper halves of its prefetchable window are written as zero.\<close>

theorem pci_windows_cover:
  assumes "tree (topo st) (nat (busses_count st))" "0 < busses_count st" "\<forall>d\<in>set (PCIDevices st). bars d = no_bars"
    "pci_bios_check_device_in_bus 0 (clear_busses st) = Some st1" "root_fits st1"
    "\<forall>x < nat (busses_count st). \<forall>t. demand t st1 x < 2 ^ 32"
    "fst (pci_bios_init_root_regions BUILD_PCIMEM_START BUILD_PCIMEM_END st1)"
    "distinct (map bdf (PCIDevices st))"
  shows "\<exists>st' as W N. pci_allocate st = Some st' \<and> cfg_writes (io_log st') = W @ cfg_writes (io_log st1) \<and>
    narrow_writes (io_log st') = N @ narrow_writes (io_log st1) \<and> served (PCIDevices st1) as W \<and>
    (\<forall>k. visited (topo st) 0 0 k \<longrightarrow> pclass (PCIDevices st1 ! k) \<noteq> PCI_CLASS_BRIDGE_PCI \<longrightarrow> given st1 as k) \<and>
    (\<forall>k s. bridge_at (topo st) 0 0 k s \<longrightarrow> set (uppers (bdf (PCIDevices st ! k))) \<subseteq> set W \<and>
       (\<forall>e\<in>set as. reach (topo st) s (fst (topo st ! al_dev e)) \<longrightarrow> forwards N (bdf (PCIDevices st ! k)) e))"
proof -
  obtain st' as W N where a: "pci_allocate st = Some st'" "PCIDevices st' = PCIDevices st1"
    "cfg_writes (io_log st') = W @ cfg_writes (io_log st1)" "served (PCIDevices st1) as W" "laid_out as"
    "\<forall>k. visited (topo st) 0 0 k \<longrightarrow> pclass (PCIDevices st1 ! k) \<noteq> PCI_CLASS_BRIDGE_PCI \<longrightarrow> given st1 as k"
    "\<forall>x\<in>sub (topo st) 0 0. \<forall>e\<in>set as. reach (topo st) x (fst (topo st ! al_dev e)) \<longrightarrow> in_window st' x e"
    "narrow_writes (io_log st') = N @ narrow_writes (io_log st1)" "set N = window_set 0 0 st'"
    "\<forall>k s. bridge_at (topo st) 0 0 k s \<longrightarrow> set (uppers (bdf (PCIDevices st1 ! k))) \<subseteq> set W"
    "\<forall>x\<in>sub (topo st) 0 0. \<forall>t. unat (rg_base (region x t st')) + unat (rg_size (region x t st')) \<le>
       (if t = PCI_REGION_TYPE_IO then 2 ^ 16 else 2 ^ 32)" "topo st' = topo st" "map bdf (PCIDevices st1) = map bdf (PCIDevices st)"
    using pci_allocate_ok [OF assms(1-7)] by (elim exE conjE) (rule that; (assumption | blast))
  have d: "distinct (map bdf (PCIDevices st'))" using assms(8) a(2,13) by simp
  have "set (uppers (bdf (PCIDevices st ! k))) \<subseteq> set W \<and>
      (\<forall>e\<in>set as. reach (topo st) s (fst (topo st ! al_dev e)) \<longrightarrow> forwards N (bdf (PCIDevices st ! k)) e)"
    if k: "bridge_at (topo st) 0 0 k s" for k s
  proof -
    have s: "s \<in> sub (topo st) 0 0" by (rule bridge_at_sub [OF k])
    have "k < length (PCIDevices st)" using k by (simp add: bridge_at_def visited_def)
    then have b: "bdf (PCIDevices st1 ! k) = bdf (PCIDevices st ! k)" using a(13) by (metis length_map nth_map)
    have "forwards N (bdf (PCIDevices st' ! k)) e" if e: "e \<in> set as" "reach (topo st) s (fst (topo st ! al_dev e))" for e
    proof (rule bridge_forwards [OF a(9) d _ _ _ spec [OF bspec [OF a(11) s]]])
      show "bridge_at (topo st') 0 0 k s" "in_window st' s e" "0 < al_size e" 
        using k a(5,7,12) s e by (simp_all add: laid_out_def)
    qed
    moreover have "set (uppers (bdf (PCIDevices st ! k))) \<subseteq> set W" using a(10) k b by metis
    ultimately show ?thesis using a(2) b by simp
  qed
  then show ?thesis using a(1,3,4,6,8) by blast
qed

text \<open>C37: Without a request for prefetchable memory the end of the address space is not respected: the
  alignment of \<open>ROOT_BASE\<close> is then 0, which places the empty region at address 0 and the memory region
  below the wrapped end of the 32-bit space. The function reports success, and when at most 10 MB are
  requested all of it lies at or above \<open>BUILD_PCIMEM_END\<close>, over the interrupt controllers and the BIOS.\<close>

theorem root_ignores_end:
  assumes "0 < length (busses st)" "\<forall>t. reserved t (ks t) (region 0 t st)" "ks PCI_REGION_TYPE_PREFMEM = []"
    "ks PCI_REGION_TYPE_MEM \<noteq> []" "total PCI_REGION_TYPE_MEM (ks PCI_REGION_TYPE_MEM) \<le> 0xa00000"
  shows "\<exists>st'. pci_bios_init_root_regions BUILD_PCIMEM_START BUILD_PCIMEM_END st = (True, st') \<and>
    BUILD_PCIMEM_END \<le> rg_base (region 0 PCI_REGION_TYPE_MEM st')"
proof -
  let ?IO = PCI_REGION_TYPE_IO and ?MEM = PCI_REGION_TYPE_MEM and ?PRE = PCI_REGION_TYPE_PREFMEM
  let ?sm = "rg_sum (region 0 ?MEM st)" and ?mx = "rg_max (region 0 ?MEM st)" let ?v = "ROOT_BASE 0 ?sm ?mx"
  have m: "indices (ks ?MEM)" "?sm = of_nat (total ?MEM (ks ?MEM))" "?mx = of_nat (peak ?MEM (ks ?MEM))"
    using assms(2) by (simp_all add: reserved_def)
  have p: "rg_sum (region 0 ?PRE st) = 0" "rg_max (region 0 ?PRE st) = 0"
    using spec [OF assms(2), of ?PRE] assms(3) by (simp_all add: reserved_def total_def peak_def)
  have sm: "unat ?sm = total ?MEM (ks ?MEM)" using assms(5) by (simp add: m(2) unsigned_of_nat take_bit_nat_eq_self)
  obtain i where i: "peak ?MEM (ks ?MEM) = isz ?MEM i" by (rule peak_member [OF assms(4)])
  have mx: "unat ?mx = peak ?MEM (ks ?MEM)" using unat_peak [OF m(1), of ?MEM] by (simp add: m(3))
  let ?k = "i + pci_index_shift ?MEM"
  have al: "?mx = 2 ^ ?k" using m(3) i by (simp add: isz_def)
  have k: "2 ^ ?k \<le> unat ?sm" using peak_total [of ?MEM "ks ?MEM"] i sm by (simp add: isz_def)
  then have lt: "?k < 32"
    using sm assms(5) power_less_imp_less_exp [of "2 :: nat" ?k 32] by simp
  have "0 < unat ?sm" using k zero_less_power [of "2 :: nat" ?k] by linarith
  then have "0 < ?sm" by (simp add: word_less_nat_alt)
  then have neg: "unat (0 - ?sm) = 2 ^ 32 - unat ?sm" using unat_sub_wrap32 [of 0 ?sm] by (simp only: unat_0) simp
  have "unat ?v = (2 ^ 32 - unat ?sm) div 2 ^ ?k * 2 ^ ?k"
    unfolding ROOT_BASE_def align_down_unat [OF al lt] neg ..
  then have "2 ^ 32 - unat ?sm < unat ?v + 2 ^ ?k"
    using dividend_less_div_times [of "2 ^ ?k" "2 ^ 32 - unat ?sm"] by simp
  then have "4273995776 \<le> unat ?v" using k sm assms(5) by simp
  then have v: "BUILD_PCIMEM_END \<le> ?v" by (simp add: word_le_nat_alt BUILD_PCIMEM_END_def)
  then have v2: "BUILD_PCIMEM_START \<le> ?v" by (rule order_trans [rotated]) (simp add: BUILD_PCIMEM_START_def BUILD_PCIMEM_END_def)
  have zero: "ROOT_BASE x 0 0 = 0" for x by (simp add: ROOT_BASE_def ALIGN_DOWN_def)
  let ?s1 = "set_base ?IO 0xc000 st" let ?s2 = "set_base ?PRE 0 ?s1" let ?s3 = "set_base ?MEM ?v ?s2"
  have l: "0 < length (busses ?s1)" "0 < length (busses ?s2)" using assms(1) by simp_all
  note r = set_base_same(3) [OF assms(1)] set_base_same(3) [OF l(1)] set_base_same(3) [OF l(2)]
  have "pci_bios_init_root_regions BUILD_PCIMEM_START BUILD_PCIMEM_END st = (True, ?s3)"
    using v2 by (simp add: pci_bios_init_root_regions_def root_place_def Let_def r p zero)
  moreover have "rg_base (region 0 ?MEM ?s3) = ?v" by (simp add: r)
  ultimately show ?thesis using v by (intro exI [of _ ?s3]) simp
qed

section \<open>An example\<close>

text \<open>A configuration space: a register shows the bits of \<open>msk\<close> in the value written by the access
  before, beside fixed bits \<open>flags\<close>.\<close>

fun last_write :: "io_event list \<Rightarrow> u32" where
  "last_write (_ # PortOut W32 p v # _) = v"
| "last_write _ = 0"

definition config_space :: "(u32 \<Rightarrow> u32 \<times> u32) \<Rightarrow> device" where
  "config_space regs l w p = (if w = W32 \<and> p = PORT_PCI_DATA then
     (case regs (cfg_sel l) of (msk, flags) \<Rightarrow> last_write l AND msk OR flags) else 0)"

text \<open>A network card with two memory regions, and a bridge with a card with one I/O region behind it.\<close>

definition demo_dev :: "u16 \<Rightarrow> u16 \<Rightarrow> u8 \<Rightarrow> pci_device" where
  "demo_dev b cls sec = \<lparr>bdf = b, rootbus = 0, parent = None, vendor = 0, device_id = 0, pclass = cls,
     prog_if = 0, revision = 0, header_type = 0, secondary_bus = sec, bars = no_bars\<rparr>"

definition demo_regs_pci :: "u32 \<Rightarrow> u32 \<times> u32" where
  "demo_regs_pci = (\<lambda>_. (0, 0))
     (0x80000810 := (0xfffff000, 0), 0x80000814 := (0xffffe000, 8), 0x80010010 := (0xffffffe0, 1))"

definition demo_pci :: pci_state where
  "demo_pci = \<lparr>mem = (\<lambda>_. 0), io_log = [], dev = config_space demo_regs_pci,
     PCIDevices = [demo_dev 0x0008 0x0200 0, demo_dev 0x0010 0x0604 1, demo_dev 0x0100 0x0200 0],
     MaxPCIBus = 1, busses = [], busses_count = 2\<rparr>"

lemmas pci_eval = cfg_access pci_select_def inl_def inb_def outl_def pci_bios_bus_get_bar_def pci_bar_def config_space_def demo_regs_pci_def PORT_PCI_CMD_def PORT_PCI_DATA_def
   PCI_ROM_SLOT_def PCI_NUM_REGIONS_def PCI_ROM_ADDRESS_MASK_def PCI_BASE_ADDRESS_SPACE_IO_def PCI_BASE_ADDRESS_IO_MASK_def PCI_BASE_ADDRESS_MEM_MASK_def
 PCI_BASE_ADDRESS_0_def PCI_HEADER_TYPE_def PCI_HEADER_TYPE_MULTI_FUNCTION_def PCI_HEADER_TYPE_BRIDGE_def PCI_ROM_ADDRESS_def PCI_ROM_ADDRESS1_def demo_pci_def demo_dev_def no_bars_def clear_busses_def

lemma demo_index:
  "pci_size_to_index 0x1000 PCI_REGION_TYPE_MEM = Some 0" "pci_size_to_index 0x2000 PCI_REGION_TYPE_PREFMEM = Some 1"
  "pci_size_to_index 0x20 PCI_REGION_TYPE_IO = Some 3" "pci_size_to_index 0x1000 PCI_REGION_TYPE_IO = Some 10"
  "pci_size_to_index 0x100000 PCI_REGION_TYPE_MEM = Some 8" "pci_size_to_index 0x100000 PCI_REGION_TYPE_PREFMEM = Some 8"
  "pci_size_roundup 0x1000 = Some 0x1000" "pci_size_roundup 0x100000 = Some 0x100000"
  by code_simp+

lemma demo_size:
  "pci_index_to_size 0 PCI_REGION_TYPE_MEM = 0x1000" "pci_index_to_size (Suc 0) PCI_REGION_TYPE_PREFMEM = 0x2000"
  "pci_index_to_size 3 PCI_REGION_TYPE_IO = 0x20" "pci_index_to_size 10 PCI_REGION_TYPE_IO = 0x1000"
  "pci_index_to_size 8 PCI_REGION_TYPE_MEM = 0x100000" "pci_index_to_size 8 PCI_REGION_TYPE_PREFMEM = 0x100000"
      apply code_simp
     apply (simp add: pci_index_to_size_def pci_index_shift_def PCI_MEM_INDEX_SHIFT_def)
  by code_simp+

lemma demo_consts:
  "PCI_REGION_SLOTS = 20"  "- 4294963200 = (0x1000 :: u32)"  "- 4294959104 = (0x2000 :: u32)" "- 4294967264 = (0x20 :: u32)"
  by (simp_all add: PCI_REGION_SLOTS_def PCI_MEM_INDEX_SHIFT_def)

lemma demo_region: "no_region = \<lparr>rg_count = [0,0,0,0,0,0,0,0,0,0,0,0,0,0,0,0,0,0,0,0], rg_sum = 0, rg_max = 0, rg_size = 0,
  rg_bases = [0,0,0,0,0,0,0,0,0,0,0,0,0,0,0,0,0,0,0,0], rg_base = 0\<rparr>"
  by code_simp

lemma demo_start:
  "clear_busses demo_pci = \<lparr>mem = (\<lambda>_. 0), io_log = [], dev = config_space demo_regs_pci,
     PCIDevices = [demo_dev 0x0008 0x0200 0, demo_dev 0x0010 0x0604 1, demo_dev 0x0100 0x0200 0],
     MaxPCIBus = 1, busses = [\<lambda>_. no_region, \<lambda>_. no_region], busses_count = 2\<rparr>"
  by (simp add: clear_busses_def demo_pci_def numeral_eq_Suc)

lemma demo_bars: "demo_dev b cls sec = \<lparr>bdf = b, rootbus = 0, parent = None, vendor = 0, device_id = 0, pclass = cls,
     prog_if = 0, revision = 0, header_type = 0, secondary_bus = sec, bars =  [\<lparr>bar_addr = 0, bar_size = 0, is64 = False\<rparr>,
                  \<lparr>bar_addr = 0, bar_size = 0, is64 = False\<rparr>, \<lparr>bar_addr = 0, bar_size = 0, is64 = False\<rparr>,
                  \<lparr>bar_addr = 0, bar_size = 0, is64 = False\<rparr>, \<lparr>bar_addr = 0, bar_size = 0, is64 = False\<rparr>,
                   \<lparr>bar_addr = 0, bar_size = 0, is64 = False\<rparr>,\<lparr>bar_addr = 0, bar_size = 0, is64 = False\<rparr>]\<rparr>"
  by code_simp

lemmas pci_chip = cfg_access pci_select_def inl_def inb_def outl_def pci_bios_bus_get_bar_def pci_bar_def config_space_def demo_regs_pci_def PORT_PCI_CMD_def PORT_PCI_DATA_def
   PCI_ROM_SLOT_def PCI_NUM_REGIONS_def PCI_ROM_ADDRESS_MASK_def PCI_BASE_ADDRESS_SPACE_IO_def PCI_BASE_ADDRESS_IO_MASK_def PCI_BASE_ADDRESS_MEM_MASK_def
 PCI_BASE_ADDRESS_0_def PCI_HEADER_TYPE_def PCI_HEADER_TYPE_MULTI_FUNCTION_def PCI_HEADER_TYPE_BRIDGE_def PCI_ROM_ADDRESS_def PCI_ROM_ADDRESS1_def 

lemmas pci_eval2 = pci_chip check_bars.simps check_devices.simps on_bus_def pci_bdf_to_bus_def 
  pci_bios_bus_reserve_def region_reserve_def demo_index demo_size demo_start demo_consts demo_region demo_bars bridge_reserve_def bridge_reserve_all_def
  region_def upd_region_def set_bar_def bar_is64_def pci_addr_to_type_def
 PCI_BASE_ADDRESS_MEM_TYPE_MASK_def PCI_BASE_ADDRESS_MEM_TYPE_64_def PCI_BASE_ADDRESS_MEM_PREFETCH_def 
 PCI_CLASS_BRIDGE_PCI_def bridge_limit_def PCI_BRIDGE_IO_MIN_def PCI_BRIDGE_MEM_MIN_def pci_bios_check_device_in_bus_def

lemma all_types: "(\<forall>t. P t) \<longleftrightarrow> P PCI_REGION_TYPE_IO \<and> P PCI_REGION_TYPE_MEM \<and> P PCI_REGION_TYPE_PREFMEM"
  by (metis pci_region_type.exhaust)

lemma all_less_2: "(\<forall>x < 2. P x) \<longleftrightarrow> P 0 \<and> P (1 :: nat)"
  by (auto simp: numeral_2_eq_2 less_Suc_eq)

lemma demo_root: "pci_index_shift PCI_REGION_TYPE_IO = 2" "pci_index_shift PCI_REGION_TYPE_MEM = 12" "pci_index_shift PCI_REGION_TYPE_PREFMEM = 12"
  by (simp_all add: pci_index_shift_def PCI_IO_INDEX_SHIFT_def PCI_MEM_INDEX_SHIFT_def)

definition demo_pci1 :: "io_event list \<Rightarrow> pci_state" where
  "demo_pci1 l = (clear_busses demo_pci)\<lparr>io_log := l,
     PCIDevices := [(demo_dev 0x0008 0x0200 0)\<lparr>bars := [\<lparr>bar_addr = 0xfffff000, bar_size = 0x1000, is64 = False\<rparr>, \<lparr>bar_addr = 0xffffe008, bar_size = 0x2000, is64 = False\<rparr>, \<lparr>bar_addr = 0, bar_size = 0, is64 = False\<rparr>, \<lparr>bar_addr = 0, bar_size = 0, is64 = False\<rparr>, \<lparr>bar_addr = 0, bar_size = 0, is64 = False\<rparr>, \<lparr>bar_addr = 0, bar_size = 0, is64 = False\<rparr>, \<lparr>bar_addr = 0, bar_size = 0, is64 = False\<rparr>]\<rparr>,
       demo_dev 0x0010 0x0604 1,
       (demo_dev 0x0100 0x0200 0)\<lparr>bars := [\<lparr>bar_addr = 0xffffffe1, bar_size = 0x20, is64 = False\<rparr>, \<lparr>bar_addr = 0, bar_size = 0, is64 = False\<rparr>, \<lparr>bar_addr = 0, bar_size = 0, is64 = False\<rparr>, \<lparr>bar_addr = 0, bar_size = 0, is64 = False\<rparr>, \<lparr>bar_addr = 0, bar_size = 0, is64 = False\<rparr>, \<lparr>bar_addr = 0, bar_size = 0, is64 = False\<rparr>, \<lparr>bar_addr = 0, bar_size = 0, is64 = False\<rparr>]\<rparr>],
     busses := [(\<lambda>_. no_region)
       (PCI_REGION_TYPE_IO := no_region\<lparr>rg_count := [0,0,0,0,0,0,0,0,0,0,1,0,0,0,0,0,0,0,0,0], rg_sum := 0x1000, rg_max := 0x1000, rg_size := 0\<rparr>,
        PCI_REGION_TYPE_MEM := no_region\<lparr>rg_count := [1,0,0,0,0,0,0,0,1,0,0,0,0,0,0,0,0,0,0,0], rg_sum := 0x101000, rg_max := 0x100000, rg_size := 0\<rparr>,
        PCI_REGION_TYPE_PREFMEM := no_region\<lparr>rg_count := [0,1,0,0,0,0,0,0,1,0,0,0,0,0,0,0,0,0,0,0], rg_sum := 0x102000, rg_max := 0x100000, rg_size := 0\<rparr>),
      (\<lambda>_. no_region)
       (PCI_REGION_TYPE_IO := no_region\<lparr>rg_count := [0,0,0,1,0,0,0,0,0,0,0,0,0,0,0,0,0,0,0,0], rg_sum := 0x20, rg_max := 0x20, rg_size := 0x1000\<rparr>,
        PCI_REGION_TYPE_MEM := no_region\<lparr>rg_size := 0x100000\<rparr>,
        PCI_REGION_TYPE_PREFMEM := no_region\<lparr>rg_size := 0x100000\<rparr>)]\<rparr>"

lemma demo_pass1: "\<exists>l. pci_bios_check_device_in_bus 0 (clear_busses demo_pci) = Some (demo_pci1 l)"
  by (simp add: demo_pci1_def pci_eval2)

lemma demo_fits: "root_fits (demo_pci1 l)" "\<forall>x < 2. \<forall>t. demand t (demo_pci1 l) x < 2 ^ 32"
  by (simp_all add: demo_pci1_def pci_eval2 root_fits_def demand_def total_def bus_reqs_def dev_reqs_def topo_def all_types all_less_2
    bar_reqs_def bar_walk.simps req_index_def isz_def demo_root BUILD_PCIMEM_END_def BUILD_PCIMEM_START_def upt_conv_Cons)

lemma demo_root_ok:
  "fst (pci_bios_init_root_regions BUILD_PCIMEM_START BUILD_PCIMEM_END (demo_pci1 l))"
  by (simp add: pci_eval2 demo_pci1_def pci_bios_init_root_regions_def root_place_def ROOT_BASE_def ALIGN_DOWN_def
    BUILD_PCIMEM_END_def BUILD_PCIMEM_START_def)

lemma demo_tree: "topo demo_pci = [(0, None), (0, Some 1), (1, None)]" "tree (topo demo_pci) 2" "busses_count demo_pci = 2" "\<forall>d\<in>set (PCIDevices demo_pci). bars d = no_bars"
proof -
  show t: "topo demo_pci = [(0, None), (0, Some 1), (1, None)]"
    by (simp add: topo_def demo_pci_def demo_dev_def pci_bdf_to_bus_def PCI_CLASS_BRIDGE_PCI_def)
  show "tree (topo demo_pci) 2" unfolding t tree_def by (auto simp: less_Suc_eq numeral_eq_Suc)
qed (simp_all add: demo_pci_def demo_dev_def)


lemma demo_bdf: "distinct (map bdf (PCIDevices demo_pci))"
  by (simp add: demo_pci_def demo_dev_def)

theorem pci_windows_cover_witness:
  "\<exists>l st' as W N. pci_allocate demo_pci = Some st' \<and> cfg_writes (io_log st') = W @ cfg_writes (io_log (demo_pci1 l)) \<and>
    narrow_writes (io_log st') = N @ narrow_writes (io_log (demo_pci1 l)) \<and> served (PCIDevices (demo_pci1 l)) as W \<and>
    (\<forall>k. visited (topo demo_pci) 0 0 k \<longrightarrow> pclass (PCIDevices (demo_pci1 l) ! k) \<noteq> PCI_CLASS_BRIDGE_PCI \<longrightarrow>
       given (demo_pci1 l) as k) \<and>
    (\<forall>k s. bridge_at (topo demo_pci) 0 0 k s \<longrightarrow> set (uppers (bdf (PCIDevices demo_pci ! k))) \<subseteq> set W \<and>
       (\<forall>e\<in>set as. reach (topo demo_pci) s (fst (topo demo_pci ! al_dev e)) \<longrightarrow> forwards N (bdf (PCIDevices demo_pci ! k)) e))"
proof -
  obtain l where "pci_bios_check_device_in_bus 0 (clear_busses demo_pci) = Some (demo_pci1 l)" using demo_pass1 by blast
  from pci_windows_cover [OF _ _ demo_tree(4) this demo_fits(1) _ demo_root_ok demo_bdf] show ?thesis
    using demo_tree(2,3) demo_bdf demo_fits(2) [of l] by (intro exI [of _ l]) simp
qed

theorem root_ignores_end_witness:
  "\<exists>st'. pci_bios_init_root_regions BUILD_PCIMEM_START BUILD_PCIMEM_END (clear_busses demo_pci\<lparr>busses :=
     [(\<lambda>_. no_region)(PCI_REGION_TYPE_MEM := the (region_reserve PCI_REGION_TYPE_MEM 0x1000 no_region))]\<rparr>) = (True, st') \<and>
    BUILD_PCIMEM_END \<le> rg_base (region 0 PCI_REGION_TYPE_MEM st')"
proof -
  let ?rg = "the (region_reserve PCI_REGION_TYPE_MEM 0x1000 no_region)"
  let ?st = "clear_busses demo_pci\<lparr>busses := [(\<lambda>_. no_region)(PCI_REGION_TYPE_MEM := ?rg)]\<rparr>"
  let ?ks = "(\<lambda>_. [])(PCI_REGION_TYPE_MEM := [0])"
  obtain rg where rg: "region_reserve PCI_REGION_TYPE_MEM 0x1000 no_region = Some rg" "reserved PCI_REGION_TYPE_MEM [0] rg"
  proof -
    obtain rg where rg: "region_reserve PCI_REGION_TYPE_MEM 0x1000 no_region = Some rg"
      by (simp add: region_reserve_def demo_index demo_consts Let_def)
    obtain i where "pci_size_to_index 0x1000 PCI_REGION_TYPE_MEM = Some i" "reserved PCI_REGION_TYPE_MEM ([] @ [i]) rg"
      by (rule region_reserve_reserved [OF reserved_empty rg])
    then show thesis using rg that by (simp add: demo_index)
  qed
  show ?thesis
    by (rule root_ignores_end [where ks = ?ks]) (use rg in \<open>simp_all add: region_def reserved_empty total_def isz_def demo_root\<close>)
qed

end
