(* ===== verification/Ps2port.thy ===== *)
theory Ps2port
  imports Clock "HOL-Library.Monad_Syntax"
begin

text \<open>
  The PS/2 controller commands of \<open>src/ps2port.c\<close>: the bounded waits for the i8042, the
  controller commands, the exchange of a command with the keyboard or the mouse, and the
  initialisation of the keyboard. The interrupt handlers of the file are in \<open>Ps2irq\<close>, since they
  call the mouse services.

  A C \<open>int\<close> result is an \<open>int\<close>, -1 on failure. The buffer \<open>u8 *param\<close> is a byte list that the
  operation returns updated; \<open>NULL\<close> is the empty list. \<open>None\<close> stands for a delay or a wait that never
  ends and for an access beyond the buffer. \<open>dprintf\<close> and \<open>warn_timeout\<close> only print and are left
  out. The thread of \<open>keyboard_init\<close> is run to its end; what other threads and interrupts do in
  \<open>yield\<close> is the parameter of \<open>clock_env\<close>.
\<close>

section \<open>Constants\<close>

definition PORT_PS2_DATA :: u16 where "PORT_PS2_DATA = 0x60"
definition PORT_PS2_STATUS :: u16 where "PORT_PS2_STATUS = 0x64"

definition I8042_CTL_TIMEOUT :: nat where "I8042_CTL_TIMEOUT = 10000"
definition I8042_BUFFER_SIZE :: nat where "I8042_BUFFER_SIZE = 16"

definition I8042_CMD_CTL_WCTR :: u32 where "I8042_CMD_CTL_WCTR = 0x1060"
definition I8042_CMD_CTL_TEST :: u32 where "I8042_CMD_CTL_TEST = 0x01aa"
definition I8042_CMD_KBD_TEST :: u32 where "I8042_CMD_KBD_TEST = 0x01ab"
definition I8042_CMD_AUX_SEND :: u32 where "I8042_CMD_AUX_SEND = 0x10d4"

definition ATKBD_CMD_SSCANSET :: u32 where "ATKBD_CMD_SSCANSET = 0x10f0"
definition ATKBD_CMD_GETID32 :: u32 where "ATKBD_CMD_GETID32 = 0x02f2"
definition ATKBD_CMD_ENABLE :: u32 where "ATKBD_CMD_ENABLE = 0x00f4"
definition ATKBD_CMD_RESET_DIS :: u32 where "ATKBD_CMD_RESET_DIS = 0x00f5"
definition ATKBD_CMD_RESET_BAT :: u32 where "ATKBD_CMD_RESET_BAT = 0x02ff"

definition PSMOUSE_CMD_SETSCALE11 :: u32 where "PSMOUSE_CMD_SETSCALE11 = 0x00e6"
definition PSMOUSE_CMD_SETSCALE21 :: u32 where "PSMOUSE_CMD_SETSCALE21 = 0x00e7"
definition PSMOUSE_CMD_SETRES :: u32 where "PSMOUSE_CMD_SETRES = 0x10e8"
definition PSMOUSE_CMD_GETINFO :: u32 where "PSMOUSE_CMD_GETINFO = 0x03e9"
definition PSMOUSE_CMD_GETID :: u32 where "PSMOUSE_CMD_GETID = 0x02f2"
definition PSMOUSE_CMD_SETRATE :: u32 where "PSMOUSE_CMD_SETRATE = 0x10f3"
definition PSMOUSE_CMD_ENABLE :: u32 where "PSMOUSE_CMD_ENABLE = 0x00f4"
definition PSMOUSE_CMD_DISABLE :: u32 where "PSMOUSE_CMD_DISABLE = 0x00f5"
definition PSMOUSE_CMD_RESET_BAT :: u32 where "PSMOUSE_CMD_RESET_BAT = 0x02ff"

definition I8042_STR_AUXDATA :: u8 where "I8042_STR_AUXDATA = 0x20"
definition I8042_STR_IBF :: u8 where "I8042_STR_IBF = 0x02"
definition I8042_STR_OBF :: u8 where "I8042_STR_OBF = 0x01"

definition I8042_CTR_KBDINT :: u8 where "I8042_CTR_KBDINT = 0x01"
definition I8042_CTR_AUXINT :: u8 where "I8042_CTR_AUXINT = 0x02"
definition I8042_CTR_KBDDIS :: u8 where "I8042_CTR_KBDDIS = 0x10"
definition I8042_CTR_AUXDIS :: u8 where "I8042_CTR_AUXDIS = 0x20"
definition I8042_CTR_XLATE :: u8 where "I8042_CTR_XLATE = 0x40"

definition PS2_RET_ACK :: int where "PS2_RET_ACK = 0xfa"
definition PS2_RET_NAK :: int where "PS2_RET_NAK = 0xfe"

definition ebda_ps2ctr :: u32 where "ebda_ps2ctr = 0x121"

lemmas ps2_ports = PORT_PS2_DATA_def PORT_PS2_STATUS_def
lemmas i8042_cmds = I8042_CMD_CTL_WCTR_def I8042_CMD_CTL_TEST_def I8042_CMD_KBD_TEST_def
  I8042_CMD_AUX_SEND_def
lemmas atkbd_cmds = ATKBD_CMD_SSCANSET_def ATKBD_CMD_GETID32_def ATKBD_CMD_ENABLE_def
  ATKBD_CMD_RESET_DIS_def ATKBD_CMD_RESET_BAT_def
lemmas psmouse_cmds = PSMOUSE_CMD_SETSCALE11_def PSMOUSE_CMD_SETSCALE21_def PSMOUSE_CMD_SETRES_def
  PSMOUSE_CMD_GETINFO_def PSMOUSE_CMD_GETID_def PSMOUSE_CMD_SETRATE_def PSMOUSE_CMD_ENABLE_def
  PSMOUSE_CMD_DISABLE_def PSMOUSE_CMD_RESET_BAT_def
lemmas i8042_str = I8042_STR_AUXDATA_def I8042_STR_IBF_def I8042_STR_OBF_def
lemmas i8042_ctr = I8042_CTR_KBDINT_def I8042_CTR_AUXINT_def I8042_CTR_KBDDIS_def
  I8042_CTR_AUXDIS_def I8042_CTR_XLATE_def

type_synonym ret_state = "(int \<times> clock_state) option"
type_synonym ret_param_state = "(int \<times> u8 list \<times> clock_state) option"

section \<open>Waiting for the controller\<close>

text \<open>The first argument counts the rounds that are left.\<close>

fun wait_read_rounds :: "nat \<Rightarrow> clock_env \<Rightarrow> clock_state \<Rightarrow> ret_state" where
  "wait_read_rounds 0 e st = Some (- 1, st)"
| "wait_read_rounds (Suc n) e st =
     (let (status, st) = inb PORT_PS2_STATUS st in
      if status AND I8042_STR_OBF \<noteq> 0 then Some (0, st)
      else do { st \<leftarrow> udelay e 50 st; wait_read_rounds n e st })"

definition i8042_wait_read :: "clock_env \<Rightarrow> clock_state \<Rightarrow> ret_state" where
  "i8042_wait_read e st = wait_read_rounds I8042_CTL_TIMEOUT e st"

fun wait_write_rounds :: "nat \<Rightarrow> clock_env \<Rightarrow> clock_state \<Rightarrow> ret_state" where
  "wait_write_rounds 0 e st = Some (- 1, st)"
| "wait_write_rounds (Suc n) e st =
     (let (status, st) = inb PORT_PS2_STATUS st in
      if status AND I8042_STR_IBF = 0 then Some (0, st)
      else do { st \<leftarrow> udelay e 50 st; wait_write_rounds n e st })"

definition i8042_wait_write :: "clock_env \<Rightarrow> clock_state \<Rightarrow> ret_state" where
  "i8042_wait_write e st = wait_write_rounds I8042_CTL_TIMEOUT e st"

fun flush_rounds :: "nat \<Rightarrow> clock_env \<Rightarrow> clock_state \<Rightarrow> ret_state" where
  "flush_rounds 0 e st = Some (- 1, st)"
| "flush_rounds (Suc n) e st =
     (let (status, st) = inb PORT_PS2_STATUS st in
      if status AND I8042_STR_OBF = 0 then Some (0, st)
      else do { st \<leftarrow> udelay e 50 st; flush_rounds n e (snd (inb PORT_PS2_DATA st)) })"

definition i8042_flush :: "clock_env \<Rightarrow> clock_state \<Rightarrow> ret_state" where
  "i8042_flush e st = flush_rounds I8042_BUFFER_SIZE e st"

section \<open>Controller commands\<close>

text \<open>\<open>param[i] = v\<close> and \<open>param[i]\<close> within the buffer.\<close>

definition param_store :: "nat \<Rightarrow> u8 \<Rightarrow> u8 list \<Rightarrow> u8 list option" where
  "param_store i v param = (if i < length param then Some (param[i := v]) else None)"

definition param_load :: "nat \<Rightarrow> u8 list \<Rightarrow> u8 option" where
  "param_load i param = (if i < length param then Some (param ! i) else None)"

definition cmd_receive :: "u32 \<Rightarrow> nat" where
  "cmd_receive command = unat (drop_bit 8 command AND 0xf)"

definition cmd_send :: "u32 \<Rightarrow> nat" where
  "cmd_send command = unat (drop_bit 12 command AND 0xf)"

text \<open>The two loops, from index \<open>i\<close> with \<open>n\<close> bytes left.\<close>

fun i8042_send :: "nat \<Rightarrow> nat \<Rightarrow> clock_env \<Rightarrow> u8 list \<Rightarrow> clock_state \<Rightarrow> ret_state" where
  "i8042_send 0 i e param st = Some (0, st)"
| "i8042_send (Suc n) i e param st = do {
     (ret, st) \<leftarrow> i8042_wait_write e st;
     if ret \<noteq> 0 then Some (ret, st)
     else do {
       v \<leftarrow> param_load i param;
       i8042_send n (Suc i) e param (outb v PORT_PS2_DATA st) } }"

fun i8042_receive :: "nat \<Rightarrow> nat \<Rightarrow> clock_env \<Rightarrow> u8 list \<Rightarrow> clock_state \<Rightarrow> ret_param_state" where
  "i8042_receive 0 i e param st = Some (0, param, st)"
| "i8042_receive (Suc n) i e param st = do {
     (ret, st) \<leftarrow> i8042_wait_read e st;
     if ret \<noteq> 0 then Some (ret, param, st)
     else do {
       let (v, st) = inb PORT_PS2_DATA st;
       param \<leftarrow> param_store i v param;
       i8042_receive n (Suc i) e param st } }"

definition i8042_command :: "clock_env \<Rightarrow> u32 \<Rightarrow> u8 list \<Rightarrow> clock_state \<Rightarrow> ret_param_state" where
  "i8042_command e command param st = do {
     (ret, st) \<leftarrow> i8042_wait_write e st;
     if ret \<noteq> 0 then Some (ret, param, st)
     else do {
       let st = outb (ucast command) PORT_PS2_STATUS st;
       (ret, st) \<leftarrow> i8042_send (cmd_send command) 0 e param st;
       if ret \<noteq> 0 then Some (ret, param, st)
       else i8042_receive (cmd_receive command) 0 e param st } }"

definition i8042_kbd_write :: "clock_env \<Rightarrow> u8 \<Rightarrow> clock_state \<Rightarrow> ret_state" where
  "i8042_kbd_write e c st = do {
     (ret, st) \<leftarrow> i8042_wait_write e st;
     Some (ret, if ret = 0 then outb c PORT_PS2_DATA st else st) }"

definition i8042_aux_write :: "clock_env \<Rightarrow> u8 \<Rightarrow> clock_state \<Rightarrow> ret_state" where
  "i8042_aux_write e c st = do {
     (ret, _, st) \<leftarrow> i8042_command e I8042_CMD_AUX_SEND [c] st;
     Some (ret, st) }"

fun reboot_rounds :: "nat \<Rightarrow> clock_env \<Rightarrow> clock_state \<Rightarrow> clock_state option" where
  "reboot_rounds 0 e st = Some st"
| "reboot_rounds (Suc n) e st = do {
     (_, st) \<leftarrow> i8042_wait_write e st;
     st \<leftarrow> udelay e 50 st;
     st \<leftarrow> udelay e 50 (outb 0xfe PORT_PS2_STATUS st);
     reboot_rounds n e st }"

definition i8042_reboot :: "clock_env \<Rightarrow> clock_state \<Rightarrow> clock_state option" where
  "i8042_reboot e st = reboot_rounds 10 e st"

section \<open>Bytes to and from a device\<close>

text \<open>
  The loop of \<open>ps2_recvbyte\<close> until the time \<open>endt\<close>; one poll reads the status and, when there is a
  byte, the byte, which is either the answer or discarded.
\<close>

definition recvbyte_poll :: "bool \<Rightarrow> bool \<Rightarrow> clock_state \<Rightarrow> u8 option \<times> clock_state" where
  "recvbyte_poll aux needack st =
     (let (status, st) = inb PORT_PS2_STATUS st in
      if status AND I8042_STR_OBF \<noteq> 0 then
        let (data, st) = inb PORT_PS2_DATA st in
        (if (status AND I8042_STR_AUXDATA \<noteq> 0) = aux \<and>
            (\<not> needack \<or> uint data = PS2_RET_ACK \<or> uint data = PS2_RET_NAK)
         then Some data else None, st)
      else (None, st))"

partial_function (option) recvbyte_loop ::
  "clock_env \<Rightarrow> bool \<Rightarrow> bool \<Rightarrow> u64 \<Rightarrow> clock_state \<Rightarrow> (int \<times> clock_state) option" where
  "recvbyte_loop e aux needack endt st =
     (case recvbyte_poll aux needack st of
        (Some data, st) \<Rightarrow> Some (uint data, st)
      | (None, st) \<Rightarrow>
          (let (passed, st) = check_tsc e endt st in
           if passed then Some (- 1, st) else recvbyte_loop e aux needack endt (yield e st)))"

declare recvbyte_loop.simps [code]

definition ps2_recvbyte :: "clock_env \<Rightarrow> bool \<Rightarrow> bool \<Rightarrow> u32 \<Rightarrow> clock_state \<Rightarrow> ret_state" where
  "ps2_recvbyte e aux needack timeout st =
     (let (endt, st) = calc_future_tsc e timeout st in recvbyte_loop e aux needack endt st)"

definition ps2_sendbyte :: "clock_env \<Rightarrow> bool \<Rightarrow> u8 \<Rightarrow> u32 \<Rightarrow> clock_state \<Rightarrow> ret_state" where
  "ps2_sendbyte e aux command timeout st = do {
     (ret, st) \<leftarrow> (if aux then i8042_aux_write e command st else i8042_kbd_write e command st);
     if ret \<noteq> 0 then Some (ret, st)
     else do {
       (ret, st) \<leftarrow> ps2_recvbyte e aux True timeout st;
       Some (if ret < 0 then ret else if ret \<noteq> PS2_RET_ACK then - 1 else 0, st) } }"

section \<open>Device commands\<close>

fun ps2_send :: "nat \<Rightarrow> nat \<Rightarrow> clock_env \<Rightarrow> bool \<Rightarrow> u8 list \<Rightarrow> clock_state \<Rightarrow> ret_state" where
  "ps2_send 0 i e aux param st = Some (0, st)"
| "ps2_send (Suc n) i e aux param st = do {
     v \<leftarrow> param_load i param;
     (ret, st) \<leftarrow> ps2_sendbyte e aux v 200 st;
     if ret \<noteq> 0 then Some (ret, st) else ps2_send n (Suc i) e aux param st }"

fun ps2_receive :: "nat \<Rightarrow> nat \<Rightarrow> clock_env \<Rightarrow> bool \<Rightarrow> u8 list \<Rightarrow> clock_state \<Rightarrow> ret_param_state" where
  "ps2_receive 0 i e aux param st = Some (0, param, st)"
| "ps2_receive (Suc n) i e aux param st = do {
     (ret, st) \<leftarrow> ps2_recvbyte e aux False 500 st;
     if ret < 0 then Some (ret, param, st)
     else do {
       param \<leftarrow> param_store i (word_of_int ret) param;
       ps2_receive n (Suc i) e aux param st } }"

text \<open>The three branches of \<open>__ps2_command\<close>; on success they leave 0, as \<open>ret = 0\<close> behind them.\<close>

definition ps2_reset :: "clock_env \<Rightarrow> bool \<Rightarrow> u32 \<Rightarrow> u8 list \<Rightarrow> clock_state \<Rightarrow> ret_param_state" where
  "ps2_reset e aux command param st = do {
     (ret, st) \<leftarrow> ps2_sendbyte e aux (ucast command) 1000 st;
     if ret \<noteq> 0 then Some (ret, param, st)
     else do {
       (ret, st) \<leftarrow> ps2_recvbyte e aux False 4000 st;
       if ret < 0 then Some (ret, param, st)
       else do {
         param \<leftarrow> param_store 0 (word_of_int ret) param;
         (ret, st) \<leftarrow> ps2_recvbyte e aux False 100 st;
         param \<leftarrow> param_store 1 (word_of_int (if ret < 0 then 0 else ret)) param;
         Some (0, param, st) } } }"

definition ps2_getid :: "clock_env \<Rightarrow> bool \<Rightarrow> u32 \<Rightarrow> u8 list \<Rightarrow> clock_state \<Rightarrow> ret_param_state" where
  "ps2_getid e aux command param st = do {
     (ret, st) \<leftarrow> ps2_sendbyte e aux (ucast command) 200 st;
     if ret \<noteq> 0 then Some (ret, param, st)
     else do {
       (ret, st) \<leftarrow> ps2_recvbyte e aux False 500 st;
       if ret < 0 then Some (ret, param, st)
       else do {
         param \<leftarrow> param_store 0 (word_of_int ret) param;
         if ret \<in> {0xab, 0xac, 0x2b, 0x5d, 0x60, 0x47}
         then do {
           (ret, st) \<leftarrow> ps2_recvbyte e aux False 500 st;
           if ret < 0 then Some (ret, param, st)
           else do {
             param \<leftarrow> param_store 1 (word_of_int ret) param;
             Some (0, param, st) } }
         else do {
           param \<leftarrow> param_store 1 0 param;
           Some (0, param, st) } } } }"

definition ps2_plain :: "clock_env \<Rightarrow> bool \<Rightarrow> u32 \<Rightarrow> u8 list \<Rightarrow> clock_state \<Rightarrow> ret_param_state" where
  "ps2_plain e aux command param st = do {
     (ret, st) \<leftarrow> ps2_sendbyte e aux (ucast command) 200 st;
     if ret \<noteq> 0 then Some (ret, param, st)
     else do {
       (ret, st) \<leftarrow> ps2_send (cmd_send command) 0 e aux param st;
       if ret \<noteq> 0 then Some (ret, param, st)
       else ps2_receive (cmd_receive command) 0 e aux param st } }"

definition ps2_exchange :: "clock_env \<Rightarrow> bool \<Rightarrow> u32 \<Rightarrow> u8 list \<Rightarrow> clock_state \<Rightarrow> ret_param_state" where
  "ps2_exchange e aux command param st =
     (if command = ATKBD_CMD_RESET_BAT then ps2_reset e aux command param st
      else if command = ATKBD_CMD_GETID32 then ps2_getid e aux command param st
      else ps2_plain e aux command param st)"

definition ps2_command :: "clock_env \<Rightarrow> bool \<Rightarrow> u32 \<Rightarrow> u8 list \<Rightarrow> clock_state \<Rightarrow> ret_param_state" where
  "ps2_command e aux command param st = do {
     let ps2ctr = ebda8 (get_ebda_seg st) ebda_ps2ctr st;
     let newctr = (ps2ctr OR I8042_CTR_AUXDIS OR I8042_CTR_KBDDIS)
                  AND NOT (I8042_CTR_KBDINT OR I8042_CTR_AUXINT);
     (ret, _, st) \<leftarrow> i8042_command e I8042_CMD_CTL_WCTR [newctr] st;
     if ret \<noteq> 0 then Some (ret, param, st)
     else do {
       let st = yield e st;
       let newctr = newctr AND NOT (if aux then I8042_CTR_AUXDIS else I8042_CTR_KBDDIS);
       (ret, _, st) \<leftarrow> i8042_command e I8042_CMD_CTL_WCTR [newctr] st;
       (ret, param, st) \<leftarrow> (if ret \<noteq> 0 then Some (ret, param, st)
                           else ps2_exchange e aux command param st);
       (ret2, _, st) \<leftarrow> i8042_command e I8042_CMD_CTL_WCTR [ps2ctr] st;
       Some (if ret2 \<noteq> 0 then ret2 else ret, param, st) } }"

definition ps2_kbd_command :: "clock_env \<Rightarrow> u32 \<Rightarrow> u8 list \<Rightarrow> clock_state \<Rightarrow> ret_param_state" where
  "ps2_kbd_command e command param st = ps2_command e False command param st"

definition ps2_mouse_command :: "clock_env \<Rightarrow> u32 \<Rightarrow> u8 list \<Rightarrow> clock_state \<Rightarrow> ret_param_state" where
  "ps2_mouse_command e command param st =
     (let st =
        (if command = PSMOUSE_CMD_ENABLE \<or> command = PSMOUSE_CMD_DISABLE then
           let ebda_seg = get_ebda_seg st;
               ps2ctr = ebda8 ebda_seg ebda_ps2ctr st;
               ps2ctr = (if command = PSMOUSE_CMD_ENABLE
                         then (ps2ctr OR I8042_CTR_AUXINT) AND NOT I8042_CTR_AUXDIS
                         else (ps2ctr OR I8042_CTR_AUXDIS) AND NOT I8042_CTR_AUXINT) in
           set_ebda8 ebda_seg ebda_ps2ctr ps2ctr st
         else st) in
      ps2_command e True command param st)"

section \<open>Initialisation of the keyboard\<close>

text \<open>The loop that resets the keyboard until it answers; \<open>Inl\<close> is the return on a timeout.\<close>

partial_function (option) reset_loop ::
  "clock_env \<Rightarrow> u64 \<Rightarrow> u8 list \<Rightarrow> clock_state \<Rightarrow> (clock_state + (u8 list \<times> clock_state)) option" where
  "reset_loop e endt param st = do {
     (ret, param, st) \<leftarrow> ps2_kbd_command e ATKBD_CMD_RESET_BAT param st;
     if ret = 0 then Some (Inr (param, st))
     else let (passed, st) = check_tsc e endt st in
       if passed then Some (Inl st) else reset_loop e endt param (yield e st) }"

declare reset_loop.simps [code]

definition set_ps2ctr :: "u8 \<Rightarrow> clock_state \<Rightarrow> clock_state" where
  "set_ps2ctr v st = set_ebda8 (get_ebda_seg st) ebda_ps2ctr v st"

text \<open>The part of \<open>keyboard_init\<close> that starts with the reset; \<open>param\<close> holds what the tests left.\<close>

definition keyboard_init_device :: "clock_env \<Rightarrow> u32 \<Rightarrow> u8 list \<Rightarrow> clock_state \<Rightarrow> clock_state option" where
  "keyboard_init_device e spinupdelay param st = do {
     let (endt, st) = calc_future_tsc e spinupdelay st;
     r \<leftarrow> reset_loop e endt param st;
     case r of Inl st \<Rightarrow> Some st
     | Inr (param, st) \<Rightarrow>
         if param ! 0 \<noteq> 0xaa then Some st
         else do {
           (ret, _, st) \<leftarrow> ps2_kbd_command e ATKBD_CMD_RESET_DIS [] st;
           if ret \<noteq> 0 then Some st
           else do {
             (ret, param, st) \<leftarrow> ps2_kbd_command e ATKBD_CMD_SSCANSET (param[0 := 0x02]) st;
             if ret \<noteq> 0 then Some st
             else do {
               let st = set_ps2ctr (I8042_CTR_AUXDIS OR I8042_CTR_XLATE OR I8042_CTR_KBDINT) st;
               (_, _, st) \<leftarrow> ps2_kbd_command e ATKBD_CMD_ENABLE [] st;
               Some st } } } }"

text \<open>\<open>param\<close> is the uninitialised buffer; \<open>spinupdelay\<close> is the file \<open>etc/ps2-keyboard-spinup\<close>.\<close>

definition keyboard_init :: "clock_env \<Rightarrow> u32 \<Rightarrow> u8 list \<Rightarrow> clock_state \<Rightarrow> clock_state option" where
  "keyboard_init e spinupdelay param st = do {
     (ret, st) \<leftarrow> i8042_flush e st;
     if ret \<noteq> 0 then Some st
     else do {
       (ret, param, st) \<leftarrow> i8042_command e I8042_CMD_CTL_TEST param st;
       if ret \<noteq> 0 \<or> param ! 0 \<noteq> 0x55 then Some st
       else do {
         (ret, param, st) \<leftarrow> i8042_command e I8042_CMD_KBD_TEST param st;
         if ret \<noteq> 0 \<or> param ! 0 \<noteq> 0x00 then Some st
         else keyboard_init_device e spinupdelay param
                (set_ps2ctr (I8042_CTR_KBDDIS OR I8042_CTR_AUXDIS) st) } } }"

end
