(* ===== verification/Mouse.thy ===== *)
theory Mouse
  imports Ps2port
begin

text \<open>
  The mouse services of \<open>src/mouse.c\<close> (INT 15h, AH = C2h, and the assembly of the mouse bytes into
  packets for the installed handler), and the PS/2 commands as the USB devices of
  \<open>src/usb-hid.c\<close> answer them. \<open>MOUSE\<close>, \<open>USB_MOUSE\<close> and \<open>USB_KEYBOARD\<close> are on. The record
  \<open>input_env\<close> holds the clock's parameters, the far call of the mouse handler (which takes the
  far pointer and the three words pushed for it), the intercept INT 15h AH=4Fh of a key, the
  polling of a USB interrupt pipe, the pipes of the USB keyboard and mouse, 0 when absent, and
  the offsets of the interrupt entries.
\<close>

record hid_pipes =
  keyboard_pipe :: u32
  mouse_pipe :: u32

record input_env =
  clk :: clock_env
  mouse_farcall :: "u32 \<Rightarrow> u16 \<Rightarrow> u16 \<Rightarrow> u16 \<Rightarrow> clock_state \<Rightarrow> clock_state"
  int15_4f :: "u8 \<Rightarrow> clock_state \<Rightarrow> bool \<times> u8 \<times> clock_state"
  usb_poll_intr :: "u32 \<Rightarrow> clock_state \<Rightarrow> u8 list option \<times> clock_state"
  pipes :: hid_pipes
  entry_09 :: u16
  entry_74 :: u16

definition ebda_far_call_pointer :: u32 where "ebda_far_call_pointer = 0x22"
definition ebda_mouse_flag1 :: u32 where "ebda_mouse_flag1 = 0x26"
definition ebda_mouse_flag2 :: u32 where "ebda_mouse_flag2 = 0x27"
definition ebda_mouse_data :: u32 where "ebda_mouse_data = 0x28"

lemmas ebda_mouse = ebda_far_call_pointer_def ebda_mouse_flag1_def ebda_mouse_flag2_def
  ebda_mouse_data_def

definition RET_EINVFUNCTION :: u8 where "RET_EINVFUNCTION = 0x01"
definition RET_EINVINPUT :: u8 where "RET_EINVINPUT = 0x02"
definition RET_EINTERFACE :: u8 where "RET_EINTERFACE = 0x03"
definition RET_ENEEDRESEND :: u8 where "RET_ENEEDRESEND = 0x04"
definition RET_ENOHANDLER :: u8 where "RET_ENOHANDLER = 0x05"

section \<open>The commands of the USB devices\<close>

definition usb_kbd_active :: "input_env \<Rightarrow> bool" where
  "usb_kbd_active E \<longleftrightarrow> keyboard_pipe (pipes E) \<noteq> 0"

definition usb_mouse_active :: "input_env \<Rightarrow> bool" where
  "usb_mouse_active E \<longleftrightarrow> mouse_pipe (pipes E) \<noteq> 0"

fun param_stores :: "u8 list \<Rightarrow> nat \<Rightarrow> u8 list \<Rightarrow> u8 list option" where
  "param_stores [] i param = Some param"
| "param_stores (v # vs) i param = do { param \<leftarrow> param_store i v param; param_stores vs (Suc i) param }"

definition usb_kbd_command :: "u32 \<Rightarrow> u8 list \<Rightarrow> (int \<times> u8 list) option" where
  "usb_kbd_command command param =
     (if command = ATKBD_CMD_GETID32 then do { param \<leftarrow> param_stores [0xab, 0x83] 0 param; Some (0, param) }
      else Some (- 1, param))"

definition usb_mouse_command :: "u32 \<Rightarrow> u8 list \<Rightarrow> (int \<times> u8 list) option" where
  "usb_mouse_command command param =
     (if command \<in> {PSMOUSE_CMD_ENABLE, PSMOUSE_CMD_DISABLE, PSMOUSE_CMD_SETSCALE11} then Some (0, param)
      else if command \<in> {PSMOUSE_CMD_SETSCALE21, PSMOUSE_CMD_SETRATE, PSMOUSE_CMD_SETRES} then Some (0, param)
      else if command \<in> {PSMOUSE_CMD_RESET_BAT, PSMOUSE_CMD_GETID} then
        do { param \<leftarrow> param_stores [0xaa, 0x00] 0 param; Some (0, param) }
      else if command = PSMOUSE_CMD_GETINFO then
        do { param \<leftarrow> param_stores [0x00, 4, 100] 0 param; Some (0, param) }
      else Some (- 1, param))"

section \<open>INT 15h, AH = C2h\<close>

definition mouse_setup :: "clock_state \<Rightarrow> clock_state" where
  "mouse_setup st = set_bda16 bda_equipment_list_flags (bda16 bda_equipment_list_flags st OR 0x04) st"

definition mouse_command :: "input_env \<Rightarrow> u32 \<Rightarrow> u8 list \<Rightarrow> clock_state \<Rightarrow> ret_param_state" where
  "mouse_command E command param st =
     (if usb_mouse_active E then do { (ret, param) \<leftarrow> usb_mouse_command command param; Some (ret, param, st) }
      else ps2_mouse_command (clk E) command param st)"

type_synonym mouse_result = "(bregs \<times> clock_state) option"

text \<open>The common shape: a command whose answer is not used.\<close>

definition mouse_simple :: "input_env \<Rightarrow> u32 \<Rightarrow> u8 list \<Rightarrow> bregs \<Rightarrow> clock_state \<Rightarrow> mouse_result" where
  "mouse_simple E command param r st = do {
     (ret, _, st) \<leftarrow> mouse_command E command param st;
     Some (if ret \<noteq> 0 then set_code_invalid_silent RET_ENEEDRESEND r else set_code_success r, st) }"

definition mouse_15c20000 :: "input_env \<Rightarrow> bregs \<Rightarrow> clock_state \<Rightarrow> mouse_result" where
  "mouse_15c20000 E r st = mouse_simple E PSMOUSE_CMD_DISABLE [] r st"

definition mouse_15c20001 :: "input_env \<Rightarrow> bregs \<Rightarrow> clock_state \<Rightarrow> mouse_result" where
  "mouse_15c20001 E r st =
     (if ebda8 (get_ebda_seg st) ebda_mouse_flag2 st AND 0x80 = 0
      then Some (set_code_invalid_silent RET_ENOHANDLER r, st)
      else mouse_simple E PSMOUSE_CMD_ENABLE [] r st)"

definition mouse_15c200XX :: "bregs \<Rightarrow> clock_state \<Rightarrow> mouse_result" where
  "mouse_15c200XX r st = Some (set_code_invalid_silent RET_EINVFUNCTION r, st)"

definition mouse_15c200 :: "input_env \<Rightarrow> bregs \<Rightarrow> clock_state \<Rightarrow> mouse_result" where
  "mouse_15c200 E r st =
     (if BH r = 0x00 then mouse_15c20000 E r st
      else if BH r = 0x01 then mouse_15c20001 E r st
      else mouse_15c200XX r st)"

text \<open>The uninitialised answer buffers start with zeros.\<close>

definition mouse_15c201 :: "input_env \<Rightarrow> bregs \<Rightarrow> clock_state \<Rightarrow> mouse_result" where
  "mouse_15c201 E r st = do {
     (ret, param, st) \<leftarrow> mouse_command E PSMOUSE_CMD_RESET_BAT [0, 0] st;
     if ret \<noteq> 0 then Some (set_code_invalid_silent RET_ENEEDRESEND r, st)
     else Some (set_code_success (set_bh (param ! 1) (set_bl (param ! 0) r)), st) }"

definition sample_rates :: "u8 list" where
  "sample_rates = [10, 20, 40, 60, 80, 100, 200]"

definition mouse_15c202 :: "input_env \<Rightarrow> bregs \<Rightarrow> clock_state \<Rightarrow> mouse_result" where
  "mouse_15c202 E r st =
     (if unat (BH r) \<ge> length sample_rates then Some (set_code_invalid_silent RET_EINVINPUT r, st)
      else mouse_simple E PSMOUSE_CMD_SETRATE [sample_rates ! unat (BH r)] r st)"

definition mouse_15c203 :: "input_env \<Rightarrow> bregs \<Rightarrow> clock_state \<Rightarrow> mouse_result" where
  "mouse_15c203 E r st =
     (if BH r \<ge> 4 then Some (set_code_invalid_silent RET_EINVINPUT r, st)
      else mouse_simple E PSMOUSE_CMD_SETRES [BH r] r st)"

definition mouse_15c204 :: "input_env \<Rightarrow> bregs \<Rightarrow> clock_state \<Rightarrow> mouse_result" where
  "mouse_15c204 E r st = do {
     (ret, param, st) \<leftarrow> mouse_command E PSMOUSE_CMD_GETID [0, 0] st;
     if ret \<noteq> 0 then Some (set_code_invalid_silent RET_ENEEDRESEND r, st)
     else Some (set_code_success (set_bh (param ! 0) r), st) }"

definition mouse_15c205 :: "input_env \<Rightarrow> bregs \<Rightarrow> clock_state \<Rightarrow> mouse_result" where
  "mouse_15c205 E r st =
     (if BH r \<noteq> 3 then Some (set_code_invalid_silent RET_EINTERFACE r, st)
      else
        let ebda_seg = get_ebda_seg st;
            st = set_ebda8 ebda_seg ebda_mouse_flag1 0x00 st;
            st = set_ebda8 ebda_seg ebda_mouse_flag2 (BH r) st in
        mouse_15c201 E r st)"

definition mouse_15c20600 :: "input_env \<Rightarrow> bregs \<Rightarrow> clock_state \<Rightarrow> mouse_result" where
  "mouse_15c20600 E r st = do {
     (ret, param, st) \<leftarrow> mouse_command E PSMOUSE_CMD_GETINFO [0, 0, 0] st;
     if ret \<noteq> 0 then Some (set_code_invalid_silent RET_ENEEDRESEND r, st)
     else Some (set_code_success (set_dl (param ! 2) (set_cl (param ! 1) (set_bl (param ! 0) r))), st) }"

definition mouse_15c20601 :: "input_env \<Rightarrow> bregs \<Rightarrow> clock_state \<Rightarrow> mouse_result" where
  "mouse_15c20601 E r st = mouse_simple E PSMOUSE_CMD_SETSCALE11 [] r st"

definition mouse_15c20602 :: "input_env \<Rightarrow> bregs \<Rightarrow> clock_state \<Rightarrow> mouse_result" where
  "mouse_15c20602 E r st = mouse_simple E PSMOUSE_CMD_SETSCALE21 [] r st"

definition mouse_15c206XX :: "bregs \<Rightarrow> clock_state \<Rightarrow> mouse_result" where
  "mouse_15c206XX r st = Some (set_code_invalid_silent RET_EINVFUNCTION r, st)"

definition mouse_15c206 :: "input_env \<Rightarrow> bregs \<Rightarrow> clock_state \<Rightarrow> mouse_result" where
  "mouse_15c206 E r st =
     (if BH r = 0x00 then mouse_15c20600 E r st
      else if BH r = 0x01 then mouse_15c20601 E r st
      else if BH r = 0x02 then mouse_15c20602 E r st
      else mouse_15c206XX r st)"

definition mouse_15c207 :: "input_env \<Rightarrow> bregs \<Rightarrow> clock_state \<Rightarrow> mouse_result" where
  "mouse_15c207 E r st = do {
     let farptr = SEGOFF (r_es r) (BX r);
     let ebda_seg = get_ebda_seg st;
     let mouse_flags_2 = ebda8 ebda_seg ebda_mouse_flag2 st;
     (mouse_flags_2, st) \<leftarrow>
       (if farptr = 0 then
          if mouse_flags_2 AND 0x80 \<noteq> 0
          then do {
            (_, _, st) \<leftarrow> mouse_command E PSMOUSE_CMD_DISABLE [] st;
            Some (mouse_flags_2 AND NOT 0x80, st) }
          else Some (mouse_flags_2, st)
        else Some (mouse_flags_2 OR 0x80, st));
     let st = set_ebda8 ebda_seg ebda_mouse_flag2 mouse_flags_2 st;
     let st = set_ebda32 ebda_seg ebda_far_call_pointer farptr st;
     Some (set_code_success r, st) }"

definition mouse_15c2XX :: "bregs \<Rightarrow> clock_state \<Rightarrow> mouse_result" where
  "mouse_15c2XX r st = Some (set_code_invalid_silent RET_EINVFUNCTION r, st)"

definition handle_15c2 :: "input_env \<Rightarrow> bregs \<Rightarrow> clock_state \<Rightarrow> mouse_result" where
  "handle_15c2 E r st =
     (if AL r = 0x00 then mouse_15c200 E r st
      else if AL r = 0x01 then mouse_15c201 E r st
      else if AL r = 0x02 then mouse_15c202 E r st
      else if AL r = 0x03 then mouse_15c203 E r st
      else if AL r = 0x04 then mouse_15c204 E r st
      else if AL r = 0x05 then mouse_15c205 E r st
      else if AL r = 0x06 then mouse_15c206 E r st
      else if AL r = 0x07 then mouse_15c207 E r st
      else mouse_15c2XX r st)"

section \<open>Mouse bytes\<close>

definition process_mouse :: "input_env \<Rightarrow> u8 \<Rightarrow> clock_state \<Rightarrow> clock_state" where
  "process_mouse E data st =
     (let ebda_seg = get_ebda_seg st;
          mouse_flags_1 = ebda8 ebda_seg ebda_mouse_flag1 st;
          mouse_flags_2 = ebda8 ebda_seg ebda_mouse_flag2 st in
      if mouse_flags_2 AND 0x80 = 0 then st
      else
        let package_count = mouse_flags_2 AND 0x07;
            index = mouse_flags_1 AND 0x07;
            st = set_ebda8 ebda_seg (ebda_mouse_data + ucast index) data st in
        if unat index + 1 < unat package_count then
          set_ebda8 ebda_seg ebda_mouse_flag1 (mouse_flags_1 + 1) st
        else
          let status = ucast (ebda8 ebda_seg (ebda_mouse_data + 0) st);
              X = ucast (ebda8 ebda_seg (ebda_mouse_data + 1) st);
              Y = ucast (ebda8 ebda_seg (ebda_mouse_data + 2) st);
              st = set_ebda8 ebda_seg ebda_mouse_flag1 0 st;
              func = ebda32 ebda_seg ebda_far_call_pointer st in
          mouse_farcall E func status X Y st)"

end
