(* ===== verification/UsbHid.thy ===== *)
theory UsbHid
  imports Mouse Kbd
begin

text \<open>
  The USB keyboard and mouse of \<open>src/usb-hid.c\<close>: the set up of a boot protocol device, the
  translation of keyboard reports to PS/2 key sequences with the state of the held keys in the
  EBDA, and the translation of mouse reports to PS/2 mouse bytes; and the search for an endpoint
  descriptor of \<open>src/usb.c\<close>. The requests to the USB controller are the parameters \<open>usb_ops\<close> and
  \<open>usb_poll_intr\<close>; a report is a list of eight bytes.

  A key that reaches \<open>reset_vector()\<close> does not return: a key state is a pair of the flag of
  \<open>process_key\<close> and the machine, and nothing more happens once the flag is set. \<open>None\<close> stands for
  an access beyond the array of held keys and for a loop that never ends.
\<close>

section \<open>Descriptors and set up\<close>

definition USB_DT_INTERFACE :: u8 where "USB_DT_INTERFACE = 0x04"
definition USB_DT_ENDPOINT :: u8 where "USB_DT_ENDPOINT = 0x05"
definition USB_DIR_OUT :: u8 where "USB_DIR_OUT = 0"
definition USB_DIR_IN :: u8 where "USB_DIR_IN = 0x80"
definition USB_TYPE_CLASS :: u8 where "USB_TYPE_CLASS = 0x20"
definition USB_RECIP_INTERFACE :: u8 where "USB_RECIP_INTERFACE = 0x01"
definition USB_ENDPOINT_DIR_MASK :: u8 where "USB_ENDPOINT_DIR_MASK = 0x80"
definition USB_ENDPOINT_XFERTYPE_MASK :: u8 where "USB_ENDPOINT_XFERTYPE_MASK = 0x03"
definition USB_ENDPOINT_XFER_INT :: u8 where "USB_ENDPOINT_XFER_INT = 3"
definition USB_INTERFACE_SUBCLASS_BOOT :: u8 where "USB_INTERFACE_SUBCLASS_BOOT = 1"
definition USB_INTERFACE_PROTOCOL_KEYBOARD :: u8 where "USB_INTERFACE_PROTOCOL_KEYBOARD = 1"
definition USB_INTERFACE_PROTOCOL_MOUSE :: u8 where "USB_INTERFACE_PROTOCOL_MOUSE = 2"
definition HID_REQ_SET_IDLE :: u8 where "HID_REQ_SET_IDLE = 0x0A"
definition HID_REQ_SET_PROTOCOL :: u8 where "HID_REQ_SET_PROTOCOL = 0x0B"
definition KEYREPEATWAITMS :: nat where "KEYREPEATWAITMS = 500"
definition KEYREPEATMS :: nat where "KEYREPEATMS = 33"

record usb_ctrlrequest =
  bRequestType :: u8
  bRequest :: u8
  wValue :: u16
  wIndex :: u16
  wLength :: u16

text \<open>The controller: a control request without data gives 0 on success; a pipe gives 0 on failure.\<close>

record usb_ops =
  send_default_control :: "u32 \<Rightarrow> usb_ctrlrequest \<Rightarrow> clock_state \<Rightarrow> int \<times> clock_state"
  alloc_intr_pipe :: "u32 \<Rightarrow> u32 \<Rightarrow> clock_state \<Rightarrow> u32 \<times> clock_state"

text \<open>Fields of the descriptors at an address; an interface descriptor has nine bytes.\<close>

definition bLength :: "memory \<Rightarrow> u32 \<Rightarrow> u8" where "bLength m p = rd8 m p"
definition bDescriptorType :: "memory \<Rightarrow> u32 \<Rightarrow> u8" where "bDescriptorType m p = rd8 m (p + 1)"
definition bEndpointAddress :: "memory \<Rightarrow> u32 \<Rightarrow> u8" where "bEndpointAddress m p = rd8 m (p + 2)"
definition bmAttributes :: "memory \<Rightarrow> u32 \<Rightarrow> u8" where "bmAttributes m p = rd8 m (p + 3)"
definition wMaxPacketSize :: "memory \<Rightarrow> u32 \<Rightarrow> u16" where "wMaxPacketSize m p = rd16 m (p + 4)"
definition bInterfaceSubClass :: "memory \<Rightarrow> u32 \<Rightarrow> u8" where "bInterfaceSubClass m p = rd8 m (p + 6)"
definition bInterfaceProtocol :: "memory \<Rightarrow> u32 \<Rightarrow> u8" where "bInterfaceProtocol m p = rd8 m (p + 7)"

definition endpoint_matches :: "u8 \<Rightarrow> u8 \<Rightarrow> memory \<Rightarrow> u32 \<Rightarrow> bool" where
  "endpoint_matches ty dir m p \<longleftrightarrow> bDescriptorType m p = USB_DT_ENDPOINT \<and>
     bEndpointAddress m p AND USB_ENDPOINT_DIR_MASK = dir \<and>
     bmAttributes m p AND USB_ENDPOINT_XFERTYPE_MASK = ty"

partial_function (option) endpoint_loop ::
  "u32 \<Rightarrow> u8 \<Rightarrow> u8 \<Rightarrow> memory \<Rightarrow> u32 \<Rightarrow> u32 option" where
  "endpoint_loop limit ty dir m p =
     (if p \<ge> limit \<or> bDescriptorType m p = USB_DT_INTERFACE then Some 0
      else if endpoint_matches ty dir m p then Some p
      else endpoint_loop limit ty dir m (p + ucast (bLength m p)))"

declare endpoint_loop.simps [code]

definition findEndPointDesc :: "u32 \<Rightarrow> u32 \<Rightarrow> u8 \<Rightarrow> u8 \<Rightarrow> memory \<Rightarrow> u32 option" where
  "findEndPointDesc iface imax ty dir m = endpoint_loop (iface + imax) ty dir m (iface + 9)"

definition set_protocol :: "usb_ops \<Rightarrow> u32 \<Rightarrow> u16 \<Rightarrow> clock_state \<Rightarrow> int \<times> clock_state" where
  "set_protocol u pipe val st = send_default_control u pipe
     \<lparr>bRequestType = USB_DIR_OUT OR USB_TYPE_CLASS OR USB_RECIP_INTERFACE,
      bRequest = HID_REQ_SET_PROTOCOL, wValue = val, wIndex = 0, wLength = 0\<rparr> st"

definition set_idle :: "usb_ops \<Rightarrow> u32 \<Rightarrow> nat \<Rightarrow> clock_state \<Rightarrow> int \<times> clock_state" where
  "set_idle u pipe ms st = send_default_control u pipe
     \<lparr>bRequestType = USB_DIR_OUT OR USB_TYPE_CLASS OR USB_RECIP_INTERFACE,
      bRequest = HID_REQ_SET_IDLE, wValue = push_bit 8 (of_nat (ms div 4)), wIndex = 0, wLength = 0\<rparr> st"

type_synonym hid_result = "int \<times> hid_pipes \<times> clock_state"

definition usb_kbd_init :: "usb_ops \<Rightarrow> u32 \<Rightarrow> u32 \<Rightarrow> hid_pipes \<Rightarrow> clock_state \<Rightarrow> hid_result" where
  "usb_kbd_init u pipe epdesc h st =
     (if keyboard_pipe h \<noteq> 0 then (- 1, h, st)
      else if wMaxPacketSize (mem st) epdesc \<noteq> 8 then (- 1, h, st)
      else let (ret, st) = set_protocol u pipe 0 st in
        if ret \<noteq> 0 then (- 1, h, st)
        else let (ret, st) = set_idle u pipe KEYREPEATMS st in
          if ret \<noteq> 0 then (- 1, h, st)
          else let (p, st) = alloc_intr_pipe u pipe epdesc st;
                   h = h\<lparr>keyboard_pipe := p\<rparr> in
            if p = 0 then (- 1, h, st) else (0, h, st))"

definition usb_mouse_init :: "usb_ops \<Rightarrow> u32 \<Rightarrow> u32 \<Rightarrow> hid_pipes \<Rightarrow> clock_state \<Rightarrow> hid_result" where
  "usb_mouse_init u pipe epdesc h st =
     (if mouse_pipe h \<noteq> 0 then (- 1, h, st)
      else if wMaxPacketSize (mem st) epdesc < 3 \<or> wMaxPacketSize (mem st) epdesc > 8 then (- 1, h, st)
      else let (ret, st) = set_protocol u pipe 0 st in
        if ret \<noteq> 0 then (- 1, h, st)
        else let (p, st) = alloc_intr_pipe u pipe epdesc st;
                 h = h\<lparr>mouse_pipe := p\<rparr> in
          if p = 0 then (- 1, h, st) else (0, h, st))"

definition usb_hid_init ::
  "usb_ops \<Rightarrow> u32 \<Rightarrow> u32 \<Rightarrow> u32 \<Rightarrow> hid_pipes \<Rightarrow> clock_state \<Rightarrow> hid_result option" where
  "usb_hid_init u pipe iface imax h st =
     (if bInterfaceSubClass (mem st) iface \<noteq> USB_INTERFACE_SUBCLASS_BOOT then Some (- 1, h, st)
      else do {
        epdesc \<leftarrow> findEndPointDesc iface imax USB_ENDPOINT_XFER_INT USB_DIR_IN (mem st);
        Some (if epdesc = 0 then (- 1, h, st)
          else if bInterfaceProtocol (mem st) iface = USB_INTERFACE_PROTOCOL_KEYBOARD
            then usb_kbd_init u pipe epdesc h st
          else if bInterfaceProtocol (mem st) iface = USB_INTERFACE_PROTOCOL_MOUSE
            then usb_mouse_init u pipe epdesc h st
          else (- 1, h, st)) })"

section \<open>Key sequences\<close>

definition KeyToScanCode :: "u16 list" where
  "KeyToScanCode = [
     0x0000, 0x0000, 0x0000, 0x0000, 0x001e, 0x0030, 0x002e, 0x0020, 0x0012, 0x0021, 0x0022, 0x0023,
     0x0017, 0x0024, 0x0025, 0x0026, 0x0032, 0x0031, 0x0018, 0x0019, 0x0010, 0x0013, 0x001f, 0x0014,
     0x0016, 0x002f, 0x0011, 0x002d, 0x0015, 0x002c, 0x0002, 0x0003, 0x0004, 0x0005, 0x0006, 0x0007,
     0x0008, 0x0009, 0x000a, 0x000b, 0x001c, 0x0001, 0x000e, 0x000f, 0x0039, 0x000c, 0x000d, 0x001a,
     0x001b, 0x002b, 0x0000, 0x0027, 0x0028, 0x0029, 0x0033, 0x0034, 0x0035, 0x003a, 0x003b, 0x003c,
     0x003d, 0x003e, 0x003f, 0x0040, 0x0041, 0x0042, 0x0043, 0x0044, 0x0057, 0x0058, 0xe037, 0x0046,
     0xe11d, 0xe052, 0xe047, 0xe049, 0xe053, 0xe04f, 0xe051, 0xe04d, 0xe04b, 0xe050, 0xe048, 0x0045,
     0xe035, 0x0037, 0x004a, 0x004e, 0xe01c, 0x004f, 0x0050, 0x0051, 0x004b, 0x004c, 0x004d, 0x0047,
     0x0048, 0x0049, 0x0052, 0x0053]"

definition ModifierToScanCode :: "u16 list" where
  "ModifierToScanCode = [0x001d, 0x002a, 0x0038, 0xe05b, 0xe01d, 0x0036, 0xe038, 0xe05c]"

definition RELEASEBIT :: u16 where "RELEASEBIT = 0x80"

type_synonym key_state = "bool \<times> clock_state"

definition send_key :: "input_env \<Rightarrow> u8 \<Rightarrow> key_state \<Rightarrow> key_state" where
  "send_key E key s = (if fst s then s else process_key (int15_4f E) key (snd s))"

definition prockeys :: "input_env \<Rightarrow> u16 \<Rightarrow> key_state \<Rightarrow> key_state" where
  "prockeys E keys s =
     (let key = ucast (drop_bit 8 keys) :: u8 in
      if keys > 0xff then
        (if key = 0xe1 then
           send_key E (0x45 OR ucast (keys AND RELEASEBIT))
             (send_key E (0x1d OR ucast (keys AND RELEASEBIT)) (send_key E 0xe1 s))
         else send_key E (ucast keys) (send_key E key s))
      else send_key E (ucast keys) s)"

definition procscankey :: "input_env \<Rightarrow> u8 \<Rightarrow> u16 \<Rightarrow> key_state \<Rightarrow> key_state" where
  "procscankey E key flags s =
     (if unat key \<ge> length KeyToScanCode then s
      else let keys = KeyToScanCode ! unat key in
        if keys \<noteq> 0 then prockeys E (keys OR flags) s else s)"

text \<open>The loop of \<open>procmodkey\<close> from bit \<open>i\<close>; a byte has no bit left after the eighth round.\<close>

fun procmodkey_from :: "nat \<Rightarrow> nat \<Rightarrow> input_env \<Rightarrow> u8 \<Rightarrow> u16 \<Rightarrow> key_state \<Rightarrow> key_state" where
  "procmodkey_from 0 i E mods flags s = s"
| "procmodkey_from (Suc n) i E mods flags s =
     (if mods = 0 then s
      else if bit mods i then
        procmodkey_from n (i + 1) E (unset_bit i mods) flags (prockeys E (ModifierToScanCode ! i OR flags) s)
      else procmodkey_from n (i + 1) E mods flags s)"

definition procmodkey :: "input_env \<Rightarrow> u8 \<Rightarrow> u16 \<Rightarrow> key_state \<Rightarrow> key_state" where
  "procmodkey E mods flags s = procmodkey_from 8 0 E mods flags s"

section \<open>Keyboard reports\<close>

record usbkeyinfo =
  modifiers :: u8
  repeatcount :: u8
  keys :: "u8 list"

definition ebda_usbkey_last :: u32 where "ebda_usbkey_last = 0x122"

definition bytes_to_keyinfo :: "u8 list \<Rightarrow> usbkeyinfo" where
  "bytes_to_keyinfo b = \<lparr>modifiers = b ! 0, repeatcount = b ! 1, keys = drop 2 b\<rparr>"

definition load_usbkey :: "u16 \<Rightarrow> clock_state \<Rightarrow> usbkeyinfo" where
  "load_usbkey sg st = bytes_to_keyinfo (map (\<lambda>i. ebda8 sg (ebda_usbkey_last + of_nat i) st) [0..<8])"

definition store_usbkey :: "u16 \<Rightarrow> usbkeyinfo \<Rightarrow> clock_state \<Rightarrow> clock_state" where
  "store_usbkey sg k st =
     fold (\<lambda>i st. set_ebda8 sg (ebda_usbkey_last + of_nat i) ((modifiers k # repeatcount k # keys k) ! i) st)
       [0..<8] st"

fun find_key :: "u8 \<Rightarrow> u8 list \<Rightarrow> nat option" where
  "find_key key [] = None"
| "find_key key (k # ks) = (if k = key then Some 0 else map_option Suc (find_key key ks))"

text \<open>
  The loop over the old keys, from index \<open>i\<close> with \<open>n\<close> indices left: \<open>old.keys\<close> is overwritten in place
  by the keys that are still held, and their bytes of the report are cleared.
\<close>

fun old_keys :: "nat \<Rightarrow> nat \<Rightarrow> input_env \<Rightarrow> nat \<Rightarrow> usbkeyinfo \<Rightarrow> u8 list \<Rightarrow> key_state
  \<Rightarrow> (nat \<times> usbkeyinfo \<times> u8 list \<times> key_state) option" where
  "old_keys 0 i E addpos old data s = Some (addpos, old, data, s)"
| "old_keys (Suc n) i E addpos old data s =
     (let key = keys old ! i in
      if key = 0 then Some (addpos, old, data, s)
      else case find_key key data of
        None \<Rightarrow>
          let s = procscankey E key RELEASEBIT s;
              old = (if i + 1 \<ge> length (keys old) \<or> keys old ! (i + 1) = 0
                     then old\<lparr>repeatcount := 0xff\<rparr> else old) in
          old_keys n (i + 1) E addpos old data s
      | Some j \<Rightarrow> do {
          ks \<leftarrow> param_store addpos key (keys old);
          old_keys n (i + 1) E (addpos + 1) (old\<lparr>keys := ks\<rparr>) (data[j := 0]) s })"

fun new_keys :: "u8 list \<Rightarrow> input_env \<Rightarrow> nat \<Rightarrow> usbkeyinfo \<Rightarrow> key_state
  \<Rightarrow> (nat \<times> usbkeyinfo \<times> key_state) option" where
  "new_keys [] E addpos old s = Some (addpos, old, s)"
| "new_keys (key # data) E addpos old s =
     (if key = 0 then new_keys data E addpos old s
      else do {
        ks \<leftarrow> param_store addpos key (keys old);
        new_keys data E (addpos + 1)
          (old\<lparr>keys := ks, repeatcount := of_nat (KEYREPEATWAITMS div KEYREPEATMS + 1)\<rparr>)
          (procscankey E key 0 s) })"

definition end_keys :: "nat \<Rightarrow> usbkeyinfo \<Rightarrow> usbkeyinfo option" where
  "end_keys addpos old =
     (if addpos < length (keys old)
      then do { ks \<leftarrow> param_store addpos 0 (keys old); Some (old\<lparr>keys := ks\<rparr>) } else Some old)"

definition repeat_key :: "input_env \<Rightarrow> nat \<Rightarrow> usbkeyinfo \<Rightarrow> key_state \<Rightarrow> (usbkeyinfo \<times> key_state) option" where
  "repeat_key E addpos old s =
     (if addpos = 0 then Some (old, s)
      else if repeatcount old = 0 then do {
        key \<leftarrow> param_load (addpos - 1) (keys old);
        Some (old, procscankey E key 0 s) }
      else if repeatcount old \<noteq> 0xff then Some (old\<lparr>repeatcount := repeatcount old - 1\<rparr>, s)
      else Some (old, s))"

text \<open>\<open>handle_key\<close> between the load and the store of the held keys.\<close>

definition key_report :: "input_env \<Rightarrow> usbkeyinfo \<Rightarrow> u8 list \<Rightarrow> key_state \<Rightarrow> (usbkeyinfo \<times> key_state) option" where
  "key_report E old report s = do {
     let mods = report ! 0;
     (addpos, old, data, s) \<leftarrow> old_keys (length (keys old)) 0 E 0 old (drop 2 report) s;
     let s = procmodkey E (modifiers old AND NOT mods) RELEASEBIT s;
     let s = procmodkey E (mods AND NOT (modifiers old)) 0 s;
     (addpos, old, s) \<leftarrow> new_keys data E addpos (old\<lparr>modifiers := mods\<rparr>) s;
     old \<leftarrow> end_keys addpos old;
     repeat_key E addpos old s }"

definition handle_key :: "input_env \<Rightarrow> u8 list \<Rightarrow> clock_state \<Rightarrow> key_state option" where
  "handle_key E report st = do {
     let ebda_seg = get_ebda_seg st;
     (old, s) \<leftarrow> key_report E (load_usbkey ebda_seg st) report (False, st);
     Some (if fst s then s else (False, store_usbkey ebda_seg old (snd s))) }"

partial_function (option) check_key_loop :: "input_env \<Rightarrow> clock_state \<Rightarrow> key_state option" where
  "check_key_loop E st =
     (case usb_poll_intr E (keyboard_pipe (pipes E)) st of
        (None, st) \<Rightarrow> Some (False, st)
      | (Some report, st) \<Rightarrow> do {
          s \<leftarrow> handle_key E report st;
          (if fst s then Some s else check_key_loop E (snd s)) })"

declare check_key_loop.simps [code]

definition usb_check_key :: "input_env \<Rightarrow> clock_state \<Rightarrow> key_state option" where
  "usb_check_key E st = (if usb_kbd_active E then check_key_loop E st else Some (False, st))"

section \<open>Mouse reports\<close>

definition handle_mouse :: "input_env \<Rightarrow> u8 list \<Rightarrow> clock_state \<Rightarrow> clock_state" where
  "handle_mouse E report st =
     (let x = report ! 1; y = - (report ! 2);
          flag = ((report ! 0) AND 0x7) OR 0x08 OR (if x AND 0x80 \<noteq> 0 then 0x10 else 0)
                 OR (if y AND 0x80 \<noteq> 0 then 0x20 else 0) in
      process_mouse E y (process_mouse E x (process_mouse E flag st)))"

partial_function (option) check_mouse_loop :: "input_env \<Rightarrow> clock_state \<Rightarrow> clock_state option" where
  "check_mouse_loop E st =
     (case usb_poll_intr E (mouse_pipe (pipes E)) st of
        (None, st) \<Rightarrow> Some st
      | (Some report, st) \<Rightarrow> check_mouse_loop E (handle_mouse E report st))"

declare check_mouse_loop.simps [code]

definition usb_check_mouse :: "input_env \<Rightarrow> clock_state \<Rightarrow> clock_state option" where
  "usb_check_mouse E st = (if usb_mouse_active E then check_mouse_loop E st else Some st)"

definition usb_check_events :: "input_env \<Rightarrow> clock_state \<Rightarrow> key_state option" where
  "usb_check_events E st = do {
     s \<leftarrow> usb_check_key E st;
     (if fst s then Some s else do { st \<leftarrow> usb_check_mouse E (snd s); Some (False, st) }) }"

end
