(* ===== verification/Ps2irq.thy ===== *)
theory Ps2irq
  imports UsbHid
begin

text \<open>
  The interrupt handlers and the set up of \<open>src/ps2port.c\<close>: INT 74h takes a byte of the mouse from
  the controller to \<open>process_mouse\<close>, INT 09h a scancode to \<open>process_key\<close>, each only while its
  interrupt is enabled in the control byte of the EBDA. \<open>debug_isr\<close> is left out.
\<close>

definition handle_74 :: "input_env \<Rightarrow> clock_state \<Rightarrow> clock_state" where
  "handle_74 E st =
     (let (v, st) = inb PORT_PS2_STATUS st in
      if v AND (I8042_STR_OBF OR I8042_STR_AUXDATA) \<noteq> I8042_STR_OBF OR I8042_STR_AUXDATA
      then eoi_pic2 st
      else let (v, st) = inb PORT_PS2_DATA st in
        if ebda8 (get_ebda_seg st) ebda_ps2ctr st AND I8042_CTR_AUXINT = 0 then eoi_pic2 st
        else eoi_pic2 (process_mouse E v st))"

definition handle_09 :: "input_env \<Rightarrow> clock_state \<Rightarrow> key_state" where
  "handle_09 E st =
     (let (v, st) = inb PORT_PS2_STATUS st in
      if v AND I8042_STR_AUXDATA \<noteq> 0 then (False, eoi_pic1 st)
      else let (v, st) = inb PORT_PS2_DATA st in
        if ebda8 (get_ebda_seg st) ebda_ps2ctr st AND I8042_CTR_KBDINT = 0 then (False, eoi_pic1 st)
        else case process_key (int15_4f E) v st of
          (reset, st) \<Rightarrow> (reset, if reset then st else eoi_pic1 st))"

definition ps2port_setup :: "input_env \<Rightarrow> u32 \<Rightarrow> u8 list \<Rightarrow> clock_state \<Rightarrow> clock_state option" where
  "ps2port_setup E spinupdelay param st =
     (let st = enable_hwirq 1 (SEGOFF SEG_BIOS (entry_09 E)) st;
          st = enable_hwirq 12 (SEGOFF SEG_BIOS (entry_74 E)) st in
      keyboard_init (clk E) spinupdelay param st)"

end
