(* ===== verification/Ps2Spec.thy ===== *)
theory Ps2Spec
  imports Ps2port ClockSpec
begin

text \<open>
  Properties of the PS/2 commands. The i8042 is specified by what it makes of the bytes written to
  its two ports: a command byte at port 64h, and at port 60h the data byte of the command before it
  or a byte for the keyboard. A PS/2 command delivers its bytes to its own device only, in order,
  and leaves the controller configured as it was; it ends whatever the devices answer.
\<close>

section \<open>The controller's view of the ports\<close>

record i8042 =
  pend :: "u8 option"
  ctl :: "u8 option"
  to_kbd :: "u8 list"
  to_aux :: "u8 list"

text \<open>
  \<open>pend\<close> is the command that waits for its data byte (60h: write the control byte, D4h: send to the
  mouse), \<open>ctl\<close> the control byte last written, \<open>to_kbd\<close> and \<open>to_aux\<close> what the devices got.
\<close>

definition i8042_out :: "u16 \<Rightarrow> u8 \<Rightarrow> i8042 \<Rightarrow> i8042" where
  "i8042_out p v c =
     (if p = 0x64 then c\<lparr>pend := (if v = 0x60 \<or> v = 0xd4 then Some v else None)\<rparr>
      else if p = 0x60 then
        (if pend c = Some 0x60 then c\<lparr>ctl := Some v, pend := None\<rparr>
         else if pend c = Some 0xd4 then c\<lparr>to_aux := to_aux c @ [v], pend := None\<rparr>
         else c\<lparr>to_kbd := to_kbd c @ [v]\<rparr>)
      else c)"

fun i8042_of :: "io_event list \<Rightarrow> i8042" where
  "i8042_of [] = \<lparr>pend = None, ctl = None, to_kbd = [], to_aux = []\<rparr>"
| "i8042_of (PortOut W8 p v # l) = i8042_out p (ucast v) (i8042_of l)"
| "i8042_of (_ # l) = i8042_of l"

definition wire :: "clock_state \<Rightarrow> i8042" where
  "wire st = i8042_of (io_log st)"

lemma wire_inb [simp]: "wire (snd (inb p st)) = wire st" "inb p st = (v, st') \<Longrightarrow> wire st' = wire st"
  by (auto simp: wire_def inb_def Let_def)

lemma wire_outb [simp]: "wire (outb v p st) = i8042_out p v (wire st)"
  by (simp add: wire_def outb_def)

lemma wire_cong: "io_log st' = io_log st \<Longrightarrow> wire st' = wire st"
  by (simp add: wire_def)

lemma wire_check_tsc: "check_tsc e endt st = (b, st') \<Longrightarrow> wire st' = wire st"
  by (auto simp: check_tsc_def rdtscll_def wire_def)

lemma wire_calc: "calc_future_tsc e ms st = (endt, st') \<Longrightarrow> wire st' = wire st"
  by (auto simp: calc_future_tsc_def rdtscll_def wire_def)

text \<open>What a device got, and the progress of a transfer: some of the bytes have arrived at the
  device, none at the other one; after success all have.\<close>

definition bytes :: "bool \<Rightarrow> i8042 \<Rightarrow> u8 list" where
  "bytes aux c = (if aux then to_aux c else to_kbd c)"

definition delivers :: "bool \<Rightarrow> u8 list \<Rightarrow> bool \<Rightarrow> i8042 \<Rightarrow> i8042 \<Rightarrow> bool" where
  "delivers aux bs ok c c' \<longleftrightarrow>
     (\<exists>k. bytes aux c' = bytes aux c @ take k bs) \<and> bytes (\<not> aux) c' = bytes (\<not> aux) c \<and>
     (ok \<longrightarrow> bytes aux c' = bytes aux c @ bs \<and> pend c' = None)"

lemma delivers_nil: "c' = c \<Longrightarrow> ok \<longrightarrow> pend c = None \<Longrightarrow> delivers aux [] ok c c'"
  by (simp add: delivers_def)

lemma delivers_append:
  "delivers aux bs True c c' \<Longrightarrow> delivers aux cs ok c' c'' \<Longrightarrow> delivers aux (bs @ cs) ok c c''"
  unfolding delivers_def by (auto intro: exI [of _ "length bs + k" for k])

lemma delivers_Cons:
  "delivers aux [b] True c c' \<Longrightarrow> delivers aux cs ok c' c'' \<Longrightarrow> delivers aux (b # cs) ok c c''"
  using delivers_append [of aux "[b]" c c' cs] by simp

lemma delivers_fail:
  assumes "delivers aux bs ok c c'"
  shows "delivers aux (bs @ cs) False c c'"
proof -
  obtain k where k: "bytes aux c' = bytes aux c @ take k bs" using assms by (auto simp: delivers_def)
  have "take k bs = take (min k (length bs)) (bs @ cs)"
    by (cases "k \<le> length bs") (simp_all add: min_def)
  then show ?thesis using assms k unfolding delivers_def by metis
qed

section \<open>Controller commands\<close>

lemma tsc_loop_wire:
  assumes "tsc_loop e idle endt st = Some st'" "\<And>s. wire (idle s) = wire s"
  shows "wire st' = wire st"
  using assms
proof (induction rule: tsc_loop.raw_induct [rotated, consumes 1, case_names step])
  case (step loop e idle endt st st')
  then show ?case
    by (auto split: prod.splits if_splits dest!: wire_check_tsc)
qed

lemma udelay_wire: "udelay e n st = Some st' \<Longrightarrow> wire st' = wire st"
  by (auto simp: udelay_def tscdelay_def rdtscll_def wire_def dest: tsc_loop_wire [unfolded wire_def])

lemma wait_rounds_wire:
  "wait_read_rounds n e st = Some (ret, st') \<Longrightarrow> wire st' = wire st"
  "wait_write_rounds n e st = Some (ret, st') \<Longrightarrow> wire st' = wire st"
  by (induction n arbitrary: st)
    (auto simp: Let_def split: prod.splits if_splits option.splits bind_splits dest!: udelay_wire)

lemmas wait_wire = wait_rounds_wire [of I8042_CTL_TIMEOUT, folded i8042_wait_read_def i8042_wait_write_def]

lemma i8042_send_wire:
  "i8042_send n i e param st = Some (ret, st') \<Longrightarrow>
   \<exists>k. wire st' = fold (i8042_out 0x60) (take k (drop i param)) (wire st) \<and>
     (ret = 0 \<longrightarrow> (n = 0 \<or> i + n \<le> length param) \<and> k = n)"
proof (induction n arbitrary: i st)
  case (Suc n)
  then obtain r s where w: "i8042_wait_write e st = Some (r, s)" by (auto split: bind_splits)
  show ?case
  proof (cases "r = 0")
    case False
    then show ?thesis using Suc.prems w wait_wire(2) [OF w] by (intro exI [of _ 0]) auto
  next
    case True
    then have i: "i < length param"
      and rest: "i8042_send n (Suc i) e param (outb (param ! i) PORT_PS2_DATA s) = Some (ret, st')"
      using Suc.prems w by (auto simp: param_load_def split: if_splits)
    obtain k where k: "wire st' = fold (i8042_out 0x60) (take k (drop (Suc i) param))
        (i8042_out 0x60 (param ! i) (wire st))" "ret = 0 \<longrightarrow> (n = 0 \<or> Suc i + n \<le> length param) \<and> k = n"
      using Suc.IH [OF rest] wait_wire(2) [OF w] by (auto simp: ps2_ports)
    show ?thesis
      using k i by (intro exI [of _ "Suc k"]) (auto simp flip: Cons_nth_drop_Suc)
  qed
qed (auto intro: exI [of _ 0])

lemma i8042_receive_wire:
  "i8042_receive n i e param st = Some (ret, p, st') \<Longrightarrow> wire st' = wire st"
  by (induction n arbitrary: i param st)
    (auto simp: Let_def split: prod.splits if_splits bind_splits dest!: wait_wire)

lemma i8042_command_wire:
  assumes "i8042_command e command param st = Some (ret, p, st')"
  shows "ret \<noteq> 0 \<and> wire st' = wire st \<or>
    (\<exists>k. wire st' = fold (i8042_out 0x60) (take k param) (i8042_out 0x64 (ucast command) (wire st)) \<and>
       (ret = 0 \<longrightarrow> cmd_send command \<le> length param \<and> k = cmd_send command))"
proof -
  obtain r s where w: "i8042_wait_write e st = Some (r, s)"
    using assms by (auto simp: i8042_command_def split: bind_splits)
  show ?thesis
  proof (cases "r = 0")
    case False
    then show ?thesis using assms w wait_wire(2) [OF w] by (auto simp: i8042_command_def)
  next
    case True
    obtain r' s' where snd: "i8042_send (cmd_send command) 0 e param (outb (ucast command) PORT_PS2_STATUS s) = Some (r', s')"
      and rest: "ret = r' \<and> st' = s' \<and> r' \<noteq> 0 \<or>
        r' = 0 \<and> i8042_receive (cmd_receive command) 0 e param s' = Some (ret, p, st')"
      using assms w True by (auto simp: i8042_command_def split: bind_splits if_splits)
    obtain k where "wire s' = fold (i8042_out 0x60) (take k (drop 0 param)) (wire (outb (ucast command) PORT_PS2_STATUS s))"
      and k: "r' = 0 \<longrightarrow> (cmd_send command = 0 \<or> 0 + cmd_send command \<le> length param) \<and> k = cmd_send command"
      using i8042_send_wire [OF snd] by blast
    then have "wire s' = fold (i8042_out 0x60) (take k param) (i8042_out 0x64 (ucast command) (wire st))"
      using wait_wire(2) [OF w] by (simp add: ps2_ports)
    moreover have "wire st' = wire s'" "ret = 0 \<longrightarrow> r' = 0"
      using rest by (auto dest: i8042_receive_wire)
    ultimately show ?thesis using k by auto
  qed
qed

text \<open>Writing the control byte, and sending a byte to a device.\<close>

lemma cmd_send_eqs [simp]:
  "cmd_send I8042_CMD_CTL_WCTR = 1" "cmd_send I8042_CMD_AUX_SEND = 1"
  "cmd_send ATKBD_CMD_RESET_BAT = 0" "cmd_send ATKBD_CMD_GETID32 = 0" "cmd_send ATKBD_CMD_SSCANSET = 1"
  "cmd_receive I8042_CMD_CTL_WCTR = 0" "cmd_receive I8042_CMD_AUX_SEND = 0" "cmd_receive ATKBD_CMD_SSCANSET = 0"
  by (simp_all add: cmd_send_def cmd_receive_def i8042_cmds atkbd_cmds)

lemma take_single: "take k [x] = (if k = 0 then [] else [x])"
  by (cases k) auto

lemma cmd_byte_eqs [simp]:
  "ucast I8042_CMD_CTL_WCTR = (0x60 :: u8)" "ucast I8042_CMD_AUX_SEND = (0xd4 :: u8)"
  "ucast ATKBD_CMD_SSCANSET = (0xf0 :: u8)"
  by (code_simp, code_simp, code_simp)

lemma bytes_sel [simp]: "bytes a (c\<lparr>pend := x\<rparr>) = bytes a c" "bytes a (c\<lparr>ctl := y\<rparr>) = bytes a c"
  by (simp_all add: bytes_def)

lemma wctr_wire:
  assumes "i8042_command e I8042_CMD_CTL_WCTR [v] st = Some (ret, p, st')"
  shows "bytes a (wire st') = bytes a (wire st)"
    and "ret = 0 \<Longrightarrow> ctl (wire st') = Some v \<and> pend (wire st') = None"
  using i8042_command_wire [OF assms] by (auto simp: take_single i8042_out_def)

lemma device_write:
  assumes "(if aux then i8042_aux_write e c st else i8042_kbd_write e c st) = Some (ret, st')"
    and "pend (wire st) = None"
  shows "delivers aux [c] (ret = 0) (wire st) (wire st')"
proof (cases aux)
  case True
  then obtain p where "i8042_command e I8042_CMD_AUX_SEND [c] st = Some (ret, p, st')"
    using assms(1) by (auto simp: i8042_aux_write_def split: bind_splits)
  from i8042_command_wire [OF this] consider "ret \<noteq> 0" "wire st' = wire st"
    | "ret \<noteq> 0" "wire st' = i8042_out 0x64 0xd4 (wire st)"
    | "wire st' = i8042_out 0x60 c (i8042_out 0x64 0xd4 (wire st))"
    by (auto simp: take_single split: if_splits)
  then show ?thesis
    using True by cases (auto simp: delivers_def bytes_def i8042_out_def take_single)
next
  case False
  then consider "ret \<noteq> 0" "wire st' = wire st" | "wire st' = i8042_out 0x60 c (wire st)"
    using assms(1) by (auto simp: i8042_kbd_write_def ps2_ports split: bind_splits if_splits dest!: wait_wire)
  then show ?thesis
    using False assms(2) by cases (auto simp: delivers_def bytes_def i8042_out_def take_single)
qed

section \<open>Device commands\<close>

text \<open>The threads that run in \<open>yield\<close> write nothing to the controller.\<close>

definition wire_quiet :: "clock_env \<Rightarrow> bool" where
  "wire_quiet e \<longleftrightarrow> (\<forall>st. wire (yield e st) = wire st)"

lemma recvbyte_poll_wire: "recvbyte_poll aux needack st = (x, st') \<Longrightarrow> wire st' = wire st"
  by (auto simp: recvbyte_poll_def Let_def split: prod.splits if_splits)

lemma recvbyte_loop_wire:
  assumes "recvbyte_loop e aux needack endt st = Some (ret, st')" "wire_quiet e"
  shows "wire st' = wire st"
  using assms
proof (induction e aux needack endt st "(ret, st')" rule: recvbyte_loop.raw_induct [rotated, consumes 1, case_names step])
  case (step loop e aux needack endt st)
  then show ?case
    by (auto simp: Let_def wire_quiet_def split: prod.splits option.splits if_splits
        dest!: wire_check_tsc recvbyte_poll_wire)
qed

lemma recvbyte_wire:
  "ps2_recvbyte e aux needack ms st = Some (ret, st') \<Longrightarrow> wire_quiet e \<Longrightarrow> wire st' = wire st"
  by (auto simp: ps2_recvbyte_def split: prod.splits dest!: recvbyte_loop_wire wire_calc)

lemma sendbyte_wire:
  assumes "ps2_sendbyte e aux c ms st = Some (ret, st')" "wire_quiet e" "pend (wire st) = None"
  shows "delivers aux [c] (ret = 0) (wire st) (wire st')"
proof -
  obtain r s where w: "(if aux then i8042_aux_write e c st else i8042_kbd_write e c st) = Some (r, s)"
    using assms(1) by (auto simp: ps2_sendbyte_def split: bind_splits)
  have d: "delivers aux [c] (r = 0) (wire st) (wire s)" by (rule device_write [OF w assms(3)])
  show ?thesis
  proof (cases "r = 0")
    case False
    then show ?thesis using assms(1) w d by (auto simp: ps2_sendbyte_def split: bind_splits if_splits)
  next
    case True
    then obtain r' where "ps2_recvbyte e aux True ms s = Some (r', st')"
      using assms(1) w by (auto simp: ps2_sendbyte_def split: bind_splits if_splits)
    then show ?thesis using d True recvbyte_wire [OF _ assms(2)] by (auto simp: delivers_def)
  qed
qed

lemma ps2_send_wire:
  assumes "wire_quiet e"
  shows "ps2_send n i e aux param st = Some (ret, st') \<Longrightarrow> pend (wire st) = None \<Longrightarrow>
    delivers aux (take n (drop i param)) (ret = 0) (wire st) (wire st')"
proof (induction n arbitrary: i st)
  case (Suc n)
  from Suc.prems(1) have i: "i < length param" by (auto simp: param_load_def split: bind_splits if_splits)
  then obtain r s where w: "ps2_sendbyte e aux (param ! i) 200 st = Some (r, s)"
    using Suc.prems(1) by (auto simp: param_load_def split: bind_splits)
  have split: "take (Suc n) (drop i param) = [param ! i] @ take n (drop (Suc i) param)"
    using i by (simp flip: Cons_nth_drop_Suc)
  have d: "delivers aux [param ! i] (r = 0) (wire st) (wire s)"
    by (rule sendbyte_wire [OF w assms Suc.prems(2)])
  show ?case
  proof (cases "r = 0")
    case False
    then show ?thesis using Suc.prems(1) i w delivers_fail [OF d] unfolding split by (auto simp: param_load_def)
  next
    case True
    then have "ps2_send n (Suc i) e aux param s = Some (ret, st')"
      using Suc.prems(1) i w by (auto simp: param_load_def)
    moreover have d': "delivers aux [param ! i] True (wire st) (wire s)" using d True by simp
    then have "pend (wire s) = None" by (simp add: delivers_def)
    ultimately show ?thesis unfolding split by (intro delivers_append [OF d'] Suc.IH)
  qed
qed (simp add: delivers_nil)

lemma ps2_receive_wire:
  "ps2_receive n i e aux param st = Some (ret, p, st') \<Longrightarrow> wire_quiet e \<Longrightarrow> wire st' = wire st"
  by (induction n arbitrary: i param st)
    (auto split: prod.splits if_splits bind_splits dest!: recvbyte_wire)

lemma delivers_weaken: "delivers aux bs ok c c' \<Longrightarrow> (ok' \<Longrightarrow> ok) \<Longrightarrow> delivers aux bs ok' c c'"
  by (auto simp: delivers_def)

text \<open>A reset and the request of the identity send one byte; the rest are answers.\<close>

lemma ps2_reset_wire:
  assumes "ps2_reset e aux command param st = Some (ret, p, st')" "wire_quiet e"
  shows "\<exists>r s. ps2_sendbyte e aux (ucast command) 1000 st = Some (r, s) \<and> wire st' = wire s \<and> (ret = 0 \<longrightarrow> r = 0)"
  using assms by (auto simp: ps2_reset_def split: bind_splits if_splits dest!: recvbyte_wire)

lemma ps2_getid_wire:
  assumes "ps2_getid e aux command param st = Some (ret, p, st')" "wire_quiet e"
  shows "\<exists>r s. ps2_sendbyte e aux (ucast command) 200 st = Some (r, s) \<and> wire st' = wire s \<and> (ret = 0 \<longrightarrow> r = 0)"
  using assms by (auto simp: ps2_getid_def split: bind_splits if_splits dest!: recvbyte_wire)

lemma ps2_plain_wire:
  assumes "ps2_plain e aux command param st = Some (ret, p, st')" "wire_quiet e" "pend (wire st) = None"
  shows "delivers aux (ucast command # take (cmd_send command) param) (ret = 0) (wire st) (wire st')"
proof -
  obtain r s where w: "ps2_sendbyte e aux (ucast command) 200 st = Some (r, s)"
    using assms(1) by (auto simp: ps2_plain_def split: bind_splits)
  have d: "delivers aux [ucast command] (r = 0) (wire st) (wire s)"
    by (rule sendbyte_wire [OF w assms(2,3)])
  show ?thesis
  proof (cases "r = 0")
    case False
    then show ?thesis using assms(1) w delivers_fail [OF d] by (auto simp: ps2_plain_def)
  next
    case True
    then obtain r' s' where s: "ps2_send (cmd_send command) 0 e aux param s = Some (r', s')"
      and rest: "ret = r' \<and> st' = s' \<or> r' = 0 \<and> ps2_receive (cmd_receive command) 0 e aux param s' = Some (ret, p, st')"
      using assms(1) w by (auto simp: ps2_plain_def split: bind_splits if_splits)
    have d': "delivers aux [ucast command] True (wire st) (wire s)" using d True by simp
    then have "pend (wire s) = None" by (simp add: delivers_def)
    from ps2_send_wire [OF assms(2) s this]
    have "delivers aux (take (cmd_send command) param) (r' = 0) (wire s) (wire s')" by simp
    from delivers_Cons [OF d' this]
    have "delivers aux (ucast command # take (cmd_send command) param) (ret = 0) (wire st) (wire s')"
      by (rule delivers_weaken) (use rest in auto)
    moreover have "wire st' = wire s'" using rest ps2_receive_wire [OF _ assms(2)] by auto
    ultimately show ?thesis by simp
  qed
qed

lemma ps2_exchange_wire:
  assumes "ps2_exchange e aux command param st = Some (ret, p, st')" "wire_quiet e" "pend (wire st) = None"
  shows "delivers aux (ucast command # take (cmd_send command) param) (ret = 0) (wire st) (wire st')"
proof -
  consider "ps2_plain e aux command param st = Some (ret, p, st')"
    | r s ms where "cmd_send command = 0" "ps2_sendbyte e aux (ucast command) ms st = Some (r, s)"
        "wire st' = wire s" "ret = 0 \<longrightarrow> r = 0"
    using assms(1)
    by (auto simp: ps2_exchange_def split: if_splits
        dest!: ps2_reset_wire [OF _ assms(2)] ps2_getid_wire [OF _ assms(2)])
  then show ?thesis
  proof cases
    case 1 then show ?thesis by (rule ps2_plain_wire [OF _ assms(2,3)])
  next
    case 2
    from delivers_weaken [OF sendbyte_wire [OF 2(2) assms(2,3)], of "ret = 0"] 2 show ?thesis by simp
  qed
qed

lemma ps2_command_wire:
  assumes "ps2_command e aux command param st = Some (ret, p, st')" "wire_quiet e"
  shows "(\<exists>k. bytes aux (wire st') = bytes aux (wire st) @ take k (ucast command # take (cmd_send command) param)) \<and>
    bytes (\<not> aux) (wire st') = bytes (\<not> aux) (wire st) \<and>
    (ret = 0 \<longrightarrow> bytes aux (wire st') = bytes aux (wire st) @ ucast command # take (cmd_send command) param \<and>
       ctl (wire st') = Some (ebda8 (get_ebda_seg st) ebda_ps2ctr st) \<and> pend (wire st') = None)"
proof -
  let ?ctr = "ebda8 (get_ebda_seg st) ebda_ps2ctr st"
    and ?bs = "ucast command # take (cmd_send command) param"
  let ?new = "(?ctr OR I8042_CTR_AUXDIS OR I8042_CTR_KBDDIS) AND NOT (I8042_CTR_KBDINT OR I8042_CTR_AUXINT)"
  obtain r1 p1 s1 where c1: "i8042_command e I8042_CMD_CTL_WCTR [?new] st = Some (r1, p1, s1)"
    using assms(1) by (auto simp: ps2_command_def Let_def split: bind_splits)
  have w1: "bytes a (wire (yield e s1)) = bytes a (wire st)" for a
    using wctr_wire(1) [OF c1] assms(2) by (simp add: wire_quiet_def)
  show ?thesis
  proof (cases "r1 = 0")
    case False
    then show ?thesis using assms(1) c1 wctr_wire(1) [OF c1]
      by (auto simp: ps2_command_def Let_def intro: exI [of _ 0])
  next
    case True
    let ?on = "?new AND NOT (if aux then I8042_CTR_AUXDIS else I8042_CTR_KBDDIS)"
    obtain r2 p2 s2 r3 p3 s3 r4 p4
      where c2: "i8042_command e I8042_CMD_CTL_WCTR [?on] (yield e s1) = Some (r2, p2, s2)"
        and c3: "(if r2 \<noteq> 0 then Some (r2, param, s2) else ps2_exchange e aux command param s2) = Some (r3, p3, s3)"
        and c4: "i8042_command e I8042_CMD_CTL_WCTR [?ctr] s3 = Some (r4, p4, st')"
        and ret: "ret = (if r4 \<noteq> 0 then r4 else r3)"
      using assms(1) c1 True by (auto simp: ps2_command_def Let_def split: bind_splits)
    have w2: "bytes a (wire s2) = bytes a (wire st)" for a
      using wctr_wire(1) [OF c2] w1 by simp
    have "delivers aux ?bs (r3 = 0) (wire s2) (wire s3)"
    proof (cases "r2 = 0")
      case False
      then show ?thesis using c3 by (auto simp: delivers_def intro: exI [of _ 0])
    next
      case True
      then show ?thesis
        using c3 wctr_wire(2) [OF c2] ps2_exchange_wire [OF _ assms(2)] by simp
    qed
    then show ?thesis
      using w2 wctr_wire [OF c4] ret by (auto simp: delivers_def)
  qed
qed

section \<open>Every command ends\<close>

lemma udelay_ends:
  "tsc_runs e f g \<Longrightarrow> idle_short f g (yield e) \<Longrightarrow> \<exists>st'. udelay e n st = Some st'"
  using usecs_end [of e f g "udelay e n" n st] by auto

lemma wait_ends:
  assumes "tsc_runs e f g" "idle_short f g (yield e)"
  shows "\<exists>ret st'. i8042_wait_read e st = Some (ret, st')" "\<exists>ret st'. i8042_wait_write e st = Some (ret, st')"
proof -
  have "(\<exists>ret st'. wait_read_rounds n e st = Some (ret, st')) \<and> (\<exists>ret st'. wait_write_rounds n e st = Some (ret, st'))" for n
  proof (induction n arbitrary: st)
    case (Suc n)
    obtain d where "udelay e 50 (snd (inb PORT_PS2_STATUS st)) = Some d"
      using udelay_ends [OF assms] by blast
    then show ?case using Suc by (simp add: Let_def case_prod_beta)
  qed simp
  then show "\<exists>ret st'. i8042_wait_read e st = Some (ret, st')" "\<exists>ret st'. i8042_wait_write e st = Some (ret, st')"
    by (simp_all add: i8042_wait_read_def i8042_wait_write_def)
qed

lemma i8042_send_ends:
  assumes "tsc_runs e f g" "idle_short f g (yield e)"
  shows "n = 0 \<or> i + n \<le> length param \<Longrightarrow> \<exists>ret st'. i8042_send n i e param st = Some (ret, st')"
proof (induction n arbitrary: i st)
  case (Suc n)
  obtain r s where "i8042_wait_write e st = Some (r, s)" using wait_ends(2) [OF assms] by blast
  then show ?case using Suc.IH [of "Suc i"] Suc.prems by (simp add: param_load_def)
qed simp

lemma i8042_receive_ends:
  assumes "tsc_runs e f g" "idle_short f g (yield e)"
  shows "n = 0 \<or> i + n \<le> length param \<Longrightarrow>
    \<exists>ret p st'. i8042_receive n i e param st = Some (ret, p, st')"
proof (induction n arbitrary: i param st)
  case (Suc n)
  obtain r s where "i8042_wait_read e st = Some (r, s)" using wait_ends(1) [OF assms] by blast
  then show ?case using Suc.IH [of "Suc i"] Suc.prems by (simp add: param_store_def case_prod_beta)
qed simp

lemma i8042_command_ends:
  assumes "tsc_runs e f g" "idle_short f g (yield e)"
    and "cmd_send command \<le> length param" "cmd_receive command \<le> length param"
  shows "\<exists>ret p st'. i8042_command e command param st = Some (ret, p, st')"
proof -
  obtain r s where w: "i8042_wait_write e st = Some (r, s)" using wait_ends(2) [OF assms(1,2)] by blast
  obtain r' s' where "i8042_send (cmd_send command) 0 e param (outb (ucast command) PORT_PS2_STATUS s) = Some (r', s')"
    using i8042_send_ends [OF assms(1,2), of "cmd_send command" 0 param
        "outb (ucast command) PORT_PS2_STATUS s"] assms(3) by auto
  then show ?thesis
    using w i8042_receive_ends [OF assms(1,2), of "cmd_receive command" 0 param s'] assms(4)
    by (simp add: i8042_command_def)
qed

lemma poll_reads: "tsc_reads (snd (recvbyte_poll aux needack st)) = tsc_reads st"
  by (simp add: recvbyte_poll_def inb_def Let_def)

lemma recvbyte_tsc_loop:
  assumes "tsc_loop e idle endt s = Some y" "idle = (\<lambda>s. snd (recvbyte_poll aux needack (yield e s)))"
    and "snd (recvbyte_poll aux needack st) = s"
  shows "recvbyte_loop e aux needack endt st \<noteq> None"
  using assms
proof (induction arbitrary: st rule: tsc_loop.raw_induct [rotated, consumes 1, case_names step])
  case (step loop e idle endt s y)
  obtain x where poll: "recvbyte_poll aux needack st = (x, s)" using step.prems(2) by (cases "recvbyte_poll aux needack st") auto
  obtain b s' where check: "check_tsc e endt s = (b, s')" by fastforce
  show ?case
  proof (cases x)
    case (Some d)
    then show ?thesis using poll by (subst recvbyte_loop.simps) simp
  next
    case None
    show ?thesis
    proof (cases b)
      case True
      then show ?thesis using poll check None by (subst recvbyte_loop.simps) simp
    next
      case False
      then have "loop e idle endt (idle s') = Some y" using step.hyps check by simp
      then have "recvbyte_loop e aux needack endt (yield e s') \<noteq> None"
        using step.IH step.prems(1) by blast
      then show ?thesis using poll check None False by (subst recvbyte_loop.simps) simp
    qed
  qed
qed

lemma recvbyte_ends:
  assumes "tsc_runs e f g" "idle_short f g (yield e)" "unat ms \<le> 4000"
  shows "\<exists>ret st'. ps2_recvbyte e aux needack ms st = Some (ret, st')"
proof -
  let ?s = "st\<lparr>tsc_reads := Suc (tsc_reads st)\<rparr>"
  let ?b = "f (tsc_reads st) + unat (cpu_khz st) * unat ms"
  let ?idle = "\<lambda>s. snd (recvbyte_poll aux needack (yield e s))"
  have g: "f (tsc_reads ?s) \<le> f (tsc_reads st) + g" "f (tsc_reads st) \<le> f (tsc_reads ?s)"
    using assms(1) by (simp_all add: tsc_runs_def less_imp_le)
  have "unat (cpu_khz st) * unat ms \<le> 4294967296 * 4000"
    using u32_bound [of "cpu_khz st"] assms(3) by (intro mult_le_mono) simp_all
  then have b: "?b \<le> f (tsc_reads ?s) + 2 ^ 62" using g by simp
  have "ucast (cpu_khz st) = (of_nat (unat (cpu_khz st)) :: u64)" "ucast ms = (of_nat (unat ms) :: u64)"
    by simp_all
  then have calc: "calc_future_tsc e ms st = (of_nat ?b, ?s)"
    using assms(1) unfolding calc_future_tsc_def rdtscll_def tsc_runs_def by simp
  have idle: "idle_short f g ?idle" using assms(2) by (simp add: idle_short_def poll_reads)
  let ?p = "snd (recvbyte_poll aux needack ?s)"
  have p: "f (tsc_reads ?p) = f (tsc_reads ?s)" by (simp only: poll_reads)
  have "\<exists>st'. tsc_loop e ?idle (of_nat ?b) ?p = Some st' \<and> ?b < f (tsc_reads st' - 1) \<and> f (tsc_reads st' - 1) \<le> ?b + 2 * g"
    by (rule tsc_loop_ends [OF assms(1) idle]) (use b g p in linarith)+
  then obtain y where "tsc_loop e ?idle (of_nat ?b) ?p = Some y" by blast
  then have "recvbyte_loop e aux needack (of_nat ?b) ?s \<noteq> None"
    by (rule recvbyte_tsc_loop [OF _ refl refl])
  then show ?thesis by (auto simp: ps2_recvbyte_def calc)
qed

lemma sendbyte_ends:
  assumes "tsc_runs e f g" "idle_short f g (yield e)" "unat ms \<le> 4000"
  shows "\<exists>ret st'. ps2_sendbyte e aux c ms st = Some (ret, st')"
proof -
  obtain r1 p1 s1 where a: "i8042_command e I8042_CMD_AUX_SEND [c] st = Some (r1, p1, s1)"
    using i8042_command_ends [OF assms(1,2), of I8042_CMD_AUX_SEND "[c]" st] by auto
  obtain r2 s2 where k: "i8042_wait_write e st = Some (r2, s2)" using wait_ends(2) [OF assms(1,2)] by blast
  have "\<exists>r s. (if aux then i8042_aux_write e c st else i8042_kbd_write e c st) = Some (r, s)"
    using a k by (simp add: i8042_aux_write_def i8042_kbd_write_def)
  then obtain r s where w: "(if aux then i8042_aux_write e c st else i8042_kbd_write e c st) = Some (r, s)"
    by blast
  obtain r' s' where "ps2_recvbyte e aux True ms s = Some (r', s')" using recvbyte_ends [OF assms] by blast
  then show ?thesis using w by (simp add: ps2_sendbyte_def del: if_split)
qed

lemma ps2_send_ends:
  assumes "tsc_runs e f g" "idle_short f g (yield e)"
  shows "n = 0 \<or> i + n \<le> length param \<Longrightarrow> \<exists>ret st'. ps2_send n i e aux param st = Some (ret, st')"
proof (induction n arbitrary: i st)
  case (Suc n)
  obtain r s where "ps2_sendbyte e aux (param ! i) 200 st = Some (r, s)"
    using sendbyte_ends [OF assms, of 200 aux "param ! i" st] by auto
  then show ?case using Suc.IH [of "Suc i"] Suc.prems by (simp add: param_load_def)
qed simp

lemma ps2_receive_ends:
  assumes "tsc_runs e f g" "idle_short f g (yield e)"
  shows "n = 0 \<or> i + n \<le> length param \<Longrightarrow>
    \<exists>ret p st'. ps2_receive n i e aux param st = Some (ret, p, st')"
proof (induction n arbitrary: i param st)
  case (Suc n)
  obtain r s where "ps2_recvbyte e aux False 500 st = Some (r, s)"
    using recvbyte_ends [OF assms, of 500 aux False st] by auto
  then show ?case using Suc.IH [of "Suc i"] Suc.prems by (simp add: param_store_def)
qed simp

text \<open>The buffer a command needs: the bytes it sends and receives, two for a reset or an identity.\<close>

definition param_size :: "u32 \<Rightarrow> nat" where
  "param_size command =
     (if command = ATKBD_CMD_RESET_BAT \<or> command = ATKBD_CMD_GETID32 then 2
      else max (cmd_send command) (cmd_receive command))"

lemma ps2_exchange_ends:
  assumes "tsc_runs e f g" "idle_short f g (yield e)" "param_size command \<le> length param"
  shows "\<exists>ret p st'. ps2_exchange e aux command param st = Some (ret, p, st')"
proof -
  have recv: "\<exists>ret st'. ps2_recvbyte e aux na ms s = Some (ret, st')" if "ms \<in> {100, 500, 4000}" for na ms s
    using that by (intro recvbyte_ends [OF assms(1,2)]) auto
  have send: "\<exists>ret st'. ps2_sendbyte e aux c ms s = Some (ret, st')" if "ms \<in> {200, 1000}" for c ms s
    using that by (intro sendbyte_ends [OF assms(1,2)]) auto
  show ?thesis
  proof (cases "command = ATKBD_CMD_RESET_BAT \<or> command = ATKBD_CMD_GETID32")
    case True
    then have "2 \<le> length param" using assms(3) by (auto simp: param_size_def)
    then have len: "0 < length param" "1 < length param" by linarith+
    obtain r1 s1 where b1: "ps2_sendbyte e aux (ucast command) 1000 st = Some (r1, s1)" using send by blast
    obtain r2 s2 where b2: "ps2_recvbyte e aux False 4000 s1 = Some (r2, s2)" using recv by blast
    obtain r3 s3 where b3: "ps2_recvbyte e aux False 100 s2 = Some (r3, s3)" using recv by blast
    obtain r4 s4 where b4: "ps2_sendbyte e aux (ucast command) 200 st = Some (r4, s4)" using send by blast
    obtain r5 s5 where b5: "ps2_recvbyte e aux False 500 s4 = Some (r5, s5)" using recv by blast
    obtain r6 s6 where b6: "ps2_recvbyte e aux False 500 s5 = Some (r6, s6)" using recv by blast
    have "\<exists>ret p st'. ps2_reset e aux command param st = Some (ret, p, st')"
      using b1 b2 b3 len by (simp add: ps2_reset_def param_store_def)
    moreover have "\<exists>ret p st'. ps2_getid e aux command param st = Some (ret, p, st')"
      using b4 b5 b6 len by (simp add: ps2_getid_def param_store_def)
    ultimately show ?thesis using True by (auto simp: ps2_exchange_def)
  next
    case False
    then have len: "cmd_send command \<le> length param" "cmd_receive command \<le> length param"
      using assms(3) by (simp_all add: param_size_def)
    obtain r1 s1 where b1: "ps2_sendbyte e aux (ucast command) 200 st = Some (r1, s1)" using send by blast
    obtain r2 s2 where b2: "ps2_send (cmd_send command) 0 e aux param s1 = Some (r2, s2)"
      using ps2_send_ends [OF assms(1,2), of "cmd_send command" 0 param aux s1] len by auto
    obtain r3 p3 s3 where b3: "ps2_receive (cmd_receive command) 0 e aux param s2 = Some (r3, p3, s3)"
      using ps2_receive_ends [OF assms(1,2), of "cmd_receive command" 0 param aux s2] len by auto
    show ?thesis using False b1 b2 b3 by (simp add: ps2_exchange_def ps2_plain_def)
  qed
qed

lemma wctr_ends:
  assumes "tsc_runs e f g" "idle_short f g (yield e)"
  shows "\<exists>ret p st'. i8042_command e I8042_CMD_CTL_WCTR [v] st = Some (ret, p, st')"
proof -
  show ?thesis using i8042_command_ends [OF assms, of I8042_CMD_CTL_WCTR "[v]" st] by simp
qed

lemma ps2_command_ends:
  assumes "tsc_runs e f g" "idle_short f g (yield e)" "param_size command \<le> length param"
  shows "\<exists>ret p st'. ps2_command e aux command param st = Some (ret, p, st')"
proof -
  let ?ctr = "ebda8 (get_ebda_seg st) ebda_ps2ctr st"
  let ?new = "(?ctr OR I8042_CTR_AUXDIS OR I8042_CTR_KBDDIS) AND NOT (I8042_CTR_KBDINT OR I8042_CTR_AUXINT)"
  obtain r1 p1 s1 where c1: "i8042_command e I8042_CMD_CTL_WCTR [?new] st = Some (r1, p1, s1)"
    using wctr_ends [OF assms(1,2)] by blast
  let ?on = "?new AND NOT (if aux then I8042_CTR_AUXDIS else I8042_CTR_KBDDIS)"
  obtain r2 p2 s2 where c2: "i8042_command e I8042_CMD_CTL_WCTR [?on] (yield e s1) = Some (r2, p2, s2)"
    using wctr_ends [OF assms(1,2)] by blast
  obtain r3 p3 s3 where c3: "(if r2 \<noteq> 0 then Some (r2, param, s2) else ps2_exchange e aux command param s2) = Some (r3, p3, s3)"
    using ps2_exchange_ends [OF assms, of aux s2] by (cases "r2 = 0") auto
  obtain r4 p4 s4 where c4: "i8042_command e I8042_CMD_CTL_WCTR [?ctr] s3 = Some (r4, p4, s4)"
    using wctr_ends [OF assms(1,2)] by blast
  show ?thesis
    using c1 c2 c3 c4 by (simp add: ps2_command_def Let_def del: if_split)
qed

text \<open>C25: A PS/2 command delivers bytes to the device it is addressed to, a prefix of the command byte
  and its parameters, and none to the other device, whatever the devices answer and whether it fails
  or not. When it returns 0 the whole command has been delivered, and the last control byte the
  controller got is the configured one of the EBDA, with no controller command left half sent.\<close>

theorem ps2_command_delivers:
  assumes "ps2_command e aux command param st = Some (ret, p, st')" "wire_quiet e"
  shows "(\<exists>k. bytes aux (wire st') = bytes aux (wire st) @ take k (ucast command # take (cmd_send command) param)) \<and>
    bytes (\<not> aux) (wire st') = bytes (\<not> aux) (wire st) \<and>
    (ret = 0 \<longrightarrow> bytes aux (wire st') = bytes aux (wire st) @ ucast command # take (cmd_send command) param \<and>
       ctl (wire st') = Some (ebda8 (get_ebda_seg st) ebda_ps2ctr st) \<and> pend (wire st') = None)"
  by (rule ps2_command_wire [OF assms])

text \<open>A keyboard that acknowledges every byte.\<close>

definition demo_ps2 :: clock_state where
  "demo_ps2 = demo_clock\<lparr>dev := (\<lambda>_ _ p. if p = 0x64 then 1 else 0xfa)\<rparr>"

lemma wait_write_now:
  "fst (inb PORT_PS2_STATUS st) AND I8042_STR_IBF = 0 \<Longrightarrow>
   i8042_wait_write e st = Some (0, snd (inb PORT_PS2_STATUS st))"
  using wait_write_rounds.simps(2) [of 9999 e st]
  by (simp add: i8042_wait_write_def I8042_CTL_TIMEOUT_def case_prod_beta)

lemma demo_ps2_acks:
  "\<exists>st'. ps2_command demo_env False ATKBD_CMD_SSCANSET [0x02] demo_ps2 = Some (0, [0x02], st')"
proof -
  have "ATKBD_CMD_SSCANSET \<noteq> ATKBD_CMD_RESET_BAT" "ATKBD_CMD_SSCANSET \<noteq> ATKBD_CMD_GETID32"
    by (simp_all add: atkbd_cmds)
  then show ?thesis
    by (simp add: ps2_command_def i8042_command_def wait_write_now inb_def outb_def Let_def
        demo_ps2_def demo_clock_def demo_env_def ps2_ports i8042_str param_load_def ps2_exchange_def
        ps2_plain_def ps2_sendbyte_def i8042_kbd_write_def ps2_recvbyte_def recvbyte_loop.simps
        recvbyte_poll_def calc_future_tsc_def rdtscll_def PS2_RET_ACK_def)
qed

lemma demo_wire_quiet: "wire_quiet demo_env"
  by (simp add: wire_quiet_def demo_env_def)

theorem ps2_command_delivers_witness:
  "\<exists>st'. ps2_command demo_env False ATKBD_CMD_SSCANSET [0x02] demo_ps2 = Some (0, [0x02], st') \<and>
     to_kbd (wire st') = [0xf0, 0x02] \<and> ctl (wire st') = Some 0"
proof -
  obtain st' where c: "ps2_command demo_env False ATKBD_CMD_SSCANSET [0x02] demo_ps2 = Some (0, [0x02], st')"
    using demo_ps2_acks by blast
  have start: "bytes False (wire demo_ps2) = []" "ebda8 (get_ebda_seg demo_ps2) ebda_ps2ctr demo_ps2 = 0"
    by (simp_all add: bytes_def wire_def demo_ps2_def demo_clock_def ebda8_def rd8_def)
  show ?thesis
    using ps2_command_delivers [OF c demo_wire_quiet] c start by (simp add: bytes_def)
qed

text \<open>Every PS/2 command returns, whatever the controller and the devices answer or fail to answer,
  when the time stamp counter runs and the buffer has the size the command needs.\<close>

theorem ps2_command_returns:
  assumes "tsc_runs e f g" "idle_short f g (yield e)" "param_size command \<le> length param"
  shows "\<exists>ret p st'. ps2_command e aux command param st = Some (ret, p, st')"
  by (rule ps2_command_ends [OF assms])

theorem ps2_command_returns_witness:
  "\<exists>ret p st'. ps2_command demo_env True PSMOUSE_CMD_GETINFO [0, 0, 0] demo_clock = Some (ret, p, st')"
  by (rule ps2_command_returns [OF demo_tsc])
    (simp add: param_size_def cmd_send_def cmd_receive_def psmouse_cmds atkbd_cmds)

end
