(* ===== verification/InputSpec.thy ===== *)
theory InputSpec
  imports Ps2irq Ps2Spec "HOL-Library.Multiset"
begin

text \<open>
  Properties of the keyboard and mouse input: the handler of the mouse gets the bytes of the stream
  in packets of three; a USB mouse report becomes the PS/2 packet of the same movement; a USB keyboard
  report becomes the releases and presses that lead from the keys held before to those of the report.
\<close>

section \<open>Mouse packets\<close>

lemma ebda_addr:
  assumes "0x41 \<le> sg" "off \<le> 0xffff" "b < 0x410"
  shows "MAKE_FLATPTR sg off \<noteq> b"
proof -
  have "0x41 \<le> unat sg" "unat off \<le> 0xffff" using assms by (simp_all add: word_le_nat_alt)
  moreover have "unat (push_bit 4 (ucast sg :: u32)) = unat sg * 16"
  proof -
    have u: "unat (ucast sg :: u32) = unat sg" by (rule unat_ucast_fit) (use u16_bound [of sg] in simp)
    have "unat (ucast sg :: u32) * unat (16 :: u32) < 2 ^ LENGTH(32)"
      unfolding u using u16_bound [of sg] by simp
    from unat_mult_lem [THEN iffD1, OF this] u show ?thesis by (simp add: push_bit_eq_mult)
  qed
  ultimately have "unat (MAKE_FLATPTR sg off) = unat sg * 16 + unat off"
    using u16_bound [of sg] by (simp add: MAKE_FLATPTR_def unat_word_ariths)
  then show ?thesis using assms \<open>0x41 \<le> unat sg\<close> by (auto simp: word_less_nat_alt)
qed

lemma ebda8_set [simp]:
  "ebda8 sg a (set_ebda8 sg b v st) = (if a = b then v else ebda8 sg a st)"
  by (simp add: ebda_acc MAKE_FLATPTR_def)

lemma ebda_seg_set:
  assumes "0x41 \<le> sg" "off \<le> 0xffff"
  shows "get_ebda_seg (set_ebda8 sg off v st) = get_ebda_seg st"
  using ebda_addr [OF assms, of "0x40e"] ebda_addr [OF assms, of "0x40f"]
  by (simp add: get_ebda_seg_def ebda_acc bda_offsets rd16_wr8_other)

lemma farptr_set:
  assumes "off \<in> {0x26 ..< 0x30}"
  shows "ebda32 sg ebda_far_call_pointer (set_ebda8 sg off v st) = ebda32 sg ebda_far_call_pointer st"
proof -
  have "off \<noteq> 0x22" "off \<noteq> 0x23" "off \<noteq> 0x24" "off \<noteq> 0x25" using assms by auto
  then show ?thesis
    by (simp add: ebda_acc ebda_far_call_pointer_def MAKE_FLATPTR_def rd32_wr8_other add.assoc)
qed

text \<open>A handler is installed for packets of three bytes, and the next byte starts a packet.\<close>

definition mouse_ready :: "u16 \<Rightarrow> u32 \<Rightarrow> clock_state \<Rightarrow> bool" where
  "mouse_ready sg func st \<longleftrightarrow> get_ebda_seg st = sg \<and> ebda8 sg ebda_mouse_flag1 st = 0 \<and>
     ebda8 sg ebda_mouse_flag2 st AND 0x87 = 0x83 \<and> ebda32 sg ebda_far_call_pointer st = func"

text \<open>The state with a packet in the buffer, as the handler sees it.\<close>

definition buffered :: "u16 \<Rightarrow> u8 \<times> u8 \<times> u8 \<Rightarrow> clock_state \<Rightarrow> clock_state" where
  "buffered sg = (\<lambda>(a, b, c) st.
     set_ebda8 sg ebda_mouse_flag1 0 (set_ebda8 sg (ebda_mouse_data + 2) c
       (set_ebda8 sg (ebda_mouse_data + 1) b (set_ebda8 sg ebda_mouse_data a st))))"

definition deliver :: "input_env \<Rightarrow> u16 \<Rightarrow> u32 \<Rightarrow> u8 \<times> u8 \<times> u8 \<Rightarrow> clock_state \<Rightarrow> clock_state" where
  "deliver E sg func p st =
     (case p of (a, b, c) \<Rightarrow> mouse_farcall E func (ucast a) (ucast b) (ucast c) (buffered sg p st))"

lemma set_ebda8_last:
  "set_ebda8 sg a v (set_ebda8 sg a w st) = set_ebda8 sg a v st"
  "a \<noteq> b \<Longrightarrow> set_ebda8 sg a v (set_ebda8 sg b w st) = set_ebda8 sg b w (set_ebda8 sg a v st)"
  by (simp_all add: set_ebda8_def wr8_def MAKE_FLATPTR_def fun_upd_twist)

lemma mouse_flags:
  assumes "(f :: u8) AND 0x87 = 0x83"
  shows "f AND 0x80 \<noteq> 0" "unat (f AND 0x07) = 3"
proof -
  have "f AND 0x80 = (f AND 0x87) AND 0x80" "f AND 0x07 = (f AND 0x87) AND 0x07"
    by (simp_all add: and.assoc)
  then show "f AND 0x80 \<noteq> 0" "unat (f AND 0x07) = 3" using assms by simp_all
qed

lemma one_packet:
  assumes "mouse_ready sg func st" "0x41 \<le> sg"
  shows "process_mouse E c (process_mouse E b (process_mouse E a st)) = deliver E sg func (a, b, c) st"
proof -
  have seg: "get_ebda_seg (set_ebda8 sg off v s) = get_ebda_seg s" if "off \<le> 0xffff" for off v s
    by (rule ebda_seg_set [OF assms(2) that])
  have fp: "ebda32 sg ebda_far_call_pointer (set_ebda8 sg off v s) = ebda32 sg ebda_far_call_pointer s"
    if "off \<in> {0x26 ..< 0x30}" for off v s by (rule farptr_set [OF that])
  note r = assms(1)[unfolded mouse_ready_def]
  have f: "ebda8 sg ebda_mouse_flag2 st AND 0x80 \<noteq> 0" "unat (ebda8 sg ebda_mouse_flag2 st AND 0x07) = 3"
    using mouse_flags r by blast+
  let ?s1 = "set_ebda8 sg ebda_mouse_flag1 1 (set_ebda8 sg ebda_mouse_data a st)"
  have 1: "process_mouse E a st = ?s1"
    using r f by (simp add: process_mouse_def ebda_mouse)
  let ?s2 = "set_ebda8 sg ebda_mouse_flag1 2 (set_ebda8 sg (ebda_mouse_data + 1) b ?s1)"
  have 2: "process_mouse E b ?s1 = ?s2"
    using r f by (simp add: process_mouse_def ebda_mouse seg)
  have 3: "process_mouse E c ?s2 = deliver E sg func (a, b, c) st"
    using r f by (simp add: process_mouse_def ebda_mouse seg fp [unfolded ebda_far_call_pointer_def] Let_def deliver_def buffered_def
        set_ebda8_last)
  show ?thesis by (simp only: 1 2 3)
qed

lemma buffered_ready:
  assumes "mouse_ready sg func st" "0x41 \<le> sg"
  shows "mouse_ready sg func (buffered sg p st)"
proof -
  have seg: "get_ebda_seg (set_ebda8 sg off v s) = get_ebda_seg s" if "off \<le> 0xffff" for off v s
    by (rule ebda_seg_set [OF assms(2) that])
  have fp: "ebda32 sg ebda_far_call_pointer (set_ebda8 sg off v s) = ebda32 sg ebda_far_call_pointer s"
    if "off \<in> {0x26 ..< 0x30}" for off v s by (rule farptr_set [OF that])
  show ?thesis
    using assms(1)
    by (cases p) (simp add: mouse_ready_def buffered_def ebda_mouse seg fp [unfolded ebda_far_call_pointer_def])
qed

text \<open>C27: While a handler is installed for packets of three bytes, and leaves the mouse fields of the EBDA
  alone, a stream of mouse bytes is cut into consecutive triples and the handler is called once per
  triple, in order, with the three bytes as its arguments, the packet in the buffer and the index
  back at zero.\<close>

theorem mouse_stream:
  assumes "mouse_ready sg func st" "0x41 \<le> sg"
    and "\<And>s x y st. mouse_ready sg func st \<Longrightarrow> mouse_ready sg func (mouse_farcall E func s x y st)"
  shows "fold (process_mouse E) (concat (map (\<lambda>(a, b, c). [a, b, c]) ps)) st = fold (deliver E sg func) ps st"
  using assms(1)
proof (induction ps arbitrary: st)
  case (Cons p ps)
  obtain a b c where p: "p = (a, b, c)" by (cases p)
  have "mouse_ready sg func (deliver E sg func p st)"
    using assms(3) buffered_ready [OF Cons.prems assms(2)] by (simp add: deliver_def p)
  then show ?case using Cons.IH one_packet [OF Cons.prems assms(2)] by (simp add: p)
qed simp

text \<open>A handler that adds the movements into a word of memory.\<close>

definition demo_input :: input_env where
  "demo_input = \<lparr>clk = demo_env,
     mouse_farcall = (\<lambda>_ s x y st. set_ebda8 0x8000 0 (ebda8 0x8000 0 st + ucast x) st),
     int15_4f = (\<lambda>key st. (True, key, st)), usb_poll_intr = (\<lambda>_ st. (None, st)),
     pipes = \<lparr>keyboard_pipe = 1, mouse_pipe = 1\<rparr>, entry_09 = 0xe987, entry_74 = 0xf000\<rparr>"

definition demo_mouse :: clock_state where
  "demo_mouse = set_ebda8 0x9fc0 0x27 0x83 (set_ebda32 0x9fc0 0x22 0x12345678
     (demo_clock\<lparr>mem := wr16 0x40e 0x9fc0 (\<lambda>_. 0)\<rparr>))"

lemma demo_mouse_ready: "mouse_ready 0x9fc0 0x12345678 demo_mouse"
  by (simp add: mouse_ready_def demo_mouse_def ebda_acc get_ebda_seg_def bda_offsets MAKE_FLATPTR_def
      ebda_mouse rd8_def rd16_def rd32_def wr8_def wr16_def wr32_def)

lemma demo_handler_quiet:
  "mouse_ready 0x9fc0 f st \<Longrightarrow> mouse_ready 0x9fc0 f (mouse_farcall demo_input f s x y st)"
  by (simp add: mouse_ready_def demo_input_def ebda_acc get_ebda_seg_def bda_offsets MAKE_FLATPTR_def
      ebda_mouse frame)

theorem mouse_stream_witness:
  "ebda8 0x8000 0 (fold (process_mouse demo_input) [8, 5, 0, 8, 7, 0] demo_mouse) = 12"
proof -
  have "fold (process_mouse demo_input) [8, 5, 0, 8, 7, 0] demo_mouse =
      fold (deliver demo_input 0x9fc0 0x12345678) [(8, 5, 0), (8, 7, 0)] demo_mouse"
    using mouse_stream [OF demo_mouse_ready _ demo_handler_quiet, of "[(8, 5, 0), (8, 7, 0)]"] by simp
  then show ?thesis
    by (simp add: deliver_def buffered_def demo_input_def demo_mouse_def ebda_acc MAKE_FLATPTR_def ebda_mouse
        demo_clock_def frame) (simp add: rd8_def wr8_def wr16_def wr32_def)
qed

section \<open>USB mouse\<close>

text \<open>The movement and the buttons of a PS/2 packet: nine bit signed numbers, the signs in the first byte.\<close>

definition ps2_move :: "u8 \<times> u8 \<times> u8 \<Rightarrow> int \<times> int \<times> u8" where
  "ps2_move = (\<lambda>(s, x, y). (uint x - (if bit s 4 then 256 else 0), uint y - (if bit s 5 then 256 else 0), s AND 7))"

lemma high_bit: "(x :: u8) AND 0x80 = 0 \<longleftrightarrow> \<not> bit x 7"
  using and_exp_eq_0_iff_not_bit [of x 7] by simp

lemma sint_u8: "sint (x :: u8) = uint x - (if x AND 0x80 \<noteq> 0 then 256 else 0)"
proof -
  have "take_bit 8 (uint x) = uint x"
    by (rule take_bit_int_eq_self) (use unsigned_less [of x, where 'a = int] in simp_all)
  then show ?thesis
    using signed_take_bit_eq_take_bit_minus [of 7 "uint x"] by (simp add: sint_uint high_bit bit_uint_iff)
qed

lemma sint_neg_u8: "sint (- y :: u8) = (if y = 0x80 then - 128 else - sint y)"
proof (cases "y = 0x80")
  case True
  then show ?thesis by simp
next
  case False
  have "sint y \<noteq> - 128"
  proof
    assume "sint y = - 128"
    then have "(word_of_int (sint y) :: u8) = word_of_int (- 128)" by (rule arg_cong)
    then show False using False by simp
  qed
  then have "- 128 < sint y" "sint y < 128" using sint_range_size [of y] by (simp_all add: word_size)
  then have "signed_take_bit 7 (- sint y) = - sint y" by (intro signed_take_bit_int_eq_self) simp_all
  then show ?thesis using False by (simp add: sint_word_ariths)
qed

text \<open>With a handler installed, a report of the USB mouse makes exactly one call of the handler, with a PS/2
  packet whose buttons are those of the report, whose horizontal movement is that of the report and
  whose vertical movement is its opposite, except that a report of -128 is not inverted.\<close>

theorem usb_mouse_packet:
  assumes "mouse_ready sg func st" "0x41 \<le> sg"
  shows "\<exists>p. handle_mouse E report st = deliver E sg func p st \<and>
    ps2_move p = (sint (report ! 1), if report ! 2 = 0x80 then - 128 else - sint (report ! 2), (report ! 0) AND 7)"
proof -
  let ?x = "report ! 1" and ?y = "- (report ! 2)"
  let ?s = "((report ! 0) AND 0x7) OR 0x08 OR (if ?x AND 0x80 \<noteq> 0 then 0x10 else 0)
    OR (if ?y AND 0x80 \<noteq> 0 then 0x20 else 0)"
  have "handle_mouse E report st = deliver E sg func (?s, ?x, ?y) st"
    unfolding handle_mouse_def Let_def by (rule one_packet [OF assms])
  moreover have "bit ?s 4 \<longleftrightarrow> ?x AND 0x80 \<noteq> 0" "bit ?s 5 \<longleftrightarrow> ?y AND 0x80 \<noteq> 0"
    by (simp_all add: bit_or_iff bit_and_iff)
  moreover have "?s AND 7 = (report ! 0) AND 7"
    by (simp add: bit.conj_disj_distrib2 and.assoc)
  ultimately show ?thesis
    using sint_u8 [of ?x] sint_u8 [of ?y] sint_neg_u8 [of "report ! 2"]
    by (intro exI [of _ "(?s, ?x, ?y)"]) (simp add: ps2_move_def)
qed

theorem usb_mouse_packet_witness:
  "\<exists>p. handle_mouse demo_input [1, 0xfe, 3, 0, 0, 0, 0, 0] demo_mouse = deliver demo_input 0x9fc0 0x12345678 p demo_mouse \<and>
    ps2_move p = (- 2, - 3, 1)"
  using usb_mouse_packet [OF demo_mouse_ready, of demo_input "[1, 0xfe, 3, 0, 0, 0, 0, 0]"] by simp

section \<open>USB keyboard\<close>

text \<open>The keys in an array up to the first zero, and the keys of a report.\<close>

definition held :: "u8 list \<Rightarrow> u8 list" where
  "held ks = takeWhile (\<lambda>k. k \<noteq> 0) ks"

definition pressed :: "u8 list \<Rightarrow> u8 list" where
  "pressed ks = filter (\<lambda>k. k \<noteq> 0) ks"

text \<open>What the loop over the old keys computes: the keys still held, those released, and what is
  left of the report.\<close>

fun match_keys :: "u8 list \<Rightarrow> u8 list \<Rightarrow> u8 list \<times> u8 list \<times> u8 list" where
  "match_keys [] D = ([], [], D)"
| "match_keys (k # K) D = (case find_key k D of
     None \<Rightarrow> (case match_keys K D of (kept, rel, D') \<Rightarrow> (kept, k # rel, D'))
   | Some j \<Rightarrow> (case match_keys K (D[j := 0]) of (kept, rel, D') \<Rightarrow> (k # kept, rel, D')))"

lemma find_key_None: "find_key k D = None \<longleftrightarrow> k \<notin> set D"
  by (induction D) auto

lemma find_key_Some:
  "find_key k D = Some j \<Longrightarrow> k \<noteq> 0 \<Longrightarrow>
   mset (pressed D) = add_mset k (mset (pressed (D[j := 0]))) \<and> set (D[j := 0]) \<subseteq> insert 0 (set D)"
proof (induction D arbitrary: j)
  case (Cons d D)
  show ?case
  proof (cases "d = k")
    case True
    then show ?thesis using Cons.prems by (auto simp: pressed_def)
  next
    case False
    then obtain i where "find_key k D = Some i" "j = Suc i" using Cons.prems(1) by auto
    then show ?thesis using Cons.IH [of i] Cons.prems(2) by (auto simp: pressed_def)
  qed
qed simp

lemma match_keys_spec:
  "match_keys K D = (kept, rel, D') \<Longrightarrow> 0 \<notin> set K \<Longrightarrow>
   mset K = mset kept + mset rel \<and> mset (pressed D) = mset kept + mset (pressed D') \<and>
   set D' \<subseteq> insert 0 (set D) \<and> set rel \<inter> set D' = {} \<and> set kept \<union> set rel = set K"
proof (induction K arbitrary: D kept rel D')
  case (Cons k K)
  show ?case
  proof (cases "find_key k D")
    case None
    then obtain rel0 where r: "match_keys K D = (kept, rel0, D')" "rel = k # rel0"
      using Cons.prems(1) by (auto split: prod.splits)
    then show ?thesis
      using Cons.IH [OF r(1)] Cons.prems(2) None by (auto simp: find_key_None)
  next
    case (Some j)
    then obtain kept0 where r: "match_keys K (D[j := 0]) = (kept0, rel, D')" "kept = k # kept0"
      using Cons.prems(1) by (auto split: prod.splits)
    then show ?thesis
      using Cons.IH [OF r(1)] Cons.prems(2) find_key_Some [OF Some] by auto
  qed
qed auto

lemma old_keys_spec:
  assumes "match_keys (held (drop i (keys old))) D = (kept, rel, D')"
    and "addpos \<le> i" "i + n = length (keys old)"
  shows "\<exists>old'. old_keys n i E addpos old D s =
      Some (addpos + length kept, old', D', fold (\<lambda>k. procscankey E k RELEASEBIT) rel s) \<and>
    take (addpos + length kept) (keys old') = take addpos (keys old) @ kept \<and>
    length (keys old') = length (keys old) \<and> modifiers old' = modifiers old"
  using assms
proof (induction n arbitrary: i old D kept rel addpos s)
  case 0
  then show ?case by (simp add: held_def)
next
  case (Suc n)
  let ?key = "keys old ! i"
  have i: "i < length (keys old)" using Suc.prems by simp
  have d: "drop i (keys old) = ?key # drop (Suc i) (keys old)" using i by (simp add: Cons_nth_drop_Suc)
  show ?case
  proof (cases "?key = 0")
    case True
    then show ?thesis using Suc.prems d by (simp add: held_def)
  next
    case key: False
    show ?thesis
    proof (cases "find_key ?key D")
      case None
      then obtain rel0 where r: "match_keys (held (drop (Suc i) (keys old))) D = (kept, rel0, D')" "rel = ?key # rel0"
        using Suc.prems(1) key d by (auto simp: held_def split: prod.splits)
      let ?old = "if i + 1 \<ge> length (keys old) \<or> keys old ! (i + 1) = 0 then old\<lparr>repeatcount := 0xff\<rparr> else old"
      have k: "keys ?old = keys old" "modifiers ?old = modifiers old" by simp_all
      show ?thesis
        using Suc.IH [of "Suc i" ?old D kept rel0 addpos "procscankey E ?key RELEASEBIT s"] r Suc.prems(2,3) None key
        unfolding k by (simp add: Let_def)
    next
      case (Some j)
      then obtain kept0 where r: "match_keys (held (drop (Suc i) (keys old))) (D[j := 0]) = (kept0, rel, D')"
          "kept = ?key # kept0"
        using Suc.prems(1) key d by (auto simp: held_def split: prod.splits)
      let ?old = "old\<lparr>keys := (keys old)[addpos := ?key]\<rparr>"
      have drop: "drop (Suc i) (keys ?old) = drop (Suc i) (keys old)"
        using Suc.prems(2) by simp
      have "take (Suc addpos) (keys ?old) = take addpos (keys old) @ [?key]"
        using Suc.prems(2) i by (simp add: take_Suc_conv_app_nth)
      then show ?thesis
        using Suc.IH [of "Suc i" ?old "D[j := 0]" kept0 rel "Suc addpos" s] r Suc.prems(2,3) Some key i
        unfolding drop by (simp add: Let_def param_store_def)
    qed
  qed
qed

lemma new_keys_spec:
  "addpos + length (pressed D) \<le> length (keys old) \<Longrightarrow>
   \<exists>old'. new_keys D E addpos old s =
      Some (addpos + length (pressed D), old', fold (\<lambda>k. procscankey E k 0) (pressed D) s) \<and>
    take (addpos + length (pressed D)) (keys old') = take addpos (keys old) @ pressed D \<and>
    length (keys old') = length (keys old) \<and> modifiers old' = modifiers old \<and>
    repeatcount old' = (if pressed D = [] then repeatcount old else 16)"
proof (induction D arbitrary: addpos old s)
  case (Cons d D)
  show ?case
  proof (cases "d = 0")
    case True
    then show ?thesis using Cons by (simp add: pressed_def)
  next
    case False
    let ?old = "old\<lparr>keys := (keys old)[addpos := d], repeatcount := 16\<rparr>"
    have a: "addpos < length (keys old)" using Cons.prems False by (simp add: pressed_def)
    then have step: "new_keys (d # D) E addpos old s = new_keys D E (Suc addpos) ?old (procscankey E d 0 s)"
      using False by (simp add: param_store_def KEYREPEATWAITMS_def KEYREPEATMS_def)
    have "take (Suc addpos) (keys ?old) = take addpos (keys old) @ [d]"
      using a by (simp add: take_Suc_conv_app_nth)
    moreover have "pressed (d # D) = d # pressed D" using False by (simp add: pressed_def)
    ultimately show ?thesis
      using Cons.IH [of "Suc addpos" ?old "procscankey E d 0 s"] Cons.prems
      unfolding step by (auto split: if_splits)
  qed
qed (simp add: pressed_def)

lemma end_keys_spec:
  assumes "take a (keys old) = ks" "a \<le> length (keys old)" "0 \<notin> set ks"
  shows "\<exists>old'. end_keys a old = Some old' \<and> held (keys old') = ks \<and> length (keys old') = length (keys old) \<and>
    modifiers old' = modifiers old \<and> repeatcount old' = repeatcount old"
proof (cases "a < length (keys old)")
  case True
  let ?ks = "(keys old)[a := 0]"
  have "?ks = ks @ 0 # drop (Suc a) (keys old)"
    using assms(1) True by (simp add: upd_conv_take_nth_drop)
  moreover have "takeWhile (\<lambda>k. k \<noteq> 0) (ks @ 0 # zs) = ks" for zs
    using assms(3) by (subst takeWhile_append2) auto
  ultimately have "held ?ks = ks" by (simp add: held_def)
  then show ?thesis using True by (simp add: end_keys_def param_store_def)
next
  case False
  then have "keys old = ks" using assms(1,2) by simp
  moreover from this have "held (keys old) = ks" using assms(3) by (auto simp: held_def takeWhile_eq_all_conv)
  ultimately show ?thesis using False by (simp add: end_keys_def)
qed

lemma repeat_key_spec:
  assumes "take a (keys old) = held (keys old)" "a = length (held (keys old))" "length (keys old) = 6"
  shows "\<exists>old' s'. repeat_key E a old s = Some (old', s') \<and> keys old' = keys old \<and> modifiers old' = modifiers old \<and>
    (s' = s \<or> repeatcount old = 0 \<and> held (keys old) \<noteq> [] \<and> s' = procscankey E (last (held (keys old))) 0 s)"
proof (cases "a = 0 \<or> repeatcount old \<noteq> 0")
  case True
  then show ?thesis by (cases s) (auto simp: repeat_key_def)
next
  case False
  moreover have "length (held (keys old)) \<le> length (keys old)" by (simp add: held_def length_takeWhile_le)
  ultimately have a: "0 < a" "a \<le> length (keys old)" using assms(2) by simp_all
  then have "last (held (keys old)) = keys old ! (a - 1)"
    using assms(1) by (metis last_conv_nth length_take min.absorb2 nth_take diff_less zero_less_one length_greater_0_conv)
  moreover have "held (keys old) \<noteq> []" using a(1) assms(2) by auto
  moreover have "a - 1 < length (keys old)" using a by linarith
  moreover obtain r where "procscankey E (last (held (keys old))) 0 s = r" by simp
  ultimately show ?thesis using False a by (cases r) (simp add: repeat_key_def param_load_def)
qed

lemma held_nonzero: "0 \<notin> set (held ks)"
  by (auto simp: held_def dest: set_takeWhileD)

lemma mset_disjoint_diff:
  assumes "K = A + R" "D = A + N" "set_mset R \<inter> set_mset N = {}"
  shows "R = K - D" "N = D - K"
proof -
  have z: "count R x = 0 \<or> count N x = 0" for x
    using assms(3) by (metis disjoint_iff not_in_iff)
  have "count R x = count (K - D) x" for x using z [of x] assms(1,2) by auto
  then show "R = K - D" by (rule multiset_eqI)
  have "count N x = count (D - K) x" for x using z [of x] assms(1,2) by auto
  then show "N = D - K" by (rule multiset_eqI)
qed

text \<open>One report, in terms of \<open>match_keys\<close>.\<close>

definition report_events :: "input_env \<Rightarrow> usbkeyinfo \<Rightarrow> u8 \<Rightarrow> u8 list \<Rightarrow> u8 list \<Rightarrow> key_state \<Rightarrow> key_state" where
  "report_events E old mods rel new s =
     fold (\<lambda>k. procscankey E k 0) new
       (procmodkey E (mods AND NOT (modifiers old)) 0
         (procmodkey E (modifiers old AND NOT mods) RELEASEBIT
           (fold (\<lambda>k. procscankey E k RELEASEBIT) rel s)))"

lemma key_report_run:
  assumes m: "match_keys (held (keys old)) (drop 2 report) = (kept, rel, D')"
    and "length (keys old) = 6" "length kept + length (pressed D') \<le> 6" "0 \<notin> set (kept @ pressed D')"
    and s3: "s3 = report_events E old (report ! 0) rel (pressed D') s"
  shows "\<exists>old' s'. key_report E old report s = Some (old', s') \<and> modifiers old' = report ! 0 \<and>
    length (keys old') = 6 \<and> held (keys old') = kept @ pressed D' \<and>
    (s' = s3 \<or> pressed D' = [] \<and> held (keys old') \<noteq> [] \<and> s' = procscankey E (last (held (keys old'))) 0 s3)"
proof -
  let ?n = "length kept + length (pressed D')"
  let ?s1 = "fold (\<lambda>k. procscankey E k RELEASEBIT) rel s"
  obtain o1 where o1: "old_keys 6 0 E 0 old (drop 2 report) s = Some (length kept, o1, D', ?s1)"
      "take (length kept) (keys o1) = kept" "length (keys o1) = 6" "modifiers o1 = modifiers old"
    using old_keys_spec [of 0 old "drop 2 report" kept rel D' 0 6 E s] m assms(2) by auto
  let ?s2 = "procmodkey E (report ! 0 AND NOT (modifiers old)) 0
     (procmodkey E (modifiers old AND NOT (report ! 0)) RELEASEBIT ?s1)"
  have s3': "s3 = fold (\<lambda>k. procscankey E k 0) (pressed D') ?s2" by (simp only: s3 report_events_def)
  obtain o2 where o2: "new_keys D' E (length kept) (o1\<lparr>modifiers := report ! 0\<rparr>) ?s2 = Some (?n, o2, s3)"
      "take ?n (keys o2) = kept @ pressed D'" "length (keys o2) = 6" "modifiers o2 = report ! 0"
      "pressed D' \<noteq> [] \<longrightarrow> repeatcount o2 = 16"
    using new_keys_spec [of "length kept" D' "o1\<lparr>modifiers := report ! 0\<rparr>" E ?s2] assms(3) o1(2,3)
    unfolding s3' by auto
  obtain o3 where o3: "end_keys ?n o2 = Some o3" "held (keys o3) = kept @ pressed D'" "length (keys o3) = 6"
      "modifiers o3 = report ! 0" "repeatcount o3 = repeatcount o2"
    using end_keys_spec [OF o2(2) _ assms(4)] assms(3) o2(3,4) by auto
  have n: "?n = length (held (keys o3))" using o3(2) by simp
  have last: "take ?n (keys o3) = held (keys o3)"
    unfolding n unfolding held_def by (rule takeWhile_eq_take [symmetric])
  obtain o4 s4 where o4: "repeat_key E ?n o3 s3 = Some (o4, s4)" "keys o4 = keys o3" "modifiers o4 = modifiers o3"
      "s4 = s3 \<or> repeatcount o3 = 0 \<and> held (keys o3) \<noteq> [] \<and> s4 = procscankey E (last (held (keys o3))) 0 s3"
    using repeat_key_spec [OF last n o3(3), of E s3] by blast
  have run: "key_report E old report s = Some (o4, s4)"
    using o1(1,4) o2(1) o3(1) o4(1) assms(2) by (simp add: key_report_def Let_def)
  have "s4 = s3 \<or> pressed D' = [] \<and> held (keys o4) \<noteq> [] \<and> s4 = procscankey E (last (held (keys o4))) 0 s3"
    using o4(2,4) o3(5) o2(5) by auto
  then show ?thesis using run o4(2,3) o3(2,3,4) by (intro exI [of _ o4] exI [of _ s4] conjI) simp_all
qed

text \<open>C21: A report of the USB keyboard leads from the keys held before to those of the report: the saved keys
  afterwards are those of the report, and the key sequences sent are, in this order, the release of
  exactly the keys no longer in the report, the releases and then the presses of the modifiers that
  changed, the press of exactly the keys that are new, and at most one repeat of the last key held,
  which only happens when there is no new key. No access leaves the array of held keys.\<close>

theorem usb_key_report:
  assumes "length (keys old) = 6" "length report = 8"
  shows "\<exists>old' rel new s'. key_report E old report s = Some (old', s') \<and>
    modifiers old' = report ! 0 \<and> length (keys old') = 6 \<and>
    mset (held (keys old')) = mset (pressed (drop 2 report)) \<and>
    mset rel = mset (held (keys old)) - mset (pressed (drop 2 report)) \<and>
    mset new = mset (pressed (drop 2 report)) - mset (held (keys old)) \<and>
    (let s3 = report_events E old (report ! 0) rel new s in
     s' = s3 \<or> new = [] \<and> held (keys old') \<noteq> [] \<and> s' = procscankey E (last (held (keys old'))) 0 s3)"
proof -
  let ?D = "drop 2 report"
  obtain kept rel D' where m: "match_keys (held (keys old)) ?D = (kept, rel, D')" by (cases "match_keys (held (keys old)) ?D")
  note spec = match_keys_spec [OF m held_nonzero]
  have sum: "mset (pressed ?D) = mset (kept @ pressed D')" using spec by simp
  have "length (kept @ pressed D') = length (pressed ?D)" using sum by (metis size_mset)
  also have "\<dots> \<le> length ?D" unfolding pressed_def by (rule length_filter_le)
  finally have len: "length kept + length (pressed D') \<le> 6" using assms(2) by simp
  have nz: "0 \<notin> set (kept @ pressed D')"
    using spec held_nonzero [of "keys old"] by (auto simp: pressed_def)
  have "set_mset (mset rel) \<inter> set_mset (mset (pressed D')) = {}"
    using spec by (auto simp: pressed_def)
  from mset_disjoint_diff [OF _ _ this, of "mset (held (keys old))" "mset kept" "mset (pressed ?D)"] spec
  have diff: "mset rel = mset (held (keys old)) - mset (pressed ?D)"
    "mset (pressed D') = mset (pressed ?D) - mset (held (keys old))" by simp_all
  show ?thesis
    unfolding Let_def using key_report_run [OF m assms(1) len nz refl, of E s] sum diff by metis
qed

text \<open>From A, B held to B, C: A is released, C pressed.\<close>

theorem usb_key_report_witness:
  "\<exists>old' s'. key_report demo_input \<lparr>modifiers = 2, repeatcount = 5, keys = [4, 5, 0, 0, 0, 0]\<rparr>
      [0, 0, 5, 6, 0, 0, 0, 0] (False, demo_mouse) = Some (old', s') \<and>
    mset (held (keys old')) = {# 5, 6 #}"
  using usb_key_report [of "\<lparr>modifiers = 2, repeatcount = 5, keys = [4, 5, 0, 0, 0, 0]\<rparr>" "[0, 0, 5, 6, 0, 0, 0, 0]"
      demo_input "(False, demo_mouse)"]
  by (auto simp: pressed_def)

section \<open>The search for an endpoint\<close>

lemma endpoint_loop_stuck:
  assumes "p < limit" "bDescriptorType m p \<noteq> USB_DT_INTERFACE" "\<not> endpoint_matches ty dir m p" "bLength m p = 0"
  shows "endpoint_loop limit ty dir m p = None"
proof (rule ccontr)
  assume "endpoint_loop limit ty dir m p \<noteq> None"
  then obtain r where "endpoint_loop limit ty dir m p = Some r" by blast
  then show False
    using assms
  proof (induction rule: endpoint_loop.raw_induct [rotated, consumes 1, case_names step])
    case (step loop limit ty dir m p r)
    then show ?case by (auto split: if_splits)
  qed
qed

lemma endpoint_loop_ends:
  assumes "unat limit + 255 < 2 ^ 32"
    and "\<And>q. p0 \<le> q \<Longrightarrow> q < limit \<Longrightarrow> bLength m q \<noteq> 0"
  shows "p0 \<le> p \<Longrightarrow> \<exists>r. endpoint_loop limit ty dir m p = Some r \<and>
    (r = 0 \<or> endpoint_matches ty dir m r \<and> p0 \<le> r \<and> r < limit)"
proof (induction "unat limit - unat p" arbitrary: p rule: less_induct)
  case less
  show ?case
  proof (cases "p \<ge> limit \<or> bDescriptorType m p = USB_DT_INTERFACE \<or> endpoint_matches ty dir m p")
    case True
    then show ?thesis using less.prems by (subst (1) endpoint_loop.simps) auto
  next
    case False
    let ?p = "p + ucast (bLength m p)"
    have lt: "unat p < unat limit" using False by (simp add: word_le_nat_alt)
    have len: "unat (ucast (bLength m p) :: u32) = unat (bLength m p)"
      by (rule unat_ucast_fit) (use u8_bound [of "bLength m p"] in simp)
    have "bLength m p \<noteq> 0" using assms(2) [OF less.prems] False by (simp add: not_le)
    then have pos: "0 < unat (bLength m p)" by (simp add: unat_gt_0)
    have sum: "unat ?p = unat p + unat (bLength m p)"
      using assms(1) lt u8_bound [of "bLength m p"] unfolding len [symmetric]
      by (intro unat_add_lem [THEN iffD1]) simp
    have "p0 \<le> ?p" using less.prems sum by (simp add: word_le_nat_alt)
    from less.hyps [OF _ this] show ?thesis
      using False lt pos sum by (subst endpoint_loop.simps) simp
  qed
qed

text \<open>When every descriptor between the interface and the end of the configuration has a length, the
  search for an endpoint ends, with 0 or with a matching endpoint descriptor inside the
  configuration. A descriptor of length 0 right after the interface, as a faulty device can send it,
  makes it run forever.\<close>

theorem endpoint_search:
  assumes "unat iface + unat imax + 255 < 2 ^ 32" "9 \<le> imax"
  shows "((\<forall>p. iface + 9 \<le> p \<longrightarrow> p < iface + imax \<longrightarrow> bLength m p \<noteq> 0) \<longrightarrow>
      (\<exists>r. findEndPointDesc iface imax ty dir m = Some r \<and>
        (r = 0 \<or> endpoint_matches ty dir m r \<and> iface + 9 \<le> r \<and> r < iface + imax))) \<and>
    (9 < imax \<and> bLength m (iface + 9) = 0 \<and> bDescriptorType m (iface + 9) \<notin> {USB_DT_INTERFACE, USB_DT_ENDPOINT} \<longrightarrow>
      findEndPointDesc iface imax ty dir m = None)"
proof (intro conjI impI)
  have lim: "unat (iface + imax) = unat iface + unat imax"
    using assms(1) by (intro unat_add_lem [THEN iffD1]) simp
  assume "\<forall>p. iface + 9 \<le> p \<longrightarrow> p < iface + imax \<longrightarrow> bLength m p \<noteq> 0"
  then show "\<exists>r. findEndPointDesc iface imax ty dir m = Some r \<and>
      (r = 0 \<or> endpoint_matches ty dir m r \<and> iface + 9 \<le> r \<and> r < iface + imax)"
    unfolding findEndPointDesc_def
    by (intro endpoint_loop_ends order_refl) (use assms(1) lim in simp_all)
next
  assume stuck: "9 < imax \<and> bLength m (iface + 9) = 0 \<and>
    bDescriptorType m (iface + 9) \<notin> {USB_DT_INTERFACE, USB_DT_ENDPOINT}"
  have "unat (iface + imax) = unat iface + unat imax" "unat (iface + 9) = unat iface + 9"
    using assms stuck unat_add_lem [of iface imax] unat_add_lem [of iface 9] by (simp_all add: word_less_nat_alt)
  then have "iface + 9 < iface + imax" using stuck by (simp add: word_less_nat_alt)
  then show "findEndPointDesc iface imax ty dir m = None"
    unfolding findEndPointDesc_def
    by (rule endpoint_loop_stuck) (use stuck in \<open>simp_all add: endpoint_matches_def\<close>)
qed

theorem endpoint_search_witness:
  "findEndPointDesc 0x5000 32 3 0x80 (\<lambda>_. 0) = None \<and>
   (\<exists>r. findEndPointDesc 0x5000 32 3 0x80 (\<lambda>_. 7) = Some r)"
  using endpoint_search [of "0x5000" 32 "\<lambda>_. 0" 3 "0x80"] endpoint_search [of "0x5000" 32 "\<lambda>_. 7" 3 "0x80"]
  by (auto simp: bLength_def bDescriptorType_def rd8_def USB_DT_INTERFACE_def USB_DT_ENDPOINT_def)

end
