(* ===== verification/Apm.thy ===== *)
theory Apm
  imports Clock
begin

text \<open>
  The APM services of \<open>src/apm.c\<close> (INT 15h, AH = 53h). \<open>COREBOOT\<close> is off and \<open>APMBIOS\<close> on. The offsets
  of the two assembler entry points are the record \<open>apm_env\<close>; waiting for an interrupt is the
  parameter \<open>wait_irq\<close> of \<open>clock_env\<close>. \<open>None\<close> stands for the shutdown, which does not return.
\<close>

record apm_env =
  entry_apm16 :: u16
  entry_apm32 :: u32

definition PORT_BIOS_APM :: u16 where "PORT_BIOS_APM = 0x8900"
definition RET_ENOEVENT :: u8 where "RET_ENOEVENT = 0x80"

definition out_str :: "string \<Rightarrow> clock_state \<Rightarrow> clock_state" where
  "out_str s st = fold (\<lambda>c st. outb (of_char c) PORT_BIOS_APM st) s st"

definition handle_155300 :: "bregs \<Rightarrow> bregs" where
  "handle_155300 r =
     (let r = set_al 2 (set_ah 1 r);
          r = set_bl (of_char CHR ''M'') (set_bh (of_char CHR ''P'') r) in
      set_success (set_cx 0x03 r))"

definition handle_155301 :: "bregs \<Rightarrow> bregs" where
  "handle_155301 r = set_success r"

definition set_si :: "u16 \<Rightarrow> bregs \<Rightarrow> bregs" where "set_si v r = r\<lparr>r_esi := put_x v (r_esi r)\<rparr>"

definition handle_155302 :: "apm_env \<Rightarrow> bregs \<Rightarrow> bregs" where
  "handle_155302 a r =
     (let r = set_bx (entry_apm16 a) r;
          r = set_ax SEG_BIOS r;
          r = set_si 0xfff0 r;
          r = set_cx SEG_BIOS r in
      set_success (set_di 0xfff0 r))"

definition handle_155303 :: "apm_env \<Rightarrow> bregs \<Rightarrow> bregs" where
  "handle_155303 a r =
     (let r = set_ax SEG_BIOS r;
          r = r\<lparr>r_ebx := entry_apm32 a\<rparr>;
          r = set_cx SEG_BIOS r;
          r = r\<lparr>r_esi := 0xfff0fff0\<rparr>;
          r = set_dx SEG_BIOS r in
      set_success (set_di 0xfff0 r))"

definition handle_155304 :: "bregs \<Rightarrow> bregs" where
  "handle_155304 r = set_success r"

definition handle_155305 :: "clock_env \<Rightarrow> bregs \<Rightarrow> clock_state \<Rightarrow> bregs \<times> clock_state" where
  "handle_155305 e r st = (set_success r, wait_irq e st)"

definition handle_155306 :: "bregs \<Rightarrow> bregs" where
  "handle_155306 r = set_success r"

definition handle_155307 :: "bregs \<Rightarrow> clock_state \<Rightarrow> (bregs \<times> clock_state) option" where
  "handle_155307 r st =
     (if BX r \<noteq> 1 then Some (set_success r, st)
      else if CX r = 1 then Some (set_success r, out_str ''Standby'' st)
      else if CX r = 2 then Some (set_success r, out_str ''Suspend'' st)
      else if CX r = 3 then None
      else Some (set_success r, st))"

definition handle_155308 :: "bregs \<Rightarrow> bregs" where
  "handle_155308 r = set_success r"

definition handle_15530a :: "bregs \<Rightarrow> bregs" where
  "handle_15530a r =
     (let r = set_bl 0xff (set_bh 0x01 r);
          r = set_cl 0xff (set_ch 0x80 r) in
      set_success (set_si 0x00 (set_dx 0xffff r)))"

definition handle_15530b :: "bregs \<Rightarrow> bregs" where
  "handle_15530b r = set_code_invalid_silent RET_ENOEVENT r"

definition handle_15530e :: "bregs \<Rightarrow> bregs" where
  "handle_15530e r = set_success (set_al 2 (set_ah 1 r))"

definition handle_15530f :: "bregs \<Rightarrow> bregs" where
  "handle_15530f r = set_success r"

definition handle_155310 :: "bregs \<Rightarrow> bregs" where
  "handle_155310 r = set_success (set_cx 0 (set_bl 0 r))"

definition handle_1553XX :: "bregs \<Rightarrow> bregs" where
  "handle_1553XX r = set_invalid_silent r"

definition handle_1553 ::
  "clock_env \<Rightarrow> apm_env \<Rightarrow> bregs \<Rightarrow> clock_state \<Rightarrow> (bregs \<times> clock_state) option" where
  "handle_1553 e a r st =
     (if AL r = 0x00 then Some (handle_155300 r, st)
      else if AL r = 0x01 then Some (handle_155301 r, st)
      else if AL r = 0x02 then Some (handle_155302 a r, st)
      else if AL r = 0x03 then Some (handle_155303 a r, st)
      else if AL r = 0x04 then Some (handle_155304 r, st)
      else if AL r = 0x05 then Some (handle_155305 e r st)
      else if AL r = 0x06 then Some (handle_155306 r, st)
      else if AL r = 0x07 then handle_155307 r st
      else if AL r = 0x08 then Some (handle_155308 r, st)
      else if AL r = 0x0a then Some (handle_15530a r, st)
      else if AL r = 0x0b then Some (handle_15530b r, st)
      else if AL r = 0x0e then Some (handle_15530e r, st)
      else if AL r = 0x0f then Some (handle_15530f r, st)
      else if AL r = 0x10 then Some (handle_155310 r, st)
      else Some (handle_1553XX r, st))"

end
