(* ===== verification/Vgahooks.thy ===== *)
theory Vgahooks
  imports Pci
begin

text \<open>
  The hooks for VGA option ROMs of \<open>src/vgahooks.c\<close> (INT 15h, AH = 5Fh) and their set up. The globals of
  the file are the record \<open>vga_hooks\<close>. The mainboard names that the coreboot table gives are string
  options, \<open>None\<close> for \<open>NULL\<close>.
\<close>

definition VH_VIA :: int where "VH_VIA = 1"
definition VH_INTEL :: int where "VH_INTEL = 2"

record vga_hooks =
  VGAHookHandlerType :: int
  ViaFBsize :: int
  ViaRamSpeed :: int
  IntelDisplayType :: u8
  IntelDisplayId :: u8

definition handle_155fXX :: "bregs \<Rightarrow> bregs" where
  "handle_155fXX r = set_code_invalid_silent RET_EUNSUPPORTED r"

definition via_155f01 :: "bregs \<Rightarrow> bregs" where
  "via_155f01 r = set_success (set_cl 2 (r\<lparr>r_eax := 0x5f\<rparr>))"

definition via_155f02 :: "bregs \<Rightarrow> bregs" where
  "via_155f02 r = set_success (set_dx 0 (set_cx 0x401 (set_bx 2 (r\<lparr>r_eax := 0x5f\<rparr>))))"

definition via_155f18 :: "vga_hooks \<Rightarrow> bregs \<Rightarrow> bregs" where
  "via_155f18 h r =
     (let fbsize = ViaFBsize h; ramspeed = ViaRamSpeed h in
      if fbsize < 0 \<or> ramspeed < 0 then set_code_invalid_silent RET_EUNSUPPORTED r
      else
        let r = r\<lparr>r_eax := 0x5f, r_ebx := 0x500 OR push_bit 4 (word_of_int ramspeed) OR word_of_int fbsize\<rparr> in
        set_success (r\<lparr>r_ecx := 0x060\<rparr>))"

definition via_155f19 :: "bregs \<Rightarrow> bregs" where
  "via_155f19 r = set_invalid_silent r"

definition via_155f :: "vga_hooks \<Rightarrow> bregs \<Rightarrow> bregs" where
  "via_155f h r =
     (if AL r = 0x01 then via_155f01 r
      else if AL r = 0x02 then via_155f02 r
      else if AL r = 0x18 then via_155f18 h r
      else if AL r = 0x19 then via_155f19 r
      else handle_155fXX r)"

definition intel_155f35 :: "vga_hooks \<Rightarrow> bregs \<Rightarrow> bregs" where
  "intel_155f35 h r = set_success (set_cl (IntelDisplayType h) (set_ax 0x005f r))"

definition intel_155f40 :: "vga_hooks \<Rightarrow> bregs \<Rightarrow> bregs" where
  "intel_155f40 h r = set_success (set_cl (IntelDisplayId h) (set_ax 0x005f r))"

definition intel_155f :: "vga_hooks \<Rightarrow> bregs \<Rightarrow> bregs" where
  "intel_155f h r =
     (if AL r = 0x35 then intel_155f35 h r
      else if AL r = 0x40 then intel_155f40 h r
      else handle_155fXX r)"

definition handle_155f :: "vga_hooks \<Rightarrow> bregs \<Rightarrow> bregs" where
  "handle_155f h r =
     (if VGAHookHandlerType h = VH_VIA then via_155f h r
      else if VGAHookHandlerType h = VH_INTEL then intel_155f h r
      else handle_155fXX r)"

section \<open>Set up\<close>

definition mem_power :: "int list" where
  "mem_power = [0, 3, 4, 5, 6, 7, 8, 9]"

definition getFBSize :: "pci_device \<Rightarrow> pci_state \<Rightarrow> int \<times> pci_state" where
  "getFBSize pci st = (case pci_config_readb (bdf pci) 0xa1 st of (reg, st) \<Rightarrow>
     (if reg AND 0x80 = 0 then - 1 else mem_power ! unat (drop_bit 4 reg AND 0x7), st))"

definition getViaRamSpeed :: "pci_device \<Rightarrow> pci_state \<Rightarrow> int \<times> pci_state" where
  "getViaRamSpeed pci st = (case pci_config_readb (bdf pci) 0x90 st of (v, st) \<Rightarrow>
     (uint (v AND 0x07) + 3, st))"

definition PCI_VENDOR_ID_AMD :: u16 where "PCI_VENDOR_ID_AMD = 0x1022"
definition PCI_VENDOR_ID_VIA :: u16 where "PCI_VENDOR_ID_VIA = 0x1106"
definition PCI_DEVICE_ID_AMD_K8_NB_MEMCTL :: u16 where "PCI_DEVICE_ID_AMD_K8_NB_MEMCTL = 0x1102"
definition PCI_DEVICE_ID_VIA_K8M890CE_3 :: u16 where "PCI_DEVICE_ID_VIA_K8M890CE_3 = 0x3336"
definition PCI_DEVICE_ID_VIA_VX855_MEMCTRL :: u16 where "PCI_DEVICE_ID_VIA_VX855_MEMCTRL = 0x3409"

definition getAMDRamSpeed :: "pci_state \<Rightarrow> int \<times> pci_state" where
  "getAMDRamSpeed st = (case pci_find_device PCI_VENDOR_ID_AMD PCI_DEVICE_ID_AMD_K8_NB_MEMCTL st of
       None \<Rightarrow> (- 1, st)
     | Some pci \<Rightarrow> (case pci_config_readb (bdf pci) 0x94 st of (v, st) \<Rightarrow> (uint (v AND 0x7) + 6, st)))"

definition via_setup :: "vga_hooks \<Rightarrow> pci_state \<Rightarrow> vga_hooks \<times> pci_state" where
  "via_setup h st =
     (let h = h\<lparr>VGAHookHandlerType := VH_VIA\<rparr> in
      case pci_find_device PCI_VENDOR_ID_VIA PCI_DEVICE_ID_VIA_K8M890CE_3 st of
        Some d \<Rightarrow>
          (case getFBSize d st of (fb, st) \<Rightarrow> case getAMDRamSpeed st of (sp, st) \<Rightarrow>
           (h\<lparr>ViaFBsize := fb, ViaRamSpeed := sp\<rparr>, st))
      | None \<Rightarrow>
          (case pci_find_device PCI_VENDOR_ID_VIA PCI_DEVICE_ID_VIA_VX855_MEMCTRL st of
             Some d \<Rightarrow>
               (case getFBSize d st of (fb, st) \<Rightarrow> case getViaRamSpeed d st of (sp, st) \<Rightarrow>
                (h\<lparr>ViaFBsize := fb, ViaRamSpeed := sp\<rparr>, st))
           | None \<Rightarrow> (h\<lparr>ViaFBsize := 5, ViaRamSpeed := 4\<rparr>, st)))"

definition BOOT_DISPLAY_CRT :: u8 where "BOOT_DISPLAY_CRT = 0x01"
definition BOOT_DISPLAY_LCD :: u8 where "BOOT_DISPLAY_LCD = 0x08"

definition roda_setup :: "vga_hooks \<Rightarrow> vga_hooks" where
  "roda_setup h = h\<lparr>VGAHookHandlerType := VH_INTEL, IntelDisplayType := BOOT_DISPLAY_LCD, IntelDisplayId := 3\<rparr>"

definition kontron_setup :: "vga_hooks \<Rightarrow> vga_hooks" where
  "kontron_setup h = h\<lparr>VGAHookHandlerType := VH_INTEL, IntelDisplayType := BOOT_DISPLAY_CRT, IntelDisplayId := 3\<rparr>"

definition getac_setup :: "vga_hooks \<Rightarrow> vga_hooks" where
  "getac_setup h = h"

definition vgahook_setup ::
  "string option \<Rightarrow> string option \<Rightarrow> pci_device \<Rightarrow> vga_hooks \<Rightarrow> pci_state \<Rightarrow> vga_hooks \<times> pci_state" where
  "vgahook_setup CBvendor CBpart pci h st =
     (if CBvendor = None \<or> CBpart = None then (h, st)
      else if CBvendor = Some ''KONTRON'' \<and> CBpart = Some ''986LCD-M'' then (kontron_setup h, st)
      else if CBvendor = Some ''GETAC'' \<and> CBpart = Some ''P470'' then (getac_setup h, st)
      else if CBvendor = Some ''RODA'' \<and> CBpart = Some ''RK886EX'' then (roda_setup h, st)
      else if vendor pci = PCI_VENDOR_ID_VIA then via_setup h st
      else (h, st))"

end
