(* ===== verification/System.thy ===== *)
theory System
  imports Apm Vgahooks Mouse E820
begin

text \<open>
  The system services INT 15h of \<open>src/system.c\<close>: the A20 gate, the move of a block in protected mode,
  the sizes of the memory and the e820 map, the switch to protected mode, and the dispatch to the
  clocks, the mouse, APM and the VGA hooks.

  The record \<open>sys_env\<close> holds the globals these read: \<open>RamSize\<close>, the number of entries and the offset
  in the BIOS segment of \<open>e820_list\<close>, the addresses of the interrupt entries through \<open>input_env\<close>.
  \<open>None\<close> stands for a wait that never ends and for a machine that shuts down: in the block move the
  interrupt table is empty, so every fault in protected mode ends there; and for a descriptor
  table that does not lie in its segment. The A20 gate is the port;
  memory is not masked by it.
\<close>

definition PORT_A20 :: u16 where "PORT_A20 = 0x0092"
definition A20_ENABLE_BIT :: u8 where "A20_ENABLE_BIT = 0x02"
definition BUILD_BIOS_SIZE :: u32 where "BUILD_BIOS_SIZE = 0x10000"
definition BIOS_CONFIG_TABLE :: u16 where "BIOS_CONFIG_TABLE = 0xe6f5"
definition SMAP :: u32 where "SMAP = 0x534D4150"
definition SIZEOF_E820ENTRY :: u32 where "SIZEOF_E820ENTRY = 20"

record sys_env =
  input :: input_env
  apm :: apm_env
  vga :: vga_hooks
  RamSize :: u32
  e820_count :: nat
  e820_list :: u16

text \<open>How a service leaves the CPU: in real mode, or in protected mode with this GDT and IDT
  (limit and base).\<close>

datatype cpu_mode = RealMode | ProtectedMode "u16 \<times> u32" "u16 \<times> u32"

type_synonym sys_result = "(bregs \<times> cpu_mode \<times> clock_state) option"

definition real_mode :: "bregs \<times> clock_state \<Rightarrow> bregs \<times> cpu_mode \<times> clock_state" where
  "real_mode = (\<lambda>(r, st). (r, RealMode, st))"

section \<open>The A20 gate\<close>

definition set_a20 :: "bool \<Rightarrow> clock_state \<Rightarrow> bool \<times> clock_state" where
  "set_a20 cond st =
     (let (oldval, st) = inb PORT_A20 st;
          newval = (if cond then oldval OR A20_ENABLE_BIT else oldval AND NOT A20_ENABLE_BIT) in
      (oldval AND A20_ENABLE_BIT \<noteq> 0, outb newval PORT_A20 st))"

definition handle_152400 :: "bregs \<Rightarrow> clock_state \<Rightarrow> bregs \<times> clock_state" where
  "handle_152400 r st = (set_code_success r, snd (set_a20 False st))"

definition handle_152401 :: "bregs \<Rightarrow> clock_state \<Rightarrow> bregs \<times> clock_state" where
  "handle_152401 r st = (set_code_success r, snd (set_a20 True st))"

definition handle_152402 :: "bregs \<Rightarrow> clock_state \<Rightarrow> bregs \<times> clock_state" where
  "handle_152402 r st =
     (let (v, st) = inb PORT_A20 st in
      (set_code_success (set_al (if v AND A20_ENABLE_BIT \<noteq> 0 then 1 else 0) r), st))"

definition handle_152403 :: "bregs \<Rightarrow> clock_state \<Rightarrow> bregs \<times> clock_state" where
  "handle_152403 r st = (set_code_success (set_bx 3 r), st)"

definition handle_1524XX :: "bregs \<Rightarrow> clock_state \<Rightarrow> bregs \<times> clock_state" where
  "handle_1524XX r st = (set_code_invalid_silent RET_EUNSUPPORTED r, st)"

definition handle_1524 :: "bregs \<Rightarrow> clock_state \<Rightarrow> bregs \<times> clock_state" where
  "handle_1524 r st =
     (if AL r = 0x00 then handle_152400 r st
      else if AL r = 0x01 then handle_152401 r st
      else if AL r = 0x02 then handle_152402 r st
      else if AL r = 0x03 then handle_152403 r st
      else handle_1524XX r st)"

definition handle_1552 :: "bregs \<Rightarrow> clock_state \<Rightarrow> bregs \<times> clock_state" where
  "handle_1552 r st = (set_code_success r, st)"

section \<open>Segment descriptors\<close>

definition GDT_CODE :: u64 where "GDT_CODE = push_bit 40 0x9b"
definition GDT_DATA :: u64 where "GDT_DATA = push_bit 40 0x93"

definition GDT_BASE :: "u32 \<Rightarrow> u64" where
  "GDT_BASE v = push_bit 32 (ucast v AND 0xff000000) OR push_bit 16 (ucast v AND 0x00ffffff)"

definition GDT_LIMIT :: "u32 \<Rightarrow> u64" where
  "GDT_LIMIT v = push_bit 32 (ucast v AND 0x000f0000) OR (ucast v AND 0x0000ffff)"

text \<open>What the CPU takes from a descriptor: the base, the last valid offset and the access byte.\<close>

record segment =
  seg_base :: u32
  seg_limit :: u32
  seg_access :: u8

definition decode_desc :: "u64 \<Rightarrow> segment" where
  "decode_desc d =
     (let lim = (ucast d AND 0xffff) OR (ucast (drop_bit 32 d) AND 0xf0000) in
      \<lparr>seg_base = (ucast (drop_bit 16 d) AND 0xffffff) OR (ucast (drop_bit 32 d) AND 0xff000000),
       seg_limit = (if bit d 55 then push_bit 12 lim OR 0xfff else lim),
       seg_access = ucast (drop_bit 40 d)\<rparr>)"

text \<open>
  Loading a data segment register with the descriptor at an address: it must be a present data
  segment that grows up, or a present readable code segment; the CPU marks it accessed.
\<close>

definition readable_seg :: "u8 \<Rightarrow> bool" where
  "readable_seg acc \<longleftrightarrow> acc AND 0x90 = 0x90 \<and> (acc AND 0x0c = 0x00 \<or> acc AND 0x0a = 0x0a)"

definition writable_seg :: "u8 \<Rightarrow> bool" where
  "writable_seg acc \<longleftrightarrow> acc AND 0x9e = 0x92"

definition load_seg :: "u32 \<Rightarrow> memory \<Rightarrow> (segment \<times> memory) option" where
  "load_seg p m =
     (let s = decode_desc (rd64 m p) in
      if readable_seg (seg_access s) then Some (s, wr8 (p + 5) (rd8 m (p + 5) OR 1) m) else None)"

section \<open>The block move\<close>

text \<open>\<open>rep movsw\<close> with 16-bit index registers; an access beyond a segment is a fault.\<close>

fun rep_movsw :: "segment \<Rightarrow> segment \<Rightarrow> u16 \<Rightarrow> u16 \<Rightarrow> nat \<Rightarrow> memory \<Rightarrow> memory option" where
  "rep_movsw ds es si di 0 m = Some m"
| "rep_movsw ds es si di (Suc n) m =
     (if unat si + 1 > unat (seg_limit ds) \<or> unat di + 1 > unat (seg_limit es) \<or> \<not> writable_seg (seg_access es)
      then None
      else rep_movsw ds es (si + 2) (di + 2) n
        (wr16 (seg_base es + ucast di) (rd16 m (seg_base ds + ucast si)) m))"

text \<open>
  The assembler between the loads of the tables: with the GDT at \<open>gdt\<close>, the source is descriptor 2
  and the destination descriptor 3. Descriptor 5 gives the data segments their real mode limit back.
\<close>

definition pmode_move :: "u32 \<Rightarrow> u16 \<Rightarrow> memory \<Rightarrow> memory option" where
  "pmode_move gdt count m = do {
     (ds, m) \<leftarrow> load_seg (gdt + 16) m;
     (es, m) \<leftarrow> load_seg (gdt + 24) m;
     m \<leftarrow> rep_movsw ds es 0 0 (unat count) m;
     (_, m) \<leftarrow> load_seg (gdt + 40) m;
     Some m }"

text \<open>\<open>lgdtw\<close> loads 24 bits of the base.\<close>

definition load_table :: "u32 \<Rightarrow> memory \<Rightarrow> u16 \<times> u32" where
  "load_table p m = (rd16 m p, rd32 m (p + 2) AND 0xffffff)"

definition set_far64 :: "u16 \<Rightarrow> u32 \<Rightarrow> u64 \<Rightarrow> clock_state \<Rightarrow> clock_state" where
  "set_far64 sg off v st = st\<lparr>mem := wr64 (MAKE_FLATPTR sg off) v (mem st)\<rparr>"

text \<open>A descriptor table of \<open>n\<close> descriptors at an offset must lie in its segment.\<close>

definition table_fits :: "u16 \<Rightarrow> nat \<Rightarrow> bool" where
  "table_fits si n \<longleftrightarrow> unat si + 8 * n \<le> 0x10000"

definition handle_1587 :: "sys_env \<Rightarrow> bregs \<Rightarrow> clock_state \<Rightarrow> (bregs \<times> clock_state) option" where
  "handle_1587 S r st = do {
     let (prev_a20_enable, st) = set_a20 True st;
     let si = ucast (SI r);
     let gdt_seg = r_es r;
     let loc = MAKE_FLATPTR gdt_seg si;
     let st = set_far64 gdt_seg (si + 8) (GDT_DATA OR GDT_LIMIT (6 * 8 - 1) OR GDT_BASE loc) st;
     let st = set_far64 gdt_seg (si + 32)
       (GDT_CODE OR GDT_LIMIT (BUILD_BIOS_SIZE - 1) OR GDT_BASE BUILD_BIOS_ADDR) st;
     let loc = MAKE_FLATPTR (stack_seg (clk (input S))) 0;
     let st = set_far64 gdt_seg (si + 40) (GDT_DATA OR GDT_LIMIT 0x0ffff OR GDT_BASE loc) st;
     let gdt = snd (load_table (MAKE_FLATPTR gdt_seg (si + 8)) (mem st));
     m \<leftarrow> (if table_fits (SI r) 6 then pmode_move gdt (CX r) (mem st) else None);
     let st = st\<lparr>mem := m\<rparr>;
     let (_, st) = set_a20 prev_a20_enable st;
     Some (set_code_success r, st) }"

section \<open>Memory sizes\<close>

definition handle_1588 :: "sys_env \<Rightarrow> bregs \<Rightarrow> clock_state \<Rightarrow> bregs \<times> clock_state" where
  "handle_1588 S r st =
     (let rs = RamSize S in
      (set_success (set_ax (if rs > 64 * 1024 * 1024 then 63 * 1024 else ucast ((rs - 1 * 1024 * 1024) div 1024)) r), st))"

definition handle_1589 :: "bregs \<Rightarrow> clock_state \<Rightarrow> sys_result" where
  "handle_1589 r st =
     (let (_, st) = set_a20 True st;
          st = set_pics (BL r) (BH r) st;
          si = ucast (SI r);
          gdt_seg = r_es r;
          st = set_far64 gdt_seg (si + 56)
            (GDT_CODE OR GDT_LIMIT (BUILD_BIOS_SIZE - 1) OR GDT_BASE BUILD_BIOS_ADDR) st;
          r = r\<lparr>r_ds := push_bit 3 3, r_es := push_bit 3 4,
                r_code := (r_code r AND 0xffff) OR push_bit 16 (push_bit 3 6)\<rparr>;
          r = set_code_success r;
          gdt = load_table (MAKE_FLATPTR gdt_seg (si + 8)) (mem st);
          idt = load_table (MAKE_FLATPTR gdt_seg (si + 16)) (mem st) in
      if table_fits (SI r) 8 then Some (r, ProtectedMode gdt idt, st) else None)"

definition handle_1590 :: "bregs \<Rightarrow> clock_state \<Rightarrow> bregs \<times> clock_state" where
  "handle_1590 r st = (r, st)"

definition handle_1591 :: "bregs \<Rightarrow> clock_state \<Rightarrow> bregs \<times> clock_state" where
  "handle_1591 r st = (r, st)"

definition handle_154f :: "bregs \<Rightarrow> clock_state \<Rightarrow> bregs \<times> clock_state" where
  "handle_154f r st = (set_invalid_silent r, st)"

definition handle_15c0 :: "bregs \<Rightarrow> clock_state \<Rightarrow> bregs \<times> clock_state" where
  "handle_15c0 r st = (set_code_success (set_bx BIOS_CONFIG_TABLE (r\<lparr>r_es := SEG_BIOS\<rparr>)), st)"

definition handle_15c1 :: "bregs \<Rightarrow> clock_state \<Rightarrow> bregs \<times> clock_state" where
  "handle_15c1 r st = (set_success (r\<lparr>r_es := get_ebda_seg st\<rparr>), st)"

definition handle_15e801 :: "sys_env \<Rightarrow> bregs \<Rightarrow> clock_state \<Rightarrow> bregs \<times> clock_state" where
  "handle_15e801 S r st =
     (let rs = RamSize S;
          r = (if rs > 16 * 1024 * 1024
               then set_dx (ucast ((rs - 16 * 1024 * 1024) div (64 * 1024))) (set_cx (15 * 1024) r)
               else set_dx 0 (set_cx (ucast ((rs - 1 * 1024 * 1024) div 1024)) r));
          r = set_ax (CX r) r;
          r = set_bx (DX r) r in
      (set_success r, st))"

definition handle_15e820 :: "sys_env \<Rightarrow> bregs \<Rightarrow> clock_state \<Rightarrow> bregs \<times> clock_state" where
  "handle_15e820 S r st =
     (let count = e820_count S in
      if r_edx r \<noteq> SMAP \<or> unat (BX r) \<ge> count \<or> r_ecx r < SIZEOF_E820ENTRY
      then (set_code_invalid_silent RET_EUNSUPPORTED r, st)
      else
        let st = st\<lparr>mem := memcpy_far (r_es r) (ucast (DI r)) SEG_BIOS
                   (ucast (e820_list S) + SIZEOF_E820ENTRY * ucast (BX r)) SIZEOF_E820ENTRY (mem st)\<rparr>;
            r = (if int (unat (BX r)) = int count - 1 then r\<lparr>r_ebx := 0\<rparr> else r\<lparr>r_ebx := r_ebx r + 1\<rparr>);
            r = r\<lparr>r_eax := SMAP, r_ecx := SIZEOF_E820ENTRY\<rparr> in
        (set_success r, st))"

definition handle_15e8XX :: "bregs \<Rightarrow> clock_state \<Rightarrow> bregs \<times> clock_state" where
  "handle_15e8XX r st = (set_code_invalid_silent RET_EUNSUPPORTED r, st)"

definition handle_15e8 :: "sys_env \<Rightarrow> bregs \<Rightarrow> clock_state \<Rightarrow> bregs \<times> clock_state" where
  "handle_15e8 S r st =
     (if AL r = 0x01 then handle_15e801 S r st
      else if AL r = 0x20 then handle_15e820 S r st
      else handle_15e8XX r st)"

definition handle_15XX :: "bregs \<Rightarrow> clock_state \<Rightarrow> bregs \<times> clock_state" where
  "handle_15XX r st = (set_code_invalid_silent RET_EUNSUPPORTED r, st)"

section \<open>INT 15h\<close>

definition handle_15 :: "sys_env \<Rightarrow> bregs \<Rightarrow> clock_state \<Rightarrow> sys_result" where
  "handle_15 S r st =
     (let e = clk (input S) in
      if AH r = 0x24 then Some (real_mode (handle_1524 r st))
      else if AH r = 0x4f then Some (real_mode (handle_154f r st))
      else if AH r = 0x52 then Some (real_mode (handle_1552 r st))
      else if AH r = 0x53 then map_option real_mode (handle_1553 e (apm S) r st)
      else if AH r = 0x5f then Some (real_mode (handle_155f (vga S) r, st))
      else if AH r = 0x83 then Some (real_mode (handle_1583 r st))
      else if AH r = 0x86 then map_option real_mode (handle_1586 e r st)
      else if AH r = 0x87 then map_option real_mode (handle_1587 S r st)
      else if AH r = 0x88 then Some (real_mode (handle_1588 S r st))
      else if AH r = 0x89 then handle_1589 r st
      else if AH r = 0x90 then Some (real_mode (handle_1590 r st))
      else if AH r = 0x91 then Some (real_mode (handle_1591 r st))
      else if AH r = 0xc0 then Some (real_mode (handle_15c0 r st))
      else if AH r = 0xc1 then Some (real_mode (handle_15c1 r st))
      else if AH r = 0xc2 then map_option real_mode (handle_15c2 (input S) r st)
      else if AH r = 0xe8 then Some (real_mode (handle_15e8 S r st))
      else Some (real_mode (handle_15XX r st)))"

end
