(* ===== verification/Region.thy ===== *)
theory Region
  imports Util Block
begin

text \<open>
  Regions of memory, for the structures that the BIOS shares with a host or a device: regions apart from
  each other, what a write or a fill leaves alone, and reads of what was written.
\<close>

section \<open>Regions of memory\<close>

text \<open>Two regions, of \<open>n\<close> bytes from \<open>a\<close> and of \<open>k\<close> bytes from \<open>b\<close>, that have no byte in common.\<close>

definition apart :: "u32 \<Rightarrow> nat \<Rightarrow> u32 \<Rightarrow> nat \<Rightarrow> bool" where
  "apart a n b k \<longleftrightarrow> n \<le> unat (b - a) \<and> k \<le> unat (a - b)"

lemma unat_of_nat_le: "unat (of_nat i :: 'a::len word) \<le> i"
  by (simp add: unat_of_nat)

lemma apart_in:
  assumes "apart a n b k" "unat (x - a) < n"
  shows "k \<le> unat (x - b)"
proof (rule ccontr)
  assume "\<not> k \<le> unat (x - b)"
  then have j: "unat (x - b) < k" by simp
  show False
  proof (cases "x - b \<le> x - a")
    case True
    have "b - a = (x - a) - (x - b)" by simp
    then have "unat (b - a) = unat (x - a) - unat (x - b)" using True by (simp only: unat_sub)
    then show False using assms unfolding apart_def by linarith
  next
    case False
    then have le: "x - a \<le> x - b" by simp
    have "a - b = (x - b) - (x - a)" by simp
    then have "unat (a - b) = unat (x - b) - unat (x - a)" using le by (simp only: unat_sub)
    then show False using assms j unfolding apart_def by linarith
  qed
qed

lemma apart_sym: "apart a n b k \<Longrightarrow> apart b k a n"
  by (simp add: apart_def)

lemma apart_at: "apart a n b k \<Longrightarrow> unat i < n \<Longrightarrow> k \<le> unat (a + i - b)"
  using apart_in [of a n b k "a + i"] by simp

text \<open>What a write or a fill leaves alone.\<close>

lemma wr8_out: "1 \<le> unat (x - a) \<Longrightarrow> wr8 a v m x = m x"
  by (auto simp: wr8_def)

lemma wr16_out: "2 \<le> unat (x - a) \<Longrightarrow> wr16 a v m x = m x"
  by (auto simp: wr16_def)

lemma wr32_out: "4 \<le> unat (x - a) \<Longrightarrow> wr32 a v m x = m x"
  by (rule wr32_other) auto

lemma wr64_out:
  assumes "8 \<le> unat (x - a)"
  shows "wr64 a v m x = m x"
proof -
  have "4 \<le> x - a" using assms by (simp add: word_le_nat_alt)
  moreover have "x - (a + 4) = x - a - 4" by simp
  ultimately have "unat (x - (a + 4)) = unat (x - a) - 4" by (simp only: unat_sub) simp
  then show ?thesis using assms by (simp add: wr64_def wr32_out)
qed

lemma memset_out: "n \<le> unat (x - a) \<Longrightarrow> memset a c n m x = m x"
proof (induction n arbitrary: m)
  case (Suc n)
  have "x \<noteq> a + of_nat n"
  proof
    assume "x = a + of_nat n"
    then have "unat (x - a) = unat (of_nat n :: u32)" by simp
    then show False using Suc.prems unat_of_nat_le [of n, where 'a = 32] by linarith
  qed
  then show ?case using Suc by simp
qed simp

lemma memset_in: "unat (x - a) < n \<Longrightarrow> n \<le> 2 ^ 32 \<Longrightarrow> memset a c n m x = c"
proof (induction n arbitrary: m)
  case (Suc n)
  show ?case
  proof (cases "unat (x - a) < n")
    case True
    then show ?thesis using Suc by simp
  next
    case False
    then have n: "unat (x - a) = n" using Suc.prems by simp
    have "x - a = of_nat (unat (x - a))" by simp
    then have "x - a = of_nat n" by (simp only: n)
    then have "x = a + of_nat n" by (simp add: algebra_simps)
    then show ?thesis using memset_out [of n x a c] n by simp
  qed
qed simp

lemma rd32_frame: "(\<And>x. unat (x - a) < 4 \<Longrightarrow> m' x = m x) \<Longrightarrow> rd32 m' a = rd32 m a"
  by (rule rd32_cong) simp_all

lemma rd16_frame: "(\<And>x. unat (x - a) < 2 \<Longrightarrow> m' x = m x) \<Longrightarrow> rd16 m' a = rd16 m a"
  by (simp add: rd16_def)

lemma rd32_wr32_apart: "apart a 4 b 4 \<Longrightarrow> rd32 (wr32 a v m) b = rd32 m b"
  by (rule rd32_frame) (auto intro!: wr32_out dest: apart_in [OF apart_sym])

lemma rd32_memset_apart: "apart a n b 4 \<Longrightarrow> rd32 (memset a c n m) b = rd32 m b"
  by (rule rd32_frame) (auto intro!: memset_out dest: apart_in [OF apart_sym])

lemma rd16_wr16_apart: "apart a 2 b 2 \<Longrightarrow> rd16 (wr16 a v m) b = rd16 m b"
  by (rule rd16_frame) (auto intro!: wr16_out dest: apart_in [OF apart_sym])

lemma rd16_wr32_apart: "apart a 4 b 2 \<Longrightarrow> rd16 (wr32 a v m) b = rd16 m b"
  by (rule rd16_frame) (auto intro!: wr32_out dest: apart_in [OF apart_sym])

lemma rd32_wr16_apart: "apart a 2 b 4 \<Longrightarrow> rd32 (wr16 a v m) b = rd32 m b"
  by (rule rd32_frame) (auto intro!: wr16_out dest: apart_in [OF apart_sym])

lemma offset_sub:
  "unat (x - (s + d) :: u32) =
     (if unat d \<le> unat (x - s) then unat (x - s) - unat d else unat (x - s) + 2 ^ 32 - unat d)"
proof -
  have "x - (s + d) = x - s - d" by simp
  then show ?thesis using unat_sub_if' [of "x - s" d] by (simp only:) simp
qed

lemma rd64_wr64_same [simp]: "rd64 (wr64 p v m) p = v"
proof -
  have "rd32 (wr32 (p + 4) w m') p = rd32 m' p" for w m'
    by (rule rd32_wr32_apart) (simp add: apart_def)
  then have "rd64 (wr64 p v m) p = ucast (ucast v :: u32) OR push_bit 32 (ucast (ucast (drop_bit 32 v) :: u32))"
    by (simp add: rd64_def wr64_def)
  also have "\<dots> = v" by (rule bit_eqI) (auto simp: bit_simps)
  finally show ?thesis .
qed

text \<open>Places in a structure, by their distance from its start.\<close>

lemma off_in:
  assumes "unat (x - (b + of_nat p) :: u32) < k" "p + k \<le> 2 ^ 32"
  shows "p \<le> unat (x - b) \<and> unat (x - b) < p + k"
  using assms by (auto simp: offset_sub unat_of_nat split: if_splits)

lemma off_out:
  assumes "unat (x - b) < p \<or> p + k \<le> unat (x - b)" "p + k \<le> 2 ^ 32"
  shows "k \<le> unat (x - (b + of_nat p) :: u32)"
  using off_in [OF _ assms(2), of x b] assms(1) by fastforce

lemma wr16_off: "unat (x - b) < p \<or> p + 2 \<le> unat (x - b) \<Longrightarrow> p + 2 \<le> 2 ^ 32 \<Longrightarrow> wr16 (b + of_nat p) v m x = m x"
  by (intro wr16_out off_out)

lemma wr32_off: "unat (x - b) < p \<or> p + 4 \<le> unat (x - b) \<Longrightarrow> p + 4 \<le> 2 ^ 32 \<Longrightarrow> wr32 (b + of_nat p) v m x = m x"
  by (intro wr32_out off_out)

lemma wr64_off: "unat (x - b) < p \<or> p + 8 \<le> unat (x - b) \<Longrightarrow> p + 8 \<le> 2 ^ 32 \<Longrightarrow> wr64 (b + of_nat p) v m x = m x"
  by (intro wr64_out off_out)

lemma rd64_frame: "(\<And>x. unat (x - a) < 8 \<Longrightarrow> m' x = m x) \<Longrightarrow> rd64 m' a = rd64 m a"
proof -
  assume e: "\<And>x. unat (x - a) < 8 \<Longrightarrow> m' x = m x"
  have "rd32 m' a = rd32 m a" by (rule rd32_frame) (use e in auto)
  moreover have "rd32 m' (a + 4) = rd32 m (a + 4)"
  proof (rule rd32_frame)
    fix x
    assume "unat (x - (a + 4)) < 4"
    then have "unat (x - a) < 8" using off_in [of x a 4 4] by simp
    then show "m' x = m x" by (rule e)
  qed
  ultimately show ?thesis by (simp add: rd64_def)
qed

lemma rd16_off:
  "(\<And>x. p \<le> unat (x - b) \<Longrightarrow> unat (x - b) < p + 2 \<Longrightarrow> m' x = m x) \<Longrightarrow> p + 2 \<le> 2 ^ 32 \<Longrightarrow>
   rd16 m' (b + of_nat p) = rd16 m (b + of_nat p)"
  by (rule rd16_frame) (use off_in in blast)

lemma rd32_off:
  "(\<And>x. p \<le> unat (x - b) \<Longrightarrow> unat (x - b) < p + 4 \<Longrightarrow> m' x = m x) \<Longrightarrow> p + 4 \<le> 2 ^ 32 \<Longrightarrow>
   rd32 m' (b + of_nat p) = rd32 m (b + of_nat p)"
  by (rule rd32_frame) (use off_in in blast)

lemma rd64_off:
  "(\<And>x. p \<le> unat (x - b) \<Longrightarrow> unat (x - b) < p + 8 \<Longrightarrow> m' x = m x) \<Longrightarrow> p + 8 \<le> 2 ^ 32 \<Longrightarrow>
   rd64 m' (b + of_nat p) = rd64 m (b + of_nat p)"
  by (rule rd64_frame) (use off_in in blast)

end
