(* ===== verification/SystemSpec.thy ===== *)
theory SystemSpec
  imports System ClockSpec Region
begin

text \<open>
  Properties of the system services: the e820 map read through INT 15h is the map; the block move
  copies the block and restores the A20 gate; the memory sizes are those of the RAM, rounded down.
\<close>

section \<open>Memory\<close>

lemma rd_move:
  assumes "\<And>i. i < n \<Longrightarrow> m' (d + of_nat i) = m (s + of_nat i)"
  shows "8 \<le> n \<Longrightarrow> rd64 m' d = rd64 m s" "4 \<le> n \<Longrightarrow> rd32 m' d = rd32 m s"
proof -
  show "8 \<le> n \<Longrightarrow> rd64 m' d = rd64 m s"
    using assms [of 0] assms [of 1] assms [of 2] assms [of 3] assms [of 4] assms [of 5] assms [of 6] assms [of 7]
    by (simp add: rd64_def rd32_def rd16_def add.assoc)
  show "4 \<le> n \<Longrightarrow> rd32 m' d = rd32 m s"
    using assms [of 0] assms [of 1] assms [of 2] assms [of 3]
    by (simp add: rd32_def rd16_def add.assoc)
qed

lemma wr64_other: "8 \<le> unat (a - p) \<Longrightarrow> wr64 p v m a = m a"
proof -
  assume far: "8 \<le> unat (a - p)"
  have "a \<noteq> p + of_nat i" if "i < 8" for i
  proof
    assume "a = p + of_nat i"
    then have "unat (a - p) = i" using that by (simp add: unat_of_nat_u32)
    then show False using far that by simp
  qed
  from this [of 0] this [of 1] this [of 2] this [of 3] this [of 4] this [of 5] this [of 6] this [of 7]
  show ?thesis by (simp add: wr64_def wr32_def wr16_def add.assoc)
qed

lemma wr32_high: "i < 4 \<Longrightarrow> wr32 (p + 4) v m (p + of_nat i) = m (p + of_nat i)"
proof -
  assume "i < 4"
  then consider "i = 0" | "i = 1" | "i = 2" | "i = 3" by linarith
  then show ?thesis by cases (simp_all add: wr32_def wr16_def add.assoc)
qed

lemma rd32_in_rd64: "rd32 m (p + 2) = ucast (drop_bit 16 (rd64 m p))"
  unfolding rd64_def rd32_def rd16_def add.assoc
  by (rule bit_eqI) (auto simp: bit_simps)

section \<open>The e820 map\<close>

definition e820_read :: "memory \<Rightarrow> u32 \<Rightarrow> e820entry" where
  "e820_read m p = \<lparr>e_start = rd64 m p, e_size = rd64 m (p + 8), e_type = rd32 m (p + 16)\<rparr>"

definition e820_addr :: "sys_env \<Rightarrow> nat \<Rightarrow> u32" where
  "e820_addr S i = 0xf0000 + (ucast (e820_list S) + 20 * of_nat i)"

text \<open>The globals hold the map, and the whole array lies in the BIOS segment.\<close>

definition e820_stored :: "sys_env \<Rightarrow> e820map \<Rightarrow> memory \<Rightarrow> bool" where
  "e820_stored S mp m \<longleftrightarrow> e820_count S = length mp \<and> unat (e820_list S) + 20 * length mp \<le> 65536 \<and>
     (\<forall>i < length mp. e820_read m (e820_addr S i) = mp ! i)"

text \<open>What a client of INT 15h, AX = E820h reads: it repeats the call with its buffer at ES:DI and the
  continuation value in EBX, until that is zero or the carry flag is set.\<close>

fun e820_client :: "nat \<Rightarrow> sys_env \<Rightarrow> bregs \<Rightarrow> clock_state \<Rightarrow> e820map" where
  "e820_client 0 S r st = []"
| "e820_client (Suc n) S r st =
     (case handle_15 S (r\<lparr>r_eax := 0xe820, r_edx := SMAP, r_ecx := SIZEOF_E820ENTRY\<rparr>) st of
        Some (r', RealMode, st') \<Rightarrow>
          if carry r' then []
          else e820_read (mem st') (MAKE_FLATPTR (r_es r) (ucast (DI r))) #
            (if r_ebx r' = 0 then [] else e820_client n S r' st')
      | _ \<Rightarrow> [])"

lemma e820_read_move:
  assumes "\<And>i. i < 20 \<Longrightarrow> m' (d + of_nat i) = m (s + of_nat i)"
  shows "e820_read m' d = e820_read m s"
proof -
  have "m' (d + of_nat k + of_nat i) = m (s + of_nat k + of_nat i)" if "i + k < 20" for i k
    using assms [of "i + k"] that by (simp add: add_ac)
  from rd_move(1) [of 8 m' d m s] rd_move(1) [of 8 m' "d + 8" m "s + 8"] rd_move(2) [of 4 m' "d + 16" m "s + 16"]
    this [of _ 0] this [of _ 8] this [of _ 16]
  show ?thesis by (simp add: e820_read_def)
qed

lemma handle_15e820_AX:
  "handle_15 S (r\<lparr>r_eax := 0xe820, r_edx := dx, r_ecx := cx\<rparr>) st =
   Some (real_mode (handle_15e820 S (r\<lparr>r_eax := 0xe820, r_edx := dx, r_ecx := cx\<rparr>) st))"
proof -
  have "lane_h 0xe820 = 0xe8" "lane_l 0xe820 = 0x20" by code_simp+
  then show ?thesis by (simp add: handle_15_def handle_15e8_def AH_def AL_def Let_def)
qed

text \<open>The copy of one entry into a buffer below the BIOS segment.\<close>

lemma e820_copy:
  fixes di ofs :: u16
  assumes "unat di + 20 \<le> 65536" "unat (MAKE_FLATPTR es (ucast di)) + 20 \<le> 0xf0000"
    and "unat ofs + 20 * i + 20 \<le> 65536"
  shows "memcpy_far es (ucast di) SEG_BIOS (ucast ofs + SIZEOF_E820ENTRY * of_nat i) SIZEOF_E820ENTRY m =
    copied (MAKE_FLATPTR es (ucast di)) (0xf0000 + (ucast ofs + 20 * of_nat i)) 20 m"
proof -
  let ?src = "ucast ofs + 20 * of_nat i :: u32"
  have u: "unat (ucast ofs :: u32) = unat ofs" by (rule unat_ucast_fit) (use u16_bound [of ofs] in simp)
  have src: "unat ?src = unat ofs + 20 * i"
  proof -
    have "(ucast ofs :: u32) = of_nat (unat ofs)" using u by (metis of_nat_unat ucast_id)
    then have "?src = of_nat (unat ofs + 20 * i)" by simp
    then show ?thesis using assms(3) by (simp only:) (rule unat_of_nat_u32, simp)
  qed
  have usrc: "unat (ucast ?src :: u16) = unat ofs + 20 * i"
    unfolding src [symmetric] by (rule unat_ucast_fit) (use src assms(3) in simp)
  have "ucast (ucast ?src :: u16) = ?src"
    using src assms(3) usrc by (simp add: word_unat_eq_iff unat_ucast_fit)
  then have flat: "MAKE_FLATPTR SEG_BIOS (ucast (ucast ?src :: u16)) = 0xf0000 + ?src"
    by (simp add: MAKE_FLATPTR_def SEG_BIOS_def)
  have "unat (0xf0000 + ?src) = 0xf0000 + (unat ofs + 20 * i)"
    using src assms(3) unat_add_lem [of "0xf0000" ?src] by simp
  then have "20 \<le> unat (MAKE_FLATPTR es (ucast di) - (0xf0000 + ?src))"
    using assms(2,3) unat_sub_wrap32 [of "MAKE_FLATPTR es (ucast di)" "0xf0000 + ?src"]
    by (simp add: word_less_nat_alt)
  then have "rep_movsb (MAKE_FLATPTR es (ucast di)) (0xf0000 + ?src) 20 m =
      copied (MAKE_FLATPTR es (ucast di)) (0xf0000 + ?src) 20 m"
    by (intro rep_movsb_copied) simp_all
  moreover have "movsb_far es di SEG_BIOS (ucast ?src) 20 m =
      rep_movsb (MAKE_FLATPTR es (ucast di)) (MAKE_FLATPTR SEG_BIOS (ucast (ucast ?src :: u16))) 20 m"
    by (rule movsb_far_flat) (use assms usrc in simp_all)
  moreover have "ucast (ucast di :: u32) = di" by (rule bit_eqI) (simp add: bit_simps)
  ultimately show ?thesis by (simp add: memcpy_far_def SIZEOF_E820ENTRY_def flat)
qed

lemma e820_addr_nat: "e820_addr S j + of_nat k = of_nat (0xf0000 + unat (e820_list S) + 20 * j + k)"
proof -
  have "unat (ucast (e820_list S) :: u32) = unat (e820_list S)"
    by (rule unat_ucast_fit) (use u16_bound [of "e820_list S"] in simp)
  then have "(ucast (e820_list S) :: u32) = of_nat (unat (e820_list S))" by (metis of_nat_unat ucast_id)
  then show ?thesis by (simp add: e820_addr_def)
qed

lemma e820_stored_copied:
  assumes "e820_stored S mp m" "unat d + 20 \<le> 0xf0000"
  shows "e820_stored S mp (copied d s 20 m)"
proof -
  have "copied d s 20 m (e820_addr S j + of_nat k) = m (e820_addr S j + of_nat k)" if "j < length mp" "k < 20" for j k
  proof -
    let ?n = "0xf0000 + unat (e820_list S) + 20 * j + k"
    have "20 * j + 20 \<le> 20 * length mp" using that(1) by simp
    then have "?n < 4294967296" using assms(1) that(2) unfolding e820_stored_def by linarith
    then have n: "unat (of_nat ?n :: u32) = ?n" by (rule unat_of_nat_u32)
    then have "unat (of_nat ?n - d) = ?n - unat d"
      using assms(2) by (subst unat_sub) (simp_all add: word_le_nat_alt del: of_nat_add)
    then have "\<not> unat (of_nat ?n - d) < 20" using assms(2) by linarith
    then show ?thesis unfolding e820_addr_nat copied_def by (simp only: if_False)
  qed
  then have "e820_read (copied d s 20 m) (e820_addr S j) = e820_read m (e820_addr S j)" if "j < length mp" for j
    using that by (intro e820_read_move) simp
  then show ?thesis using assms(1) by (simp add: e820_stored_def)
qed

lemma e820_client_step:
  assumes "e820_stored S mp (mem st)" "i < length mp" "r_ebx r = of_nat i"
    and "unat (DI r) + 20 \<le> 65536" "unat (MAKE_FLATPTR (r_es r) (ucast (DI r))) + 20 \<le> 0xf0000"
    and "handle_15e820 S (r\<lparr>r_eax := 0xe820, r_edx := SMAP, r_ecx := SIZEOF_E820ENTRY\<rparr>) st = (r', st')"
  shows "\<not> carry r'" "r_ebx r' = (if Suc i = length mp then 0 else of_nat (Suc i))"
    "r_es r' = r_es r" "DI r' = DI r"
    "e820_read (mem st') (MAKE_FLATPTR (r_es r) (ucast (DI r))) = mp ! i"
    "e820_stored S mp (mem st')"
proof -
  let ?d = "MAKE_FLATPTR (r_es r) (ucast (DI r))"
  have small: "20 * length mp \<le> 65536" using assms(1) by (simp add: e820_stored_def)
  have bx: "unat (lane_x (of_nat i)) = i"
    using small assms(2) unat_of_nat_u32 [of i] by (simp add: lane_x_def unat_ucast_fit)
  have ubx: "ucast (lane_x (of_nat i)) = (of_nat i :: u32)"
    using bx by (metis of_nat_unat ucast_id)
  have room: "unat (e820_list S) + 20 * i + 20 \<le> 65536" using assms(1,2) by (auto simp: e820_stored_def)
  have copy: "mem st' = copied ?d (e820_addr S i) 20 (mem st)"
    and r': "r' = set_success (r\<lparr>r_edx := SMAP, r_ebx := (if Suc i = length mp then 0 else of_nat (Suc i)),
      r_eax := SMAP, r_ecx := SIZEOF_E820ENTRY\<rparr>)"
    using assms(1,2,3,6) bx e820_copy [OF assms(4,5) room, of "mem st"]
    by (auto simp: handle_15e820_def Let_def BX_def ubx e820_stored_def e820_addr_def DI_def add_ac split: if_splits)
  show "\<not> carry r'" "r_ebx r' = (if Suc i = length mp then 0 else of_nat (Suc i))" "r_es r' = r_es r" "DI r' = DI r"
    by (simp_all add: r' set_success_def DI_def)
  have "copied ?d s 20 m (?d + of_nat k) = m (s + of_nat k)" if "k < 20" for s k m
    using that by (simp add: copied_def unat_of_nat_u32)
  then have "e820_read (mem st') ?d = e820_read (mem st) (e820_addr S i)"
    unfolding copy by (rule e820_read_move)
  then show "e820_read (mem st') ?d = mp ! i" using assms(1,2) by (simp add: e820_stored_def)
  show "e820_stored S mp (mem st')"
    unfolding copy by (rule e820_stored_copied [OF assms(1,5)])
qed

lemma e820_client_reads:
  assumes "unat (DI r) + 20 \<le> 65536" "unat (MAKE_FLATPTR (r_es r) (ucast (DI r))) + 20 \<le> 0xf0000"
  shows "e820_stored S mp (mem st) \<Longrightarrow> i < length mp \<Longrightarrow> r_ebx r = of_nat i \<Longrightarrow> length mp \<le> i + n \<Longrightarrow>
    e820_client n S r st = drop i mp"
  using assms
proof (induction n arbitrary: i r st)
  case (Suc n)
  obtain r' st' where h: "handle_15e820 S (r\<lparr>r_eax := 0xe820, r_edx := SMAP, r_ecx := SIZEOF_E820ENTRY\<rparr>) st = (r', st')"
    by fastforce
  note step = e820_client_step [OF Suc.prems(1-3) Suc.prems(5,6) h]
  have head: "e820_client (Suc n) S r st = mp ! i # (if r_ebx r' = 0 then [] else e820_client n S r' st')"
    using step by (simp add: handle_15e820_AX h real_mode_def)
  show ?case
  proof (cases "Suc i = length mp")
    case True
    then show ?thesis using head step(2) by (simp flip: Cons_nth_drop_Suc)
  next
    case False
    then have lt: "Suc i < length mp" using Suc.prems(2) by simp
    have "20 * length mp \<le> 65536" using Suc.prems(1) by (simp add: e820_stored_def)
    then have "unat (of_nat (Suc i) :: u32) = Suc i" using lt by (intro unat_of_nat_u32) linarith
    then have "(of_nat (Suc i) :: u32) \<noteq> 0" by (metis unat_0 nat.distinct(1))
    then have "e820_client n S r' st' = drop (Suc i) mp"
      using lt step Suc.prems by (intro Suc.IH) simp_all
    then show ?thesis
      using head step(2) False \<open>(of_nat (Suc i) :: u32) \<noteq> 0\<close> Suc.prems(2) by (simp add: Cons_nth_drop_Suc)
  qed
qed simp

text \<open>C26: A client that repeats INT 15h, AX = E820h, from continuation 0 until the continuation comes back as 0
  reads exactly the entries of the memory map, in order and without an error, into any buffer below
  the BIOS segment.\<close>

theorem e820_enumeration:
  assumes "e820_stored S mp (mem st)" "mp \<noteq> []" "r_ebx r = 0" "length mp \<le> n"
    and "unat (DI r) + 20 \<le> 65536" "unat (MAKE_FLATPTR (r_es r) (ucast (DI r))) + 20 \<le> 0xf0000"
  shows "e820_client n S r st = mp"
  using e820_client_reads [OF assms(5,6,1), of 0 n] assms(2-4) by simp

definition demo_sys :: sys_env where
  "demo_sys = \<lparr>input = \<lparr>clk = demo_env, mouse_farcall = (\<lambda>_ _ _ _ st. st), int15_4f = (\<lambda>key st. (True, key, st)),
       usb_poll_intr = (\<lambda>_ st. (None, st)), pipes = \<lparr>keyboard_pipe = 1, mouse_pipe = 1\<rparr>,
       entry_09 = 0xe987, entry_74 = 0xf000\<rparr>,
     apm = \<lparr>entry_apm16 = 0xd000, entry_apm32 = 0xd100\<rparr>,
     vga = \<lparr>VGAHookHandlerType = 0, ViaFBsize = 0, ViaRamSpeed = 0, IntelDisplayType = 0, IntelDisplayId = 0\<rparr>,
     RamSize = 0x8000000, e820_count = 2, e820_list = 0x6000\<rparr>"

definition demo_map :: e820map where
  "demo_map = [\<lparr>e_start = 0, e_size = 0x9fc00, e_type = E820_RAM\<rparr>,
               \<lparr>e_start = 0x100000, e_size = 0x7f00000, e_type = E820_RAM\<rparr>]"

definition demo_e820 :: clock_state where
  "demo_e820 = demo_clock\<lparr>mem := wr32 0xf6010 1 (wr64 0xf6008 0x9fc00 (wr32 0xf6024 1
     (wr64 0xf601c 0x7f00000 (wr64 0xf6014 0x100000 (\<lambda>_. 0)))))\<rparr>"

definition demo_int15 :: bregs where
  "demo_int15 = \<lparr>r_ds = 0, r_es = 0x2000, r_edi = 0x100, r_esi = 0, r_ebp = 0, r_ebx = 0, r_edx = 0,
     r_ecx = 0, r_eax = 0, r_code = 0, r_flags = 0\<rparr>"

lemma demo_e820_stored: "e820_stored demo_sys demo_map (mem demo_e820)"
proof -
  have "e820_read (mem demo_e820) 0xf6000 = demo_map ! 0" "e820_read (mem demo_e820) 0xf6014 = demo_map ! 1"
    by (simp_all add: e820_read_def demo_e820_def demo_map_def rd64_def rd32_def rd16_def wr64_def wr32_def
        wr16_def E820_RAM_def)
  moreover have "length demo_map = 2" by (simp add: demo_map_def)
  moreover have "e820_addr demo_sys 0 = 0xf6000" "e820_addr demo_sys 1 = 0xf6014"
    "e820_count demo_sys = 2" "unat (e820_list demo_sys) = 0x6000"
    by (simp_all add: e820_addr_def demo_sys_def)
  ultimately show ?thesis by (auto simp: e820_stored_def less_2_cases_iff)
qed

theorem e820_enumeration_witness: "e820_client 10 demo_sys demo_int15 demo_e820 = demo_map"
  using e820_enumeration [OF demo_e820_stored, of demo_int15 10]
  by (simp add: demo_map_def demo_int15_def DI_def lane_x_def MAKE_FLATPTR_def)

section \<open>The block move\<close>

lemma wr64_at:
  assumes "a < 65536" "j < 65536" "j < a \<or> a + 8 \<le> j"
  shows "wr64 (g + of_nat a) v m (g + of_nat j) = m (g + of_nat j)"
proof (rule wr64_other)
  have d: "g + of_nat j - (g + of_nat a) = (of_nat j - of_nat a :: u32)" by simp
  have u: "unat (of_nat j :: u32) = j" "unat (of_nat a :: u32) = a"
    using assms(1,2) by (simp_all add: unat_of_nat_u32)
  show "8 \<le> unat (g + of_nat j - (g + of_nat a))"
  proof (cases "a \<le> j")
    case True
    then have "unat (of_nat j - of_nat a :: u32) = j - a"
      using u by (subst unat_sub) (simp_all add: word_le_nat_alt)
    then show ?thesis using assms(3) True unfolding d by linarith
  next
    case False
    then have "unat (of_nat j - of_nat a :: u32) = 4294967296 + j - a"
      using u unat_sub_wrap32 [of "of_nat j" "of_nat a"] by (simp add: word_less_nat_alt)
    then show ?thesis using assms(1) False unfolding d by linarith
  qed
qed

lemma rd64_wr64_at:
  assumes "a < 65528" "b < 65528" "b + 8 \<le> a \<or> a + 8 \<le> b"
  shows "rd64 (wr64 (g + of_nat a) v m) (g + of_nat b) = rd64 m (g + of_nat b)"
proof (rule rd_move(1) [of 8])
  fix i :: nat assume "i < 8"
  then show "wr64 (g + of_nat a) v m (g + of_nat b + of_nat i) = m (g + of_nat b + of_nat i)"
  proof -
    have "b + i < a \<or> a + 8 \<le> b + i" using assms(3) \<open>i < 8\<close> by arith
    then have "wr64 (g + of_nat a) v m (g + of_nat (b + i)) = m (g + of_nat (b + i))"
      using assms \<open>i < 8\<close> by (intro wr64_at) simp_all
    then show ?thesis by (simp add: add.assoc)
  qed
qed simp

lemma far_shift: "48 \<le> unat (a - g :: u32) \<Longrightarrow> k \<le> 40 \<Longrightarrow> 8 \<le> unat (a - (g + of_nat k))"
proof -
  assume far: "48 \<le> unat (a - g)" and k: "k \<le> 40"
  have "unat (of_nat k :: u32) = k" using k by (simp add: unat_of_nat_u32)
  then have "unat (a - g - of_nat k) = unat (a - g) - k"
    using far k by (subst unat_sub) (simp_all add: word_le_nat_alt)
  then show ?thesis using far k by (simp add: diff_diff_eq)
qed

text \<open>The table as the service fills it.\<close>

definition filled_gdt :: "u64 \<Rightarrow> u64 \<Rightarrow> u64 \<Rightarrow> u32 \<Rightarrow> memory \<Rightarrow> memory" where
  "filled_gdt gd cs ss g m = wr64 (g + 40) ss (wr64 (g + 32) cs (wr64 (g + 8) gd m))"

lemma filled_gdt_rd:
  "rd64 (filled_gdt gd cs ss g m) (g + 8) = gd" "rd64 (filled_gdt gd cs ss g m) (g + 40) = ss"
  "rd64 (filled_gdt gd cs ss g m) (g + 16) = rd64 m (g + 16)"
  "rd64 (filled_gdt gd cs ss g m) (g + 24) = rd64 m (g + 24)"
  using rd64_wr64_at [of 40 8 g] rd64_wr64_at [of 32 8 g]
    rd64_wr64_at [of 40 16 g] rd64_wr64_at [of 32 16 g] rd64_wr64_at [of 8 16 g]
    rd64_wr64_at [of 40 24 g] rd64_wr64_at [of 32 24 g] rd64_wr64_at [of 8 24 g]
  by (simp_all add: filled_gdt_def)

lemma filled_gdt_far: "48 \<le> unat (a - g) \<Longrightarrow> filled_gdt gd cs ss g m a = m a"
  using far_shift [of a g 8] far_shift [of a g 32] far_shift [of a g 40]
  by (simp add: filled_gdt_def wr64_other)

text \<open>The descriptors the service writes: the base of the table and the access byte.\<close>

lemma mask_consts: "(0xff000000 :: u64) = push_bit 24 (mask 8)" "(0x00ffffff :: u64) = mask 24"
  "(0x000f0000 :: u64) = push_bit 16 (mask 4)" "(0x0000ffff :: u64) = mask 16" "(0xffffff :: u32) = mask 24"
  by (simp_all add: mask_eq_exp_minus_1 push_bit_eq_mult)

lemma gdt_base_bits:
  "ucast (drop_bit 16 (push_bit 40 acc OR GDT_LIMIT lim OR GDT_BASE loc)) AND 0xffffff = loc AND 0xffffff"
  unfolding GDT_LIMIT_def GDT_BASE_def mask_consts
  by (rule bit_eqI) (auto simp: bit_simps)

lemma gdt_access_bits:
  "seg_access (decode_desc (push_bit 40 acc OR GDT_LIMIT lim OR GDT_BASE loc)) = ucast acc"
  unfolding GDT_LIMIT_def GDT_BASE_def mask_consts decode_desc_def Let_def segment.simps
  by (rule bit_eqI) (auto simp: bit_simps)

text \<open>Moving words is moving bytes, unless the destination starts one byte after the source.\<close>

lemma word_step:
  assumes "d = s \<or> 2 \<le> unat (d - s)"
  shows "wr16 d (rd16 m s) m = rep_movsb d s 2 m"
proof -
  have "s + 1 \<noteq> d"
  proof
    assume "s + 1 = d"
    then have "d - s = 1" by (metis add_diff_cancel_left')
    then show False using assms by auto
  qed
  moreover have "ucast (rd16 m s) = m s" "ucast (drop_bit 8 (rd16 m s)) = m (s + 1)"
    by (rule bit_eqI, auto simp: rd16_def bit_simps dest: bit_imp_le_length)+
  ultimately show ?thesis by (simp add: wr16_def numeral_2_eq_2)
qed

lemma rep_movsw_bytes:
  assumes "writable_seg (seg_access es)"
  shows "2 * (i + n) \<le> 65536 \<Longrightarrow> 2 * (i + n) \<le> unat (seg_limit ds) + 1 \<Longrightarrow> 2 * (i + n) \<le> unat (seg_limit es) + 1 \<Longrightarrow>
    seg_base es = seg_base ds \<or> 2 * n \<le> unat (seg_base es - seg_base ds) \<Longrightarrow>
    rep_movsw ds es (of_nat (2 * i)) (of_nat (2 * i)) n m =
    Some (rep_movsb (seg_base es + of_nat (2 * i)) (seg_base ds + of_nat (2 * i)) (2 * n) m)"
proof (induction n arbitrary: i m)
  case (Suc n)
  let ?x = "of_nat (2 * i) :: u16" and ?y = "of_nat (2 * i) :: u32"
  have x: "unat ?x = 2 * i"
    by (simp only: unat_of_nat) (use Suc.prems(1) in simp)
  have y: "ucast ?x = ?y" using x by (metis of_nat_unat ucast_id)
  let ?d = "seg_base es + ?y" and ?s = "seg_base ds + ?y"
  have gap: "?d = ?s \<or> 2 \<le> unat (?d - ?s)" using Suc.prems(4) by auto
  have "rep_movsw ds es ?x ?x (Suc n) m =
      rep_movsw ds es (of_nat (2 * Suc i)) (of_nat (2 * Suc i)) n (wr16 ?d (rd16 m ?s) m)"
    using Suc.prems(1-3) assms x by (simp add: y del: of_nat_mult) (simp add: add.commute)
  also have "\<dots> = Some (rep_movsb (seg_base es + of_nat (2 * Suc i)) (seg_base ds + of_nat (2 * Suc i)) (2 * n)
      (rep_movsb ?d ?s 2 m))"
    unfolding word_step [OF gap] by (rule Suc.IH) (use Suc.prems in auto)
  also have "\<dots> = Some (rep_movsb ?d ?s (2 * Suc n) m)"
    using rep_movsb_add [of ?d ?s 2 "2 * n" m] by (simp add: add_ac)
  finally show ?case .
qed simp

lemma wr8_at: "a < 65536 \<Longrightarrow> j < 65536 \<Longrightarrow> a \<noteq> j \<Longrightarrow> wr8 (g + of_nat a) v m (g + of_nat j) = m (g + of_nat j)"
proof -
  assume s: "a < 65536" "j < 65536" "a \<noteq> j"
  then have "unat (of_nat a :: u32) \<noteq> unat (of_nat j :: u32)" by (simp add: unat_of_nat_u32)
  then show ?thesis by (auto simp: wr8_def)
qed

lemma rd64_wr8_at:
  assumes "a < 65536" "b < 65528" "a < b \<or> b + 8 \<le> a"
  shows "rd64 (wr8 (g + of_nat a) v m) (g + of_nat b) = rd64 m (g + of_nat b)"
proof (rule rd_move(1) [of 8])
  fix i :: nat assume i: "i < 8"
  have "a \<noteq> b + i" using assms(3) i by arith
  then show "wr8 (g + of_nat a) v m (g + of_nat b + of_nat i) = m (g + of_nat b + of_nat i)"
    using wr8_at [of a "b + i" g v m] assms i by (simp add: add.assoc)
qed simp

lemma wr8_far: "48 \<le> unat (a - g) \<Longrightarrow> k < 48 \<Longrightarrow> wr8 (g + of_nat k) v m a = m a"
  by (auto simp: wr8_def unat_of_nat_u32)

lemma writable_readable: "writable_seg acc \<Longrightarrow> readable_seg acc"
proof -
  assume w: "writable_seg acc"
  have "acc AND 0x90 = (acc AND 0x9e) AND 0x90" "acc AND 0x0c = (acc AND 0x9e) AND 0x0c"
    by (simp_all add: and.assoc)
  then show ?thesis using w by (simp add: writable_seg_def readable_seg_def)
qed

lemma pmode_move_ok:
  fixes g :: u32 and m :: memory and count :: u16
  defines "ds \<equiv> decode_desc (rd64 m (g + 16))" and "es \<equiv> decode_desc (rd64 m (g + 24))"
    and "n \<equiv> 2 * unat count"
  assumes acc: "readable_seg (seg_access ds)" "writable_seg (seg_access es)"
      "readable_seg (seg_access (decode_desc (rd64 m (g + 40))))"
    and lim: "n \<le> 65536" "n \<le> unat (seg_limit ds) + 1" "n \<le> unat (seg_limit es) + 1"
    and gap: "seg_base es = seg_base ds \<or> n \<le> unat (seg_base es - seg_base ds)"
    and src: "\<And>k. k < n \<Longrightarrow> 48 \<le> unat (seg_base ds + of_nat k - g)"
    and dst: "\<And>i. i < 48 \<Longrightarrow> n \<le> unat (g + of_nat i - seg_base es)"
  shows "\<exists>m'. pmode_move g count m = Some m' \<and>
    (\<forall>k < n. m' (seg_base es + of_nat k) = m (seg_base ds + of_nat k)) \<and>
    (\<forall>a. n \<le> unat (a - seg_base es) \<longrightarrow> 48 \<le> unat (a - g) \<longrightarrow> m' a = m a)"
proof -
  let ?m2 = "wr8 (g + 21) (rd8 m (g + 21) OR 1) m"
  let ?m3 = "wr8 (g + 29) (rd8 ?m2 (g + 29) OR 1) ?m2"
  let ?m4 = "copied (seg_base es) (seg_base ds) n ?m3"
  let ?m5 = "wr8 (g + 45) (rd8 ?m4 (g + 45) OR 1) ?m4"
  have 1: "load_seg (g + 16) m = Some (ds, ?m2)"
    using acc(1) by (simp add: load_seg_def ds_def Let_def add.assoc)
  have "rd64 ?m2 (g + 24) = rd64 m (g + 24)" using rd64_wr8_at [of 21 24 g] by simp
  then have 2: "load_seg (g + 24) ?m2 = Some (es, ?m3)"
    using writable_readable [OF acc(2)] by (simp add: load_seg_def es_def Let_def add.assoc)
  have "rep_movsw ds es 0 0 (unat count) ?m3 = Some (rep_movsb (seg_base es) (seg_base ds) n ?m3)"
    using rep_movsw_bytes [OF acc(2), of 0 "unat count" ds ?m3] lim gap by (simp add: n_def)
  also have "rep_movsb (seg_base es) (seg_base ds) n ?m3 = ?m4"
    by (rule rep_movsb_copied) (use lim(1) gap in auto)
  finally have 3: "rep_movsw ds es 0 0 (unat count) ?m3 = Some ?m4" .
  have "rd64 ?m4 (g + 40) = rd64 ?m3 (g + 40)"
  proof (rule rd_move(1) [of 8])
    fix i :: nat assume "i < 8"
    then show "?m4 (g + 40 + of_nat i) = ?m3 (g + 40 + of_nat i)"
      using dst [of "40 + i"] by (simp add: copied_def add.assoc)
  qed simp
  also have "\<dots> = rd64 m (g + 40)" using rd64_wr8_at [of 21 40 g] rd64_wr8_at [of 29 40 g] by simp
  finally have 4: "load_seg (g + 40) ?m4 = Some (decode_desc (rd64 m (g + 40)), ?m5)"
    using acc(3) by (simp add: load_seg_def Let_def add.assoc)
  have run: "pmode_move g count m = Some ?m5" using 1 2 3 4 by (simp add: pmode_move_def)
  have "?m5 (seg_base es + of_nat k) = m (seg_base ds + of_nat k)" if k: "k < n" for k
  proof -
    have uk: "unat (of_nat k :: u32) = k" using k lim(1) by (simp add: unat_of_nat_u32)
    have "seg_base es + of_nat k \<noteq> g + 45"
    proof
      assume "seg_base es + of_nat k = g + 45"
      then have "g + 45 - seg_base es = of_nat k" by (metis add_diff_cancel_left')
      then show False using dst [of 45] uk k by simp
    qed
    then have "?m5 (seg_base es + of_nat k) = ?m3 (seg_base ds + of_nat k)"
      using uk k by (simp add: wr8_def copied_def)
    also have "\<dots> = m (seg_base ds + of_nat k)"
      using src [OF k] wr8_far [of "seg_base ds + of_nat k" g 21] wr8_far [of "seg_base ds + of_nat k" g 29] by simp
    finally show ?thesis .
  qed
  moreover have "?m5 a = m a" if "n \<le> unat (a - seg_base es)" "48 \<le> unat (a - g)" for a
    using that wr8_far [of a g 21] wr8_far [of a g 29] wr8_far [of a g 45] by (simp add: copied_def)
  ultimately show ?thesis using run by blast
qed

text \<open>The port of the A20 gate holds what was last written to it.\<close>

definition a20_latch :: "device \<Rightarrow> bool" where
  "a20_latch d \<longleftrightarrow> (\<forall>l v. d (PortOut W8 PORT_A20 v # l) W8 PORT_A20 = v)"

definition a20_port :: "clock_state \<Rightarrow> u8" where
  "a20_port st = ucast (dev st (io_log st) W8 PORT_A20)"

lemma a20_bit:
  "a AND A20_ENABLE_BIT \<noteq> 0 \<Longrightarrow> a OR A20_ENABLE_BIT = a"
  "a AND A20_ENABLE_BIT = 0 \<Longrightarrow> (a OR A20_ENABLE_BIT) AND NOT A20_ENABLE_BIT = a"
proof -
  have two: "A20_ENABLE_BIT = push_bit 1 1" by (simp add: A20_ENABLE_BIT_def push_bit_eq_mult)
  have b: "a AND A20_ENABLE_BIT = 0 \<longleftrightarrow> \<not> bit a 1"
    using and_exp_eq_0_iff_not_bit [of a 1] by (simp add: A20_ENABLE_BIT_def)
  show "a AND A20_ENABLE_BIT \<noteq> 0 \<Longrightarrow> a OR A20_ENABLE_BIT = a"
    unfolding b unfolding two by (rule bit_eqI) (auto simp: bit_simps)
  show "a AND A20_ENABLE_BIT = 0 \<Longrightarrow> (a OR A20_ENABLE_BIT) AND NOT A20_ENABLE_BIT = a"
    unfolding b unfolding two by (rule bit_eqI) (auto simp: bit_simps)
qed

lemma set_a20_restores:
  assumes "a20_latch (dev st)" "set_a20 True st = (prev, st1)"
    and "dev st2 = dev st1" "io_log st2 = io_log st1"
  shows "a20_port (snd (set_a20 prev st2)) = a20_port st"
proof -
  let ?a = "a20_port st"
  have log: "io_log st1 = PortOut W8 PORT_A20 (ucast (?a OR A20_ENABLE_BIT)) # PortIn W8 PORT_A20 (ucast ?a) # io_log st"
    and prev: "prev \<longleftrightarrow> ?a AND A20_ENABLE_BIT \<noteq> 0" and d: "dev st1 = dev st"
    using assms(2) by (auto simp: set_a20_def inb_def outb_def Let_def a20_port_def)
  have "dev st2 (io_log st2) W8 PORT_A20 = ucast (?a OR A20_ENABLE_BIT)"
    using assms(1,3,4) log d by (simp add: a20_latch_def)
  then have "snd (set_a20 prev st2) = st2\<lparr>io_log := PortOut W8 PORT_A20 (ucast ?a) #
      PortIn W8 PORT_A20 (ucast (?a OR A20_ENABLE_BIT)) # io_log st2\<rparr>"
    using a20_bit [of ?a] prev by (simp add: set_a20_def inb_def outb_def Let_def)
  then show ?thesis using assms(1,3) d by (simp add: a20_port_def a20_latch_def)
qed

lemma flat_24: "unat (MAKE_FLATPTR sg (ucast (off :: u16))) < 2 ^ 24"
proof -
  have u: "unat (ucast sg :: u32) = unat sg" "unat (ucast off :: u32) = unat off"
    using u16_bound [of sg] u16_bound [of off] by (simp_all add: unat_ucast_fit)
  have "unat (ucast sg :: u32) * unat (16 :: u32) < 2 ^ LENGTH(32)"
    unfolding u using u16_bound [of sg] by simp
  from unat_mult_lem [THEN iffD1, OF this] have m: "unat (push_bit 4 (ucast sg) :: u32) = unat sg * 16"
    using u by (simp add: push_bit_eq_mult)
  have "unat (push_bit 4 (ucast sg) + ucast off :: u32) \<le> unat sg * 16 + unat off"
    using unat_plus_simple unat_add_lem [of "push_bit 4 (ucast sg) :: u32" "ucast off"] m u u16_bound [of sg] u16_bound [of off] by simp
  then show ?thesis using u16_bound [of sg] u16_bound [of off] by (simp add: MAKE_FLATPTR_def)
qed

text \<open>C10: INT 15h, AH = 87h, with a descriptor table at ES:SI that names a readable source and a writable
  destination of at least CX words outside the table, and a destination that does not start inside
  the source, succeeds and copies the CX words; besides the destination and the table, memory is as
  before, and the A20 port is back at its value before the call.\<close>

theorem block_move:
  fixes r :: bregs and st :: clock_state
  defines "g \<equiv> MAKE_FLATPTR (r_es r) (ucast (SI r))" and "n \<equiv> 2 * unat (CX r)"
  defines "ds \<equiv> decode_desc (rd64 (mem st) (g + 16))" and "es \<equiv> decode_desc (rd64 (mem st) (g + 24))"
  assumes "a20_latch (dev st)" "table_fits (SI r) 6"
    and "readable_seg (seg_access ds)" "writable_seg (seg_access es)"
    and "n \<le> 65536" "n \<le> unat (seg_limit ds) + 1" "n \<le> unat (seg_limit es) + 1"
    and "seg_base es = seg_base ds \<or> n \<le> unat (seg_base es - seg_base ds)"
    and "\<And>k. k < n \<Longrightarrow> 48 \<le> unat (seg_base ds + of_nat k - g)"
    and "\<And>i. i < 48 \<Longrightarrow> n \<le> unat (g + of_nat i - seg_base es)"
  shows "\<exists>st'. handle_1587 S r st = Some (set_code_success r, st') \<and>
    (\<forall>k < n. mem st' (seg_base es + of_nat k) = mem st (seg_base ds + of_nat k)) \<and>
    (\<forall>a. n \<le> unat (a - seg_base es) \<longrightarrow> 48 \<le> unat (a - g) \<longrightarrow> mem st' a = mem st a) \<and>
    a20_port st' = a20_port st"
proof -
  let ?gd = "GDT_DATA OR GDT_LIMIT 47 OR GDT_BASE g"
    and ?cs = "GDT_CODE OR GDT_LIMIT (BUILD_BIOS_SIZE - 1) OR GDT_BASE BUILD_BIOS_ADDR"
    and ?ss = "GDT_DATA OR GDT_LIMIT 0x0ffff OR GDT_BASE (MAKE_FLATPTR (stack_seg (clk (input S))) 0)"
  let ?m1 = "filled_gdt ?gd ?cs ?ss g (mem st)"
  obtain prev st1 where a20: "set_a20 True st = (prev, st1)" by fastforce
  then have m: "mem st1 = mem st" "dev st1 = dev st"
    by (auto simp: set_a20_def inb_def outb_def Let_def)
  note rd = filled_gdt_rd [of ?gd ?cs ?ss g "mem st"]
  have "take_bit 24 g = g"
    using flat_24 [of "r_es r" "SI r"] unfolding g_def [symmetric]
    by (metis take_bit_nat_eq_self unsigned_take_bit_eq unsigned_word_eqI)
  then have "g AND 0xffffff = g" by (simp add: take_bit_eq_mask mask_eq_exp_minus_1)
  then have gdt: "snd (load_table (g + 8) ?m1) = g"
    using gdt_base_bits [of "0x93" 47 g] unfolding load_table_def rd32_in_rd64 rd(1)
    by (simp add: GDT_DATA_def)
  have ss: "readable_seg (seg_access (decode_desc ?ss))"
    unfolding GDT_DATA_def gdt_access_bits by (simp add: readable_seg_def)
  obtain m' where m': "pmode_move g (CX r) ?m1 = Some m'"
      "\<forall>k < n. m' (seg_base es + of_nat k) = ?m1 (seg_base ds + of_nat k)"
      "\<forall>a. n \<le> unat (a - seg_base es) \<longrightarrow> 48 \<le> unat (a - g) \<longrightarrow> m' a = ?m1 a"
    using pmode_move_ok [of ?m1 g "CX r"] assms(7-14) ss
    unfolding rd ds_def [symmetric] es_def [symmetric] n_def [symmetric] by blast
  let ?st2 = "st1\<lparr>mem := m'\<rparr>"
  have "handle_1587 S r st = Some (set_code_success r, snd (set_a20 prev ?st2))"
    using m'(1) gdt assms(6) m unfolding g_def
    by (simp add: handle_1587_def a20 set_far64_def MAKE_FLATPTR_def add_ac filled_gdt_def case_prod_beta Let_def)
  moreover have "mem (snd (set_a20 prev ?st2)) = m'"
    by (simp add: set_a20_def inb_def outb_def Let_def)
  moreover have "a20_port (snd (set_a20 prev ?st2)) = a20_port st"
    by (rule set_a20_restores [OF assms(5) a20]) simp_all
  ultimately show ?thesis using m'(2,3) filled_gdt_far assms(13) by simp
qed

text \<open>Two words from 30000h to 1 MB, with the table at 2000h:0000h.\<close>

definition demo_move :: clock_state where
  "demo_move = demo_clock\<lparr>
     mem := wr64 0x20018 0x000093100000ffff (wr64 0x20010 0x000093030000ffff (wr8 0x30001 0x5a (\<lambda>_. 0))),
     dev := (\<lambda>l _ _. case l of PortOut W8 p v # _ \<Rightarrow> if p = PORT_A20 then v else 0 | _ \<Rightarrow> 0)\<rparr>"

definition demo_move_regs :: bregs where
  "demo_move_regs = demo_int15\<lparr>r_ecx := 2\<rparr>"

lemma demo_move_desc:
  "MAKE_FLATPTR (r_es demo_move_regs) (ucast (SI demo_move_regs)) = 0x20000"
  "decode_desc (rd64 (mem demo_move) 0x20010) = \<lparr>seg_base = 0x30000, seg_limit = 0xffff, seg_access = 0x93\<rparr>"
  "decode_desc (rd64 (mem demo_move) 0x20018) = \<lparr>seg_base = 0x100000, seg_limit = 0xffff, seg_access = 0x93\<rparr>"
  "unat (CX demo_move_regs) = 2"
proof -
  have d: "decode_desc 0x000093030000ffff = \<lparr>seg_base = 0x30000, seg_limit = 0xffff, seg_access = 0x93\<rparr>"
    "decode_desc 0x000093100000ffff = \<lparr>seg_base = 0x100000, seg_limit = 0xffff, seg_access = 0x93\<rparr>"
    by code_simp+
  have "rd64 (mem demo_move) 0x20010 = 0x000093030000ffff" "rd64 (mem demo_move) 0x20018 = 0x000093100000ffff"
    using rd64_wr64_at [of 24 16 "0x20000"] by (simp_all add: demo_move_def)
  then show "decode_desc (rd64 (mem demo_move) 0x20010) = \<lparr>seg_base = 0x30000, seg_limit = 0xffff, seg_access = 0x93\<rparr>"
    "decode_desc (rd64 (mem demo_move) 0x20018) = \<lparr>seg_base = 0x100000, seg_limit = 0xffff, seg_access = 0x93\<rparr>"
    using d by simp_all
  show "MAKE_FLATPTR (r_es demo_move_regs) (ucast (SI demo_move_regs)) = 0x20000" "unat (CX demo_move_regs) = 2"
    by (simp_all add: demo_move_regs_def demo_int15_def MAKE_FLATPTR_def SI_def CX_def lane_x_def)
qed

theorem block_move_witness:
  "\<exists>st'. handle_1587 demo_sys demo_move_regs demo_move = Some (set_code_success demo_move_regs, st') \<and>
    mem st' 0x100001 = 0x5a \<and> a20_port st' = 0"
proof -
  have latch: "a20_latch (dev demo_move)" by (simp add: a20_latch_def demo_move_def)
  have fits: "table_fits (SI demo_move_regs) 6"
    by (simp add: table_fits_def demo_move_regs_def demo_int15_def SI_def lane_x_def)
  have far: "48 \<le> unat (0x10000 + of_nat k :: u32)" if "k < 4" for k
    using that unat_of_nat_u32 [of "0x10000 + k"] by simp
  have far2: "4 \<le> unat (of_nat i - 0xe0000 :: u32)" if "i < 48" for i
    using that unat_sub_wrap32 [of "of_nat i" "0xe0000"] by (simp add: unat_of_nat_u32 word_less_nat_alt)
  have src: "mem demo_move 0x30001 = 0x5a"
    using wr64_other [of "0x30001" "0x20018"] wr64_other [of "0x30001" "0x20010"]
    by (simp add: demo_move_def wr8_def)
  have "a20_port demo_move = 0" by (simp add: a20_port_def demo_move_def demo_clock_def)
  then show ?thesis
    using block_move [of demo_move demo_move_regs demo_sys, OF latch fits] far far2 src
    unfolding demo_move_desc
    by (auto simp: demo_move_desc readable_seg_def writable_seg_def dest: spec [of _ "1 :: nat"])
qed

section \<open>Memory sizes\<close>

lemma div_u16:
  assumes "b \<le> a" "0 < unat d" "(unat a - unat b) div unat d < 65536"
  shows "unat (ucast ((a - b) div d :: u32) :: u16) = (unat a - unat b) div unat d"
proof -
  have "unat ((a - b) div d) = (unat a - unat b) div unat d"
    using assms(1) by (simp add: unat_div unat_sub)
  then show ?thesis using assms(3) by (subst unat_ucast_fit) simp_all
qed

text \<open>With at least 1 MB of RAM, INT 15h, AX = E801h reports in CX the kilobytes between 1 MB and 16 MB and in
  DX the 64 kB blocks above: together with the first megabyte never more than the RAM, and less than
  one unit missing; AX and BX are copies. AH = 88h reports no more than that either, and the exact
  number of kilobytes above 1 MB up to 64 MB.\<close>

theorem memory_sizes:
  fixes S :: sys_env
  defines "rs \<equiv> unat (RamSize S)"
  assumes "0x100000 \<le> rs" "handle_15e801 S r st = (r1, st1)" "handle_1588 S r st = (r2, st2)"
  shows "(let e801 = 0x100000 + unat (CX r1) * 1024 + unat (DX r1) * 65536 in
      e801 \<le> rs \<and> rs < e801 + (if rs \<le> 0x1000000 then 1024 else 65536) \<and>
      AX r1 = CX r1 \<and> BX r1 = DX r1 \<and> \<not> carry r1) \<and>
    0x100000 + unat (AX r2) * 1024 \<le> rs \<and> (rs \<le> 0x4000000 \<longrightarrow> rs < 0x100000 + unat (AX r2) * 1024 + 1024) \<and>
    \<not> carry r2"
proof -
  let ?r = "RamSize S"
  have bound: "rs < 4294967296" unfolding rs_def by (rule u32_bound)
  have low: "(0x100000 :: u32) \<le> ?r" using assms(2) by (simp add: rs_def word_le_nat_alt)
  have put: "lane_x (put_x w e) = w" for w e by simp
  have 88: "unat (AX r2) = (if rs > 0x4000000 then 64512 else (rs - 0x100000) div 1024)" "\<not> carry r2"
    using assms(4) low div_u16 [of "0x100000" ?r 1024]
    by (auto simp: handle_1588_def Let_def set_success_def AX_def set_ax_def rs_def word_less_nat_alt)
  have cx: "unat (CX r1) = (if rs > 0x1000000 then 15360 else (rs - 0x100000) div 1024)"
    and dx: "unat (DX r1) = (if rs > 0x1000000 then (rs - 0x1000000) div 65536 else 0)"
    and copies: "AX r1 = CX r1" "BX r1 = DX r1" "\<not> carry r1"
    using assms(3) low bound div_u16 [of "0x100000" ?r 1024] div_u16 [of "0x1000000" ?r "0x10000"]
    by (auto simp: handle_15e801_def Let_def set_success_def lane_defs set_lane_defs rs_def word_less_nat_alt
        word_le_nat_alt)
  show ?thesis
    unfolding Let_def using copies 88 cx dx assms(2) by auto
qed

theorem memory_sizes_witness:
  "\<exists>r st. handle_15e801 demo_sys demo_int15 demo_clock = (r, st) \<and>
    0x7ff0000 < 0x100000 + unat (CX r) * 1024 + unat (DX r) * 65536"
proof -
  obtain r1 st1 r2 st2 where h: "handle_15e801 demo_sys demo_int15 demo_clock = (r1, st1)"
      "handle_1588 demo_sys demo_int15 demo_clock = (r2, st2)" by fastforce
  have "0x100000 \<le> unat (RamSize demo_sys)" by (simp add: demo_sys_def)
  from memory_sizes [OF this h] h show ?thesis by (auto simp: demo_sys_def Let_def)
qed

end
