(* ===== verification/Floppy.thy ===== *)
theory Floppy
  imports Disk Boot Clock Pci "HOL-Library.Monad_Syntax"
begin

text \<open>
  The floppy driver of \<open>src/floppy.c\<close>: the table of floppy types, the commands to the controller
  with their DMA programming, the conversion of a block number to a track, a head and a sector, the
  requests of the block layer, the interrupt handler and the motor timeout.

  \<open>None\<close> is a wait for the controller that never ends. What runs while the driver yields (the
  interrupt handlers among it) is the parameter \<open>fl_yield\<close>; the allocator is the parameter
  \<open>malloc_fseg\<close>, whose failure is address 0. The requests work on the state of the block layer; the
  set up of the drives also on the boot list. The configuration has \<open>FLOPPY\<close> on and \<open>COREBOOT\<close> off.
\<close>

section \<open>Constants\<close>

definition FLOPPY_SIZE_CODE :: u8 where "FLOPPY_SIZE_CODE = 0x02"
definition FLOPPY_DATALEN :: u8 where "FLOPPY_DATALEN = 0xff"
definition FLOPPY_MOTOR_TICKS :: u8 where "FLOPPY_MOTOR_TICKS = 37"
definition FLOPPY_FILLBYTE :: u8 where "FLOPPY_FILLBYTE = 0xf6"
definition FLOPPY_GAPLEN :: u8 where "FLOPPY_GAPLEN = 0x1B"
definition FLOPPY_FORMAT_GAPLEN :: u8 where "FLOPPY_FORMAT_GAPLEN = 0x6c"

definition PORT_DMA_ADDR_2 :: u16 where "PORT_DMA_ADDR_2 = 0x0004"
definition PORT_DMA_CNT_2 :: u16 where "PORT_DMA_CNT_2 = 0x0005"
definition PORT_DMA1_MASK_REG :: u16 where "PORT_DMA1_MASK_REG = 0x000a"
definition PORT_DMA1_MODE_REG :: u16 where "PORT_DMA1_MODE_REG = 0x000b"
definition PORT_DMA1_CLEAR_FF_REG :: u16 where "PORT_DMA1_CLEAR_FF_REG = 0x000c"
definition PORT_DMA_PAGE_2 :: u16 where "PORT_DMA_PAGE_2 = 0x0081"
definition PORT_FD_BASE :: u16 where "PORT_FD_BASE = 0x03f0"
definition PORT_FD_DOR :: u16 where "PORT_FD_DOR = 0x03f2"
definition PORT_FD_STATUS :: u16 where "PORT_FD_STATUS = 0x03f4"
definition PORT_FD_DATA :: u16 where "PORT_FD_DATA = 0x03f5"
definition CMOS_FLOPPY_DRIVE_TYPE :: u8 where "CMOS_FLOPPY_DRIVE_TYPE = 0x10"

definition bda_floppy_recalibration_status :: u32 where "bda_floppy_recalibration_status = 0x3e"
definition bda_floppy_motor_counter :: u32 where "bda_floppy_motor_counter = 0x40"
definition bda_floppy_return_status :: u32 where "bda_floppy_return_status = 0x42"
definition bda_floppy_last_data_rate :: u32 where "bda_floppy_last_data_rate = 0x8b"
definition bda_floppy_media_state :: u32 where "bda_floppy_media_state = 0x90"
definition bda_floppy_track :: u32 where "bda_floppy_track = 0x94"
definition FRS_TIMEOUT :: u8 where "FRS_TIMEOUT = 0x80"
definition FMS_MEDIA_DRIVE_ESTABLISHED :: u8 where "FMS_MEDIA_DRIVE_ESTABLISHED = 0x10"

definition DISK_RET_EBOUNDARY :: u32 where "DISK_RET_EBOUNDARY = 0x09"
definition DISK_RET_ECONTROLLER :: u32 where "DISK_RET_ECONTROLLER = 0x20"
definition DISK_RET_ETIMEOUT :: u32 where "DISK_RET_ETIMEOUT = 0x80"
definition DISK_SECTOR_SIZE :: u32 where "DISK_SECTOR_SIZE = 512"
definition PCI_CLASS_BRIDGE_ISA :: u16 where "PCI_CLASS_BRIDGE_ISA = 0x0601"

lemmas dma_ports = PORT_DMA_ADDR_2_def PORT_DMA_CNT_2_def PORT_DMA1_MASK_REG_def
  PORT_DMA1_MODE_REG_def PORT_DMA1_CLEAR_FF_REG_def PORT_DMA_PAGE_2_def
lemmas fd_ports = PORT_FD_BASE_def PORT_FD_DOR_def PORT_FD_STATUS_def PORT_FD_DATA_def
lemmas fd_cells = bda_floppy_recalibration_status_def bda_floppy_motor_counter_def
  bda_floppy_return_status_def bda_floppy_last_data_rate_def bda_floppy_media_state_def
  bda_floppy_track_def

section \<open>Floppy types\<close>

record floppyinfo_s =
  fi_chs :: chs_s
  config_data :: u8
  media_state :: u8

definition floppy_type_row :: "u16 \<Rightarrow> u16 \<Rightarrow> u16 \<Rightarrow> u8 \<Rightarrow> u8 \<Rightarrow> floppyinfo_s" where
  "floppy_type_row h c s conf media =
     \<lparr>fi_chs = \<lparr>heads = h, cylinders = c, spt = s\<rparr>, config_data = conf, media_state = media\<rparr>"

definition FloppyInfo :: "floppyinfo_s list" where
  "FloppyInfo =
    [floppy_type_row 0 0 0 0x00 0x00,
     floppy_type_row 2 40 9 0x00 0x25,
     floppy_type_row 2 80 15 0x00 0x25,
     floppy_type_row 2 80 9 0x00 0x17,
     floppy_type_row 2 80 18 0x00 0x17,
     floppy_type_row 2 80 36 0xCC 0xD7,
     floppy_type_row 1 40 8 0x00 0x27,
     floppy_type_row 1 40 9 0x00 0x27,
     floppy_type_row 2 40 8 0x00 0x27]"

record floppy_env =
  fl_yield :: "disk_state \<Rightarrow> disk_state"
  malloc_fseg :: "disk_state \<Rightarrow> u32 \<times> disk_state"
  entry_0e :: u16

definition zero_drive :: drive_s where
  "zero_drive = \<lparr>dtype = 0, floppy_type = 0, lchs = \<lparr>heads = 0, cylinders = 0, spt = 0\<rparr>, sectors = 0,
     cntl_id = 0, removable = 0, translation = 0, blksize = 0, pchs = \<lparr>heads = 0, cylinders = 0, spt = 0\<rparr>\<rparr>"

definition init_floppy :: "floppy_env \<Rightarrow> nat \<Rightarrow> nat \<Rightarrow> disk_state \<Rightarrow> u32 \<times> disk_state" where
  "init_floppy e floppyid ftype st =
     (if ftype = 0 \<or> ftype \<ge> length FloppyInfo then (0, st)
      else case malloc_fseg e st of (drive_g, st) \<Rightarrow>
        if drive_g = 0 then (0, st)
        else (drive_g, st\<lparr>drives := (drives st)(drive_g :=
          zero_drive\<lparr>cntl_id := of_nat floppyid, dtype := DTYPE_FLOPPY, blksize := ucast DISK_SECTOR_SIZE,
            floppy_type := of_nat ftype, sectors := - 1, lchs := fi_chs (FloppyInfo ! ftype)\<rparr>)\<rparr>))"

text \<open>What the boot code needs of the rest: the path of the ISA bridge, the boot order, and whether
  the description and the boot entry could be allocated.\<close>

record floppy_boot_env =
  isa_bridge :: "pci_path option"
  fl_bootorder :: "str list"
  desc_ok :: bool
  entry_ok :: bool

definition addFloppy ::
  "floppy_env \<Rightarrow> floppy_boot_env \<Rightarrow> nat \<Rightarrow> nat \<Rightarrow> disk_state \<times> boot_state \<Rightarrow> disk_state \<times> boot_state" where
  "addFloppy e be floppyid ftype s =
     (case s of (st, bs) \<Rightarrow>
      case init_floppy e floppyid ftype st of (drive_g, st) \<Rightarrow>
        if drive_g = 0 then (st, bs)
        else
          (let desc = (if desc_ok be then Some (chars ''Floppy [drive '' @ [65 + of_nat floppyid] @ chars '']'')
                       else None);
               prio = bootprio_find_fdc_device (fl_bootorder be) (isa_bridge be) (ucast PORT_FD_BASE) (of_nat floppyid) in
           (st, boot_add_floppy (\<lambda>a. (dtype (drives st a), cntl_id (drives st a))) (entry_ok be) drive_g desc prio bs)))"

definition floppy_setup ::
  "floppy_env \<Rightarrow> floppy_boot_env \<Rightarrow> disk_state \<times> boot_state \<Rightarrow> disk_state \<times> boot_state" where
  "floppy_setup e be s =
     (case s of (st, bs) \<Rightarrow>
      case inb_cmos CMOS_FLOPPY_DRIVE_TYPE st of (type, st) \<Rightarrow>
        let s = (st, bs);
            s = (if type AND 0xf0 \<noteq> 0 then addFloppy e be 0 (unat (drop_bit 4 type)) s else s);
            s = (if type AND 0x0f \<noteq> 0 then addFloppy e be 1 (unat (type AND 0x0f)) s else s) in
        case s of (st, bs) \<Rightarrow>
          (enable_hwirq 6 (SEGOFF SEG_BIOS (entry_0e e)) (outb 0x02 PORT_DMA1_MASK_REG st), bs))"

definition floppy_image_size :: "floppyinfo_s \<Rightarrow> u32" where
  "floppy_image_size f =
     (let c = fi_chs f in ucast (cylinders c) * ucast (heads c) * ucast (spt c) * DISK_SECTOR_SIZE)"

text \<open>The result -1 is \<open>None\<close>.\<close>

definition find_floppy_type :: "u32 \<Rightarrow> nat option" where
  "find_floppy_type img = find (\<lambda>i. floppy_image_size (FloppyInfo ! i) = img) [1..<length FloppyInfo]"

section \<open>The controller\<close>

partial_function (option) wait_fd_ready :: "disk_state \<Rightarrow> disk_state option" where
  "wait_fd_ready st = (case inb PORT_FD_STATUS st of (v, st) \<Rightarrow>
     if v AND 0xc0 \<noteq> 0x80 then wait_fd_ready st else Some st)"

declare wait_fd_ready.simps [code]

definition floppy_reset_controller :: "disk_state \<Rightarrow> disk_state option" where
  "floppy_reset_controller st =
     (case inb PORT_FD_DOR st of (val8, st) \<Rightarrow>
      wait_fd_ready (outb (val8 OR 0x04) PORT_FD_DOR (outb (val8 AND NOT 0x04) PORT_FD_DOR st)))"

partial_function (option) wait_floppy_irq :: "floppy_env \<Rightarrow> disk_state \<Rightarrow> (int \<times> disk_state) option" where
  "wait_floppy_irq e st =
     (if bda8 bda_floppy_motor_counter st = 0 then Some (- 1, st)
      else
        (let v = bda8 bda_floppy_recalibration_status st in
         if v AND FRS_TIMEOUT \<noteq> 0
         then Some (0, set_bda8 bda_floppy_recalibration_status (v AND NOT FRS_TIMEOUT) st)
         else wait_floppy_irq e (fl_yield e st)))"

declare wait_floppy_irq.simps [code]

definition floppy_dor :: "u8 \<Rightarrow> u8" where
  "floppy_dor floppyid = (if floppyid \<noteq> 0 then 0x20 else 0x10) OR 0x0c OR floppyid"

definition floppy_prepare_controller :: "floppy_env \<Rightarrow> u8 \<Rightarrow> disk_state \<Rightarrow> disk_state option" where
  "floppy_prepare_controller e floppyid st =
     (let st = set_bda8 bda_floppy_recalibration_status
                 (bda8 bda_floppy_recalibration_status st AND NOT FRS_TIMEOUT) st in
      case inb PORT_FD_DOR st of (v, st) \<Rightarrow>
        let st = outb (floppy_dor floppyid) PORT_FD_DOR st;
            st = set_bda8 bda_floppy_motor_counter FLOPPY_MOTOR_TICKS st in
        do { st \<leftarrow> wait_fd_ready st;
             if v AND 0x04 = 0 then map_option snd (wait_floppy_irq e st) else Some st })"

fun send_bytes :: "u8 list \<Rightarrow> disk_state \<Rightarrow> disk_state" where
  "send_bytes [] st = st"
| "send_bytes (b # bs) st = send_bytes bs (outb b PORT_FD_DATA st)"

text \<open>The command and its length are one byte list.\<close>

definition floppy_pio :: "floppy_env \<Rightarrow> u8 list \<Rightarrow> disk_state \<Rightarrow> (int \<times> disk_state) option" where
  "floppy_pio e cmd st =
     do { st \<leftarrow> floppy_prepare_controller e (cmd ! 1 AND 1) st;
          (ret, st) \<leftarrow> wait_floppy_irq e (send_bytes cmd st);
          if ret \<noteq> 0 then do { st \<leftarrow> floppy_reset_controller st; Some (- 1, st) }
          else Some (0, st) }"

definition floppy_dma :: "u32 \<Rightarrow> u16 \<Rightarrow> u8 \<Rightarrow> disk_state \<Rightarrow> disk_state" where
  "floppy_dma ad endc mode_register st =
     (let st = outb 0x06 PORT_DMA1_MASK_REG st;
          st = outb 0x00 PORT_DMA1_CLEAR_FF_REG st;
          st = outb (ucast ad) PORT_DMA_ADDR_2 st;
          st = outb (ucast (drop_bit 8 ad)) PORT_DMA_ADDR_2 st;
          st = outb 0x00 PORT_DMA1_CLEAR_FF_REG st;
          st = outb (ucast endc) PORT_DMA_CNT_2 st;
          st = outb (ucast (drop_bit 8 endc)) PORT_DMA_CNT_2 st;
          st = outb mode_register PORT_DMA1_MODE_REG st;
          st = outb (ucast (drop_bit 16 ad)) PORT_DMA_PAGE_2 st in
      outb 0x02 PORT_DMA1_MASK_REG st)"

text \<open>The status bytes from the \<open>i\<close>-th on, which overwrite the command.\<close>

fun read_status :: "nat \<Rightarrow> nat \<Rightarrow> disk_state \<Rightarrow> u8 list \<times> disk_state" where
  "read_status i 0 st = ([], st)"
| "read_status i (Suc n) st =
     (case inb PORT_FD_DATA st of (v, st) \<Rightarrow>
      case read_status (i + 1) n (set_bda8 (bda_floppy_return_status + of_nat i) v st) of
        (vs, st) \<Rightarrow> (v # vs, st))"

definition floppy_cmd ::
  "floppy_env \<Rightarrow> disk_op_s \<Rightarrow> u16 \<Rightarrow> u8 list \<Rightarrow> disk_state \<Rightarrow> (u32 \<times> u8 list \<times> disk_state) option" where
  "floppy_cmd e dop count cmd st =
     (let ad = op_buf_fl dop;
          endc = count - 1;
          last_addr = ad + ucast endc in
      if drop_bit 16 ad \<noteq> drop_bit 16 last_addr then Some (DISK_RET_EBOUNDARY, cmd, st)
      else
        (let mode_register = (if cmd ! 0 = 0xe6 then 0x46 else 0x4a) in
         do { (ret, st) \<leftarrow> floppy_pio e cmd (floppy_dma ad endc mode_register st);
              if ret \<noteq> 0 then Some (DISK_RET_ETIMEOUT, cmd, st)
              else
                (case inb PORT_FD_STATUS st of (v, st) \<Rightarrow>
                 if v AND 0xc0 \<noteq> 0xc0 then Some (DISK_RET_ECONTROLLER, cmd, st)
                 else case read_status 0 7 st of
                   (vs, st) \<Rightarrow> Some (DISK_RET_SUCCESS, vs @ drop 7 cmd, st)) }))"

section \<open>Recalibration and media sense\<close>

definition set_diskette_current_cyl :: "u8 \<Rightarrow> u8 \<Rightarrow> disk_state \<Rightarrow> disk_state" where
  "set_diskette_current_cyl floppyid cyl st = set_bda8 (bda_floppy_track + ucast floppyid) cyl st"

definition floppy_drive_recal :: "floppy_env \<Rightarrow> u8 \<Rightarrow> disk_state \<Rightarrow> disk_state option" where
  "floppy_drive_recal e floppyid st =
     do { (ret, st) \<leftarrow> floppy_pio e [0x07, floppyid] st;
          Some (set_diskette_current_cyl floppyid 0
            (set_bda8 bda_floppy_recalibration_status
               (bda8 bda_floppy_recalibration_status st OR push_bit (unat floppyid) 1) st)) }"

definition floppy_media_sense :: "u32 \<Rightarrow> disk_state \<Rightarrow> u32 \<times> disk_state" where
  "floppy_media_sense drive_g st =
     (let d = drives st drive_g; ftype = unat (floppy_type d);
          st = set_bda8 bda_floppy_last_data_rate (config_data (FloppyInfo ! ftype)) st;
          floppyid = ucast (cntl_id d) :: u8;
          st = set_bda8 (bda_floppy_media_state + ucast floppyid) (media_state (FloppyInfo ! ftype)) st in
      (DISK_RET_SUCCESS, st))"

definition check_recal_drive :: "floppy_env \<Rightarrow> u32 \<Rightarrow> disk_state \<Rightarrow> (u32 \<times> disk_state) option" where
  "check_recal_drive e drive_g st =
     (let floppyid = ucast (cntl_id (drives st drive_g)) :: u8 in
      if bda8 bda_floppy_recalibration_status st AND push_bit (unat floppyid) 1 \<noteq> 0
         \<and> bda8 (bda_floppy_media_state + ucast floppyid) st AND FMS_MEDIA_DRIVE_ESTABLISHED \<noteq> 0
      then Some (DISK_RET_SUCCESS, st)
      else do { st \<leftarrow> floppy_drive_recal e floppyid st; Some (floppy_media_sense drive_g st) })"

section \<open>Requests\<close>

text \<open>Track, sector and head of a block.\<close>

definition lba2chs :: "disk_op_s \<Rightarrow> disk_state \<Rightarrow> u8 \<times> u8 \<times> u8" where
  "lba2chs dop st =
     (let lba = ucast (op_lba dop) :: u32;
          tmp = lba + 1;
          nlspt = spt (lchs (drives st (op_drive_g dop)));
          sector = ucast (tmp mod ucast nlspt);
          tmp = tmp div ucast nlspt;
          nlh = heads (lchs (drives st (op_drive_g dop)));
          head = ucast (tmp mod ucast nlh);
          tmp = tmp div ucast nlh in
      (ucast tmp, sector, head))"

type_synonym floppy_result = "(u32 \<times> disk_op_s \<times> disk_state) option"

definition floppy_reset :: "disk_op_s \<Rightarrow> disk_state \<Rightarrow> u32 \<times> disk_op_s \<times> disk_state" where
  "floppy_reset dop st =
     (let floppyid = ucast (cntl_id (drives st (op_drive_g dop))) :: u8 in
      (DISK_RET_SUCCESS, dop, set_diskette_current_cyl floppyid 0 st))"

definition rw_command :: "u8 \<Rightarrow> disk_op_s \<Rightarrow> disk_state \<Rightarrow> u8 list" where
  "rw_command cmd dop st =
     (case lba2chs dop st of (track, sector, head) \<Rightarrow>
      let floppyid = ucast (cntl_id (drives st (op_drive_g dop))) :: u8 in
      [cmd, push_bit 2 head OR floppyid, track, head, sector, FLOPPY_SIZE_CODE,
       sector + ucast (op_count dop) - 1, FLOPPY_GAPLEN, FLOPPY_DATALEN])"

definition floppy_fail :: "u32 \<Rightarrow> disk_op_s \<Rightarrow> disk_state \<Rightarrow> floppy_result" where
  "floppy_fail res dop st = Some (res, dop\<lparr>op_count := 0\<rparr>, st)"

definition floppy_read :: "floppy_env \<Rightarrow> disk_op_s \<Rightarrow> disk_state \<Rightarrow> floppy_result" where
  "floppy_read e dop st =
     do { (res, st) \<leftarrow> check_recal_drive e (op_drive_g dop) st;
          if res \<noteq> 0 then floppy_fail res dop st
          else case lba2chs dop st of (track, sector, head) \<Rightarrow>
            let floppyid = ucast (cntl_id (drives st (op_drive_g dop))) :: u8 in
            do { (res, data, st) \<leftarrow> floppy_cmd e dop (ucast (ucast (op_count dop) * DISK_SECTOR_SIZE))
                                      (rw_command 0xe6 dop st) st;
                 if res \<noteq> 0 then floppy_fail res dop st
                 else if data ! 0 AND 0xc0 \<noteq> 0 then floppy_fail DISK_RET_ECONTROLLER dop st
                 else Some (DISK_RET_SUCCESS, dop, set_diskette_current_cyl floppyid track st) } }"

definition floppy_write :: "floppy_env \<Rightarrow> disk_op_s \<Rightarrow> disk_state \<Rightarrow> floppy_result" where
  "floppy_write e dop st =
     do { (res, st) \<leftarrow> check_recal_drive e (op_drive_g dop) st;
          if res \<noteq> 0 then floppy_fail res dop st
          else case lba2chs dop st of (track, sector, head) \<Rightarrow>
            let floppyid = ucast (cntl_id (drives st (op_drive_g dop))) :: u8 in
            do { (res, data, st) \<leftarrow> floppy_cmd e dop (ucast (ucast (op_count dop) * DISK_SECTOR_SIZE))
                                      (rw_command 0xc5 dop st) st;
                 if res \<noteq> 0 then floppy_fail res dop st
                 else if data ! 0 AND 0xc0 \<noteq> 0 then
                   floppy_fail (if data ! 1 AND 0x02 \<noteq> 0 then DISK_RET_EWRITEPROTECT
                                else DISK_RET_ECONTROLLER) dop st
                 else Some (DISK_RET_SUCCESS, dop, set_diskette_current_cyl floppyid track st) } }"

definition floppy_verify :: "floppy_env \<Rightarrow> disk_op_s \<Rightarrow> disk_state \<Rightarrow> floppy_result" where
  "floppy_verify e dop st =
     do { (res, st) \<leftarrow> check_recal_drive e (op_drive_g dop) st;
          if res \<noteq> 0 then floppy_fail res dop st
          else case lba2chs dop st of (track, sector, head) \<Rightarrow>
            let floppyid = ucast (cntl_id (drives st (op_drive_g dop))) :: u8 in
            Some (DISK_RET_SUCCESS, dop, set_diskette_current_cyl floppyid track st) }"

definition floppy_format :: "floppy_env \<Rightarrow> disk_op_s \<Rightarrow> disk_state \<Rightarrow> floppy_result" where
  "floppy_format e dop st =
     do { (ret, st) \<leftarrow> check_recal_drive e (op_drive_g dop) st;
          if ret \<noteq> 0 then Some (ret, dop, st)
          else
            (let head = ucast (op_lba dop) :: u8;
                 floppyid = ucast (cntl_id (drives st (op_drive_g dop))) :: u8;
                 data = [0x4d, push_bit 2 head OR floppyid, FLOPPY_SIZE_CODE, ucast (op_count dop),
                         FLOPPY_FORMAT_GAPLEN, FLOPPY_FILLBYTE] in
             do { (ret, data, st) \<leftarrow> floppy_cmd e dop (op_count dop * 4) data st;
                  if ret \<noteq> 0 then Some (ret, dop, st)
                  else if data ! 0 AND 0xc0 \<noteq> 0 then
                    Some (if data ! 1 AND 0x02 \<noteq> 0 then DISK_RET_EWRITEPROTECT
                          else DISK_RET_ECONTROLLER, dop, st)
                  else Some (DISK_RET_SUCCESS, dop, set_diskette_current_cyl floppyid 0 st) }) }"

text \<open>\<open>process_floppy_op\<close>, whose name the record of drivers has for the parameter.\<close>

definition floppy_process_op :: "floppy_env \<Rightarrow> disk_op_s \<Rightarrow> disk_state \<Rightarrow> floppy_result" where
  "floppy_process_op e dop st =
     (let command = op_command dop in
      if command = CMD_RESET then Some (floppy_reset dop st)
      else if command = CMD_READ then floppy_read e dop st
      else if command = CMD_WRITE then floppy_write e dop st
      else if command = CMD_VERIFY then floppy_verify e dop st
      else if command = CMD_FORMAT then floppy_format e dop st
      else Some (DISK_RET_EPARAM, dop\<lparr>op_count := 0\<rparr>, st))"

section \<open>Interrupts\<close>

partial_function (option) wait_fd_result :: "disk_state \<Rightarrow> disk_state option" where
  "wait_fd_result st = (case inb PORT_FD_STATUS st of (v, st) \<Rightarrow>
     if v AND 0xc0 \<noteq> 0xc0 then wait_fd_result st else Some st)"

partial_function (option) drain_fd_result :: "disk_state \<Rightarrow> disk_state option" where
  "drain_fd_result st = (case inb PORT_FD_STATUS (snd (inb PORT_FD_DATA st)) of (v, st) \<Rightarrow>
     if v AND 0xc0 = 0xc0 then drain_fd_result st else Some st)"

declare wait_fd_result.simps [code] drain_fd_result.simps [code]

definition handle_0e :: "disk_state \<Rightarrow> disk_state option" where
  "handle_0e st =
     (case inb PORT_FD_STATUS st of (v, st) \<Rightarrow>
      do { st \<leftarrow> (if v AND 0xc0 \<noteq> 0xc0
                   then do { st \<leftarrow> wait_fd_result (outb 0x08 PORT_FD_DATA st); drain_fd_result st }
                   else Some st);
           Some (eoi_pic1 (set_bda8 bda_floppy_recalibration_status
             (bda8 bda_floppy_recalibration_status st OR FRS_TIMEOUT) st)) })"

text \<open>\<open>floppy_tick\<close>, whose name the parameters of the clock have.\<close>

definition floppy_motor_tick :: "'a machine_scheme \<Rightarrow> 'a machine_scheme" where
  "floppy_motor_tick st =
     (let fcount = bda8 bda_floppy_motor_counter st in
      if fcount \<noteq> 0 then
        (let fcount = fcount - 1; st = set_bda8 bda_floppy_motor_counter fcount st in
         if fcount = 0 then
           (case inb PORT_FD_DOR st of (v, st) \<Rightarrow> outb (v AND 0xcf) PORT_FD_DOR st)
         else st)
      else st)"

end
