(* ===== verification/FloppySpec.thy ===== *)
theory FloppySpec
  imports Floppy
begin

text \<open>
  What the floppy driver achieves: the conversion of a block number against the numbering of the
  INT 13h services, the memory the DMA controller reaches after it has been programmed, and the end
  of the wait for the interrupt.
\<close>

section \<open>Track, sector and head\<close>

lemma len_of_u32: "LENGTH(32) = 32"
  by simp

lemma of_nat_byte: "(of_nat (unat x) :: u8) = ucast x"
  by simp

lemma unat_chs_lba:
  assumes "unat c < 65536" "unat h < unat nlh" "0 < unat s" "unat s \<le> unat nlspt"
    and "65536 * unat nlh * unat nlspt < 2 ^ 32"
  shows "unat (chs_lba nlh nlspt c h s) = (unat c * unat nlh + unat h) * unat nlspt + unat s - 1"
    and "(unat c * unat nlh + unat h) * unat nlspt + unat s < 2 ^ 32"
proof -
  have "unat c * unat nlh + unat h < 65536 * unat nlh"
  proof -
    have "unat c * unat nlh + unat h < (unat c + 1) * unat nlh" using assms(2) by simp
    also have "\<dots> \<le> 65536 * unat nlh" using assms(1) by (intro mult_right_mono) auto
    finally show ?thesis .
  qed
  then have "(unat c * unat nlh + unat h + 1) * unat nlspt \<le> 65536 * unat nlh * unat nlspt"
    by (intro mult_right_mono) auto
  then have total: "(unat c * unat nlh + unat h) * unat nlspt + unat s < 2 ^ 32"
    using assms(4, 5) by (simp add: algebra_simps)
  then show "(unat c * unat nlh + unat h) * unat nlspt + unat s < 2 ^ 32" .
  have pos: "0 < unat nlspt" using assms(3, 4) by linarith
  let ?c = "ucast c :: u32" and ?n = "ucast nlh :: u32" and ?h = "ucast h :: u32"
    and ?p = "ucast nlspt :: u32" and ?s = "ucast s :: u32"
  have u: "unat ?c = unat c" "unat ?n = unat nlh" "unat ?h = unat h" "unat ?p = unat nlspt" "unat ?s = unat s"
    using u16_bound [of c] u16_bound [of nlh] u16_bound [of h] u16_bound [of nlspt] u16_bound [of s]
    by (simp_all add: unat_ucast_fit)
  have le: "unat c * unat nlh + unat h \<le> (unat c * unat nlh + unat h) * unat nlspt"
    using pos by simp
  have b: "unat c * unat nlh + unat h < 2 ^ 32" "unat c * unat nlh < 2 ^ 32"
    "(unat c * unat nlh + unat h) * unat nlspt < 2 ^ 32"
    using le total by linarith+
  have 1: "unat (?c * ?n) = unat c * unat nlh"
    using unat_mult_lem [THEN iffD1, of ?c ?n] b(2) by (simp only: u len_of_u32)
  have 2: "unat (?c * ?n + ?h) = unat c * unat nlh + unat h"
    using unat_add_lem [THEN iffD1, of "?c * ?n" ?h] b(1) by (simp only: u 1 len_of_u32)
  have 3: "unat ((?c * ?n + ?h) * ?p) = (unat c * unat nlh + unat h) * unat nlspt"
    using unat_mult_lem [THEN iffD1, of "?c * ?n + ?h" ?p] b(3) by (simp only: u 2 len_of_u32)
  have 4: "unat ((?c * ?n + ?h) * ?p + ?s) = (unat c * unat nlh + unat h) * unat nlspt + unat s"
    using unat_add_lem [THEN iffD1, of "(?c * ?n + ?h) * ?p" ?s] total by (simp only: u 3 len_of_u32)
  have "(?c * ?n + ?h) * ?p + ?s \<noteq> 0" using 4 assms(3) by (metis add_is_0 neq0_conv unat_0)
  then show "unat (chs_lba nlh nlspt c h s) = (unat c * unat nlh + unat h) * unat nlspt + unat s - 1"
    unfolding chs_lba_def using unat_minus_one [of "(?c * ?n + ?h) * ?p + ?s"] 4 by simp
qed

text \<open>The driver divides the number of the block plus one, so it is the sector field that wraps.\<close>

lemma lba2chs_nat:
  assumes "unat (ucast (op_lba dop) :: u32) + 1 < 2 ^ 32"
  shows "lba2chs dop st =
    (let l = unat (ucast (op_lba dop) :: u32) + 1; p = unat (spt (lchs (drives st (op_drive_g dop))));
         n = unat (heads (lchs (drives st (op_drive_g dop)))) in
     (of_nat (l div p div n), of_nat (l mod p), of_nat (l div p mod n)))"
proof -
  let ?l = "ucast (op_lba dop) + 1 :: u32"
  let ?p = "ucast (spt (lchs (drives st (op_drive_g dop)))) :: u32"
  let ?n = "ucast (heads (lchs (drives st (op_drive_g dop)))) :: u32"
  have l: "unat ?l = unat (ucast (op_lba dop) :: u32) + 1"
    using assms by (intro trans [OF unat_add_lem [THEN iffD1]]) simp_all
  have u: "unat ?p = unat (spt (lchs (drives st (op_drive_g dop))))"
    "unat ?n = unat (heads (lchs (drives st (op_drive_g dop))))"
    using u16_bound [of "spt (lchs (drives st (op_drive_g dop)))"]
      u16_bound [of "heads (lchs (drives st (op_drive_g dop)))"] by (simp_all add: unat_ucast_fit)
  show ?thesis
    by (simp only: lba2chs_def Let_def of_nat_byte [symmetric] unat_div unat_mod l u)
qed

lemma div_mod_layout:
  fixes a p s :: nat
  assumes "s \<le> p" "0 < s"
  shows "(a * p + s) div p = (if s < p then a else a + 1)" "(a * p + s) mod p = (if s < p then s else 0)"
  using assms by auto

lemma div_mod_place:
  fixes c k n :: nat
  assumes "k < n"
  shows "(c * n + k) div n = c" "(c * n + k) mod n = k"
  using assms by simp_all

text \<open>C23: A request of the INT 13h services for cylinder \<open>c\<close>, head \<open>h\<close> and sector \<open>s\<close> (counted from 1) is
  turned into a block number and back by the floppy driver. The driver recovers the same place for
  every sector of a track but the last: for the last one it asks the controller for sector 0 on the
  next head, or on the next track.\<close>

theorem floppy_chs:
  assumes "heads (lchs (drives st (op_drive_g dop))) = nlh" "spt (lchs (drives st (op_drive_g dop))) = nlspt"
    and "op_lba dop = ucast (chs_lba nlh nlspt c h s)"
    and "unat h < unat nlh" "0 < unat s" "unat s \<le> unat nlspt" "unat c < 255" "unat nlh < 256" "unat nlspt < 256"
  shows "lba2chs dop st =
    (if s < nlspt then (ucast c, ucast s, ucast h)
     else if unat h + 1 < unat nlh then (ucast c, 0, ucast h + 1)
     else (ucast c + 1, 0, 0))"
proof -
  have cap: "65536 * unat nlh * unat nlspt < 2 ^ 32"
  proof -
    have "unat nlh * unat nlspt \<le> 255 * 255" using assms(8, 9) by (intro mult_mono) auto
    then show ?thesis by simp
  qed
  note l = unat_chs_lba [OF _ assms(4-6) cap, of c]
  have small: "unat c < 65536" using assms(7) by simp
  let ?a = "unat c * unat nlh + unat h"
  have w: "unat (ucast (op_lba dop) :: u32) + 1 = ?a * unat nlspt + unat s"
  proof -
    have "(ucast (op_lba dop) :: u32) = chs_lba nlh nlspt c h s"
      unfolding assms(3) by (rule bit_eqI) (auto simp: bit_simps)
    then show ?thesis using l(1) [OF small] assms(5) by simp
  qed
  have head: "?a div unat nlh = unat c" "?a mod unat nlh = unat h"
    using assms(4) by simp_all
  note b = of_nat_byte
  have *: "lba2chs dop st =
     (of_nat ((?a * unat nlspt + unat s) div unat nlspt div unat nlh),
      of_nat ((?a * unat nlspt + unat s) mod unat nlspt),
      of_nat ((?a * unat nlspt + unat s) div unat nlspt mod unat nlh))"
    using lba2chs_nat [of dop st] l(2) [OF small] by (simp only: w assms(1, 2) Let_def)
  show ?thesis
  proof (cases "s < nlspt")
    case True
    then show ?thesis
      using div_mod_layout [OF assms(6, 5), of ?a] head
      by (simp only: * word_less_nat_alt if_True b)
  next
    case False
    then have "unat s = unat nlspt" using assms(6) by (simp add: word_less_nat_alt)
    then have q: "(?a * unat nlspt + unat s) div unat nlspt = ?a + 1" "(?a * unat nlspt + unat s) mod unat nlspt = 0"
      using assms(5) by simp_all
    show ?thesis
    proof (cases "unat h + 1 < unat nlh")
      case True
      then have "(?a + 1) div unat nlh = unat c" "(?a + 1) mod unat nlh = unat h + 1"
        using div_mod_place [OF True, of "unat c"] by (simp_all only: add.assoc)
      then show ?thesis
        using False True by (simp only: * q of_nat_add of_nat_1 b word_less_nat_alt if_False if_True) simp
    next
      case last: False
      then have e: "?a + 1 = (unat c + 1) * unat nlh" using assms(4) by simp
      have "(?a + 1) div unat nlh = unat c + 1" "(?a + 1) mod unat nlh = 0"
        unfolding e using assms(4) by simp_all
      then show ?thesis
        using False last by (simp only: * q of_nat_add of_nat_1 b word_less_nat_alt if_False) simp
    qed
  qed
qed

definition demo_disk :: disk_state where
  "demo_disk = \<lparr>mem = \<lambda>_. 0, io_log = [], dev = \<lambda>_ _ _. 0, FloppyCount = 1, CDCount = 0, IDMap = \<lambda>_. [],
     bounce_buf_fl = 0, cdemu_drive_gf = 0,
     drives = \<lambda>_. zero_drive\<lparr>dtype := DTYPE_FLOPPY, lchs := fi_chs (FloppyInfo ! 4)\<rparr>,
     atadrives = \<lambda>_. \<lparr>chan_gf = \<lparr>iobase1 = 0, iobase2 = 0, iomaster = 0, irq = 0, chanid = 0, pci_bdf = 0\<rparr>, slave = 0\<rparr>\<rparr>"

definition demo_op :: "u64 \<Rightarrow> u32 \<Rightarrow> disk_op_s" where
  "demo_op lba buf = \<lparr>op_lba = lba, op_buf_fl = buf, op_drive_g = 1, op_count = 1, op_command = CMD_READ\<rparr>"

theorem floppy_chs_witness:
  "lba2chs (demo_op (ucast (chs_lba 2 18 3 0 7)) 0) demo_disk = (3, 7, 0)
   \<and> lba2chs (demo_op (ucast (chs_lba 2 18 3 0 18)) 0) demo_disk = (3, 0, 1)"
  using floppy_chs [of demo_disk "demo_op (ucast (chs_lba 2 18 3 0 7)) 0" 2 18 3 0 7]
    floppy_chs [of demo_disk "demo_op (ucast (chs_lba 2 18 3 0 18)) 0" 2 18 3 0 18]
  by (simp add: demo_disk_def demo_op_def FloppyInfo_def floppy_type_row_def)

section \<open>The DMA controller\<close>

text \<open>
  Channel 2 of the 8237 as the ports drive it: the flip-flop that selects the byte of the 16-bit
  registers, the base address and count, the mode, the mask and the page register. The channel
  counts its address within 64 KB: the page register does not change during a transfer.
\<close>

record dma_channel =
  dma_ff :: bool
  dma_addr :: u16
  dma_cnt :: u16
  dma_page :: u8
  dma_mode :: u8
  dma_masked :: bool

definition put_half :: "bool \<Rightarrow> u8 \<Rightarrow> u16 \<Rightarrow> u16" where
  "put_half high v w = (if high then (w AND 0x00ff) OR push_bit 8 (ucast v) else (w AND 0xff00) OR ucast v)"

definition dma_out :: "u16 \<Rightarrow> u8 \<Rightarrow> dma_channel \<Rightarrow> dma_channel" where
  "dma_out p v c =
     (if p = PORT_DMA1_CLEAR_FF_REG then c\<lparr>dma_ff := False\<rparr>
      else if p = PORT_DMA_ADDR_2 then c\<lparr>dma_addr := put_half (dma_ff c) v (dma_addr c), dma_ff := \<not> dma_ff c\<rparr>
      else if p = PORT_DMA_CNT_2 then c\<lparr>dma_cnt := put_half (dma_ff c) v (dma_cnt c), dma_ff := \<not> dma_ff c\<rparr>
      else if p = PORT_DMA_PAGE_2 then c\<lparr>dma_page := v\<rparr>
      else if p = PORT_DMA1_MODE_REG then c\<lparr>dma_mode := v\<rparr>
      else if p = PORT_DMA1_MASK_REG \<and> v AND 3 = 2 then c\<lparr>dma_masked := v AND 4 \<noteq> 0\<rparr>
      else c)"

fun dma_step :: "io_event \<Rightarrow> dma_channel \<Rightarrow> dma_channel" where
  "dma_step (PortOut W8 p v) c = dma_out p (ucast v) c"
| "dma_step _ c = c"

definition dma_view :: "io_event list \<Rightarrow> dma_channel \<Rightarrow> dma_channel" where
  "dma_view log c = foldr dma_step log c"

definition dma_bytes :: "dma_channel \<Rightarrow> u32 set" where
  "dma_bytes c = {push_bit 16 (ucast (dma_page c)) + ucast (dma_addr c + i) |i. i \<le> dma_cnt c}"

lemma put_halves: "put_half True (ucast (drop_bit 8 w)) (put_half False (ucast (w :: u16)) x) = w"
  "put_half True (ucast (drop_bit 8 v)) (put_half False (ucast (v :: u32)) x) = ucast v"
proof -
  have c: "(0x00ff :: u16) = mask 8" "(0xff00 :: u16) = push_bit 8 (mask 8)"
    by (simp_all add: mask_eq_exp_minus_1 push_bit_eq_mult)
  show "put_half True (ucast (drop_bit 8 w)) (put_half False (ucast (w :: u16)) x) = w"
    unfolding put_half_def c if_True if_False
    by (rule bit_eqI) (auto simp: bit_simps dest: bit_imp_le_length)
  show "put_half True (ucast (drop_bit 8 v)) (put_half False (ucast (v :: u32)) x) = ucast v"
    unfolding put_half_def c if_True if_False
    by (rule bit_eqI) (auto simp: bit_simps dest: bit_imp_le_length)
qed

lemma byte_port: "ucast (ucast (b :: u8) :: u32) = b"
  by (rule bit_eqI) (auto simp: bit_simps dest: bit_imp_le_length)

lemma dma_programmed:
  "dma_view (io_log (floppy_dma ad endc mode st)) c0 =
     \<lparr>dma_ff = False, dma_addr = ucast ad, dma_cnt = endc, dma_page = ucast (drop_bit 16 ad),
      dma_mode = mode, dma_masked = False\<rparr>"
proof -
  have h: "put_half True (ucast (drop_bit 8 endc)) (put_half False (ucast endc) x) = endc"
    "put_half True (ucast (drop_bit 8 ad)) (put_half False (ucast ad) y) = ucast ad" for x y
    by (rule put_halves)+
  show ?thesis
    by (cases "foldr dma_step (io_log st) c0")
      (simp add: dma_view_def floppy_dma_def outb_def dma_out_def dma_ports byte_port h)
qed

lemma page_split:
  assumes "unat (ad :: u32) < 2 ^ 24"
  shows "push_bit 16 (ucast (ucast (drop_bit 16 ad) :: u8)) + ucast (ucast ad :: u16) = ad"
proof -
  have "unat (take_bit 24 ad) = unat ad"
    using assms by (simp only: unsigned_take_bit_eq take_bit_nat_eq_self)
  then have "take_bit 24 ad = ad" by (simp only: word_unat_eq_iff)
  then have bits: "bit ad n \<longleftrightarrow> n < 24 \<and> bit ad n" for n by (metis bit_take_bit_iff)
  have 1: "push_bit 16 (ucast (ucast (drop_bit 16 ad) :: u8)) = (ad AND NOT (mask 16) :: u32)"
    by (rule bit_eqI) (simp add: bit_simps, subst (2) bits, auto)
  have 2: "ucast (ucast ad :: u16) = (ad AND mask 16 :: u32)"
    by (rule bit_eqI) (auto simp: bit_simps dest: bit_imp_le_length)
  show ?thesis unfolding 1 2 using word_and_split [of ad "mask 16"] by (simp add: add.commute)
qed

lemma dma_bytes_within:
  assumes "unat ad < 2 ^ 24" "unat ad mod 65536 + unat endc < 65536"
  shows "dma_bytes \<lparr>dma_ff = f, dma_addr = ucast ad, dma_cnt = endc, dma_page = ucast (drop_bit 16 ad),
      dma_mode = m, dma_masked = k\<rparr> = {ad + of_nat i |i. i \<le> unat endc}"
proof -
  let ?g = "push_bit 16 (ucast (ucast (drop_bit 16 ad) :: u8)) :: u32"
  have lo: "unat (ucast ad :: u16) = unat ad mod 65536"
    by (simp add: unsigned_ucast_eq take_bit_eq_mod)
  have at: "?g + ucast (ucast ad + of_nat i :: u16) = ad + of_nat i" if "i \<le> unat endc" for i
  proof -
    have "(ucast (ucast ad + of_nat i :: u16) :: u32) = ucast (ucast ad :: u16) + of_nat i"
      using assms(2) that lo by (intro ucast_add_fit) simp
    then show ?thesis by (simp only: add.assoc [symmetric] page_split [OF assms(1)])
  qed
  show ?thesis
  proof (intro set_eqI iffI)
    fix x assume "x \<in> dma_bytes \<lparr>dma_ff = f, dma_addr = ucast ad, dma_cnt = endc,
      dma_page = ucast (drop_bit 16 ad), dma_mode = m, dma_masked = k\<rparr>"
    then obtain i where "i \<le> endc" "x = ?g + ucast (ucast ad + i :: u16)"
      unfolding dma_bytes_def by auto
    then show "x \<in> {ad + of_nat i |i. i \<le> unat endc}"
      using at [of "unat i"] by (intro CollectI exI [of _ "unat i"]) (simp add: word_le_nat_alt)
  next
    fix x assume "x \<in> {ad + of_nat i |i. i \<le> unat endc}"
    then obtain i where i: "i \<le> unat endc" "x = ad + of_nat i" by blast
    then have "unat (of_nat i :: u16) = i"
      using assms(2) by (simp add: unat_of_nat take_bit_nat_eq_self)
    then have "of_nat i \<le> endc" using i(1) by (simp add: word_le_nat_alt)
    moreover have "x = ?g + ucast (ucast ad + of_nat i :: u16)" using at [OF i(1)] i(2) by simp
    ultimately show "x \<in> dma_bytes \<lparr>dma_ff = f, dma_addr = ucast ad, dma_cnt = endc,
      dma_page = ucast (drop_bit 16 ad), dma_mode = m, dma_masked = k\<rparr>"
      unfolding dma_bytes_def by auto
  qed
qed

lemma same_page_iff:
  fixes ad :: u32
  assumes "unat ad < 2 ^ 24"
  shows "drop_bit 16 ad = drop_bit 16 (ad + ucast (endc :: u16)) \<longleftrightarrow> unat ad mod 65536 + unat endc < 65536"
proof -
  have e: "unat (ucast endc :: u32) = unat endc" using u16_bound [of endc] by (simp add: unat_ucast_fit)
  have sum: "unat (ad + ucast endc) = unat ad + unat endc"
    using unat_add_lem [THEN iffD1, of ad "ucast endc"] assms u16_bound [of endc] by (simp add: e)
  have page: "unat (drop_bit 16 x) = unat x div 65536" for x :: u32
    by (simp only: drop_bit_eq_div [of 16 x, simplified] unat_div) simp
  have "drop_bit 16 ad = drop_bit 16 (ad + ucast endc) \<longleftrightarrow>
      unat ad div 65536 = (unat ad + unat endc) div 65536"
    by (simp only: word_unat_eq_iff page sum)
  also have "\<dots> \<longleftrightarrow> unat ad mod 65536 + unat endc < 65536"
    using u16_bound [of endc] by (auto simp: div_add1_eq [of "unat ad"])
  finally show ?thesis .
qed

text \<open>C22: A transfer of the floppy driver reaches exactly the bytes of the caller's buffer. For a buffer
  below 16 MB and a transfer of \<open>n\<close> bytes (0 stands for 64 KB): if the buffer crosses a 64 KB boundary the
  request fails with \<open>DISK_RET_EBOUNDARY\<close> and nothing is touched; if not, the command goes to the
  controller after the DMA channel has been set to the bytes of the buffer and no others, unmasked, in
  the direction of the command.\<close>

theorem floppy_dma_exact:
  fixes n :: nat
  assumes "unat (op_buf_fl dop) < 2 ^ 24" "0 < n" "n \<le> 65536"
  shows "if unat (op_buf_fl dop) mod 65536 + n > 65536
     then floppy_cmd e dop (of_nat n) cmd st = Some (DISK_RET_EBOUNDARY, cmd, st)
     else \<exists>st1 rest. floppy_cmd e dop (of_nat n) cmd st = Option.bind (floppy_pio e cmd st1) rest
       \<and> mem st1 = mem st
       \<and> dma_bytes (dma_view (io_log st1) c0) = {op_buf_fl dop + of_nat i |i. i < n}
       \<and> \<not> dma_masked (dma_view (io_log st1) c0)
       \<and> dma_mode (dma_view (io_log st1) c0) = (if cmd ! 0 = 0xe6 then 0x46 else 0x4a)"
proof -
  let ?e = "of_nat n - 1 :: u16"
  have e: "unat ?e = n - 1"
  proof -
    have "?e = of_nat (n - 1)" using assms(2) by (simp add: of_nat_diff)
    then show ?thesis using assms(3) by (simp add: unat_of_nat take_bit_nat_eq_self)
  qed
  have i: "i \<le> n - 1 \<longleftrightarrow> i < n" for i using assms(2) by linarith
  note page = same_page_iff [OF assms(1), of ?e, unfolded e]
  show ?thesis
  proof (cases "unat (op_buf_fl dop) mod 65536 + n > 65536")
    case True
    then have "\<not> unat (op_buf_fl dop) mod 65536 + (n - 1) < 65536" by linarith
    then show ?thesis using True by (simp only: floppy_cmd_def Let_def page if_True not_False_eq_True)
  next
    case False
    let ?st = "floppy_dma (op_buf_fl dop) ?e (if cmd ! 0 = 0xe6 then 0x46 else 0x4a) st"
    have in_page: "unat (op_buf_fl dop) mod 65536 + unat ?e < 65536" using False assms(2) e by linarith
    obtain rest where "floppy_cmd e dop (of_nat n) cmd st = Option.bind (floppy_pio e cmd ?st) rest"
      using page in_page e unfolding floppy_cmd_def Let_def by auto
    moreover have "mem ?st = mem st" by (simp add: floppy_dma_def)
    moreover have "dma_bytes (dma_view (io_log ?st) c0) = {op_buf_fl dop + of_nat i |i. i < n}"
      using dma_bytes_within [OF assms(1) in_page] by (simp only: dma_programmed e i)
    moreover have "\<not> dma_masked (dma_view (io_log ?st) c0)"
      "dma_mode (dma_view (io_log ?st) c0) = (if cmd ! 0 = 0xe6 then 0x46 else 0x4a)"
      by (simp_all only: dma_programmed dma_channel.simps not_False_eq_True)
    ultimately have "\<exists>rest. floppy_cmd e dop (of_nat n) cmd st = Option.bind (floppy_pio e cmd ?st) rest
       \<and> mem ?st = mem st
       \<and> dma_bytes (dma_view (io_log ?st) c0) = {op_buf_fl dop + of_nat i |i. i < n}
       \<and> \<not> dma_masked (dma_view (io_log ?st) c0)
       \<and> dma_mode (dma_view (io_log ?st) c0) = (if cmd ! 0 = 0xe6 then 0x46 else 0x4a)" by blast
    then show ?thesis unfolding if_not_P [OF False] by blast
  qed
qed

definition demo_channel :: dma_channel where
  "demo_channel = \<lparr>dma_ff = True, dma_addr = 0xabcd, dma_cnt = 7, dma_page = 9, dma_mode = 0, dma_masked = True\<rparr>"

definition demo_floppy :: floppy_env where
  "demo_floppy = \<lparr>fl_yield = floppy_motor_tick, malloc_fseg = (\<lambda>st. (0, st)), entry_0e = 0\<rparr>"

theorem floppy_dma_exact_witness:
  "floppy_cmd demo_floppy (demo_op 0 0x1ff00) 512 [0xe6] demo_disk = Some (DISK_RET_EBOUNDARY, [0xe6], demo_disk)
   \<and> (\<exists>st1 rest. floppy_cmd demo_floppy (demo_op 0 0x1fe00) 512 [0xe6] demo_disk
        = Option.bind (floppy_pio demo_floppy [0xe6] st1) rest
      \<and> dma_bytes (dma_view (io_log st1) demo_channel) = {0x1fe00 + of_nat i |i. i < 512})"
  using floppy_dma_exact [of "demo_op 0 0x1ff00" 512 demo_floppy "[0xe6]" demo_disk demo_channel]
    floppy_dma_exact [of "demo_op 0 0x1fe00" 512 demo_floppy "[0xe6]" demo_disk demo_channel]
  by (simp add: demo_op_def) blast

section \<open>The wait for the interrupt\<close>

lemma wait_floppy_irq_step:
  assumes "bda8 bda_floppy_motor_counter st \<noteq> 0" "bda8 bda_floppy_recalibration_status st AND FRS_TIMEOUT = 0"
  shows "wait_floppy_irq e st = wait_floppy_irq e (fl_yield e st)"
  by (subst wait_floppy_irq.simps) (simp add: assms)

text \<open>The wait goes on until the counter runs out or the flag is set.\<close>

lemma wait_floppy_irq_skip:
  "(\<forall>k < n. bda8 bda_floppy_motor_counter ((fl_yield e ^^ k) st) \<noteq> 0
      \<and> bda8 bda_floppy_recalibration_status ((fl_yield e ^^ k) st) AND FRS_TIMEOUT = 0) \<Longrightarrow>
   wait_floppy_irq e st = wait_floppy_irq e ((fl_yield e ^^ n) st)"
proof (induction n)
  case (Suc n)
  then have "wait_floppy_irq e st = wait_floppy_irq e ((fl_yield e ^^ n) st)" by simp
  also have "\<dots> = wait_floppy_irq e (fl_yield e ((fl_yield e ^^ n) st))"
    using Suc.prems by (intro wait_floppy_irq_step) auto
  finally show ?case by simp
qed simp

definition irq_seen :: "int \<Rightarrow> disk_state \<Rightarrow> bool" where
  "irq_seen ret st \<longleftrightarrow>
     (if ret = 0 then bda8 bda_floppy_recalibration_status st AND FRS_TIMEOUT = 0
      else ret = - 1 \<and> bda8 bda_floppy_motor_counter st = 0)"

lemma wait_floppy_irq_stop:
  assumes "bda8 bda_floppy_motor_counter st = 0 \<or> bda8 bda_floppy_recalibration_status st AND FRS_TIMEOUT \<noteq> 0"
  shows "\<exists>ret st'. wait_floppy_irq e st = Some (ret, st') \<and> irq_seen ret st'"
proof (cases "bda8 bda_floppy_motor_counter st = 0")
  case True
  then show ?thesis by (subst wait_floppy_irq.simps) (simp add: irq_seen_def)
next
  case False
  have "(v AND NOT FRS_TIMEOUT) AND FRS_TIMEOUT = 0" for v :: u8
    by (rule bit_eqI) (auto simp: bit_simps)
  moreover have "bda8 a (set_bda8 a v st) = v" for a v by (simp add: bda8_def rd8_wr8)
  ultimately show ?thesis
    using assms False by (subst wait_floppy_irq.simps) (simp add: irq_seen_def)
qed

text \<open>The wait for the floppy interrupt always ends, whatever the interrupt handlers do meanwhile,
  as long as the motor counter keeps running down: it gives 0 when the interrupt came, with its flag
  cleared again, and -1 when the counter ran out.\<close>

theorem wait_floppy_irq_returns:
  assumes "\<And>st. bda8 bda_floppy_motor_counter st \<noteq> 0 \<Longrightarrow>
      \<exists>n. bda8 bda_floppy_motor_counter ((fl_yield e ^^ n) st) < bda8 bda_floppy_motor_counter st"
  shows "\<exists>ret st'. wait_floppy_irq e st = Some (ret, st') \<and> irq_seen ret st'"
proof (induction "unat (bda8 bda_floppy_motor_counter st)" arbitrary: st rule: less_induct)
  case less
  let ?stop = "\<lambda>st. bda8 bda_floppy_motor_counter st = 0 \<or> bda8 bda_floppy_recalibration_status st AND FRS_TIMEOUT \<noteq> 0"
  show ?case
  proof (cases "bda8 bda_floppy_motor_counter st = 0")
    case True
    then show ?thesis by (intro wait_floppy_irq_stop) simp
  next
    case False
    then obtain n where n: "bda8 bda_floppy_motor_counter ((fl_yield e ^^ n) st) < bda8 bda_floppy_motor_counter st"
      using assms by blast
    show ?thesis
    proof (cases "\<exists>k < n. ?stop ((fl_yield e ^^ k) st)")
      case True
      then obtain k where "?stop ((fl_yield e ^^ k) st)" "\<forall>j < k. \<not> ?stop ((fl_yield e ^^ j) st)"
        using exists_least_iff [of "\<lambda>k. ?stop ((fl_yield e ^^ k) st)"] by blast
      then show ?thesis
        using wait_floppy_irq_skip [of k e st] wait_floppy_irq_stop [of "(fl_yield e ^^ k) st" e] by simp
    next
      case False
      then have "wait_floppy_irq e st = wait_floppy_irq e ((fl_yield e ^^ n) st)"
        by (intro wait_floppy_irq_skip) blast
      then show ?thesis using less [of "(fl_yield e ^^ n) st"] n by (simp add: word_less_nat_alt)
    qed
  qed
qed

text \<open>The tick of the motor counter turns the motor off once, when it reaches 0.\<close>

lemma floppy_motor_tick_mem:
  "mem (floppy_motor_tick st) = wr8 (BDA bda_floppy_motor_counter)
     (bda8 bda_floppy_motor_counter st - (if bda8 bda_floppy_motor_counter st = 0 then 0 else 1)) (mem st)"
  by (auto simp: floppy_motor_tick_def Let_def inb_def bda8_def rd8_def wr8_def fun_eq_iff)

lemma floppy_motor_tick_counter:
  "bda8 bda_floppy_motor_counter (floppy_motor_tick st) =
     bda8 bda_floppy_motor_counter st - (if bda8 bda_floppy_motor_counter st = 0 then 0 else 1)"
  by (subst bda8_def) (simp add: floppy_motor_tick_mem)

theorem wait_floppy_irq_returns_witness:
  "\<exists>ret st'. wait_floppy_irq demo_floppy demo_disk = Some (ret, st') \<and> irq_seen ret st'"
proof (rule wait_floppy_irq_returns)
  fix st assume a: "bda8 bda_floppy_motor_counter (st :: disk_state) \<noteq> 0"
  then have "bda8 bda_floppy_motor_counter st - 1 < bda8 bda_floppy_motor_counter st"
    by (simp add: word_less_nat_alt unat_minus_one unat_gt_0)
  then have "bda8 bda_floppy_motor_counter ((fl_yield demo_floppy ^^ 1) st) < bda8 bda_floppy_motor_counter st"
    using a by (simp add: demo_floppy_def floppy_motor_tick_counter)
  then show "\<exists>n. bda8 bda_floppy_motor_counter ((fl_yield demo_floppy ^^ n) st) < bda8 bda_floppy_motor_counter st"
    by blast
qed

end
