(* ===== verification/Ata.thy ===== *)
theory Ata
  imports Floppy
begin

text \<open>
  The ATA driver of \<open>src/ata.c\<close>: the bounded waits for a controller, the reset, the task file, the
  transfers by port I/O and by bus-master DMA, and the read and write requests. The packet requests
  follow in \<open>Blockcmd\<close>, the detection of drives in \<open>AtaInit\<close>.

  The state adds to the one of the block layer the clock (CPU speed and reads of the time stamp
  counter), so the delays are those of \<open>Clock\<close> on that part of the state, the globals of the
  driver, the boot list, and the bulk pipes of the USB drives (used in \<open>Blockcmd\<close>). \<open>None\<close> is a wait that never ends; a wait that times out gives no status (-1 in the code). The
  argument of type \<open>atadrive_s\<close> is the structure around the drive. \<open>CONFIG_ATA_DMA\<close> and whether the code
  runs in 16-bit mode are parameters; \<open>CONFIG_ATA_PIO32\<close> is off as in \<open>src/Kconfig\<close>.
\<close>

section \<open>State and parameters\<close>

record ata_state = disk_state +
  a_khz :: u32
  a_tsc_reads :: nat
  SpinupEnd :: u64
  next_chanid :: nat
  a_boot :: boot_state
  usb_bulk :: "u32 \<Rightarrow> u32 \<times> u32"

record ata_env =
  a_clk :: clock_env
  config_ata_dma :: bool
  mode16 :: bool
  a_malloc_fseg :: "ata_state \<Rightarrow> u32 \<times> ata_state"
  id_buffer :: u32
  a_bootorder :: "str list"
  a_pci_path :: "u32 \<Rightarrow> pci_path option"
  a_desc_ok :: bool
  a_entry_ok :: bool
  entry_76 :: u16

definition clock_of :: "'a ata_state_scheme \<Rightarrow> clock_state" where
  "clock_of st = \<lparr>mem = mem st, io_log = io_log st, dev = dev st, cpu_khz = a_khz st, tsc_reads = a_tsc_reads st\<rparr>"

definition put_clock :: "clock_state \<Rightarrow> 'a ata_state_scheme \<Rightarrow> 'a ata_state_scheme" where
  "put_clock c st = st\<lparr>mem := mem c, io_log := io_log c, dev := dev c, a_khz := cpu_khz c, a_tsc_reads := tsc_reads c\<rparr>"

definition on_clock :: "(clock_state \<Rightarrow> clock_state option) \<Rightarrow> 'a ata_state_scheme \<Rightarrow> 'a ata_state_scheme option" where
  "on_clock f st = map_option (\<lambda>c. put_clock c st) (f (clock_of st))"

definition a_yield :: "ata_env \<Rightarrow> ata_state \<Rightarrow> ata_state" where
  "a_yield e st = put_clock (yield (a_clk e) (clock_of st)) st"

definition a_check_tsc :: "ata_env \<Rightarrow> u64 \<Rightarrow> ata_state \<Rightarrow> bool \<times> ata_state" where
  "a_check_tsc e endt st = (case check_tsc (a_clk e) endt (clock_of st) of (b, c) \<Rightarrow> (b, put_clock c st))"

definition a_calc_future_tsc :: "ata_env \<Rightarrow> u32 \<Rightarrow> ata_state \<Rightarrow> u64 \<times> ata_state" where
  "a_calc_future_tsc e msecs st =
     (case calc_future_tsc (a_clk e) msecs (clock_of st) of (t, c) \<Rightarrow> (t, put_clock c st))"

section \<open>Constants\<close>

definition IDE_TIMEOUT :: u32 where "IDE_TIMEOUT = 32000"

definition ATA_CB_DATA :: u16 where "ATA_CB_DATA = 0"
definition ATA_CB_ERR :: u16 where "ATA_CB_ERR = 1"
definition ATA_CB_FR :: u16 where "ATA_CB_FR = 1"
definition ATA_CB_SC :: u16 where "ATA_CB_SC = 2"
definition ATA_CB_SN :: u16 where "ATA_CB_SN = 3"
definition ATA_CB_CL :: u16 where "ATA_CB_CL = 4"
definition ATA_CB_CH :: u16 where "ATA_CB_CH = 5"
definition ATA_CB_DH :: u16 where "ATA_CB_DH = 6"
definition ATA_CB_STAT :: u16 where "ATA_CB_STAT = 7"
definition ATA_CB_CMD :: u16 where "ATA_CB_CMD = 7"
definition ATA_CB_ASTAT :: u16 where "ATA_CB_ASTAT = 2"
definition ATA_CB_STAT_BSY :: u8 where "ATA_CB_STAT_BSY = 0x80"
definition ATA_CB_STAT_RDY :: u8 where "ATA_CB_STAT_RDY = 0x40"
definition ATA_CB_STAT_DF :: u8 where "ATA_CB_STAT_DF = 0x20"
definition ATA_CB_STAT_DRQ :: u8 where "ATA_CB_STAT_DRQ = 0x08"
definition ATA_CB_STAT_ERR :: u8 where "ATA_CB_STAT_ERR = 0x01"
definition ATA_CB_DC_HD15 :: u8 where "ATA_CB_DC_HD15 = 0x08"
definition ATA_CB_DC_SRST :: u8 where "ATA_CB_DC_SRST = 0x04"
definition ATA_CB_DC_NIEN :: u8 where "ATA_CB_DC_NIEN = 0x02"

definition ATA_CMD_READ_SECTORS :: u8 where "ATA_CMD_READ_SECTORS = 0x20"
definition ATA_CMD_READ_SECTORS_EXT :: u8 where "ATA_CMD_READ_SECTORS_EXT = 0x24"
definition ATA_CMD_READ_DMA_EXT :: u8 where "ATA_CMD_READ_DMA_EXT = 0x25"
definition ATA_CMD_WRITE_SECTORS :: u8 where "ATA_CMD_WRITE_SECTORS = 0x30"
definition ATA_CMD_WRITE_SECTORS_EXT :: u8 where "ATA_CMD_WRITE_SECTORS_EXT = 0x34"
definition ATA_CMD_WRITE_DMA_EXT :: u8 where "ATA_CMD_WRITE_DMA_EXT = 0x35"
definition ATA_CMD_PACKET :: u8 where "ATA_CMD_PACKET = 0xA0"
definition ATA_CMD_IDENTIFY_PACKET_DEVICE :: u8 where "ATA_CMD_IDENTIFY_PACKET_DEVICE = 0xA1"
definition ATA_CMD_READ_DMA :: u8 where "ATA_CMD_READ_DMA = 0xC8"
definition ATA_CMD_WRITE_DMA :: u8 where "ATA_CMD_WRITE_DMA = 0xCA"
definition ATA_CMD_IDENTIFY_DEVICE :: u8 where "ATA_CMD_IDENTIFY_DEVICE = 0xEC"

definition DISK_RET_EBADTRACK :: u32 where "DISK_RET_EBADTRACK = 0x0c"
definition DISK_RET_ENOTREADY :: u32 where "DISK_RET_ENOTREADY = 0xaa"

lemmas ata_regs = ATA_CB_DATA_def ATA_CB_ERR_def ATA_CB_FR_def ATA_CB_SC_def ATA_CB_SN_def ATA_CB_CL_def
  ATA_CB_CH_def ATA_CB_DH_def ATA_CB_STAT_def ATA_CB_CMD_def ATA_CB_ASTAT_def ATA_CB_DC_def
lemmas ata_stat = ATA_CB_STAT_BSY_def ATA_CB_STAT_RDY_def ATA_CB_STAT_DF_def ATA_CB_STAT_DRQ_def
  ATA_CB_STAT_ERR_def
lemmas ata_cmds = ATA_CMD_READ_SECTORS_def ATA_CMD_READ_SECTORS_EXT_def ATA_CMD_READ_DMA_EXT_def
  ATA_CMD_WRITE_SECTORS_def ATA_CMD_WRITE_SECTORS_EXT_def ATA_CMD_WRITE_DMA_EXT_def ATA_CMD_PACKET_def
  ATA_CMD_IDENTIFY_PACKET_DEVICE_def ATA_CMD_READ_DMA_def ATA_CMD_WRITE_DMA_def ATA_CMD_IDENTIFY_DEVICE_def

section \<open>Waiting\<close>

type_synonym status_state = "(u8 option \<times> ata_state) option"
type_synonym ata_ret = "(int \<times> ata_state) option"
type_synonym ata_op_ret = "(int \<times> disk_op_s \<times> ata_state) option"

partial_function (option) await_loop ::
  "ata_env \<Rightarrow> u8 \<Rightarrow> u8 \<Rightarrow> u16 \<Rightarrow> u64 \<Rightarrow> ata_state \<Rightarrow> (u8 option \<times> ata_state) option" where
  "await_loop e msk flags base endt st =
     (case inb (base + ATA_CB_STAT) st of (status, st) \<Rightarrow>
        if status AND msk = flags then Some (Some status, st)
        else case a_check_tsc e endt st of (passed, st) \<Rightarrow>
          if passed then Some (None, st) else await_loop e msk flags base endt (a_yield e st))"

declare await_loop.simps [code]

definition await_ide :: "ata_env \<Rightarrow> u8 \<Rightarrow> u8 \<Rightarrow> u16 \<Rightarrow> u32 \<Rightarrow> ata_state \<Rightarrow> status_state" where
  "await_ide e msk flags base timeout st =
     (case a_calc_future_tsc e timeout st of (endt, st) \<Rightarrow> await_loop e msk flags base endt st)"

definition await_not_bsy :: "ata_env \<Rightarrow> u16 \<Rightarrow> ata_state \<Rightarrow> status_state" where
  "await_not_bsy e base st = await_ide e ATA_CB_STAT_BSY 0 base IDE_TIMEOUT st"

definition await_rdy :: "ata_env \<Rightarrow> u16 \<Rightarrow> ata_state \<Rightarrow> status_state" where
  "await_rdy e base st = await_ide e ATA_CB_STAT_RDY ATA_CB_STAT_RDY base IDE_TIMEOUT st"

definition pause_await_not_bsy :: "ata_env \<Rightarrow> u16 \<Rightarrow> u16 \<Rightarrow> ata_state \<Rightarrow> status_state" where
  "pause_await_not_bsy e io1 io2 st = await_not_bsy e io1 (snd (inb (io2 + ATA_CB_ASTAT) st))"

definition ndelay_await_not_bsy :: "ata_env \<Rightarrow> u16 \<Rightarrow> ata_state \<Rightarrow> status_state" where
  "ndelay_await_not_bsy e io1 st = do { st \<leftarrow> on_clock (ndelay (a_clk e) 400) st; await_not_bsy e io1 st }"

section \<open>Reset and the requests without data\<close>

text \<open>The selection of the second drive; the result tells whether it took effect.\<close>

partial_function (option) select_slave ::
  "ata_env \<Rightarrow> u16 \<Rightarrow> u64 \<Rightarrow> ata_state \<Rightarrow> (bool \<times> ata_state) option" where
  "select_slave e io1 endt st =
     do { (status, st) \<leftarrow> ndelay_await_not_bsy e io1 (outb ATA_CB_DH_DEV1 (io1 + ATA_CB_DH) st);
          if status = None then Some (False, st)
          else case inb (io1 + ATA_CB_DH) st of (dh, st) \<Rightarrow>
            if dh = ATA_CB_DH_DEV1 then Some (True, st)
            else case a_check_tsc e endt st of (passed, st) \<Rightarrow>
              if passed then Some (False, st) else select_slave e io1 endt st }"

declare select_slave.simps [code]

definition ata_reset :: "ata_env \<Rightarrow> atadrive_s \<Rightarrow> u8 \<Rightarrow> ata_state \<Rightarrow> ata_state option" where
  "ata_reset e a type st =
     (let io1 = iobase1 (chan_gf a); io2 = iobase2 (chan_gf a);
          st = outb (ATA_CB_DC_HD15 OR ATA_CB_DC_NIEN OR ATA_CB_DC_SRST) (io2 + ATA_CB_DC) st in
      do { st \<leftarrow> on_clock (udelay (a_clk e) 5) st;
           st \<leftarrow> on_clock (msleep (a_clk e) 2) (outb (ATA_CB_DC_HD15 OR ATA_CB_DC_NIEN) (io2 + ATA_CB_DC) st);
           (status, st) \<leftarrow> await_not_bsy e io1 st;
           (ok, st) \<leftarrow>
             (if status = None then Some (False, st)
              else if slave a \<noteq> 0 then
                (case a_calc_future_tsc e IDE_TIMEOUT st of (endt, st) \<Rightarrow> select_slave e io1 endt st)
              else Some (True, outb ATA_CB_DH_DEV0 (io1 + ATA_CB_DH) st));
           st \<leftarrow> (if ok \<and> type = DTYPE_ATA then map_option snd (await_rdy e io1 st) else Some st);
           Some (outb ATA_CB_DC_HD15 (io2 + ATA_CB_DC) st) })"

definition isready :: "atadrive_s \<Rightarrow> ata_state \<Rightarrow> u32 \<times> ata_state" where
  "isready a st =
     (case inb (iobase1 (chan_gf a) + ATA_CB_STAT) st of (status, st) \<Rightarrow>
        (if status AND (ATA_CB_STAT_BSY OR ATA_CB_STAT_RDY) = ATA_CB_STAT_RDY then DISK_RET_SUCCESS
         else DISK_RET_ENOTREADY, st))"

type_synonym ata_request = "(u32 \<times> disk_op_s \<times> ata_state) option"

definition process_ata_misc_op :: "ata_env \<Rightarrow> disk_op_s \<Rightarrow> ata_state \<Rightarrow> ata_request" where
  "process_ata_misc_op e dop st =
     (let a = atadrives st (op_drive_g dop); command = op_command dop in
      if command = CMD_RESET then
        do { st \<leftarrow> ata_reset e a (dtype (drives st (op_drive_g dop))) st; Some (DISK_RET_SUCCESS, dop, st) }
      else if command = CMD_ISREADY then
        (case isready a st of (ret, st) \<Rightarrow> Some (ret, dop, st))
      else if command = CMD_FORMAT \<or> command = CMD_VERIFY \<or> command = CMD_SEEK then
        Some (DISK_RET_SUCCESS, dop, st)
      else Some (DISK_RET_EPARAM, dop\<lparr>op_count := 0\<rparr>, st))"

section \<open>Sending a command\<close>

record ata_pio_command =
  feature :: u8
  sector_count :: u8
  lba_low :: u8
  lba_mid :: u8
  lba_high :: u8
  device :: u8
  command :: u8
  feature2 :: u8
  sector_count2 :: u8
  lba_low2 :: u8
  lba_mid2 :: u8
  lba_high2 :: u8

definition zero_command :: ata_pio_command where
  "zero_command = \<lparr>feature = 0, sector_count = 0, lba_low = 0, lba_mid = 0, lba_high = 0, device = 0, command = 0,
     feature2 = 0, sector_count2 = 0, lba_low2 = 0, lba_mid2 = 0, lba_high2 = 0\<rparr>"

definition is_ext :: "u8 \<Rightarrow> bool" where
  "is_ext c \<longleftrightarrow> c AND NOT 0x11 = ATA_CMD_READ_SECTORS_EXT"

definition write_taskfile :: "u16 \<Rightarrow> ata_pio_command \<Rightarrow> ata_state \<Rightarrow> ata_state" where
  "write_taskfile io1 cmd st =
     (let st = (if is_ext (command cmd) then
            (let st = outb (feature2 cmd) (io1 + ATA_CB_FR) st;
                 st = outb (sector_count2 cmd) (io1 + ATA_CB_SC) st;
                 st = outb (lba_low2 cmd) (io1 + ATA_CB_SN) st;
                 st = outb (lba_mid2 cmd) (io1 + ATA_CB_CL) st in
             outb (lba_high2 cmd) (io1 + ATA_CB_CH) st) else st);
          st = outb (feature cmd) (io1 + ATA_CB_FR) st;
          st = outb (sector_count cmd) (io1 + ATA_CB_SC) st;
          st = outb (lba_low cmd) (io1 + ATA_CB_SN) st;
          st = outb (lba_mid cmd) (io1 + ATA_CB_CL) st;
          st = outb (lba_high cmd) (io1 + ATA_CB_CH) st in
      outb (command cmd) (io1 + ATA_CB_CMD) st)"

definition send_cmd :: "ata_env \<Rightarrow> atadrive_s \<Rightarrow> ata_pio_command \<Rightarrow> ata_state \<Rightarrow> ata_ret" where
  "send_cmd e a cmd st =
     (let io1 = iobase1 (chan_gf a) in
      do { (status, st) \<leftarrow> await_not_bsy e io1 st;
           if status = None then Some (- 1, st)
           else
             (let newdh = (device cmd AND NOT ATA_CB_DH_DEV1)
                    OR (if slave a \<noteq> 0 then ATA_CB_DH_DEV1 else ATA_CB_DH_DEV0);
                  (olddh, st) = inb (io1 + ATA_CB_DH) st;
                  st = outb newdh (io1 + ATA_CB_DH) st in
              do { (status, st) \<leftarrow>
                     (if (olddh XOR newdh) AND push_bit 4 1 \<noteq> 0 then ndelay_await_not_bsy e io1 st
                      else Some (Some 0, st));
                   if status = None then Some (- 1, st)
                   else Some (0, write_taskfile io1 cmd st) }) })"

definition ata_wait_data :: "ata_env \<Rightarrow> u16 \<Rightarrow> ata_state \<Rightarrow> ata_ret" where
  "ata_wait_data e io1 st =
     do { (status, st) \<leftarrow> ndelay_await_not_bsy e io1 st;
          case status of None \<Rightarrow> Some (- 1, st)
          | Some status \<Rightarrow>
              if status AND ATA_CB_STAT_ERR \<noteq> 0 then Some (- 4, st)
              else if status AND ATA_CB_STAT_DRQ = 0 then Some (- 5, st)
              else Some (0, st) }"

definition ata_cmd_nondata :: "ata_env \<Rightarrow> atadrive_s \<Rightarrow> ata_pio_command \<Rightarrow> ata_state \<Rightarrow> ata_ret" where
  "ata_cmd_nondata e a cmd st =
     (let io1 = iobase1 (chan_gf a); io2 = iobase2 (chan_gf a) in
      do { (ret, st) \<leftarrow> send_cmd e a cmd (outb (ATA_CB_DC_HD15 OR ATA_CB_DC_NIEN) (io2 + ATA_CB_DC) st);
           (ret, st) \<leftarrow>
             (if ret \<noteq> 0 then Some (ret, st)
              else do { (status, st) \<leftarrow> ndelay_await_not_bsy e io1 st;
                        case status of None \<Rightarrow> Some (- 1, st)
                        | Some status \<Rightarrow>
                            if status AND ATA_CB_STAT_ERR \<noteq> 0 then Some (- 4, st)
                            else if status AND ATA_CB_STAT_DRQ \<noteq> 0 then Some (- 5, st)
                            else Some (int (unat status), st) });
           Some (ret, outb ATA_CB_DC_HD15 (io2 + ATA_CB_DC) st) })"

section \<open>Transfers by port I/O\<close>

text \<open>The string instructions on a flat pointer and on a segment with a 16-bit index.\<close>

fun insw :: "u16 \<Rightarrow> u32 \<Rightarrow> nat \<Rightarrow> ata_state \<Rightarrow> ata_state" where
  "insw port p 0 st = st"
| "insw port p (Suc n) st =
     (case inw port st of (v, st) \<Rightarrow> insw port (p + 2) n (st\<lparr>mem := wr16 p v (mem st)\<rparr>))"

fun insw_seg :: "u16 \<Rightarrow> u16 \<Rightarrow> u16 \<Rightarrow> nat \<Rightarrow> ata_state \<Rightarrow> ata_state" where
  "insw_seg port es di 0 st = st"
| "insw_seg port es di (Suc n) st =
     (case inw port st of (v, st) \<Rightarrow>
        insw_seg port es (di + 2) n (st\<lparr>mem := wr16 (MAKE_FLATPTR es (ucast di)) v (mem st)\<rparr>))"

fun outsw :: "u16 \<Rightarrow> u32 \<Rightarrow> nat \<Rightarrow> ata_state \<Rightarrow> ata_state" where
  "outsw port p 0 st = st"
| "outsw port p (Suc n) st = outsw port (p + 2) n (outw (rd16 (mem st) p) port st)"

fun outsw_seg :: "u16 \<Rightarrow> u16 \<Rightarrow> u16 \<Rightarrow> nat \<Rightarrow> ata_state \<Rightarrow> ata_state" where
  "outsw_seg port es si 0 st = st"
| "outsw_seg port es si (Suc n) st =
     outsw_seg port es (si + 2) n (outw (rd16 (mem st) (MAKE_FLATPTR es (ucast si))) port st)"

definition insw_fl :: "ata_env \<Rightarrow> u16 \<Rightarrow> u32 \<Rightarrow> u16 \<Rightarrow> ata_state \<Rightarrow> ata_state" where
  "insw_fl e port p count st =
     (if mode16 e then insw_seg port (ucast (FLATPTR_TO_SEG p)) (ucast (FLATPTR_TO_OFFSET p)) (unat count) st
      else insw port p (unat count) st)"

definition outsw_fl :: "ata_env \<Rightarrow> u16 \<Rightarrow> u32 \<Rightarrow> u16 \<Rightarrow> ata_state \<Rightarrow> ata_state" where
  "outsw_fl e port p count st =
     (if mode16 e then outsw_seg port (ucast (FLATPTR_TO_SEG p)) (ucast (FLATPTR_TO_OFFSET p)) (unat count) st
      else outsw port p (unat count) st)"

definition pio_end :: "bool \<Rightarrow> u8 \<Rightarrow> int" where
  "pio_end iswrite status =
     (let status = status AND (ATA_CB_STAT_BSY OR ATA_CB_STAT_DF OR ATA_CB_STAT_DRQ OR ATA_CB_STAT_ERR);
          status = (if iswrite then status else status AND NOT ATA_CB_STAT_DF) in
      if status \<noteq> 0 then - 7 else 0)"

text \<open>The loop over the blocks; \<open>count\<close> is the C \<open>int\<close> of the blocks left.\<close>

partial_function (option) pio_loop ::
  "ata_env \<Rightarrow> bool \<Rightarrow> u32 \<Rightarrow> atadrive_s \<Rightarrow> int \<Rightarrow> u32 \<Rightarrow> disk_op_s \<Rightarrow> ata_state \<Rightarrow>
   (int \<times> disk_op_s \<times> ata_state) option" where
  "pio_loop e iswrite blocksize a count buf_fl dop st =
     (let io1 = iobase1 (chan_gf a); io2 = iobase2 (chan_gf a);
          words = ucast (blocksize div 2) :: u16;
          st = (if iswrite then outsw_fl e (io1 + ATA_CB_DATA) buf_fl words st
                else insw_fl e (io1 + ATA_CB_DATA) buf_fl words st);
          buf_fl = buf_fl + blocksize in
      do { (status, st) \<leftarrow> pause_await_not_bsy e io1 io2 st;
           case status of None \<Rightarrow> Some (- 1, dop\<lparr>op_count := op_count dop - word_of_int count\<rparr>, st)
           | Some status \<Rightarrow>
               let count = count - 1 in
               if count = 0 then Some (pio_end iswrite status, dop, st)
               else if status AND (ATA_CB_STAT_BSY OR ATA_CB_STAT_DRQ OR ATA_CB_STAT_ERR) \<noteq> ATA_CB_STAT_DRQ then
                 Some (- 6, dop\<lparr>op_count := op_count dop - word_of_int count\<rparr>, st)
               else pio_loop e iswrite blocksize a count buf_fl dop st })"

declare pio_loop.simps [code]

definition ata_pio_transfer ::
  "ata_env \<Rightarrow> atadrive_s \<Rightarrow> disk_op_s \<Rightarrow> bool \<Rightarrow> u32 \<Rightarrow> ata_state \<Rightarrow> ata_op_ret" where
  "ata_pio_transfer e a dop iswrite blocksize st =
     pio_loop e iswrite blocksize a (int (unat (op_count dop))) (op_buf_fl dop) dop st"

section \<open>Transfers by DMA\<close>

definition BM_CMD :: u16 where "BM_CMD = 0"
definition BM_CMD_MEMWRITE :: u8 where "BM_CMD_MEMWRITE = 0x08"
definition BM_CMD_START :: u8 where "BM_CMD_START = 0x01"
definition BM_STATUS :: u16 where "BM_STATUS = 2"
definition BM_STATUS_IRQ :: u8 where "BM_STATUS_IRQ = 0x04"
definition BM_STATUS_ERROR :: u8 where "BM_STATUS_ERROR = 0x02"
definition BM_STATUS_ACTIVE :: u8 where "BM_STATUS_ACTIVE = 0x01"
definition BM_TABLE :: u16 where "BM_TABLE = 4"
definition ebda_extra_stack :: u32 where "ebda_extra_stack = 0x168"

lemmas bm_regs = BM_CMD_def BM_CMD_MEMWRITE_def BM_CMD_START_def BM_STATUS_def BM_STATUS_IRQ_def
  BM_STATUS_ERROR_def BM_STATUS_ACTIVE_def BM_TABLE_def

text \<open>The list of descriptors; the result tells whether sixteen were enough.\<close>

function build_prd :: "nat \<Rightarrow> u32 \<Rightarrow> u32 \<Rightarrow> u32 \<Rightarrow> memory \<Rightarrow> bool \<times> memory" where
  "build_prd i dma dest bytes m =
     (if bytes = 0 then (True, m)
      else if i \<ge> 16 then (False, m)
      else
        (let max = 0x10000 - (dest AND 0xffff);
             count = (if bytes > max then max else bytes);
             m = wr32 dma dest m;
             bytes = bytes - count;
             count = (if bytes = 0 then count OR push_bit 31 1 else count) in
         build_prd (i + 1) (dma + 8) (dest + count) bytes (wr32 (dma + 4) count m)))"
  by pat_completeness auto
termination by (relation "measure (\<lambda>(i, _). 16 - i)") auto

declare build_prd.simps [simp del]

definition ata_try_dma :: "ata_env \<Rightarrow> disk_op_s \<Rightarrow> bool \<Rightarrow> u32 \<Rightarrow> ata_state \<Rightarrow> bool \<times> ata_state" where
  "ata_try_dma e dop iswrite blocksize st =
     (let dest = op_buf_fl dop; master = iomaster (chan_gf (atadrives st (op_drive_g dop)));
          bytes = ucast (op_count dop) * blocksize in
      if \<not> config_ata_dma e \<or> dest AND 1 \<noteq> 0 \<or> master = 0 \<or> bytes = 0 then (False, st)
      else
        (let dma = MAKE_FLATPTR (get_ebda_seg st) ebda_extra_stack in
         case build_prd 0 dma dest bytes (mem st) of (ok, m) \<Rightarrow>
           let st = st\<lparr>mem := m\<rparr> in
           if \<not> ok then (False, st)
           else
             (let st = outl dma (master + BM_TABLE) st;
                  (c, st) = inb (master + BM_CMD) st;
                  oldcmd = c AND NOT (BM_CMD_MEMWRITE OR BM_CMD_START);
                  st = outb (oldcmd OR (if iswrite then 0x00 else BM_CMD_MEMWRITE)) (master + BM_CMD) st in
              (True, outb (BM_STATUS_ERROR OR BM_STATUS_IRQ) (master + BM_STATUS) st))))"

partial_function (option) dma_wait ::
  "ata_env \<Rightarrow> u16 \<Rightarrow> u64 \<Rightarrow> ata_state \<Rightarrow> (u8 \<times> ata_state) option" where
  "dma_wait e master endt st =
     (case inb (master + BM_STATUS) st of (status, st) \<Rightarrow>
        if status AND BM_STATUS_IRQ \<noteq> 0 then Some (status, st)
        else case a_check_tsc e endt st of (passed, st) \<Rightarrow>
          if passed then Some (status, st) else dma_wait e master endt (a_yield e st))"

declare dma_wait.simps [code]

definition ata_dma_transfer :: "ata_env \<Rightarrow> disk_op_s \<Rightarrow> ata_state \<Rightarrow> ata_op_ret" where
  "ata_dma_transfer e dop st =
     (if \<not> config_ata_dma e then Some (- 1, dop, st)
      else
        (let a = atadrives st (op_drive_g dop); master = iomaster (chan_gf a);
             (oldcmd, st) = inb (master + BM_CMD) st;
             st = outb (oldcmd OR BM_CMD_START) (master + BM_CMD) st;
             (endt, st) = a_calc_future_tsc e IDE_TIMEOUT st in
         do { (status, st) \<leftarrow> dma_wait e master endt st;
              (idestatus, st) \<leftarrow> pause_await_not_bsy e (iobase1 (chan_gf a)) (iobase2 (chan_gf a))
                 (outb (oldcmd AND NOT BM_CMD_START) (master + BM_CMD) st);
              if status AND (BM_STATUS_IRQ OR BM_STATUS_ACTIVE) = BM_STATUS_IRQ
                 \<and> (case idestatus of None \<Rightarrow> False
                    | Some s \<Rightarrow> s AND (ATA_CB_STAT_BSY OR ATA_CB_STAT_DF OR ATA_CB_STAT_DRQ OR ATA_CB_STAT_ERR) = 0)
              then Some (0, dop, st)
              else Some (- 1, dop\<lparr>op_count := 0\<rparr>, st) }))"

section \<open>Reading and writing\<close>

definition ata_pio_cmd_data ::
  "ata_env \<Rightarrow> atadrive_s \<Rightarrow> disk_op_s \<Rightarrow> bool \<Rightarrow> ata_pio_command \<Rightarrow> ata_state \<Rightarrow> ata_op_ret" where
  "ata_pio_cmd_data e a dop iswrite cmd st =
     (let io1 = iobase1 (chan_gf a); io2 = iobase2 (chan_gf a) in
      do { (ret, st) \<leftarrow> send_cmd e a cmd (outb (ATA_CB_DC_HD15 OR ATA_CB_DC_NIEN) (io2 + ATA_CB_DC) st);
           (ret, st) \<leftarrow> (if ret \<noteq> 0 then Some (ret, st) else ata_wait_data e io1 st);
           (ret, dop, st) \<leftarrow> (if ret \<noteq> 0 then Some (ret, dop, st)
                              else ata_pio_transfer e a dop iswrite DISK_SECTOR_SIZE st);
           Some (ret, dop, outb ATA_CB_DC_HD15 (io2 + ATA_CB_DC) st) })"

definition ata_dma_cmd_data :: "ata_env \<Rightarrow> disk_op_s \<Rightarrow> ata_pio_command \<Rightarrow> ata_state \<Rightarrow> ata_op_ret" where
  "ata_dma_cmd_data e dop cmd st =
     (if \<not> config_ata_dma e then Some (- 1, dop, st)
      else do { (ret, st) \<leftarrow> send_cmd e (atadrives st (op_drive_g dop)) cmd st;
                if ret \<noteq> 0 then Some (ret, dop, st) else ata_dma_transfer e dop st })"

definition rw_ata_command :: "u64 \<Rightarrow> u16 \<Rightarrow> bool \<Rightarrow> bool \<Rightarrow> ata_pio_command" where
  "rw_ata_command lba count usepio iswrite =
     (let (cmd, lba) =
            (if count \<ge> 0x100 \<or> lba + ucast count \<ge> 0x10000000 then
               (zero_command\<lparr>sector_count2 := ucast (drop_bit 8 count), lba_low2 := ucast (drop_bit 24 lba),
                  lba_mid2 := ucast (drop_bit 32 lba), lba_high2 := ucast (drop_bit 40 lba),
                  command := (if usepio
                    then (if iswrite then ATA_CMD_WRITE_SECTORS_EXT else ATA_CMD_READ_SECTORS_EXT)
                    else (if iswrite then ATA_CMD_WRITE_DMA_EXT else ATA_CMD_READ_DMA_EXT))\<rparr>,
                lba AND 0xffffff)
             else
               (zero_command\<lparr>command := (if usepio
                    then (if iswrite then ATA_CMD_WRITE_SECTORS else ATA_CMD_READ_SECTORS)
                    else (if iswrite then ATA_CMD_WRITE_DMA else ATA_CMD_READ_DMA))\<rparr>, lba)) in
      cmd\<lparr>sector_count := ucast count, lba_low := ucast lba, lba_mid := ucast (drop_bit 8 lba),
          lba_high := ucast (drop_bit 16 lba),
          device := (ucast (drop_bit 24 lba) AND 0xf) OR ATA_CB_DH_LBA\<rparr>)"

definition ata_readwrite :: "ata_env \<Rightarrow> disk_op_s \<Rightarrow> bool \<Rightarrow> ata_state \<Rightarrow> ata_request" where
  "ata_readwrite e dop iswrite st =
     (case ata_try_dma e dop iswrite DISK_SECTOR_SIZE st of (dma, st) \<Rightarrow>
      let cmd = rw_ata_command (op_lba dop) (op_count dop) (\<not> dma) iswrite in
      do { (ret, dop, st) \<leftarrow>
             (if \<not> dma then ata_pio_cmd_data e (atadrives st (op_drive_g dop)) dop iswrite cmd st
              else ata_dma_cmd_data e dop cmd st);
           Some (if ret \<noteq> 0 then DISK_RET_EBADTRACK else DISK_RET_SUCCESS, dop, st) })"

text \<open>\<open>process_ata_op\<close>, whose name the record of drivers has for the parameter.\<close>

definition ata_process_op :: "ata_env \<Rightarrow> disk_op_s \<Rightarrow> ata_state \<Rightarrow> ata_request" where
  "ata_process_op e dop st =
     (if op_command dop = CMD_READ then ata_readwrite e dop False st
      else if op_command dop = CMD_WRITE then ata_readwrite e dop True st
      else process_ata_misc_op e dop st)"

section \<open>Packet commands\<close>

definition CDROM_CDB_SIZE :: nat where "CDROM_CDB_SIZE = 12"

text \<open>The first bytes of a command block as the words written to the data register.\<close>

fun send_cdb :: "u16 \<Rightarrow> u8 list \<Rightarrow> ata_state \<Rightarrow> ata_state" where
  "send_cdb port (a # b # bs) st = send_cdb port bs (outw (ucast a OR push_bit 8 (ucast b)) port st)"
| "send_cdb port _ st = st"

definition atapi_cmd_data ::
  "ata_env \<Rightarrow> disk_op_s \<Rightarrow> u8 list \<Rightarrow> u16 \<Rightarrow> ata_state \<Rightarrow> ata_request" where
  "atapi_cmd_data e dop cdbcmd blocksize st =
     (let a = atadrives st (op_drive_g dop); io1 = iobase1 (chan_gf a); io2 = iobase2 (chan_gf a);
          cmd = zero_command\<lparr>lba_mid := ucast blocksize, lba_high := ucast (drop_bit 8 blocksize),
                             command := ATA_CMD_PACKET\<rparr> in
      do { (ret, st) \<leftarrow> send_cmd e a cmd (outb (ATA_CB_DC_HD15 OR ATA_CB_DC_NIEN) (io2 + ATA_CB_DC) st);
           (ret, st) \<leftarrow> (if ret \<noteq> 0 then Some (ret, st) else ata_wait_data e io1 st);
           (ret, dop, st) \<leftarrow>
             (if ret \<noteq> 0 then Some (ret, dop, st)
              else
                do { (status, st) \<leftarrow> pause_await_not_bsy e io1 io2
                        (send_cdb (io1 + ATA_CB_DATA) (take CDROM_CDB_SIZE cdbcmd) st);
                     case status of None \<Rightarrow> Some (- 1, dop, st)
                     | Some status \<Rightarrow>
                         if status AND ATA_CB_STAT_ERR \<noteq> 0 then
                           Some (- 2, dop, snd (inb (io1 + ATA_CB_ERR) st))
                         else if status AND ATA_CB_STAT_DRQ = 0 then Some (- 3, dop, st)
                         else ata_pio_transfer e a dop False (ucast blocksize) st });
           let st = outb ATA_CB_DC_HD15 (io2 + ATA_CB_DC) st in
           Some (if ret \<noteq> 0 then DISK_RET_EBADTRACK else DISK_RET_SUCCESS, dop, st) })"

end
