(* ===== verification/AtaSpec.thy ===== *)
theory AtaSpec
  imports Ata FloppySpec
begin

text \<open>
  What the ATA driver achieves: the memory the bus master reaches through the descriptor table, the
  blocks a drive is asked for by the task file, and the data a transfer by port I/O moves.
\<close>

section \<open>The descriptor table\<close>

text \<open>
  The table as the bus master reads it: the base and the length of each region, where a length of 0
  in 16 bits stands for 64 KB, up to the descriptor with the end mark.
\<close>

definition prd_len :: "u32 \<Rightarrow> nat" where
  "prd_len c = (if unat c mod 65536 = 0 then 65536 else unat c mod 65536)"

fun prd_regions :: "nat \<Rightarrow> memory \<Rightarrow> u32 \<Rightarrow> (u32 \<times> nat) list" where
  "prd_regions 0 m t = []"
| "prd_regions (Suc n) m t =
     (rd32 m t, prd_len (rd32 m (t + 4))) #
       (if bit (rd32 m (t + 4)) 31 then [] else prd_regions n m (t + 8))"

definition region_bytes :: "u32 \<times> nat \<Rightarrow> u32 list" where
  "region_bytes r = map (\<lambda>i. fst r + of_nat i) [0..<snd r]"

definition in_one_page :: "u32 \<times> nat \<Rightarrow> bool" where
  "in_one_page r \<longleftrightarrow> unat (fst r) mod 65536 + snd r \<le> 65536"

text \<open>The bytes outside \<open>n\<close> descriptors at \<open>t\<close>.\<close>

definition same_outside :: "u32 \<Rightarrow> nat \<Rightarrow> memory \<Rightarrow> memory \<Rightarrow> bool" where
  "same_outside t n m m' \<longleftrightarrow> (\<forall>x. n \<le> unat (x - t) \<longrightarrow> m' x = m x)"

lemma outside_word:
  assumes "n \<le> unat (x - t)" "j < n"
  shows "x \<noteq> t + of_nat j"
proof
  assume "x = t + of_nat j"
  then have "unat (x - t) \<le> j" by (simp add: unat_of_nat take_bit_eq_mod)
  then show False using assms by simp
qed

lemma wr_prd_frame:
  assumes "8 \<le> unat (x - t)"
  shows "wr32 (t + 4) c (wr32 t d m) x = m x"
proof -
  note o = outside_word [OF assms]
  have "x \<noteq> t" "x \<noteq> t + 1" "x \<noteq> t + 2" "x \<noteq> t + 3" "x \<noteq> t + 4" "x \<noteq> t + 4 + 1" "x \<noteq> t + 4 + 2" "x \<noteq> t + 4 + 3"
    using o [of 0] o [of 1] o [of 2] o [of 3] o [of 4] o [of 5] o [of 6] o [of 7] by (simp_all add: add.assoc)
  then show ?thesis by (simp add: wr32_other)
qed

lemma prd_readback:
  assumes "same_outside (t + 8) n (wr32 (t + 4) c (wr32 t d m)) m'" "n \<le> 128"
  shows "rd32 m' t = d" "rd32 m' (t + 4) = c"
proof -
  have far: "m' (t + of_nat j) = wr32 (t + 4) c (wr32 t d m) (t + of_nat j)" if "j < 8" for j
  proof -
    have "t + of_nat j - (t + 8) = - of_nat (8 - j)" using that by (simp add: of_nat_diff)
    moreover have "unat (- of_nat (8 - j) :: u32) = 2 ^ 32 - (8 - j)"
    proof -
      have "(of_nat (2 ^ 32 - (8 - j)) :: u32) = of_nat (2 ^ 32) - of_nat (8 - j)" by (rule of_nat_diff) simp
      then have "(- of_nat (8 - j) :: u32) = of_nat (2 ^ 32 - (8 - j))" by simp
      then show ?thesis using that by (simp only: unat_of_nat) (simp add: take_bit_nat_eq_self)
    qed
    ultimately have "n \<le> unat (t + of_nat j - (t + 8))" using assms(2) that by simp
    then show ?thesis using assms(1) unfolding same_outside_def by blast
  qed
  note f = far [of 0] far [of 1] far [of 2] far [of 3] far [of 4] far [of 5] far [of 6] far [of 7]
  have "rd32 m' t = rd32 (wr32 (t + 4) c (wr32 t d m)) t"
    by (rule rd32_cong) (use f in simp_all)
  also have "\<dots> = rd32 (wr32 t d m) t"
    by (rule rd32_cong) (simp_all add: wr32_other add.assoc)
  finally show "rd32 m' t = d" by simp
  have "rd32 m' (t + 4) = rd32 (wr32 (t + 4) c (wr32 t d m)) (t + 4)"
    by (rule rd32_cong) (use f in \<open>simp_all add: add.assoc\<close>)
  then show "rd32 m' (t + 4) = c" by simp
qed

lemma page_count:
  fixes dest bytes :: u32
  assumes "bytes \<noteq> 0"
  defines "mx \<equiv> 0x10000 - (dest AND 0xffff)"
  defines "count \<equiv> (if bytes > mx then mx else bytes)"
  shows "unat count = min (unat bytes) (65536 - unat dest mod 65536)" "0 < unat count" "unat count \<le> 65536"
    "unat (bytes - count) = unat bytes - unat count"
proof -
  have "dest AND 0xffff = take_bit 16 dest" by (simp add: take_bit_eq_mask mask_eq_exp_minus_1)
  then have lo: "unat (dest AND 0xffff) = unat dest mod 65536"
    by (simp only: take_bit_eq_mod unat_mod) simp
  have m: "unat mx = 65536 - unat dest mod 65536"
  proof -
    have "dest AND 0xffff \<le> 0x10000" unfolding word_le_nat_alt lo by simp
    then show ?thesis unfolding mx_def using unat_sub [of "dest AND 0xffff" "0x10000"] lo by simp
  qed
  show u: "unat count = min (unat bytes) (65536 - unat dest mod 65536)"
    unfolding count_def using m by (auto simp: word_less_nat_alt)
  then show "0 < unat count" "unat count \<le> 65536" using assms(1) by (simp_all add: unat_gt_0)
  have "count \<le> bytes" unfolding word_le_nat_alt u by simp
  then show "unat (bytes - count) = unat bytes - unat count" by (rule unat_sub)
qed

lemma end_mark:
  assumes "unat c \<le> 65536"
  shows "unat (c OR push_bit 31 1 :: u32) mod 65536 = unat c mod 65536" "bit (c OR push_bit 31 1 :: u32) 31" "\<not> bit c 31"
proof -
  have "take_bit 16 (c OR push_bit 31 1) = take_bit 16 c"
    by (rule bit_eqI) (auto simp: bit_simps)
  then have "unat (take_bit 16 (c OR push_bit 31 1)) = unat (take_bit 16 c)" by simp
  then show "unat (c OR push_bit 31 1 :: u32) mod 65536 = unat c mod 65536"
    by (simp only: take_bit_eq_mod unat_mod) simp
  show "bit (c OR push_bit 31 1 :: u32) 31" by (simp add: bit_simps)
  have "\<not> bit (unat c) 31"
    using assms by (simp add: bit_nat_iff bit_iff_odd div_eq_0_iff)
  then show "\<not> bit c 31" by (simp add: bit_unsigned_iff)
qed

lemma prd_len_count: "0 < n \<Longrightarrow> n \<le> 65536 \<Longrightarrow> unat c mod 65536 = n mod 65536 \<Longrightarrow> prd_len c = n"
  by (cases "n = 65536") (simp_all add: prd_len_def)

lemma same_outside_step:
  assumes "same_outside (t + 8) (8 * k) (wr32 (t + 4) c (wr32 t d m)) m'" "8 * Suc k \<le> 128"
  shows "same_outside t (8 * Suc k) m m'"
  unfolding same_outside_def
proof (intro allI impI)
  fix x assume x: "8 * Suc k \<le> unat (x - t)"
  have "unat (x - t - 8) = unat (x - t) - 8"
    using x by (subst unat_sub) (simp_all add: word_le_nat_alt)
  then have "8 * k \<le> unat (x - (t + 8))" using x by (simp add: diff_diff_eq)
  then have "m' x = wr32 (t + 4) c (wr32 t d m) x"
    using assms(1) unfolding same_outside_def by blast
  then show "m' x = m x" using x by (simp add: wr_prd_frame)
qed

lemma region_bytes_split:
  "n \<le> N \<Longrightarrow> region_bytes (b, n) @ region_bytes (b + of_nat n, N - n) = region_bytes (b, N)"
proof -
  assume le: "n \<le> N"
  have "[0..<N] = [0..<n] @ [n..<N]" using le upt_add_eq_append [of 0 n "N - n"] by simp
  moreover have "[n..<N] = map (\<lambda>i. i + n) [0..<N - n]" using le map_add_upt [of n "N - n"] by simp
  ultimately have "[0..<N] = [0..<n] @ map (\<lambda>i. i + n) [0..<N - n]" by simp
  then show ?thesis by (simp add: region_bytes_def add_ac)
qed

lemma build_prd_table:
  "build_prd i t dest bytes m = (True, m') \<Longrightarrow> i \<le> 16 \<Longrightarrow> unat dest + unat bytes \<le> 2 ^ 32 \<Longrightarrow>
   same_outside t (8 * (16 - i)) m m' \<and>
   (bytes \<noteq> 0 \<longrightarrow> (\<forall>r \<in> set (prd_regions (16 - i) m' t). in_one_page r) \<and>
      concat (map region_bytes (prd_regions (16 - i) m' t)) = region_bytes (dest, unat bytes))"
proof (induction i t dest bytes m rule: build_prd.induct)
  case (1 i t dest bytes m)
  show ?case
  proof (cases "bytes = 0")
    case True
    then show ?thesis using "1.prems" by (subst (asm) build_prd.simps) (simp add: same_outside_def)
  next
    case False
    have i: "i < 16" using "1.prems" False by (subst (asm) build_prd.simps) (auto split: if_splits)
    define mx where "mx = 0x10000 - (dest AND 0xffff)"
    define count where "count = (if bytes > mx then mx else bytes)"
    define rest where "rest = bytes - count"
    define c where "c = (if rest = 0 then count OR push_bit 31 1 else count)"
    let ?m = "wr32 (t + 4) c (wr32 t dest m)"
    note cnt = page_count [OF False, of dest, folded mx_def, folded count_def, folded rest_def]
    have step: "build_prd (i + 1) (t + 8) (dest + c) rest ?m = (True, m')"
    proof -
      have ni: "(16 \<le> i) = False" using i by simp
      have "build_prd i t dest bytes m = build_prd (i + 1) (t + 8) (dest + c) rest ?m"
        by (subst build_prd.simps) (simp only: Let_def mx_def count_def rest_def c_def False ni if_False)
      then show ?thesis using "1.prems"(1) by simp
    qed
    have len: "prd_len c = unat count"
      using cnt(2,3) end_mark [OF cnt(3)] by (intro prd_len_count) (simp_all add: c_def)
    have mark: "bit c 31 \<longleftrightarrow> rest = 0" using end_mark [OF cnt(3)] by (simp add: c_def)
    have page: "in_one_page (dest, unat count)" using cnt(1) by (simp add: in_one_page_def)
    have sum: "unat count + unat rest = unat bytes" using cnt(1, 4) by simp
    have n: "16 - i = Suc (16 - (i + 1))" using i by simp
    have bound: "unat (dest + c) + unat rest \<le> 2 ^ 32" if "rest \<noteq> 0"
    proof -
      have "unat dest + unat count < 2 ^ 32"
        using "1.prems"(3) sum that unat_gt_0 [of rest] by linarith
      then have "unat (dest + count) = unat dest + unat count" by (intro unat_add_lem [THEN iffD1]) simp
      then show ?thesis using that "1.prems"(3) sum by (simp add: c_def)
    qed
    have IH: "same_outside (t + 8) (8 * (16 - (i + 1))) ?m m' \<and>
       (rest \<noteq> 0 \<longrightarrow> (\<forall>r \<in> set (prd_regions (16 - (i + 1)) m' (t + 8)). in_one_page r) \<and>
         concat (map region_bytes (prd_regions (16 - (i + 1)) m' (t + 8))) = region_bytes (dest + c, unat rest))"
    proof (cases "rest = 0")
      case True
      then show ?thesis using step by (subst (asm) build_prd.simps) (simp add: same_outside_def)
    next
      case ne: False
      show ?thesis
        using "1.IH" [OF False, unfolded not_le, OF i, of mx count "wr32 t dest m" rest c]
          step bound [OF ne] i
        by (simp add: mx_def count_def rest_def c_def)
    qed
    have frame: "same_outside t (8 * (16 - i)) m m'"
      unfolding n by (rule same_outside_step [OF conjunct1 [OF IH]]) (use i in simp)
    have rd: "rd32 m' t = dest" "rd32 m' (t + 4) = c"
      by (rule prd_readback [OF conjunct1 [OF IH]], simp)+
    have regs: "prd_regions (16 - i) m' t = (dest, unat count) #
        (if rest = 0 then [] else prd_regions (16 - (i + 1)) m' (t + 8))"
      unfolding n by (simp only: prd_regions.simps rd len mark)
    show ?thesis
    proof (cases "rest = 0")
      case True
      then have "unat count = unat bytes" using sum by simp
      then show ?thesis using frame page regs True by simp
    next
      case ne: False
      have "concat (map region_bytes (prd_regions (16 - i) m' t)) = region_bytes (dest, unat bytes)"
        using IH ne regs sum region_bytes_split [of "unat count" "unat bytes" dest] cnt(4)
        by (simp add: c_def flip: rest_def)
      then show ?thesis using frame page regs IH ne by simp
    qed
  qed
qed

text \<open>C11: When the DMA set up succeeds, the descriptor table it leaves in memory makes the bus master
  reach the bytes of the caller's buffer in order, each once and no others; no region crosses a 64 KB
  boundary; nothing but the table is written; and the address of the table is given to the
  controller.\<close>

theorem ata_dma_table:
  assumes "ata_try_dma e dop iswrite 512 st = (True, st')"
    and "unat (op_buf_fl dop) + 512 * unat (op_count dop) \<le> 2 ^ 32"
    and "table = MAKE_FLATPTR (get_ebda_seg st) ebda_extra_stack"
  shows "concat (map region_bytes (prd_regions 16 (mem st') table))
       = map (\<lambda>i. op_buf_fl dop + of_nat i) [0..<512 * unat (op_count dop)]
    \<and> (\<forall>r \<in> set (prd_regions 16 (mem st') table). in_one_page r)
    \<and> same_outside table 128 (mem st) (mem st')
    \<and> PortOut W32 (iomaster (chan_gf (atadrives st (op_drive_g dop))) + BM_TABLE) table \<in> set (io_log st')"
proof -
  let ?bytes = "ucast (op_count dop) * 512 :: u32"
  have "unat (ucast (op_count dop) :: u32) * unat (512 :: u32) < 2 ^ 32"
    using u16_bound [of "op_count dop"] by (simp add: unat_ucast_fit)
  then have bytes: "unat ?bytes = 512 * unat (op_count dop)"
    using unat_mult_lem [THEN iffD1, of "ucast (op_count dop) :: u32" 512] u16_bound [of "op_count dop"]
    by (simp add: unat_ucast_fit)
  obtain m where m: "build_prd 0 table (op_buf_fl dop) ?bytes (mem st) = (True, m)" "?bytes \<noteq> 0" "mem st' = m"
    and log: "PortOut W32 (iomaster (chan_gf (atadrives st (op_drive_g dop))) + BM_TABLE) table \<in> set (io_log st')"
    using assms(1) unfolding assms(3) ata_try_dma_def
    by (auto simp: Let_def outl_def outb_def inb_def split: if_splits prod.splits)
  have "unat (op_buf_fl dop) + unat ?bytes \<le> 2 ^ 32" using assms(2) bytes by simp
  from build_prd_table [OF m(1) _ this] m(2) show ?thesis
    by (simp add: m(3) log bytes region_bytes_def)
qed

section \<open>The task file\<close>

text \<open>
  The registers of the drive as it sees the writes: sector count and block number have two levels for
  the 48-bit commands, the last byte written and the one before.
\<close>

record taskfile =
  tf_sc :: "u8 \<times> u8"
  tf_sn :: "u8 \<times> u8"
  tf_cl :: "u8 \<times> u8"
  tf_ch :: "u8 \<times> u8"
  tf_dh :: u8
  tf_cmd :: u8

definition tf_out :: "u16 \<Rightarrow> u16 \<Rightarrow> u8 \<Rightarrow> taskfile \<Rightarrow> taskfile" where
  "tf_out base p v t =
     (if p = base + 2 then t\<lparr>tf_sc := (v, fst (tf_sc t))\<rparr>
      else if p = base + 3 then t\<lparr>tf_sn := (v, fst (tf_sn t))\<rparr>
      else if p = base + 4 then t\<lparr>tf_cl := (v, fst (tf_cl t))\<rparr>
      else if p = base + 5 then t\<lparr>tf_ch := (v, fst (tf_ch t))\<rparr>
      else if p = base + 6 then t\<lparr>tf_dh := v\<rparr>
      else if p = base + 7 then t\<lparr>tf_cmd := v\<rparr>
      else t)"

fun tf_step :: "u16 \<Rightarrow> io_event \<Rightarrow> taskfile \<Rightarrow> taskfile" where
  "tf_step base (PortOut W8 p v) t = tf_out base p (ucast v) t"
| "tf_step base _ t = t"

definition tf_view :: "u16 \<Rightarrow> io_event list \<Rightarrow> taskfile \<Rightarrow> taskfile" where
  "tf_view base log t = foldr (tf_step base) log t"

definition ext_command :: "u8 \<Rightarrow> bool" where
  "ext_command c \<longleftrightarrow> c \<in> {0x24, 0x25, 0x34, 0x35}"

definition write_command :: "u8 \<Rightarrow> bool" where
  "write_command c \<longleftrightarrow> c \<in> {0x30, 0xca, 0x34, 0x35}"

text \<open>The first block and the number of blocks the drive takes from its registers.\<close>

definition dev_lba :: "taskfile \<Rightarrow> u64" where
  "dev_lba t =
     ucast (fst (tf_sn t)) OR push_bit 8 (ucast (fst (tf_cl t))) OR push_bit 16 (ucast (fst (tf_ch t)))
     OR (if ext_command (tf_cmd t)
         then push_bit 24 (ucast (snd (tf_sn t))) OR push_bit 32 (ucast (snd (tf_cl t)))
              OR push_bit 40 (ucast (snd (tf_ch t)))
         else push_bit 24 (ucast (tf_dh t AND 0xf)))"

definition dev_count :: "taskfile \<Rightarrow> nat" where
  "dev_count t =
     (if ext_command (tf_cmd t)
      then (let n = unat (fst (tf_sc t)) + 256 * unat (snd (tf_sc t)) in if n = 0 then 65536 else n)
      else (let n = unat (fst (tf_sc t)) in if n = 0 then 256 else n))"

text \<open>What other threads do leaves the registers of this channel alone.\<close>

definition tf_quiet :: "ata_env \<Rightarrow> u16 \<Rightarrow> bool" where
  "tf_quiet e base \<longleftrightarrow> (\<forall>st t. tf_view base (io_log (a_yield e st)) t = tf_view base (io_log st) t)"

lemma tsc_loop_log:
  "tsc_loop e idle endt st = Some st' \<Longrightarrow> (\<And>s. io_log (idle s) = io_log s) \<Longrightarrow> io_log st' = io_log st"
  by (induction rule: tsc_loop.raw_induct [rotated, consumes 1, case_names step])
    (auto simp: check_tsc_def rdtscll_def split: if_splits)

lemma ndelay_log:
  "on_clock (ndelay c n) st = Some st' \<Longrightarrow> io_log st' = io_log st"
  by (auto simp: on_clock_def ndelay_def tscdelay_def rdtscll_def put_clock_def clock_of_def dest!: tsc_loop_log)

lemma inb_view: "tf_view io1 (io_log (snd (inb p st))) t = tf_view io1 (io_log st) t"
  by (simp add: inb_def Let_def tf_view_def)

text \<open>What a wait leaves alone: everything that neither reading a byte from a port, nor the clock, nor
  the other threads change.\<close>

definition wait_keeps :: "ata_env \<Rightarrow> (ata_state \<Rightarrow> 'b) \<Rightarrow> bool" where
  "wait_keeps e obs \<longleftrightarrow> (\<forall>st. obs (a_yield e st) = obs st \<and> (\<forall>p. obs (snd (inb p st)) = obs st)
     \<and> (\<forall>n. obs (st\<lparr>a_tsc_reads := n\<rparr>) = obs st))"

lemma check_tsc_keeps: "wait_keeps e obs \<Longrightarrow> a_check_tsc e endt st = (b, st') \<Longrightarrow> obs st' = obs st"
  by (auto simp: a_check_tsc_def check_tsc_def rdtscll_def clock_of_def put_clock_def wait_keeps_def)

lemma calc_future_tsc_keeps: "wait_keeps e obs \<Longrightarrow> a_calc_future_tsc e n st = (t, st') \<Longrightarrow> obs st' = obs st"
  by (auto simp: a_calc_future_tsc_def calc_future_tsc_def rdtscll_def clock_of_def put_clock_def wait_keeps_def)

lemma inb_keeps: "wait_keeps e obs \<Longrightarrow> inb p st = (v, st') \<Longrightarrow> obs st' = obs st"
  unfolding wait_keeps_def by (metis snd_conv)

lemma await_loop_keeps:
  "await_loop e msk flags base endt st = Some (r, st') \<Longrightarrow> wait_keeps e obs \<Longrightarrow> obs st' = obs st"
proof (induction e msk flags base endt st "(r, st')" rule: await_loop.raw_induct [rotated, consumes 1, case_names step])
  case (step loop e msk flags base endt st)
  obtain v s1 where 1: "inb (base + ATA_CB_STAT) st = (v, s1)" by fastforce
  obtain b s2 where 2: "a_check_tsc e endt s1 = (b, s2)" by fastforce
  have "obs (a_yield e s2) = obs st"
    using inb_keeps [OF step.prems 1] check_tsc_keeps [OF step.prems 2] step.prems by (simp add: wait_keeps_def)
  then show ?case
    using step inb_keeps [OF step.prems 1] check_tsc_keeps [OF step.prems 2]
    by (auto simp: 1 2 split: if_splits)
qed

lemma await_not_bsy_keeps:
  assumes "await_not_bsy e base st = Some (r, st')" "wait_keeps e obs"
  shows "obs st' = obs st"
proof -
  obtain t s where "a_calc_future_tsc e IDE_TIMEOUT st = (t, s)" by fastforce
  then show ?thesis
    using assms(1) await_loop_keeps [of e _ _ base t s r st' obs, OF _ assms(2)] calc_future_tsc_keeps [OF assms(2)]
    by (auto simp: await_not_bsy_def await_ide_def)
qed


lemma tf_keeps: "tf_quiet e io1 \<Longrightarrow> wait_keeps e (\<lambda>st. tf_view io1 (io_log st) t)"
  by (simp add: wait_keeps_def tf_quiet_def inb_view)

lemma await_not_bsy_view:
  "await_not_bsy e base st = Some (r, st') \<Longrightarrow> tf_quiet e io1 \<Longrightarrow>
   tf_view io1 (io_log st') t = tf_view io1 (io_log st) t"
  by (drule await_not_bsy_keeps [OF _ tf_keeps]) simp_all

lemma ndelay_await_view:
  "ndelay_await_not_bsy e base st = Some (r, st') \<Longrightarrow> tf_quiet e io1 \<Longrightarrow>
   tf_view io1 (io_log st') t = tf_view io1 (io_log st) t"
  by (auto simp: ndelay_await_not_bsy_def split: bind_splits dest!: ndelay_log await_not_bsy_view [where t = t])

lemma port_ne: "(base :: u16) + a = base + b \<longleftrightarrow> a = b"
  by simp

lemma base_eq: "(base :: u16) = base + b \<longleftrightarrow> b = 0" "base + b = base \<longleftrightarrow> b = 0"
  by simp_all

lemma tf_outb: "tf_view base (io_log (outb v p st)) t = tf_out base p v (tf_view base (io_log st) t)"
  by (simp add: outb_def tf_view_def byte_port)

lemma write_taskfile_view:
  "tf_view io1 (io_log (write_taskfile io1 cmd st)) t =
    (let u = tf_view io1 (io_log st) t; x = is_ext (command cmd) in
     \<lparr>tf_sc = (sector_count cmd, if x then sector_count2 cmd else fst (tf_sc u)),
      tf_sn = (lba_low cmd, if x then lba_low2 cmd else fst (tf_sn u)),
      tf_cl = (lba_mid cmd, if x then lba_mid2 cmd else fst (tf_cl u)),
      tf_ch = (lba_high cmd, if x then lba_high2 cmd else fst (tf_ch u)),
      tf_dh = tf_dh u, tf_cmd = command cmd\<rparr>)"
  by (cases "tf_view io1 (io_log st) t") (simp add: write_taskfile_def Let_def tf_outb tf_out_def ata_regs)

lemma send_cmd_view:
  assumes "send_cmd e a cmd st = Some (0, st')" "tf_quiet e (iobase1 (chan_gf a))"
  defines "io1 \<equiv> iobase1 (chan_gf a)"
  shows "\<exists>u. tf_view io1 (io_log st') t = tf_view io1 (io_log (write_taskfile io1 cmd u)) t
     \<and> tf_dh (tf_view io1 (io_log u) t) =
         (device cmd AND NOT ATA_CB_DH_DEV1) OR (if slave a \<noteq> 0 then ATA_CB_DH_DEV1 else ATA_CB_DH_DEV0)"
proof -
  let ?dh = "(device cmd AND NOT ATA_CB_DH_DEV1) OR (if slave a \<noteq> 0 then ATA_CB_DH_DEV1 else ATA_CB_DH_DEV0)"
  have dh: "tf_dh (tf_view io1 (io_log (outb ?dh (io1 + ATA_CB_DH) s)) t) = ?dh" for s
    by (simp add: tf_outb tf_out_def ata_regs)
  from assms(1) obtain u where u: "st' = write_taskfile io1 cmd u"
    and "\<exists>s. u = outb ?dh (io1 + ATA_CB_DH) s \<or> (\<exists>r. ndelay_await_not_bsy e io1 (outb ?dh (io1 + ATA_CB_DH) s) = Some (r, u))"
    unfolding send_cmd_def io1_def Let_def
    by (auto split: bind_splits prod.splits if_splits)
  then show ?thesis
    using dh ndelay_await_view [of e io1 _ _ u io1 t] assms(2) unfolding io1_def by metis
qed

lemma ext_iff: "c \<in> {0x20, 0x24, 0x25, 0x30, 0x34, 0x35, 0xc8, 0xca} \<Longrightarrow> is_ext c = ext_command c"
  by (auto simp: is_ext_def ext_command_def ATA_CMD_READ_SECTORS_EXT_def)

lemma byte_take: "ucast (ucast (w :: u64) :: u8) = take_bit 8 w"
  by (rule bit_eqI) (auto simp: bit_simps)

lemma join_step:
  "take_bit k w OR push_bit k (ucast (ucast (drop_bit k w) :: u8)) = take_bit (k + 8) (w :: u64)"
  by (rule bit_eqI) (auto simp: bit_simps)

lemma join_nibble:
  "take_bit k w OR push_bit k (ucast (ucast (drop_bit k w) AND 0xf :: u8)) = take_bit (k + 4) (w :: u64)"
proof -
  have c: "(0xf :: u8) = mask 4" by (simp add: mask_eq_exp_minus_1)
  show ?thesis unfolding c by (rule bit_eqI) (auto simp: bit_simps)
qed

lemma low24_byte:
  assumes "k \<le> 16"
  shows "ucast (drop_bit k (w AND 0xffffff :: u64)) = (ucast (drop_bit k w) :: u8)"
proof -
  have c: "(0xffffff :: u64) = mask 24" by (simp add: mask_eq_exp_minus_1)
  show ?thesis unfolding c using assms by (intro bit_eqI) (auto simp: bit_simps)
qed

lemma take_all:
  assumes "unat (w :: u64) < 2 ^ k"
  shows "take_bit k w = w"
proof -
  have "unat (take_bit k w) = unat w"
    using assms by (simp only: unsigned_take_bit_eq take_bit_nat_eq_self)
  then show ?thesis by (simp only: word_unat_eq_iff)
qed

lemma join_bytes:
  assumes "unat (w :: u64) < 2 ^ 48"
  shows "ucast (ucast (w AND 0xffffff) :: u8) OR push_bit 8 (ucast (ucast (drop_bit 8 (w AND 0xffffff)) :: u8))
     OR push_bit 16 (ucast (ucast (drop_bit 16 (w AND 0xffffff)) :: u8))
     OR (push_bit 24 (ucast (ucast (drop_bit 24 w) :: u8)) OR push_bit 32 (ucast (ucast (drop_bit 32 w) :: u8))
     OR push_bit 40 (ucast (ucast (drop_bit 40 w) :: u8))) = w"
  using low24_byte [of 0 w] low24_byte [of 8 w] low24_byte [of 16 w]
    join_step [of 8 w] join_step [of 16 w] join_step [of 24 w] join_step [of 32 w] join_step [of 40 w] take_all [OF assms]
  by (simp only: or.assoc [symmetric] byte_take drop_bit_0 id_apply) simp

lemma join_bytes28:
  assumes "unat (w :: u64) < 2 ^ 28"
  shows "ucast (ucast w :: u8) OR push_bit 8 (ucast (ucast (drop_bit 8 w) :: u8))
     OR push_bit 16 (ucast (ucast (drop_bit 16 w) :: u8))
     OR push_bit 24 (ucast (ucast (drop_bit 24 w) AND 0xf :: u8)) = w"
  using join_step [of 8 w] join_step [of 16 w] join_nibble [of 24 w] take_all [OF assms]
  by (simp only: or.assoc [symmetric] byte_take) simp

lemma count_bytes: "unat (ucast (c :: u16) :: u8) + 256 * unat (ucast (drop_bit 8 c) :: u8) = unat c"
proof -
  have "unat (ucast c :: u8) = unat c mod 256" by (simp add: unsigned_ucast_eq take_bit_eq_mod)
  moreover have "unat (ucast (drop_bit 8 c) :: u8) = unat c div 256"
  proof -
    have "unat (drop_bit 8 c) = unat c div 256" by (simp only: drop_bit_eq_div unat_div) simp
    moreover have "unat c div 256 < 256" using u16_bound [of c] by (simp add: div_less_iff_less_mult)
    ultimately show ?thesis by (simp only: unsigned_ucast_eq) (simp add: take_bit_nat_eq_self)
  qed
  ultimately show ?thesis by simp
qed

text \<open>C14: A read or write request makes the drive work on the blocks the caller named. When the command
  has been sent, the drive selected by the channel and the slave flag finds in its registers the block
  number and the count of the request, in the 28-bit or the 48-bit form, in block mode, with a command
  of the right direction.\<close>

theorem ata_command_blocks:
  assumes "send_cmd e a (rw_ata_command lba count usepio iswrite) st = Some (0, st')"
    and "unat lba < 2 ^ 48" "count \<noteq> 0" "tf_quiet e (iobase1 (chan_gf a))"
    and "t = tf_view (iobase1 (chan_gf a)) (io_log st') t0"
  shows "dev_lba t = lba \<and> dev_count t = unat count \<and> (bit (tf_dh t) 4 \<longleftrightarrow> slave a \<noteq> 0) \<and> bit (tf_dh t) 6
    \<and> (write_command (tf_cmd t) \<longleftrightarrow> iswrite)"
proof -
  let ?cmd = "rw_ata_command lba count usepio iswrite"
  let ?io = "iobase1 (chan_gf a)"
  obtain u where u: "t = tf_view ?io (io_log (write_taskfile ?io ?cmd u)) t0"
    "tf_dh (tf_view ?io (io_log u) t0) =
         (device ?cmd AND NOT ATA_CB_DH_DEV1) OR (if slave a \<noteq> 0 then ATA_CB_DH_DEV1 else ATA_CB_DH_DEV0)"
    using send_cmd_view [OF assms(1,4), of t0] unfolding assms(5) by auto
  note view = u(1) [unfolded write_taskfile_view Let_def]
  have dh: "tf_dh t = (device ?cmd AND NOT ATA_CB_DH_DEV1) OR (if slave a \<noteq> 0 then ATA_CB_DH_DEV1 else ATA_CB_DH_DEV0)"
    using view u(2) by simp
  show ?thesis
  proof (cases "count \<ge> 0x100 \<or> lba + ucast count \<ge> 0x10000000")
    case True
    have cmd: "ext_command (command ?cmd)" "is_ext (command ?cmd)" "write_command (command ?cmd) \<longleftrightarrow> iswrite"
      using True by (auto simp: rw_ata_command_def ata_cmds ext_command_def is_ext_def write_command_def)
    have "dev_lba t = lba"
      using view cmd join_bytes [OF assms(2)] True
      by (simp add: dev_lba_def rw_ata_command_def)
    moreover have "dev_count t = unat count"
      using view cmd True count_bytes [of count] assms(3)
      by (simp add: dev_count_def rw_ata_command_def Let_def unat_eq_0)
    moreover have "bit (tf_dh t) 6" "bit (tf_dh t) 4 \<longleftrightarrow> slave a \<noteq> 0"
      unfolding dh using True
      by (simp_all add: rw_ata_command_def ATA_CB_DH_DEV1_def ATA_CB_DH_DEV0_def ATA_CB_DH_LBA_def bit_simps)
    ultimately show ?thesis using view cmd(3) by simp
  next
    case False
    have small: "unat count < 256" using False by (simp add: word_le_nat_alt)
    have cnt: "unat (ucast count :: u64) = unat count" using u16_bound [of count] by (simp add: unat_ucast_fit)
    have "unat (lba + ucast count) = unat lba + unat count"
      using unat_add_lem [THEN iffD1, of lba "ucast count"] assms(2) small by (simp add: cnt)
    then have lba: "unat lba < 2 ^ 28" using False by (simp add: word_le_nat_alt)
    have cmd: "\<not> ext_command (command ?cmd)" "write_command (command ?cmd) \<longleftrightarrow> iswrite"
      using False by (auto simp: rw_ata_command_def ata_cmds ext_command_def write_command_def)
    have nib: "(ucast (drop_bit 24 lba) AND 0xf OR ATA_CB_DH_LBA :: u8) AND NOT ATA_CB_DH_DEV1
        OR (if slave a \<noteq> 0 then ATA_CB_DH_DEV1 else ATA_CB_DH_DEV0) = tf_dh t"
      unfolding dh using False by (simp add: rw_ata_command_def)
    have low: "tf_dh t AND 0xf = ucast (drop_bit 24 lba) AND 0xf"
      and sel: "bit (tf_dh t) 6" "bit (tf_dh t) 4 \<longleftrightarrow> slave a \<noteq> 0"
    proof -
      have z: "(x AND 0xf OR 0x40 :: u8) AND NOT 0xb0 OR d = x AND 0xf OR 0x40 OR d" for x d :: u8
      proof -
        have "NOT 0xb0 AND (0xf :: u8) = 0xf" "NOT 0xb0 AND (0x40 :: u8) = 0x40" by simp_all
        then show ?thesis by (simp only: and.assoc and.commute [of _ "NOT 0xb0"] bit.conj_disj_distrib) (simp add: ac_simps)
      qed
      show "tf_dh t AND 0xf = ucast (drop_bit 24 lba) AND 0xf"
        unfolding nib [symmetric] ATA_CB_DH_DEV1_def ATA_CB_DH_DEV0_def ATA_CB_DH_LBA_def z
        by (simp add: bit.conj_disj_distrib2 and.assoc)
      show "bit (tf_dh t) 6" "bit (tf_dh t) 4 \<longleftrightarrow> slave a \<noteq> 0"
        unfolding nib [symmetric] by (simp_all add: ATA_CB_DH_DEV1_def ATA_CB_DH_DEV0_def ATA_CB_DH_LBA_def bit_simps)
    qed
    have "dev_lba t = lba"
      using view cmd(1) join_bytes28 [OF lba] low False
      by (simp add: dev_lba_def rw_ata_command_def)
    moreover have "dev_count t = unat count"
      using view cmd(1) False small assms(3)
      by (simp add: dev_count_def rw_ata_command_def Let_def unat_ucast_fit unat_eq_0)
    ultimately show ?thesis using view cmd(2) sel by simp
  qed
qed

section \<open>Transfers by port I/O\<close>














section \<open>A drive that answers\<close>

definition demo_clk :: clock_env where
  "demo_clk = \<lparr>tsc = (\<lambda>n. of_nat n), yield = (\<lambda>st. st), check_preempt = (\<lambda>st. st),
     wait_irq = (\<lambda>st. st), floppy_tick = (\<lambda>st. st), usb_check_event = (\<lambda>st. st),
     call16_simpint = (\<lambda>_ st. st), handle_1ab1 = (\<lambda>r st. (r, st)),
     entry_08 = 0, entry_70 = 0, stack_seg = 0, statusflag_ofs = 0\<rparr>"

definition demo_ata_env :: ata_env where
  "demo_ata_env = \<lparr>a_clk = demo_clk, config_ata_dma = True, mode16 = False, a_malloc_fseg = (\<lambda>st. (0, st)),
     id_buffer = 0x6000, a_bootorder = [], a_pci_path = (\<lambda>_. None), a_desc_ok = True, a_entry_ok = True,
     entry_76 = 0\<rparr>"

definition demo_adrive :: atadrive_s where
  "demo_adrive = \<lparr>chan_gf = \<lparr>iobase1 = 0x1f0, iobase2 = 0x3f4, iomaster = 0xc000, irq = 14, chanid = 0, pci_bdf = 9\<rparr>, slave = 0\<rparr>"

text \<open>Status 50h (ready, no data), device register E0h, and the word CDABh at the data register.\<close>

definition demo_ata :: ata_state where
  "demo_ata = \<lparr>mem = \<lambda>_. 0, io_log = [],
     dev = (\<lambda>_ w p. if w = W16 then 0xabcd else if p = 0x1f6 then 0xe0 else 0x50),
     FloppyCount = 0, CDCount = 0, IDMap = \<lambda>_. [], bounce_buf_fl = 0, cdemu_drive_gf = 0,
     drives = \<lambda>_. zero_drive\<lparr>dtype := DTYPE_ATA\<rparr>, atadrives = \<lambda>_. demo_adrive,
     a_khz = 1000, a_tsc_reads = 0, SpinupEnd = 0, next_chanid = 0,
     a_boot = \<lparr>bs_prio = \<lparr>CheckFloppySig = True, DefaultFloppyPrio = 0, DefaultCDPrio = 0, DefaultHDPrio = 0,
                DefaultBEVPrio = 0\<rparr>, BootList = []\<rparr>,
     usb_bulk = \<lambda>_. (0, 0)\<rparr>"

lemma demo_yield: "a_yield demo_ata_env st = st"
  by (simp add: a_yield_def demo_ata_env_def demo_clk_def put_clock_def clock_of_def)


lemma demo_tf_quiet: "tf_quiet demo_ata_env p"
  by (simp add: tf_quiet_def demo_yield)

lemmas ata_eval = demo_ata_def demo_ata_env_def demo_clk_def demo_adrive_def demo_op_def ata_regs ata_stat
  await_loop.simps await_ide_def await_not_bsy_def pause_await_not_bsy_def inb_def outb_def inw_def Let_def
  a_calc_future_tsc_def calc_future_tsc_def rdtscll_def clock_of_def put_clock_def



lemma demo_master: "atadrives demo_ata d = demo_adrive"
  by (simp add: demo_ata_def)

theorem ata_dma_table_witness:
  "\<exists>st'. ata_try_dma demo_ata_env ((demo_op 0 0x1ff00)\<lparr>op_count := 2\<rparr>) False 512 demo_ata = (True, st')
    \<and> concat (map region_bytes (prd_regions 16 (mem st') 0x168)) = map (\<lambda>i. 0x1ff00 + of_nat i) [0..<1024]"
proof -
  let ?op = "(demo_op 0 0x1ff00)\<lparr>op_count := 2\<rparr>"
  have "fst (build_prd 0 t 0x1ff00 1024 m)" for t m
    by (simp add: build_prd.simps Let_def)
  then obtain m' where "build_prd 0 (MAKE_FLATPTR (get_ebda_seg demo_ata) ebda_extra_stack) 0x1ff00 1024 (mem demo_ata) = (True, m')"
    by (metis prod.collapse)
  then have "fst (ata_try_dma demo_ata_env ?op False 512 demo_ata)"
    unfolding ata_try_dma_def
    by (simp add: Let_def demo_op_def demo_ata_env_def demo_adrive_def demo_master split: prod.splits)
  then obtain st' where st': "ata_try_dma demo_ata_env ?op False 512 demo_ata = (True, st')"
    by (metis prod.collapse)
  have table: "(0x168 :: u32) = MAKE_FLATPTR (get_ebda_seg demo_ata) ebda_extra_stack"
    by (simp add: get_ebda_seg_def demo_ata_def rd16_def MAKE_FLATPTR_def ebda_extra_stack_def)
  show ?thesis
    using ata_dma_table [OF st' _ table] st' by (simp add: demo_op_def del: upt_rec_numeral)
qed

lemma demo_send: "\<exists>st'. send_cmd demo_ata_env demo_adrive (rw_ata_command 0x12345678 300 True False) demo_ata
    = Some (0, st')"
  by (simp add: send_cmd_def rw_ata_command_def ata_eval ATA_CB_DH_DEV0_def ATA_CB_DH_DEV1_def ATA_CB_DH_LBA_def
      zero_command_def)

theorem ata_command_blocks_witness:
  "\<exists>st'. send_cmd demo_ata_env demo_adrive (rw_ata_command 0x12345678 300 True False) demo_ata = Some (0, st')
    \<and> dev_lba (tf_view 0x1f0 (io_log st') \<lparr>tf_sc = (0, 0), tf_sn = (0, 0), tf_cl = (0, 0), tf_ch = (0, 0), tf_dh = 0, tf_cmd = 0\<rparr>)
      = 0x12345678"
proof -
  obtain st' where "send_cmd demo_ata_env demo_adrive (rw_ata_command 0x12345678 300 True False) demo_ata = Some (0, st')"
    using demo_send by blast
  then show ?thesis
    using ata_command_blocks [OF _ _ _ demo_tf_quiet refl] by (fastforce simp: demo_adrive_def)
qed

end
