(* ===== verification/AtaReturn.thy ===== *)
theory AtaReturn
  imports AtaSpec ClockSpec
begin

text \<open>
  Every request to an ATA drive returns, whatever the drive answers, as long as the time stamp counter
  runs: the waits are bounded by deadlines, the transfers by the number of blocks.
\<close>

section \<open>Deadlines\<close>

text \<open>A loop with a deadline: each round either ends with a result of the wanted kind or, at a time not
  after the deadline, goes on at a later time.\<close>

lemma deadline_ends:
  fixes f :: "nat \<Rightarrow> nat" and T :: "'s \<Rightarrow> nat" and F :: "'s \<Rightarrow> 'r option"
  assumes "strict_mono f"
    and "\<And>st. lo \<le> T st \<Longrightarrow> f (T st) \<le> b + K \<Longrightarrow> (\<exists>r. F st = Some r \<and> Q r)
        \<or> f (T st) \<le> b \<and> (\<exists>st'. F st = F st' \<and> T st < T st' \<and> f (T st') \<le> b + K)"
  shows "lo \<le> T st \<Longrightarrow> f (T st) \<le> b + K \<Longrightarrow> \<exists>r. F st = Some r \<and> Q r"
proof (induction "Suc b - f (T st)" arbitrary: st rule: less_induct)
  case less
  consider "\<exists>r. F st = Some r \<and> Q r"
    | st' where "f (T st) \<le> b" "F st = F st'" "T st < T st'" "f (T st') \<le> b + K"
    using assms(2) [OF less.prems] by blast
  then show ?case
  proof cases
    case 2
    then have "f (T st) < f (T st')" using assms(1) by (simp add: strict_mono_less)
    then have "Suc b - f (T st') < Suc b - f (T st)" using 2(1) by linarith
    then show ?thesis using less.hyps [of st'] less.prems 2 by simp
  qed
qed

section \<open>The clock of the driver\<close>

definition runs :: "ata_env \<Rightarrow> (nat \<Rightarrow> nat) \<Rightarrow> nat \<Rightarrow> bool" where
  "runs e f g \<longleftrightarrow> tsc_runs (a_clk e) f g \<and> idle_short f g (yield (a_clk e)) \<and> g < 2 ^ 56"

definition clock_runs :: "ata_env \<Rightarrow> bool" where
  "clock_runs e \<longleftrightarrow> (\<exists>f g. runs e f g)"

definition span :: "(nat \<Rightarrow> nat) \<Rightarrow> nat \<Rightarrow> ata_state \<Rightarrow> ata_state \<Rightarrow> bool" where
  "span f d st st' \<longleftrightarrow> a_tsc_reads st \<le> a_tsc_reads st' \<and> f (a_tsc_reads st') \<le> f (a_tsc_reads st) + d"

lemma span_trans: "span f d s t \<Longrightarrow> span f d' t u \<Longrightarrow> span f (d + d') s u"
  by (auto simp: span_def)

lemma clock_of_sel [simp]: "tsc_reads (clock_of st) = a_tsc_reads st" "cpu_khz (clock_of st) = a_khz st"
  by (simp_all add: clock_of_def)

lemma put_clock_sel [simp]: "a_tsc_reads (put_clock c st) = tsc_reads c"
  by (simp add: put_clock_def)

lemma inb_tsc: "inb p st = (v, st') \<Longrightarrow> a_tsc_reads st' = a_tsc_reads st"
  by (auto simp: inb_def Let_def)

lemma outb_tsc [simp]: "a_tsc_reads (outb v p st) = a_tsc_reads st"
  by (simp add: outb_def)

lemma runs_mono: "runs e f g \<Longrightarrow> strict_mono f" "runs e f g \<Longrightarrow> f (Suc n) \<le> f n + g"
  by (auto simp: runs_def tsc_runs_def strict_mono_Suc_iff)

lemma check_at:
  assumes "runs e f g" "f (a_tsc_reads st) \<le> b + 2 ^ 62" "b \<le> f (a_tsc_reads st) + 2 ^ 62"
  obtains st' where "a_check_tsc e (of_nat b) st = (b < f (a_tsc_reads st), st')" "a_tsc_reads st' = Suc (a_tsc_reads st)"
  using check_tsc_nat [of "a_clk e" f g "clock_of st" b] assms by (simp add: a_check_tsc_def runs_def)

lemma yield_at:
  assumes "runs e f g"
  shows "a_tsc_reads st \<le> a_tsc_reads (a_yield e st)" "f (a_tsc_reads (a_yield e st)) \<le> f (a_tsc_reads st) + g"
  using assms unfolding runs_def idle_short_def a_yield_def by (metis clock_of_sel(1) put_clock_sel)+

lemma future_at:
  assumes "runs e f g"
  obtains st' where "a_calc_future_tsc e n st = (of_nat (f (a_tsc_reads st) + unat (a_khz st) * unat n), st')"
    "a_tsc_reads st' = Suc (a_tsc_reads st)"
proof -
  have "(ucast (a_khz st) * ucast n :: u64) = of_nat (unat (a_khz st) * unat n)" by simp
  then show ?thesis
    using assms that by (simp add: a_calc_future_tsc_def calc_future_tsc_def rdtscll_def runs_def tsc_runs_def)
qed

lemma timeout_small: "unat (k :: u32) * unat IDE_TIMEOUT < 2 ^ 48"
proof -
  have "unat k * 32000 < 2 ^ 32 * 2 ^ 16" using u32_bound [of k] by simp
  then show ?thesis by (simp add: IDE_TIMEOUT_def)
qed

section \<open>The waits\<close>

lemma await_ide_ends:
  assumes "runs e f g"
  shows "\<exists>r st'. await_ide e msk flags base IDE_TIMEOUT st = Some (r, st') \<and> span f (2 ^ 48 + 3 * g) st st'"
proof -
  define b where "b = f (a_tsc_reads st) + unat (a_khz st) * unat IDE_TIMEOUT"
  have g: "g < 2 ^ 56" using assms by (simp add: runs_def)
  have small: "b \<le> f (a_tsc_reads st) + 2 ^ 48" using timeout_small [of "a_khz st"] by (simp add: b_def)
  note mono = runs_mono [OF assms]
  obtain s0 where s0: "a_calc_future_tsc e IDE_TIMEOUT st = (of_nat b, s0)" "a_tsc_reads s0 = Suc (a_tsc_reads st)"
    unfolding b_def by (rule future_at [OF assms, of IDE_TIMEOUT st])
  have "\<exists>r. await_loop e msk flags base (of_nat b) s0 = Some r \<and> span f (2 ^ 48 + 3 * g) st (snd r)"
  proof (rule deadline_ends [where f = f and T = "a_tsc_reads :: ata_state \<Rightarrow> nat" and lo = "a_tsc_reads st" and K = "2 * g", OF mono(1)])
    fix s :: ata_state
    assume s: "a_tsc_reads st \<le> a_tsc_reads s" "f (a_tsc_reads s) \<le> b + 2 * g"
    have late: "f (a_tsc_reads st) \<le> f (a_tsc_reads s)" using s(1) mono(1) by (simp add: strict_mono_less_eq)
    obtain v s1 where 1: "inb (base + ATA_CB_STAT) s = (v, s1)" by fastforce
    have t1: "a_tsc_reads s1 = a_tsc_reads s" by (rule inb_tsc [OF 1])
    obtain s2 where 2: "a_check_tsc e (of_nat b) s1 = (b < f (a_tsc_reads s), s2)" "a_tsc_reads s2 = Suc (a_tsc_reads s)"
      using check_at [OF assms, of s1 b] s late small g unfolding t1 by auto
    note y = yield_at [OF assms, of s2]
    have n: "f (Suc (a_tsc_reads s)) \<le> f (a_tsc_reads s) + g" by (rule mono(2))
    show "(\<exists>r. await_loop e msk flags base (of_nat b) s = Some r \<and> span f (2 ^ 48 + 3 * g) st (snd r))
        \<or> f (a_tsc_reads s) \<le> b \<and> (\<exists>st'. await_loop e msk flags base (of_nat b) s = await_loop e msk flags base (of_nat b) st'
            \<and> a_tsc_reads s < a_tsc_reads st' \<and> f (a_tsc_reads st') \<le> b + 2 * g)"
    proof (cases "v AND msk = flags \<or> b < f (a_tsc_reads s)")
      case True
      then have "\<exists>r. await_loop e msk flags base (of_nat b) s = Some r \<and> snd r \<in> {s1, s2}"
        by (subst await_loop.simps) (auto simp: 1 2)
      moreover have "span f (2 ^ 48 + 3 * g) st u" if "u \<in> {s1, s2}" for u
        using that s small n 2(2) t1 by (auto simp: span_def)
      ultimately show ?thesis by blast
    next
      case False
      then have "await_loop e msk flags base (of_nat b) s = await_loop e msk flags base (of_nat b) (a_yield e s2)"
        by (subst await_loop.simps) (simp add: 1 2)
      moreover have "a_tsc_reads s < a_tsc_reads (a_yield e s2)" using y(1) 2(2) by simp
      moreover have "f (a_tsc_reads (a_yield e s2)) \<le> b + 2 * g" using y(2) 2(2) n False by simp
      ultimately show ?thesis using False by auto
    qed
  qed (use s0 mono(2) [of "a_tsc_reads st"] in \<open>simp_all add: b_def\<close>)
  then show ?thesis using s0 by (auto simp: await_ide_def)
qed

lemma ndelay_ends:
  assumes "runs e f g"
  shows "\<exists>st'. on_clock (ndelay (a_clk e) n) st = Some st' \<and> span f (2 ^ 32 + 3 * g) st st'"
proof -
  let ?d = "ucast (n * a_khz st div 1000000) :: u64"
  have "unat ?d = unat (n * a_khz st div 1000000)"
    by (rule unat_ucast_fit) (rule less_trans [OF unsigned_less], simp)
  then have d: "unat ?d < 2 ^ 32" using u32_bound [of "n * a_khz st div 1000000"] by simp
  obtain c where c: "tscdelay (a_clk e) ?d (clock_of st) = Some c" "f (a_tsc_reads st) + unat ?d < f (tsc_reads c - 1)"
    "f (tsc_reads c - 1) \<le> f (a_tsc_reads st) + unat ?d + 2 * g"
    using delay_ends [of "a_clk e" f g "tscdelay (a_clk e) ?d" ?d "clock_of st"] assms d by (auto simp: runs_def)
  note mono = runs_mono [OF assms]
  have "a_tsc_reads st < tsc_reads c - 1" using c(2) mono(1) by (metis add_lessD1 strict_mono_less)
  moreover have "f (tsc_reads c) \<le> f (tsc_reads c - 1) + g"
    using mono(2) [of "tsc_reads c - 1"] calculation by simp
  ultimately show ?thesis using c d by (auto simp: on_clock_def ndelay_def span_def)
qed


lemma await_not_bsy_ends:
  "runs e f g \<Longrightarrow> \<exists>r st'. await_not_bsy e base st = Some (r, st') \<and> span f (2 ^ 48 + 3 * g) st st'"
  unfolding await_not_bsy_def by (rule await_ide_ends)

lemma await_rdy_ends: "runs e f g \<Longrightarrow> \<exists>r st'. await_rdy e base st = Some (r, st')"
  unfolding await_rdy_def using await_ide_ends by fast

lemma pause_await_ends: "runs e f g \<Longrightarrow> \<exists>r st'. pause_await_not_bsy e io1 io2 st = Some (r, st')"
  unfolding pause_await_not_bsy_def using await_not_bsy_ends by fast

lemma ndelay_await_ends:
  assumes "runs e f g"
  shows "\<exists>r st'. ndelay_await_not_bsy e io1 st = Some (r, st') \<and> span f (2 ^ 49 + 6 * g) st st'"
proof -
  obtain s where s: "on_clock (ndelay (a_clk e) 400) st = Some s" "span f (2 ^ 32 + 3 * g) st s"
    using ndelay_ends [OF assms] by blast
  obtain r st' where st': "await_not_bsy e io1 s = Some (r, st')" "span f (2 ^ 48 + 3 * g) s st'"
    using await_not_bsy_ends [OF assms] by blast
  have "span f (2 ^ 49 + 6 * g) st st'" using span_trans [OF s(2) st'(2)] by (simp add: span_def)
  then show ?thesis using s(1) st'(1) by (simp add: ndelay_await_not_bsy_def)
qed

lemma select_slave_ends:
  assumes "runs e f g" "f (a_tsc_reads st) \<le> b + g" "b \<le> f (a_tsc_reads st) + 2 ^ 48"
  shows "\<exists>r. select_slave e io1 (of_nat b) st = Some r"
proof -
  have g: "g < 2 ^ 56" using assms(1) by (simp add: runs_def)
  note mono = runs_mono [OF assms(1)]
  have "\<exists>r. select_slave e io1 (of_nat b) st = Some r \<and> True"
  proof (rule deadline_ends [where f = f and T = "a_tsc_reads :: ata_state \<Rightarrow> nat" and lo = "a_tsc_reads st" and K = g, OF mono(1)])
    fix s :: ata_state
    assume s: "a_tsc_reads st \<le> a_tsc_reads s" "f (a_tsc_reads s) \<le> b + g"
    obtain r s1 where 1: "ndelay_await_not_bsy e io1 (outb ATA_CB_DH_DEV1 (io1 + ATA_CB_DH) s) = Some (r, s1)"
      "span f (2 ^ 49 + 6 * g) (outb ATA_CB_DH_DEV1 (io1 + ATA_CB_DH) s) s1"
      using ndelay_await_ends [OF assms(1)] by blast
    obtain dh s2 where 2: "inb (io1 + ATA_CB_DH) s1 = (dh, s2)" by fastforce
    have t: "a_tsc_reads s \<le> a_tsc_reads s2" "f (a_tsc_reads s2) \<le> f (a_tsc_reads s) + (2 ^ 49 + 6 * g)"
      using 1(2) inb_tsc [OF 2] by (simp_all add: span_def)
    have "f (a_tsc_reads st) \<le> f (a_tsc_reads s2)" using s(1) t(1) mono(1) by (simp add: strict_mono_less_eq)
    then obtain s3 where 3: "a_check_tsc e (of_nat b) s2 = (b < f (a_tsc_reads s2), s3)" "a_tsc_reads s3 = Suc (a_tsc_reads s2)"
      using check_at [OF assms(1), of s2 b] s t g assms(3) by auto
    show "(\<exists>r. select_slave e io1 (of_nat b) s = Some r \<and> True)
        \<or> f (a_tsc_reads s) \<le> b \<and> (\<exists>st'. select_slave e io1 (of_nat b) s = select_slave e io1 (of_nat b) st'
            \<and> a_tsc_reads s < a_tsc_reads st' \<and> f (a_tsc_reads st') \<le> b + g)"
    proof (cases "r = None \<or> dh = ATA_CB_DH_DEV1 \<or> b < f (a_tsc_reads s2)")
      case True
      then show ?thesis by (auto simp: select_slave.simps [of e io1 "of_nat b" s] 1(1) 2 3(1))
    next
      case False
      then have "select_slave e io1 (of_nat b) s = select_slave e io1 (of_nat b) s3"
        by (subst select_slave.simps) (simp add: 1(1) 2 3(1) del: not_None_eq)
      moreover have "f (a_tsc_reads s) \<le> f (a_tsc_reads s2)" using t(1) mono(1) by (simp add: strict_mono_less_eq)
      ultimately show ?thesis
        using False t(1) 3(2) mono(2) [of "a_tsc_reads s2"] by (intro disjI2 conjI exI [of _ s3]) simp_all
    qed
  qed (use assms in simp_all)
  then show ?thesis by simp
qed


text \<open>The wait inside a DMA transfer, and the delays of the reset.\<close>

lemma dma_wait_ends:
  assumes "runs e f g" "f (a_tsc_reads st) \<le> b + g" "b \<le> f (a_tsc_reads st) + 2 ^ 48"
  shows "\<exists>r. dma_wait e master (of_nat b) st = Some r"
proof -
  have g: "g < 2 ^ 56" using assms(1) by (simp add: runs_def)
  note mono = runs_mono [OF assms(1)]
  have "\<exists>r. dma_wait e master (of_nat b) st = Some r \<and> True"
  proof (rule deadline_ends [where f = f and T = "a_tsc_reads :: ata_state \<Rightarrow> nat" and lo = "a_tsc_reads st" and K = "2 * g", OF mono(1)])
    fix s :: ata_state
    assume s: "a_tsc_reads st \<le> a_tsc_reads s" "f (a_tsc_reads s) \<le> b + 2 * g"
    obtain v s1 where 1: "inb (master + BM_STATUS) s = (v, s1)" by fastforce
    have t1: "a_tsc_reads s1 = a_tsc_reads s" by (rule inb_tsc [OF 1])
    have "f (a_tsc_reads st) \<le> f (a_tsc_reads s)" using s(1) mono(1) by (simp add: strict_mono_less_eq)
    then obtain s2 where 2: "a_check_tsc e (of_nat b) s1 = (b < f (a_tsc_reads s), s2)" "a_tsc_reads s2 = Suc (a_tsc_reads s)"
      using check_at [OF assms(1), of s1 b] s g assms(3) unfolding t1 by auto
    note y = yield_at [OF assms(1), of s2]
    show "(\<exists>r. dma_wait e master (of_nat b) s = Some r \<and> True)
        \<or> f (a_tsc_reads s) \<le> b \<and> (\<exists>st'. dma_wait e master (of_nat b) s = dma_wait e master (of_nat b) st'
            \<and> a_tsc_reads s < a_tsc_reads st' \<and> f (a_tsc_reads st') \<le> b + 2 * g)"
    proof (cases "v AND BM_STATUS_IRQ \<noteq> 0 \<or> b < f (a_tsc_reads s)")
      case True
      then show ?thesis by (auto simp: dma_wait.simps [of e master "of_nat b" s] 1 2(1))
    next
      case False
      then have "dma_wait e master (of_nat b) s = dma_wait e master (of_nat b) (a_yield e s2)"
        by (subst dma_wait.simps) (simp add: 1 2(1))
      then show ?thesis
        using False y 2(2) mono(2) [of "a_tsc_reads s"] by (intro disjI2 conjI exI [of _ "a_yield e s2"]) simp_all
    qed
  qed (use assms in simp_all)
  then show ?thesis by simp
qed

lemma after_future:
  assumes "runs e f g" "a_calc_future_tsc e IDE_TIMEOUT st = (endt, st')"
  obtains b where "endt = of_nat b" "f (a_tsc_reads st') \<le> b + g" "b \<le> f (a_tsc_reads st') + 2 ^ 48"
proof -
  note mono = runs_mono [OF assms(1)]
  obtain s where "a_calc_future_tsc e IDE_TIMEOUT st = (of_nat (f (a_tsc_reads st) + unat (a_khz st) * unat IDE_TIMEOUT), s)"
    "a_tsc_reads s = Suc (a_tsc_reads st)"
    by (rule future_at [OF assms(1)])
  moreover have "f (a_tsc_reads st) \<le> f (Suc (a_tsc_reads st))" using mono(1) by (simp add: strict_mono_less_eq)
  ultimately show ?thesis
    using that [of "f (a_tsc_reads st) + unat (a_khz st) * unat IDE_TIMEOUT"] assms(2) mono(2) [of "a_tsc_reads st"]
      timeout_small [of "a_khz st"] by simp
qed

lemma a_udelay_ends: "runs e f g \<Longrightarrow> \<exists>st'. on_clock (udelay (a_clk e) n) st = Some st'"
  using usecs_end [of "a_clk e" f g "udelay (a_clk e) n" n "clock_of st"] by (auto simp: on_clock_def runs_def)

lemma a_msleep_ends:
  assumes "runs e f g"
  shows "\<exists>st'. on_clock (msleep (a_clk e) n) st = Some st'"
proof -
  have "unat (ucast (n * a_khz st) :: u64) = unat (n * a_khz st)"
    by (rule unat_ucast_fit) (rule less_trans [OF unsigned_less], simp)
  then have "unat (ucast (n * a_khz st) :: u64) < 2 ^ 32" using u32_bound [of "n * a_khz st"] by simp
  then show ?thesis
    using delay_ends [of "a_clk e" f g "tscsleep (a_clk e) (ucast (n * a_khz st))" "ucast (n * a_khz st)" "clock_of st"] assms
    by (auto simp: on_clock_def msleep_def runs_def)
qed

section \<open>The operations\<close>

text \<open>The compositions of the model return when their parts do.\<close>

lemma ends_bind: "\<exists>x. m = Some x \<Longrightarrow> (\<And>x. \<exists>y. k x = Some y) \<Longrightarrow> \<exists>y. Option.bind m k = Some y"
  by force

lemma ends_prod: "(\<And>a b. p = (a, b) \<Longrightarrow> \<exists>y. k a b = Some y) \<Longrightarrow> \<exists>y. (case p of (a, b) \<Rightarrow> k a b) = Some y"
  by (cases p) simp

lemma ends_if: "(c \<Longrightarrow> \<exists>y. m = Some y) \<Longrightarrow> (\<not> c \<Longrightarrow> \<exists>y. n = Some y) \<Longrightarrow> \<exists>y. (if c then m else n) = Some y"
  by simp

lemma ends_option: "\<exists>y. m = Some y \<Longrightarrow> (\<And>v. \<exists>y. k v = Some y) \<Longrightarrow> \<exists>y. (case w of None \<Rightarrow> m | Some v \<Rightarrow> k v) = Some y"
  by (cases w) simp_all

lemma ends_let: "\<exists>y. k v = Some y \<Longrightarrow> \<exists>y. Let v k = Some y"
  by simp

lemma ends_some: "\<exists>y. Some x = Some y"
  by simp

lemma ends_map: "\<exists>x. m = Some x \<Longrightarrow> \<exists>y. map_option h m = Some y"
  by auto

lemmas ends = ends_bind ends_prod ends_if ends_option ends_let ends_some ends_map

lemma waits_end:
  assumes "runs e f g"
  shows "\<exists>x. await_not_bsy e base st = Some x" "\<exists>x. await_rdy e base st = Some x"
    "\<exists>x. pause_await_not_bsy e base io2 st = Some x" "\<exists>x. ndelay_await_not_bsy e base st = Some x"
    "\<exists>x. on_clock (udelay (a_clk e) n) st = Some x" "\<exists>x. on_clock (msleep (a_clk e) n) st = Some x"
  using await_not_bsy_ends [OF assms] await_rdy_ends [OF assms] pause_await_ends [OF assms]
    ndelay_await_ends [OF assms] a_udelay_ends [OF assms] a_msleep_ends [OF assms] by fast+

lemma send_cmd_ends: "runs e f g \<Longrightarrow> \<exists>x. send_cmd e a cmd st = Some x"
  unfolding send_cmd_def by (intro ends waits_end)

lemma ata_wait_data_ends: "runs e f g \<Longrightarrow> \<exists>x. ata_wait_data e io1 st = Some x"
  unfolding ata_wait_data_def by (intro ends waits_end)

lemma after_future_ends:
  assumes "runs e f g" "a_calc_future_tsc e IDE_TIMEOUT st = (endt, st')"
  shows "\<exists>x. select_slave e io1 endt st' = Some x" "\<exists>x. dma_wait e master endt st' = Some x"
proof -
  obtain b where "endt = of_nat b" "f (a_tsc_reads st') \<le> b + g" "b \<le> f (a_tsc_reads st') + 2 ^ 48"
    by (rule after_future [OF assms])
  then show "\<exists>x. select_slave e io1 endt st' = Some x" "\<exists>x. dma_wait e master endt st' = Some x"
    using select_slave_ends [OF assms(1)] dma_wait_ends [OF assms(1)] by simp_all
qed

lemma ata_reset_ends: "runs e f g \<Longrightarrow> \<exists>x. ata_reset e a type st = Some x"
  unfolding ata_reset_def by (intro ends waits_end after_future_ends)

lemma pio_loop_ends:
  assumes "runs e f g"
  shows "\<exists>x. pio_loop e iswrite bs a (int (Suc n)) buf dop st = Some x"
proof (induction n arbitrary: buf dop st)
  case 0
  have "int (Suc 0) - 1 = 0" by simp
  then show ?case by (subst pio_loop.simps) (simp only: Let_def simp_thms if_True, intro ends waits_end [OF assms])
next
  case (Suc n)
  have "int (Suc (Suc n)) - 1 = int (Suc n)" "int (Suc n) \<noteq> 0" by simp_all
  then show ?case
    by (subst pio_loop.simps) (simp only: Let_def if_False, intro ends waits_end [OF assms] Suc)
qed

lemma ata_pio_transfer_ends:
  assumes "runs e f g" "op_count dop \<noteq> 0"
  shows "\<exists>x. ata_pio_transfer e a dop iswrite bs st = Some x"
proof -
  have "0 < unat (op_count dop)" using assms(2) by (simp add: unat_gt_0)
  then obtain n where n: "unat (op_count dop) = Suc n" by (metis gr0_implies_Suc)
  show ?thesis unfolding ata_pio_transfer_def n by (rule pio_loop_ends [OF assms(1)])
qed

lemma ata_dma_transfer_ends: "runs e f g \<Longrightarrow> \<exists>x. ata_dma_transfer e dop st = Some x"
  unfolding ata_dma_transfer_def by (intro ends waits_end after_future_ends)

lemma ata_readwrite_ends:
  assumes "runs e f g" "op_count dop \<noteq> 0"
  shows "\<exists>x. ata_readwrite e dop iswrite st = Some x"
  unfolding ata_readwrite_def ata_pio_cmd_data_def ata_dma_cmd_data_def
  by (intro ends waits_end [OF assms(1)] send_cmd_ends [OF assms(1)] ata_wait_data_ends [OF assms(1)]
      ata_pio_transfer_ends [OF assms] ata_dma_transfer_ends [OF assms(1)])

text \<open>C13: Every request to an ATA drive returns, whatever the drive answers: with a time stamp counter that
  runs, all waits end by their deadline of 32 seconds, and the blocks are counted down. The count of a
  read or a write must not be zero; the driver counts the blocks of such a request down from zero.\<close>

theorem ata_requests_return:
  assumes "clock_runs e" "op_command dop \<in> {CMD_READ, CMD_WRITE} \<longrightarrow> op_count dop \<noteq> 0"
  shows "\<exists>ret dop' st'. ata_process_op e dop st = Some (ret, dop', st')"
proof -
  obtain f g where r: "runs e f g" using assms(1) by (auto simp: clock_runs_def)
  have "\<exists>x. process_ata_misc_op e dop st = Some x"
    unfolding process_ata_misc_op_def by (intro ends ata_reset_ends [OF r])
  then have "\<exists>x. ata_process_op e dop st = Some x"
    using assms(2) ata_readwrite_ends [OF r] by (auto simp: ata_process_op_def)
  then show ?thesis by auto
qed

lemma demo_clock_runs: "clock_runs demo_ata_env"
  unfolding clock_runs_def runs_def
  by (rule exI [of _ "\<lambda>n. n"], rule exI [of _ 1])
    (simp add: tsc_runs_def idle_short_def demo_ata_env_def demo_clk_def)

theorem ata_requests_return_witness:
  "\<exists>ret dop' st'. ata_process_op demo_ata_env (demo_op 5 0x8000) demo_ata = Some (ret, dop', st')"
  by (rule ata_requests_return [OF demo_clock_runs]) (simp add: demo_op_def)

end
