(* ===== verification/Blockcmd.thy ===== *)
theory Blockcmd
  imports Ata UtilSpec UsbHid
begin

text \<open>
  The SCSI command blocks of \<open>src/blockcmd.c\<close>, the drives of \<open>src/usb-msc.c\<close> that take them in a
  bulk-only wrapper, and the packet requests of \<open>src/ata.c\<close>. A command block is the list of its 16
  bytes. Parameters, in the record \<open>cdb_env\<close>: the USB controllers (sending on a bulk pipe, making a
  pipe), the AHCI driver, the allocator of the drives and the stack addresses of the wrappers and of
  the answers.
\<close>

section \<open>Byte order\<close>

definition htons :: "u16 \<Rightarrow> u16" where
  "htons v = push_bit 8 v OR drop_bit 8 v"

definition htonl :: "u32 \<Rightarrow> u32" where
  "htonl v = push_bit 24 v OR push_bit 8 (v AND 0xff00) OR drop_bit 8 (v AND 0xff0000) OR drop_bit 24 v"

definition bytes16 :: "u16 \<Rightarrow> u8 list" where
  "bytes16 v = [ucast v, ucast (drop_bit 8 v)]"

definition bytes32 :: "u32 \<Rightarrow> u8 list" where
  "bytes32 v = [ucast v, ucast (drop_bit 8 v), ucast (drop_bit 16 v), ucast (drop_bit 24 v)]"

section \<open>Command blocks\<close>

definition CDB_CMD_READ_10 :: u8 where "CDB_CMD_READ_10 = 0x28"
definition CDB_CMD_READ_CAPACITY :: u8 where "CDB_CMD_READ_CAPACITY = 0x25"
definition CDB_CMD_INQUIRY :: u8 where "CDB_CMD_INQUIRY = 0x12"
definition CDB_CMD_REQUEST_SENSE :: u8 where "CDB_CMD_REQUEST_SENSE = 0x03"

lemmas cdb_cmds = CDB_CMD_READ_10_def CDB_CMD_READ_CAPACITY_def CDB_CMD_INQUIRY_def CDB_CMD_REQUEST_SENSE_def

definition cdb_request_sense :: "u8 \<Rightarrow> u8 \<Rightarrow> u8 list" where
  "cdb_request_sense cmd len = [cmd, 0] @ bytes16 0 @ [len, 0] @ replicate 10 0"

definition cdb_rwdata_10 :: "u8 \<Rightarrow> u32 \<Rightarrow> u16 \<Rightarrow> u8 list" where
  "cdb_rwdata_10 cmd lba count = [cmd, 0] @ bytes32 lba @ [0] @ bytes16 count @ [0] @ replicate 6 0"

definition CDBRES_INQUIRY_SIZE :: u16 where "CDBRES_INQUIRY_SIZE = 36"
definition CDBRES_SENSE_SIZE :: u16 where "CDBRES_SENSE_SIZE = 18"
definition CDBRES_CAPACITY_SIZE :: u16 where "CDBRES_CAPACITY_SIZE = 8"

record cdb_env =
  c_ata :: ata_env
  ahci_cmd_data :: "disk_op_s \<Rightarrow> u8 list \<Rightarrow> u16 \<Rightarrow> ata_state \<Rightarrow> ata_request"
  usb_send_bulk :: "u32 \<Rightarrow> u8 \<Rightarrow> u32 \<Rightarrow> u32 \<Rightarrow> ata_state \<Rightarrow> (int \<times> ata_state) option"
  alloc_bulk_pipe :: "u32 \<Rightarrow> u32 \<Rightarrow> ata_state \<Rightarrow> u32 \<times> ata_state"
  usb_malloc_fseg :: "ata_state \<Rightarrow> u32 \<times> ata_state"
  usb_free :: "u32 \<Rightarrow> ata_state \<Rightarrow> ata_state"
  pipe_place :: "u32 \<Rightarrow> pci_path \<times> u64"
  cbw_buf :: u32
  csw_buf :: u32
  answer_buf :: u32

section \<open>Bulk-only transport\<close>

definition USB_CDB_SIZE :: nat where "USB_CDB_SIZE = 12"
definition CBW_SIGNATURE :: u32 where "CBW_SIGNATURE = 0x43425355"

definition cbw_s :: "u32 \<Rightarrow> u8 list \<Rightarrow> u8 list" where
  "cbw_s bytes cdbcmd =
     bytes32 CBW_SIGNATURE @ bytes32 999 @ bytes32 bytes @ [USB_DIR_IN, 0, of_nat USB_CDB_SIZE]
     @ take USB_CDB_SIZE cdbcmd @ replicate 4 0"

fun store_bytes :: "u32 \<Rightarrow> u8 list \<Rightarrow> memory \<Rightarrow> memory" where
  "store_bytes p [] m = m"
| "store_bytes p (b # bs) m = store_bytes (p + 1) bs (m(p := b))"

definition usb_fail :: "disk_op_s \<Rightarrow> ata_state \<Rightarrow> ata_request" where
  "usb_fail dop st = Some (DISK_RET_EBADTRACK, dop\<lparr>op_count := 0\<rparr>, st)"

text \<open>The status word is at offset 12 of the answer, the bytes not moved at offset 8.\<close>

definition usb_cmd_data :: "cdb_env \<Rightarrow> disk_op_s \<Rightarrow> u8 list \<Rightarrow> u16 \<Rightarrow> ata_state \<Rightarrow> ata_request" where
  "usb_cmd_data e dop cdbcmd blocksize st =
     (case usb_bulk st (op_drive_g dop) of (bulkin, bulkout) \<Rightarrow>
      let bytes = ucast blocksize * ucast (op_count dop) :: u32;
          cbw = cbw_s bytes cdbcmd;
          st = st\<lparr>mem := store_bytes (cbw_buf e) cbw (mem st)\<rparr> in
      do { (ret, st) \<leftarrow> usb_send_bulk e bulkout USB_DIR_OUT (cbw_buf e) (of_nat (length cbw)) st;
           if ret \<noteq> 0 then usb_fail dop st
           else do {
             (ret, st) \<leftarrow> usb_send_bulk e bulkin USB_DIR_IN (op_buf_fl dop) bytes st;
             if ret \<noteq> 0 then usb_fail dop st
             else do {
               (ret, st) \<leftarrow> usb_send_bulk e bulkin USB_DIR_IN (csw_buf e) 13 st;
               if ret \<noteq> 0 then usb_fail dop st
               else
                 (let status = mem st (csw_buf e + 12) in
                  if status = 0 then Some (DISK_RET_SUCCESS, dop, st)
                  else if status = 2 then usb_fail dop st
                  else Some (DISK_RET_EBADTRACK,
                        dop\<lparr>op_count := op_count dop - ucast (rd32 (mem st) (csw_buf e + 8) div ucast blocksize)\<rparr>,
                        st)) } } })"

section \<open>The commands\<close>

definition cdb_cmd_data :: "cdb_env \<Rightarrow> disk_op_s \<Rightarrow> u8 list \<Rightarrow> u16 \<Rightarrow> ata_state \<Rightarrow> ata_request" where
  "cdb_cmd_data e dop cdbcmd blocksize st =
     (let type = dtype (drives st (op_drive_g dop)) in
      if type = DTYPE_ATAPI then atapi_cmd_data (c_ata e) dop cdbcmd blocksize st
      else if type = DTYPE_USB then usb_cmd_data e dop cdbcmd blocksize st
      else if type = DTYPE_AHCI then ahci_cmd_data e dop cdbcmd blocksize st
      else Some (DISK_RET_EPARAM, dop\<lparr>op_count := 0\<rparr>, st))"

definition cdb_get_inquiry :: "cdb_env \<Rightarrow> disk_op_s \<Rightarrow> u32 \<Rightarrow> ata_state \<Rightarrow> ata_request" where
  "cdb_get_inquiry e dop data st =
     cdb_cmd_data e (dop\<lparr>op_count := 1, op_buf_fl := data\<rparr>)
       (cdb_request_sense CDB_CMD_INQUIRY (ucast CDBRES_INQUIRY_SIZE)) CDBRES_INQUIRY_SIZE st"

definition cdb_get_sense :: "cdb_env \<Rightarrow> disk_op_s \<Rightarrow> u32 \<Rightarrow> ata_state \<Rightarrow> ata_request" where
  "cdb_get_sense e dop data st =
     cdb_cmd_data e (dop\<lparr>op_count := 1, op_buf_fl := data\<rparr>)
       (cdb_request_sense CDB_CMD_REQUEST_SENSE (ucast CDBRES_SENSE_SIZE)) CDBRES_SENSE_SIZE st"

definition cdb_read_capacity :: "cdb_env \<Rightarrow> disk_op_s \<Rightarrow> u32 \<Rightarrow> ata_state \<Rightarrow> ata_request" where
  "cdb_read_capacity e dop data st =
     cdb_cmd_data e (dop\<lparr>op_count := 1, op_buf_fl := data\<rparr>)
       (CDB_CMD_READ_CAPACITY # replicate 15 0) CDBRES_CAPACITY_SIZE st"

definition cdb_read :: "cdb_env \<Rightarrow> disk_op_s \<Rightarrow> ata_state \<Rightarrow> ata_request" where
  "cdb_read e dop st =
     cdb_cmd_data e dop (cdb_rwdata_10 CDB_CMD_READ_10 (htonl (ucast (op_lba dop))) (htons (op_count dop)))
       (blksize (drives st (op_drive_g dop))) st"

section \<open>The requests of the drives\<close>

text \<open>\<open>process_atapi_op\<close> of \<open>src/ata.c\<close> and \<open>process_usb_op\<close> of \<open>src/usb-msc.c\<close>, whose names the
  record of drivers has for the parameters.\<close>

definition atapi_process_op :: "cdb_env \<Rightarrow> disk_op_s \<Rightarrow> ata_state \<Rightarrow> ata_request" where
  "atapi_process_op e dop st =
     (if op_command dop = CMD_READ then cdb_read e dop st
      else if op_command dop = CMD_FORMAT \<or> op_command dop = CMD_WRITE then
        Some (DISK_RET_EWRITEPROTECT, dop, st)
      else process_ata_misc_op (c_ata e) dop st)"

definition usb_process_op :: "cdb_env \<Rightarrow> disk_op_s \<Rightarrow> ata_state \<Rightarrow> ata_request" where
  "usb_process_op e dop st =
     (if op_command dop = CMD_READ then cdb_read e dop st
      else if op_command dop = CMD_FORMAT \<or> op_command dop = CMD_WRITE then
        Some (DISK_RET_EWRITEPROTECT, dop, st)
      else if op_command dop = CMD_RESET \<or> op_command dop = CMD_ISREADY \<or> op_command dop = CMD_VERIFY
           \<or> op_command dop = CMD_SEEK then Some (DISK_RET_SUCCESS, dop, st)
      else Some (DISK_RET_EPARAM, dop\<lparr>op_count := 0\<rparr>, st))"

section \<open>Setting up a USB drive\<close>

definition US_SC_ATAPI_8020 :: u8 where "US_SC_ATAPI_8020 = 0x02"
definition US_SC_ATAPI_8070 :: u8 where "US_SC_ATAPI_8070 = 0x05"
definition US_SC_SCSI :: u8 where "US_SC_SCSI = 0x06"
definition US_PR_BULK :: u8 where "US_PR_BULK = 0x50"
definition USB_MSC_TYPE_CDROM :: u8 where "USB_MSC_TYPE_CDROM = 0x05"
definition USB_ENDPOINT_XFER_BULK :: u8 where "USB_ENDPOINT_XFER_BULK = 2"
definition MAXDESCSIZE :: nat where "MAXDESCSIZE = 80"

definition upd_drive :: "u32 \<Rightarrow> (drive_s \<Rightarrow> drive_s) \<Rightarrow> 'a disk_state_scheme \<Rightarrow> 'a disk_state_scheme" where
  "upd_drive g f st = st\<lparr>drives := (drives st)(g := f (drives st g))\<rparr>"

definition drive_keys :: "'a disk_state_scheme \<Rightarrow> u32 \<Rightarrow> u8 \<times> u32" where
  "drive_keys st g = (dtype (drives st g), cntl_id (drives st g))"

definition boot_desc :: "ata_env \<Rightarrow> str \<Rightarrow> str option" where
  "boot_desc e s = (if a_desc_ok e then Some (take (MAXDESCSIZE - 1) s) else None)"

definition usb_prio :: "cdb_env \<Rightarrow> u32 \<Rightarrow> ata_state \<Rightarrow> int" where
  "usb_prio e g st =
     (case pipe_place e (snd (usb_bulk st g)) of (pci, path) \<Rightarrow>
        bootprio_find_usb (a_bootorder (c_ata e)) pci path)"

definition setup_drive_cdrom :: "cdb_env \<Rightarrow> disk_op_s \<Rightarrow> str \<Rightarrow> ata_state \<Rightarrow> int \<times> ata_state" where
  "setup_drive_cdrom e dop desc st =
     (let g = op_drive_g dop;
          st = upd_drive g (\<lambda>d. d\<lparr>blksize := ucast CDROM_SECTOR_SIZE, sectors := - 1\<rparr>) st in
      (0, st\<lparr>a_boot := boot_add_cd (drive_keys st) (a_entry_ok (c_ata e)) g (boot_desc (c_ata e) desc)
                         (usb_prio e g st) (a_boot st)\<rparr>))"

text \<open>The blocks of the answer of the capacity command are at offset 0, their size at offset 4.\<close>

definition setup_drive_hd :: "cdb_env \<Rightarrow> disk_op_s \<Rightarrow> str \<Rightarrow> ata_state \<Rightarrow> (int \<times> ata_state) option" where
  "setup_drive_hd e dop desc st =
     do { (ret, dop, st) \<leftarrow> cdb_read_capacity e dop (answer_buf e) st;
          if ret \<noteq> 0 then Some (sint ret, st)
          else
            (let blk = htonl (rd32 (mem st) (answer_buf e + 4));
                 sects = htonl (rd32 (mem st) (answer_buf e));
                 g = op_drive_g dop in
             if blk \<noteq> DISK_SECTOR_SIZE then
               (if blk = CDROM_SECTOR_SIZE then Some (setup_drive_cdrom e dop desc st) else Some (- 1, st))
             else
               (let st = upd_drive g (\<lambda>d. d\<lparr>blksize := ucast blk, sectors := ucast sects\<rparr>) st in
                Some (0, st\<lparr>a_boot := boot_add_hd (drive_keys st) (a_entry_ok (c_ata e)) g (boot_desc (c_ata e) desc)
                                        (usb_prio e g st) (a_boot st)\<rparr>))) }"

text \<open>A field of \<open>len\<close> characters of the inquiry answer as a string without trailing blanks.\<close>

definition inquiry_text :: "cdb_env \<Rightarrow> u32 \<Rightarrow> nat \<Rightarrow> ata_state \<Rightarrow> str" where
  "inquiry_text e off len st =
     rstrip (takeWhile (\<lambda>c. c \<noteq> 0) (map (\<lambda>i. mem st (answer_buf e + off + of_nat i)) [0..<len]))"

definition usb_msc_init :: "cdb_env \<Rightarrow> u32 \<Rightarrow> u32 \<Rightarrow> u32 \<Rightarrow> ata_state \<Rightarrow> (int \<times> ata_state) option" where
  "usb_msc_init e pipe iface imax st =
     (let sub = bInterfaceSubClass (mem st) iface in
      if (sub \<noteq> US_SC_SCSI \<and> sub \<noteq> US_SC_ATAPI_8070 \<and> sub \<noteq> US_SC_ATAPI_8020)
         \<or> bInterfaceProtocol (mem st) iface \<noteq> US_PR_BULK then Some (- 1, st)
      else case usb_malloc_fseg e st of (g, st) \<Rightarrow>
        let fail = (\<lambda>st. Some (- 1, usb_free e g st)) in
        if g = 0 then fail st
        else
          (let st = st\<lparr>drives := (drives st)(g := zero_drive\<lparr>dtype := DTYPE_USB\<rparr>),
                      usb_bulk := (usb_bulk st)(g := (0, 0))\<rparr> in
           do { indesc \<leftarrow> findEndPointDesc iface imax USB_ENDPOINT_XFER_BULK USB_DIR_IN (mem st);
                outdesc \<leftarrow> findEndPointDesc iface imax USB_ENDPOINT_XFER_BULK USB_DIR_OUT (mem st);
                if indesc = 0 \<or> outdesc = 0 then fail st
                else case alloc_bulk_pipe e pipe indesc st of (bulkin, st) \<Rightarrow>
                     case alloc_bulk_pipe e pipe outdesc st of (bulkout, st) \<Rightarrow>
                       let st = st\<lparr>usb_bulk := (usb_bulk st)(g := (bulkin, bulkout))\<rparr> in
                       if bulkin = 0 \<or> bulkout = 0 then fail st
                       else
                         do { (ret, dop, st) \<leftarrow> cdb_get_inquiry e
                                \<lparr>op_lba = 0, op_buf_fl = 0, op_drive_g = g, op_count = 0, op_command = 0\<rparr>
                                (answer_buf e) st;
                              if ret \<noteq> 0 then fail st
                              else
                                (let text = inquiry_text e 8 8 st @ chars '' '' @ inquiry_text e 16 16 st
                                            @ chars '' '' @ inquiry_text e 32 4 st;
                                     pdt = mem st (answer_buf e) AND 0x1f;
                                     st = upd_drive g (\<lambda>d. d\<lparr>removable :=
                                       (if mem st (answer_buf e + 1) AND 0x80 \<noteq> 0 then 1 else 0)\<rparr>) st in
                                 do { (ret, st) \<leftarrow>
                                        (if pdt = USB_MSC_TYPE_CDROM
                                         then Some (setup_drive_cdrom e dop
                                                (chars ''DVD/CD [USB Drive '' @ text @ chars '']'') st)
                                         else setup_drive_hd e dop (chars ''USB Drive '' @ text) st);
                                      if ret \<noteq> 0 then fail st else Some (0, st) }) } }))"

end
