(* ===== verification/BlockcmdSpec.thy ===== *)
theory BlockcmdSpec
  imports Blockcmd AtaSpec
begin

text \<open>
  What the SCSI commands say to a drive: the fields a drive decodes from a read command, the wrapper
  of a USB drive, and the capacity the USB code takes from a drive's answer.
\<close>

section \<open>Big-endian fields\<close>

definition be_nat :: "u8 list \<Rightarrow> nat" where
  "be_nat bs = foldl (\<lambda>n b. 256 * n + unat b) 0 bs"



lemma unat_byte: "unat (ucast (w :: 'a::len word) :: u8) = unat w mod 256"
  by (simp add: unsigned_ucast_eq take_bit_eq_mod)

lemma unat_drop32: "unat (drop_bit 8 v :: u32) = unat v div 256" "unat (drop_bit 16 v :: u32) = unat v div 65536"
  "unat (drop_bit 24 v :: u32) = unat v div 16777216"
  by (simp_all only: drop_bit_eq_div unat_div) simp_all




lemma be_nat_32: "be_nat [ucast (drop_bit 24 v), ucast (drop_bit 16 v), ucast (drop_bit 8 v), ucast v] = unat (v :: u32)"
proof -
  have x: "x < 4294967296 \<Longrightarrow> 256 * (256 * (256 * (x div 16777216 mod 256) + x div 65536 mod 256) + x div 256 mod 256) + x mod 256 = x"
    for x :: nat
  proof -
    assume "x < 4294967296"
    then have t: "x div 16777216 mod 256 = x div 16777216" by (simp add: div_less_iff_less_mult)
    have d: "x div 65536 = x div 256 div 256" "x div 16777216 = x div 256 div 256 div 256"
      by (simp_all add: div_mult2_eq [symmetric])
    show ?thesis unfolding t unfolding d by simp
  qed
  have "unat v < 4294967296" using unsigned_less [of v] by simp
  then show ?thesis using x [of "unat v"] by (simp add: be_nat_def unat_drop32 unat_byte)
qed





section \<open>USB drives\<close>

lemma usb_cmd_cases:
  assumes "usb_cmd_data e dop cdb bs st = Some (ret, dop', st')"
  shows "ret = DISK_RET_SUCCESS \<and> dop' = dop \<or> ret = DISK_RET_EBADTRACK \<and> op_count dop' = 0 \<or>
    ret = DISK_RET_EBADTRACK \<and>
      op_count dop' = op_count dop - ucast (rd32 (mem st') (csw_buf e + 8) div ucast bs)"
  using assms by (auto simp: usb_cmd_data_def usb_fail_def Let_def split: prod.splits bind_splits if_splits)

text \<open>A transfer from a USB drive never reports more blocks than were asked for, as long as the drive
  does not claim to have left out more bytes than the transfer has; on success it reports all of them.\<close>

theorem usb_count_bounded:
  assumes "usb_cmd_data e dop cdb bs st = Some (ret, dop', st')" "bs \<noteq> 0"
    and "unat (rd32 (mem st') (csw_buf e + 8)) \<le> unat bs * unat (op_count dop)"
  shows "op_count dop' \<le> op_count dop \<and> (ret = DISK_RET_SUCCESS \<longrightarrow> op_count dop' = op_count dop)"
proof -
  let ?r = "rd32 (mem st') (csw_buf e + 8)"
  have b: "unat (ucast bs :: u32) = unat bs" "0 < unat bs"
    using u16_bound [of bs] assms(2) by (simp_all add: unat_ucast_fit unat_gt_0)
  have q: "unat (?r div ucast bs) \<le> unat (op_count dop)"
  proof -
    have "unat ?r div unat bs \<le> unat bs * unat (op_count dop) div unat bs" by (rule div_le_mono [OF assms(3)])
    then show ?thesis using b(2) by (simp add: unat_div b(1))
  qed
  then have "unat (ucast (?r div ucast bs) :: u16) = unat (?r div ucast bs)"
    using u16_bound [of "op_count dop"] by (intro unat_ucast_fit) simp
  then have le: "ucast (?r div ucast bs) \<le> op_count dop" using q by (simp add: word_le_nat_alt)
  have "op_count dop - ucast (?r div ucast bs) \<le> op_count dop"
    unfolding word_le_nat_alt using unat_sub [OF le] by simp
  then show ?thesis
    using usb_cmd_cases [OF assms(1)] by (auto simp: DISK_RET_EBADTRACK_def DISK_RET_SUCCESS_def)
qed

definition demo_usb :: cdb_env where
  "demo_usb = \<lparr>c_ata = demo_ata_env, ahci_cmd_data = (\<lambda>dop _ _ st. Some (0, dop, st)),
     usb_send_bulk = (\<lambda>pipe dir p n st. Some (0, if p = 0x7000 then st\<lparr>mem := (mem st)(0x700c := 1, 0x7009 := 2)\<rparr> else st)),
     alloc_bulk_pipe = (\<lambda>_ _ st. (1, st)), usb_malloc_fseg = (\<lambda>st. (0, st)), usb_free = (\<lambda>_ st. st),
     pipe_place = (\<lambda>_. (PciPath None 0 0 0, 0)), cbw_buf = 0x6000, csw_buf = 0x7000, answer_buf = 0x5000\<rparr>"

text \<open>A drive that fails a read of three blocks with 512 bytes left.\<close>

theorem usb_count_bounded_witness:
  "\<exists>st'. usb_cmd_data demo_usb ((demo_op 0 0x8000)\<lparr>op_count := 3\<rparr>) [] 512 demo_ata
      = Some (DISK_RET_EBADTRACK, (demo_op 0 0x8000)\<lparr>op_count := 2\<rparr>, st')
    \<and> (2 :: u16) \<le> 3"
proof -
  let ?dop = "(demo_op 0 0x8000)\<lparr>op_count := 3\<rparr>"
  have far: "store_bytes p bs m a = m a" if "length bs \<le> unat (a - p)" for p bs m a
    using that
  proof (induction bs arbitrary: p m)
    case (Cons b bs)
    have ne: "a \<noteq> p" using Cons.prems by auto
    moreover have "length bs \<le> unat (a - (p + 1))"
      using Cons.prems ne unat_minus_one [of "a - p"] by (simp add: diff_diff_eq)
    ultimately show ?case using Cons.IH [of "p + 1"] by simp
  qed simp
  have cbw: "length (cbw_s n []) \<le> 31" for n by (simp add: cbw_s_def bytes32_def)
  have zero: "store_bytes 0x6000 (cbw_s n []) (\<lambda>_. 0) (0x7000 + j) = 0" if "j < 16" for n j
  proof -
    have "unat (0x7000 + j - 0x6000 :: u32) = 4096 + unat j"
      using that unat_add_lem [THEN iffD1, of "0x1000 :: u32" j] by (simp add: word_less_nat_alt)
    then show ?thesis using far [of "cbw_s n []" "0x7000 + j" "0x6000" "\<lambda>_. 0"] cbw [of n] by simp
  qed
  obtain st' where run: "usb_cmd_data demo_usb ?dop [] 512 demo_ata
      = Some (DISK_RET_EBADTRACK, (demo_op 0 0x8000)\<lparr>op_count := 2\<rparr>, st')"
    and res: "rd32 (mem st') 0x7008 = 512"
    using zero [of 8] zero [of 10] zero [of 11]
    by (simp add: usb_cmd_data_def demo_usb_def demo_ata_def demo_op_def Let_def rd32_def rd16_def)
  show ?thesis
    using usb_count_bounded [OF run] res run by (simp add: demo_usb_def demo_op_def)
qed

text \<open>The blocks of a drive according to its answer to the capacity command: it gives the number of
  its last block.\<close>

definition scsi_blocks :: "memory \<Rightarrow> u32 \<Rightarrow> nat" where
  "scsi_blocks m p = be_nat (map (\<lambda>i. m (p + of_nat i)) [0..<4]) + 1"

lemma htonl_be: "unat (htonl (rd32 m p)) = be_nat (map (\<lambda>i. m (p + of_nat i)) [0..<4])"
proof -
  have r: "rd32 m p = ucast (m p) OR push_bit 8 (ucast (m (p + 1))) OR push_bit 16 (ucast (m (p + 2)))
      OR push_bit 24 (ucast (m (p + 3)))"
    unfolding rd32_def rd16_def by (rule bit_eqI) (auto simp: bit_simps add.assoc dest: bit_imp_le_length)
  have c: "(0xff00 :: u32) = push_bit 8 (mask 8)" "(0xff0000 :: u32) = push_bit 16 (mask 8)"
    by (simp_all add: mask_eq_exp_minus_1 push_bit_eq_mult)
  have b: "ucast (drop_bit 24 (htonl (rd32 m p))) = m p" "ucast (drop_bit 16 (htonl (rd32 m p))) = m (p + 1)"
    "ucast (drop_bit 8 (htonl (rd32 m p))) = m (p + 2)" "ucast (htonl (rd32 m p)) = m (p + 3)"
    unfolding htonl_def r c by (rule bit_eqI; auto simp: bit_simps dest: bit_imp_le_length)+
  have four: "[0..<4] = [0, 1, 2, 3]" by (simp add: upt_rec)
  show ?thesis using be_nat_32 [of "htonl (rd32 m p)"] unfolding b by (simp add: four)
qed

text \<open>C38: The USB code gives a hard disk one block less than it has: the size it records is the number
  of the last block, which the drive's answer holds, so that block is beyond the size that the extended
  INT 13h services accept.\<close>

theorem usb_capacity_short:
  assumes "cdb_read_capacity e dop (answer_buf e) st = Some (0, dop', s1)"
    and "htonl (rd32 (mem s1) (answer_buf e + 4)) = 512"
    and "setup_drive_hd e dop desc st = Some (ret, st')"
  shows "ret = 0 \<and> unat (sectors (drives st' (op_drive_g dop'))) + 1 = scsi_blocks (mem s1) (answer_buf e)"
proof -
  have "unat (ucast (htonl (rd32 (mem s1) (answer_buf e))) :: u64) = unat (htonl (rd32 (mem s1) (answer_buf e)))"
    by (rule unat_ucast_fit) (rule less_trans [OF unsigned_less], simp)
  then show ?thesis
    using assms by (auto simp: setup_drive_hd_def Let_def upd_drive_def DISK_SECTOR_SIZE_def scsi_blocks_def
        htonl_be [symmetric])
qed

text \<open>A drive whose last block has the number 4.\<close>

definition demo_ahci :: cdb_env where
  "demo_ahci = demo_usb\<lparr>ahci_cmd_data := (\<lambda>dop _ _ st. Some (0, dop, st\<lparr>mem := (\<lambda>_. 0)(0x5003 := 4, 0x5006 := 2)\<rparr>))\<rparr>"

theorem usb_capacity_short_witness:
  "\<exists>st'. setup_drive_hd demo_ahci (demo_op 0 0) [] (upd_drive 1 (\<lambda>d. d\<lparr>dtype := DTYPE_AHCI\<rparr>) demo_ata) = Some (0, st')
    \<and> unat (sectors (drives st' 1)) = 4"
proof -
  let ?st = "upd_drive 1 (\<lambda>d. d\<lparr>dtype := DTYPE_AHCI\<rparr>) demo_ata"
  let ?s1 = "?st\<lparr>mem := (\<lambda>_. 0)(0x5003 := 4, 0x5006 := 2)\<rparr>"
  have cap: "cdb_read_capacity demo_ahci (demo_op 0 0) (answer_buf demo_ahci) ?st
      = Some (0, (demo_op 0 0)\<lparr>op_buf_fl := 0x5000\<rparr>, ?s1)"
    by (simp add: cdb_read_capacity_def cdb_cmd_data_def demo_ahci_def demo_usb_def demo_op_def upd_drive_def
        dtype_codes demo_ata_def)
  have blk: "htonl (rd32 (mem ?s1) (answer_buf demo_ahci + 4)) = 512"
    by (simp add: demo_ahci_def demo_usb_def rd32_def rd16_def htonl_def)
  have "\<exists>st'. setup_drive_hd demo_ahci (demo_op 0 0) [] ?st = Some (0, st')"
    using cap blk by (simp add: setup_drive_hd_def Let_def DISK_SECTOR_SIZE_def)
  then obtain st' where run: "setup_drive_hd demo_ahci (demo_op 0 0) [] ?st = Some (0, st')" by blast
  have four: "[0..<4] = [0, 1, 2, 3]" by (simp add: upt_rec)
  have "scsi_blocks (mem ?s1) (answer_buf demo_ahci) = 5"
    by (simp add: scsi_blocks_def demo_ahci_def demo_usb_def be_nat_def four)
  then show ?thesis
    using usb_capacity_short [OF cap blk run] run by (simp add: demo_op_def)
qed

end
