(* ===== verification/AtaInit.thy ===== *)
theory AtaInit
  imports Blockcmd Pciinit
begin

text \<open>
  The detection of ATA drives in \<open>src/ata.c\<close>: the identify commands, the descriptors and boot entries
  of the drives found, the probe of a channel and the controllers on the PCI bus. The code runs in
  32-bit mode; the identify data is read into a buffer on the stack, whose address is the parameter
  \<open>id_buffer\<close>. The thread of a channel is run to its end. The mark \<open>have_driver\<close> of a PCI device is not
  part of the model of the PCI devices and is left out.
\<close>

section \<open>Identify data\<close>

definition id_word :: "ata_env \<Rightarrow> ata_state \<Rightarrow> nat \<Rightarrow> u16" where
  "id_word e st i = rd16 (mem st) (id_buffer e + 2 * of_nat i)"

definition send_ata_identity :: "ata_env \<Rightarrow> atadrive_s \<Rightarrow> u8 \<Rightarrow> ata_state \<Rightarrow> ata_ret" where
  "send_ata_identity e a cmd st =
     (let st = st\<lparr>mem := memset (id_buffer e) 0 (unat DISK_SECTOR_SIZE) (mem st)\<rparr>;
          dop = \<lparr>op_lba = 1, op_buf_fl = id_buffer e, op_drive_g = 0, op_count = 1, op_command = 0\<rparr> in
      do { (ret, dop, st) \<leftarrow> ata_pio_cmd_data e a dop False (zero_command\<lparr>command := cmd\<rparr>) st;
           Some (ret, st) })"

text \<open>The highest bit set among bits 15 to 1 of word 80, 0 for none.\<close>

fun version_from :: "nat \<Rightarrow> u16 \<Rightarrow> nat" where
  "version_from 0 v = 0"
| "version_from (Suc n) v = (if bit v (Suc n) then Suc n else version_from n v)"

definition ata_extract_version :: "ata_env \<Rightarrow> ata_state \<Rightarrow> nat" where
  "ata_extract_version e st = version_from 15 (id_word e st 80)"

definition MAXMODEL :: nat where "MAXMODEL = 40"

definition ata_extract_model :: "ata_env \<Rightarrow> ata_state \<Rightarrow> str" where
  "ata_extract_model e st =
     rstrip (takeWhile (\<lambda>c. c \<noteq> 0) (concat (map (\<lambda>i. bytes16 (htons (id_word e st (27 + i)))) [0..<MAXMODEL div 2])))"

section \<open>Drives\<close>

definition init_atadrive :: "ata_env \<Rightarrow> atadrive_s \<Rightarrow> ata_state \<Rightarrow> u32 \<times> ata_state" where
  "init_atadrive e a st =
     (case a_malloc_fseg e st of (g, st) \<Rightarrow>
        if g = 0 then (0, st)
        else (g, st\<lparr>atadrives := (atadrives st)(g := a),
                   drives := (drives st)(g := zero_drive
                     \<lparr>cntl_id := ucast (chanid (chan_gf a)) * 2 + ucast (slave a),
                      removable := (if id_word e st 0 AND 0x80 \<noteq> 0 then 1 else 0)\<rparr>)\<rparr>))"

definition ata_name :: "atadrive_s \<Rightarrow> str" where
  "ata_name a = chars ''ata'' @ put_signed (ucast (chanid (chan_gf a))) @ chars ''-'' @ put_signed (ucast (slave a))
     @ chars '': ''"

definition ata_prio :: "ata_env \<Rightarrow> atadrive_s \<Rightarrow> int" where
  "ata_prio e a = bootprio_find_ata_device (a_bootorder e) (a_pci_path e (pci_bdf (chan_gf a)))
                    (ucast (chanid (chan_gf a))) (ucast (slave a))"

definition init_drive_atapi :: "ata_env \<Rightarrow> atadrive_s \<Rightarrow> ata_state \<Rightarrow> (u32 \<times> ata_state) option" where
  "init_drive_atapi e a st =
     do { (ret, st) \<leftarrow> send_ata_identity e a ATA_CMD_IDENTIFY_PACKET_DEVICE st;
          if ret \<noteq> 0 then Some (0, st)
          else case init_atadrive e a st of (g, st) \<Rightarrow>
            if g = 0 then Some (0, st)
            else
              (let st = upd_drive g (\<lambda>d. d\<lparr>dtype := DTYPE_ATAPI, blksize := ucast CDROM_SECTOR_SIZE, sectors := - 1\<rparr>) st;
                   iscd = (drop_bit 8 (id_word e st 0) AND 0x1f = 0x05);
                   desc = chars ''DVD/CD ['' @ ata_name a @ ata_extract_model e st @ chars '' ATAPI-''
                     @ put_signed (of_nat (ata_extract_version e st)) @ chars '' ''
                     @ (if iscd then chars ''DVD/CD'' else chars ''Device'') @ chars '']'' in
               Some (g, if iscd
                        then st\<lparr>a_boot := boot_add_cd (drive_keys st) (a_entry_ok e) g (boot_desc e desc) (ata_prio e a) (a_boot st)\<rparr>
                        else st)) }"

definition ata_sectors :: "ata_env \<Rightarrow> ata_state \<Rightarrow> u64" where
  "ata_sectors e st =
     (if id_word e st 83 AND push_bit 10 1 \<noteq> 0 then rd64 (mem st) (id_buffer e + 200)
      else ucast (rd32 (mem st) (id_buffer e + 120)))"

definition size_text :: "u64 \<Rightarrow> str" where
  "size_text sects =
     (let adjsize = drop_bit 11 sects in
      if adjsize \<ge> 0x10000 then putuint (ucast (drop_bit 10 adjsize)) @ chars '' GiBytes''
      else putuint (ucast adjsize) @ chars '' MiBytes'')"

definition init_drive_ata :: "ata_env \<Rightarrow> atadrive_s \<Rightarrow> ata_state \<Rightarrow> (u32 \<times> ata_state) option" where
  "init_drive_ata e a st =
     do { (ret, st) \<leftarrow> send_ata_identity e a ATA_CMD_IDENTIFY_DEVICE st;
          if ret \<noteq> 0 then Some (0, st)
          else case init_atadrive e a st of (g, st) \<Rightarrow>
            if g = 0 then Some (0, st)
            else
              (let sects = ata_sectors e st;
                   st = upd_drive g (\<lambda>d. d\<lparr>dtype := DTYPE_ATA, blksize := ucast DISK_SECTOR_SIZE,
                          pchs := \<lparr>heads = id_word e st 3, cylinders = id_word e st 1, spt = id_word e st 6\<rparr>,
                          sectors := sects\<rparr>) st;
                   desc = ata_name a @ ata_extract_model e st @ chars '' ATA-''
                     @ put_signed (of_nat (ata_extract_version e st)) @ chars '' Hard-Disk ('' @ size_text sects @ chars '')'' in
               Some (g, st\<lparr>a_boot := boot_add_hd (drive_keys st) (a_entry_ok e) g (boot_desc e desc) (ata_prio e a) (a_boot st)\<rparr>)) }"

section \<open>Probing a channel\<close>

text \<open>The status, or no status on a timeout; a bus on which no device drives the lines reads as FFh.\<close>

partial_function (option) powerup_loop :: "ata_env \<Rightarrow> u16 \<Rightarrow> u8 \<Rightarrow> ata_state \<Rightarrow> (u8 option \<times> ata_state) option" where
  "powerup_loop e base orstatus st =
     (case inb (base + ATA_CB_STAT) st of (status, st) \<Rightarrow>
        if status AND ATA_CB_STAT_BSY = 0 then Some (Some status, st)
        else if orstatus OR status = 0xff then Some (Some (orstatus OR status), st)
        else case a_check_tsc e (SpinupEnd st) st of (passed, st) \<Rightarrow>
          if passed then Some (None, st) else powerup_loop e base (orstatus OR status) (a_yield e st))"

declare powerup_loop.simps [code]

definition powerup_await_non_bsy :: "ata_env \<Rightarrow> u16 \<Rightarrow> ata_state \<Rightarrow> status_state" where
  "powerup_await_non_bsy e base st = powerup_loop e base 0 st"

text \<open>Whether the registers of the channel hold what is written to them, with the drive selected.\<close>

definition ports_valid :: "u16 \<Rightarrow> u8 \<Rightarrow> ata_state \<Rightarrow> bool \<times> ata_state" where
  "ports_valid io1 newdh st =
     (let st = outb newdh (io1 + ATA_CB_DH) st;
          (dh, st) = inb (io1 + ATA_CB_DH) st;
          st = outb 0x55 (io1 + ATA_CB_SC) st;
          st = outb 0xaa (io1 + ATA_CB_SN) st;
          (sc, st) = inb (io1 + ATA_CB_SC) st;
          (sn, st) = inb (io1 + ATA_CB_SN) st in
      (sc = 0x55 \<and> sn = 0xaa \<and> dh = newdh, st))"

text \<open>One drive of the channel. The results are whether the loop stops, and whether the channel has
  been reset.\<close>

definition detect_drive ::
  "ata_env \<Rightarrow> ata_channel_s \<Rightarrow> u8 \<Rightarrow> bool \<Rightarrow> ata_state \<Rightarrow> (bool \<times> bool \<times> ata_state) option" where
  "detect_drive e chan sl didreset st =
     (let io1 = iobase1 chan; newdh = (if sl \<noteq> 0 then ATA_CB_DH_DEV1 else ATA_CB_DH_DEV0);
          a = \<lparr>chan_gf = chan, slave = sl\<rparr> in
      do { (status, st) \<leftarrow> powerup_await_non_bsy e io1 st;
           if status = None then Some (False, didreset, st)
           else do {
             st \<leftarrow> on_clock (ndelay (a_clk e) 400) (outb newdh (io1 + ATA_CB_DH) st);
             (status, st) \<leftarrow> powerup_await_non_bsy e io1 st;
             if status = None then Some (False, didreset, st)
             else case ports_valid io1 newdh st of (ok, st) \<Rightarrow>
               if \<not> ok then Some (False, didreset, st)
               else do {
                 st \<leftarrow> (if didreset then Some st else ata_reset e a 0 st);
                 (g, st) \<leftarrow> init_drive_atapi e a st;
                 (g, st) \<leftarrow>
                   (if g \<noteq> 0 then Some (g, st)
                    else case inb (io1 + ATA_CB_STAT) st of (v, st) \<Rightarrow>
                      if v = 0 then Some (0, st)
                      else do { (status, st) \<leftarrow> await_rdy e io1 st;
                                if status = None then Some (0, st) else init_drive_ata e a st });
                 Some (g \<noteq> 0 \<and> sl = 0 \<and> id_word e st 93 AND 0xdf61 = 0x4041, True, st) } } })"

definition ata_detect :: "ata_env \<Rightarrow> ata_channel_s \<Rightarrow> ata_state \<Rightarrow> ata_state option" where
  "ata_detect e chan st =
     do { (stop, didreset, st) \<leftarrow> detect_drive e chan 0 False st;
          if stop then Some st
          else do { (stop, didreset, st) \<leftarrow> detect_drive e chan 1 didreset st; Some st } }"

section \<open>Controllers\<close>

definition PCI_BASE_ADDRESS_1 :: u32 where "PCI_BASE_ADDRESS_1 = 0x14"
definition PCI_BASE_ADDRESS_2 :: u32 where "PCI_BASE_ADDRESS_2 = 0x18"
definition PCI_BASE_ADDRESS_3 :: u32 where "PCI_BASE_ADDRESS_3 = 0x1c"
definition PCI_BASE_ADDRESS_4 :: u32 where "PCI_BASE_ADDRESS_4 = 0x20"
definition PCI_COMMAND_MASTER :: u16 where "PCI_COMMAND_MASTER = 4"
definition IRQ_ATA1 :: u8 where "IRQ_ATA1 = 14"
definition IRQ_ATA2 :: u8 where "IRQ_ATA2 = 15"
definition PCI_VENDOR_ID_ATI :: u32 where "PCI_VENDOR_ID_ATI = 0x1002"
definition bda_disk_control_byte :: u32 where "bda_disk_control_byte = 0x76"

text \<open>The PCI address of a controller on ISA ports is -1.\<close>

definition init_controller ::
  "ata_env \<Rightarrow> u16 option \<Rightarrow> u8 \<Rightarrow> u32 \<Rightarrow> u32 \<Rightarrow> u32 \<Rightarrow> ata_state \<Rightarrow> ata_state option" where
  "init_controller e pci i port1 port2 master st =
     (case a_malloc_fseg e st of (c, st) \<Rightarrow>
        if c = 0 then Some st
        else ata_detect e
               \<lparr>iobase1 = ucast port1, iobase2 = ucast port2, iomaster = ucast master, irq = i,
                chanid = of_nat (next_chanid st),
                pci_bdf = (case pci of Some b \<Rightarrow> ucast b | None \<Rightarrow> - 1)\<rparr>
               (st\<lparr>next_chanid := next_chanid st + 1\<rparr>))"

definition pci_port :: "u16 \<Rightarrow> u32 \<Rightarrow> ata_state \<Rightarrow> u32 \<times> ata_state" where
  "pci_port b reg st = (case pci_config_readl b reg st of (v, st) \<Rightarrow> (v AND PCI_BASE_ADDRESS_IO_MASK, st))"

definition init_pciata :: "ata_env \<Rightarrow> u16 \<Rightarrow> u8 \<Rightarrow> ata_state \<Rightarrow> ata_state option" where
  "init_pciata e b prog st =
     (case pci_config_readb b PCI_INTERRUPT_LINE st of (pciirq, st) \<Rightarrow>
      let (master, st) =
            (if config_ata_dma e \<and> prog AND 0x80 \<noteq> 0 then
               (case pci_config_readl b PCI_BASE_ADDRESS_4 st of (bar, st) \<Rightarrow>
                  if bar AND PCI_BASE_ADDRESS_SPACE_IO \<noteq> 0
                  then (bar AND PCI_BASE_ADDRESS_IO_MASK, pci_config_maskw b PCI_COMMAND 0 PCI_COMMAND_MASTER st)
                  else (0, st))
             else (0, st));
          (port1, port2, i, st) =
            (if prog AND 1 \<noteq> 0 then
               (case pci_port b PCI_BASE_ADDRESS_0 st of (p1, st) \<Rightarrow>
                case pci_port b PCI_BASE_ADDRESS_1 st of (p2, st) \<Rightarrow> (p1, p2, pciirq, st))
             else (PORT_ATA1_CMD_BASE, PORT_ATA1_CTRL_BASE, IRQ_ATA1, st)) in
      do { st \<leftarrow> init_controller e (Some b) i port1 port2 master st;
           (let (port1, port2, i, st) =
                  (if prog AND 4 \<noteq> 0 then
                     (case pci_port b PCI_BASE_ADDRESS_2 st of (p1, st) \<Rightarrow>
                      case pci_port b PCI_BASE_ADDRESS_3 st of (p2, st) \<Rightarrow> (p1, p2, pciirq, st))
                   else (PORT_ATA2_CMD_BASE, PORT_ATA2_CTRL_BASE, IRQ_ATA2, st)) in
            init_controller e (Some b) i port1 port2 (if master \<noteq> 0 then master + 8 else 0) st) })"

text \<open>The handlers of the table of controllers; with \<open>CONFIG_AHCI\<close> on, as in \<open>src/Kconfig\<close>, the AHCI
  driver takes those of the second kind.\<close>

definition found_genericata :: "ata_env \<Rightarrow> pci_device \<Rightarrow> ata_state option \<Rightarrow> ata_state option" where
  "found_genericata e pci s = do { st \<leftarrow> s; init_pciata e (bdf pci) (prog_if pci) st }"

definition found_compatibleahci :: "bool \<Rightarrow> ata_env \<Rightarrow> pci_device \<Rightarrow> ata_state option \<Rightarrow> ata_state option" where
  "found_compatibleahci ahci e pci s = (if ahci then s else do { st \<leftarrow> s; init_pciata e (bdf pci) 0x8f st })"

definition pci_ata_tbl :: "bool \<Rightarrow> ata_env \<Rightarrow> ata_state option pci_device_id list" where
  "pci_ata_tbl ahci e =
     [PCI_DEVICE_CLASS PCI_ANY_ID PCI_ANY_ID PCI_CLASS_STORAGE_IDE (found_genericata e),
      PCI_DEVICE PCI_VENDOR_ID_ATI 0x4391 (found_compatibleahci ahci e)]"

definition ata_init :: "bool \<Rightarrow> ata_env \<Rightarrow> pci_device list \<Rightarrow> ata_state \<Rightarrow> ata_state option" where
  "ata_init ahci e pcis st =
     (if pcis = [] then
        do { st \<leftarrow> init_controller e None IRQ_ATA1 PORT_ATA1_CMD_BASE PORT_ATA1_CTRL_BASE 0 st;
             init_controller e None IRQ_ATA2 PORT_ATA2_CMD_BASE PORT_ATA2_CTRL_BASE 0 st }
      else fold (\<lambda>pci s. snd (pci_init_device (pci_ata_tbl ahci e) pci s)) pcis (Some st))"

definition ata_setup :: "bool \<Rightarrow> ata_env \<Rightarrow> pci_device list \<Rightarrow> ata_state \<Rightarrow> ata_state option" where
  "ata_setup ahci e pcis st =
     (case a_calc_future_tsc e IDE_TIMEOUT st of (endt, st) \<Rightarrow>
      do { st \<leftarrow> ata_init ahci e pcis (st\<lparr>SpinupEnd := endt\<rparr>);
           Some (enable_hwirq 14 (SEGOFF SEG_BIOS (entry_76 e)) (set_bda8 bda_disk_control_byte 0xc0 st)) })"

end
