(* ===== verification/Xenstore.thy ===== *)
theory Xenstore
  imports Blockcmd Pmm "HOL-Library.Signed_Division"
begin

text \<open>
  The Xen client of the BIOS: the hypercall page and the shared page of \<open>src/xen.c\<close>, and the client of
  the store in \<open>src/xen-xs.c\<close>: its string routines, the two rings in the page shared with the store, and
  the requests. Everything the hypervisor or the store does is a parameter of the record \<open>xen_env\<close> and
  happens in a hypercall or while the BIOS sleeps; the rings, the messages and the strings are in memory.
  So are the allocators, and the addresses the linker or the stack gives: \<open>lit\<close> is the address of a
  string literal. \<open>None\<close> is a run that never comes back, a panic or an endless wait.
\<close>

section \<open>State and parameters\<close>

text \<open>The fields of \<open>struct blkfront_info\<close> that the driver of \<open>Xenblk\<close> uses.\<close>

record blkfront_info =
  ring_ref :: int
  bi_port :: u32
  bi_private :: u32
  bi_shared :: u32
  bi_buffer :: u32
  buffer_gref :: int

record xen_state = ata_state +
  xen_cpuid_base :: u32
  xen_hypercall_page :: u32
  shared_info :: u32
  rings :: u32
  xs_event :: u32
  grant_entries :: u32
  count_grants :: int
  count_drives :: nat
  xendrives_ptrs :: "nat \<Rightarrow> u32"
  drive_ptrs :: "nat \<Rightarrow> u32"
  xen_info :: "u32 \<Rightarrow> blkfront_info"

record xen_env =
  x_clk :: clock_env
  x_ata :: ata_env
  cpuid :: "u32 \<Rightarrow> u32 \<times> u32 \<times> u32 \<times> u32"
  wrmsr :: "u32 \<Rightarrow> u64 \<Rightarrow> xen_state \<Rightarrow> xen_state"
  memalign_high :: "u32 \<Rightarrow> u32 \<Rightarrow> xen_state \<Rightarrow> u32 \<times> xen_state"
  memalign_low :: "u32 \<Rightarrow> u32 \<Rightarrow> xen_state \<Rightarrow> u32 \<times> xen_state"
  malloc_high :: "u32 \<Rightarrow> xen_state \<Rightarrow> u32 \<times> xen_state"
  malloc_fseg :: "u32 \<Rightarrow> xen_state \<Rightarrow> u32 \<times> xen_state"
  x_free :: "u32 \<Rightarrow> xen_state \<Rightarrow> xen_state"
  add_to_physmap :: "u16 \<Rightarrow> u32 \<Rightarrow> u32 \<Rightarrow> u32 \<Rightarrow> xen_state \<Rightarrow> u32 \<times> xen_state"
  hvm_get_param :: "u16 \<Rightarrow> u32 \<Rightarrow> xen_state \<Rightarrow> u32 \<times> u64 \<times> xen_state"
  gnttab_setup_table :: "u32 \<Rightarrow> u32 \<Rightarrow> xen_state \<Rightarrow> u32 \<times> xen_state"
  evtchn_send :: "u32 \<Rightarrow> xen_state \<Rightarrow> xen_state"
  evtchn_alloc_unbound :: "u32 \<Rightarrow> xen_state \<Rightarrow> xen_state"
  sched_poll :: "u32 \<Rightarrow> xen_state \<Rightarrow> xen_state"
  lit :: "str \<Rightarrow> u32"
  event_addr :: u32
  payload :: u32
  hdr_addr :: u32
  poll_addr :: u32
  num_addr :: u32
  uninit_drive :: u32
  in_pmode :: bool

definition DOMID_SELF :: u16 where "DOMID_SELF = 0x7FF0"
definition PAGE_SHIFT :: nat where "PAGE_SHIFT = 12"

section \<open>Strings and numbers\<close>

text \<open>Numbers are written with the least digit first: the call of \<open>reverse\<close> is commented out in
  \<open>itoa\<close>. Division is the truncating one of C.\<close>

function count_digits :: "int \<Rightarrow> nat" where
  "count_digits i = (if i > 0 then Suc (count_digits (i sdiv 10)) else 0)"
  by pat_completeness auto
termination by (relation "measure nat") (auto simp: signed_divide_int_def)

declare count_digits.simps [simp del]

definition countDigits :: "int \<Rightarrow> nat" where
  "countDigits i = count_digits i"

definition digit_char :: "int \<Rightarrow> u8" where
  "digit_char d = word_of_int d + 48"

function itoa :: "int \<Rightarrow> u32 \<Rightarrow> memory \<Rightarrow> memory" where
  "itoa n s m =
     (let m = m(s := digit_char (n smod 10)); n = n sdiv 10 in
      if n > 0 then itoa n (s + 1) m else m(s + 1 := 0))"
  by pat_completeness auto
termination by (relation "measure (\<lambda>(n, _). nat n)") (auto simp: signed_divide_int_def sgn_if split: if_splits)

declare itoa.simps [simp del]

function reverse_loop :: "u32 \<Rightarrow> int \<Rightarrow> int \<Rightarrow> memory \<Rightarrow> memory" where
  "reverse_loop s i j m =
     (if i < j then
        (let a = s + word_of_int i; b = s + word_of_int j; c = m a; m = m(a := m b) in
         reverse_loop s (i + 1) (j - 1) (m(b := c)))
      else m)"
  by pat_completeness auto
termination by (relation "measure (\<lambda>(s, i, j, m). nat (j - i))") auto

declare reverse_loop.simps [simp del]

definition reverse :: "u32 \<Rightarrow> memory \<Rightarrow> memory option" where
  "reverse s m = do { n \<leftarrow> strlen m s; Some (reverse_loop s 0 (sint n - 1) m) }"

partial_function (option) itoa2_digits :: "int \<Rightarrow> u32 \<Rightarrow> memory \<Rightarrow> memory option" where
  "itoa2_digits n s m =
     (if n \<noteq> 0 then itoa2_digits (n sdiv 10) (s + 1) (m(s := digit_char (n smod 10)))
      else Some (m(s := 0)))"

declare itoa2_digits.simps [code]

definition itoa2 :: "int \<Rightarrow> u32 \<Rightarrow> memory \<Rightarrow> memory option" where
  "itoa2 n s m = do { m \<leftarrow> itoa2_digits n s m; reverse s m }"

function u32toa_digits :: "u32 \<Rightarrow> u32 \<Rightarrow> memory \<Rightarrow> u32 \<times> memory" where
  "u32toa_digits n s m =
     (let m = m(s := ucast (n mod 10) + 48); n = n div 10 in
      if n > 0 then u32toa_digits n (s + 1) m else (s + 1, m))"
  by pat_completeness auto
termination
proof (relation "measure (\<lambda>(n, _). unat n)", goal_cases)
  case (2 n s m x xa)
  then have "0 < unat (n div 10)" by (simp add: word_less_nat_alt)
  then have "unat n div 10 < unat n" by (simp add: unat_div)
  then show ?case using 2 by (simp add: unat_div)
qed simp

declare u32toa_digits.simps [simp del]

definition u32toa :: "u32 \<Rightarrow> u32 \<Rightarrow> memory \<Rightarrow> memory option" where
  "u32toa n s m =
     (let neg = (sint n < 0);
          (p, m) = u32toa_digits (if neg then - n else n) s m;
          (p, m) = (if neg then (p + 1, m(p := 45)) else (p, m)) in
      reverse s (m(p := 0)))"

partial_function (option) atoi_from :: "memory \<Rightarrow> u32 \<Rightarrow> u32 \<Rightarrow> u32 option" where
  "atoi_from m p i =
     (if m p = 0 then Some i
      else atoi_from m (p + 1) (push_bit 3 i + push_bit 1 i + (scast (m p) - 48)))"

declare atoi_from.simps [code]

definition myatoi :: "memory \<Rightarrow> u32 \<Rightarrow> int option" where
  "myatoi m p = map_option sint (atoi_from m p 0)"

definition mmem :: "(memory \<Rightarrow> memory) \<Rightarrow> xen_state \<Rightarrow> xen_state" where
  "mmem f st = st\<lparr>mem := f (mem st)\<rparr>"

definition build_write_query :: "xen_env \<Rightarrow> u32 \<Rightarrow> u32 \<Rightarrow> xen_state \<Rightarrow> (u32 \<times> xen_state) option" where
  "build_write_query e a b st =
     do { la \<leftarrow> strlen (mem st) a;
          lb \<leftarrow> strlen (mem st) b;
          case malloc_high e (la + lb + 2) st of (res, st) \<Rightarrow>
            Some (res, mmem (memcpy (res + la + 1) b (lb + 1) \<circ> memcpy res a (la + 1)
                             \<circ> memset res 0 (unat (la + lb + 2))) st) }"

text \<open>The copy loops of \<open>strconcat\<close>, up to and without the terminator.\<close>

partial_function (option) copy_chars :: "u32 \<Rightarrow> u32 \<Rightarrow> memory \<Rightarrow> (u32 \<times> memory) option" where
  "copy_chars d s m = (if m s \<noteq> 0 then copy_chars (d + 1) (s + 1) (m(d := m s)) else Some (d, m))"

declare copy_chars.simps [code]

definition strconcat :: "xen_env \<Rightarrow> u32 \<Rightarrow> u32 \<Rightarrow> xen_state \<Rightarrow> (u32 \<times> xen_state) option" where
  "strconcat e dest src st =
     do { dest_len \<leftarrow> strlen (mem st) dest;
          src_len \<leftarrow> strlen (mem st) src;
          case malloc_high e (dest_len + src_len + 1) st of (ret, st) \<Rightarrow>
            do { (_, m) \<leftarrow> copy_chars ret dest (mem st);
                 (p, m) \<leftarrow> copy_chars (ret + dest_len) src m;
                 Some (ret, st\<lparr>mem := m(p := 0)\<rparr>) } }"

definition release :: "xen_env \<Rightarrow> u32 \<Rightarrow> xen_state \<Rightarrow> xen_state option" where
  "release e s st =
     do { n \<leftarrow> strlen (mem st) s; Some (x_free e s (mmem (memset s 0 (unat (n + 1))) st)) }"

section \<open>Hypercalls and the shared page\<close>

definition XENMAPSPACE_shared_info :: u32 where "XENMAPSPACE_shared_info = 0"
definition XENMAPSPACE_grant_table :: u32 where "XENMAPSPACE_grant_table = 1"
definition HVM_PARAM_STORE_PFN :: u32 where "HVM_PARAM_STORE_PFN = 1"
definition HVM_PARAM_STORE_EVTCHN :: u32 where "HVM_PARAM_STORE_EVTCHN = 2"
definition evtchn_pending :: u32 where "evtchn_pending = 2048"

text \<open>The signature of a hypervisor is in three registers.\<close>

definition xen_signature :: "u32 \<Rightarrow> u32 \<Rightarrow> u32 \<Rightarrow> bool" where
  "xen_signature ebx ecx edx \<longleftrightarrow> bytes32 ebx @ bytes32 ecx @ bytes32 edx = chars ''XenVMMXenVMM''"

function probe_from :: "xen_env \<Rightarrow> u32 \<Rightarrow> xen_state \<Rightarrow> xen_state option" where
  "probe_from e base st =
     (if base < 0x40010000 then
        (case cpuid e base of (eax, ebx, ecx, edx) \<Rightarrow>
           if xen_signature ebx ecx edx then
             (if eax - base < 2 then None else Some (st\<lparr>xen_cpuid_base := base\<rparr>))
           else probe_from e (base + 0x100) st)
      else Some st)"
  by pat_completeness auto
termination
proof (relation "measure (\<lambda>(e, base, st). 0x40010000 - unat base)", goal_cases)
  case (2 e base st x xa y xb ya z)
  then have "unat base < 0x40010000" by (simp add: word_less_nat_alt)
  moreover from this have "unat (base + 0x100) = unat base + 0x100" by (subst unat_add_lem [THEN iffD1]) simp_all
  ultimately show ?case by simp
qed simp

declare probe_from.simps [simp del]

definition xen_probe :: "xen_env \<Rightarrow> xen_state \<Rightarrow> xen_state option" where
  "xen_probe e st = probe_from e 0x40000000 st"

definition usingXen :: "xen_state \<Rightarrow> bool" where
  "usingXen st \<longleftrightarrow> xen_cpuid_base st \<noteq> 0"

text \<open>The pages of the hypercalls: one write of the register for each.\<close>

definition fill_pages :: "xen_env \<Rightarrow> u32 \<Rightarrow> u32 \<Rightarrow> nat \<Rightarrow> xen_state \<Rightarrow> xen_state" where
  "fill_pages e msr page n st =
     fold (\<lambda>i. wrmsr e msr (ucast (page + push_bit PAGE_SHIFT (of_nat i) + of_nat i))) [0..<n] st"

definition xen_init_hypercalls :: "xen_env \<Rightarrow> xen_state \<Rightarrow> xen_state option" where
  "xen_init_hypercalls e st =
     (if \<not> usingXen st then Some st
      else case cpuid e (xen_cpuid_base st + 2) of (eax, ebx, ecx, edx) \<Rightarrow>
        case memalign_high e PAGE_SIZE (eax * PAGE_SIZE) st of (page, st) \<Rightarrow>
          let st = st\<lparr>xen_hypercall_page := page\<rparr> in
          if page = 0 then None else Some (fill_pages e ebx page (unat eax) st))"

definition get_shared_info :: "xen_env \<Rightarrow> xen_state \<Rightarrow> (u32 \<times> xen_state) option" where
  "get_shared_info e st =
     (if shared_info st \<noteq> 0 then Some (shared_info st, st)
      else case memalign_high e PAGE_SIZE PAGE_SIZE st of (p, st) \<Rightarrow>
        let st = mmem (memset p 0 (unat PAGE_SIZE)) (st\<lparr>shared_info := p\<rparr>) in
        case add_to_physmap e DOMID_SELF XENMAPSPACE_shared_info 0 (drop_bit PAGE_SHIFT p) st of (ret, st) \<Rightarrow>
          if ret \<noteq> 0 then None else Some (p, st))"

text \<open>The instruction \<open>btr\<close> on memory: the bit number reaches beyond the word addressed.\<close>

definition test_and_clear_bit :: "u32 \<Rightarrow> u32 \<Rightarrow> memory \<Rightarrow> bool \<times> memory" where
  "test_and_clear_bit nr addr m =
     (let a = addr + 4 * word_of_int (sint nr div 32); v = rd32 m a; i = unat (nr AND 31) in
      (bit v i, wr32 a (v AND NOT (push_bit i 1)) m))"

section \<open>The connection to the store\<close>

definition XENSTORE_PAYLOAD_MAX :: u32 where "XENSTORE_PAYLOAD_MAX = 4096"
definition XENSTORE_RING_SIZE :: u32 where "XENSTORE_RING_SIZE = 1024"

definition MASK_XENSTORE_IDX :: "u32 \<Rightarrow> u32" where
  "MASK_XENSTORE_IDX idx = idx AND (XENSTORE_RING_SIZE - 1)"

text \<open>Offsets in \<open>struct xenstore_domain_interface\<close>, 2064 bytes.\<close>

definition xs_req :: u32 where "xs_req = 0"
definition xs_rsp :: u32 where "xs_rsp = 1024"
definition xs_req_cons :: u32 where "xs_req_cons = 2048"
definition xs_req_prod :: u32 where "xs_req_prod = 2052"
definition xs_rsp_cons :: u32 where "xs_rsp_cons = 2056"
definition xs_rsp_prod :: u32 where "xs_rsp_prod = 2060"

lemmas xs_offsets = xs_req_def xs_rsp_def xs_req_cons_def xs_req_prod_def xs_rsp_cons_def xs_rsp_prod_def

definition ring_field :: "u32 \<Rightarrow> xen_state \<Rightarrow> u32" where
  "ring_field ofs st = rd32 (mem st) (rings st + ofs)"

definition xenbus_setup :: "xen_env \<Rightarrow> xen_state \<Rightarrow> xen_state option" where
  "xenbus_setup e st =
     (case hvm_get_param e DOMID_SELF HVM_PARAM_STORE_PFN st of (ret, v, st) \<Rightarrow>
        if ret \<noteq> 0 then None
        else
          (let st = st\<lparr>rings := ucast (push_bit PAGE_SHIFT v)\<rparr> in
           case hvm_get_param e DOMID_SELF HVM_PARAM_STORE_EVTCHN st of (ret, v, st) \<Rightarrow>
             if ret \<noteq> 0 then None else Some (st\<lparr>xs_event := ucast v\<rparr>)))"

definition xenbus_shutdown :: "xen_env \<Rightarrow> xen_state \<Rightarrow> xen_state option" where
  "xenbus_shutdown e st =
     (if rings st = 0 then None
      else do { (shinfo, st) \<leftarrow> get_shared_info e (mmem (memset (rings st) 0 2064) st);
                Some ((mmem (memset shinfo 0 1024) st)\<lparr>rings := 0\<rparr>) })"

text \<open>Waiting for the event: the poll structure is on the heap for \<open>ring_wait\<close>, where only its first
  word is cleared, and on the stack for \<open>wait_xenstore\<close>.\<close>

partial_function (option) event_loop :: "xen_env \<Rightarrow> bool \<Rightarrow> u32 \<Rightarrow> u32 \<Rightarrow> xen_state \<Rightarrow> xen_state option" where
  "event_loop e sleep shinfo poll st =
     (case test_and_clear_bit (xs_event st) (shinfo + evtchn_pending) (mem st) of (pending, m) \<Rightarrow>
        let st = st\<lparr>mem := m\<rparr> in
        if pending then Some st
        else do { st \<leftarrow> (if sleep then on_clock (usleep (x_clk e) 3000) st else Some st);
                  event_loop e sleep shinfo poll (sched_poll e poll st) })"

declare event_loop.simps [code]

definition ring_wait :: "xen_env \<Rightarrow> xen_state \<Rightarrow> xen_state option" where
  "ring_wait e st =
     do { (shinfo, st) \<leftarrow> get_shared_info e st;
          case malloc_high e 16 st of (poll, st) \<Rightarrow>
            do { st \<leftarrow> on_clock (usleep (x_clk e) 2000)
                    (mmem (wr32 (poll + 4) 1 \<circ> wr32 poll (event_addr e) \<circ> memset poll 0 4) st);
                 st \<leftarrow> event_loop e True shinfo poll st;
                 Some (x_free e poll st) } }"

definition wait_xenstore :: "xen_env \<Rightarrow> xen_state \<Rightarrow> xen_state option" where
  "wait_xenstore e st =
     do { (shinfo, st) \<leftarrow> get_shared_info e st;
          event_loop e False shinfo (poll_addr e)
            (mmem (wr32 (poll_addr e + 4) 1 \<circ> wr32 (poll_addr e) (event_addr e) \<circ> memset (poll_addr e) 0 16) st) }"

section \<open>The rings\<close>

partial_function (option) write_space :: "xen_env \<Rightarrow> xen_state \<Rightarrow> (u32 \<times> xen_state) option" where
  "write_space e st =
     (let part = (XENSTORE_RING_SIZE - 1) - MASK_XENSTORE_IDX (ring_field xs_req_prod st - ring_field xs_req_cons st) in
      if part = 0 then do { st \<leftarrow> ring_wait e st; write_space e st } else Some (part, st))"

declare write_space.simps [code]

definition ring_part :: "u32 \<Rightarrow> u32 \<Rightarrow> u32 \<Rightarrow> u32" where
  "ring_part part idx len =
     (let part = (if part > XENSTORE_RING_SIZE - MASK_XENSTORE_IDX idx
                  then XENSTORE_RING_SIZE - MASK_XENSTORE_IDX idx else part) in
      if part > len then len else part)"

text \<open>The source pointer of \<open>ring_write\<close> and the target pointer of \<open>ring_read\<close> stay where they are.\<close>

partial_function (option) ring_write_loop :: "xen_env \<Rightarrow> u32 \<Rightarrow> u32 \<Rightarrow> xen_state \<Rightarrow> xen_state option" where
  "ring_write_loop e data len st =
     (if len = 0 then Some st
      else do { (part, st) \<leftarrow> write_space e st;
                let prod = ring_field xs_req_prod st;
                    part = ring_part part prod len;
                    st = mmem (memcpy (rings st + xs_req + MASK_XENSTORE_IDX prod) data part) st;
                    st = mmem (wr32 (rings st + xs_req_prod) (ring_field xs_req_prod st + part)) st in
                ring_write_loop e data (len - part) st })"

declare ring_write_loop.simps [code]

definition ring_write :: "xen_env \<Rightarrow> u32 \<Rightarrow> u32 \<Rightarrow> xen_state \<Rightarrow> xen_state option" where
  "ring_write e data len st = (if len \<ge> XENSTORE_PAYLOAD_MAX then None else ring_write_loop e data len st)"

partial_function (option) read_space :: "xen_env \<Rightarrow> xen_state \<Rightarrow> (u32 \<times> xen_state) option" where
  "read_space e st =
     (let part = MASK_XENSTORE_IDX (ring_field xs_rsp_prod st - ring_field xs_rsp_cons st) in
      if part = 0 then do { st \<leftarrow> ring_wait e st; read_space e st } else Some (part, st))"

declare read_space.simps [code]

partial_function (option) ring_read_loop :: "xen_env \<Rightarrow> u32 \<Rightarrow> u32 \<Rightarrow> xen_state \<Rightarrow> xen_state option" where
  "ring_read_loop e data len st =
     (if len = 0 then Some st
      else do { (part, st) \<leftarrow> read_space e st;
                let cons = ring_field xs_rsp_cons st;
                    part = ring_part part cons len;
                    st = mmem (memcpy data (rings st + xs_rsp + MASK_XENSTORE_IDX cons) part) st;
                    st = mmem (wr32 (rings st + xs_rsp_cons) (ring_field xs_rsp_cons st + part)) st in
                ring_read_loop e data (len - part) st })"

declare ring_read_loop.simps [code]

definition ring_read :: "xen_env \<Rightarrow> u32 \<Rightarrow> u32 \<Rightarrow> xen_state \<Rightarrow> xen_state option" where
  "ring_read e data len st = (if len \<ge> XENSTORE_PAYLOAD_MAX then None else ring_read_loop e data len st)"

section \<open>Requests\<close>

definition XS_DIRECTORY :: u32 where "XS_DIRECTORY = 1"
definition XS_READ :: u32 where "XS_READ = 2"
definition XS_WATCH :: u32 where "XS_WATCH = 4"
definition XS_WRITE :: u32 where "XS_WRITE = 11"
definition XS_ERROR :: u32 where "XS_ERROR = 16"
definition EIO :: u32 where "EIO = 5"

definition xsd_errors :: "(u32 \<times> str) list" where
  "xsd_errors = [(22, chars ''EINVAL''), (13, chars ''EACCES''), (EIO, chars ''EIO''), (106, chars ''EISCONN'')]"

definition literal_at :: "memory \<Rightarrow> u32 \<Rightarrow> str \<Rightarrow> bool" where
  "literal_at m p s \<longleftrightarrow> map (\<lambda>i. m (p + of_nat i)) [0..<length s] = s \<and> m (p + of_nat (length s)) = 0"

definition xsd_errno :: "memory \<Rightarrow> u32 \<Rightarrow> u32" where
  "xsd_errno m p = (case filter (\<lambda>(n, s). literal_at m p s) xsd_errors of [] \<Rightarrow> EIO | (n, s) # _ \<Rightarrow> n)"

text \<open>The results are the answer's type or an error number, the length of the answer and its address,
  which is 0 if there is none.\<close>

definition xenbus_send :: "xen_env \<Rightarrow> u32 \<Rightarrow> u32 \<Rightarrow> u32 \<Rightarrow> xen_state \<Rightarrow> (u32 \<times> u32 \<times> u32 \<times> xen_state) option" where
  "xenbus_send e typ len data st =
     (if rings st = 0 then None
      else
        (let hdr = hdr_addr e;
             st = mmem (wr32 (hdr + 12) len \<circ> wr32 (hdr + 8) 0 \<circ> wr32 (hdr + 4) 222 \<circ> wr32 hdr typ) st in
         do { st \<leftarrow> ring_write e hdr 16 st;
              st \<leftarrow> ring_write e data len st;
              st \<leftarrow> ring_read e hdr 16 (evtchn_send e (xs_event st) st);
              st \<leftarrow> ring_read e (payload e) (rd32 (mem st) (hdr + 12)) st;
              let hlen = rd32 (mem st) (hdr + 12); htype = rd32 (mem st) hdr;
                  st = mmem (\<lambda>m. m(payload e + hlen := 0)) st in
              Some (if htype = XS_ERROR then (xsd_errno (mem st) (payload e), 0, 0, st)
                    else (htype, hlen, payload e, st)) }))"

definition xenstore_watch :: "xen_env \<Rightarrow> u32 \<Rightarrow> u32 \<Rightarrow> xen_state \<Rightarrow> (u32 \<times> xen_state) option" where
  "xenstore_watch e path key st =
     (if rings st = 0 then None
      else do { (query, st) \<leftarrow> build_write_query e path key st;
                lp \<leftarrow> strlen (mem st) path;
                lk \<leftarrow> strlen (mem st) key;
                (ret, len, answer, st) \<leftarrow> xenbus_send e XS_WATCH (lp + lk + 2) query st;
                Some (if ret = XS_ERROR then 0 else answer, st) })"

definition xenstore_read :: "xen_env \<Rightarrow> u32 \<Rightarrow> xen_state \<Rightarrow> (u32 \<times> xen_state) option" where
  "xenstore_read e path st =
     (if rings st = 0 then None
      else do { lp \<leftarrow> strlen (mem st) path;
                (ret, len, answer, st) \<leftarrow> xenbus_send e XS_READ (lp + 1) path st;
                if ret = XS_ERROR then Some (0, st)
                else do { ret_len \<leftarrow> strlen (mem st) answer;
                          case malloc_high e (ret_len + 1) st of (p, st) \<Rightarrow>
                            Some (p, mmem (memcpy p answer (ret_len + 1)) st) } })"

text \<open>The results are the address of the answer in the static buffer and its length.\<close>

definition xenstore_directory :: "xen_env \<Rightarrow> u32 \<Rightarrow> xen_state \<Rightarrow> (u32 \<times> u32 \<times> xen_state) option" where
  "xenstore_directory e path st =
     (if rings st = 0 then None
      else do { lp \<leftarrow> strlen (mem st) path;
                (ret, len, answer, st) \<leftarrow> xenbus_send e XS_DIRECTORY (lp + 1) path st;
                if ret = XS_ERROR then Some (0, len, st)
                else case malloc_high e (len + 2) st of (p, st) \<Rightarrow>
                  Some (answer, len, mmem (memcpy p answer (len + 1)) st) })"

definition xenstore_write :: "xen_env \<Rightarrow> u32 \<Rightarrow> u32 \<Rightarrow> xen_state \<Rightarrow> (u32 \<times> xen_state) option" where
  "xenstore_write e path val st =
     (if rings st = 0 then None
      else do { (query, st) \<leftarrow> build_write_query e path val st;
                lp \<leftarrow> strlen (mem st) path;
                lv \<leftarrow> strlen (mem st) val;
                (ret, len, answer, st) \<leftarrow> xenbus_send e XS_WRITE (lp + lv + 1) query st;
                st \<leftarrow> release e query st;
                if ret = XS_ERROR then Some (0, st)
                else case malloc_high e (len + 1) st of (p, st) \<Rightarrow>
                  Some (p, mmem (memcpy p answer (len + 1)) st) })"

end
