(* ===== verification/Xenblk.thy ===== *)
theory Xenblk
  imports Xenstore
begin

text \<open>
  The paravirtual disks of Xen: \<open>src/xen-blk.c\<close> (grants, the request ring of a drive, the negotiation
  through the store, the setup) with the ring macros of \<open>src/xen.h\<close>, and the requests of
  \<open>src/xen-blk-op.c\<close>. The rings and the grant table are in memory, the rest of \<open>struct xendrive_s\<close> is in
  the records of the drive and of \<open>blkfront_info\<close>. The global \<open>drives\<close> of the file is never set, so the
  id of every drive is 0. Messages are left out, except that with the default debug level 1 the
  message of a read evaluates the copy of the data in its arguments.
\<close>

section \<open>Grants\<close>

definition MAX_GRANT_ENTRIES :: int where "MAX_GRANT_ENTRIES = 30"
definition GTF_permit_access :: u16 where "GTF_permit_access = 1"
definition GTF_accept_transfer :: u16 where "GTF_accept_transfer = 2"
definition permit_access :: int where "permit_access = 0"
definition accept_transfer :: int where "accept_transfer = 1"

text \<open>An entry of the table: flags, domain, frame.\<close>

definition grant_entry :: "xen_state \<Rightarrow> int \<Rightarrow> u32" where
  "grant_entry st g = grant_entries st + 8 * word_of_int g"

definition init_grant_tables :: "xen_env \<Rightarrow> xen_state \<Rightarrow> xen_state option" where
  "init_grant_tables e st =
     (case memalign_high e PAGE_SIZE PAGE_SIZE st of (p, st) \<Rightarrow>
      case add_to_physmap e DOMID_SELF XENMAPSPACE_grant_table 0 (drop_bit PAGE_SHIFT p)
             (mmem (memset p 0 (unat PAGE_SIZE)) st) of (ret, st) \<Rightarrow>
        if ret \<noteq> 0 then None
        else case gnttab_setup_table e (ucast DOMID_SELF) 1 (st\<lparr>grant_entries := p, count_grants := 1\<rparr>) of (ret, st) \<Rightarrow>
          if ret \<noteq> 0 then None else Some st)"

definition get_free_grant :: "u16 \<Rightarrow> int \<Rightarrow> u32 \<Rightarrow> xen_state \<Rightarrow> (int \<times> xen_state) option" where
  "get_free_grant ext_domid perms frame st =
     (if count_grants st < MAX_GRANT_ENTRIES then
        (let g = count_grants st + 1; p = grant_entry st g;
             st = mmem (wr32 (p + 4) (drop_bit 12 frame) \<circ> wr16 (p + 2) ext_domid) st in
         if perms = permit_access then Some (g, (mmem (wr16 p GTF_permit_access) st)\<lparr>count_grants := g\<rparr>)
         else if perms = accept_transfer then Some (g, (mmem (wr16 p GTF_accept_transfer) st)\<lparr>count_grants := g\<rparr>)
         else None)
      else Some (- 1, st))"

section \<open>The ring of a drive\<close>

text \<open>The largest power of two that is not above a number.\<close>

definition RD2 :: "u32 \<Rightarrow> u32" where "RD2 x = (if x AND 0x2 \<noteq> 0 then 0x2 else x AND 0x1)"
definition RD4 :: "u32 \<Rightarrow> u32" where "RD4 x = (if x AND 0xc \<noteq> 0 then push_bit 2 (RD2 (drop_bit 2 x)) else RD2 x)"
definition RD8 :: "u32 \<Rightarrow> u32" where "RD8 x = (if x AND 0xf0 \<noteq> 0 then push_bit 4 (RD4 (drop_bit 4 x)) else RD4 x)"
definition RD16 :: "u32 \<Rightarrow> u32" where "RD16 x = (if x AND 0xff00 \<noteq> 0 then push_bit 8 (RD8 (drop_bit 8 x)) else RD8 x)"
definition RD32 :: "u32 \<Rightarrow> u32" where
  "RD32 x = (if x AND 0xffff0000 \<noteq> 0 then push_bit 16 (RD16 (drop_bit 16 x)) else RD16 x)"

text \<open>Offsets in the shared ring, where the entries of 84 bytes start at offset 64, in the front ring,
  in a request and in a response, which share the entry.\<close>

definition sr_req_prod :: u32 where "sr_req_prod = 0"
definition sr_req_event :: u32 where "sr_req_event = 4"
definition sr_rsp_prod :: u32 where "sr_rsp_prod = 8"
definition sr_rsp_event :: u32 where "sr_rsp_event = 12"
definition sr_ring :: u32 where "sr_ring = 64"
definition SIZEOF_sring_entry :: u32 where "SIZEOF_sring_entry = 84"
definition fr_req_prod_pvt :: u32 where "fr_req_prod_pvt = 0"
definition fr_rsp_cons :: u32 where "fr_rsp_cons = 4"
definition fr_nr_ents :: u32 where "fr_nr_ents = 8"
definition fr_sring :: u32 where "fr_sring = 12"
definition rq_operation :: u32 where "rq_operation = 0"
definition rq_nr_segments :: u32 where "rq_nr_segments = 1"
definition rq_id :: u32 where "rq_id = 4"
definition rq_sector_number :: u32 where "rq_sector_number = 12"
definition rq_seg_gref :: u32 where "rq_seg_gref = 20"
definition rq_seg_first :: u32 where "rq_seg_first = 24"
definition rq_seg_last :: u32 where "rq_seg_last = 25"
definition rs_id :: u32 where "rs_id = 0"
definition rs_operation :: u32 where "rs_operation = 8"
definition rs_status :: u32 where "rs_status = 10"

lemmas sring_offsets = sr_req_prod_def sr_req_event_def sr_rsp_prod_def sr_rsp_event_def sr_ring_def SIZEOF_sring_entry_def
lemmas fring_offsets = fr_req_prod_pvt_def fr_rsp_cons_def fr_nr_ents_def fr_sring_def
lemmas request_offsets = rq_operation_def rq_nr_segments_def rq_id_def rq_sector_number_def rq_seg_gref_def
  rq_seg_first_def rq_seg_last_def
lemmas response_offsets = rs_id_def rs_operation_def rs_status_def

definition SHARED_RING_INIT :: "u32 \<Rightarrow> memory \<Rightarrow> memory" where
  "SHARED_RING_INIT s m =
     (let m = wr32 (s + sr_rsp_prod) 0 m; m = wr32 (s + sr_req_prod) 0 m;
          m = wr32 (s + sr_rsp_event) 1 m; m = wr32 (s + sr_req_event) 1 m;
          m = memset (s + 16) 0 4 m in
      memset (s + 20) 0 44 m)"

definition RING_ENTRIES :: "u32 \<Rightarrow> u32" where
  "RING_ENTRIES sz = RD32 ((sz - sr_ring) div SIZEOF_sring_entry)"

definition FRONT_RING_INIT :: "u32 \<Rightarrow> u32 \<Rightarrow> u32 \<Rightarrow> memory \<Rightarrow> memory" where
  "FRONT_RING_INIT r s sz m =
     (let m = wr32 (r + fr_req_prod_pvt) 0 m; m = wr32 (r + fr_rsp_cons) 0 m;
          m = wr32 (r + fr_nr_ents) (RING_ENTRIES sz) m in
      wr32 (r + fr_sring) s m)"

text \<open>\<open>RING_GET_REQUEST\<close> and \<open>RING_GET_RESPONSE\<close>, the address of an entry.\<close>

definition ring_slot :: "memory \<Rightarrow> u32 \<Rightarrow> u32 \<Rightarrow> u32" where
  "ring_slot m r idx =
     rd32 m (r + fr_sring) + sr_ring + SIZEOF_sring_entry * (idx AND (rd32 m (r + fr_nr_ents) - 1))"

definition push_requests_and_check_notify :: "u32 \<Rightarrow> memory \<Rightarrow> bool \<times> memory" where
  "push_requests_and_check_notify r m =
     (let s = rd32 m (r + fr_sring); old = rd32 m (s + sr_req_prod); new = rd32 m (r + fr_req_prod_pvt);
          m = wr32 (s + sr_req_prod) new m in
      (new - rd32 m (s + sr_req_event) < new - old, m))"

section \<open>The requests\<close>

definition MAX_DRIVES :: nat where "MAX_DRIVES = 4"
definition BYTES_PER_SECTOR :: u32 where "BYTES_PER_SECTOR = 4096"
definition BLKIF_OP_READ :: u8 where "BLKIF_OP_READ = 0"
definition BLKIF_OP_WRITE :: u8 where "BLKIF_OP_WRITE = 1"
definition BLKIF_RSP_OKAY :: u16 where "BLKIF_RSP_OKAY = 0"

text \<open>The last drive whose address has the low 16 bits asked for.\<close>

definition find_xendrive :: "xen_state \<Rightarrow> u32 \<Rightarrow> u32 \<Rightarrow> u32" where
  "find_xendrive st g none =
     fold (\<lambda>i xd. if ucast (ucast (drive_ptrs st i) :: u16) = g then xendrives_ptrs st i else xd) [0..<MAX_DRIVES] none"

definition fill_request :: "u32 \<Rightarrow> u64 \<Rightarrow> u8 \<Rightarrow> u64 \<Rightarrow> u8 \<Rightarrow> int \<Rightarrow> memory \<Rightarrow> memory" where
  "fill_request r ident opn sector nseg gref m =
     (let m = wr64 (r + rq_id) ident m; m = wr8 (r + rq_operation) opn m;
          m = wr64 (r + rq_sector_number) sector m; m = wr8 (r + rq_nr_segments) nseg m;
          m = wr32 (r + rq_seg_gref) (word_of_int gref) m; m = wr8 (r + rq_seg_first) 0 m in
      wr8 (r + rq_seg_last) 7 m)"

definition xb_send :: "xen_env \<Rightarrow> bool \<Rightarrow> blkfront_info \<Rightarrow> xen_state \<Rightarrow> xen_state" where
  "xb_send e notify bi st = (if notify then evtchn_send e (bi_port bi) st else st)"

text \<open>The next response: the producer index, which is the backend's, is advanced by the driver.\<close>

definition take_response :: "blkfront_info \<Rightarrow> u32 \<Rightarrow> xen_state \<Rightarrow> u32 \<times> xen_state" where
  "take_response bi s st =
     (let idx = rd32 (mem st) (s + sr_rsp_prod); st = mmem (wr32 (s + sr_rsp_prod) (idx + 1)) st in
      (ring_slot (mem st) (bi_private bi) idx, st))"

definition xen_blk_op_write :: "xen_env \<Rightarrow> disk_op_s \<Rightarrow> xen_state \<Rightarrow> (u32 \<times> xen_state) option" where
  "xen_blk_op_write e dop st =
     (let xd = find_xendrive st (op_drive_g dop) 0 in
      if xd = 0 then Some (- 1, st)
      else
        (let bi = xen_info st xd;
             req = ring_slot (mem st) (bi_private bi) (rd32 (mem st) (bi_private bi + fr_req_prod_pvt));
             st = mmem (fill_request req 111 BLKIF_OP_WRITE (op_lba dop) (ucast (op_count dop)) (buffer_gref bi)) st;
             (notify, m) = push_requests_and_check_notify (bi_private bi) (mem st);
             st = xb_send e notify bi (st\<lparr>mem := m\<rparr>) in
         do { st \<leftarrow> on_clock (usleep (x_clk e) 5) st;
              let (res, st) = take_response bi (bi_shared bi) st;
                  st = xb_send e notify bi st;
                  (res, st) = take_response bi (rd32 (mem st) (bi_private bi + fr_sring)) st;
                  st = (if rd64 (mem st) (res + rs_id) = 111 \<and> mem st (res + rs_operation) = BLKIF_OP_WRITE
                        then mmem (memcpy (bi_buffer bi) (op_buf_fl dop) (ucast (op_count dop) * BYTES_PER_SECTOR)) st
                        else st) in
              Some (if rd16 (mem st) (res + rs_status) = BLKIF_RSP_OKAY then 0 else - 1, st) }))"

text \<open>The status is unsigned, so the comparisons with the negative codes never hold.\<close>

definition xen_blk_op_read :: "xen_env \<Rightarrow> disk_op_s \<Rightarrow> xen_state \<Rightarrow> u32 \<times> xen_state" where
  "xen_blk_op_read e dop st =
     (let bi = xen_info st (find_xendrive st (op_drive_g dop) (uninit_drive e));
          req = ring_slot (mem st) (bi_private bi) (rd32 (mem st) (bi_private bi + fr_req_prod_pvt));
          st = mmem (fill_request req 8 BLKIF_OP_READ (op_lba dop) 1 (buffer_gref bi)) st;
          (notify, m) = push_requests_and_check_notify (bi_private bi) (mem st);
          st = xb_send e notify bi (st\<lparr>mem := m\<rparr>);
          (res, st) = take_response bi (bi_shared bi) st;
          st = (if rd64 (mem st) (res + rs_id) = 8
                then mmem (memcpy (op_buf_fl dop) (bi_buffer bi) (ucast (op_count dop) * BYTES_PER_SECTOR)) st else st) in
      (if rd16 (mem st) (res + rs_status) = BLKIF_RSP_OKAY then 0 else - 1, st))"

text \<open>\<open>xen_blk_op\<close> switches to 32-bit mode, which fails in 16-bit protected mode, and
  \<open>process_xen_op\<close>, whose name the record of drivers has for the parameter.\<close>

definition xen_blk_op :: "xen_env \<Rightarrow> disk_op_s \<Rightarrow> int \<Rightarrow> xen_state \<Rightarrow> (u32 \<times> xen_state) option" where
  "xen_blk_op e dop opn st =
     (if opn = 0 then Some (if in_pmode e then (DISK_RET_EPARAM, st) else xen_blk_op_read e dop st)
      else if opn = 1 then (if in_pmode e then Some (DISK_RET_EPARAM, st) else xen_blk_op_write e dop st)
      else Some (DISK_RET_EPARAM, st))"

definition xen_process_op :: "xen_env \<Rightarrow> disk_op_s \<Rightarrow> xen_state \<Rightarrow> (u32 \<times> disk_op_s \<times> xen_state) option" where
  "xen_process_op e dop st =
     (if op_command dop = CMD_READ then do { (ret, st) \<leftarrow> xen_blk_op e dop 0 st; Some (ret, dop, st) }
      else if op_command dop = CMD_WRITE then do { (ret, st) \<leftarrow> xen_blk_op e dop 1 st; Some (ret, dop, st) }
      else if op_command dop = CMD_FORMAT \<or> op_command dop = CMD_RESET \<or> op_command dop = CMD_ISREADY
           \<or> op_command dop = CMD_VERIFY \<or> op_command dop = CMD_SEEK then Some (DISK_RET_SUCCESS, dop, st)
      else Some (DISK_RET_EPARAM, dop\<lparr>op_count := 0\<rparr>, st))"

end
