(* ===== verification/Xensetup.thy ===== *)
theory Xensetup
  imports Xenblk Pci
begin

text \<open>
  The set up of the Xen disks in \<open>src/xen-blk.c\<close>: the drives listed in the store, the structure and the
  rings of a drive, and the negotiation with the backend in its seven steps.
\<close>

section \<open>A drive\<close>

definition zero_info :: blkfront_info where
  "zero_info = \<lparr>ring_ref = 0, bi_port = 0, bi_private = 0, bi_shared = 0, bi_buffer = 0, buffer_gref = 0\<rparr>"

definition upd_xinfo :: "u32 \<Rightarrow> (blkfront_info \<Rightarrow> blkfront_info) \<Rightarrow> xen_state \<Rightarrow> xen_state" where
  "upd_xinfo xd f st = st\<lparr>xen_info := (xen_info st)(xd := f (xen_info st xd))\<rparr>"

text \<open>The structure gets the 4 bytes of a pointer.\<close>

definition init_xen_blk :: "xen_env \<Rightarrow> xen_state \<Rightarrow> (u32 \<times> xen_state) option" where
  "init_xen_blk e st =
     (case malloc_fseg e 4 st of (xd, st) \<Rightarrow>
      let n = count_drives st;
          st = st\<lparr>xendrives_ptrs := (xendrives_ptrs st)(n := xd), drive_ptrs := (drive_ptrs st)(n := xd),
                  count_drives := n + 1\<rparr> in
      if xd = 0 then Some (0, x_free e xd st)
      else
        (let st = st\<lparr>drives := (drives st)(xd := zero_drive), xen_info := (xen_info st)(xd := zero_info)\<rparr> in
         case memalign_low e 4096 4096 st of (buf, st) \<Rightarrow>
           let st = upd_xinfo xd (\<lambda>i. i\<lparr>bi_buffer := buf\<rparr>) st in
           if buf = 0 then None
           else
             (let st = mmem (memset buf 0 4096) st;
                  st = upd_drive xd (\<lambda>d. d\<lparr>dtype := DTYPE_XEN, cntl_id := 0\<rparr>) st in
              case memalign_low e 4096 4096 st of (priv, st) \<Rightarrow>
              case memalign_low e 4096 4096 st of (shared, st) \<Rightarrow>
                let st = upd_xinfo xd (\<lambda>i. i\<lparr>ring_ref := 0, bi_private := priv, bi_shared := shared\<rparr>) st in
                if shared = 0 \<or> priv = 0 then Some (0, st)
                else
                  (let st = mmem (FRONT_RING_INIT priv shared PAGE_SIZE \<circ> SHARED_RING_INIT shared
                                  \<circ> memset shared 0 4096 \<circ> memset priv 0 4096) st in
                   do { (g, st) \<leftarrow> get_free_grant 0 permit_access shared st;
                        (h, st) \<leftarrow> get_free_grant 0 permit_access buf
                           (upd_xinfo xd (\<lambda>i. i\<lparr>ring_ref := g\<rparr>) st);
                        Some (xd, upd_xinfo xd (\<lambda>i. i\<lparr>buffer_gref := h\<rparr>) st) }))))"

section \<open>The negotiation\<close>

definition XenbusStateInitialising :: int where "XenbusStateInitialising = 1"
definition XenbusStateInitialised :: int where "XenbusStateInitialised = 3"
definition XenbusStateConnected :: int where "XenbusStateConnected = 4"

text \<open>A key below a path, a number written to a key, and a key read and released again.\<close>

definition under :: "xen_env \<Rightarrow> u32 \<Rightarrow> string \<Rightarrow> xen_state \<Rightarrow> (u32 \<times> xen_state) option" where
  "under e path s st = strconcat e path (lit e (chars s)) st"

definition xenstore_share_disk7 ::
  "xen_env \<Rightarrow> u32 \<Rightarrow> u32 \<Rightarrow> u32 \<Rightarrow> int \<Rightarrow> u32 \<Rightarrow> xen_state \<Rightarrow> (int \<times> xen_state) option" where
  "xenstore_share_disk7 e xd bckend_path state dom0_state device_state st =
     (if dom0_state = 4 then
        do { (r, st) \<leftarrow> xenstore_write e device_state state (mmem (itoa XenbusStateConnected state) st);
             (backend_sectors, st) \<leftarrow> under e bckend_path ''/sectors'' st;
             (response, st) \<leftarrow> xenstore_read e backend_sectors st;
             st \<leftarrow> release e backend_sectors st;
             n \<leftarrow> myatoi (mem st) response;
             let st = upd_drive xd (\<lambda>d. d\<lparr>sectors := word_of_int n\<rparr>) st;
             (backend_sector_size, st) \<leftarrow> under e bckend_path ''/sector-size'' st;
             (response2, st) \<leftarrow> xenstore_read e backend_sector_size st;
             n \<leftarrow> myatoi (mem st) response2;
             let st = upd_drive xd (\<lambda>d. d\<lparr>blksize := word_of_int n,
                        lchs := \<lparr>heads = 255, cylinders = 255, spt = 63\<rparr>\<rparr>) st;
             st \<leftarrow> release e response st;
             st \<leftarrow> release e response2 st;
             st \<leftarrow> release e state st;
             st \<leftarrow> release e device_state st;
             st \<leftarrow> release e bckend_path st;
             st \<leftarrow> release e backend_sector_size st;
             Some (0, st) }
      else
        do { (xw_res, st) \<leftarrow> xenstore_write e device_state state (mmem (itoa XenbusStateInitialising state) st);
             st \<leftarrow> release e state st;
             st \<leftarrow> release e xw_res st;
             st \<leftarrow> release e device_state st;
             st \<leftarrow> release e bckend_path st;
             Some (1, st) })"

text \<open>The backend's state, and the wait until it is 4.\<close>

definition backend_state :: "xen_env \<Rightarrow> u32 \<Rightarrow> xen_state \<Rightarrow> (int \<times> xen_state) option" where
  "backend_state e path st =
     do { (v, st) \<leftarrow> xenstore_read e path st;
          n \<leftarrow> myatoi (mem st) v;
          st \<leftarrow> release e v st;
          Some (n, st) }"

partial_function (option) await_connected :: "xen_env \<Rightarrow> u32 \<Rightarrow> int \<Rightarrow> xen_state \<Rightarrow> (int \<times> xen_state) option" where
  "await_connected e path dom0_state st =
     (if dom0_state \<noteq> 4 then
        do { st \<leftarrow> on_clock (usleep (x_clk e) 1500000) st;
             (dom0_state, st) \<leftarrow> backend_state e path st;
             await_connected e path dom0_state st }
      else Some (dom0_state, st))"

declare await_connected.simps [code]

definition xenstore_share_disk6 ::
  "xen_env \<Rightarrow> u32 \<Rightarrow> u32 \<Rightarrow> u32 \<Rightarrow> u32 \<Rightarrow> u32 \<Rightarrow> xen_state \<Rightarrow> (int \<times> xen_state) option" where
  "xenstore_share_disk6 e xd path_status bckend_path state device_state st =
     do { st \<leftarrow> on_clock (usleep (x_clk e) 150000) st;
          (dom0_state, st) \<leftarrow> backend_state e path_status st;
          (dom0_state, st) \<leftarrow> await_connected e path_status dom0_state st;
          st \<leftarrow> release e path_status st;
          xenstore_share_disk7 e xd bckend_path state dom0_state device_state st }"

definition xenstore_share_disk5 ::
  "xen_env \<Rightarrow> u32 \<Rightarrow> u32 \<Rightarrow> u32 \<Rightarrow> u32 \<Rightarrow> u32 \<Rightarrow> xen_state \<Rightarrow> (int \<times> xen_state) option" where
  "xenstore_share_disk5 e xd path_status bckend_path state device_state st =
     do { (v, st) \<leftarrow> xenstore_read e path_status st;
          st \<leftarrow> release e v st;
          (w, st) \<leftarrow> xenstore_write e device_state state (mmem (itoa XenbusStateInitialised state) st);
          st \<leftarrow> release e w st;
          xenstore_share_disk6 e xd path_status bckend_path state device_state st }"

definition xenstore_share_disk4 ::
  "xen_env \<Rightarrow> u32 \<Rightarrow> u32 \<Rightarrow> u32 \<Rightarrow> u32 \<Rightarrow> u32 \<Rightarrow> u32 \<Rightarrow> xen_state \<Rightarrow> (int \<times> xen_state) option" where
  "xenstore_share_disk4 e dv xd path_status bckend_path state device_state st =
     do { (v, st) \<leftarrow> xenstore_read e path_status st;
          (ring_ref_path, st) \<leftarrow> under e dv ''/ring-ref'' st;
          st \<leftarrow> release e dv st;
          case malloc_high e 6 st of (counts, st) \<Rightarrow>
            do { (w, st) \<leftarrow> xenstore_write e ring_ref_path counts (mmem (itoa (ring_ref (xen_info st xd)) counts) st);
                 st \<leftarrow> release e ring_ref_path st;
                 st \<leftarrow> release e counts st;
                 st \<leftarrow> release e w st;
                 xenstore_share_disk5 e xd path_status bckend_path state device_state st } }"

definition xenstore_share_disk3 ::
  "xen_env \<Rightarrow> u32 \<Rightarrow> u32 \<Rightarrow> u32 \<Rightarrow> u32 \<Rightarrow> u32 \<Rightarrow> u32 \<Rightarrow> xen_state \<Rightarrow> (int \<times> xen_state) option" where
  "xenstore_share_disk3 e dv xd path_status bckend_path state device_state st =
     (case malloc_high e 8 st of (newport, st) \<Rightarrow>
      let st = evtchn_alloc_unbound e newport (mmem (wr16 (newport + 2) 0 \<circ> wr16 newport DOMID_SELF) st);
          port = rd32 (mem st) (newport + 4); st = upd_xinfo xd (\<lambda>i. i\<lparr>bi_port := port\<rparr>) st in
      case malloc_high e (of_nat (countDigits (sint port) + 1)) st of (ring_port, st) \<Rightarrow>
        do { (device_port, st) \<leftarrow> under e dv ''/port'' (mmem (itoa (sint port) ring_port) st);
             (r, st) \<leftarrow> xenstore_write e device_port ring_port st;
             st \<leftarrow> release e device_port st;
             (device_event_channel, st) \<leftarrow> under e dv ''/event-channel'' st;
             st \<leftarrow> release e r st;
             (c, st) \<leftarrow> xenstore_write e device_event_channel ring_port st;
             st \<leftarrow> release e device_event_channel st;
             st \<leftarrow> release e ring_port st;
             st \<leftarrow> release e c st;
             xenstore_share_disk4 e dv xd path_status bckend_path state device_state st })"

definition xenstore_share_disk2 ::
  "xen_env \<Rightarrow> u32 \<Rightarrow> u32 \<Rightarrow> u32 \<Rightarrow> u32 \<Rightarrow> u32 \<Rightarrow> xen_state \<Rightarrow> (int \<times> xen_state) option" where
  "xenstore_share_disk2 e dv xd path_status device_state bckend_path st =
     (case malloc_high e 6 st of (state, st) \<Rightarrow>
        do { st \<leftarrow> on_clock (usleep (x_clk e) 5000) (mmem (itoa XenbusStateInitialising state) st);
             (w, st) \<leftarrow> xenstore_write e device_state state st;
             xenstore_share_disk3 e dv xd path_status bckend_path state device_state st })"

definition xenstore_share_disk :: "xen_env \<Rightarrow> u32 \<Rightarrow> u32 \<Rightarrow> xen_state \<Rightarrow> (int \<times> xen_state) option" where
  "xenstore_share_disk e vbd xd st =
     do { (dv, st) \<leftarrow> strconcat e (lit e (chars ''device/vbd/'')) vbd st;
          (device_protocol, st) \<leftarrow> under e dv ''/protocol'' st;
          (p, st) \<leftarrow> xenstore_write e device_protocol (lit e (chars ''x86_32-abi'')) st;
          (device_state, st) \<leftarrow> under e dv ''/state'' st;
          (vbd_backend_path, st) \<leftarrow> under e dv ''/backend'' st;
          (b, st) \<leftarrow> xenstore_read e vbd_backend_path st;
          n \<leftarrow> strlen (mem st) b;
          if n < 1 then Some (1, st)
          else case malloc_high e (n + 1) st of (bckend_path, st) \<Rightarrow>
            do { (path_status, st) \<leftarrow> under e bckend_path ''/state'' (mmem (memcpy bckend_path b (n + 1)) st);
                 st \<leftarrow> release e b st;
                 xenstore_share_disk2 e dv xd path_status device_state bckend_path st } }"

text \<open>The result is 0 for a disk that is connected, 3 for a CD, which is not connected at all.\<close>

definition xenstore_share_vbd :: "xen_env \<Rightarrow> u32 \<Rightarrow> u32 \<Rightarrow> xen_state \<Rightarrow> (int \<times> xen_state) option" where
  "xenstore_share_vbd e vbd xd st =
     do { (dv, st) \<leftarrow> strconcat e (lit e (chars ''device/vbd/'')) vbd st;
          (device_type, st) \<leftarrow> under e dv ''/device-type'' st;
          st \<leftarrow> release e dv st;
          (res, st) \<leftarrow> xenstore_read e device_type st;
          disk \<leftarrow> strcmp (mem st) res (lit e (chars ''disk''));
          cdrom \<leftarrow> (if disk = 0 then Some 0 else strcmp (mem st) res (lit e (chars ''cdrom'')));
          st \<leftarrow> release e device_type st;
          st \<leftarrow> release e res st;
          if disk = 0 then xenstore_share_disk e vbd xd st
          else if cdrom = 0 then Some (3, st) else Some (1, st) }"

section \<open>All drives\<close>

text \<open>The list is copied with the address of a local variable as its length; the length returned is the
  one of the answer.\<close>

definition list_xenstore_drives :: "xen_env \<Rightarrow> xen_state \<Rightarrow> (u32 \<times> u32 \<times> xen_state) option" where
  "list_xenstore_drives e st =
     do { (vbd_id, num, st) \<leftarrow> xenstore_directory e (lit e (chars ''device/vbd'')) st;
          case malloc_high e (num_addr e + 1) st of (p, st) \<Rightarrow>
            Some (p, num, mmem (memcpy p vbd_id (num_addr e + 1)) st) }"

definition count_nulls :: "memory \<Rightarrow> u32 \<Rightarrow> nat \<Rightarrow> nat" where
  "count_nulls m p n = length (filter (\<lambda>i. m (p + of_nat i) = 0) [0..<n])"

definition xen_desc :: "string \<Rightarrow> nat \<Rightarrow> int \<Rightarrow> str" where
  "xen_desc kind n ident = chars kind @ put_signed (of_nat n) @ chars ''-XS '' @ put_signed (word_of_int ident) @ [10]"

definition register_drive :: "xen_env \<Rightarrow> int \<Rightarrow> u32 \<Rightarrow> u32 \<Rightarrow> nat \<Rightarrow> xen_state \<Rightarrow> (nat \<times> xen_state) option" where
  "register_drive e res xd cur n st =
     (if res = 0 then
        do { ident \<leftarrow> myatoi (mem st) cur;
             Some (n + 1, st\<lparr>a_boot := boot_add_hd (drive_keys st) (a_entry_ok (x_ata e)) xd
               (boot_desc (x_ata e) (xen_desc ''Xen DISK '' n ident)) (int n) (a_boot st)\<rparr>) }
      else if res = 3 then
        do { ident \<leftarrow> myatoi (mem st) cur;
             Some (n + 1, st\<lparr>a_boot := boot_add_cd (drive_keys st) (a_entry_ok (x_ata e)) xd
               (boot_desc (x_ata e) (xen_desc ''Xen CD-ROM '' n ident)) (int n) (a_boot st)\<rparr>) }
      else Some (n, st))"

text \<open>The drives left: \<open>k\<close> of them, the next at offset \<open>ofs\<close> of the list, \<open>cur\<close> the copy of the last
  name, \<open>n\<close> the drives registered.\<close>

fun setup_vbds :: "xen_env \<Rightarrow> u32 \<Rightarrow> nat \<Rightarrow> u32 \<Rightarrow> u32 \<Rightarrow> nat \<Rightarrow> xen_state \<Rightarrow> (nat \<times> xen_state) option" where
  "setup_vbds e vbds 0 ofs cur n st = Some (n, st)"
| "setup_vbds e vbds (Suc k) ofs cur n st =
     do { this \<leftarrow> strlen (mem st) (vbds + ofs);
          st \<leftarrow> release e cur st;
          case malloc_high e (this + 1) st of (cur, st) \<Rightarrow>
            do { (xd, st) \<leftarrow> init_xen_blk e (mmem (memcpy cur (vbds + ofs) (this + 1)) st);
                 (res, st) \<leftarrow> xenstore_share_vbd e cur xd st;
                 len \<leftarrow> strlen (mem st) cur;
                 (n, st) \<leftarrow> register_drive e res xd cur n st;
                 setup_vbds e vbds k (ofs + len + 1) cur n st } }"

text \<open>The first Xen device starts the store and takes all drives; a later one finds none left.\<close>

definition xen_device :: "xen_env \<Rightarrow> (u32 \<times> nat) option \<Rightarrow> nat \<Rightarrow> xen_state \<Rightarrow> ((u32 \<times> nat) option \<times> nat \<times> xen_state) option" where
  "xen_device e found n st =
     do { ((vbds, k), st) \<leftarrow>
            (case found of Some v \<Rightarrow> Some (v, st)
             | None \<Rightarrow> do { st \<leftarrow> xenbus_setup e st;
                            (vbds, num, st) \<leftarrow> list_xenstore_drives e st;
                            st \<leftarrow> init_grant_tables e st;
                            Some ((vbds, count_nulls (mem st) vbds (unat num)), st) });
          this \<leftarrow> strlen (mem st) vbds;
          case malloc_high e this st of (cur, st) \<Rightarrow>
            do { (n, st) \<leftarrow> setup_vbds e vbds k 0 cur n (mmem (memcpy cur vbds (this + 1)) st);
                 Some (Some (vbds, 0), n, st) } }"

definition PCI_VENDOR_ID_XEN :: u16 where "PCI_VENDOR_ID_XEN = 0x5853"

fun xen_devices :: "xen_env \<Rightarrow> pci_device list \<Rightarrow> (u32 \<times> nat) option \<Rightarrow> nat \<Rightarrow> xen_state \<Rightarrow> xen_state option" where
  "xen_devices e [] found n st = Some st"
| "xen_devices e (pci # pcis) found n st =
     (if vendor pci = PCI_VENDOR_ID_XEN \<or> device_id pci = 1 then
        do { (found, n, st) \<leftarrow> xen_device e found n st; xen_devices e pcis found n st }
      else xen_devices e pcis found n st)"

definition xen_blk_setup :: "xen_env \<Rightarrow> pci_device list \<Rightarrow> xen_state \<Rightarrow> xen_state option" where
  "xen_blk_setup e pcis st = xen_devices e pcis None 0 (st\<lparr>count_drives := 0\<rparr>)"

end
