(* ===== verification/XenSpec.thy ===== *)
theory XenSpec
  imports Xensetup AtaSpec Region
begin

text \<open>
  What the Xen disks do: the grants, the ring of requests of a drive, the two rings of the store, and the
  numbers written to it.
\<close>

section \<open>The requests of a drive\<close>

text \<open>The rings of a drive as the set up leaves them: 32 entries, no request, no response, and the
  entries that no request has used hold zeros.\<close>

definition idle_ring :: "blkfront_info \<Rightarrow> memory \<Rightarrow> bool" where
  "idle_ring bi m \<longleftrightarrow>
     (let p = bi_private bi; s = bi_shared bi in
      rd32 m (p + fr_req_prod_pvt) = 0 \<and> rd32 m (p + fr_sring) = s \<and> rd32 m (p + fr_nr_ents) = 32
      \<and> rd32 m (s + sr_req_prod) = 0 \<and> rd32 m (s + sr_req_event) = 1
      \<and> (\<forall>x. 148 \<le> unat (x - s) \<and> unat (x - s) < 4096 \<longrightarrow> m x = 0) \<and> apart p 16 s 4096)"

lemma ring_entries: "RING_ENTRIES PAGE_SIZE = 32"
  by (simp add: RING_ENTRIES_def PAGE_SIZE_def sring_offsets RD32_def RD16_def RD8_def RD4_def RD2_def)

lemma fill_request_out: "26 \<le> unat (x - r) \<Longrightarrow> fill_request r i opn sec n g m x = m x"
proof -
  assume x: "26 \<le> unat (x - r)"
  have far: "unat (x - (r + d)) = unat (x - r) - unat d" if "unat d \<le> 26" for d
  proof -
    have "d \<le> x - r" using that x by (simp add: word_le_nat_alt)
    moreover have "x - (r + d) = x - r - d" by simp
    ultimately show ?thesis by (simp only: unat_sub)
  qed
  show ?thesis
    using x far [of 1] far [of 4] far [of 12] far [of 20] far [of 24] far [of 25]
    by (simp add: fill_request_def Let_def request_offsets wr8_out wr32_out wr64_out)
qed

lemma fill_request_reads:
  "fill_request r 8 BLKIF_OP_READ sec n g m r = 0"
  "rd16 (fill_request r 8 BLKIF_OP_READ sec n g m) (r + 10) = 0"
  by (simp_all add: fill_request_def Let_def request_offsets BLKIF_OP_READ_def rd16_def wr64_def wr32_def wr16_def wr8_def
      add.assoc)


lemma rd64_low: "rd64 m a = 8 \<Longrightarrow> m a = 8"
proof -
  assume "rd64 m a = 8"
  then have "ucast (rd64 m a) = (8 :: u8)" by simp
  moreover have "ucast (rd64 m a) = m a"
    by (simp add: rd64_def rd32_def rd16_def) (auto simp: bit_eq_iff bit_simps)
  ultimately show ?thesis by simp
qed

text \<open>The places a read writes to: the producer indices and the first entry.\<close>

definition ring_marks :: "nat \<Rightarrow> bool" where
  "ring_marks n \<longleftrightarrow> n < 4 \<or> 8 \<le> n \<and> n < 12 \<or> 64 \<le> n \<and> n < 90"

lemma marks_frame:
  assumes "\<not> ring_marks (unat (x - s))"
  shows "wr32 (s + 8) v (wr32 s w (fill_request (s + 64) i opn sec n g m)) x = m x"
  using assms offset_sub [of x s 8] offset_sub [of x s 64]
  by (auto simp: ring_marks_def wr32_out fill_request_out)

lemma idle_read_slot:
  assumes idle: "idle_ring bi m" and m': "\<And>x. \<not> ring_marks (unat (x - bi_shared bi)) \<Longrightarrow> m' x = m x"
    and req: "m' (bi_shared bi + 64) = 0" "rd16 m' (bi_shared bi + 64 + 10) = 0"
    and k: "k < 32"
  defines "q \<equiv> bi_shared bi + 64 + 84 * of_nat k"
  shows "rd64 m' q \<noteq> 8 \<and> rd16 m' (q + 10) = 0"
proof (cases "k = 0")
  case True
  then show ?thesis using req rd64_low [of m' q] by (auto simp: q_def)
next
  case False
  have off: "unat (q + of_nat c - bi_shared bi) = 64 + 84 * k + c" if "c < 84" for c
  proof -
    have "q + of_nat c - bi_shared bi = of_nat (64 + 84 * k + c)" by (simp add: q_def)
    then show ?thesis using that k by (simp only: unat_of_nat) simp
  qed
  have zero: "m' (q + of_nat c) = 0" if "c < 84" for c
  proof -
    have "m' (q + of_nat c) = m (q + of_nat c)"
      by (rule m') (use off [OF that] False that k in \<open>simp add: ring_marks_def\<close>)
    then show ?thesis using idle off [OF that] False that k by (simp add: idle_ring_def Let_def)
  qed
  have "m' q = 0" "m' (q + 10) = 0" "m' (q + 11) = 0" using zero [of 0] zero [of 10] zero [of 11] by simp_all
  then show ?thesis using rd64_low [of m' q] by (auto simp: rd16_def add.assoc)
qed

lemma idle_kept:
  assumes idle: "idle_ring bi m" and m': "\<And>x. \<not> ring_marks (unat (x - bi_shared bi)) \<Longrightarrow> m' x = m x"
    and prod: "rd32 m' (bi_shared bi) = 0"
  shows "idle_ring bi m'"
proof -
  have far: "\<not> ring_marks (unat (bi_private bi + i + j - bi_shared bi))" if "unat (i + j) < 16" for i j
    using apart_at [of "bi_private bi" 16 "bi_shared bi" 4096 "i + j"] idle that
    by (simp add: idle_ring_def Let_def ring_marks_def add.assoc)
  have p: "rd32 m' (bi_private bi + i) = rd32 m (bi_private bi + i)" if "unat i \<le> 12" for i
  proof (rule rd32_cong)
    show "m' (bi_private bi + i) = m (bi_private bi + i)" using far [of i 0] that by (auto intro: m')
    show "m' (bi_private bi + i + 1) = m (bi_private bi + i + 1)"
      using that by (intro m' far) (simp add: unat_word_ariths)
    show "m' (bi_private bi + i + 2) = m (bi_private bi + i + 2)"
      using that by (intro m' far) (simp add: unat_word_ariths)
    show "m' (bi_private bi + i + 3) = m (bi_private bi + i + 3)"
      using that by (intro m' far) (simp add: unat_word_ariths)
  qed
  have e: "rd32 m' (bi_shared bi + 4) = rd32 m (bi_shared bi + 4)"
    by (rule rd32_cong) (simp_all add: m' ring_marks_def add.assoc)
  have "m' x = m x" if "148 \<le> unat (x - bi_shared bi)" for x
    using that by (intro m') (simp add: ring_marks_def)
  then show ?thesis
    using idle p [of 0] p [of 8] p [of 12] e prod by (simp add: idle_ring_def Let_def fring_offsets sring_offsets)
qed

text \<open>One read: no event is sent, the answer is success, and only the ring is written.\<close>

lemma read_idle:
  assumes "find_xendrive st (op_drive_g dop) (uninit_drive e) = xd" "idle_ring (xen_info st xd) (mem st)"
  shows "\<exists>m. xen_blk_op_read e dop st = (0, st\<lparr>mem := m\<rparr>) \<and> idle_ring (xen_info st xd) m
    \<and> (\<forall>x. 4096 \<le> unat (x - bi_shared (xen_info st xd)) \<longrightarrow> m x = mem st x)"
proof -
  let ?bi = "xen_info st xd"
  define s where "s = bi_shared ?bi"
  define fill where "fill = fill_request (s + 64) 8 BLKIF_OP_READ (op_lba dop) 1 (buffer_gref ?bi)"
  define idx where "idx = rd32 (wr32 s 0 (fill (mem st))) (s + 8)"
  define m where "m = wr32 (s + 8) (idx + 1) (wr32 s 0 (fill (mem st)))"
  have frame: "m x = mem st x" if "\<not> ring_marks (unat (x - bi_shared ?bi))" for x
    using marks_frame that unfolding m_def fill_def s_def by simp
  have "rd32 m s = rd32 (wr32 s 0 (fill (mem st))) s"
    unfolding m_def by (rule rd32_cong) (simp_all add: wr32_out)
  then have prod: "rd32 m s = 0" by simp
  have "m (s + 64) = 0" "rd16 m (s + 64 + 10) = 0"
    using fill_request_reads [of "s + 64" "op_lba dop" 1 "buffer_gref ?bi" "mem st"]
    by (simp_all add: m_def fill_def rd16_def wr32_out add.assoc)
  moreover have "unat (idx AND 31) < 32"
  proof -
    have "idx AND 31 = take_bit 5 idx" by (simp add: take_bit_eq_mask mask_eq_exp_minus_1)
    then show ?thesis using take_bit_nat_less_exp [of 5 "unat idx"] by (simp add: unsigned_take_bit_eq)
  qed
  ultimately have slot: "rd64 m (s + 64 + 84 * (idx AND 31)) \<noteq> 8" "rd16 m (s + 64 + 84 * (idx AND 31) + 10) = 0"
    using idle_read_slot [OF assms(2), of m "unat (idx AND 31)"] frame by (simp_all add: s_def)
  have idle: "idle_ring ?bi m" by (rule idle_kept [OF assms(2) frame]) (use prod in \<open>simp_all add: s_def\<close>)
  note i = assms(2) [unfolded idle_ring_def Let_def, folded s_def]
  have req: "ring_slot (mem st) (bi_private ?bi) (rd32 (mem st) (bi_private ?bi + fr_req_prod_pvt)) = s + 64"
    using i by (simp add: ring_slot_def sring_offsets)
  have push: "push_requests_and_check_notify (bi_private ?bi) (fill (mem st)) = (False, wr32 s 0 (fill (mem st)))"
  proof -
    have out: "fill (mem st) x = mem st x" if "\<not> ring_marks (unat (x - bi_shared ?bi))" for x
      using that offset_sub [of x s 64] by (auto simp: fill_def s_def ring_marks_def fill_request_out)
    have "rd32 (fill (mem st)) s = rd32 (mem st) s"
      by (rule rd32_cong) (simp_all add: fill_def fill_request_out)
    then have "idle_ring ?bi (fill (mem st))"
      using i by (intro idle_kept [OF assms(2) out]) (simp_all add: s_def sring_offsets)
    note f = this [unfolded idle_ring_def Let_def, folded s_def]
    have "rd32 (wr32 s 0 (fill (mem st))) (s + 4) = rd32 (fill (mem st)) (s + 4)"
      by (rule rd32_cong) (simp_all add: wr32_out)
    then show ?thesis using f by (simp add: push_requests_and_check_notify_def Let_def sring_offsets)
  qed
  have resp: "ring_slot m (bi_private ?bi) idx = s + 64 + 84 * (idx AND 31)"
    using idle [unfolded idle_ring_def Let_def, folded s_def] by (simp add: ring_slot_def sring_offsets)
  have "take_response ?bi s (st\<lparr>mem := wr32 s 0 (fill (mem st))\<rparr>) = (s + 64 + 84 * (idx AND 31), st\<lparr>mem := m\<rparr>)"
    using resp by (simp add: take_response_def Let_def mmem_def m_def idx_def sring_offsets)
  then have "xen_blk_op_read e dop st = (0, st\<lparr>mem := m\<rparr>)"
    using slot push unfolding xen_blk_op_read_def assms(1) req Let_def
    by (simp add: mmem_def xb_send_def fill_def s_def response_offsets BLKIF_RSP_OKAY_def)
  then show ?thesis using idle frame by (auto simp: ring_marks_def)
qed


text \<open>The set up of the two rings gives this state.\<close>

lemma init_rings_idle:
  assumes "bi_private bi = p" "bi_shared bi = s" "apart p 4096 s 4096"
  shows "idle_ring bi (FRONT_RING_INIT p s PAGE_SIZE (SHARED_RING_INIT s (memset s 0 4096 m)))"
proof -
  define m1 where "m1 = SHARED_RING_INIT s (memset s 0 4096 m)"
  define m2 where "m2 = FRONT_RING_INIT p s PAGE_SIZE m1"
  have far: "16 \<le> unat (x - p)" if "unat (x - s) < 4096" for x
    using apart_in [OF apart_sym [OF assms(3)] that] by simp
  have out: "m2 x = m1 x" if "unat (x - s) < 4096" for x
    using far [OF that] offset_sub [of x p 4] offset_sub [of x p 8] offset_sub [of x p 12]
    by (auto simp: m2_def FRONT_RING_INIT_def Let_def fring_offsets wr32_out)
  have zero: "m1 x = 0" if "64 \<le> unat (x - s)" "unat (x - s) < 4096" for x
    using that offset_sub [of x s 4] offset_sub [of x s 8] offset_sub [of x s 12] offset_sub [of x s 16] offset_sub [of x s 20]
    by (auto simp: m1_def SHARED_RING_INIT_def Let_def sring_offsets wr32_out memset_out memset_in)
  have pf: "rd32 m2 (p + fr_req_prod_pvt) = 0" "rd32 m2 (p + fr_nr_ents) = 32" "rd32 m2 (p + fr_sring) = s"
    by (simp_all add: m2_def FRONT_RING_INIT_def Let_def fring_offsets rd32_wr32_apart apart_def ring_entries)
  have sf: "rd32 m1 s = 0" "rd32 m1 (s + 4) = 1"
    by (simp_all add: m1_def SHARED_RING_INIT_def Let_def sring_offsets rd32_wr32_apart rd32_memset_apart apart_def
        del: memset.simps)
  have "rd32 m2 s = rd32 m1 s" "rd32 m2 (s + 4) = rd32 m1 (s + 4)"
    by (auto intro!: rd32_cong out simp: add.assoc)
  then show ?thesis
    using pf sf zero out apart_at assms unfolding m1_def [symmetric] m2_def [symmetric]
    by (auto simp: idle_ring_def sring_offsets apart_def)
qed

fun read_all :: "xen_env \<Rightarrow> disk_op_s list \<Rightarrow> xen_state \<Rightarrow> u32 list \<times> xen_state" where
  "read_all e [] st = ([], st)"
| "read_all e (dop # dops) st =
     (case xen_blk_op_read e dop st of (ret, st) \<Rightarrow> case read_all e dops st of (rets, st) \<Rightarrow> (ret # rets, st))"

lemma find_mem: "find_xendrive (st\<lparr>mem := m\<rparr>) g none = find_xendrive st g none"
  by (simp add: find_xendrive_def cong: if_cong)

text \<open>C15: Reads from a Xen disk whose rings are as the set up leaves them never reach the backend: the
  producer index of the requests stays 0, no event is sent, and each read reports success while the
  caller's buffer, like all memory but the ring itself, is as it was.\<close>

theorem xen_reads_give_no_data:
  assumes "\<And>dop. dop \<in> set dops \<Longrightarrow> find_xendrive st (op_drive_g dop) (uninit_drive e) = xd"
    and "idle_ring (xen_info st xd) (mem st)"
  shows "\<exists>m. read_all e dops st = (replicate (length dops) DISK_RET_SUCCESS, st\<lparr>mem := m\<rparr>)
    \<and> rd32 m (bi_shared (xen_info st xd) + sr_req_prod) = 0
    \<and> (\<forall>x. 4096 \<le> unat (x - bi_shared (xen_info st xd)) \<longrightarrow> m x = mem st x)"
  using assms
proof (induction dops arbitrary: st)
  case Nil
  then show ?case by (intro exI [of _ "mem st"]) (simp add: idle_ring_def Let_def)
next
  case (Cons dop dops)
  obtain m where m: "xen_blk_op_read e dop st = (0, st\<lparr>mem := m\<rparr>)" "idle_ring (xen_info st xd) m"
    "\<forall>x. 4096 \<le> unat (x - bi_shared (xen_info st xd)) \<longrightarrow> m x = mem st x"
    using read_idle [of st dop e xd] Cons.prems by auto
  obtain m' where "read_all e dops (st\<lparr>mem := m\<rparr>) = (replicate (length dops) DISK_RET_SUCCESS, st\<lparr>mem := m\<rparr>\<lparr>mem := m'\<rparr>)"
    "rd32 m' (bi_shared (xen_info st xd) + sr_req_prod) = 0"
    "\<forall>x. 4096 \<le> unat (x - bi_shared (xen_info st xd)) \<longrightarrow> m' x = m x"
    using Cons.IH [of "st\<lparr>mem := m\<rparr>"] Cons.prems m(2) by (auto simp: find_mem)
  then show ?case using m by (intro exI [of _ m']) (simp add: DISK_RET_SUCCESS_def)
qed


section \<open>The rings of the store\<close>

lemma mask_nat: "unat (MASK_XENSTORE_IDX x) = unat x mod 1024"
proof -
  have "MASK_XENSTORE_IDX x = take_bit 10 x"
    by (simp add: MASK_XENSTORE_IDX_def XENSTORE_RING_SIZE_def take_bit_eq_mask mask_eq_exp_minus_1)
  then show ?thesis by (simp only: unsigned_take_bit_eq) (simp add: take_bit_eq_mod)
qed

lemma mask_add: "unat (MASK_XENSTORE_IDX (x + of_nat j)) = (unat (MASK_XENSTORE_IDX x) + j) mod 1024"
proof -
  have "unat (x + of_nat j) mod 1024 = (unat x + j) mod 1024"
    by (simp add: unat_word_ariths unat_of_nat mod_mod_cancel mod_add_right_eq)
  then show ?thesis by (simp add: mask_nat mod_add_left_eq)
qed

lemma ring_part_fit:
  assumes "unat len \<le> unat part" "unat len \<le> 1024"
  shows "ring_part part idx len = of_nat (min (unat len) (1024 - unat (MASK_XENSTORE_IDX idx)))"
proof -
  have lim: "unat (XENSTORE_RING_SIZE - MASK_XENSTORE_IDX idx) = 1024 - unat (MASK_XENSTORE_IDX idx)"
    by (subst unat_sub) (simp_all add: XENSTORE_RING_SIZE_def word_le_nat_alt mask_nat)
  have "unat (ring_part part idx len) = min (unat len) (1024 - unat (MASK_XENSTORE_IDX idx))"
    using assms lim by (auto simp: ring_part_def Let_def word_less_nat_alt)
  then show ?thesis by (metis of_nat_unat ucast_id)
qed

lemma ring_word_kept:
  assumes "i \<le> 1023" "k \<le> 1024 - i" "2048 \<le> unat c" "unat c \<le> 2060"
  shows "rd32 (copied (r + of_nat i) d k m) (r + c) = rd32 m (r + c)"
proof (rule rd32_frame)
  fix x assume x: "unat (x - (r + c)) < 4"
  have "unat (x - r) = unat (x - (r + c)) + unat c"
  proof -
    have "unat (x - (r + c) + c) = unat (x - (r + c)) + unat c"
      using x assms(4) by (subst unat_add_lem [THEN iffD1]) simp_all
    moreover have "x - (r + c) + c = x - r" by simp
    ultimately show ?thesis by (simp only:)
  qed
  then have "k \<le> unat (x - (r + of_nat i))"
    using assms offset_sub [of x r "of_nat i"] by (simp add: unat_of_nat)
  then show "copied (r + of_nat i) d k m x = m x" by (simp add: copied_def)
qed


text \<open>The bytes of a region, and those of a ring from an index on.\<close>

definition bytes_at :: "memory \<Rightarrow> u32 \<Rightarrow> nat \<Rightarrow> u8 list" where
  "bytes_at m d n = map (\<lambda>j. m (d + of_nat j)) [0..<n]"

definition ring_bytes :: "memory \<Rightarrow> u32 \<Rightarrow> u32 \<Rightarrow> nat \<Rightarrow> u8 list" where
  "ring_bytes m base idx n = map (\<lambda>j. m (base + MASK_XENSTORE_IDX (idx + of_nat j))) [0..<n]"

lemma ring_field_mem [simp]: "ring_field c (st\<lparr>mem := m\<rparr>) = rd32 m (rings st + c)"
  by (simp add: ring_field_def)

text \<open>One round of the loop: \<open>k\<close> bytes, up to the end of the ring.\<close>

lemma write_round:
  assumes "rings st = r" "0 < len" "apart d (unat len) r 2064"
    and free: "unat len + unat (MASK_XENSTORE_IDX (ring_field xs_req_prod st - ring_field xs_req_cons st)) \<le> 1023"
  defines "pr \<equiv> ring_field xs_req_prod st"
  defines "P \<equiv> MASK_XENSTORE_IDX pr"
  defines "k \<equiv> min (unat len) (1024 - unat P)"
  shows "ring_write_loop e d len st = ring_write_loop e d (len - of_nat k)
    (st\<lparr>mem := wr32 (r + xs_req_prod) (pr + of_nat k) (copied (r + P) d k (mem st))\<rparr>)"
proof -
  let ?u = "MASK_XENSTORE_IDX (ring_field xs_req_prod st - ring_field xs_req_cons st)"
  have P: "unat P \<le> 1023" by (simp add: P_def mask_nat)
  have len: "unat len \<le> 1023" "0 < unat len" using free assms(2) by (simp_all add: word_less_nat_alt)
  have part: "unat (XENSTORE_RING_SIZE - 1 - ?u) = 1023 - unat ?u"
    using free by (subst unat_sub) (simp_all add: XENSTORE_RING_SIZE_def word_le_nat_alt)
  have nz: "XENSTORE_RING_SIZE - 1 - ?u \<noteq> 0" using part len free by (auto simp flip: unat_eq_0)
  have space: "write_space e st = Some (XENSTORE_RING_SIZE - 1 - ?u, st)"
    using nz by (subst write_space.simps) (simp add: Let_def)
  have k: "ring_part (XENSTORE_RING_SIZE - 1 - ?u) pr len = of_nat k"
    unfolding k_def P_def by (rule ring_part_fit) (use part free len in simp_all)
  have kle: "k \<le> unat len" by (simp add: k_def)
  have kn: "unat (of_nat k :: u32) = k" using len by (simp add: k_def unat_of_nat)
  have "unat len \<le> unat (r + P - d)"
    using apart_at [OF apart_sym [OF assms(3)], of P] P by simp
  then have cp: "memcpy (r + P) d (of_nat k) (mem st) = copied (r + P) d k (mem st)"
    using memcpy_copied [of "r + P" d "of_nat k" "mem st"] kn kle by simp
  have "rd32 (copied (r + of_nat (unat P)) d k (mem st)) (r + xs_req_prod) = rd32 (mem st) (r + xs_req_prod)"
    by (rule ring_word_kept) (use P in \<open>simp_all add: k_def xs_req_prod_def\<close>)
  then have field: "rd32 (copied (r + P) d k (mem st)) (r + xs_req_prod) = pr"
    using assms(1) by (simp add: pr_def ring_field_def)
  show ?thesis
    using len k cp field assms(1) unfolding P_def [symmetric]
    by (subst ring_write_loop.simps)
      (simp add: space Let_def mmem_def pr_def [symmetric] P_def [symmetric] xs_req_def
        unat_eq_0 [symmetric] del: unat_eq_0)
qed


lemma write_done: "ring_write_loop e d 0 st = Some st"
  by (simp add: ring_write_loop.simps)

lemma copied_at: "i < k \<Longrightarrow> k \<le> 2 ^ 32 \<Longrightarrow> copied a d k m (a + of_nat i) = m (d + of_nat i)"
  by (simp add: copied_def unat_of_nat)

lemma copied_out: "k \<le> unat (x - a) \<Longrightarrow> copied a d k m x = m x"
  by (simp add: copied_def)

text \<open>The memory after a message of \<open>n\<close> bytes: one copy, or two when it crosses the end.\<close>

definition written :: "u32 \<Rightarrow> u32 \<Rightarrow> u32 \<Rightarrow> nat \<Rightarrow> memory \<Rightarrow> memory" where
  "written r d pr n m =
     (let P = MASK_XENSTORE_IDX pr; k = min n (1024 - unat P);
          m1 = wr32 (r + xs_req_prod) (pr + of_nat k) (copied (r + P) d k m) in
      if k = n then m1 else wr32 (r + xs_req_prod) (pr + of_nat n) (copied r d (n - k) m1))"

lemma write_rounds:
  assumes "rings st = r" "0 < n" "apart d n r 2064"
    and free: "n + unat (MASK_XENSTORE_IDX (ring_field xs_req_prod st - ring_field xs_req_cons st)) \<le> 1023"
  shows "ring_write_loop e d (of_nat n) st =
    Some (st\<lparr>mem := written r d (ring_field xs_req_prod st) n (mem st)\<rparr>)"
proof -
  define pr where "pr = ring_field xs_req_prod st"
  define P where "P = MASK_XENSTORE_IDX pr"
  define k where "k = min n (1024 - unat P)"
  define m1 where "m1 = wr32 (r + xs_req_prod) (pr + of_nat k) (copied (r + P) d k (mem st))"
  have P: "unat P \<le> 1023" by (simp add: P_def mask_nat)
  have n: "n \<le> 1023" using free by simp
  then have un: "unat (of_nat n :: u32) = n" by (simp add: unat_of_nat)
  have one: "ring_write_loop e d (of_nat n) st = ring_write_loop e d (of_nat n - of_nat k) (st\<lparr>mem := m1\<rparr>)"
    unfolding m1_def k_def P_def pr_def
    using write_round [OF assms(1), of "of_nat n" d e] assms(2,3) free un by (simp add: word_less_nat_alt)
  show ?thesis
  proof (cases "k = n")
    case True
    then show ?thesis using one by (simp add: write_done written_def Let_def m1_def k_def P_def pr_def)
  next
    case False
    then have k: "k = 1024 - unat P" "k < n" by (auto simp: k_def)
    have idx: "MASK_XENSTORE_IDX (pr + of_nat k) = 0"
      using k P mask_add [of pr k] by (simp add: P_def flip: unat_eq_0)
    have prod1: "rd32 m1 (r + xs_req_prod) = pr + of_nat k" by (simp add: m1_def)
    have "rd32 m1 (r + xs_req_cons) = rd32 (copied (r + of_nat (unat P)) d k (mem st)) (r + xs_req_cons)"
      unfolding m1_def by (subst rd32_wr32_apart) (simp_all add: apart_def xs_offsets)
    also have "\<dots> = ring_field xs_req_cons st"
      using P k assms(1) by (subst ring_word_kept) (simp_all add: xs_req_cons_def ring_field_def)
    finally have cons1: "rd32 m1 (r + xs_req_cons) = ring_field xs_req_cons st" .
    let ?u = "MASK_XENSTORE_IDX (pr - ring_field xs_req_cons st)"
    have "unat (MASK_XENSTORE_IDX (pr + of_nat k - ring_field xs_req_cons st)) = unat ?u + k"
      using mask_add [of "pr - ring_field xs_req_cons st" k] free k by (simp add: pr_def algebra_simps)
    moreover have sub: "(of_nat n :: u32) - of_nat k = of_nat (n - k)" using k by simp
    moreover have unk: "unat (of_nat (n - k) :: u32) = n - k" using n by (simp add: unat_of_nat)
    moreover have "apart d (n - k) r 2064" using assms(3) by (auto simp: apart_def)
    ultimately have "ring_write_loop e d (of_nat n - of_nat k) (st\<lparr>mem := m1\<rparr>) =
      ring_write_loop e d (of_nat (n - k) - of_nat (n - k))
        (st\<lparr>mem := wr32 (r + xs_req_prod) (pr + of_nat k + of_nat (n - k)) (copied r d (n - k) m1)\<rparr>)"
      using write_round [of "st\<lparr>mem := m1\<rparr>" r "of_nat (n - k)" d e] assms(1) free k n idx prod1 cons1
      by (simp add: word_less_nat_alt pr_def)
    then show ?thesis
      using one k by (simp add: write_done written_def Let_def m1_def k_def [symmetric] P_def [symmetric] pr_def [symmetric])
  qed
qed


lemma written_bytes:
  fixes pr r d :: u32
  assumes "n \<le> 1023" "apart d n r 2064"
  defines "K \<equiv> 1024 - unat (MASK_XENSTORE_IDX pr)"
  shows "ring_bytes (written r d pr n m) r pr n = take K (bytes_at m d n) @ take (n - K) (bytes_at m d n)"
proof (rule nth_equalityI)
  show "length (ring_bytes (written r d pr n m) r pr n) = length (take K (bytes_at m d n) @ take (n - K) (bytes_at m d n))"
    by (simp add: ring_bytes_def bytes_at_def)
next
  define P where "P = MASK_XENSTORE_IDX pr"
  define k where "k = min n K"
  define m1 where "m1 = wr32 (r + xs_req_prod) (pr + of_nat k) (copied (r + P) d k m)"
  fix j assume "j < length (ring_bytes (written r d pr n m) r pr n)"
  then have j: "j < n" by (simp add: ring_bytes_def)
  have P: "unat P \<le> 1023" by (simp add: P_def mask_nat)
  have K: "K = 1024 - unat P" by (simp add: K_def P_def)
  let ?a = "r + MASK_XENSTORE_IDX (pr + of_nat j)"
  have "unat (MASK_XENSTORE_IDX (pr + of_nat j)) \<le> 1023" by (simp add: mask_nat)
  then have aprod: "4 \<le> unat (?a - (r + xs_req_prod))"
    using offset_sub [of ?a r xs_req_prod] by (simp add: xs_req_prod_def)
  have w: "written r d pr n m ?a = (if k = n then m1 ?a else copied r d (n - k) m1 ?a)"
    using aprod by (simp add: written_def Let_def m1_def k_def K P_def wr32_out)
  have m1: "m1 (d + of_nat i) = m (d + of_nat i)" if "i < n" for i
  proof -
    have far: "2064 \<le> unat (d + of_nat i - r)"
      using apart_at [OF assms(2), of "of_nat i"] that assms(1) by (simp add: unat_of_nat)
    have "4 \<le> unat (d + of_nat i - (r + xs_req_prod))"
      using far offset_sub [of "d + of_nat i" r xs_req_prod] by (simp add: xs_req_prod_def)
    moreover have "k \<le> unat (d + of_nat i - (r + P))"
      using far P offset_sub [of "d + of_nat i" r P] by (simp add: k_def K)
    ultimately show ?thesis by (simp add: m1_def wr32_out copied_out)
  qed
  have "written r d pr n m ?a = m (d + of_nat (if j < K then j else j - K))"
  proof (cases "j < K")
    case True
    then have "unat (MASK_XENSTORE_IDX (pr + of_nat j)) = unat P + j"
      using mask_add [of pr j] by (simp add: K P_def)
    then have M: "MASK_XENSTORE_IDX (pr + of_nat j) = P + of_nat j"
      by (metis of_nat_add of_nat_unat ucast_id)
    have "m1 ?a = copied (r + P) d k m (r + P + of_nat j)"
      using aprod by (simp add: m1_def wr32_out M add.assoc)
    then have "m1 ?a = m (d + of_nat j)"
      using copied_at [of j k "r + P" d m] True j assms(1) by (simp add: k_def)
    moreover have "copied r d (n - k) m1 ?a = m1 ?a" if "k \<noteq> n"
      using that True assms(1) K \<open>unat (MASK_XENSTORE_IDX (pr + of_nat j)) = unat P + j\<close>
      by (intro copied_out) (auto simp: k_def)
    ultimately show ?thesis using True w by simp
  next
    case False
    then have k: "k = K" "K < n" using j by (auto simp: k_def)
    have "unat (MASK_XENSTORE_IDX (pr + of_nat j)) = j - K"
    proof -
      have "unat P + j = 1024 + (j - K)" using False K P by simp
      moreover have "j - K < 1024" using j assms(1) by simp
      ultimately show ?thesis using mask_add [of pr j] by (simp add: P_def)
    qed
    then have M: "MASK_XENSTORE_IDX (pr + of_nat j) = of_nat (j - K)"
      by (metis of_nat_unat ucast_id)
    have "copied r d (n - k) m1 ?a = m1 (d + of_nat (j - K))"
      unfolding M by (rule copied_at) (use j k assms(1) False in auto)
    then show ?thesis using w k m1 [of "j - K"] j False by simp
  qed
  then show "ring_bytes (written r d pr n m) r pr n ! j = (take K (bytes_at m d n) @ take (n - K) (bytes_at m d n)) ! j"
    using j by (auto simp: ring_bytes_def bytes_at_def nth_append)
qed

text \<open>C16: A message that the ring has room for is stored without waiting, but where it crosses the end of
  the ring, the rest is taken again from the start of the message: the ring then holds the first \<open>k\<close> bytes
  followed by the first \<open>n - k\<close> bytes, where \<open>k\<close> is the room up to the end.\<close>

theorem ring_write_bytes:
  assumes "unat len + unat (MASK_XENSTORE_IDX (ring_field xs_req_prod st - ring_field xs_req_cons st)) \<le> 1023"
    and "apart d (unat len) (rings st) 2064"
  shows "\<exists>m. ring_write e d len st = Some (st\<lparr>mem := m\<rparr>)
    \<and> rd32 m (rings st + xs_req_prod) = ring_field xs_req_prod st + len
    \<and> (let ds = bytes_at (mem st) d (unat len);
           k = 1024 - unat (MASK_XENSTORE_IDX (ring_field xs_req_prod st)) in
       ring_bytes m (rings st) (ring_field xs_req_prod st) (unat len) = take k ds @ take (unat len - k) ds)"
proof (cases "len = 0")
  case True
  then show ?thesis
    by (intro exI [of _ "mem st"])
      (simp add: ring_write_def XENSTORE_PAYLOAD_MAX_def write_done ring_bytes_def bytes_at_def ring_field_def)
next
  case False
  let ?m = "written (rings st) d (ring_field xs_req_prod st) (unat len) (mem st)"
  have "ring_write e d len st = Some (st\<lparr>mem := ?m\<rparr>)"
    using write_rounds [of st "rings st" "unat len" d e] assms False
    by (simp add: ring_write_def XENSTORE_PAYLOAD_MAX_def word_le_nat_alt unat_gt_0)
  moreover have "rd32 ?m (rings st + xs_req_prod) = ring_field xs_req_prod st + len"
    by (simp add: written_def Let_def)
  moreover have "unat len \<le> 1023" using assms(1) by simp
  ultimately show ?thesis using written_bytes [OF _ assms(2)] by (intro exI [of _ ?m]) (simp add: Let_def)
qed


section \<open>Numbers\<close>

text \<open>The decimal digits of a number, least significant first, and the number that digits denote when
  the first is the most significant.\<close>

fun digits :: "nat \<Rightarrow> nat list" where
  "digits n = (if n < 10 then [n] else n mod 10 # digits (n div 10))"

declare digits.simps [simp del]

definition value_of :: "nat list \<Rightarrow> nat" where
  "value_of ds = foldl (\<lambda>v d. 10 * v + d) 0 ds"

lemma value_rev_digits: "value_of (rev (digits n)) = n"
  by (induction n rule: digits.induct) (subst digits.simps, simp add: value_of_def)

lemma digits_small: "d \<in> set (digits n) \<Longrightarrow> d < 10"
  by (induction n rule: digits.induct) (subst (asm) (2) digits.simps, auto split: if_splits)

lemma length_digits: "n < 10 ^ Suc k \<Longrightarrow> length (digits n) \<le> Suc k"
proof (induction k arbitrary: n)
  case 0
  then show ?case by (simp add: digits.simps)
next
  case (Suc k)
  then have "n div 10 < 10 ^ Suc k" by (simp add: less_mult_imp_div_less mult.commute)
  then show ?case using Suc.IH [of "n div 10"] by (subst digits.simps) simp
qed

definition digit_chars :: "nat list \<Rightarrow> u8 list" where
  "digit_chars ds = map (\<lambda>d. of_nat d + 48) ds"

lemma itoa_step:
  "itoa (int n) s m =
     (let m = m(s := of_nat (n mod 10) + 48) in
      if n < 10 then m(s + 1 := 0) else itoa (int (n div 10)) (s + 1) m)"
proof -
  have "int n smod 10 = int (n mod 10)" "int n sdiv 10 = int (n div 10)"
    by (cases "n = 0"; simp add: signed_modulo_int_def signed_divide_int_def zdiv_int zmod_int)+
  then show ?thesis by (subst itoa.simps) (auto simp: Let_def digit_char_def)
qed

lemma itoa_out: "length (digits n) < unat (x - s) \<Longrightarrow> itoa (int n) s m x = m x"
proof (induction n arbitrary: s m rule: digits.induct)
  case (1 n)
  have x: "x \<noteq> s" using 1(2) by auto
  show ?case
  proof (cases "n < 10")
    case True
    then show ?thesis using 1(2) x by (subst itoa_step) (auto simp: Let_def digits.simps)
  next
    case False
    have "1 \<le> unat (x - s)" using 1(2) by simp
    then have "unat (x - (s + 1)) = unat (x - s) - 1" using offset_sub [of x s 1] by simp
    then show ?thesis using 1 False x by (subst itoa_step) (simp add: Let_def digits.simps [of n])
  qed
qed

lemma digit_nonzero: "d < 10 \<Longrightarrow> (of_nat d + 48 :: u8) \<noteq> 0"
proof -
  assume "d < 10"
  then have "unat (of_nat d + 48 :: u8) = d + 48" by (simp add: unat_word_ariths unat_of_nat)
  then show ?thesis by auto
qed

lemma itoa_cstr: "length (digits n) < 4294967294 \<Longrightarrow> cstr (itoa (int n) s m) s (digit_chars (digits n))"
proof (induction n arbitrary: s m rule: digits.induct)
  case (1 n)
  show ?case
  proof (cases "n < 10")
    case True
    then show ?thesis
      using digit_nonzero [of n] by (subst itoa_step) (simp add: Let_def digits.simps [of n] digit_chars_def)
  next
    case False
    then have len: "length (digits (n div 10)) < 4294967294" using 1(2) by (simp add: digits.simps [of n])
    have "itoa (int (n div 10)) (s + 1) m' s = m' s" for m'
      by (rule itoa_out) (use len in \<open>simp add: unsigned_minus_1_eq_mask mask_eq_exp_minus_1\<close>)
    then show ?thesis
      using False 1(1) [OF False len] digit_nonzero [of "n mod 10"]
      by (subst itoa_step) (simp add: Let_def digits.simps [of n] digit_chars_def)
  qed
qed

lemma atoi_digits:
  assumes "\<forall>d \<in> set ds. d < 10" "cstr m p (digit_chars ds)"
  shows "atoi_from m p (of_nat i) = Some (of_nat (foldl (\<lambda>v d. 10 * v + d) i ds))"
  using assms
proof (induction ds arbitrary: p i)
  case Nil
  then show ?case by (simp add: digit_chars_def atoi_from.simps)
next
  case (Cons d ds)
  then have d: "d < 10" and c: "m p = of_nat d + 48" "cstr m (p + 1) (digit_chars ds)"
    by (simp_all add: digit_chars_def)
  have "d = 0 \<or> d = 1 \<or> d = 2 \<or> d = 3 \<or> d = 4 \<or> d = 5 \<or> d = 6 \<or> d = 7 \<or> d = 8 \<or> d = 9" using d by arith
  then have "scast (of_nat d + 48 :: u8) = (of_nat d + 48 :: u32)" by (elim disjE) simp_all
  then have "push_bit 3 (of_nat i) + push_bit 1 (of_nat i) + (scast (m p) - 48) = (of_nat (10 * i + d) :: u32)"
    using c(1) by (simp add: push_bit_eq_mult)
  then have step: "atoi_from m p (of_nat i) = atoi_from m (p + 1) (of_nat (10 * i + d))"
    using c(1) digit_nonzero [OF d] by (subst atoi_from.simps) (simp only: if_False)
  show ?case using Cons.IH [OF _ c(2), of "10 * i + d"] Cons.prems(1) by (simp only: step) simp
qed


lemma value_bound: "\<forall>d \<in> set ds. d < 10 \<Longrightarrow> foldl (\<lambda>v d. 10 * v + d) (i :: nat) ds < (i + 1) * 10 ^ length ds"
proof (induction ds arbitrary: i)
  case (Cons d ds)
  then have "foldl (\<lambda>v d. 10 * v + d) (10 * i + d) ds < (10 * i + d + 1) * 10 ^ length ds" by simp
  also have "\<dots> \<le> (10 * (i + 1)) * 10 ^ length ds" using Cons.prems by (intro mult_right_mono) simp_all
  finally show ?case by (simp add: algebra_simps)
qed simp

text \<open>C18: Numbers below \<open>10^9\<close> are written to the store with their digits in reverse order: the string that
  \<open>itoa\<close> makes is read back, by \<open>myatoi\<close> as by any reader, as the number with the digits reversed, which
  is the number itself only for palindromes such as those of one digit.\<close>

theorem itoa_reverses:
  assumes "n < 10 ^ 9"
  shows "cstr (itoa (int n) s m) s (digit_chars (digits n))
    \<and> myatoi (itoa (int n) s m) s = Some (int (value_of (digits n)))
    \<and> n = value_of (rev (digits n))"
proof -
  have len: "length (digits n) \<le> 9" using length_digits [of n 8] assms by simp
  then have c: "cstr (itoa (int n) s m) s (digit_chars (digits n))" by (intro itoa_cstr) simp
  have "atoi_from (itoa (int n) s m) s (of_nat 0) = Some (of_nat (foldl (\<lambda>v d. 10 * v + d) 0 (digits n)))"
    by (rule atoi_digits [OF _ c]) (use digits_small in blast)
  then have v: "atoi_from (itoa (int n) s m) s 0 = Some (of_nat (value_of (digits n)))" by (simp add: value_of_def)
  have "value_of (digits n) < 1 * 10 ^ length (digits n)"
    using value_bound [of "digits n" 0] digits_small by (simp add: value_of_def)
  also have "\<dots> \<le> 10 ^ 9" using power_increasing [OF len, of "10 :: nat"] by simp
  finally have "sint (of_nat (value_of (digits n)) :: u32) = int (value_of (digits n))"
    by (simp add: signed_of_nat signed_take_bit_int_eq_self)
  then show ?thesis using c v value_rev_digits [of n] by (simp add: myatoi_def)
qed

text \<open>The ring reference or the port 12 is announced as 21.\<close>

theorem itoa_reverses_witness: "myatoi (itoa 12 0x5000 (\<lambda>_. 0)) 0x5000 = Some 21"
proof -
  have "digits 12 = [2, 1]" by (simp add: digits.simps)
  then show ?thesis using itoa_reverses [of 12 "0x5000" "\<lambda>_. 0"] by (simp add: value_of_def)
qed

section \<open>Grants\<close>

fun grant_frames :: "u32 list \<Rightarrow> xen_state \<Rightarrow> (int list \<times> xen_state) option" where
  "grant_frames [] st = Some ([], st)"
| "grant_frames (f # fs) st =
     do { (g, st) \<leftarrow> get_free_grant 0 permit_access f st;
          (gs, st) \<leftarrow> grant_frames fs st;
          Some (g # gs, st) }"

definition grants_frame :: "xen_state \<Rightarrow> int \<Rightarrow> u32 \<Rightarrow> bool" where
  "grants_frame st g f \<longleftrightarrow> rd16 (mem st) (grant_entry st g) = GTF_permit_access
     \<and> rd16 (mem st) (grant_entry st g + 2) = 0 \<and> rd32 (mem st) (grant_entry st g + 4) = drop_bit 12 f"

lemma entries_apart:
  assumes "0 \<le> g" "g < h" "h \<le> 30"
  shows "apart (grant_entry st h) 8 (grant_entry st g) 8"
proof -
  define d where "d = (of_nat (8 * nat (h - g)) :: u32)"
  have d: "unat d = 8 * nat (h - g)" 
    unfolding d_def unat_of_nat using assms by (intro mod_less) simp
  have "word_of_int h = (word_of_int g + of_nat (nat (h - g)) :: u32)" using assms by simp
  then have h: "grant_entry st h = grant_entry st g + d" by (simp add: grant_entry_def d_def algebra_simps)
  have "8 \<le> unat d" "unat d \<le> 240" using d assms by auto
  then show ?thesis
    using offset_sub [of "grant_entry st g" "grant_entry st g" d] by (simp add: apart_def h)
qed

lemma grant_one:
  assumes "0 \<le> count_grants st" "count_grants st < 30"
  shows "\<exists>st'. get_free_grant 0 permit_access f st = Some (count_grants st + 1, st')
    \<and> count_grants st' = count_grants st + 1 \<and> grant_entries st' = grant_entries st
    \<and> grants_frame st' (count_grants st + 1) f
    \<and> (\<forall>x. 8 \<le> unat (x - grant_entry st (count_grants st + 1)) \<longrightarrow> mem st' x = mem st x)"
proof -
  let ?g = "count_grants st + 1" let ?p = "grant_entry st (count_grants st + 1)"
  let ?m = "wr16 ?p GTF_permit_access (wr32 (?p + 4) (drop_bit 12 f) (wr16 (?p + 2) 0 (mem st)))"
  have "get_free_grant 0 permit_access f st = Some (?g, st\<lparr>mem := ?m, count_grants := ?g\<rparr>)"
    using assms by (simp add: get_free_grant_def MAX_GRANT_ENTRIES_def Let_def mmem_def)
  moreover have "grants_frame (st\<lparr>mem := ?m, count_grants := ?g\<rparr>) ?g f"
    by (simp add: grants_frame_def grant_entry_def rd16_wr16_apart rd16_wr32_apart rd32_wr16_apart apart_def)
  moreover have "?m x = mem st x" if "8 \<le> unat (x - ?p)" for x
    using that offset_sub [of x ?p 2] offset_sub [of x ?p 4] by (simp add: wr16_out wr32_out)
  ultimately show ?thesis by (intro exI [of _ "st\<lparr>mem := ?m, count_grants := ?g\<rparr>"]) simp
qed


lemma frame_kept:
  assumes "grants_frame st g f" "grant_entries st' = grant_entries st"
    and "\<forall>x. 8 \<le> unat (x - grant_entry st h) \<longrightarrow> mem st' x = mem st x"
    and "0 \<le> g" "g < h" "h \<le> 30"
  shows "grants_frame st' g f"
proof -
  let ?p = "grant_entry st g"
  have p: "grant_entry st' g = ?p" using assms(2) by (simp add: grant_entry_def)
  have same: "mem st' (?p + i) = mem st (?p + i)" if "unat i < 8" for i
    using apart_at [OF apart_sym [OF entries_apart [OF assms(4-6)]] that] assms(3) by simp
  have "mem st' (?p + 1) = mem st (?p + 1)" "mem st' ?p = mem st ?p" "mem st' (?p + 2) = mem st (?p + 2)"
    "mem st' (?p + 3) = mem st (?p + 3)" "mem st' (?p + 4) = mem st (?p + 4)" "mem st' (?p + 5) = mem st (?p + 5)"
    "mem st' (?p + 6) = mem st (?p + 6)" "mem st' (?p + 7) = mem st (?p + 7)"
    using same [of 0] same [of 1] same [of 2] same [of 3] same [of 4] same [of 5] same [of 6] same [of 7] by simp_all
  then show ?thesis using assms(1) p by (simp add: grants_frame_def rd16_def rd32_def add.assoc)
qed

lemma grant_frames_end:
  assumes "0 \<le> count_grants st" "count_grants st + int (length fs) \<le> 30"
  shows "\<exists>st'. grant_frames fs st = Some (map (\<lambda>i. count_grants st + 1 + int i) [0..<length fs], st')
    \<and> grant_entries st' = grant_entries st
    \<and> (\<forall>i < length fs. grants_frame st' (count_grants st + 1 + int i) (fs ! i))
    \<and> (\<forall>g f. 0 \<le> g \<and> g \<le> count_grants st \<and> grants_frame st g f \<longrightarrow> grants_frame st' g f)"
  using assms
proof (induction fs arbitrary: st)
  case (Cons f fs)
  obtain s where s: "get_free_grant 0 permit_access f st = Some (count_grants st + 1, s)"
    "count_grants s = count_grants st + 1" "grant_entries s = grant_entries st"
    "grants_frame s (count_grants st + 1) f"
    "\<forall>x. 8 \<le> unat (x - grant_entry st (count_grants st + 1)) \<longrightarrow> mem s x = mem st x"
    using grant_one [of st f] Cons.prems by auto
  obtain st' where st': "grant_frames fs s = Some (map (\<lambda>i. count_grants s + 1 + int i) [0..<length fs], st')"
    "grant_entries st' = grant_entries s"
    "\<forall>i < length fs. grants_frame st' (count_grants s + 1 + int i) (fs ! i)"
    "\<forall>g f. 0 \<le> g \<and> g \<le> count_grants s \<and> grants_frame s g f \<longrightarrow> grants_frame st' g f"
    using Cons.IH [of s] Cons.prems s(2) by auto
  have "grants_frame st' g f'" if "0 \<le> g" "g \<le> count_grants st" "grants_frame st g f'" for g f'
    using frame_kept [OF that(3) s(3) s(5)] that Cons.prems st'(4) s(2) by auto
  moreover have "grants_frame st' (count_grants st + 1 + int i) ((f # fs) ! i)" if "i < length (f # fs)" for i
    using that s(2,4) st'(3,4) Cons.prems by (cases i) (auto simp: algebra_simps)
  moreover have "(count_grants st + 1) # map (\<lambda>i. count_grants s + 1 + int i) [0..<length fs]
      = map (\<lambda>i. count_grants st + 1 + int i) [0..<length (f # fs)]"
    by (simp add: s(2) upt_conv_Cons map_Suc_upt [symmetric] algebra_simps del: upt_Suc)
  ultimately show ?case using s(1,3) st'(1,2) by auto
qed simp


text \<open>C17: The frames shared with the backend get one reference each, counted up from the last one, and every
  reference keeps its frame, its domain and its rights, those given before included. Up to 29 frames
  after the set up fit.\<close>

theorem grants_distinct:
  assumes "0 \<le> count_grants st" "count_grants st + int (length fs) \<le> 30"
  shows "\<exists>gs st'. grant_frames fs st = Some (gs, st') \<and> length gs = length fs \<and> distinct gs
    \<and> (\<forall>i < length fs. count_grants st < gs ! i \<and> grants_frame st' (gs ! i) (fs ! i))
    \<and> (\<forall>g f. 0 \<le> g \<and> g \<le> count_grants st \<and> grants_frame st g f \<longrightarrow> grants_frame st' g f)"
proof -
  let ?gs = "map (\<lambda>i. count_grants st + 1 + int i) [0..<length fs]"
  have "distinct ?gs" by (simp add: distinct_map inj_on_def)
  then show ?thesis using grant_frames_end [OF assms] by (auto intro!: exI [of _ ?gs])
qed

section \<open>A machine with a Xen disk\<close>

text \<open>The drive is at F0300h, its rings at 200000h (private) and 201000h (shared), the grant table at
  210000h and the page of the store at 220000h, with the request indices at 1000.\<close>

definition demo_rings :: memory where
  "demo_rings = FRONT_RING_INIT 0x200000 0x201000 PAGE_SIZE (SHARED_RING_INIT 0x201000 (memset 0x201000 0 4096 (\<lambda>_. 0)))"

definition demo_store :: memory where
  "demo_store = wr32 (0x220000 + xs_req_cons) 1020 (wr32 (0x220000 + xs_req_prod) 1020
     ((\<lambda>_. 0)(0x5000 := 1, 0x5001 := 2, 0x5002 := 3, 0x5003 := 4, 0x5004 := 5, 0x5005 := 6)))"

definition demo_info :: blkfront_info where
  "demo_info = \<lparr>ring_ref = 2, bi_port = 4, bi_private = 0x200000, bi_shared = 0x201000, bi_buffer = 0x202000, buffer_gref = 3\<rparr>"

definition demo_xen :: "memory \<Rightarrow> xen_state" where
  "demo_xen m = ata_state.extend (demo_ata\<lparr>mem := m\<rparr>) (xen_state.fields 0x40000000 0 0x230000 0x220000 3 0x210000 1 1
     (\<lambda>i. if i = 0 then 0xf0300 else 0) (\<lambda>i. if i = 0 then 0xf0300 else 0) (\<lambda>_. demo_info))"

definition demo_xen_env :: xen_env where
  "demo_xen_env = \<lparr>x_clk = demo_clk, x_ata = demo_ata_env, cpuid = (\<lambda>_. (0, 0, 0, 0)), wrmsr = (\<lambda>_ _ st. st),
     memalign_high = (\<lambda>_ _ st. (0, st)), memalign_low = (\<lambda>_ _ st. (0, st)), malloc_high = (\<lambda>_ st. (0, st)),
     malloc_fseg = (\<lambda>_ st. (0, st)), x_free = (\<lambda>_ st. st), add_to_physmap = (\<lambda>_ _ _ _ st. (0, st)),
     hvm_get_param = (\<lambda>_ _ st. (0, 0, st)), gnttab_setup_table = (\<lambda>_ _ st. (0, st)), evtchn_send = (\<lambda>_ st. st),
     evtchn_alloc_unbound = (\<lambda>_ st. st), sched_poll = (\<lambda>_ st. st), lit = (\<lambda>_. 0), event_addr = 0, payload = 0,
     hdr_addr = 0, poll_addr = 0, num_addr = 0, uninit_drive = 0, in_pmode = False\<rparr>"

lemma demo_xen_sel [simp]:
  "mem (demo_xen m) = m" "rings (demo_xen m) = 0x220000" "count_grants (demo_xen m) = 1"
  "grant_entries (demo_xen m) = 0x210000" "xen_info (demo_xen m) xd = demo_info"
  "drive_ptrs (demo_xen m) 0 = 0xf0300" "xendrives_ptrs (demo_xen m) 0 = 0xf0300"
  "i \<noteq> 0 \<Longrightarrow> drive_ptrs (demo_xen m) i = 0"
  by (simp_all add: demo_xen_def ata_state.defs xen_state.defs)

definition demo_read :: disk_op_s where
  "demo_read = (demo_op 0 0x8000)\<lparr>op_drive_g := 0x300\<rparr>"

theorem xen_reads_give_no_data_witness:
  "\<exists>m. read_all demo_xen_env [demo_read, demo_read] (demo_xen demo_rings) = ([0, 0], demo_xen demo_rings\<lparr>mem := m\<rparr>)
    \<and> m 0x8000 = demo_rings 0x8000"
proof -
  have find: "find_xendrive (demo_xen demo_rings) (op_drive_g dop) (uninit_drive demo_xen_env) = 0xf0300"
    if "dop \<in> set [demo_read, demo_read]" for dop
    using that by (simp add: find_xendrive_def MAX_DRIVES_def upt_rec demo_read_def demo_xen_env_def)
  have "idle_ring (xen_info (demo_xen demo_rings) 0xf0300) demo_rings"
    unfolding demo_rings_def by (rule init_rings_idle) (simp_all add: demo_info_def apart_def)
  then obtain m where "read_all demo_xen_env [demo_read, demo_read] (demo_xen demo_rings)
      = (replicate (length [demo_read, demo_read]) DISK_RET_SUCCESS, demo_xen demo_rings\<lparr>mem := m\<rparr>)"
    "\<forall>x. 4096 \<le> unat (x - 0x201000) \<longrightarrow> m x = demo_rings x"
    using xen_reads_give_no_data [of "[demo_read, demo_read]", OF find] by (auto simp: demo_info_def simp del: read_all.simps)
  then show ?thesis by (intro exI [of _ m]) (simp add: DISK_RET_SUCCESS_def del: read_all.simps)
qed

theorem ring_write_bytes_witness:
  "\<exists>m. ring_write demo_xen_env 0x5000 6 (demo_xen demo_store) = Some (demo_xen demo_store\<lparr>mem := m\<rparr>)
    \<and> ring_bytes m 0x220000 1020 6 = [1, 2, 3, 4, 1, 2]"
proof -
  have f: "ring_field xs_req_prod (demo_xen demo_store) = 1020" "ring_field xs_req_cons (demo_xen demo_store) = 1020"
    by (simp_all add: ring_field_def demo_store_def xs_offsets rd32_wr32_apart apart_def)
  have "bytes_at demo_store 0x5000 6 = [1, 2, 3, 4, 5, 6]"
    by (simp add: bytes_at_def upt_rec demo_store_def wr32_out xs_offsets)
  then show ?thesis
    using ring_write_bytes [of 6 "demo_xen demo_store" "0x5000" demo_xen_env] f
    by (auto simp: mask_nat apart_def Let_def)
qed

theorem grants_distinct_witness:
  "\<exists>gs st'. grant_frames [0x201000, 0x202000] (demo_xen (\<lambda>_. 0)) = Some (gs, st') \<and> distinct gs
    \<and> grants_frame st' (gs ! 1) 0x202000"
proof -
  obtain gs st' where "grant_frames [0x201000, 0x202000] (demo_xen (\<lambda>_. 0)) = Some (gs, st')" "distinct gs"
    "\<forall>i < 2. grants_frame st' (gs ! i) ([0x201000, 0x202000] ! i)"
    using grants_distinct [of "demo_xen (\<lambda>_. 0)" "[0x201000, 0x202000]"] by (auto simp: numeral_2_eq_2)
  then show ?thesis by (intro exI [of _ gs] exI [of _ st']) (auto dest!: spec [of _ 1])
qed

end
