(* ===== verification/Pcibios.thy ===== *)
theory Pcibios
  imports Pci Util Far "HOL-Library.Monad_Syntax"
begin

text \<open>
  The PCI BIOS: INT 1Ah with AH = B1h (\<open>src/pcibios.c\<close>), called by the 16-bit interface, and the PCI
  interrupt routing table it reports (\<open>src/pirtable.c\<close>). Parameters: the highest bus number, the
  offset of the routing table in the BIOS segment, the addresses of the table, of the BIOS32 header and
  of the 32-bit entry points.
\<close>

record pcibios_env =
  pb_MaxPCIBus :: int
  PirOffset :: u16
  entry_pcibios32 :: u32
  entry_bios32 :: u32
  pir_table_addr :: u32
  bios32_header :: u32

definition RET_FUNC_NOT_SUPPORTED :: u8 where "RET_FUNC_NOT_SUPPORTED = 0x81"
definition RET_BAD_VENDOR_ID :: u8 where "RET_BAD_VENDOR_ID = 0x83"
definition RET_DEVICE_NOT_FOUND :: u8 where "RET_DEVICE_NOT_FOUND = 0x86"
definition RET_BUFFER_TOO_SMALL :: u8 where "RET_BUFFER_TOO_SMALL = 0x89"

section \<open>Searching\<close>

text \<open>The walk over a bus with the number of matches to skip; the result is the device, or the count
  that is left.\<close>

partial_function (option) find_on_bus ::
  "(u32 \<Rightarrow> bool) \<Rightarrow> u32 \<Rightarrow> int \<Rightarrow> int option \<Rightarrow> int \<Rightarrow> 'a machine_scheme \<Rightarrow> ((int + int) \<times> 'a machine_scheme) option" where
  "find_on_bus ok reg bus b count st =
     (case b of None \<Rightarrow> Some (Inr count, st)
      | Some d \<Rightarrow>
          (case pci_config_readl (bdf16 d) reg st of (v, st) \<Rightarrow>
             if ok v \<and> count = 0 then Some (Inl d, st)
             else case pci_next d bus st of (b, st) \<Rightarrow>
               find_on_bus ok reg bus b (if ok v then count - 1 else count) st))"

declare find_on_bus.simps [code]

fun find_on_buses ::
  "(u32 \<Rightarrow> bool) \<Rightarrow> u32 \<Rightarrow> int list \<Rightarrow> int \<Rightarrow> 'a machine_scheme \<Rightarrow> (int option \<times> 'a machine_scheme) option" where
  "find_on_buses ok reg [] count st = Some (None, st)"
| "find_on_buses ok reg (bus # buses) count st =
     (case pci_first bus st of (b, st) \<Rightarrow>
        do { (r, st) \<leftarrow> find_on_bus ok reg bus b count st;
             case r of Inl d \<Rightarrow> Some (Some d, st) | Inr count \<Rightarrow> find_on_buses ok reg buses count st })"

definition pci_search ::
  "pcibios_env \<Rightarrow> (u32 \<Rightarrow> bool) \<Rightarrow> u32 \<Rightarrow> bregs \<Rightarrow> 'a machine_scheme \<Rightarrow> (bregs \<times> 'a machine_scheme) option" where
  "pci_search e ok reg r st =
     do { (found, st) \<leftarrow> find_on_buses ok reg [0..pb_MaxPCIBus e] (uint (SI r)) st;
          Some (case found of Some d \<Rightarrow> set_code_success (set_bx (bdf16 d) r)
                | None \<Rightarrow> set_code_invalid_silent RET_DEVICE_NOT_FOUND r, st) }"

section \<open>The functions\<close>

definition handle_1ab101 :: "pcibios_env \<Rightarrow> bregs \<Rightarrow> bregs" where
  "handle_1ab101 e r =
     (let r = set_al 0x01 r; r = set_bx 0x0210 r; r = set_cl (word_of_int (pb_MaxPCIBus e)) r in
      set_code_success (r\<lparr>r_edx := 0x20494350, r_edi := entry_pcibios32 e + BUILD_BIOS_ADDR\<rparr>))"

definition handle_1ab102 :: "pcibios_env \<Rightarrow> bregs \<Rightarrow> 'a machine_scheme \<Rightarrow> (bregs \<times> 'a machine_scheme) option" where
  "handle_1ab102 e r st = pci_search e (\<lambda>v. v = push_bit 16 (ucast (CX r)) OR ucast (DX r)) PCI_VENDOR_ID r st"

definition handle_1ab103 :: "pcibios_env \<Rightarrow> bregs \<Rightarrow> 'a machine_scheme \<Rightarrow> (bregs \<times> 'a machine_scheme) option" where
  "handle_1ab103 e r st = pci_search e (\<lambda>v. drop_bit 8 v = r_ecx r) PCI_CLASS_REVISION r st"

definition handle_1ab108 :: "bregs \<Rightarrow> 'a machine_scheme \<Rightarrow> bregs \<times> 'a machine_scheme" where
  "handle_1ab108 r st = (case pci_config_readb (BX r) (ucast (DI r)) st of (v, st) \<Rightarrow> (set_code_success (set_cl v r), st))"

definition handle_1ab109 :: "bregs \<Rightarrow> 'a machine_scheme \<Rightarrow> bregs \<times> 'a machine_scheme" where
  "handle_1ab109 r st = (case pci_config_readw (BX r) (ucast (DI r)) st of (v, st) \<Rightarrow> (set_code_success (set_cx v r), st))"

definition handle_1ab10a :: "bregs \<Rightarrow> 'a machine_scheme \<Rightarrow> bregs \<times> 'a machine_scheme" where
  "handle_1ab10a r st =
     (case pci_config_readl (BX r) (ucast (DI r)) st of (v, st) \<Rightarrow> (set_code_success (r\<lparr>r_ecx := v\<rparr>), st))"

definition handle_1ab10b :: "bregs \<Rightarrow> 'a machine_scheme \<Rightarrow> bregs \<times> 'a machine_scheme" where
  "handle_1ab10b r st = (set_code_success r, pci_config_writeb (BX r) (ucast (DI r)) (CL r) st)"

definition handle_1ab10c :: "bregs \<Rightarrow> 'a machine_scheme \<Rightarrow> bregs \<times> 'a machine_scheme" where
  "handle_1ab10c r st = (set_code_success r, pci_config_writew (BX r) (ucast (DI r)) (CX r) st)"

definition handle_1ab10d :: "bregs \<Rightarrow> 'a machine_scheme \<Rightarrow> bregs \<times> 'a machine_scheme" where
  "handle_1ab10d r st = (set_code_success r, pci_config_writel (BX r) (ucast (DI r)) (r_ecx r) st)"

text \<open>Offsets in the header of the routing table, 32 bytes, and in the caller's parameters.\<close>

definition pir_version :: u32 where "pir_version = 4"
definition pir_size :: u32 where "pir_size = 6"
definition pir_router_devfunc :: u32 where "pir_router_devfunc = 9"
definition pir_exclusive_irqs :: u32 where "pir_exclusive_irqs = 10"
definition pir_checksum :: u32 where "pir_checksum = 31"
definition SIZEOF_pir_header :: u16 where "SIZEOF_pir_header = 32"
definition PIR_SIGNATURE :: u32 where "PIR_SIGNATURE = 0x52495024"

definition handle_1ab10e :: "pcibios_env \<Rightarrow> bregs \<Rightarrow> 'a machine_scheme \<Rightarrow> bregs \<times> 'a machine_scheme" where
  "handle_1ab10e e r st =
     (let pir = PirOffset e; far = (\<lambda>k. MAKE_FLATPTR (r_es r) (ucast (DI r) + k)) in
      if pir = 0 then (set_code_invalid_silent RET_FUNC_NOT_SUPPORTED r, st)
      else
        (let bufsize = rd16 (mem st) (far 0);
             pirsize = rd16 (mem st) (MAKE_FLATPTR SEG_BIOS (ucast pir + pir_size)) - SIZEOF_pir_header;
             st = st\<lparr>mem := wr16 (far 0) pirsize (mem st)\<rparr> in
         if bufsize < pirsize then (set_code_invalid_silent RET_BUFFER_TOO_SMALL r, st)
         else
           (let buf_far = rd16 (mem st) (far 2); buf_seg = rd16 (mem st) (far 4);
                st = st\<lparr>mem := memcpy_far buf_seg (ucast buf_far) SEG_BIOS (ucast pir + ucast SIZEOF_pir_header)
                          (ucast pirsize) (mem st)\<rparr> in
            (set_code_success (set_bx (rd16 (mem st) (MAKE_FLATPTR SEG_BIOS (ucast pir + pir_exclusive_irqs))) r), st))))"

definition handle_1ab1XX :: "bregs \<Rightarrow> bregs" where
  "handle_1ab1XX r = set_code_invalid_silent RET_FUNC_NOT_SUPPORTED r"

text \<open>The dispatch, \<open>handle_1ab1\<close> of the code, whose name the clock has for the parameter.\<close>

definition pcibios_1ab1 :: "pcibios_env \<Rightarrow> bregs \<Rightarrow> 'a machine_scheme \<Rightarrow> (bregs \<times> 'a machine_scheme) option" where
  "pcibios_1ab1 e r st =
     (let f = AL r in
      if f = 0x01 then Some (handle_1ab101 e r, st)
      else if f = 0x02 then handle_1ab102 e r st
      else if f = 0x03 then handle_1ab103 e r st
      else if f = 0x08 then Some (handle_1ab108 r st)
      else if f = 0x09 then Some (handle_1ab109 r st)
      else if f = 0x0a then Some (handle_1ab10a r st)
      else if f = 0x0b then Some (handle_1ab10b r st)
      else if f = 0x0c then Some (handle_1ab10c r st)
      else if f = 0x0d then Some (handle_1ab10d r st)
      else if f = 0x0e then Some (handle_1ab10e e r st)
      else Some (handle_1ab1XX r, st))"

section \<open>Headers in the BIOS\<close>

definition bios32_setup :: "pcibios_env \<Rightarrow> memory \<Rightarrow> memory" where
  "bios32_setup e m =
     (let h = bios32_header e; m = wr32 (h + 4) (entry_bios32 e) m in
      m(h + 10 := m (h + 10) - checksum m h 16))"

text \<open>The table of the emulator's board: the slots with their four interrupt lines.\<close>

record link_info =
  link :: u8
  bitmap :: u16

record pir_slot =
  ps_bus :: u8
  ps_dev :: u8
  ps_links :: "link_info list"
  slot_nr :: u8

definition links4 :: "u8 \<Rightarrow> u8 \<Rightarrow> u8 \<Rightarrow> u8 \<Rightarrow> link_info list" where
  "links4 a b c d = map (\<lambda>l. \<lparr>link = l, bitmap = 0xdef8\<rparr>) [a, b, c, d]"

definition pir_slots :: "pir_slot list" where
  "pir_slots =
     [\<lparr>ps_bus = 0, ps_dev = push_bit 3 1, ps_links = links4 0x60 0x61 0x62 0x63, slot_nr = 0\<rparr>,
      \<lparr>ps_bus = 0, ps_dev = push_bit 3 2, ps_links = links4 0x61 0x62 0x63 0x60, slot_nr = 1\<rparr>,
      \<lparr>ps_bus = 0, ps_dev = push_bit 3 3, ps_links = links4 0x62 0x63 0x60 0x61, slot_nr = 2\<rparr>,
      \<lparr>ps_bus = 0, ps_dev = push_bit 3 4, ps_links = links4 0x63 0x60 0x61 0x62, slot_nr = 3\<rparr>,
      \<lparr>ps_bus = 0, ps_dev = push_bit 3 5, ps_links = links4 0x60 0x61 0x62 0x63, slot_nr = 4\<rparr>,
      \<lparr>ps_bus = 0, ps_dev = push_bit 3 6, ps_links = links4 0x61 0x62 0x63 0x60, slot_nr = 5\<rparr>]"

definition slot_bytes :: "pir_slot \<Rightarrow> u8 list" where
  "slot_bytes s = [ps_bus s, ps_dev s]
     @ concat (map (\<lambda>l. [link l, ucast (bitmap l), ucast (drop_bit 8 (bitmap l))]) (ps_links s)) @ [slot_nr s, 0]"

text \<open>The bytes of \<open>PIR_TABLE\<close> before the setup: no signature, no checksum.\<close>

definition PIR_TABLE :: "u8 list" where
  "PIR_TABLE = [0, 0, 0, 0, 0x00, 0x01, 128, 0, 0, 0x08, 0, 0, 0x86, 0x80, 0x2e, 0x12] @ replicate 16 0
     @ concat (map slot_bytes pir_slots)"

definition create_pirtable :: "pcibios_env \<Rightarrow> memory \<Rightarrow> u16 \<times> memory" where
  "create_pirtable e m =
     (let p = pir_table_addr e; m = wr32 p PIR_SIGNATURE m;
          m = m(p + pir_checksum := m (p + pir_checksum) - checksum m p 128) in
      (ucast (p - BUILD_BIOS_ADDR), m))"

end
