(* ===== verification/PcibiosSpec.thy ===== *)
theory PcibiosSpec
  imports Pcibios PciProbe UtilSpec BootSpec
begin

text \<open>
  The search of the PCI BIOS over a configuration space that does not change: the walk of
  \<open>foreachbdf\<close> lists exactly the functions that answer, those above 0 only on devices that
  say they have several, and the search picks the match with the number asked for.
\<close>

section \<open>A configuration space\<close>

definition config_addr :: "u16 \<Rightarrow> u32 \<Rightarrow> u32" where
  "config_addr b ad = 0x80000000 OR push_bit 8 (ucast b) OR (ad AND 0xfc)"

text \<open>After the address is written, the data port answers with the double word of the function
  \<open>cfg\<close>, or with the half or the byte of it that the port names.\<close>

definition steady :: "(u32 \<Rightarrow> u32) \<Rightarrow> 'a machine_scheme \<Rightarrow> bool" where
  "steady cfg st \<longleftrightarrow> (\<forall>a l.
     dev st (PortOut W32 PORT_PCI_CMD a # l) W32 PORT_PCI_DATA = cfg a \<and>
     ucast (dev st (PortOut W32 PORT_PCI_CMD a # l) W16 PORT_PCI_DATA) = (ucast (cfg a) :: u16) \<and>
     ucast (dev st (PortOut W32 PORT_PCI_CMD a # l) W8 (PORT_PCI_DATA + 2)) = (ucast (drop_bit 16 (cfg a)) :: u8))"

definition present :: "(u32 \<Rightarrow> u32) \<Rightarrow> int \<Rightarrow> bool" where
  "present cfg b \<longleftrightarrow> (let v = ucast (cfg (config_addr (bdf16 b) PCI_VENDOR_ID)) :: u16 in v \<noteq> 0 \<and> v \<noteq> 0xffff)"

definition multi :: "(u32 \<Rightarrow> u32) \<Rightarrow> int \<Rightarrow> bool" where
  "multi cfg b \<longleftrightarrow> (ucast (drop_bit 16 (cfg (config_addr (bdf16 b) PCI_HEADER_TYPE))) :: u8) AND 0x80 \<noteq> 0"

text \<open>A function number that is looked at at all.\<close>

definition scanned :: "(u32 \<Rightarrow> u32) \<Rightarrow> int \<Rightarrow> bool" where
  "scanned cfg b \<longleftrightarrow> b mod 8 = 0 \<or> present cfg (b - b mod 8) \<and> multi cfg (b - b mod 8)"

text \<open>The functions from \<open>b\<close> to the end of the bus.\<close>

definition walk :: "(u32 \<Rightarrow> u32) \<Rightarrow> int \<Rightarrow> int \<Rightarrow> int list" where
  "walk cfg bus b = filter (\<lambda>b. present cfg b \<and> scanned cfg b) [b..bus * 256 + 255]"

definition head :: "'b list \<Rightarrow> 'b option" where
  "head xs = (case xs of [] \<Rightarrow> None | x # _ \<Rightarrow> Some x)"

lemma head_simps [simp]: "head [] = None" "head (x # xs) = Some x"
  by (simp_all add: head_def)

lemma readl_steady:
  assumes "steady cfg st"
  shows "fst (pci_config_readl b ad st) = cfg (config_addr b ad)" "steady cfg (snd (pci_config_readl b ad st))"
  using assms by (simp_all add: cfg_access steady_def config_addr_def)

lemma vendor_steady:
  assumes "steady cfg st"
  shows "fst (pci_config_readw b PCI_VENDOR_ID st) = ucast (cfg (config_addr b PCI_VENDOR_ID))"
    "steady cfg (snd (pci_config_readw b PCI_VENDOR_ID st))"
  using assms by (simp_all add: cfg_access steady_def config_addr_def PCI_VENDOR_ID_def)

lemma header_steady:
  assumes "steady cfg st"
  shows "fst (pci_config_readb b PCI_HEADER_TYPE st) = ucast (drop_bit 16 (cfg (config_addr b PCI_HEADER_TYPE)))"
    "steady cfg (snd (pci_config_readb b PCI_HEADER_TYPE st))"
  using assms by (simp_all add: cfg_access steady_def config_addr_def PCI_HEADER_TYPE_def)

section \<open>The walk\<close>

lemma fn_of_0: "fn_of b = 0 \<longleftrightarrow> b mod 8 = 0"
  by (metis fn_of_mod uint_0_eq unsigned_0 word_uint_eq_iff)

lemma walk_step:
  "walk cfg bus b = (if bus * 256 + 255 < b then []
     else if present cfg b \<and> scanned cfg b then b # walk cfg bus (b + 1) else walk cfg bus (b + 1))"
  by (simp add: walk_def upto_rec1)

lemma next_fn: "b mod 8 \<noteq> 7 \<Longrightarrow> (b + 1) mod 8 = b mod 8 + (1 :: int)"
  by presburger

lemma scanned_next:
  assumes "scanned cfg b" "b mod 8 \<noteq> 0"
  shows "scanned cfg (b + 1)"
proof (cases "b mod 8 = 7")
  case True
  then have "(b + 1) mod 8 = 0" by presburger
  then show ?thesis by (simp add: scanned_def)
next
  case False
  have e: "b + 1 - (b + 1) mod 8 = b - b mod 8" by (simp add: next_fn [OF False])
  show ?thesis using assms unfolding scanned_def e by blast
qed

lemma walk_skip:
  assumes "b mod 8 = 0" "\<not> (present cfg b \<and> multi cfg b)"
  shows "walk cfg bus (b + 1) = walk cfg bus (b + 8)"
proof -
  have no: "\<not> scanned cfg (b + k)" if "0 < k" "k < 8" for k
  proof -
    have "(b + k) mod 8 = k" using assms(1) that by presburger
    then show ?thesis using assms(2) that by (simp add: scanned_def)
  qed
  have s: "walk cfg bus (b + k) = walk cfg bus (b + k + 1)" if "0 < k" "k < 8" for k
  proof (cases "bus * 256 + 255 < b + k")
    case True
    then show ?thesis by (simp add: walk_def)
  next
    case False
    then show ?thesis using no [OF that] walk_step [of cfg bus "b + k"] by simp
  qed
  show ?thesis using s [of 1] s [of 2] s [of 3] s [of 4] s [of 5] s [of 6] s [of 7] by (simp add: add.assoc)
qed

lemma pci_next_from_walk:
  assumes "steady cfg st" "scanned cfg b" "bus * 256 \<le> b" "b < bus * 256 + 264" "0 \<le> bus" "bus < 256"
  shows "fst (pci_next_from b bus st) = head (walk cfg bus b) \<and> steady cfg (snd (pci_next_from b bus st))"
  using assms
proof (induction b bus st rule: pci_next_from.induct)
  case (1 b bus st)
  show ?case
  proof (cases "bus_of b = bus")
    case False
    then have "bus * 256 + 255 < b" using bus_of_in [of bus b] 1(4-7) by linarith
    then show ?thesis using False 1(2) by (simp add: pci_next_from.simps [of b] walk_def)
  next
    case True
    have lt: "b < bus * 256 + 256" using bus_of_next [of bus b] True 1(4-7) by linarith
    obtain v s1 where v: "pci_config_readw (bdf16 b) PCI_VENDOR_ID st = (v, s1)" by (meson surj_pair)
    have s1: "steady cfg s1" and p: "present cfg b \<longleftrightarrow> v \<noteq> 0 \<and> v \<noteq> 0xffff"
      using vendor_steady [OF 1(2), of "bdf16 b"] by (simp_all add: v present_def Let_def)
    have w: "walk cfg bus b = (if present cfg b then b # walk cfg bus (b + 1) else walk cfg bus (b + 1))"
      using walk_step [of cfg bus b] lt 1(3) by simp
    show ?thesis
    proof (cases "present cfg b")
      case here: True
      then show ?thesis using v p True w s1 by (simp add: pci_next_from.simps [of b])
    next
      case False
      let ?b = "if fn_of b = 0 then b + 8 else b + 1"
      have r: "pci_next_from b bus st = pci_next_from ?b bus s1"
        using True v p False by (subst pci_next_from.simps [of b bus st]) (auto simp del: pci_next_from.simps)
      have sc: "scanned cfg ?b" and wk: "walk cfg bus b = walk cfg bus ?b"
        using scanned_next [OF 1(3)] walk_skip [of b cfg bus] w False by (auto simp: fn_of_0 scanned_def)
      have "fst (pci_next_from ?b bus s1) = head (walk cfg bus ?b) \<and> steady cfg (snd (pci_next_from ?b bus s1))"
        by (rule 1(1) [OF _ v [symmetric]]) (use True False p s1 sc 1(4-7) lt in auto)
      then show ?thesis by (simp only: r wk)
    qed
  qed
qed

lemma pci_next_walk:
  assumes "steady cfg st" "present cfg b" "scanned cfg b" "bus * 256 \<le> b" "b < bus * 256 + 256" "0 \<le> bus" "bus < 256"
  shows "fst (pci_next b bus st) = head (walk cfg bus (b + 1))" "steady cfg (snd (pci_next b bus st))"
proof -
  obtain v s1 where v: "pci_config_readb (bdf16 b) PCI_HEADER_TYPE st = (v, s1)" by (meson surj_pair)
  have s1: "steady cfg s1" and m: "multi cfg b \<longleftrightarrow> v AND 0x80 \<noteq> 0"
    using header_steady [OF assms(1), of "bdf16 b"] by (simp_all add: v multi_def)
  consider "b mod 8 \<noteq> 0" | "b mod 8 = 0" "multi cfg b" | "b mod 8 = 0" "\<not> multi cfg b" by argo
  then have "fst (pci_next b bus st) = head (walk cfg bus (b + 1)) \<and> steady cfg (snd (pci_next b bus st))"
  proof cases
    case 1
    have "fst (pci_next_from (b + 1) bus st) = head (walk cfg bus (b + 1)) \<and> steady cfg (snd (pci_next_from (b + 1) bus st))"
      by (rule pci_next_from_walk) (use assms scanned_next [OF assms(3) 1] in simp_all)
    then show ?thesis using 1 by (simp add: pci_next_def fn_of_0)
  next
    case 2
    have "(b + 1) mod 8 = 1" using 2(1) by presburger
    then have "scanned cfg (b + 1)" using assms(2) 2 by (simp add: scanned_def)
    then have "fst (pci_next_from (b + 1) bus s1) = head (walk cfg bus (b + 1)) \<and> steady cfg (snd (pci_next_from (b + 1) bus s1))"
      by (intro pci_next_from_walk) (use assms s1 in simp_all)
    then show ?thesis using 2 m v by (simp add: pci_next_def fn_of_0)
  next
    case 3
    have "scanned cfg (b + 8)" using 3(1) by (simp add: scanned_def)
    then have "fst (pci_next_from (b + 8) bus s1) = head (walk cfg bus (b + 8)) \<and> steady cfg (snd (pci_next_from (b + 8) bus s1))"
      by (intro pci_next_from_walk) (use assms s1 in simp_all)
    then show ?thesis using 3 m v walk_skip [of b cfg bus] by (simp add: pci_next_def fn_of_0)
  qed
  then show "fst (pci_next b bus st) = head (walk cfg bus (b + 1))" "steady cfg (snd (pci_next b bus st))" by simp_all
qed

lemma pci_first_walk:
  assumes "steady cfg st" "0 \<le> bus" "bus < 256"
  shows "fst (pci_first bus st) = head (walk cfg bus (bus * 256))" "steady cfg (snd (pci_first bus st))"
proof -
  have "uint (word_of_int bus :: u16) = bus" using assms(2,3) by (simp add: uint_word_of_int_eq take_bit_eq_mod)
  then have "uint (push_bit 8 (word_of_int bus) :: u16) = bus * 256"
    using assms(2,3) by (simp only: unsigned_push_bit_eq) (simp add: push_bit_eq_mult take_bit_eq_mod)
  then have u: "uint (pci_bus_devfn_to_bdf bus 0) = bus * 256" by (simp add: pci_bus_devfn_to_bdf_def)
  have "(bus * 256 - 1) mod 8 \<noteq> 0" by presburger
  then have "pci_first bus st = pci_next_from (bus * 256) bus st" by (simp add: pci_first_def u pci_next_def fn_of_0)
  moreover have "scanned cfg (bus * 256)" by (simp add: scanned_def)
  ultimately show "fst (pci_first bus st) = head (walk cfg bus (bus * 256))" "steady cfg (snd (pci_first bus st))"
    using pci_next_from_walk [OF assms(1), of "bus * 256" bus] assms(2,3) by simp_all
qed

section \<open>The search\<close>

lemma walk_in: "b \<in> set (walk cfg bus a) \<Longrightarrow> a \<le> b \<and> b \<le> bus * 256 + 255 \<and> present cfg b \<and> scanned cfg b"
  by (auto simp: walk_def)

lemma filter_from:
  assumes "filter Q [a..c] = x # xs"
  shows "xs = filter Q [x + 1..c]"
  using assms
proof (induction "nat (c + 1 - a)" arbitrary: a)
  case 0
  then show ?case by simp
next
  case (Suc n)
  then have "a \<le> c" by simp
  then show ?case using Suc.prems Suc.hyps(1) [of "a + 1"] Suc.hyps(2) by (auto simp: upto_rec1 [of a] split: if_splits)
qed

lemma walk_tail: "walk cfg bus a = x # xs \<Longrightarrow> walk cfg bus (x + 1) = xs"
  using filter_from unfolding walk_def by metis

definition matches :: "(u32 \<Rightarrow> u32) \<Rightarrow> (u32 \<Rightarrow> bool) \<Rightarrow> u32 \<Rightarrow> int list \<Rightarrow> int list" where
  "matches cfg ok reg bs = filter (\<lambda>b. ok (cfg (config_addr (bdf16 b) reg))) bs"

lemma find_on_bus_nth:
  assumes "steady cfg st" "bs = walk cfg bus a" "bus * 256 \<le> a" "0 \<le> bus" "bus < 256" "0 \<le> n"
  shows "\<exists>st'. steady cfg st' \<and> find_on_bus ok reg bus (head bs) n st =
    Some (if nat n < length (matches cfg ok reg bs) then Inl (matches cfg ok reg bs ! nat n)
          else Inr (n - int (length (matches cfg ok reg bs))), st')"
  using assms
proof (induction bs arbitrary: a n st)
  case Nil
  then show ?case by (simp add: find_on_bus.simps [of _ _ _ None] matches_def)
next
  case (Cons b bs)
  have "b \<in> set (walk cfg bus a)" using Cons.prems(2) by (metis list.set_intros(1))
  then have b: "a \<le> b" "b \<le> bus * 256 + 255" "present cfg b" "scanned cfg b" using walk_in by blast+
  have t: "bs = walk cfg bus (b + 1)" using walk_tail Cons.prems(2) by metis
  obtain v s1 where v: "pci_config_readl (bdf16 b) reg st = (v, s1)" by (meson surj_pair)
  have s1: "steady cfg s1" "v = cfg (config_addr (bdf16 b) reg)"
    using readl_steady [OF Cons.prems(1), of "bdf16 b" reg] by (simp_all add: v)
  obtain b' s2 where 2: "pci_next b bus s1 = (b', s2)" by (meson surj_pair)
  have s2: "steady cfg s2" "b' = head bs"
    using pci_next_walk [OF s1(1) b(3,4), of bus] b(1,2) Cons.prems(3-5) by (simp_all add: 2 t)
  note step = find_on_bus.simps [of ok reg bus "Some b" n st]
  note IH = Cons.IH [OF s2(1) t _ Cons.prems(4,5)]
  show ?case
  proof (cases "ok v")
    case False
    then have same: "matches cfg ok reg (b # bs) = matches cfg ok reg bs" by (simp add: matches_def flip: s1(2))
    show ?thesis unfolding same using IH [of n] Cons.prems(3,6) b(1) False by (simp add: step v 2 s2(2) split del: if_split)
  next
    case True
    show ?thesis
    proof (cases "n = 0")
      case True
      then show ?thesis using \<open>ok v\<close> s1 by (simp add: find_on_bus.simps [of ok reg bus "Some b" 0 st] v matches_def)
    next
      case False
      then have n: "nat n = Suc (nat (n - 1))" "0 \<le> n - 1" using Cons.prems(6) by simp_all
      have more: "matches cfg ok reg (b # bs) = b # matches cfg ok reg bs" using \<open>ok v\<close> by (simp add: matches_def flip: s1(2))
      have one: "find_on_bus ok reg bus (head (b # bs)) n st = find_on_bus ok reg bus (head bs) (n - 1) s2"
        using \<open>ok v\<close> False by (simp add: step v 2 s2(2))
      have e: "(if nat n < length (b # ms) then Inl ((b # ms) ! nat n) else Inr (n - int (length (b # ms))))
        = (if nat (n - 1) < length ms then Inl (ms ! nat (n - 1)) else Inr (n - 1 - int (length ms)))" for ms :: "int list"
        by (simp add: n(1) algebra_simps)
      show ?thesis unfolding more one e using IH [of "n - 1"] Cons.prems(3) b(1) n(2) by simp
    qed
  qed
qed

text \<open>The functions of the buses, in the order of the search.\<close>

definition all_functions :: "(u32 \<Rightarrow> u32) \<Rightarrow> int list \<Rightarrow> int list" where
  "all_functions cfg buses = concat (map (\<lambda>bus. walk cfg bus (bus * 256)) buses)"

lemma find_on_buses_nth:
  fixes ok :: "u32 \<Rightarrow> bool" and reg :: u32
  assumes "steady cfg st" "\<forall>bus\<in>set buses. 0 \<le> bus \<and> bus < 256" "0 \<le> n"
  defines "ms \<equiv> matches cfg ok reg (all_functions cfg buses)"
  shows "\<exists>st'. steady cfg st' \<and> find_on_buses ok reg buses n st =
    Some (if nat n < length ms then Some (ms ! nat n) else None, st')"
  using assms(1-3) unfolding ms_def
proof (induction buses arbitrary: n st)
  case Nil
  then show ?case by (simp add: matches_def all_functions_def)
next
  case (Cons bus buses)
  have r: "0 \<le> bus" "bus < 256" using Cons.prems(2) by simp_all
  let ?m = "matches cfg ok reg (walk cfg bus (bus * 256))"
  obtain b s1 where 1: "pci_first bus st = (b, s1)" by (meson surj_pair)
  have s1: "steady cfg s1" "b = head (walk cfg bus (bus * 256))"
    using pci_first_walk [OF Cons.prems(1) r] by (simp_all add: 1)
  obtain s2 where s2: "steady cfg s2" "find_on_bus ok reg bus b n s1 =
      Some (if nat n < length ?m then Inl (?m ! nat n) else Inr (n - int (length ?m)), s2)"
    using find_on_bus_nth [OF s1(1) refl _ r Cons.prems(3), of "bus * 256" ok reg] s1(2) by auto
  have app: "matches cfg ok reg (all_functions cfg (bus # buses)) = ?m @ matches cfg ok reg (all_functions cfg buses)"
    by (simp add: matches_def all_functions_def)
  show ?case
  proof (cases "nat n < length ?m")
    case True
    then show ?thesis using s2 1 by (simp add: app nth_append)
  next
    case False
    have n1: "0 \<le> n - int (length ?m)" using False Cons.prems(3) by (simp add: not_less le_nat_iff)
    then have n: "0 \<le> n - int (length ?m)" "nat (n - int (length ?m)) = nat n - length ?m"
      by (simp_all add: nat_diff_distrib)
    have "\<forall>bus\<in>set buses. 0 \<le> bus \<and> bus < 256" using Cons.prems(2) by simp
    note IH = Cons.IH [OF s2(1) this n(1), unfolded n(2)]
    have "nat n - length ?m < k \<longleftrightarrow> nat n < length ?m + k" for k using False by linarith
    then show ?thesis using IH s2(2) 1 False by (auto simp: app nth_append split: if_splits)
  qed
qed

text \<open>The functions with a vendor and device number, and those with a class code.\<close>

definition with_id :: "(u32 \<Rightarrow> u32) \<Rightarrow> pcibios_env \<Rightarrow> bregs \<Rightarrow> int list" where
  "with_id cfg e r = matches cfg (\<lambda>v. v = push_bit 16 (ucast (CX r)) OR ucast (DX r)) PCI_VENDOR_ID
     (all_functions cfg [0..pb_MaxPCIBus e])"

definition with_class :: "(u32 \<Rightarrow> u32) \<Rightarrow> pcibios_env \<Rightarrow> bregs \<Rightarrow> int list" where
  "with_class cfg e r = matches cfg (\<lambda>v. drop_bit 8 v = r_ecx r) PCI_CLASS_REVISION
     (all_functions cfg [0..pb_MaxPCIBus e])"

definition answer :: "int list \<Rightarrow> bregs \<Rightarrow> bregs" where
  "answer ms r = (if unat (SI r) < length ms then set_code_success (set_bx (bdf16 (ms ! unat (SI r))) r)
     else set_code_invalid_silent RET_DEVICE_NOT_FOUND r)"

lemma pci_search_answer:
  assumes "steady cfg st" "pb_MaxPCIBus e < 256"
  shows "\<exists>st'. pci_search e ok reg r st =
    Some (answer (matches cfg ok reg (all_functions cfg [0..pb_MaxPCIBus e])) r, st') \<and> steady cfg st'"
proof -
  have b: "\<forall>bus\<in>set [0..pb_MaxPCIBus e]. 0 \<le> bus \<and> bus < 256" using assms(2) by auto
  have "nat (uint (SI r)) = unat (SI r)" by simp
  then show ?thesis using find_on_buses_nth [OF assms(1) b, of "uint (SI r)" ok reg]
    by (auto simp: pci_search_def answer_def)
qed

text \<open>C19: PCI BIOS functions 02h and 03h, over a configuration space that does not change during the
  search: they return, with the device of the index in SI among all functions that match, in the order of
  the buses, or with the code for no such device. The functions listed are those that answer with a
  vendor and are function 0 or belong to a device whose function 0 answers and says it has several.\<close>

theorem pcibios_finds_nth:
  assumes "steady cfg st" "pb_MaxPCIBus e < 256"
  shows "(\<exists>st'. handle_1ab102 e r st = Some (answer (with_id cfg e r) r, st')) \<and>
    (\<exists>st'. handle_1ab103 e r st = Some (answer (with_class cfg e r) r, st'))"
  using pci_search_answer [OF assms] unfolding handle_1ab102_def handle_1ab103_def with_id_def with_class_def
  by blast

text \<open>A machine with a bridge of several functions and a network card.\<close>

definition demo_cfg :: "u32 \<Rightarrow> u32" where
  "demo_cfg a = (if a = 0x80000800 then 0x70008086 else if a = 0x8000080c then 0x00800000
     else if a = 0x80000900 then 0x70108086 else if a = 0x80001000 then 0x813910ec
     else if a = 0x80001100 then 0x813910ec else if a = 0x8000100c then 0 else 0xffffffff)"

definition demo_pci_dev :: device where
  "demo_pci_dev l w p = (case l of PortOut W32 q a # _ \<Rightarrow>
     if p = PORT_PCI_DATA + 2 then drop_bit 16 (demo_cfg a) else demo_cfg a | _ \<Rightarrow> 0)"

definition demo_pci :: machine where
  "demo_pci = \<lparr>mem = (\<lambda>_. 0), io_log = [], dev = demo_pci_dev\<rparr>"

definition demo_pcibios :: pcibios_env where
  "demo_pcibios = \<lparr>pb_MaxPCIBus = 0, PirOffset = 0, entry_pcibios32 = 0, entry_bios32 = 0, pir_table_addr = 0, bios32_header = 0\<rparr>"

lemma steady_demo: "steady demo_cfg demo_pci"
  by (simp add: steady_def demo_pci_def demo_pci_dev_def PORT_PCI_DATA_def)

lemma config_addr_bdf: "ucast (drop_bit 8 (config_addr x ad)) = x"
proof (rule bit_word_eqI)
  fix n
  assume "n < LENGTH(16)"
  then consider "n = 0" | "n = 1" | "n = 2" | "n = 3" | "n = 4" | "n = 5" | "n = 6" | "n = 7" | "n = 8" | "n = 9"
    | "n = 10" | "n = 11" | "n = 12" | "n = 13" | "n = 14" | "n = 15" by (auto simp: numeral_eq_Suc less_Suc_eq)
  then show "bit (ucast (drop_bit 8 (config_addr x ad)) :: u16) n = bit x n"
    by cases (simp_all add: config_addr_def bit_simps)
qed

lemma demo_absent:
  assumes "x \<notin> {8, 9, 16, 17}"
  shows "demo_cfg (config_addr x ad) = 0xffffffff"
proof -
  have n: "config_addr x ad \<noteq> a" if "ucast (drop_bit 8 a) \<noteq> x" for a using that config_addr_bdf by metis
  have e: "(0x800008 :: u16) = 8" "(0x800009 :: u16) = 9" "(0x800010 :: u16) = 16" "(0x800011 :: u16) = 17" by simp_all
  have "config_addr x ad \<noteq> 0x80000800" "config_addr x ad \<noteq> 0x8000080c" "config_addr x ad \<noteq> 0x80000900"
    "config_addr x ad \<noteq> 0x80001000" "config_addr x ad \<noteq> 0x80001100" "config_addr x ad \<noteq> 0x8000100c"
    by (rule n; use assms in \<open>simp add: e\<close>)+
  then show ?thesis by (simp add: demo_cfg_def)
qed

lemma demo_present:
  assumes "0 \<le> b" "b \<le> 255"
  shows "present demo_cfg b \<and> scanned demo_cfg b \<longleftrightarrow> b = 8 \<or> b = 9 \<or> b = 16"
proof (cases "b \<in> {8, 9, 16, 17}")
  case True
  have "present demo_cfg 8 \<and> scanned demo_cfg 8" "present demo_cfg 9 \<and> scanned demo_cfg 9"
    "present demo_cfg 16 \<and> scanned demo_cfg 16" "\<not> scanned demo_cfg 17" by code_simp+
  then show ?thesis using True by auto
next
  case False
  have "uint (bdf16 b) = b" using assms by (simp add: uint_word_of_int_eq take_bit_eq_mod)
  then have "bdf16 b \<notin> {8, 9, 16, 17}" using False by auto
  then have "\<not> present demo_cfg b" by (simp add: present_def demo_absent)
  then show ?thesis using False by auto
qed

lemma demo_functions: "all_functions demo_cfg [0] = [8, 9, 16]"
proof -
  have "walk demo_cfg 0 0 = filter (\<lambda>b. b = 8 \<or> b = 9 \<or> b = 16) [0..255]"
    unfolding walk_def by (rule filter_cong) (simp_all add: demo_present)
  moreover have "filter (\<lambda>b. b = 8 \<or> b = 9 \<or> b = 16) [0..255 :: int] = [8, 9, 16]" by code_simp
  ultimately show ?thesis by (simp add: all_functions_def)
qed

definition demo_query :: bregs where
  "demo_query = set_cx 0x8139 (set_dx 0x10ec zero_regs)"

lemma demo_with_id: "with_id demo_cfg demo_pcibios demo_query = [16]"
proof -
  have "matches demo_cfg (\<lambda>v. v = push_bit 16 (ucast (CX demo_query)) OR ucast (DX demo_query)) PCI_VENDOR_ID [8, 9, 16] = [16]"
    by code_simp
  then show ?thesis by (simp add: with_id_def demo_pcibios_def demo_functions)
qed

lemma pcibios_finds_nth_witness:
  "(\<exists>st'. handle_1ab102 demo_pcibios demo_query demo_pci =
      Some (set_code_success (set_bx 16 demo_query), st')) \<and>
   (\<exists>st'. handle_1ab103 demo_pcibios demo_query demo_pci =
      Some (answer (with_class demo_cfg demo_pcibios demo_query) demo_query, st'))"
proof -
  have "answer (with_id demo_cfg demo_pcibios demo_query) demo_query = set_code_success (set_bx 16 demo_query)"
  proof -
    have "unat (SI demo_query) = 0" by code_simp
    then show ?thesis unfolding demo_with_id by (simp add: answer_def)
  qed
  then show ?thesis
    using pcibios_finds_nth [of demo_cfg demo_pci demo_pcibios demo_query] steady_demo
    by (simp add: demo_pcibios_def)
qed

lemma wr32_elsewhere: "x \<notin> {a, a + 1, a + 2, a + 3} \<Longrightarrow> wr32 a v m x = m x"
  by (auto simp: wr32_def wr16_def ac_simps)

text \<open>C20: The PCI interrupt routing table and the header of the BIOS32 services are completed for any contents
  of memory: the table gets its signature and the header the address of the entry point, the bytes of each then
  sum to 0, no byte changes but these and the two checksums, and the offset reported for the table is that
  of its address in the BIOS segment.\<close>

theorem bios_tables_sum_to_zero:
  "let p = pir_table_addr e; h = bios32_header e; m1 = snd (create_pirtable e m); m2 = bios32_setup e m in
   checksum m1 p 128 = 0 \<and> rd32 m1 p = PIR_SIGNATURE \<and> fst (create_pirtable e m) = ucast (p - BUILD_BIOS_ADDR) \<and>
   (\<forall>x. x \<in> {p, p + 1, p + 2, p + 3, p + pir_checksum} \<or> m1 x = m x) \<and>
   checksum m2 h 16 = 0 \<and> rd32 m2 (h + 4) = entry_bios32 e \<and>
   (\<forall>x. x \<in> {h + 4, h + 5, h + 6, h + 7, h + 10} \<or> m2 x = m x)"
proof -
  let ?p = "pir_table_addr e" and ?h = "bios32_header e"
  have 1: "checksum (snd (create_pirtable e m)) ?p 128 = 0"
    unfolding create_pirtable_def Let_def snd_conv
    by (rule checksum_fixed) (simp add: pir_checksum_def)
  have 2: "checksum (bios32_setup e m) ?h 16 = 0"
    unfolding bios32_setup_def Let_def by (rule checksum_fixed) simp
  have 3: "rd32 (snd (create_pirtable e m)) ?p = PIR_SIGNATURE"
    using rd32_wr32_same [of ?p PIR_SIGNATURE m]
    by (simp add: create_pirtable_def Let_def pir_checksum_def rd32_def rd16_def)
  have 4: "rd32 (bios32_setup e m) (?h + 4) = entry_bios32 e"
    using rd32_wr32_same [of "?h + 4" "entry_bios32 e" m] by (simp add: bios32_setup_def Let_def rd32_def rd16_def)
  have 5: "x \<in> {?p, ?p + 1, ?p + 2, ?p + 3, ?p + pir_checksum} \<or> snd (create_pirtable e m) x = m x" for x
    using wr32_elsewhere [of x ?p PIR_SIGNATURE m] by (auto simp: create_pirtable_def Let_def)
  have 6: "x \<in> {?h + 4, ?h + 5, ?h + 6, ?h + 7, ?h + 10} \<or> bios32_setup e m x = m x" for x
    using wr32_elsewhere [of x "?h + 4" "entry_bios32 e" m] by (auto simp: bios32_setup_def Let_def ac_simps)
  have 7: "fst (create_pirtable e m) = ucast (?p - BUILD_BIOS_ADDR)" by (simp add: create_pirtable_def Let_def)
  show ?thesis unfolding Let_def using 1 2 3 4 5 6 7 by blast
qed

end
