(* ===== verification/Spec2Isabelle.thy ===== *)
theory Spec2Isabelle
  imports PmmSpec UtilSpec KbdTrack BootSpec CdromSpec ClockSpec PciSpec InputSpec SystemSpec FloppySpec AtaReturn BlockcmdSpec AtaInit XenSpec PcibiosSpec
begin

text \<open>
  A model of SeaBIOS, the BIOS of the files under \<open>src/\<close>, with the theorems about it. Every definition is a
  translation of the C function of the same name (a suffix or a shorter name where HOL has the name already;
  \<open>count\<close>, \<open>type\<close> and the like); large functions are split at their loops and at their calls.

  \<^bold>\<open>The parts and how they interact.\<close> Interrupts from a guest reach the BIOS as a set of registers (record
  \<open>bregs\<close>); a service reads its arguments there, works on memory and I/O ports, and leaves the registers with a
  status and the carry flag. The disk services of INT 13h ask the block layer for the drive of a number and
  hand a request (\<open>disk_op_s\<close>) to the driver of its type: floppy, ATA, ATAPI, USB, Xen. The boot sequence of
  INT 19h walks a list that the set up of the drivers fills. Keyboard and mouse bytes arrive from the i8042 or
  from USB reports and end in the key buffer of the BIOS data area or in calls of a mouse handler. Memory
  for all of them comes from the zones of \<open>pmm.c\<close>, which serve option ROMs through the PMM interface too, and
  the memory map of INT 15h/E820h is the list kept by \<open>memmap.c\<close>. At start the PCI code numbers the buses
  and gives every device its addresses.

  \<^bold>\<open>The machine.\<close> \<^verbatim>\<open>Prelude\<close> has the integer types (words of 8, 16, 32 and 64 bits, so that
  all arithmetic wraps as in C), the macros of \<open>types.h\<close> and lemmas shared by all parts. \<^verbatim>\<open>Machine\<close> has memory as a function
  from 32-bit addresses to bytes, the cells of \<open>biosvar.h\<close>, the registers and the ports: a state of type
  \<open>machine\<close> holds the log of all port accesses and a device, a function of that log, answers each read. A
  theorem about all states so holds for every hardware that answers a read by what happened
  before. States of the components extend \<open>machine\<close> by their C variables. \<^verbatim>\<open>Region\<close> has the lemmas on regions
  of memory that do not overlap.

  \<^bold>\<open>Theories, code and lemmas.\<close>
  \<^item> \<^verbatim>\<open>E820\<close>: \<open>memmap.c\<close>. The map as a list of disjoint sorted ranges, and what adding a range does to
    every address. Locale \<open>range_map\<close> states the contract of such a map.
  \<^item> \<^verbatim>\<open>Util\<close>, \<^verbatim>\<open>Far\<close>, \<^verbatim>\<open>Output\<close>: \<open>util.c\<close> on flat and segmented memory, \<open>output.c\<close>. \<^verbatim>\<open>UtilSpec\<close> relates them to
    lists of bytes; the string written by \<open>snprintf\<close> is bounded by its buffer.
  \<^item> \<^verbatim>\<open>Pmm\<close>: \<open>pmm.c\<close>, whose blocks are linked structures in a store of addresses. \<^verbatim>\<open>PmmRep\<close> relates a zone to the
    list of its blocks, \<^verbatim>\<open>PmmInv\<close> has the invariant over these lists, \<^verbatim>\<open>PmmSpec\<close> what callers may rely on:
    blocks are aligned, apart and inside the zone, freeing undoes an allocation. Locale \<open>allocator\<close> is the contract.
  \<^item> \<^verbatim>\<open>Kbd\<close>: \<open>kbd.c\<close>. \<^verbatim>\<open>KbdSpec\<close> shows the buffer to be a queue of 15 keys (locale \<open>bounded_queue\<close>) that every
    scancode keeps, \<^verbatim>\<open>KbdTrack\<close> that the shift flags follow the keys.
  \<^item> \<^verbatim>\<open>Ps2port\<close>, \<^verbatim>\<open>Ps2irq\<close>, \<^verbatim>\<open>Mouse\<close>, \<^verbatim>\<open>UsbHid\<close>: \<open>ps2port.c\<close>, \<open>mouse.c\<close>, \<open>usb-hid.c\<close>. \<^verbatim>\<open>Ps2Spec\<close> reads the log of the
    ports as the i8042 does and shows that commands reach their device only; \<^verbatim>\<open>InputSpec\<close> has the
    packets of the mouse and the keys of a USB report.
  \<^item> \<^verbatim>\<open>Boot\<close>: \<open>boot.c\<close>. \<^verbatim>\<open>BootSpec\<close>: globs against an inductive relation, the boot list as a stable sort (locale
    \<open>stable_insertion\<close>), the order of the boot attempts.
  \<^item> \<^verbatim>\<open>Block\<close>, \<^verbatim>\<open>Disk\<close>, \<^verbatim>\<open>Cdrom\<close>: \<open>block.c\<close>, \<open>disk.c\<close>, \<open>cdrom.c\<close>. \<^verbatim>\<open>BlockSpec\<close>, \<^verbatim>\<open>DiskSpec\<close>, \<^verbatim>\<open>CdromSpec\<close>: geometry, the status
    protocol of INT 13h over all functions, the requests accepted, the data of the emulated drive, locks.
  \<^item> \<^verbatim>\<open>Floppy\<close>, \<^verbatim>\<open>Ata\<close>, \<^verbatim>\<open>AtaInit\<close>, \<^verbatim>\<open>Blockcmd\<close>: \<open>floppy.c\<close>, \<open>ata.c\<close>, \<open>blockcmd.c\<close> and \<open>usb-msc.c\<close>. \<^verbatim>\<open>FloppySpec\<close>,
    \<^verbatim>\<open>AtaSpec\<close>, \<^verbatim>\<open>BlockcmdSpec\<close> decode what was written to the controllers on the side of the device (DMA
    registers, descriptor tables, task files, command blocks); \<^verbatim>\<open>AtaReturn\<close> shows that ATA requests return.
  \<^item> \<^verbatim>\<open>Clock\<close>: \<open>clock.c\<close> with \<open>pic.c\<close>. \<^verbatim>\<open>ClockSpec\<close>: the tick counter, delays, the CMOS clock, user timers and an
    inductive step relation with the users of the periodic interrupt as its invariant.
  \<^item> \<^verbatim>\<open>System\<close>, \<^verbatim>\<open>Apm\<close>, \<^verbatim>\<open>Vgahooks\<close>: \<open>system.c\<close>, \<open>apm.c\<close>, \<open>vgahooks.c\<close>. \<^verbatim>\<open>SystemSpec\<close>: the block move with the
    descriptors the CPU loads, and the enumeration of the memory map by a guest.
  \<^item> \<^verbatim>\<open>Pci\<close>, \<^verbatim>\<open>Pciinit\<close>: \<open>pci.c\<close>, \<open>pciinit.c\<close>. \<^verbatim>\<open>PciLayout\<close> has the arithmetic of a region, \<^verbatim>\<open>PciProbe\<close> the probe, \<^verbatim>\<open>PciPass1\<close>
    and \<^verbatim>\<open>PciPass2\<close> the two passes over a tree of buses, \<^verbatim>\<open>PciSpec\<close> the allocation as a whole with the
    windows that the bridges decode.
  \<^item> \<^verbatim>\<open>Pcibios\<close>: \<open>pcibios.c\<close>, \<open>pirtable.c\<close>. \<^verbatim>\<open>PcibiosSpec\<close>: the searches of a guest against the list of the functions
    that answer, and the two tables.
  \<^item> \<^verbatim>\<open>Xenstore\<close>, \<^verbatim>\<open>Xenblk\<close>, \<^verbatim>\<open>Xensetup\<close>: \<open>xen.c\<close>, \<open>xen-xs.c\<close>, \<open>xen-blk.c\<close>. \<^verbatim>\<open>XenSpec\<close>: grants, the rings, and what the
    code does where it differs from what it means to do.

  The contracts that the clients use are locales, each interpreted on the definitions of the component that
  provides it. The properties that join components are in the last theory of each chain, as the block move and
  the enumeration in \<^verbatim>\<open>SystemSpec\<close>.

  \<^bold>\<open>Errors, loops and bounds.\<close> Error codes are values, as in the code. A loop with no bound in the source is a
  \<open>partial_function\<close> over \<open>option\<close>, and \<open>None\<close> means that it does not end; it also stands for an
  operation that leaves the model: a halt, a power-off, a panic, a shift by the width of a word or more, an
  index outside a table where C is undefined, a wait for a key that never comes. Where it matters that the code
  returns, it is proved: \<open>ata_requests_return\<close>, \<open>floppy\<close> and time stamp delays, the allocator, the PCI passes. Bounds
  of the source are kept: 10000 polls of the i8042, 16 bytes flushed from it, 8 modifier keys of a report, 16
  descriptors of a DMA table, 37 ticks of the floppy motor, 32 seconds for an IDE drive, rings of 1024 bytes, 30
  grants.

  \<^bold>\<open>Parameters.\<close> Code outside the model and hardware with a life of its own are arguments, collected in a
  record per component (\<open>clock_env\<close>, \<open>ata_env\<close>, \<open>cdb_env\<close>, \<open>xen_env\<close> and so on): what other threads do while a driver yields, software
  interrupts and far calls into a guest, the time stamp counter, USB transfers, hypercalls and the far side
  of the Xen rings. Hypotheses on them are named predicates, and each theorem that has one comes with a
  witness at a concrete instance.

  \<^bold>\<open>Not modelled.\<close> USB host controllers, AHCI and virtio, which work by structures shared with the hardware; the
  power-on sequence, paging of ROM areas, SMM, start-up of other CPUs and stack switching, which need the
  CPU's control registers; the ACPI, MP and SMBIOS tables, the boot splash, coreboot and emulator files, option
  ROM calls; the assembler; the third-party LZMA and JPEG decoders. Debug output has no effect in the model.
  The configuration is the default of \<open>config.h\<close>.
\<close>

end
